(* ===== verification/Prelude.thy ===== *)
theory Prelude
  imports Main "HOL-Library.Word" "HOL-Library.AList" "HOL-Library.Option_ord"
begin

text \<open>
  Shared vocabulary of the development: JavaScript strings as lists of UTF-16 code units, the
  numbers the code tests with \<^verbatim>\<open>Number.isInteger\<close>, the insertion-ordered \<^verbatim>\<open>Map\<close> and
  \<^verbatim>\<open>Set\<close> of JavaScript as association lists and distinct lists, and two interfaces used all over:
  a store with insertion-ordered keys (locale \<open>ordered_store\<close>) and a state machine with an
  invariant (locale \<open>machine\<close>).
\<close>

named_theorems js_eval \<open>equations that evaluate JavaScript strings and maps on concrete input\<close>

subsection \<open>Strings and numbers\<close>

type_synonym code_unit = "16 word"
type_synonym jstring = "code_unit list"

definition unit_of_char :: "char \<Rightarrow> code_unit" where
  "unit_of_char c = of_nat (of_char c)"

definition js :: "string \<Rightarrow> jstring" where
  "js s = map unit_of_char s"

lemma unit_of_char_inject [simp]: "unit_of_char c = unit_of_char d \<longleftrightarrow> c = d"
proof
  assume "unit_of_char c = unit_of_char d"
  then have "(of_char c :: nat) mod 65536 = of_char d mod 65536"
    by (simp add: unit_of_char_def word_unat_eq_iff unat_of_nat)
  moreover have "(of_char c :: nat) < 65536" "(of_char d :: nat) < 65536"
    by (rule less_trans [OF nat_of_char_less_256], simp)+
  ultimately show "c = d" by simp
qed simp

lemma js_inject [simp]: "js s = js t \<longleftrightarrow> s = t"
  unfolding js_def by (rule inj_map_eq_map) (simp add: inj_on_def)

lemma length_js [simp]: "length (js s) = length s"
  by (simp add: js_def)

lemma js_eq_Nil [simp]: "js s = [] \<longleftrightarrow> s = []"
  by (simp add: js_def)

text \<open>
  A JavaScript number as the code reads it where its first test is \<^verbatim>\<open>Number.isInteger\<close> or
  \<^verbatim>\<open>Number.isSafeInteger\<close>: every value that fails the test (fractions, NaN, the infinities)
  takes the same branch.
\<close>

datatype jsnum = JInt int | JNonInt

fun isInteger :: "jsnum \<Rightarrow> bool" where
  "isInteger (JInt _) = True"
| "isInteger JNonInt = False"

definition safe_int :: "int \<Rightarrow> bool" where
  "safe_int n \<longleftrightarrow> - 9007199254740991 \<le> n \<and> n \<le> 9007199254740991"

fun isSafeInteger :: "jsnum \<Rightarrow> bool" where
  "isSafeInteger (JInt n) = safe_int n"
| "isSafeInteger JNonInt = False"

subsection \<open>Sets and maps with insertion order\<close>

text \<open>
  \<^verbatim>\<open>new Set(xs)\<close> keeps the first occurrence of each element in order; \<^verbatim>\<open>Map.set\<close> on a present
  key keeps its place, on a new key appends; \<^verbatim>\<open>Map.delete\<close> removes the key.
  Maps are the library's association lists: \<open>AList.update\<close> and \<open>AList.delete\<close> have exactly
  this behaviour, and \<open>map_of\<close> is \<^verbatim>\<open>Map.get\<close>.
\<close>

type_synonym ('k, 'v) jmap = "('k \<times> 'v) list"

abbreviation jget :: "('k, 'v) jmap \<Rightarrow> 'k \<Rightarrow> 'v option" where
  "jget m k \<equiv> map_of m k"

abbreviation jset :: "'k \<Rightarrow> 'v \<Rightarrow> ('k, 'v) jmap \<Rightarrow> ('k, 'v) jmap" where
  "jset k v m \<equiv> AList.update k v m"

abbreviation jdel :: "'k \<Rightarrow> ('k, 'v) jmap \<Rightarrow> ('k, 'v) jmap" where
  "jdel k m \<equiv> AList.delete k m"

abbreviation jkeys :: "('k, 'v) jmap \<Rightarrow> 'k list" where
  "jkeys m \<equiv> map fst m"

definition set_add :: "'a \<Rightarrow> 'a list \<Rightarrow> 'a list" where
  "set_add x s = (if x \<in> set s then s else s @ [x])"

definition set_remove :: "'a \<Rightarrow> 'a list \<Rightarrow> 'a list" where
  "set_remove x s = filter (\<lambda>y. y \<noteq> x) s"

definition set_of :: "'a list \<Rightarrow> 'a list" where
  "set_of xs = foldl (\<lambda>s x. set_add x s) [] xs"

lemma set_set_add [simp]: "set (set_add x s) = insert x (set s)"
  by (auto simp: set_add_def)

lemma distinct_set_add [simp]: "distinct s \<Longrightarrow> distinct (set_add x s)"
  by (simp add: set_add_def)

lemma set_set_remove [simp]: "set (set_remove x s) = set s - {x}"
  by (auto simp: set_remove_def)

lemma distinct_set_remove [simp]: "distinct s \<Longrightarrow> distinct (set_remove x s)"
  by (simp add: set_remove_def)

lemma set_foldl_add: "set (foldl (\<lambda>s x. set_add x s) s xs) = set s \<union> set xs"
  by (induction xs arbitrary: s) auto

lemma distinct_foldl_add: "distinct s \<Longrightarrow> distinct (foldl (\<lambda>s x. set_add x s) s xs)"
  by (induction xs arbitrary: s) auto

lemma set_set_of [simp]: "set (set_of xs) = set xs"
  by (simp add: set_of_def set_foldl_add)

lemma distinct_set_of [simp]: "distinct (set_of xs)"
  by (simp add: set_of_def distinct_foldl_add)

lemma length_set_of: "length (set_of xs) = card (set xs)"
  using distinct_card [of "set_of xs"] by simp

lemma foldl_add_distinct:
  "distinct (s @ xs) \<Longrightarrow> foldl (\<lambda>s x. set_add x s) s xs = s @ xs"
  by (induction xs arbitrary: s) (auto simp: set_add_def)

lemma set_of_distinct: "distinct xs \<Longrightarrow> set_of xs = xs"
  using foldl_add_distinct [of "[]" xs] by (simp add: set_of_def)

lemma jget_jset [simp]: "jget (jset k v m) k' = (if k' = k then Some v else jget m k')"
  by (simp add: update_conv)

lemma jget_jdel [simp]: "jget (jdel k m) k' = (if k' = k then None else jget m k')"
  by (simp add: delete_conv)

lemma jkeys_jdel [simp]: "jkeys (jdel k m) = set_remove k (jkeys m)"
  by (induction m) (auto simp: set_remove_def)

lemma jkeys_jset: "jkeys (jset k v m) = set_add k (jkeys m)"
  by (induction m) (auto simp: set_add_def)

lemma jget_eq_None_iff: "jget m k = None \<longleftrightarrow> k \<notin> set (jkeys m)"
  by (simp add: map_of_eq_None_iff)

lemma jget_SomeD: "jget m k = Some v \<Longrightarrow> k \<in> set (jkeys m)"
  by (metis jget_eq_None_iff option.distinct(1))

lemma distinct_jset [simp]: "distinct (jkeys m) \<Longrightarrow> distinct (jkeys (jset k v m))"
  by (simp add: jkeys_jset)

subsection \<open>A store with insertion-ordered keys\<close>

text \<open>
  What the registries, the correlation store and the caches rely on: lookup after write and
  after delete, and the order of the keys (a new key goes last, the first key is the oldest).
\<close>

locale ordered_store =
  fixes get :: "'m \<Rightarrow> 'k \<Rightarrow> 'v option"
    and put :: "'k \<Rightarrow> 'v \<Rightarrow> 'm \<Rightarrow> 'm"
    and del :: "'k \<Rightarrow> 'm \<Rightarrow> 'm"
    and keys :: "'m \<Rightarrow> 'k list"
    and ok :: "'m \<Rightarrow> bool"
  assumes get_put: "get (put k v m) k' = (if k' = k then Some v else get m k')"
    and get_del: "get (del k m) k' = (if k' = k then None else get m k')"
    and keys_put: "keys (put k v m) = set_add k (keys m)"
    and keys_del: "keys (del k m) = set_remove k (keys m)"
    and in_keys: "k \<in> set (keys m) \<longleftrightarrow> get m k \<noteq> None"
    and ok_distinct: "ok m \<longleftrightarrow> distinct (keys m)"
begin

lemma ok_put: "ok m \<Longrightarrow> ok (put k v m)"
  by (simp add: ok_distinct keys_put)

lemma ok_del: "ok m \<Longrightarrow> ok (del k m)"
  by (simp add: ok_distinct keys_del)

lemma get_fold_del: "get (fold del ks m) k = (if k \<in> set ks then None else get m k)"
  by (induction ks arbitrary: m) (auto simp: get_del)

lemma ok_fold_del: "ok m \<Longrightarrow> ok (fold del ks m)"
  by (induction ks arbitrary: m) (auto intro: ok_del)

lemma get_touch: "get (put k v (del k m)) k' = (if k' = k then Some v else get m k')"
  by (simp add: get_put get_del)

lemma keys_touch: "keys (put k v (del k m)) = set_remove k (keys m) @ [k]"
  by (simp add: keys_put keys_del set_add_def)

lemma size_touch:
  assumes "ok m" shows "length (keys (put k v (del k m))) =
    (if get m k = None then Suc (length (keys m)) else length (keys m))"
proof -
  have d: "distinct (keys m)" using assms by (simp add: ok_distinct)
  have "length (set_remove k (keys m)) = card (set (keys m) - {k})"
    using distinct_card [of "set_remove k (keys m)"] d by simp
  moreover have "0 < length (keys m)" if "k \<in> set (keys m)"
    using that by (cases "keys m") auto
  ultimately show ?thesis using d in_keys [of k m]
    by (auto simp: keys_touch distinct_card)
qed

lemma size_del:
  assumes "ok m" and "get m k \<noteq> None"
  shows "Suc (length (keys (del k m))) = length (keys m)"
proof -
  have d: "distinct (keys m)" and k: "k \<in> set (keys m)"
    using assms by (simp_all add: ok_distinct in_keys)
  have "length (set_remove k (keys m)) = card (set (keys m) - {k})"
    using distinct_card [of "set_remove k (keys m)"] d by simp
  then show ?thesis using d k
    by (cases "keys m") (auto simp: keys_del distinct_card)
qed

end

interpretation jm: ordered_store map_of AList.update AList.delete "map fst"
    "\<lambda>m. distinct (map fst m)"
  by unfold_locales (auto simp: jkeys_jset map_of_eq_None_iff)

subsection \<open>Evicting the oldest entries\<close>

text \<open>
  \<^verbatim>\<open>while (map.size > max) map.delete(map.keys().next().value)\<close>: the loop of the caches and of
  the correlation store. It ends because each round removes one entry.
\<close>

function evict :: "nat \<Rightarrow> ('k, 'v) jmap \<Rightarrow> ('k, 'v) jmap" where
  "evict n m = (if length m > n then
      (case m of [] \<Rightarrow> m | (k, _) # _ \<Rightarrow> evict n (jdel k m)) else m)"
  by pat_completeness auto
termination
proof (relation "measure (\<lambda>(n, m). length m)")
  fix n and m :: "('k \<times> 'v) list" and x m' k v
  assume "m = x # m'" "(k, v) = x"
  then have "jdel k m = jdel k m'" by auto
  moreover have "length (jdel k m') \<le> length m'" by (rule length_delete_le)
  ultimately show "((n, jdel k m), n, m) \<in> measure (\<lambda>(n, m). length m)"
    using \<open>m = x # m'\<close> by simp
qed simp

declare evict.simps [simp del]

lemma jdel_notin: "k \<notin> set (jkeys m) \<Longrightarrow> jdel k m = m"
  by (induction m) auto

lemma evict_eq_drop: "distinct (jkeys m) \<Longrightarrow> evict n m = drop (length m - n) m"
proof (induction n m rule: evict.induct)
  case (1 n m)
  show ?case
  proof (cases "length m > n")
    case False
    then show ?thesis by (simp add: evict.simps [of n m])
  next
    case True
    then obtain k v m' where m: "m = (k, v) # m'" by (cases m) auto
    have d: "jdel k m = m'" using "1.prems" by (simp add: m jdel_notin)
    have IH: "evict n (jdel k m) = drop (length (jdel k m) - n) (jdel k m)"
      using "1.IH" [OF True m refl] "1.prems" unfolding d by (simp add: m)
    have "evict n m = evict n (jdel k m)"
      using True by (subst evict.simps) (simp add: m)
    also have "\<dots> = drop (length m' - n) m'" using IH by (simp only: d)
    also have "\<dots> = drop (length m - n) m" using True by (simp add: m Suc_diff_le)
    finally show ?thesis .
  qed
qed

lemma distinct_evict: "distinct (jkeys m) \<Longrightarrow> distinct (jkeys (evict n m))"
  by (simp add: evict_eq_drop drop_map [symmetric] distinct_drop)

lemma length_evict: "distinct (jkeys m) \<Longrightarrow> length (evict n m) = min n (length m)"
  by (simp add: evict_eq_drop)

lemma evict_subset: "distinct (jkeys m) \<Longrightarrow> jget (evict n m) k = Some v \<Longrightarrow> jget m k = Some v"
  using set_drop_subset [of "length m - n" m] distinct_evict [of m n]
  by (simp add: evict_eq_drop map_of_eq_Some_iff) blast

lemma evict_keeps_last:
  assumes "distinct (jkeys (m @ [(k, v)]))" and "0 < n"
  shows "jget (evict n (m @ [(k, v)])) k = Some v"
proof -
  have "drop (length (m @ [(k, v)]) - n) (m @ [(k, v)]) = drop (Suc (length m) - n) m @ [(k, v)]"
    using assms(2) by simp
  then show ?thesis
    using distinct_evict [OF assms(1), of n]
    by (intro map_of_is_SomeI) (simp_all add: evict_eq_drop [OF assms(1)])
qed

subsection \<open>State machines with an invariant\<close>

locale machine =
  fixes step :: "'s \<Rightarrow> 'e \<Rightarrow> 's" and init :: 's and inv :: "'s \<Rightarrow> bool"
  assumes inv_init: "inv init"
    and inv_step: "inv s \<Longrightarrow> inv (step s e)"
begin

lemma inv_run_from: "inv s \<Longrightarrow> inv (foldl step s es)"
  by (induction es arbitrary: s) (auto intro: inv_step)

lemma inv_run: "inv (foldl step init es)"
  by (rule inv_run_from [OF inv_init])

end

text \<open>Lookups stay lookups: this library rule would turn them into set membership.\<close>

declare map_of_eq_Some_iff [simp del]

end
