(* ===== verification/Protocol_Text.thy ===== *)
theory Protocol_Text
  imports Prelude
begin

text \<open>
  Text-level operations of the wire protocol and of the bridge: the UTF-8 byte count of
  \<^verbatim>\<open>packages/protocol/src/json.ts\<close> against the encoder \<^verbatim>\<open>Buffer.from\<close> uses, decimal numbers,
  and the JSON text of a pair of strings that the reply route registry takes as an index key.
\<close>

unbundle bit_operations_syntax

subsection \<open>UTF-8\<close>

definition high_surrogate :: "code_unit \<Rightarrow> bool" where
  "high_surrogate c \<longleftrightarrow> 0xd800 \<le> c \<and> c \<le> 0xdbff"

definition low_surrogate :: "code_unit \<Rightarrow> bool" where
  "low_surrogate c \<longleftrightarrow> 0xdc00 \<le> c \<and> c \<le> 0xdfff"

text \<open>The counting loop; the index jumps by two over a surrogate pair.\<close>

fun utf8ByteLength :: "jstring \<Rightarrow> nat" where
  "utf8ByteLength [] = 0"
| "utf8ByteLength (code # rest) =
     (if code \<le> 0x7f then 1 + utf8ByteLength rest
      else if code \<le> 0x7ff then 2 + utf8ByteLength rest
      else if high_surrogate code \<and> rest \<noteq> [] then
        (case rest of
           [] \<Rightarrow> 3
         | next_code # rest' \<Rightarrow>
             if low_surrogate next_code then 4 + utf8ByteLength rest'
             else 3 + utf8ByteLength rest)
      else 3 + utf8ByteLength rest)"

text \<open>
  The encoder: \<^verbatim>\<open>Buffer.from(text)\<close> encodes the scalar values of the text, a lone surrogate
  becoming U+FFFD.
\<close>

fun scalar_values :: "jstring \<Rightarrow> nat list" where
  "scalar_values [] = []"
| "scalar_values (c # rest) =
     (if high_surrogate c then
        (case rest of
           [] \<Rightarrow> [0xfffd]
         | d # rest' \<Rightarrow>
             if low_surrogate d
             then (0x10000 + (unat c - 0xd800) * 0x400 + (unat d - 0xdc00)) # scalar_values rest'
             else 0xfffd # scalar_values rest)
      else if low_surrogate c then 0xfffd # scalar_values rest
      else unat c # scalar_values rest)"

definition utf8_bytes :: "nat \<Rightarrow> nat list" where
  "utf8_bytes n =
     (if n < 0x80 then [n]
      else if n < 0x800 then [0xc0 + n div 64, 0x80 + n mod 64]
      else if n < 0x10000 then [0xe0 + n div 4096, 0x80 + n div 64 mod 64, 0x80 + n mod 64]
      else [0xf0 + n div 262144, 0x80 + n div 4096 mod 64, 0x80 + n div 64 mod 64, 0x80 + n mod 64])"

definition buffer_from :: "jstring \<Rightarrow> nat list" where
  "buffer_from s = concat (map utf8_bytes (scalar_values s))"

lemma buffer_from_Nil [simp]: "buffer_from [] = []"
  by (simp add: buffer_from_def)

lemma surrogate_bounds:
  "high_surrogate c \<Longrightarrow> 0xd800 \<le> unat c \<and> unat c \<le> 0xdbff"
  "low_surrogate c \<Longrightarrow> 0xdc00 \<le> unat c \<and> unat c \<le> 0xdfff"
  by (simp_all add: high_surrogate_def low_surrogate_def word_le_nat_alt)

lemma not_both_surrogates: "high_surrogate c \<Longrightarrow> \<not> low_surrogate c"
  using surrogate_bounds by fastforce

lemma unit_less: "unat (c :: code_unit) < 65536"
  using unsigned_less [of c] by simp

lemma buffer_from_pair:
  "high_surrogate c \<Longrightarrow> low_surrogate d \<Longrightarrow> buffer_from (c # d # r) =
     utf8_bytes (0x10000 + (unat c - 0xd800) * 0x400 + (unat d - 0xdc00)) @ buffer_from r"
  by (simp add: buffer_from_def)

lemma buffer_from_lone:
  "high_surrogate c \<and> (rest = [] \<or> \<not> low_surrogate (hd rest)) \<or> low_surrogate c \<Longrightarrow>
   buffer_from (c # rest) = utf8_bytes 0xfffd @ buffer_from rest"
  using not_both_surrogates by (cases rest) (auto simp: buffer_from_def)

lemma buffer_from_bmp:
  "\<not> high_surrogate c \<Longrightarrow> \<not> low_surrogate c \<Longrightarrow>
   buffer_from (c # rest) = utf8_bytes (unat c) @ buffer_from rest"
  by (simp add: buffer_from_def)

lemma length_utf8_bytes:
  "length (utf8_bytes n) = (if n < 0x80 then 1 else if n < 0x800 then 2 else if n < 0x10000 then 3 else 4)"
  by (simp add: utf8_bytes_def)

lemma unit_small_iff:
  "(c :: code_unit) \<le> 0x7f \<longleftrightarrow> unat c < 0x80" "(c :: code_unit) \<le> 0x7ff \<longleftrightarrow> unat c < 0x800"
  by (auto simp: word_le_nat_alt)

lemma surrogate_large:
  "high_surrogate c \<or> low_surrogate c \<Longrightarrow> \<not> c \<le> 0x7f \<and> \<not> c \<le> 0x7ff"
  using surrogate_bounds [of c] unfolding unit_small_iff by linarith

lemma utf8ByteLength_cases:
  assumes "s = code # rest"
  obtains (pair) d r where "high_surrogate code" "rest = d # r" "low_surrogate d"
    "utf8ByteLength s = 4 + utf8ByteLength r"
  | (lone) "high_surrogate code \<and> (rest = [] \<or> \<not> low_surrogate (hd rest)) \<or> low_surrogate code"
    "utf8ByteLength s = 3 + utf8ByteLength rest"
  | (bmp) "\<not> high_surrogate code" "\<not> low_surrogate code"
    "utf8ByteLength s = length (utf8_bytes (unat code)) + utf8ByteLength rest"
proof (cases "high_surrogate code")
  case True
  show thesis
  proof (cases rest)
    case Nil
    then show thesis using True surrogate_large [of code] assms by (intro lone) simp_all
  next
    case (Cons d r)
    show thesis
    proof (cases "low_surrogate d")
      case ld: True
      then show thesis using True Cons surrogate_large [of code] assms by (intro pair) simp_all
    next
      case False
      then show thesis using True Cons surrogate_large [of code] assms by (intro lone) simp_all
    qed
  qed
next
  case False
  show thesis
  proof (cases "low_surrogate code")
    case True
    then show thesis using False surrogate_large [of code] assms by (intro lone) simp_all
  next
    case nl: False
    show thesis
      by (rule bmp [OF False nl]) (use False unit_less [of code] assms in
        \<open>simp add: length_utf8_bytes unit_small_iff\<close>)
  qed
qed

lemma utf8ByteLength_encoder: "length (buffer_from s) = utf8ByteLength s"
proof (induction s rule: length_induct)
  case (1 s)
  show ?case
  proof (cases s)
    case (Cons code rest)
    from Cons show ?thesis
    proof (cases rule: utf8ByteLength_cases)
      case (pair d r)
      then have "length (buffer_from r) = utf8ByteLength r" using "1" Cons by simp
      then show ?thesis using pair Cons by (simp add: buffer_from_pair length_utf8_bytes)
    next
      case lone
      then have "length (buffer_from rest) = utf8ByteLength rest" using "1" Cons by simp
      then show ?thesis using lone Cons by (simp add: buffer_from_lone length_utf8_bytes)
    next
      case bmp
      then have "length (buffer_from rest) = utf8ByteLength rest" using "1" Cons by simp
      then show ?thesis using bmp Cons by (simp add: buffer_from_bmp)
    qed
  qed simp
qed

text \<open>A string is well formed when every surrogate is part of a pair.\<close>

fun well_formed :: "jstring \<Rightarrow> bool" where
  "well_formed [] = True"
| "well_formed (c # rest) =
     (if high_surrogate c then
        (case rest of [] \<Rightarrow> False | d # rest' \<Rightarrow> low_surrogate d \<and> well_formed rest')
      else \<not> low_surrogate c \<and> well_formed rest)"

text \<open>Decoding one scalar value: what a well-formed string starts with.\<close>

lemma well_formed_cases:
  assumes "well_formed s"
  obtains (Nil) "s = []"
  | (pair) c d r where "s = c # d # r" "high_surrogate c" "low_surrogate d" "well_formed r"
    "scalar_values s = (0x10000 + (unat c - 0xd800) * 0x400 + (unat d - 0xdc00)) # scalar_values r"
  | (bmp) c r where "s = c # r" "\<not> high_surrogate c" "\<not> low_surrogate c" "well_formed r"
    "scalar_values s = unat c # scalar_values r"
proof (cases s)
  case (Cons c rest)
  show thesis
  proof (cases "high_surrogate c")
    case True
    then show thesis using assms Cons by (cases rest) (auto intro: pair)
  next
    case False
    then show thesis using assms Cons by (intro bmp) (auto split: if_splits)
  qed
qed (rule Nil)

lemma pair_scalar_inject:
  assumes "high_surrogate c" "low_surrogate d" "high_surrogate c'" "low_surrogate d'"
    and "(unat c - 0xd800) * 0x400 + (unat d - 0xdc00)
       = (unat c' - 0xd800) * 0x400 + (unat d' - 0xdc00)"
  shows "c = c' \<and> d = d'"
proof -
  note b = surrogate_bounds(1) [OF assms(1)] surrogate_bounds(2) [OF assms(2)]
    surrogate_bounds(1) [OF assms(3)] surrogate_bounds(2) [OF assms(4)]
  have "unat d - 0xdc00 < 0x400" "unat d' - 0xdc00 < 0x400" using b by linarith+
  with assms(5) have "unat c - 0xd800 = unat c' - 0xd800" by linarith
  moreover from this assms(5) have "unat d - 0xdc00 = unat d' - 0xdc00" by simp
  ultimately have "unat c = unat c'" "unat d = unat d'" using b by linarith+
  then show ?thesis by (simp add: word_unat_eq_iff)
qed

lemma scalar_values_inject:
  "well_formed s \<Longrightarrow> well_formed t \<Longrightarrow> scalar_values s = scalar_values t \<Longrightarrow> s = t"
proof (induction s arbitrary: t rule: length_induct)
  case (1 s)
  note t = \<open>well_formed t\<close> and eq = \<open>scalar_values s = scalar_values t\<close>
  from \<open>well_formed s\<close> show ?case
  proof (cases rule: well_formed_cases)
    case Nil
    with t eq show ?thesis by (cases rule: well_formed_cases) auto
  next
    case (pair c d r)
    note s = this
    from t show ?thesis
    proof (cases rule: well_formed_cases)
      case Nil
      with eq s show ?thesis by simp
    next
      case (pair c' d' r')
      with eq s have "scalar_values r = scalar_values r'"
        and "c = c' \<and> d = d'" by (simp_all add: pair_scalar_inject)
      then show ?thesis using "1.IH" s pair by auto
    next
      case (bmp c' r')
      with eq s unit_less [of c'] show ?thesis by simp
    qed
  next
    case (bmp c r)
    note s = this
    from t show ?thesis
    proof (cases rule: well_formed_cases)
      case Nil
      with eq s show ?thesis by simp
    next
      case (pair c' d' r')
      with eq s unit_less [of c] show ?thesis by simp
    next
      case (bmp c' r')
      with eq s have "c = c'" "scalar_values r = scalar_values r'"
        by (simp_all add: word_unat_eq_iff)
      then show ?thesis using "1.IH" s bmp by auto
    qed
  qed
qed

lemma pair_scalar_less:
  assumes "high_surrogate c" "low_surrogate d"
  shows "0x10000 + (unat c - 0xd800) * 0x400 + (unat d - 0xdc00) < 0x110000"
  using surrogate_bounds(1) [OF assms(1)] surrogate_bounds(2) [OF assms(2)] by linarith

lemma scalar_values_less: "\<forall>n\<in>set (scalar_values s). n < 0x110000"
proof (induction s rule: scalar_values.induct)
  case (2 c rest)
  have "unat c < 0x110000" using unit_less [of c] by linarith
  with "2" pair_scalar_less show ?case by (cases rest) simp_all
qed simp

text \<open>The encoding of a scalar value is prefix free, so a buffer determines its text.\<close>

lemma utf8_bytes_not_Nil [simp]: "utf8_bytes n \<noteq> []"
  by (simp add: utf8_bytes_def)

lemma div_mod_64_inject: "m div 64 = n div 64 \<Longrightarrow> m mod 64 = n mod 64 \<Longrightarrow> m = (n::nat)"
  by (metis div_mult_mod_eq)

lemma div_64_twice: "(n::nat) div 4096 = n div 64 div 64" "(n::nat) div 262144 = n div 64 div 64 div 64"
  by (simp_all add: div_mult2_eq [symmetric])

lemma hd_utf8_bytes:
  "n < 0x110000 \<Longrightarrow> hd (utf8_bytes n) < 0x80 \<longleftrightarrow> n < 0x80"
  "n < 0x110000 \<Longrightarrow> hd (utf8_bytes n) < 0xe0 \<longleftrightarrow> n < 0x800"
  "n < 0x110000 \<Longrightarrow> hd (utf8_bytes n) < 0xf0 \<longleftrightarrow> n < 0x10000"
  by (auto simp: utf8_bytes_def)

lemma utf8_bytes_inject:
  assumes "m < 0x110000" "n < 0x110000" "utf8_bytes m = utf8_bytes n"
  shows "m = n"
proof -
  have "m < 0x80 \<longleftrightarrow> n < 0x80" "m < 0x800 \<longleftrightarrow> n < 0x800" "m < 0x10000 \<longleftrightarrow> n < 0x10000"
    using hd_utf8_bytes [OF assms(1)] hd_utf8_bytes [OF assms(2)] assms(3) by simp_all
  then show ?thesis using assms(3)
    by (auto simp: utf8_bytes_def div_64_twice split: if_splits intro: div_mod_64_inject)
qed

lemma utf8_bytes_prefix:
  assumes "m < 0x110000" "n < 0x110000" "utf8_bytes m @ r = utf8_bytes n @ r'"
  shows "m = n \<and> r = r'"
proof -
  have h: "hd (utf8_bytes m) = hd (utf8_bytes n)"
    using assms(3) by (metis hd_append2 utf8_bytes_not_Nil)
  have "length (utf8_bytes m) = length (utf8_bytes n)"
    unfolding length_utf8_bytes hd_utf8_bytes [OF assms(1), symmetric]
      hd_utf8_bytes [OF assms(2), symmetric] h by (rule refl)
  then have "utf8_bytes m = utf8_bytes n \<and> r = r'" using assms(3) by simp
  then show ?thesis using utf8_bytes_inject assms(1,2) by blast
qed

lemma concat_utf8_inject:
  "\<forall>n\<in>set ms. n < 0x110000 \<Longrightarrow> \<forall>n\<in>set ns. n < 0x110000 \<Longrightarrow>
   concat (map utf8_bytes ms) = concat (map utf8_bytes ns) \<Longrightarrow> ms = ns"
proof (induction ms arbitrary: ns)
  case Nil
  then show ?case by (cases ns) simp_all
next
  case (Cons m ms)
  from Cons.prems(3) obtain n ns' where ns: "ns = n # ns'" by (cases ns) simp_all
  with Cons.prems have "m < 0x110000" "n < 0x110000"
    "utf8_bytes m @ concat (map utf8_bytes ms) = utf8_bytes n @ concat (map utf8_bytes ns')"
    by simp_all
  then have "m = n \<and> concat (map utf8_bytes ms) = concat (map utf8_bytes ns')"
    by (rule utf8_bytes_prefix)
  moreover from this have "ms = ns'" using Cons.prems(1,2) ns by (intro Cons.IH) simp_all
  ultimately show ?case by (simp add: ns)
qed

lemma buffer_from_inject:
  "well_formed s \<Longrightarrow> well_formed t \<Longrightarrow> buffer_from s = buffer_from t \<longleftrightarrow> s = t"
  using concat_utf8_inject scalar_values_less scalar_values_inject
  unfolding buffer_from_def by metis

end
