(* ===== verification/Json_Text.thy ===== *)
theory Json_Text
  imports Protocol_Text
begin

text \<open>
  The JSON text \<^verbatim>\<open>JSON.stringify([a, b])\<close> of a pair of strings and \<^verbatim>\<open>JSON.parse\<close> on such a
  text, as \<^verbatim>\<open>replyRouteRegistry.ts\<close> uses them for the keys of its indexes: escapes for the
  quote, the backslash, control characters and lone surrogates, everything else verbatim.
  Reading a key back gives the pair it was made from, for every two JavaScript strings.
\<close>

subsection \<open>Quoting\<close>

definition hex_digit :: "nat \<Rightarrow> code_unit" where
  "hex_digit n = (if n < 10 then of_nat (48 + n) else of_nat (87 + n))"

definition unicode_escape :: "code_unit \<Rightarrow> jstring" where
  "unicode_escape c = [0x5c, 0x75, hex_digit (unat c div 4096), hex_digit (unat c div 256 mod 16),
     hex_digit (unat c div 16 mod 16), hex_digit (unat c mod 16)]"

definition short_escape :: "code_unit \<Rightarrow> code_unit option" where
  "short_escape c =
     (if c = 0x08 then Some 0x62 else if c = 0x09 then Some 0x74
      else if c = 0x0a then Some 0x6e else if c = 0x0c then Some 0x66
      else if c = 0x0d then Some 0x72 else if c = 0x22 then Some 0x22
      else if c = 0x5c then Some 0x5c else None)"

fun json_quote_body :: "jstring \<Rightarrow> jstring" where
  "json_quote_body [] = []"
| "json_quote_body (c # rest) =
     (case short_escape c of
        Some e \<Rightarrow> 0x5c # e # json_quote_body rest
      | None \<Rightarrow>
          if c < 0x20 \<or> low_surrogate c then unicode_escape c @ json_quote_body rest
          else if high_surrogate c then
            (case rest of
               [] \<Rightarrow> unicode_escape c
             | d # rest' \<Rightarrow>
                 if low_surrogate d then c # d # json_quote_body rest'
                 else unicode_escape c @ json_quote_body rest)
          else c # json_quote_body rest)"

definition json_quote :: "jstring \<Rightarrow> jstring" where
  "json_quote s = 0x22 # json_quote_body s @ [0x22]"

definition json_pair :: "jstring \<Rightarrow> jstring \<Rightarrow> jstring" where
  "json_pair a b = 0x5b # json_quote a @ 0x2c # json_quote b @ [0x5d]"

subsection \<open>Reading\<close>

definition hex_value :: "code_unit \<Rightarrow> nat option" where
  "hex_value c =
     (if 48 \<le> c \<and> c \<le> 57 then Some (unat c - 48)
      else if 97 \<le> c \<and> c \<le> 102 then Some (unat c - 87)
      else if 65 \<le> c \<and> c \<le> 70 then Some (unat c - 55) else None)"

definition short_unescape :: "code_unit \<Rightarrow> code_unit option" where
  "short_unescape e =
     (if e = 0x62 then Some 0x08 else if e = 0x74 then Some 0x09
      else if e = 0x6e then Some 0x0a else if e = 0x66 then Some 0x0c
      else if e = 0x72 then Some 0x0d else if e = 0x22 then Some 0x22
      else if e = 0x5c then Some 0x5c else if e = 0x2f then Some 0x2f else None)"

definition hex4 :: "code_unit \<Rightarrow> code_unit \<Rightarrow> code_unit \<Rightarrow> code_unit \<Rightarrow> code_unit option" where
  "hex4 p q r t =
     (case (hex_value p, hex_value q, hex_value r, hex_value t) of
        (Some a, Some b, Some c, Some d) \<Rightarrow> Some (of_nat (a * 4096 + b * 256 + c * 16 + d))
      | _ \<Rightarrow> None)"

text \<open>The characters of a string literal up to its closing quote, with what follows it.\<close>

fun json_unquote :: "jstring \<Rightarrow> (jstring \<times> jstring) option" where
  "json_unquote [] = None"
| "json_unquote (c # cs) =
     (if c = 0x22 then Some ([], cs)
      else if c = 0x5c then
        (case cs of
           [] \<Rightarrow> None
         | e # cs' \<Rightarrow>
             if e = 0x75 then
               (case cs' of
                  p # q # r # t # cs'' \<Rightarrow>
                    (case hex4 p q r t of
                       None \<Rightarrow> None
                     | Some u \<Rightarrow> map_option (\<lambda>(s, rest). (u # s, rest)) (json_unquote cs''))
                | _ \<Rightarrow> None)
             else
               (case short_unescape e of
                  None \<Rightarrow> None
                | Some u \<Rightarrow> map_option (\<lambda>(s, rest). (u # s, rest)) (json_unquote cs')))
      else if c < 0x20 then None
      else map_option (\<lambda>(s, rest). (c # s, rest)) (json_unquote cs))"

definition json_parse_pair :: "jstring \<Rightarrow> (jstring \<times> jstring) option" where
  "json_parse_pair text =
     (case text of
        b # q # rest \<Rightarrow>
          if b = 0x5b \<and> q = 0x22 then
            (case json_unquote rest of
               Some (s, comma # q' # rest') \<Rightarrow>
                 if comma = 0x2c \<and> q' = 0x22 then
                   (case json_unquote rest' of
                      Some (t, [e]) \<Rightarrow> if e = 0x5d then Some (s, t) else None
                    | _ \<Rightarrow> None)
                 else None
             | _ \<Rightarrow> None)
          else None
      | _ \<Rightarrow> None)"

subsection \<open>Round trip\<close>

lemma hex_value_digit:
  assumes "n < 16" shows "hex_value (hex_digit n) = Some n"
proof -
  have "list_all (\<lambda>k. hex_value (hex_digit k) = Some k) [0..<16]"
    by (simp add: upt_rec hex_value_def hex_digit_def)
  then show ?thesis using assms by (simp add: list_all_iff)
qed

lemma hex_digits_sum: "(n::nat) div 4096 * 4096 + n div 256 mod 16 * 256 + n div 16 mod 16 * 16 + n mod 16 = n"
proof -
  have d: "n div 256 = n div 16 div 16" "n div 4096 = n div 16 div 16 div 16"
    by (simp_all add: div_mult2_eq [symmetric])
  have split: "k = k div 16 * 16 + k mod 16" for k :: nat by simp
  show ?thesis
    using split [of n] split [of "n div 16"] split [of "n div 16 div 16"] unfolding d by linarith
qed

lemma hex4_escape:
  "hex4 (hex_digit (unat c div 4096)) (hex_digit (unat c div 256 mod 16))
        (hex_digit (unat c div 16 mod 16)) (hex_digit (unat c mod 16)) = Some c"
proof -
  have "unat c div 4096 < 16" using unit_less [of c] by simp
  moreover note hex_digits_sum [of "unat c"]
  ultimately show ?thesis by (simp add: hex4_def hex_value_digit del: of_nat_add of_nat_mult)
qed

lemma unquote_end: "json_unquote (0x22 # r) = Some ([], r)"
  by simp

lemma unquote_unicode_escape:
  "json_unquote (unicode_escape c @ r) = map_option (\<lambda>(s, rest). (c # s, rest)) (json_unquote r)"
  by (simp add: unicode_escape_def hex4_escape)

lemma unquote_short_escape:
  "short_escape c = Some e \<Longrightarrow>
   json_unquote (0x5c # e # r) = map_option (\<lambda>(s, rest). (c # s, rest)) (json_unquote r)"
  by (auto simp: short_escape_def short_unescape_def split: if_splits)

lemma unquote_verbatim:
  "short_escape c = None \<Longrightarrow> \<not> c < 0x20 \<Longrightarrow>
   json_unquote (c # r) = map_option (\<lambda>(s, rest). (c # s, rest)) (json_unquote r)"
  by (auto simp: short_escape_def split: if_splits)

declare json_unquote.simps(2) [simp del]

lemma surrogate_verbatim:
  "high_surrogate c \<or> low_surrogate c \<Longrightarrow> short_escape c = None \<and> \<not> c < 0x20"
  using surrogate_bounds [of c]
  by (auto simp: short_escape_def word_less_nat_alt high_surrogate_def low_surrogate_def)

lemma unquote_quote_body: "json_unquote (json_quote_body s @ 0x22 # r) = Some (s, r)"
proof (induction s rule: json_quote_body.induct)
  case 1
  show ?case by (simp add: unquote_end)
next
  case (2 c rest)
  show ?case
  proof (cases "short_escape c")
    case (Some e)
    with "2.IH"(5) show ?thesis by (simp add: unquote_short_escape)
  next
    case None
    note none = this
    show ?thesis
    proof (cases "c < 0x20 \<or> low_surrogate c")
      case True
      with none "2.IH"(1) show ?thesis by (simp add: unquote_unicode_escape)
    next
      case False
      note plain = this
      show ?thesis
      proof (cases "high_surrogate c")
        case True
        show ?thesis
        proof (cases rest)
          case Nil
          with none plain True show ?thesis by (simp add: unquote_unicode_escape unquote_end)
        next
          case (Cons d rest')
          with none plain True "2.IH"(2,3) show ?thesis
            by (simp add: unquote_unicode_escape unquote_verbatim surrogate_verbatim)
        qed
      next
        case no: False
        with none plain "2.IH"(4) show ?thesis
          by (simp add: unquote_verbatim)
      qed
    qed
  qed
qed

lemma json_parse_pair_pair [simp]: "json_parse_pair (json_pair a b) = Some (a, b)"
  using unquote_quote_body [of a "0x2c # 0x22 # json_quote_body b @ [0x22, 0x5d]"]
    unquote_quote_body [of b "[0x5d]"]
  by (simp add: json_parse_pair_def json_pair_def json_quote_def)

lemma json_pair_inject [simp]: "json_pair a b = json_pair c d \<longleftrightarrow> a = c \<and> b = d"
  by (metis json_parse_pair_pair option.inject prod.inject)

end
