(* ===== verification/Text_Patterns.thy ===== *)
theory Text_Patterns
  imports Protocol_Text
begin

text \<open>
  The character classes of the regular expressions in the code, splitting at a separator,
  decimal text, and case folding of the \<^verbatim>\<open>i\<close> flag. Patterns anchored at both ends are
  predicates over the whole text, as \<^verbatim>\<open>RegExp.test\<close> of such a pattern is.
\<close>

subsection \<open>Character classes\<close>

definition is_digit :: "code_unit \<Rightarrow> bool" where
  "is_digit c \<longleftrightarrow> 48 \<le> c \<and> c \<le> 57"

definition is_lower :: "code_unit \<Rightarrow> bool" where
  "is_lower c \<longleftrightarrow> 97 \<le> c \<and> c \<le> 122"

definition is_upper :: "code_unit \<Rightarrow> bool" where
  "is_upper c \<longleftrightarrow> 65 \<le> c \<and> c \<le> 90"

abbreviation is_alpha :: "code_unit \<Rightarrow> bool" where
  "is_alpha c \<equiv> is_lower c \<or> is_upper c"

text \<open>
  The \<^verbatim>\<open>i\<close> flag on ASCII patterns. Without \<^verbatim>\<open>u\<close> no character outside ASCII folds into it;
  with \<^verbatim>\<open>u\<close> the Kelvin sign folds to k and the long s to s.
\<close>

definition ascii_lower :: "code_unit \<Rightarrow> code_unit" where
  "ascii_lower c = (if is_upper c then c + 32 else c)"

definition fold_iu :: "code_unit \<Rightarrow> code_unit" where
  "fold_iu c = (if c = 0x212a then 0x6b else if c = 0x17f then 0x73 else ascii_lower c)"

subsection \<open>Splitting\<close>

fun split_on :: "code_unit \<Rightarrow> jstring \<Rightarrow> jstring list" where
  "split_on d [] = [[]]"
| "split_on d (c # cs) =
     (if c = d then [] # split_on d cs
      else (case split_on d cs of [] \<Rightarrow> [[c]] | s # ss \<Rightarrow> (c # s) # ss))"

lemma split_on_not_Nil [simp]: "split_on d s \<noteq> []"
  by (induction s) (auto split: list.splits)

lemma split_on_no_sep: "s' \<in> set (split_on d s) \<Longrightarrow> d \<notin> set s'"
proof (induction s arbitrary: s')
  case (Cons c cs)
  then show ?case by (cases "split_on d cs") (auto split: if_splits)
qed simp

fun starts_with :: "jstring \<Rightarrow> jstring \<Rightarrow> bool" where
  "starts_with [] s = True"
| "starts_with (p # ps) [] = False"
| "starts_with (p # ps) (c # cs) = (p = c \<and> starts_with ps cs)"

lemma starts_with_iff: "starts_with p s \<longleftrightarrow> (\<exists>r. s = p @ r)"
  by (induction p s rule: starts_with.induct) auto

subsection \<open>Decimal numbers\<close>

text \<open>\<^verbatim>\<open>Number.prototype.toString\<close> of a non-negative integer and \<^verbatim>\<open>Number(text)\<close> of digits.\<close>

fun decimal :: "nat \<Rightarrow> jstring" where
  "decimal n = (if n < 10 then [of_nat (48 + n)] else decimal (n div 10) @ [of_nat (48 + n mod 10)])"

declare decimal.simps [simp del]

definition number_of :: "jstring \<Rightarrow> nat" where
  "number_of s = foldl (\<lambda>n c. n * 10 + (unat c - 48)) 0 s"

lemma number_of_snoc: "number_of (s @ [c]) = number_of s * 10 + (unat c - 48)"
  by (simp add: number_of_def)

lemma unat_digit: "n < 10 \<Longrightarrow> unat (of_nat (48 + n) :: code_unit) = 48 + n"
  by (simp only: unat_of_nat) simp

lemma is_digit_of_nat: "n < 10 \<Longrightarrow> is_digit (of_nat (48 + n))"
  unfolding is_digit_def word_le_nat_alt by (simp only: unat_digit) simp

lemma number_of_decimal [simp]: "number_of (decimal n) = n"
proof (induction n rule: decimal.induct)
  case (1 n)
  show ?case
  proof (cases "n < 10")
    case True
    then show ?thesis
      by (subst decimal.simps) (simp add: number_of_def unat_digit del: of_nat_add)
  next
    case False
    then have "number_of (decimal n) = number_of (decimal (n div 10)) * 10 + n mod 10"
      by (subst decimal.simps) (simp add: number_of_snoc unat_digit del: of_nat_add)
    with "1" False show ?thesis by simp
  qed
qed

lemma decimal_inject [simp]: "decimal m = decimal n \<longleftrightarrow> m = n"
  by (metis number_of_decimal)

lemma decimal_digits: "\<forall>c\<in>set (decimal n). is_digit c"
proof (induction n rule: decimal.induct)
  case (1 n)
  show ?case
  proof (cases "n < 10")
    case True
    then show ?thesis by (subst decimal.simps) (simp add: is_digit_of_nat del: of_nat_add)
  next
    case False
    with "1" show ?thesis
      by (subst decimal.simps) (simp add: is_digit_of_nat del: of_nat_add)
  qed
qed

lemma decimal_not_Nil [simp]: "decimal n \<noteq> []"
  by (subst decimal.simps) simp

lemma length_decimal: "0 < k \<Longrightarrow> n < 10 ^ k \<Longrightarrow> length (decimal n) \<le> k"
proof (induction k arbitrary: n)
  case (Suc k)
  show ?case
  proof (cases "n < 10")
    case True
    then show ?thesis by (subst decimal.simps) simp
  next
    case False
    then have "0 < k" using Suc.prems by (cases k) auto
    moreover have "n div 10 < 10 ^ k" using Suc.prems by (simp add: less_mult_imp_div_less mult.commute)
    ultimately have "length (decimal (n div 10)) \<le> k" by (rule Suc.IH)
    with False show ?thesis by (subst decimal.simps) simp
  qed
qed simp

subsection \<open>Text with forbidden characters\<close>

text \<open>
  \<^verbatim>\<open>[\\\u0000-\u001f\u007f-\u009f\u061c\u200e\u200f\u202a-\u202e\u2066-\u2069]\<close>: the backslash,
  control characters and the characters that steer bidirectional display.
\<close>

definition forbidden_public :: "code_unit \<Rightarrow> bool" where
  "forbidden_public c \<longleftrightarrow>
     c = 0x5c \<or> c \<le> 0x1f \<or> 0x7f \<le> c \<and> c \<le> 0x9f \<or> c = 0x61c \<or> c = 0x200e \<or> c = 0x200f \<or>
     0x202a \<le> c \<and> c \<le> 0x202e \<or> 0x2066 \<le> c \<and> c \<le> 0x2069"

definition forbidden_label :: "code_unit \<Rightarrow> bool" where
  "forbidden_label c \<longleftrightarrow>
     c = 0x2f \<or> c = 0x3a \<or> c = 0x5c \<or> c \<le> 0x1f \<or> 0x7f \<le> c \<and> c \<le> 0x9f \<or> c = 0x61c \<or>
     c = 0x200e \<or> c = 0x200f \<or> 0x2028 \<le> c \<and> c \<le> 0x202e \<or> 0x2066 \<le> c \<and> c \<le> 0x2069"

text \<open>\<^verbatim>\<open>/^[a-z][a-z0-9+.-]*:/i\<close>, the folding of the flag as a parameter.\<close>

definition scheme_char :: "code_unit \<Rightarrow> bool" where
  "scheme_char c \<longleftrightarrow> is_lower c \<or> is_digit c \<or> c = 0x2b \<or> c = 0x2e \<or> c = 0x2d"

definition scheme_prefix :: "(code_unit \<Rightarrow> code_unit) \<Rightarrow> jstring \<Rightarrow> bool" where
  "scheme_prefix fd s =
     (case s of
        [] \<Rightarrow> False
      | c # cs \<Rightarrow> is_lower (fd c) \<and> (case dropWhile (\<lambda>x. scheme_char (fd x)) cs of
          [] \<Rightarrow> False | x # _ \<Rightarrow> x = 0x3a))"

end
