(* ===== verification/Public_Url.thy ===== *)
theory Public_Url
  imports Text_Patterns
begin

text \<open>
  \<^verbatim>\<open>packages/protocol/src/publicStylesheetUrl.ts\<close>: the check that decides which stylesheet URL
  may cross the browser / IDE boundary. The platform's \<^verbatim>\<open>URL\<close> parser is the parameter
  \<open>url\<close> of the model; \<^verbatim>\<open>decodeURIComponent\<close> of the language is defined here.
\<close>

subsection \<open>decodeURIComponent\<close>

definition hex_digit_value :: "code_unit \<Rightarrow> nat option" where
  "hex_digit_value c =
     (if is_digit c then Some (unat c - 48)
      else if 97 \<le> c \<and> c \<le> 102 then Some (unat c - 87)
      else if 65 \<le> c \<and> c \<le> 70 then Some (unat c - 55) else None)"

fun percent_byte :: "jstring \<Rightarrow> (nat \<times> jstring) option" where
  "percent_byte (p # a # b # rest) =
     (if p = 0x25 then
        (case (hex_digit_value a, hex_digit_value b) of
           (Some x, Some y) \<Rightarrow> Some (x * 16 + y, rest)
         | _ \<Rightarrow> None)
      else None)"
| "percent_byte _ = None"

text \<open>Continuation bytes \<^verbatim>\<open>10xxxxxx\<close> of a sequence, accumulated.\<close>

fun continuation :: "nat \<Rightarrow> nat \<Rightarrow> jstring \<Rightarrow> (nat \<times> jstring) option" where
  "continuation 0 acc s = Some (acc, s)"
| "continuation (Suc k) acc s =
     (case percent_byte s of
        None \<Rightarrow> None
      | Some (b, rest) \<Rightarrow> if b div 64 = 2 then continuation k (acc * 64 + b mod 64) rest else None)"

definition utf16_of :: "nat \<Rightarrow> jstring" where
  "utf16_of n = (if n < 0x10000 then [of_nat n]
     else [of_nat (0xd800 + (n - 0x10000) div 0x400), of_nat (0xdc00 + (n - 0x10000) mod 0x400)])"

definition decode_escape :: "jstring \<Rightarrow> (jstring \<times> jstring) option" where
  "decode_escape s =
     (case percent_byte s of
        None \<Rightarrow> None
      | Some (b, rest) \<Rightarrow>
          if b < 0x80 then Some ([of_nat b], rest)
          else if b div 32 = 6 then
            (case continuation 1 (b mod 32) rest of
               Some (n, rest') \<Rightarrow> if 0x80 \<le> n then Some (utf16_of n, rest') else None
             | None \<Rightarrow> None)
          else if b div 16 = 14 then
            (case continuation 2 (b mod 16) rest of
               Some (n, rest') \<Rightarrow>
                 if 0x800 \<le> n \<and> \<not> (0xd800 \<le> n \<and> n \<le> 0xdfff) then Some (utf16_of n, rest') else None
             | None \<Rightarrow> None)
          else if b div 8 = 30 then
            (case continuation 3 (b mod 8) rest of
               Some (n, rest') \<Rightarrow> if 0x10000 \<le> n \<and> n \<le> 0x10ffff then Some (utf16_of n, rest') else None
             | None \<Rightarrow> None)
          else None)"

lemma percent_byte_shorter: "percent_byte s = Some (b, r) \<Longrightarrow> length r < length s"
  by (cases s rule: percent_byte.cases) (auto split: if_splits option.splits)

lemma continuation_shorter: "continuation k acc s = Some (n, r) \<Longrightarrow> length r \<le> length s"
  by (induction k arbitrary: acc s)
    (force split: option.splits prod.splits if_splits dest: percent_byte_shorter)+

lemma decode_escape_shorter: "decode_escape s = Some (u, r) \<Longrightarrow> length r < length s"
  unfolding decode_escape_def
  by (auto split: option.splits prod.splits if_splits
      dest!: percent_byte_shorter continuation_shorter)

function decodeURIComponent :: "jstring \<Rightarrow> jstring option" where
  "decodeURIComponent [] = Some []"
| "decodeURIComponent (c # cs) =
     (if c = 0x25 then
        (case decode_escape (c # cs) of
           None \<Rightarrow> None
         | Some (u, rest) \<Rightarrow> map_option (append u) (decodeURIComponent rest))
      else map_option (Cons c) (decodeURIComponent cs))"
  by pat_completeness auto
termination
  by (relation "measure length") (auto dest: decode_escape_shorter)

subsection \<open>The check\<close>

record url_parts =
  u_href :: jstring
  u_protocol :: jstring
  u_username :: jstring
  u_password :: jstring
  u_hash :: jstring
  u_pathname :: jstring
  u_search :: jstring

text \<open>
  \<^verbatim>\<open>RAW_POSIX_STYLESHEET_PATH\<close>: a slash, one of the root directories and then a slash or the
  end, in any letter case.
\<close>

definition posix_roots :: "jstring list" where
  "posix_roots = map js [''applications'', ''bin'', ''boot'', ''dev'', ''etc'', ''home'', ''lib'',
     ''lib64'', ''media'', ''mnt'', ''opt'', ''private'', ''proc'', ''root'', ''run'', ''sbin'',
     ''srv'', ''sys'', ''tmp'', ''user'', ''users'', ''usr'', ''var'', ''workspace'']"

definition raw_posix_path :: "jstring \<Rightarrow> bool" where
  "raw_posix_path s =
     (case s of [] \<Rightarrow> False
      | c # cs \<Rightarrow> c = 0x2f \<and>
          map fold_iu (takeWhile (\<lambda>x. x \<noteq> 0x2f) cs) \<in> set posix_roots)"

definition home_path :: "jstring \<Rightarrow> bool" where
  "home_path s = (case s of [] \<Rightarrow> False
     | c # cs \<Rightarrow> c = 0x7e \<and> (case cs of [] \<Rightarrow> True | d # _ \<Rightarrow> d = 0x5c \<or> d = 0x2f))"

definition drive_path :: "jstring \<Rightarrow> bool" where
  "drive_path s = (case s of c # d # e # _ \<Rightarrow>
     is_lower (fold_iu c) \<and> d = 0x3a \<and> (e = 0x5c \<or> e = 0x2f) | _ \<Rightarrow> False)"

text \<open>\<^verbatim>\<open>search.replace(/%(?![\da-f]{2})/giu, "%25")\<close>\<close>

fun escape_literal_percents :: "jstring \<Rightarrow> jstring" where
  "escape_literal_percents [] = []"
| "escape_literal_percents (c # cs) =
     (if c = 0x25 \<and> \<not> (case cs of a # b # _ \<Rightarrow>
            hex_digit_value a \<noteq> None \<and> hex_digit_value b \<noteq> None | _ \<Rightarrow> False)
      then [0x25, 0x32, 0x35] else [c]) @ escape_literal_percents cs"

definition canonicalizePublicStylesheetUrl ::
  "(jstring \<Rightarrow> jstring option \<Rightarrow> url_parts option) \<Rightarrow> jsnum \<Rightarrow> jstring option \<Rightarrow> jstring \<Rightarrow>
   jstring option" where
  "canonicalizePublicStylesheetUrl url maximum baseUrl value =
     (case maximum of JNonInt \<Rightarrow> None | JInt m \<Rightarrow>
      if \<not> safe_int m \<or> m < 1 \<or> length value < 1 \<or> int (length value) > m \<or>
         (\<exists>c\<in>set value. forbidden_public c) \<or> 0x23 \<in> set value \<or> starts_with (js ''//'') value \<or>
         raw_posix_path value \<or> home_path value \<or> drive_path value
      then None
      else
        let absoluteInput = scheme_prefix fold_iu value;
            base = (case baseUrl of Some [] \<Rightarrow> None | b \<Rightarrow> b)
        in if \<not> absoluteInput \<and> base = None then None
        else (case (if absoluteInput then url value None else url value base) of
            None \<Rightarrow> None
          | Some parsed \<Rightarrow>
              if int (length (u_href parsed)) > m \<or>
                 (u_protocol parsed \<noteq> js ''http:'' \<and> u_protocol parsed \<noteq> js ''https:'') \<or>
                 u_username parsed \<noteq> [] \<or> u_password parsed \<noteq> [] \<or> u_hash parsed \<noteq> [] \<or>
                 absoluteInput \<and> u_href parsed \<noteq> value
              then None
              else (case decodeURIComponent (u_pathname parsed) of
                  None \<Rightarrow> None
                | Some path \<Rightarrow>
                   (case decodeURIComponent (escape_literal_percents (u_search parsed)) of
                      None \<Rightarrow> None
                    | Some query \<Rightarrow>
                        if \<exists>c\<in>set (path @ query). forbidden_public c then None
                        else Some (u_href parsed)))))"

subsection \<open>What an accepted URL is\<close>

text \<open>The case analysis every property of the check uses.\<close>

lemma canonicalize_SomeE:
  assumes "canonicalizePublicStylesheetUrl url maximum baseUrl value = Some h"
  obtains m parsed path query where "maximum = JInt m" "safe_int m" "int (length h) \<le> m"
    "\<forall>c\<in>set value. \<not> forbidden_public c" "0x23 \<notin> set value" "\<not> raw_posix_path value"
    "scheme_prefix fold_iu value \<and> url value None = Some parsed \<and> h = value \<or>
     \<not> scheme_prefix fold_iu value \<and> (\<exists>b. baseUrl = Some b \<and> b \<noteq> [] \<and> url value (Some b) = Some parsed)"
    "u_href parsed = h" "u_protocol parsed = js ''http:'' \<or> u_protocol parsed = js ''https:''"
    "u_username parsed = []" "u_password parsed = []" "u_hash parsed = []"
    "decodeURIComponent (u_pathname parsed) = Some path"
    "decodeURIComponent (escape_literal_percents (u_search parsed)) = Some query"
    "\<forall>c\<in>set (path @ query). \<not> forbidden_public c"
  using assms unfolding canonicalizePublicStylesheetUrl_def
  apply (cases maximum)
   defer
   apply simp
  subgoal for m
    by (cases "scheme_prefix fold_iu value")
      (force simp: Let_def split: if_splits option.splits list.splits)+
  done

lemma escape_literal_percents_decodes_ascii:
  "\<forall>c\<in>set s. c \<noteq> 0x25 \<Longrightarrow> escape_literal_percents s = s"
  by (induction s) auto

lemma decode_plain: "0x25 \<notin> set s \<Longrightarrow> decodeURIComponent s = Some s"
  by (induction s) auto

end
