(* ===== verification/Protocol_Messages.thy ===== *)
theory Protocol_Messages
  imports Public_Url
begin

text \<open>
  The messages of \<^verbatim>\<open>packages/protocol/src\<close> (protocol version 7): the limits of \<^verbatim>\<open>limits.ts\<close>,
  one record per strict object schema of \<^verbatim>\<open>messages.ts\<close>, and for each schema the predicate that
  holds of the records it accepts. A value of a record type has the shape the strict object
  schema demands; the predicates state the bounds, patterns and cross-field refinements. The
  library's own \<^verbatim>\<open>uuid\<close> and \<^verbatim>\<open>datetime\<close> formats, the \<^verbatim>\<open>URL\<close> parser and \<^verbatim>\<open>JSON.stringify\<close> of a
  whole message are fields of the parameter \<open>schema_env\<close>.
\<close>

subsection \<open>Limits\<close>

definition PROTOCOL_VERSION :: int where "PROTOCOL_VERSION = 7"

definition INSPECT_ENVELOPE_MAX_BYTES :: nat where "INSPECT_ENVELOPE_MAX_BYTES = 768 * 1024"
definition RESOLUTION_ENVELOPE_MAX_BYTES :: nat where "RESOLUTION_ENVELOPE_MAX_BYTES = 16 * 1024"
definition SOURCE_NAVIGATION_ENVELOPE_MAX_BYTES :: nat where
  "SOURCE_NAVIGATION_ENVELOPE_MAX_BYTES = 16 * 1024"
definition SOURCE_PRESENTATION_ENVELOPE_MAX_BYTES :: nat where
  "SOURCE_PRESENTATION_ENVELOPE_MAX_BYTES = 256 * 1024"
definition RULES_SOURCES_ENVELOPE_MAX_BYTES :: nat where
  "RULES_SOURCES_ENVELOPE_MAX_BYTES = 128 * 1024"

record inspect_limits =
  lim_targets :: nat
  lim_factsPerTarget :: nat
  lim_subjectAttributes :: nat
  lim_selectorLength :: nat
  lim_propertyNameLength :: nat
  lim_attributeNameLength :: nat
  lim_valueLength :: nat
  lim_textLength :: nat
  lim_urlLength :: nat
  lim_nodeIdLength :: nat
  lim_frameIdLength :: nat
  lim_routeLength :: nat
  lim_classNames :: nat
  lim_stylesheets :: nat
  lim_cssRules :: nat
  lim_cssRuleDepth :: nat
  lim_declarationsPerRule :: nat
  lim_mediaConditions :: nat
  lim_inaccessibleStylesheets :: nat

definition INSPECT_LIMITS :: inspect_limits where
  "INSPECT_LIMITS = \<lparr>lim_targets = 2, lim_factsPerTarget = 256, lim_subjectAttributes = 64,
     lim_selectorLength = 2048, lim_propertyNameLength = 256, lim_attributeNameLength = 256,
     lim_valueLength = 16384, lim_textLength = 16384, lim_urlLength = 8192,
     lim_nodeIdLength = 1024, lim_frameIdLength = 256, lim_routeLength = 8192,
     lim_classNames = 128, lim_stylesheets = 256, lim_cssRules = 4096, lim_cssRuleDepth = 32,
     lim_declarationsPerRule = 128, lim_mediaConditions = 16, lim_inaccessibleStylesheets = 64\<rparr>"

record resolution_limits =
  lim_opaqueIdLength :: nat
  lim_labelLength :: nat
  lim_languageIdLength :: nat
  lim_generation :: int
  lim_count :: int
  lim_diagnosticCodes :: nat

definition RESOLUTION_LIMITS :: resolution_limits where
  "RESOLUTION_LIMITS = \<lparr>lim_opaqueIdLength = 128, lim_labelLength = 128,
     lim_languageIdLength = 64, lim_generation = 0x7fffffff, lim_count = 0x7fffffff,
     lim_diagnosticCodes = 8\<rparr>"

record presentation_limits =
  lim_matches :: nat
  lim_textBytes :: nat
  lim_textLines :: nat

definition SOURCE_PRESENTATION_LIMITS :: presentation_limits where
  "SOURCE_PRESENTATION_LIMITS = \<lparr>lim_matches = 32, lim_textBytes = 8 * 1024, lim_textLines = 80\<rparr>"

record evidence_limits =
  lim_rules :: nat
  lim_evidenceDeclarations :: nat
  lim_contextsPerRule :: nat
  lim_contextTextLength :: nat
  lim_ruleRefLength :: nat
  lim_rulePathLength :: nat
  lim_sourceUrlLength :: nat

definition RULE_EVIDENCE_LIMITS :: evidence_limits where
  "RULE_EVIDENCE_LIMITS = \<lparr>lim_rules = 256, lim_evidenceDeclarations = 32,
     lim_contextsPerRule = 16, lim_contextTextLength = 2048, lim_ruleRefLength = 128,
     lim_rulePathLength = 512, lim_sourceUrlLength = 2048\<rparr>"

record rules_sources_limits =
  lim_sources :: nat
  lim_unresolvedRules :: int
  lim_sourceLabelLength :: nat
  lim_authorityIdLength :: nat
  lim_openPropertyLength :: nat
  lim_line :: int
  lim_column :: int

definition RULES_SOURCES_LIMITS :: rules_sources_limits where
  "RULES_SOURCES_LIMITS = \<lparr>lim_sources = 256, lim_unresolvedRules = 256,
     lim_sourceLabelLength = 128, lim_authorityIdLength = 128, lim_openPropertyLength = 256,
     lim_line = 10000000, lim_column = 1000000\<rparr>"

lemmas limit_defs = INSPECT_LIMITS_def RESOLUTION_LIMITS_def SOURCE_PRESENTATION_LIMITS_def
  RULE_EVIDENCE_LIMITS_def RULES_SOURCES_LIMITS_def

subsection \<open>Data\<close>

datatype json = JNull | JBool bool | JNum jsnum | JStr jstring | JArr "json list"
  | JObj "(jstring \<times> json) list"

type_synonym json_object = "(jstring \<times> json) list"

datatype client_role = Browser | Ide | Simulator

datatype capability = CapInspect | CapResolution | CapLink | CapSourceNavigation | CapAutoRefresh
  | CapSourcePresentation | CapPresentationSettings | CapRulesSources

record client_source =
  src_role :: client_role
  src_id :: jstring
  src_label :: "jstring option"
  src_url :: "jstring option"
  src_metadata :: json_object

record source_location =
  loc_uri :: jstring
  loc_line :: int
  loc_column :: int
  loc_endLine :: "int option"
  loc_endColumn :: "int option"
  loc_metadata :: json_object

record dom_attribute =
  attr_name :: jstring
  attr_value :: jstring
  attr_metadata :: json_object

record css_rule_fact =
  fact_ruleRef :: jstring
  fact_property :: jstring
  fact_value :: jstring
  fact_important :: bool
  fact_valueTruncated :: bool

record plugin_fact =
  plug_type :: jstring
  plug_source :: "source_location option"
  plug_payload :: json_object
  plug_metadata :: json_object

datatype runtime_fact = CssRuleFact css_rule_fact | DomAttributeFact dom_attribute
  | PluginRuntimeFact plugin_fact

record inspect_subject =
  sub_selector :: "jstring option"
  sub_nodeId :: "jstring option"
  sub_text :: "jstring option"
  sub_attributes :: "dom_attribute list option"
  sub_metadata :: json_object

record inspect_context =
  ctx_url :: jstring
  ctx_frameId :: "jstring option"
  ctx_route :: "jstring option"
  ctx_metadata :: json_object

datatype target_role = Selected | Parent

record inspect_target =
  tgt_role :: target_role
  tgt_depth :: nat
  tgt_subject :: inspect_subject
  tgt_facts :: "runtime_fact list"
  tgt_metadata :: json_object

datatype context_kind = Media | Supports

record rule_context =
  rc_kind :: context_kind
  rc_conditionText :: jstring

record rule_declaration =
  rd_property :: jstring
  rd_value :: jstring
  rd_important :: bool
  rd_valueTruncated :: bool

record generated_source =
  gs_sourceUrl :: jstring
  gs_startLine :: "int option"
  gs_startColumn :: "int option"
  gs_endLine :: "int option"
  gs_endColumn :: "int option"
  gs_rulePath :: "jstring option"
  gs_contexts :: "rule_context list"
  gs_contextsTruncated :: bool
  gs_unsupportedGroupContext :: bool

record rule_evidence =
  ev_ruleRef :: jstring
  ev_selector :: jstring
  ev_declarations :: "rule_declaration list"
  ev_declarationsTruncated :: bool
  ev_generatedSource :: "generated_source option"

record evidence_batch =
  eb_rules :: "rule_evidence list"
  eb_omittedRuleCount :: int

datatype source_language = Css | Scss
datatype rules_confidence = ExactSource | SourcemapSource

record rules_source =
  rs_ruleRef :: jstring
  rs_openAuthorityId :: jstring
  rs_label :: jstring
  rs_languageId :: source_language
  rs_startLine :: int
  rs_startColumn :: int
  rs_confidence :: rules_confidence

record open_declaration =
  od_property :: jstring
  od_occurrence :: int

record source_document =
  doc_label :: jstring
  doc_languageId :: jstring

datatype resolution_status = Matched | NoActiveEditor | UnsupportedDocument | NoFacts
  | SourceNotFound | SourceNotActiveDocument | SourceAmbiguous | SourceMapMissing
  | SourceMapInvalid | NoRuleMatch | RuleMatchAmbiguous | ResolutionError

datatype diagnostic_code = PluginError | PluginTimeout | InvalidResult | SourceReadFailed

datatype excerpt_confidence = Exact | Sourcemap | Instrumented | Heuristic | Unknown

datatype excerpt_kind = KComponent | KFixture | KRule | KSource | KStyleRule | KTemplate

datatype excerpt_relation = RApplies | RContains | RDeclaredIn | RMatches | RParent | RRenders
  | RSelected | RStyles | RTemplates

record source_excerpt =
  ex_matchId :: jstring
  ex_targetRole :: target_role
  ex_label :: jstring
  ex_kind :: excerpt_kind
  ex_relation :: excerpt_relation
  ex_confidence :: excerpt_confidence
  ex_startLine :: int
  ex_endLine :: int
  ex_text :: jstring
  ex_truncated :: bool

datatype refresh_mode = StylesMode | ReloadMode
datatype direction = Previous | Next

datatype error_code = LinkInvalidCode | LinkUnreachable | LinkRejected | LinkRateLimited
  | AuthTokenRejected | AuthInstanceChanged | ProtocolInvalidMessage | BridgeNoIdeClient
  | BridgeNoBrowserClient | BridgeOffline | ResolverFileNotFound | ResolverSourceMapFailed
  | BrowserStylesheetInaccessible

subsection \<open>Messages\<close>

text \<open>
  Every message has a message id. Messages of the base schema carry free-form metadata; the
  others carry the empty metadata object.
\<close>

record envelope =
  messageId :: jstring

record base_message = envelope +
  metadata :: json_object

record hello_message = base_message +
  hello_sessionId :: jstring
  hello_authToken :: jstring
  hello_bridgeInstanceId :: jstring
  hello_source :: client_source
  hello_capabilities :: "capability list"

record link_request_message = base_message +
  link_pin :: jstring
  link_source :: client_source

record link_accepted_message = base_message +
  accepted_sessionId :: jstring
  accepted_bridgeInstanceId :: jstring
  accepted_authToken :: jstring
  accepted_expiresAt :: jstring

record authenticated_message = base_message +
  authed_sessionId :: jstring
  authed_bridgeInstanceId :: jstring

record unlink_message = base_message +
  unlink_sessionId :: jstring

record inspect_message = base_message +
  insp_sessionId :: jstring
  insp_source :: client_source
  insp_ideHighlightEnabled :: bool
  insp_targets :: "inspect_target list"
  insp_ruleEvidence :: evidence_batch
  insp_context :: inspect_context

record routed_message = envelope +
  sessionId :: jstring
  inspectMessageId :: jstring

record rules_sources_message = routed_message +
  rsm_sourceId :: jstring
  rsm_rulesGeneration :: int
  rsm_sources :: "rules_source list"
  rsm_unresolvedRuleCount :: int

record rules_open_message = routed_message +
  rom_rulesGeneration :: int
  rom_openAuthorityId :: jstring
  rom_declaration :: "open_declaration option"

record resolution_message = routed_message +
  res_sourceId :: jstring
  res_resolutionGeneration :: int
  res_document :: "source_document option"
  res_status :: resolution_status
  res_selectedMatchCount :: int
  res_parentMatchCount :: int
  res_inaccessibleStylesheetCount :: int
  res_diagnosticCodes :: "diagnostic_code list"

record source_matches_message = routed_message +
  sm_sourceId :: jstring
  sm_resolutionGeneration :: int
  sm_document :: source_document
  sm_matches :: "source_excerpt list"
  sm_omittedMatchCount :: int

record source_open_message = routed_message +
  so_resolutionGeneration :: int
  so_matchId :: jstring

record presentation_settings_message = routed_message +
  ps_ideHighlightEnabled :: bool

record source_navigate_message = routed_message +
  nav_resolutionGeneration :: int
  nav_direction :: direction

record navigation_state_message = routed_message +
  ns_sourceId :: jstring
  ns_resolutionGeneration :: int
  ns_selectedMatchCount :: int
  ns_activeMatchIndex :: "int option"
  ns_activeMatchId :: "jstring option"

record page_refresh_message = envelope +
  pr_sessionId :: jstring
  pr_sourceId :: jstring
  pr_refreshGeneration :: int
  pr_mode :: refresh_mode

record peer_state_message = envelope +
  peer_sessionId :: jstring
  peer_connected :: bool
  peer_generation :: int

record error_message = base_message +
  err_code :: error_code
  err_message :: jstring
  err_details :: "json_object option"

record ping_message = base_message +
  ping_sentAt :: jstring

record pong_message = base_message +
  pong_pingMessageId :: jstring
  pong_sentAt :: jstring

datatype pin_op_message =
    Hello hello_message | LinkRequest link_request_message | LinkAccepted link_accepted_message
  | Authenticated authenticated_message | Unlink unlink_message | Inspect inspect_message
  | RulesSources rules_sources_message | RulesOpen rules_open_message
  | PageRefresh page_refresh_message | SourceMatches source_matches_message
  | SourceOpen source_open_message | PresentationSettings presentation_settings_message
  | SourceNavigate source_navigate_message | Resolution resolution_message
  | SourceNavigationState navigation_state_message | PeerState peer_state_message
  | ErrorMessage error_message | Ping ping_message | Pong pong_message

end
