(* ===== verification/Protocol_Schemas.thy ===== *)
theory Protocol_Schemas
  imports Protocol_Messages
begin

text \<open>
  When a message is accepted: the bounds of each field and the refinements
  (\<^verbatim>\<open>superRefine\<close> and \<^verbatim>\<open>refine\<close> bodies) of \<^verbatim>\<open>messages.ts\<close> and \<^verbatim>\<open>references.ts\<close>. A refinement
  that adds an issue makes the parse fail; here it is the conjunct that is false.
\<close>

record schema_env =
  se_uuid :: "jstring \<Rightarrow> bool"
  se_datetime :: "jstring \<Rightarrow> bool"
  se_url :: "jstring \<Rightarrow> jstring option \<Rightarrow> url_parts option"
  se_stringify :: "pin_op_message \<Rightarrow> jstring option"

subsection \<open>Scalars\<close>

definition text_between :: "nat \<Rightarrow> nat \<Rightarrow> jstring \<Rightarrow> bool" where
  "text_between lo hi s \<longleftrightarrow> lo \<le> length s \<and> length s \<le> hi"

definition opt_ok :: "('a \<Rightarrow> bool) \<Rightarrow> 'a option \<Rightarrow> bool" where
  "opt_ok p x = (case x of None \<Rightarrow> True | Some v \<Rightarrow> p v)"

definition opaqueId :: "jstring \<Rightarrow> bool" where
  "opaqueId s = text_between 1 (lim_opaqueIdLength RESOLUTION_LIMITS) s"

definition generation_ok :: "int \<Rightarrow> bool" where
  "generation_ok n \<longleftrightarrow> 0 \<le> n \<and> n \<le> lim_generation RESOLUTION_LIMITS"

definition count_ok :: "int \<Rightarrow> bool" where
  "count_ok n \<longleftrightarrow> 0 \<le> n \<and> n \<le> lim_count RESOLUTION_LIMITS"

text \<open>\<^verbatim>\<open>addSerializedBudgetIssue\<close>: no issue when the text exists and fits.\<close>

definition serialized_budget_ok :: "schema_env \<Rightarrow> nat \<Rightarrow> pin_op_message \<Rightarrow> bool" where
  "serialized_budget_ok env envelopeMaxBytes m =
     (case se_stringify env m of None \<Rightarrow> False | Some t \<Rightarrow> utf8ByteLength t \<le> envelopeMaxBytes)"

definition client_source_ok :: "client_source \<Rightarrow> bool" where
  "client_source_ok s \<longleftrightarrow>
     text_between 1 (lim_nodeIdLength INSPECT_LIMITS) (src_id s) \<and>
     opt_ok (text_between 0 (lim_textLength INSPECT_LIMITS)) (src_label s) \<and>
     opt_ok (text_between 0 (lim_urlLength INSPECT_LIMITS)) (src_url s)"

subsection \<open>Source locations and facts\<close>

definition ends_before :: "int \<Rightarrow> int \<Rightarrow> int \<Rightarrow> int \<Rightarrow> bool" where
  "ends_before startLine startColumn endLine endColumn \<longleftrightarrow>
     endLine < startLine \<or> endLine = startLine \<and> endColumn < startColumn"

definition source_location_ok :: "source_location \<Rightarrow> bool" where
  "source_location_ok l \<longleftrightarrow>
     text_between 1 (lim_urlLength INSPECT_LIMITS) (loc_uri l) \<and> 1 \<le> loc_line l \<and>
     1 \<le> loc_column l \<and> opt_ok (\<lambda>n. 1 \<le> n) (loc_endLine l) \<and>
     opt_ok (\<lambda>n. 1 \<le> n) (loc_endColumn l) \<and>
     (case (loc_endLine l, loc_endColumn l) of
        (None, None) \<Rightarrow> True
      | (Some el, Some ec) \<Rightarrow> \<not> ends_before (loc_line l) (loc_column l) el ec
      | _ \<Rightarrow> False)"

definition dom_attribute_ok :: "dom_attribute \<Rightarrow> bool" where
  "dom_attribute_ok a \<longleftrightarrow>
     text_between 1 (lim_attributeNameLength INSPECT_LIMITS) (attr_name a) \<and>
     text_between 0 (lim_valueLength INSPECT_LIMITS) (attr_value a)"

definition css_rule_fact_ok :: "css_rule_fact \<Rightarrow> bool" where
  "css_rule_fact_ok f \<longleftrightarrow>
     text_between 1 (lim_ruleRefLength RULE_EVIDENCE_LIMITS) (fact_ruleRef f) \<and>
     text_between 1 (lim_propertyNameLength INSPECT_LIMITS) (fact_property f) \<and>
     text_between 0 (lim_valueLength INSPECT_LIMITS) (fact_value f)"

text \<open>\<^verbatim>\<open>/^[a-z0-9][a-z0-9-]*(?:\.[a-z0-9][a-z0-9-]*)+$/\<close>\<close>

definition plugin_segment :: "jstring \<Rightarrow> bool" where
  "plugin_segment s = (case s of [] \<Rightarrow> False
     | c # cs \<Rightarrow> (is_lower c \<or> is_digit c) \<and> (\<forall>x\<in>set cs. is_lower x \<or> is_digit x \<or> x = 0x2d))"

definition plugin_type_pattern :: "jstring \<Rightarrow> bool" where
  "plugin_type_pattern s \<longleftrightarrow>
     2 \<le> length (split_on 0x2e s) \<and> (\<forall>seg\<in>set (split_on 0x2e s). plugin_segment seg)"

definition plugin_fact_ok :: "plugin_fact \<Rightarrow> bool" where
  "plugin_fact_ok f \<longleftrightarrow> text_between 0 128 (plug_type f) \<and> plugin_type_pattern (plug_type f) \<and>
     opt_ok source_location_ok (plug_source f)"

fun runtime_fact_ok :: "runtime_fact \<Rightarrow> bool" where
  "runtime_fact_ok (CssRuleFact f) = css_rule_fact_ok f"
| "runtime_fact_ok (DomAttributeFact a) = dom_attribute_ok a"
| "runtime_fact_ok (PluginRuntimeFact p) = plugin_fact_ok p"

definition inspect_subject_ok :: "inspect_subject \<Rightarrow> bool" where
  "inspect_subject_ok s \<longleftrightarrow>
     opt_ok (text_between 0 (lim_selectorLength INSPECT_LIMITS)) (sub_selector s) \<and>
     opt_ok (text_between 0 (lim_nodeIdLength INSPECT_LIMITS)) (sub_nodeId s) \<and>
     opt_ok (text_between 0 (lim_textLength INSPECT_LIMITS)) (sub_text s) \<and>
     opt_ok (\<lambda>as. length as \<le> lim_subjectAttributes INSPECT_LIMITS \<and> list_all dom_attribute_ok as)
       (sub_attributes s)"

definition inspect_context_ok :: "inspect_context \<Rightarrow> bool" where
  "inspect_context_ok c \<longleftrightarrow>
     text_between 1 (lim_urlLength INSPECT_LIMITS) (ctx_url c) \<and>
     opt_ok (text_between 0 (lim_frameIdLength INSPECT_LIMITS)) (ctx_frameId c) \<and>
     opt_ok (text_between 0 (lim_routeLength INSPECT_LIMITS)) (ctx_route c)"

subsection \<open>Rule evidence\<close>

definition rule_context_ok :: "rule_context \<Rightarrow> bool" where
  "rule_context_ok c = text_between 1 (lim_contextTextLength RULE_EVIDENCE_LIMITS) (rc_conditionText c)"

definition rule_declaration_ok :: "rule_declaration \<Rightarrow> bool" where
  "rule_declaration_ok d \<longleftrightarrow>
     text_between 1 (lim_propertyNameLength INSPECT_LIMITS) (rd_property d) \<and>
     text_between 0 (lim_valueLength INSPECT_LIMITS) (rd_value d)"

text \<open>\<^verbatim>\<open>/^(?:0|[1-9]\d*)(?:\.(?:0|[1-9]\d*))*$/\<close> with safe-integer segments\<close>

definition path_segment :: "jstring \<Rightarrow> bool" where
  "path_segment s = (case s of [] \<Rightarrow> False
     | c # cs \<Rightarrow> c = 48 \<and> cs = [] \<or> is_digit c \<and> c \<noteq> 48 \<and> (\<forall>x\<in>set cs. is_digit x))"

definition rule_path_ok :: "jstring \<Rightarrow> bool" where
  "rule_path_ok p \<longleftrightarrow>
     text_between 1 (lim_rulePathLength RULE_EVIDENCE_LIMITS) p \<and>
     (\<forall>seg\<in>set (split_on 0x2e p). path_segment seg \<and> safe_int (int (number_of seg)))"

definition line_ok :: "int \<Rightarrow> bool" where
  "line_ok n \<longleftrightarrow> 1 \<le> n \<and> n \<le> lim_line RULES_SOURCES_LIMITS"

definition column_ok :: "int \<Rightarrow> bool" where
  "column_ok n \<longleftrightarrow> 1 \<le> n \<and> n \<le> lim_column RULES_SOURCES_LIMITS"

definition public_stylesheet_url_ok :: "schema_env \<Rightarrow> jstring \<Rightarrow> bool" where
  "public_stylesheet_url_ok env v \<longleftrightarrow>
     text_between 1 (lim_sourceUrlLength RULE_EVIDENCE_LIMITS) v \<and>
     canonicalizePublicStylesheetUrl (se_url env)
       (JInt (int (lim_sourceUrlLength RULE_EVIDENCE_LIMITS))) None v = Some v"

text \<open>The five issues of the refinement, in its order.\<close>

definition generated_source_refined :: "generated_source \<Rightarrow> bool" where
  "generated_source_refined s =
     (let hasStartLine = gs_startLine s \<noteq> None;
          hasStartColumn = gs_startColumn s \<noteq> None;
          hasEndLine = gs_endLine s \<noteq> None;
          hasEndColumn = gs_endColumn s \<noteq> None
      in \<not> (hasStartLine \<noteq> hasStartColumn) \<and>
         \<not> (hasEndLine \<noteq> hasEndColumn) \<and>
         \<not> ((hasEndLine \<or> hasEndColumn) \<and> \<not> (hasStartLine \<and> hasStartColumn)) \<and>
         \<not> (\<not> (hasStartLine \<and> hasStartColumn) \<and> gs_rulePath s = None) \<and>
         \<not> (hasStartLine \<and> hasStartColumn \<and> hasEndLine \<and> hasEndColumn \<and>
            ends_before (the (gs_startLine s)) (the (gs_startColumn s))
              (the (gs_endLine s)) (the (gs_endColumn s))))"

definition generated_source_ok :: "schema_env \<Rightarrow> generated_source \<Rightarrow> bool" where
  "generated_source_ok env s \<longleftrightarrow>
     public_stylesheet_url_ok env (gs_sourceUrl s) \<and>
     opt_ok line_ok (gs_startLine s) \<and> opt_ok column_ok (gs_startColumn s) \<and>
     opt_ok line_ok (gs_endLine s) \<and> opt_ok column_ok (gs_endColumn s) \<and>
     opt_ok rule_path_ok (gs_rulePath s) \<and>
     length (gs_contexts s) \<le> lim_contextsPerRule RULE_EVIDENCE_LIMITS \<and>
     list_all rule_context_ok (gs_contexts s) \<and>
     generated_source_refined s"

definition rule_evidence_ok :: "schema_env \<Rightarrow> rule_evidence \<Rightarrow> bool" where
  "rule_evidence_ok env e \<longleftrightarrow>
     text_between 1 (lim_ruleRefLength RULE_EVIDENCE_LIMITS) (ev_ruleRef e) \<and>
     text_between 1 (lim_selectorLength INSPECT_LIMITS) (ev_selector e) \<and>
     length (ev_declarations e) \<le> lim_evidenceDeclarations RULE_EVIDENCE_LIMITS \<and>
     list_all rule_declaration_ok (ev_declarations e) \<and>
     opt_ok (generated_source_ok env) (ev_generatedSource e)"

text \<open>The loop over the rules with its \<^verbatim>\<open>seen\<close> set.\<close>

fun unique_refs :: "'a list \<Rightarrow> 'a list \<Rightarrow> bool" where
  "unique_refs seen [] = True"
| "unique_refs seen (r # rs) = (r \<notin> set seen \<and> unique_refs (set_add r seen) rs)"

definition evidence_batch_ok :: "schema_env \<Rightarrow> evidence_batch \<Rightarrow> bool" where
  "evidence_batch_ok env b \<longleftrightarrow>
     length (eb_rules b) \<le> lim_rules RULE_EVIDENCE_LIMITS \<and>
     list_all (rule_evidence_ok env) (eb_rules b) \<and>
     count_ok (eb_omittedRuleCount b) \<and>
     unique_refs [] (map ev_ruleRef (eb_rules b))"

definition inspect_target_ok :: "inspect_target \<Rightarrow> bool" where
  "inspect_target_ok t \<longleftrightarrow> tgt_depth t \<le> 1 \<and> inspect_subject_ok (tgt_subject t) \<and>
     length (tgt_facts t) \<le> lim_factsPerTarget INSPECT_LIMITS \<and>
     list_all runtime_fact_ok (tgt_facts t)"

subsection \<open>Inspect messages\<close>

definition targets_refined :: "inspect_target list \<Rightarrow> bool" where
  "targets_refined ts =
     (let selected = filter (\<lambda>t. tgt_role t = Selected) ts;
          parents = filter (\<lambda>t. tgt_role t = Parent) ts
      in \<not> (length selected \<noteq> 1 \<or> tgt_depth (hd selected) \<noteq> 0) \<and>
         \<not> (length parents > 1 \<or> (\<exists>t\<in>set parents. tgt_depth t \<noteq> 1)))"

text \<open>
  A CSS fact refers to included evidence and repeats one of its declarations. In
  \<^verbatim>\<open>new Map(rules.map(...))\<close> a later rule with the same reference replaces an earlier one.
\<close>

definition evidence_by_ref :: "rule_evidence list \<Rightarrow> (jstring, rule_evidence) jmap" where
  "evidence_by_ref rules = fold (\<lambda>e m. jset (ev_ruleRef e) e m) rules []"

definition exact_declaration :: "css_rule_fact \<Rightarrow> rule_declaration \<Rightarrow> bool" where
  "exact_declaration f d \<longleftrightarrow> rd_property d = fact_property f \<and> rd_value d = fact_value f \<and>
     rd_important d = fact_important f \<and> rd_valueTruncated d = fact_valueTruncated f"

fun fact_refined :: "(jstring, rule_evidence) jmap \<Rightarrow> runtime_fact \<Rightarrow> bool" where
  "fact_refined m (CssRuleFact f) =
     (case jget m (fact_ruleRef f) of
        None \<Rightarrow> False
      | Some e \<Rightarrow> \<exists>d\<in>set (ev_declarations e). exact_declaration f d)"
| "fact_refined m _ = True"

definition inspect_refined :: "schema_env \<Rightarrow> inspect_message \<Rightarrow> bool" where
  "inspect_refined env m \<longleftrightarrow>
     targets_refined (insp_targets m) \<and>
     (let byRef = evidence_by_ref (eb_rules (insp_ruleEvidence m))
      in \<forall>t\<in>set (insp_targets m). list_all (fact_refined byRef) (tgt_facts t)) \<and>
     serialized_budget_ok env INSPECT_ENVELOPE_MAX_BYTES (Inspect m)"

definition inspect_message_ok :: "schema_env \<Rightarrow> inspect_message \<Rightarrow> bool" where
  "inspect_message_ok env m \<longleftrightarrow>
     messageId m \<noteq> [] \<and> insp_sessionId m \<noteq> [] \<and> client_source_ok (insp_source m) \<and>
     1 \<le> length (insp_targets m) \<and> length (insp_targets m) \<le> lim_targets INSPECT_LIMITS \<and>
     list_all inspect_target_ok (insp_targets m) \<and>
     evidence_batch_ok env (insp_ruleEvidence m) \<and> inspect_context_ok (insp_context m) \<and>
     inspect_refined env m"

subsection \<open>Link and session messages\<close>

definition pin_pattern :: "jstring \<Rightarrow> bool" where
  "pin_pattern p \<longleftrightarrow> length p = 2 \<and> (\<forall>c\<in>set p. is_digit c)"

definition hello_ok :: "schema_env \<Rightarrow> hello_message \<Rightarrow> bool" where
  "hello_ok env m \<longleftrightarrow> messageId m \<noteq> [] \<and> hello_sessionId m \<noteq> [] \<and> hello_authToken m \<noteq> [] \<and>
     se_uuid env (hello_bridgeInstanceId m) \<and> client_source_ok (hello_source m)"

definition link_request_ok :: "link_request_message \<Rightarrow> bool" where
  "link_request_ok m \<longleftrightarrow> messageId m \<noteq> [] \<and> pin_pattern (link_pin m) \<and>
     client_source_ok (link_source m) \<and>
     (src_role (link_source m) = Browser \<or> src_role (link_source m) = Simulator)"

definition link_accepted_ok :: "schema_env \<Rightarrow> link_accepted_message \<Rightarrow> bool" where
  "link_accepted_ok env m \<longleftrightarrow> messageId m \<noteq> [] \<and> accepted_sessionId m \<noteq> [] \<and>
     se_uuid env (accepted_bridgeInstanceId m) \<and> 32 \<le> length (accepted_authToken m) \<and>
     se_datetime env (accepted_expiresAt m)"

definition authenticated_ok :: "schema_env \<Rightarrow> authenticated_message \<Rightarrow> bool" where
  "authenticated_ok env m \<longleftrightarrow> messageId m \<noteq> [] \<and> authed_sessionId m \<noteq> [] \<and>
     se_uuid env (authed_bridgeInstanceId m)"

definition unlink_ok :: "unlink_message \<Rightarrow> bool" where
  "unlink_ok m \<longleftrightarrow> messageId m \<noteq> [] \<and> unlink_sessionId m \<noteq> []"

definition error_ok :: "error_message \<Rightarrow> bool" where
  "error_ok m \<longleftrightarrow> messageId m \<noteq> [] \<and> err_message m \<noteq> []"

definition ping_ok :: "schema_env \<Rightarrow> ping_message \<Rightarrow> bool" where
  "ping_ok env m \<longleftrightarrow> messageId m \<noteq> [] \<and> se_datetime env (ping_sentAt m)"

definition pong_ok :: "schema_env \<Rightarrow> pong_message \<Rightarrow> bool" where
  "pong_ok env m \<longleftrightarrow> messageId m \<noteq> [] \<and> pong_pingMessageId m \<noteq> [] \<and> se_datetime env (pong_sentAt m)"

subsection \<open>Rules sources and opens\<close>

definition rules_source_label_ok :: "jstring \<Rightarrow> bool" where
  "rules_source_label_ok label \<longleftrightarrow>
     text_between 1 (lim_sourceLabelLength RULES_SOURCES_LIMITS) label \<and>
     label \<noteq> js ''.'' \<and> label \<noteq> js ''..'' \<and> \<not> (\<exists>c\<in>set label. forbidden_label c) \<and>
     \<not> scheme_prefix ascii_lower label"

definition rules_source_ok :: "rules_source \<Rightarrow> bool" where
  "rules_source_ok s \<longleftrightarrow>
     text_between 1 (lim_ruleRefLength RULE_EVIDENCE_LIMITS) (rs_ruleRef s) \<and>
     text_between 1 (lim_authorityIdLength RULES_SOURCES_LIMITS) (rs_openAuthorityId s) \<and>
     rules_source_label_ok (rs_label s) \<and> line_ok (rs_startLine s) \<and> column_ok (rs_startColumn s)"

fun unique_sources :: "jstring list \<Rightarrow> jstring list \<Rightarrow> rules_source list \<Rightarrow> bool" where
  "unique_sources ruleRefs authorityIds [] = True"
| "unique_sources ruleRefs authorityIds (s # ss) =
     (\<not> rs_ruleRef s \<in> set ruleRefs \<and> \<not> rs_openAuthorityId s \<in> set authorityIds \<and>
      unique_sources (set_add (rs_ruleRef s) ruleRefs)
        (set_add (rs_openAuthorityId s) authorityIds) ss)"

definition rules_sources_ok :: "schema_env \<Rightarrow> nat \<Rightarrow> rules_sources_message \<Rightarrow> bool" where
  "rules_sources_ok env envelopeMaxBytes m \<longleftrightarrow>
     opaqueId (messageId m) \<and> opaqueId (sessionId m) \<and> opaqueId (rsm_sourceId m) \<and>
     opaqueId (inspectMessageId m) \<and> generation_ok (rsm_rulesGeneration m) \<and>
     length (rsm_sources m) \<le> lim_sources RULES_SOURCES_LIMITS \<and>
     list_all rules_source_ok (rsm_sources m) \<and>
     0 \<le> rsm_unresolvedRuleCount m \<and>
     rsm_unresolvedRuleCount m \<le> lim_unresolvedRules RULES_SOURCES_LIMITS \<and>
     unique_sources [] [] (rsm_sources m) \<and>
     serialized_budget_ok env envelopeMaxBytes (RulesSources m)"

text \<open>\<^verbatim>\<open>/^-{0,2}[A-Za-z_][A-Za-z0-9_-]*$/u\<close>\<close>

definition property_start :: "jstring \<Rightarrow> bool" where
  "property_start s = (case s of [] \<Rightarrow> False
     | c # cs \<Rightarrow> (is_alpha c \<or> c = 0x5f) \<and>
         (\<forall>x\<in>set cs. is_alpha x \<or> is_digit x \<or> x = 0x5f \<or> x = 0x2d))"

definition property_pattern :: "jstring \<Rightarrow> bool" where
  "property_pattern s \<longleftrightarrow> property_start s \<or>
     (case s of a # s' \<Rightarrow> a = 0x2d \<and> (property_start s' \<or>
        (case s' of b # s'' \<Rightarrow> b = 0x2d \<and> property_start s'' | [] \<Rightarrow> False)) | [] \<Rightarrow> False)"

definition open_declaration_ok :: "open_declaration \<Rightarrow> bool" where
  "open_declaration_ok d \<longleftrightarrow>
     text_between 1 (lim_openPropertyLength RULES_SOURCES_LIMITS) (od_property d) \<and>
     property_pattern (od_property d) \<and> 0 \<le> od_occurrence d \<and>
     od_occurrence d \<le> int (lim_declarationsPerRule INSPECT_LIMITS) - 1"

definition rules_open_ok :: "rules_open_message \<Rightarrow> bool" where
  "rules_open_ok m \<longleftrightarrow>
     opaqueId (messageId m) \<and> opaqueId (sessionId m) \<and> opaqueId (inspectMessageId m) \<and>
     generation_ok (rom_rulesGeneration m) \<and>
     text_between 1 (lim_authorityIdLength RULES_SOURCES_LIMITS) (rom_openAuthorityId m) \<and>
     opt_ok open_declaration_ok (rom_declaration m)"

subsection \<open>Resolutions, refreshes and source presentation\<close>

definition source_document_ok :: "source_document \<Rightarrow> bool" where
  "source_document_ok d \<longleftrightarrow>
     text_between 1 (lim_labelLength RESOLUTION_LIMITS) (doc_label d) \<and>
     text_between 1 (lim_languageIdLength RESOLUTION_LIMITS) (doc_languageId d)"

definition resolution_refined :: "resolution_message \<Rightarrow> bool" where
  "resolution_refined m =
     (let hasMatches = res_selectedMatchCount m > 0 \<or> res_parentMatchCount m > 0
      in \<not> (res_status m = Matched \<and> \<not> hasMatches) \<and>
         \<not> (res_status m \<noteq> Matched \<and> hasMatches) \<and>
         \<not> (length (set_of (res_diagnosticCodes m)) \<noteq> length (res_diagnosticCodes m)))"

definition resolution_ok :: "schema_env \<Rightarrow> nat \<Rightarrow> resolution_message \<Rightarrow> bool" where
  "resolution_ok env envelopeMaxBytes m \<longleftrightarrow>
     opaqueId (messageId m) \<and> opaqueId (sessionId m) \<and> opaqueId (res_sourceId m) \<and>
     opaqueId (inspectMessageId m) \<and> generation_ok (res_resolutionGeneration m) \<and>
     opt_ok source_document_ok (res_document m) \<and>
     count_ok (res_selectedMatchCount m) \<and> count_ok (res_parentMatchCount m) \<and>
     count_ok (res_inaccessibleStylesheetCount m) \<and>
     length (res_diagnosticCodes m) \<le> lim_diagnosticCodes RESOLUTION_LIMITS \<and>
     resolution_refined m \<and> serialized_budget_ok env envelopeMaxBytes (Resolution m)"

definition page_refresh_ok :: "page_refresh_message \<Rightarrow> bool" where
  "page_refresh_ok m \<longleftrightarrow> opaqueId (messageId m) \<and> opaqueId (pr_sessionId m) \<and>
     opaqueId (pr_sourceId m) \<and> generation_ok (pr_refreshGeneration m)"

text \<open>\<^verbatim>\<open>text.split(/\r\n|\r|\n/).length\<close>\<close>

fun logical_lines :: "jstring \<Rightarrow> nat" where
  "logical_lines [] = 1"
| "logical_lines (c # cs) =
     (if c = 0x0d then
        Suc (case cs of d # cs' \<Rightarrow> if d = 0x0a then logical_lines cs' else logical_lines cs
           | [] \<Rightarrow> logical_lines [])
      else if c = 0x0a then Suc (logical_lines cs) else logical_lines cs)"

definition source_excerpt_ok :: "source_excerpt \<Rightarrow> bool" where
  "source_excerpt_ok e \<longleftrightarrow>
     opaqueId (ex_matchId e) \<and> text_between 1 (lim_labelLength RESOLUTION_LIMITS) (ex_label e) \<and>
     1 \<le> ex_startLine e \<and> ex_startLine e \<le> lim_count RESOLUTION_LIMITS \<and>
     1 \<le> ex_endLine e \<and> ex_endLine e \<le> lim_count RESOLUTION_LIMITS \<and>
     \<not> ex_endLine e < ex_startLine e \<and>
     \<not> utf8ByteLength (ex_text e) > lim_textBytes SOURCE_PRESENTATION_LIMITS \<and>
     \<not> logical_lines (ex_text e) > lim_textLines SOURCE_PRESENTATION_LIMITS"

definition source_matches_ok :: "schema_env \<Rightarrow> nat \<Rightarrow> source_matches_message \<Rightarrow> bool" where
  "source_matches_ok env envelopeMaxBytes m \<longleftrightarrow>
     opaqueId (messageId m) \<and> opaqueId (sessionId m) \<and> opaqueId (sm_sourceId m) \<and>
     opaqueId (inspectMessageId m) \<and> generation_ok (sm_resolutionGeneration m) \<and>
     source_document_ok (sm_document m) \<and>
     length (sm_matches m) \<le> lim_matches SOURCE_PRESENTATION_LIMITS \<and>
     list_all source_excerpt_ok (sm_matches m) \<and> count_ok (sm_omittedMatchCount m) \<and>
     serialized_budget_ok env envelopeMaxBytes (SourceMatches m)"

definition source_open_ok :: "source_open_message \<Rightarrow> bool" where
  "source_open_ok m \<longleftrightarrow> opaqueId (messageId m) \<and> opaqueId (sessionId m) \<and>
     opaqueId (inspectMessageId m) \<and> generation_ok (so_resolutionGeneration m) \<and>
     opaqueId (so_matchId m)"

definition presentation_settings_ok :: "presentation_settings_message \<Rightarrow> bool" where
  "presentation_settings_ok m \<longleftrightarrow> opaqueId (messageId m) \<and> opaqueId (sessionId m) \<and>
     opaqueId (inspectMessageId m)"

definition source_navigate_ok :: "schema_env \<Rightarrow> nat \<Rightarrow> source_navigate_message \<Rightarrow> bool" where
  "source_navigate_ok env envelopeMaxBytes m \<longleftrightarrow> opaqueId (messageId m) \<and> opaqueId (sessionId m) \<and>
     opaqueId (inspectMessageId m) \<and> generation_ok (nav_resolutionGeneration m) \<and>
     serialized_budget_ok env envelopeMaxBytes (SourceNavigate m)"

definition navigation_state_ok :: "schema_env \<Rightarrow> nat \<Rightarrow> navigation_state_message \<Rightarrow> bool" where
  "navigation_state_ok env envelopeMaxBytes m \<longleftrightarrow> opaqueId (messageId m) \<and> opaqueId (sessionId m) \<and>
     opaqueId (inspectMessageId m) \<and> opaqueId (ns_sourceId m) \<and>
     generation_ok (ns_resolutionGeneration m) \<and> count_ok (ns_selectedMatchCount m) \<and>
     opt_ok count_ok (ns_activeMatchIndex m) \<and> opt_ok opaqueId (ns_activeMatchId m) \<and>
     opt_ok (\<lambda>i. \<not> i \<ge> ns_selectedMatchCount m) (ns_activeMatchIndex m) \<and>
     serialized_budget_ok env envelopeMaxBytes (SourceNavigationState m)"

definition peer_state_ok :: "peer_state_message \<Rightarrow> bool" where
  "peer_state_ok m \<longleftrightarrow> opaqueId (messageId m) \<and> opaqueId (peer_sessionId m) \<and>
     generation_ok (peer_generation m)"

text \<open>\<^verbatim>\<open>PinOpMessageSchema\<close>: the union of the schemas.\<close>

fun message_ok :: "schema_env \<Rightarrow> pin_op_message \<Rightarrow> bool" where
  "message_ok env (Hello m) = hello_ok env m"
| "message_ok env (LinkRequest m) = link_request_ok m"
| "message_ok env (LinkAccepted m) = link_accepted_ok env m"
| "message_ok env (Authenticated m) = authenticated_ok env m"
| "message_ok env (Unlink m) = unlink_ok m"
| "message_ok env (Inspect m) = inspect_message_ok env m"
| "message_ok env (RulesSources m) = rules_sources_ok env RULES_SOURCES_ENVELOPE_MAX_BYTES m"
| "message_ok env (RulesOpen m) = rules_open_ok m"
| "message_ok env (PageRefresh m) = page_refresh_ok m"
| "message_ok env (SourceMatches m) = source_matches_ok env SOURCE_PRESENTATION_ENVELOPE_MAX_BYTES m"
| "message_ok env (SourceOpen m) = source_open_ok m"
| "message_ok env (PresentationSettings m) = presentation_settings_ok m"
| "message_ok env (SourceNavigate m) = source_navigate_ok env SOURCE_NAVIGATION_ENVELOPE_MAX_BYTES m"
| "message_ok env (Resolution m) = resolution_ok env RESOLUTION_ENVELOPE_MAX_BYTES m"
| "message_ok env (SourceNavigationState m) =
     navigation_state_ok env SOURCE_NAVIGATION_ENVELOPE_MAX_BYTES m"
| "message_ok env (PeerState m) = peer_state_ok m"
| "message_ok env (ErrorMessage m) = error_ok m"
| "message_ok env (Ping m) = ping_ok env m"
| "message_ok env (Pong m) = pong_ok env m"

subsection \<open>What the refinements amount to\<close>

lemma unique_refs_iff: "unique_refs seen rs \<longleftrightarrow> distinct rs \<and> set rs \<inter> set seen = {}"
  by (induction rs arbitrary: seen) auto

lemma unique_sources_iff:
  "unique_sources rr aa ss \<longleftrightarrow>
     unique_refs rr (map rs_ruleRef ss) \<and> unique_refs aa (map rs_openAuthorityId ss)"
  by (induction ss arbitrary: rr aa) auto

lemma jget_evidence_by_ref_from:
  "distinct (map ev_ruleRef rules) \<Longrightarrow>
   jget (fold (\<lambda>e m. jset (ev_ruleRef e) e m) rules m) ref =
     (case find (\<lambda>e. ev_ruleRef e = ref) rules of Some e \<Rightarrow> Some e | None \<Rightarrow> jget m ref)"
proof (induction rules arbitrary: m)
  case (Cons r rs)
  have "find (\<lambda>e. ev_ruleRef e = ref) rs = None" if "ev_ruleRef r = ref"
    unfolding find_None_iff using Cons.prems that by (auto intro: rev_image_eqI)
  with Cons show ?case by (auto split: option.splits)
qed simp

lemma jget_evidence_by_ref:
  "distinct (map ev_ruleRef rules) \<Longrightarrow>
   jget (evidence_by_ref rules) ref = find (\<lambda>e. ev_ruleRef e = ref) rules"
  by (simp add: evidence_by_ref_def jget_evidence_by_ref_from split: option.split)

text \<open>An accepted target list is the selected element, alone or next to its parent.\<close>

lemma targets_refined_iff:
  assumes "length ts \<le> 2"
  shows "targets_refined ts \<longleftrightarrow>
    (\<exists>s. tgt_role s = Selected \<and> tgt_depth s = 0 \<and>
      (ts = [s] \<or> (\<exists>p. tgt_role p = Parent \<and> tgt_depth p = 1 \<and> (ts = [s, p] \<or> ts = [p, s]))))"
proof -
  have role: "r = Selected \<or> r = Parent" for r by (cases r) auto
  consider "ts = []" | a where "ts = [a]" | a b where "ts = [a, b]"
    using assms by (cases ts rule: remdups_adj.cases) auto
  then show ?thesis
  proof cases
    case 2
    then show ?thesis using role [of "tgt_role a"] by (auto simp: targets_refined_def)
  next
    case 3
    then show ?thesis using role [of "tgt_role a"] role [of "tgt_role b"]
      by (auto simp: targets_refined_def)
  qed (simp add: targets_refined_def)
qed

lemma resolution_refined_iff:
  "resolution_refined m \<longleftrightarrow>
     (res_status m = Matched \<longleftrightarrow> res_selectedMatchCount m > 0 \<or> res_parentMatchCount m > 0) \<and>
     distinct (res_diagnosticCodes m)"
  by (auto simp: resolution_refined_def Let_def length_set_of card_distinct distinct_card)

text \<open>The refined positions of a generated source form an optional, ordered range.\<close>

lemma generated_source_refined_iff:
  "generated_source_refined s \<longleftrightarrow>
     (case (gs_startLine s, gs_startColumn s, gs_endLine s, gs_endColumn s) of
        (None, None, None, None) \<Rightarrow> gs_rulePath s \<noteq> None
      | (Some _, Some _, None, None) \<Rightarrow> True
      | (Some l, Some c, Some el, Some ec) \<Rightarrow> l < el \<or> l = el \<and> c \<le> ec
      | _ \<Rightarrow> False)"
  by (cases "gs_startLine s"; cases "gs_startColumn s"; cases "gs_endLine s"; cases "gs_endColumn s")
    (auto simp: generated_source_refined_def ends_before_def)

end
