(* ===== verification/Link_Text.thy ===== *)
theory Link_Text
  imports Protocol_Schemas
begin

text \<open>
  The short texts both halves exchange outside the message schemas: the version probe and the
  close reason of a version mismatch (\<^verbatim>\<open>compatibility.ts\<close>), the managed port range
  (\<^verbatim>\<open>managedPorts.ts\<close>), and the seven-digit link code that VS Code composes
  (\<^verbatim>\<open>bridgeManager.ts\<close>), the panel displays (\<^verbatim>\<open>windowConnectionCoordinator.ts\<close>) and the browser
  parses (\<^verbatim>\<open>linkCode.ts\<close>).
\<close>

subsection \<open>Protocol version\<close>

definition MAX_PROTOCOL_VERSION :: int where "MAX_PROTOCOL_VERSION = 0x7fffffff"
definition MAX_CLOSE_REASON_BYTES :: nat where "MAX_CLOSE_REASON_BYTES = 123"
definition PROTOCOL_MISMATCH_CLOSE_CODE :: nat where "PROTOCOL_MISMATCH_CLOSE_CODE = 1002"

fun isBoundedProtocolVersion :: "jsnum \<Rightarrow> bool" where
  "isBoundedProtocolVersion (JInt n) \<longleftrightarrow> 0 \<le> n \<and> n \<le> MAX_PROTOCOL_VERSION"
| "isBoundedProtocolVersion JNonInt = False"

record version_probe =
  vp_receivedVersion :: "jsnum option"
  vp_compatible :: bool

definition incompatible_probe :: version_probe where
  "incompatible_probe = \<lparr>vp_receivedVersion = None, vp_compatible = False\<rparr>"

text \<open>\<open>parse\<close> is \<^verbatim>\<open>JSON.parse\<close> of the payload, \<open>None\<close> where it throws.\<close>

definition probeProtocolVersion :: "(jstring \<Rightarrow> json option) \<Rightarrow> jstring \<Rightarrow> version_probe" where
  "probeProtocolVersion parse payload =
     (if length payload > INSPECT_ENVELOPE_MAX_BYTES \<or>
         utf8ByteLength payload > INSPECT_ENVELOPE_MAX_BYTES
      then incompatible_probe
      else (case parse payload of
          Some (JObj members) \<Rightarrow>
            (case jget members (js ''protocolVersion'') of
               Some (JNum n) \<Rightarrow>
                 if \<not> isBoundedProtocolVersion n then incompatible_probe
                 else \<lparr>vp_receivedVersion = Some n, vp_compatible = (n = JInt PROTOCOL_VERSION)\<rparr>
             | _ \<Rightarrow> incompatible_probe)
        | _ \<Rightarrow> incompatible_probe))"

definition reason_prefix :: jstring where
  "reason_prefix = js ''pin-op protocol mismatch; expected=''"

definition reason_middle :: jstring where
  "reason_middle = js ''; received=''"

definition protocolMismatchReason :: "jsnum option \<Rightarrow> jstring" where
  "protocolMismatchReason receivedVersion =
     reason_prefix @ decimal (nat PROTOCOL_VERSION) @ reason_middle @
     (case receivedVersion of
        Some (JInt n) \<Rightarrow> if isBoundedProtocolVersion (JInt n) then decimal (nat n) else js ''unknown''
      | _ \<Rightarrow> js ''unknown'')"

text \<open>The two groups of \<^verbatim>\<open>CLOSE_REASON_PATTERN\<close>.\<close>

definition close_reason_match :: "jstring \<Rightarrow> (jstring \<times> jstring) option" where
  "close_reason_match reason =
     (if starts_with reason_prefix reason then
        let rest = drop (length reason_prefix) reason;
            expected = takeWhile is_digit rest;
            rest' = dropWhile is_digit rest
        in if expected \<noteq> [] \<and> starts_with reason_middle rest' then
             let received = drop (length reason_middle) rest'
             in if received = js ''unknown'' \<or> received \<noteq> [] \<and> (\<forall>c\<in>set received. is_digit c)
                then Some (expected, received) else None
           else None
      else None)"

definition parseProtocolMismatchReason :: "jstring \<Rightarrow> (int \<times> int option) option" where
  "parseProtocolMismatchReason reason =
     (if length reason > MAX_CLOSE_REASON_BYTES \<or> utf8ByteLength reason > MAX_CLOSE_REASON_BYTES
      then None
      else (case close_reason_match reason of
          None \<Rightarrow> None
        | Some (g1, g2) \<Rightarrow>
            let expectedVersion = int (number_of g1)
            in if \<not> isBoundedProtocolVersion (JInt expectedVersion) then None
               else if g2 = js ''unknown'' then Some (expectedVersion, None)
               else let receivedVersion = int (number_of g2)
                    in if \<not> isBoundedProtocolVersion (JInt receivedVersion) then None
                       else Some (expectedVersion, Some receivedVersion)))"

subsection \<open>Managed ports\<close>

definition MANAGED_BRIDGE_PORT_START :: int where "MANAGED_BRIDGE_PORT_START = 48735"
definition MANAGED_BRIDGE_PORT_COUNT :: int where "MANAGED_BRIDGE_PORT_COUNT = 100"
definition MANAGED_BRIDGE_PORT_END :: int where
  "MANAGED_BRIDGE_PORT_END = MANAGED_BRIDGE_PORT_START + MANAGED_BRIDGE_PORT_COUNT - 1"

lemmas port_defs = MANAGED_BRIDGE_PORT_START_def MANAGED_BRIDGE_PORT_COUNT_def
  MANAGED_BRIDGE_PORT_END_def

fun isManagedBridgePort :: "jsnum \<Rightarrow> bool" where
  "isManagedBridgePort (JInt n) \<longleftrightarrow>
     safe_int n \<and> MANAGED_BRIDGE_PORT_START \<le> n \<and> n \<le> MANAGED_BRIDGE_PORT_END"
| "isManagedBridgePort JNonInt = False"

subsection \<open>Link codes\<close>

definition padStart :: "nat \<Rightarrow> code_unit \<Rightarrow> jstring \<Rightarrow> jstring" where
  "padStart n c s = replicate (n - length s) c @ s"

text \<open>\<^verbatim>\<open>`${String(started.port).padStart(5, "0")}${linkInfo.pin}`\<close>\<close>

definition link_code :: "nat \<Rightarrow> jstring \<Rightarrow> jstring" where
  "link_code port pin = padStart 5 48 (decimal port) @ pin"

definition formatDisplayLinkCode :: "jstring \<Rightarrow> jstring" where
  "formatDisplayLinkCode value = take 5 value @ js '' '' @ drop 5 value"

definition loopbackUrl :: "nat \<Rightarrow> jstring" where
  "loopbackUrl port = js ''ws://127.0.0.1:'' @ decimal port"

record parsed_link_code =
  plc_value :: jstring
  plc_port :: nat
  plc_pin :: jstring
  plc_url :: jstring

datatype link_code_error = NotSevenDigits | PortOutOfRange

text \<open>
  \<^verbatim>\<open>/([0-9]{5})(?:[ -])?([0-9]{2})/\<close> at the start of a text: the two groups and the length of
  the match. The separator is tried first, then no separator.
\<close>

definition two_digits :: "jstring \<Rightarrow> bool" where
  "two_digits s \<longleftrightarrow> length s \<ge> 2 \<and> (\<forall>c\<in>set (take 2 s). is_digit c)"

definition link_code_at :: "jstring \<Rightarrow> (jstring \<times> jstring \<times> nat) option" where
  "link_code_at s =
     (if length s \<ge> 5 \<and> (\<forall>c\<in>set (take 5 s). is_digit c) then
        let rest = drop 5 s
        in if rest \<noteq> [] \<and> (hd rest = 0x20 \<or> hd rest = 0x2d) \<and> two_digits (tl rest)
           then Some (take 5 s, take 2 (tl rest), 8)
           else if two_digits rest then Some (take 5 s, take 2 rest, 7)
           else None
      else None)"

text \<open>\<^verbatim>\<open>RegExp.exec\<close>: the first position that matches.\<close>

fun link_code_exec :: "jstring \<Rightarrow> (jstring \<times> jstring \<times> jstring) option" where
  "link_code_exec [] = None"
| "link_code_exec (c # cs) =
     (case link_code_at (c # cs) of
        Some (g1, g2, n) \<Rightarrow> Some (take n (c # cs), g1, g2)
      | None \<Rightarrow> link_code_exec cs)"

definition parseLinkCode :: "jstring \<Rightarrow> link_code_error + parsed_link_code" where
  "parseLinkCode value =
     (case link_code_exec value of
        None \<Rightarrow> Inl NotSevenDigits
      | Some (m0, g1, g2) \<Rightarrow>
          if m0 \<noteq> value then Inl NotSevenDigits
          else let port = number_of g1
               in if \<not> isManagedBridgePort (JInt (int port)) then Inl PortOutOfRange
                  else Inr \<lparr>plc_value = g1 @ g2, plc_port = port, plc_pin = g2,
                         plc_url = loopbackUrl port\<rparr>)"

subsection \<open>Lemmas\<close>

lemma takeWhile_digits:
  "(\<forall>c\<in>set d. is_digit c) \<Longrightarrow> \<not> is_digit x \<Longrightarrow>
   takeWhile is_digit (d @ x # r) = d \<and> dropWhile is_digit (d @ x # r) = x # r"
  by (simp add: takeWhile_append2 dropWhile_append2)

lemma decimal_not_unknown: "decimal n \<noteq> js ''unknown''"
proof
  assume "decimal n = js ''unknown''"
  then have "\<forall>c\<in>set (js ''unknown''). is_digit c" using decimal_digits [of n] by simp
  then show False by (simp add: js_def unit_of_char_def is_digit_def)
qed

lemma reason_middle_split: "\<exists>r. reason_middle = 0x3b # r"
  by (simp add: reason_middle_def js_def unit_of_char_def)

lemma close_reason_match_built:
  assumes "\<forall>c\<in>set e. is_digit c" "e \<noteq> []" "r = js ''unknown'' \<or> r \<noteq> [] \<and> (\<forall>c\<in>set r. is_digit c)"
  shows "close_reason_match (reason_prefix @ e @ reason_middle @ r) = Some (e, r)"
proof -
  obtain mid where mid: "reason_middle = 0x3b # mid" using reason_middle_split by blast
  have nd: "\<not> is_digit 0x3b" by (simp add: is_digit_def)
  note t = takeWhile_digits [OF assms(1) nd, of "mid @ r"]
  show ?thesis using t assms(2,3)
    by (simp add: close_reason_match_def starts_with_iff mid Let_def)
qed

lemma ascii_byte_length: "(\<forall>c\<in>set s. c \<le> 0x7f) \<Longrightarrow> utf8ByteLength s = length s"
  by (induction s) auto

lemma digit_ascii: "is_digit c \<Longrightarrow> c \<le> 0x7f"
  unfolding is_digit_def by (auto intro: order_trans)

lemma reason_ascii: "\<forall>c\<in>set (protocolMismatchReason v). c \<le> 0x7f"
proof -
  have "\<forall>c\<in>set (reason_prefix @ reason_middle @ js ''unknown''). c \<le> 0x7f"
    by (simp add: reason_prefix_def reason_middle_def js_def unit_of_char_def)
  then show ?thesis using decimal_digits digit_ascii
    by (auto simp: protocolMismatchReason_def split: option.splits jsnum.splits)
qed

lemma length_protocolMismatchReason: "length (protocolMismatchReason v) \<le> MAX_CLOSE_REASON_BYTES"
proof -
  have "length (decimal (nat n)) \<le> 10" if "0 \<le> n" "n \<le> MAX_PROTOCOL_VERSION" for n
    by (rule length_decimal) (use that in \<open>simp_all add: MAX_PROTOCOL_VERSION_def\<close>)
  moreover have "length (decimal (nat PROTOCOL_VERSION)) \<le> 1"
    by (rule length_decimal) (simp_all add: PROTOCOL_VERSION_def)
  ultimately show ?thesis
    by (fastforce simp: protocolMismatchReason_def reason_prefix_def reason_middle_def
        MAX_CLOSE_REASON_BYTES_def split: option.splits jsnum.splits)
qed

text \<open>The display form of a code starts with the port's five digits.\<close>

lemma length_decimal_ge: "10 ^ k \<le> n \<Longrightarrow> k < length (decimal n)"
proof (induction k arbitrary: n)
  case (Suc k)
  have "(10::nat) \<le> 10 ^ Suc k" by simp
  with Suc.prems have "\<not> n < 10" by linarith
  moreover from Suc.prems have "10 ^ k \<le> n div 10" by (simp add: less_eq_div_iff_mult_less_eq)
  then have "k < length (decimal (n div 10))" by (rule Suc.IH)
  ultimately show ?case by (subst decimal.simps) simp
qed simp

lemma length_decimal_5: "10000 \<le> n \<Longrightarrow> n < 100000 \<Longrightarrow> length (decimal n) = 5"
  using length_decimal_ge [of 4 n] length_decimal [of 5 n] by simp

lemma managed_port_5:
  "isManagedBridgePort (JInt (int port)) \<Longrightarrow> length (decimal port) = 5"
  by (rule length_decimal_5) (auto simp: port_defs)

lemma parseLinkCode_whole:
  assumes "length d = 5" "\<forall>c\<in>set d. is_digit c" "length p = 2" "\<forall>c\<in>set p. is_digit c"
    and "sep = [] \<or> sep = [0x20] \<or> sep = [0x2d]"
  shows "link_code_exec (d @ sep @ p) = Some (d @ sep @ p, d, p)"
proof -
  obtain c cs where d: "d = c # cs" using assms(1) by (cases d) auto
  obtain p1 p2 where p: "p = [p1, p2]" using assms(3)
    by (auto simp: length_Suc_conv eval_nat_numeral)
  have "p1 \<noteq> 0x20" "p1 \<noteq> 0x2d" using assms(4) by (auto simp: p is_digit_def)
  then have "link_code_at (d @ sep @ p) = Some (d, p, length (d @ sep @ p))"
    using assms by (auto simp: link_code_at_def Let_def two_digits_def p)
  then show ?thesis by (simp add: d)
qed

lemma link_code_exec_whole:
  assumes "link_code_exec v = Some (v, g1, g2)"
  shows "\<exists>sep. (sep = [] \<or> sep = [0x20] \<or> sep = [0x2d]) \<and> v = g1 @ sep @ g2 \<and>
    length g1 = 5 \<and> (\<forall>c\<in>set g1. is_digit c) \<and> length g2 = 2 \<and> (\<forall>c\<in>set g2. is_digit c)"
proof -
  have shorter: "link_code_exec s = Some (m, a, b) \<Longrightarrow> length m \<le> length s" for s m a b
    by (induction s) (force split: option.splits prod.splits)+
  obtain c cs where v: "v = c # cs" using assms by (cases v) auto
  show ?thesis
  proof (cases "link_code_at v")
    case None
    then have "link_code_exec cs = Some (v, g1, g2)" using assms v by simp
    then show ?thesis using shorter [of cs v] v by simp
  next
    case (Some x)
    then obtain n where n: "link_code_at v = Some (g1, g2, n)" "take n v = v"
      using assms v by (cases x) auto
    have d5: "length (take 5 v) = 5" "\<forall>c\<in>set (take 5 v). is_digit c" "g1 = take 5 v"
      using n(1) by (auto simp: link_code_at_def Let_def split: if_splits)
    show ?thesis
    proof (cases "n = 8")
      case True
      with n have r: "drop 5 v \<noteq> []" "hd (drop 5 v) = 0x20 \<or> hd (drop 5 v) = 0x2d"
        "two_digits (tl (drop 5 v))" "g2 = take 2 (tl (drop 5 v))"
        by (auto simp: link_code_at_def Let_def split: if_splits)
      have "length v \<le> 8" using n(2) True by (metis length_take min.cobounded2)
      then have "tl (drop 5 v) = g2" using r(4) by simp
      then have "v = g1 @ [hd (drop 5 v)] @ g2"
        using d5(3) r(1) by (metis append.simps append_take_drop_id list.collapse)
      then show ?thesis using d5 r by (intro exI [of _ "[hd (drop 5 v)]"]) (auto simp: two_digits_def)
    next
      case False
      with n have r: "n = 7" "two_digits (drop 5 v)" "g2 = take 2 (drop 5 v)"
        by (auto simp: link_code_at_def Let_def split: if_splits)
      have "length v \<le> 7" using n(2) r(1) by (metis length_take min.cobounded2)
      then have "drop 5 v = g2" using r(3) by simp
      then have "v = g1 @ [] @ g2" using d5(3) by (metis append.simps(1) append_take_drop_id)
      then show ?thesis using d5 r by (intro exI [of _ "[]"]) (auto simp: two_digits_def)
    qed
  qed
qed

lemma number_of_inject:
  "length s = length t \<Longrightarrow> \<forall>c\<in>set s. is_digit c \<Longrightarrow> \<forall>c\<in>set t. is_digit c \<Longrightarrow>
   number_of s = number_of t \<Longrightarrow> s = t"
proof (induction s arbitrary: t rule: rev_induct)
  case (snoc c s)
  then obtain t' d where t: "t = t' @ [d]" by (cases t rule: rev_cases) auto
  have d: "48 \<le> unat c" "48 \<le> unat d" "unat c \<le> 57" "unat d \<le> 57"
    using snoc.prems(2,3) unfolding t by (auto simp: is_digit_def word_le_nat_alt)
  then have lt: "unat c - 48 < 10" "unat d - 48 < 10" by simp_all
  have eq: "number_of s * 10 + (unat c - 48) = number_of t' * 10 + (unat d - 48)"
    using snoc.prems(4) by (simp add: t number_of_snoc)
  have unique: "a * 10 + x = b * 10 + y \<Longrightarrow> x < 10 \<Longrightarrow> y < 10 \<Longrightarrow> a = b \<and> x = y" for a b x y :: nat
    by presburger
  from unique [OF eq lt] have "number_of s = number_of t'" "unat c = unat d" using d by linarith+
  then have "number_of s = number_of t'" "c = d" by (simp_all add: word_unat_eq_iff)
  then show ?case using snoc t by auto
qed simp

lemma decimal_number_of:
  assumes "length d = 5" "\<forall>c\<in>set d. is_digit c" "isManagedBridgePort (JInt (int (number_of d)))"
  shows "decimal (number_of d) = d"
  by (rule number_of_inject) (use assms managed_port_5 decimal_digits in auto)

lemma parse_formatted:
  assumes "isManagedBridgePort (JInt (int port))" "pin_pattern pin"
    "sep = [] \<or> sep = [0x20] \<or> sep = [0x2d]"
  shows "parseLinkCode (decimal port @ sep @ pin) = Inr \<lparr>plc_value = decimal port @ pin,
    plc_port = port, plc_pin = pin, plc_url = loopbackUrl port\<rparr>"
proof -
  have "link_code_exec (decimal port @ sep @ pin) = Some (decimal port @ sep @ pin, decimal port, pin)"
    by (rule parseLinkCode_whole)
      (use assms managed_port_5 [of port] decimal_digits [of port] in \<open>auto simp: pin_pattern_def\<close>)
  then show ?thesis using assms(1) by (simp add: parseLinkCode_def Let_def del: isManagedBridgePort.simps)
qed

subsection \<open>Properties\<close>

text \<open>
  the link code parser accepts exactly the texts made of a managed bridge port, an
  optional single space or hyphen and a two-digit PIN, and returns that port, that PIN, the
  seven digits and the loopback endpoint of the port.\<close>

theorem parseLinkCode_iff:
  "parseLinkCode v = Inr p \<longleftrightarrow>
     (\<exists>port pin sep. isManagedBridgePort (JInt (int port)) \<and> pin_pattern pin \<and>
        (sep = [] \<or> sep = [0x20] \<or> sep = [0x2d]) \<and> v = decimal port @ sep @ pin \<and>
        p = \<lparr>plc_value = decimal port @ pin, plc_port = port, plc_pin = pin,
             plc_url = loopbackUrl port\<rparr>)"
  (is "_ \<longleftrightarrow> ?rhs")
proof
  assume acc: "parseLinkCode v = Inr p"
  then obtain g1 g2 where x: "link_code_exec v = Some (v, g1, g2)"
    and m: "isManagedBridgePort (JInt (int (number_of g1)))"
    and p: "p = \<lparr>plc_value = g1 @ g2, plc_port = number_of g1, plc_pin = g2,
              plc_url = loopbackUrl (number_of g1)\<rparr>"
    by (auto simp: parseLinkCode_def Let_def simp del: isManagedBridgePort.simps
        split: option.splits prod.splits if_splits)
  from link_code_exec_whole [OF x] obtain sep where
    sep: "sep = [] \<or> sep = [0x20] \<or> sep = [0x2d]" "v = g1 @ sep @ g2"
    and g: "length g1 = 5" "\<forall>c\<in>set g1. is_digit c" "length g2 = 2" "\<forall>c\<in>set g2. is_digit c"
    by blast
  have "decimal (number_of g1) = g1" using g(1,2) m by (rule decimal_number_of)
  then show ?rhs using sep g m p
    by (intro exI [of _ "number_of g1"] exI [of _ g2] exI [of _ sep])
      (simp add: pin_pattern_def del: isManagedBridgePort.simps)
next
  assume ?rhs
  then show "parseLinkCode v = Inr p" by (elim exE conjE) (simp only: parse_formatted)
qed

text \<open>
  the code VS Code composes for a managed port, in the form the panel displays it,
  parses back to that port and PIN.\<close>

theorem display_code_round_trip:
  assumes "isManagedBridgePort (JInt (int port))" and "pin_pattern pin"
  shows "parseLinkCode (formatDisplayLinkCode (link_code port pin)) =
    Inr \<lparr>plc_value = link_code port pin, plc_port = port, plc_pin = pin,
         plc_url = loopbackUrl port\<rparr>"
proof -
  have five: "length (decimal port) = 5" using assms(1) by (rule managed_port_5)
  then have code: "link_code port pin = decimal port @ pin" by (simp add: link_code_def padStart_def)
  have "js '' '' = [0x20]" by (simp add: js_def unit_of_char_def)
  then show ?thesis using parse_formatted [OF assms, of "[0x20]"] five
    by (simp add: code formatDisplayLinkCode_def)
qed

theorem display_code_round_trip_witness:
  "parseLinkCode (formatDisplayLinkCode (link_code 48735 (js ''07''))) =
    Inr \<lparr>plc_value = link_code 48735 (js ''07''), plc_port = 48735, plc_pin = js ''07'',
         plc_url = loopbackUrl 48735\<rparr>"
proof -
  have "isManagedBridgePort (JInt (int 48735))" by (simp add: port_defs safe_int_def)
  moreover have "pin_pattern (js ''07'')"
    by (simp add: pin_pattern_def js_def unit_of_char_def is_digit_def)
  ultimately show ?thesis by (rule display_code_round_trip)
qed

text \<open>
  the reason a peer closes with on a version mismatch fits a close frame and is read
  back by the other side: the expected version, and the received one where it was a valid
  version number.\<close>

theorem mismatch_reason_round_trip:
  "parseProtocolMismatchReason (protocolMismatchReason v) =
     Some (PROTOCOL_VERSION,
       case v of Some (JInt n) \<Rightarrow> if isBoundedProtocolVersion (JInt n) then Some n else None
       | _ \<Rightarrow> None)"
proof -
  define r where "r = (case v of Some (JInt n) \<Rightarrow>
      if isBoundedProtocolVersion (JInt n) then decimal (nat n) else js ''unknown''
    | _ \<Rightarrow> js ''unknown'')"
  have r: "r = js ''unknown'' \<or> r \<noteq> [] \<and> (\<forall>c\<in>set r. is_digit c)"
    using decimal_digits by (auto simp: r_def split: option.splits jsnum.splits)
  have "close_reason_match (protocolMismatchReason v) = Some (decimal (nat PROTOCOL_VERSION), r)"
    unfolding protocolMismatchReason_def r_def [symmetric]
    by (rule close_reason_match_built) (use r decimal_digits in auto)
  moreover have "utf8ByteLength (protocolMismatchReason v) = length (protocolMismatchReason v)"
    by (rule ascii_byte_length [OF reason_ascii])
  ultimately show ?thesis
    using length_protocolMismatchReason [of v] decimal_not_unknown
    by (auto simp: parseProtocolMismatchReason_def PROTOCOL_VERSION_def MAX_PROTOCOL_VERSION_def
        r_def split: option.splits jsnum.splits)
qed

end
