(* ===== verification/Effects.thy ===== *)
theory Effects
  imports Prelude
begin

text \<open>
  Code that updates a state and may throw: a function from a state to an error or a result,
  with the state it leaves. \<open>obeys\<close> relates the states before and after, \<open>ensures\<close> is total
  correctness: from a state with the precondition the code returns, in a state with the
  postcondition. The locale \<open>effect_relation\<close> composes relations between states along
  sequential code.
\<close>

type_synonym ('s, 'e, 'a) eff = "'s \<Rightarrow> ('e + 'a) \<times> 's"

definition ret :: "'a \<Rightarrow> ('s, 'e, 'a) eff" where
  "ret x s = (Inr x, s)"

definition throw :: "'e \<Rightarrow> ('s, 'e, 'a) eff" where
  "throw e s = (Inl e, s)"

definition bindE :: "('s, 'e, 'a) eff \<Rightarrow> ('a \<Rightarrow> ('s, 'e, 'b) eff) \<Rightarrow> ('s, 'e, 'b) eff" where
  "bindE m f s = (case m s of (Inl e, s') \<Rightarrow> (Inl e, s') | (Inr x, s') \<Rightarrow> f x s')"

definition lift_pure :: "('s \<Rightarrow> 'a \<times> 's) \<Rightarrow> ('s, 'e, 'a) eff" where
  "lift_pure f s = (case f s of (x, s') \<Rightarrow> (Inr x, s'))"

fun for_each :: "('x \<Rightarrow> ('s, 'e, unit) eff) \<Rightarrow> 'x list \<Rightarrow> ('s, 'e, unit) eff" where
  "for_each body [] = ret ()"
| "for_each body (x # xs) = bindE (body x) (\<lambda>_. for_each body xs)"

lemma ret_apply [simp]: "ret x s = (Inr x, s)"
  by (simp add: ret_def)

lemma throw_apply [simp]: "throw e s = (Inl e, s)"
  by (simp add: throw_def)

lemma bindE_apply: "bindE m f s = (case m s of (Inl e, s') \<Rightarrow> (Inl e, s') | (Inr x, s') \<Rightarrow> f x s')"
  by (simp add: bindE_def)

lemma bindE_Inr: "m s = (Inr x, s') \<Longrightarrow> bindE m f s = f x s'"
  by (simp add: bindE_def)

lemma bindE_ret [simp]: "bindE (ret x) f = f x"
  by (rule ext) (simp add: bindE_def)

lemma bindE_assoc: "bindE (bindE m f) g = bindE m (\<lambda>x. bindE (f x) g)"
  by (rule ext) (simp add: bindE_def split: prod.split sum.split)

subsection \<open>Relations between the states before and after\<close>

definition obeys :: "('s \<Rightarrow> 's \<Rightarrow> bool) \<Rightarrow> ('s, 'e, 'a) eff \<Rightarrow> bool" where
  "obeys R m \<longleftrightarrow> (\<forall>s. R s (snd (m s)))"

locale effect_relation =
  fixes R :: "'s \<Rightarrow> 's \<Rightarrow> bool"
  assumes R_refl: "R s s"
    and R_trans: "R s t \<Longrightarrow> R t u \<Longrightarrow> R s u"
begin

lemma obeysD: "obeys R m \<Longrightarrow> R s (snd (m s))"
  by (simp add: obeys_def)

lemma obeys_ret [simp]: "obeys R (ret x)"
  by (simp add: obeys_def R_refl)

lemma obeys_throw [simp]: "obeys R (throw e)"
  by (simp add: obeys_def R_refl)

lemma bind_state:
  assumes "R s (snd (m s))" and "\<And>x s'. m s = (Inr x, s') \<Longrightarrow> R s' (snd (f x s'))"
  shows "R s (snd (bindE m f s))"
  using assms R_trans by (fastforce simp: bindE_def split: prod.splits sum.splits)

lemma obeys_bind:
  assumes "obeys R m" and "\<And>x. obeys R (f x)"
  shows "obeys R (bindE m f)"
  unfolding obeys_def using assms by (intro allI bind_state) (auto simp: obeys_def)

lemma obeys_for_each: "(\<And>x. x \<in> set xs \<Longrightarrow> obeys R (body x)) \<Longrightarrow> obeys R (for_each body xs)"
  by (induction xs) (auto intro: obeys_bind)

lemma obeys_run: "(\<And>s e. R s (step s e)) \<Longrightarrow> R s (foldl step s es)"
  by (induction es arbitrary: s) (auto intro: R_refl R_trans)

end

text \<open>
  One outcome from a state: the code returned a result with \<open>Q\<close>, kept the invariant \<open>P\<close> and
  moved along \<open>R\<close>.
\<close>

definition goes :: "('s \<Rightarrow> bool) \<Rightarrow> ('s \<Rightarrow> 's \<Rightarrow> bool) \<Rightarrow> ('a \<Rightarrow> bool) \<Rightarrow> 's \<Rightarrow> ('e + 'a) \<times> 's \<Rightarrow> bool" where
  "goes P R Q s out \<longleftrightarrow> (\<exists>x s'. out = (Inr x, s') \<and> P s' \<and> R s s' \<and> Q x)"

context effect_relation
begin

lemma goes_ret: "P s \<Longrightarrow> Q x \<Longrightarrow> goes P R Q s (ret x s)"
  by (simp add: goes_def R_refl)

lemma goes_bind:
  assumes "goes P R Q s (m s)" and "\<And>x s'. P s' \<Longrightarrow> Q x \<Longrightarrow> goes P' R Q' s' (f x s')"
  shows "goes P' R Q' s (bindE m f s)"
proof -
  obtain x s' where m: "m s = (Inr x, s')" "P s'" "R s s'" "Q x" using assms(1) by (auto simp: goes_def)
  from assms(2) [OF m(2,4)] obtain y t where "f x s' = (Inr y, t)" "P' t" "R s' t" "Q' y"
    by (auto simp: goes_def)
  then show ?thesis using R_trans [OF m(3)] by (auto simp: goes_def bindE_def m(1))
qed

end

lemma goes_weaken:
  "goes P R Q s out \<Longrightarrow> (\<And>s. P s \<Longrightarrow> P' s) \<Longrightarrow> (\<And>x. Q x \<Longrightarrow> Q' x) \<Longrightarrow> goes P' R Q' s out"
  by (auto simp: goes_def)

subsection \<open>Total correctness\<close>

definition ensures :: "('s \<Rightarrow> bool) \<Rightarrow> ('s, 'e, 'a) eff \<Rightarrow> ('a \<Rightarrow> 's \<Rightarrow> bool) \<Rightarrow> bool" where
  "ensures P m Q \<longleftrightarrow> (\<forall>s. P s \<longrightarrow> (\<exists>x s'. m s = (Inr x, s') \<and> Q x s'))"

lemma ensures_ret: "(\<And>s. P s \<Longrightarrow> Q x s) \<Longrightarrow> ensures P (ret x) Q"
  by (simp add: ensures_def)

lemma ensures_bind:
  assumes "ensures P m Q" and "\<And>x. ensures (Q x) (f x) S"
  shows "ensures P (bindE m f) S"
  unfolding ensures_def
proof (intro allI impI)
  fix s assume "P s"
  then obtain x s' where m: "m s = (Inr x, s')" and "Q x s'"
    using assms(1) by (auto simp: ensures_def)
  then show "\<exists>y t. bindE m f s = (Inr y, t) \<and> S y t"
    using assms(2) [of x] by (simp add: bindE_def m ensures_def)
qed

lemma ensures_for_each:
  assumes "\<And>x. x \<in> set xs \<Longrightarrow> ensures I (body x) (\<lambda>_. I)"
  shows "ensures I (for_each body xs) (\<lambda>_. I)"
  using assms
proof (induction xs)
  case (Cons x xs)
  show ?case unfolding for_each.simps by (rule ensures_bind [where Q = "\<lambda>_. I"]) (use Cons in auto)
qed (simp add: ensures_ret)

lemma ensuresD: "ensures P m Q \<Longrightarrow> P s \<Longrightarrow> \<exists>x s'. m s = (Inr x, s') \<and> Q x s'"
  by (simp add: ensures_def)

end
