(* ===== verification/Bridge_Clients.thy ===== *)
theory Bridge_Clients
  imports Protocol_Schemas
begin

text \<open>
  \<^verbatim>\<open>packages/bridge/src/clientRegistry.ts\<close> and \<^verbatim>\<open>peerStateRegistry.ts\<close>: guarded connections,
  the registry of authenticated clients, and the IDE presence of each session.

  The outside world is the parameter \<open>bridge_env\<close>: what a socket's \<^verbatim>\<open>readyState\<close> is and whether
  its \<^verbatim>\<open>send\<close> or \<^verbatim>\<open>close\<close> throws may depend on everything that happened on the wire so far, so
  every behaviour of the \<^verbatim>\<open>ws\<close> package is covered. The wire log records the calls that reached a
  socket, in order. \<^verbatim>\<open>randomUUID()\<close> is a stream of texts consumed in order.
\<close>

subsection \<open>The environment\<close>

datatype ready_state = CONNECTING | OPEN | CLOSING | CLOSED

datatype wire_event =
    Sent nat pin_op_message
  | Terminated nat
  | CloseRequested nat "nat option" "jstring option"

record bridge_env =
  be_schema :: schema_env
  be_ready :: "wire_event list \<Rightarrow> nat \<Rightarrow> ready_state"
  be_send_throws :: "wire_event list \<Rightarrow> nat \<Rightarrow> bool"
  be_close_throws :: "wire_event list \<Rightarrow> nat \<Rightarrow> bool"
  be_uuid :: "nat \<Rightarrow> jstring"

record net =
  wire :: "wire_event list"
  uuids :: nat

definition randomUUID :: "bridge_env \<Rightarrow> net \<Rightarrow> jstring \<times> net" where
  "randomUUID env n = (be_uuid env (uuids n), n\<lparr>uuids := Suc (uuids n)\<rparr>)"

definition emit :: "wire_event \<Rightarrow> net \<Rightarrow> net" where
  "emit e n = n\<lparr>wire := wire n @ [e]\<rparr>"

lemma emit_simps [simp]:
  "wire (emit e n) = wire n @ [e]" "uuids (emit e n) = uuids n"
  by (simp_all add: emit_def)

subsection \<open>Guarded connections\<close>

datatype send_result = Returned bool | Threw

definition terminateWebSocket :: "nat \<Rightarrow> net \<Rightarrow> net" where
  "terminateWebSocket c n = emit (Terminated c) n"

text \<open>\<^verbatim>\<open>createGuardedWebSocketConnection\<close>: \<^verbatim>\<open>send\<close>, the callback it passes, and \<^verbatim>\<open>close\<close>.\<close>

definition guarded_send :: "bridge_env \<Rightarrow> nat \<Rightarrow> pin_op_message \<Rightarrow> net \<Rightarrow> send_result \<times> net" where
  "guarded_send env c payload n =
     (if be_ready env (wire n) c \<noteq> OPEN then (Returned False, n)
      else if be_send_throws env (wire n) c then (Returned False, terminateWebSocket c n)
      else (Returned True, emit (Sent c payload) n))"

definition guarded_send_callback :: "nat \<Rightarrow> bool \<Rightarrow> net \<Rightarrow> net" where
  "guarded_send_callback c failed n = (if failed then terminateWebSocket c n else n)"

definition guarded_close :: "bridge_env \<Rightarrow> nat \<Rightarrow> nat option \<Rightarrow> jstring option \<Rightarrow> net \<Rightarrow> net" where
  "guarded_close env c code reason n =
     (if be_ready env (wire n) c = CLOSING \<or> be_ready env (wire n) c = CLOSED then n
      else if be_close_throws env (wire n) c then terminateWebSocket c n
      else emit (CloseRequested c code reason) n)"

definition terminateConnectionSafely :: "nat \<Rightarrow> net \<Rightarrow> net" where
  "terminateConnectionSafely c n = terminateWebSocket c n"

definition sendConnectionSafely ::
  "(nat \<Rightarrow> pin_op_message \<Rightarrow> net \<Rightarrow> send_result \<times> net) \<Rightarrow> nat \<Rightarrow> pin_op_message \<Rightarrow> net \<Rightarrow> bool \<times> net" where
  "sendConnectionSafely send c payload n =
     (case send c payload n of
        (Returned b, n') \<Rightarrow> (b, n')
      | (Threw, n') \<Rightarrow> (False, terminateConnectionSafely c n'))"

subsection \<open>What a connection promises\<close>

text \<open>The messages a log has delivered, with their connections.\<close>

fun deliveries :: "wire_event list \<Rightarrow> (nat \<times> pin_op_message) list" where
  "deliveries [] = []"
| "deliveries (Sent c m # es) = (c, m) # deliveries es"
| "deliveries (_ # es) = deliveries es"

lemma deliveries_append [simp]: "deliveries (a @ b) = deliveries a @ deliveries b"
  by (induction a rule: deliveries.induct) auto

text \<open>
  The contract of \<^verbatim>\<open>BridgeConnection.send\<close> that the router relies on: the answer \<^verbatim>\<open>true\<close> means
  exactly that message was handed to that connection, any other outcome that nothing was.
\<close>

locale bridge_connection =
  fixes send :: "nat \<Rightarrow> pin_op_message \<Rightarrow> net \<Rightarrow> send_result \<times> net"
  assumes send_true:
    "send c m n = (Returned True, n') \<Longrightarrow> deliveries (wire n') = deliveries (wire n) @ [(c, m)]"
    and send_other:
    "send c m n = (r, n') \<Longrightarrow> r \<noteq> Returned True \<Longrightarrow> deliveries (wire n') = deliveries (wire n)"
    and send_uuids: "send c m n = (r, n') \<Longrightarrow> uuids n' = uuids n"
begin

lemma safely_deliveries:
  "sendConnectionSafely send c m n = (b, n') \<Longrightarrow>
   deliveries (wire n') = deliveries (wire n) @ (if b then [(c, m)] else [])"
  using send_true [of c m n] send_other [of c m n]
  by (auto simp: sendConnectionSafely_def terminateConnectionSafely_def terminateWebSocket_def
      split: prod.splits send_result.splits)

lemma safely_uuids:
  "sendConnectionSafely send c m n = (b, n') \<Longrightarrow> uuids n' = uuids n"
  using send_uuids [of c m n]
  by (auto simp: sendConnectionSafely_def terminateConnectionSafely_def terminateWebSocket_def
      split: prod.splits send_result.splits)

end

interpretation ws: bridge_connection "guarded_send env" for env
  by unfold_locales (auto simp: guarded_send_def terminateWebSocket_def split: if_splits)

lemma guarded_never_throws: "fst (guarded_send env c m n) \<noteq> Threw"
  by (simp add: guarded_send_def)

lemma guarded_close_deliveries [simp]:
  "deliveries (wire (guarded_close env c code reason n)) = deliveries (wire n)"
  by (simp add: guarded_close_def terminateWebSocket_def)

lemma guarded_close_uuids [simp]: "uuids (guarded_close env c code reason n) = uuids n"
  by (simp add: guarded_close_def terminateWebSocket_def)

subsection \<open>The client registry\<close>

record registered_client =
  cl_id :: jstring
  cl_connection :: nat
  cl_source :: client_source
  cl_sessionId :: jstring
  cl_authToken :: jstring
  cl_capabilities :: "capability list"
  cl_missedPongs :: nat

record client_registration =
  rn_connection :: nat
  rn_source :: client_source
  rn_sessionId :: jstring
  rn_authToken :: jstring
  rn_capabilities :: "capability list"

type_synonym client_registry = "(jstring, registered_client) jmap"

abbreviation role_of :: "registered_client \<Rightarrow> client_role" where
  "role_of c \<equiv> src_role (cl_source c)"

definition registry_add ::
  "bridge_env \<Rightarrow> client_registration \<Rightarrow> client_registry \<Rightarrow> net \<Rightarrow>
   registered_client \<times> client_registry \<times> net" where
  "registry_add env client reg n =
     (let (uuid, n') = randomUUID env n;
          entry = \<lparr>cl_id = uuid, cl_connection = rn_connection client, cl_source = rn_source client,
            cl_sessionId = rn_sessionId client, cl_authToken = rn_authToken client,
            cl_capabilities = rn_capabilities client, cl_missedPongs = 0\<rparr>
      in (entry, jset (cl_id entry) entry reg, n'))"

definition registry_remove :: "jstring \<Rightarrow> client_registry \<Rightarrow> bool \<times> client_registry" where
  "registry_remove cid reg = (cid \<in> set (jkeys reg), jdel cid reg)"

definition registry_get :: "client_registry \<Rightarrow> jstring \<Rightarrow> registered_client option" where
  "registry_get reg cid = jget reg cid"

definition registry_all :: "client_registry \<Rightarrow> registered_client list" where
  "registry_all reg = map snd reg"

definition countByRole :: "client_registry \<Rightarrow> client_role \<Rightarrow> nat" where
  "countByRole reg role =
     fold (\<lambda>c count. if role_of c = role then count + 1 else count) (map snd reg) 0"

definition countBySessionAndRole :: "client_registry \<Rightarrow> jstring \<Rightarrow> client_role \<Rightarrow> nat" where
  "countBySessionAndRole reg sid role =
     fold (\<lambda>c count. if cl_sessionId c = sid \<and> role_of c = role then count + 1 else count)
       (map snd reg) 0"

definition registry_clear :: "client_registry \<Rightarrow> client_registry" where
  "registry_clear reg = []"

definition findBySessionAndRole :: "client_registry \<Rightarrow> jstring \<Rightarrow> client_role \<Rightarrow> registered_client list" where
  "findBySessionAndRole reg sid role =
     filter (\<lambda>c. cl_sessionId c = sid \<and> role_of c = role) (registry_all reg)"

definition markAlive :: "jstring \<Rightarrow> client_registry \<Rightarrow> client_registry" where
  "markAlive cid reg = (case jget reg cid of
     None \<Rightarrow> reg | Some c \<Rightarrow> jset cid (c\<lparr>cl_missedPongs := 0\<rparr>) reg)"

definition markPingSent :: "jstring \<Rightarrow> client_registry \<Rightarrow> client_registry" where
  "markPingSent cid reg = (case jget reg cid of
     None \<Rightarrow> reg | Some c \<Rightarrow> jset cid (c\<lparr>cl_missedPongs := cl_missedPongs c + 1\<rparr>) reg)"

definition supportsCapability :: "registered_client \<Rightarrow> capability \<Rightarrow> bool" where
  "supportsCapability c cap \<longleftrightarrow> cap \<in> set (cl_capabilities c)"

text \<open>
  Well-formedness: each client is stored once, under its own id, and every id was drawn from
  the UUID stream already consumed.
\<close>

definition registry_inv :: "bridge_env \<Rightarrow> net \<Rightarrow> client_registry \<Rightarrow> bool" where
  "registry_inv env n reg \<longleftrightarrow> distinct (jkeys reg) \<and>
     (\<forall>cid c. jget reg cid = Some c \<longrightarrow> cl_id c = cid \<and> (\<exists>k < uuids n. be_uuid env k = cid))"

lemma registry_inv_empty [simp]: "registry_inv env n []"
  by (simp add: registry_inv_def)

lemma registry_invD:
  "registry_inv env n reg \<Longrightarrow> jget reg cid = Some c \<Longrightarrow> cl_id c = cid"
  by (simp add: registry_inv_def)

lemma registry_inv_later:
  "registry_inv env n reg \<Longrightarrow> uuids n \<le> uuids n' \<Longrightarrow> registry_inv env n' reg"
  unfolding registry_inv_def by (meson less_le_trans)

lemma registry_inv_add:
  assumes "registry_inv env n reg" and "registry_add env client reg n = (c, reg', n')"
  shows "registry_inv env n' reg'"
proof -
  have *: "reg' = jset (be_uuid env (uuids n)) c reg" "cl_id c = be_uuid env (uuids n)"
    "uuids n' = Suc (uuids n)"
    using assms(2) by (auto simp: registry_add_def randomUUID_def Let_def)
  show ?thesis
    unfolding registry_inv_def
  proof (intro conjI allI impI)
    show "distinct (jkeys reg')" using assms(1) by (simp add: registry_inv_def *)
  next
    fix cid x assume x: "jget reg' cid = Some x"
    have old: "cl_id x = cid \<and> (\<exists>k<uuids n. be_uuid env k = cid)" if "jget reg cid = Some x"
      using assms(1) that by (simp add: registry_inv_def)
    show "cl_id x = cid" using x old * by (auto split: if_splits)
    show "\<exists>k<uuids n'. be_uuid env k = cid" using x old * by (auto intro: less_SucI split: if_splits)
  qed
qed

lemma registry_inv_remove:
  "registry_inv env n reg \<Longrightarrow> registry_inv env n (snd (registry_remove cid reg))"
  by (simp add: registry_inv_def registry_remove_def)

lemma registry_inv_markAlive: "registry_inv env n reg \<Longrightarrow> registry_inv env n (markAlive cid reg)"
  by (auto simp: registry_inv_def markAlive_def split: option.splits)

lemma registry_inv_markPingSent: "registry_inv env n reg \<Longrightarrow> registry_inv env n (markPingSent cid reg)"
  by (auto simp: registry_inv_def markPingSent_def split: option.splits)

lemma fold_count: "fold (\<lambda>c count. if P c then count + 1 else count) cs k = k + length (filter P cs)"
  by (induction cs arbitrary: k) auto

lemma countByRole_filter: "countByRole reg role = length (filter (\<lambda>c. role_of c = role) (map snd reg))"
  unfolding countByRole_def fold_count by simp

lemma countBySessionAndRole_find:
  "countBySessionAndRole reg sid role = length (findBySessionAndRole reg sid role)"
  unfolding countBySessionAndRole_def findBySessionAndRole_def registry_all_def fold_count by simp

lemma in_findBySessionAndRole:
  assumes "registry_inv env n reg"
  shows "c \<in> set (findBySessionAndRole reg sid role) \<longleftrightarrow>
    jget reg (cl_id c) = Some c \<and> cl_sessionId c = sid \<and> role_of c = role"
proof -
  have "c \<in> set (map snd reg) \<longleftrightarrow> jget reg (cl_id c) = Some c"
  proof
    assume "c \<in> set (map snd reg)"
    then obtain k where "(k, c) \<in> set reg" by auto
    then have "jget reg k = Some c" using assms by (simp add: registry_inv_def map_of_eq_Some_iff)
    then show "jget reg (cl_id c) = Some c" using registry_invD [OF assms] by force
  next
    assume "jget reg (cl_id c) = Some c"
    then show "c \<in> set (map snd reg)" by (force dest: map_of_SomeD)
  qed
  then show ?thesis by (auto simp: findBySessionAndRole_def registry_all_def)
qed

lemma count_pos_iff:
  "0 < countBySessionAndRole reg sid role \<longleftrightarrow>
     (\<exists>c\<in>set (map snd reg). cl_sessionId c = sid \<and> role_of c = role)"
  by (auto simp: countBySessionAndRole_find findBySessionAndRole_def registry_all_def filter_empty_conv)

subsection \<open>IDE presence\<close>

record peer_snapshot =
  peer_is_connected :: bool
  peer_gen :: int

record peer_transition =
  pt_sessionId :: jstring
  pt_snapshot :: peer_snapshot

type_synonym peer_registry = "(jstring, peer_snapshot) jmap"

datatype peer_error = InvalidIdeCount

definition peer_get :: "peer_registry \<Rightarrow> jstring \<Rightarrow> peer_snapshot" where
  "peer_get states sid = (case jget states sid of
     Some s \<Rightarrow> s | None \<Rightarrow> \<lparr>peer_is_connected = False, peer_gen = 0\<rparr>)"

fun updateIdeCount ::
  "peer_registry \<Rightarrow> jstring \<Rightarrow> jsnum \<Rightarrow> peer_error + (peer_transition option \<times> peer_registry)" where
  "updateIdeCount states sid JNonInt = Inl InvalidIdeCount"
| "updateIdeCount states sid (JInt count) =
     (if count < 0 then Inl InvalidIdeCount
      else let previous = peer_get states sid; connected = (count > 0)
        in if connected = peer_is_connected previous then Inr (None, states)
           else let next_state = \<lparr>peer_is_connected = connected, peer_gen = peer_gen previous + 1\<rparr>
             in Inr (Some \<lparr>pt_sessionId = sid, pt_snapshot = next_state\<rparr>, jset sid next_state states))"

definition peer_clear :: "peer_registry \<Rightarrow> peer_registry" where
  "peer_clear states = []"

lemma updateIdeCount_nat:
  "updateIdeCount states sid (JInt (int count)) =
     (if (0 < count) = peer_is_connected (peer_get states sid) then Inr (None, states)
      else let s = \<lparr>peer_is_connected = (0 < count), peer_gen = peer_gen (peer_get states sid) + 1\<rparr>
        in Inr (Some \<lparr>pt_sessionId = sid, pt_snapshot = s\<rparr>, jset sid s states))"
  by (simp add: Let_def)

text \<open>A run of presence updates, with the transitions it publishes.\<close>

fun peer_run :: "peer_registry \<Rightarrow> (jstring \<times> nat) list \<Rightarrow> peer_transition list \<times> peer_registry" where
  "peer_run states [] = ([], states)"
| "peer_run states ((sid, count) # us) =
     (case updateIdeCount states sid (JInt (int count)) of
        Inl _ \<Rightarrow> peer_run states us
      | Inr (t, states') \<Rightarrow>
          (let (ts, final) = peer_run states' us in (case t of None \<Rightarrow> ts | Some x \<Rightarrow> x # ts, final)))"

definition session_transitions :: "jstring \<Rightarrow> peer_transition list \<Rightarrow> peer_snapshot list" where
  "session_transitions sid ts = map pt_snapshot (filter (\<lambda>t. pt_sessionId t = sid) ts)"

text \<open>Snapshots that count up by one and alternate between present and absent.\<close>

fun alternates :: "peer_snapshot \<Rightarrow> peer_snapshot list \<Rightarrow> bool" where
  "alternates s [] = True"
| "alternates s (t # ts) \<longleftrightarrow> peer_gen t = peer_gen s + 1 \<and>
     peer_is_connected t = (\<not> peer_is_connected s) \<and> alternates t ts"

lemma peer_run_alternates:
  "peer_run states us = (ts, final) \<Longrightarrow>
   alternates (peer_get states sid) (session_transitions sid ts) \<and>
   peer_get final sid = last (peer_get states sid # session_transitions sid ts)"
proof (induction us arbitrary: states ts)
  case Nil
  then show ?case by (simp add: session_transitions_def)
next
  case (Cons u us)
  obtain s count where u: "u = (s, count)" by (cases u)
  show ?case
  proof (cases "(0 < count) = peer_is_connected (peer_get states s)")
    case True
    then have "peer_run states us = (ts, final)"
      using Cons.prems by (auto simp: u updateIdeCount_nat simp del: updateIdeCount.simps split: prod.splits)
    then show ?thesis by (rule Cons.IH)
  next
    case False
    define x where "x = \<lparr>peer_is_connected = (0 < count), peer_gen = peer_gen (peer_get states s) + 1\<rparr>"
    obtain ts' where run: "peer_run (jset s x states) us = (ts', final)"
      and ts: "ts = \<lparr>pt_sessionId = s, pt_snapshot = x\<rparr> # ts'"
      using Cons.prems False
      by (auto simp: u updateIdeCount_nat x_def Let_def simp del: updateIdeCount.simps split: prod.splits)
    have get: "peer_get (jset s x states) sid = (if sid = s then x else peer_get states sid)"
      by (simp add: peer_get_def)
    have x: "peer_gen x = peer_gen (peer_get states s) + 1"
      "peer_is_connected x = (\<not> peer_is_connected (peer_get states s))"
      using False by (auto simp: x_def)
    from Cons.IH [OF run, unfolded get] show ?thesis
      by (cases "sid = s") (simp_all add: ts session_transitions_def x)
  qed
qed

end
