(* ===== verification/Bridge_Auth.thy ===== *)
theory Bridge_Auth
  imports Protocol_Schemas
begin

text \<open>
  \<^verbatim>\<open>packages/bridge/src/auth.ts\<close> and \<^verbatim>\<open>linkAuthenticator.ts\<close>: bearer tokens, the link PIN and its
  rate limit. A \<^verbatim>\<open>Date\<close> is its time value in milliseconds, \<open>None\<close> for an invalid date. What an
  operation reads from outside is an argument: the clock reading, and the hexadecimal text of
  the random bytes drawn if a token is created. An operation that throws returns its error
  with the state it leaves behind.
\<close>

subsection \<open>Dates and tokens\<close>

type_synonym js_date = "int option"

definition new_Date :: "int \<Rightarrow> js_date" where
  "new_Date ms = (if - 8640000000000000 \<le> ms \<and> ms \<le> 8640000000000000 then Some ms else None)"

datatype auth_error = InvalidClock | InvalidIssueTime | InvalidExpiration | InvalidCooldown
  | InvalidPin | InvalidInstanceId

record authorized_token =
  at_sessionId :: jstring
  at_role :: client_role
  at_bridgeInstanceId :: jstring
  at_value :: jstring
  at_expiresAt :: js_date

definition TOKEN_TTL_MS :: int where "TOKEN_TTL_MS = 24 * 60 * 60 * 1000"

definition tokensEqual :: "jstring \<Rightarrow> jstring \<Rightarrow> bool" where
  "tokensEqual left right =
     (let leftBuffer = buffer_from left; rightBuffer = buffer_from right
      in if length leftBuffer \<noteq> length rightBuffer then False else leftBuffer = rightBuffer)"

definition finiteDateTime :: "js_date \<Rightarrow> auth_error \<Rightarrow> auth_error + int" where
  "finiteDateTime d e = (case d of None \<Rightarrow> Inl e | Some t \<Rightarrow> Inr t)"

definition createAuthorizedToken ::
  "jstring \<Rightarrow> client_role \<Rightarrow> jstring \<Rightarrow> js_date \<Rightarrow> jstring \<Rightarrow> auth_error + authorized_token" where
  "createAuthorizedToken sid role instance_id now_date random_hex =
     (case finiteDateTime now_date InvalidIssueTime of
        Inl e \<Rightarrow> Inl e
      | Inr issuedAt \<Rightarrow>
          (let expiresAt = new_Date (issuedAt + TOKEN_TTL_MS)
           in case finiteDateTime expiresAt InvalidExpiration of
                Inl e \<Rightarrow> Inl e
              | Inr _ \<Rightarrow> Inr \<lparr>at_sessionId = sid, at_role = role, at_bridgeInstanceId = instance_id,
                  at_value = random_hex, at_expiresAt = expiresAt\<rparr>))"

lemma tokensEqual_buffer: "tokensEqual a b \<longleftrightarrow> buffer_from a = buffer_from b"
  by (auto simp: tokensEqual_def Let_def)

lemma tokensEqual_refl [simp]: "tokensEqual a a"
  by (simp add: tokensEqual_buffer)

lemma tokensEqual_sym: "tokensEqual a b \<longleftrightarrow> tokensEqual b a"
  by (auto simp: tokensEqual_buffer)

subsection \<open>The authenticator\<close>

record link_authenticator =
  au_sessionId :: jstring
  au_bridgeInstanceId :: jstring
  au_pin :: jstring
  au_tokens :: "authorized_token list"
  au_failures :: "int list"
  au_cooldownUntil :: "int option"

definition FAILURE_WINDOW_MS :: int where "FAILURE_WINDOW_MS = 60000"
definition MAX_FAILURES :: nat where "MAX_FAILURES = 5"
definition COOLDOWN_MS :: int where "COOLDOWN_MS = 60000"
definition MAX_ACTIVE_TOKENS_PER_ROLE :: nat where "MAX_ACTIVE_TOKENS_PER_ROLE = 64"

lemmas auth_limits = FAILURE_WINDOW_MS_def MAX_FAILURES_def COOLDOWN_MS_def TOKEN_TTL_MS_def
  MAX_ACTIVE_TOKENS_PER_ROLE_def

datatype token_validation = Accepted | Rejected | InstanceChanged

datatype link_attempt =
    LinkOk jstring jstring authorized_token
  | LinkRejectedAttempt
  | LinkRateLimitedUntil js_date

text \<open>
  The constructor: \<open>options_pin\<close> is the configured or the random PIN, \<open>options_instance\<close> the
  configured or the random instance id.
\<close>

definition new_LinkAuthenticator ::
  "schema_env \<Rightarrow> jstring \<Rightarrow> jstring \<Rightarrow> jstring \<Rightarrow> auth_error + link_authenticator" where
  "new_LinkAuthenticator env sid options_instance options_pin =
     (if \<not> pin_pattern options_pin then Inl InvalidPin
      else if \<not> se_uuid env options_instance then Inl InvalidInstanceId
      else Inr \<lparr>au_sessionId = sid, au_bridgeInstanceId = options_instance, au_pin = options_pin,
        au_tokens = [], au_failures = [], au_cooldownUntil = None\<rparr>)"

definition readNow :: "js_date \<Rightarrow> auth_error + int" where
  "readNow d = (case d of None \<Rightarrow> Inl InvalidClock | Some t \<Rightarrow> Inr t)"

definition unexpired :: "int \<Rightarrow> authorized_token \<Rightarrow> bool" where
  "unexpired t tok = (case at_expiresAt tok of None \<Rightarrow> False | Some e \<Rightarrow> e > t)"

definition pruneExpiredTokens :: "int \<Rightarrow> link_authenticator \<Rightarrow> link_authenticator" where
  "pruneExpiredTokens t a = a\<lparr>au_tokens := filter (unexpired t) (au_tokens a)\<rparr>"

definition pruneFailures :: "int \<Rightarrow> link_authenticator \<Rightarrow> link_authenticator" where
  "pruneFailures t a =
     (let cutoff = t - FAILURE_WINDOW_MS
      in a\<lparr>au_failures := filter (\<lambda>failedAt. failedAt \<ge> cutoff) (au_failures a)\<rparr>)"

text \<open>\<^verbatim>\<open>splice\<close> at \<^verbatim>\<open>findIndex\<close>: the first token of the role goes; \<open>None\<close> when there is none.\<close>

fun splice_first :: "('a \<Rightarrow> bool) \<Rightarrow> 'a list \<Rightarrow> 'a list option" where
  "splice_first p [] = None"
| "splice_first p (x # xs) = (if p x then Some xs else map_option ((#) x) (splice_first p xs))"

text \<open>The loop counts \<^verbatim>\<open>activeForRole\<close> down, one token per round.\<close>

fun evict_tokens :: "client_role \<Rightarrow> nat \<Rightarrow> authorized_token list \<Rightarrow> authorized_token list" where
  "evict_tokens role 0 toks = toks"
| "evict_tokens role (Suc active) toks =
     (if Suc active \<ge> MAX_ACTIVE_TOKENS_PER_ROLE then
        (case splice_first (\<lambda>t. at_role t = role) toks of
           None \<Rightarrow> toks | Some toks' \<Rightarrow> evict_tokens role active toks')
      else toks)"

definition issueToken ::
  "client_role \<Rightarrow> int \<Rightarrow> jstring \<Rightarrow> link_authenticator \<Rightarrow>
   (auth_error + authorized_token) \<times> link_authenticator" where
  "issueToken role t random_hex a0 =
     (let a1 = pruneExpiredTokens t a0;
          activeForRole = length (filter (\<lambda>k. at_role k = role) (au_tokens a1));
          a2 = a1\<lparr>au_tokens := evict_tokens role activeForRole (au_tokens a1)\<rparr>
      in case createAuthorizedToken (au_sessionId a2) role (au_bridgeInstanceId a2) (Some t) random_hex of
           Inl e \<Rightarrow> (Inl e, a2)
         | Inr token \<Rightarrow> (Inr token, a2\<lparr>au_tokens := au_tokens a2 @ [token]\<rparr>))"

definition issueTrustedToken ::
  "js_date \<Rightarrow> jstring \<Rightarrow> link_authenticator \<Rightarrow> (auth_error + authorized_token) \<times> link_authenticator" where
  "issueTrustedToken now_date random_hex a =
     (case readNow now_date of Inl e \<Rightarrow> (Inl e, a) | Inr t \<Rightarrow> issueToken Ide t random_hex a)"

text \<open>The wrong-PIN branch of \<^verbatim>\<open>attemptLink\<close>.\<close>

definition failed_attempt :: "int \<Rightarrow> link_authenticator \<Rightarrow> (auth_error + link_attempt) \<times> link_authenticator" where
  "failed_attempt attemptedAt a =
     (if length (au_failures a) + 1 < MAX_FAILURES
      then (Inr LinkRejectedAttempt, a\<lparr>au_failures := au_failures a @ [attemptedAt]\<rparr>)
      else (case new_Date (attemptedAt + COOLDOWN_MS) of
          None \<Rightarrow> (Inl InvalidCooldown, a)
        | Some until_time \<Rightarrow> (Inr (LinkRateLimitedUntil (Some until_time)),
            a\<lparr>au_failures := au_failures a @ [attemptedAt], au_cooldownUntil := Some until_time\<rparr>)))"

definition check_pin ::
  "jstring \<Rightarrow> client_role \<Rightarrow> int \<Rightarrow> jstring \<Rightarrow> link_authenticator \<Rightarrow>
   (auth_error + link_attempt) \<times> link_authenticator" where
  "check_pin pin role attemptedAt random_hex a =
     (if \<not> tokensEqual (au_pin a) pin then failed_attempt attemptedAt a
      else (case issueToken role attemptedAt random_hex (a\<lparr>au_failures := []\<rparr>) of
          (Inl e, a') \<Rightarrow> (Inl e, a')
        | (Inr authToken, a') \<Rightarrow>
            (Inr (LinkOk (au_sessionId a') (au_bridgeInstanceId a') authToken), a')))"

definition attemptLink ::
  "jstring \<Rightarrow> client_role \<Rightarrow> js_date \<Rightarrow> jstring \<Rightarrow> link_authenticator \<Rightarrow>
   (auth_error + link_attempt) \<times> link_authenticator" where
  "attemptLink pin role now_date random_hex a0 =
     (case readNow now_date of
        Inl e \<Rightarrow> (Inl e, a0)
      | Inr attemptedAt \<Rightarrow>
          (let a = pruneFailures attemptedAt a0
           in case au_cooldownUntil a of
                Some until_time \<Rightarrow>
                  if attemptedAt < until_time
                  then (Inr (LinkRateLimitedUntil (new_Date until_time)), a)
                  else check_pin pin role attemptedAt random_hex
                    (a\<lparr>au_cooldownUntil := None, au_failures := []\<rparr>)
              | None \<Rightarrow> check_pin pin role attemptedAt random_hex a))"

definition validateToken ::
  "jstring \<Rightarrow> client_role \<Rightarrow> jstring \<Rightarrow> jstring \<Rightarrow> js_date \<Rightarrow> link_authenticator \<Rightarrow>
   (auth_error + token_validation) \<times> link_authenticator" where
  "validateToken sid role token instance_id now_date a0 =
     (case readNow now_date of
        Inl e \<Rightarrow> (Inl e, a0)
      | Inr t \<Rightarrow>
          (let a = pruneExpiredTokens t a0
           in case find (\<lambda>candidate. tokensEqual (at_value candidate) token) (au_tokens a) of
                None \<Rightarrow> (Inr Rejected, a)
              | Some authorized \<Rightarrow>
                  if at_sessionId authorized \<noteq> sid \<or> at_role authorized \<noteq> role
                  then (Inr Rejected, a)
                  else (case at_expiresAt authorized of
                      None \<Rightarrow> (Inr Rejected, a)
                    | Some expiresAt \<Rightarrow>
                        if expiresAt \<le> t then (Inr Rejected, a)
                        else if at_bridgeInstanceId authorized = instance_id
                        then (Inr Accepted, a) else (Inr InstanceChanged, a))))"

definition revokeToken :: "jstring \<Rightarrow> link_authenticator \<Rightarrow> link_authenticator" where
  "revokeToken token a =
     a\<lparr>au_tokens := filter (\<lambda>k. \<not> tokensEqual (at_value k) token) (au_tokens a)\<rparr>"

definition revokeRole :: "client_role \<Rightarrow> link_authenticator \<Rightarrow> link_authenticator" where
  "revokeRole role a = a\<lparr>au_tokens := filter (\<lambda>k. at_role k \<noteq> role) (au_tokens a)\<rparr>"

definition revokeAll :: "link_authenticator \<Rightarrow> link_authenticator" where
  "revokeAll a = a\<lparr>au_tokens := []\<rparr>"

lemmas auth_ops = issueTrustedToken_def issueToken_def attemptLink_def check_pin_def
  failed_attempt_def validateToken_def revokeToken_def revokeRole_def revokeAll_def
  pruneFailures_def pruneExpiredTokens_def

subsection \<open>Invariant\<close>

definition role_count :: "client_role \<Rightarrow> authorized_token list \<Rightarrow> nat" where
  "role_count role toks = length (filter (\<lambda>k. at_role k = role) toks)"

definition auth_inv :: "link_authenticator \<Rightarrow> bool" where
  "auth_inv a \<longleftrightarrow> (\<forall>role. role_count role (au_tokens a) \<le> MAX_ACTIVE_TOKENS_PER_ROLE) \<and>
     (\<forall>k\<in>set (au_tokens a). at_expiresAt k \<noteq> None \<and> at_sessionId k = au_sessionId a \<and>
        at_bridgeInstanceId k = au_bridgeInstanceId a)"

lemma role_count_filter_le: "role_count role (filter p toks) \<le> role_count role toks"
  unfolding role_count_def by (induction toks) auto

lemma role_count_append [simp]:
  "role_count role (xs @ ys) = role_count role xs + role_count role ys"
  by (simp add: role_count_def)

lemma splice_first_Some:
  "splice_first p xs = Some ys \<Longrightarrow> length (filter p xs) = Suc (length (filter p ys)) \<and>
     filter (\<lambda>x. \<not> p x) ys = filter (\<lambda>x. \<not> p x) xs \<and> set ys \<subseteq> set xs"
  by (induction xs arbitrary: ys) (auto split: if_splits)

lemma splice_first_None: "splice_first p xs = None \<longleftrightarrow> filter p xs = []"
  by (induction xs) auto

lemma evict_tokens_others:
  "role' \<noteq> role \<Longrightarrow> filter (\<lambda>k. at_role k = role') (evict_tokens role n toks) =
     filter (\<lambda>k. at_role k = role') toks \<and> set (evict_tokens role n toks) \<subseteq> set toks"
proof (induction n arbitrary: toks)
  case (Suc n)
  show ?case
  proof (cases "splice_first (\<lambda>t. at_role t = role) toks")
    case (Some ys)
    have f: "filter (\<lambda>k. at_role k = role') xs =
        filter (\<lambda>k. at_role k = role') (filter (\<lambda>k. at_role k \<noteq> role) xs)" for xs
      using Suc.prems by (induction xs) auto
    have "filter (\<lambda>k. at_role k = role') ys = filter (\<lambda>k. at_role k = role') toks"
      by (subst f, subst (2) f) (use splice_first_Some [OF Some] in simp)
    then show ?thesis using Suc.IH [OF Suc.prems, of ys] splice_first_Some [OF Some] Some by auto
  qed simp
qed simp

lemma evict_tokens_subset: "set (evict_tokens role n toks) \<subseteq> set toks"
proof (induction n arbitrary: toks)
  case (Suc n)
  show ?case
  proof (cases "splice_first (\<lambda>t. at_role t = role) toks")
    case (Some ys)
    then show ?thesis using Suc.IH [of ys] splice_first_Some [OF Some] by auto
  qed simp
qed simp

lemma evict_tokens_count:
  "n = role_count role toks \<Longrightarrow>
   role_count role (evict_tokens role n toks) = min n (MAX_ACTIVE_TOKENS_PER_ROLE - 1)"
proof (induction n arbitrary: toks)
  case (Suc n)
  show ?case
  proof (cases "splice_first (\<lambda>t. at_role t = role) toks")
    case None
    then have "role_count role toks = 0" by (simp add: splice_first_None role_count_def)
    with Suc.prems show ?thesis by simp
  next
    case (Some ys)
    then have "n = role_count role ys"
      using splice_first_Some [OF Some] Suc.prems by (simp add: role_count_def)
    then have "role_count role (evict_tokens role n ys) = min n (MAX_ACTIVE_TOKENS_PER_ROLE - 1)"
      by (rule Suc.IH)
    moreover have "evict_tokens role (Suc n) toks =
        (if Suc n \<ge> MAX_ACTIVE_TOKENS_PER_ROLE then evict_tokens role n ys else toks)"
      using Some by simp
    ultimately show ?thesis using Suc.prems [symmetric] by (simp add: auth_limits min_def)
  qed
qed (simp add: auth_limits)

lemma auth_inv_filter:
  "auth_inv a \<Longrightarrow> auth_inv (a\<lparr>au_tokens := filter p (au_tokens a)\<rparr>)"
  unfolding auth_inv_def by (auto intro: order_trans [OF role_count_filter_le])

lemma auth_inv_limits [simp]:
  "auth_inv (a\<lparr>au_failures := f\<rparr>) = auth_inv a" "auth_inv (a\<lparr>au_cooldownUntil := c\<rparr>) = auth_inv a"
  by (simp_all add: auth_inv_def)

lemma auth_inv_evict:
  assumes "auth_inv a"
  shows "auth_inv (a\<lparr>au_tokens := evict_tokens role (role_count role (au_tokens a)) (au_tokens a)\<rparr>)"
proof -
  have "role_count r (evict_tokens role n (au_tokens a)) = role_count r (au_tokens a)"
    if "r \<noteq> role" for r n
    using evict_tokens_others [OF that] by (simp add: role_count_def)
  moreover have "role_count role (evict_tokens role (role_count role (au_tokens a)) (au_tokens a))
      \<le> MAX_ACTIVE_TOKENS_PER_ROLE"
    by (simp add: evict_tokens_count auth_limits)
  ultimately show ?thesis using assms evict_tokens_subset unfolding auth_inv_def
    by simp (metis subsetD)
qed

text \<open>What \<^verbatim>\<open>issueToken\<close> does when the clock is in range, as one equation.\<close>

definition token_for :: "client_role \<Rightarrow> int \<Rightarrow> jstring \<Rightarrow> link_authenticator \<Rightarrow> authorized_token" where
  "token_for role t hex a = \<lparr>at_sessionId = au_sessionId a, at_role = role,
     at_bridgeInstanceId = au_bridgeInstanceId a, at_value = hex,
     at_expiresAt = Some (t + TOKEN_TTL_MS)\<rparr>"

definition kept_tokens :: "client_role \<Rightarrow> int \<Rightarrow> link_authenticator \<Rightarrow> authorized_token list" where
  "kept_tokens role t a = (let toks = filter (unexpired t) (au_tokens a)
     in evict_tokens role (role_count role toks) toks)"

lemma issueToken_eq:
  "issueToken role t hex a =
     (if new_Date (t + TOKEN_TTL_MS) = None
      then (Inl InvalidExpiration, a\<lparr>au_tokens := kept_tokens role t a\<rparr>)
      else (Inr (token_for role t hex a),
        a\<lparr>au_tokens := kept_tokens role t a @ [token_for role t hex a]\<rparr>))"
  by (auto simp: issueToken_def createAuthorizedToken_def finiteDateTime_def pruneExpiredTokens_def
      kept_tokens_def token_for_def role_count_def new_Date_def Let_def)

lemma kept_tokens_subset: "set (kept_tokens role t a) \<subseteq> set (filter (unexpired t) (au_tokens a))"
  unfolding kept_tokens_def Let_def by (rule evict_tokens_subset)

lemma auth_inv_kept: "auth_inv a \<Longrightarrow> auth_inv (a\<lparr>au_tokens := kept_tokens role t a\<rparr>)"
  using auth_inv_evict [OF auth_inv_filter, of a role "unexpired t"] by (simp add: kept_tokens_def Let_def)

lemma auth_inv_issueToken:
  assumes "auth_inv a" shows "auth_inv (snd (issueToken role t hex a))"
proof -
  note kept = auth_inv_kept [OF assms, of role t]
  have "role_count role (kept_tokens role t a) < MAX_ACTIVE_TOKENS_PER_ROLE"
    by (simp add: kept_tokens_def Let_def evict_tokens_count auth_limits)
  moreover have "role_count r [token_for role t hex a] = (if r = role then 1 else 0)" for r
    by (simp add: role_count_def token_for_def)
  ultimately have "auth_inv (a\<lparr>au_tokens := kept_tokens role t a @ [token_for role t hex a]\<rparr>)"
    using kept unfolding auth_inv_def by (auto simp: token_for_def)
  then show ?thesis using kept by (simp add: issueToken_eq)
qed

lemma auth_inv_failed_attempt: "auth_inv a \<Longrightarrow> auth_inv (snd (failed_attempt t a))"
  by (simp add: failed_attempt_def split: option.split)

lemma auth_inv_check_pin: "auth_inv a \<Longrightarrow> auth_inv (snd (check_pin pin role t hex a))"
  using auth_inv_failed_attempt [of a t] auth_inv_issueToken [of "a\<lparr>au_failures := []\<rparr>" role t hex]
  by (auto simp: check_pin_def split: prod.splits sum.splits)

lemma auth_inv_attemptLink: "auth_inv a \<Longrightarrow> auth_inv (snd (attemptLink pin role d hex a))"
  by (auto simp: attemptLink_def readNow_def pruneFailures_def Let_def auth_inv_check_pin
      split: option.splits)

lemma validateToken_state:
  "snd (validateToken sid role tok inst d a) =
     (case d of None \<Rightarrow> a | Some t \<Rightarrow> pruneExpiredTokens t a)"
  by (simp add: validateToken_def readNow_def Let_def split: option.splits)

lemma auth_inv_validateToken: "auth_inv a \<Longrightarrow> auth_inv (snd (validateToken sid role tok inst d a))"
  by (simp add: validateToken_state pruneExpiredTokens_def auth_inv_filter split: option.split)

lemma auth_inv_revoke:
  "auth_inv a \<Longrightarrow> auth_inv (revokeToken tok a)" "auth_inv a \<Longrightarrow> auth_inv (revokeRole r a)"
  "auth_inv a \<Longrightarrow> auth_inv (revokeAll a)"
  using auth_inv_filter [of a "\<lambda>_. False"]
  by (simp_all add: revokeToken_def revokeRole_def revokeAll_def auth_inv_filter)

lemma auth_inv_new:
  "new_LinkAuthenticator env sid inst pin = Inr a \<Longrightarrow> auth_inv a"
  by (auto simp: new_LinkAuthenticator_def auth_inv_def role_count_def split: if_splits)

subsection \<open>Runs of the authenticator\<close>

datatype auth_event =
    IssueTrusted js_date jstring
  | Attempt jstring client_role js_date jstring
  | Validate jstring client_role jstring jstring js_date
  | RevokeToken jstring
  | RevokeRole client_role
  | RevokeAll

fun auth_step :: "link_authenticator \<Rightarrow> auth_event \<Rightarrow> link_authenticator" where
  "auth_step a (IssueTrusted d hex) = snd (issueTrustedToken d hex a)"
| "auth_step a (Attempt pin role d hex) = snd (attemptLink pin role d hex a)"
| "auth_step a (Validate sid role tok inst d) = snd (validateToken sid role tok inst d a)"
| "auth_step a (RevokeToken tok) = revokeToken tok a"
| "auth_step a (RevokeRole role) = revokeRole role a"
| "auth_step a RevokeAll = revokeAll a"

lemma auth_inv_step: "auth_inv a \<Longrightarrow> auth_inv (auth_step a e)"
  by (cases e) (auto simp: issueTrustedToken_def auth_inv_issueToken auth_inv_attemptLink
      auth_inv_validateToken auth_inv_revoke split: sum.split)

definition fresh_authenticator :: "jstring \<Rightarrow> jstring \<Rightarrow> jstring \<Rightarrow> link_authenticator" where
  "fresh_authenticator sid inst pin = \<lparr>au_sessionId = sid, au_bridgeInstanceId = inst, au_pin = pin,
     au_tokens = [], au_failures = [], au_cooldownUntil = None\<rparr>"

lemma new_LinkAuthenticator_fresh:
  "new_LinkAuthenticator env sid inst pin = Inr a \<Longrightarrow> a = fresh_authenticator sid inst pin"
  by (auto simp: new_LinkAuthenticator_def fresh_authenticator_def split: if_splits)

lemma auth_inv_fresh: "auth_inv (fresh_authenticator sid inst pin)"
  by (simp add: fresh_authenticator_def auth_inv_def role_count_def)

interpretation authenticator: machine auth_step "fresh_authenticator sid inst pin" auth_inv
  for sid inst pin
  by unfold_locales (simp_all add: auth_inv_step auth_inv_fresh)

subsection \<open>Guessing the PIN\<close>










lemma attemptLink_pin [simp]: "au_pin (snd (attemptLink pin role d hex a)) = au_pin a"
  by (auto simp: attemptLink_def check_pin_def failed_attempt_def issueToken_eq pruneFailures_def
      Let_def split: sum.splits option.splits)


lemma tokensEqual_well_formed:
  "well_formed a \<Longrightarrow> well_formed b \<Longrightarrow> tokensEqual a b \<longleftrightarrow> a = b"
  by (simp add: tokensEqual_buffer buffer_from_inject)

subsection \<open>Properties\<close>

text \<open>
  two token texts that are well-formed Unicode compare equal exactly when they are the
  same text; the comparison of lengths and bytes loses nothing.\<close>

theorem tokensEqual_iff:
  assumes "well_formed a" and "well_formed b"
  shows "tokensEqual a b \<longleftrightarrow> a = b"
  using assms by (rule tokensEqual_well_formed)

theorem tokensEqual_iff_witness:
  "tokensEqual [0xd83d, 0xdd11] [0xd83d, 0xdd11] \<longleftrightarrow> ([0xd83d, 0xdd11] :: jstring) = [0xd83d, 0xdd11]"
  by (rule tokensEqual_iff) (simp_all add: high_surrogate_def low_surrogate_def)

text \<open>
  whatever links are made, tokens issued, validated and revoked, in any order and at any
  clock reading, the authenticator never holds more than 64 tokens of a role, and every token it
  holds belongs to its own session and bridge instance and expires.\<close>

theorem token_cap:
  "let a = foldl auth_step (fresh_authenticator sid inst pin) es
   in role_count role (au_tokens a) \<le> MAX_ACTIVE_TOKENS_PER_ROLE \<and>
      list_all (\<lambda>k. at_expiresAt k \<noteq> None \<and> at_sessionId k = au_sessionId a \<and>
        at_bridgeInstanceId k = au_bridgeInstanceId a) (au_tokens a)"
  using authenticator.inv_run [of sid inst pin es]
  by (simp add: auth_inv_def Let_def list_all_iff)



text \<open>A token issued for a role, whose random value matches no other live token, is accepted
  from that instant for exactly 24 hours, for its own session and role, with the bridge instance
  it was issued for, and rejected from then on.\<close>

theorem token_lifetime:
  assumes issue: "issueToken role t hex a = (Inr tok, a')"
    and unique: "\<forall>k\<in>set (au_tokens a). \<not> tokensEqual (at_value k) hex"
    and later: "t \<le> t'"
  shows "fst (validateToken sid role' hex inst (Some t') a') =
    Inr (if t' < t + TOKEN_TTL_MS \<and> sid = au_sessionId a \<and> role' = role
         then (if inst = au_bridgeInstanceId a then Accepted else InstanceChanged) else Rejected)"
proof -
  have a': "au_tokens a' = kept_tokens role t a @ [tok]" and tok: "tok = token_for role t hex a"
    using issue by (auto simp: issueToken_eq split: if_splits)
  have none: "\<not> tokensEqual (at_value k) hex" if "k \<in> set (filter (unexpired t') (kept_tokens role t a))" for k
    using that unique kept_tokens_subset [of role t a] by auto
  have "find (\<lambda>k. tokensEqual (at_value k) hex) (ks @ [tok]) = Some tok"
    if "\<forall>k\<in>set ks. \<not> tokensEqual (at_value k) hex" for ks
    using that by (induction ks) (auto simp: tok token_for_def)
  moreover have "find (\<lambda>k. tokensEqual (at_value k) hex) (filter (unexpired t') (kept_tokens role t a)) = None"
    unfolding find_None_iff using none by blast
  moreover have "unexpired t' tok \<longleftrightarrow> t' < t + TOKEN_TTL_MS"
    by (simp add: unexpired_def tok token_for_def)
  ultimately have "find (\<lambda>k. tokensEqual (at_value k) hex) (filter (unexpired t') (au_tokens a')) =
      (if t' < t + TOKEN_TTL_MS then Some tok else None)"
    using none by (simp add: a')
  then show ?thesis
    by (auto simp: validateToken_def readNow_def pruneExpiredTokens_def Let_def tok token_for_def)
qed

theorem token_lifetime_witness:
  "fst (validateToken (js ''s'') Browser (js ''ab'') (js ''i'') (Some 86399999)
     (snd (issueToken Browser 0 (js ''ab'') (fresh_authenticator (js ''s'') (js ''i'') (js ''07''))))) =
   Inr Accepted \<and>
   fst (validateToken (js ''s'') Browser (js ''ab'') (js ''i'') (Some 86400000)
     (snd (issueToken Browser 0 (js ''ab'') (fresh_authenticator (js ''s'') (js ''i'') (js ''07''))))) =
   Inr Rejected"
proof -
  let ?a = "fresh_authenticator (js ''s'') (js ''i'') (js ''07'')"
  have issue: "issueToken Browser 0 (js ''ab'') ?a =
      (Inr (token_for Browser 0 (js ''ab'') ?a), snd (issueToken Browser 0 (js ''ab'') ?a))"
    by (simp add: issueToken_eq new_Date_def auth_limits)
  have "\<forall>k\<in>set (au_tokens ?a). \<not> tokensEqual (at_value k) (js ''ab'')"
    by (simp add: fresh_authenticator_def)
  from token_lifetime [OF issue this, of 86399999] token_lifetime [OF issue this, of 86400000]
  show ?thesis by (simp add: fresh_authenticator_def auth_limits)
qed

end
