(* ===== verification/Bridge_Routes.thy ===== *)
theory Bridge_Routes
  imports Effects Json_Text
begin

text \<open>
  \<^verbatim>\<open>packages/bridge/src/replyRouteRegistry.ts\<close>: the reply routes of the bridge. A route remembers
  which browser sent an inspect message, which IDE owns it, and which matches and rule sources
  the IDE has published for it. A stored route is a mutable object: \<open>rt_oid\<close> is its identity, the
  \<^verbatim>\<open>===\<close> of the code. Maps from a key to \<^verbatim>\<open>undefined\<close> and sets are lists of keys in insertion
  order. A deferred registration or preparation is the value its closures capture; the fields
  of the routes it mutates live in the registry.
\<close>

subsection \<open>State\<close>

record stored_route =
  rt_oid :: nat
  rt_origin :: jstring
  rt_expected :: "jstring list"
  rt_ide :: "jstring option"
  rt_resGen :: "int option"
  rt_claimed :: bool
  rt_matchIds :: "jstring list"
  rt_rulesGen :: "int option"
  rt_openIds :: "jstring list"

record reply_routes =
  max_routes :: nat
  session_routes :: "(jstring, (jstring, stored_route) jmap) jmap"
  by_client :: "(jstring, jstring list) jmap"
  by_ide :: "(jstring, jstring list) jmap"
  revision :: nat
  next_oid :: nat

record reply_route =
  rr_sessionId :: jstring
  rr_inspectMessageId :: jstring
  rr_origin :: jstring
  rr_expected :: "jstring list"
  rr_ide :: "jstring option"
  rr_resGen :: "int option"
  rr_claimed :: bool
  rr_matchIds :: "jstring list"
  rr_rulesGen :: "int option"
  rr_openIds :: "jstring list"

datatype route_error = KeySyntax | IndexInconsistent | InvalidLimit

fun new_ReplyRouteRegistry :: "jsnum option \<Rightarrow> route_error + reply_routes" where
  "new_ReplyRouteRegistry options_max =
     (case (case options_max of None \<Rightarrow> JInt 256 | Some m \<Rightarrow> m) of
        JNonInt \<Rightarrow> Inl InvalidLimit
      | JInt m \<Rightarrow> if m \<le> 0 then Inl InvalidLimit
          else Inr \<lparr>max_routes = nat m, session_routes = [], by_client = [], by_ide = [],
                 revision = 0, next_oid = 0\<rparr>)"

subsection \<open>Private helpers\<close>

definition find_route :: "reply_routes \<Rightarrow> jstring \<Rightarrow> jstring \<Rightarrow> stored_route option" where
  "find_route rs sid mid = Option.bind (jget (session_routes rs) sid) (\<lambda>m. jget m mid)"

text \<open>Assigning to the fields of the route stored at a session and message.\<close>

definition put_route :: "jstring \<Rightarrow> jstring \<Rightarrow> stored_route \<Rightarrow> reply_routes \<Rightarrow> reply_routes" where
  "put_route sid mid r rs =
     (let m = (case jget (session_routes rs) sid of None \<Rightarrow> [] | Some m \<Rightarrow> m)
      in rs\<lparr>session_routes := jset sid (jset mid r m) (session_routes rs)\<rparr>)"

definition routeKey :: "jstring \<Rightarrow> jstring \<Rightarrow> jstring" where
  "routeKey sid mid = json_pair sid mid"

definition markMutated :: "reply_routes \<Rightarrow> reply_routes" where
  "markMutated rs = rs\<lparr>revision := revision rs + 1\<rparr>"

definition getClientRoutes :: "jstring \<Rightarrow> reply_routes \<Rightarrow> jstring list \<times> reply_routes" where
  "getClientRoutes c rs = (case jget (by_client rs) c of
     Some existing \<Rightarrow> (existing, rs)
   | None \<Rightarrow> ([], rs\<lparr>by_client := jset c [] (by_client rs)\<rparr>))"

definition getIdeRoutes :: "jstring \<Rightarrow> reply_routes \<Rightarrow> jstring list \<times> reply_routes" where
  "getIdeRoutes c rs = (case jget (by_ide rs) c of
     Some existing \<Rightarrow> (existing, rs)
   | None \<Rightarrow> ([], rs\<lparr>by_ide := jset c [] (by_ide rs)\<rparr>))"

definition touchClientRoute :: "jstring \<Rightarrow> jstring \<Rightarrow> jstring \<Rightarrow> reply_routes \<Rightarrow> reply_routes" where
  "touchClientRoute c sid mid rs =
     (let (clientRoutes, rs1) = getClientRoutes c rs;
          key = routeKey sid mid
      in markMutated (rs1\<lparr>by_client := jset c (set_add key (set_remove key clientRoutes)) (by_client rs1)\<rparr>))"

text \<open>\<^verbatim>\<open>getIdeRoutes(id).add(key)\<close>\<close>

definition add_ide_route :: "jstring \<Rightarrow> jstring \<Rightarrow> reply_routes \<Rightarrow> reply_routes" where
  "add_ide_route c key rs =
     (let (ideRoutes, rs1) = getIdeRoutes c rs
      in rs1\<lparr>by_ide := jset c (set_add key ideRoutes) (by_ide rs1)\<rparr>)"

definition routeFromKey :: "jstring \<Rightarrow> reply_routes \<Rightarrow> route_error + (jstring \<times> jstring \<times> stored_route)" where
  "routeFromKey key rs = (case json_parse_pair key of
     None \<Rightarrow> Inl KeySyntax
   | Some (sid, mid) \<Rightarrow> (case find_route rs sid mid of
        None \<Rightarrow> Inl IndexInconsistent
      | Some r \<Rightarrow> Inr (sid, mid, r)))"

text \<open>Deleting a key from an index entry, and the entry with its last key.\<close>

definition drop_index :: "jstring \<Rightarrow> jstring \<Rightarrow> (jstring, jstring list) jmap \<Rightarrow> (jstring, jstring list) jmap" where
  "drop_index c key idx = (case jget idx c of
     None \<Rightarrow> idx
   | Some keys \<Rightarrow> (let keys' = set_remove key keys
       in if length keys' = 0 then jdel c idx else jset c keys' idx))"

definition delete_route :: "jstring \<Rightarrow> jstring \<Rightarrow> reply_routes \<Rightarrow> reply_routes" where
  "delete_route sid mid rs = (case jget (session_routes rs) sid of
     None \<Rightarrow> rs
   | Some m \<Rightarrow> (let m' = jdel mid m
       in rs\<lparr>session_routes := (if length m' = 0 then jdel sid (session_routes rs)
                               else jset sid m' (session_routes rs))\<rparr>))"

definition removeByKey :: "jstring \<Rightarrow> (reply_routes, route_error, unit) eff" where
  "removeByKey key rs = (case routeFromKey key rs of
     Inl e \<Rightarrow> (Inl e, rs)
   | Inr (sid, mid, _) \<Rightarrow> (case find_route rs sid mid of
        None \<Rightarrow> (Inr (), rs)
      | Some storedRoute \<Rightarrow>
          (let rs1 = delete_route sid mid rs;
               rs2 = rs1\<lparr>by_client := drop_index (rt_origin storedRoute) key (by_client rs1)\<rparr>;
               rs3 = (case rt_ide storedRoute of
                   None \<Rightarrow> rs2
                 | Some ide \<Rightarrow> rs2\<lparr>by_ide := drop_index ide key (by_ide rs2)\<rparr>)
           in (Inr (), markMutated rs3))))"

definition snapshot :: "jstring \<Rightarrow> jstring \<Rightarrow> stored_route \<Rightarrow> reply_route" where
  "snapshot sid mid r = \<lparr>rr_sessionId = sid, rr_inspectMessageId = mid, rr_origin = rt_origin r,
     rr_expected = set_of (rt_expected r), rr_ide = rt_ide r, rr_resGen = rt_resGen r,
     rr_claimed = rt_claimed r, rr_matchIds = set_of (rt_matchIds r), rr_rulesGen = rt_rulesGen r,
     rr_openIds = set_of (rt_openIds r)\<rparr>"

definition setsEqual :: "'a list \<Rightarrow> 'a list \<Rightarrow> bool" where
  "setsEqual left right \<longleftrightarrow>
     (if length left \<noteq> length right then False else list_all (\<lambda>v. v \<in> set right) left)"

subsection \<open>Registrations\<close>

datatype registration_status = Created | Refreshed | Collision

datatype apply_route =
    ApplyRefresh jstring jstring jstring nat
  | ApplyCreate jstring jstring jstring "jstring list" "jstring option"
  | ApplyNever

record registration =
  rg_status :: registration_status
  rg_apply :: apply_route
  rg_expectedRevision :: nat
  rg_settled :: bool

definition createDeferredRegistration :: "registration_status \<Rightarrow> apply_route \<Rightarrow> reply_routes \<Rightarrow> registration" where
  "createDeferredRegistration status ap rs = \<lparr>rg_status = status, rg_apply = ap,
     rg_expectedRevision = revision rs, rg_settled = False\<rparr>"

text \<open>A collision is settled from the start: its \<^verbatim>\<open>commit\<close> returns false.\<close>

definition createSettledRegistration :: "reply_routes \<Rightarrow> registration" where
  "createSettledRegistration rs = \<lparr>rg_status = Collision, rg_apply = ApplyNever,
     rg_expectedRevision = revision rs, rg_settled = True\<rparr>"

definition register :: "jstring \<Rightarrow> jstring \<Rightarrow> jstring \<Rightarrow> jstring list \<Rightarrow> reply_routes \<Rightarrow> registration" where
  "register sid mid c expectedRuleRefs rs =
     (let proposed = set_of expectedRuleRefs
      in case find_route rs sid mid of
           Some currentRoute \<Rightarrow>
             if rt_origin currentRoute \<noteq> c \<or> \<not> setsEqual (rt_expected currentRoute) proposed
             then createSettledRegistration rs
             else createDeferredRegistration Refreshed (ApplyRefresh c sid mid (rt_oid currentRoute)) rs
         | None \<Rightarrow>
             (let clientRoutes = jget (by_client rs) c;
                  size = (case clientRoutes of None \<Rightarrow> 0 | Some ks \<Rightarrow> length ks);
                  evictedRouteKey =
                    (if size \<ge> max_routes rs
                     then (case clientRoutes of Some (k # _) \<Rightarrow> Some k | _ \<Rightarrow> None) else None)
              in createDeferredRegistration Created (ApplyCreate sid mid c proposed evictedRouteKey) rs))"

definition new_route :: "jstring \<Rightarrow> jstring list \<Rightarrow> reply_routes \<Rightarrow> stored_route" where
  "new_route c proposed rs = \<lparr>rt_oid = next_oid rs, rt_origin = c, rt_expected = proposed,
     rt_ide = None, rt_resGen = None, rt_claimed = False, rt_matchIds = [], rt_rulesGen = None,
     rt_openIds = []\<rparr>"

definition insert_route :: "jstring \<Rightarrow> jstring \<Rightarrow> jstring \<Rightarrow> jstring list \<Rightarrow> reply_routes \<Rightarrow> reply_routes" where
  "insert_route sid mid c proposed rs =
     (let rs1 = (put_route sid mid (new_route c proposed rs) rs)\<lparr>next_oid := next_oid rs + 1\<rparr>;
          (clientRoutes, rs2) = getClientRoutes c rs1
      in markMutated (rs2\<lparr>by_client := jset c (set_add (routeKey sid mid) clientRoutes) (by_client rs2)\<rparr>))"

fun apply_registration :: "apply_route \<Rightarrow> (reply_routes, route_error, bool) eff" where
  "apply_registration (ApplyRefresh c sid mid oid) rs =
     (if map_option rt_oid (find_route rs sid mid) \<noteq> Some oid then (Inr False, rs)
      else (Inr True, touchClientRoute c sid mid rs))"
| "apply_registration (ApplyCreate sid mid c proposed evictedRouteKey) rs =
     (if find_route rs sid mid \<noteq> None then (Inr False, rs)
      else bindE (case evictedRouteKey of None \<Rightarrow> ret () | Some k \<Rightarrow> removeByKey k)
        (\<lambda>_ rs1. (Inr True, insert_route sid mid c proposed rs1)) rs)"
| "apply_registration ApplyNever rs = (Inr False, rs)"

text \<open>\<open>settled\<close> belongs to the registration, so \<^verbatim>\<open>commit\<close> also returns the settled registration.\<close>

definition settle_registration :: "registration \<Rightarrow> registration" where
  "settle_registration g = g\<lparr>rg_settled := True\<rparr>"

definition commit_registration :: "registration \<Rightarrow> (reply_routes, route_error, bool) eff" where
  "commit_registration g rs =
     (if rg_settled g then (Inr False, rs)
      else if revision rs = rg_expectedRevision g then apply_registration (rg_apply g) rs
      else (Inr False, rs))"

subsection \<open>Lookups and claims\<close>

definition peek :: "jstring \<Rightarrow> jstring \<Rightarrow> reply_routes \<Rightarrow> jstring option" where
  "peek sid mid rs = map_option rt_origin (find_route rs sid mid)"

definition resolve :: "jstring \<Rightarrow> jstring \<Rightarrow> reply_routes \<Rightarrow> jstring option \<times> reply_routes" where
  "resolve sid mid rs = (case peek sid mid rs of
     None \<Rightarrow> (None, rs)
   | Some c \<Rightarrow> (Some c, touchClientRoute c sid mid rs))"

definition get_route :: "jstring \<Rightarrow> jstring \<Rightarrow> reply_routes \<Rightarrow> reply_route option" where
  "get_route sid mid rs = map_option (snapshot sid mid) (find_route rs sid mid)"

definition claimAuthority ::
  "jstring \<Rightarrow> jstring \<Rightarrow> jstring \<Rightarrow> int \<Rightarrow> bool \<Rightarrow> reply_routes \<Rightarrow> reply_route option \<times> reply_routes" where
  "claimAuthority sid mid ide gen claimed rs = (case find_route rs sid mid of
     None \<Rightarrow> (None, rs)
   | Some route \<Rightarrow>
       if rt_ide route \<noteq> None \<and> rt_ide route \<noteq> Some ide then (None, rs)
       else if (case rt_resGen route of None \<Rightarrow> False | Some g \<Rightarrow> gen < g) then (None, rs)
       else
         (let rs1 = (if rt_ide route = None then add_ide_route ide (routeKey sid mid) rs else rs);
              route1 = (if rt_ide route = None then route\<lparr>rt_ide := Some ide\<rparr> else route);
              route2 = (if rt_resGen route1 \<noteq> Some gen then route1\<lparr>rt_resGen := Some gen\<rparr> else route1);
              route3 = route2\<lparr>rt_matchIds := [], rt_claimed := claimed\<rparr>
          in (Some (snapshot sid mid route3),
              touchClientRoute (rt_origin route) sid mid (put_route sid mid route3 rs1))))"

definition claimResolution ::
  "jstring \<Rightarrow> jstring \<Rightarrow> jstring \<Rightarrow> int \<Rightarrow> reply_routes \<Rightarrow> reply_route option \<times> reply_routes" where
  "claimResolution sid mid ide gen rs = claimAuthority sid mid ide gen True rs"

definition claimSourceInvalidation ::
  "jstring \<Rightarrow> jstring \<Rightarrow> jstring \<Rightarrow> int \<Rightarrow> reply_routes \<Rightarrow> reply_route option \<times> reply_routes" where
  "claimSourceInvalidation sid mid ide gen rs = (case find_route rs sid mid of
     None \<Rightarrow> (None, rs)
   | Some route \<Rightarrow>
       if rt_ide route = None then
         (let route' = route\<lparr>rt_matchIds := []\<rparr>
          in (Some (snapshot sid mid route'),
              touchClientRoute (rt_origin route) sid mid (put_route sid mid route' rs)))
       else claimAuthority sid mid ide gen False rs)"

definition replaceMatchIds ::
  "jstring \<Rightarrow> jstring \<Rightarrow> jstring \<Rightarrow> int \<Rightarrow> jstring list \<Rightarrow> reply_routes \<Rightarrow> reply_route option \<times> reply_routes" where
  "replaceMatchIds sid mid ide gen ids rs = (case find_route rs sid mid of
     None \<Rightarrow> (None, rs)
   | Some route \<Rightarrow>
       if rt_ide route \<noteq> Some ide \<or> rt_resGen route \<noteq> Some gen \<or> \<not> rt_claimed route then (None, rs)
       else
         (let route' = route\<lparr>rt_matchIds := set_of ids\<rparr>
          in (Some (snapshot sid mid route'),
              touchClientRoute (rt_origin route) sid mid (put_route sid mid route' rs))))"

subsection \<open>Rules sources\<close>

record rules_preparation =
  rp_sessionId :: jstring
  rp_inspectMessageId :: jstring
  rp_ide :: jstring
  rp_rulesGeneration :: int
  rp_authorityIds :: "jstring list"
  rp_expectedRevision :: nat
  rp_oid :: nat
  rp_expectedRulesGeneration :: "int option"
  rp_settled :: bool

text \<open>The loop over the sources, with its two sets and its count; \<open>None\<close> where it returns early.\<close>

fun collect_sources ::
  "jstring list \<Rightarrow> jstring list \<Rightarrow> jstring list \<Rightarrow> nat \<Rightarrow> (jstring \<times> jstring) list \<Rightarrow> (jstring list \<times> nat) option" where
  "collect_sources expected published proposed count [] = Some (proposed, count)"
| "collect_sources expected published proposed count ((ruleRef, openAuthorityId) # rest) =
     (if ruleRef \<notin> set expected \<or> ruleRef \<in> set published \<or> length openAuthorityId = 0 \<or>
         openAuthorityId \<in> set proposed
      then None
      else collect_sources expected (set_add ruleRef published) (set_add openAuthorityId proposed)
        (count + 1) rest)"

definition next_rules_generation :: "int option \<Rightarrow> int \<Rightarrow> bool" where
  "next_rules_generation current proposed \<longleftrightarrow>
     (case current of None \<Rightarrow> proposed = 1 | Some g \<Rightarrow> proposed > g)"

definition prepareRulesSources ::
  "jstring \<Rightarrow> jstring \<Rightarrow> jstring \<Rightarrow> jsnum \<Rightarrow> (jstring \<times> jstring) list \<Rightarrow> jsnum \<Rightarrow> reply_routes \<Rightarrow>
   rules_preparation option" where
  "prepareRulesSources sid mid ide rulesGeneration sources unresolvedRuleCount rs =
     (case (find_route rs sid mid, rulesGeneration, unresolvedRuleCount) of
        (Some route, JInt gen, JInt unresolved) \<Rightarrow>
          if rt_ide route \<noteq> None \<and> rt_ide route \<noteq> Some ide \<or> unresolved < 0 \<or>
             \<not> next_rules_generation (rt_rulesGen route) gen
          then None
          else (case collect_sources (rt_expected route) [] [] 0 sources of
              None \<Rightarrow> None
            | Some (proposed, sourceCount) \<Rightarrow>
                if int sourceCount + unresolved \<noteq> int (length (rt_expected route)) then None
                else Some \<lparr>rp_sessionId = sid, rp_inspectMessageId = mid, rp_ide = ide,
                  rp_rulesGeneration = gen, rp_authorityIds = proposed,
                  rp_expectedRevision = revision rs, rp_oid = rt_oid route,
                  rp_expectedRulesGeneration = rt_rulesGen route, rp_settled = False\<rparr>)
      | _ \<Rightarrow> None)"

definition settle_preparation :: "rules_preparation \<Rightarrow> rules_preparation" where
  "settle_preparation p = p\<lparr>rp_settled := True\<rparr>"

definition commit_preparation :: "rules_preparation \<Rightarrow> reply_routes \<Rightarrow> bool \<times> reply_routes" where
  "commit_preparation p rs =
     (let sid = rp_sessionId p; mid = rp_inspectMessageId p
      in if rp_settled p then (False, rs)
         else case find_route rs sid mid of
           None \<Rightarrow> (False, rs)
         | Some currentRoute \<Rightarrow>
             if revision rs \<noteq> rp_expectedRevision p \<or> rt_oid currentRoute \<noteq> rp_oid p \<or>
                rt_rulesGen currentRoute \<noteq> rp_expectedRulesGeneration p \<or>
                rt_ide currentRoute \<noteq> None \<and> rt_ide currentRoute \<noteq> Some (rp_ide p)
             then (False, rs)
             else
               (let rs1 = (if rt_ide currentRoute = None
                      then add_ide_route (rp_ide p) (routeKey sid mid) rs else rs);
                    route = currentRoute\<lparr>rt_ide := Some (rp_ide p),
                      rt_rulesGen := Some (rp_rulesGeneration p), rt_openIds := rp_authorityIds p\<rparr>
                in (True, touchClientRoute (rt_origin currentRoute) sid mid (put_route sid mid route rs1))))"

definition authorizeRulesOpen ::
  "jstring \<Rightarrow> jstring \<Rightarrow> jstring \<Rightarrow> int \<Rightarrow> jstring \<Rightarrow> reply_routes \<Rightarrow> reply_route option \<times> reply_routes" where
  "authorizeRulesOpen sid mid c gen openId rs = (case find_route rs sid mid of
     None \<Rightarrow> (None, rs)
   | Some route \<Rightarrow>
       if rt_origin route \<noteq> c \<or> rt_ide route = None \<or> rt_rulesGen route \<noteq> Some gen \<or>
          openId \<notin> set (rt_openIds route)
       then (None, rs)
       else (Some (snapshot sid mid route), touchClientRoute (rt_origin route) sid mid rs))"

subsection \<open>Removal\<close>

definition remove_route :: "jstring \<Rightarrow> jstring \<Rightarrow> (reply_routes, route_error, bool) eff" where
  "remove_route sid mid rs = (case find_route rs sid mid of
     None \<Rightarrow> (Inr False, rs)
   | Some _ \<Rightarrow> bindE (removeByKey (routeKey sid mid)) (\<lambda>_. ret True) rs)"

definition removeClient :: "jstring \<Rightarrow> (reply_routes, route_error, unit) eff" where
  "removeClient c rs =
     (let rs1 = markMutated rs;
          clientKeys = (case jget (by_client rs1) c of None \<Rightarrow> [] | Some ks \<Rightarrow> ks);
          ideKeys = (case jget (by_ide rs1) c of None \<Rightarrow> [] | Some ks \<Rightarrow> ks);
          routeKeys = set_of (clientKeys @ ideKeys)
      in for_each removeByKey routeKeys rs1)"

definition clear_routes :: "reply_routes \<Rightarrow> reply_routes" where
  "clear_routes rs = markMutated (rs\<lparr>session_routes := [], by_client := [], by_ide := []\<rparr>)"

end
