(* ===== verification/Route_Invariant.thy ===== *)
theory Route_Invariant
  imports Bridge_Routes
begin

text \<open>
  The consistency of the reply route registry: the two indexes list exactly the keys of the
  stored routes, by origin and by owner, and no operation can throw. Both indexes are
  instances of the locale \<open>key_index\<close>.
\<close>

subsection \<open>Indexes of keys\<close>

definition indexes :: "('c \<Rightarrow> 'k list) \<Rightarrow> ('k \<Rightarrow> 'c option) \<Rightarrow> bool" where
  "indexes members owner \<longleftrightarrow> (\<forall>c k. k \<in> set (members c) \<longleftrightarrow> owner k = Some c)"

locale key_index =
  fixes members :: "'m \<Rightarrow> 'c \<Rightarrow> 'k list"
    and link :: "'c \<Rightarrow> 'k \<Rightarrow> 'm \<Rightarrow> 'm"
    and unlink :: "'c \<Rightarrow> 'k \<Rightarrow> 'm \<Rightarrow> 'm"
    and wf :: "'m \<Rightarrow> bool"
  assumes members_link: "set (members (link c k m) c') = set (members m c') \<union> (if c' = c then {k} else {})"
    and members_unlink: "wf m \<Longrightarrow>
      set (members (unlink c k m) c') = (if c' = c then set (members m c') - {k} else set (members m c'))"
    and wf_link: "wf m \<Longrightarrow> wf (link c k m)"
    and wf_unlink: "wf m \<Longrightarrow> wf (unlink c k m)"
begin

lemma indexes_link:
  "indexes (members m) owner \<Longrightarrow> owner k = None \<or> owner k = Some c \<Longrightarrow>
   indexes (members (link c k m)) (owner(k := Some c))"
  unfolding indexes_def members_link by auto

lemma indexes_unlink:
  "indexes (members m) owner \<Longrightarrow> wf m \<Longrightarrow> owner k = Some c \<Longrightarrow>
   indexes (members (unlink c k m)) (owner(k := None))"
  unfolding indexes_def by (auto simp: members_unlink)

end

definition index_members :: "(jstring, jstring list) jmap \<Rightarrow> jstring \<Rightarrow> jstring list" where
  "index_members idx c = (case jget idx c of None \<Rightarrow> [] | Some ks \<Rightarrow> ks)"

definition index_link :: "jstring \<Rightarrow> jstring \<Rightarrow> (jstring, jstring list) jmap \<Rightarrow> (jstring, jstring list) jmap" where
  "index_link c k idx = jset c (set_add k (index_members idx c)) idx"

definition index_touch :: "jstring \<Rightarrow> jstring \<Rightarrow> (jstring, jstring list) jmap \<Rightarrow> (jstring, jstring list) jmap" where
  "index_touch c k idx = jset c (set_add k (set_remove k (index_members idx c))) idx"

definition index_wf :: "(jstring, jstring list) jmap \<Rightarrow> bool" where
  "index_wf idx \<longleftrightarrow> distinct (jkeys idx) \<and>
     (\<forall>c ks. jget idx c = Some ks \<longrightarrow> distinct ks \<and> ks \<noteq> [])"

lemma set_add_not_Nil [simp]: "set_add x s \<noteq> []"
  by (auto simp: set_add_def)

lemma index_wf_members: "index_wf idx \<Longrightarrow> distinct (index_members idx c)"
  by (auto simp: index_wf_def index_members_def split: option.split)

lemma index_wf_jset: "index_wf idx \<Longrightarrow> distinct ks \<Longrightarrow> ks \<noteq> [] \<Longrightarrow> index_wf (jset c ks idx)"
  by (auto simp: index_wf_def)

lemma index_members_jset [simp]:
  "index_members (jset c ks idx) c' = (if c' = c then ks else index_members idx c')"
  by (simp add: index_members_def)

lemma index_members_drop:
  "index_wf idx \<Longrightarrow> index_members (drop_index c k idx) c' =
     (if c' = c then set_remove k (index_members idx c') else index_members idx c')"
  by (auto simp: drop_index_def index_members_def Let_def set_remove_def split: option.split)

lemma index_wf_drop: "index_wf idx \<Longrightarrow> index_wf (drop_index c k idx)"
  by (auto simp: drop_index_def index_wf_def Let_def split: option.split)

interpretation idx: key_index index_members index_link drop_index index_wf
proof unfold_locales
  fix idx :: "(jstring, jstring list) jmap" and c k c' :: jstring
  show "set (index_members (index_link c k idx) c') =
      set (index_members idx c') \<union> (if c' = c then {k} else {})"
    by (auto simp: index_link_def)
  show "index_wf idx \<Longrightarrow> index_wf (index_link c k idx)"
    by (simp add: index_link_def index_wf_jset index_wf_members)
  show "index_wf idx \<Longrightarrow> set (index_members (drop_index c k idx) c') =
      (if c' = c then set (index_members idx c') - {k} else set (index_members idx c'))"
    by (simp add: index_members_drop)
  show "index_wf idx \<Longrightarrow> index_wf (drop_index c k idx)" by (rule index_wf_drop)
qed

interpretation touched: key_index index_members index_touch drop_index index_wf
proof unfold_locales
  fix idx :: "(jstring, jstring list) jmap" and c k c' :: jstring
  show "set (index_members (index_touch c k idx) c') =
      set (index_members idx c') \<union> (if c' = c then {k} else {})"
    by (auto simp: index_touch_def)
  show "index_wf idx \<Longrightarrow> index_wf (index_touch c k idx)"
    by (simp add: index_touch_def index_wf_jset index_wf_members)
qed (simp_all add: index_members_drop index_wf_drop)

lemma length_set_remove:
  "distinct s \<Longrightarrow> length (set_remove k s) = (if k \<in> set s then length s - 1 else length s)"
proof (induction s)
  case (Cons x s)
  then show ?case by (cases s) (auto simp: set_remove_def)
qed (simp add: set_remove_def)

lemma length_touch:
  "index_wf idx \<Longrightarrow> k \<in> set (index_members idx c) \<Longrightarrow>
   length (index_members (index_touch c k idx) c') = length (index_members idx c')"
  using index_wf_members [of idx c]
  by (cases "index_members idx c") (auto simp: index_touch_def set_add_def length_set_remove)

subsection \<open>The abstract store\<close>

text \<open>The route stored under an index key, if the key is one the registry writes.\<close>

definition route_at :: "reply_routes \<Rightarrow> jstring \<Rightarrow> stored_route option" where
  "route_at rs key = (case json_parse_pair key of
     None \<Rightarrow> None
   | Some (sid, mid) \<Rightarrow> if key = routeKey sid mid then find_route rs sid mid else None)"

lemma routeKey_inject [simp]: "routeKey a b = routeKey c d \<longleftrightarrow> a = c \<and> b = d"
  by (simp add: routeKey_def)

lemma route_at_key [simp]: "route_at rs (routeKey sid mid) = find_route rs sid mid"
  by (simp add: route_at_def routeKey_def)

lemma route_at_cases:
  assumes "route_at rs key = Some r"
  obtains sid mid where "key = routeKey sid mid" "find_route rs sid mid = Some r"
  using assms by (auto simp: route_at_def split: option.splits prod.splits if_splits)

definition client_owner :: "reply_routes \<Rightarrow> jstring \<Rightarrow> jstring option" where
  "client_owner rs key = map_option rt_origin (route_at rs key)"

definition ide_owner :: "reply_routes \<Rightarrow> jstring \<Rightarrow> jstring option" where
  "ide_owner rs key = Option.bind (route_at rs key) rt_ide"

abbreviation ckeys :: "reply_routes \<Rightarrow> jstring \<Rightarrow> jstring list" where
  "ckeys rs \<equiv> index_members (by_client rs)"

abbreviation ikeys :: "reply_routes \<Rightarrow> jstring \<Rightarrow> jstring list" where
  "ikeys rs \<equiv> index_members (by_ide rs)"

text \<open>What every stored route satisfies.\<close>

definition route_ok :: "stored_route \<Rightarrow> bool" where
  "route_ok r \<longleftrightarrow>
     (rt_resGen r \<noteq> None \<longrightarrow> rt_ide r \<noteq> None) \<and>
     (rt_claimed r \<longrightarrow> rt_resGen r \<noteq> None) \<and>
     (rt_matchIds r \<noteq> [] \<longrightarrow> rt_claimed r) \<and>
     (case rt_rulesGen r of None \<Rightarrow> rt_openIds r = [] | Some g \<Rightarrow> 1 \<le> g \<and> rt_ide r \<noteq> None)"

definition store_wf :: "(jstring, (jstring, stored_route) jmap) jmap \<Rightarrow> bool" where
  "store_wf m \<longleftrightarrow> distinct (jkeys m) \<and> (\<forall>s x. jget m s = Some x \<longrightarrow> distinct (jkeys x) \<and> x \<noteq> [])"

definition routes_inv :: "reply_routes \<Rightarrow> bool" where
  "routes_inv rs \<longleftrightarrow> 0 < max_routes rs \<and> store_wf (session_routes rs) \<and>
     index_wf (by_client rs) \<and> index_wf (by_ide rs) \<and>
     indexes (ckeys rs) (client_owner rs) \<and> indexes (ikeys rs) (ide_owner rs) \<and>
     (\<forall>c. length (ckeys rs c) \<le> max_routes rs) \<and>
     (\<forall>key r. route_at rs key = Some r \<longrightarrow> route_ok r \<and> rt_oid r < next_oid rs)"

subsection \<open>What the helpers do to the abstract store\<close>

lemma jset_jset: "jset k v (jset k w m) = jset k v m"
  by (induction m) auto

lemma touchClientRoute_eq:
  "touchClientRoute c sid mid rs = rs\<lparr>by_client := index_touch c (routeKey sid mid) (by_client rs),
     revision := revision rs + 1\<rparr>"
  by (simp add: touchClientRoute_def getClientRoutes_def markMutated_def index_touch_def
      index_members_def jset_jset Let_def split: option.split)

lemma add_ide_route_eq:
  "add_ide_route c key rs = rs\<lparr>by_ide := index_link c key (by_ide rs)\<rparr>"
  by (simp add: add_ide_route_def getIdeRoutes_def index_link_def index_members_def jset_jset
      Let_def split: option.split)

lemma insert_route_eq:
  "insert_route sid mid c proposed rs =
     put_route sid mid (new_route c proposed rs)
       (rs\<lparr>next_oid := next_oid rs + 1, by_client := index_link c (routeKey sid mid) (by_client rs),
          revision := revision rs + 1\<rparr>)"
  by (simp add: insert_route_def put_route_def getClientRoutes_def markMutated_def index_link_def
      index_members_def jset_jset Let_def split: option.split)

lemma find_route_put:
  "find_route (put_route sid mid r rs) s m =
     (if s = sid \<and> m = mid then Some r else find_route rs s m)"
  by (auto simp: find_route_def put_route_def Let_def split: option.split)

lemma find_route_delete:
  "find_route (delete_route sid mid rs) s m =
     (if s = sid \<and> m = mid then None else find_route rs s m)"
proof (cases "jget (session_routes rs) sid")
  case None
  then show ?thesis by (auto simp: find_route_def delete_route_def)
next
  case (Some x)
  have "jget x m = None" if "jdel mid x = []" "m \<noteq> mid" for m
    using that jget_jdel [of mid x m] by simp
  with Some show ?thesis by (auto simp: find_route_def delete_route_def Let_def)
qed

lemma route_at_put:
  "route_at (put_route sid mid r rs) = (route_at rs)(routeKey sid mid := Some r)"
  by (rule ext) (auto simp: route_at_def find_route_put routeKey_def split: option.split)

lemma route_at_delete:
  "route_at (delete_route sid mid rs) = (route_at rs)(routeKey sid mid := None)"
  by (rule ext) (auto simp: route_at_def find_route_delete routeKey_def split: option.split)

lemma find_route_cong: "session_routes rs = session_routes rs' \<Longrightarrow> find_route rs = find_route rs'"
  by (intro ext) (simp add: find_route_def)

lemma route_at_cong: "session_routes rs = session_routes rs' \<Longrightarrow> route_at rs = route_at rs'"
  using find_route_cong [of rs rs'] by (intro ext) (auto simp: route_at_def split: option.split)

lemma put_route_fields [simp]:
  "by_client (put_route sid mid r rs) = by_client rs" "by_ide (put_route sid mid r rs) = by_ide rs"
  "max_routes (put_route sid mid r rs) = max_routes rs" "revision (put_route sid mid r rs) = revision rs"
  "next_oid (put_route sid mid r rs) = next_oid rs"
  by (simp_all add: put_route_def Let_def)

lemma delete_route_fields [simp]:
  "by_client (delete_route sid mid rs) = by_client rs" "by_ide (delete_route sid mid rs) = by_ide rs"
  "max_routes (delete_route sid mid rs) = max_routes rs" "revision (delete_route sid mid rs) = revision rs"
  "next_oid (delete_route sid mid rs) = next_oid rs"
  by (simp_all add: delete_route_def Let_def split: option.split)

lemma jset_not_Nil [simp]: "jset k v m \<noteq> []"
  by (induction m) auto

lemma store_wf_put: "store_wf (session_routes rs) \<Longrightarrow> store_wf (session_routes (put_route sid mid r rs))"
  by (auto simp: store_wf_def put_route_def Let_def split: option.split)

lemma store_wf_delete: "store_wf (session_routes rs) \<Longrightarrow> store_wf (session_routes (delete_route sid mid rs))"
  by (auto simp: store_wf_def delete_route_def Let_def split: option.split)

text \<open>The updates of the registry seen as updates of the abstract store.\<close>

lemma routes_inv_owned:
  assumes inv: "routes_inv rs" and r: "find_route rs sid mid = Some r"
    and same: "rt_origin r' = rt_origin r" "rt_oid r' = rt_oid r" and ok: "route_ok r'"
    and ide: "rt_ide r' = rt_ide r \<and> bi = by_ide rs \<or>
      rt_ide r' = Some ide \<and> rt_ide r = None \<and> bi = index_link ide (routeKey sid mid) (by_ide rs)"
  shows "routes_inv (touchClientRoute (rt_origin r) sid mid (put_route sid mid r' (rs\<lparr>by_ide := bi\<rparr>)))"
    (is "routes_inv ?rs'")
proof -
  let ?k = "routeKey sid mid"
  have at: "route_at rs ?k = Some r" using r by simp
  have at': "route_at ?rs' = (route_at rs)(?k := Some r')"
    using route_at_put [of sid mid r' "rs\<lparr>by_ide := bi\<rparr>"]
      route_at_cong [of "rs\<lparr>by_ide := bi\<rparr>" rs] by (subst route_at_cong) (simp_all add: touchClientRoute_eq)
  have co: "client_owner rs ?k = Some (rt_origin r)" by (simp add: client_owner_def r)
  have bc: "by_client ?rs' = index_touch (rt_origin r) ?k (by_client rs)"
    and bi: "by_ide ?rs' = bi" by (simp_all add: touchClientRoute_eq)
  have "indexes (ckeys ?rs') ((client_owner rs)(?k := Some (rt_origin r)))" unfolding bc
    by (rule touched.indexes_link) (use inv co r in \<open>simp_all add: routes_inv_def\<close>)
  moreover have "(client_owner rs)(?k := Some (rt_origin r)) = client_owner ?rs'"
    by (rule ext) (simp add: client_owner_def at' same)
  moreover have "indexes (ikeys ?rs') (ide_owner ?rs') \<and> index_wf (by_ide ?rs')"
    using ide
  proof
    assume i: "rt_ide r' = rt_ide r \<and> bi = by_ide rs"
    have "ide_owner ?rs' = ide_owner rs" by (rule ext) (simp add: ide_owner_def at' r conjunct1 [OF i])
    moreover have "indexes (index_members bi) (ide_owner rs)" "index_wf bi"
      using inv i by (simp_all add: routes_inv_def)
    ultimately show ?thesis unfolding bi by simp
  next
    assume i: "rt_ide r' = Some ide \<and> rt_ide r = None \<and> bi = index_link ide ?k (by_ide rs)"
    have "ide_owner ?rs' = (ide_owner rs)(?k := Some ide)" by (rule ext) (simp add: ide_owner_def at' conjunct1 [OF i])
    moreover have "indexes (index_members bi) ((ide_owner rs)(?k := Some ide))"
      unfolding conjunct2 [OF conjunct2 [OF i]]
      by (rule idx.indexes_link) (use inv i at in \<open>simp_all add: routes_inv_def ide_owner_def\<close>)
    moreover have "index_wf bi" using inv i by (simp add: routes_inv_def idx.wf_link)
    ultimately show ?thesis unfolding bi by simp
  qed
  moreover have "?k \<in> set (ckeys rs (rt_origin r))"
    using inv co r by (simp add: routes_inv_def indexes_def)
  then have "length (ckeys ?rs' c) = length (ckeys rs c)" for c
    unfolding bc using inv by (intro length_touch) (simp_all add: routes_inv_def)
  moreover have "index_wf (by_client ?rs')" unfolding bc using inv
    by (intro touched.wf_link) (simp add: routes_inv_def)
  moreover have "store_wf (session_routes ?rs')"
    using inv store_wf_put [of "rs\<lparr>by_ide := bi\<rparr>" sid mid r'] by (simp add: routes_inv_def touchClientRoute_eq)
  moreover have "max_routes ?rs' = max_routes rs" "next_oid ?rs' = next_oid rs"
    by (simp_all add: touchClientRoute_eq)
  moreover have old: "route_ok x \<and> rt_oid x < next_oid rs" if "route_at rs key = Some x" for key x
    using inv that by (simp add: routes_inv_def)
  moreover have "route_ok x \<and> rt_oid x < next_oid rs" if "route_at ?rs' key = Some x" for key x
    using that old old [OF at] ok same unfolding at' by (auto split: if_splits)
  ultimately show ?thesis using inv by (simp add: routes_inv_def)
qed

subsection \<open>Each operation keeps the invariant\<close>

lemma routes_inv_same:
  assumes "routes_inv rs" and "find_route rs sid mid = Some r"
    and "rt_origin r' = rt_origin r" "rt_oid r' = rt_oid r" "route_ok r'" "rt_ide r' = rt_ide r"
  shows "routes_inv (touchClientRoute (rt_origin r) sid mid (put_route sid mid r' rs))"
  using routes_inv_owned [OF assms(1-5), of "by_ide rs"] assms(6) by simp

lemma routes_inv_claim:
  assumes "routes_inv rs" and "find_route rs sid mid = Some r"
    and "rt_origin r' = rt_origin r" "rt_oid r' = rt_oid r" "route_ok r'"
    and "rt_ide r' = Some ide" "rt_ide r = None \<or> rt_ide r = Some ide"
  shows "routes_inv (touchClientRoute (rt_origin r) sid mid (put_route sid mid r'
    (if rt_ide r = None then add_ide_route ide (routeKey sid mid) rs else rs)))"
  using routes_inv_owned [OF assms(1-5), of "by_ide rs"]
    routes_inv_owned [OF assms(1-5), of "index_link ide (routeKey sid mid) (by_ide rs)" ide] assms(6,7)
  by (cases "rt_ide r") (simp_all add: add_ide_route_eq)

lemma put_route_id: "find_route rs sid mid = Some r \<Longrightarrow> put_route sid mid r rs = rs"
proof -
  have id: "jget m k = Some v \<Longrightarrow> jset k v m = m" for m :: "('k \<times> 'v) list" and k v
    by (induction m) auto
  assume "find_route rs sid mid = Some r"
  then obtain m where "jget (session_routes rs) sid = Some m" "jget m mid = Some r"
    by (auto simp: find_route_def split: bind_splits)
  then show ?thesis by (simp add: put_route_def id)
qed

lemma routes_inv_ok: "routes_inv rs \<Longrightarrow> find_route rs sid mid = Some r \<Longrightarrow> route_ok r"
  using route_at_key [of rs sid mid] unfolding routes_inv_def by metis

lemma routes_inv_touch:
  assumes "routes_inv rs" and "find_route rs sid mid = Some r"
  shows "routes_inv (touchClientRoute (rt_origin r) sid mid rs)"
  using routes_inv_same [OF assms refl refl routes_inv_ok [OF assms] refl] put_route_id [OF assms(2)]
  by simp

lemma routes_inv_resolve: "routes_inv rs \<Longrightarrow> routes_inv (snd (resolve sid mid rs))"
  by (auto simp: resolve_def peek_def routes_inv_touch split: option.split)

definition claim_allowed :: "stored_route \<Rightarrow> jstring \<Rightarrow> int \<Rightarrow> bool" where
  "claim_allowed r ide gen \<longleftrightarrow> (rt_ide r = None \<or> rt_ide r = Some ide) \<and>
     (case rt_resGen r of None \<Rightarrow> True | Some g \<Rightarrow> g \<le> gen)"

definition claimed_route :: "jstring \<Rightarrow> int \<Rightarrow> bool \<Rightarrow> stored_route \<Rightarrow> stored_route" where
  "claimed_route ide gen cl r =
     r\<lparr>rt_ide := Some ide, rt_resGen := Some gen, rt_matchIds := [], rt_claimed := cl\<rparr>"

definition own_route :: "jstring \<Rightarrow> jstring \<Rightarrow> stored_route \<Rightarrow> jstring \<Rightarrow> reply_routes \<Rightarrow> reply_routes" where
  "own_route sid mid r ide rs = (if rt_ide r = None then add_ide_route ide (routeKey sid mid) rs else rs)"

lemma claimAuthority_eq:
  "claimAuthority sid mid ide gen cl rs = (case find_route rs sid mid of
     None \<Rightarrow> (None, rs)
   | Some r \<Rightarrow> if claim_allowed r ide gen
       then (Some (snapshot sid mid (claimed_route ide gen cl r)),
         touchClientRoute (rt_origin r) sid mid (put_route sid mid (claimed_route ide gen cl r)
           (own_route sid mid r ide rs)))
       else (None, rs))"
proof (cases "find_route rs sid mid")
  case (Some r)
  have "(let route1 = (if rt_ide r = None then r\<lparr>rt_ide := Some ide\<rparr> else r);
             route2 = (if rt_resGen route1 \<noteq> Some gen then route1\<lparr>rt_resGen := Some gen\<rparr> else route1)
         in route2\<lparr>rt_matchIds := [], rt_claimed := cl\<rparr>) = claimed_route ide gen cl r"
    if "rt_ide r = None \<or> rt_ide r = Some ide"
    using that by (cases r) (auto simp: claimed_route_def Let_def)
  then show ?thesis using Some
    by (auto simp: claimAuthority_def claim_allowed_def own_route_def Let_def split: option.splits)
qed (simp add: claimAuthority_def)

lemma claimed_route_ok: "route_ok r \<Longrightarrow> route_ok (claimed_route ide gen cl r)"
  by (auto simp: route_ok_def claimed_route_def split: option.splits)

lemma routes_inv_claimAuthority:
  assumes "routes_inv rs" shows "routes_inv (snd (claimAuthority sid mid ide gen cl rs))"
proof (cases "find_route rs sid mid")
  case (Some r)
  have "routes_inv (touchClientRoute (rt_origin r) sid mid (put_route sid mid (claimed_route ide gen cl r)
      (own_route sid mid r ide rs)))" if "claim_allowed r ide gen"
    unfolding own_route_def
    by (rule routes_inv_claim [OF assms Some])
      (use claimed_route_ok [OF routes_inv_ok [OF assms Some]] that in
        \<open>simp_all add: claimed_route_def claim_allowed_def\<close>)
  then show ?thesis by (simp add: claimAuthority_eq Some assms)
qed (simp add: claimAuthority_eq assms)

lemma routes_inv_claimResolution: "routes_inv rs \<Longrightarrow> routes_inv (snd (claimResolution sid mid ide gen rs))"
  by (simp add: claimResolution_def routes_inv_claimAuthority)

lemma routes_inv_claimSourceInvalidation:
  "routes_inv rs \<Longrightarrow> routes_inv (snd (claimSourceInvalidation sid mid ide gen rs))"
  using routes_inv_ok [of rs sid mid]
  by (auto simp: claimSourceInvalidation_def Let_def routes_inv_claimAuthority route_ok_def
      intro!: routes_inv_same split: option.splits)

lemma routes_inv_replaceMatchIds:
  "routes_inv rs \<Longrightarrow> routes_inv (snd (replaceMatchIds sid mid ide gen ids rs))"
  using routes_inv_ok [of rs sid mid]
  by (auto simp: replaceMatchIds_def Let_def route_ok_def intro!: routes_inv_same split: option.splits)

lemma routes_inv_authorizeRulesOpen:
  "routes_inv rs \<Longrightarrow> routes_inv (snd (authorizeRulesOpen sid mid c gen openId rs))"
  by (auto simp: authorizeRulesOpen_def routes_inv_touch split: option.splits)

lemma routes_inv_mark [simp]: "routes_inv (markMutated rs) = routes_inv rs"
proof -
  have "route_at (markMutated rs) = route_at rs" by (rule route_at_cong) (simp add: markMutated_def)
  then have "client_owner (markMutated rs) = client_owner rs" "ide_owner (markMutated rs) = ide_owner rs"
    "route_at (markMutated rs) = route_at rs"
    by (auto simp: client_owner_def ide_owner_def)
  then show ?thesis unfolding routes_inv_def by (simp add: markMutated_def)
qed

lemma routes_inv_empty:
  assumes "session_routes rs = []" "by_client rs = []" "by_ide rs = []" "0 < max_routes rs"
  shows "routes_inv rs"
proof -
  have "route_at rs key = None" for key
    using assms by (auto simp: route_at_def find_route_def split: option.split)
  then show ?thesis using assms
    by (simp add: routes_inv_def store_wf_def index_wf_def indexes_def index_members_def
        client_owner_def ide_owner_def)
qed

lemma routes_inv_clear: "routes_inv rs \<Longrightarrow> routes_inv (clear_routes rs)"
  unfolding clear_routes_def routes_inv_mark by (rule routes_inv_empty) (simp_all add: routes_inv_def)

lemma routes_inv_new: "new_ReplyRouteRegistry m = Inr rs \<Longrightarrow> routes_inv rs"
  by (rule routes_inv_empty) (auto split: option.splits jsnum.splits if_splits)

subsection \<open>Removal\<close>

definition removed_route :: "jstring \<Rightarrow> jstring \<Rightarrow> stored_route \<Rightarrow> reply_routes \<Rightarrow> reply_routes" where
  "removed_route sid mid r rs =
     (let key = routeKey sid mid;
          rs1 = (delete_route sid mid rs)\<lparr>by_client := drop_index (rt_origin r) key (by_client rs)\<rparr>
      in markMutated (case rt_ide r of None \<Rightarrow> rs1
         | Some ide \<Rightarrow> rs1\<lparr>by_ide := drop_index ide key (by_ide rs)\<rparr>))"

lemma removeByKey_eq:
  "find_route rs sid mid = Some r \<Longrightarrow> removeByKey (routeKey sid mid) rs = (Inr (), removed_route sid mid r rs)"
  by (simp add: removeByKey_def routeFromKey_def removed_route_def Let_def routeKey_def
      split: option.split)

lemma removed_route_fields:
  "by_client (removed_route sid mid r rs) = drop_index (rt_origin r) (routeKey sid mid) (by_client rs)"
  "by_ide (removed_route sid mid r rs) = (case rt_ide r of None \<Rightarrow> by_ide rs
     | Some ide \<Rightarrow> drop_index ide (routeKey sid mid) (by_ide rs))"
  "session_routes (removed_route sid mid r rs) = session_routes (delete_route sid mid rs)"
  "max_routes (removed_route sid mid r rs) = max_routes rs"
  "next_oid (removed_route sid mid r rs) = next_oid rs"
  "revision (removed_route sid mid r rs) = revision rs + 1"
  by (simp_all add: removed_route_def markMutated_def Let_def split: option.split)

lemma route_at_removed:
  "route_at (removed_route sid mid r rs) = (route_at rs)(routeKey sid mid := None)"
  using route_at_cong [of "removed_route sid mid r rs" "delete_route sid mid rs"]
  by (simp add: removed_route_fields route_at_delete)

lemma routes_inv_removed:
  assumes inv: "routes_inv rs" and r: "find_route rs sid mid = Some r"
  shows "routes_inv (removed_route sid mid r rs)" (is "routes_inv ?rs'")
proof -
  let ?k = "routeKey sid mid"
  note at' = route_at_removed [of sid mid r rs]
  have wf: "index_wf (by_client rs)" "index_wf (by_ide rs)" using inv by (simp_all add: routes_inv_def)
  have "indexes (ckeys ?rs') ((client_owner rs)(?k := None))" unfolding removed_route_fields
    by (rule idx.indexes_unlink) (use inv r in \<open>simp_all add: routes_inv_def client_owner_def\<close>)
  moreover have "(client_owner rs)(?k := None) = client_owner ?rs'"
    by (rule ext) (simp add: client_owner_def at')
  moreover have "indexes (ikeys ?rs') ((ide_owner rs)(?k := None))"
  proof (cases "rt_ide r")
    case None
    then have "(ide_owner rs)(?k := None) = ide_owner rs" using r by (auto simp: ide_owner_def)
    then show ?thesis using inv None by (simp add: removed_route_fields routes_inv_def)
  next
    case (Some ide)
    show ?thesis unfolding removed_route_fields Some option.case
      by (rule idx.indexes_unlink) (use inv r Some in \<open>simp_all add: routes_inv_def ide_owner_def\<close>)
  qed
  moreover have "(ide_owner rs)(?k := None) = ide_owner ?rs'"
    by (rule ext) (simp add: ide_owner_def at')
  moreover have "length (ckeys ?rs' c) \<le> max_routes rs" for c
  proof -
    have "length (ckeys ?rs' c) \<le> length (ckeys rs c)"
      using wf by (simp add: removed_route_fields index_members_drop set_remove_def)
    then show ?thesis using inv order_trans by (fastforce simp: routes_inv_def)
  qed
  moreover have "store_wf (session_routes ?rs')"
    using inv by (simp add: removed_route_fields routes_inv_def store_wf_delete)
  moreover have "index_wf (by_client ?rs')" "index_wf (by_ide ?rs')"
    using wf by (simp_all add: removed_route_fields index_wf_drop split: option.split)
  moreover have "route_ok x \<and> rt_oid x < next_oid rs" if "route_at ?rs' key = Some x" for key x
    using that inv by (auto simp: at' routes_inv_def split: if_splits)
  ultimately show ?thesis using inv by (simp add: routes_inv_def removed_route_fields(4,5))
qed

lemma removeByKey_at:
  assumes "routes_inv rs" and "route_at rs key = Some r"
  shows "\<exists>rs'. removeByKey key rs = (Inr (), rs') \<and> routes_inv rs' \<and>
    route_at rs' = (route_at rs)(key := None) \<and> max_routes rs' = max_routes rs \<and>
    next_oid rs' = next_oid rs \<and> revision rs' = revision rs + 1 \<and>
    by_client rs' = drop_index (rt_origin r) key (by_client rs)"
proof -
  obtain sid mid where "key = routeKey sid mid" "find_route rs sid mid = Some r"
    using assms(2) by (rule route_at_cases)
  then show ?thesis using routes_inv_removed [OF assms(1)]
    by (simp add: removeByKey_eq route_at_removed removed_route_fields)
qed

lemma remove_keys:
  "routes_inv rs \<Longrightarrow> distinct ks \<Longrightarrow> \<forall>k\<in>set ks. route_at rs k \<noteq> None \<Longrightarrow>
   \<exists>rs'. for_each removeByKey ks rs = (Inr (), rs') \<and> routes_inv rs' \<and>
     route_at rs' = (\<lambda>k. if k \<in> set ks then None else route_at rs k) \<and>
     max_routes rs' = max_routes rs \<and> next_oid rs' = next_oid rs \<and> revision rs \<le> revision rs'"
proof (induction ks arbitrary: rs)
  case (Cons k ks)
  then obtain r where "route_at rs k = Some r" by auto
  from removeByKey_at [OF Cons.prems(1) this] obtain rs1 where
    step: "removeByKey k rs = (Inr (), rs1)" "routes_inv rs1" "route_at rs1 = (route_at rs)(k := None)"
    and rest: "max_routes rs1 = max_routes rs" "next_oid rs1 = next_oid rs" "revision rs1 = revision rs + 1"
    by blast
  have "\<forall>x\<in>set ks. route_at rs1 x \<noteq> None" using Cons.prems(2,3) by (auto simp: step(3))
  from Cons.IH [OF step(2) _ this] Cons.prems(2) obtain rs' where
    ih: "for_each removeByKey ks rs1 = (Inr (), rs')" "routes_inv rs'"
      "route_at rs' = (\<lambda>x. if x \<in> set ks then None else route_at rs1 x)"
      "max_routes rs' = max_routes rs1" "next_oid rs' = next_oid rs1" "revision rs1 \<le> revision rs'"
    by auto
  have "route_at rs' = (\<lambda>x. if x \<in> set (k # ks) then None else route_at rs x)"
    by (rule ext) (simp add: ih(3) step(3))
  with ih rest show ?case by (simp add: bindE_def step(1))
qed simp

definition involves :: "jstring \<Rightarrow> stored_route \<Rightarrow> bool" where
  "involves c r \<longleftrightarrow> rt_origin r = c \<or> rt_ide r = Some c"

lemma removeClient_effect:
  assumes "routes_inv rs"
  shows "\<exists>rs'. removeClient c rs = (Inr (), rs') \<and> routes_inv rs' \<and>
    route_at rs' = (\<lambda>k. case route_at rs k of None \<Rightarrow> None
      | Some r \<Rightarrow> if involves c r then None else Some r) \<and>
    max_routes rs' = max_routes rs \<and> next_oid rs' = next_oid rs \<and> revision rs < revision rs'"
proof -
  let ?rs = "markMutated rs"
  let ?ks = "set_of (ckeys rs c @ ikeys rs c)"
  have at: "route_at ?rs = route_at rs" by (rule route_at_cong) (simp add: markMutated_def)
  have ix: "k \<in> set ?ks \<longleftrightarrow> (\<exists>r. route_at rs k = Some r \<and> involves c r)" for k
    using assms by (auto simp: routes_inv_def indexes_def client_owner_def ide_owner_def involves_def
        split: bind_splits)
  have "\<forall>k\<in>set ?ks. route_at ?rs k \<noteq> None" using ix unfolding at by blast
  from remove_keys [OF iffD2 [OF routes_inv_mark assms] distinct_set_of this] obtain rs' where
    r: "for_each removeByKey ?ks ?rs = (Inr (), rs')" "routes_inv rs'"
      "route_at rs' = (\<lambda>k. if k \<in> set ?ks then None else route_at rs k)"
      "max_routes rs' = max_routes rs" "next_oid rs' = next_oid rs" "revision rs < revision rs'"
    unfolding at by (auto simp: markMutated_def simp del: set_set_of)
  have "removeClient c rs = (Inr (), rs')"
    using r(1) by (simp add: removeClient_def index_members_def Let_def markMutated_def)
  moreover have "route_at rs' = (\<lambda>k. case route_at rs k of None \<Rightarrow> None
      | Some r \<Rightarrow> if involves c r then None else Some r)"
    by (rule ext) (use r(3) ix in \<open>auto split: option.split\<close>)
  ultimately show ?thesis using r by blast
qed

lemma remove_route_effect:
  assumes "routes_inv rs"
  shows "\<exists>rs'. remove_route sid mid rs = (Inr (find_route rs sid mid \<noteq> None), rs') \<and> routes_inv rs' \<and>
    route_at rs' = (route_at rs)(routeKey sid mid := None) \<and> next_oid rs' = next_oid rs \<and>
    max_routes rs' = max_routes rs \<and> (rs' = rs \<or> revision rs < revision rs')"
proof (cases "find_route rs sid mid")
  case None
  then have "route_at rs (routeKey sid mid) = None" by simp
  then have "route_at rs = (route_at rs)(routeKey sid mid := None)" by auto
  with None assms show ?thesis by (simp add: remove_route_def)
next
  case (Some r)
  then show ?thesis using removeByKey_at [OF assms, of "routeKey sid mid" r]
    by (auto simp: remove_route_def bindE_def)
qed

subsection \<open>Insertion and registrations\<close>

lemma route_at_insert:
  "route_at (insert_route sid mid c proposed rs) =
     (route_at rs)(routeKey sid mid := Some (new_route c proposed rs))"
  unfolding insert_route_eq route_at_put by (subst route_at_cong [where rs' = rs]) simp_all

lemma routes_inv_insert:
  assumes inv: "routes_inv rs" and none: "find_route rs sid mid = None"
    and room: "length (ckeys rs c) < max_routes rs"
  shows "routes_inv (insert_route sid mid c proposed rs)" (is "routes_inv ?rs'")
proof -
  let ?k = "routeKey sid mid"
  note at' = route_at_insert [of sid mid c proposed rs]
  have f: "by_client ?rs' = index_link c ?k (by_client rs)" "by_ide ?rs' = by_ide rs"
    "max_routes ?rs' = max_routes rs" "next_oid ?rs' = next_oid rs + 1"
    by (simp_all add: insert_route_eq)
  have "indexes (ckeys ?rs') ((client_owner rs)(?k := Some c))" unfolding f
    by (rule idx.indexes_link) (use inv none in \<open>simp_all add: routes_inv_def client_owner_def\<close>)
  moreover have "(client_owner rs)(?k := Some c) = client_owner ?rs'"
    by (rule ext) (simp add: client_owner_def at' new_route_def)
  moreover have "ide_owner rs = ide_owner ?rs'"
    by (rule ext) (simp add: ide_owner_def at' none new_route_def)
  moreover have "length (ckeys ?rs' d) \<le> max_routes rs" for d
  proof -
    have "length (ckeys ?rs' d) \<le> (if d = c then Suc (length (ckeys rs d)) else length (ckeys rs d))"
      unfolding f by (simp add: index_link_def set_add_def)
    moreover have "length (ckeys rs d) \<le> max_routes rs" using inv by (simp add: routes_inv_def)
    ultimately show ?thesis using room by (auto split: if_splits)
  qed
  moreover have "store_wf (session_routes ?rs')"
    using inv store_wf_put [of "rs\<lparr>next_oid := next_oid rs + 1,
      by_client := index_link c ?k (by_client rs), revision := revision rs + 1\<rparr>"]
    by (simp add: insert_route_eq routes_inv_def)
  moreover have "index_wf (by_client ?rs')" using inv by (simp add: f routes_inv_def idx.wf_link)
  moreover have "route_ok x \<and> rt_oid x < next_oid rs + 1" if "route_at ?rs' key = Some x" for key x
    using that inv by (auto simp: at' routes_inv_def new_route_def route_ok_def less_SucI split: if_splits)
  ultimately show ?thesis using inv by (simp add: routes_inv_def f(2-4))
qed

subsection \<open>How the registry evolves\<close>

text \<open>
  What may happen to a stored route: its origin and expected rules are fixed, an owning IDE
  stays, generations do not go back, and the published authority ids change only together with
  the rules generation.
\<close>

definition progress :: "stored_route \<Rightarrow> stored_route \<Rightarrow> bool" where
  "progress r r' \<longleftrightarrow> rt_oid r' = rt_oid r \<and> rt_origin r' = rt_origin r \<and> rt_expected r' = rt_expected r \<and>
     (rt_ide r = None \<or> rt_ide r' = rt_ide r) \<and> rt_resGen r \<le> rt_resGen r' \<and>
     rt_rulesGen r \<le> rt_rulesGen r' \<and> (rt_rulesGen r = rt_rulesGen r' \<longrightarrow> rt_openIds r' = rt_openIds r)"

definition evolves :: "reply_routes \<Rightarrow> reply_routes \<Rightarrow> bool" where
  "evolves rs rs' \<longleftrightarrow> max_routes rs' = max_routes rs \<and> next_oid rs \<le> next_oid rs' \<and>
     (rs' = rs \<or> revision rs < revision rs') \<and>
     (\<forall>k r'. route_at rs' k = Some r' \<longrightarrow>
        (\<exists>r. route_at rs k = Some r \<and> progress r r') \<or> next_oid rs \<le> rt_oid r')"

lemma progress_refl [simp]: "progress r r"
  by (simp add: progress_def)

lemma progress_trans: "progress r s \<Longrightarrow> progress s t \<Longrightarrow> progress r t"
  unfolding progress_def by (metis order.antisym order.trans)

lemma evolvesD:
  "evolves rs rs' \<Longrightarrow> route_at rs' k = Some r' \<Longrightarrow>
   (\<exists>r. route_at rs k = Some r \<and> progress r r') \<or> next_oid rs \<le> rt_oid r'"
  by (simp add: evolves_def)

interpretation evolving: effect_relation evolves
proof
  fix s t u :: reply_routes
  show "evolves s s" by (auto simp: evolves_def)
  assume st: "evolves s t" and tu: "evolves t u"
  have "(\<exists>r. route_at s k = Some r \<and> progress r r') \<or> next_oid s \<le> rt_oid r'"
    if at: "route_at u k = Some r'" for k r'
  proof -
    consider x where "route_at t k = Some x" "progress x r'" | "next_oid t \<le> rt_oid r'"
      using evolvesD [OF tu at] by blast
    then show ?thesis
    proof cases
      case 1
      from 1(1) have "(\<exists>r. route_at s k = Some r \<and> progress r x) \<or> next_oid s \<le> rt_oid x"
        by (rule evolvesD [OF st])
      moreover have "rt_oid r' = rt_oid x" using 1(2) by (simp add: progress_def)
      ultimately show ?thesis using progress_trans [OF _ 1(2)] by auto
    next
      case 2
      then show ?thesis using st by (auto simp: evolves_def)
    qed
  qed
  then show "evolves s u" using st tu by (auto simp: evolves_def)
qed

lemma evolves_touch_put:
  assumes r: "find_route rs sid mid = Some r" and p: "progress r r'"
    and rs1: "session_routes rs1 = session_routes rs" "max_routes rs1 = max_routes rs"
      "next_oid rs1 = next_oid rs" "revision rs1 = revision rs"
  shows "evolves rs (touchClientRoute c sid mid (put_route sid mid r' rs1))"
proof -
  have "route_at (touchClientRoute c sid mid (put_route sid mid r' rs1)) =
      (route_at rs)(routeKey sid mid := Some r')"
    using route_at_put [of sid mid r' rs1] route_at_cong [OF rs1(1)]
    by (subst route_at_cong) (simp_all add: touchClientRoute_eq)
  then show ?thesis using r p rs1 by (auto simp: evolves_def touchClientRoute_eq)
qed

lemma evolves_touch:
  assumes "find_route rs sid mid = Some r" shows "evolves rs (touchClientRoute c sid mid rs)"
  using evolves_touch_put [OF assms progress_refl, of rs c] put_route_id [OF assms] by simp

lemma evolves_same:
  assumes "max_routes rs' = max_routes rs" "next_oid rs \<le> next_oid rs'"
    and "rs' = rs \<or> revision rs < revision rs'"
    and "\<And>k r. route_at rs' k = Some r \<Longrightarrow> route_at rs k = Some r"
  shows "evolves rs rs'"
  using assms by (auto simp: evolves_def)

lemma evolves_insert:
  assumes "find_route rs sid mid = None" shows "evolves rs (insert_route sid mid c proposed rs)"
  using assms by (auto simp: evolves_def route_at_insert) (simp_all add: insert_route_eq new_route_def)

end
