(* ===== verification/Route_System.thy ===== *)
theory Route_System
  imports Route_Invariant
begin

text \<open>
  The reply route registry with every registration and preparation it has handed out: callers
  may commit or roll them back in any order, any number of times and between any other
  operations. Every interleaving keeps the registry consistent and never throws; the properties
  say what routes, ownership and rules authority can become along a run.
\<close>

subsection \<open>Operations along the evolution relation\<close>

lemma find_route_touch [simp]: "find_route (touchClientRoute c sid mid rs) = find_route rs"
  by (rule find_route_cong) (simp add: touchClientRoute_eq)

lemma evolves_resolve: "evolves rs (snd (resolve sid mid rs))"
  by (auto simp: resolve_def peek_def evolves_touch evolving.R_refl split: option.split)

lemma progress_claimed: "claim_allowed r ide gen \<Longrightarrow> progress r (claimed_route ide gen cl r)"
  by (auto simp: progress_def claimed_route_def claim_allowed_def split: option.splits)

lemma own_route_fields [simp]:
  "session_routes (own_route sid mid r ide rs) = session_routes rs"
  "max_routes (own_route sid mid r ide rs) = max_routes rs"
  "next_oid (own_route sid mid r ide rs) = next_oid rs"
  "revision (own_route sid mid r ide rs) = revision rs"
  by (simp_all add: own_route_def add_ide_route_eq)

lemma evolves_claimAuthority: "evolves rs (snd (claimAuthority sid mid ide gen cl rs))"
  by (auto simp: claimAuthority_eq evolving.R_refl intro!: evolves_touch_put progress_claimed
      split: option.split)

lemma evolves_claimSourceInvalidation: "evolves rs (snd (claimSourceInvalidation sid mid ide gen rs))"
  by (auto simp: claimSourceInvalidation_def Let_def evolving.R_refl evolves_claimAuthority progress_def
      intro!: evolves_touch_put split: option.split)

lemma evolves_replaceMatchIds: "evolves rs (snd (replaceMatchIds sid mid ide gen ids rs))"
  by (auto simp: replaceMatchIds_def Let_def evolving.R_refl progress_def
      intro!: evolves_touch_put split: option.split)

lemma evolves_authorizeRulesOpen: "evolves rs (snd (authorizeRulesOpen sid mid c gen openId rs))"
  by (auto simp: authorizeRulesOpen_def evolving.R_refl evolves_touch split: option.split)

lemma evolves_clear: "evolves rs (clear_routes rs)"
  by (rule evolves_same) (auto simp: clear_routes_def markMutated_def route_at_def find_route_def
      split: option.splits)

text \<open>The operations that can throw, from a consistent registry: they return, keep it
  consistent and follow the evolution.\<close>

definition sound :: "reply_routes \<Rightarrow> (route_error + 'a) \<times> reply_routes \<Rightarrow> bool" where
  "sound rs out \<longleftrightarrow> \<not> isl (fst out) \<and> routes_inv (snd out) \<and> evolves rs (snd out)"

lemma sound_removeByKey:
  assumes "routes_inv rs" "route_at rs key = Some r" shows "sound rs (removeByKey key rs)"
  using removeByKey_at [OF assms] by (auto simp: sound_def intro!: evolves_same split: if_splits)

lemma sound_removeClient:
  assumes "routes_inv rs" shows "sound rs (removeClient c rs)"
  using removeClient_effect [OF assms, of c]
  by (auto simp: sound_def intro!: evolves_same split: option.splits if_splits)

lemma sound_remove_route:
  assumes "routes_inv rs" shows "sound rs (remove_route sid mid rs)"
  using remove_route_effect [OF assms, of sid mid]
  by (auto simp: sound_def intro!: evolves_same split: if_splits)

lemma sound_refl: "routes_inv rs \<Longrightarrow> sound rs (Inr x, rs)"
  by (simp add: sound_def evolving.R_refl)

subsection \<open>Registrations\<close>

definition registers :: "reply_routes \<Rightarrow> registration \<Rightarrow> bool" where
  "registers rs g \<longleftrightarrow> (\<exists>sid mid c refs. g = register sid mid c refs rs)"

text \<open>Making room: the route created for a client that is at its limit replaces its oldest.\<close>

lemma sound_create:
  assumes inv: "routes_inv rs" and none: "find_route rs sid mid = None"
    and ev: "ev = (if length (ckeys rs c) \<ge> max_routes rs then Some (hd (ckeys rs c)) else None)"
  shows "sound rs (apply_registration (ApplyCreate sid mid c prop ev) rs)"
proof (cases ev)
  case None
  then have "length (ckeys rs c) < max_routes rs" using ev by (auto split: if_splits)
  from routes_inv_insert [OF inv none this, of "prop"] evolves_insert [OF none, of c "prop"]
  show ?thesis using None none by (simp add: sound_def)
next
  case (Some k)
  then have full: "length (ckeys rs c) \<ge> max_routes rs" and k: "k = hd (ckeys rs c)"
    using ev by (auto split: if_splits)
  with inv have len: "length (ckeys rs c) = max_routes rs" "ckeys rs c \<noteq> []"
    by (auto simp: routes_inv_def intro: antisym)
  then have kin: "k \<in> set (ckeys rs c)" by (simp add: k)
  then obtain r where r: "route_at rs k = Some r" "rt_origin r = c"
    using inv by (auto simp: routes_inv_def indexes_def client_owner_def)
  from removeByKey_at [OF inv r(1)] obtain rs1 where rs1: "removeByKey k rs = (Inr (), rs1)"
    "routes_inv rs1" "route_at rs1 = (route_at rs)(k := None)" "max_routes rs1 = max_routes rs"
    "by_client rs1 = drop_index (rt_origin r) k (by_client rs)" by blast
  have none1: "find_route rs1 sid mid = None"
    using none unfolding route_at_key [symmetric] rs1(3) by simp
  have wf: "index_wf (by_client rs)" using inv by (simp add: routes_inv_def)
  then have "ckeys rs1 c = set_remove k (ckeys rs c)"
    by (simp add: rs1(5) r(2) index_members_drop)
  then have "length (ckeys rs1 c) < max_routes rs1"
    using length_set_remove [OF index_wf_members [OF wf], of k c] kin len inv
    by (simp add: rs1(4) routes_inv_def)
  from routes_inv_insert [OF rs1(2) none1 this, of "prop"] evolves_insert [OF none1, of c "prop"]
    sound_removeByKey [OF inv r(1)]
  show ?thesis using Some none
    by (auto simp: sound_def bindE_def rs1(1) intro: evolving.R_trans)
qed

lemma sound_commit_registration:
  assumes inv: "routes_inv rs"
    and fresh: "\<not> rg_settled g \<Longrightarrow> rg_expectedRevision g = revision rs \<Longrightarrow> registers rs g"
  shows "sound rs (commit_registration g rs)"
proof (cases "\<not> rg_settled g \<and> rg_expectedRevision g = revision rs")
  case True
  then obtain sid mid c refs where g: "g = register sid mid c refs rs"
    using fresh by (auto simp: registers_def)
  show ?thesis
  proof (cases "find_route rs sid mid")
    case None
    have "(case jget (by_client rs) c of Some (k # _) \<Rightarrow> Some k | _ \<Rightarrow> None) = Some (hd (ckeys rs c))"
      if "max_routes rs \<le> length (ckeys rs c)"
      using that inv by (auto simp: index_members_def routes_inv_def split: option.splits list.splits)
    with None have "rg_apply g = ApplyCreate sid mid c (set_of refs)
        (if length (ckeys rs c) \<ge> max_routes rs then Some (hd (ckeys rs c)) else None)"
      by (auto simp: g register_def createDeferredRegistration_def index_members_def Let_def
          split: option.splits)
    then show ?thesis using sound_create [OF inv None refl, of c "set_of refs"] True
      by (simp add: commit_registration_def)
  next
    case (Some r)
    then show ?thesis using True inv
      by (auto simp: commit_registration_def g register_def createDeferredRegistration_def
          createSettledRegistration_def Let_def sound_refl sound_def routes_inv_touch evolves_touch
          split: if_splits)
  qed
next
  case False
  then show ?thesis using inv by (auto simp: commit_registration_def sound_refl)
qed

subsection \<open>Preparations\<close>

definition prepares :: "reply_routes \<Rightarrow> rules_preparation \<Rightarrow> bool" where
  "prepares rs p \<longleftrightarrow> (\<exists>sid mid ide gen sources un. prepareRulesSources sid mid ide gen sources un rs = Some p)"

lemma prepareRulesSources_SomeD:
  assumes "prepareRulesSources sid mid ide gen sources un rs = Some p"
  obtains route g where "find_route rs sid mid = Some route" "gen = JInt g"
    "rt_ide route = None \<or> rt_ide route = Some ide" "next_rules_generation (rt_rulesGen route) g"
    "p = \<lparr>rp_sessionId = sid, rp_inspectMessageId = mid, rp_ide = ide, rp_rulesGeneration = g,
       rp_authorityIds = rp_authorityIds p, rp_expectedRevision = revision rs, rp_oid = rt_oid route,
       rp_expectedRulesGeneration = rt_rulesGen route, rp_settled = False\<rparr>"
  using assms unfolding prepareRulesSources_def
  by (auto split: option.splits jsnum.splits prod.splits if_splits)

definition published_route :: "rules_preparation \<Rightarrow> stored_route \<Rightarrow> stored_route" where
  "published_route p r = r\<lparr>rt_ide := Some (rp_ide p), rt_rulesGen := Some (rp_rulesGeneration p),
     rt_openIds := rp_authorityIds p\<rparr>"

lemma commit_preparation_eq:
  "commit_preparation p rs =
     (case find_route rs (rp_sessionId p) (rp_inspectMessageId p) of
        Some r \<Rightarrow>
          if \<not> rp_settled p \<and> revision rs = rp_expectedRevision p \<and> rt_oid r = rp_oid p \<and>
             rt_rulesGen r = rp_expectedRulesGeneration p \<and>
             (rt_ide r = None \<or> rt_ide r = Some (rp_ide p))
          then (True, touchClientRoute (rt_origin r) (rp_sessionId p) (rp_inspectMessageId p)
            (put_route (rp_sessionId p) (rp_inspectMessageId p) (published_route p r)
              (own_route (rp_sessionId p) (rp_inspectMessageId p) r (rp_ide p) rs)))
          else (False, rs)
      | None \<Rightarrow> (False, rs))"
  by (auto simp: commit_preparation_def published_route_def own_route_def Let_def split: option.split)

lemma commit_preparation_fresh:
  assumes inv: "routes_inv rs"
    and fresh: "\<not> rp_settled p \<Longrightarrow> rp_expectedRevision p = revision rs \<Longrightarrow> prepares rs p"
  shows "routes_inv (snd (commit_preparation p rs)) \<and> evolves rs (snd (commit_preparation p rs))"
proof (cases "find_route rs (rp_sessionId p) (rp_inspectMessageId p)")
  case None
  then show ?thesis using inv by (simp add: commit_preparation_eq evolving.R_refl)
next
  case (Some r)
  show ?thesis
  proof (cases "\<not> rp_settled p \<and> revision rs = rp_expectedRevision p \<and> rt_oid r = rp_oid p \<and>
             rt_rulesGen r = rp_expectedRulesGeneration p \<and>
             (rt_ide r = None \<or> rt_ide r = Some (rp_ide p))")
    case False
    then show ?thesis using Some inv by (auto simp: commit_preparation_eq evolving.R_refl)
  next
    case True
    with fresh have "prepares rs p" by simp
    then have gen: "next_rules_generation (rt_rulesGen r) (rp_rulesGeneration p)"
      unfolding prepares_def using Some
      by (elim exE, elim prepareRulesSources_SomeD) (metis option.inject rules_preparation.select_convs)
    have ok: "route_ok (published_route p r)"
      using routes_inv_ok [OF inv Some] gen
      by (auto simp: route_ok_def published_route_def next_rules_generation_def split: option.splits)
    have "progress r (published_route p r)" using gen True
      by (auto simp: progress_def published_route_def next_rules_generation_def split: option.splits)
    then show ?thesis
      using Some True evolves_touch_put [OF Some, of "published_route p r"]
        routes_inv_claim [OF inv Some _ _ ok, of "rp_ide p"]
      by (simp add: commit_preparation_eq own_route_def add_ide_route_eq published_route_def)
  qed
qed

subsection \<open>The system\<close>

record route_system =
  sys_routes :: reply_routes
  sys_regs :: "registration list"
  sys_preps :: "rules_preparation list"
  sys_threw :: bool

datatype route_event =
    Register jstring jstring jstring "jstring list"
  | CommitRegistration nat
  | RollbackRegistration nat
  | Resolve jstring jstring
  | ClaimResolution jstring jstring jstring int
  | ClaimInvalidation jstring jstring jstring int
  | ReplaceMatchIds jstring jstring jstring int "jstring list"
  | Prepare jstring jstring jstring jsnum "(jstring \<times> jstring) list" jsnum
  | CommitPreparation nat
  | RollbackPreparation nat
  | AuthorizeOpen jstring jstring jstring int jstring
  | RemoveRoute jstring jstring
  | RemoveClient jstring
  | ClearRoutes

definition settle_at :: "nat \<Rightarrow> ('a \<Rightarrow> 'a) \<Rightarrow> 'a list \<Rightarrow> 'a list" where
  "settle_at i f xs = (if i < length xs then xs[i := f (xs ! i)] else xs)"

definition with_routes :: "route_system \<Rightarrow> reply_routes \<Rightarrow> route_system" where
  "with_routes s rs = s\<lparr>sys_routes := rs\<rparr>"

definition with_outcome :: "route_system \<Rightarrow> (route_error + 'a) \<times> reply_routes \<Rightarrow> route_system" where
  "with_outcome s out = s\<lparr>sys_routes := snd out, sys_threw := sys_threw s \<or> isl (fst out)\<rparr>"

fun route_step :: "route_system \<Rightarrow> route_event \<Rightarrow> route_system" where
  "route_step s (Register sid mid c refs) =
     s\<lparr>sys_regs := sys_regs s @ [register sid mid c refs (sys_routes s)]\<rparr>"
| "route_step s (CommitRegistration i) =
     (if i < length (sys_regs s)
      then (with_outcome s (commit_registration (sys_regs s ! i) (sys_routes s)))
        \<lparr>sys_regs := settle_at i settle_registration (sys_regs s)\<rparr>
      else s)"
| "route_step s (RollbackRegistration i) = s\<lparr>sys_regs := settle_at i settle_registration (sys_regs s)\<rparr>"
| "route_step s (Resolve sid mid) = with_routes s (snd (resolve sid mid (sys_routes s)))"
| "route_step s (ClaimResolution sid mid ide gen) =
     with_routes s (snd (claimResolution sid mid ide gen (sys_routes s)))"
| "route_step s (ClaimInvalidation sid mid ide gen) =
     with_routes s (snd (claimSourceInvalidation sid mid ide gen (sys_routes s)))"
| "route_step s (ReplaceMatchIds sid mid ide gen ids) =
     with_routes s (snd (replaceMatchIds sid mid ide gen ids (sys_routes s)))"
| "route_step s (Prepare sid mid ide gen sources un) =
     (case prepareRulesSources sid mid ide gen sources un (sys_routes s) of
        None \<Rightarrow> s | Some p \<Rightarrow> s\<lparr>sys_preps := sys_preps s @ [p]\<rparr>)"
| "route_step s (CommitPreparation i) =
     (if i < length (sys_preps s)
      then (with_routes s (snd (commit_preparation (sys_preps s ! i) (sys_routes s))))
        \<lparr>sys_preps := settle_at i settle_preparation (sys_preps s)\<rparr>
      else s)"
| "route_step s (RollbackPreparation i) = s\<lparr>sys_preps := settle_at i settle_preparation (sys_preps s)\<rparr>"
| "route_step s (AuthorizeOpen sid mid c gen openId) =
     with_routes s (snd (authorizeRulesOpen sid mid c gen openId (sys_routes s)))"
| "route_step s (RemoveRoute sid mid) = with_outcome s (remove_route sid mid (sys_routes s))"
| "route_step s (RemoveClient c) = with_outcome s (removeClient c (sys_routes s))"
| "route_step s ClearRoutes = with_routes s (clear_routes (sys_routes s))"

definition new_system :: "nat \<Rightarrow> route_system" where
  "new_system m = \<lparr>sys_routes = \<lparr>max_routes = Suc m, session_routes = [], by_client = [], by_ide = [],
     revision = 0, next_oid = 0\<rparr>, sys_regs = [], sys_preps = [], sys_threw = False\<rparr>"

text \<open>Handed-out values are never newer than the registry; one of the current revision is what
  the registry would hand out now.\<close>

definition pending_ok :: "reply_routes \<Rightarrow> registration list \<Rightarrow> rules_preparation list \<Rightarrow> bool" where
  "pending_ok rs gs ps \<longleftrightarrow>
     (\<forall>g\<in>set gs. rg_expectedRevision g \<le> revision rs \<and>
        (\<not> rg_settled g \<longrightarrow> rg_expectedRevision g = revision rs \<longrightarrow> registers rs g)) \<and>
     (\<forall>p\<in>set ps. rp_expectedRevision p \<le> revision rs \<and>
        (\<not> rp_settled p \<longrightarrow> rp_expectedRevision p = revision rs \<longrightarrow> prepares rs p))"

definition system_inv :: "route_system \<Rightarrow> bool" where
  "system_inv s \<longleftrightarrow> \<not> sys_threw s \<and> routes_inv (sys_routes s) \<and>
     pending_ok (sys_routes s) (sys_regs s) (sys_preps s)"

lemma pending_ok_evolves:
  assumes "pending_ok rs gs ps" and "evolves rs rs'" shows "pending_ok rs' gs ps"
proof -
  consider "rs' = rs" | "revision rs < revision rs'" using assms(2) by (auto simp: evolves_def)
  then show ?thesis
  proof cases
    case 2
    have older: "n \<noteq> revision rs'" "n \<le> revision rs'" if "n \<le> revision rs" for n using 2 that by simp_all
    with assms(1) show ?thesis unfolding pending_ok_def by blast
  qed (use assms(1) in simp)
qed

lemma set_settle_at: "x \<in> set (settle_at i f xs) \<Longrightarrow> x \<in> set xs \<or> (\<exists>y\<in>set xs. x = f y)"
  by (auto simp: settle_at_def set_conv_nth nth_list_update split: if_splits)

lemma pending_ok_settle:
  assumes "pending_ok rs gs ps"
  shows "pending_ok rs (settle_at i settle_registration gs) ps"
    "pending_ok rs gs (settle_at i settle_preparation ps)"
  using assms unfolding pending_ok_def
  by (auto dest!: set_settle_at simp: settle_registration_def settle_preparation_def)

lemma system_inv_with:
  assumes "system_inv s" and "routes_inv rs'" and "evolves (sys_routes s) rs'"
  shows "system_inv (with_routes s rs')"
  using assms pending_ok_evolves by (auto simp: system_inv_def with_routes_def)

lemma system_inv_outcome:
  assumes "system_inv s" and "sound (sys_routes s) out"
  shows "system_inv (with_outcome s out)"
  using assms pending_ok_evolves by (auto simp: system_inv_def with_outcome_def sound_def)

lemma system_inv_settle:
  "system_inv s \<Longrightarrow> system_inv (s\<lparr>sys_regs := settle_at i settle_registration (sys_regs s)\<rparr>)"
  "system_inv s \<Longrightarrow> system_inv (s\<lparr>sys_preps := settle_at i settle_preparation (sys_preps s)\<rparr>)"
  by (simp_all add: system_inv_def pending_ok_settle)

lemma commit_registration_sound:
  "system_inv s \<Longrightarrow> i < length (sys_regs s) \<Longrightarrow>
   sound (sys_routes s) (commit_registration (sys_regs s ! i) (sys_routes s))"
  by (rule sound_commit_registration) (auto simp: system_inv_def pending_ok_def)

lemma commit_preparation_sound:
  "system_inv s \<Longrightarrow> i < length (sys_preps s) \<Longrightarrow>
   routes_inv (snd (commit_preparation (sys_preps s ! i) (sys_routes s))) \<and>
   evolves (sys_routes s) (snd (commit_preparation (sys_preps s ! i) (sys_routes s)))"
  by (rule commit_preparation_fresh) (auto simp: system_inv_def pending_ok_def)

lemmas routes_inv_ops = routes_inv_resolve routes_inv_claimResolution
  routes_inv_claimSourceInvalidation routes_inv_replaceMatchIds routes_inv_authorizeRulesOpen
  routes_inv_clear

lemmas evolves_ops = evolves_resolve evolves_claimAuthority evolves_claimSourceInvalidation
  evolves_replaceMatchIds evolves_authorizeRulesOpen evolves_clear

lemma system_step:
  assumes inv: "system_inv s"
  shows "system_inv (route_step s e) \<and> evolves (sys_routes s) (sys_routes (route_step s e))"
proof -
  have rs: "routes_inv (sys_routes s)" using inv by (simp add: system_inv_def)
  note ops = routes_inv_ops [OF rs] evolves_ops [of "sys_routes s"]
  show ?thesis
  proof (cases e)
    case (Register sid mid c refs)
    have "registers (sys_routes s) (register sid mid c refs (sys_routes s))"
      by (auto simp: registers_def)
    moreover have "rg_expectedRevision (register sid mid c refs (sys_routes s)) = revision (sys_routes s)"
      by (simp add: register_def createDeferredRegistration_def createSettledRegistration_def Let_def
          split: option.split)
    ultimately show ?thesis using inv
      by (auto simp: Register system_inv_def pending_ok_def evolving.R_refl)
  next
    case (CommitRegistration i)
    show ?thesis
    proof (cases "i < length (sys_regs s)")
      case True
      note snd = commit_registration_sound [OF inv True]
      from system_inv_settle(1) [OF system_inv_outcome [OF inv snd]] snd True show ?thesis
        by (simp add: CommitRegistration with_outcome_def sound_def)
    qed (simp add: CommitRegistration inv evolving.R_refl)
  next
    case (CommitPreparation i)
    show ?thesis
    proof (cases "i < length (sys_preps s)")
      case True
      note snd = commit_preparation_sound [OF inv True]
      from system_inv_settle(2) [OF system_inv_with [OF inv conjunct1 [OF snd] conjunct2 [OF snd]]] snd True
      show ?thesis by (simp add: CommitPreparation with_routes_def)
    qed (simp add: CommitPreparation inv evolving.R_refl)
  next
    case (Prepare sid mid ide gen sources un)
    show ?thesis
    proof (cases "prepareRulesSources sid mid ide gen sources un (sys_routes s)")
      case (Some p)
      then have "prepares (sys_routes s) p" unfolding prepares_def by blast
      moreover have "rp_expectedRevision p = revision (sys_routes s)"
        using Some by (elim prepareRulesSources_SomeD) (metis rules_preparation.select_convs(6))
      ultimately show ?thesis using inv Some
        by (auto simp: Prepare system_inv_def pending_ok_def evolving.R_refl)
    qed (simp add: Prepare inv evolving.R_refl)
  next
    case (RemoveRoute sid mid)
    have "evolves (sys_routes s) (sys_routes (route_step s e))"
      using sound_remove_route [OF rs, of sid mid] by (simp add: RemoveRoute with_outcome_def sound_def)
    then show ?thesis using system_inv_outcome [OF inv sound_remove_route [OF rs]] by (simp add: RemoveRoute)
  next
    case (RemoveClient c)
    have "evolves (sys_routes s) (sys_routes (route_step s e))"
      using sound_removeClient [OF rs, of c] by (simp add: RemoveClient with_outcome_def sound_def)
    then show ?thesis using system_inv_outcome [OF inv sound_removeClient [OF rs]] by (simp add: RemoveClient)
  qed (use ops system_inv_with [OF inv] system_inv_settle [OF inv] evolves_claimAuthority in
      \<open>auto simp: claimResolution_def with_routes_def evolving.R_refl\<close>)
qed

lemma system_inv_new: "system_inv (new_system m)"
  unfolding system_inv_def by (auto simp: new_system_def pending_ok_def intro: routes_inv_empty)

interpretation route_sys: machine route_step "new_system m" system_inv for m
  by unfold_locales (simp_all add: system_inv_new system_step)

lemma run_evolves:
  "system_inv s \<Longrightarrow> evolves (sys_routes s) (sys_routes (foldl route_step s es))"
proof (induction es arbitrary: s)
  case (Cons e es)
  then show ?case using system_step [OF Cons.prems, of e] by (auto intro: evolving.R_trans)
qed (simp add: evolving.R_refl)

subsection \<open>Accounting for rules\<close>

definition accounts :: "jstring list \<Rightarrow> (jstring \<times> jstring) list \<Rightarrow> int \<Rightarrow> bool" where
  "accounts expected sources unresolved \<longleftrightarrow> 0 \<le> unresolved \<and>
     distinct (map fst sources) \<and> set (map fst sources) \<subseteq> set expected \<and>
     distinct (map snd sources) \<and> [] \<notin> set (map snd sources) \<and>
     int (length sources) + unresolved = int (length expected)"

lemma collect_sources_iff:
  "distinct pub \<Longrightarrow> distinct ids \<Longrightarrow>
   collect_sources expected pub ids n sources = Some (ids', m) \<longleftrightarrow>
     set (map fst sources) \<subseteq> set expected \<and> distinct (pub @ map fst sources) \<and>
     [] \<notin> set (map snd sources) \<and> distinct (ids @ map snd sources) \<and>
     ids' = ids @ map snd sources \<and> m = n + length sources"
proof (induction expected pub ids n sources arbitrary: ids' m rule: collect_sources.induct)
  case (2 expected pub ids n ref openId rest)
  show ?case
  proof (cases "ref \<notin> set expected \<or> ref \<in> set pub \<or> length openId = 0 \<or> openId \<in> set ids")
    case True
    then show ?thesis by auto
  next
    case False
    then have add: "set_add ref pub = pub @ [ref]" "set_add openId ids = ids @ [openId]"
      by (simp_all add: set_add_def)
    from "2.IH" [OF False] "2.prems" False show ?thesis by (auto simp: add)
  qed
qed auto

lemma collect_sources_None:
  "collect_sources expected [] [] 0 sources = None \<longleftrightarrow>
     \<not> (set (map fst sources) \<subseteq> set expected \<and> distinct (map fst sources) \<and>
        [] \<notin> set (map snd sources) \<and> distinct (map snd sources))"
proof (cases "collect_sources expected [] [] 0 sources")
  case None
  then show ?thesis
    using collect_sources_iff [of "[]" "[]" expected 0 sources "map snd sources" "length sources"] by simp
next
  case (Some x)
  then show ?thesis using collect_sources_iff [of "[]" "[]" expected 0 sources "fst x" "snd x"] by simp
qed

lemma collect_sources_eq:
  "collect_sources expected [] [] 0 sources =
     (if set (map fst sources) \<subseteq> set expected \<and> distinct (map fst sources) \<and>
         [] \<notin> set (map snd sources) \<and> distinct (map snd sources)
      then Some (map snd sources, length sources) else None)"
  using collect_sources_iff [of "[]" "[]" expected 0 sources "map snd sources" "length sources"]
    collect_sources_None [of expected sources] by auto

subsection \<open>Example registries\<close>

text \<open>A registry with a limit of one route per client, empty and with one route.\<close>

definition example_empty :: reply_routes where
  "example_empty = sys_routes (new_system 0)"

definition example_one :: reply_routes where
  "example_one = insert_route (js ''s'') (js ''m'') (js ''c'') [js ''r''] example_empty"

lemma example_empty_inv: "routes_inv example_empty"
  using system_inv_new [of 0] by (simp add: example_empty_def system_inv_def)

lemma find_example_empty [simp]: "find_route example_empty sid mid = None"
  by (simp add: example_empty_def new_system_def find_route_def)

lemma example_one_inv: "routes_inv example_one"
  unfolding example_one_def by (rule routes_inv_insert [OF example_empty_inv find_example_empty])
    (simp add: example_empty_def new_system_def index_members_def)

lemma find_example_one [simp]:
  "find_route example_one sid mid = (if sid = js ''s'' \<and> mid = js ''m''
     then Some (new_route (js ''c'') [js ''r''] example_empty) else None)"
proof -
  have "route_at example_one (routeKey sid mid) = (if sid = js ''s'' \<and> mid = js ''m''
     then Some (new_route (js ''c'') [js ''r''] example_empty) else None)"
    unfolding example_one_def route_at_insert by simp
  then show ?thesis by simp
qed

lemma ckeys_example_one: "ckeys example_one (js ''c'') = [routeKey (js ''s'') (js ''m'')]"
  by (simp add: example_one_def insert_route_eq index_link_def example_empty_def new_system_def
      index_members_def set_add_def)

subsection \<open>Properties\<close>

text \<open>Along every run, a stored route keeps its origin, its expected rules and, once it has
  one, its owning IDE; its resolution and rules generations never go back, and the authorities
  it grants change only with its rules generation.\<close>

theorem route_progress:
  assumes "s = foldl route_step (new_system m) es" and "s' = foldl route_step s es'"
    and "find_route (sys_routes s') sid mid = Some r'" and "rt_oid r' < next_oid (sys_routes s)"
  shows "\<exists>r. find_route (sys_routes s) sid mid = Some r \<and> rt_origin r' = rt_origin r \<and>
    rt_expected r' = rt_expected r \<and> rt_ide r' \<in> {rt_ide r} \<union> (if rt_ide r = None then UNIV else {}) \<and>
    rt_resGen r \<le> rt_resGen r' \<and> rt_rulesGen r \<le> rt_rulesGen r' \<and>
    (rt_rulesGen r < rt_rulesGen r' \<or> rt_openIds r' = rt_openIds r)"
proof -
  have "system_inv s" unfolding assms(1) by (rule route_sys.inv_run)
  then have "evolves (sys_routes s) (sys_routes s')" unfolding assms(2) by (rule run_evolves)
  from evolvesD [OF this, of "routeKey sid mid" r'] assms(3,4) show ?thesis
    by (auto simp: progress_def)
qed

theorem route_progress_witness:
  "let s = foldl route_step (new_system 0) [Register (js ''s'') (js ''m'') (js ''c'') [], CommitRegistration 0];
       s' = foldl route_step s [ClaimResolution (js ''s'') (js ''m'') (js ''i'') 3]
   in \<exists>r r'. find_route (sys_routes s) (js ''s'') (js ''m'') = Some r \<and>
        find_route (sys_routes s') (js ''s'') (js ''m'') = Some r' \<and>
        rt_origin r' = rt_origin r \<and> rt_resGen r \<le> rt_resGen r'"
proof -
  let ?s = "foldl route_step (new_system 0) [Register (js ''s'') (js ''m'') (js ''c'') [], CommitRegistration 0]"
  let ?s' = "foldl route_step ?s [ClaimResolution (js ''s'') (js ''m'') (js ''i'') 3]"
  have s: "sys_routes ?s = insert_route (js ''s'') (js ''m'') (js ''c'') [] example_empty"
    by (simp add: with_outcome_def commit_registration_def register_def new_system_def find_route_def
        createDeferredRegistration_def set_of_def example_empty_def Let_def)
  have f: "find_route (sys_routes ?s) (js ''s'') (js ''m'') = Some (new_route (js ''c'') [] example_empty)"
    unfolding s insert_route_eq by (simp add: find_route_put new_route_def)
  have s': "sys_routes ?s' = snd (claimAuthority (js ''s'') (js ''m'') (js ''i'') 3 True (sys_routes ?s))"
    by (simp add: with_routes_def claimResolution_def)
  have f': "find_route (sys_routes ?s') (js ''s'') (js ''m'') =
      Some (claimed_route (js ''i'') 3 True (new_route (js ''c'') [] example_empty))"
    unfolding s' claimAuthority_eq f
    by (simp add: claim_allowed_def new_route_def find_route_put)
  show ?thesis
    using route_progress [OF refl refl f'] f f'
    by (simp add: s insert_route_eq claimed_route_def new_route_def Let_def)
qed

text \<open>Which generations the registry takes.\<close>

lemma generation_of_claim:
  assumes "find_route (sys_routes s) sid mid = Some r"
  shows "find_route (sys_routes (route_step s (ClaimResolution sid mid ide gen))) sid mid = Some
    (if (rt_ide r = None \<or> rt_ide r = Some ide) \<and> (\<forall>g. rt_resGen r = Some g \<longrightarrow> g \<le> gen)
     then r\<lparr>rt_ide := Some ide, rt_resGen := Some gen, rt_matchIds := [], rt_claimed := True\<rparr> else r)"
proof -
  have f: "find_route (touchClientRoute c sid mid (put_route sid mid x rs)) sid mid = Some x" for c x rs
    using find_route_put [of sid mid x rs sid mid] by (simp add: find_route_def touchClientRoute_eq)
  show ?thesis
    by (cases "rt_resGen r") (auto simp: with_routes_def claimResolution_def claimAuthority_eq assms claim_allowed_def f claimed_route_def find_route_put)
qed

lemma generation_of_commit:
  assumes inv: "system_inv s" and r: "find_route (sys_routes s) sid mid = Some r"
    and r': "find_route (sys_routes (route_step s (CommitPreparation i))) sid mid = Some r'" and new: "r' \<noteq> r"
  shows "i < length (sys_preps s) \<and> rt_rulesGen r' = Some (rp_rulesGeneration (sys_preps s ! i)) \<and>
    rt_openIds r' = rp_authorityIds (sys_preps s ! i) \<and>
    (rt_rulesGen r = None \<longrightarrow> rp_rulesGeneration (sys_preps s ! i) = 1) \<and>
    (\<forall>g. rt_rulesGen r = Some g \<longrightarrow> g < rp_rulesGeneration (sys_preps s ! i))"
proof -
  let ?p = "sys_preps s ! i" and ?rs = "sys_routes s"
  have i: "i < length (sys_preps s)" using r r' new by (cases "i < length (sys_preps s)") auto
  then have c: "find_route (snd (commit_preparation ?p ?rs)) sid mid = Some r'" using r' by (simp add: with_routes_def)
  have f: "find_route (touchClientRoute c a b (put_route a b x rs)) = find_route (put_route a b x rs)" for c a b x rs
    by (rule find_route_cong) (simp add: touchClientRoute_eq)
  have own: "find_route (own_route a b x ide rs) = find_route rs" for a b x ide rs
    by (rule find_route_cong) (simp add: own_route_def add_ide_route_eq)
  obtain q where q: "find_route ?rs (rp_sessionId ?p) (rp_inspectMessageId ?p) = Some q"
      "\<not> rp_settled ?p" "revision ?rs = rp_expectedRevision ?p"
      "find_route (put_route (rp_sessionId ?p) (rp_inspectMessageId ?p) (published_route ?p q) ?rs) sid mid = Some r'"
    using c r new by (auto simp: commit_preparation_eq f find_route_put own split: option.splits if_splits)
  then have same: "sid = rp_sessionId ?p" "mid = rp_inspectMessageId ?p" "r' = published_route ?p q" "q = r"
    using r new by (auto simp: find_route_put split: if_splits)
  have "prepares ?rs ?p" using inv i q(2,3) by (simp add: system_inv_def pending_ok_def)
  then have "next_rules_generation (rt_rulesGen r) (rp_rulesGeneration ?p)"
    unfolding prepares_def using q(1) same(4)
    by (elim exE, elim prepareRulesSources_SomeD) (metis option.inject rules_preparation.select_convs)
  then show ?thesis using i same(3,4)
    by (auto simp: published_route_def next_rules_generation_def split: option.splits)
qed

text \<open>C7: whatever is registered, claimed, published, committed, rolled back or removed, in any
  order and with any number of pending registrations, the registry never throws, no client holds
  more routes than the limit, and the two indexes list exactly the stored routes, by origin and
  by owning IDE. Generations are consistent: a claim of a resolution takes effect exactly for the owning IDE (or
  the first) and a generation not below the one stored, which it replaces, with no published
  matches; a commit of rule sources changes a route only to the generation that was prepared,
  the first or a later one than the one stored, and to the authorities prepared with it; and
  whatever follows, a route that is still stored keeps its origin, its expected rules and its owning
  IDE, its generations never go back, and its authorities change only with its rules generation.\<close>

theorem registry_consistent:
  "let s = foldl route_step (new_system m) es; rs = sys_routes s
   in \<not> sys_threw s \<and> length (ckeys rs c) \<le> max_routes rs \<and> max_routes rs = Suc m \<and>
      (key \<in> set (ckeys rs c) \<longleftrightarrow> map_option rt_origin (route_at rs key) = Some c) \<and>
      (key \<in> set (ikeys rs c) \<longleftrightarrow> Option.bind (route_at rs key) rt_ide = Some c) \<and>
      (\<forall>sid mid r. find_route rs sid mid = Some r \<longrightarrow>
        (\<forall>ide gen. find_route (sys_routes (route_step s (ClaimResolution sid mid ide gen))) sid mid = Some
          (if (rt_ide r = None \<or> rt_ide r = Some ide) \<and> (\<forall>g. rt_resGen r = Some g \<longrightarrow> g \<le> gen)
           then r\<lparr>rt_ide := Some ide, rt_resGen := Some gen, rt_matchIds := [], rt_claimed := True\<rparr> else r)) \<and>
        (\<forall>i r'. find_route (sys_routes (route_step s (CommitPreparation i))) sid mid = Some r' \<and> r' \<noteq> r \<longrightarrow>
          i < length (sys_preps s) \<and> rt_rulesGen r' = Some (rp_rulesGeneration (sys_preps s ! i)) \<and>
          rt_openIds r' = rp_authorityIds (sys_preps s ! i) \<and>
          (rt_rulesGen r = None \<longrightarrow> rp_rulesGeneration (sys_preps s ! i) = 1) \<and>
          (\<forall>g. rt_rulesGen r = Some g \<longrightarrow> g < rp_rulesGeneration (sys_preps s ! i)))) \<and>
      (\<forall>es' sid mid r'. find_route (sys_routes (foldl route_step s es')) sid mid = Some r' \<and> rt_oid r' < next_oid rs \<longrightarrow>
        (\<exists>r. find_route rs sid mid = Some r \<and> rt_origin r' = rt_origin r \<and> rt_expected r' = rt_expected r \<and>
          rt_ide r' \<in> {rt_ide r} \<union> (if rt_ide r = None then UNIV else {}) \<and>
          rt_resGen r \<le> rt_resGen r' \<and> rt_rulesGen r \<le> rt_rulesGen r' \<and>
          (rt_rulesGen r < rt_rulesGen r' \<or> rt_openIds r' = rt_openIds r)))"
proof -
  define s where "s = foldl route_step (new_system m) es"
  have inv: "system_inv s" unfolding s_def by (rule route_sys.inv_run)
  have "evolves (sys_routes (new_system m)) (sys_routes s)" unfolding s_def by (rule run_evolves [OF system_inv_new])
  then have base: "\<not> sys_threw s \<and> length (ckeys (sys_routes s) c) \<le> max_routes (sys_routes s) \<and> max_routes (sys_routes s) = Suc m \<and>
      (key \<in> set (ckeys (sys_routes s) c) \<longleftrightarrow> map_option rt_origin (route_at (sys_routes s) key) = Some c) \<and>
      (key \<in> set (ikeys (sys_routes s) c) \<longleftrightarrow> Option.bind (route_at (sys_routes s) key) rt_ide = Some c)"
    using inv by (simp add: system_inv_def routes_inv_def indexes_def client_owner_def ide_owner_def
        evolves_def new_system_def Let_def)
  note later = route_progress [OF s_def refl]
  show ?thesis unfolding s_def [symmetric] Let_def
    by (intro conjI allI impI base [THEN conjunct1] base [THEN conjunct2, THEN conjunct1]
        base [THEN conjunct2, THEN conjunct2, THEN conjunct1]
        base [THEN conjunct2, THEN conjunct2, THEN conjunct2, THEN conjunct1]
        base [THEN conjunct2, THEN conjunct2, THEN conjunct2, THEN conjunct2] generation_of_claim later)
      (use generation_of_commit [OF inv] in blast)+
qed

text \<open>The IDE that claims the route of a registered message first owns it from then on.\<close>

theorem registry_consistent_witness:
  "\<exists>r. find_route (sys_routes (foldl route_step (new_system 0)
        [Register (js ''s'') (js ''m'') (js ''c'') [], CommitRegistration 0, ClaimResolution (js ''s'') (js ''m'') (js ''i'') 3]))
      (js ''s'') (js ''m'') = Some r \<and> rt_origin r = js ''c'' \<and> rt_ide r = Some (js ''i'') \<and> rt_resGen r = Some 3"
proof -
  let ?es = "[Register (js ''s'') (js ''m'') (js ''c'') [], CommitRegistration 0]"
  let ?s = "foldl route_step (new_system 0) ?es" and ?r = "new_route (js ''c'') [] example_empty"
  have s: "sys_routes ?s = insert_route (js ''s'') (js ''m'') (js ''c'') [] example_empty"
    by (simp add: with_outcome_def commit_registration_def register_def new_system_def find_route_def
        createDeferredRegistration_def set_of_def example_empty_def Let_def)
  have f: "find_route (sys_routes ?s) (js ''s'') (js ''m'') = Some ?r"
    unfolding s insert_route_eq by (simp add: find_route_put new_route_def)
  have r: "rt_ide ?r = None" "rt_resGen ?r = None" "rt_origin ?r = js ''c''" by (simp_all add: new_route_def)
  have a: "foldl route_step (new_system 0) (?es @ [ClaimResolution (js ''s'') (js ''m'') (js ''i'') 3]) =
      route_step ?s (ClaimResolution (js ''s'') (js ''m'') (js ''i'') 3)" by simp
  have "find_route (sys_routes (route_step ?s (ClaimResolution (js ''s'') (js ''m'') (js ''i'') 3))) (js ''s'') (js ''m'') =
      Some (?r\<lparr>rt_ide := Some (js ''i''), rt_resGen := Some 3, rt_matchIds := [], rt_claimed := True\<rparr>)"
    using registry_consistent [of 0 ?es, unfolded Let_def, THEN conjunct2, THEN conjunct2, THEN conjunct2, THEN conjunct2,
        THEN conjunct2, THEN conjunct1, rule_format, OF f] r by simp
  then show ?thesis using r(3) unfolding a [symmetric, unfolded append.simps] by simp
qed

text \<open>
  a deferred registration commits only against the registry it was made for: once
  anything has changed, committing it does nothing and answers false.\<close>

theorem stale_registration_refused:
  assumes "s = foldl route_step (new_system m) es" and "s' = foldl route_step s es'"
    and "sys_routes s' \<noteq> sys_routes s" and "g = register sid mid c refs (sys_routes s)"
  shows "commit_registration g (sys_routes s') = (Inr False, sys_routes s')"
proof -
  have "system_inv s" unfolding assms(1) by (rule route_sys.inv_run)
  then have "evolves (sys_routes s) (sys_routes s')" unfolding assms(2) by (rule run_evolves)
  with assms(3) have "revision (sys_routes s) < revision (sys_routes s')" by (auto simp: evolves_def)
  moreover have "rg_expectedRevision g = revision (sys_routes s)"
    by (simp add: assms(4) register_def createDeferredRegistration_def createSettledRegistration_def
        Let_def split: option.split)
  ultimately show ?thesis by (simp add: commit_registration_def)
qed

theorem stale_registration_refused_witness:
  "commit_registration (register (js ''s'') (js ''m'') (js ''c'') [] (sys_routes (new_system 0)))
     (sys_routes (route_step (new_system 0) ClearRoutes)) =
   (Inr False, sys_routes (route_step (new_system 0) ClearRoutes))"
proof -
  let ?s = "new_system 0"
  have "sys_routes (foldl route_step ?s [ClearRoutes]) \<noteq> sys_routes ?s"
    by (simp add: with_routes_def clear_routes_def markMutated_def new_system_def)
  from stale_registration_refused [OF _ refl this refl, of 0 "[]"] show ?thesis by simp
qed

text \<open>
  committing a registration for a new message stores a fresh route for its sender, after
  removing the sender's oldest route if the sender is at its limit, and touches no other route.\<close>

theorem commit_creates_route:
  assumes inv: "routes_inv rs" and none: "find_route rs sid mid = None"
  shows "\<exists>rs'. commit_registration (register sid mid c refs rs) rs = (Inr True, rs') \<and>
    (\<exists>r. route_at rs' = (if length (ckeys rs c) < max_routes rs then route_at rs
         else (route_at rs)(hd (ckeys rs c) := None))(routeKey sid mid := Some r) \<and>
       rt_origin r = c \<and> set (rt_expected r) = set refs \<and> rt_ide r = None \<and> rt_openIds r = [])"
proof -
  define ev where "ev = (if length (ckeys rs c) \<ge> max_routes rs then Some (hd (ckeys rs c)) else None)"
  have "(case jget (by_client rs) c of Some (k # _) \<Rightarrow> Some k | _ \<Rightarrow> None) = Some (hd (ckeys rs c))"
    if "max_routes rs \<le> length (ckeys rs c)"
    using that inv by (auto simp: index_members_def routes_inv_def split: option.splits list.splits)
  then have commit: "commit_registration (register sid mid c refs rs) rs =
      apply_registration (ApplyCreate sid mid c (set_of refs) ev) rs"
    using none by (auto simp: register_def createDeferredRegistration_def commit_registration_def
        ev_def index_members_def Let_def split: option.splits)
  show ?thesis
  proof (cases "length (ckeys rs c) < max_routes rs")
    case True
    then show ?thesis using none
      by (auto simp: commit ev_def route_at_insert new_route_def intro!: exI [of _ "new_route c (set_of refs) rs"])
  next
    case False
    then have "hd (ckeys rs c) \<in> set (ckeys rs c)"
      using inv by (cases "ckeys rs c") (simp_all add: routes_inv_def)
    then obtain r where "route_at rs (hd (ckeys rs c)) = Some r"
      using inv by (auto simp: routes_inv_def indexes_def client_owner_def)
    from removeByKey_at [OF inv this] obtain rs1 where
      rs1: "removeByKey (hd (ckeys rs c)) rs = (Inr (), rs1)"
      "route_at rs1 = (route_at rs)(hd (ckeys rs c) := None)" by blast
    show ?thesis using False none
      by (auto simp: commit ev_def bindE_def rs1 route_at_insert new_route_def
          intro!: exI [of _ "new_route c (set_of refs) rs1"])
  qed
qed

theorem commit_creates_route_witness:
  "\<exists>rs'. commit_registration (register (js ''s'') (js ''n'') (js ''c'') [] example_one) example_one =
     (Inr True, rs') \<and> route_at rs' (routeKey (js ''s'') (js ''m'')) = None \<and>
     route_at rs' (routeKey (js ''s'') (js ''n'')) \<noteq> None"
proof -
  have "find_route example_one (js ''s'') (js ''n'') = None" by simp
  moreover have "\<not> length (ckeys example_one (js ''c'')) < max_routes example_one"
    by (simp add: ckeys_example_one) (simp add: example_one_def insert_route_eq example_empty_def new_system_def)
  ultimately show ?thesis
    using commit_creates_route [OF example_one_inv, of "js ''s''" "js ''n''" "js ''c''" "[]"]
    by (auto simp: ckeys_example_one simp del: route_at_key)
qed

text \<open>
  rules sources are accepted for publication exactly when the route exists and is unowned
  or owned by the publishing IDE, the generation is the first (1) or newer than the last, and the
  sources name distinct expected rules with distinct authority ids and, with the unresolved
  count, account for every expected rule.\<close>

theorem rules_sources_accepted_iff:
  "prepareRulesSources sid mid ide gen sources un rs \<noteq> None \<longleftrightarrow>
     (\<exists>route g u. find_route rs sid mid = Some route \<and> gen = JInt g \<and> un = JInt u \<and>
        (rt_ide route = None \<or> rt_ide route = Some ide) \<and>
        g \<in> (case rt_rulesGen route of None \<Rightarrow> {1} | Some g0 \<Rightarrow> {g0<..}) \<and>
        accounts (rt_expected route) sources u)"
  by (cases "find_route rs sid mid"; cases gen; cases un)
    (auto simp: prepareRulesSources_def next_rules_generation_def collect_sources_eq accounts_def
      split: option.splits)

text \<open>
  after an IDE's rules sources are committed, the browser that sent the inspect message,
  and no other connection, may open exactly the authority ids of those sources, and only with
  their generation.\<close>

theorem committed_authorities:
  assumes "prepareRulesSources sid mid ide (JInt gen) sources un rs = Some p"
    and "commit_preparation p rs = (True, rs')"
  shows "fst (authorizeRulesOpen sid mid c gen' openId rs') \<noteq> None \<longleftrightarrow>
    peek sid mid rs = Some c \<and> gen' = gen \<and> openId \<in> snd ` set sources"
proof -
  obtain r where r: "find_route rs sid mid = Some r" using assms(1)
    by (elim prepareRulesSources_SomeD) auto
  have p: "rp_sessionId p = sid" "rp_inspectMessageId p = mid" "rp_ide p = ide"
    "rp_rulesGeneration p = gen" "rp_authorityIds p = map snd sources"
    using assms(1) r by (auto simp: prepareRulesSources_def collect_sources_eq
        split: jsnum.splits if_splits)
  have "find_route rs' sid mid = Some (published_route p r)"
    using assms(2) r p
    by (auto simp: commit_preparation_eq touchClientRoute_eq find_route_put split: if_splits
        intro: trans [OF fun_cong [OF fun_cong [OF find_route_cong]]])
  then show ?thesis using r
    by (auto simp: authorizeRulesOpen_def published_route_def p peek_def)
qed

theorem committed_authorities_witness:
  "\<exists>p rs'. prepareRulesSources (js ''s'') (js ''m'') (js ''i'') (JInt 1) [(js ''r'', js ''a'')] (JInt 0)
      example_one = Some p \<and> commit_preparation p example_one = (True, rs') \<and>
    fst (authorizeRulesOpen (js ''s'') (js ''m'') (js ''c'') 1 (js ''a'') rs') \<noteq> None \<and>
    fst (authorizeRulesOpen (js ''s'') (js ''m'') (js ''d'') 1 (js ''a'') rs') = None"
proof -
  obtain p where p: "prepareRulesSources (js ''s'') (js ''m'') (js ''i'') (JInt 1) [(js ''r'', js ''a'')]
      (JInt 0) example_one = Some p"
    by (simp add: prepareRulesSources_def next_rules_generation_def new_route_def)
  then have "fst (commit_preparation p example_one)"
    by (auto simp: prepareRulesSources_def next_rules_generation_def new_route_def
        commit_preparation_eq split: if_splits)
  then obtain rs' where c: "commit_preparation p example_one = (True, rs')"
    by (cases "commit_preparation p example_one") auto
  have "peek (js ''s'') (js ''m'') example_one = Some (js ''c'')"
    by (simp add: peek_def new_route_def)
  then show ?thesis using p c
      committed_authorities [OF p c, of "js ''c''" 1 "js ''a''"]
      committed_authorities [OF p c, of "js ''d''" 1 "js ''a''"] by auto
qed

text \<open>Removing a client removes the routes it started and the routes it owns, and no other
  route.\<close>

theorem removeClient_purges:
  assumes "routes_inv rs"
  shows "\<exists>rs'. removeClient c rs = (Inr (), rs') \<and> routes_inv rs' \<and>
    find_route rs' sid mid = (case find_route rs sid mid of
        None \<Rightarrow> None
      | Some r \<Rightarrow> if rt_origin r = c \<or> rt_ide r = Some c then None else Some r)"
proof -
  obtain rs' where rs': "removeClient c rs = (Inr (), rs')" "routes_inv rs'"
    "route_at rs' = (\<lambda>k. case route_at rs k of None \<Rightarrow> None
      | Some r \<Rightarrow> if involves c r then None else Some r)"
    using removeClient_effect [OF assms] by blast
  have "find_route rs' sid mid = route_at rs' (routeKey sid mid)" by simp
  then have "find_route rs' sid mid = (case find_route rs sid mid of None \<Rightarrow> None
      | Some r \<Rightarrow> if rt_origin r = c \<or> rt_ide r = Some c then None else Some r)"
    unfolding rs'(3) by (simp add: involves_def split: option.split)
  then show ?thesis using rs'(1,2) by blast
qed

theorem removeClient_purges_witness:
  "\<exists>rs'. removeClient (js ''c'') example_one = (Inr (), rs') \<and>
     find_route rs' (js ''s'') (js ''m'') = None"
  using removeClient_purges [OF example_one_inv, of "js ''c''" "js ''s''" "js ''m''"]
  by (auto simp: new_route_def)

end
