(* ===== verification/Bridge_Router.thy ===== *)
theory Bridge_Router
  imports Bridge_Clients Bridge_Auth Route_System
begin

text \<open>
  \<^verbatim>\<open>packages/bridge/src/router.ts\<close>: what the bridge does with a message of an authenticated
  client, one definition per case of \<^verbatim>\<open>routeMessage\<close>. The state is the client registry, the reply
  routes and the wire. \<open>sendMessage\<close> throws where the schema rejects the message. A rolled back
  registration or preparation is not used again, so \<^verbatim>\<open>rollback()\<close> leaves no trace in the state.
\<close>

subsection \<open>State\<close>

record bridge =
  br_registry :: client_registry
  br_routes :: reply_routes
  br_net :: net

text \<open>What the bridge's handlers may throw; the router only the first two.\<close>

datatype bridge_error = RouteFailure route_error | SchemaRejected | AuthFailure auth_error
  | PeerFailure peer_error

type_synonym ('z, 'a) bridge_eff = "('z bridge_scheme, bridge_error, 'a) eff"

definition on_routes :: "(reply_routes, route_error, 'a) eff \<Rightarrow> ('z, 'a) bridge_eff" where
  "on_routes f b = (case f (br_routes b) of
     (Inl e, rs) \<Rightarrow> (Inl (RouteFailure e), b\<lparr>br_routes := rs\<rparr>)
   | (Inr x, rs) \<Rightarrow> (Inr x, b\<lparr>br_routes := rs\<rparr>))"

definition routes_do :: "(reply_routes \<Rightarrow> 'a \<times> reply_routes) \<Rightarrow> ('z, 'a) bridge_eff" where
  "routes_do f b = (case f (br_routes b) of (x, rs) \<Rightarrow> (Inr x, b\<lparr>br_routes := rs\<rparr>))"

definition fresh_uuid :: "bridge_env \<Rightarrow> ('z, jstring) bridge_eff" where
  "fresh_uuid env b = (case randomUUID env (br_net b) of (u, n) \<Rightarrow> (Inr u, b\<lparr>br_net := n\<rparr>))"

subsection \<open>Sending\<close>

definition sendMessage :: "bridge_env \<Rightarrow> registered_client \<Rightarrow> pin_op_message \<Rightarrow> ('z, bool) bridge_eff" where
  "sendMessage env client m b =
     (if \<not> message_ok (be_schema env) m then (Inl SchemaRejected, b)
      else (case sendConnectionSafely (guarded_send env) (cl_connection client) m (br_net b) of
          (ok, n) \<Rightarrow> (Inr ok, b\<lparr>br_net := n\<rparr>)))"

definition error_message_for :: "jstring \<Rightarrow> error_code \<Rightarrow> jstring \<Rightarrow> bool \<Rightarrow> pin_op_message" where
  "error_message_for mid code text fatal = ErrorMessage \<lparr>messageId = mid, metadata = [],
     err_code = code, err_message = text, err_details = Some [(js ''fatal'', JBool fatal)]\<rparr>"

definition sendError ::
  "bridge_env \<Rightarrow> registered_client \<Rightarrow> error_code \<Rightarrow> jstring \<Rightarrow> bool \<Rightarrow> ('z, bool) bridge_eff" where
  "sendError env client code text fatal =
     bindE (fresh_uuid env) (\<lambda>u. sendMessage env client (error_message_for u code text fatal))"

definition sendInvalid :: "bridge_env \<Rightarrow> registered_client \<Rightarrow> ('z, unit) bridge_eff" where
  "sendInvalid env sender =
     bindE (sendError env sender ProtocolInvalidMessage (js ''Message does not match protocol'') False)
       (\<lambda>_. ret ())"

definition sendNoBrowser :: "bridge_env \<Rightarrow> registered_client \<Rightarrow> ('z, unit) bridge_eff" where
  "sendNoBrowser env sender =
     bindE (sendError env sender BridgeNoBrowserClient
       (js ''No browser client is connected to this session'') False) (\<lambda>_. ret ())"

definition sendNoIde :: "bridge_env \<Rightarrow> registered_client \<Rightarrow> ('z, unit) bridge_eff" where
  "sendNoIde env sender =
     bindE (sendError env sender BridgeNoIdeClient
       (js ''No IDE client is connected to this session'') False) (\<lambda>_. ret ())"

fun sendToClients :: "bridge_env \<Rightarrow> registered_client list \<Rightarrow> pin_op_message \<Rightarrow> ('z, nat) bridge_eff" where
  "sendToClients env [] m = ret 0"
| "sendToClients env (c # cs) m =
     bindE (sendMessage env c m) (\<lambda>ok.
     bindE (sendToClients env cs m) (\<lambda>sent. ret (if ok then sent + 1 else sent)))"

text \<open>\<^verbatim>\<open>if (!sendMessage(recipient, message)) onFail()\<close>\<close>

definition send_or ::
  "bridge_env \<Rightarrow> registered_client \<Rightarrow> pin_op_message \<Rightarrow> ('z, unit) bridge_eff \<Rightarrow> ('z, unit) bridge_eff" where
  "send_or env recipient m onFail =
     bindE (sendMessage env recipient m) (\<lambda>ok. if ok then ret () else onFail)"

subsection \<open>Recipients\<close>

definition browser_side :: "registered_client \<Rightarrow> bool" where
  "browser_side c \<longleftrightarrow> role_of c = Browser \<or> role_of c = Simulator"

definition getOriginRecipient :: "client_registry \<Rightarrow> reply_route \<Rightarrow> registered_client option" where
  "getOriginRecipient reg route = (case registry_get reg (rr_origin route) of
     None \<Rightarrow> None
   | Some recipient \<Rightarrow>
       if cl_sessionId recipient \<noteq> rr_sessionId route \<or>
          role_of recipient \<noteq> Browser \<and> role_of recipient \<noteq> Simulator
       then None else Some recipient)"

definition getIdeRecipient :: "client_registry \<Rightarrow> reply_route \<Rightarrow> registered_client option" where
  "getIdeRecipient reg route = (case rr_ide route of
     None \<Rightarrow> None
   | Some ide \<Rightarrow> (case registry_get reg ide of
       None \<Rightarrow> None
     | Some recipient \<Rightarrow>
         if cl_sessionId recipient \<noteq> rr_sessionId route \<or> role_of recipient \<noteq> Ide
         then None else Some recipient))"

subsection \<open>The cases of routeMessage\<close>

definition route_inspect :: "bridge_env \<Rightarrow> registered_client \<Rightarrow> inspect_message \<Rightarrow> ('z, unit) bridge_eff" where
  "route_inspect env sender m b =
     (if role_of sender \<noteq> Browser \<and> role_of sender \<noteq> Simulator \<or>
         insp_sessionId m \<noteq> cl_sessionId sender \<or>
         src_role (insp_source m) \<noteq> role_of sender \<or>
         src_id (insp_source m) \<noteq> src_id (cl_source sender) \<or>
         \<not> supportsCapability sender CapInspect
      then sendInvalid env sender b
      else
        let registration = register (insp_sessionId m) (messageId m) (cl_id sender)
              (map ev_ruleRef (eb_rules (insp_ruleEvidence m))) (br_routes b)
        in if rg_status registration = Collision then sendInvalid env sender b
           else
             let resolutionClients = filter (\<lambda>c. supportsCapability c CapResolution)
                   (findBySessionAndRole (br_registry b) (insp_sessionId m) Ide)
             in bindE (sendToClients env resolutionClients (Inspect m)) (\<lambda>sent.
                  if sent = 0 then sendNoIde env sender
                  else bindE (on_routes (commit_registration registration)) (\<lambda>committed.
                    if committed then ret () else sendInvalid env sender)) b)"

definition route_resolution :: "bridge_env \<Rightarrow> registered_client \<Rightarrow> resolution_message \<Rightarrow> ('z, unit) bridge_eff" where
  "route_resolution env sender m b =
     (if role_of sender \<noteq> Ide \<or> res_sourceId m \<noteq> src_id (cl_source sender) \<or>
         \<not> supportsCapability sender CapResolution
      then sendInvalid env sender b
      else if sessionId m \<noteq> cl_sessionId sender then sendNoBrowser env sender b
      else bindE (routes_do (claimResolution (sessionId m) (inspectMessageId m) (cl_id sender)
             (res_resolutionGeneration m))) (\<lambda>claimed.
        case claimed of
          None \<Rightarrow> sendNoBrowser env sender
        | Some claimedRoute \<Rightarrow>
            let onFail = bindE (on_routes (remove_route (sessionId m) (inspectMessageId m)))
                  (\<lambda>_. sendNoBrowser env sender)
            in (case getOriginRecipient (br_registry b) claimedRoute of
                 None \<Rightarrow> onFail
               | Some recipient \<Rightarrow> send_or env recipient (Resolution m) onFail)) b)"

definition source_authorities :: "rules_source list \<Rightarrow> (jstring \<times> jstring) list" where
  "source_authorities sources = map (\<lambda>s. (rs_ruleRef s, rs_openAuthorityId s)) sources"

definition route_rules_sources ::
  "bridge_env \<Rightarrow> registered_client \<Rightarrow> rules_sources_message \<Rightarrow> ('z, unit) bridge_eff" where
  "route_rules_sources env sender m b =
     (if role_of sender \<noteq> Ide \<or> rsm_sourceId m \<noteq> src_id (cl_source sender) \<or>
         sessionId m \<noteq> cl_sessionId sender \<or> \<not> supportsCapability sender CapRulesSources
      then sendInvalid env sender b
      else (case get_route (sessionId m) (inspectMessageId m) (br_routes b) of
          None \<Rightarrow> sendNoBrowser env sender b
        | Some route \<Rightarrow> (case getOriginRecipient (br_registry b) route of
            None \<Rightarrow> sendNoBrowser env sender b
          | Some recipient \<Rightarrow>
              if \<not> supportsCapability recipient CapRulesSources then sendNoBrowser env sender b
              else (case prepareRulesSources (sessionId m) (inspectMessageId m) (cl_id sender)
                     (JInt (rsm_rulesGeneration m)) (source_authorities (rsm_sources m))
                     (JInt (rsm_unresolvedRuleCount m)) (br_routes b) of
                  None \<Rightarrow> sendNoBrowser env sender b
                | Some prepared \<Rightarrow>
                    bindE (sendMessage env recipient (RulesSources m)) (\<lambda>ok.
                      if \<not> ok then sendNoBrowser env sender
                      else bindE (routes_do (commit_preparation prepared)) (\<lambda>committed.
                        if committed then ret () else sendNoBrowser env sender)) b))))"

definition route_source_matches ::
  "bridge_env \<Rightarrow> registered_client \<Rightarrow> source_matches_message \<Rightarrow> ('z, unit) bridge_eff" where
  "route_source_matches env sender m b =
     (if role_of sender \<noteq> Ide \<or> sm_sourceId m \<noteq> src_id (cl_source sender) \<or>
         sessionId m \<noteq> cl_sessionId sender \<or> \<not> supportsCapability sender CapSourcePresentation
      then sendInvalid env sender b
      else
        let isEmptyInvalidation = (length (sm_matches m) = 0 \<and> sm_omittedMatchCount m = 0)
        in if isEmptyInvalidation \<and> \<not> supportsCapability sender CapResolution
           then sendInvalid env sender b
           else (case get_route (sessionId m) (inspectMessageId m) (br_routes b) of
               None \<Rightarrow> sendNoBrowser env sender b
             | Some route \<Rightarrow> (case getOriginRecipient (br_registry b) route of
                 None \<Rightarrow> sendNoBrowser env sender b
               | Some recipient \<Rightarrow>
                   if \<not> supportsCapability recipient CapSourcePresentation
                   then sendNoBrowser env sender b
                   else bindE (routes_do (if isEmptyInvalidation
                       then claimSourceInvalidation (sessionId m) (inspectMessageId m) (cl_id sender)
                         (sm_resolutionGeneration m)
                       else replaceMatchIds (sessionId m) (inspectMessageId m) (cl_id sender)
                         (sm_resolutionGeneration m) (map ex_matchId (sm_matches m)))) (\<lambda>updated.
                     case updated of
                       None \<Rightarrow> sendNoBrowser env sender
                     | Some _ \<Rightarrow> send_or env recipient (SourceMatches m)
                         (bindE (on_routes (remove_route (sessionId m) (inspectMessageId m)))
                           (\<lambda>_. sendNoBrowser env sender))) b)))"

text \<open>The end of the three cases a browser starts on a route it owns.\<close>

definition forward_to_ide ::
  "bridge_env \<Rightarrow> registered_client \<Rightarrow> reply_route \<Rightarrow> capability \<Rightarrow> jstring \<Rightarrow> jstring \<Rightarrow> pin_op_message \<Rightarrow>
   ('z, unit) bridge_eff" where
  "forward_to_ide env sender route cap sid mid m b =
     (case getIdeRecipient (br_registry b) route of
        None \<Rightarrow> sendNoIde env sender b
      | Some recipient \<Rightarrow>
          if \<not> supportsCapability recipient cap then sendNoIde env sender b
          else bindE (routes_do (resolve sid mid)) (\<lambda>_.
            send_or env recipient m (sendNoIde env sender)) b)"

definition route_source_open ::
  "bridge_env \<Rightarrow> registered_client \<Rightarrow> source_open_message \<Rightarrow> ('z, unit) bridge_eff" where
  "route_source_open env sender m b =
     (if role_of sender \<noteq> Browser \<and> role_of sender \<noteq> Simulator \<or>
         sessionId m \<noteq> cl_sessionId sender \<or> \<not> supportsCapability sender CapSourcePresentation
      then sendInvalid env sender b
      else (case get_route (sessionId m) (inspectMessageId m) (br_routes b) of
          None \<Rightarrow> sendInvalid env sender b
        | Some route \<Rightarrow>
            if rr_origin route \<noteq> cl_id sender \<or> rr_resGen route \<noteq> Some (so_resolutionGeneration m) \<or>
               so_matchId m \<notin> set (rr_matchIds route)
            then sendInvalid env sender b
            else forward_to_ide env sender route CapSourcePresentation (sessionId m)
              (inspectMessageId m) (SourceOpen m) b))"

definition route_rules_open ::
  "bridge_env \<Rightarrow> registered_client \<Rightarrow> rules_open_message \<Rightarrow> ('z, unit) bridge_eff" where
  "route_rules_open env sender m b =
     (if role_of sender \<noteq> Browser \<and> role_of sender \<noteq> Simulator \<or>
         sessionId m \<noteq> cl_sessionId sender \<or> \<not> supportsCapability sender CapRulesSources
      then sendInvalid env sender b
      else bindE (routes_do (authorizeRulesOpen (sessionId m) (inspectMessageId m) (cl_id sender)
             (rom_rulesGeneration m) (rom_openAuthorityId m))) (\<lambda>route.
        case route of
          None \<Rightarrow> sendInvalid env sender
        | Some route' \<Rightarrow> (case getIdeRecipient (br_registry b) route' of
            None \<Rightarrow> sendNoIde env sender
          | Some recipient \<Rightarrow>
              if \<not> supportsCapability recipient CapRulesSources then sendNoIde env sender
              else send_or env recipient (RulesOpen m) (sendNoIde env sender))) b)"

definition route_presentation_settings ::
  "bridge_env \<Rightarrow> registered_client \<Rightarrow> presentation_settings_message \<Rightarrow> ('z, unit) bridge_eff" where
  "route_presentation_settings env sender m b =
     (if role_of sender \<noteq> Browser \<and> role_of sender \<noteq> Simulator \<or>
         sessionId m \<noteq> cl_sessionId sender \<or> \<not> supportsCapability sender CapPresentationSettings
      then sendInvalid env sender b
      else (case get_route (sessionId m) (inspectMessageId m) (br_routes b) of
          None \<Rightarrow> sendInvalid env sender b
        | Some route \<Rightarrow>
            if rr_origin route \<noteq> cl_id sender then sendInvalid env sender b
            else forward_to_ide env sender route CapPresentationSettings (sessionId m)
              (inspectMessageId m) (PresentationSettings m) b))"

definition route_source_navigate ::
  "bridge_env \<Rightarrow> registered_client \<Rightarrow> source_navigate_message \<Rightarrow> ('z, unit) bridge_eff" where
  "route_source_navigate env sender m b =
     (if role_of sender \<noteq> Browser \<and> role_of sender \<noteq> Simulator \<or>
         sessionId m \<noteq> cl_sessionId sender \<or> \<not> supportsCapability sender CapSourceNavigation
      then sendInvalid env sender b
      else (case get_route (sessionId m) (inspectMessageId m) (br_routes b) of
          None \<Rightarrow> sendInvalid env sender b
        | Some route \<Rightarrow>
            if rr_origin route \<noteq> cl_id sender \<or> rr_resGen route \<noteq> Some (nav_resolutionGeneration m)
            then sendInvalid env sender b
            else forward_to_ide env sender route CapSourceNavigation (sessionId m)
              (inspectMessageId m) (SourceNavigate m) b))"

definition route_navigation_state ::
  "bridge_env \<Rightarrow> registered_client \<Rightarrow> navigation_state_message \<Rightarrow> ('z, unit) bridge_eff" where
  "route_navigation_state env sender m b =
     (if role_of sender \<noteq> Ide \<or> ns_sourceId m \<noteq> src_id (cl_source sender) \<or>
         \<not> supportsCapability sender CapSourceNavigation
      then sendInvalid env sender b
      else if sessionId m \<noteq> cl_sessionId sender then sendNoBrowser env sender b
      else (case get_route (sessionId m) (inspectMessageId m) (br_routes b) of
          None \<Rightarrow> sendNoBrowser env sender b
        | Some stateRoute \<Rightarrow>
            let isZeroState = (ns_selectedMatchCount m = 0 \<and> ns_activeMatchIndex m = None \<and>
                  ns_activeMatchId m = None);
                isOwnedGeneration = (rr_ide stateRoute = Some (cl_id sender) \<and>
                  rr_resGen stateRoute = Some (ns_resolutionGeneration m));
                isClearingState = (isZeroState \<and>
                  (rr_ide stateRoute = None \<and> supportsCapability sender CapResolution \<or>
                   isOwnedGeneration));
                isAuthoritativeState = (\<not> isZeroState \<and> isOwnedGeneration \<and> rr_claimed stateRoute \<and>
                  (case ns_activeMatchId m of None \<Rightarrow> True | Some i \<Rightarrow> i \<in> set (rr_matchIds stateRoute)))
            in if \<not> isClearingState \<and> \<not> isAuthoritativeState then sendNoBrowser env sender b
               else (case getOriginRecipient (br_registry b) stateRoute of
                   None \<Rightarrow> sendNoBrowser env sender b
                 | Some stateRecipient \<Rightarrow>
                     if \<not> supportsCapability stateRecipient CapSourceNavigation
                     then sendNoBrowser env sender b
                     else bindE (routes_do (resolve (sessionId m) (inspectMessageId m))) (\<lambda>_.
                       send_or env stateRecipient (SourceNavigationState m)
                         (bindE (on_routes (remove_route (sessionId m) (inspectMessageId m)))
                           (\<lambda>_. sendNoBrowser env sender))) b)))"

definition route_page_refresh ::
  "bridge_env \<Rightarrow> registered_client \<Rightarrow> page_refresh_message \<Rightarrow> ('z, unit) bridge_eff" where
  "route_page_refresh env sender m b =
     (if role_of sender \<noteq> Ide \<or> pr_sourceId m \<noteq> src_id (cl_source sender) \<or>
         pr_sessionId m \<noteq> cl_sessionId sender \<or> \<not> supportsCapability sender CapAutoRefresh
      then sendInvalid env sender b
      else bindE (sendToClients env
        (filter (\<lambda>c. supportsCapability c CapAutoRefresh)
          (findBySessionAndRole (br_registry b) (pr_sessionId m) Browser @
           findBySessionAndRole (br_registry b) (pr_sessionId m) Simulator))
        (PageRefresh m)) (\<lambda>_. ret ()) b)"

fun routeMessage :: "bridge_env \<Rightarrow> registered_client \<Rightarrow> pin_op_message \<Rightarrow> ('z, unit) bridge_eff" where
  "routeMessage env sender (Inspect m) = route_inspect env sender m"
| "routeMessage env sender (Resolution m) = route_resolution env sender m"
| "routeMessage env sender (RulesSources m) = route_rules_sources env sender m"
| "routeMessage env sender (SourceMatches m) = route_source_matches env sender m"
| "routeMessage env sender (SourceOpen m) = route_source_open env sender m"
| "routeMessage env sender (RulesOpen m) = route_rules_open env sender m"
| "routeMessage env sender (PresentationSettings m) = route_presentation_settings env sender m"
| "routeMessage env sender (SourceNavigate m) = route_source_navigate env sender m"
| "routeMessage env sender (SourceNavigationState m) = route_navigation_state env sender m"
| "routeMessage env sender (PageRefresh m) = route_page_refresh env sender m"
| "routeMessage env sender (ErrorMessage m) =
     bindE (sendMessage env sender (ErrorMessage m)) (\<lambda>_. ret ())"
| "routeMessage env sender _ = ret ()"

end
