(* ===== verification/Router_Properties.thy ===== *)
theory Router_Properties
  imports Bridge_Router
begin

text \<open>
  What \<^verbatim>\<open>routeMessage\<close> may do, from a consistent registry of routes: it returns, keeps the routes
  consistent, moves them along their evolution, and delivers only error messages to the sender
  and the message itself to clients of the sender's session on the other side.
\<close>

subsection \<open>What routing may deliver\<close>

definition is_error :: "pin_op_message \<Rightarrow> bool" where
  "is_error x = (case x of ErrorMessage _ \<Rightarrow> True | _ \<Rightarrow> False)"

definition counterpart :: "registered_client \<Rightarrow> registered_client \<Rightarrow> bool" where
  "counterpart sender r \<longleftrightarrow> cl_sessionId r = cl_sessionId sender \<and>
     (browser_side sender \<and> role_of r = Ide \<or> role_of sender = Ide \<and> browser_side r)"

definition delivery_ok ::
  "client_registry \<Rightarrow> registered_client \<Rightarrow> pin_op_message \<Rightarrow> nat \<times> pin_op_message \<Rightarrow> bool" where
  "delivery_ok reg sender m d \<longleftrightarrow>
     fst d = cl_connection sender \<and> is_error (snd d) \<or>
     snd d = m \<and> (\<exists>r\<in>set (map snd reg). cl_connection r = fst d \<and> counterpart sender r)"

definition routed ::
  "client_registry \<Rightarrow> registered_client \<Rightarrow> pin_op_message \<Rightarrow> 'z bridge_scheme \<Rightarrow> 'z bridge_scheme \<Rightarrow> bool" where
  "routed reg sender m b b' \<longleftrightarrow> bridge.more b' = bridge.more b \<and>
     evolves (br_routes b) (br_routes b') \<and> uuids (br_net b) \<le> uuids (br_net b') \<and>
     (\<exists>ds. deliveries (wire (br_net b')) = deliveries (wire (br_net b)) @ ds \<and>
        list_all (delivery_ok reg sender m) ds)"

interpretation routing: effect_relation "routed reg sender m" for reg sender m
proof
  fix s t u :: "'z bridge_scheme"
  show "routed reg sender m s s" by (simp add: routed_def evolving.R_refl)
  assume "routed reg sender m s t" "routed reg sender m t u"
  then show "routed reg sender m s u"
    unfolding routed_def by (auto intro: evolving.R_trans)
qed

definition routing_state :: "client_registry \<Rightarrow> 'z bridge_scheme \<Rightarrow> bool" where
  "routing_state reg b \<longleftrightarrow> br_registry b = reg \<and> routes_inv (br_routes b)"

definition uuids_ok :: "bridge_env \<Rightarrow> bool" where
  "uuids_ok env \<longleftrightarrow> (\<forall>k. be_uuid env k \<noteq> [])"

abbreviation routes_well where
  "routes_well reg sender m \<equiv> goes (routing_state reg) (routed reg sender m)"

text \<open>Sending changes only the wire; predicates on the rest of the state survive it.\<close>

definition net_stable :: "('z bridge_scheme \<Rightarrow> bool) \<Rightarrow> bool" where
  "net_stable P \<longleftrightarrow> (\<forall>b n. P b \<longrightarrow> P (b\<lparr>br_net := n\<rparr>))"

definition routing_at :: "client_registry \<Rightarrow> reply_routes \<Rightarrow> 'z bridge_scheme \<Rightarrow> bool" where
  "routing_at reg rs b \<longleftrightarrow> br_registry b = reg \<and> br_routes b = rs"

lemma net_stable_routing [simp]: "net_stable (routing_state reg)" "net_stable (routing_at reg rs)"
  by (simp_all add: net_stable_def routing_state_def routing_at_def)

subsection \<open>The steps of a handler\<close>

lemma goes_done: "P b \<Longrightarrow> Q x \<Longrightarrow> goes P (routed reg sender m) Q b (Inr x, b)"
  by (simp add: goes_def routing.R_refl)

lemma goes_if:
  "(c \<Longrightarrow> goes P R Q b x) \<Longrightarrow> (\<not> c \<Longrightarrow> goes P R Q b y) \<Longrightarrow> goes P R Q b (if c then x else y)"
  by simp

lemma goes_option:
  "(v = None \<Longrightarrow> goes P R Q b x) \<Longrightarrow> (\<And>a. v = Some a \<Longrightarrow> goes P R Q b (y a)) \<Longrightarrow>
   goes P R Q b (case v of None \<Rightarrow> x | Some a \<Rightarrow> y a)"
  by (cases v) simp_all

lemma goes_sendMessage:
  assumes "P b" and "message_ok (be_schema env) x"
    and "delivery_ok reg sender m (cl_connection c, x)" and "net_stable P"
  shows "goes P (routed reg sender m) (\<lambda>_. True) b (sendMessage env c x b)"
proof -
  obtain ok n where s: "sendConnectionSafely (guarded_send env) (cl_connection c) x (br_net b) = (ok, n)"
    by fastforce
  from ws.safely_deliveries [OF s] ws.safely_uuids [OF s] show ?thesis using assms
    by (auto simp: goes_def sendMessage_def s net_stable_def routed_def evolving.R_refl)
qed

lemma goes_fresh_uuid:
  assumes "routing_state reg b" and "uuids_ok env"
  shows "routes_well reg sender m (\<lambda>u. u \<noteq> []) b (fresh_uuid env b)"
  using assms by (simp add: goes_def fresh_uuid_def randomUUID_def uuids_ok_def routing_state_def
      routed_def evolving.R_refl)

lemma goes_sendError:
  assumes "routing_state reg b" and "uuids_ok env" and "text \<noteq> []"
  shows "routes_well reg sender m (\<lambda>_. True) b (sendError env sender code text fatal b)"
  unfolding sendError_def
proof (rule routing.goes_bind)
  show "routes_well reg sender m (\<lambda>u. u \<noteq> []) b (fresh_uuid env b)"
    by (rule goes_fresh_uuid [OF assms(1,2)])
next
  fix u :: jstring and b' :: "'a bridge_scheme" assume "routing_state reg b'" "u \<noteq> []"
  then show "routes_well reg sender m (\<lambda>_. True) b'
      (sendMessage env sender (error_message_for u code text fatal) b')"
    using assms(3) by (intro goes_sendMessage)
      (simp_all add: error_message_for_def error_ok_def delivery_ok_def is_error_def)
qed

lemma goes_error_replies:
  assumes "routing_state reg b" and "uuids_ok env"
  shows "routes_well reg sender m (\<lambda>_. True) b (sendInvalid env sender b)"
    "routes_well reg sender m (\<lambda>_. True) b (sendNoBrowser env sender b)"
    "routes_well reg sender m (\<lambda>_. True) b (sendNoIde env sender b)"
  unfolding sendInvalid_def sendNoBrowser_def sendNoIde_def
  by (rule routing.goes_bind, rule goes_sendError [OF assms], simp, rule routing.goes_ret; simp)+

lemma goes_routes_do:
  assumes "routing_state reg b" and "routes_inv (snd (f (br_routes b)))"
    and "evolves (br_routes b) (snd (f (br_routes b)))" and "Q (fst (f (br_routes b)))"
  shows "routes_well reg sender m Q b (routes_do f b)"
  using assms by (auto simp: goes_def routes_do_def routing_state_def routed_def split: prod.splits)

lemma goes_on_routes:
  assumes "routing_state reg b" and "sound (br_routes b) (f (br_routes b))"
  shows "routes_well reg sender m (\<lambda>_. True) b (on_routes f b)"
  using assms by (auto simp: goes_def on_routes_def sound_def routing_state_def routed_def
      split: prod.splits sum.splits)

lemma goes_remove_route:
  assumes "routing_state reg b"
  shows "routes_well reg sender m (\<lambda>_. True) b (on_routes (remove_route sid mid) b)"
  by (rule goes_on_routes [OF assms]) (use assms in \<open>simp add: routing_state_def sound_remove_route\<close>)

lemma goes_sendToClients:
  "P b \<Longrightarrow> message_ok (be_schema env) m \<Longrightarrow>
   \<forall>c\<in>set cs. delivery_ok reg sender m (cl_connection c, m) \<Longrightarrow> net_stable P \<Longrightarrow>
   goes P (routed reg sender m) (\<lambda>_. True) b (sendToClients env cs m b)"
proof (induction cs arbitrary: b)
  case (Cons c cs)
  show ?case unfolding sendToClients.simps
    by (rule routing.goes_bind, rule goes_sendMessage [where P = P], use Cons.prems in simp_all,
        rule routing.goes_bind, rule Cons.IH)
      (use Cons.prems in \<open>simp_all add: goes_done\<close>)
qed (simp add: goes_done)

lemma goes_send_or:
  assumes "routing_state reg b" and "message_ok (be_schema env) m"
    and "delivery_ok reg sender m (cl_connection c, m)"
    and "\<And>b. routing_state reg b \<Longrightarrow> routes_well reg sender m (\<lambda>_. True) b (onFail b)"
  shows "routes_well reg sender m (\<lambda>_. True) b (send_or env c m onFail b)"
  unfolding send_or_def
  by (rule routing.goes_bind, rule goes_sendMessage [where P = "routing_state reg"])
    (use assms in \<open>simp_all add: goes_done\<close>)

subsection \<open>Recipients\<close>

lemma jget_in_values: "jget m k = Some v \<Longrightarrow> v \<in> set (map snd m)"
  by (force dest: map_of_SomeD)

lemma getOriginRecipient_ok:
  assumes "getOriginRecipient reg route = Some r" and "role_of sender = Ide"
    and "rr_sessionId route = cl_sessionId sender"
  shows "delivery_ok reg sender m (cl_connection r, m)"
proof -
  have "r \<in> set (map snd reg)" "cl_sessionId r = cl_sessionId sender" "browser_side r"
    using assms jget_in_values [of reg "rr_origin route" r]
    by (auto simp: getOriginRecipient_def registry_get_def browser_side_def split: option.splits if_splits)
  then show ?thesis using assms(2) unfolding delivery_ok_def counterpart_def by auto
qed

lemma getIdeRecipient_ok:
  assumes "getIdeRecipient reg route = Some r" and "browser_side sender"
    and "rr_sessionId route = cl_sessionId sender"
  shows "delivery_ok reg sender m (cl_connection r, m)"
proof -
  have "r \<in> set (map snd reg)" "cl_sessionId r = cl_sessionId sender" "role_of r = Ide"
    using assms jget_in_values [of reg _ r]
    by (auto simp: getIdeRecipient_def registry_get_def split: option.splits if_splits)
  then show ?thesis using assms(2) unfolding delivery_ok_def counterpart_def by auto
qed

lemma find_ok:
  "c \<in> set (findBySessionAndRole reg sid role) \<Longrightarrow>
   c \<in> set (map snd reg) \<and> cl_sessionId c = sid \<and> role_of c = role"
  by (auto simp: findBySessionAndRole_def registry_all_def)

lemma get_route_session [simp]: "get_route sid mid rs = Some r \<Longrightarrow> rr_sessionId r = sid"
  by (auto simp: get_route_def snapshot_def)

lemma claim_session:
  "fst (claimAuthority sid mid ide gen cl rs) = Some r \<Longrightarrow> rr_sessionId r = sid"
  "fst (authorizeRulesOpen sid mid c gen openId rs) = Some r \<Longrightarrow> rr_sessionId r = sid"
  by (auto simp: claimAuthority_eq authorizeRulesOpen_def snapshot_def split: option.splits if_splits)

subsection \<open>Every case is well behaved\<close>

lemma goes_fail_remove:
  assumes "routing_state reg b" and "uuids_ok env"
  shows "routes_well reg sender m (\<lambda>_. True) b
    (bindE (on_routes (remove_route sid mid)) (\<lambda>_. sendNoBrowser env sender) b)"
  by (rule routing.goes_bind, rule goes_remove_route [OF assms(1)]) (simp add: goes_error_replies assms(2))

lemma goes_send_or_remove:
  assumes "routing_state reg b" and "uuids_ok env" and "message_ok (be_schema env) m"
    and "delivery_ok reg sender m (cl_connection c, m)"
  shows "routes_well reg sender m (\<lambda>_. True) b
    (send_or env c m (bindE (on_routes (remove_route sid mid)) (\<lambda>_. sendNoBrowser env sender)) b)"
  by (rule goes_send_or [OF assms(1,3,4)]) (rule goes_fail_remove [OF _ assms(2)])

lemma goes_claim:
  assumes "routing_state reg b"
  shows "routes_well reg sender m (\<lambda>x. \<forall>r. x = Some r \<longrightarrow> rr_sessionId r = sid) b
      (routes_do (claimResolution sid mid ide gen) b)"
    "routes_well reg sender m (\<lambda>_. True) b (routes_do (claimSourceInvalidation sid mid ide gen) b)"
    "routes_well reg sender m (\<lambda>_. True) b (routes_do (replaceMatchIds sid mid ide gen ids) b)"
    "routes_well reg sender m (\<lambda>x. \<forall>r. x = Some r \<longrightarrow> rr_sessionId r = sid) b
      (routes_do (authorizeRulesOpen sid mid c gen openId) b)"
    "routes_well reg sender m (\<lambda>_. True) b (routes_do (resolve sid mid) b)"
  by (rule goes_routes_do [OF assms];
      use assms routes_inv_ops evolves_ops claim_session in \<open>auto simp: routing_state_def claimResolution_def routes_inv_claimAuthority\<close>)+

lemma route_inspect_goes:
  assumes st: "routing_state reg b" and u: "uuids_ok env" and ok: "message_ok (be_schema env) (Inspect m)"
  shows "routes_well reg sender (Inspect m) (\<lambda>_. True) b (route_inspect env sender m b)"
proof -
  let ?g = "register (insp_sessionId m) (messageId m) (cl_id sender)
      (map ev_ruleRef (eb_rules (insp_ruleEvidence m))) (br_routes b)"
  let ?cs = "filter (\<lambda>c. supportsCapability c CapResolution) (findBySessionAndRole (br_registry b) (insp_sessionId m) Ide)"
  have reg: "br_registry b = reg" using st by (simp add: routing_state_def)
  show ?thesis
  proof (cases "browser_side sender \<and> insp_sessionId m = cl_sessionId sender")
    case False
    then show ?thesis using goes_error_replies [OF st u]
      by (auto simp: route_inspect_def browser_side_def)
  next
    case True
    have cs: "\<forall>c\<in>set ?cs. delivery_ok reg sender (Inspect m) (cl_connection c, Inspect m)"
      using True find_ok unfolding reg delivery_ok_def counterpart_def by fastforce
    have "routes_well reg sender (Inspect m) (\<lambda>_. True) b
        (bindE (sendToClients env ?cs (Inspect m)) (\<lambda>sent.
           if sent = 0 then sendNoIde env sender
           else bindE (on_routes (commit_registration ?g)) (\<lambda>committed.
             if committed then ret () else sendInvalid env sender)) b)"
    proof (rule routing.goes_bind, rule goes_sendToClients [where P = "routing_at reg (br_routes b)"])
      show "routing_at reg (br_routes b) b" by (simp add: routing_at_def reg)
    next
      fix sent and b' :: "'a bridge_scheme" assume at: "routing_at reg (br_routes b) b'"
      then have st': "routing_state reg b'" using st by (simp add: routing_at_def routing_state_def)
      have "routes_well reg sender (Inspect m) (\<lambda>_. True) b'
          (bindE (on_routes (commit_registration ?g)) (\<lambda>committed.
             if committed then ret () else sendInvalid env sender) b')"
      proof (rule routing.goes_bind, rule goes_on_routes [OF st'])
        show "sound (br_routes b') (commit_registration ?g (br_routes b'))"
          by (rule sound_commit_registration)
            (use at st in \<open>auto simp: routing_at_def routing_state_def registers_def\<close>)
      qed (simp add: goes_error_replies u goes_done)
      then show "routes_well reg sender (Inspect m) (\<lambda>_. True) b'
          ((if sent = 0 then sendNoIde env sender
           else bindE (on_routes (commit_registration ?g)) (\<lambda>committed.
             if committed then ret () else sendInvalid env sender)) b')"
        by (simp add: goes_error_replies st' u)
    qed (use ok cs in simp_all)
    then show ?thesis unfolding route_inspect_def Let_def
      by (intro goes_if goes_error_replies [OF st u])
  qed
qed

lemma route_resolution_goes:
  assumes st: "routing_state reg b" and u: "uuids_ok env" and ok: "message_ok (be_schema env) (Resolution m)"
  shows "routes_well reg sender (Resolution m) (\<lambda>_. True) b (route_resolution env sender m b)"
  unfolding route_resolution_def Let_def
proof (intro goes_if goes_error_replies [OF st u] routing.goes_bind [where P = "routing_state reg"])
  assume g: "\<not> (role_of sender \<noteq> Ide \<or> res_sourceId m \<noteq> src_id (cl_source sender) \<or>
    \<not> supportsCapability sender CapResolution)" "\<not> sessionId m \<noteq> cl_sessionId sender"
  show "routes_well reg sender (Resolution m) (\<lambda>x. \<forall>r. x = Some r \<longrightarrow> rr_sessionId r = sessionId m) b
      (routes_do (claimResolution (sessionId m) (inspectMessageId m) (cl_id sender) (res_resolutionGeneration m)) b)"
    by (rule goes_claim [OF st])
  fix x :: "reply_route option" and b' :: "'a bridge_scheme"
  assume st': "routing_state reg b'" and x: "\<forall>r. x = Some r \<longrightarrow> rr_sessionId r = sessionId m"
  have reg: "br_registry b = reg" using st by (simp add: routing_state_def)
  have "routes_well reg sender (Resolution m) (\<lambda>_. True) b'
      ((case getOriginRecipient (br_registry b) r of
         None \<Rightarrow> bindE (on_routes (remove_route (sessionId m) (inspectMessageId m))) (\<lambda>_. sendNoBrowser env sender)
       | Some recipient \<Rightarrow> send_or env recipient (Resolution m)
          (bindE (on_routes (remove_route (sessionId m) (inspectMessageId m))) (\<lambda>_. sendNoBrowser env sender))) b')"
    if "x = Some r" for r
    using goes_fail_remove [OF st' u] goes_send_or_remove [OF st' u ok]
      getOriginRecipient_ok [of reg r _ sender] that x g unfolding reg
    by (cases "getOriginRecipient reg r") simp_all
  then show "routes_well reg sender (Resolution m) (\<lambda>_. True) b'
      ((case x of None \<Rightarrow> sendNoBrowser env sender
        | Some r \<Rightarrow> (case getOriginRecipient (br_registry b) r of
         None \<Rightarrow> bindE (on_routes (remove_route (sessionId m) (inspectMessageId m))) (\<lambda>_. sendNoBrowser env sender)
       | Some recipient \<Rightarrow> send_or env recipient (Resolution m)
          (bindE (on_routes (remove_route (sessionId m) (inspectMessageId m))) (\<lambda>_. sendNoBrowser env sender)))) b')"
    by (cases x) (simp_all add: goes_error_replies st' u)
qed

lemma route_rules_sources_goes:
  assumes st: "routing_state reg b" and u: "uuids_ok env" and ok: "message_ok (be_schema env) (RulesSources m)"
  shows "routes_well reg sender (RulesSources m) (\<lambda>_. True) b (route_rules_sources env sender m b)"
  unfolding route_rules_sources_def
proof (intro goes_if goes_option goes_error_replies [OF st u])
  fix route recipient prepared
  assume g: "\<not> (role_of sender \<noteq> Ide \<or> rsm_sourceId m \<noteq> src_id (cl_source sender) \<or>
      sessionId m \<noteq> cl_sessionId sender \<or> \<not> supportsCapability sender CapRulesSources)"
    and r: "get_route (sessionId m) (inspectMessageId m) (br_routes b) = Some route"
    and rec: "getOriginRecipient (br_registry b) route = Some recipient"
    and p: "prepareRulesSources (sessionId m) (inspectMessageId m) (cl_id sender)
      (JInt (rsm_rulesGeneration m)) (source_authorities (rsm_sources m))
      (JInt (rsm_unresolvedRuleCount m)) (br_routes b) = Some prepared"
  have reg: "br_registry b = reg" using st by (simp add: routing_state_def)
  have d: "delivery_ok reg sender (RulesSources m) (cl_connection recipient, RulesSources m)"
    using getOriginRecipient_ok rec g r unfolding reg by (metis get_route_session)
  show "routes_well reg sender (RulesSources m) (\<lambda>_. True) b
      (bindE (sendMessage env recipient (RulesSources m)) (\<lambda>ok.
        if \<not> ok then sendNoBrowser env sender
        else bindE (routes_do (commit_preparation prepared)) (\<lambda>committed.
          if committed then ret () else sendNoBrowser env sender)) b)"
  proof (rule routing.goes_bind, rule goes_sendMessage [where P = "routing_at reg (br_routes b)"])
    fix sent and b' :: "'a bridge_scheme" assume at: "routing_at reg (br_routes b) b'"
    then have st': "routing_state reg b'" using st by (simp add: routing_at_def routing_state_def)
    have "prepares (br_routes b) prepared" unfolding prepares_def using p by blast
    then have fresh: "prepares (br_routes b') prepared" "routes_inv (br_routes b')"
      using at st by (simp_all add: routing_at_def routing_state_def)
    have "routes_well reg sender (RulesSources m) (\<lambda>_. True) b'
        (bindE (routes_do (commit_preparation prepared)) (\<lambda>committed.
          if committed then ret () else sendNoBrowser env sender) b')"
      by (rule routing.goes_bind [where P = "routing_state reg"], rule goes_routes_do [OF st', where Q = "\<lambda>_. True"])
        (use commit_preparation_fresh [of "br_routes b'" prepared] fresh in
          \<open>simp_all add: goes_error_replies u goes_done\<close>)
    then show "routes_well reg sender (RulesSources m) (\<lambda>_. True) b'
        ((if \<not> sent then sendNoBrowser env sender
        else bindE (routes_do (commit_preparation prepared)) (\<lambda>committed.
          if committed then ret () else sendNoBrowser env sender)) b')"
      by (simp add: goes_error_replies st' u)
  qed (use d ok in \<open>simp_all add: routing_at_def reg\<close>)
qed

lemma route_source_matches_goes:
  assumes st: "routing_state reg b" and u: "uuids_ok env" and ok: "message_ok (be_schema env) (SourceMatches m)"
  shows "routes_well reg sender (SourceMatches m) (\<lambda>_. True) b (route_source_matches env sender m b)"
  unfolding route_source_matches_def Let_def
proof (intro goes_if goes_option goes_error_replies [OF st u] routing.goes_bind [where P = "routing_state reg"])
  fix route recipient updated and b' :: "'a bridge_scheme"
  assume g: "\<not> (role_of sender \<noteq> Ide \<or> sm_sourceId m \<noteq> src_id (cl_source sender) \<or>
      sessionId m \<noteq> cl_sessionId sender \<or> \<not> supportsCapability sender CapSourcePresentation)"
    and r: "get_route (sessionId m) (inspectMessageId m) (br_routes b) = Some route"
    and rec: "getOriginRecipient (br_registry b) route = Some recipient"
    and st': "routing_state reg b'"
  have reg: "br_registry b = reg" using st by (simp add: routing_state_def)
  have "delivery_ok reg sender (SourceMatches m) (cl_connection recipient, SourceMatches m)"
    using getOriginRecipient_ok rec g r unfolding reg by (metis get_route_session)
  then show "routes_well reg sender (SourceMatches m) (\<lambda>_. True) b'
      ((case updated of None \<Rightarrow> sendNoBrowser env sender
        | Some _ \<Rightarrow> send_or env recipient (SourceMatches m)
            (bindE (on_routes (remove_route (sessionId m) (inspectMessageId m)))
              (\<lambda>_. sendNoBrowser env sender))) b')"
    using goes_send_or_remove [OF st' u ok]
    by (cases updated) (simp_all add: goes_error_replies st' u)
next
  fix route recipient
  show "routes_well reg sender (SourceMatches m) (\<lambda>_. True) b
      (routes_do (if length (sm_matches m) = 0 \<and> sm_omittedMatchCount m = 0
         then claimSourceInvalidation (sessionId m) (inspectMessageId m) (cl_id sender) (sm_resolutionGeneration m)
         else replaceMatchIds (sessionId m) (inspectMessageId m) (cl_id sender)
           (sm_resolutionGeneration m) (map ex_matchId (sm_matches m))) b)"
    by (simp add: goes_claim st)
qed

lemma browser_guard:
  "\<not> (role_of sender \<noteq> Browser \<and> role_of sender \<noteq> Simulator \<or> sid \<noteq> cl_sessionId sender \<or> \<not> cap) \<Longrightarrow>
   browser_side sender \<and> sid = cl_sessionId sender"
  by (auto simp: browser_side_def)

lemma forward_to_ide_goes:
  assumes st: "routing_state reg b" and u: "uuids_ok env" and ok: "message_ok (be_schema env) m"
    and "browser_side sender" "rr_sessionId route = cl_sessionId sender"
  shows "routes_well reg sender m (\<lambda>_. True) b (forward_to_ide env sender route cap sid mid m b)"
  unfolding forward_to_ide_def
proof (intro goes_if goes_option goes_error_replies [OF st u] routing.goes_bind [where P = "routing_state reg"])
  fix recipient assume "getIdeRecipient (br_registry b) route = Some recipient"
  then have d: "delivery_ok reg sender m (cl_connection recipient, m)"
    using st assms(4,5) by (intro getIdeRecipient_ok) (simp_all add: routing_state_def)
  fix b' :: "'a bridge_scheme" assume "routing_state reg b'"
  then show "routes_well reg sender m (\<lambda>_. True) b' (send_or env recipient m (sendNoIde env sender) b')"
    by (rule goes_send_or [OF _ ok d]) (simp add: goes_error_replies u)
qed (rule goes_claim [OF st])

lemma route_source_open_goes:
  assumes st: "routing_state reg b" and u: "uuids_ok env" and ok: "message_ok (be_schema env) (SourceOpen m)"
  shows "routes_well reg sender (SourceOpen m) (\<lambda>_. True) b (route_source_open env sender m b)"
  unfolding route_source_open_def
  by (intro goes_if goes_option goes_error_replies [OF st u] forward_to_ide_goes [OF st u ok])
    (auto simp: browser_side_def)

lemma route_presentation_settings_goes:
  assumes st: "routing_state reg b" and u: "uuids_ok env"
    and ok: "message_ok (be_schema env) (PresentationSettings m)"
  shows "routes_well reg sender (PresentationSettings m) (\<lambda>_. True) b
    (route_presentation_settings env sender m b)"
  unfolding route_presentation_settings_def
  by (intro goes_if goes_option goes_error_replies [OF st u] forward_to_ide_goes [OF st u ok])
    (auto simp: browser_side_def)

lemma route_source_navigate_goes:
  assumes st: "routing_state reg b" and u: "uuids_ok env" and ok: "message_ok (be_schema env) (SourceNavigate m)"
  shows "routes_well reg sender (SourceNavigate m) (\<lambda>_. True) b (route_source_navigate env sender m b)"
  unfolding route_source_navigate_def
  by (intro goes_if goes_option goes_error_replies [OF st u] forward_to_ide_goes [OF st u ok])
    (auto simp: browser_side_def)

lemma route_rules_open_goes:
  assumes st: "routing_state reg b" and u: "uuids_ok env" and ok: "message_ok (be_schema env) (RulesOpen m)"
  shows "routes_well reg sender (RulesOpen m) (\<lambda>_. True) b (route_rules_open env sender m b)"
  unfolding route_rules_open_def
proof (intro goes_if goes_error_replies [OF st u] routing.goes_bind [where P = "routing_state reg"])
  assume g: "\<not> (role_of sender \<noteq> Browser \<and> role_of sender \<noteq> Simulator \<or>
      sessionId m \<noteq> cl_sessionId sender \<or> \<not> supportsCapability sender CapRulesSources)"
  show "routes_well reg sender (RulesOpen m) (\<lambda>x. \<forall>r. x = Some r \<longrightarrow> rr_sessionId r = sessionId m) b
      (routes_do (authorizeRulesOpen (sessionId m) (inspectMessageId m) (cl_id sender)
        (rom_rulesGeneration m) (rom_openAuthorityId m)) b)"
    by (rule goes_claim [OF st])
  fix x :: "reply_route option" and b' :: "'a bridge_scheme"
  assume st': "routing_state reg b'" and x: "\<forall>r. x = Some r \<longrightarrow> rr_sessionId r = sessionId m"
  have reg: "br_registry b = reg" using st by (simp add: routing_state_def)
  have "routes_well reg sender (RulesOpen m) (\<lambda>_. True) b'
      (send_or env recipient (RulesOpen m) (sendNoIde env sender) b')"
    if "x = Some r" "getIdeRecipient reg r = Some recipient" for r recipient
    by (rule goes_send_or [OF st' ok getIdeRecipient_ok])
      (use that x browser_guard [OF g] in \<open>auto simp: goes_error_replies u\<close>)
  then show "routes_well reg sender (RulesOpen m) (\<lambda>_. True) b'
      ((case x of None \<Rightarrow> sendInvalid env sender
        | Some route' \<Rightarrow> (case getIdeRecipient (br_registry b) route' of
            None \<Rightarrow> sendNoIde env sender
          | Some recipient \<Rightarrow>
              if \<not> supportsCapability recipient CapRulesSources then sendNoIde env sender
              else send_or env recipient (RulesOpen m) (sendNoIde env sender))) b')"
    unfolding reg using goes_error_replies [OF st' u]
    by (cases x; cases "getIdeRecipient reg (the x)") simp_all
qed

lemma route_navigation_state_goes:
  assumes st: "routing_state reg b" and u: "uuids_ok env"
    and ok: "message_ok (be_schema env) (SourceNavigationState m)"
  shows "routes_well reg sender (SourceNavigationState m) (\<lambda>_. True) b
    (route_navigation_state env sender m b)"
  unfolding route_navigation_state_def Let_def
proof (intro goes_if goes_option goes_error_replies [OF st u] routing.goes_bind [where P = "routing_state reg"])
  fix route recipient and b' :: "'a bridge_scheme"
  assume g: "\<not> (role_of sender \<noteq> Ide \<or> ns_sourceId m \<noteq> src_id (cl_source sender) \<or>
      \<not> supportsCapability sender CapSourceNavigation)" "\<not> sessionId m \<noteq> cl_sessionId sender"
    and r: "get_route (sessionId m) (inspectMessageId m) (br_routes b) = Some route"
    and rec: "getOriginRecipient (br_registry b) route = Some recipient"
    and st': "routing_state reg b'"
  have reg: "br_registry b = reg" using st by (simp add: routing_state_def)
  have "delivery_ok reg sender (SourceNavigationState m) (cl_connection recipient, SourceNavigationState m)"
    using getOriginRecipient_ok rec g r unfolding reg by (metis get_route_session)
  then show "routes_well reg sender (SourceNavigationState m) (\<lambda>_. True) b'
      (send_or env recipient (SourceNavigationState m)
        (bindE (on_routes (remove_route (sessionId m) (inspectMessageId m)))
          (\<lambda>_. sendNoBrowser env sender)) b')"
    by (rule goes_send_or_remove [OF st' u ok])
qed (rule goes_claim [OF st])

lemma route_page_refresh_goes:
  assumes st: "routing_state reg b" and u: "uuids_ok env" and ok: "message_ok (be_schema env) (PageRefresh m)"
  shows "routes_well reg sender (PageRefresh m) (\<lambda>_. True) b (route_page_refresh env sender m b)"
  unfolding route_page_refresh_def
proof (intro goes_if goes_error_replies [OF st u])
  assume g: "\<not> (role_of sender \<noteq> Ide \<or> pr_sourceId m \<noteq> src_id (cl_source sender) \<or>
      pr_sessionId m \<noteq> cl_sessionId sender \<or> \<not> supportsCapability sender CapAutoRefresh)"
  let ?cs = "filter (\<lambda>c. supportsCapability c CapAutoRefresh)
          (findBySessionAndRole (br_registry b) (pr_sessionId m) Browser @
           findBySessionAndRole (br_registry b) (pr_sessionId m) Simulator)"
  have reg: "br_registry b = reg" using st by (simp add: routing_state_def)
  have "\<forall>c\<in>set ?cs. delivery_ok reg sender (PageRefresh m) (cl_connection c, PageRefresh m)"
    using g find_ok unfolding reg delivery_ok_def counterpart_def browser_side_def by fastforce
  then have "routes_well reg sender (PageRefresh m) (\<lambda>_. True) b (sendToClients env ?cs (PageRefresh m) b)"
    using st ok by (intro goes_sendToClients) simp_all
  then show "routes_well reg sender (PageRefresh m) (\<lambda>_. True) b
      (bindE (sendToClients env ?cs (PageRefresh m)) (\<lambda>_. ret ()) b)"
    by (rule routing.goes_bind) (simp add: goes_done)
qed

lemma routeMessage_goes:
  assumes st: "routing_state reg b" and u: "uuids_ok env" and ok: "message_ok (be_schema env) m"
  shows "routes_well reg sender m (\<lambda>_. True) b (routeMessage env sender m b)"
proof (cases m)
  case (ErrorMessage x)
  have "routes_well reg sender m (\<lambda>_. True) b
      (bindE (sendMessage env sender (ErrorMessage x)) (\<lambda>_. ret ()) b)"
    by (rule routing.goes_bind, rule goes_sendMessage [where P = "routing_state reg"])
      (use st ok in \<open>simp_all add: ErrorMessage delivery_ok_def is_error_def goes_done\<close>)
  then show ?thesis by (simp add: ErrorMessage)
qed (use st u ok in \<open>simp_all add: goes_done route_inspect_goes route_resolution_goes
      route_rules_sources_goes route_source_matches_goes route_source_open_goes route_rules_open_goes
      route_presentation_settings_goes route_source_navigate_goes route_navigation_state_goes
      route_page_refresh_goes\<close>)

subsection \<open>Replies that only report an error\<close>

definition new_deliveries :: "'z bridge_scheme \<Rightarrow> 'z bridge_scheme \<Rightarrow> (nat \<times> pin_op_message) list" where
  "new_deliveries b b' = drop (length (deliveries (wire (br_net b)))) (deliveries (wire (br_net b')))"

definition quiet :: "'z bridge_scheme \<Rightarrow> 'z bridge_scheme \<Rightarrow> bool" where
  "quiet b b' \<longleftrightarrow> br_routes b' = br_routes b \<and> br_registry b' = br_registry b \<and>
     (\<exists>ds. deliveries (wire (br_net b')) = deliveries (wire (br_net b)) @ ds \<and>
        list_all (\<lambda>d. is_error (snd d)) ds)"

interpretation quiet_run: effect_relation quiet
  by unfold_locales (auto simp: quiet_def)

lemma sendMessage_effect:
  "sendMessage env c x b = (r, b') \<Longrightarrow> br_routes b' = br_routes b \<and> br_registry b' = br_registry b \<and>
     deliveries (wire (br_net b')) = deliveries (wire (br_net b)) @
       (if r = Inr True then [(cl_connection c, x)] else [])"
proof -
  obtain ok n where s: "sendConnectionSafely (guarded_send env) (cl_connection c) x (br_net b) = (ok, n)"
    by fastforce
  assume "sendMessage env c x b = (r, b')"
  then show ?thesis using ws.safely_deliveries [OF s] by (auto simp: sendMessage_def s split: if_splits)
qed

lemma quiet_sendMessage:
  assumes e: "is_error x" shows "obeys quiet (sendMessage env c x)"
  unfolding obeys_def
proof
  fix b :: "'a bridge_scheme"
  obtain r b' where s: "sendMessage env c x b = (r, b')" by fastforce
  show "quiet b (snd (sendMessage env c x b))"
    using sendMessage_effect [OF s] e by (auto simp: s quiet_def)
qed

lemma quiet_sendError: "obeys quiet (sendError env c code text fatal)"
  unfolding sendError_def
proof (rule quiet_run.obeys_bind)
  show "obeys quiet (fresh_uuid env)" by (simp add: obeys_def quiet_def fresh_uuid_def randomUUID_def)
qed (simp add: quiet_sendMessage error_message_for_def is_error_def)

lemma quiet_replies:
  "obeys quiet (sendInvalid env c)" "obeys quiet (sendNoBrowser env c)" "obeys quiet (sendNoIde env c)"
  unfolding sendInvalid_def sendNoBrowser_def sendNoIde_def
  by (intro quiet_run.obeys_bind quiet_sendError quiet_run.obeys_ret)+

lemma quiet_new: "quiet b b' \<Longrightarrow> d \<in> set (new_deliveries b b') \<Longrightarrow> is_error (snd d)"
  by (auto simp: quiet_def new_deliveries_def list_all_iff)

lemma reply_state:
  assumes "obeys quiet f" and "f b = (r, b')"
  shows "quiet b b'"
  using quiet_run.obeysD [OF assms(1), of b] by (simp add: assms(2))

lemma sendToClients_effect:
  "sendToClients env cs x b = (Inr n, b') \<Longrightarrow> br_routes b' = br_routes b \<and> br_registry b' = br_registry b \<and>
     (\<exists>ds. deliveries (wire (br_net b')) = deliveries (wire (br_net b)) @ ds \<and> length ds = n \<and>
        list_all (\<lambda>d. snd d = x) ds)"
proof (induction cs arbitrary: b n)
  case (Cons c cs)
  then obtain ok b1 k where s: "sendMessage env c x b = (Inr ok, b1)"
    and t: "sendToClients env cs x b1 = (Inr k, b')" and n: "n = (if ok then k + 1 else k)"
    by (auto simp: bindE_def split: prod.splits sum.splits if_splits)
  from Cons.IH [OF t] sendMessage_effect [OF s] show ?case by (auto simp: n)
qed simp

lemma quiet_delivers_no:
  assumes "obeys quiet f" and "f b = (r, b')" and "(c, x) \<in> set (new_deliveries b b')" and "\<not> is_error x"
  shows False
  using quiet_new [OF reply_state [OF assms(1,2)] assms(3)] assms(4) by simp

lemma send_or_new:
  assumes "send_or env recipient x onFail b = (r, b')" and "obeys quiet onFail"
    and "(c, y) \<in> set (new_deliveries b b')" and "\<not> is_error y"
  shows "c = cl_connection recipient \<and> y = x"
proof -
  obtain r1 b1 where s: "sendMessage env recipient x b = (r1, b1)" by fastforce
  show ?thesis
  proof (cases r1)
    case (Inl e)
    with s assms sendMessage_effect [OF s] show ?thesis
      by (auto simp: send_or_def bindE_def new_deliveries_def)
  next
    case (Inr ok)
    show ?thesis
    proof (cases ok)
      case True
      with s Inr assms sendMessage_effect [OF s] show ?thesis
        by (auto simp: send_or_def bindE_def new_deliveries_def)
    next
      case False
      then have "onFail b1 = (r, b')" using s Inr assms(1) by (simp add: send_or_def bindE_def)
      moreover have "new_deliveries b1 b' = new_deliveries b b'"
        using sendMessage_effect [OF s] Inr False by (simp add: new_deliveries_def)
      ultimately show ?thesis using quiet_delivers_no [OF assms(2)] assms(3,4) by metis
    qed
  qed
qed

lemma routes_do_net: "routes_do f b = (r, b1) \<Longrightarrow> new_deliveries b1 b' = new_deliveries b b' \<and>
    br_registry b1 = br_registry b"
  by (auto simp: routes_do_def new_deliveries_def split: prod.splits)

lemma bind_routes_do:
  "bindE (routes_do f) g b = g (fst (f (br_routes b))) (b\<lparr>br_routes := snd (f (br_routes b))\<rparr>)"
  by (simp add: bindE_def routes_do_def split: prod.split)

lemma new_deliveries_routes [simp]: "new_deliveries (b\<lparr>br_routes := rs\<rparr>) b' = new_deliveries b b'"
  by (simp add: new_deliveries_def)

text \<open>A message forwarded to an IDE goes to the route's owner.\<close>

lemma forward_to_ide_new:
  assumes "forward_to_ide env sender route cap sid mid x b = (r, b')"
    and "(c, y) \<in> set (new_deliveries b b')" and "\<not> is_error y"
  shows "\<exists>ide. getIdeRecipient (br_registry b) route = Some ide \<and> cl_connection ide = c \<and>
    supportsCapability ide cap \<and> y = x"
proof (cases "getIdeRecipient (br_registry b) route")
  case None
  then show ?thesis using assms(1) quiet_delivers_no [OF quiet_replies(3) _ assms(2,3)]
    by (auto simp: forward_to_ide_def)
next
  case (Some ide)
  show ?thesis
  proof (cases "supportsCapability ide cap")
    case True
    have "send_or env ide x (sendNoIde env sender) (b\<lparr>br_routes := snd (resolve sid mid (br_routes b))\<rparr>) = (r, b')"
      using assms(1) Some True by (simp add: forward_to_ide_def bind_routes_do)
    from send_or_new [OF this quiet_replies(3)] assms(2,3) show ?thesis using Some True by auto
  next
    case False
    then show ?thesis using assms(1) Some quiet_delivers_no [OF quiet_replies(3) _ assms(2,3)]
      by (auto simp: forward_to_ide_def)
  qed
qed

subsection \<open>An example bridge\<close>

text \<open>Every socket open and accepting, one browser (connection 1) and one IDE (connection 2).\<close>

definition example_env :: bridge_env where
  "example_env = \<lparr>be_schema = \<lparr>se_uuid = (\<lambda>_. True), se_datetime = (\<lambda>_. True), se_url = (\<lambda>_ _. None),
     se_stringify = (\<lambda>_. Some [])\<rparr>, be_ready = (\<lambda>_ _. OPEN), be_send_throws = (\<lambda>_ _. False),
     be_close_throws = (\<lambda>_ _. False), be_uuid = (\<lambda>_. js ''u'')\<rparr>"

definition example_client :: "string \<Rightarrow> nat \<Rightarrow> client_role \<Rightarrow> registered_client" where
  "example_client cid conn role = \<lparr>cl_id = js cid, cl_connection = conn,
     cl_source = \<lparr>src_role = role, src_id = js cid, src_label = None, src_url = None, src_metadata = []\<rparr>,
     cl_sessionId = js ''s'', cl_authToken = js ''t'',
     cl_capabilities = [CapInspect, CapResolution, CapSourceNavigation, CapSourcePresentation,
       CapAutoRefresh, CapPresentationSettings, CapRulesSources], cl_missedPongs = 0\<rparr>"

definition example_bridge :: "reply_routes \<Rightarrow> bridge" where
  "example_bridge rs = \<lparr>br_registry = [(js ''c'', example_client ''c'' 1 Browser),
     (js ''i'', example_client ''i'' 2 Ide)], br_routes = rs, br_net = \<lparr>wire = [], uuids = 0\<rparr>\<rparr>"

lemmas example_defs = example_client_def example_bridge_def

lemma example_uuids_ok: "uuids_ok example_env"
  by (simp add: example_env_def uuids_ok_def)

lemma example_send:
  "be_ready env = be_ready example_env \<Longrightarrow> be_send_throws env = be_send_throws example_env \<Longrightarrow>
   sendConnectionSafely (guarded_send env) c x n = (True, emit (Sent c x) n)"
  by (simp add: sendConnectionSafely_def guarded_send_def example_env_def)

lemma example_bind_send:
  "message_ok (be_schema example_env) x \<Longrightarrow> bindE (sendMessage example_env c x) f b =
     f True (b\<lparr>br_net := emit (Sent (cl_connection c) x) (br_net b)\<rparr>)"
  by (simp add: bindE_def sendMessage_def example_send)

lemma example_send_or:
  "message_ok (be_schema example_env) x \<Longrightarrow> send_or example_env c x f b =
     (Inr (), b\<lparr>br_net := emit (Sent (cl_connection c) x) (br_net b)\<rparr>)"
  by (simp add: send_or_def example_bind_send)

lemma bind_on_routes:
  "f (br_routes b) = (Inr x, rs) \<Longrightarrow> bindE (on_routes f) k b = k x (b\<lparr>br_routes := rs\<rparr>)"
  by (simp add: bindE_def on_routes_def)

lemma bindE_Pair: "bindE (Pair (Inr x)) f = f x"
  by (rule ext) (simp add: bindE_def)

lemmas send_eval = bindE_Pair bindE_assoc bind_on_routes bind_routes_do example_bind_send example_send_or

definition example_open :: source_open_message where
  "example_open = \<lparr>messageId = js ''o'', sessionId = js ''s'', inspectMessageId = js ''m'',
     so_resolutionGeneration = 3, so_matchId = js ''x''\<rparr>"

definition example_rules_open :: rules_open_message where
  "example_rules_open = \<lparr>messageId = js ''o'', sessionId = js ''s'', inspectMessageId = js ''m'',
     rom_rulesGeneration = 1, rom_openAuthorityId = js ''a'', rom_declaration = None\<rparr>"

definition example_rules_sources :: rules_sources_message where
  "example_rules_sources = \<lparr>messageId = js ''o'', sessionId = js ''s'', inspectMessageId = js ''m'',
     rsm_sourceId = js ''i'', rsm_rulesGeneration = 1,
     rsm_sources = [\<lparr>rs_ruleRef = js ''r'', rs_openAuthorityId = js ''a'', rs_label = js ''l'',
       rs_languageId = Css, rs_startLine = 1, rs_startColumn = 1, rs_confidence = ExactSource\<rparr>],
     rsm_unresolvedRuleCount = 0\<rparr>"

definition example_inspect :: inspect_message where
  "example_inspect = \<lparr>messageId = js ''n'', metadata = [], insp_sessionId = js ''s'',
     insp_source = cl_source (example_client ''c'' 1 Browser), insp_ideHighlightEnabled = False,
     insp_targets = [\<lparr>tgt_role = Selected, tgt_depth = 0, tgt_subject = \<lparr>sub_selector = None,
       sub_nodeId = None, sub_text = None, sub_attributes = None, sub_metadata = []\<rparr>,
       tgt_facts = [], tgt_metadata = []\<rparr>],
     insp_ruleEvidence = \<lparr>eb_rules = [], eb_omittedRuleCount = 0\<rparr>,
     insp_context = \<lparr>ctx_url = js ''u'', ctx_frameId = None, ctx_route = None, ctx_metadata = []\<rparr>\<rparr>"

definition example_matched :: reply_routes where
  "example_matched = snd (replaceMatchIds (js ''s'') (js ''m'') (js ''i'') 3 [js ''x'']
     (snd (claimResolution (js ''s'') (js ''m'') (js ''i'') 3 example_one)))"

definition example_published :: reply_routes where
  "example_published = snd (commit_preparation (the (prepareRulesSources (js ''s'') (js ''m'') (js ''i'')
     (JInt 1) [(js ''r'', js ''a'')] (JInt 0) example_one)) example_one)"

lemma find_own_route [simp]: "find_route (own_route sid mid r ide rs) = find_route rs"
  by (rule find_route_cong) simp

lemma find_example_matched:
  "find_route example_matched (js ''s'') (js ''m'') =
     Some ((claimed_route (js ''i'') 3 True (new_route (js ''c'') [js ''r''] example_empty))
       \<lparr>rt_matchIds := [js ''x'']\<rparr>)"
  by (simp add: example_matched_def replaceMatchIds_def claimResolution_def claimAuthority_eq
      claim_allowed_def claimed_route_def new_route_def find_route_put Let_def set_of_def set_add_def)

lemma find_example_published:
  "\<exists>r. find_route example_published (js ''s'') (js ''m'') = Some r \<and> rt_origin r = js ''c'' \<and>
     rt_ide r = Some (js ''i'') \<and> rt_rulesGen r = Some 1 \<and> rt_openIds r = [js ''a'']"
  by (simp add: example_published_def prepareRulesSources_def next_rules_generation_def
      commit_preparation_eq published_route_def new_route_def find_route_put set_add_def)

lemma example_rules_sources_ok: "message_ok (be_schema example_env) (RulesSources example_rules_sources)"
  by (simp add: rules_sources_ok_def example_rules_sources_def example_env_def opaqueId_def text_between_def
      generation_ok_def limit_defs rules_source_ok_def rules_source_label_ok_def line_ok_def column_ok_def
      serialized_budget_ok_def forbidden_label_def scheme_prefix_def js_def unit_of_char_def)

lemma example_inspect_ok: "message_ok (be_schema example_env) (Inspect example_inspect)"
  by (simp add: inspect_message_ok_def example_inspect_def example_env_def example_client_def
      client_source_ok_def text_between_def opt_ok_def limit_defs inspect_target_ok_def
      inspect_subject_ok_def evidence_batch_ok_def count_ok_def inspect_context_ok_def
      inspect_refined_def targets_refined_def serialized_budget_ok_def)

subsection \<open>Properties\<close>

text \<open>C4: routing a valid message of a client never throws and keeps the reply routes consistent;
  everything it delivers is either an error report to the sender or the unchanged message to a
  registered client of the sender's session on the other side, so nothing crosses sessions and
  nothing passes between two browsers or two IDEs.\<close>

theorem routing_isolates_sessions:
  assumes "uuids_ok env" and "routes_inv (br_routes b)" and "message_ok (be_schema env) m"
  shows "\<exists>b'. routeMessage env sender m b = (Inr (), b') \<and> routes_inv (br_routes b') \<and>
    br_registry b' = br_registry b \<and>
    list_all (\<lambda>(c, x). c = cl_connection sender \<and> is_error x \<or>
      x = m \<and> (\<exists>r. r \<in> set (registry_all (br_registry b)) \<and> cl_connection r = c \<and>
        cl_sessionId r = cl_sessionId sender \<and>
        (role_of sender = Ide \<and> role_of r \<in> {Browser, Simulator} \<or>
         role_of sender \<in> {Browser, Simulator} \<and> role_of r = Ide)))
      (new_deliveries b b')"
proof -
  have "routing_state (br_registry b) b" using assms(2) by (simp add: routing_state_def)
  from routeMessage_goes [OF this assms(1,3), of sender] obtain b' where
    b': "routeMessage env sender m b = (Inr (), b')" "routing_state (br_registry b) b'"
      "routed (br_registry b) sender m b b'" by (auto simp: goes_def)
  then obtain ds where "new_deliveries b b' = ds" "list_all (delivery_ok (br_registry b) sender m) ds"
    by (auto simp: routed_def new_deliveries_def)
  then have "list_all (delivery_ok (br_registry b) sender m) (new_deliveries b b')" by simp
  then have "list_all (\<lambda>(c, x). c = cl_connection sender \<and> is_error x \<or>
      x = m \<and> (\<exists>r. r \<in> set (registry_all (br_registry b)) \<and> cl_connection r = c \<and>
        cl_sessionId r = cl_sessionId sender \<and>
        (role_of sender = Ide \<and> role_of r \<in> {Browser, Simulator} \<or>
         role_of sender \<in> {Browser, Simulator} \<and> role_of r = Ide)))
      (new_deliveries b b')"
  proof (rule list.pred_mono_strong, clarify)
    fix c x assume "delivery_ok (br_registry b) sender m (c, x)"
      "\<not> (x = m \<and> (\<exists>r. r \<in> set (registry_all (br_registry b)) \<and> cl_connection r = c \<and>
        cl_sessionId r = cl_sessionId sender \<and>
        (role_of sender = Ide \<and> role_of r \<in> {Browser, Simulator} \<or>
         role_of sender \<in> {Browser, Simulator} \<and> role_of r = Ide)))"
    then show "c = cl_connection sender \<and> is_error x"
      unfolding delivery_ok_def counterpart_def browser_side_def registry_all_def fst_conv snd_conv
        insert_iff empty_iff by blast
  qed
  then show ?thesis using b' unfolding routing_state_def by blast
qed

theorem routing_isolates_sessions_witness:
  "\<exists>b'. routeMessage example_env (example_client ''i'' 2 Ide) (RulesSources example_rules_sources)
      (example_bridge example_one) = (Inr (), b') \<and> routes_inv (br_routes b')"
proof -
  have "message_ok (be_schema example_env) (RulesSources example_rules_sources)"
    by (rule example_rules_sources_ok)
  moreover have "routes_inv (br_routes (example_bridge example_one))"
    by (simp add: example_bridge_def example_one_inv)
  ultimately show ?thesis
    using routing_isolates_sessions [OF example_uuids_ok, of "example_bridge example_one"] by blast
qed

text \<open>C5: an IDE is asked to open a source only by the browser connection that owns the route,
  only for a match the IDE has published under the route's current resolution generation, and
  only if it owns the route.\<close>

theorem source_open_authorised:
  assumes "routeMessage env sender (SourceOpen m) b = (r, b')"
    and "(c, SourceOpen m') \<in> set (new_deliveries b b')"
  shows "\<exists>route ide. find_route (br_routes b) (sessionId m) (inspectMessageId m) = Some route \<and>
    m' = m \<and> rt_origin route = cl_id sender \<and> rt_resGen route = Some (so_resolutionGeneration m) \<and>
    so_matchId m \<in> set (rt_matchIds route) \<and>
    rt_ide route \<noteq> None \<and> jget (br_registry b) (the (rt_ide route)) = Some ide \<and>
    cl_connection ide = c \<and> cl_sessionId ide = cl_sessionId sender"
proof -
  have ne: "\<not> is_error (SourceOpen m')" by (simp add: is_error_def)
  note no = quiet_delivers_no [OF quiet_replies(1) _ assms(2) ne]
  have g: "sessionId m = cl_sessionId sender"
    using assms(1) no by (auto simp: route_source_open_def split: if_splits)
  obtain route where rt: "find_route (br_routes b) (sessionId m) (inspectMessageId m) = Some route"
    using assms(1) no by (auto simp: route_source_open_def get_route_def split: if_splits option.splits)
  have c: "rt_origin route = cl_id sender" "rt_resGen route = Some (so_resolutionGeneration m)"
    "so_matchId m \<in> set (rt_matchIds route)"
    "forward_to_ide env sender (snapshot (sessionId m) (inspectMessageId m) route) CapSourcePresentation
       (sessionId m) (inspectMessageId m) (SourceOpen m) b = (r, b')"
    using assms(1) no rt
    by (auto simp: route_source_open_def get_route_def snapshot_def split: if_splits)
  from forward_to_ide_new [OF c(4) assms(2) ne] show ?thesis using rt c(1-3) g
    by (auto simp: getIdeRecipient_def snapshot_def registry_get_def split: option.splits if_splits)
qed

theorem source_open_authorised_witness:
  "\<exists>r b'. routeMessage example_env (example_client ''c'' 1 Browser) (SourceOpen example_open)
      (example_bridge example_matched) = (r, b') \<and>
    (\<exists>route. find_route example_matched (js ''s'') (js ''m'') = Some route \<and>
       js ''x'' \<in> set (rt_matchIds route))"
proof -
  let ?b = "example_bridge example_matched"
  obtain r b' where run: "routeMessage example_env (example_client ''c'' 1 Browser) (SourceOpen example_open) ?b
      = (r, b')" by fastforce
  then have "(2, SourceOpen example_open) \<in> set (new_deliveries ?b b')"
    using find_example_matched
    by (auto simp: route_source_open_def forward_to_ide_def getIdeRecipient_def registry_get_def
        get_route_def snapshot_def claimed_route_def new_route_def example_open_def example_defs
        supportsCapability_def send_eval new_deliveries_def source_open_ok_def opaqueId_def
        text_between_def generation_ok_def limit_defs set_of_def set_add_def)
  from source_open_authorised [OF run this] show ?thesis using run
    by (auto simp: example_open_def example_bridge_def)
qed

text \<open>C6: an IDE is asked to open a rule source only by the browser connection that started the
  route, only under the route's current rules generation and for an authority id granted with
  it, and only if it owns the route.\<close>

theorem rules_open_authorised:
  assumes "routeMessage env sender (RulesOpen m) b = (r, b')"
    and "(c, RulesOpen m') \<in> set (new_deliveries b b')"
  shows "\<exists>route ide. find_route (br_routes b) (sessionId m) (inspectMessageId m) = Some route \<and>
    m' = m \<and> rt_origin route = cl_id sender \<and> rt_rulesGen route = Some (rom_rulesGeneration m) \<and>
    rom_openAuthorityId m \<in> set (rt_openIds route) \<and>
    rt_ide route \<noteq> None \<and> jget (br_registry b) (the (rt_ide route)) = Some ide \<and>
    cl_connection ide = c \<and> cl_sessionId ide = cl_sessionId sender"
proof -
  have ne: "\<not> is_error (RulesOpen m')" by (simp add: is_error_def)
  note no = quiet_delivers_no [OF quiet_replies(1) _ assms(2) ne]
  have g: "sessionId m = cl_sessionId sender"
    using assms(1) no by (auto simp: route_rules_open_def split: if_splits)
  let ?out = "authorizeRulesOpen (sessionId m) (inspectMessageId m) (cl_id sender)
      (rom_rulesGeneration m) (rom_openAuthorityId m) (br_routes b)"
  let ?b1 = "b\<lparr>br_routes := snd ?out\<rparr>"
  have new: "(c, RulesOpen m') \<in> set (new_deliveries ?b1 b')" using assms(2) by simp
  have no1: "sendInvalid env sender ?b1 \<noteq> (r, b')" "sendNoIde env sender ?b1 \<noteq> (r, b')"
    using quiet_delivers_no [OF quiet_replies(1) _ new ne] quiet_delivers_no [OF quiet_replies(3) _ new ne]
    by blast+
  have run: "(case fst ?out of
          None \<Rightarrow> sendInvalid env sender
        | Some route' \<Rightarrow> (case getIdeRecipient (br_registry b) route' of
            None \<Rightarrow> sendNoIde env sender
          | Some recipient \<Rightarrow>
              if \<not> supportsCapability recipient CapRulesSources then sendNoIde env sender
              else send_or env recipient (RulesOpen m) (sendNoIde env sender))) ?b1 = (r, b')"
    using assms(1) no by (auto simp: route_rules_open_def bind_routes_do split: if_splits)
  obtain snap where s: "fst ?out = Some snap" using run no1 by (cases "fst ?out") auto
  obtain ide where ide: "getIdeRecipient (br_registry b) snap = Some ide"
    using run no1 s by (cases "getIdeRecipient (br_registry b) snap") auto
  have "send_or env ide (RulesOpen m) (sendNoIde env sender) ?b1 = (r, b')"
    using run no1 s ide by (cases "supportsCapability ide CapRulesSources") auto
  from send_or_new [OF this quiet_replies(3) new ne] show ?thesis using s ide g
    by (auto simp: authorizeRulesOpen_def getIdeRecipient_def snapshot_def registry_get_def
        split: option.splits if_splits)
qed

lemma commit_prepared:
  assumes "prepareRulesSources sid mid ide gen sources un rs = Some p"
  shows "fst (commit_preparation p rs)"
  using assms by (auto simp: prepareRulesSources_def commit_preparation_eq
      split: option.splits jsnum.splits prod.splits if_splits)

theorem rules_open_authorised_witness:
  "\<exists>r b'. routeMessage example_env (example_client ''c'' 1 Browser) (RulesOpen example_rules_open)
      (example_bridge example_published) = (r, b') \<and>
    (\<exists>route. find_route example_published (js ''s'') (js ''m'') = Some route \<and>
       js ''a'' \<in> set (rt_openIds route))"
proof -
  let ?b = "example_bridge example_published"
  obtain r b' where run: "routeMessage example_env (example_client ''c'' 1 Browser) (RulesOpen example_rules_open) ?b
      = (r, b')" by fastforce
  then have "(2, RulesOpen example_rules_open) \<in> set (new_deliveries ?b b')"
    using find_example_published
    by (auto simp: route_rules_open_def authorizeRulesOpen_def getIdeRecipient_def registry_get_def
        snapshot_def example_rules_open_def example_defs supportsCapability_def send_eval
        new_deliveries_def rules_open_ok_def opaqueId_def opt_ok_def
        text_between_def generation_ok_def limit_defs)
  from rules_open_authorised [OF run this] show ?thesis using run
    by (auto simp: example_rules_open_def example_bridge_def)
qed

text \<open>Publishing rule sources is atomic: either the browser received the message and the
  route now grants exactly its authority ids under its generation to the publishing IDE, or the
  browser received nothing and no route changed.\<close>

theorem rules_sources_atomic:
  assumes "routeMessage env sender (RulesSources m) b = (Inr (), b')"
  shows "if \<exists>c. (c, RulesSources m) \<in> set (new_deliveries b b')
    then \<exists>route. find_route (br_routes b') (sessionId m) (inspectMessageId m) = Some route \<and>
      rt_ide route = Some (cl_id sender) \<and> rt_rulesGen route = Some (rsm_rulesGeneration m) \<and>
      rt_openIds route = map rs_openAuthorityId (rsm_sources m)
    else br_routes b' = br_routes b"
proof (cases "quiet b b'")
  case True
  then have "\<not> (\<exists>c. (c, RulesSources m) \<in> set (new_deliveries b b'))"
    using quiet_new by (fastforce simp: is_error_def)
  then show ?thesis using True by (simp add: quiet_def)
next
  case False
  have no: "sendInvalid env sender b \<noteq> (Inr (), b')" "sendNoBrowser env sender b \<noteq> (Inr (), b')"
    using reply_state [OF quiet_replies(1)] reply_state [OF quiet_replies(2)] False by blast+
  obtain route recipient p where p: "prepareRulesSources (sessionId m) (inspectMessageId m) (cl_id sender)
      (JInt (rsm_rulesGeneration m)) (source_authorities (rsm_sources m))
      (JInt (rsm_unresolvedRuleCount m)) (br_routes b) = Some p"
    and run: "bindE (sendMessage env recipient (RulesSources m)) (\<lambda>ok.
        if \<not> ok then sendNoBrowser env sender
        else bindE (routes_do (commit_preparation p)) (\<lambda>committed.
          if committed then ret () else sendNoBrowser env sender)) b = (Inr (), b')"
    using assms False no by (auto simp: route_rules_sources_def split: if_splits option.splits)
  obtain ok b1 where s: "sendMessage env recipient (RulesSources m) b = (Inr ok, b1)"
    using run by (auto simp: bindE_def split: prod.splits sum.splits)
  note eff = sendMessage_effect [OF s]
  have ok: ok
  proof (rule ccontr)
    assume "\<not> ok"
    then have "sendNoBrowser env sender b1 = (Inr (), b')" using run s by (simp add: bindE_def)
    from reply_state [OF quiet_replies(2) this] have "quiet b b'" using eff \<open>\<not> ok\<close> by (simp add: quiet_def)
    with False show False ..
  qed
  then have b': "b' = b1\<lparr>br_routes := snd (commit_preparation p (br_routes b))\<rparr>"
    using run ok eff commit_prepared [OF p]
    by (simp add: bindE_def [of "sendMessage env recipient (RulesSources m)"] s bind_routes_do)
  have "(cl_connection recipient, RulesSources m) \<in> set (new_deliveries b b')"
    using eff ok by (simp add: b' new_deliveries_def)
  moreover have pf: "rp_sessionId p = sessionId m" "rp_inspectMessageId p = inspectMessageId m"
      "rp_ide p = cl_id sender" "rp_rulesGeneration p = rsm_rulesGeneration m"
      "rp_authorityIds p = map rs_openAuthorityId (rsm_sources m)"
    using p by (auto simp: prepareRulesSources_def collect_sources_eq source_authorities_def o_def
        split: option.splits if_splits)
  moreover have "\<exists>r. find_route (br_routes b') (sessionId m) (inspectMessageId m) = Some (published_route p r)"
    using commit_prepared [OF p] pf(1,2)
    by (auto simp: b' commit_preparation_eq find_route_put split: option.splits if_splits)
  ultimately show ?thesis by (auto simp: published_route_def)
qed

lemma find_route_insert: "find_route (insert_route sid mid c proposed rs) sid mid = Some (new_route c proposed rs)"
  unfolding route_at_key [symmetric] route_at_insert by simp

lemma commit_registered:
  assumes "commit_registration (register sid mid c refs rs) rs = (Inr ok, rs')"
    and "rg_status (register sid mid c refs rs) \<noteq> Collision"
  shows "ok \<and> peek sid mid rs' = Some c"
proof (cases "find_route rs sid mid")
  case (Some r)
  with assms show ?thesis
    by (auto simp: register_def createDeferredRegistration_def createSettledRegistration_def
        commit_registration_def peek_def Let_def split: if_splits)
next
  case None
  with assms show ?thesis
    by (auto simp: register_def createDeferredRegistration_def commit_registration_def peek_def Let_def
        bindE_def find_route_insert new_route_def split: prod.splits sum.splits)
qed

theorem rules_sources_atomic_witness:
  "\<exists>b'. routeMessage example_env (example_client ''i'' 2 Ide) (RulesSources example_rules_sources)
      (example_bridge example_one) = (Inr (), b') \<and>
    (\<exists>route. find_route (br_routes b') (js ''s'') (js ''m'') = Some route \<and> rt_openIds route = [js ''a''])"
proof -
  let ?b = "example_bridge example_one"
  have "routing_state (br_registry ?b) ?b" by (simp add: routing_state_def example_bridge_def example_one_inv)
  from routeMessage_goes [OF this example_uuids_ok example_rules_sources_ok, of "example_client ''i'' 2 Ide"]
  obtain b' where run: "routeMessage example_env (example_client ''i'' 2 Ide)
      (RulesSources example_rules_sources) ?b = (Inr (), b')" by (auto simp: goes_def)
  have "(1, RulesSources example_rules_sources) \<in> set (new_deliveries ?b b')"
    using run example_rules_sources_ok
    by (auto simp: route_rules_sources_def getOriginRecipient_def registry_get_def get_route_def
        snapshot_def new_route_def example_defs supportsCapability_def send_eval prepareRulesSources_def
        next_rules_generation_def collect_sources_eq source_authorities_def example_rules_sources_def
        new_deliveries_def commit_preparation_eq)
  then show ?thesis using run rules_sources_atomic [OF run]
    by (auto simp: example_rules_sources_def split: if_splits)
qed

text \<open>C27: an inspect message that reaches at least one IDE leaves a reply route from that message
  back to the browser connection that sent it; if it reaches none, no route changes.\<close>

theorem inspect_atomic:
  assumes "routeMessage env sender (Inspect m) b = (Inr (), b')"
  shows "if \<exists>c. (c, Inspect m) \<in> set (new_deliveries b b')
    then peek (insp_sessionId m) (messageId m) (br_routes b') = Some (cl_id sender)
    else br_routes b' = br_routes b"
proof (cases "quiet b b'")
  case True
  then have "\<not> (\<exists>c. (c, Inspect m) \<in> set (new_deliveries b b'))"
    using quiet_new by (fastforce simp: is_error_def)
  then show ?thesis using True by (simp add: quiet_def)
next
  case False
  have no: "sendInvalid env sender b \<noteq> (Inr (), b')"
    using reply_state [OF quiet_replies(1)] False by blast
  define g where "g = register (insp_sessionId m) (messageId m) (cl_id sender)
      (map ev_ruleRef (eb_rules (insp_ruleEvidence m))) (br_routes b)"
  define cs where "cs = filter (\<lambda>c. supportsCapability c CapResolution)
      (findBySessionAndRole (br_registry b) (insp_sessionId m) Ide)"
  have skip: "(if c then x else y) = z \<Longrightarrow> x \<noteq> z \<Longrightarrow> \<not> c \<and> y = z"
    for c and x y z :: "(bridge_error + unit) \<times> 'a bridge_scheme"
    by (simp split: if_splits)
  from assms have "route_inspect env sender m b = (Inr (), b')" by simp
  note eqs = this [unfolded route_inspect_def Let_def, folded g_def, folded cs_def]
  from skip [OF conjunct2 [OF skip [OF eqs no]] no] have status: "rg_status g \<noteq> Collision"
    and run: "bindE (sendToClients env cs (Inspect m)) (\<lambda>sent.
        if sent = 0 then sendNoIde env sender
        else bindE (on_routes (commit_registration g)) (\<lambda>committed.
          if committed then ret () else sendInvalid env sender)) b = (Inr (), b')"
    by simp_all
  obtain n b1 where s: "sendToClients env cs (Inspect m) b = (Inr n, b1)"
    using run by (auto simp: bindE_def split: prod.splits sum.splits)
  obtain ds where eff: "br_routes b1 = br_routes b" "br_registry b1 = br_registry b"
    "deliveries (wire (br_net b1)) = deliveries (wire (br_net b)) @ ds" "length ds = n"
    "list_all (\<lambda>d. snd d = Inspect m) ds"
    using sendToClients_effect [OF s] by blast
  have n: "n \<noteq> 0"
  proof
    assume "n = 0"
    then have "sendNoIde env sender b1 = (Inr (), b')" using run
      by (simp add: bindE_def [of "sendToClients env cs (Inspect m)"] s)
    from reply_state [OF quiet_replies(3) this] have "quiet b b'"
      using eff \<open>n = 0\<close> by (simp add: quiet_def)
    with False show False ..
  qed
  have run': "bindE (on_routes (commit_registration g)) (\<lambda>committed.
      if committed then ret () else sendInvalid env sender) b1 = (Inr (), b')"
    using run n by (simp add: bindE_def [of "sendToClients env cs (Inspect m)"] s)
  then obtain ok rs' where c: "commit_registration g (br_routes b) = (Inr ok, rs')"
    by (auto simp: bindE_def on_routes_def eff split: prod.splits sum.splits)
  with commit_registered [of _ _ _ _ "br_routes b" ok rs'] status
  have ok: "ok" "peek (insp_sessionId m) (messageId m) rs' = Some (cl_id sender)"
    unfolding g_def by blast+
  then have b': "b' = b1\<lparr>br_routes := rs'\<rparr>"
    using run' c by (simp add: bindE_def on_routes_def eff)
  obtain d ds' where ds: "ds = d # ds'" using n eff(4) by (cases ds) auto
  then have "(fst d, Inspect m) \<in> set (new_deliveries b b')"
    using eff(3,5) by (cases d) (simp add: b' new_deliveries_def)
  then show ?thesis using ok(2) by (auto simp: b')
qed

theorem inspect_atomic_witness:
  "\<exists>b'. routeMessage example_env (example_client ''c'' 1 Browser) (Inspect example_inspect)
      (example_bridge example_empty) = (Inr (), b') \<and>
    peek (js ''s'') (js ''n'') (br_routes b') = Some (js ''c'')"
proof -
  let ?b = "example_bridge example_empty"
  let ?sender = "example_client ''c'' 1 Browser"
  have "routing_state (br_registry ?b) ?b" by (simp add: routing_state_def example_bridge_def example_empty_inv)
  from routeMessage_goes [OF this example_uuids_ok example_inspect_ok, of ?sender]
  obtain b' where run: "routeMessage example_env ?sender (Inspect example_inspect) ?b = (Inr (), b')"
    by (auto simp: goes_def)
  have g: "register (js ''s'') (js ''n'') (js ''c'') [] example_empty =
      \<lparr>rg_status = Created, rg_apply = ApplyCreate (js ''s'') (js ''n'') (js ''c'') [] None,
        rg_expectedRevision = revision example_empty, rg_settled = False\<rparr>"
    by (simp add: register_def createDeferredRegistration_def Let_def set_of_def example_empty_def
        new_system_def find_route_def)
  have "(2, Inspect example_inspect) \<in> set (new_deliveries ?b b')"
    using run example_inspect_ok
    by (auto simp: route_inspect_def example_defs example_inspect_def findBySessionAndRole_def
        registry_all_def supportsCapability_def send_eval g new_deliveries_def commit_registration_def)
  then show ?thesis using run inspect_atomic [OF run]
    by (auto simp: example_inspect_def example_client_def split: if_splits)
qed

end
