(* ===== verification/Bridge_Server.thy ===== *)
theory Bridge_Server
  imports Router_Properties Link_Text
begin

text \<open>
  \<^verbatim>\<open>packages/bridge/src/server.ts\<close> and \<^verbatim>\<open>heartbeat.ts\<close>: the life of a connection from its link
  request or hello to its close, the checks on what an authenticated client may send, IDE
  presence and the heartbeat. A handler is an \<open>eff\<close> over the whole server; the closure variables
  of \<^verbatim>\<open>handleConnection\<close> (\<^verbatim>\<open>registered\<close>, \<^verbatim>\<open>linkAttempted\<close>, \<^verbatim>\<open>closing\<close>) are a record per connection.
  Count listeners are outside code: \<open>sv_counts\<close> logs the counts they were called with.
\<close>

subsection \<open>Environment and state\<close>

text \<open>
  \<open>en_json\<close> is \<^verbatim>\<open>JSON.parse\<close> (\<open>None\<close> where it throws), \<open>en_decode\<close> the shape check of the strict
  object schemas, \<open>en_iso\<close> is \<^verbatim>\<open>toISOString\<close> and \<open>en_protocol\<close> the \<^verbatim>\<open>protocol\<close> of a parsed \<^verbatim>\<open>URL\<close>.
\<close>

record server_env =
  en_bridge :: bridge_env
  en_json :: "jstring \<Rightarrow> json option"
  en_decode :: "json \<Rightarrow> pin_op_message option"
  en_iso :: "js_date \<Rightarrow> jstring"
  en_protocol :: "jstring \<Rightarrow> jstring option"

record conn_state =
  co_registered :: "registered_client option"
  co_linkAttempted :: bool
  co_closing :: bool
  co_timer :: bool
  co_active :: bool

record server = bridge +
  sv_peers :: peer_registry
  sv_auth :: link_authenticator
  sv_conns :: "(nat, conn_state) jmap"
  sv_counts :: "(nat \<times> nat) list"

type_synonym 'a server_eff = "(server, bridge_error, 'a) eff"

text \<open>
  \<^verbatim>\<open>createBridgeServer\<close>: the checks on the host and the payload limit, then the registries. The
  instance id and the PIN are the random ones of \<^verbatim>\<open>new LinkAuthenticator\<close>. The port, the timer
  lengths and their checks concern the runtime and are left out.
\<close>

definition BRIDGE_MAX_PAYLOAD_BYTES :: int where "BRIDGE_MAX_PAYLOAD_BYTES = 1024 * 1024"

datatype create_error = HostRejected | PayloadLimitRejected | RoutesFailed route_error
  | AuthenticatorFailed auth_error

definition payload_limit_ok :: "jsnum option \<Rightarrow> bool" where
  "payload_limit_ok options_max =
     (case (case options_max of None \<Rightarrow> JInt BRIDGE_MAX_PAYLOAD_BYTES | Some m \<Rightarrow> m) of
        JNonInt \<Rightarrow> False | JInt m \<Rightarrow> \<not> (m \<le> 0 \<or> m > BRIDGE_MAX_PAYLOAD_BYTES))"

definition createBridgeServer ::
  "server_env \<Rightarrow> jstring option \<Rightarrow> jsnum option \<Rightarrow> jstring option \<Rightarrow> jstring \<Rightarrow> jstring \<Rightarrow>
   create_error + server" where
  "createBridgeServer env options_host options_max options_sessionId random_instance random_pin =
     (if (case options_host of None \<Rightarrow> js ''127.0.0.1'' | Some h \<Rightarrow> h) \<noteq> js ''127.0.0.1''
      then Inl HostRejected
      else if \<not> payload_limit_ok options_max then Inl PayloadLimitRejected
      else (case new_ReplyRouteRegistry None of
          Inl e \<Rightarrow> Inl (RoutesFailed e)
        | Inr routes \<Rightarrow>
            (case new_LinkAuthenticator (be_schema (en_bridge env))
                (case options_sessionId of None \<Rightarrow> js ''default'' | Some sid \<Rightarrow> sid)
                random_instance random_pin of
               Inl e \<Rightarrow> Inl (AuthenticatorFailed e)
             | Inr auth \<Rightarrow> Inr \<lparr>br_registry = [], br_routes = routes,
                 br_net = \<lparr>wire = [], uuids = 0\<rparr>, sv_peers = [], sv_auth = auth, sv_conns = [],
                 sv_counts = []\<rparr>)))"

definition new_conn :: conn_state where
  "new_conn = \<lparr>co_registered = None, co_linkAttempted = False, co_closing = False, co_timer = True,
     co_active = True\<rparr>"

definition conn_of :: "server \<Rightarrow> nat \<Rightarrow> conn_state" where
  "conn_of s c = (case jget (sv_conns s) c of None \<Rightarrow> new_conn | Some x \<Rightarrow> x)"

definition set_conn :: "nat \<Rightarrow> (conn_state \<Rightarrow> conn_state) \<Rightarrow> unit server_eff" where
  "set_conn c f s = (Inr (), s\<lparr>sv_conns := jset c (f (conn_of s c)) (sv_conns s)\<rparr>)"

definition clearHandshakeTimer :: "nat \<Rightarrow> unit server_eff" where
  "clearHandshakeTimer c = set_conn c (\<lambda>x. x\<lparr>co_timer := False\<rparr>)"

definition isAllowedWebSocketOrigin :: "server_env \<Rightarrow> jstring \<Rightarrow> bool" where
  "isAllowedWebSocketOrigin env origin =
     (if origin = [] then True
      else (case en_protocol env origin of
          None \<Rightarrow> False
        | Some protocol \<Rightarrow> protocol = js ''moz-extension:'' \<or> protocol = js ''chrome-extension:''))"

subsection \<open>Sending on a socket\<close>

definition sendSocketMessage :: "server_env \<Rightarrow> nat \<Rightarrow> pin_op_message \<Rightarrow> unit server_eff" where
  "sendSocketMessage env c m s =
     (if \<not> message_ok (be_schema (en_bridge env)) m then (Inl SchemaRejected, s)
      else (case sendConnectionSafely (guarded_send (en_bridge env)) c m (br_net s) of
          (_, n) \<Rightarrow> (Inr (), s\<lparr>br_net := n\<rparr>)))"

definition sendSocketError ::
  "server_env \<Rightarrow> nat \<Rightarrow> error_code \<Rightarrow> jstring \<Rightarrow> bool \<Rightarrow> json_object \<Rightarrow> unit server_eff" where
  "sendSocketError env c code text fatal details =
     bindE (fresh_uuid (en_bridge env)) (\<lambda>u. sendSocketMessage env c
       (ErrorMessage \<lparr>messageId = u, metadata = [], err_code = code, err_message = text,
          err_details = Some (jset (js ''fatal'') (JBool fatal) [] @ details)\<rparr>))"

text \<open>\<^verbatim>\<open>createPeerStateMessage\<close>\<close>

definition createPeerStateMessage :: "server_env \<Rightarrow> jstring \<Rightarrow> peer_snapshot \<Rightarrow> pin_op_message server_eff" where
  "createPeerStateMessage env sid snap =
     bindE (fresh_uuid (en_bridge env)) (\<lambda>u. ret (PeerState \<lparr>messageId = u, peer_sessionId = sid,
       peer_connected = peer_is_connected snap, peer_generation = peer_gen snap\<rparr>))"

definition closeConnection :: "server_env \<Rightarrow> nat \<Rightarrow> nat option \<Rightarrow> jstring option \<Rightarrow> unit server_eff" where
  "closeConnection env c code reason =
     bindE (set_conn c (\<lambda>x. x\<lparr>co_closing := True\<rparr>)) (\<lambda>_.
     bindE (clearHandshakeTimer c) (\<lambda>_.
       (\<lambda>s. (Inr (), s\<lparr>br_net := guarded_close (en_bridge env) c code reason (br_net s)\<rparr>))))"

text \<open>The three lines every refusal ends with.\<close>

definition refuse :: "server_env \<Rightarrow> nat \<Rightarrow> error_code \<Rightarrow> jstring \<Rightarrow> unit server_eff" where
  "refuse env c code text =
     bindE (sendSocketError env c code text True []) (\<lambda>_. closeConnection env c None None)"

subsection \<open>Presence and counts\<close>

definition notifyClientCounts :: "unit server_eff" where
  "notifyClientCounts s = (Inr (), s\<lparr>sv_counts := sv_counts s @
     [(countByRole (br_registry s) Browser, countByRole (br_registry s) Ide)]\<rparr>)"

definition publishPeerState :: "server_env \<Rightarrow> peer_transition \<Rightarrow> jstring option \<Rightarrow> unit server_eff" where
  "publishPeerState env t excludedClientId =
     bindE (createPeerStateMessage env (pt_sessionId t) (pt_snapshot t)) (\<lambda>message s.
       for_each (\<lambda>client. if Some (cl_id client) = excludedClientId then ret ()
           else sendSocketMessage env (cl_connection client) message)
         (findBySessionAndRole (br_registry s) (pt_sessionId t) Browser @
          findBySessionAndRole (br_registry s) (pt_sessionId t) Simulator) s)"

definition update_ide_count :: "jstring \<Rightarrow> (peer_transition option) server_eff" where
  "update_ide_count sid s =
     (case updateIdeCount (sv_peers s) sid (JInt (int (countBySessionAndRole (br_registry s) sid Ide))) of
        Inl e \<Rightarrow> (Inl (PeerFailure e), s)
      | Inr (t, peers) \<Rightarrow> (Inr t, s\<lparr>sv_peers := peers\<rparr>))"

definition updatePeerState :: "server_env \<Rightarrow> jstring \<Rightarrow> unit server_eff" where
  "updatePeerState env sid =
     bindE (update_ide_count sid) (\<lambda>transition. case transition of
       None \<Rightarrow> ret () | Some t \<Rightarrow> publishPeerState env t None)"

definition sendCurrentPeerState :: "server_env \<Rightarrow> registered_client \<Rightarrow> unit server_eff" where
  "sendCurrentPeerState env client =
     bindE (update_ide_count (cl_sessionId client)) (\<lambda>transition.
     bindE (case transition of None \<Rightarrow> ret () | Some t \<Rightarrow> publishPeerState env t (Some (cl_id client))) (\<lambda>_ s.
     bindE (createPeerStateMessage env (cl_sessionId client) (peer_get (sv_peers s) (cl_sessionId client)))
       (\<lambda>message. sendSocketMessage env (cl_connection client) message) s))"

definition onClientRemoved :: "server_env \<Rightarrow> registered_client \<Rightarrow> unit server_eff" where
  "onClientRemoved env client =
     bindE (on_routes (removeClient (cl_id client))) (\<lambda>_.
     bindE (if role_of client = Ide then updatePeerState env (cl_sessionId client) else ret ()) (\<lambda>_.
       notifyClientCounts))"

definition registry_remove_do :: "jstring \<Rightarrow> bool server_eff" where
  "registry_remove_do cid s = (case registry_remove cid (br_registry s) of
     (removed, reg) \<Rightarrow> (Inr removed, s\<lparr>br_registry := reg\<rparr>))"

text \<open>\<^verbatim>\<open>if (registry.remove(id)) onClientRemoved(client) else replyRoutes.removeClient(id)\<close>\<close>

definition drop_client :: "server_env \<Rightarrow> registered_client \<Rightarrow> unit server_eff" where
  "drop_client env client =
     bindE (registry_remove_do (cl_id client)) (\<lambda>removed.
       if removed then onClientRemoved env client else on_routes (removeClient (cl_id client)))"

definition removeRegistration :: "server_env \<Rightarrow> nat \<Rightarrow> unit server_eff" where
  "removeRegistration env c s =
     (let client = co_registered (conn_of s c)
      in bindE (set_conn c (\<lambda>x. x\<lparr>co_registered := None\<rparr>)) (\<lambda>_.
           case client of None \<Rightarrow> ret () | Some cl \<Rightarrow> drop_client env cl) s)"

subsection \<open>Linking and authentication\<close>

definition authenticate_do ::
  "(link_authenticator \<Rightarrow> (auth_error + 'a) \<times> link_authenticator) \<Rightarrow> 'a server_eff" where
  "authenticate_do f s = (case f (sv_auth s) of
     (Inl e, a) \<Rightarrow> (Inl (AuthFailure e), s\<lparr>sv_auth := a\<rparr>)
   | (Inr x, a) \<Rightarrow> (Inr x, s\<lparr>sv_auth := a\<rparr>))"

definition handleLinkRequest ::
  "server_env \<Rightarrow> nat \<Rightarrow> link_request_message \<Rightarrow> js_date \<Rightarrow> jstring \<Rightarrow> bool server_eff" where
  "handleLinkRequest env c m now_date random_hex =
     (let role = src_role (link_source m)
      in if role \<noteq> Browser \<and> role \<noteq> Simulator
         then bindE (sendSocketError env c ProtocolInvalidMessage
           (js ''Message does not match protocol'') True []) (\<lambda>_. ret False)
         else bindE (authenticate_do (attemptLink (link_pin m) role now_date random_hex)) (\<lambda>attempt.
           case attempt of
             LinkOk sid inst token \<Rightarrow>
               bindE (fresh_uuid (en_bridge env)) (\<lambda>u.
               bindE (sendSocketMessage env c (LinkAccepted \<lparr>messageId = u, metadata = [],
                 accepted_sessionId = sid, accepted_bridgeInstanceId = inst,
                 accepted_authToken = at_value token,
                 accepted_expiresAt = en_iso env (at_expiresAt token)\<rparr>)) (\<lambda>_. ret True))
           | LinkRateLimitedUntil retryAt \<Rightarrow>
               bindE (sendSocketError env c LinkRateLimited (js ''Link request rate limited'') False
                 [(js ''retryAt'', JStr (en_iso env retryAt))]) (\<lambda>_. ret False)
           | LinkRejectedAttempt \<Rightarrow>
               bindE (sendSocketError env c LinkRejected (js ''Link request rejected'') False [])
                 (\<lambda>_. ret False)))"

definition registry_add_do :: "server_env \<Rightarrow> client_registration \<Rightarrow> registered_client server_eff" where
  "registry_add_do env r s = (case registry_add (en_bridge env) r (br_registry s) (br_net s) of
     (client, reg, n) \<Rightarrow> (Inr client, s\<lparr>br_registry := reg, br_net := n\<rparr>))"

definition accept_hello :: "server_env \<Rightarrow> nat \<Rightarrow> hello_message \<Rightarrow> jstring \<Rightarrow> unit server_eff" where
  "accept_hello env c m inst =
     bindE (clearHandshakeTimer c) (\<lambda>_.
     bindE (registry_add_do env \<lparr>rn_connection = c, rn_source = hello_source m,
       rn_sessionId = hello_sessionId m, rn_authToken = hello_authToken m,
       rn_capabilities = hello_capabilities m\<rparr>) (\<lambda>client.
     bindE (set_conn c (\<lambda>x. x\<lparr>co_registered := Some client\<rparr>)) (\<lambda>_.
     bindE notifyClientCounts (\<lambda>_.
     bindE (fresh_uuid (en_bridge env)) (\<lambda>u.
     bindE (sendSocketMessage env c (Authenticated \<lparr>messageId = u, metadata = [],
       authed_sessionId = hello_sessionId m, authed_bridgeInstanceId = inst\<rparr>)) (\<lambda>_.
       if role_of client = Browser \<or> role_of client = Simulator
       then sendCurrentPeerState env client
       else updatePeerState env (cl_sessionId client)))))))"

definition handle_hello :: "server_env \<Rightarrow> nat \<Rightarrow> hello_message \<Rightarrow> js_date \<Rightarrow> unit server_eff" where
  "handle_hello env c m now_date s =
     (let inst = au_bridgeInstanceId (sv_auth s)
      in if hello_bridgeInstanceId m \<noteq> inst
         then refuse env c AuthInstanceChanged (js ''Bridge instance changed'') s
         else bindE (authenticate_do (validateToken (hello_sessionId m) (src_role (hello_source m))
             (hello_authToken m) inst now_date)) (\<lambda>validation.
           case validation of
             Accepted \<Rightarrow> accept_hello env c m inst
           | InstanceChanged \<Rightarrow> refuse env c AuthInstanceChanged (js ''Bridge instance changed'')
           | Rejected \<Rightarrow> refuse env c AuthTokenRejected (js ''Authentication token rejected'')) s)"

subsection \<open>What an authenticated client may send\<close>

fun isAllowedInboundMessage :: "registered_client \<Rightarrow> pin_op_message \<Rightarrow> bool" where
  "isAllowedInboundMessage client (Unlink m) \<longleftrightarrow> unlink_sessionId m = cl_sessionId client"
| "isAllowedInboundMessage client (Inspect m) \<longleftrightarrow>
     (role_of client = Browser \<or> role_of client = Simulator) \<and> insp_sessionId m = cl_sessionId client \<and>
     src_role (insp_source m) = role_of client \<and> src_id (insp_source m) = src_id (cl_source client) \<and>
     supportsCapability client CapInspect"
| "isAllowedInboundMessage client (Resolution m) \<longleftrightarrow>
     role_of client = Ide \<and> sessionId m = cl_sessionId client \<and>
     res_sourceId m = src_id (cl_source client) \<and> supportsCapability client CapResolution"
| "isAllowedInboundMessage client (RulesSources m) \<longleftrightarrow>
     role_of client = Ide \<and> sessionId m = cl_sessionId client \<and>
     rsm_sourceId m = src_id (cl_source client) \<and> supportsCapability client CapRulesSources"
| "isAllowedInboundMessage client (SourceMatches m) \<longleftrightarrow>
     role_of client = Ide \<and> sessionId m = cl_sessionId client \<and>
     sm_sourceId m = src_id (cl_source client) \<and> supportsCapability client CapSourcePresentation"
| "isAllowedInboundMessage client (SourceOpen m) \<longleftrightarrow>
     (role_of client = Browser \<or> role_of client = Simulator) \<and> sessionId m = cl_sessionId client \<and>
     supportsCapability client CapSourcePresentation"
| "isAllowedInboundMessage client (RulesOpen m) \<longleftrightarrow>
     (role_of client = Browser \<or> role_of client = Simulator) \<and> sessionId m = cl_sessionId client \<and>
     supportsCapability client CapRulesSources"
| "isAllowedInboundMessage client (PresentationSettings m) \<longleftrightarrow>
     (role_of client = Browser \<or> role_of client = Simulator) \<and> sessionId m = cl_sessionId client \<and>
     supportsCapability client CapPresentationSettings"
| "isAllowedInboundMessage client (SourceNavigate m) \<longleftrightarrow>
     (role_of client = Browser \<or> role_of client = Simulator) \<and> sessionId m = cl_sessionId client \<and>
     supportsCapability client CapSourceNavigation"
| "isAllowedInboundMessage client (SourceNavigationState m) \<longleftrightarrow>
     role_of client = Ide \<and> sessionId m = cl_sessionId client \<and>
     ns_sourceId m = src_id (cl_source client) \<and> supportsCapability client CapSourceNavigation"
| "isAllowedInboundMessage client (PageRefresh m) \<longleftrightarrow>
     role_of client = Ide \<and> pr_sessionId m = cl_sessionId client \<and>
     pr_sourceId m = src_id (cl_source client) \<and> supportsCapability client CapAutoRefresh"
| "isAllowedInboundMessage client (Pong m) \<longleftrightarrow> True"
| "isAllowedInboundMessage client _ \<longleftrightarrow> False"

subsection \<open>The message handler\<close>

definition handle_unlink :: "server_env \<Rightarrow> nat \<Rightarrow> registered_client \<Rightarrow> unit server_eff" where
  "handle_unlink env c client =
     bindE (set_conn c (\<lambda>x. x\<lparr>co_closing := True\<rparr>)) (\<lambda>_.
     bindE (clearHandshakeTimer c) (\<lambda>_.
     bindE (set_conn c (\<lambda>x. x\<lparr>co_registered := None\<rparr>)) (\<lambda>_.
     bindE (registry_remove_do (cl_id client)) (\<lambda>removed.
     bindE (\<lambda>s. (Inr (), s\<lparr>sv_auth := revokeToken (cl_authToken client) (sv_auth s)\<rparr>)) (\<lambda>_.
     bindE (if removed then onClientRemoved env client else on_routes (removeClient (cl_id client))) (\<lambda>_ s.
       (Inr (), s\<lparr>br_net := guarded_close (en_bridge env) c None None (br_net s)\<rparr>)))))))"

text \<open>A parsed message that is not a link request.\<close>

definition handle_client_message ::
  "server_env \<Rightarrow> nat \<Rightarrow> pin_op_message \<Rightarrow> js_date \<Rightarrow> unit server_eff" where
  "handle_client_message env c m now_date s =
     (case co_registered (conn_of s c) of
        None \<Rightarrow> (case m of
            Hello h \<Rightarrow> handle_hello env c h now_date s
          | _ \<Rightarrow> refuse env c ProtocolInvalidMessage (js ''Client must authenticate with hello'') s)
      | Some client \<Rightarrow> (case m of
            Hello h \<Rightarrow> refuse env c ProtocolInvalidMessage (js ''Client is already authenticated'') s
          | _ \<Rightarrow>
            if \<not> isAllowedInboundMessage client m
            then refuse env c ProtocolInvalidMessage (js ''Message does not match protocol'') s
            else (case m of
                Unlink u \<Rightarrow> handle_unlink env c client s
              | Pong p \<Rightarrow> (Inr (), s\<lparr>br_registry := markAlive (cl_id client) (br_registry s)\<rparr>)
              | _ \<Rightarrow> routeMessage (en_bridge env) client m s)))"

definition parse_message :: "server_env \<Rightarrow> jstring \<Rightarrow> pin_op_message option" where
  "parse_message env payload =
     Option.bind (en_json env payload) (\<lambda>j. Option.bind (en_decode env j) (\<lambda>m.
       if message_ok (be_schema (en_bridge env)) m then Some m else None))"

definition on_message :: "server_env \<Rightarrow> nat \<Rightarrow> jstring \<Rightarrow> js_date \<Rightarrow> jstring \<Rightarrow> unit server_eff" where
  "on_message env c payload now_date random_hex s =
     (if co_closing (conn_of s c) then (Inr (), s)
      else
        let versionProbe = probeProtocolVersion (en_json env) payload
        in if \<not> vp_compatible versionProbe
           then closeConnection env c (Some PROTOCOL_MISMATCH_CLOSE_CODE)
             (Some (protocolMismatchReason (vp_receivedVersion versionProbe))) s
           else (case parse_message env payload of
               None \<Rightarrow> refuse env c ProtocolInvalidMessage (js ''Message does not match protocol'') s
             | Some (LinkRequest l) \<Rightarrow>
                 if co_linkAttempted (conn_of s c) \<or> co_registered (conn_of s c) \<noteq> None
                 then refuse env c ProtocolInvalidMessage
                   (js ''Only one link request is allowed per connection'') s
                 else bindE (set_conn c (\<lambda>x. x\<lparr>co_linkAttempted := True\<rparr>)) (\<lambda>_.
                   bindE (handleLinkRequest env c l now_date random_hex) (\<lambda>ok.
                     if ok then ret () else closeConnection env c None None)) s
             | Some m \<Rightarrow> handle_client_message env c m now_date s))"

subsection \<open>Connections, timers and the heartbeat\<close>

definition on_connection :: "nat \<Rightarrow> unit server_eff" where
  "on_connection c s = (Inr (), s\<lparr>sv_conns := jset c new_conn (sv_conns s)\<rparr>)"

text \<open>Both \<^verbatim>\<open>close\<close> listeners: the socket leaves \<^verbatim>\<open>activeSockets\<close> (\<open>co_active\<close>), then the
  registration is removed.\<close>

definition on_close :: "server_env \<Rightarrow> nat \<Rightarrow> unit server_eff" where
  "on_close env c =
     bindE (set_conn c (\<lambda>x. x\<lparr>co_active := False\<rparr>)) (\<lambda>_.
     bindE (clearHandshakeTimer c) (\<lambda>_.
     bindE (set_conn c (\<lambda>x. x\<lparr>co_closing := True\<rparr>)) (\<lambda>_.
     bindE (clearHandshakeTimer c) (\<lambda>_. removeRegistration env c))))"

definition terminate_do :: "nat \<Rightarrow> unit server_eff" where
  "terminate_do c s = (Inr (), s\<lparr>br_net := terminateConnectionSafely c (br_net s)\<rparr>)"

definition on_error :: "server_env \<Rightarrow> nat \<Rightarrow> unit server_eff" where
  "on_error env c s =
     (if be_ready (en_bridge env) (wire (br_net s)) c \<noteq> CLOSING \<and>
         be_ready (en_bridge env) (wire (br_net s)) c \<noteq> CLOSED
      then terminate_do c s else (Inr (), s))"

definition on_handshake_timeout :: "nat \<Rightarrow> unit server_eff" where
  "on_handshake_timeout c s =
     (if co_timer (conn_of s c) then bindE (clearHandshakeTimer c) (\<lambda>_. terminate_do c) s
      else (Inr (), s))"

definition ping_client :: "server_env \<Rightarrow> js_date \<Rightarrow> registered_client \<Rightarrow> unit server_eff" where
  "ping_client env now_date client =
     (if cl_missedPongs client \<ge> 2 then
        bindE (registry_remove_do (cl_id client)) (\<lambda>removed.
        bindE (terminate_do (cl_connection client)) (\<lambda>_.
          if removed then onClientRemoved env client else ret ()))
      else
        bindE (\<lambda>s. (Inr (), s\<lparr>br_registry := markPingSent (cl_id client) (br_registry s)\<rparr>)) (\<lambda>_.
        bindE (fresh_uuid (en_bridge env)) (\<lambda>u.
          sendSocketMessage env (cl_connection client)
            (Ping \<lparr>messageId = u, metadata = [], ping_sentAt = en_iso env now_date\<rparr>))))"

definition heartbeat_tick :: "server_env \<Rightarrow> js_date \<Rightarrow> unit server_eff" where
  "heartbeat_tick env now_date s =
     for_each (ping_client env now_date) (registry_all (br_registry s)) s"

text \<open>The synchronous body of \<^verbatim>\<open>stop\<close>: everything is cleared, then every open socket closed.\<close>

definition stop_clear :: "unit server_eff" where
  "stop_clear s = (Inr (), s\<lparr>br_registry := registry_clear (br_registry s),
     sv_peers := peer_clear (sv_peers s), br_routes := clear_routes (br_routes s),
     sv_auth := revokeAll (sv_auth s)\<rparr>)"

definition close_socket :: "server_env \<Rightarrow> nat \<Rightarrow> unit server_eff" where
  "close_socket env c s = (Inr (), s\<lparr>br_net := terminateConnectionSafely c
     (guarded_close (en_bridge env) c None None (br_net s))\<rparr>)"

definition stop_server :: "server_env \<Rightarrow> unit server_eff" where
  "stop_server env =
     bindE stop_clear (\<lambda>_.
     bindE notifyClientCounts (\<lambda>_.
     bindE (\<lambda>s. for_each clearHandshakeTimer (jkeys (sv_conns s)) s) (\<lambda>_ s.
       for_each (close_socket env) (filter (\<lambda>c. co_active (conn_of s c)) (jkeys (sv_conns s))) s)))"

end
