(* ===== verification/Server_Properties.thy ===== *)
theory Server_Properties
  imports Bridge_Server
begin

text \<open>
  The invariant of the bridge server and what its handlers may deliver. The core invariant
  speaks about routes, tokens, clients and presence records; \<open>presence\<close> says the published IDE
  presence is the actual one; \<open>linked\<close> ties the clients of the registry to the connections that
  authenticated. Handlers break the last two for a moment and restore them.
\<close>

subsection \<open>Invariant\<close>

definition env_ok :: "server_env \<Rightarrow> bool" where
  "env_ok env \<longleftrightarrow> (\<forall>k. opaqueId (be_uuid (en_bridge env) k)) \<and>
     (\<forall>t. se_datetime (be_schema (en_bridge env)) (en_iso env (Some t)))"

abbreviation sid_of :: "server \<Rightarrow> jstring" where
  "sid_of s \<equiv> au_sessionId (sv_auth s)"

text \<open>\<open>k\<close> is the room left below the largest peer generation the protocol can express; \<open>A\<close> holds
  the connections of registered clients.\<close>

definition client_ok :: "nat set \<Rightarrow> jstring \<Rightarrow> jstring \<Rightarrow> registered_client \<Rightarrow> bool" where
  "client_ok A sid cid cl \<longleftrightarrow> cl_id cl = cid \<and> cl_sessionId cl = sid \<and> cl_connection cl \<in> A"

definition core :: "server_env \<Rightarrow> nat set \<Rightarrow> nat \<Rightarrow> server \<Rightarrow> bool" where
  "core env A k s \<longleftrightarrow> routes_inv (br_routes s) \<and> auth_inv (sv_auth s) \<and> opaqueId (sid_of s) \<and>
     se_uuid (be_schema (en_bridge env)) (au_bridgeInstanceId (sv_auth s)) \<and>
     distinct (jkeys (br_registry s)) \<and>
     (\<forall>cid cl. jget (br_registry s) cid = Some cl \<longrightarrow> client_ok A (sid_of s) cid cl) \<and>
     (\<forall>sid. sid \<noteq> sid_of s \<longrightarrow> jget (sv_peers s) sid = None) \<and>
     0 \<le> peer_gen (peer_get (sv_peers s) (sid_of s)) \<and>
     peer_gen (peer_get (sv_peers s) (sid_of s)) + int k \<le> lim_generation RESOLUTION_LIMITS"

definition presence :: "server \<Rightarrow> bool" where
  "presence s \<longleftrightarrow> peer_is_connected (peer_get (sv_peers s) (sid_of s)) =
     (0 < countBySessionAndRole (br_registry s) (sid_of s) Ide)"

text \<open>The client a connection remembers and its registry entry differ at most in missed pongs.\<close>

definition same_client :: "registered_client \<Rightarrow> registered_client \<Rightarrow> bool" where
  "same_client a b \<longleftrightarrow> a\<lparr>cl_missedPongs := 0\<rparr> = b\<lparr>cl_missedPongs := 0\<rparr>"

definition linked :: "server \<Rightarrow> bool" where
  "linked s \<longleftrightarrow>
     (\<forall>c cl. co_registered (conn_of s c) = Some cl \<longrightarrow> cl_connection cl = c \<and> cl_sessionId cl = sid_of s) \<and>
     (\<forall>cid cl. jget (br_registry s) cid = Some cl \<longrightarrow>
        (\<exists>cl'. co_registered (conn_of s (cl_connection cl)) = Some cl' \<and> same_client cl cl')) \<and>
     (\<forall>c d cl cl'. co_registered (conn_of s c) = Some cl \<longrightarrow> co_registered (conn_of s d) = Some cl' \<longrightarrow>
        cl_id cl = cl_id cl' \<longrightarrow> c = d)"

definition registered_conns :: "server \<Rightarrow> nat set" where
  "registered_conns s = {c. co_registered (conn_of s c) \<noteq> None}"

definition server_inv :: "server_env \<Rightarrow> nat \<Rightarrow> server \<Rightarrow> bool" where
  "server_inv env k s \<longleftrightarrow> core env (registered_conns s) k s \<and> presence s \<and> linked s"

subsection \<open>What may be delivered\<close>

definition is_link_accepted :: "pin_op_message \<Rightarrow> bool" where
  "is_link_accepted x = (case x of LinkAccepted _ \<Rightarrow> True | _ \<Rightarrow> False)"

definition gate :: "nat set \<Rightarrow> nat \<Rightarrow> nat \<times> pin_op_message \<Rightarrow> bool" where
  "gate A c0 d \<longleftrightarrow> fst d \<in> A \<or> fst d = c0 \<and> (is_error (snd d) \<or> is_link_accepted (snd d))"

text \<open>The connections of \<open>A\<close> may receive anything and may become registered.\<close>

definition delivers :: "nat set \<Rightarrow> nat \<Rightarrow> server \<Rightarrow> server \<Rightarrow> bool" where
  "delivers A c0 s s' \<longleftrightarrow> sid_of s' = sid_of s \<and> registered_conns s' \<subseteq> registered_conns s \<union> A \<and> (\<exists>ds. deliveries (wire (br_net s')) = deliveries (wire (br_net s)) @ ds \<and>
     list_all (gate A c0) ds)"

interpretation delivering: effect_relation "delivers A c0" for A c0
proof
  fix s t u
  show "delivers A c0 s s" by (simp add: delivers_def)
  assume "delivers A c0 s t" "delivers A c0 t u"
  then show "delivers A c0 s u" by (auto simp: delivers_def)
qed

lemma conn_of_simps [simp]:
  "conn_of (s\<lparr>br_net := n\<rparr>) = conn_of s" "conn_of (s\<lparr>br_registry := reg\<rparr>) = conn_of s"
  "conn_of (s\<lparr>br_routes := rs\<rparr>) = conn_of s" "conn_of (s\<lparr>sv_auth := a\<rparr>) = conn_of s"
  "conn_of (s\<lparr>sv_peers := p\<rparr>) = conn_of s" "conn_of (s\<lparr>sv_counts := cs\<rparr>) = conn_of s"
  by (simp_all add: fun_eq_iff conn_of_def)

lemma conn_of_jset: "conn_of (s\<lparr>sv_conns := jset c x (sv_conns s)\<rparr>) d = (if d = c then x else conn_of s d)"
  by (simp add: conn_of_def)

lemma registered_conns_simps [simp]:
  "registered_conns (s\<lparr>br_net := n\<rparr>) = registered_conns s"
  "registered_conns (s\<lparr>br_registry := reg\<rparr>) = registered_conns s"
  "registered_conns (s\<lparr>br_routes := rs\<rparr>) = registered_conns s"
  "registered_conns (s\<lparr>sv_auth := a\<rparr>) = registered_conns s"
  "registered_conns (s\<lparr>sv_peers := p\<rparr>) = registered_conns s"
  "registered_conns (s\<lparr>sv_counts := cs\<rparr>) = registered_conns s"
  by (simp_all add: registered_conns_def)

lemma registered_conns_jset: "co_registered x = co_registered (conn_of s c) \<Longrightarrow>
    registered_conns (s\<lparr>sv_conns := jset c x (sv_conns s)\<rparr>) = registered_conns s"
  by (auto simp: registered_conns_def conn_of_jset)

lemma delivers_mono: "delivers A c0 s s' \<Longrightarrow> A \<subseteq> B \<Longrightarrow> delivers B c0 s s'"
  unfolding delivers_def gate_def list_all_iff by blast

lemma goes_delivers_mono: "goes P (delivers A c0) Q s out \<Longrightarrow> A \<subseteq> B \<Longrightarrow> goes P (delivers B c0) Q s out"
  using delivers_mono by (fastforce simp: goes_def)

lemma goes_pure:
  "f s = (Inr x, s') \<Longrightarrow> wire (br_net s') = wire (br_net s) \<Longrightarrow>
   registered_conns s' = registered_conns s \<Longrightarrow> sid_of s' = sid_of s \<Longrightarrow> P s' \<Longrightarrow> Q x \<Longrightarrow> goes P (delivers A c0) Q s (f s)"
  by (simp add: goes_def delivers_def)

lemma goes_from:
  assumes "goes P (delivers A c0) Q s1 out" and "wire (br_net s1) = wire (br_net s)"
    and "registered_conns s1 \<subseteq> registered_conns s \<union> A" and "sid_of s1 = sid_of s"
  shows "goes P (delivers A c0) Q s out"
  using assms unfolding goes_def delivers_def by auto

subsection \<open>Sending\<close>

lemma goes_sendSocketMessage:
  assumes "P s" and "net_stable P" and "message_ok (be_schema (en_bridge env)) m" and "gate A c0 (c, m)"
  shows "goes P (delivers A c0) (\<lambda>_. True) s (sendSocketMessage env c m s)"
proof -
  obtain ok n where s: "sendConnectionSafely (guarded_send (en_bridge env)) c m (br_net s) = (ok, n)"
    by fastforce
  from ws.safely_deliveries [OF s] show ?thesis using assms
    by (auto simp: goes_def sendSocketMessage_def s net_stable_def delivers_def)
qed

lemma goes_uuid:
  assumes "P s" and "net_stable P" and "env_ok env"
  shows "goes P (delivers A c0) opaqueId s (fresh_uuid (en_bridge env) s)"
  by (rule goes_pure [where x = "be_uuid (en_bridge env) (uuids (br_net s))"
        and s' = "s\<lparr>br_net := br_net s\<lparr>uuids := Suc (uuids (br_net s))\<rparr>\<rparr>"])
    (use assms in \<open>simp_all add: fresh_uuid_def randomUUID_def env_ok_def net_stable_def\<close>)

lemma opaque_not_Nil: "opaqueId u \<Longrightarrow> u \<noteq> []"
  by (auto simp: opaqueId_def text_between_def)

lemma goes_sendSocketError:
  assumes "P s" and "net_stable P" and "env_ok env" and "text \<noteq> []"
  shows "goes P (delivers A c) (\<lambda>_. True) s (sendSocketError env c code text fatal details s)"
  unfolding sendSocketError_def
proof (rule delivering.goes_bind)
  show "goes P (delivers A c) opaqueId s (fresh_uuid (en_bridge env) s)" by (rule goes_uuid [OF assms(1-3)])
next
  fix u s' assume "P s'" "opaqueId u"
  then show "goes P (delivers A c) (\<lambda>_. True) s' (sendSocketMessage env c
       (ErrorMessage \<lparr>messageId = u, metadata = [], err_code = code, err_message = text,
          err_details = Some (jset (js ''fatal'') (JBool fatal) [] @ details)\<rparr>) s')"
    using assms(2,4) by (intro goes_sendSocketMessage)
      (simp_all add: error_ok_def opaque_not_Nil gate_def is_error_def)
qed

text \<open>Predicates of the state that do not look at the wire or at a connection's flags.\<close>

definition flag_stable :: "(server \<Rightarrow> bool) \<Rightarrow> bool" where
  "flag_stable P \<longleftrightarrow> net_stable P \<and> (\<forall>s c x. P s \<longrightarrow> co_registered x = co_registered (conn_of s c) \<longrightarrow>
     P (s\<lparr>sv_conns := jset c x (sv_conns s)\<rparr>))"

lemma goes_set_flag:
  assumes "P s" and "flag_stable P" and "co_registered (f (conn_of s c)) = co_registered (conn_of s c)"
  shows "goes P (delivers A c0) (\<lambda>_. True) s (set_conn c f s)"
  by (rule goes_pure [where x = "()" and s' = "s\<lparr>sv_conns := jset c (f (conn_of s c)) (sv_conns s)\<rparr>"])
    (use assms in \<open>simp_all add: set_conn_def flag_stable_def registered_conns_jset\<close>)

lemma goes_clear_timer:
  "P s \<Longrightarrow> flag_stable P \<Longrightarrow> goes P (delivers A c0) (\<lambda>_. True) s (clearHandshakeTimer c s)"
  unfolding clearHandshakeTimer_def by (rule goes_set_flag) simp_all

lemma goes_net:
  assumes "P s" and "net_stable P" and "deliveries (wire n) = deliveries (wire (br_net s))"
  shows "goes P (delivers A c0) (\<lambda>_. True) s (Inr (), s\<lparr>br_net := n\<rparr>)"
  using assms by (simp add: goes_def delivers_def net_stable_def)

lemma goes_closeConnection:
  assumes "P s" and "flag_stable P"
  shows "goes P (delivers A c0) (\<lambda>_. True) s (closeConnection env c code reason s)"
  unfolding closeConnection_def
  by (rule delivering.goes_bind [where P = P], rule goes_set_flag [where P = P, OF assms], simp,
      rule delivering.goes_bind [where P = P], rule goes_clear_timer [where P = P, OF _ assms(2)], assumption,
      rule goes_net)
    (use assms(2) in \<open>simp_all add: flag_stable_def\<close>)

lemma goes_refuse:
  assumes "P s" and "flag_stable P" and "env_ok env" and "text \<noteq> []"
  shows "goes P (delivers A c) (\<lambda>_. True) s (refuse env c code text s)"
  unfolding refuse_def
proof (rule delivering.goes_bind)
  show "goes P (delivers A c) (\<lambda>_. True) s (sendSocketError env c code text True [] s)"
    by (rule goes_sendSocketError [where P = P]) (use assms in \<open>simp_all add: flag_stable_def\<close>)
  show "P s' \<Longrightarrow> goes P (delivers A c) (\<lambda>_. True) s' (closeConnection env c None None s')" for s'
    by (rule goes_closeConnection [where P = P, OF _ assms(2)])
qed

lemma flag_stable_inv [simp]: "flag_stable (server_inv env k)"
  unfolding flag_stable_def
proof (intro conjI allI impI)
  show "net_stable (server_inv env k)"
    by (simp add: net_stable_def server_inv_def core_def presence_def linked_def registered_conns_def conn_of_def)
  fix s c and x :: conn_state assume inv: "server_inv env k s" and x: "co_registered x = co_registered (conn_of s c)"
  let ?s = "s\<lparr>sv_conns := jset c x (sv_conns s)\<rparr>"
  have r: "co_registered (conn_of ?s d) = co_registered (conn_of s d)" for d
    using x by (simp add: conn_of_jset)
  then have "registered_conns ?s = registered_conns s" by (simp add: registered_conns_def)
  then show "server_inv env k ?s" using inv
    by (simp add: server_inv_def core_def presence_def linked_def r)
qed

subsection \<open>Counting clients\<close>

lemma count_pos_get:
  assumes "distinct (jkeys reg)"
  shows "0 < countBySessionAndRole reg sid role \<longleftrightarrow>
    (\<exists>cid cl. jget reg cid = Some cl \<and> cl_sessionId cl = sid \<and> role_of cl = role)"
proof -
  have "c \<in> set (map snd reg) \<longleftrightarrow> (\<exists>cid. jget reg cid = Some c)" for c
    by (force simp: map_of_eq_Some_iff [OF assms])
  then show ?thesis unfolding count_pos_iff by blast
qed

text \<open>A handler that only sends, updates presence or drops routes keeps the registry, the
  connections and the authenticator: they are named, so that they survive each step.\<close>

definition server_at ::
  "server_env \<Rightarrow> nat set \<Rightarrow> nat \<Rightarrow> client_registry \<Rightarrow> (nat, conn_state) jmap \<Rightarrow> link_authenticator \<Rightarrow>
   server \<Rightarrow> bool" where
  "server_at env A k reg cs au s \<longleftrightarrow>
     core env A k s \<and> br_registry s = reg \<and> sv_conns s = cs \<and> sv_auth s = au"

definition settled ::
  "server_env \<Rightarrow> nat set \<Rightarrow> nat \<Rightarrow> client_registry \<Rightarrow> (nat, conn_state) jmap \<Rightarrow> link_authenticator \<Rightarrow>
   server \<Rightarrow> bool" where
  "settled env A k reg cs au s \<longleftrightarrow> server_at env A k reg cs au s \<and> presence s"

lemma net_stable_at [simp]:
  "net_stable (server_at env A k reg cs au)" "net_stable (settled env A k reg cs au)"
  unfolding net_stable_def settled_def server_at_def core_def presence_def by auto

lemma core_routes: "core env A k s \<Longrightarrow> routes_inv rs \<Longrightarrow> core env A k (s\<lparr>br_routes := rs\<rparr>)"
  by (simp add: core_def)

lemma core_same:
  assumes "core env A k s" and "br_registry s' = br_registry s" and "br_routes s' = br_routes s"
    and "sv_peers s' = sv_peers s" and "sv_auth s' = sv_auth s"
  shows "core env A k s'"
  using assms by (simp add: core_def)

lemma core_less: "core env A (Suc k) s \<Longrightarrow> core env A k s"
  by (simp add: core_def)

lemma at_less: "server_at env A (Suc k) reg cs au s \<Longrightarrow> server_at env A k reg cs au s"
  by (simp add: server_at_def core_less)

subsection \<open>Presence\<close>

lemma goes_update_ide_count:
  assumes "server_at env A (Suc k) reg cs au s" and "sid = sid_of s"
  shows "goes (settled env A k reg cs au) (delivers B c0)
    (\<lambda>t. \<forall>x. t = Some x \<longrightarrow> opaqueId (pt_sessionId x) \<and> generation_ok (peer_gen (pt_snapshot x))) s
    (update_ide_count sid s)"
proof -
  define n where "n = countBySessionAndRole (br_registry s) sid Ide"
  define old where "old = peer_get (sv_peers s) sid"
  define new where "new = \<lparr>peer_is_connected = (0 < n), peer_gen = peer_gen old + 1\<rparr>"
  have c: "core env A (Suc k) s" "br_registry s = reg" "sv_conns s = cs" "sv_auth s = au"
    using assms(1) by (simp_all add: settled_def server_at_def)
  show ?thesis
  proof (cases "(0 < n) = peer_is_connected old")
    case True
    then have "update_ide_count sid s = (Inr None, s)"
      by (simp add: update_ide_count_def updateIdeCount_nat n_def [symmetric] old_def [symmetric]
          del: updateIdeCount.simps)
    moreover have "presence s" using True assms(2) by (simp add: presence_def n_def old_def)
    ultimately show ?thesis using c core_less [OF c(1)]
      by (intro goes_pure [where x = None and s' = s]) (simp_all add: settled_def server_at_def)
  next
    case False
    let ?t = "\<lparr>pt_sessionId = sid, pt_snapshot = new\<rparr>"
    let ?s = "s\<lparr>sv_peers := jset sid new (sv_peers s)\<rparr>"
    have "update_ide_count sid s = (Inr (Some ?t), ?s)"
      using False by (simp add: update_ide_count_def updateIdeCount_nat n_def [symmetric]
          old_def [symmetric] new_def Let_def del: updateIdeCount.simps)
    moreover have "core env A k ?s" using c(1) assms(2)
      by (simp add: core_def peer_get_def new_def old_def)
    moreover have "presence ?s" using assms(2) by (simp add: presence_def peer_get_def new_def n_def)
    moreover have "opaqueId sid" "generation_ok (peer_gen new)"
      using c(1) assms(2) by (simp_all add: core_def new_def old_def generation_ok_def)
    ultimately show ?thesis using c(2-4)
      by (intro goes_pure [where x = "Some ?t" and s' = ?s]) (simp_all add: settled_def server_at_def)
  qed
qed

lemma goes_createPeerStateMessage:
  assumes "P s" and "net_stable P" and "env_ok env"
    and "opaqueId sid" and "generation_ok (peer_gen snap)"
  shows "goes P (delivers A c0) (message_ok (be_schema (en_bridge env))) s (createPeerStateMessage env sid snap s)"
  unfolding createPeerStateMessage_def
  by (rule delivering.goes_bind, rule goes_uuid [OF assms(1-3)])
    (use assms(4,5) in \<open>simp add: goes_def delivers_def peer_state_ok_def\<close>)

lemma goes_for_each:
  assumes "P s" and "\<And>x s. x \<in> set xs \<Longrightarrow> P s \<Longrightarrow> goes P (delivers A c0) (\<lambda>_. True) s (body x s)"
  shows "goes P (delivers A c0) (\<lambda>_. True) s (for_each body xs s)"
  using assms
proof (induction xs arbitrary: s)
  case (Cons x xs)
  show ?case unfolding for_each.simps
    by (rule delivering.goes_bind, rule Cons.prems(2) [OF _ Cons.prems(1)], simp, rule Cons.IH)
      (use Cons.prems(2) in simp_all)
qed (simp add: goes_def delivering.R_refl)

lemma goes_publishPeerState:
  assumes "P s" and "net_stable P" and "env_ok env"
    and "opaqueId (pt_sessionId t)" and "generation_ok (peer_gen (pt_snapshot t))"
    and conns: "\<And>s cl. P s \<Longrightarrow> cl \<in> set (map snd (br_registry s)) \<Longrightarrow> cl_connection cl \<in> A"
  shows "goes P (delivers A c0) (\<lambda>_. True) s (publishPeerState env t excl s)"
  unfolding publishPeerState_def
proof (rule delivering.goes_bind, rule goes_createPeerStateMessage [OF assms(1-5)])
  fix m s' assume st: "P s'" and m: "message_ok (be_schema (en_bridge env)) m"
  show "goes P (delivers A c0) (\<lambda>_. True) s'
      (for_each (\<lambda>client. if Some (cl_id client) = excl then ret () else sendSocketMessage env (cl_connection client) m)
         (findBySessionAndRole (br_registry s') (pt_sessionId t) Browser @
          findBySessionAndRole (br_registry s') (pt_sessionId t) Simulator) s')"
  proof (rule goes_for_each [where P = P, OF st])
    fix cl s'' assume cl: "cl \<in> set (findBySessionAndRole (br_registry s') (pt_sessionId t) Browser @
          findBySessionAndRole (br_registry s') (pt_sessionId t) Simulator)" and st': "P s''"
    have "cl_connection cl \<in> A" using cl find_ok conns [OF st] by fastforce
    then have "goes P (delivers A c0) (\<lambda>_. True) s'' (sendSocketMessage env (cl_connection cl) m s'')"
      by (intro goes_sendSocketMessage [where P = P, OF st' assms(2) m]) (simp add: gate_def)
    then show "goes P (delivers A c0) (\<lambda>_. True) s'' ((if Some (cl_id cl) = excl then ret ()
        else sendSocketMessage env (cl_connection cl) m) s'')"
      using st' by (simp add: goes_def delivering.R_refl)
  qed
qed

lemma at_conns: "server_at env A k reg cs au s \<Longrightarrow> cl \<in> set (map snd (br_registry s)) \<Longrightarrow> cl_connection cl \<in> A"
proof -
  assume st: "server_at env A k reg cs au s" and "cl \<in> set (map snd (br_registry s))"
  then obtain cid where "(cid, cl) \<in> set (br_registry s)" by auto
  moreover have "distinct (jkeys (br_registry s))" using st unfolding server_at_def core_def by blast
  ultimately have "jget (br_registry s) cid = Some cl" by (metis map_of_is_SomeI)
  then show ?thesis using st by (auto simp: server_at_def core_def client_ok_def)
qed

lemma goes_updatePeerState:
  assumes "server_at env A (Suc k) reg cs au s" and "sid = sid_of s" and "env_ok env"
  shows "goes (settled env A k reg cs au) (delivers A c0) (\<lambda>_. True) s
    (updatePeerState env sid s)"
  unfolding updatePeerState_def
proof (rule delivering.goes_bind, rule goes_update_ide_count [OF assms(1,2)])
  fix t :: "peer_transition option" and s'
  assume st: "settled env A k reg cs au s'"
    and t: "\<forall>x. t = Some x \<longrightarrow> opaqueId (pt_sessionId x) \<and> generation_ok (peer_gen (pt_snapshot x))"
  show "goes (settled env A k reg cs au) (delivers A c0) (\<lambda>_. True) s'
      ((case t of None \<Rightarrow> ret () | Some (x :: peer_transition) \<Rightarrow> publishPeerState env x None) s')"
  proof (cases t)
    case None
    then show ?thesis using st by (simp add: goes_def delivering.R_refl)
  next
    case (Some x)
    then show ?thesis using t st
      by (simp, intro goes_publishPeerState [where P = "settled env A k reg cs au"])
        (use assms(3) at_conns in \<open>simp_all add: settled_def, blast\<close>)
  qed
qed


subsection \<open>Clients that leave\<close>

definition routes_stable :: "(server \<Rightarrow> bool) \<Rightarrow> bool" where
  "routes_stable P \<longleftrightarrow> (\<forall>s rs. P s \<longrightarrow> routes_inv rs \<longrightarrow> P (s\<lparr>br_routes := rs\<rparr>))"

lemma routes_stable_inv [simp]:
  "routes_stable (server_at env A k reg cs au)" "routes_stable (settled env A k reg cs au)"
  "routes_stable (server_inv env k)"
  by (auto simp: routes_stable_def settled_def server_at_def core_routes presence_def server_inv_def
      linked_def registered_conns_def conn_of_def)

lemma goes_remove_routes:
  assumes "P s" and "routes_stable P" and "routes_inv (br_routes s)"
  shows "goes P (delivers A c0) (\<lambda>_. True) s (on_routes (removeClient cid) s)"
  using sound_removeClient [OF assms(3), of cid] assms(1,2)
  by (auto simp: goes_def on_routes_def sound_def routes_stable_def delivers_def
      split: prod.splits sum.splits)

lemma goes_notify:
  assumes "settled env A k reg cs au s"
  shows "goes (settled env A k reg cs au) (delivers B c0) (\<lambda>_. True) s (notifyClientCounts s)"
  using assms by (auto simp: goes_def notifyClientCounts_def delivers_def settled_def server_at_def
      presence_def intro: core_same)

lemma goes_onClientRemoved:
  assumes "server_at env A (Suc k) reg cs au s" and "role_of client \<noteq> Ide \<Longrightarrow> presence s"
    and "cl_sessionId client = au_sessionId au" and "env_ok env"
  shows "goes (settled env A k reg cs au) (delivers A c0) (\<lambda>_. True) s (onClientRemoved env client s)"
  unfolding onClientRemoved_def
proof (rule delivering.goes_bind)
  let ?P = "\<lambda>s. server_at env A (Suc k) reg cs au s \<and> (role_of client \<noteq> Ide \<longrightarrow> presence s)"
  have "routes_stable ?P"
    by (auto simp: routes_stable_def server_at_def core_routes presence_def)
  then show "goes ?P (delivers A c0) (\<lambda>_. True) s (on_routes (removeClient (cl_id client)) s)"
    using assms(1,2) by (intro goes_remove_routes) (auto simp: server_at_def core_def)
  fix s' assume st: "?P s'"
  show "goes (settled env A k reg cs au) (delivers A c0) (\<lambda>_. True) s'
      (bindE (if role_of client = Ide then updatePeerState env (cl_sessionId client) else ret ())
        (\<lambda>_. notifyClientCounts) s')"
  proof (rule delivering.goes_bind)
    show "goes (settled env A k reg cs au) (delivers A c0) (\<lambda>_. True) s'
        ((if role_of client = Ide then updatePeerState env (cl_sessionId client) else ret ()) s')"
    proof (cases "role_of client = Ide")
      case True
      then show ?thesis using st assms(3,4) by (simp add: goes_updatePeerState server_at_def)
    next
      case False
      then show ?thesis using st by (simp add: goes_def delivering.R_refl settled_def at_less)
    qed
  qed (rule goes_notify)
qed

text \<open>Dropping a connection's registration together with its registry entry.\<close>

lemma same_client_fields:
  "same_client a b \<Longrightarrow> cl_id a = cl_id b \<and> cl_connection a = cl_connection b \<and>
     cl_source a = cl_source b \<and> cl_sessionId a = cl_sessionId b"
  by (cases a; cases b) (simp add: same_client_def)

definition dropped :: "nat \<Rightarrow> registered_client \<Rightarrow> server \<Rightarrow> server \<Rightarrow> bool" where
  "dropped c cl s s' \<longleftrightarrow> br_routes s' = br_routes s \<and> sv_peers s' = sv_peers s \<and>
     br_registry s' = jdel (cl_id cl) (br_registry s) \<and>
     (\<forall>d. co_registered (conn_of s' d) = (if d = c then None else co_registered (conn_of s d))) \<and>
     auth_inv (sv_auth s') \<and> sid_of s' = sid_of s \<and>
     au_bridgeInstanceId (sv_auth s') = au_bridgeInstanceId (sv_auth s)"

lemma entry_of_conn:
  assumes inv: "server_inv env k s" and cl: "co_registered (conn_of s c) = Some cl"
    and x: "jget (br_registry s) cid = Some x"
  shows "cid = cl_id cl \<longleftrightarrow> cl_connection x = c" and "cid = cl_id cl \<Longrightarrow> role_of x = role_of cl"
proof -
  have l: "linked s" and id: "cl_id x = cid"
    using inv x by (simp_all add: server_inv_def core_def client_ok_def)
  obtain cl' where cl': "co_registered (conn_of s (cl_connection x)) = Some cl'" "same_client x cl'"
    using l x unfolding linked_def by blast
  have i: "cl_id cl' = cid" "role_of x = role_of cl'" using same_client_fields [OF cl'(2)] id by simp_all
  have "cl_connection x = c" if "cid = cl_id cl"
    using l cl'(1) cl i(1) that unfolding linked_def by metis
  moreover have "cl' = cl" if "cl_connection x = c" using that cl cl'(1) by simp
  ultimately show "cid = cl_id cl \<longleftrightarrow> cl_connection x = c" and "cid = cl_id cl \<Longrightarrow> role_of x = role_of cl"
    using i by auto
qed

lemma linked_dropped:
  assumes inv: "server_inv env k s" and cl: "co_registered (conn_of s c) = Some cl"
    and d: "dropped c cl s s'"
  shows "registered_conns s' = registered_conns s - {c}" and "linked s'"
    and "core env (registered_conns s') k s'"
proof -
  have r: "co_registered (conn_of s' e) = (if e = c then None else co_registered (conn_of s e))" for e
    using d by (simp add: dropped_def)
  show regs: "registered_conns s' = registered_conns s - {c}"
    by (auto simp: registered_conns_def r)
  have g: "jget (br_registry s') cid = Some x \<longleftrightarrow> cl_connection x \<noteq> c \<and> jget (br_registry s) cid = Some x"
    for cid x using entry_of_conn(1) [OF inv cl] d by (auto simp: dropped_def)
  have l: "linked s" and sid: "sid_of s' = sid_of s" using inv d by (simp_all add: server_inv_def dropped_def)
  show "linked s'" using l unfolding linked_def sid by (simp add: r g) blast
  have co: "core env (registered_conns s) k s" using inv by (simp add: server_inv_def)
  have "\<forall>cid cl. jget (br_registry s') cid = Some cl \<longrightarrow> client_ok (registered_conns s') (sid_of s') cid cl"
    using co unfolding regs sid g core_def client_ok_def by blast
  then show "core env (registered_conns s') k s'" using co d by (simp add: core_def dropped_def)
qed

lemma presence_dropped:
  assumes inv: "server_inv env k s" and cl: "co_registered (conn_of s c) = Some cl"
    and d: "dropped c cl s s'" and r: "jget (br_registry s) (cl_id cl) = None \<or> role_of cl \<noteq> Ide"
  shows "presence s'"
proof -
  have dist: "distinct (jkeys (br_registry s))" "distinct (jkeys (br_registry s'))"
    using inv linked_dropped(3) [OF inv cl d] by (simp_all add: server_inv_def core_def)
  have "jget (br_registry s') cid = Some x \<longleftrightarrow> jget (br_registry s) cid = Some x" if "role_of x = Ide" for cid x
    using r entry_of_conn(2) [OF inv cl] that d by (auto simp: dropped_def)
  then have "0 < countBySessionAndRole (br_registry s') (sid_of s) Ide \<longleftrightarrow>
      0 < countBySessionAndRole (br_registry s) (sid_of s) Ide"
    unfolding count_pos_get [OF dist(1)] count_pos_get [OF dist(2)] by blast
  then show ?thesis using inv d by (simp add: server_inv_def presence_def dropped_def)
qed

subsection \<open>Removing a registration\<close>

lemma settled_inv:
  assumes "settled env (registered_conns s1) k (br_registry s1) (sv_conns s1) (sv_auth s1) s'"
    and "linked s1"
  shows "server_inv env k s'"
proof -
  have e: "br_registry s' = br_registry s1" "sv_conns s' = sv_conns s1" "sv_auth s' = sv_auth s1"
    using assms(1) by (simp_all add: settled_def server_at_def)
  have r: "conn_of s' = conn_of s1" by (rule ext) (simp add: conn_of_def e(2))
  have "linked s' \<longleftrightarrow> linked s1" by (simp only: linked_def e r)
  moreover have "registered_conns s' = registered_conns s1" by (simp only: registered_conns_def r)
  ultimately show ?thesis using assms by (simp add: server_inv_def settled_def server_at_def)
qed

text \<open>The two ways a registration ends, once the registry entry is gone.\<close>

lemma goes_after_drop:
  assumes inv: "server_inv env (Suc k) s" and cl: "co_registered (conn_of s c) = Some cl"
    and d: "dropped c cl s s1" and env: "env_ok env"
    and removed: "removed \<longleftrightarrow> jget (br_registry s) (cl_id cl) \<noteq> None"
  shows "goes (server_inv env k) (delivers (registered_conns s) c0) (\<lambda>_. True) s1
    ((if removed then onClientRemoved env cl else on_routes (removeClient (cl_id cl))) s1)"
proof -
  note after = linked_dropped [OF inv cl d]
  let ?A = "registered_conns s1"
  let ?Q = "settled env ?A k (br_registry s1) (sv_conns s1) (sv_auth s1)"
  have at: "server_at env ?A (Suc k) (br_registry s1) (sv_conns s1) (sv_auth s1) s1"
    using after(3) by (simp add: server_at_def)
  have "goes ?Q (delivers ?A c0) (\<lambda>_. True) s1
      ((if removed then onClientRemoved env cl else on_routes (removeClient (cl_id cl))) s1)"
  proof (cases removed)
    case True
    have "cl_sessionId cl = au_sessionId (sv_auth s1)"
      using inv cl d by (simp add: server_inv_def linked_def dropped_def)
    then show ?thesis using presence_dropped [OF inv cl d] True
      by (simp add: goes_onClientRemoved [OF at _ _ env])
  next
    case False
    then have "presence s1" using presence_dropped [OF inv cl d] removed by simp
    then show ?thesis using False at_less [OF at]
      by (simp, intro goes_remove_routes)
        (auto simp: settled_def server_at_def core_def)
  qed
  then show ?thesis
    by (rule goes_delivers_mono [OF goes_weaken])
      (use settled_inv [OF _ after(2)] after(1) in blast)+
qed

lemma goes_removeRegistration:
  assumes inv: "server_inv env (Suc k) s" and env: "env_ok env"
  shows "goes (server_inv env k) (delivers (registered_conns s) c0) (\<lambda>_. True) s (removeRegistration env c s)"
proof -
  let ?s = "s\<lparr>sv_conns := jset c ((conn_of s c)\<lparr>co_registered := None\<rparr>) (sv_conns s)\<rparr>"
  have step: "removeRegistration env c s =
      (case co_registered (conn_of s c) of None \<Rightarrow> ret () | Some cl \<Rightarrow> drop_client env cl) ?s"
    by (simp add: removeRegistration_def set_conn_def bindE_def)
  show ?thesis
  proof (cases "co_registered (conn_of s c)")
    case None
    have "flag_stable (server_inv env (Suc k))" by simp
    then have "server_inv env (Suc k) ?s" using inv None by (simp add: flag_stable_def)
    then show ?thesis using registered_conns_jset [of "(conn_of s c)\<lparr>co_registered := None\<rparr>" s c] None
      by (simp add: step None goes_def delivers_def server_inv_def core_less)
  next
    case (Some cl)
    let ?t = "?s\<lparr>br_registry := jdel (cl_id cl) (br_registry s)\<rparr>"
    have "dropped c cl s ?t"
      using inv by (simp add: dropped_def conn_of_def server_inv_def core_def)
    then have "goes (server_inv env k) (delivers (registered_conns s) c0) (\<lambda>_. True) ?t
        ((if cl_id cl \<in> set (jkeys (br_registry s)) then onClientRemoved env cl
          else on_routes (removeClient (cl_id cl))) ?t)"
      by (rule goes_after_drop [OF inv Some _ env]) (metis jget_eq_None_iff)
    moreover have "drop_client env cl ?s = (if cl_id cl \<in> set (jkeys (br_registry s)) then onClientRemoved env cl
          else on_routes (removeClient (cl_id cl))) ?t"
      by (simp add: drop_client_def registry_remove_do_def registry_remove_def bindE_def)
    moreover have "registered_conns ?t \<subseteq> registered_conns s"
      by (auto simp: registered_conns_def conn_of_jset)
    ultimately have "goes (server_inv env k) (delivers (registered_conns s) c0) (\<lambda>_. True) s (drop_client env cl ?s)"
      by (intro goes_from [where s = s and ?s1.0 = ?t]) (simp_all only:, simp_all)
    then show ?thesis by (simp add: step Some)
  qed
qed

subsection \<open>Authentication steps\<close>

definition clock_ok :: "js_date \<Rightarrow> bool" where
  "clock_ok d \<longleftrightarrow> (\<exists>t. d = Some t \<and> new_Date (t + TOKEN_TTL_MS) \<noteq> None \<and> new_Date (t + COOLDOWN_MS) \<noteq> None)"

text \<open>The identity of a bridge, which no operation of the authenticator changes.\<close>

definition same_bridge :: "link_authenticator \<Rightarrow> link_authenticator \<Rightarrow> bool" where
  "same_bridge a a' \<longleftrightarrow> au_sessionId a' = au_sessionId a \<and> au_bridgeInstanceId a' = au_bridgeInstanceId a"

definition grants :: "link_authenticator \<Rightarrow> jstring \<Rightarrow> link_attempt \<Rightarrow> bool" where
  "grants a hex r \<longleftrightarrow> (\<forall>sid inst tok. r = LinkOk sid inst tok \<longrightarrow> sid = au_sessionId a \<and>
     inst = au_bridgeInstanceId a \<and> at_value tok = hex \<and> at_expiresAt tok \<noteq> None)"

definition attempt_ok :: "link_authenticator \<Rightarrow> jstring \<Rightarrow> (auth_error + link_attempt) \<times> link_authenticator \<Rightarrow> bool" where
  "attempt_ok a hex out \<longleftrightarrow> (\<exists>r a'. out = (Inr r, a') \<and> same_bridge a a' \<and> grants a hex r)"

lemma check_pin_ok:
  assumes "new_Date (t + TOKEN_TTL_MS) \<noteq> None" and "new_Date (t + COOLDOWN_MS) \<noteq> None"
  shows "attempt_ok a hex (check_pin pin role t hex a)"
  using assms by (auto simp: attempt_ok_def check_pin_def failed_attempt_def issueToken_eq same_bridge_def
      grants_def token_for_def)

lemma attempt_ok_same:
  "attempt_ok a hex out \<Longrightarrow> same_bridge b a \<Longrightarrow> attempt_ok b hex out"
  unfolding attempt_ok_def same_bridge_def grants_def by metis

lemma attemptLink_ok:
  assumes "clock_ok d" shows "attempt_ok a hex (attemptLink pin role d hex a)"
proof -
  obtain t where t: "d = Some t" "new_Date (t + TOKEN_TTL_MS) \<noteq> None" "new_Date (t + COOLDOWN_MS) \<noteq> None"
    using assms unfolding clock_ok_def by blast
  let ?a = "pruneFailures t a"
  have s: "same_bridge a ?a" "same_bridge a (?a\<lparr>au_cooldownUntil := None, au_failures := []\<rparr>)"
    by (simp_all add: same_bridge_def pruneFailures_def Let_def)
  note pins = check_pin_ok [OF t(2,3), of ?a] check_pin_ok [OF t(2,3), of "?a\<lparr>au_cooldownUntil := None, au_failures := []\<rparr>"]
  show ?thesis
    using attempt_ok_same [OF pins(1) s(1)] attempt_ok_same [OF pins(2) s(2)] s(1)
    by (auto simp: attemptLink_def readNow_def t(1) Let_def attempt_ok_def grants_def split: option.split)
qed

lemma validateToken_ok:
  assumes "clock_ok d" and "auth_inv a"
  shows "\<exists>r a'. validateToken sid role tok inst d a = (Inr r, a') \<and> same_bridge a a' \<and> auth_inv a' \<and>
    (r = Accepted \<longrightarrow> sid = au_sessionId a)"
proof -
  obtain t where t: "d = Some t" using assms(1) unfolding clock_ok_def by blast
  let ?a = "pruneExpiredTokens t a"
  have own: "at_sessionId k = au_sessionId a"
    if "find p (au_tokens ?a) = Some k" for p k
    using that assms(2) by (auto simp: find_Some_iff auth_inv_def pruneExpiredTokens_def dest!: nth_mem)
  have "same_bridge a ?a" "auth_inv ?a"
    using assms(2) by (simp_all add: same_bridge_def pruneExpiredTokens_def auth_inv_filter)
  then show ?thesis using own
    by (auto simp: validateToken_def readNow_def t Let_def split: option.split)
qed

lemma inv_auth:
  assumes "server_inv env k s" and "auth_inv a" and "same_bridge (sv_auth s) a"
  shows "server_inv env k (s\<lparr>sv_auth := a\<rparr>)"
  using assms unfolding server_inv_def core_def presence_def linked_def registered_conns_def conn_of_def
    same_bridge_def by simp

lemma goes_authenticate:
  assumes "server_inv env k s" and "f (sv_auth s) = (Inr x, a)" and "auth_inv a" and "same_bridge (sv_auth s) a"
  shows "goes (server_inv env k) (delivers A c0) (\<lambda>y. y = x) s (authenticate_do f s)"
  using inv_auth [OF assms(1,3,4)] assms(4)
  by (simp add: goes_def authenticate_do_def assms(2) delivers_def same_bridge_def)

lemma net_stable_inv [simp]: "net_stable (server_inv env k)"
  using flag_stable_inv unfolding flag_stable_def by blast

lemma goes_handleLinkRequest:
  assumes inv: "server_inv env k s" and env: "env_ok env" and clock: "clock_ok d" and hex: "32 \<le> length hex"
  shows "goes (server_inv env k) (delivers A c) (\<lambda>_. True) s (handleLinkRequest env c m d hex s)"
proof -
  let ?f = "attemptLink (link_pin m) (src_role (link_source m)) d hex"
  note err = goes_sendSocketError [where P = "server_inv env k" and env = env, OF _ net_stable_inv env]
  have answer: "goes (server_inv env k) (delivers A c) (\<lambda>_. True) s' (bindE (sendSocketError env c code wording fatal details)
      (\<lambda>_. ret False) s')" if "server_inv env k s'" "wording \<noteq> []" for s' code wording fatal details
    by (rule delivering.goes_bind, rule err [OF that], rule delivering.goes_ret) simp_all
  obtain r a where f: "?f (sv_auth s) = (Inr r, a)" "same_bridge (sv_auth s) a" "grants (sv_auth s) hex r"
    using attemptLink_ok [OF clock, of "sv_auth s"] unfolding attempt_ok_def by blast
  have a: "auth_inv a" using auth_inv_attemptLink [of "sv_auth s"] inv f(1)
    by (metis server_inv_def core_def snd_conv)
  have sid: "opaqueId (sid_of s)" "se_uuid (be_schema (en_bridge env)) (au_bridgeInstanceId (sv_auth s))"
    using inv by (simp_all add: server_inv_def core_def)
  have linkok: "goes (server_inv env k) (delivers A c) (\<lambda>_. True) s' (bindE (fresh_uuid (en_bridge env)) (\<lambda>u.
      bindE (sendSocketMessage env c (LinkAccepted \<lparr>messageId = u, metadata = [], accepted_sessionId = sid,
        accepted_bridgeInstanceId = inst, accepted_authToken = at_value tok,
        accepted_expiresAt = en_iso env (at_expiresAt tok)\<rparr>)) (\<lambda>_. ret True)) s')"
    if "server_inv env k s'" "r = LinkOk sid inst tok" for s' sid inst tok
  proof (rule delivering.goes_bind, rule goes_uuid [where P = "server_inv env k", OF that(1) net_stable_inv env],
      rule delivering.goes_bind)
    fix u s'' assume "server_inv env k s''" "opaqueId u"
    moreover have "se_datetime (be_schema (en_bridge env)) (en_iso env (at_expiresAt tok))"
      using f(3) env that(2) by (auto simp: grants_def env_ok_def)
    ultimately show "goes (server_inv env k) (delivers A c) (\<lambda>_. True) s'' (sendSocketMessage env c (LinkAccepted
        \<lparr>messageId = u, metadata = [], accepted_sessionId = sid, accepted_bridgeInstanceId = inst,
         accepted_authToken = at_value tok, accepted_expiresAt = en_iso env (at_expiresAt tok)\<rparr>) s'')"
      using f(3) that(2) sid hex by (intro goes_sendSocketMessage [where P = "server_inv env k"])
        (simp_all add: link_accepted_ok_def opaque_not_Nil grants_def gate_def is_link_accepted_def)
  qed (rule delivering.goes_ret; simp)
  show ?thesis
  proof (cases "src_role (link_source m) \<noteq> Browser \<and> src_role (link_source m) \<noteq> Simulator")
    case True
    then show ?thesis by (simp add: handleLinkRequest_def Let_def answer [OF inv])
  next
    case False
    show ?thesis unfolding handleLinkRequest_def Let_def if_not_P [OF False]
      by (rule delivering.goes_bind, rule goes_authenticate [where f = ?f, OF inv f(1) a f(2)])
        (auto simp: answer linkok split: link_attempt.split)
  qed
qed

subsection \<open>A client joins\<close>

text \<open>The id the registry is about to draw is not that of a connected client.\<close>

definition fresh_id :: "server_env \<Rightarrow> server \<Rightarrow> bool" where
  "fresh_id env s \<longleftrightarrow> (\<forall>c cl. co_registered (conn_of s c) = Some cl \<longrightarrow>
     cl_id cl \<noteq> be_uuid (en_bridge env) (uuids (br_net s)))"

definition joined :: "nat \<Rightarrow> registered_client \<Rightarrow> server \<Rightarrow> server \<Rightarrow> bool" where
  "joined c cl s s' \<longleftrightarrow> br_routes s' = br_routes s \<and> sv_peers s' = sv_peers s \<and> sv_auth s' = sv_auth s \<and>
     br_registry s' = jset (cl_id cl) cl (br_registry s) \<and>
     (\<forall>d. co_registered (conn_of s' d) = (if d = c then Some cl else co_registered (conn_of s d)))"

lemma linked_joined:
  assumes inv: "server_inv env k s" and none: "co_registered (conn_of s c) = None"
    and fresh: "\<And>d x. co_registered (conn_of s d) = Some x \<Longrightarrow> cl_id x \<noteq> cl_id cl"
    and cl: "cl_connection cl = c" "cl_sessionId cl = sid_of s" and j: "joined c cl s s'"
  shows "registered_conns s' = insert c (registered_conns s)" and "linked s'"
    and "core env (registered_conns s') k s'"
proof -
  have r: "co_registered (conn_of s' e) = (if e = c then Some cl else co_registered (conn_of s e))" for e
    using j by (simp add: joined_def)
  have g: "jget (br_registry s') cid = (if cid = cl_id cl then Some cl else jget (br_registry s) cid)" for cid
    using j by (simp add: joined_def)
  have sid: "sid_of s' = sid_of s" using j by (simp add: joined_def)
  show regs: "registered_conns s' = insert c (registered_conns s)"
    by (auto simp: registered_conns_def r)
  have l: "linked s" and co: "core env (registered_conns s) k s" using inv by (simp_all add: server_inv_def)
  have "\<exists>x'. co_registered (conn_of s' (cl_connection x)) = Some x' \<and> same_client x x'"
    if "jget (br_registry s') cid = Some x" for cid x
  proof (cases "cid = cl_id cl")
    case False
    then have "jget (br_registry s) cid = Some x" using that by (simp add: g)
    then obtain x' where "co_registered (conn_of s (cl_connection x)) = Some x'" "same_client x x'"
      using l unfolding linked_def by blast
    then show ?thesis using none by (auto simp: r)
  qed (use that cl in \<open>simp add: g r same_client_def\<close>)
  moreover have "d = e" if "co_registered (conn_of s' d) = Some x" "co_registered (conn_of s' e) = Some y"
      "cl_id x = cl_id y" for d e x y
  proof (cases "d = c"; cases "e = c")
    assume "d \<noteq> c" "e \<noteq> c"
    then show ?thesis using l that unfolding linked_def r by auto
  qed (use that fresh [of d] fresh [of e] in \<open>auto simp: r\<close>)
  moreover have "cl_connection x = d \<and> cl_sessionId x = sid_of s" if "co_registered (conn_of s' d) = Some x" for d x
    using l cl that unfolding linked_def r by (auto split: if_splits)
  ultimately show "linked s'" unfolding linked_def sid by blast
  have "\<forall>cid x. jget (br_registry s') cid = Some x \<longrightarrow> client_ok (registered_conns s') (sid_of s') cid x"
    using co cl unfolding regs sid g core_def client_ok_def by auto
  then show "core env (registered_conns s') k s'" using co j by (simp add: core_def joined_def)
qed

lemma at_snapshot:
  "server_at env A k reg cs au s \<Longrightarrow>
     opaqueId (au_sessionId au) \<and> generation_ok (peer_gen (peer_get (sv_peers s) (au_sessionId au)))"
  unfolding server_at_def core_def generation_ok_def by auto

lemma goes_sendCurrentPeerState:
  assumes "server_at env A (Suc k) reg cs au s" and "cl_sessionId client = au_sessionId au"
    and "cl_connection client \<in> A" and env: "env_ok env"
  shows "goes (settled env A k reg cs au) (delivers A c0) (\<lambda>_. True) s (sendCurrentPeerState env client s)"
  unfolding sendCurrentPeerState_def
proof (rule delivering.goes_bind, rule goes_update_ide_count [OF assms(1)])
  show "cl_sessionId client = sid_of s" using assms(1,2) by (simp add: server_at_def)
  fix t :: "peer_transition option" and s'
  assume st: "settled env A k reg cs au s'"
    and t: "\<forall>x. t = Some x \<longrightarrow> opaqueId (pt_sessionId x) \<and> generation_ok (peer_gen (pt_snapshot x))"
  show "goes (settled env A k reg cs au) (delivers A c0) (\<lambda>_. True) s'
     (bindE (case t of None \<Rightarrow> ret () | Some t \<Rightarrow> publishPeerState env t (Some (cl_id client))) (\<lambda>_ s.
       bindE (createPeerStateMessage env (cl_sessionId client) (peer_get (sv_peers s) (cl_sessionId client)))
       (\<lambda>message. sendSocketMessage env (cl_connection client) message) s) s')"
  proof (rule delivering.goes_bind)
    show "goes (settled env A k reg cs au) (delivers A c0) (\<lambda>_. True) s'
        ((case t of None \<Rightarrow> ret () | Some t \<Rightarrow> publishPeerState env t (Some (cl_id client))) s')"
    proof (cases t)
      case None
      then show ?thesis using st by (simp add: goes_def delivering.R_refl)
    next
      case (Some x)
      then show ?thesis using t st
        by (simp, intro goes_publishPeerState [where P = "settled env A k reg cs au"])
          (use env at_conns in \<open>simp_all add: settled_def, blast\<close>)
    qed
  next
    fix s'' assume st: "settled env A k reg cs au s''"
    show "goes (settled env A k reg cs au) (delivers A c0) (\<lambda>_. True) s''
       (bindE (createPeerStateMessage env (cl_sessionId client) (peer_get (sv_peers s'') (cl_sessionId client)))
       (\<lambda>message. sendSocketMessage env (cl_connection client) message) s'')"
    proof (rule delivering.goes_bind, rule goes_createPeerStateMessage [where P = "settled env A k reg cs au", OF st _ env])
      fix m s3 assume "settled env A k reg cs au s3" "message_ok (be_schema (en_bridge env)) m"
      then show "goes (settled env A k reg cs au) (delivers A c0) (\<lambda>_. True) s3
          (sendSocketMessage env (cl_connection client) m s3)"
        by (intro goes_sendSocketMessage [where P = "settled env A k reg cs au"])
          (use assms(3) in \<open>simp_all add: gate_def\<close>)
    qed (use st at_snapshot assms(2) in \<open>auto simp: settled_def\<close>)
  qed
qed

lemma goes_notify_at:
  assumes "server_at env A k reg cs au s"
  shows "goes (server_at env A k reg cs au) (delivers B c0) (\<lambda>_. True) s (notifyClientCounts s)"
  using assms by (auto simp: goes_def notifyClientCounts_def delivers_def server_at_def intro: core_same)

text \<open>The client a hello registers, the state it is registered in, and what follows.\<close>

definition new_client :: "server_env \<Rightarrow> nat \<Rightarrow> hello_message \<Rightarrow> server \<Rightarrow> registered_client" where
  "new_client env c m s = \<lparr>cl_id = be_uuid (en_bridge env) (uuids (br_net s)), cl_connection = c,
     cl_source = hello_source m, cl_sessionId = hello_sessionId m, cl_authToken = hello_authToken m,
     cl_capabilities = hello_capabilities m, cl_missedPongs = 0\<rparr>"

definition with_client :: "server_env \<Rightarrow> nat \<Rightarrow> hello_message \<Rightarrow> server \<Rightarrow> server" where
  "with_client env c m s =
     (let cl = new_client env c m s;
          t = s\<lparr>sv_conns := jset c ((conn_of s c)\<lparr>co_timer := False\<rparr>) (sv_conns s),
            br_registry := jset (cl_id cl) cl (br_registry s),
            br_net := br_net s\<lparr>uuids := Suc (uuids (br_net s))\<rparr>\<rparr>
      in t\<lparr>sv_conns := jset c ((conn_of t c)\<lparr>co_registered := Some cl\<rparr>) (sv_conns t)\<rparr>)"

definition greet :: "server_env \<Rightarrow> nat \<Rightarrow> hello_message \<Rightarrow> jstring \<Rightarrow> registered_client \<Rightarrow> unit server_eff" where
  "greet env c m inst cl = bindE notifyClientCounts (\<lambda>_.
     bindE (fresh_uuid (en_bridge env)) (\<lambda>u.
     bindE (sendSocketMessage env c (Authenticated \<lparr>messageId = u, metadata = [],
       authed_sessionId = hello_sessionId m, authed_bridgeInstanceId = inst\<rparr>)) (\<lambda>_.
       if role_of cl = Browser \<or> role_of cl = Simulator
       then sendCurrentPeerState env cl else updatePeerState env (cl_sessionId cl))))"

lemma accept_hello_eq:
  "accept_hello env c m inst s = greet env c m inst (new_client env c m s) (with_client env c m s)"
proof -
  let ?cl = "new_client env c m s"
  let ?s0 = "s\<lparr>sv_conns := jset c ((conn_of s c)\<lparr>co_timer := False\<rparr>) (sv_conns s)\<rparr>"
  let ?t = "?s0\<lparr>br_registry := jset (cl_id ?cl) ?cl (br_registry s),
    br_net := br_net s\<lparr>uuids := Suc (uuids (br_net s))\<rparr>\<rparr>"
  have "clearHandshakeTimer c s = (Inr (), ?s0)"
    by (simp add: clearHandshakeTimer_def set_conn_def)
  moreover have "registry_add_do env \<lparr>rn_connection = c, rn_source = hello_source m,
      rn_sessionId = hello_sessionId m, rn_authToken = hello_authToken m,
      rn_capabilities = hello_capabilities m\<rparr> ?s0 = (Inr ?cl, ?t)"
    by (simp add: registry_add_do_def registry_add_def randomUUID_def Let_def new_client_def)
  moreover have "set_conn c (\<lambda>x. x\<lparr>co_registered := Some ?cl\<rparr>) ?t = (Inr (), with_client env c m s)"
    by (simp add: set_conn_def with_client_def Let_def)
  ultimately show ?thesis unfolding accept_hello_def greet_def by (simp only: bindE_Inr)
qed

lemma joined_with_client: "joined c (new_client env c m s) s (with_client env c m s)"
  by (auto simp: joined_def with_client_def Let_def conn_of_def)

lemma goes_accept_hello:
  assumes inv: "server_inv env (Suc k) s" and none: "co_registered (conn_of s c) = None"
    and fresh: "fresh_id env s" and env: "env_ok env"
    and m: "hello_sessionId m = sid_of s" "inst = au_bridgeInstanceId (sv_auth s)"
  shows "goes (server_inv env k) (delivers (insert c (registered_conns s)) c) (\<lambda>_. True) s
    (accept_hello env c m inst s)"
proof -
  define cl where "cl = new_client env c m s"
  define s1 where "s1 = with_client env c m s"
  have j: "joined c cl s s1" unfolding cl_def s1_def by (rule joined_with_client)
  have other: "cl_id x \<noteq> cl_id cl" if "co_registered (conn_of s d) = Some x" for d x
    using fresh that by (simp add: fresh_id_def cl_def new_client_def)
  have c: "cl_connection cl = c" "cl_sessionId cl = sid_of s" by (simp_all add: cl_def new_client_def m)
  note joined = linked_joined [OF inv none other c j]
  let ?A = "insert c (registered_conns s)"
  let ?at = "server_at env ?A (Suc k) (br_registry s1) (sv_conns s1) (sv_auth s)"
  let ?Q = "settled env ?A k (br_registry s1) (sv_conns s1) (sv_auth s)"
  have auth: "sv_auth s1 = sv_auth s" using j by (simp add: joined_def)
  have at: "?at s1" using joined auth by (simp add: server_at_def)
  have "goes ?Q (delivers ?A c) (\<lambda>_. True) s1 (accept_hello env c m inst s)"
    unfolding accept_hello_eq [of env c m inst s, folded cl_def s1_def] greet_def
  proof (rule delivering.goes_bind, rule goes_notify_at [OF at], rule delivering.goes_bind,
      rule goes_uuid [where P = ?at, OF _ _ env], assumption, simp, rule delivering.goes_bind)
    fix v s2 assume st: "?at s2" "opaqueId v"
    then have "opaqueId (sid_of s2)" "se_uuid (be_schema (en_bridge env)) (au_bridgeInstanceId (sv_auth s))"
      "sid_of s2 = sid_of s" by (auto simp: server_at_def core_def)
    then show "goes ?at (delivers ?A c) (\<lambda>_. True) s2 (sendSocketMessage env c (Authenticated \<lparr>messageId = v,
       metadata = [], authed_sessionId = hello_sessionId m, authed_bridgeInstanceId = inst\<rparr>) s2)"
      using st m by (intro goes_sendSocketMessage [where P = ?at])
        (simp_all add: authenticated_ok_def opaque_not_Nil gate_def)
  next
    fix s3 assume st: "?at s3"
    then have "cl_sessionId cl = sid_of s3" by (simp add: server_at_def c m)
    then show "goes ?Q (delivers ?A c) (\<lambda>_. True) s3 ((if role_of cl = Browser \<or> role_of cl = Simulator
       then sendCurrentPeerState env cl else updatePeerState env (cl_sessionId cl)) s3)"
      using goes_sendCurrentPeerState [OF st _ _ env, of cl c] goes_updatePeerState [OF st _ env, of "cl_sessionId cl" c] c
      by simp
  qed
  then have "goes (server_inv env k) (delivers ?A c) (\<lambda>_. True) s1 (accept_hello env c m inst s)"
    by (rule goes_weaken) (use settled_inv [OF _ joined(2)] joined(1) auth in auto)
  then show ?thesis
    by (rule goes_from) (use joined(1) in \<open>auto simp: s1_def with_client_def Let_def\<close>)
qed

lemma inv_less: "server_inv env (Suc k) s \<Longrightarrow> server_inv env k s"
  by (simp add: server_inv_def core_less)

text \<open>The connections whose messages count as authenticated once \<open>s\<close> has become \<open>s'\<close>.\<close>

definition hello_effect :: "nat \<Rightarrow> server \<Rightarrow> bool \<Rightarrow> nat set" where
  "hello_effect c s accepted = (if accepted then insert c (registered_conns s) else registered_conns s)"

definition hello_accepted :: "server_env \<Rightarrow> hello_message \<Rightarrow> js_date \<Rightarrow> server \<Rightarrow> bool" where
  "hello_accepted env h d s \<longleftrightarrow> hello_bridgeInstanceId h = au_bridgeInstanceId (sv_auth s) \<and>
     fst (validateToken (hello_sessionId h) (src_role (hello_source h)) (hello_authToken h)
       (au_bridgeInstanceId (sv_auth s)) d (sv_auth s)) = Inr Accepted"

lemma goes_handle_hello:
  assumes inv: "server_inv env (Suc k) s" and none: "co_registered (conn_of s c) = None"
    and fresh: "fresh_id env s" and env: "env_ok env" and clock: "clock_ok d"
  shows "goes (server_inv env k) (delivers (hello_effect c s (hello_accepted env h d s)) c) (\<lambda>_. True) s
    (handle_hello env c h d s)"
proof -
  let ?i = "au_bridgeInstanceId (sv_auth s)"
  let ?f = "validateToken (hello_sessionId h) (src_role (hello_source h)) (hello_authToken h) ?i d"
  have refused: "goes (server_inv env k) (delivers A c) (\<lambda>_. True) s' (refuse env c code wording s')"
    if "server_inv env (Suc k) s'" "wording \<noteq> []" for s' code wording A
    using that env inv_less by (intro goes_refuse [where P = "server_inv env k"]) auto
  show ?thesis
  proof (cases "hello_bridgeInstanceId h = ?i")
    case False
    then show ?thesis by (simp add: handle_hello_def Let_def refused inv)
  next
    case True
    obtain r a where f: "?f (sv_auth s) = (Inr r, a)" "same_bridge (sv_auth s) a" "auth_inv a"
      "r = Accepted \<Longrightarrow> hello_sessionId h = sid_of s"
      using validateToken_ok [OF clock, of "sv_auth s" "hello_sessionId h" "src_role (hello_source h)"
          "hello_authToken h" ?i] inv by (auto simp: server_inv_def core_def)
    let ?s = "s\<lparr>sv_auth := a\<rparr>"
    have inv': "server_inv env (Suc k) ?s" by (rule inv_auth [OF inv f(3,2)])
    have acc: "hello_accepted env h d s \<longleftrightarrow> r = Accepted" using True f(1) by (simp add: hello_accepted_def)
    have run: "handle_hello env c h d s = (case r of Accepted \<Rightarrow> accept_hello env c h ?i
      | InstanceChanged \<Rightarrow> refuse env c AuthInstanceChanged (js ''Bridge instance changed'')
      | Rejected \<Rightarrow> refuse env c AuthTokenRejected (js ''Authentication token rejected'')) ?s"
      using True by (simp add: handle_hello_def Let_def authenticate_do_def f(1) bindE_def)
    have "goes (server_inv env k) (delivers (hello_effect c s (r = Accepted)) c) (\<lambda>_. True) ?s
      ((case r of Accepted \<Rightarrow> accept_hello env c h ?i
      | InstanceChanged \<Rightarrow> refuse env c AuthInstanceChanged (js ''Bridge instance changed'')
      | Rejected \<Rightarrow> refuse env c AuthTokenRejected (js ''Authentication token rejected'')) ?s)"
    proof (cases r)
      case Accepted
      have "co_registered (conn_of ?s c) = None" "fresh_id env ?s"
        using none fresh by (simp_all add: conn_of_def fresh_id_def)
      moreover have "hello_sessionId h = sid_of ?s" "?i = au_bridgeInstanceId (sv_auth ?s)"
        using f(2,4) Accepted by (simp_all add: same_bridge_def)
      ultimately have "goes (server_inv env k) (delivers (insert c (registered_conns ?s)) c) (\<lambda>_. True) ?s
          (accept_hello env c h ?i ?s)" by (rule goes_accept_hello [OF inv' _ _ env])
      then show ?thesis by (simp add: Accepted hello_effect_def)
    qed (simp_all add: refused inv')
    then show ?thesis unfolding acc run
      by (rule goes_from) (use f(2) in \<open>auto simp: same_bridge_def\<close>)
  qed
qed

lemma goes_handle_unlink:
  assumes inv: "server_inv env (Suc k) s" and cl: "co_registered (conn_of s c) = Some cl" and env: "env_ok env"
  shows "goes (server_inv env k) (delivers (registered_conns s) c0) (\<lambda>_. True) s (handle_unlink env c cl s)"
proof -
  let ?f = "\<lambda>s f. s\<lparr>sv_conns := jset c (f (conn_of s c)) (sv_conns s)\<rparr>"
  define s1 where "s1 = ?f (?f (?f s (\<lambda>x. x\<lparr>co_closing := True\<rparr>)) (\<lambda>x. x\<lparr>co_timer := False\<rparr>))
    (\<lambda>x. x\<lparr>co_registered := None\<rparr>)"
  define s2 where "s2 = s1\<lparr>br_registry := jdel (cl_id cl) (br_registry s),
    sv_auth := revokeToken (cl_authToken cl) (sv_auth s)\<rparr>"
  define removed where "removed \<longleftrightarrow> cl_id cl \<in> set (jkeys (br_registry s))"
  have d: "dropped c cl s s2"
    using inv by (auto simp: dropped_def s2_def s1_def conn_of_def server_inv_def core_def auth_inv_revoke
        revokeToken_def [of _ "sv_auth s"] auth_inv_filter)
  have run: "handle_unlink env c cl s = bindE
     (if removed then onClientRemoved env cl else on_routes (removeClient (cl_id cl))) (\<lambda>_ s.
       (Inr (), s\<lparr>br_net := guarded_close (en_bridge env) c None None (br_net s)\<rparr>)) s2"
    by (simp add: handle_unlink_def clearHandshakeTimer_def set_conn_def bindE_Inr registry_remove_do_def
        registry_remove_def s1_def s2_def removed_def cong: if_cong)
  have "goes (server_inv env k) (delivers (registered_conns s) c0) (\<lambda>_. True) s2 (handle_unlink env c cl s)"
    unfolding run
  proof (rule delivering.goes_bind, rule goes_after_drop [OF inv cl d env])
    show "removed \<longleftrightarrow> jget (br_registry s) (cl_id cl) \<noteq> None"
      unfolding removed_def by (metis jget_eq_None_iff)
  qed (simp add: goes_net)
  then show ?thesis
  proof (rule goes_from)
    show "wire (br_net s2) = wire (br_net s)" by (simp add: s1_def s2_def)
    show "registered_conns s2 \<subseteq> registered_conns s \<union> registered_conns s"
      using linked_dropped(1) [OF inv cl d] by blast
    show "sid_of s2 = sid_of s" using d by (simp add: dropped_def)
  qed
qed

subsection \<open>Messages\<close>

lemma inv_ping:
  assumes inv: "server_inv env k s" and reg: "jget (br_registry s) cid = Some cl"
  shows "server_inv env k (s\<lparr>br_registry := jset cid (cl\<lparr>cl_missedPongs := n\<rparr>) (br_registry s)\<rparr>)"
proof -
  let ?s = "s\<lparr>br_registry := jset cid (cl\<lparr>cl_missedPongs := n\<rparr>) (br_registry s)\<rparr>"
  have g: "(\<exists>y. jget (br_registry ?s) i = Some y \<and> Q y) \<longleftrightarrow> (\<exists>y. jget (br_registry s) i = Some y \<and> Q y)"
    if "\<And>x. Q (x\<lparr>cl_missedPongs := n\<rparr>) = Q x" for i Q
    using reg that by auto
  have co: "core env (registered_conns s) k s" and l: "linked s" and p: "presence s"
    using inv by (simp_all add: server_inv_def)
  have dist: "distinct (jkeys (br_registry s))" using co by (simp add: core_def)
  have c: "conn_of ?s = conn_of s" by (rule ext) (simp add: conn_of_def)
  have r: "registered_conns ?s = registered_conns s" by (simp add: registered_conns_def c)
  have "client_ok (registered_conns s) (sid_of s) cid cl" using co reg unfolding core_def by blast
  then have "core env (registered_conns s) k ?s"
    using co unfolding core_def by (simp add: client_ok_def)
  moreover have "0 < countBySessionAndRole (br_registry ?s) (sid_of s) Ide \<longleftrightarrow>
      0 < countBySessionAndRole (br_registry s) (sid_of s) Ide"
    unfolding count_pos_get [OF dist] count_pos_get [OF distinct_jset [OF dist], simplified]
    by (subst count_pos_get) (use dist g in \<open>simp_all add: reg\<close>)
  then have "presence ?s" using p by (simp add: presence_def)
  moreover have "\<exists>cl'. co_registered (conn_of s (cl_connection cl)) = Some cl' \<and> same_client cl cl'"
    using l reg unfolding linked_def by blast
  then have "linked ?s" using l unfolding linked_def c by (simp add: same_client_def)
  ultimately show ?thesis by (simp add: server_inv_def r)
qed

lemma goes_markAlive:
  assumes "server_inv env k s"
  shows "goes (server_inv env k) (delivers A c) (\<lambda>_. True) s
    (Inr (), s\<lparr>br_registry := markAlive cid (br_registry s)\<rparr>)"
  using assms inv_ping [OF assms, of cid]
  by (auto simp: goes_def delivers_def markAlive_def split: option.split)

lemma goes_route:
  assumes inv: "server_inv env k s" and cl: "co_registered (conn_of s c) = Some cl" and env: "env_ok env"
    and ok: "message_ok (be_schema (en_bridge env)) m"
  shows "goes (server_inv env k) (delivers (registered_conns s) c) (\<lambda>_. True) s
    (routeMessage (en_bridge env) cl m s)"
proof -
  have "routing_state (br_registry s) s" using inv by (simp add: routing_state_def server_inv_def core_def)
  moreover have "uuids_ok (en_bridge env)" using env by (auto simp: uuids_ok_def env_ok_def opaque_not_Nil)
  ultimately obtain s' where s': "routeMessage (en_bridge env) cl m s = (Inr (), s')"
      "routing_state (br_registry s) s'" "routed (br_registry s) cl m s s'"
    using routeMessage_goes [OF _ _ ok, of "br_registry s" s cl] by (auto simp: goes_def)
  have e: "bridge.more s' = bridge.more s" and reg: "br_registry s' = br_registry s"
    and rs: "routes_inv (br_routes s')"
    using s'(2,3) by (simp_all add: routed_def routing_state_def)
  have s: "s' = s\<lparr>br_routes := br_routes s', br_net := br_net s'\<rparr>"
    using e reg by (cases s; cases s') simp
  have "server_inv env k (s\<lparr>br_routes := br_routes s'\<rparr>)"
    using routes_stable_inv(3) inv rs unfolding routes_stable_def by blast
  then have "server_inv env k s'"
    using net_stable_inv s unfolding net_stable_def by (metis (no_types))
  moreover have "gate (registered_conns s) c x" if "delivery_ok (br_registry s) cl m x" for x
  proof -
    have "cl_connection cl = c" "c \<in> registered_conns s"
      using inv cl by (auto simp: server_inv_def linked_def registered_conns_def)
    moreover have "cl_connection r \<in> registered_conns s" if "r \<in> set (map snd (br_registry s))" for r
      by (rule at_conns [of env _ k "br_registry s" "sv_conns s" "sv_auth s" s])
        (use inv that in \<open>simp_all add: server_at_def server_inv_def\<close>)
    ultimately show ?thesis using that unfolding delivery_ok_def gate_def by metis
  qed
  moreover have "registered_conns s' = registered_conns s" "sid_of s' = sid_of s" by (subst s, simp)+
  ultimately show ?thesis using s' unfolding goes_def delivers_def routed_def list_all_iff by blast
qed

end
