(* ===== verification/Server_System.thy ===== *)
theory Server_System
  imports Server_Properties
begin

text \<open>
  The whole bridge server as a system of events: sockets open, deliver messages, fail and
  close, handshakes time out, the heartbeat ticks, the server stops. Each event is one handler
  of \<^verbatim>\<open>Bridge_Server\<close>; from a state with the invariant every handler returns, in a state with the
  invariant, and delivers only what the registered connections may receive.
\<close>

subsection \<open>The message handler\<close>

definition accepts_hello :: "server_env \<Rightarrow> jstring \<Rightarrow> js_date \<Rightarrow> server \<Rightarrow> bool" where
  "accepts_hello env payload d s \<longleftrightarrow>
     (\<exists>h. parse_message env payload = Some (Hello h) \<and> hello_accepted env h d s)"

lemma parse_message_ok: "parse_message env payload = Some m \<Longrightarrow> message_ok (be_schema (en_bridge env)) m"
  by (auto simp: parse_message_def bind_eq_Some_conv split: if_splits)

lemma goes_handle_client_message:
  assumes inv: "server_inv env (Suc k) s" and fresh: "fresh_id env s" and env: "env_ok env"
    and clock: "clock_ok d" and ok: "message_ok (be_schema (en_bridge env)) m"
  shows "goes (server_inv env k)
    (delivers (hello_effect c s (\<exists>h. m = Hello h \<and> hello_accepted env h d s)) c) (\<lambda>_. True) s
    (handle_client_message env c m d s)"
    (is "goes ?I (delivers ?A c) _ _ _")
proof -
  have sub: "registered_conns s \<subseteq> ?A" by (auto simp: hello_effect_def)
  have refused: "goes ?I (delivers A c) (\<lambda>_. True) s (refuse env c code wording s)"
    if "wording \<noteq> []" for A code wording
    using inv_less [OF inv] that env by (intro goes_refuse [where P = ?I]) simp_all
  show ?thesis
  proof (cases "co_registered (conn_of s c)")
    case None
    show ?thesis
    proof (cases m)
      case (Hello h)
      then show ?thesis using goes_handle_hello [OF inv None fresh env clock, of h]
        by (simp add: handle_client_message_def None)
    qed (simp_all add: handle_client_message_def None refused)
  next
    case (Some cl)
    note down = goes_delivers_mono [OF _ sub]
    have route: "goes ?I (delivers ?A c) (\<lambda>_. True) s (routeMessage (en_bridge env) cl m s)"
      by (rule down, rule goes_route [OF inv_less [OF inv] Some env ok])
    have unlink: "goes ?I (delivers ?A c) (\<lambda>_. True) s (handle_unlink env c cl s)"
      by (rule down, rule goes_handle_unlink [OF inv Some env])
    have pong: "goes ?I (delivers ?A c) (\<lambda>_. True) s
        (Inr (), s\<lparr>br_registry := markAlive (cl_id cl) (br_registry s)\<rparr>)"
      by (rule goes_markAlive [OF inv_less [OF inv]])
    have "handle_client_message env c m d s =
       (case m of
            Hello h \<Rightarrow> refuse env c ProtocolInvalidMessage (js ''Client is already authenticated'') s
          | _ \<Rightarrow>
            if \<not> isAllowedInboundMessage cl m
            then refuse env c ProtocolInvalidMessage (js ''Message does not match protocol'') s
            else (case m of
                Unlink u \<Rightarrow> handle_unlink env c cl s
              | Pong p \<Rightarrow> (Inr (), s\<lparr>br_registry := markAlive (cl_id cl) (br_registry s)\<rparr>)
              | _ \<Rightarrow> routeMessage (en_bridge env) cl m s))"
      by (simp add: handle_client_message_def Some)
    then show ?thesis using route unlink pong
      by (cases m; cases "isAllowedInboundMessage cl m") (simp_all add: refused del: isAllowedInboundMessage.simps)
  qed
qed

lemma goes_link_request:
  assumes "server_inv env k s" and env: "env_ok env" and clock: "clock_ok d" and hex: "32 \<le> length hex"
  shows "goes (server_inv env k) (delivers A c) (\<lambda>_. True) s (bindE (set_conn c (\<lambda>x. x\<lparr>co_linkAttempted := True\<rparr>)) (\<lambda>_.
     bindE (handleLinkRequest env c l d hex) (\<lambda>ok. if ok then ret () else closeConnection env c None None)) s)"
proof (rule delivering.goes_bind, rule goes_set_flag [where P = "server_inv env k", OF assms(1)])
  fix s' assume "server_inv env k s'"
  then show "goes (server_inv env k) (delivers A c) (\<lambda>_. True) s' (bindE (handleLinkRequest env c l d hex)
      (\<lambda>ok. if ok then ret () else closeConnection env c None None) s')"
  proof (rule delivering.goes_bind [OF goes_handleLinkRequest [OF _ env clock hex]])
    fix ok s'' assume "server_inv env k s''"
    then show "goes (server_inv env k) (delivers A c) (\<lambda>_. True) s''
        ((if ok then ret () else closeConnection env c None None) s'')"
      using goes_closeConnection [where P = "server_inv env k"]
      by (simp add: goes_def delivering.R_refl)
  qed
qed simp_all

lemma goes_on_message:
  assumes inv: "server_inv env (Suc k) s" and fresh: "fresh_id env s" and env: "env_ok env"
    and clock: "clock_ok d" and hex: "32 \<le> length hex"
  shows "goes (server_inv env k) (delivers (hello_effect c s (accepts_hello env payload d s)) c) (\<lambda>_. True) s
    (on_message env c payload d hex s)"
    (is "goes ?I (delivers ?A c) _ _ _")
proof -
  note inv' = inv_less [OF inv]
  have refused: "goes ?I (delivers A c) (\<lambda>_. True) s (refuse env c code wording s)"
    if "wording \<noteq> []" for A code wording
    using inv' that env by (intro goes_refuse [where P = ?I]) simp_all
  have close: "goes ?I (delivers A c) (\<lambda>_. True) s (closeConnection env c code reason s)" for A code reason
    using inv' by (intro goes_closeConnection [where P = ?I]) simp_all
  have stay: "goes ?I (delivers A c) (\<lambda>_. True) s (Inr (), s)" for A
    using inv' by (simp add: goes_def delivering.R_refl)
  have handled: "goes ?I (delivers ?A c) (\<lambda>_. True) s (handle_client_message env c m d s)"
    if "parse_message env payload = Some m" for m
    using goes_handle_client_message [OF inv fresh env clock parse_message_ok [OF that], of c] that
    by (simp add: accepts_hello_def)
  show ?thesis
  proof (cases "parse_message env payload")
    case None
    then show ?thesis by (simp add: on_message_def Let_def refused close stay)
  next
    case (Some m)
    show ?thesis
      by (cases m) (use handled [OF Some] in
        \<open>simp_all add: on_message_def Let_def Some refused close stay goes_link_request [OF inv' env clock hex]\<close>)
  qed
qed

subsection \<open>The heartbeat\<close>

text \<open>What the loop over a snapshot of the clients needs to know of the clients still to visit.\<close>

definition tick_ok :: "nat set \<Rightarrow> registered_client list \<Rightarrow> server \<Rightarrow> bool" where
  "tick_ok A xs s \<longleftrightarrow> registered_conns s \<subseteq> A \<and> (\<forall>cl\<in>set xs. cl_connection cl \<in> A \<and>
     cl_sessionId cl = sid_of s \<and> (\<forall>x. jget (br_registry s) (cl_id cl) = Some x \<longrightarrow> same_client x cl))"

lemma tick_ok_shrinks:
  assumes "tick_ok A xs s" and "sv_conns s' = sv_conns s" and "sid_of s' = sid_of s"
    and "\<And>cid x. jget (br_registry s') cid = Some x \<Longrightarrow>
      \<exists>y. jget (br_registry s) cid = Some y \<and> x\<lparr>cl_missedPongs := 0\<rparr> = y\<lparr>cl_missedPongs := 0\<rparr>"
  shows "tick_ok A xs s'"
proof -
  have "conn_of s' = conn_of s" by (rule ext) (simp add: conn_of_def assms(2))
  then have "registered_conns s' = registered_conns s" by (simp add: registered_conns_def)
  moreover have "same_client x cl"
    if "jget (br_registry s') (cl_id cl) = Some x" "cl \<in> set xs" for x cl
    using assms(1) assms(4) [OF that(1)] that(2) unfolding tick_ok_def same_client_def by metis
  ultimately show ?thesis using assms(1,3) unfolding tick_ok_def by simp
qed

lemma evicted:
  assumes inv: "server_inv env k s" and t: "tick_ok A xs s" and cl: "cl \<in> set xs"
  defines "s1 \<equiv> s\<lparr>br_registry := jdel (cl_id cl) (br_registry s)\<rparr>"
  shows "server_at env (registered_conns s) k (br_registry s1) (sv_conns s) (sv_auth s) s1" and "linked s1"
    and "cl_id cl \<notin> set (jkeys (br_registry s)) \<or> role_of cl \<noteq> Ide \<Longrightarrow> presence s1"
proof -
  have co: "core env (registered_conns s) k s" and l: "linked s" and p: "presence s"
    using inv by (simp_all add: server_inv_def)
  have dist: "distinct (jkeys (br_registry s))" "distinct (jkeys (br_registry s1))"
    using co by (simp_all add: core_def s1_def)
  show "server_at env (registered_conns s) k (br_registry s1) (sv_conns s) (sv_auth s) s1"
    using co by (simp add: server_at_def s1_def core_def)
  show "linked s1" using l unfolding linked_def s1_def by auto
  assume gone: "cl_id cl \<notin> set (jkeys (br_registry s)) \<or> role_of cl \<noteq> Ide"
  have "role_of x \<noteq> Ide" if "jget (br_registry s) (cl_id cl) = Some x" for x
  proof -
    have "same_client x cl" using t cl that unfolding tick_ok_def by blast
    then show ?thesis using gone same_client_fields [of x cl] jget_SomeD [OF that] by auto
  qed
  then have "jget (br_registry s1) cid = Some x \<longleftrightarrow> jget (br_registry s) cid = Some x"
    if "role_of x = Ide" for cid x
    using that by (auto simp: s1_def)
  then have "0 < countBySessionAndRole (br_registry s1) (sid_of s) Ide \<longleftrightarrow>
      0 < countBySessionAndRole (br_registry s) (sid_of s) Ide"
    unfolding count_pos_get [OF dist(1)] count_pos_get [OF dist(2)] by blast
  then show "presence s1" using p by (simp add: presence_def s1_def)
qed

lemma goes_terminate:
  "P s \<Longrightarrow> net_stable P \<Longrightarrow> goes P (delivers A c0) (\<lambda>_. True) s (terminate_do c s)"
  unfolding terminate_do_def by (rule goes_net) (simp_all add: terminateConnectionSafely_def terminateWebSocket_def)

lemma goes_evict:
  assumes inv: "server_inv env (Suc k) s" and t: "tick_ok A xs s" and cl: "cl \<in> set xs" and env: "env_ok env"
  shows "goes (\<lambda>s'. server_inv env k s' \<and> tick_ok A xs s') (delivers A c0) (\<lambda>_. True) s
    (bindE (registry_remove_do (cl_id cl)) (\<lambda>removed. bindE (terminate_do (cl_connection cl)) (\<lambda>_.
       if removed then onClientRemoved env cl else ret ())) s)"
proof -
  define s1 where "s1 = s\<lparr>br_registry := jdel (cl_id cl) (br_registry s)\<rparr>"
  define removed where "removed \<longleftrightarrow> cl_id cl \<in> set (jkeys (br_registry s))"
  note e = evicted [OF inv t cl, folded s1_def]
  let ?B = "registered_conns s"
  let ?Q = "settled env ?B k (br_registry s1) (sv_conns s) (sv_auth s)"
  let ?P = "\<lambda>s'. server_at env ?B (Suc k) (br_registry s1) (sv_conns s) (sv_auth s) s' \<and>
    (\<not> removed \<or> role_of cl \<noteq> Ide \<longrightarrow> presence s')"
  have B: "?B \<subseteq> A" "registered_conns s1 = ?B" using t by (simp_all add: tick_ok_def s1_def)
  have net: "net_stable ?P" using net_stable_at(1) by (auto simp: net_stable_def presence_def)
  have "goes ?Q (delivers ?B c0) (\<lambda>_. True) s1
      (bindE (terminate_do (cl_connection cl)) (\<lambda>_. if removed then onClientRemoved env cl else ret ()) s1)"
  proof (rule delivering.goes_bind, rule goes_terminate [where P = ?P, OF _ net])
    show "?P s1" using e by (simp add: removed_def)
    fix s2 assume st: "?P s2"
    show "goes ?Q (delivers ?B c0) (\<lambda>_. True) s2 ((if removed then onClientRemoved env cl else ret ()) s2)"
    proof (cases removed)
      case True
      have "cl_sessionId cl = sid_of s" using t cl by (simp add: tick_ok_def)
      then show ?thesis using True st env by (simp add: goes_onClientRemoved)
    next
      case False
      then show ?thesis using st by (simp add: goes_def delivering.R_refl settled_def at_less)
    qed
  qed
  then have "goes (\<lambda>s'. server_inv env k s' \<and> tick_ok A xs s') (delivers ?B c0) (\<lambda>_. True) s1
      (bindE (terminate_do (cl_connection cl)) (\<lambda>_. if removed then onClientRemoved env cl else ret ()) s1)"
  proof (rule goes_weaken)
    fix s' assume q: "?Q s'"
    then have f: "br_registry s' = br_registry s1" "sv_conns s' = sv_conns s" "sv_auth s' = sv_auth s"
      by (simp_all add: settled_def server_at_def)
    have "tick_ok A xs s'"
      by (rule tick_ok_shrinks [OF t]) (simp_all add: f s1_def split: if_splits)
    moreover have "server_inv env k s'"
      by (rule settled_inv [OF _ e(2)]) (use q in \<open>simp add: s1_def\<close>)
    ultimately show "server_inv env k s' \<and> tick_ok A xs s'" by simp
  qed simp
  then have "goes (\<lambda>s'. server_inv env k s' \<and> tick_ok A xs s') (delivers A c0) (\<lambda>_. True) s
      (bindE (terminate_do (cl_connection cl)) (\<lambda>_. if removed then onClientRemoved env cl else ret ()) s1)"
    by (intro goes_from [where s = s and ?s1.0 = s1, OF goes_delivers_mono [OF _ B(1)]])
      (auto simp: s1_def)
  then show ?thesis
    by (simp add: registry_remove_do_def registry_remove_def bindE_Inr s1_def removed_def)
qed

lemma goes_ping:
  assumes inv: "server_inv env (Suc k) s" and t: "tick_ok A xs s" and cl: "cl \<in> set xs" and env: "env_ok env"
    and d: "d \<noteq> None"
  shows "goes (\<lambda>s'. server_inv env k s' \<and> tick_ok A xs s') (delivers A c0) (\<lambda>_. True) s (ping_client env d cl s)"
proof (cases "cl_missedPongs cl \<ge> 2")
  case True
  show ?thesis unfolding ping_client_def if_P [OF True] by (rule goes_evict [OF inv t cl env])
next
  case False
  let ?P = "\<lambda>s'. server_inv env k s' \<and> tick_ok A xs s'"
  let ?s = "s\<lparr>br_registry := markPingSent (cl_id cl) (br_registry s)\<rparr>"
  have net: "net_stable ?P" using net_stable_inv by (auto simp: net_stable_def tick_ok_def)
  have "server_inv env k ?s"
    using inv_less [OF inv] inv_ping [OF inv_less [OF inv]] by (simp add: markPingSent_def split: option.split)
  moreover have "tick_ok A xs ?s"
    by (rule tick_ok_shrinks [OF t]) (auto simp: markPingSent_def split: option.splits if_splits)
  ultimately have st: "?P ?s" by simp
  have "goes ?P (delivers A c0) (\<lambda>_. True) ?s (bindE (fresh_uuid (en_bridge env)) (\<lambda>u.
      sendSocketMessage env (cl_connection cl) (Ping \<lparr>messageId = u, metadata = [], ping_sentAt = en_iso env d\<rparr>)) ?s)"
  proof (rule delivering.goes_bind, rule goes_uuid [where P = ?P, OF st net env])
    fix u s' assume "?P s'" "opaqueId u"
    then show "goes ?P (delivers A c0) (\<lambda>_. True) s' (sendSocketMessage env (cl_connection cl)
        (Ping \<lparr>messageId = u, metadata = [], ping_sentAt = en_iso env d\<rparr>) s')"
      using net env d t cl by (intro goes_sendSocketMessage [where P = ?P])
        (auto simp: ping_ok_def opaque_not_Nil env_ok_def gate_def tick_ok_def)
  qed
  then have "goes ?P (delivers A c0) (\<lambda>_. True) s (bindE (fresh_uuid (en_bridge env)) (\<lambda>u.
      sendSocketMessage env (cl_connection cl) (Ping \<lparr>messageId = u, metadata = [], ping_sentAt = en_iso env d\<rparr>)) ?s)"
    by (rule goes_from) simp_all
  then show ?thesis using False by (simp add: ping_client_def bindE_Inr)
qed

lemma goes_tick_loop:
  assumes "server_inv env (k + length xs) s" and "tick_ok A ys s" and "set xs \<subseteq> set ys"
    and env: "env_ok env" and d: "d \<noteq> None"
  shows "goes (server_inv env k) (delivers A c0) (\<lambda>_. True) s (for_each (ping_client env d) xs s)"
  using assms(1-3)
proof (induction xs arbitrary: s)
  case (Cons x xs)
  have "server_inv env (Suc (k + length xs)) s" "x \<in> set ys" using Cons.prems by simp_all
  from goes_ping [OF this(1) Cons.prems(2) this(2) env d] show ?case
    unfolding for_each.simps by (rule delivering.goes_bind) (use Cons in auto)
qed (simp add: goes_def delivering.R_refl)

lemma tick_start:
  assumes "server_inv env k s"
  shows "tick_ok (registered_conns s) (registry_all (br_registry s)) s"
proof -
  have co: "core env (registered_conns s) k s" using assms by (simp add: server_inv_def)
  have "jget (br_registry s) (cl_id cl) = Some cl \<and> client_ok (registered_conns s) (sid_of s) (cl_id cl) cl"
    if in_reg: "cl \<in> set (registry_all (br_registry s))" for cl
  proof -
    obtain cid where "(cid, cl) \<in> set (br_registry s)" using in_reg by (auto simp: registry_all_def)
    moreover have "distinct (jkeys (br_registry s))" using co by (simp add: core_def)
    ultimately have "jget (br_registry s) cid = Some cl" by (metis map_of_is_SomeI)
    then show ?thesis using co unfolding core_def client_ok_def by blast
  qed
  then show ?thesis unfolding tick_ok_def client_ok_def same_client_def by auto
qed

lemma goes_heartbeat:
  assumes inv: "server_inv env (k + length (br_registry s)) s" and env: "env_ok env" and d: "d \<noteq> None"
  shows "goes (server_inv env k) (delivers (registered_conns s) c0) (\<lambda>_. True) s (heartbeat_tick env d s)"
  unfolding heartbeat_tick_def
  by (rule goes_tick_loop [OF _ tick_start [OF inv] subset_refl env d]) (use inv in \<open>simp add: registry_all_def\<close>)

subsection \<open>Opening, closing and stopping\<close>

lemma goes_on_connection:
  assumes inv: "server_inv env k s" and new: "c \<notin> set (jkeys (sv_conns s))"
  shows "goes (server_inv env k) (delivers A c0) (\<lambda>_. True) s (on_connection c s)"
proof -
  have "jget (sv_conns s) c = None" using new by (metis jget_eq_None_iff)
  then have same: "co_registered new_conn = co_registered (conn_of s c)" by (simp add: conn_of_def)
  have "flag_stable (server_inv env k)" by simp
  then have "server_inv env k (s\<lparr>sv_conns := jset c new_conn (sv_conns s)\<rparr>)"
    using inv same unfolding flag_stable_def by blast
  then show ?thesis by (simp add: on_connection_def goes_def delivers_def registered_conns_jset [OF same])
qed

lemma goes_on_close:
  assumes inv: "server_inv env (Suc k) s" and env: "env_ok env"
  shows "goes (server_inv env k) (delivers (registered_conns s) c0) (\<lambda>_. True) s (on_close env c s)"
proof -
  let ?P = "\<lambda>s'. server_inv env (Suc k) s' \<and> registered_conns s' = registered_conns s"
  have fl: "flag_stable ?P"
    using flag_stable_inv [of env "Suc k"] unfolding flag_stable_def net_stable_def
    by (auto simp: registered_conns_jset)
  note flag = goes_set_flag [where P = ?P, OF _ fl] goes_clear_timer [where P = ?P, OF _ fl]
  show ?thesis unfolding on_close_def
  proof (rule delivering.goes_bind, rule flag(1), simp add: inv, simp, rule delivering.goes_bind, rule flag(2),
      assumption, rule delivering.goes_bind, rule flag(1), assumption, simp, rule delivering.goes_bind,
      rule flag(2), assumption)
    fix s' assume "?P s'"
    then show "goes (server_inv env k) (delivers (registered_conns s) c0) (\<lambda>_. True) s' (removeRegistration env c s')"
      using goes_removeRegistration [OF _ env, of k s' c0 c] by simp
  qed
qed

lemma goes_on_error:
  "server_inv env k s \<Longrightarrow> goes (server_inv env k) (delivers A c0) (\<lambda>_. True) s (on_error env c s)"
  using goes_terminate [where P = "server_inv env k"]
  by (simp add: on_error_def goes_def delivering.R_refl)

lemma goes_on_handshake_timeout:
  assumes "server_inv env k s"
  shows "goes (server_inv env k) (delivers A c0) (\<lambda>_. True) s (on_handshake_timeout c s)"
proof -
  have "goes (server_inv env k) (delivers A c0) (\<lambda>_. True) s (bindE (clearHandshakeTimer c) (\<lambda>_. terminate_do c) s)"
    by (rule delivering.goes_bind, rule goes_clear_timer [where P = "server_inv env k"],
        rule assms, simp, rule goes_terminate [where P = "server_inv env k"]) simp_all
  then show ?thesis using assms by (simp add: on_handshake_timeout_def goes_def delivering.R_refl)
qed

lemma inv_cleared:
  assumes "server_inv env k s" shows "server_inv env k (snd (stop_clear s))"
proof -
  have "routes_inv (clear_routes (br_routes s))"
    using assms by (simp add: server_inv_def core_def routes_inv_clear)
  moreover have "auth_inv (revokeAll (sv_auth s))" "sid_of (s\<lparr>sv_auth := revokeAll (sv_auth s)\<rparr>) = sid_of s"
    using assms by (simp_all add: server_inv_def core_def auth_inv_revoke revokeAll_def [of "sv_auth s"] auth_inv_def
        role_count_def)
  ultimately show ?thesis
    using assms unfolding server_inv_def core_def stop_clear_def
    by (auto simp: registry_clear_def peer_clear_def presence_def linked_def registered_conns_def conn_of_def
        revokeAll_def peer_get_def countBySessionAndRole_def)
qed

lemma goes_close_socket:
  "P s \<Longrightarrow> net_stable P \<Longrightarrow> goes P (delivers A c0) (\<lambda>_. True) s (close_socket env c s)"
  unfolding close_socket_def
  by (rule goes_net) (simp_all add: terminateConnectionSafely_def terminateWebSocket_def)

lemma goes_stop_server:
  assumes inv: "server_inv env k s"
  shows "goes (server_inv env k) (delivers A c0) (\<lambda>_. True) s (stop_server env s)"
  unfolding stop_server_def
proof (rule delivering.goes_bind)
  have "registered_conns (snd (stop_clear s)) = registered_conns s"
    by (simp add: stop_clear_def registered_conns_def conn_of_def)
  then show "goes (server_inv env k) (delivers A c0) (\<lambda>_. True) s (stop_clear s)"
    using inv_cleared [OF inv] by (simp add: goes_def stop_clear_def delivers_def revokeAll_def)
  fix s1 assume i1: "server_inv env k s1"
  have "server_inv env k (s1\<lparr>sv_counts := cs\<rparr>)" for cs
    using i1 unfolding server_inv_def by (auto simp: presence_def linked_def intro: core_same)
  then have "goes (server_inv env k) (delivers A c0) (\<lambda>_. True) s1 (notifyClientCounts s1)"
    by (simp add: goes_def notifyClientCounts_def delivers_def)
  then show "goes (server_inv env k) (delivers A c0) (\<lambda>_. True) s1 (bindE notifyClientCounts (\<lambda>_.
     bindE (\<lambda>s. for_each clearHandshakeTimer (jkeys (sv_conns s)) s) (\<lambda>_ s.
       for_each (close_socket env) (filter (\<lambda>c. co_active (conn_of s c)) (jkeys (sv_conns s))) s)) s1)"
  proof (rule delivering.goes_bind)
    fix s2 assume i2: "server_inv env k s2"
    show "goes (server_inv env k) (delivers A c0) (\<lambda>_. True) s2
     (bindE (\<lambda>s. for_each clearHandshakeTimer (jkeys (sv_conns s)) s) (\<lambda>_ s.
       for_each (close_socket env) (filter (\<lambda>c. co_active (conn_of s c)) (jkeys (sv_conns s))) s) s2)"
      by (rule delivering.goes_bind, rule goes_for_each [where P = "server_inv env k", OF i2],
          rule goes_clear_timer [where P = "server_inv env k"], assumption, simp,
          rule goes_for_each [where P = "server_inv env k"], assumption,
          rule goes_close_socket [where P = "server_inv env k"]) simp_all
  qed
qed

subsection \<open>What sending and presence leave alone\<close>

definition aside :: "server \<Rightarrow> server \<Rightarrow> bool" where
  "aside s s' \<longleftrightarrow> br_routes s' = br_routes s \<and> br_registry s' = br_registry s \<and>
     sv_conns s' = sv_conns s \<and> sv_auth s' = sv_auth s"

interpretation asides: effect_relation aside
  by unfold_locales (auto simp: aside_def)

lemma aside_sends [simp]:
  "obeys aside (sendSocketMessage env c m)" "obeys aside (fresh_uuid be)" "obeys aside (update_ide_count sid)"
  "obeys aside notifyClientCounts" "obeys aside (terminate_do c)"
  by (auto simp: obeys_def aside_def sendSocketMessage_def fresh_uuid_def update_ide_count_def
      notifyClientCounts_def terminate_do_def split: prod.split sum.split)

lemma aside_composed [simp]:
  "obeys aside (sendSocketError env c code wording fatal details)"
  "obeys aside (createPeerStateMessage env sid snap)"
  unfolding sendSocketError_def createPeerStateMessage_def by (auto intro!: asides.obeys_bind)

lemma aside_publish [simp]: "obeys aside (publishPeerState env t excl)"
  unfolding publishPeerState_def
proof (rule asides.obeys_bind)
  fix m
  have "obeys aside (for_each (\<lambda>client. if Some (cl_id client) = excl then ret ()
      else sendSocketMessage env (cl_connection client) m) cs)" for cs
    by (rule asides.obeys_for_each) simp
  then show "obeys aside (\<lambda>s. for_each (\<lambda>client. if Some (cl_id client) = excl then ret ()
      else sendSocketMessage env (cl_connection client) m)
       (findBySessionAndRole (br_registry s) (pt_sessionId t) Browser @
        findBySessionAndRole (br_registry s) (pt_sessionId t) Simulator) s)"
    unfolding obeys_def by blast
qed simp

lemma aside_presence [simp]:
  "obeys aside (updatePeerState env sid)" "obeys aside (sendCurrentPeerState env cl)"
proof -
  show "obeys aside (updatePeerState env sid)" unfolding updatePeerState_def
    by (rule asides.obeys_bind) (auto split: option.split)
  have "obeys aside (bindE (createPeerStateMessage env sid snap) (sendSocketMessage env c))" for sid snap c
    by (rule asides.obeys_bind) simp_all
  then have "obeys aside (\<lambda>s. bindE (createPeerStateMessage env (cl_sessionId cl)
      (peer_get (sv_peers s) (cl_sessionId cl))) (\<lambda>m. sendSocketMessage env (cl_connection cl) m) s)"
    unfolding obeys_def by blast
  then show "obeys aside (sendCurrentPeerState env cl)" unfolding sendCurrentPeerState_def
    by (intro asides.obeys_bind) (auto split: option.split)
qed

lemma onClientRemoved_effect:
  assumes "routes_inv (br_routes s)"
  obtains rs where "removeClient (cl_id cl) (br_routes s) = (Inr (), rs)"
    and "aside (s\<lparr>br_routes := rs\<rparr>) (snd (onClientRemoved env cl s))"
    and "aside (s\<lparr>br_routes := rs\<rparr>) (snd (on_routes (removeClient (cl_id cl)) s))"
proof -
  obtain rs where rs: "removeClient (cl_id cl) (br_routes s) = (Inr (), rs)"
    using removeClient_effect [OF assms] by blast
  then have step: "on_routes (removeClient (cl_id cl)) s = (Inr (), s\<lparr>br_routes := rs\<rparr>)"
    by (simp add: on_routes_def)
  have "obeys aside (bindE (if role_of cl = Ide then updatePeerState env (cl_sessionId cl) else ret ())
      (\<lambda>_. notifyClientCounts))"
    by (rule asides.obeys_bind) simp_all
  then have "aside (s\<lparr>br_routes := rs\<rparr>) (snd (onClientRemoved env cl s))"
    unfolding onClientRemoved_def bindE_Inr [where m = "on_routes (removeClient (cl_id cl))", OF step]
    by (rule asides.obeysD)
  then show thesis using that [OF rs] step asides.R_refl by simp
qed

subsection \<open>Events\<close>

datatype server_event =
    Connected nat
  | Received nat jstring js_date jstring
  | SocketClosed nat
  | SocketError nat
  | HandshakeTimeout nat
  | HeartbeatTick js_date
  | Stopped

fun server_step :: "server_env \<Rightarrow> server_event \<Rightarrow> unit server_eff" where
  "server_step env (Connected c) = on_connection c"
| "server_step env (Received c payload d hex) = on_message env c payload d hex"
| "server_step env (SocketClosed c) = on_close env c"
| "server_step env (SocketError c) = on_error env c"
| "server_step env (HandshakeTimeout c) = on_handshake_timeout c"
| "server_step env (HeartbeatTick d) = heartbeat_tick env d"
| "server_step env Stopped = stop_server env"

text \<open>Sockets are new objects, clocks are in range, random bytes are long enough, UUIDs do not
  repeat among the connected clients.\<close>

fun event_ok :: "server_env \<Rightarrow> server \<Rightarrow> server_event \<Rightarrow> bool" where
  "event_ok env s (Connected c) \<longleftrightarrow> c \<notin> set (jkeys (sv_conns s))"
| "event_ok env s (Received c payload d hex) \<longleftrightarrow> clock_ok d \<and> 32 \<le> length hex \<and> fresh_id env s"
| "event_ok env s (HeartbeatTick d) \<longleftrightarrow> d \<noteq> None"
| "event_ok env s _ \<longleftrightarrow> True"

text \<open>How far an event may move the peer generation.\<close>

fun event_cost :: "server \<Rightarrow> server_event \<Rightarrow> nat" where
  "event_cost s (Received c payload d hex) = 1"
| "event_cost s (SocketClosed c) = 1"
| "event_cost s (HeartbeatTick d) = length (br_registry s)"
| "event_cost s _ = 0"

fun heard :: "server_env \<Rightarrow> server \<Rightarrow> server_event \<Rightarrow> nat set" where
  "heard env s (Received c payload d hex) = hello_effect c s (accepts_hello env payload d s)"
| "heard env s _ = registered_conns s"

lemma goes_step:
  assumes "env_ok env" and "server_inv env (k + event_cost s e) s" and "event_ok env s e"
    and "\<And>c payload d hex. e = Received c payload d hex \<Longrightarrow> c0 = c"
  shows "goes (server_inv env k) (delivers (heard env s e) c0) (\<lambda>_. True) s (server_step env e s)"
  using assms by (cases e) (simp_all add: goes_on_connection goes_on_message goes_on_close goes_on_error
      goes_on_handshake_timeout goes_heartbeat goes_stop_server)

fun run_ok :: "server_env \<Rightarrow> server \<Rightarrow> server_event list \<Rightarrow> bool" where
  "run_ok env s [] \<longleftrightarrow> True"
| "run_ok env s (e # es) \<longleftrightarrow> event_ok env s e \<and> run_ok env (snd (server_step env e s)) es"

fun run_cost :: "server_env \<Rightarrow> server \<Rightarrow> server_event list \<Rightarrow> nat" where
  "run_cost env s [] = 0"
| "run_cost env s (e # es) = event_cost s e + run_cost env (snd (server_step env e s)) es"

definition server_run :: "server_env \<Rightarrow> server_event list \<Rightarrow> unit server_eff" where
  "server_run env = for_each (server_step env)"

lemma inv_created:
  assumes new: "createBridgeServer env host max_bytes (Some sid) inst pin = Inr s" and "opaqueId sid"
    and "int k \<le> lim_generation RESOLUTION_LIMITS"
  shows "server_inv env k s"
proof -
  obtain rs au where rs: "new_ReplyRouteRegistry None = Inr rs"
    and au: "new_LinkAuthenticator (be_schema (en_bridge env)) sid inst pin = Inr au"
    and s: "s = \<lparr>br_registry = [], br_routes = rs, br_net = \<lparr>wire = [], uuids = 0\<rparr>, sv_peers = [],
      sv_auth = au, sv_conns = [], sv_counts = []\<rparr>"
    using new by (auto simp: createBridgeServer_def split: if_splits sum.splits)
  have "routes_inv rs" "auth_inv au" by (rule routes_inv_new [OF rs], rule auth_inv_new [OF au])
  moreover have "au_sessionId au = sid" "se_uuid (be_schema (en_bridge env)) (au_bridgeInstanceId au)"
    using au by (auto simp: new_LinkAuthenticator_def split: if_splits)
  ultimately show ?thesis using assms(2,3) unfolding server_inv_def core_def s
    by (simp add: presence_def linked_def conn_of_def new_conn_def peer_get_def countBySessionAndRole_def)
qed

lemma run_goes:
  assumes "env_ok env"
  shows "server_inv env (k + run_cost env s es) s \<Longrightarrow> run_ok env s es \<Longrightarrow>
    \<exists>s'. server_run env es s = (Inr (), s') \<and> server_inv env k s' \<and> sid_of s' = sid_of s"
proof (induction es arbitrary: s)
  case (Cons e es)
  have "server_inv env ((k + run_cost env (snd (server_step env e s)) es) + event_cost s e) s"
    using Cons.prems(1) by (simp add: ac_simps)
  from goes_step [OF assms this, of "case e of Received c _ _ _ \<Rightarrow> c | _ \<Rightarrow> 0"] Cons.prems(2)
  obtain s1 where s1: "server_step env e s = (Inr (), s1)" "server_inv env (k + run_cost env s1 es) s1"
    "sid_of s1 = sid_of s" by (auto simp: goes_def delivers_def)
  from Cons.IH [OF s1(2)] Cons.prems(2) s1(1,3) show ?case
    by (simp add: server_run_def bindE_Inr)
qed (simp add: server_run_def)

end
