(* ===== verification/Server_Theorems.thy ===== *)
theory Server_Theorems
  imports Server_System
begin

text \<open>
  What the bridge server guarantees: runs without exceptions that keep the invariant, what a
  connection may receive before it authenticates, what authentication takes, how a message of
  an unauthenticated connection ends, what closing a connection and the heartbeat leave behind.
\<close>

subsection \<open>Handlers and the connections\<close>

definition conns_kept :: "server \<Rightarrow> server \<Rightarrow> bool" where
  "conns_kept s s' \<longleftrightarrow> sv_conns s' = sv_conns s"

interpretation conns_run: effect_relation conns_kept
  by unfold_locales (auto simp: conns_kept_def)

lemma conns_aside [simp]: "obeys aside m \<Longrightarrow> obeys conns_kept m"
  by (simp add: obeys_def aside_def conns_kept_def)

lemma conns_kept_link [simp]: "obeys conns_kept (handleLinkRequest env c m d hex)"
proof -
  have "obeys conns_kept (authenticate_do f)" for f :: "link_authenticator \<Rightarrow> (auth_error + link_attempt) \<times> _"
    by (auto simp: obeys_def authenticate_do_def conns_kept_def split: prod.split sum.split)
  then show ?thesis unfolding handleLinkRequest_def Let_def
    by (auto intro!: conns_run.obeys_bind split: link_attempt.split)
qed

lemma conn_of_kept: "conns_kept s s' \<Longrightarrow> conn_of s' = conn_of s"
  by (simp add: conns_kept_def conn_of_def fun_eq_iff)

lemma closeConnection_closes:
  "closeConnection env c code reason s = (r, s') \<Longrightarrow> r = Inr () \<and> co_closing (conn_of s' c)"
  by (auto simp: closeConnection_def clearHandshakeTimer_def set_conn_def bindE_def conn_of_def)

lemma refuse_closes:
  assumes "refuse env c code wording s = (Inr (), s')" shows "co_closing (conn_of s' c)"
proof -
  obtain t where "closeConnection env c None None t = (Inr (), s')"
    using assms by (auto simp: refuse_def bindE_def split: prod.splits sum.splits)
  then show ?thesis using closeConnection_closes by blast
qed

lemma accept_hello_client:
  assumes "accept_hello env c m inst s = (Inr (), s')"
  shows "\<exists>cl. co_registered (conn_of s' c) = Some cl \<and> cl_connection cl = c \<and> cl_source cl = hello_source m \<and>
    cl_sessionId cl = hello_sessionId m \<and> cl_authToken cl = hello_authToken m \<and>
    cl_capabilities cl = hello_capabilities m"
proof -
  let ?cl = "new_client env c m s"
  have "obeys conns_kept (greet env c m inst ?cl)"
    unfolding greet_def by (auto intro!: conns_run.obeys_bind)
  from conns_run.obeysD [OF this] assms have "conn_of s' = conn_of (with_client env c m s)"
    unfolding accept_hello_eq by (metis conn_of_kept snd_conv)
  then show ?thesis using joined_with_client [of c env m s] by (simp add: joined_def new_client_def)
qed

subsection \<open>Example servers\<close>

text \<open>An environment in which every payload is a message of the protocol's version, decoded as \<open>m\<close>.\<close>

definition example_server_env :: "pin_op_message \<Rightarrow> server_env" where
  "example_server_env m = \<lparr>en_bridge = example_env,
     en_json = (\<lambda>_. Some (JObj [(js ''protocolVersion'', JNum (JInt PROTOCOL_VERSION))])),
     en_decode = (\<lambda>_. Some m), en_iso = (\<lambda>_. []), en_protocol = (\<lambda>_. None)\<rparr>"

definition example_hello :: hello_message where
  "example_hello = \<lparr>messageId = js ''h'', metadata = [], hello_sessionId = js ''s'',
     hello_authToken = js ''t'', hello_bridgeInstanceId = js ''i'',
     hello_source = cl_source (example_client ''b'' 1 Browser), hello_capabilities = []\<rparr>"

definition example_link :: link_request_message where
  "example_link = \<lparr>messageId = js ''l'', metadata = [], link_pin = js ''07'',
     link_source = cl_source (example_client ''b'' 1 Browser)\<rparr>"

text \<open>A server with a token \<open>t\<close> for browsers, and one with an IDE and a browser registered.\<close>

definition example_auth :: link_authenticator where
  "example_auth = (fresh_authenticator (js ''s'') (js ''i'') (js ''07''))\<lparr>au_tokens :=
     [\<lparr>at_sessionId = js ''s'', at_role = Browser, at_bridgeInstanceId = js ''i'', at_value = js ''t'',
       at_expiresAt = Some 86400000\<rparr>]\<rparr>"

definition example_waiting :: server where
  "example_waiting = \<lparr>br_registry = [], br_routes = example_empty, br_net = \<lparr>wire = [], uuids = 0\<rparr>,
     sv_peers = [], sv_auth = example_auth, sv_conns = [], sv_counts = []\<rparr>"

definition example_running :: server where
  "example_running = example_waiting\<lparr>
     br_registry := [(js ''b'', (example_client ''b'' 1 Browser)\<lparr>cl_missedPongs := 2\<rparr>),
       (js ''e'', example_client ''e'' 2 Ide)],
     sv_peers := [(js ''s'', \<lparr>peer_is_connected = True, peer_gen = 1\<rparr>)],
     sv_conns := [(1, new_conn\<lparr>co_registered := Some (example_client ''b'' 1 Browser)\<rparr>),
       (2, new_conn\<lparr>co_registered := Some (example_client ''e'' 2 Ide)\<rparr>)]\<rparr>"

lemma example_env_ok: "env_ok (example_server_env m)"
  by (simp add: env_ok_def example_server_env_def example_env_def opaqueId_def text_between_def limit_defs)

lemma example_parse:
  "message_ok (be_schema example_env) m \<Longrightarrow> parse_message (example_server_env m) payload = Some m"
  by (simp add: parse_message_def example_server_env_def)

lemma example_auth_ok: "auth_inv example_auth" "au_sessionId example_auth = js ''s''"
    "au_bridgeInstanceId example_auth = js ''i''"
  by (auto simp: example_auth_def auth_inv_def fresh_authenticator_def role_count_def auth_limits)

lemma example_opaque: "opaqueId (js ''s'')"
  by (simp add: opaqueId_def text_between_def limit_defs)

lemma example_waiting_inv: "k \<le> 1000 \<Longrightarrow> server_inv (example_server_env m) k example_waiting"
  using example_auth_ok example_opaque unfolding server_inv_def core_def example_waiting_def
  by (simp add: presence_def linked_def conn_of_def new_conn_def peer_get_def countBySessionAndRole_def
      example_empty_inv limit_defs example_server_env_def example_env_def)

lemma example_running_conns: "conn_of example_running c =
    (if c = 1 then new_conn\<lparr>co_registered := Some (example_client ''b'' 1 Browser)\<rparr>
     else if c = 2 then new_conn\<lparr>co_registered := Some (example_client ''e'' 2 Ide)\<rparr> else new_conn)"
  by (simp add: example_running_def conn_of_def)

lemma example_running_inv: "k \<le> 1000 \<Longrightarrow> server_inv (example_server_env m) k example_running"
proof -
  assume k: "k \<le> 1000"
  have "registered_conns example_running = {1, 2}"
    by (auto simp: registered_conns_def example_running_conns new_conn_def split: if_splits)
  moreover have "core (example_server_env m) {1, 2} k example_running"
    using k example_auth_ok example_opaque unfolding core_def
    by (auto simp: example_running_def example_waiting_def client_ok_def peer_get_def example_empty_inv
        limit_defs example_server_env_def example_env_def example_client_def split: if_splits)
  moreover have "presence example_running"
    using example_auth_ok by (simp add: presence_def example_running_def example_waiting_def peer_get_def
        countBySessionAndRole_def example_client_def)
  moreover have "linked example_running" using example_auth_ok(2)
    unfolding linked_def example_running_conns
    by (auto simp: example_running_def example_waiting_def example_client_def new_conn_def same_client_def
        split: if_splits)
  ultimately show ?thesis by (simp add: server_inv_def)
qed

text \<open>A hello with the token of the example server makes its connection a client.\<close>

definition example_hex :: jstring where
  "example_hex = replicate 64 0x61"

lemma example_event_ok: "clock_ok (Some 0)" "32 \<le> length example_hex"
  by (simp_all add: clock_ok_def new_Date_def auth_limits example_hex_def)

lemma example_waiting_fresh: "co_registered (conn_of example_waiting c) = None" "fresh_id env example_waiting"
  by (simp_all add: fresh_id_def example_waiting_def conn_of_def new_conn_def)

lemma example_probe: "vp_compatible (probeProtocolVersion (en_json (example_server_env m)) [])"
  by (simp add: probeProtocolVersion_def example_server_env_def MAX_PROTOCOL_VERSION_def
      PROTOCOL_VERSION_def)

lemma example_error:
  assumes "wording \<noteq> []"
  obtains y where "sendSocketError (example_server_env m) c code wording fatal details example_waiting =
      (Inr (), example_waiting\<lparr>br_net := y\<rparr>)" and "\<exists>z. deliveries (wire y) = [(c, z)]"
  using assms by (simp add: sendSocketError_def fresh_uuid_def randomUUID_def bindE_def sendSocketMessage_def
      error_ok_def sendConnectionSafely_def guarded_send_def example_server_env_def example_env_def
      example_waiting_def)

lemma example_joins:
  "\<exists>s' cl. on_message (example_server_env (Hello example_hello)) 1 [] (Some 0) example_hex example_waiting = (Inr (), s') \<and>
     co_registered (conn_of s' 1) = Some cl"
proof -
  let ?env = "example_server_env (Hello example_hello)"
  have ok: "message_ok (be_schema example_env) (Hello example_hello)"
    by (simp add: hello_ok_def example_hello_def example_client_def example_env_def client_source_ok_def
        text_between_def opt_ok_def limit_defs)
  have inv: "server_inv ?env (Suc 0) example_waiting" by (rule example_waiting_inv) simp
  obtain s' where s': "on_message ?env 1 [] (Some 0) example_hex example_waiting = (Inr (), s')"
    using goes_on_message [OF inv example_waiting_fresh(2) example_env_ok example_event_ok, of 1 "[]"]
    by (auto simp: goes_def)
  have "hello_accepted ?env example_hello (Some 0) example_waiting"
    by (simp add: hello_accepted_def example_hello_def example_waiting_def example_auth_def validateToken_def
        readNow_def pruneExpiredTokens_def unexpired_def fresh_authenticator_def Let_def example_client_def)
  then have "\<exists>t. accept_hello ?env 1 example_hello (au_bridgeInstanceId (sv_auth example_waiting)) t = (Inr (), s')"
    using s' example_waiting_fresh(1) [of 1] example_probe [of "Hello example_hello"]
    by (auto simp: on_message_def example_parse [OF ok] handle_client_message_def handle_hello_def Let_def
        hello_accepted_def authenticate_do_def bindE_def example_waiting_def new_conn_def conn_of_def
        split: prod.splits)
  then show ?thesis using s' accept_hello_client by blast
qed

lemma created_session:
  "createBridgeServer env host max_bytes (Some sid) inst pin = Inr s \<Longrightarrow> sid_of s = sid"
  by (auto simp: createBridgeServer_def new_LinkAuthenticator_def split: if_splits sum.splits)

subsection \<open>Runs of the server\<close>

text \<open>C1: along every run of a new bridge server - sockets opening and closing, arbitrary payloads,
  timeouts, heartbeats, stops - no handler throws, the reply routes and the tokens keep their
  invariants, and the published IDE presence is whether an IDE is registered. The events are those
  that sockets and timers make, the environment supplies well-formed ids and dates, and the peer
  generation, which may move once for each message received, each socket closed and each client
  at a heartbeat, stays within 2147483647, beyond which the code throws.\<close>

theorem server_run_safe:
  assumes "env_ok env" and "opaqueId sid"
    and "createBridgeServer env host max_bytes (Some sid) inst pin = Inr s"
    and "run_ok env s es" and "int (run_cost env s es) \<le> 0x7fffffff"
  shows "\<exists>s'. server_run env es s = (Inr (), s') \<and> routes_inv (br_routes s') \<and> auth_inv (sv_auth s') \<and>
    peer_is_connected (peer_get (sv_peers s') sid) =
      (\<exists>c\<in>set (registry_all (br_registry s')). cl_sessionId c = sid \<and> role_of c = Ide)"
proof -
  have "server_inv env (0 + run_cost env s es) s"
    using inv_created [OF assms(3,2)] assms(5) by (simp add: limit_defs)
  from run_goes [OF assms(1) this assms(4)] obtain s' where s': "server_run env es s = (Inr (), s')"
    "server_inv env 0 s'" "sid_of s' = sid_of s" by blast
  have "sid_of s' = sid" using s'(3) created_session [OF assms(3)] by simp
  then show ?thesis using s' by (auto simp: server_inv_def core_def presence_def count_pos_iff registry_all_def)
qed

theorem server_run_safe_witness:
  "\<exists>s s'. createBridgeServer (example_server_env (Hello example_hello)) None None (Some (js ''s'')) (js ''i'')
      (js ''07'') = Inr s \<and>
    server_run (example_server_env (Hello example_hello))
      [Connected 1, Received 1 [] (Some 0) example_hex, SocketClosed 1] s = (Inr (), s') \<and>
    routes_inv (br_routes s') \<and> auth_inv (sv_auth s')"
proof -
  let ?env = "example_server_env (Hello example_hello)"
  obtain s where s: "createBridgeServer ?env None None (Some (js ''s'')) (js ''i'') (js ''07'') = Inr s"
    and none: "sv_conns s = []"
  proof
    have "pin_pattern (js ''07'')" by (simp add: pin_pattern_def is_digit_def js_def unit_of_char_def)
    then show "createBridgeServer ?env None None (Some (js ''s'')) (js ''i'') (js ''07'') =
        Inr \<lparr>br_registry = [], br_routes = \<lparr>max_routes = 256, session_routes = [], by_client = [], by_ide = [],
            revision = 0, next_oid = 0\<rparr>, br_net = \<lparr>wire = [], uuids = 0\<rparr>, sv_peers = [],
          sv_auth = fresh_authenticator (js ''s'') (js ''i'') (js ''07''), sv_conns = [], sv_counts = []\<rparr>"
      by (simp add: createBridgeServer_def payload_limit_ok_def BRIDGE_MAX_PAYLOAD_BYTES_def
          new_LinkAuthenticator_def fresh_authenticator_def example_server_env_def example_env_def)
  qed simp
  have "run_ok ?env s [Connected 1, Received 1 [] (Some 0) example_hex, SocketClosed 1]"
    using example_event_ok none
    by (simp add: on_connection_def fresh_id_def conn_of_def new_conn_def)
  moreover have "int (run_cost ?env s [Connected 1, Received 1 [] (Some 0) example_hex, SocketClosed 1]) \<le> 0x7fffffff"
    by simp
  ultimately show ?thesis using s server_run_safe [OF example_env_ok example_opaque s] by blast
qed

subsection \<open>What an unauthenticated connection is told\<close>

text \<open>Every message that is delivered on the way has the property \<open>X\<close>.\<close>

definition says :: "(pin_op_message \<Rightarrow> bool) \<Rightarrow> server \<Rightarrow> server \<Rightarrow> bool" where
  "says X s s' \<longleftrightarrow> (\<exists>ds. deliveries (wire (br_net s')) = deliveries (wire (br_net s)) @ ds \<and> list_all (\<lambda>d. X (snd d)) ds)"

interpretation saying: effect_relation "says X" for X
  by unfold_locales (auto simp: says_def)

lemma says_new: "says X s s' \<Longrightarrow> (c, x) \<in> set (new_deliveries s s') \<Longrightarrow> X x"
  by (fastforce simp: says_def new_deliveries_def list_all_iff)

lemma says_same: "wire (br_net s') = wire (br_net s) \<Longrightarrow> says X s s'"
  by (simp add: says_def)

lemma says_send:
  assumes "X m" shows "obeys (says X) (sendSocketMessage env c m)"
  unfolding obeys_def
proof
  fix s :: server
  obtain ok n where n: "sendConnectionSafely (guarded_send (en_bridge env)) c m (br_net s) = (ok, n)" by fastforce
  from ws.safely_deliveries [OF n] assms show "says X s (snd (sendSocketMessage env c m s))"
    by (auto simp: sendSocketMessage_def n says_def)
qed

lemma says_uuid: "obeys (says X) (fresh_uuid env)"
  by (simp add: obeys_def fresh_uuid_def randomUUID_def says_def)

lemma says_close: "obeys (says X) (closeConnection env c code reason)"
  by (simp add: obeys_def closeConnection_def clearHandshakeTimer_def set_conn_def bindE_def says_def)

lemma says_error:
  assumes "\<And>m. is_error m \<Longrightarrow> X m"
  shows "obeys (says X) (sendSocketError env c code wording fatal details)"
  unfolding sendSocketError_def
  by (intro saying.obeys_bind says_uuid says_send) (simp add: assms is_error_def)

lemma says_refuse:
  assumes "\<And>m. is_error m \<Longrightarrow> X m" shows "obeys (says X) (refuse env c code wording)"
  unfolding refuse_def by (intro saying.obeys_bind says_error says_close assms)

text \<open>A link request that was granted: it came first on its connection, from a browser or the simulator, with
  the right PIN, and the answer carries the session, the bridge instance and the token it was granted.\<close>

definition answers_link :: "server_env \<Rightarrow> nat \<Rightarrow> jstring \<Rightarrow> js_date \<Rightarrow> jstring \<Rightarrow> server \<Rightarrow> pin_op_message \<Rightarrow> bool" where
  "answers_link env c payload d hex s x \<longleftrightarrow>
     (\<exists>l sid inst tok a u. parse_message env payload = Some (LinkRequest l) \<and> \<not> co_linkAttempted (conn_of s c) \<and>
        (src_role (link_source l) = Browser \<or> src_role (link_source l) = Simulator) \<and>
        tokensEqual (au_pin (sv_auth s)) (link_pin l) \<and>
        attemptLink (link_pin l) (src_role (link_source l)) d hex (sv_auth s) = (Inr (LinkOk sid inst tok), a) \<and>
        x = LinkAccepted \<lparr>messageId = u, metadata = [], accepted_sessionId = sid, accepted_bridgeInstanceId = inst,
          accepted_authToken = at_value tok, accepted_expiresAt = en_iso env (at_expiresAt tok)\<rparr>)"

lemma accepted_link_pin:
  "attemptLink pin role d hex a0 = (Inr (LinkOk sid inst tok), a) \<Longrightarrow> tokensEqual (au_pin a0) pin"
  by (auto simp: attemptLink_def check_pin_def pruneFailures_def failed_attempt_def Let_def
      split: sum.splits option.splits if_splits prod.splits)

lemma says_link:
  assumes e: "\<And>m. is_error m \<Longrightarrow> X m"
    and a: "\<And>sid inst tok u a. src_role (link_source l) = Browser \<or> src_role (link_source l) = Simulator \<Longrightarrow>
      attemptLink (link_pin l) (src_role (link_source l)) d hex (sv_auth s) = (Inr (LinkOk sid inst tok), a) \<Longrightarrow>
      X (LinkAccepted \<lparr>messageId = u, metadata = [], accepted_sessionId = sid, accepted_bridgeInstanceId = inst,
          accepted_authToken = at_value tok, accepted_expiresAt = en_iso env (at_expiresAt tok)\<rparr>)"
  shows "says X s (snd (handleLinkRequest env c l d hex s))"
proof (cases "src_role (link_source l) = Browser \<or> src_role (link_source l) = Simulator")
  case False
  then show ?thesis unfolding handleLinkRequest_def Let_def
    by (simp add: saying.obeysD saying.obeys_bind says_error e)
next
  case True
  obtain r au where r: "attemptLink (link_pin l) (src_role (link_source l)) d hex (sv_auth s) = (r, au)" by force
  let ?s = "s\<lparr>sv_auth := au\<rparr>"
  have up: "says X s t" if "says X ?s t" for t using that by (simp add: says_def)
  show ?thesis
  proof (cases r)
    case (Inl x)
    then show ?thesis using True r
      by (auto simp: handleLinkRequest_def Let_def bindE_def authenticate_do_def says_same)
  next
    case (Inr attempt)
    have h: "handleLinkRequest env c l d hex s = (case attempt of
             LinkOk sid inst token \<Rightarrow>
               bindE (fresh_uuid (en_bridge env)) (\<lambda>u.
               bindE (sendSocketMessage env c (LinkAccepted \<lparr>messageId = u, metadata = [],
                 accepted_sessionId = sid, accepted_bridgeInstanceId = inst,
                 accepted_authToken = at_value token,
                 accepted_expiresAt = en_iso env (at_expiresAt token)\<rparr>)) (\<lambda>_. ret True))
           | LinkRateLimitedUntil retryAt \<Rightarrow>
               bindE (sendSocketError env c LinkRateLimited (js ''Link request rate limited'') False
                 [(js ''retryAt'', JStr (en_iso env retryAt))]) (\<lambda>_. ret False)
           | LinkRejectedAttempt \<Rightarrow>
               bindE (sendSocketError env c LinkRejected (js ''Link request rejected'') False [])
                 (\<lambda>_. ret False)) ?s"
      using True r Inr by (auto simp: handleLinkRequest_def Let_def bindE_def authenticate_do_def)
    show ?thesis unfolding h
    proof (rule up, rule saying.obeysD, cases attempt)
      case (LinkOk sid inst token)
      show "obeys (says X) (case attempt of
             LinkOk sid inst token \<Rightarrow>
               bindE (fresh_uuid (en_bridge env)) (\<lambda>u.
               bindE (sendSocketMessage env c (LinkAccepted \<lparr>messageId = u, metadata = [],
                 accepted_sessionId = sid, accepted_bridgeInstanceId = inst,
                 accepted_authToken = at_value token,
                 accepted_expiresAt = en_iso env (at_expiresAt token)\<rparr>)) (\<lambda>_. ret True))
           | LinkRateLimitedUntil retryAt \<Rightarrow>
               bindE (sendSocketError env c LinkRateLimited (js ''Link request rate limited'') False
                 [(js ''retryAt'', JStr (en_iso env retryAt))]) (\<lambda>_. ret False)
           | LinkRejectedAttempt \<Rightarrow>
               bindE (sendSocketError env c LinkRejected (js ''Link request rejected'') False [])
                 (\<lambda>_. ret False))"
        using a [OF True] r Inr unfolding LinkOk link_attempt.case
        by (intro saying.obeys_bind says_uuid says_send saying.obeys_ret) auto
    qed (simp_all add: saying.obeys_bind says_error e)
  qed
qed

lemma unregistered_message:
  assumes none: "co_registered (conn_of s c) = None" and no: "\<not> accepts_hello env payload d s"
  shows "says (\<lambda>x. is_error x \<or> answers_link env c payload d hex s x) s (snd (on_message env c payload d hex s))"
    (is "says ?X _ _")
proof -
  have refused: "says ?X t (snd (refuse env c code wording t))" for t code wording
    by (rule saying.obeysD) (simp add: says_refuse)
  have close: "says ?X t (snd (closeConnection env c code reason t))" for t code reason
    by (rule saying.obeysD) (rule says_close)
  show ?thesis
  proof (cases "co_closing (conn_of s c) \<or> \<not> vp_compatible (probeProtocolVersion (en_json env) payload)")
    case True
    then show ?thesis by (auto simp: on_message_def Let_def close says_same)
  next
    case False
    show ?thesis
    proof (cases "parse_message env payload")
      case None
      then show ?thesis using False by (simp add: on_message_def Let_def refused)
    next
      case (Some m)
      show ?thesis
      proof (cases "\<exists>l. m = LinkRequest l")
        case True
        then obtain l where m: "m = LinkRequest l" by blast
        show ?thesis
        proof (cases "co_linkAttempted (conn_of s c)")
          case True
          then show ?thesis using False Some m by (simp add: on_message_def Let_def refused)
        next
          case fresh: False
          obtain s1 where s1: "set_conn c (\<lambda>x. x\<lparr>co_linkAttempted := True\<rparr>) s = (Inr (), s1)"
              "wire (br_net s1) = wire (br_net s)" "sv_auth s1 = sv_auth s"
            by (simp add: set_conn_def)
          have "says ?X s1 (snd (handleLinkRequest env c l d hex s1))"
            by (rule says_link) (use fresh Some m s1(3) accepted_link_pin in \<open>auto simp: answers_link_def\<close>)
          then have link: "says ?X s (snd (handleLinkRequest env c l d hex s1))" by (simp add: says_def s1(2))
          obtain r t where t: "handleLinkRequest env c l d hex s1 = (r, t)" by force
          have "says ?X s (snd (bindE (handleLinkRequest env c l d hex)
              (\<lambda>ok. if ok then ret () else closeConnection env c None None) s1))"
          proof (cases r)
            case (Inr ok)
            then show ?thesis using link close [of t None None]
              by (auto simp: bindE_def t intro: saying.R_trans)
          qed (use link in \<open>simp add: bindE_def t\<close>)
          then show ?thesis using False Some m fresh none s1(1) by (simp add: on_message_def Let_def bindE_Inr)
        qed
      next
        case other: False
        have c: "on_message env c payload d hex s = handle_client_message env c m d s"
          using False Some other by (cases m) (auto simp: on_message_def Let_def)
        show ?thesis
        proof (cases "\<exists>h. m = Hello h")
          case True
          then obtain h where m: "m = Hello h" by blast
          then have rejected: "\<not> hello_accepted env h d s" using no Some by (simp add: accepts_hello_def)
          show ?thesis
          proof (cases "hello_bridgeInstanceId h = au_bridgeInstanceId (sv_auth s)")
            case True
            obtain r a where r: "validateToken (hello_sessionId h) (src_role (hello_source h)) (hello_authToken h)
                (au_bridgeInstanceId (sv_auth s)) d (sv_auth s) = (r, a)" by force
            have "says ?X s t" if "says ?X (s\<lparr>sv_auth := a\<rparr>) t" for t using that by (simp add: says_def)
            then show ?thesis using c m none True r rejected refused
              by (cases r; cases "projr r") (auto simp: handle_client_message_def handle_hello_def Let_def
                  authenticate_do_def bindE_def hello_accepted_def says_same)
          qed (use c m none refused in \<open>simp add: handle_client_message_def handle_hello_def Let_def\<close>)
        next
          case False
          then have "handle_client_message env c m d s =
              refuse env c ProtocolInvalidMessage (js ''Client must authenticate with hello'') s"
            by (cases m) (auto simp: handle_client_message_def none)
          then show ?thesis unfolding c by (simp add: refused)
        qed
      qed
    qed
  qed
qed

text \<open>C2: a connection that has not authenticated receives nothing but errors, unless the message it just
  sent is a hello with a valid token, or is its first link request, from a browser or the simulator
  with the right PIN and accepted by the authenticator: then it also receives the answer with the
  session, instance and token that were granted. No other connection's message reaches it.\<close>

theorem unauthenticated_gate:
  assumes "env_ok env" and "server_inv env (k + event_cost s e) s" and "event_ok env s e"
    and "server_step env e s = (r, s')" and "(c, x) \<in> set (new_deliveries s s')"
    and "co_registered (conn_of s c) = None"
  shows "\<exists>payload d hex. e = Received c payload d hex \<and>
    (is_error x \<or> answers_link env c payload d hex s x \<or> accepts_hello env payload d s)"
proof -
  define c0 where "c0 = (case e of Received c' _ _ _ \<Rightarrow> c' | _ \<Rightarrow> Suc c)"
  have "delivers (heard env s e) c0 s s'"
    using goes_step [OF assms(1-3), of c0] assms(4) by (auto simp: goes_def c0_def)
  then have g: "gate (heard env s e) c0 (c, x)"
    using assms(5) by (auto simp: delivers_def new_deliveries_def list_all_iff)
  have n: "c \<notin> registered_conns s" using assms(6) by (simp add: registered_conns_def)
  show ?thesis
  proof (cases e)
    case (Received c' payload d hex)
    then have "c' = c" using g n by (auto simp: gate_def hello_effect_def c0_def split: if_splits)
    then have "on_message env c payload d hex s = (r, s')" using assms(4) Received by simp
    then have "accepts_hello env payload d s \<or> is_error x \<or> answers_link env c payload d hex s x"
      using says_new [OF unregistered_message [OF assms(6)]] assms(5) by (metis snd_conv)
    then show ?thesis using Received \<open>c' = c\<close> by blast
  qed (use g n in \<open>auto simp: gate_def c0_def\<close>)
qed

theorem unauthenticated_gate_witness:
  "\<exists>s' x. server_step (example_server_env (Unlink \<lparr>messageId = js ''m'', metadata = [], unlink_sessionId = js ''s''\<rparr>))
      (Received 3 [] (Some 0) example_hex) example_waiting = (Inr (), s') \<and>
    (3, x) \<in> set (new_deliveries example_waiting s') \<and> is_error x"
proof -
  let ?m = "Unlink \<lparr>messageId = js ''m'', metadata = [], unlink_sessionId = js ''s''\<rparr>"
  let ?env = "example_server_env ?m"
  let ?e = "Received 3 [] (Some 0) example_hex"
  have ok: "message_ok (be_schema example_env) ?m" by (simp add: unlink_ok_def)
  obtain s' x where run: "server_step ?env ?e example_waiting = (Inr (), s')"
    and x: "(3, x) \<in> set (new_deliveries example_waiting s')"
  proof -
    let ?w = "js ''Client must authenticate with hello''"
    obtain y where y: "sendSocketError ?env 3 ProtocolInvalidMessage ?w True [] example_waiting =
        (Inr (), example_waiting\<lparr>br_net := y\<rparr>)" "\<exists>z. deliveries (wire y) = [(3, z)]"
      by (rule example_error [of ?w]) simp
    have "server_step ?env ?e example_waiting = refuse ?env 3 ProtocolInvalidMessage ?w example_waiting"
      using example_waiting_fresh(1) [of 3] example_probe [of ?m]
      by (simp add: on_message_def example_parse [OF ok] handle_client_message_def example_waiting_def
          conn_of_def new_conn_def)
    then have "server_step ?env ?e example_waiting = closeConnection ?env 3 None None (example_waiting\<lparr>br_net := y\<rparr>)"
      by (simp add: refuse_def bindE_def y(1))
    then show thesis using that y(2)
      by (auto simp: closeConnection_def clearHandshakeTimer_def set_conn_def bindE_def new_deliveries_def
          example_waiting_def)
  qed
  have inv: "server_inv ?env (0 + event_cost example_waiting ?e) example_waiting"
    by (rule example_waiting_inv) simp
  have ev: "event_ok ?env example_waiting ?e" using example_event_ok example_waiting_fresh(2) by (simp add: fresh_id_def)
  have "\<not> accepts_hello ?env payload d s" for payload d s
    by (simp add: accepts_hello_def example_parse [OF ok])
  moreover have "\<not> answers_link ?env 3 payload d hex s x" for payload d hex s x
    by (simp add: answers_link_def example_parse [OF ok])
  ultimately show ?thesis using run x
      unauthenticated_gate [OF example_env_ok inv ev run x example_waiting_fresh(1)] by auto
qed

subsection \<open>A message of an unauthenticated connection\<close>

lemma close_result:
  "closeConnection env c code reason s = (r, s') \<Longrightarrow>
     co_closing (conn_of s' c) \<and> co_registered (conn_of s' c) = co_registered (conn_of s c)"
  by (auto simp: closeConnection_def clearHandshakeTimer_def set_conn_def bindE_def conn_of_def)

lemma refuse_result:
  assumes "refuse env c code wording s = (Inr (), s')"
  shows "co_closing (conn_of s' c) \<and> co_registered (conn_of s' c) = co_registered (conn_of s c)"
proof -
  have k: "obeys conns_kept (sendSocketError env c code wording True [])" by simp
  obtain t where t: "sendSocketError env c code wording True [] s = (Inr (), t)"
    "closeConnection env c None None t = (Inr (), s')"
    using assms by (auto simp: refuse_def bindE_def split: prod.splits sum.splits)
  have "conn_of t = conn_of s" using conns_run.obeysD [OF k, of s] t(1) by (simp add: conn_of_kept)
  then show ?thesis using close_result [OF t(2)] by simp
qed

lemma link_result:
  assumes "bindE (set_conn c (\<lambda>x. x\<lparr>co_linkAttempted := True\<rparr>)) (\<lambda>_.
     bindE (handleLinkRequest env c l d hex) (\<lambda>ok. if ok then ret () else closeConnection env c None None)) s
     = (Inr (), s')"
  shows "(co_closing (conn_of s' c) \<or> co_linkAttempted (conn_of s' c)) \<and>
    co_registered (conn_of s' c) = co_registered (conn_of s c)"
proof -
  let ?s = "s\<lparr>sv_conns := jset c ((conn_of s c)\<lparr>co_linkAttempted := True\<rparr>) (sv_conns s)\<rparr>"
  obtain ok t where t: "handleLinkRequest env c l d hex ?s = (Inr ok, t)"
    "(if ok then ret () else closeConnection env c None None) t = (Inr (), s')"
    using assms by (auto simp: set_conn_def bindE_def split: prod.splits sum.splits)
  have k: "obeys conns_kept (handleLinkRequest env c l d hex)" by simp
  have "conn_of t = conn_of ?s" using conns_run.obeysD [OF k, of ?s] t(1) by (simp add: conn_of_kept)
  then show ?thesis using t(2) close_result [of env c None None t] by (auto simp: conn_of_jset split: if_splits)
qed

lemma hello_result:
  assumes "handle_hello env c h d s = (Inr (), s')"
  shows "hello_accepted env h d s \<and> (\<exists>t. accept_hello env c h (au_bridgeInstanceId (sv_auth s)) t = (Inr (), s')) \<or>
    co_closing (conn_of s' c) \<and> co_registered (conn_of s' c) = co_registered (conn_of s c)"
proof -
  let ?i = "au_bridgeInstanceId (sv_auth s)"
  obtain v a where v: "validateToken (hello_sessionId h) (src_role (hello_source h)) (hello_authToken h) ?i d (sv_auth s) = (v, a)"
    by fastforce
  have same: "conn_of (s\<lparr>sv_auth := a\<rparr>) = conn_of s" by simp
  show ?thesis
  proof (cases "hello_bridgeInstanceId h = ?i")
    case False
    then show ?thesis using assms refuse_result by (simp add: handle_hello_def Let_def)
  next
    case True
    then show ?thesis using assms refuse_result [of env c _ _ "s\<lparr>sv_auth := a\<rparr>" s']
      by (auto simp: handle_hello_def Let_def bindE_def authenticate_do_def v hello_accepted_def
          split: sum.splits token_validation.splits)
  qed
qed

lemma unauthenticated_message:
  assumes run: "on_message env c payload d hex s = (Inr (), s')"
    and none: "co_registered (conn_of s c) = None"
  shows "(\<exists>h t. parse_message env payload = Some (Hello h) \<and> hello_accepted env h d s \<and>
      accept_hello env c h (au_bridgeInstanceId (sv_auth s)) t = (Inr (), s')) \<or>
    co_registered (conn_of s' c) = None \<and> (co_closing (conn_of s' c) \<or>
      co_linkAttempted (conn_of s' c) \<and> \<not> co_linkAttempted (conn_of s c))"
proof (cases "co_closing (conn_of s c) \<or> \<not> vp_compatible (probeProtocolVersion (en_json env) payload)")
  case True
  then show ?thesis using run none close_result
    by (auto simp: on_message_def Let_def split: if_splits)
next
  case False
  show ?thesis
  proof (cases "parse_message env payload")
    case None
    then show ?thesis using False run none refuse_result by (fastforce simp: on_message_def Let_def)
  next
    case (Some m)
    show ?thesis
    proof (cases m)
      case (Hello h)
      then show ?thesis using False run none Some hello_result [of env c h d s s']
        by (auto simp: on_message_def Let_def handle_client_message_def)
    next
      case (LinkRequest l)
      show ?thesis
      proof (cases "co_linkAttempted (conn_of s c)")
        case True
        then show ?thesis using False run none Some LinkRequest refuse_result
          by (fastforce simp: on_message_def Let_def)
      next
        case new: False
        then show ?thesis using False run none Some LinkRequest link_result [of c env l d hex s s']
          by (auto simp: on_message_def Let_def)
      qed
    qed (use False run none Some refuse_result in
        \<open>fastforce simp: on_message_def Let_def handle_client_message_def\<close>)+
  qed
qed

lemma hello_accepted_token:
  assumes "hello_accepted env h d s"
  shows "\<exists>t tok. d = Some t \<and> tok \<in> set (au_tokens (sv_auth s)) \<and>
    tokensEqual (at_value tok) (hello_authToken h) \<and> unexpired t tok \<and>
    at_role tok = src_role (hello_source h) \<and> at_sessionId tok = hello_sessionId h \<and>
    at_bridgeInstanceId tok = au_bridgeInstanceId (sv_auth s)"
proof -
  let ?a = "sv_auth s"
  obtain t where t: "d = Some t"
    using assms by (auto simp: hello_accepted_def validateToken_def readNow_def split: option.splits)
  let ?k = "find (\<lambda>k. tokensEqual (at_value k) (hello_authToken h)) (filter (unexpired t) (au_tokens ?a))"
  obtain tok where tok: "?k = Some tok"
    using assms by (auto simp: hello_accepted_def validateToken_def readNow_def t pruneExpiredTokens_def Let_def
        split: option.splits)
  then have "tok \<in> set (filter (unexpired t) (au_tokens ?a))" "tokensEqual (at_value tok) (hello_authToken h)"
    unfolding find_Some_iff by (metis nth_mem)+
  then show ?thesis using assms t tok
    by (auto simp: hello_accepted_def validateToken_def readNow_def pruneExpiredTokens_def Let_def
        split: option.splits if_splits)
qed

text \<open>C3: a connection becomes a client only by a hello that carries a live token of this bridge
  instance, issued for the session and the role it asks for; the client is what the hello says.\<close>

theorem hello_needs_token:
  assumes "on_message env c payload d hex s = (Inr (), s')"
    and "co_registered (conn_of s c) = None" and "co_registered (conn_of s' c) = Some cl"
  shows "\<exists>h t tok. parse_message env payload = Some (Hello h) \<and> d = Some t \<and>
    tok \<in> set (au_tokens (sv_auth s)) \<and> tokensEqual (at_value tok) (cl_authToken cl) \<and> unexpired t tok \<and>
    at_role tok = role_of cl \<and> at_sessionId tok = cl_sessionId cl \<and>
    at_bridgeInstanceId tok = au_bridgeInstanceId (sv_auth s) \<and>
    cl_connection cl = c \<and> cl_source cl = hello_source h \<and> cl_capabilities cl = hello_capabilities h"
proof -
  obtain h t where h: "parse_message env payload = Some (Hello h)" "hello_accepted env h d s"
    "accept_hello env c h (au_bridgeInstanceId (sv_auth s)) t = (Inr (), s')"
    using unauthenticated_message [OF assms(1,2)] assms(3) by auto
  show ?thesis using accept_hello_client [OF h(3)] hello_accepted_token [OF h(2)] h(1) assms(3) by auto
qed

theorem hello_needs_token_witness:
  "\<exists>tok\<in>set (au_tokens example_auth). unexpired 0 tok \<and> at_bridgeInstanceId tok = au_bridgeInstanceId example_auth"
proof -
  obtain s' cl where "on_message (example_server_env (Hello example_hello)) 1 [] (Some 0) example_hex
      example_waiting = (Inr (), s')" "co_registered (conn_of s' 1) = Some cl" using example_joins by blast
  from hello_needs_token [OF this(1) example_waiting_fresh(1) this(2)] show ?thesis
    by (auto simp: example_waiting_def)
qed

text \<open>C9: one message decides: whatever a connection that has not authenticated sends, it becomes a
  client, or spends its only link attempt, or is being closed - and then nothing it sends later
  has any effect.\<close>

theorem first_message_decides:
  assumes "on_message env c payload d hex s = (Inr (), s')" and "co_registered (conn_of s c) = None"
  shows "co_registered (conn_of s' c) \<noteq> None \<or>
    co_linkAttempted (conn_of s' c) \<and> \<not> co_linkAttempted (conn_of s c) \<or>
    co_closing (conn_of s' c) \<and>
      on_message env c payload' d' hex' s' = (Inr (), s')"
  using unauthenticated_message [OF assms] accept_hello_client
  by (fastforce simp: on_message_def)

theorem first_message_decides_witness:
  "\<exists>s'. on_message (example_server_env (Hello example_hello)) 1 [] (Some 0) example_hex example_waiting = (Inr (), s') \<and>
    (co_registered (conn_of s' 1) \<noteq> None \<or> co_linkAttempted (conn_of s' 1) \<or> co_closing (conn_of s' 1))"
proof -
  obtain s' cl where s': "on_message (example_server_env (Hello example_hello)) 1 [] (Some 0) example_hex
      example_waiting = (Inr (), s')" using example_joins by blast
  show ?thesis using s' first_message_decides [OF s' example_waiting_fresh(1)] by blast
qed

subsection \<open>What closing leaves behind\<close>

lemma drop_client_routes:
  assumes "routes_inv (br_routes s)" and "find_route (br_routes (snd (drop_client env cl s))) sid mid = Some r"
  shows "rt_origin r \<noteq> cl_id cl \<and> rt_ide r \<noteq> Some (cl_id cl)"
proof -
  let ?s = "s\<lparr>br_registry := jdel (cl_id cl) (br_registry s)\<rparr>"
  have inv: "routes_inv (br_routes ?s)" using assms(1) by simp
  obtain rs where rs: "removeClient (cl_id cl) (br_routes s) = (Inr (), rs)"
    and e: "aside (?s\<lparr>br_routes := rs\<rparr>) (snd (onClientRemoved env cl ?s))"
      "aside (?s\<lparr>br_routes := rs\<rparr>) (snd (on_routes (removeClient (cl_id cl)) ?s))"
    using onClientRemoved_effect [OF inv, of cl env] by auto
  have e': "br_routes (snd (onClientRemoved env cl ?s)) = rs"
    "br_routes (snd (on_routes (removeClient (cl_id cl)) ?s)) = rs" using e by (simp_all add: aside_def)
  have "drop_client env cl s = (if cl_id cl \<in> set (jkeys (br_registry s)) then onClientRemoved env cl
      else on_routes (removeClient (cl_id cl))) ?s"
    by (simp add: drop_client_def registry_remove_do_def registry_remove_def bindE_def)
  then have "br_routes (snd (drop_client env cl s)) = rs"
    by (cases "cl_id cl \<in> set (jkeys (br_registry s))") (simp_all only: e' if_True if_False)
  moreover obtain rs' where rs': "removeClient (cl_id cl) (br_routes s) = (Inr (), rs')"
    "route_at rs' = (\<lambda>k. case route_at (br_routes s) k of None \<Rightarrow> None
      | Some r \<Rightarrow> if involves (cl_id cl) r then None else Some r)"
    using removeClient_effect [OF assms(1)] by blast
  moreover have "find_route rs' sid mid = route_at rs' (routeKey sid mid)" by simp
  ultimately have "(case route_at (br_routes s) (routeKey sid mid) of None \<Rightarrow> None
      | Some r \<Rightarrow> if involves (cl_id cl) r then None else Some r) = Some r"
    using assms(2) rs by (metis (no_types) Pair_inject Inr_inject)
  then show ?thesis by (auto simp: involves_def split: option.splits if_splits)
qed

text \<open>C10: once a connection's socket has closed, its client is in no registry and no reply route
  starts at it or is owned by it.\<close>

theorem close_purges:
  assumes "env_ok env" and "server_inv env (Suc k) s" and "on_close env c s = (r, s')"
    and "co_registered (conn_of s c) = Some cl"
  shows "r = Inr () \<and> co_registered (conn_of s' c) = None \<and> co_closing (conn_of s' c) \<and>
    (\<forall>x\<in>set (registry_all (br_registry s')). cl_connection x \<noteq> c) \<and>
    (\<forall>sid mid rt. find_route (br_routes s') sid mid = Some rt \<longrightarrow>
       rt_origin rt \<noteq> cl_id cl \<and> rt_ide rt \<noteq> Some (cl_id cl))"
proof -
  let ?f = "\<lambda>x. x\<lparr>co_active := False, co_timer := False, co_closing := True, co_registered := None\<rparr>"
  let ?s = "s\<lparr>sv_conns := jset c (?f (conn_of s c)) (sv_conns s)\<rparr>"
  obtain g where run: "on_close env c s = drop_client env cl (s\<lparr>sv_conns := g\<rparr>)"
    and g: "conn_of (s\<lparr>sv_conns := g\<rparr>) c = ?f (conn_of s c)"
    using assms(4) by (simp add: on_close_def clearHandshakeTimer_def set_conn_def removeRegistration_def Let_def
        bindE_def conn_of_def)
  have kept: "obeys conns_kept (drop_client env cl)"
  proof -
    have "obeys conns_kept (on_routes f)" for f :: "(reply_routes, route_error, unit) eff"
      by (auto simp: obeys_def on_routes_def conns_kept_def split: prod.split sum.split)
    moreover have "obeys conns_kept (registry_remove_do x)" for x
      by (auto simp: obeys_def registry_remove_do_def conns_kept_def split: prod.split)
    ultimately show ?thesis unfolding drop_client_def onClientRemoved_def
      by (auto intro!: conns_run.obeys_bind)
  qed
  have "conn_of s' c = ?f (conn_of s c)"
    using conns_run.obeysD [OF kept] assms(3) g unfolding run by (metis conn_of_kept snd_conv)
  moreover have fin: "r = Inr ()" "server_inv env k s'"
    using goes_on_close [OF assms(2,1), of c c] assms(3) by (auto simp: goes_def)
  moreover have "cl_connection x \<noteq> c" if "x \<in> set (registry_all (br_registry s'))" for x
  proof -
    have "cl_connection x \<in> registered_conns s'"
      by (rule at_conns [of env _ k "br_registry s'" "sv_conns s'" "sv_auth s'" s'])
        (use fin that in \<open>simp_all add: server_at_def server_inv_def registry_all_def\<close>)
    then show ?thesis using \<open>conn_of s' c = ?f (conn_of s c)\<close> by (auto simp: registered_conns_def)
  qed
  moreover have "routes_inv (br_routes (s\<lparr>sv_conns := g\<rparr>))"
    using assms(2) by (simp add: server_inv_def core_def)
  then have "rt_origin rt \<noteq> cl_id cl \<and> rt_ide rt \<noteq> Some (cl_id cl)"
    if "find_route (br_routes s') sid mid = Some rt" for sid mid rt
    by (rule drop_client_routes [where env = env]) (use assms(3) that run in simp)
  ultimately show ?thesis by simp
qed

theorem close_purges_witness:
  "\<exists>s'. on_close (example_server_env (Hello example_hello)) 1 example_running = (Inr (), s') \<and>
    co_closing (conn_of s' 1)"
proof -
  let ?env = "example_server_env (Hello example_hello)"
  have inv: "server_inv ?env (Suc 0) example_running" by (rule example_running_inv) simp
  obtain r s' where run: "on_close ?env 1 example_running = (r, s')" by fastforce
  have cl: "co_registered (conn_of example_running 1) = Some (example_client ''b'' 1 Browser)"
    by (simp add: example_running_conns)
  show ?thesis using run close_purges [OF example_env_ok inv run cl] by blast
qed

subsection \<open>The heartbeat\<close>

definition tick_one :: "registered_client \<Rightarrow> client_registry \<Rightarrow> client_registry" where
  "tick_one cl reg = (if cl_missedPongs cl \<ge> 2 then jdel (cl_id cl) reg else markPingSent (cl_id cl) reg)"

lemma ping_client_registry:
  "ping_client env d cl s = (Inr (), s') \<Longrightarrow> routes_inv (br_routes s) \<Longrightarrow>
     br_registry s' = tick_one cl (br_registry s)"
proof -
  assume run: "ping_client env d cl s = (Inr (), s')" and inv: "routes_inv (br_routes s)"
  have regs: "br_registry (snd (m t)) = br_registry t" if "obeys aside m" for m :: "unit server_eff" and t
    using asides.obeysD [OF that, of t] by (simp add: aside_def)
  show ?thesis
  proof (cases "cl_missedPongs cl \<ge> 2")
    case True
    let ?t = "s\<lparr>br_registry := jdel (cl_id cl) (br_registry s),
      br_net := terminateConnectionSafely (cl_connection cl) (br_net s)\<rparr>"
    have "routes_inv (br_routes ?t)" using inv by simp
    then obtain rs where "aside (?t\<lparr>br_routes := rs\<rparr>) (snd (onClientRemoved env cl ?t))"
      using onClientRemoved_effect [of ?t cl env] by blast
    then have "br_registry (snd (onClientRemoved env cl ?t)) = jdel (cl_id cl) (br_registry s)"
      by (simp add: aside_def)
    then show ?thesis using run True
      by (auto simp: ping_client_def registry_remove_do_def registry_remove_def terminate_do_def bindE_Inr
          tick_one_def split: if_splits)
  next
    case False
    have "obeys aside (bindE (fresh_uuid (en_bridge env)) (\<lambda>u. sendSocketMessage env (cl_connection cl)
      (Ping \<lparr>messageId = u, metadata = [], ping_sentAt = en_iso env d\<rparr>)))"
      by (rule asides.obeys_bind) simp_all
    from regs [OF this, of "s\<lparr>br_registry := markPingSent (cl_id cl) (br_registry s)\<rparr>"] run False
    show ?thesis by (simp add: ping_client_def bindE_Inr tick_one_def)
  qed
qed

lemma tick_loop_registry:
  assumes "env_ok env" and "d \<noteq> None"
  shows "server_inv env (k + length xs) s \<Longrightarrow> tick_ok A ys s \<Longrightarrow> set xs \<subseteq> set ys \<Longrightarrow>
    br_registry (snd (for_each (ping_client env d) xs s)) = fold tick_one xs (br_registry s)"
proof (induction xs arbitrary: s)
  case (Cons x xs)
  have i: "server_inv env (Suc (k + length xs)) s" and x: "x \<in> set ys" using Cons.prems by simp_all
  obtain t where t: "ping_client env d x s = (Inr (), t)" "server_inv env (k + length xs) t" "tick_ok A ys t"
    using goes_ping [OF i Cons.prems(2) x assms] by (auto simp: goes_def)
  have "br_registry t = tick_one x (br_registry s)"
    by (rule ping_client_registry [OF t(1)]) (use i in \<open>simp add: server_inv_def core_def\<close>)
  then show ?case using Cons.IH [OF t(2,3)] Cons.prems(3) by (simp add: bindE_def t(1))
qed simp

definition ticked :: "client_registry \<Rightarrow> client_registry" where
  "ticked reg = map (\<lambda>(cid, c). (cid, c\<lparr>cl_missedPongs := cl_missedPongs c + 1\<rparr>))
     (filter (\<lambda>(cid, c). cl_missedPongs c < 2) reg)"

lemma jset_append: "k \<notin> set (jkeys xs) \<Longrightarrow> jset k v (xs @ (k, w) # ys) = xs @ (k, v) # ys"
  by (induction xs) auto

lemma jdel_append: "k \<notin> set (jkeys xs) \<Longrightarrow> k \<notin> set (jkeys ys) \<Longrightarrow> jdel k (xs @ (k, w) # ys) = xs @ ys"
  by (induction xs) (auto simp: jdel_notin)

lemma fold_tick:
  "distinct (jkeys (xs @ ys)) \<Longrightarrow> \<forall>(cid, c)\<in>set ys. cl_id c = cid \<Longrightarrow>
     fold tick_one (map snd ys) (xs @ ys) = xs @ ticked ys"
proof (induction ys arbitrary: xs)
  case (Cons y ys)
  obtain k c where y: "y = (k, c)" "cl_id c = k" using Cons.prems(2) by (cases y) auto
  have n: "k \<notin> set (jkeys xs)" "k \<notin> set (jkeys ys)" using Cons.prems(1) by (auto simp: y)
  show ?case
  proof (cases "cl_missedPongs c \<ge> 2")
    case True
    then have "tick_one c (xs @ (k, c) # ys) = xs @ ys" by (simp add: tick_one_def y jdel_append [OF n])
    then show ?thesis using Cons.IH [of xs] Cons.prems True by (simp add: y ticked_def)
  next
    case False
    let ?c = "c\<lparr>cl_missedPongs := cl_missedPongs c + 1\<rparr>"
    have "map_of xs k = None" using n(1) by (metis jget_eq_None_iff)
    then have "jget (xs @ (k, c) # ys) k = Some c" by (simp add: map_add_def)
    then have "tick_one c (xs @ (k, c) # ys) = (xs @ [(k, ?c)]) @ ys"
      using False by (simp add: tick_one_def y markPingSent_def jset_append [OF n(1)] del: map_of_append)
    then show ?thesis using Cons.IH [of "xs @ [(k, ?c)]"] Cons.prems False by (simp add: y ticked_def)
  qed
qed (simp add: ticked_def)

text \<open>
  a heartbeat drops exactly the clients that have left two pings unanswered, and counts a
  ping against each of the others; it never fails.\<close>

theorem heartbeat_evicts:
  assumes "env_ok env" and "server_inv env (length (br_registry s)) s" and "d \<noteq> None"
    and "heartbeat_tick env d s = (r, s')"
  shows "r = Inr () \<and> br_registry s' =
    map (\<lambda>(cid, c). (cid, c\<lparr>cl_missedPongs := cl_missedPongs c + 1\<rparr>))
      (filter (\<lambda>(cid, c). cl_missedPongs c < 2) (br_registry s))"
proof -
  have inv: "server_inv env (0 + length (br_registry s)) s" using assms(2) by simp
  have co: "distinct (jkeys (br_registry s))" "\<forall>(cid, c)\<in>set (br_registry s). cl_id c = cid"
    using assms(2) by (auto simp: server_inv_def core_def client_ok_def map_of_is_SomeI)
  have "br_registry (snd (heartbeat_tick env d s)) = fold tick_one (map snd (br_registry s)) (br_registry s)"
    unfolding heartbeat_tick_def
    using tick_loop_registry [OF assms(1,3) _ tick_start [OF inv] subset_refl, of 0] assms(2)
    by (simp add: registry_all_def)
  then have "br_registry s' = ticked (br_registry s)"
    using fold_tick [of "[]" "br_registry s"] co assms(4) by simp
  moreover have "r = Inr ()" using goes_heartbeat [OF inv assms(1,3), of 0] assms(4) by (auto simp: goes_def)
  ultimately show ?thesis by (simp add: ticked_def)
qed

theorem heartbeat_evicts_witness:
  "\<exists>s'. heartbeat_tick (example_server_env (Hello example_hello)) (Some 0) example_running = (Inr (), s') \<and>
    br_registry s' = [(js ''e'', (example_client ''e'' 2 Ide)\<lparr>cl_missedPongs := 1\<rparr>)]"
proof -
  let ?env = "example_server_env (Hello example_hello)"
  have inv: "server_inv ?env (length (br_registry example_running)) example_running"
    by (rule example_running_inv) (simp add: example_running_def)
  obtain r s' where run: "heartbeat_tick ?env (Some 0) example_running = (r, s')" by fastforce
  have "Some 0 \<noteq> (None :: js_date)" by simp
  from heartbeat_evicts [OF example_env_ok inv this run]
  have "r = Inr () \<and> br_registry s' = [(js ''e'', (example_client ''e'' 2 Ide)\<lparr>cl_missedPongs := 1\<rparr>)]"
    by (simp add: example_running_def example_client_def)
  then show ?thesis using run by blast
qed

end
