(* ===== verification/Data_Snapshot.thy ===== *)
theory Data_Snapshot
  imports Protocol_Messages Text_Patterns
begin

text \<open>
  \<^verbatim>\<open>browser-extension-core/src/protocolDataSnapshot.ts\<close>: values that cross a trust boundary are
  copied into plain JSON data, property by property, before anything reads them. A JavaScript
  value is modelled with what the copy looks at: the own properties of an array or object with
  their keys, whether they are enumerable and whether they hold a value or an accessor
  (\<open>None\<close>), and whether an object has a plain prototype. \<open>VUndefined\<close> is undefined, \<open>VOther\<close>
  every other value: functions, symbols, bigints, NaN, the infinities, and objects whose
  inspection throws.
\<close>

subsection \<open>Values\<close>

datatype js_key = StrKey jstring | SymKey

datatype js_value = VNull | VBool bool | VNum jsnum | VStr jstring | VUndefined | VOther
  | VArray nat "(js_key \<times> bool \<times> js_value option) list"
  | VObject bool "(js_key \<times> bool \<times> js_value option) list"

type_synonym js_property = "js_key \<times> bool \<times> js_value option"

definition MAX_SNAPSHOT_DEPTH :: nat where "MAX_SNAPSHOT_DEPTH = 12"
definition MAX_SNAPSHOT_OBJECT_KEYS :: nat where "MAX_SNAPSHOT_OBJECT_KEYS = 64"
definition MAX_SNAPSHOT_STRING_LENGTH :: nat where "MAX_SNAPSHOT_STRING_LENGTH = 256 * 1024"

record snapshot_limits =
  sl_maxNodes :: nat
  sl_maxArrayLength :: nat

definition defaultSnapshotLimits :: snapshot_limits where
  "defaultSnapshotLimits = \<lparr>sl_maxNodes = 512, sl_maxArrayLength = 64\<rparr>"

definition rulesSourcesSnapshotLimits :: snapshot_limits where
  "rulesSourcesSnapshotLimits = \<lparr>sl_maxNodes = 520, sl_maxArrayLength = 256\<rparr>"

subsection \<open>The copy\<close>

text \<open>
  The counter \<^verbatim>\<open>budget.nodes\<close> is threaded through; \<open>room\<close> is how many more levels fit, that is
  \<^verbatim>\<open>MAX_SNAPSHOT_DEPTH + 1 - depth\<close>. The two loops take the copy of an item as an argument.
\<close>

type_synonym snapshot_step = "js_value \<Rightarrow> nat \<Rightarrow> json option \<times> nat"

fun snapshot_items :: "snapshot_step \<Rightarrow> js_property list \<Rightarrow> nat list \<Rightarrow> nat \<Rightarrow> json list option \<times> nat" where
  "snapshot_items snap ds [] nodes = (Some [], nodes)"
| "snapshot_items snap ds (i # is) nodes =
     (case map_of ds (StrKey (decimal i)) of
        Some (True, Some v) \<Rightarrow>
          (case snap v nodes of
             (None, nodes') \<Rightarrow> (None, nodes')
           | (Some item, nodes') \<Rightarrow>
               (case snapshot_items snap ds is nodes' of
                  (None, nodes'') \<Rightarrow> (None, nodes'')
                | (Some items, nodes'') \<Rightarrow> (Some (item # items), nodes'')))
      | _ \<Rightarrow> (None, nodes))"

fun snapshot_members :: "snapshot_step \<Rightarrow> js_property list \<Rightarrow> nat \<Rightarrow> json_object option \<times> nat" where
  "snapshot_members snap [] nodes = (Some [], nodes)"
| "snapshot_members snap (d # ds) nodes =
     (case d of
        (StrKey key, True, Some v) \<Rightarrow>
          (case snap v nodes of
             (None, nodes') \<Rightarrow> (None, nodes')
           | (Some item, nodes') \<Rightarrow>
               (case snapshot_members snap ds nodes' of
                  (None, nodes'') \<Rightarrow> (None, nodes'')
                | (Some items, nodes'') \<Rightarrow> (Some ((key, item) # items), nodes'')))
      | _ \<Rightarrow> (None, nodes))"

fun snapshotJsonData :: "snapshot_limits \<Rightarrow> nat \<Rightarrow> snapshot_step" where
  "snapshotJsonData lim room VNull nodes = (Some JNull, nodes)"
| "snapshotJsonData lim room (VBool b) nodes = (Some (JBool b), nodes)"
| "snapshotJsonData lim room (VNum x) nodes = (Some (JNum x), nodes)"
| "snapshotJsonData lim room (VStr s) nodes =
     (if length s \<le> MAX_SNAPSHOT_STRING_LENGTH then Some (JStr s) else None, nodes)"
| "snapshotJsonData lim room VUndefined nodes = (None, nodes)"
| "snapshotJsonData lim room VOther nodes = (None, nodes)"
| "snapshotJsonData lim 0 (VArray len ds) nodes = (None, nodes)"
| "snapshotJsonData lim (Suc room) (VArray len ds) nodes =
     (if nodes + 1 > sl_maxNodes lim \<or> len > sl_maxArrayLength lim \<or> length ds \<noteq> len
      then (None, nodes + 1)
      else (case snapshot_items (snapshotJsonData lim room) ds [0..<len] (nodes + 1) of
          (None, nodes') \<Rightarrow> (None, nodes')
        | (Some items, nodes') \<Rightarrow> (Some (JArr items), nodes')))"
| "snapshotJsonData lim 0 (VObject plain ds) nodes = (None, nodes)"
| "snapshotJsonData lim (Suc room) (VObject plain ds) nodes =
     (if nodes + 1 > sl_maxNodes lim \<or> \<not> plain \<or> length ds > MAX_SNAPSHOT_OBJECT_KEYS \<or>
         SymKey \<in> fst ` set ds
      then (None, nodes + 1)
      else (case snapshot_members (snapshotJsonData lim room) ds (nodes + 1) of
          (None, nodes') \<Rightarrow> (None, nodes')
        | (Some members, nodes') \<Rightarrow> (Some (JObj members), nodes')))"

definition snapshot_data :: "snapshot_limits \<Rightarrow> js_value \<Rightarrow> json option" where
  "snapshot_data lim value = fst (snapshotJsonData lim (MAX_SNAPSHOT_DEPTH + 1) value 0)"

text \<open>\<open>safeParse\<close> is the schema's parser.\<close>

definition parseProtocolDataWithLimits ::
  "js_value \<Rightarrow> (json \<Rightarrow> 'a option) \<Rightarrow> snapshot_limits \<Rightarrow> 'a option" where
  "parseProtocolDataWithLimits value safeParse limits =
     (case snapshot_data limits value of None \<Rightarrow> None | Some j \<Rightarrow> safeParse j)"

definition parseProtocolData :: "js_value \<Rightarrow> (json \<Rightarrow> 'a option) \<Rightarrow> 'a option" where
  "parseProtocolData value safeParse = parseProtocolDataWithLimits value safeParse defaultSnapshotLimits"

definition parseRulesSourcesProtocolData :: "js_value \<Rightarrow> (json \<Rightarrow> 'a option) \<Rightarrow> 'a option" where
  "parseRulesSourcesProtocolData value safeParse =
     parseProtocolDataWithLimits value safeParse rulesSourcesSnapshotLimits"

definition snapshotExactDataRecord :: "js_value \<Rightarrow> jstring list \<Rightarrow> json_object option" where
  "snapshotExactDataRecord value expectedKeys =
     (case snapshot_data defaultSnapshotLimits value of
        Some (JObj record) \<Rightarrow>
          if length record = length expectedKeys \<and> list_all (\<lambda>key. key \<in> set (jkeys record)) expectedKeys
          then Some record else None
      | _ \<Rightarrow> None)"

subsection \<open>What a copy can be\<close>

text \<open>
  \<open>containers\<close> counts the arrays and objects of a JSON value, \<open>fits\<close> states the limits on depth,
  array length, number of keys and text length; \<open>plain\<close> is a JSON value as a JavaScript value.
\<close>

fun containers :: "json \<Rightarrow> nat" where
  "containers (JArr xs) = Suc (sum_list (map containers xs))"
| "containers (JObj ms) = Suc (sum_list (map (\<lambda>m. containers (snd m)) ms))"
| "containers j = 0"

fun fits :: "snapshot_limits \<Rightarrow> nat \<Rightarrow> json \<Rightarrow> bool" where
  "fits lim room (JStr s) = (length s \<le> MAX_SNAPSHOT_STRING_LENGTH)"
| "fits lim 0 (JArr xs) = False"
| "fits lim (Suc room) (JArr xs) = (length xs \<le> sl_maxArrayLength lim \<and> list_all (fits lim room) xs)"
| "fits lim 0 (JObj ms) = False"
| "fits lim (Suc room) (JObj ms) =
     (length ms \<le> MAX_SNAPSHOT_OBJECT_KEYS \<and> list_all (fits lim room) (map snd ms))"
| "fits lim room j = True"

fun plain :: "json \<Rightarrow> js_value" where
  "plain JNull = VNull"
| "plain (JBool b) = VBool b"
| "plain (JNum x) = VNum x"
| "plain (JStr s) = VStr s"
| "plain (JArr xs) = VArray (length xs)
     (zip (map (\<lambda>i. StrKey (decimal i)) [0..<length xs]) (map (\<lambda>x. (True, Some (plain x))) xs))"
| "plain (JObj ms) = VObject True (map (\<lambda>m. (StrKey (fst m), True, Some (plain (snd m)))) ms)"

definition within :: "snapshot_limits \<Rightarrow> nat \<Rightarrow> snapshot_step \<Rightarrow> bool" where
  "within lim room snap \<longleftrightarrow> (\<forall>v n j n'. snap v n = (Some j, n') \<longrightarrow>
     fits lim room j \<and> n' = n + containers j \<and> (n \<le> sl_maxNodes lim \<longrightarrow> n' \<le> sl_maxNodes lim))"

lemma snapshot_items_within:
  assumes "within lim room snap" and "snapshot_items snap ds is n = (Some xs, n')"
  shows "length xs = length is \<and> list_all (fits lim room) xs \<and>
    n' = n + sum_list (map containers xs) \<and> (n \<le> sl_maxNodes lim \<longrightarrow> n' \<le> sl_maxNodes lim)"
  using assms(2)
proof (induction "is" arbitrary: n xs n')
  case (Cons i "is")
  from Cons.prems obtain v item n1 items where
    1: "snap v n = (Some item, n1)" and 2: "snapshot_items snap ds is n1 = (Some items, n')"
    and xs: "xs = item # items"
    by (auto split: option.splits prod.splits bool.splits)
  show ?case using assms(1) 1 Cons.IH [OF 2] unfolding xs within_def by fastforce
qed simp

lemma snapshot_members_within:
  assumes "within lim room snap" and "snapshot_members snap ds n = (Some ms, n')"
  shows "length ms = length ds \<and> list_all (fits lim room) (map snd ms) \<and>
    n' = n + sum_list (map (\<lambda>m. containers (snd m)) ms) \<and>
    (n \<le> sl_maxNodes lim \<longrightarrow> n' \<le> sl_maxNodes lim)"
  using assms(2)
proof (induction ds arbitrary: n ms n')
  case (Cons d ds)
  from Cons.prems obtain key v item n1 items where
    1: "snap v n = (Some item, n1)" and 2: "snapshot_members snap ds n1 = (Some items, n')"
    and ms: "ms = (key, item) # items"
    by (auto split: option.splits prod.splits bool.splits js_key.splits)
  show ?case using assms(1) 1 Cons.IH [OF 2] unfolding ms within_def by fastforce
qed simp

lemma snapshotJsonData_within: "within lim room (snapshotJsonData lim room)"
proof (induction room)
  case 0
  show ?case unfolding within_def
  proof (intro allI impI)
    fix v n j n' assume "snapshotJsonData lim 0 v n = (Some j, n')"
    then show "fits lim 0 j \<and> n' = n + containers j \<and> (n \<le> sl_maxNodes lim \<longrightarrow> n' \<le> sl_maxNodes lim)"
      by (cases v) (auto split: if_splits)
  qed
next
  case (Suc room)
  show ?case unfolding within_def
  proof (intro allI impI)
    fix v n j n' assume r: "snapshotJsonData lim (Suc room) v n = (Some j, n')"
    show "fits lim (Suc room) j \<and> n' = n + containers j \<and>
      (n \<le> sl_maxNodes lim \<longrightarrow> n' \<le> sl_maxNodes lim)"
    proof (cases v)
      case (VArray len ds)
      with r obtain items where
        i: "snapshot_items (snapshotJsonData lim room) ds [0..<len] (n + 1) = (Some items, n')"
        and j: "j = JArr items" and ok: "n + 1 \<le> sl_maxNodes lim" "len \<le> sl_maxArrayLength lim"
        by (auto split: option.splits prod.splits if_splits)
      show ?thesis using snapshot_items_within [OF Suc.IH i] ok by (simp add: j)
    next
      case (VObject p ds)
      with r obtain ms where
        i: "snapshot_members (snapshotJsonData lim room) ds (n + 1) = (Some ms, n')"
        and j: "j = JObj ms" and ok: "n + 1 \<le> sl_maxNodes lim" "length ds \<le> MAX_SNAPSHOT_OBJECT_KEYS"
        by (auto split: option.splits prod.splits if_splits)
      show ?thesis using snapshot_members_within [OF Suc.IH i] ok by (simp add: j)
    qed (use r in \<open>auto split: if_splits\<close>)
  qed
qed

subsection \<open>Plain data is copied unchanged\<close>

lemma plain_item:
  "i < length xs \<Longrightarrow>
   map_of (zip (map (\<lambda>i. StrKey (decimal i)) [0..<length xs]) (map (\<lambda>x. (True, Some (plain x))) xs))
     (StrKey (decimal i)) = Some (True, Some (plain (xs ! i)))"
  using map_of_zip_nth [of "map (\<lambda>i. StrKey (decimal i)) [0..<length xs]"
      "map (\<lambda>x. (True, Some (plain x))) xs" i]
  by (simp add: distinct_map inj_on_def)

definition copies :: "snapshot_limits \<Rightarrow> nat \<Rightarrow> snapshot_step \<Rightarrow> bool" where
  "copies lim room snap \<longleftrightarrow> (\<forall>j n.
     fits lim room j \<longrightarrow> n + containers j \<le> sl_maxNodes lim \<longrightarrow> snap (plain j) n = (Some j, n + containers j))"

lemma snapshot_items_copies:
  assumes "copies lim room snap" and "list_all (fits lim room) xs" and "set is \<subseteq> {..<length xs}"
    and "n + sum_list (map (\<lambda>i. containers (xs ! i)) is) \<le> sl_maxNodes lim"
  shows "snapshot_items snap
      (zip (map (\<lambda>i. StrKey (decimal i)) [0..<length xs]) (map (\<lambda>x. (True, Some (plain x))) xs)) is n =
    (Some (map (\<lambda>i. xs ! i) is), n + sum_list (map (\<lambda>i. containers (xs ! i)) is))"
  using assms(3,4)
proof (induction "is" arbitrary: n)
  case (Cons i "is")
  have "snap (plain (xs ! i)) n = (Some (xs ! i), n + containers (xs ! i))"
    using assms(1,2) Cons.prems unfolding copies_def list_all_length by simp
  moreover note Cons.IH [of "n + containers (xs ! i)"]
  ultimately show ?case using Cons.prems by (simp add: plain_item add.assoc)
qed simp

lemma snapshot_members_copies:
  assumes "copies lim room snap" and "list_all (fits lim room) (map snd ms)"
    and "n + sum_list (map (\<lambda>m. containers (snd m)) ms) \<le> sl_maxNodes lim"
  shows "snapshot_members snap (map (\<lambda>m. (StrKey (fst m), True, Some (plain (snd m)))) ms) n =
    (Some ms, n + sum_list (map (\<lambda>m. containers (snd m)) ms))"
  using assms(2,3)
proof (induction ms arbitrary: n)
  case (Cons m ms)
  have "snap (plain (snd m)) n = (Some (snd m), n + containers (snd m))"
    using assms(1) Cons.prems unfolding copies_def by simp
  moreover note Cons.IH [of "n + containers (snd m)"]
  ultimately show ?case using Cons.prems by (simp add: add.assoc)
qed simp

lemma no_sym_keys: "SymKey \<notin> fst ` set (map (\<lambda>m. (StrKey (fst m), True, Some (plain (snd m)))) ms)"
  by auto

lemma snapshotJsonData_copies: "copies lim room (snapshotJsonData lim room)"
proof (induction room)
  case 0
  show ?case unfolding copies_def
  proof (intro allI impI)
    fix j n assume "fits lim 0 j" "n + containers j \<le> sl_maxNodes lim"
    then show "snapshotJsonData lim 0 (plain j) n = (Some j, n + containers j)"
      by (cases j) simp_all
  qed
next
  case (Suc room)
  show ?case unfolding copies_def
  proof (intro allI impI)
    fix j n assume f: "fits lim (Suc room) j" and n: "n + containers j \<le> sl_maxNodes lim"
    show "snapshotJsonData lim (Suc room) (plain j) n = (Some j, n + containers j)"
    proof (cases j)
      case (JArr xs)
      have s: "map (\<lambda>i. containers (xs ! i)) [0..<length xs] = map containers xs"
        by (rule nth_equalityI) simp_all
      show ?thesis
        using snapshot_items_copies [OF Suc.IH, of xs "[0..<length xs]" "n + 1"] f n
        by (simp add: JArr s map_nth lessThan_atLeast0 del: upt_Suc)
    next
      case (JObj ms)
      then show ?thesis
        using snapshot_members_copies [OF Suc.IH, of ms "n + 1"] f n no_sym_keys [of ms] by simp
    qed (use f in simp_all)
  qed
qed

lemma snapshot_within:
  assumes "snapshot_data lim v = Some j"
  shows "fits lim (MAX_SNAPSHOT_DEPTH + 1) j \<and> containers j \<le> sl_maxNodes lim"
proof -
  obtain n' where "snapshotJsonData lim (MAX_SNAPSHOT_DEPTH + 1) v 0 = (Some j, n')"
    using assms unfolding snapshot_data_def
    by (cases "snapshotJsonData lim (MAX_SNAPSHOT_DEPTH + 1) v 0") simp
  then show ?thesis
    using snapshotJsonData_within [of lim "MAX_SNAPSHOT_DEPTH + 1"] unfolding within_def by fastforce
qed

text \<open>C28:
  A copy of any value whatsoever stays within the limits: at most \<open>maxNodes\<close> arrays and
  objects, at most 13 levels of them, arrays of at most \<open>maxArrayLength\<close> items, objects of at most
  64 keys and texts of at most 256K units.
\<close>
theorem snapshot_bounded:
  assumes "snapshot_data lim v = Some j"
  shows "fits lim (MAX_SNAPSHOT_DEPTH + 1) j \<and> containers j \<le> sl_maxNodes lim"
  using assms by (rule snapshot_within)

definition example_value :: js_value where
  "example_value = VObject True [(StrKey (js ''a''), True, Some (VArray 1 [(StrKey (decimal 0), True, Some VNull)]))]"

lemma example_value_snapshot:
  "snapshot_data defaultSnapshotLimits example_value = Some (JObj [(js ''a'', JArr [JNull])])"
  by (simp add: snapshot_data_def example_value_def defaultSnapshotLimits_def numeral_eq_Suc
      MAX_SNAPSHOT_DEPTH_def MAX_SNAPSHOT_OBJECT_KEYS_def)

theorem snapshot_bounded_witness:
  "fits defaultSnapshotLimits (MAX_SNAPSHOT_DEPTH + 1) (JObj [(js ''a'', JArr [JNull])]) \<and>
   containers (JObj [(js ''a'', JArr [JNull])]) \<le> sl_maxNodes defaultSnapshotLimits"
  by (rule snapshot_bounded [OF example_value_snapshot])

text \<open>Plain data within the limits is copied unchanged, so a copy of a copy is the copy itself:
  what one trust boundary let through, the next one with the same limits lets through as it is.
\<close>
theorem snapshot_round_trip:
  "(fits lim (MAX_SNAPSHOT_DEPTH + 1) j \<and> containers j \<le> sl_maxNodes lim \<longrightarrow>
      snapshot_data lim (plain j) = Some j) \<and>
   (snapshot_data lim v = Some k \<longrightarrow> snapshot_data lim (plain k) = Some k)"
proof -
  have copy: "snapshot_data lim (plain i) = Some i"
    if "fits lim (MAX_SNAPSHOT_DEPTH + 1) i" "containers i \<le> sl_maxNodes lim" for i
    using that snapshotJsonData_copies [of lim "MAX_SNAPSHOT_DEPTH + 1"]
    unfolding copies_def snapshot_data_def by simp
  then show ?thesis using snapshot_within [of lim v k] by blast
qed

theorem snapshot_round_trip_witness:
  "snapshot_data defaultSnapshotLimits (plain (JObj [(js ''a'', JArr [JNull])])) = Some (JObj [(js ''a'', JArr [JNull])])"
  using snapshot_round_trip [of defaultSnapshotLimits JNull example_value "JObj [(js ''a'', JArr [JNull])]"]
    example_value_snapshot by simp

end
