(* ===== verification/Correlation.thy ===== *)
theory Correlation
  imports Data_Snapshot Protocol_Schemas
begin

text \<open>
  \<^verbatim>\<open>browser-extension-core/src/inspectCorrelationStore.ts\<close> and
  \<^verbatim>\<open>trustedIdePeerContext.ts\<close>: which inspect message belongs to which devtools panel, tab and
  window, which IDE answered it, and what that IDE's answers allow the panel to ask for. A
  correlation is a mutable object: \<open>cor_oid\<close> is its identity; a trusted peer is a frozen object
  whose identity is \<open>tp_ref\<close>, and the \<^verbatim>\<open>WeakSet\<close> of the module is the list of the peers created.
  The private symbol properties of an authority are the revision fields. Values from outside
  are \<open>js_value\<close>s; the decoding of JSON by the schemas is the parameter \<open>ce_decode\<close>, followed by
  the modelled refinements.
\<close>

definition DEVTOOLS_CHANNEL_MAX_LENGTH :: nat where "DEVTOOLS_CHANNEL_MAX_LENGTH = 128"
definition DEFAULT_MAX_INSPECT_CORRELATIONS :: int where "DEFAULT_MAX_INSPECT_CORRELATIONS = 256"

subsection \<open>Guards\<close>

text \<open>A type guard of the code is a function that returns the narrowed value.\<close>

definition channel_char :: "code_unit \<Rightarrow> bool" where
  "channel_char c \<longleftrightarrow> is_upper c \<or> is_lower c \<or> is_digit c \<or> c = 0x2e \<or> c = 0x5f \<or> c = 0x2d"

definition isValidDevtoolsChannel :: "json option \<Rightarrow> jstring option" where
  "isValidDevtoolsChannel value = (case value of
     Some (JStr s) \<Rightarrow> if 0 < length s \<and> length s \<le> DEVTOOLS_CHANNEL_MAX_LENGTH \<and> list_all channel_char s
       then Some s else None
   | _ \<Rightarrow> None)"

definition isOpaqueId :: "json option \<Rightarrow> jstring option" where
  "isOpaqueId value = (case value of
     Some (JStr s) \<Rightarrow> if 0 < length s \<and> length s \<le> 128 then Some s else None
   | _ \<Rightarrow> None)"

definition isBrowserId :: "json option \<Rightarrow> int option" where
  "isBrowserId value = (case value of
     Some (JNum (JInt n)) \<Rightarrow> if safe_int n \<and> 0 \<le> n then Some n else None
   | _ \<Rightarrow> None)"

definition isResolutionGeneration :: "json option \<Rightarrow> int option" where
  "isResolutionGeneration value = (case value of
     Some (JNum (JInt n)) \<Rightarrow>
       if safe_int n \<and> 0 \<le> n \<and> n \<le> lim_generation RESOLUTION_LIMITS then Some n else None
   | _ \<Rightarrow> None)"

subsection \<open>Trusted peers\<close>

record trusted_peer =
  tp_ref :: nat
  tp_windowId :: int
  tp_sessionId :: jstring
  tp_sourceId :: jstring

type_synonym trusted_set = "trusted_peer list"

datatype correlation_error = InvalidPeer | InvalidMaximum | InvalidCorrelation

definition createTransportTrustedIdePeerContext ::
  "json \<Rightarrow> json \<Rightarrow> json \<Rightarrow> trusted_set \<Rightarrow> correlation_error + trusted_peer \<times> trusted_set" where
  "createTransportTrustedIdePeerContext windowId sid sourceId trusted =
     (case (isBrowserId (Some windowId), isOpaqueId (Some sid), isOpaqueId (Some sourceId)) of
        (Some w, Some s, Some i) \<Rightarrow>
          (let context = \<lparr>tp_ref = length trusted, tp_windowId = w, tp_sessionId = s, tp_sourceId = i\<rparr>
           in Inr (context, trusted @ [context]))
      | _ \<Rightarrow> Inl InvalidPeer)"

definition isTrustedIdePeerContext :: "trusted_set \<Rightarrow> trusted_peer \<Rightarrow> bool" where
  "isTrustedIdePeerContext trusted p \<longleftrightarrow> p \<in> set trusted"

definition trustedIdePeerMatchesPayload :: "trusted_set \<Rightarrow> trusted_peer \<Rightarrow> jstring \<Rightarrow> jstring \<Rightarrow> bool" where
  "trustedIdePeerMatchesPayload trusted context sid sourceId \<longleftrightarrow>
     isTrustedIdePeerContext trusted context \<and>
     tp_sessionId context = sid \<and> tp_sourceId context = sourceId"

subsection \<open>State\<close>

record correlation =
  cor_oid :: nat
  cor_channel :: jstring
  cor_tabId :: int
  cor_windowId :: int
  cor_expected :: "jstring list"
  cor_sourceRevision :: nat
  cor_rulesRevision :: nat
  cor_resGen :: int
  cor_rulesGen :: int
  cor_sessionId :: "jstring option"
  cor_sourceId :: "jstring option"
  cor_document :: "source_document option"
  cor_sourcePeer :: "trusted_peer option"
  cor_rulesPeer :: "trusted_peer option"
  cor_matchIds :: "jstring list"
  cor_openIds :: "jstring list"

record correlation_store =
  cs_correlations :: "(jstring, correlation) jmap"
  cs_sequence :: nat
  cs_maximum :: nat
  cs_next_oid :: nat

text \<open>\<open>SourceOpenAuthority\<close> has a match id, \<open>PresentationSettingsAuthority\<close> has none.\<close>

record source_authority =
  sa_channel :: jstring
  sa_messageId :: jstring
  sa_resGen :: int
  sa_matchId :: "jstring option"
  sa_tabId :: int
  sa_windowId :: int
  sa_context :: trusted_peer
  sa_revision :: nat

record rules_authority =
  ra_channel :: jstring
  ra_messageId :: jstring
  ra_rulesGen :: int
  ra_openId :: jstring
  ra_tabId :: int
  ra_windowId :: int
  ra_context :: trusted_peer
  ra_revision :: nat

record correlation_route =
  cr_channel :: jstring
  cr_messageId :: jstring
  cr_tabId :: int
  cr_windowId :: int
  cr_expected :: "jstring list"

record correlation_env =
  ce_schema :: schema_env
  ce_decode :: "json \<Rightarrow> pin_op_message option"

fun new_InspectCorrelationStore :: "jsnum option \<Rightarrow> correlation_error + correlation_store" where
  "new_InspectCorrelationStore maximumSize =
     (case (case maximumSize of None \<Rightarrow> JInt DEFAULT_MAX_INSPECT_CORRELATIONS | Some m \<Rightarrow> m) of
        JNonInt \<Rightarrow> Inl InvalidMaximum
      | JInt m \<Rightarrow> if \<not> safe_int m \<or> m \<le> 0 \<or> m > 1024 then Inl InvalidMaximum
          else Inr \<lparr>cs_correlations = [], cs_sequence = 0, cs_maximum = nat m, cs_next_oid = 0\<rparr>)"

subsection \<open>Helpers\<close>

definition nextAuthorityRevision :: "correlation_store \<Rightarrow> nat \<times> correlation_store" where
  "nextAuthorityRevision st =
     (let st' = st\<lparr>cs_sequence := cs_sequence st + 1\<rparr> in (cs_sequence st', st'))"

text \<open>Assigning to the fields of the stored object; deleting it and setting it again.\<close>

definition put_correlation :: "jstring \<Rightarrow> correlation \<Rightarrow> correlation_store \<Rightarrow> correlation_store" where
  "put_correlation mid c st = st\<lparr>cs_correlations := jset mid c (cs_correlations st)\<rparr>"

definition touch_correlation :: "jstring \<Rightarrow> correlation \<Rightarrow> correlation_store \<Rightarrow> correlation_store" where
  "touch_correlation mid c st = st\<lparr>cs_correlations := jset mid c (jdel mid (cs_correlations st))\<rparr>"

definition find_correlation :: "correlation_store \<Rightarrow> jstring \<Rightarrow> correlation option" where
  "find_correlation st mid = jget (cs_correlations st) mid"

definition correlationMatchesPeer :: "correlation \<Rightarrow> trusted_peer \<Rightarrow> bool" where
  "correlationMatchesPeer c p \<longleftrightarrow> cor_windowId c = tp_windowId p \<and>
     cor_sessionId c = Some (tp_sessionId p) \<and> cor_sourceId c = Some (tp_sourceId p)"

definition bound_elsewhere :: "correlation \<Rightarrow> trusted_peer \<Rightarrow> bool" where
  "bound_elsewhere c p \<longleftrightarrow> cor_sourceId c \<noteq> None \<and>
     (cor_sourceId c \<noteq> Some (tp_sourceId p) \<or> cor_sessionId c \<noteq> Some (tp_sessionId p))"

definition rulesSourcesCoverExpectedRefs :: "rules_sources_message \<Rightarrow> jstring list \<Rightarrow> bool" where
  "rulesSourcesCoverExpectedRefs m expected \<longleftrightarrow>
     int (length (rsm_sources m)) + rsm_unresolvedRuleCount m = int (length expected) \<and>
     list_all (\<lambda>s. rs_ruleRef s \<in> set expected) (rsm_sources m)"

definition matchesCurrentAuthority ::
  "trusted_set \<Rightarrow> source_matches_message \<Rightarrow> correlation \<Rightarrow> trusted_peer \<Rightarrow> bool" where
  "matchesCurrentAuthority trusted m c p \<longleftrightarrow>
     cor_resGen c = sm_resolutionGeneration m \<and> cor_sourcePeer c \<noteq> None \<and>
     correlationMatchesPeer c p \<and>
     trustedIdePeerMatchesPayload trusted p (sessionId m) (sm_sourceId m) \<and>
     (case cor_document c of None \<Rightarrow> False
      | Some d \<Rightarrow> doc_label d = doc_label (sm_document m) \<and> doc_languageId d = doc_languageId (sm_document m))"

text \<open>\<^verbatim>\<open>safeParse\<close> of the message schemas.\<close>

definition parse_with :: "correlation_env \<Rightarrow> (pin_op_message \<Rightarrow> 'a option) \<Rightarrow> json \<Rightarrow> 'a option" where
  "parse_with env pick j = Option.bind (ce_decode env j) (\<lambda>m.
     if message_ok (ce_schema env) m then pick m else None)"

fun as_resolution :: "pin_op_message \<Rightarrow> resolution_message option" where
  "as_resolution (Resolution m) = Some m" | "as_resolution _ = None"

fun as_rules_sources :: "pin_op_message \<Rightarrow> rules_sources_message option" where
  "as_rules_sources (RulesSources m) = Some m" | "as_rules_sources _ = None"

fun as_navigation_state :: "pin_op_message \<Rightarrow> navigation_state_message option" where
  "as_navigation_state (SourceNavigationState m) = Some m" | "as_navigation_state _ = None"

fun as_source_matches :: "pin_op_message \<Rightarrow> source_matches_message option" where
  "as_source_matches (SourceMatches m) = Some m" | "as_source_matches _ = None"

subsection \<open>Recording an inspect message\<close>

definition record_inspect :: "correlation_env \<Rightarrow> jstring \<Rightarrow> jstring \<Rightarrow> jsnum \<Rightarrow> jsnum \<Rightarrow> evidence_batch \<Rightarrow>
    correlation_store \<Rightarrow> correlation_error + correlation_store" where
  "record_inspect env channel mid tabId windowId ruleEvidence st =
     (case (isValidDevtoolsChannel (Some (JStr channel)), isOpaqueId (Some (JStr mid)),
            isBrowserId (Some (JNum tabId)), isBrowserId (Some (JNum windowId)),
            evidence_batch_ok (ce_schema env) ruleEvidence) of
        (Some channel', Some mid', Some tab, Some window, True) \<Rightarrow>
          (let expected = set_of (map ev_ruleRef (eb_rules ruleEvidence));
               kept = filter (\<lambda>(_, c). \<not> (cor_channel c = channel \<or> cor_tabId c = tab)) (cs_correlations st);
               (sourceRevision, st1) = nextAuthorityRevision (st\<lparr>cs_correlations := jdel mid kept\<rparr>);
               (rulesRevision, st2) = nextAuthorityRevision st1;
               c = \<lparr>cor_oid = cs_next_oid st2, cor_channel = channel, cor_tabId = tab,
                    cor_windowId = window, cor_expected = expected,
                    cor_sourceRevision = sourceRevision, cor_rulesRevision = rulesRevision,
                    cor_resGen = -1, cor_rulesGen = -1, cor_sessionId = None, cor_sourceId = None,
                    cor_document = None, cor_sourcePeer = None, cor_rulesPeer = None,
                    cor_matchIds = [], cor_openIds = []\<rparr>
           in Inr (st2\<lparr>cs_correlations := evict (cs_maximum st2) (jset mid c (cs_correlations st2)),
                      cs_next_oid := cs_next_oid st2 + 1\<rparr>))
      | _ \<Rightarrow> Inl InvalidCorrelation)"

subsection \<open>Answers of the IDE\<close>

definition accept_resolution :: "correlation_env \<Rightarrow> trusted_set \<Rightarrow> js_value \<Rightarrow> trusted_peer \<Rightarrow>
    correlation_store \<Rightarrow> jstring option \<times> correlation_store" where
  "accept_resolution env trusted message p st =
     (if \<not> isTrustedIdePeerContext trusted p then (None, st)
      else case parseProtocolData message (parse_with env as_resolution) of
        None \<Rightarrow> (None, st)
      | Some m \<Rightarrow> (case find_correlation st (inspectMessageId m) of
          None \<Rightarrow> (None, st)
        | Some c \<Rightarrow>
            if cor_windowId c \<noteq> tp_windowId p \<or>
               \<not> trustedIdePeerMatchesPayload trusted p (sessionId m) (res_sourceId m) \<or>
               res_resolutionGeneration m \<le> cor_resGen c \<or> bound_elsewhere c p
            then (None, st)
            else (let (rev, st1) = nextAuthorityRevision st
                  in (Some (cor_channel c), touch_correlation (inspectMessageId m)
                       (c\<lparr>cor_resGen := res_resolutionGeneration m,
                          cor_sessionId := Some (tp_sessionId p), cor_sourceId := Some (tp_sourceId p),
                          cor_document := res_document m, cor_sourcePeer := Some p,
                          cor_matchIds := [], cor_sourceRevision := rev\<rparr>) st1))))"

definition routeForInspect :: "json \<Rightarrow> correlation_store \<Rightarrow> correlation_route option" where
  "routeForInspect mid st = Option.bind (isOpaqueId (Some mid)) (\<lambda>mid.
     map_option (\<lambda>c. \<lparr>cr_channel = cor_channel c, cr_messageId = mid, cr_tabId = cor_tabId c,
         cr_windowId = cor_windowId c, cr_expected = cor_expected c\<rparr>) (find_correlation st mid))"

text \<open>
  \<open>PreparedRulesSources\<close>: what the closures of \<^verbatim>\<open>commit\<close> and \<^verbatim>\<open>rollback\<close> capture.
\<close>

record prepared_rules =
  pp_pending :: bool
  pp_channel :: jstring
  pp_oid :: nat
  pp_message :: rules_sources_message
  pp_peer :: trusted_peer
  pp_previousGen :: int
  pp_previousRevision :: nat

definition prepare_rules_sources :: "correlation_env \<Rightarrow> trusted_set \<Rightarrow> js_value \<Rightarrow> trusted_peer \<Rightarrow>
    correlation_store \<Rightarrow> prepared_rules option" where
  "prepare_rules_sources env trusted message p st =
     (if \<not> isTrustedIdePeerContext trusted p then None
      else case parseRulesSourcesProtocolData message (parse_with env as_rules_sources) of
        None \<Rightarrow> None
      | Some m \<Rightarrow> (case find_correlation st (inspectMessageId m) of
          None \<Rightarrow> None
        | Some c \<Rightarrow>
            if cor_windowId c \<noteq> tp_windowId p \<or>
               \<not> trustedIdePeerMatchesPayload trusted p (sessionId m) (rsm_sourceId m) \<or>
               bound_elsewhere c p \<or>
               (if cor_rulesGen c < 0 then rsm_rulesGeneration m \<noteq> 1
                else rsm_rulesGeneration m \<le> cor_rulesGen c) \<or>
               \<not> rulesSourcesCoverExpectedRefs m (cor_expected c)
            then None
            else Some \<lparr>pp_pending = True, pp_channel = cor_channel c, pp_oid = cor_oid c,
                   pp_message = m, pp_peer = p, pp_previousGen = cor_rulesGen c,
                   pp_previousRevision = cor_rulesRevision c\<rparr>))"

definition commit_rules_sources :: "trusted_set \<Rightarrow> prepared_rules \<Rightarrow> correlation_store \<Rightarrow>
    bool \<times> prepared_rules \<times> correlation_store" where
  "commit_rules_sources trusted pp st =
     (if \<not> pp_pending pp then (False, pp, st)
      else let pp' = pp\<lparr>pp_pending := False\<rparr>; m = pp_message pp; p = pp_peer pp
        in (case find_correlation st (inspectMessageId m) of
              None \<Rightarrow> (False, pp', st)
            | Some c \<Rightarrow>
                if cor_oid c \<noteq> pp_oid pp \<or> cor_rulesGen c \<noteq> pp_previousGen pp \<or>
                   cor_rulesRevision c \<noteq> pp_previousRevision pp \<or>
                   cor_windowId c \<noteq> tp_windowId p \<or>
                   \<not> trustedIdePeerMatchesPayload trusted p (sessionId m) (rsm_sourceId m) \<or>
                   bound_elsewhere c p
                then (False, pp', st)
                else (let (rev, st1) = nextAuthorityRevision st
                      in (True, pp', touch_correlation (inspectMessageId m)
                           (c\<lparr>cor_sessionId := Some (tp_sessionId p), cor_sourceId := Some (tp_sourceId p),
                              cor_rulesGen := rsm_rulesGeneration m, cor_rulesPeer := Some p,
                              cor_openIds := set_of (map rs_openAuthorityId (rsm_sources m)),
                              cor_rulesRevision := rev\<rparr>) st1))))"

definition rollback_rules_sources :: "prepared_rules \<Rightarrow> prepared_rules" where
  "rollback_rules_sources pp = pp\<lparr>pp_pending := False\<rparr>"

definition acceptRulesSources :: "correlation_env \<Rightarrow> trusted_set \<Rightarrow> js_value \<Rightarrow> trusted_peer \<Rightarrow>
    correlation_store \<Rightarrow> jstring option \<times> correlation_store" where
  "acceptRulesSources env trusted message p st =
     (case prepare_rules_sources env trusted message p st of
        None \<Rightarrow> (None, st)
      | Some pp \<Rightarrow> (case commit_rules_sources trusted pp st of
          (ok, _, st') \<Rightarrow> (if ok then Some (pp_channel pp) else None, st')))"

definition acceptNavigationState :: "correlation_env \<Rightarrow> trusted_set \<Rightarrow> js_value \<Rightarrow> trusted_peer \<Rightarrow>
    correlation_store \<Rightarrow> jstring option" where
  "acceptNavigationState env trusted message p st =
     (if \<not> isTrustedIdePeerContext trusted p then None
      else case parseProtocolData message (parse_with env as_navigation_state) of
        None \<Rightarrow> None
      | Some m \<Rightarrow> (case find_correlation st (inspectMessageId m) of
          None \<Rightarrow> None
        | Some c \<Rightarrow>
            if \<not> correlationMatchesPeer c p \<or>
               \<not> trustedIdePeerMatchesPayload trusted p (sessionId m) (ns_sourceId m) \<or>
               cor_resGen c \<noteq> ns_resolutionGeneration m \<or>
               cor_sessionId c = None \<or> cor_sourceId c = None
            then None else Some (cor_channel c)))"

fun collect_match_ids :: "jstring list \<Rightarrow> source_excerpt list \<Rightarrow> jstring list option" where
  "collect_match_ids seen [] = Some seen"
| "collect_match_ids seen (x # xs) =
     (if ex_matchId x \<in> set seen then None else collect_match_ids (set_add (ex_matchId x) seen) xs)"

definition acceptSourceMatches :: "correlation_env \<Rightarrow> trusted_set \<Rightarrow> js_value \<Rightarrow> trusted_peer \<Rightarrow>
    correlation_store \<Rightarrow> jstring option \<times> correlation_store" where
  "acceptSourceMatches env trusted message p st =
     (if \<not> isTrustedIdePeerContext trusted p then (None, st)
      else case parseProtocolData message (parse_with env as_source_matches) of
        None \<Rightarrow> (None, st)
      | Some m \<Rightarrow> (case find_correlation st (inspectMessageId m) of
          None \<Rightarrow> (None, st)
        | Some c \<Rightarrow>
            if cor_windowId c \<noteq> tp_windowId p \<or>
               \<not> trustedIdePeerMatchesPayload trusted p (sessionId m) (sm_sourceId m) \<or>
               cor_sourceId c \<noteq> None \<and> \<not> correlationMatchesPeer c p
            then (None, st)
            else if sm_matches m = [] \<and> cor_resGen c < 0
            then (let (rev, st1) = nextAuthorityRevision st
                  in (Some (cor_channel c), put_correlation (inspectMessageId m)
                       (c\<lparr>cor_matchIds := [], cor_sourceRevision := rev\<rparr>) st1))
            else if \<not> matchesCurrentAuthority trusted m c p then (None, st)
            else (case collect_match_ids [] (sm_matches m) of
                None \<Rightarrow> (None, st)
              | Some ids \<Rightarrow> (let (rev, st1) = nextAuthorityRevision st
                  in (Some (cor_channel c), put_correlation (inspectMessageId m)
                       (c\<lparr>cor_matchIds := ids,
                          cor_sourcePeer := (if sm_matches m \<noteq> [] then Some p else cor_sourcePeer c),
                          cor_sourceRevision := rev\<rparr>) st1)))))"

subsection \<open>Requests of the panel\<close>

definition authorizeSourceOpen :: "trusted_set \<Rightarrow> js_value \<Rightarrow> correlation_store \<Rightarrow> source_authority option" where
  "authorizeSourceOpen trusted input st =
     Option.bind (snapshotExactDataRecord input [js ''channel'', js ''tabId'', js ''windowId'',
        js ''inspectMessageId'', js ''resolutionGeneration'', js ''matchId'']) (\<lambda>r.
     Option.bind (isValidDevtoolsChannel (jget r (js ''channel''))) (\<lambda>channel.
     Option.bind (isBrowserId (jget r (js ''tabId''))) (\<lambda>tabId.
     Option.bind (isBrowserId (jget r (js ''windowId''))) (\<lambda>windowId.
     Option.bind (isOpaqueId (jget r (js ''inspectMessageId''))) (\<lambda>mid.
     Option.bind (isResolutionGeneration (jget r (js ''resolutionGeneration''))) (\<lambda>gen.
     Option.bind (isOpaqueId (jget r (js ''matchId''))) (\<lambda>matchId.
     Option.bind (find_correlation st mid) (\<lambda>c.
     Option.bind (cor_sourcePeer c) (\<lambda>context.
       if \<not> isTrustedIdePeerContext trusted context \<or> cor_channel c \<noteq> channel \<or> cor_tabId c \<noteq> tabId \<or>
          cor_windowId c \<noteq> windowId \<or> cor_resGen c \<noteq> gen \<or> matchId \<notin> set (cor_matchIds c)
       then None
       else Some \<lparr>sa_channel = cor_channel c, sa_messageId = mid, sa_resGen = cor_resGen c,
              sa_matchId = Some matchId, sa_tabId = cor_tabId c, sa_windowId = cor_windowId c,
              sa_context = context, sa_revision = cor_sourceRevision c\<rparr>)))))))))"

definition authorizePresentationSettings ::
  "trusted_set \<Rightarrow> js_value \<Rightarrow> correlation_store \<Rightarrow> source_authority option" where
  "authorizePresentationSettings trusted input st =
     Option.bind (snapshotExactDataRecord input [js ''channel'', js ''tabId'', js ''windowId'',
        js ''inspectMessageId'']) (\<lambda>r.
     Option.bind (isValidDevtoolsChannel (jget r (js ''channel''))) (\<lambda>channel.
     Option.bind (isBrowserId (jget r (js ''tabId''))) (\<lambda>tabId.
     Option.bind (isBrowserId (jget r (js ''windowId''))) (\<lambda>windowId.
     Option.bind (isOpaqueId (jget r (js ''inspectMessageId''))) (\<lambda>mid.
     Option.bind (find_correlation st mid) (\<lambda>c.
     Option.bind (cor_sourcePeer c) (\<lambda>context.
       if \<not> isTrustedIdePeerContext trusted context \<or> cor_channel c \<noteq> channel \<or> cor_tabId c \<noteq> tabId \<or>
          cor_windowId c \<noteq> windowId \<or> cor_resGen c < 0
       then None
       else Some \<lparr>sa_channel = cor_channel c, sa_messageId = mid, sa_resGen = cor_resGen c,
              sa_matchId = None, sa_tabId = cor_tabId c, sa_windowId = cor_windowId c,
              sa_context = context, sa_revision = cor_sourceRevision c\<rparr>)))))))"

definition authorize_rules_open :: "trusted_set \<Rightarrow> js_value \<Rightarrow> correlation_store \<Rightarrow> rules_authority option" where
  "authorize_rules_open trusted input st =
     Option.bind (snapshotExactDataRecord input [js ''channel'', js ''tabId'', js ''windowId'',
        js ''inspectMessageId'', js ''rulesGeneration'', js ''openAuthorityId'']) (\<lambda>r.
     Option.bind (isValidDevtoolsChannel (jget r (js ''channel''))) (\<lambda>channel.
     Option.bind (isBrowserId (jget r (js ''tabId''))) (\<lambda>tabId.
     Option.bind (isBrowserId (jget r (js ''windowId''))) (\<lambda>windowId.
     Option.bind (isOpaqueId (jget r (js ''inspectMessageId''))) (\<lambda>mid.
     Option.bind (isResolutionGeneration (jget r (js ''rulesGeneration''))) (\<lambda>gen.
     Option.bind (isOpaqueId (jget r (js ''openAuthorityId''))) (\<lambda>openId.
     Option.bind (find_correlation st mid) (\<lambda>c.
     Option.bind (cor_rulesPeer c) (\<lambda>context.
       if \<not> isTrustedIdePeerContext trusted context \<or> cor_channel c \<noteq> channel \<or> cor_tabId c \<noteq> tabId \<or>
          cor_windowId c \<noteq> windowId \<or> cor_rulesGen c \<noteq> gen \<or> openId \<notin> set (cor_openIds c)
       then None
       else Some \<lparr>ra_channel = cor_channel c, ra_messageId = mid, ra_rulesGen = cor_rulesGen c,
              ra_openId = openId, ra_tabId = cor_tabId c, ra_windowId = cor_windowId c,
              ra_context = context, ra_revision = cor_rulesRevision c\<rparr>)))))))))"

definition discard_inspect :: "jstring \<Rightarrow> correlation_store \<Rightarrow> correlation_store" where
  "discard_inspect mid st = st\<lparr>cs_correlations := jdel mid (cs_correlations st)\<rparr>"

definition discardSourcePresentationAuthority ::
  "source_authority \<Rightarrow> correlation_store \<Rightarrow> bool \<times> correlation_store" where
  "discardSourcePresentationAuthority a st =
     (case find_correlation st (sa_messageId a) of
        None \<Rightarrow> (False, st)
      | Some c \<Rightarrow>
          if cor_channel c \<noteq> sa_channel a \<or> cor_tabId c \<noteq> sa_tabId a \<or> cor_windowId c \<noteq> sa_windowId a \<or>
             cor_resGen c \<noteq> sa_resGen a \<or> cor_sourcePeer c \<noteq> Some (sa_context a) \<or>
             cor_sourceRevision c \<noteq> sa_revision a
          then (False, st) else (True, discard_inspect (sa_messageId a) st))"

definition discardRulesOpenAuthority :: "rules_authority \<Rightarrow> correlation_store \<Rightarrow> bool \<times> correlation_store" where
  "discardRulesOpenAuthority a st =
     (case find_correlation st (ra_messageId a) of
        None \<Rightarrow> (False, st)
      | Some c \<Rightarrow>
          if cor_channel c \<noteq> ra_channel a \<or> cor_tabId c \<noteq> ra_tabId a \<or> cor_windowId c \<noteq> ra_windowId a \<or>
             cor_rulesGen c \<noteq> ra_rulesGen a \<or> cor_rulesPeer c \<noteq> Some (ra_context a) \<or>
             ra_openId a \<notin> set (cor_openIds c) \<or> cor_rulesRevision c \<noteq> ra_revision a
          then (False, st) else (True, discard_inspect (ra_messageId a) st))"

definition authorizeNavigation :: "jstring \<Rightarrow> jstring \<Rightarrow> jsnum \<Rightarrow> jsnum \<Rightarrow> correlation_store \<Rightarrow> bool" where
  "authorizeNavigation channel mid gen tabId st =
     (case (isValidDevtoolsChannel (Some (JStr channel)), isOpaqueId (Some (JStr mid)),
            isResolutionGeneration (Some (JNum gen)), isBrowserId (Some (JNum tabId))) of
        (Some channel', Some mid', Some g, Some tab) \<Rightarrow>
          (case find_correlation st mid of
             None \<Rightarrow> False
           | Some c \<Rightarrow> cor_channel c = channel \<and> cor_resGen c = g \<and> cor_tabId c = tab)
      | _ \<Rightarrow> False)"

subsection \<open>Disposal\<close>

definition remove_correlations :: "(correlation \<Rightarrow> bool) \<Rightarrow> correlation_store \<Rightarrow> correlation_store" where
  "remove_correlations q st =
     st\<lparr>cs_correlations := filter (\<lambda>(_, c). \<not> q c) (cs_correlations st)\<rparr>"

definition disposeChannel :: "jstring \<Rightarrow> correlation_store \<Rightarrow> correlation_store" where
  "disposeChannel channel = remove_correlations (\<lambda>c. cor_channel c = channel)"

definition disposeTab :: "jsnum \<Rightarrow> correlation_store \<Rightarrow> correlation_store" where
  "disposeTab tabId st = (case isBrowserId (Some (JNum tabId)) of
     None \<Rightarrow> st | Some tab \<Rightarrow> remove_correlations (\<lambda>c. cor_tabId c = tab) st)"

definition disposeWindow :: "jsnum \<Rightarrow> correlation_store \<Rightarrow> correlation_store" where
  "disposeWindow windowId st = (case isBrowserId (Some (JNum windowId)) of
     None \<Rightarrow> st | Some window \<Rightarrow> remove_correlations (\<lambda>c. cor_windowId c = window) st)"

end
