(* ===== verification/Correlation_System.thy ===== *)
theory Correlation_System
  imports Correlation Effects
begin

text \<open>
  The correlation store with the trusted peers created and the prepared rules handed out, under
  every interleaving of its operations. Each operation is one of four moves of the store (none,
  removing correlations, updating one, recording one); the invariant and the evolution of the
  correlations are proved for the moves.
\<close>

subsection \<open>Well-formed correlations\<close>

definition peer_bound :: "trusted_set \<Rightarrow> correlation \<Rightarrow> trusted_peer \<Rightarrow> bool" where
  "peer_bound trusted c p \<longleftrightarrow> p \<in> set trusted \<and> correlationMatchesPeer c p"

definition correlation_ok :: "trusted_set \<Rightarrow> correlation \<Rightarrow> bool" where
  "correlation_ok trusted c \<longleftrightarrow>
     isValidDevtoolsChannel (Some (JStr (cor_channel c))) = Some (cor_channel c) \<and>
     isBrowserId (Some (JNum (JInt (cor_tabId c)))) = Some (cor_tabId c) \<and>
     isBrowserId (Some (JNum (JInt (cor_windowId c)))) = Some (cor_windowId c) \<and>
     (cor_sessionId c = None \<longleftrightarrow> cor_sourceId c = None) \<and>
     distinct (cor_expected c) \<and> distinct (cor_matchIds c) \<and> distinct (cor_openIds c) \<and>
     length (cor_openIds c) \<le> length (cor_expected c) \<and>
     (case cor_sourcePeer c of
        None \<Rightarrow> cor_resGen c = -1 \<and> cor_matchIds c = []
      | Some p \<Rightarrow> 0 \<le> cor_resGen c \<and> peer_bound trusted c p) \<and>
     (case cor_rulesPeer c of
        None \<Rightarrow> cor_rulesGen c = -1 \<and> cor_openIds c = []
      | Some p \<Rightarrow> 1 \<le> cor_rulesGen c \<and> peer_bound trusted c p)"

definition source_part :: "correlation \<Rightarrow> int \<times> source_document option \<times> trusted_peer option \<times> jstring list" where
  "source_part c = (cor_resGen c, cor_document c, cor_sourcePeer c, cor_matchIds c)"

definition rules_part :: "correlation \<Rightarrow> int \<times> trusted_peer option \<times> jstring list" where
  "rules_part c = (cor_rulesGen c, cor_rulesPeer c, cor_openIds c)"

text \<open>What may become of a correlation: its panel and its IDE stay, its generations grow, and a
  part that changed has a revision newer than \<open>k\<close>.\<close>

definition progresses :: "nat \<Rightarrow> correlation \<Rightarrow> correlation \<Rightarrow> bool" where
  "progresses k c c' \<longleftrightarrow>
     cor_oid c' = cor_oid c \<and> cor_channel c' = cor_channel c \<and> cor_tabId c' = cor_tabId c \<and>
     cor_windowId c' = cor_windowId c \<and> cor_expected c' = cor_expected c \<and>
     cor_resGen c \<le> cor_resGen c' \<and> cor_rulesGen c \<le> cor_rulesGen c' \<and>
     (cor_sourceId c \<noteq> None \<longrightarrow> cor_sourceId c' = cor_sourceId c \<and> cor_sessionId c' = cor_sessionId c) \<and>
     (cor_sourceRevision c' = cor_sourceRevision c \<and> source_part c' = source_part c \<or>
        k < cor_sourceRevision c') \<and>
     (cor_rulesRevision c' = cor_rulesRevision c \<and> rules_part c' = rules_part c \<or>
        k < cor_rulesRevision c')"

definition correlations_evolve :: "correlation_store \<Rightarrow> correlation_store \<Rightarrow> bool" where
  "correlations_evolve s t \<longleftrightarrow>
     cs_sequence s \<le> cs_sequence t \<and> cs_next_oid s \<le> cs_next_oid t \<and> cs_maximum t = cs_maximum s \<and>
     (\<forall>mid c'. find_correlation t mid = Some c' \<longrightarrow>
        (\<exists>c. find_correlation s mid = Some c \<and> progresses (cs_sequence s) c c') \<or>
        cs_next_oid s \<le> cor_oid c' \<and> cs_sequence s < cor_sourceRevision c' \<and>
        cs_sequence s < cor_rulesRevision c')"

definition store_ok :: "trusted_set \<Rightarrow> correlation_store \<Rightarrow> bool" where
  "store_ok trusted st \<longleftrightarrow>
     distinct (jkeys (cs_correlations st)) \<and> length (cs_correlations st) \<le> cs_maximum st \<and>
     0 < cs_maximum st \<and>
     (\<forall>mid c. find_correlation st mid = Some c \<longrightarrow> correlation_ok trusted c \<and>
        cor_oid c < cs_next_oid st \<and> cor_sourceRevision c \<le> cs_sequence st \<and>
        cor_rulesRevision c \<le> cs_sequence st) \<and>
     (\<forall>mid c mid' c'. find_correlation st mid = Some c \<longrightarrow> find_correlation st mid' = Some c' \<longrightarrow>
        cor_channel c = cor_channel c' \<or> cor_tabId c = cor_tabId c' \<longrightarrow> mid = mid')"

lemma progresses_refl: "progresses k c c"
  by (simp add: progresses_def)

lemma progresses_trans:
  "progresses k c c' \<Longrightarrow> progresses k' c' c'' \<Longrightarrow> k \<le> k' \<Longrightarrow> progresses k c c''"
  unfolding progresses_def by (elim conjE) (intro conjI; (fastforce)?)

interpretation correlations: effect_relation correlations_evolve
proof
  fix s t u :: correlation_store
  show "correlations_evolve s s" by (auto simp: correlations_evolve_def progresses_refl)
  assume st: "correlations_evolve s t" and tu: "correlations_evolve t u"
  have k: "cs_sequence s \<le> cs_sequence t" "cs_next_oid s \<le> cs_next_oid t"
    using st by (simp_all add: correlations_evolve_def)
  have "(\<exists>c. find_correlation s mid = Some c \<and> progresses (cs_sequence s) c c'') \<or>
      cs_next_oid s \<le> cor_oid c'' \<and> cs_sequence s < cor_sourceRevision c'' \<and>
      cs_sequence s < cor_rulesRevision c''" if at: "find_correlation u mid = Some c''" for mid c''
  proof -
    from tu at consider (old) c' where "find_correlation t mid = Some c'"
        "progresses (cs_sequence t) c' c''"
      | (new) "cs_next_oid t \<le> cor_oid c''" "cs_sequence t < cor_sourceRevision c''"
        "cs_sequence t < cor_rulesRevision c''"
      unfolding correlations_evolve_def by blast
    then show ?thesis
    proof cases
      case old
      from st old(1) consider (a) c where "find_correlation s mid = Some c"
          "progresses (cs_sequence s) c c'"
        | (b) "cs_next_oid s \<le> cor_oid c'" "cs_sequence s < cor_sourceRevision c'"
          "cs_sequence s < cor_rulesRevision c'"
        unfolding correlations_evolve_def by blast
      then show ?thesis
      proof cases
        case a
        then show ?thesis using progresses_trans [OF a(2) old(2) k(1)] by blast
      next
        case b
        then show ?thesis using old(2) k by (auto simp: progresses_def)
      qed
    qed (use k in simp)
  qed
  then show "correlations_evolve s u" using st tu by (auto simp: correlations_evolve_def)
qed

subsection \<open>Moves\<close>

definition moves :: "trusted_set \<Rightarrow> correlation_store \<Rightarrow> correlation_store \<Rightarrow> bool" where
  "moves trusted st st' \<longleftrightarrow> store_ok trusted st' \<and> correlations_evolve st st'"

lemma moves_refl: "store_ok trusted st \<Longrightarrow> moves trusted st st"
  by (simp add: moves_def correlations.R_refl)

lemma jget_filterD:
  assumes "distinct (jkeys m)" and "jget (filter q m) k = Some v" shows "jget m k = Some v"
proof -
  have "(k, v) \<in> set m" using map_of_SomeD [OF assms(2)] by simp
  then show ?thesis using assms(1) by simp
qed

lemma distinct_filter_keys: "distinct (jkeys m) \<Longrightarrow> distinct (jkeys (filter q m))"
  by (simp add: distinct_map_filter)

lemma moves_kept:
  assumes ok: "store_ok trusted st"
    and sub: "\<And>mid c. jget m mid = Some c \<Longrightarrow> find_correlation st mid = Some c"
    and m: "distinct (jkeys m)" "length m \<le> cs_maximum st"
  shows "moves trusted st (st\<lparr>cs_correlations := m\<rparr>)"
proof -
  have f: "find_correlation (st\<lparr>cs_correlations := m\<rparr>) mid = jget m mid" for mid
    by (simp add: find_correlation_def)
  have "store_ok trusted (st\<lparr>cs_correlations := m\<rparr>)"
    unfolding store_ok_def f
  proof (intro conjI allI impI)
    show "distinct (jkeys (cs_correlations (st\<lparr>cs_correlations := m\<rparr>)))" using m(1) by simp
    show "length (cs_correlations (st\<lparr>cs_correlations := m\<rparr>)) \<le> cs_maximum (st\<lparr>cs_correlations := m\<rparr>)"
      using m(2) by simp
    show "0 < cs_maximum (st\<lparr>cs_correlations := m\<rparr>)" using ok by (simp add: store_ok_def)
  next
    fix mid c assume "jget m mid = Some c"
    note s = sub [OF this]
    show "correlation_ok trusted c" "cor_oid c < cs_next_oid (st\<lparr>cs_correlations := m\<rparr>)"
      "cor_sourceRevision c \<le> cs_sequence (st\<lparr>cs_correlations := m\<rparr>)"
      "cor_rulesRevision c \<le> cs_sequence (st\<lparr>cs_correlations := m\<rparr>)"
      using ok s by (auto simp: store_ok_def)
  next
    fix i c j c' assume at: "jget m i = Some c" "jget m j = Some c'"
      and eq: "cor_channel c = cor_channel c' \<or> cor_tabId c = cor_tabId c'"
    show "i = j" using ok sub [OF at(1)] sub [OF at(2)] eq unfolding store_ok_def by blast
  qed
  moreover have "correlations_evolve st (st\<lparr>cs_correlations := m\<rparr>)"
    unfolding correlations_evolve_def f using sub progresses_refl by auto
  ultimately show ?thesis by (simp add: moves_def)
qed

lemma moves_filter:
  assumes "store_ok trusted st"
  shows "moves trusted st (st\<lparr>cs_correlations := filter q (cs_correlations st)\<rparr>)"
proof (rule moves_kept [OF assms])
  have d: "distinct (jkeys (cs_correlations st))" "length (cs_correlations st) \<le> cs_maximum st"
    using assms by (simp_all add: store_ok_def)
  show "jget (filter q (cs_correlations st)) mid = Some c \<Longrightarrow> find_correlation st mid = Some c" for mid c
    unfolding find_correlation_def by (rule jget_filterD [OF d(1)])
  show "distinct (jkeys (filter q (cs_correlations st)))" using d(1) by (rule distinct_filter_keys)
  show "length (filter q (cs_correlations st)) \<le> cs_maximum st"
    using d(2) length_filter_le order_trans by blast
qed

lemma moves_discard:
  assumes "store_ok trusted st" shows "moves trusted st (discard_inspect mid st)"
  unfolding discard_inspect_def
proof (rule moves_kept [OF assms])
  have d: "distinct (jkeys (cs_correlations st))" "length (cs_correlations st) \<le> cs_maximum st"
    using assms by (simp_all add: store_ok_def)
  show "distinct (jkeys (jdel mid (cs_correlations st)))" using d(1) by simp
  show "length (jdel mid (cs_correlations st)) \<le> cs_maximum st"
    by (rule order_trans [OF length_delete_le d(2)])
  show "find_correlation st i = Some c" if "jget (jdel mid (cs_correlations st)) i = Some c" for i c
    using that by (simp add: find_correlation_def split: if_splits)
qed

lemma moves_update:
  assumes ok: "store_ok trusted st" and at: "find_correlation st mid = Some c"
    and c': "progresses (cs_sequence st) c c'" "correlation_ok trusted c'"
      "cor_sourceRevision c' \<le> Suc (cs_sequence st)" "cor_rulesRevision c' \<le> Suc (cs_sequence st)"
    and m: "m = jset mid c' (cs_correlations st) \<or> m = jset mid c' (jdel mid (cs_correlations st))"
  shows "moves trusted st (st\<lparr>cs_sequence := Suc (cs_sequence st), cs_correlations := m\<rparr>)"
proof -
  let ?st = "st\<lparr>cs_sequence := Suc (cs_sequence st), cs_correlations := m\<rparr>"
  have d: "distinct (jkeys (cs_correlations st))" using ok by (simp add: store_ok_def)
  have k: "mid \<in> set (jkeys (cs_correlations st))" using at unfolding find_correlation_def by (rule jget_SomeD)
  have f: "find_correlation ?st i = (if i = mid then Some c' else find_correlation st i)" for i
    using m by (auto simp: find_correlation_def)
  have dm: "distinct (jkeys m)" using m d by (auto simp: distinct_jset)
  have "jkeys m = set_add mid (jkeys (cs_correlations st)) \<or>
      jkeys m = set_add mid (set_remove mid (jkeys (cs_correlations st)))"
    using m by (elim disjE) (simp_all only: jkeys_jset jkeys_jdel simp_thms)
  then have "set (jkeys m) = set (jkeys (cs_correlations st))"
    using k by (elim disjE) (simp_all only: set_set_add set_set_remove insert_absorb insert_Diff)
  then have "length (jkeys m) = length (jkeys (cs_correlations st))"
    by (simp only: distinct_card [OF dm, symmetric] distinct_card [OF d, symmetric])
  then have len: "length m \<le> cs_maximum st" using ok by (simp add: store_ok_def)
  have same: "cor_oid c' = cor_oid c" "cor_channel c' = cor_channel c" "cor_tabId c' = cor_tabId c"
    using c'(1) by (simp_all add: progresses_def)
  have each: "correlation_ok trusted x \<and> cor_oid x < cs_next_oid st \<and>
      cor_sourceRevision x \<le> Suc (cs_sequence st) \<and> cor_rulesRevision x \<le> Suc (cs_sequence st)"
    if "find_correlation ?st i = Some x" for i x
  proof (cases "i = mid")
    case True
    have "cor_oid c < cs_next_oid st" using ok at by (auto simp: store_ok_def)
    then show ?thesis using True that c' same by (simp add: f)
  next
    case False
    then have "find_correlation st i = Some x" using that by (simp add: f)
    then have "correlation_ok trusted x \<and> cor_oid x < cs_next_oid st \<and>
        cor_sourceRevision x \<le> cs_sequence st \<and> cor_rulesRevision x \<le> cs_sequence st"
      using ok by (simp add: store_ok_def)
    then show ?thesis by simp
  qed
  have own: "\<exists>y. find_correlation st i = Some y \<and> cor_channel y = cor_channel x \<and> cor_tabId y = cor_tabId x"
    if "find_correlation ?st i = Some x" for i x
    using that at same unfolding f by (auto split: if_splits)
  have uniq: "\<forall>i c j c'. find_correlation st i = Some c \<longrightarrow> find_correlation st j = Some c' \<longrightarrow>
      cor_channel c = cor_channel c' \<or> cor_tabId c = cor_tabId c' \<longrightarrow> i = j"
    using ok by (simp add: store_ok_def)
  have "i = j" if "find_correlation ?st i = Some x" "find_correlation ?st j = Some y"
      "cor_channel x = cor_channel y \<or> cor_tabId x = cor_tabId y" for i j x y
    using own [OF that(1)] own [OF that(2)] that(3) uniq by metis
  then have "store_ok trusted ?st"
    using dm len each ok unfolding store_ok_def by auto
  moreover have "correlations_evolve st ?st"
    unfolding correlations_evolve_def f using c'(1) at progresses_refl by auto
  ultimately show ?thesis by (simp add: moves_def)
qed

subsection \<open>Recording\<close>

definition fresh_correlation :: "correlation_store \<Rightarrow> jstring \<Rightarrow> int \<Rightarrow> int \<Rightarrow> evidence_batch \<Rightarrow> correlation" where
  "fresh_correlation st channel tab window b =
     \<lparr>cor_oid = cs_next_oid st, cor_channel = channel, cor_tabId = tab, cor_windowId = window,
      cor_expected = set_of (map ev_ruleRef (eb_rules b)), cor_sourceRevision = Suc (cs_sequence st),
      cor_rulesRevision = Suc (Suc (cs_sequence st)), cor_resGen = -1, cor_rulesGen = -1,
      cor_sessionId = None, cor_sourceId = None, cor_document = None, cor_sourcePeer = None,
      cor_rulesPeer = None, cor_matchIds = [], cor_openIds = []\<rparr>"

definition recordable :: "correlation_env \<Rightarrow> jstring \<Rightarrow> jstring \<Rightarrow> jsnum \<Rightarrow> jsnum \<Rightarrow> evidence_batch \<Rightarrow> bool" where
  "recordable env channel mid tabId windowId b \<longleftrightarrow>
     isValidDevtoolsChannel (Some (JStr channel)) \<noteq> None \<and> isOpaqueId (Some (JStr mid)) \<noteq> None \<and>
     isBrowserId (Some (JNum tabId)) \<noteq> None \<and> isBrowserId (Some (JNum windowId)) \<noteq> None \<and>
     evidence_batch_ok (ce_schema env) b"

lemma isBrowserId_SomeD: "isBrowserId v = Some n \<Longrightarrow> v = Some (JNum (JInt n)) \<and> safe_int n \<and> 0 \<le> n"
  by (auto simp: isBrowserId_def split: option.splits json.splits jsnum.splits if_splits)

lemma isValidDevtoolsChannel_SomeD: "isValidDevtoolsChannel v = Some s \<Longrightarrow> v = Some (JStr s)"
  by (auto simp: isValidDevtoolsChannel_def split: option.splits json.splits if_splits)

lemma record_inspect_eq:
  "record_inspect env channel mid tabId windowId b st =
     (if recordable env channel mid tabId windowId b
      then let tab = the (isBrowserId (Some (JNum tabId))); window = the (isBrowserId (Some (JNum windowId)));
             kept = filter (\<lambda>(_, c). \<not> (cor_channel c = channel \<or> cor_tabId c = tab)) (cs_correlations st)
           in Inr (st\<lparr>cs_correlations := evict (cs_maximum st) (jset mid (fresh_correlation st channel tab window b)
                        (jdel mid kept)),
                     cs_sequence := cs_sequence st + 2, cs_next_oid := cs_next_oid st + 1\<rparr>)
      else Inl InvalidCorrelation)"
  unfolding record_inspect_def recordable_def
  by (auto simp: Let_def nextAuthorityRevision_def fresh_correlation_def split: option.splits)

lemma jset_absent: "k \<notin> set (jkeys m) \<Longrightarrow> jset k v m = m @ [(k, v)]"
  by (induction m) auto

lemma record_effect:
  assumes ok: "store_ok trusted st"
    and r: "record_inspect env channel mid (JInt tab) (JInt window) b st = Inr st'"
  shows "find_correlation st' mid = Some (fresh_correlation st channel tab window b)"
    and "find_correlation st' i = Some c \<Longrightarrow> i \<noteq> mid \<Longrightarrow>
      find_correlation st i = Some c \<and> cor_channel c \<noteq> channel \<and> cor_tabId c \<noteq> tab"
    and "distinct (jkeys (cs_correlations st'))" and "length (cs_correlations st') \<le> cs_maximum st"
    and "cs_sequence st' = cs_sequence st + 2" and "cs_next_oid st' = cs_next_oid st + 1"
    and "cs_maximum st' = cs_maximum st"
    and "correlation_ok trusted (fresh_correlation st channel tab window b)"
proof -
  define kept where "kept = jdel mid (filter (\<lambda>(_, c). \<not> (cor_channel c = channel \<or> cor_tabId c = tab))
    (cs_correlations st))"
  let ?c = "fresh_correlation st channel tab window b"
  have rec: "recordable env channel mid (JInt tab) (JInt window) b" using r
    by (simp add: record_inspect_eq split: if_splits)
  then have "the (isBrowserId (Some (JNum (JInt tab)))) = tab"
      "the (isBrowserId (Some (JNum (JInt window)))) = window"
    by (auto simp: recordable_def dest: isBrowserId_SomeD)
  with r have st': "st' = st\<lparr>cs_correlations := evict (cs_maximum st) (jset mid ?c kept),
      cs_sequence := cs_sequence st + 2, cs_next_oid := cs_next_oid st + 1\<rparr>"
    by (auto simp: record_inspect_eq kept_def Let_def split: if_splits)
  show "correlation_ok trusted ?c"
    using rec unfolding recordable_def correlation_ok_def fresh_correlation_def
    by (auto dest: isBrowserId_SomeD isValidDevtoolsChannel_SomeD)
  have d: "distinct (jkeys (cs_correlations st))" and pos: "0 < cs_maximum st"
    using ok by (simp_all add: store_ok_def)
  have dk: "distinct (jkeys kept)" unfolding kept_def
    using distinct_filter_keys [OF d] by simp
  have absent: "mid \<notin> set (jkeys kept)" by (simp only: kept_def jkeys_jdel set_set_remove) simp
  have full: "jset mid ?c kept = kept @ [(mid, ?c)]" by (rule jset_absent [OF absent])
  have df: "distinct (jkeys (kept @ [(mid, ?c)]))" using dk absent by simp
  show "find_correlation st' mid = Some ?c"
    using evict_keeps_last [OF df pos] by (simp add: st' find_correlation_def full)
  show "find_correlation st i = Some c \<and> cor_channel c \<noteq> channel \<and> cor_tabId c \<noteq> tab"
    if at: "find_correlation st' i = Some c" and i: "i \<noteq> mid"
  proof -
    have "jget (evict (cs_maximum st) (jset mid ?c kept)) i = Some c"
      using at by (simp add: find_correlation_def st')
    then have "jget (jset mid ?c kept) i = Some c" using evict_subset df full by metis
    then have k: "jget (filter (\<lambda>(_, c). \<not> (cor_channel c = channel \<or> cor_tabId c = tab))
        (cs_correlations st)) i = Some c" using i by (simp add: kept_def)
    show ?thesis using jget_filterD [OF d k] map_of_SomeD [OF k] by (simp add: find_correlation_def)
  qed
  show "distinct (jkeys (cs_correlations st'))" using distinct_evict [OF df] by (simp add: st' full)
  show "length (cs_correlations st') \<le> cs_maximum st" using length_evict [OF df] by (simp add: st' full)
qed (use r in \<open>auto simp: record_inspect_eq Let_def split: if_splits\<close>)

lemma record_inspect_numbers:
  assumes "record_inspect env channel mid tabId windowId b st = Inr st'"
  obtains tab window where "tabId = JInt tab" "windowId = JInt window"
  using assms by (auto simp: record_inspect_eq recordable_def dest: isBrowserId_SomeD split: if_splits)

lemma moves_record:
  assumes ok: "store_ok trusted st" and r: "record_inspect env channel mid tabId windowId b st = Inr st'"
  shows "moves trusted st st'"
proof -
  obtain tab window where n: "tabId = JInt tab" "windowId = JInt window"
    by (rule record_inspect_numbers [OF r])
  let ?c = "fresh_correlation st channel tab window b"
  note e = record_effect [OF ok r [unfolded n]]
  have old: "find_correlation st i = Some c \<and> cor_channel c \<noteq> channel \<and> cor_tabId c \<noteq> tab"
    if "find_correlation st' i = Some c" "i \<noteq> mid" for i c by (rule e(2) [OF that])
  have new: "cor_channel ?c = channel" "cor_tabId ?c = tab"
    "cor_oid ?c = cs_next_oid st" "cor_sourceRevision ?c = Suc (cs_sequence st)"
    "cor_rulesRevision ?c = Suc (Suc (cs_sequence st))"
    by (simp_all add: fresh_correlation_def)
  have each: "correlation_ok trusted c \<and> cor_oid c < cs_next_oid st' \<and>
      cor_sourceRevision c \<le> cs_sequence st' \<and> cor_rulesRevision c \<le> cs_sequence st'"
    if "find_correlation st' i = Some c" for i c
  proof (cases "i = mid")
    case True
    then show ?thesis using that e(1,5,6,8) new by simp
  next
    case False
    then show ?thesis using old [OF that False] ok e(5,6) by (fastforce simp: store_ok_def)
  qed
  have uniq: "i = j" if "find_correlation st' i = Some x" "find_correlation st' j = Some y"
      "cor_channel x = cor_channel y \<or> cor_tabId x = cor_tabId y" for i j x y
  proof (cases "i = mid \<or> j = mid")
    case True
    then show ?thesis using old that e(1) new(1,2) by (metis option.inject)
  next
    case False
    then show ?thesis using old [OF that(1)] old [OF that(2)] that(3) ok unfolding store_ok_def by blast
  qed
  have "store_ok trusted st'" unfolding store_ok_def
    using e(3,4,7) ok each uniq by (auto simp: store_ok_def)
  moreover have "correlations_evolve st st'" unfolding correlations_evolve_def
  proof (intro conjI allI impI)
    fix i c assume at: "find_correlation st' i = Some c"
    show "(\<exists>d. find_correlation st i = Some d \<and> progresses (cs_sequence st) d c) \<or>
        cs_next_oid st \<le> cor_oid c \<and> cs_sequence st < cor_sourceRevision c \<and>
        cs_sequence st < cor_rulesRevision c"
    proof (cases "i = mid")
      case True
      then show ?thesis using at e(1) new by simp
    next
      case False
      then show ?thesis using old [OF at] progresses_refl by blast
    qed
  qed (use e in simp_all)
  ultimately show ?thesis by (simp add: moves_def)
qed

subsection \<open>Answers of the IDE\<close>

text \<open>An update of one correlation with the next revision, in place or moved to the end.\<close>

definition revised :: "jstring \<Rightarrow> (nat \<Rightarrow> correlation) \<Rightarrow> correlation_store \<Rightarrow> correlation_store \<Rightarrow> bool" where
  "revised mid f st st' \<longleftrightarrow>
     (let c' = f (Suc (cs_sequence st)); m = cs_correlations st
      in \<exists>m'\<in>{jset mid c' m, jset mid c' (jdel mid m)}.
           st' = st\<lparr>cs_sequence := Suc (cs_sequence st), cs_correlations := m'\<rparr>)"

lemma revised_find: "revised mid f st st' \<Longrightarrow>
    find_correlation st' = (find_correlation st)(mid \<mapsto> f (Suc (cs_sequence st)))"
  by (auto simp: revised_def Let_def find_correlation_def)

lemma moves_revised:
  assumes "store_ok trusted st" and "find_correlation st mid = Some c" and "revised mid f st st'"
    and "progresses (cs_sequence st) c (f (Suc (cs_sequence st)))"
    and "correlation_ok trusted (f (Suc (cs_sequence st)))"
    and "cor_sourceRevision (f (Suc (cs_sequence st))) \<le> Suc (cs_sequence st)"
    and "cor_rulesRevision (f (Suc (cs_sequence st))) \<le> Suc (cs_sequence st)"
  shows "moves trusted st st'"
proof -
  let ?c' = "f (Suc (cs_sequence st))"
  from assms(3) obtain m' where
    m': "m' = jset mid ?c' (cs_correlations st) \<or> m' = jset mid ?c' (jdel mid (cs_correlations st))"
    and st': "st' = st\<lparr>cs_sequence := Suc (cs_sequence st), cs_correlations := m'\<rparr>"
    by (auto simp: revised_def Let_def)
  show ?thesis unfolding st' by (rule moves_update [OF assms(1,2,4,5,6,7) m'])
qed

lemma payload_matches_iff:
  "trustedIdePeerMatchesPayload trusted p s i \<longleftrightarrow> p \<in> set trusted \<and> tp_sessionId p = s \<and> tp_sourceId p = i"
  by (simp add: trustedIdePeerMatchesPayload_def isTrustedIdePeerContext_def)

definition resolved :: "resolution_message \<Rightarrow> trusted_peer \<Rightarrow> correlation \<Rightarrow> nat \<Rightarrow> correlation" where
  "resolved m p c n = c\<lparr>cor_resGen := res_resolutionGeneration m,
     cor_sessionId := Some (tp_sessionId p), cor_sourceId := Some (tp_sourceId p),
     cor_document := res_document m, cor_sourcePeer := Some p, cor_matchIds := [],
     cor_sourceRevision := n\<rparr>"

lemma accept_resolution_cases:
  obtains (refused) "accept_resolution env trusted message p st = (None, st)"
  | (accepted) m c st' where "accept_resolution env trusted message p st = (Some (cor_channel c), st')"
      "parseProtocolData message (parse_with env as_resolution) = Some m"
      "find_correlation st (inspectMessageId m) = Some c" "p \<in> set trusted"
      "cor_windowId c = tp_windowId p" "tp_sessionId p = sessionId m" "tp_sourceId p = res_sourceId m"
      "cor_resGen c < res_resolutionGeneration m" "\<not> bound_elsewhere c p"
      "revised (inspectMessageId m) (resolved m p c) st st'"
proof -
  consider "p \<notin> set trusted" | "parseProtocolData message (parse_with env as_resolution) = None"
    | m where "parseProtocolData message (parse_with env as_resolution) = Some m"
        "find_correlation st (inspectMessageId m) = None"
    | m c where "p \<in> set trusted" "parseProtocolData message (parse_with env as_resolution) = Some m"
        "find_correlation st (inspectMessageId m) = Some c"
    by (metis option.exhaust)
  then show ?thesis
  proof cases
    case (4 m c)
    show ?thesis
    proof (cases "cor_windowId c \<noteq> tp_windowId p \<or>
        \<not> trustedIdePeerMatchesPayload trusted p (sessionId m) (res_sourceId m) \<or>
        res_resolutionGeneration m \<le> cor_resGen c \<or> bound_elsewhere c p")
      case True
      with 4 show ?thesis
        by (intro refused) (simp only: accept_resolution_def isTrustedIdePeerContext_def
            option.case if_True not_True_eq_False if_False simp_thms)
    next
      case False
      then have f: "cor_windowId c = tp_windowId p" "tp_sessionId p = sessionId m"
          "tp_sourceId p = res_sourceId m" "cor_resGen c < res_resolutionGeneration m"
          "\<not> bound_elsewhere c p" by (simp_all add: payload_matches_iff)
      have "accept_resolution env trusted message p st = (Some (cor_channel c),
          touch_correlation (inspectMessageId m) (resolved m p c (Suc (cs_sequence st)))
            (st\<lparr>cs_sequence := Suc (cs_sequence st)\<rparr>))"
        using 4 False
        by (simp only: accept_resolution_def isTrustedIdePeerContext_def option.case if_True
            not_True_eq_False if_False simp_thms nextAuthorityRevision_def Let_def split
            resolved_def) simp
      moreover have "revised (inspectMessageId m) (resolved m p c) st
          (touch_correlation (inspectMessageId m) (resolved m p c (Suc (cs_sequence st)))
            (st\<lparr>cs_sequence := Suc (cs_sequence st)\<rparr>))"
        by (simp add: revised_def touch_correlation_def Let_def)
      ultimately show ?thesis using 4 f by (intro accepted)
    qed
  qed (use refused in \<open>simp_all add: accept_resolution_def isTrustedIdePeerContext_def split: option.splits\<close>)
qed

lemma bound_progress:
  "\<not> bound_elsewhere c p \<Longrightarrow> cor_sourceId c \<noteq> None \<Longrightarrow>
   cor_sourceId c = Some (tp_sourceId p) \<and> cor_sessionId c = Some (tp_sessionId p)"
  by (auto simp: bound_elsewhere_def)

lemma peer_bound_rebind:
  "\<not> bound_elsewhere c p \<Longrightarrow> peer_bound trusted c q \<Longrightarrow>
   tp_sessionId q = tp_sessionId p \<and> tp_sourceId q = tp_sourceId p"
  by (auto simp: bound_elsewhere_def peer_bound_def correlationMatchesPeer_def)

lemma correlation_ok_resolved:
  assumes c: "correlation_ok trusted c" and p: "p \<in> set trusted" "cor_windowId c = tp_windowId p"
    and g: "cor_resGen c < res_resolutionGeneration m" and b: "\<not> bound_elsewhere c p"
  shows "correlation_ok trusted (resolved m p c n)"
proof -
  have gen: "0 \<le> res_resolutionGeneration m"
    using c g by (auto simp: correlation_ok_def split: option.splits)
  have "peer_bound trusted (resolved m p c n) p"
    using p by (simp add: peer_bound_def correlationMatchesPeer_def resolved_def)
  moreover have "peer_bound trusted (resolved m p c n) q" if "cor_rulesPeer c = Some q" for q
  proof -
    have pq: "peer_bound trusted c q" using c that by (simp add: correlation_ok_def)
    show ?thesis using pq peer_bound_rebind [OF b pq]
      by (simp add: peer_bound_def correlationMatchesPeer_def resolved_def)
  qed
  ultimately show ?thesis using c gen
    by (cases "cor_rulesPeer c") (simp_all add: correlation_ok_def resolved_def)
qed

lemma moves_accept_resolution:
  assumes ok: "store_ok trusted st"
  shows "moves trusted st (snd (accept_resolution env trusted message p st))"
proof (cases rule: accept_resolution_cases [of env trusted message p st])
  case (accepted m c st')
  have c: "correlation_ok trusted c" "cor_rulesRevision c \<le> cs_sequence st"
    using ok accepted(3) by (auto simp: store_ok_def)
  have "progresses (cs_sequence st) c (resolved m p c (Suc (cs_sequence st)))"
    using accepted(8) bound_progress [OF accepted(9)]
    by (auto simp: progresses_def rules_part_def resolved_def)
  then show ?thesis unfolding accepted(1) snd_conv
    using correlation_ok_resolved [OF c(1) accepted(4,5,8,9)] c(2)
    by (intro moves_revised [OF ok accepted(3,10)]) (simp_all add: resolved_def)
qed (simp add: moves_refl [OF ok])

subsection \<open>Prepared rules\<close>

text \<open>What a prepared publication guarantees for as long as its correlation lives.\<close>

definition prepared_ok :: "correlation_env \<Rightarrow> trusted_set \<Rightarrow> correlation_store \<Rightarrow> prepared_rules \<Rightarrow> bool" where
  "prepared_ok env trusted st pp \<longleftrightarrow>
     pp_oid pp < cs_next_oid st \<and> pp_peer pp \<in> set trusted \<and>
     (if pp_previousGen pp < 0 then rsm_rulesGeneration (pp_message pp) = 1
      else pp_previousGen pp < rsm_rulesGeneration (pp_message pp)) \<and>
     (\<forall>c. find_correlation st (inspectMessageId (pp_message pp)) = Some c \<longrightarrow>
        cor_oid c = pp_oid pp \<longrightarrow> length (rsm_sources (pp_message pp)) \<le> length (cor_expected c) \<and>
          cor_windowId c = tp_windowId (pp_peer pp) \<and>
          (cor_rulesRevision c = pp_previousRevision pp \<longrightarrow> cor_rulesGen c = pp_previousGen pp)) \<and>
     trustedIdePeerMatchesPayload trusted (pp_peer pp) (sessionId (pp_message pp))
       (rsm_sourceId (pp_message pp)) \<and>
     message_ok (ce_schema env) (RulesSources (pp_message pp)) \<and>
     pp_previousRevision pp \<le> cs_sequence st"

lemma prepared_ok_evolves:
  assumes "prepared_ok env trusted s pp" and "correlations_evolve s t"
  shows "prepared_ok env trusted t pp"
proof -
  have "length (rsm_sources (pp_message pp)) \<le> length (cor_expected c') \<and>
      cor_windowId c' = tp_windowId (pp_peer pp) \<and>
      (cor_rulesRevision c' = pp_previousRevision pp \<longrightarrow> cor_rulesGen c' = pp_previousGen pp)"
    if "find_correlation t (inspectMessageId (pp_message pp)) = Some c'" "cor_oid c' = pp_oid pp" for c'
  proof -
    from assms(2) that(1) consider c where
        "find_correlation s (inspectMessageId (pp_message pp)) = Some c" "progresses (cs_sequence s) c c'"
      | "cs_next_oid s \<le> cor_oid c'" unfolding correlations_evolve_def by blast
    then show ?thesis using assms(1) that(2)
      by cases (auto simp: prepared_ok_def progresses_def rules_part_def)
  qed
  moreover have "cs_next_oid s \<le> cs_next_oid t" "cs_sequence s \<le> cs_sequence t"
    using assms(2) by (simp_all add: correlations_evolve_def)
  ultimately show ?thesis using assms(1) by (auto simp: prepared_ok_def)
qed

definition published :: "rules_sources_message \<Rightarrow> trusted_peer \<Rightarrow> correlation \<Rightarrow> nat \<Rightarrow> correlation" where
  "published m p c n = c\<lparr>cor_sessionId := Some (tp_sessionId p), cor_sourceId := Some (tp_sourceId p),
     cor_rulesGen := rsm_rulesGeneration m, cor_rulesPeer := Some p,
     cor_openIds := set_of (map rs_openAuthorityId (rsm_sources m)), cor_rulesRevision := n\<rparr>"

text \<open>The correlation a prepared publication was made for, its rules unchanged since.\<close>

definition still_current :: "trusted_set \<Rightarrow> prepared_rules \<Rightarrow> correlation \<Rightarrow> bool" where
  "still_current trusted pp c \<longleftrightarrow>
     cor_oid c = pp_oid pp \<and> cor_rulesGen c = pp_previousGen pp \<and>
     cor_rulesRevision c = pp_previousRevision pp \<and> cor_windowId c = tp_windowId (pp_peer pp) \<and>
     trustedIdePeerMatchesPayload trusted (pp_peer pp) (sessionId (pp_message pp)) (rsm_sourceId (pp_message pp)) \<and>
     \<not> bound_elsewhere c (pp_peer pp)"

lemma commit_rules_sources_eq:
  "commit_rules_sources trusted pp st =
     (case find_correlation st (inspectMessageId (pp_message pp)) of
        Some c \<Rightarrow> if pp_pending pp \<and> still_current trusted pp c
          then (True, pp\<lparr>pp_pending := False\<rparr>, touch_correlation (inspectMessageId (pp_message pp))
             (published (pp_message pp) (pp_peer pp) c (Suc (cs_sequence st)))
             (st\<lparr>cs_sequence := Suc (cs_sequence st)\<rparr>))
          else (False, pp\<lparr>pp_pending := False\<rparr>, st)
      | None \<Rightarrow> (False, pp\<lparr>pp_pending := False\<rparr>, st))"
proof (cases "find_correlation st (inspectMessageId (pp_message pp))")
  case (Some c)
  have "(cor_oid c \<noteq> pp_oid pp \<or> cor_rulesGen c \<noteq> pp_previousGen pp \<or>
         cor_rulesRevision c \<noteq> pp_previousRevision pp \<or>
         cor_windowId c \<noteq> tp_windowId (pp_peer pp) \<or>
         \<not> trustedIdePeerMatchesPayload trusted (pp_peer pp) (sessionId (pp_message pp))
            (rsm_sourceId (pp_message pp)) \<or> bound_elsewhere c (pp_peer pp)) = (\<not> still_current trusted pp c)"
    by (auto simp: still_current_def)
  with Some show ?thesis
    by (simp add: commit_rules_sources_def Let_def nextAuthorityRevision_def published_def)
qed (simp add: commit_rules_sources_def Let_def)

lemma revised_touch: "revised mid f st (touch_correlation mid (f (Suc (cs_sequence st)))
    (st\<lparr>cs_sequence := Suc (cs_sequence st)\<rparr>))"
  by (simp add: revised_def touch_correlation_def Let_def)

lemma revised_put: "revised mid f st (put_correlation mid (f (Suc (cs_sequence st)))
    (st\<lparr>cs_sequence := Suc (cs_sequence st)\<rparr>))"
  by (simp add: revised_def put_correlation_def Let_def)

lemma length_set_of_le: "length (set_of xs) \<le> length xs"
  by (simp add: length_set_of card_length)

lemma moves_commit_rules:
  assumes ok: "store_ok trusted st" and pp: "prepared_ok env trusted st pp"
  shows "moves trusted st (snd (snd (commit_rules_sources trusted pp st)))"
proof (cases "find_correlation st (inspectMessageId (pp_message pp))")
  case None
  then show ?thesis by (simp add: commit_rules_sources_eq moves_refl [OF ok])
next
  case (Some c)
  let ?m = "pp_message pp" and ?p = "pp_peer pp" and ?n = "Suc (cs_sequence st)"
  show ?thesis
  proof (cases "pp_pending pp \<and> still_current trusted pp c")
    case False
    then show ?thesis using Some by (auto simp: commit_rules_sources_eq moves_refl [OF ok])
  next
    case True
    then have b: "\<not> bound_elsewhere c ?p" and p: "?p \<in> set trusted" "cor_windowId c = tp_windowId ?p"
      by (simp_all add: still_current_def payload_matches_iff)
    have c: "correlation_ok trusted c" "cor_sourceRevision c \<le> cs_sequence st"
      using ok Some by (auto simp: store_ok_def)
    have g: "cor_rulesGen c \<le> rsm_rulesGeneration ?m" "1 \<le> rsm_rulesGeneration ?m"
      using pp True c(1)
      by (auto simp: prepared_ok_def still_current_def correlation_ok_def split: if_splits option.splits)
    have len: "length (rsm_sources ?m) \<le> length (cor_expected c)"
      using pp Some True by (simp add: prepared_ok_def still_current_def)
    have "peer_bound trusted (published ?m ?p c ?n) ?p"
      using p by (simp add: peer_bound_def correlationMatchesPeer_def published_def)
    moreover have "peer_bound trusted (published ?m ?p c ?n) q" if "cor_sourcePeer c = Some q" for q
    proof -
      have pq: "peer_bound trusted c q" using c that by (simp add: correlation_ok_def)
      show ?thesis using pq peer_bound_rebind [OF b pq]
        by (simp add: peer_bound_def correlationMatchesPeer_def published_def)
    qed
    ultimately have "correlation_ok trusted (published ?m ?p c ?n)"
      using c(1) g order_trans [OF length_set_of_le [of "map rs_openAuthorityId (rsm_sources ?m)"]] len
      by (cases "cor_sourcePeer c") (simp_all add: correlation_ok_def published_def)
    moreover have "progresses (cs_sequence st) c (published ?m ?p c ?n)"
      using g(1) bound_progress [OF b] by (auto simp: progresses_def source_part_def published_def)
    ultimately show ?thesis using c(2) Some True
      by (simp add: commit_rules_sources_eq)
        (intro moves_revised [OF ok Some revised_touch], simp_all add: published_def)
  qed
qed

lemma if_None_SomeD: "(if b then None else Some x) = Some y \<Longrightarrow> \<not> b \<and> y = x"
  by (cases b) simp_all

lemma prepare_rules_sources_SomeD:
  assumes "prepare_rules_sources env trusted message p st = Some pp"
  obtains c where "find_correlation st (inspectMessageId (pp_message pp)) = Some c"
    and "parseRulesSourcesProtocolData message (parse_with env as_rules_sources) = Some (pp_message pp)"
    and "pp_pending pp" "still_current trusted pp c" "p \<in> set trusted" "pp_peer pp = p"
      "pp_channel pp = cor_channel c"
    and "if cor_rulesGen c < 0 then rsm_rulesGeneration (pp_message pp) = 1
      else cor_rulesGen c < rsm_rulesGeneration (pp_message pp)"
    and "rulesSourcesCoverExpectedRefs (pp_message pp) (cor_expected c)"
proof -
  have p: "p \<in> set trusted"
    using assms by (rule contrapos_pp) (simp add: prepare_rules_sources_def isTrustedIdePeerContext_def)
  obtain m where m: "parseRulesSourcesProtocolData message (parse_with env as_rules_sources) = Some m"
    using assms p by (cases "parseRulesSourcesProtocolData message (parse_with env as_rules_sources)")
      (simp_all add: prepare_rules_sources_def isTrustedIdePeerContext_def)
  obtain c where c: "find_correlation st (inspectMessageId m) = Some c"
    using assms p m by (cases "find_correlation st (inspectMessageId m)")
      (simp_all add: prepare_rules_sources_def isTrustedIdePeerContext_def)
  have "(if cor_windowId c \<noteq> tp_windowId p \<or>
      \<not> trustedIdePeerMatchesPayload trusted p (sessionId m) (rsm_sourceId m) \<or> bound_elsewhere c p \<or>
      (if cor_rulesGen c < 0 then rsm_rulesGeneration m \<noteq> 1
       else rsm_rulesGeneration m \<le> cor_rulesGen c) \<or>
      \<not> rulesSourcesCoverExpectedRefs m (cor_expected c)
      then None
      else Some \<lparr>pp_pending = True, pp_channel = cor_channel c, pp_oid = cor_oid c,
             pp_message = m, pp_peer = p, pp_previousGen = cor_rulesGen c,
             pp_previousRevision = cor_rulesRevision c\<rparr>) = Some pp"
    using assms p m c by (simp only: prepare_rules_sources_def isTrustedIdePeerContext_def option.case
        if_True not_True_eq_False if_False simp_thms)
  from if_None_SomeD [OF this] show ?thesis
    using p m c by (intro that [of c]) (auto simp: still_current_def)
qed

lemma parsed_rules_sources_ok:
  assumes "parseRulesSourcesProtocolData message (parse_with env as_rules_sources) = Some m"
  shows "message_ok (ce_schema env) (RulesSources m)"
  using assms unfolding parseRulesSourcesProtocolData_def parseProtocolDataWithLimits_def parse_with_def
  by (auto simp: Option.bind_eq_Some_conv split: option.splits if_splits elim!: as_rules_sources.elims)

lemma prepared_ok_prepare:
  assumes ok: "store_ok trusted st" and pp: "prepare_rules_sources env trusted message p st = Some pp"
  shows "prepared_ok env trusted st pp"
  using pp
proof (rule prepare_rules_sources_SomeD)
  fix c
  assume at: "find_correlation st (inspectMessageId (pp_message pp)) = Some c"
    and parsed: "parseRulesSourcesProtocolData message (parse_with env as_rules_sources) = Some (pp_message pp)"
    and cur: "still_current trusted pp c" and p: "p \<in> set trusted" "pp_peer pp = p"
    and g: "if cor_rulesGen c < 0 then rsm_rulesGeneration (pp_message pp) = 1
      else cor_rulesGen c < rsm_rulesGeneration (pp_message pp)"
    and cover: "rulesSourcesCoverExpectedRefs (pp_message pp) (cor_expected c)"
  have "cor_oid c < cs_next_oid st" "cor_rulesRevision c \<le> cs_sequence st"
    using ok at by (auto simp: store_ok_def)
  moreover have "0 \<le> rsm_unresolvedRuleCount (pp_message pp)"
    using parsed_rules_sources_ok [OF parsed] by (simp add: rules_sources_ok_def)
  ultimately show ?thesis using at cur p g cover
      parsed_rules_sources_ok [OF parsed]
    by (auto simp: prepared_ok_def still_current_def rulesSourcesCoverExpectedRefs_def)
qed

subsection \<open>Source matches\<close>

lemma collect_match_ids_eq:
  "distinct seen \<Longrightarrow> collect_match_ids seen xs =
     (if distinct (seen @ map ex_matchId xs) then Some (seen @ map ex_matchId xs) else None)"
  by (induction xs arbitrary: seen) (auto simp: set_add_def)

definition cleared :: "correlation \<Rightarrow> nat \<Rightarrow> correlation" where
  "cleared c n = c\<lparr>cor_matchIds := [], cor_sourceRevision := n\<rparr>"

definition matched :: "source_matches_message \<Rightarrow> trusted_peer \<Rightarrow> correlation \<Rightarrow> nat \<Rightarrow> correlation" where
  "matched m p c n = c\<lparr>cor_matchIds := map ex_matchId (sm_matches m),
     cor_sourcePeer := (if sm_matches m \<noteq> [] then Some p else cor_sourcePeer c),
     cor_sourceRevision := n\<rparr>"

definition matches_addressed :: "trusted_set \<Rightarrow> source_matches_message \<Rightarrow> trusted_peer \<Rightarrow> correlation \<Rightarrow> bool" where
  "matches_addressed trusted m p c \<longleftrightarrow> cor_windowId c = tp_windowId p \<and>
     trustedIdePeerMatchesPayload trusted p (sessionId m) (sm_sourceId m) \<and>
     (cor_sourceId c \<noteq> None \<longrightarrow> correlationMatchesPeer c p)"

lemma acceptSourceMatches_eq:
  assumes "p \<in> set trusted" and "parseProtocolData message (parse_with env as_source_matches) = Some m"
    and "find_correlation st (inspectMessageId m) = Some c"
  shows "acceptSourceMatches env trusted message p st =
    (if \<not> matches_addressed trusted m p c then (None, st)
     else if sm_matches m = [] \<and> cor_resGen c < 0
     then (Some (cor_channel c), put_correlation (inspectMessageId m)
        (cleared c (Suc (cs_sequence st))) (st\<lparr>cs_sequence := Suc (cs_sequence st)\<rparr>))
     else if matchesCurrentAuthority trusted m c p \<and> distinct (map ex_matchId (sm_matches m))
     then (Some (cor_channel c), put_correlation (inspectMessageId m)
        (matched m p c (Suc (cs_sequence st))) (st\<lparr>cs_sequence := Suc (cs_sequence st)\<rparr>))
     else (None, st))"
proof -
  have a: "(cor_windowId c \<noteq> tp_windowId p \<or>
      \<not> trustedIdePeerMatchesPayload trusted p (sessionId m) (sm_sourceId m) \<or>
      cor_sourceId c \<noteq> None \<and> \<not> correlationMatchesPeer c p) = (\<not> matches_addressed trusted m p c)"
    by (auto simp: matches_addressed_def)
  have l: "collect_match_ids [] (sm_matches m) = (if distinct (map ex_matchId (sm_matches m))
      then Some (map ex_matchId (sm_matches m)) else None)"
    using collect_match_ids_eq [of "[]" "sm_matches m"] by simp
  show ?thesis
    unfolding acceptSourceMatches_def isTrustedIdePeerContext_def assms(2) option.case assms(3) a l
    using assms(1) by (simp add: Let_def nextAuthorityRevision_def cleared_def matched_def)
qed

lemma acceptSourceMatches_refused:
  assumes "p \<notin> set trusted \<or> parseProtocolData message (parse_with env as_source_matches) = None \<or>
    find_correlation st (inspectMessageId (the (parseProtocolData message (parse_with env as_source_matches)))) = None"
  shows "acceptSourceMatches env trusted message p st = (None, st)"
  using assms by (auto simp: acceptSourceMatches_def isTrustedIdePeerContext_def split: option.split)

lemma moves_acceptSourceMatches:
  assumes ok: "store_ok trusted st"
  shows "moves trusted st (snd (acceptSourceMatches env trusted message p st))"
proof (cases "p \<in> set trusted \<and> parseProtocolData message (parse_with env as_source_matches) \<noteq> None \<and>
    find_correlation st (inspectMessageId (the (parseProtocolData message (parse_with env as_source_matches)))) \<noteq> None")
  case False
  then show ?thesis using acceptSourceMatches_refused [of p trusted message env st]
    by (simp add: moves_refl [OF ok])
next
  case True
  then obtain m c where pm: "p \<in> set trusted"
      "parseProtocolData message (parse_with env as_source_matches) = Some m"
      "find_correlation st (inspectMessageId m) = Some c" by auto
  let ?n = "Suc (cs_sequence st)"
  have c: "correlation_ok trusted c" "cor_rulesRevision c \<le> cs_sequence st"
    using ok pm(3) by (auto simp: store_ok_def)
  have p1: "progresses (cs_sequence st) c (cleared c ?n)" "progresses (cs_sequence st) c (matched m p c ?n)"
    by (simp_all add: progresses_def rules_part_def cleared_def matched_def)
  have clear: "moves trusted st (put_correlation (inspectMessageId m) (cleared c ?n) (st\<lparr>cs_sequence := ?n\<rparr>))"
  proof (rule moves_revised [OF ok pm(3) revised_put])
    show "correlation_ok trusted (cleared c ?n)"
      using c(1) by (cases "cor_sourcePeer c"; cases "cor_rulesPeer c")
        (simp_all add: correlation_ok_def cleared_def peer_bound_def correlationMatchesPeer_def)
  qed (use c(2) p1 in \<open>simp_all add: cleared_def\<close>)
  have match: "moves trusted st (put_correlation (inspectMessageId m) (matched m p c ?n) (st\<lparr>cs_sequence := ?n\<rparr>))"
    if cur: "matchesCurrentAuthority trusted m c p" "distinct (map ex_matchId (sm_matches m))"
  proof (rule moves_revised [OF ok pm(3) revised_put])
    obtain q where "cor_sourcePeer c = Some q" using cur(1) by (auto simp: matchesCurrentAuthority_def)
    moreover have "peer_bound trusted c p"
      using cur(1) pm(1) by (simp add: peer_bound_def matchesCurrentAuthority_def)
    ultimately show "correlation_ok trusted (matched m p c ?n)"
      using c(1) cur(2) by (cases "cor_rulesPeer c")
        (auto simp: correlation_ok_def matched_def peer_bound_def correlationMatchesPeer_def)
  qed (use c(2) p1 in \<open>simp_all add: matched_def\<close>)
  show ?thesis using clear match moves_refl [OF ok] by (simp add: acceptSourceMatches_eq [OF pm])
qed

subsection \<open>The store among its callers\<close>

record correlation_world =
  cw_store :: correlation_store
  cw_trusted :: trusted_set
  cw_prepared :: "prepared_rules list"

datatype correlation_event =
    CreatePeer json json json
  | RecordInspect jstring jstring jsnum jsnum evidence_batch
  | AcceptResolution js_value trusted_peer
  | PrepareRules js_value trusted_peer
  | CommitRules nat
  | RollbackRules nat
  | AcceptRules js_value trusted_peer
  | AcceptMatches js_value trusted_peer
  | DiscardSource source_authority
  | DiscardRules rules_authority
  | Discard jstring
  | DisposeChannel jstring
  | DisposeTab jsnum
  | DisposeWindow jsnum

definition with_store :: "correlation_world \<Rightarrow> correlation_store \<Rightarrow> correlation_world" where
  "with_store w st = w\<lparr>cw_store := st\<rparr>"

fun correlation_step :: "correlation_env \<Rightarrow> correlation_world \<Rightarrow> correlation_event \<Rightarrow> correlation_world" where
  "correlation_step env w (CreatePeer windowId sid sourceId) =
     (case createTransportTrustedIdePeerContext windowId sid sourceId (cw_trusted w) of
        Inl _ \<Rightarrow> w | Inr (_, trusted) \<Rightarrow> w\<lparr>cw_trusted := trusted\<rparr>)"
| "correlation_step env w (RecordInspect channel mid tabId windowId b) =
     (case record_inspect env channel mid tabId windowId b (cw_store w) of
        Inl _ \<Rightarrow> w | Inr st \<Rightarrow> with_store w st)"
| "correlation_step env w (AcceptResolution message p) =
     with_store w (snd (accept_resolution env (cw_trusted w) message p (cw_store w)))"
| "correlation_step env w (PrepareRules message p) =
     (case prepare_rules_sources env (cw_trusted w) message p (cw_store w) of
        None \<Rightarrow> w | Some pp \<Rightarrow> w\<lparr>cw_prepared := cw_prepared w @ [pp]\<rparr>)"
| "correlation_step env w (CommitRules i) =
     (if i < length (cw_prepared w)
      then (case commit_rules_sources (cw_trusted w) (cw_prepared w ! i) (cw_store w) of
              (_, pp, st) \<Rightarrow> with_store (w\<lparr>cw_prepared := (cw_prepared w)[i := pp]\<rparr>) st)
      else w)"
| "correlation_step env w (RollbackRules i) =
     (if i < length (cw_prepared w)
      then w\<lparr>cw_prepared := (cw_prepared w)[i := rollback_rules_sources (cw_prepared w ! i)]\<rparr> else w)"
| "correlation_step env w (AcceptRules message p) =
     with_store w (snd (acceptRulesSources env (cw_trusted w) message p (cw_store w)))"
| "correlation_step env w (AcceptMatches message p) =
     with_store w (snd (acceptSourceMatches env (cw_trusted w) message p (cw_store w)))"
| "correlation_step env w (DiscardSource a) =
     with_store w (snd (discardSourcePresentationAuthority a (cw_store w)))"
| "correlation_step env w (DiscardRules a) = with_store w (snd (discardRulesOpenAuthority a (cw_store w)))"
| "correlation_step env w (Discard mid) = with_store w (discard_inspect mid (cw_store w))"
| "correlation_step env w (DisposeChannel channel) = with_store w (disposeChannel channel (cw_store w))"
| "correlation_step env w (DisposeTab tabId) = with_store w (disposeTab tabId (cw_store w))"
| "correlation_step env w (DisposeWindow windowId) = with_store w (disposeWindow windowId (cw_store w))"

definition world_ok :: "correlation_env \<Rightarrow> correlation_world \<Rightarrow> bool" where
  "world_ok env w \<longleftrightarrow> store_ok (cw_trusted w) (cw_store w) \<and>
     list_all (prepared_ok env (cw_trusted w) (cw_store w)) (cw_prepared w)"

lemma correlation_ok_mono: "set T \<subseteq> set T' \<Longrightarrow> correlation_ok T c \<Longrightarrow> correlation_ok T' c"
  by (auto simp: correlation_ok_def peer_bound_def split: option.splits)

lemma store_ok_mono: "set T \<subseteq> set T' \<Longrightarrow> store_ok T st \<Longrightarrow> store_ok T' st"
  using correlation_ok_mono unfolding store_ok_def by blast

lemma prepared_ok_mono: "set T \<subseteq> set T' \<Longrightarrow> prepared_ok env T st pp \<Longrightarrow> prepared_ok env T' st pp"
  by (auto simp: prepared_ok_def payload_matches_iff)

lemma world_ok_moves:
  assumes "world_ok env w" and "moves (cw_trusted w) (cw_store w) st"
  shows "world_ok env (with_store w st) \<and> correlations_evolve (cw_store w) st"
  using assms prepared_ok_evolves
  by (auto simp: world_ok_def with_store_def moves_def list_all_iff)

lemma moves_remove: "store_ok trusted st \<Longrightarrow> moves trusted st (remove_correlations q st)"
  unfolding remove_correlations_def by (rule moves_filter)

lemma moves_dispose:
  assumes "store_ok trusted st"
  shows "moves trusted st (disposeChannel channel st)" "moves trusted st (disposeTab tabId st)"
    "moves trusted st (disposeWindow windowId st)"
  using moves_remove [OF assms] moves_refl [OF assms]
  by (simp_all add: disposeChannel_def disposeTab_def disposeWindow_def split: option.split)

lemma moves_discards:
  assumes "store_ok trusted st"
  shows "moves trusted st (snd (discardSourcePresentationAuthority a st))"
    and "moves trusted st (snd (discardRulesOpenAuthority b st))"
  using moves_discard [OF assms] moves_refl [OF assms]
  unfolding discardSourcePresentationAuthority_def discardRulesOpenAuthority_def
  by (cases "find_correlation st (sa_messageId a)"; cases "find_correlation st (ra_messageId b)"; simp)+

lemma moves_acceptRulesSources:
  assumes "store_ok trusted st"
  shows "moves trusted st (snd (acceptRulesSources env trusted message p st))"
proof (cases "prepare_rules_sources env trusted message p st")
  case (Some pp)
  show ?thesis using moves_commit_rules [OF assms prepared_ok_prepare [OF assms Some]]
    by (simp add: acceptRulesSources_def Some case_prod_beta)
qed (simp add: acceptRulesSources_def moves_refl [OF assms])

lemma prepared_ok_settled: "prepared_ok env T st pp \<Longrightarrow> prepared_ok env T st (pp\<lparr>pp_pending := False\<rparr>)"
  by (simp add: prepared_ok_def)

lemma commit_settles: "fst (snd (commit_rules_sources T pp st)) = pp\<lparr>pp_pending := False\<rparr>"
  by (simp add: commit_rules_sources_eq split: option.split)

lemma world_ok_prepared:
  "world_ok env w \<Longrightarrow> i < length (cw_prepared w) \<Longrightarrow>
   world_ok env (w\<lparr>cw_prepared := (cw_prepared w)[i := (cw_prepared w ! i)\<lparr>pp_pending := False\<rparr>]\<rparr>)"
  using prepared_ok_settled by (auto simp: world_ok_def list_all_length nth_list_update)

lemma world_ok_trust:
  assumes "world_ok env w" shows "world_ok env (w\<lparr>cw_trusted := cw_trusted w @ [p]\<rparr>)"
proof -
  have sub: "set (cw_trusted w) \<subseteq> set (cw_trusted w @ [p])" by auto
  show ?thesis using assms store_ok_mono [OF sub] prepared_ok_mono [OF sub]
    by (simp add: world_ok_def list_all_iff)
qed

lemma world_step:
  assumes w: "world_ok env w"
  shows "world_ok env (correlation_step env w e) \<and>
    correlations_evolve (cw_store w) (cw_store (correlation_step env w e))"
proof -
  have ok: "store_ok (cw_trusted w) (cw_store w)" using w by (simp add: world_ok_def)
  note moved = world_ok_moves [OF w]
  show ?thesis
  proof (cases e)
    case (CreatePeer windowId sid sourceId)
    show ?thesis using w world_ok_trust [OF w]
      by (simp add: CreatePeer createTransportTrustedIdePeerContext_def Let_def correlations.R_refl
          split: option.split)
  next
    case (RecordInspect channel mid tabId windowId b)
    show ?thesis using moved [OF moves_record [OF ok]] w correlations.R_refl
      by (simp add: RecordInspect split: sum.split) (simp add: with_store_def)
  next
    case (PrepareRules message p)
    show ?thesis using w prepared_ok_prepare [OF ok]
      by (simp add: PrepareRules world_ok_def correlations.R_refl split: option.split)
  next
    case (CommitRules i)
    show ?thesis
    proof (cases "i < length (cw_prepared w)")
      case True
      let ?pp = "cw_prepared w ! i"
      let ?w = "w\<lparr>cw_prepared := (cw_prepared w)[i := ?pp\<lparr>pp_pending := False\<rparr>]\<rparr>"
      have "prepared_ok env (cw_trusted w) (cw_store w) ?pp"
        using w True by (simp add: world_ok_def list_all_length)
      from moves_commit_rules [OF ok this] world_ok_moves [OF world_ok_prepared [OF w True]]
      show ?thesis using True commit_settles [of "cw_trusted w" ?pp "cw_store w"]
        by (simp add: CommitRules case_prod_beta) (simp add: with_store_def)
    qed (simp add: CommitRules w correlations.R_refl)
  next
    case (RollbackRules i)
    show ?thesis using world_ok_prepared [OF w, of i] w
      by (simp add: RollbackRules rollback_rules_sources_def correlations.R_refl)
  next
    case (AcceptResolution message p)
    show ?thesis using moved [OF moves_accept_resolution [OF ok]]
      by (simp add: AcceptResolution) (simp add: with_store_def)
  next
    case (AcceptRules message p)
    show ?thesis using moved [OF moves_acceptRulesSources [OF ok]]
      by (simp add: AcceptRules) (simp add: with_store_def)
  next
    case (AcceptMatches message p)
    show ?thesis using moved [OF moves_acceptSourceMatches [OF ok]]
      by (simp add: AcceptMatches) (simp add: with_store_def)
  qed (use moved [OF moves_discards(1) [OF ok]] moved [OF moves_discards(2) [OF ok]]
      moved [OF moves_discard [OF ok]] moved [OF moves_dispose(1) [OF ok]]
      moved [OF moves_dispose(2) [OF ok]] moved [OF moves_dispose(3) [OF ok]] in
      \<open>simp_all, simp_all add: with_store_def\<close>)
qed

definition new_world :: "nat \<Rightarrow> correlation_world" where
  "new_world n = \<lparr>cw_store = \<lparr>cs_correlations = [], cs_sequence = 0, cs_maximum = Suc n, cs_next_oid = 0\<rparr>,
     cw_trusted = [], cw_prepared = []\<rparr>"

lemma world_ok_new: "world_ok env (new_world n)"
  by (simp add: world_ok_def new_world_def store_ok_def find_correlation_def)

interpretation correlation_run: machine "correlation_step env" "new_world n" "world_ok env" for env n
  by unfold_locales (simp_all add: world_ok_new world_step)

lemma run_correlations_evolve:
  "world_ok env w \<Longrightarrow> correlations_evolve (cw_store w) (cw_store (foldl (correlation_step env) w es))"
proof (induction es arbitrary: w)
  case (Cons e es)
  then show ?case using world_step [OF Cons.prems, of e] by (auto intro: correlations.R_trans)
qed (simp add: correlations.R_refl)

end
