(* ===== verification/Correlation_Theorems.thy ===== *)
theory Correlation_Theorems
  imports Correlation_System
begin

text \<open>
  The properties of the correlation store: consistency along every run, authorities that are
  valid exactly as long as nothing they rest on has changed, publications that take effect at
  most once, and what a panel may ask for after an IDE has answered. A concrete run of one panel
  and one IDE is the witness.
\<close>

subsection \<open>Runs\<close>

abbreviation run_correlations :: "correlation_env \<Rightarrow> correlation_world \<Rightarrow> correlation_event list \<Rightarrow> correlation_world" where
  "run_correlations env \<equiv> foldl (correlation_step env)"

definition start_world :: "correlation_store \<Rightarrow> correlation_world" where
  "start_world st = \<lparr>cw_store = st, cw_trusted = [], cw_prepared = []\<rparr>"

lemma start_world_new:
  assumes "new_InspectCorrelationStore maximum = Inr st"
  obtains n where "start_world st = new_world n"
proof -
  obtain m where m: "0 < m" "st = \<lparr>cs_correlations = [], cs_sequence = 0, cs_maximum = nat m, cs_next_oid = 0\<rparr>"
    using assms by (auto simp: not_le split: option.splits jsnum.splits if_splits)
  then have "start_world st = new_world (nat m - 1)"
    by (simp add: start_world_def new_world_def)
  then show ?thesis by (rule that)
qed

lemma run_ok:
  assumes "new_InspectCorrelationStore maximum = Inr st"
  shows "world_ok env (run_correlations env (start_world st) es)"
  using start_world_new [OF assms] correlation_run.inv_run by metis

lemma trusted_step: "set (cw_trusted w) \<subseteq> set (cw_trusted (correlation_step env w e))"
  by (cases e) (auto simp: with_store_def createTransportTrustedIdePeerContext_def Let_def
      split: sum.split option.split prod.split)

lemma trusted_run: "set (cw_trusted w) \<subseteq> set (cw_trusted (run_correlations env w es))"
  by (induction es arbitrary: w) (use trusted_step in \<open>fastforce+\<close>)

lemma run_append: "run_correlations env w (es @ es') = run_correlations env (run_correlations env w es) es'"
  by simp

lemma maximum_run:
  "world_ok env w \<Longrightarrow> cs_maximum (cw_store (run_correlations env w es)) = cs_maximum (cw_store w)"
  using run_correlations_evolve unfolding correlations_evolve_def by blast

lemma kept_source:
  assumes "correlations_evolve s t" and "find_correlation t mid = Some c'"
    and "cor_sourceRevision c' \<le> cs_sequence s"
  obtains c where "find_correlation s mid = Some c" "progresses (cs_sequence s) c c'"
    "cor_sourceRevision c = cor_sourceRevision c'" "source_part c' = source_part c"
proof -
  from assms(1,2) consider c where "find_correlation s mid = Some c" "progresses (cs_sequence s) c c'"
    | "cs_sequence s < cor_sourceRevision c'" unfolding correlations_evolve_def by blast
  then show ?thesis
  proof cases
    case (1 c)
    then have "cor_sourceRevision c' = cor_sourceRevision c \<and> source_part c' = source_part c"
      using assms(3) unfolding progresses_def by linarith
    with 1 show ?thesis by (intro that [of c]) simp_all
  qed (use assms(3) in simp)
qed

lemma kept_rules:
  assumes "correlations_evolve s t" and "find_correlation t mid = Some c'"
    and "cor_rulesRevision c' \<le> cs_sequence s"
  obtains c where "find_correlation s mid = Some c" "progresses (cs_sequence s) c c'"
    "cor_rulesRevision c = cor_rulesRevision c'" "rules_part c' = rules_part c"
proof -
  from assms(1,2) consider c where "find_correlation s mid = Some c" "progresses (cs_sequence s) c c'"
    | "cs_sequence s < cor_rulesRevision c'" unfolding correlations_evolve_def by blast
  then show ?thesis
  proof cases
    case (1 c)
    then have "cor_rulesRevision c' = cor_rulesRevision c \<and> rules_part c' = rules_part c"
      using assms(3) unfolding progresses_def by linarith
    with 1 show ?thesis by (intro that [of c]) simp_all
  qed (use assms(3) in simp)
qed

subsection \<open>Authorities\<close>

lemma discard_source_iff:
  "fst (discardSourcePresentationAuthority a st) \<longleftrightarrow>
     (\<exists>c. find_correlation st (sa_messageId a) = Some c \<and> cor_channel c = sa_channel a \<and>
        cor_tabId c = sa_tabId a \<and> cor_windowId c = sa_windowId a \<and> cor_resGen c = sa_resGen a \<and>
        cor_sourcePeer c = Some (sa_context a) \<and> cor_sourceRevision c = sa_revision a)"
  by (simp add: discardSourcePresentationAuthority_def split: option.split)

lemma discard_rules_iff:
  "fst (discardRulesOpenAuthority a st) \<longleftrightarrow>
     (\<exists>c. find_correlation st (ra_messageId a) = Some c \<and> cor_channel c = ra_channel a \<and>
        cor_tabId c = ra_tabId a \<and> cor_windowId c = ra_windowId a \<and> cor_rulesGen c = ra_rulesGen a \<and>
        cor_rulesPeer c = Some (ra_context a) \<and> ra_openId a \<in> set (cor_openIds c) \<and>
        cor_rulesRevision c = ra_revision a)"
  by (simp add: discardRulesOpenAuthority_def split: option.split)

text \<open>What the requests read from the input, and what from the correlation.\<close>

definition panel_ok :: "correlation \<Rightarrow> jstring \<Rightarrow> int \<Rightarrow> int \<Rightarrow> bool" where
  "panel_ok c channel tab window \<longleftrightarrow>
     cor_channel c = channel \<and> cor_tabId c = tab \<and> cor_windowId c = window"

definition source_open_for :: "trusted_set \<Rightarrow> jstring \<times> int \<times> int \<times> jstring \<times> int \<times> jstring \<Rightarrow>
    correlation_store \<Rightarrow> source_authority option" where
  "source_open_for T = (\<lambda>(channel, tab, window, mid, gen, x) st. case find_correlation st mid of
     None \<Rightarrow> None
   | Some c \<Rightarrow> (case cor_sourcePeer c of
       None \<Rightarrow> None
     | Some p \<Rightarrow> if p \<in> set T \<and> panel_ok c channel tab window \<and> cor_resGen c = gen \<and> x \<in> set (cor_matchIds c)
         then Some \<lparr>sa_channel = cor_channel c, sa_messageId = mid, sa_resGen = cor_resGen c,
              sa_matchId = Some x, sa_tabId = cor_tabId c, sa_windowId = cor_windowId c,
              sa_context = p, sa_revision = cor_sourceRevision c\<rparr> else None))"

definition source_request :: "js_value \<Rightarrow> (jstring \<times> int \<times> int \<times> jstring \<times> int \<times> jstring) option" where
  "source_request input =
     Option.bind (snapshotExactDataRecord input [js ''channel'', js ''tabId'', js ''windowId'',
        js ''inspectMessageId'', js ''resolutionGeneration'', js ''matchId'']) (\<lambda>r.
     Option.bind (isValidDevtoolsChannel (jget r (js ''channel''))) (\<lambda>channel.
     Option.bind (isBrowserId (jget r (js ''tabId''))) (\<lambda>tabId.
     Option.bind (isBrowserId (jget r (js ''windowId''))) (\<lambda>windowId.
     Option.bind (isOpaqueId (jget r (js ''inspectMessageId''))) (\<lambda>mid.
     Option.bind (isResolutionGeneration (jget r (js ''resolutionGeneration''))) (\<lambda>gen.
     Option.bind (isOpaqueId (jget r (js ''matchId''))) (\<lambda>matchId.
       Some (channel, tabId, windowId, mid, gen, matchId))))))))"

lemma authorizeSourceOpen_eq:
  "authorizeSourceOpen T input st = Option.bind (source_request input) (\<lambda>q. source_open_for T q st)"
proof -
  have "Option.bind (find_correlation st mid) (\<lambda>c. Option.bind (cor_sourcePeer c) (\<lambda>context.
       if \<not> isTrustedIdePeerContext T context \<or> cor_channel c \<noteq> channel \<or> cor_tabId c \<noteq> tabId \<or>
          cor_windowId c \<noteq> windowId \<or> cor_resGen c \<noteq> gen \<or> matchId \<notin> set (cor_matchIds c)
       then None
       else Some \<lparr>sa_channel = cor_channel c, sa_messageId = mid, sa_resGen = cor_resGen c,
              sa_matchId = Some matchId, sa_tabId = cor_tabId c, sa_windowId = cor_windowId c,
              sa_context = context, sa_revision = cor_sourceRevision c\<rparr>)) =
      source_open_for T (channel, tabId, windowId, mid, gen, matchId) st"
    for channel tabId windowId mid gen matchId
    by (auto simp: source_open_for_def panel_ok_def isTrustedIdePeerContext_def split: option.split)
  then show ?thesis
    by (simp only: authorizeSourceOpen_def source_request_def Option.bind_assoc Option.bind.bind_lunit)
qed

definition settings_open_for :: "trusted_set \<Rightarrow> jstring \<times> int \<times> int \<times> jstring \<Rightarrow>
    correlation_store \<Rightarrow> source_authority option" where
  "settings_open_for T = (\<lambda>(channel, tab, window, mid) st. case find_correlation st mid of
     None \<Rightarrow> None
   | Some c \<Rightarrow> (case cor_sourcePeer c of
       None \<Rightarrow> None
     | Some p \<Rightarrow> if p \<in> set T \<and> panel_ok c channel tab window \<and> 0 \<le> cor_resGen c
         then Some \<lparr>sa_channel = cor_channel c, sa_messageId = mid, sa_resGen = cor_resGen c,
              sa_matchId = None, sa_tabId = cor_tabId c, sa_windowId = cor_windowId c,
              sa_context = p, sa_revision = cor_sourceRevision c\<rparr> else None))"

definition settings_request :: "js_value \<Rightarrow> (jstring \<times> int \<times> int \<times> jstring) option" where
  "settings_request input =
     Option.bind (snapshotExactDataRecord input [js ''channel'', js ''tabId'', js ''windowId'',
        js ''inspectMessageId'']) (\<lambda>r.
     Option.bind (isValidDevtoolsChannel (jget r (js ''channel''))) (\<lambda>channel.
     Option.bind (isBrowserId (jget r (js ''tabId''))) (\<lambda>tabId.
     Option.bind (isBrowserId (jget r (js ''windowId''))) (\<lambda>windowId.
     Option.bind (isOpaqueId (jget r (js ''inspectMessageId''))) (\<lambda>mid.
       Some (channel, tabId, windowId, mid))))))"

lemma authorizePresentationSettings_eq:
  "authorizePresentationSettings T input st =
     Option.bind (settings_request input) (\<lambda>q. settings_open_for T q st)"
proof -
  have "Option.bind (find_correlation st mid) (\<lambda>c. Option.bind (cor_sourcePeer c) (\<lambda>context.
       if \<not> isTrustedIdePeerContext T context \<or> cor_channel c \<noteq> channel \<or> cor_tabId c \<noteq> tabId \<or>
          cor_windowId c \<noteq> windowId \<or> cor_resGen c < 0
       then None
       else Some \<lparr>sa_channel = cor_channel c, sa_messageId = mid, sa_resGen = cor_resGen c,
              sa_matchId = None, sa_tabId = cor_tabId c, sa_windowId = cor_windowId c,
              sa_context = context, sa_revision = cor_sourceRevision c\<rparr>)) =
      settings_open_for T (channel, tabId, windowId, mid) st" for channel tabId windowId mid
    by (auto simp: settings_open_for_def panel_ok_def isTrustedIdePeerContext_def split: option.split)
  then show ?thesis
    by (simp only: authorizePresentationSettings_def settings_request_def Option.bind_assoc Option.bind.bind_lunit)
qed

definition rules_open_for :: "trusted_set \<Rightarrow> jstring \<times> int \<times> int \<times> jstring \<times> int \<times> jstring \<Rightarrow>
    correlation_store \<Rightarrow> rules_authority option" where
  "rules_open_for T = (\<lambda>(channel, tab, window, mid, gen, x) st. case find_correlation st mid of
     None \<Rightarrow> None
   | Some c \<Rightarrow> (case cor_rulesPeer c of
       None \<Rightarrow> None
     | Some p \<Rightarrow> if p \<in> set T \<and> panel_ok c channel tab window \<and> cor_rulesGen c = gen \<and> x \<in> set (cor_openIds c)
         then Some \<lparr>ra_channel = cor_channel c, ra_messageId = mid, ra_rulesGen = cor_rulesGen c,
              ra_openId = x, ra_tabId = cor_tabId c, ra_windowId = cor_windowId c,
              ra_context = p, ra_revision = cor_rulesRevision c\<rparr> else None))"

definition rules_request :: "js_value \<Rightarrow> (jstring \<times> int \<times> int \<times> jstring \<times> int \<times> jstring) option" where
  "rules_request input =
     Option.bind (snapshotExactDataRecord input [js ''channel'', js ''tabId'', js ''windowId'',
        js ''inspectMessageId'', js ''rulesGeneration'', js ''openAuthorityId'']) (\<lambda>r.
     Option.bind (isValidDevtoolsChannel (jget r (js ''channel''))) (\<lambda>channel.
     Option.bind (isBrowserId (jget r (js ''tabId''))) (\<lambda>tabId.
     Option.bind (isBrowserId (jget r (js ''windowId''))) (\<lambda>windowId.
     Option.bind (isOpaqueId (jget r (js ''inspectMessageId''))) (\<lambda>mid.
     Option.bind (isResolutionGeneration (jget r (js ''rulesGeneration''))) (\<lambda>gen.
     Option.bind (isOpaqueId (jget r (js ''openAuthorityId''))) (\<lambda>openId.
       Some (channel, tabId, windowId, mid, gen, openId))))))))"

lemma authorize_rules_open_eq:
  "authorize_rules_open T input st = Option.bind (rules_request input) (\<lambda>q. rules_open_for T q st)"
proof -
  have "Option.bind (find_correlation st mid) (\<lambda>c. Option.bind (cor_rulesPeer c) (\<lambda>context.
       if \<not> isTrustedIdePeerContext T context \<or> cor_channel c \<noteq> channel \<or> cor_tabId c \<noteq> tabId \<or>
          cor_windowId c \<noteq> windowId \<or> cor_rulesGen c \<noteq> gen \<or> openId \<notin> set (cor_openIds c)
       then None
       else Some \<lparr>ra_channel = cor_channel c, ra_messageId = mid, ra_rulesGen = cor_rulesGen c,
              ra_openId = openId, ra_tabId = cor_tabId c, ra_windowId = cor_windowId c,
              ra_context = context, ra_revision = cor_rulesRevision c\<rparr>)) =
      rules_open_for T (channel, tabId, windowId, mid, gen, openId) st"
    for channel tabId windowId mid gen openId
    by (auto simp: rules_open_for_def panel_ok_def isTrustedIdePeerContext_def split: option.split)
  then show ?thesis
    by (simp only: authorize_rules_open_def rules_request_def Option.bind_assoc Option.bind.bind_lunit)
qed

lemma source_open_for_SomeD:
  "source_open_for T (ch, tab, win, mid, gen, x) st = Some a \<Longrightarrow>
   \<exists>c. find_correlation st mid = Some c \<and> cor_sourcePeer c = Some (sa_context a) \<and> sa_context a \<in> set T \<and>
     panel_ok c ch tab win \<and> cor_resGen c = gen \<and> x \<in> set (cor_matchIds c) \<and>
     a = \<lparr>sa_channel = ch, sa_messageId = mid, sa_resGen = gen, sa_matchId = Some x, sa_tabId = tab,
          sa_windowId = win, sa_context = sa_context a, sa_revision = cor_sourceRevision c\<rparr>"
  by (auto simp: source_open_for_def panel_ok_def split: option.splits if_splits)

lemma settings_open_for_SomeD:
  "settings_open_for T (ch, tab, win, mid) st = Some a \<Longrightarrow>
   \<exists>c. find_correlation st mid = Some c \<and> cor_sourcePeer c = Some (sa_context a) \<and> sa_context a \<in> set T \<and>
     panel_ok c ch tab win \<and> 0 \<le> cor_resGen c \<and>
     a = \<lparr>sa_channel = ch, sa_messageId = mid, sa_resGen = cor_resGen c, sa_matchId = None, sa_tabId = tab,
          sa_windowId = win, sa_context = sa_context a, sa_revision = cor_sourceRevision c\<rparr>"
  by (auto simp: settings_open_for_def panel_ok_def split: option.splits if_splits)

lemma rules_open_for_SomeD:
  "rules_open_for T (ch, tab, win, mid, gen, x) st = Some a \<Longrightarrow>
   \<exists>c. find_correlation st mid = Some c \<and> cor_rulesPeer c = Some (ra_context a) \<and> ra_context a \<in> set T \<and>
     panel_ok c ch tab win \<and> cor_rulesGen c = gen \<and> x \<in> set (cor_openIds c) \<and>
     a = \<lparr>ra_channel = ch, ra_messageId = mid, ra_rulesGen = gen, ra_openId = x, ra_tabId = tab,
          ra_windowId = win, ra_context = ra_context a, ra_revision = cor_rulesRevision c\<rparr>"
  by (auto simp: rules_open_for_def panel_ok_def split: option.splits if_splits)

text \<open>An authority taken in one state, compared with a later state.\<close>

lemma source_current:
  assumes "source_open_for T q s = Some a" and "correlations_evolve s t" and "store_ok T s"
    and "set T \<subseteq> set T'"
  shows "fst (discardSourcePresentationAuthority a t) \<longleftrightarrow> source_open_for T' q t = Some a"
proof -
  obtain ch tab win mid gen x where q: "q = (ch, tab, win, mid, gen, x)" by (cases q)
  from source_open_for_SomeD [OF assms(1) [unfolded q]] obtain c where
    c: "find_correlation s mid = Some c" "sa_context a \<in> set T" "x \<in> set (cor_matchIds c)"
    and a: "a = \<lparr>sa_channel = ch, sa_messageId = mid, sa_resGen = gen, sa_matchId = Some x, sa_tabId = tab,
          sa_windowId = win, sa_context = sa_context a, sa_revision = cor_sourceRevision c\<rparr>" by blast
  have rv: "sa_revision a = cor_sourceRevision c" by (subst a) simp
  have f: "sa_channel a = ch" "sa_messageId a = mid" "sa_resGen a = gen" "sa_matchId a = Some x"
    "sa_tabId a = tab" "sa_windowId a = win" by (subst a, simp)+
  show ?thesis
  proof
    assume "fst (discardSourcePresentationAuthority a t)"
    then obtain c' where c': "find_correlation t mid = Some c'" "cor_channel c' = ch" "cor_tabId c' = tab"
        "cor_windowId c' = win" "cor_resGen c' = gen" "cor_sourcePeer c' = Some (sa_context a)"
        "cor_sourceRevision c' = cor_sourceRevision c"
      unfolding discard_source_iff f rv by blast
    have "cor_sourceRevision c' \<le> cs_sequence s" using assms(3) c(1) c'(7) by (auto simp: store_ok_def)
    from kept_source [OF assms(2) c'(1) this] c(1) have "cor_matchIds c' = cor_matchIds c"
      by (auto simp: source_part_def)
    moreover have "sa_context a \<in> set T'" using c(2) assms(4) by blast
    ultimately show "source_open_for T' q t = Some a"
      using c' c(3) f rv by (simp add: source_open_for_def q panel_ok_def)
  next
    assume "source_open_for T' q t = Some a"
    from source_open_for_SomeD [OF this [unfolded q]] obtain c' where
      at: "find_correlation t mid = Some c'" "cor_sourcePeer c' = Some (sa_context a)" "panel_ok c' ch tab win"
      "cor_resGen c' = gen"
      and a': "a = \<lparr>sa_channel = ch, sa_messageId = mid, sa_resGen = gen, sa_matchId = Some x, sa_tabId = tab,
          sa_windowId = win, sa_context = sa_context a, sa_revision = cor_sourceRevision c'\<rparr>" by blast
    have "sa_revision a = cor_sourceRevision c'" by (subst a') simp
    then show "fst (discardSourcePresentationAuthority a t)"
      using at f unfolding discard_source_iff panel_ok_def by metis
  qed
qed

lemma settings_current:
  assumes "settings_open_for T q s = Some a" and "correlations_evolve s t" and "store_ok T s"
    and "set T \<subseteq> set T'"
  shows "fst (discardSourcePresentationAuthority a t) \<longleftrightarrow> settings_open_for T' q t = Some a"
proof -
  obtain ch tab win mid where q: "q = (ch, tab, win, mid)" by (cases q)
  from settings_open_for_SomeD [OF assms(1) [unfolded q]] obtain c where
    c: "find_correlation s mid = Some c" "sa_context a \<in> set T" "0 \<le> cor_resGen c"
    and a: "a = \<lparr>sa_channel = ch, sa_messageId = mid, sa_resGen = cor_resGen c, sa_matchId = None, sa_tabId = tab,
          sa_windowId = win, sa_context = sa_context a, sa_revision = cor_sourceRevision c\<rparr>" by blast
  have f: "sa_channel a = ch" "sa_messageId a = mid" "sa_resGen a = cor_resGen c" "sa_matchId a = None"
    "sa_tabId a = tab" "sa_windowId a = win" by (subst a, simp)+
  show ?thesis
  proof
    assume "fst (discardSourcePresentationAuthority a t)"
    then obtain c' where c': "find_correlation t mid = Some c'" "cor_channel c' = ch" "cor_tabId c' = tab"
        "cor_windowId c' = win" "cor_resGen c' = cor_resGen c" "cor_sourcePeer c' = Some (sa_context a)"
        "cor_sourceRevision c' = sa_revision a"
      unfolding discard_source_iff f by blast
    moreover have "sa_context a \<in> set T'" using c(2) assms(4) by blast
    ultimately show "settings_open_for T' q t = Some a"
      using c(3) f by (simp add: settings_open_for_def q panel_ok_def)
  next
    assume "settings_open_for T' q t = Some a"
    from settings_open_for_SomeD [OF this [unfolded q]] obtain c' where
      at: "find_correlation t mid = Some c'" "cor_sourcePeer c' = Some (sa_context a)" "panel_ok c' ch tab win"
      and a': "a = \<lparr>sa_channel = ch, sa_messageId = mid, sa_resGen = cor_resGen c', sa_matchId = None, sa_tabId = tab,
          sa_windowId = win, sa_context = sa_context a, sa_revision = cor_sourceRevision c'\<rparr>" by blast
    have "sa_revision a = cor_sourceRevision c'" "sa_resGen a = cor_resGen c'" by (subst a', simp)+
    then show "fst (discardSourcePresentationAuthority a t)"
      using at f unfolding discard_source_iff panel_ok_def by metis
  qed
qed

lemma rules_current:
  assumes "rules_open_for T q s = Some a" and "correlations_evolve s t" and "store_ok T s"
    and "set T \<subseteq> set T'"
  shows "fst (discardRulesOpenAuthority a t) \<longleftrightarrow> rules_open_for T' q t = Some a"
proof -
  obtain ch tab win mid gen x where q: "q = (ch, tab, win, mid, gen, x)" by (cases q)
  from rules_open_for_SomeD [OF assms(1) [unfolded q]] obtain c where
    c: "find_correlation s mid = Some c" "ra_context a \<in> set T" "x \<in> set (cor_openIds c)"
    and a: "a = \<lparr>ra_channel = ch, ra_messageId = mid, ra_rulesGen = gen, ra_openId = x, ra_tabId = tab,
          ra_windowId = win, ra_context = ra_context a, ra_revision = cor_rulesRevision c\<rparr>" by blast
  have f: "ra_channel a = ch" "ra_messageId a = mid" "ra_rulesGen a = gen" "ra_openId a = x"
    "ra_tabId a = tab" "ra_windowId a = win" by (subst a, simp)+
  show ?thesis
  proof
    assume "fst (discardRulesOpenAuthority a t)"
    then obtain c' where c': "find_correlation t mid = Some c'" "cor_channel c' = ch" "cor_tabId c' = tab"
        "cor_windowId c' = win" "cor_rulesGen c' = gen" "cor_rulesPeer c' = Some (ra_context a)"
        "x \<in> set (cor_openIds c')" "cor_rulesRevision c' = ra_revision a"
      unfolding discard_rules_iff f by blast
    moreover have "ra_context a \<in> set T'" using c(2) assms(4) by blast
    ultimately show "rules_open_for T' q t = Some a"
      using f by (simp add: rules_open_for_def q panel_ok_def)
  next
    assume "rules_open_for T' q t = Some a"
    from rules_open_for_SomeD [OF this [unfolded q]] obtain c' where
      at: "find_correlation t mid = Some c'" "cor_rulesPeer c' = Some (ra_context a)" "panel_ok c' ch tab win"
      "cor_rulesGen c' = gen" "x \<in> set (cor_openIds c')"
      and a': "a = \<lparr>ra_channel = ch, ra_messageId = mid, ra_rulesGen = gen, ra_openId = x, ra_tabId = tab,
          ra_windowId = win, ra_context = ra_context a, ra_revision = cor_rulesRevision c'\<rparr>" by blast
    have "ra_revision a = cor_rulesRevision c'" by (subst a') simp
    then show "fst (discardRulesOpenAuthority a t)"
      using at f unfolding discard_rules_iff panel_ok_def by metis
  qed
qed

subsection \<open>Requests as plain objects\<close>

definition request_input :: "jstring \<Rightarrow> jstring \<Rightarrow> jstring \<Rightarrow> int \<Rightarrow> int \<Rightarrow> jstring \<Rightarrow> int \<Rightarrow> jstring \<Rightarrow> js_value" where
  "request_input genKey idKey channel tab window mid gen x = VObject True
     [(StrKey (js ''channel''), True, Some (VStr channel)), (StrKey (js ''tabId''), True, Some (VNum (JInt tab))),
      (StrKey (js ''windowId''), True, Some (VNum (JInt window))),
      (StrKey (js ''inspectMessageId''), True, Some (VStr mid)),
      (StrKey genKey, True, Some (VNum (JInt gen))), (StrKey idKey, True, Some (VStr x))]"

definition source_open_input :: "jstring \<Rightarrow> int \<Rightarrow> int \<Rightarrow> jstring \<Rightarrow> int \<Rightarrow> jstring \<Rightarrow> js_value" where
  "source_open_input = request_input (js ''resolutionGeneration'') (js ''matchId'')"

definition rules_open_input :: "jstring \<Rightarrow> int \<Rightarrow> int \<Rightarrow> jstring \<Rightarrow> int \<Rightarrow> jstring \<Rightarrow> js_value" where
  "rules_open_input = request_input (js ''rulesGeneration'') (js ''openAuthorityId'')"

lemma request_input_record:
  "snapshotExactDataRecord (request_input g k channel tab window mid gen x)
     [js ''channel'', js ''tabId'', js ''windowId'', js ''inspectMessageId'', g, k] =
   (if length channel \<le> MAX_SNAPSHOT_STRING_LENGTH \<and> length mid \<le> MAX_SNAPSHOT_STRING_LENGTH \<and>
       length x \<le> MAX_SNAPSHOT_STRING_LENGTH
    then Some [(js ''channel'', JStr channel), (js ''tabId'', JNum (JInt tab)),
      (js ''windowId'', JNum (JInt window)), (js ''inspectMessageId'', JStr mid),
      (g, JNum (JInt gen)), (k, JStr x)] else None)"
  by (simp add: snapshotExactDataRecord_def snapshot_data_def request_input_def defaultSnapshotLimits_def
      numeral_eq_Suc MAX_SNAPSHOT_DEPTH_def MAX_SNAPSHOT_OBJECT_KEYS_def split del: if_split) simp

lemma guard_lengths:
  "isValidDevtoolsChannel (Some (JStr s)) = Some t \<Longrightarrow> t = s \<and> length s \<le> MAX_SNAPSHOT_STRING_LENGTH"
  "isOpaqueId (Some (JStr s)) = Some t \<Longrightarrow> t = s \<and> length s \<le> MAX_SNAPSHOT_STRING_LENGTH"
  "isBrowserId (Some (JNum (JInt n))) = Some m \<Longrightarrow> m = n"
  "isResolutionGeneration (Some (JNum (JInt n))) = Some m \<Longrightarrow> m = n"
  by (auto simp: isValidDevtoolsChannel_def isOpaqueId_def isBrowserId_def isResolutionGeneration_def
      MAX_SNAPSHOT_STRING_LENGTH_def DEVTOOLS_CHANNEL_MAX_LENGTH_def split: if_splits)

definition request_ok :: "jstring \<Rightarrow> int \<Rightarrow> int \<Rightarrow> jstring \<Rightarrow> int \<Rightarrow> jstring \<Rightarrow> bool" where
  "request_ok channel tab window mid gen x \<longleftrightarrow>
     isValidDevtoolsChannel (Some (JStr channel)) = Some channel \<and>
     isBrowserId (Some (JNum (JInt tab))) = Some tab \<and> isBrowserId (Some (JNum (JInt window))) = Some window \<and>
     isOpaqueId (Some (JStr mid)) = Some mid \<and> isResolutionGeneration (Some (JNum (JInt gen))) = Some gen \<and>
     isOpaqueId (Some (JStr x)) = Some x"

lemma request_okI:
  assumes "isValidDevtoolsChannel (Some (JStr channel)) = Some c'" and "isBrowserId (Some (JNum (JInt tab))) = Some t'"
    and "isBrowserId (Some (JNum (JInt window))) = Some w'" and "isOpaqueId (Some (JStr mid)) = Some m'"
    and "isResolutionGeneration (Some (JNum (JInt gen))) = Some g'" and "isOpaqueId (Some (JStr x)) = Some x'"
  shows "request_ok channel tab window mid gen x"
  using assms guard_lengths(1) [OF assms(1)] guard_lengths(3) [OF assms(2)] guard_lengths(3) [OF assms(3)]
    guard_lengths(2) [OF assms(4)] guard_lengths(4) [OF assms(5)] guard_lengths(2) [OF assms(6)]
  by (simp add: request_ok_def)

lemma source_request_input:
  "source_request (source_open_input channel tab window mid gen x) =
     (if request_ok channel tab window mid gen x then Some (channel, tab, window, mid, gen, x) else None)"
proof (cases "request_ok channel tab window mid gen x")
  case True
  then show ?thesis using guard_lengths(1,2)
    by (simp add: source_request_def source_open_input_def request_input_record request_ok_def)
next
  case False
  have "source_request (source_open_input channel tab window mid gen x) = None"
  proof (rule ccontr)
    assume "source_request (source_open_input channel tab window mid gen x) \<noteq> None"
    then have "request_ok channel tab window mid gen x"
      by (auto simp: source_request_def source_open_input_def request_input_record Option.bind_eq_Some_conv
          intro: request_okI split: if_split_asm)
    with False show False by simp
  qed
  with False show ?thesis by simp
qed

lemma rules_request_input:
  "rules_request (rules_open_input channel tab window mid gen x) =
     (if request_ok channel tab window mid gen x then Some (channel, tab, window, mid, gen, x) else None)"
proof (cases "request_ok channel tab window mid gen x")
  case True
  then show ?thesis using guard_lengths(1,2)
    by (simp add: rules_request_def rules_open_input_def request_input_record request_ok_def)
next
  case False
  have "rules_request (rules_open_input channel tab window mid gen x) = None"
  proof (rule ccontr)
    assume "rules_request (rules_open_input channel tab window mid gen x) \<noteq> None"
    then have "request_ok channel tab window mid gen x"
      by (auto simp: rules_request_def rules_open_input_def request_input_record Option.bind_eq_Some_conv
          intro: request_okI split: if_split_asm)
    with False show False by simp
  qed
  with False show ?thesis by simp
qed

subsection \<open>A run with one panel and one IDE\<close>

definition example_resolution :: resolution_message where
  "example_resolution = \<lparr>messageId = js ''r'', sessionId = js ''s'', inspectMessageId = js ''i'',
     res_sourceId = js ''ide'', res_resolutionGeneration = 1,
     res_document = Some \<lparr>doc_label = js ''a'', doc_languageId = js ''css''\<rparr>, res_status = Matched,
     res_selectedMatchCount = 1, res_parentMatchCount = 0, res_inaccessibleStylesheetCount = 0,
     res_diagnosticCodes = []\<rparr>"

definition example_matches :: source_matches_message where
  "example_matches = \<lparr>messageId = js ''m'', sessionId = js ''s'', inspectMessageId = js ''i'',
     sm_sourceId = js ''ide'', sm_resolutionGeneration = 1,
     sm_document = \<lparr>doc_label = js ''a'', doc_languageId = js ''css''\<rparr>,
     sm_matches = [\<lparr>ex_matchId = js ''x'', ex_targetRole = Selected, ex_label = js ''l'', ex_kind = KRule,
       ex_relation = RMatches, ex_confidence = Exact, ex_startLine = 1, ex_endLine = 1, ex_text = js ''t'',
       ex_truncated = False\<rparr>],
     sm_omittedMatchCount = 0\<rparr>"

definition example_rules :: rules_sources_message where
  "example_rules = \<lparr>messageId = js ''q'', sessionId = js ''s'', inspectMessageId = js ''i'',
     rsm_sourceId = js ''ide'', rsm_rulesGeneration = 1,
     rsm_sources = [\<lparr>rs_ruleRef = js ''rule:0'', rs_openAuthorityId = js ''o'', rs_label = js ''a.css'',
       rs_languageId = Css, rs_startLine = 1, rs_startColumn = 1, rs_confidence = ExactSource\<rparr>],
     rsm_unresolvedRuleCount = 0\<rparr>"

definition example_correlation_env :: correlation_env where
  "example_correlation_env =
     \<lparr>ce_schema = \<lparr>se_uuid = (\<lambda>_. True), se_datetime = (\<lambda>_. True), se_url = (\<lambda>_ _. None), se_stringify = (\<lambda>_. Some [])\<rparr>,
      ce_decode = (\<lambda>j. if j = JNum (JInt 1) then Some (Resolution example_resolution)
        else if j = JNum (JInt 2) then Some (SourceMatches example_matches)
        else if j = JNum (JInt 3) then Some (RulesSources example_rules) else None)\<rparr>"

definition example_batch :: evidence_batch where
  "example_batch = \<lparr>eb_rules = [\<lparr>ev_ruleRef = js ''rule:0'', ev_selector = js ''a'', ev_declarations = [],
     ev_declarationsTruncated = False, ev_generatedSource = None\<rparr>], eb_omittedRuleCount = 0\<rparr>"

lemma example_batch_ok: "evidence_batch_ok (ce_schema example_correlation_env) example_batch"
  by code_simp

lemmas message_ok_defs = resolution_ok_def source_matches_ok_def rules_sources_ok_def opaqueId_def
  text_between_def opt_ok_def generation_ok_def count_ok_def source_document_ok_def resolution_refined_def
  serialized_budget_ok_def limit_defs source_excerpt_ok_def rules_source_ok_def line_ok_def column_ok_def
  RESOLUTION_ENVELOPE_MAX_BYTES_def SOURCE_PRESENTATION_ENVELOPE_MAX_BYTES_def
  RULES_SOURCES_ENVELOPE_MAX_BYTES_def

lemma example_label_ok: "rules_source_label_ok (js ''a.css'')"
  by code_simp

lemma example_text: "utf8ByteLength (js ''t'') = 1" "logical_lines (js ''t'') = 1"
  by code_simp+

lemma example_messages_ok:
  "message_ok (ce_schema example_correlation_env) (Resolution example_resolution)"
  "message_ok (ce_schema example_correlation_env) (SourceMatches example_matches)"
  "message_ok (ce_schema example_correlation_env) (RulesSources example_rules)"
  using example_label_ok example_text
  by (simp_all add: message_ok_defs example_resolution_def example_matches_def example_rules_def
      example_correlation_env_def set_of_def)

lemma example_guards:
  "isValidDevtoolsChannel (Some (JStr (js ''p''))) = Some (js ''p'')"
  "isOpaqueId (Some (JStr (js ''i''))) = Some (js ''i'')"
  "isOpaqueId (Some (JStr (js ''s''))) = Some (js ''s'')"
  "isOpaqueId (Some (JStr (js ''x''))) = Some (js ''x'')"
  "isOpaqueId (Some (JStr (js ''o''))) = Some (js ''o'')"
  "isOpaqueId (Some (JStr (js ''ide''))) = Some (js ''ide'')"
  "isBrowserId (Some (JNum (JInt 7))) = Some 7" "isBrowserId (Some (JNum (JInt 3))) = Some 3"
  "isResolutionGeneration (Some (JNum (JInt 1))) = Some 1"
  by code_simp+

lemma example_parses:
  "parseProtocolData (VNum (JInt 1)) (parse_with example_correlation_env as_resolution) = Some example_resolution"
  "parseProtocolData (VNum (JInt 2)) (parse_with example_correlation_env as_source_matches) = Some example_matches"
  "parseRulesSourcesProtocolData (VNum (JInt 3)) (parse_with example_correlation_env as_rules_sources) = Some example_rules"
  using example_messages_ok
  by (simp_all add: parseProtocolData_def parseRulesSourcesProtocolData_def parseProtocolDataWithLimits_def
      parse_with_def snapshot_data_def example_correlation_env_def)

definition example_peer :: trusted_peer where
  "example_peer = \<lparr>tp_ref = 0, tp_windowId = 3, tp_sessionId = js ''s'', tp_sourceId = js ''ide''\<rparr>"

definition example_store :: correlation_store where
  "example_store = \<lparr>cs_correlations = [], cs_sequence = 0, cs_maximum = 256, cs_next_oid = 0\<rparr>"

lemma example_store_new: "new_InspectCorrelationStore None = Inr example_store"
  by (simp add: example_store_def DEFAULT_MAX_INSPECT_CORRELATIONS_def safe_int_def)

text \<open>The panel's message is recorded, the IDE resolves it and publishes its matches; then its
  rules are prepared and published.\<close>

definition example_answer :: "correlation_event list" where
  "example_answer = [CreatePeer (JNum (JInt 3)) (JStr (js ''s'')) (JStr (js ''ide'')),
     RecordInspect (js ''p'') (js ''i'') (JInt 7) (JInt 3) example_batch,
     AcceptResolution (VNum (JInt 1)) example_peer]"

definition example_publication :: "correlation_event list" where
  "example_publication = [AcceptMatches (VNum (JInt 2)) example_peer,
     PrepareRules (VNum (JInt 3)) example_peer, CommitRules 0]"

definition example_correlation :: correlation where
  "example_correlation = \<lparr>cor_oid = 0, cor_channel = js ''p'', cor_tabId = 7, cor_windowId = 3,
     cor_expected = [js ''rule:0''], cor_sourceRevision = 3, cor_rulesRevision = 2,
     cor_resGen = 1, cor_rulesGen = -1, cor_sessionId = Some (js ''s''), cor_sourceId = Some (js ''ide''),
     cor_document = Some \<lparr>doc_label = js ''a'', doc_languageId = js ''css''\<rparr>,
     cor_sourcePeer = Some example_peer, cor_rulesPeer = None, cor_matchIds = [], cor_openIds = []\<rparr>"

definition example_world :: "nat \<Rightarrow> correlation \<Rightarrow> prepared_rules list \<Rightarrow> correlation_world" where
  "example_world n c pps = \<lparr>cw_store = \<lparr>cs_correlations = [(js ''i'', c)], cs_sequence = n, cs_maximum = 256,
     cs_next_oid = 1\<rparr>, cw_trusted = [example_peer], cw_prepared = pps\<rparr>"

lemma example_create:
  "correlation_step env (start_world example_store) (CreatePeer (JNum (JInt 3)) (JStr (js ''s'')) (JStr (js ''ide''))) =
   \<lparr>cw_store = example_store, cw_trusted = [example_peer], cw_prepared = []\<rparr>"
  by (simp add: start_world_def createTransportTrustedIdePeerContext_def example_guards example_peer_def
      Let_def)

lemma example_record:
  "correlation_step example_correlation_env \<lparr>cw_store = example_store, cw_trusted = [example_peer], cw_prepared = []\<rparr>
     (RecordInspect (js ''p'') (js ''i'') (JInt 7) (JInt 3) example_batch) =
   example_world 2 (fresh_correlation example_store (js ''p'') 7 3 example_batch) []"
  by (simp add: record_inspect_eq recordable_def example_guards example_batch_ok example_world_def
      example_store_def with_store_def evict_eq_drop Let_def)

lemma example_resolve:
  "correlation_step example_correlation_env
     (example_world 2 (fresh_correlation example_store (js ''p'') 7 3 example_batch) [])
     (AcceptResolution (VNum (JInt 1)) example_peer) =
   example_world 3 example_correlation []"
  by (simp add: example_world_def with_store_def accept_resolution_def example_parses find_correlation_def
      isTrustedIdePeerContext_def payload_matches_iff fresh_correlation_def example_store_def
      example_resolution_def example_peer_def bound_elsewhere_def nextAuthorityRevision_def
      touch_correlation_def example_correlation_def example_batch_def set_of_def set_add_def)

lemma example_answer_run:
  "run_correlations example_correlation_env (start_world example_store) example_answer =
     example_world 3 example_correlation []"
  by (simp only: example_answer_def foldl.simps example_create example_record example_resolve)

definition example_published :: correlation where
  "example_published = example_correlation\<lparr>cor_matchIds := [js ''x''], cor_sourceRevision := 4\<rparr>"

definition example_prepared :: prepared_rules where
  "example_prepared = \<lparr>pp_pending = True, pp_channel = js ''p'', pp_oid = 0, pp_message = example_rules,
     pp_peer = example_peer, pp_previousGen = -1, pp_previousRevision = 2\<rparr>"

lemma example_matches_step:
  "correlation_step example_correlation_env (example_world 3 example_correlation [])
     (AcceptMatches (VNum (JInt 2)) example_peer) = example_world 4 example_published []"
  by (simp add: example_world_def with_store_def acceptSourceMatches_def example_parses find_correlation_def
      isTrustedIdePeerContext_def payload_matches_iff example_correlation_def example_published_def
      example_matches_def example_peer_def correlationMatchesPeer_def matchesCurrentAuthority_def
      nextAuthorityRevision_def put_correlation_def set_add_def)

lemma example_prepare_step:
  "correlation_step example_correlation_env (example_world 4 example_published [])
     (PrepareRules (VNum (JInt 3)) example_peer) = example_world 4 example_published [example_prepared]"
  by (simp add: example_world_def prepare_rules_sources_def example_parses find_correlation_def
      isTrustedIdePeerContext_def payload_matches_iff example_correlation_def example_published_def
      example_rules_def example_peer_def bound_elsewhere_def rulesSourcesCoverExpectedRefs_def
      example_prepared_def)

lemma example_commit:
  "commit_rules_sources [example_peer] example_prepared (cw_store (example_world 4 example_published pps)) =
     (True, example_prepared\<lparr>pp_pending := False\<rparr>, cw_store (example_world 5
        (published example_rules example_peer example_published 5) pps))"
  by (simp add: commit_rules_sources_eq still_current_def example_world_def find_correlation_def
      payload_matches_iff example_correlation_def example_published_def example_rules_def
      example_peer_def example_prepared_def bound_elsewhere_def touch_correlation_def)

lemma example_publication_run:
  "run_correlations example_correlation_env (example_world 3 example_correlation []) example_publication =
     example_world 5 (published example_rules example_peer example_published 5)
       [example_prepared\<lparr>pp_pending := False\<rparr>]"
proof -
  have "cw_trusted (example_world 4 example_published [example_prepared]) = [example_peer]"
    "cw_prepared (example_world 4 example_published [example_prepared]) = [example_prepared]"
    by (simp_all add: example_world_def)
  then have "correlation_step example_correlation_env (example_world 4 example_published [example_prepared])
      (CommitRules 0) = example_world 5 (published example_rules example_peer example_published 5)
       [example_prepared\<lparr>pp_pending := False\<rparr>]"
    by (simp add: example_commit) (simp add: with_store_def example_world_def)
  then show ?thesis
    by (simp only: example_publication_def foldl.simps example_matches_step example_prepare_step)
qed

lemma example_matched_run:
  "run_correlations example_correlation_env (start_world example_store)
     (example_answer @ [AcceptMatches (VNum (JInt 2)) example_peer]) = example_world 4 example_published []"
  by (simp only: run_append example_answer_run foldl.simps example_matches_step)

lemma example_prepared_run:
  "run_correlations example_correlation_env (start_world example_store)
     (example_answer @ [AcceptMatches (VNum (JInt 2)) example_peer, PrepareRules (VNum (JInt 3)) example_peer]) =
   example_world 4 example_published [example_prepared]"
  by (simp only: run_append example_answer_run foldl.simps example_matches_step example_prepare_step)

lemma example_commit_run:
  "run_correlations example_correlation_env (example_world 4 example_published [])
     [PrepareRules (VNum (JInt 3)) example_peer, CommitRules 0] =
     example_world 5 (published example_rules example_peer example_published 5)
       [example_prepared\<lparr>pp_pending := False\<rparr>]"
  using example_publication_run by (simp only: example_publication_def foldl.simps example_matches_step)

lemma example_find: "find_correlation (cw_store (example_world n c pps)) (js ''i'') = Some c"
  by (simp add: example_world_def find_correlation_def)

lemma example_world_fields [simp]:
  "cw_trusted (example_world n c pps) = [example_peer]" "cw_prepared (example_world n c pps) = pps"
  by (simp_all add: example_world_def)

subsection \<open>Properties\<close>

lemma correlation_ok_peers:
  assumes "correlation_ok T c" and "cor_sourcePeer c = Some p \<or> cor_rulesPeer c = Some p"
  shows "p \<in> set T \<and> tp_windowId p = cor_windowId c \<and>
    cor_sessionId c = Some (tp_sessionId p) \<and> cor_sourceId c = Some (tp_sourceId p)"
proof -
  have "peer_bound T c p" using assms by (auto simp: correlation_ok_def)
  then show ?thesis by (simp add: peer_bound_def correlationMatchesPeer_def)
qed

lemma correlation_ok_offers:
  "correlation_ok T c \<Longrightarrow> (cor_sourcePeer c = None \<longrightarrow> cor_matchIds c = []) \<and>
     (cor_rulesPeer c = None \<longrightarrow> cor_openIds c = []) \<and> length (cor_openIds c) \<le> length (cor_expected c)"
  by (auto simp: correlation_ok_def)

text \<open>C12:
  Along every run of a new correlation store, with any values from outside, every order of
  preparing, committing and rolling back, and any peers: at most \<open>maximumSize\<close> correlations are
  kept, one per message, panel and tab; a correlation has answers of one session and one IDE
  only, which are a trusted peer of its own window; it offers matches and rule sources only after
  that peer answered, and never more rule sources than the panel reported rules.
\<close>
theorem correlations_consistent:
  assumes "new_InspectCorrelationStore maximum = Inr st0"
    and "w = run_correlations env (start_world st0) es"
  shows "distinct (jkeys (cs_correlations (cw_store w))) \<and>
    length (cs_correlations (cw_store w)) \<le> cs_maximum st0 \<and>
    (\<forall>mid c. find_correlation (cw_store w) mid = Some c \<longrightarrow>
       (\<forall>mid' c'. find_correlation (cw_store w) mid' = Some c' \<longrightarrow>
          cor_channel c' = cor_channel c \<or> cor_tabId c' = cor_tabId c \<longrightarrow> mid' = mid) \<and>
       (\<forall>p. cor_sourcePeer c = Some p \<or> cor_rulesPeer c = Some p \<longrightarrow>
          p \<in> set (cw_trusted w) \<and> tp_windowId p = cor_windowId c \<and>
          cor_sessionId c = Some (tp_sessionId p) \<and> cor_sourceId c = Some (tp_sourceId p)) \<and>
       (cor_sourcePeer c = None \<longrightarrow> cor_matchIds c = []) \<and> (cor_rulesPeer c = None \<longrightarrow> cor_openIds c = []) \<and>
       length (cor_openIds c) \<le> length (cor_expected c))"
proof -
  have ok: "store_ok (cw_trusted w) (cw_store w)"
    using run_ok [OF assms(1), of env es] assms(2) by (simp add: world_ok_def)
  obtain n where "start_world st0 = new_world n" by (rule start_world_new [OF assms(1)])
  then have "cs_maximum (cw_store w) = cs_maximum st0"
    using maximum_run [OF world_ok_new, of env n es] assms(2) by (metis start_world_def correlation_world.select_convs(1))
  moreover have "distinct (jkeys (cs_correlations (cw_store w)))"
      "length (cs_correlations (cw_store w)) \<le> cs_maximum (cw_store w)" using ok by (simp_all add: store_ok_def)
  moreover have "(\<forall>mid' c'. find_correlation (cw_store w) mid' = Some c' \<longrightarrow>
          cor_channel c' = cor_channel c \<or> cor_tabId c' = cor_tabId c \<longrightarrow> mid' = mid) \<and>
       (\<forall>p. cor_sourcePeer c = Some p \<or> cor_rulesPeer c = Some p \<longrightarrow>
          p \<in> set (cw_trusted w) \<and> tp_windowId p = cor_windowId c \<and>
          cor_sessionId c = Some (tp_sessionId p) \<and> cor_sourceId c = Some (tp_sourceId p))"
    (is "?unique \<and> ?peers") if at: "find_correlation (cw_store w) mid = Some c" for mid c
  proof
    show ?unique using ok at unfolding store_ok_def by blast
    have "correlation_ok (cw_trusted w) c" using ok at by (simp add: store_ok_def)
    from correlation_ok_peers [OF this] show ?peers by blast
  qed
  moreover have "(cor_sourcePeer c = None \<longrightarrow> cor_matchIds c = []) \<and>
     (cor_rulesPeer c = None \<longrightarrow> cor_openIds c = []) \<and> length (cor_openIds c) \<le> length (cor_expected c)"
    if "find_correlation (cw_store w) mid = Some c" for mid c
    by (rule correlation_ok_offers [of "cw_trusted w"]) (use ok that in \<open>simp add: store_ok_def\<close>)
  ultimately show ?thesis by simp
qed

theorem correlations_consistent_witness:
  "find_correlation (cw_store (example_world 5 (published example_rules example_peer example_published 5)
      [example_prepared\<lparr>pp_pending := False\<rparr>])) (js ''i'') =
     Some (published example_rules example_peer example_published 5) \<and>
   cor_openIds (published example_rules example_peer example_published 5) = [js ''o''] \<and>
   length (cor_openIds (published example_rules example_peer example_published 5)) \<le> length [js ''rule:0'']"
proof -
  let ?c = "published example_rules example_peer example_published 5"
  have run: "example_world 5 ?c [example_prepared\<lparr>pp_pending := False\<rparr>] =
      run_correlations example_correlation_env (start_world example_store) (example_answer @ example_publication)"
    by (simp only: run_append example_answer_run example_publication_run)
  have "cor_openIds ?c = [js ''o'']" "cor_expected ?c = [js ''rule:0'']"
    by (simp_all add: published_def example_rules_def set_of_def set_add_def example_published_def
        example_correlation_def)
  then show ?thesis using correlations_consistent [OF example_store_new run] example_find by simp
qed

text \<open>C11:
  An authority is valid exactly as long as it would be given again: at any time after it was
  given, whatever happened in between, it can be used to discard its correlation if and only if
  the same request would now be answered with the same authority. So an old authority never acts on a newer
  answer, message or peer that looks the same.
\<close>
theorem authority_current_iff:
  assumes "new_InspectCorrelationStore maximum = Inr st0"
    and "w = run_correlations env (start_world st0) es" and "w' = run_correlations env w es'"
  shows "(authorizeSourceOpen (cw_trusted w) input (cw_store w) = Some a \<longrightarrow>
       (fst (discardSourcePresentationAuthority a (cw_store w')) \<longleftrightarrow>
          authorizeSourceOpen (cw_trusted w') input (cw_store w') = Some a)) \<and>
    (authorizePresentationSettings (cw_trusted w) input (cw_store w) = Some a \<longrightarrow>
       (fst (discardSourcePresentationAuthority a (cw_store w')) \<longleftrightarrow>
          authorizePresentationSettings (cw_trusted w') input (cw_store w') = Some a)) \<and>
    (authorize_rules_open (cw_trusted w) input (cw_store w) = Some b \<longrightarrow>
       (fst (discardRulesOpenAuthority b (cw_store w')) \<longleftrightarrow>
          authorize_rules_open (cw_trusted w') input (cw_store w') = Some b))"
proof -
  have w: "world_ok env w" using run_ok [OF assms(1)] assms(2) by simp
  then have ok: "store_ok (cw_trusted w) (cw_store w)" by (simp add: world_ok_def)
  have ev: "correlations_evolve (cw_store w) (cw_store w')"
    unfolding assms(3) by (rule run_correlations_evolve [OF w])
  have sub: "set (cw_trusted w) \<subseteq> set (cw_trusted w')" unfolding assms(3) by (rule trusted_run)
  note same = source_current [OF _ ev ok sub] settings_current [OF _ ev ok sub] rules_current [OF _ ev ok sub]
  show ?thesis
    unfolding authorizeSourceOpen_eq authorizePresentationSettings_eq authorize_rules_open_eq
    by (cases "source_request input"; cases "settings_request input"; cases "rules_request input")
      (simp_all add: same)
qed

theorem authority_current_iff_witness:
  "\<exists>a. authorizeSourceOpen [example_peer] (source_open_input (js ''p'') 7 3 (js ''i'') 1 (js ''x''))
        (cw_store (example_world 4 example_published [])) = Some a \<and>
     fst (discardSourcePresentationAuthority a (cw_store
       (example_world 5 (published example_rules example_peer example_published 5)
          [example_prepared\<lparr>pp_pending := False\<rparr>])))"
proof -
  let ?i = "source_open_input (js ''p'') 7 3 (js ''i'') 1 (js ''x'')"
  let ?a = "\<lparr>sa_channel = js ''p'', sa_messageId = js ''i'', sa_resGen = 1, sa_matchId = Some (js ''x''),
     sa_tabId = 7, sa_windowId = 3, sa_context = example_peer, sa_revision = 4\<rparr>"
  have req: "source_request ?i = Some (js ''p'', 7, 3, js ''i'', 1, js ''x'')"
    by (simp add: source_request_input request_ok_def example_guards)
  have "authorizeSourceOpen [example_peer] ?i (cw_store (example_world 4 example_published [])) = Some ?a"
    by (simp add: authorizeSourceOpen_eq req source_open_for_def example_find example_published_def
        example_correlation_def panel_ok_def)
  moreover have "authorizeSourceOpen [example_peer] ?i (cw_store (example_world 5
      (published example_rules example_peer example_published 5) [example_prepared\<lparr>pp_pending := False\<rparr>])) = Some ?a"
    by (simp add: authorizeSourceOpen_eq req source_open_for_def example_find example_published_def
        example_correlation_def panel_ok_def published_def)
  ultimately show ?thesis
    using authority_current_iff [OF example_store_new example_matched_run [symmetric] example_commit_run [symmetric],
        of ?i ?a] by auto
qed

text \<open>While a correlation lives (the object recorded for a message, whatever other operations run),
  its panel, tab, window and expected rules stay what they were, its generations never fall,
  and once an IDE has answered it stays bound to that session and that IDE.
\<close>
theorem correlation_progress:
  assumes "new_InspectCorrelationStore maximum = Inr st0"
    and "w = run_correlations env (start_world st0) es" and "w' = run_correlations env w es'"
    and "find_correlation (cw_store w) mid = Some c" and "find_correlation (cw_store w') mid = Some c'"
    and "cor_oid c' = cor_oid c"
  shows "cor_channel c' = cor_channel c \<and> cor_tabId c' = cor_tabId c \<and> cor_windowId c' = cor_windowId c \<and>
    cor_expected c' = cor_expected c \<and> cor_resGen c \<le> cor_resGen c' \<and> cor_rulesGen c \<le> cor_rulesGen c' \<and>
    (cor_sourceId c \<noteq> None \<longrightarrow> cor_sourceId c' = cor_sourceId c \<and> cor_sessionId c' = cor_sessionId c)"
proof -
  have w: "world_ok env w" using run_ok [OF assms(1)] assms(2) by simp
  then have "cor_oid c < cs_next_oid (cw_store w)" using assms(4) by (auto simp: world_ok_def store_ok_def)
  moreover have "correlations_evolve (cw_store w) (cw_store w')"
    unfolding assms(3) by (rule run_correlations_evolve [OF w])
  ultimately have "progresses (cs_sequence (cw_store w)) c c'"
    using assms(4-6) unfolding correlations_evolve_def by fastforce
  then show ?thesis by (simp add: progresses_def)
qed

theorem correlation_progress_witness:
  "cor_resGen example_correlation \<le> cor_resGen (published example_rules example_peer example_published 5) \<and>
   cor_rulesGen example_correlation < cor_rulesGen (published example_rules example_peer example_published 5)"
proof -
  have "cor_oid (published example_rules example_peer example_published 5) = cor_oid example_correlation"
    by (simp add: published_def example_published_def)
  note p = correlation_progress [OF example_store_new example_answer_run [symmetric]
      example_publication_run [symmetric] example_find example_find this]
  then show ?thesis by (simp add: published_def example_rules_def example_correlation_def)
qed

lemma opaqueId_guard: "opaqueId s \<Longrightarrow> isOpaqueId (Some (JStr s)) = Some s"
  by (auto simp: opaqueId_def text_between_def isOpaqueId_def limit_defs)

lemma generation_guard: "generation_ok n \<Longrightarrow> isResolutionGeneration (Some (JNum (JInt n))) = Some n"
  by (simp add: generation_ok_def isResolutionGeneration_def limit_defs safe_int_def)

lemma parsed_source_matches_ok:
  assumes "parseProtocolData message (parse_with env as_source_matches) = Some m"
  shows "message_ok (ce_schema env) (SourceMatches m)"
  using assms unfolding parseProtocolData_def parseProtocolDataWithLimits_def parse_with_def
  by (auto simp: Option.bind_eq_Some_conv split: option.splits if_splits elim!: as_source_matches.elims)

lemma accepted_matches:
  assumes "acceptSourceMatches env T message p st = (Some ch, st')"
    and "parseProtocolData message (parse_with env as_source_matches) = Some m" and "sm_matches m \<noteq> []"
  obtains c where "find_correlation st (inspectMessageId m) = Some c" "ch = cor_channel c" "p \<in> set T"
    "matchesCurrentAuthority T m c p"
    "find_correlation st' (inspectMessageId m) = Some (matched m p c (Suc (cs_sequence st)))"
proof -
  have "p \<in> set T \<and> find_correlation st (inspectMessageId m) \<noteq> None"
  proof (rule ccontr)
    assume "\<not> (p \<in> set T \<and> find_correlation st (inspectMessageId m) \<noteq> None)"
    then have "acceptSourceMatches env T message p st = (None, st)"
      by (intro acceptSourceMatches_refused) (auto simp: assms(2))
    with assms(1) show False by simp
  qed
  then obtain c where p: "p \<in> set T" and c: "find_correlation st (inspectMessageId m) = Some c" by blast
  have "acceptSourceMatches env T message p st =
      (if matches_addressed T m p c \<and> matchesCurrentAuthority T m c p \<and> distinct (map ex_matchId (sm_matches m))
       then (Some (cor_channel c), put_correlation (inspectMessageId m)
          (matched m p c (Suc (cs_sequence st))) (st\<lparr>cs_sequence := Suc (cs_sequence st)\<rparr>))
       else (None, st))"
    using assms(3) by (simp add: acceptSourceMatches_eq [OF p assms(2) c])
  with assms(1) have "matchesCurrentAuthority T m c p" "ch = cor_channel c"
      "st' = put_correlation (inspectMessageId m) (matched m p c (Suc (cs_sequence st)))
        (st\<lparr>cs_sequence := Suc (cs_sequence st)\<rparr>)" by (simp_all split: if_split_asm)
  then show ?thesis using p c by (intro that) (simp_all add: put_correlation_def find_correlation_def)
qed

text \<open>When the matches of an IDE have been accepted, the panel that asked can open exactly those
  matches: a request with its channel, tab, window, message and generation is granted, with the
  publishing IDE as the addressee, if and only if its match id is one of the published.
\<close>
theorem published_matches_openable:
  assumes "new_InspectCorrelationStore maximum = Inr st0"
    and "w = run_correlations env (start_world st0) es"
    and "acceptSourceMatches env (cw_trusted w) message p (cw_store w) = (Some ch, st')"
    and "parseProtocolData message (parse_with env as_source_matches) = Some m" and "sm_matches m \<noteq> []"
  shows "\<exists>c. find_correlation (cw_store w) (inspectMessageId m) = Some c \<and> cor_channel c = ch \<and>
    (\<forall>x. (\<exists>a. authorizeSourceOpen (cw_trusted w) (source_open_input ch (cor_tabId c) (cor_windowId c)
             (inspectMessageId m) (sm_resolutionGeneration m) x) st' = Some a \<and> sa_context a = p) \<longleftrightarrow>
         x \<in> ex_matchId ` set (sm_matches m))"
proof -
  obtain c where c: "find_correlation (cw_store w) (inspectMessageId m) = Some c" "ch = cor_channel c"
      "p \<in> set (cw_trusted w)" "matchesCurrentAuthority (cw_trusted w) m c p"
      "find_correlation st' (inspectMessageId m) = Some (matched m p c (Suc (cs_sequence (cw_store w))))"
    by (rule accepted_matches [OF assms(3-5)])
  have ok: "correlation_ok (cw_trusted w) c"
    using run_ok [OF assms(1), of env es] assms(2) c(1) by (auto simp: world_ok_def store_ok_def)
  have m: "opaqueId (inspectMessageId m)" "generation_ok (sm_resolutionGeneration m)"
      "list_all source_excerpt_ok (sm_matches m)"
    using parsed_source_matches_ok [OF assms(4)] by (simp_all add: source_matches_ok_def)
  have req: "request_ok (cor_channel c) (cor_tabId c) (cor_windowId c) (inspectMessageId m) (sm_resolutionGeneration m) x \<longleftrightarrow>
      isOpaqueId (Some (JStr x)) = Some x" for x
    using ok m(1,2) by (simp add: request_ok_def correlation_ok_def opaqueId_guard generation_guard)
  have ids: "isOpaqueId (Some (JStr x)) = Some x" if "x \<in> ex_matchId ` set (sm_matches m)" for x
    using that m(3) by (auto simp: list_all_iff source_excerpt_ok_def opaqueId_guard)
  have "(\<exists>a. authorizeSourceOpen (cw_trusted w) (source_open_input ch (cor_tabId c) (cor_windowId c)
             (inspectMessageId m) (sm_resolutionGeneration m) x) st' = Some a \<and> sa_context a = p) \<longleftrightarrow>
         x \<in> ex_matchId ` set (sm_matches m)" for x
    using ids [of x] c(2-5) assms(5)
    by (auto simp: authorizeSourceOpen_eq source_request_input req source_open_for_def matched_def
        panel_ok_def matchesCurrentAuthority_def)
  then show ?thesis using c(1,2) by blast
qed

theorem published_matches_openable_witness:
  "\<exists>st' (c :: correlation) a. acceptSourceMatches example_correlation_env [example_peer] (VNum (JInt 2)) example_peer
       (cw_store (example_world 3 example_correlation [])) = (Some (js ''p''), st') \<and>
     authorizeSourceOpen [example_peer] (source_open_input (js ''p'') (cor_tabId c) (cor_windowId c) (js ''i'') 1
       (js ''x'')) st' = Some a \<and> sa_context a = example_peer"
proof -
  obtain st' where st': "acceptSourceMatches example_correlation_env [example_peer] (VNum (JInt 2)) example_peer
       (cw_store (example_world 3 example_correlation [])) = (Some (js ''p''), st')"
    by (simp add: example_world_def with_store_def acceptSourceMatches_def example_parses find_correlation_def
      isTrustedIdePeerContext_def payload_matches_iff example_correlation_def
      example_matches_def example_peer_def correlationMatchesPeer_def matchesCurrentAuthority_def
      nextAuthorityRevision_def put_correlation_def set_add_def)
  have m: "sm_matches example_matches \<noteq> []" "inspectMessageId example_matches = js ''i''"
      "sm_resolutionGeneration example_matches = 1" "js ''x'' \<in> ex_matchId ` set (sm_matches example_matches)"
    by (simp_all add: example_matches_def)
  have st2: "acceptSourceMatches example_correlation_env (cw_trusted (example_world 3 example_correlation []))
      (VNum (JInt 2)) example_peer (cw_store (example_world 3 example_correlation [])) = (Some (js ''p''), st')"
    using st' by simp
  from published_matches_openable [OF example_store_new example_answer_run [symmetric] st2 example_parses(2) m(1)]
  obtain c :: correlation where all: "\<forall>x. (\<exists>a. authorizeSourceOpen [example_peer] (source_open_input (js ''p'') (cor_tabId c)
      (cor_windowId c) (js ''i'') 1 x) st' = Some a \<and> sa_context a = example_peer) \<longleftrightarrow>
      x \<in> ex_matchId ` set (sm_matches example_matches)" by (auto simp: m(2,3))
  from spec [OF all, of "js ''x''"] m(4) st' show ?thesis by blast
qed

text \<open>C13:
  A prepared publication of rule sources takes effect at most once, exactly when it has not been
  settled and its correlation is still there with the rules it was prepared for and not bound to
  another IDE; otherwise nothing changes. After it took effect the panel can open exactly the
  published rule sources of the new generation.
\<close>
theorem rules_published_once:
  assumes "new_InspectCorrelationStore maximum = Inr st0"
    and "w = run_correlations env (start_world st0) es" and "i < length (cw_prepared w)"
    and "pp = cw_prepared w ! i"
    and "commit_rules_sources (cw_trusted w) pp (cw_store w) = (ok, pp', st')"
  shows "(ok \<longleftrightarrow> pp_pending pp \<and> (\<exists>c. find_correlation (cw_store w) (inspectMessageId (pp_message pp)) = Some c \<and>
        cor_oid c = pp_oid pp \<and> cor_rulesRevision c = pp_previousRevision pp \<and> \<not> bound_elsewhere c (pp_peer pp))) \<and>
    \<not> pp_pending pp' \<and> (\<not> ok \<longrightarrow> st' = cw_store w) \<and>
    (ok \<longrightarrow> (\<exists>c. find_correlation (cw_store w) (inspectMessageId (pp_message pp)) = Some c \<and>
       (\<forall>x. (\<exists>a. authorize_rules_open (cw_trusted w) (rules_open_input (cor_channel c) (cor_tabId c) (cor_windowId c)
               (inspectMessageId (pp_message pp)) (rsm_rulesGeneration (pp_message pp)) x) st' = Some a) \<longleftrightarrow>
            x \<in> rs_openAuthorityId ` set (rsm_sources (pp_message pp)))))"
proof -
  let ?m = "pp_message pp" and ?p = "pp_peer pp" and ?T = "cw_trusted w" and ?s = "cw_store w"
  have w: "world_ok env w" using run_ok [OF assms(1)] assms(2) by simp
  then have pp: "prepared_ok env ?T ?s pp" using assms(3,4) by (simp add: world_ok_def list_all_length)
  then have p: "?p \<in> set ?T" and m: "message_ok (ce_schema env) (RulesSources ?m)" by (simp_all add: prepared_ok_def)
  have cur: "still_current ?T pp c \<longleftrightarrow> cor_oid c = pp_oid pp \<and> cor_rulesRevision c = pp_previousRevision pp \<and>
      \<not> bound_elsewhere c ?p" if "find_correlation ?s (inspectMessageId ?m) = Some c" for c
    using pp that by (auto simp: still_current_def prepared_ok_def)
  note commit = assms(5) [unfolded commit_rules_sources_eq]
  have first: "(ok \<longleftrightarrow> pp_pending pp \<and> (\<exists>c. find_correlation ?s (inspectMessageId ?m) = Some c \<and>
        cor_oid c = pp_oid pp \<and> cor_rulesRevision c = pp_previousRevision pp \<and> \<not> bound_elsewhere c ?p)) \<and>
      \<not> pp_pending pp' \<and> (\<not> ok \<longrightarrow> st' = ?s)"
    using commit cur by (auto split: option.splits if_split_asm)
  have "\<exists>c. find_correlation ?s (inspectMessageId ?m) = Some c \<and>
       (\<forall>x. (\<exists>a. authorize_rules_open ?T (rules_open_input (cor_channel c) (cor_tabId c) (cor_windowId c)
               (inspectMessageId ?m) (rsm_rulesGeneration ?m) x) st' = Some a) \<longleftrightarrow>
            x \<in> rs_openAuthorityId ` set (rsm_sources ?m))" if ok: "ok"
  proof -
    obtain c where c: "find_correlation ?s (inspectMessageId ?m) = Some c"
      and st': "st' = touch_correlation (inspectMessageId ?m) (published ?m ?p c (Suc (cs_sequence ?s)))
        (?s\<lparr>cs_sequence := Suc (cs_sequence ?s)\<rparr>)"
      using commit ok by (auto split: option.splits if_split_asm)
    have new: "find_correlation st' (inspectMessageId ?m) = Some (published ?m ?p c (Suc (cs_sequence ?s)))"
      by (simp add: st' touch_correlation_def find_correlation_def)
    have cok: "correlation_ok ?T c" using w c by (auto simp: world_ok_def store_ok_def)
    have req: "request_ok (cor_channel c) (cor_tabId c) (cor_windowId c) (inspectMessageId ?m)
        (rsm_rulesGeneration ?m) x \<longleftrightarrow> isOpaqueId (Some (JStr x)) = Some x" for x
      using cok m by (simp add: request_ok_def correlation_ok_def rules_sources_ok_def opaqueId_guard generation_guard)
    have ids: "isOpaqueId (Some (JStr x)) = Some x" if "x \<in> rs_openAuthorityId ` set (rsm_sources ?m)" for x
      using that m by (auto simp: rules_sources_ok_def list_all_iff rules_source_ok_def text_between_def
          limit_defs isOpaqueId_def)
    have "(\<exists>a. authorize_rules_open ?T (rules_open_input (cor_channel c) (cor_tabId c) (cor_windowId c)
        (inspectMessageId ?m) (rsm_rulesGeneration ?m) x) st' = Some a) \<longleftrightarrow>
        x \<in> rs_openAuthorityId ` set (rsm_sources ?m)" for x
      using ids [of x] p
      by (auto simp: authorize_rules_open_eq rules_request_input req rules_open_for_def new published_def
          panel_ok_def)
    then show ?thesis using c by blast
  qed
  with first show ?thesis by blast
qed

theorem rules_published_once_witness:
  "\<exists>(c :: correlation) a. authorize_rules_open [example_peer] (rules_open_input (cor_channel c) (cor_tabId c) (cor_windowId c)
      (js ''i'') 1 (js ''o'')) (cw_store (example_world 5 (published example_rules example_peer example_published 5)
         [example_prepared])) = Some a"
proof -
  have m: "pp_message example_prepared = example_rules" "inspectMessageId example_rules = js ''i''"
      "rsm_rulesGeneration example_rules = 1" "js ''o'' \<in> rs_openAuthorityId ` set (rsm_sources example_rules)"
    by (simp_all add: example_prepared_def example_rules_def)
  have "commit_rules_sources (cw_trusted (example_world 4 example_published [example_prepared]))
      (cw_prepared (example_world 4 example_published [example_prepared]) ! 0)
      (cw_store (example_world 4 example_published [example_prepared])) =
      (True, example_prepared\<lparr>pp_pending := False\<rparr>, cw_store (example_world 5
        (published example_rules example_peer example_published 5) [example_prepared]))"
    by (simp add: example_commit)
  from rules_published_once [OF example_store_new example_prepared_run [symmetric] _ refl this]
  obtain c :: correlation where all: "\<forall>x. (\<exists>a. authorize_rules_open [example_peer] (rules_open_input (cor_channel c) (cor_tabId c)
      (cor_windowId c) (js ''i'') 1 x) (cw_store (example_world 5
        (published example_rules example_peer example_published 5) [example_prepared])) = Some a) \<longleftrightarrow>
      x \<in> rs_openAuthorityId ` set (rsm_sources example_rules)" by (auto simp: m(1-3))
  from spec [OF all, of "js ''o''"] m(4) show ?thesis by blast
qed

end
