(* ===== verification/Rules_Authority.thy ===== *)
theory Rules_Authority
  imports Public_Url Protocol_Messages Effects Text_Patterns
begin

text \<open>
  \<^verbatim>\<open>extensions/vscode/src/rules/rulesOpenAuthorityRegistry.ts\<close>: which rule sources the browser may
  ask the IDE to open. A generation of authorities is prepared, activated, and committed or
  rolled back; a generation and the preparation made for it are objects of one identity
  (\<open>ag_oid\<close>), and \<open>rg_preparations\<close> is the \<^verbatim>\<open>WeakMap\<close> of their states. Numbers that come from
  elsewhere are \<open>jsnum\<close>; the URL parser is a parameter.
\<close>

subsection \<open>Data\<close>

definition RULES_OPEN_ROUTE_HISTORY_LIMIT :: nat where
  "RULES_OPEN_ROUTE_HISTORY_LIMIT = lim_sources RULES_SOURCES_LIMITS"

record source_position =
  sp_line :: jsnum
  sp_character :: jsnum

record source_range =
  sr_start :: source_position
  sr_end :: source_position

datatype dependency_kind = GeneratedCss | ExternalSourceMap | OriginalSource

record rule_dependency =
  dep_kind :: dependency_kind
  dep_uri :: jstring
  dep_version :: "jsnum option"
  dep_contentHash :: jstring

record stored_authority =
  st_openAuthorityId :: jstring
  st_inspectMessageId :: jstring
  st_rulesGeneration :: jsnum
  st_ruleRef :: jstring
  st_documentUri :: jstring
  st_documentVersion :: jsnum
  st_range :: source_range
  st_workspaceGeneration :: jsnum
  st_dependencies :: "rule_dependency list"

record generation_input =
  gi_inspectMessageId :: jstring
  gi_rulesGeneration :: jsnum
  gi_authorities :: "stored_authority list"

record authority_tuple =
  tu_inspectMessageId :: jstring
  tu_rulesGeneration :: jsnum
  tu_openAuthorityId :: jstring

record authority_generation =
  ag_oid :: nat
  ag_inspectMessageId :: jstring
  ag_rulesGeneration :: int
  ag_authorities :: "(jstring, stored_authority) jmap"
  ag_dependencyUris :: "jstring list"

datatype preparation_status = Prepared | ActiveStatus | Committed | RolledBack

record preparation_state =
  ps_candidate :: authority_generation
  ps_previous :: "authority_generation option"
  ps_preparedAt :: nat
  ps_status :: preparation_status

record rules_registry =
  rg_active :: "authority_generation option"
  rg_highWatermarks :: "(jstring, int) jmap"
  rg_mutation :: nat
  rg_preparations :: "(nat, preparation_state) jmap"
  rg_next :: nat

datatype rules_error = InvalidInspectId | GenerationNotNewer | CapacityExceeded | DuplicateAuthority
  | InvalidAuthority | InvalidDependency | InvalidShape | TargetMissing
  | NotCurrent | StalePreparation | StaleActivation | CannotRollBack

type_synonym 'a rules_eff = "(rules_registry, rules_error, 'a) eff"

definition new_RulesOpenAuthorityRegistry :: rules_registry where
  "new_RulesOpenAuthorityRegistry = \<lparr>rg_active = None, rg_highWatermarks = [], rg_mutation = 0,
     rg_preparations = [], rg_next = 0\<rparr>"

subsection \<open>Validation\<close>

definition validOpaque :: "jstring \<Rightarrow> bool" where
  "validOpaque s \<longleftrightarrow> 0 < length s \<and> length s \<le> 128"

definition validUri :: "(jstring \<Rightarrow> url_parts option) \<Rightarrow> jstring \<Rightarrow> bool" where
  "validUri parse s = (case parse s of None \<Rightarrow> False | Some u \<Rightarrow> 1 < length (u_protocol u))"

fun validNonnegativeInteger :: "jsnum \<Rightarrow> bool" where
  "validNonnegativeInteger (JInt n) = (safe_int n \<and> 0 \<le> n)"
| "validNonnegativeInteger JNonInt = False"

fun js_less :: "jsnum \<Rightarrow> jsnum \<Rightarrow> bool" where
  "js_less (JInt a) (JInt b) = (a < b)"
| "js_less _ _ = False"

definition validRange :: "source_range \<Rightarrow> bool" where
  "validRange r \<longleftrightarrow>
     list_all (\<lambda>p. validNonnegativeInteger (sp_line p) \<and> validNonnegativeInteger (sp_character p))
       [sr_start r, sr_end r] \<and>
     (js_less (sp_line (sr_start r)) (sp_line (sr_end r)) \<or>
      sp_line (sr_end r) = sp_line (sr_start r) \<and>
      js_less (sp_character (sr_start r)) (sp_character (sr_end r)))"

definition hex_digit :: "code_unit \<Rightarrow> bool" where
  "hex_digit c \<longleftrightarrow> is_digit c \<or> 97 \<le> c \<and> c \<le> 102"

definition validDependency :: "(jstring \<Rightarrow> url_parts option) \<Rightarrow> rule_dependency \<Rightarrow> bool" where
  "validDependency parse d \<longleftrightarrow> validUri parse (dep_uri d) \<and>
     (case dep_version d of None \<Rightarrow> True | Some v \<Rightarrow> validNonnegativeInteger v) \<and>
     length (dep_contentHash d) = 64 \<and> list_all hex_digit (dep_contentHash d)"

text \<open>The loop over the dependencies, with the keys seen and the dependency of each kind.\<close>

fun collect_dependencies :: "(jstring \<Rightarrow> url_parts option) \<Rightarrow> (dependency_kind \<times> jstring) list \<Rightarrow>
    (dependency_kind \<Rightarrow> rule_dependency option) \<Rightarrow> rule_dependency list \<Rightarrow>
    rules_error + (dependency_kind \<Rightarrow> rule_dependency option)" where
  "collect_dependencies parse keys found [] = Inr found"
| "collect_dependencies parse keys found (d # ds) =
     (if \<not> validDependency parse d \<or> (dep_kind d, dep_uri d) \<in> set keys then Inl InvalidDependency
      else if found (dep_kind d) \<noteq> None then Inl InvalidShape
      else collect_dependencies parse (set_add (dep_kind d, dep_uri d) keys) (found(dep_kind d \<mapsto> d)) ds)"

definition validateAuthority ::
  "(jstring \<Rightarrow> url_parts option) \<Rightarrow> stored_authority \<Rightarrow> generation_input \<Rightarrow> rules_error option" where
  "validateAuthority parse a g =
     (if st_inspectMessageId a \<noteq> gi_inspectMessageId g \<or> st_rulesGeneration a \<noteq> gi_rulesGeneration g \<or>
         \<not> validOpaque (st_openAuthorityId a) \<or> \<not> validOpaque (st_ruleRef a) \<or>
         \<not> validUri parse (st_documentUri a) \<or> \<not> validNonnegativeInteger (st_documentVersion a) \<or>
         \<not> validNonnegativeInteger (st_workspaceGeneration a) \<or> \<not> validRange (st_range a) \<or>
         length (st_dependencies a) < 1 \<or> length (st_dependencies a) > 3
      then Some InvalidAuthority
      else case collect_dependencies parse [] (\<lambda>_. None) (st_dependencies a) of
        Inl e \<Rightarrow> Some e
      | Inr found \<Rightarrow>
          (case found GeneratedCss of
             None \<Rightarrow> Some InvalidShape
           | Some generatedCss \<Rightarrow>
               if found ExternalSourceMap \<noteq> None \<and> found OriginalSource = None then Some InvalidShape
               else let target = (case found OriginalSource of Some d \<Rightarrow> d | None \<Rightarrow> generatedCss)
                 in if dep_uri target \<noteq> st_documentUri a \<or> dep_version target \<noteq> Some (st_documentVersion a)
                    then Some TargetMissing else None))"

fun validate_authorities :: "(jstring \<Rightarrow> url_parts option) \<Rightarrow> generation_input \<Rightarrow> jstring list \<Rightarrow>
    jstring list \<Rightarrow> stored_authority list \<Rightarrow> rules_error option" where
  "validate_authorities parse g ids refs [] = None"
| "validate_authorities parse g ids refs (a # as) =
     (case validateAuthority parse a g of
        Some e \<Rightarrow> Some e
      | None \<Rightarrow>
          if st_openAuthorityId a \<in> set ids \<or> st_ruleRef a \<in> set refs then Some DuplicateAuthority
          else validate_authorities parse g (set_add (st_openAuthorityId a) ids) (set_add (st_ruleRef a) refs) as)"

definition validateGenerationInput ::
  "(jstring \<Rightarrow> url_parts option) \<Rightarrow> generation_input \<Rightarrow> int \<Rightarrow> rules_error + int" where
  "validateGenerationInput parse g highWatermark =
     (if \<not> validOpaque (gi_inspectMessageId g) then Inl InvalidInspectId
      else case gi_rulesGeneration g of
        JNonInt \<Rightarrow> Inl GenerationNotNewer
      | JInt n \<Rightarrow>
          if \<not> safe_int n \<or> n < 1 \<or> n > lim_generation RESOLUTION_LIMITS \<or> n \<le> highWatermark
          then Inl GenerationNotNewer
          else if length (gi_authorities g) > lim_sources RULES_SOURCES_LIMITS then Inl CapacityExceeded
          else (case validate_authorities parse g [] [] (gi_authorities g) of
              Some e \<Rightarrow> Inl e | None \<Rightarrow> Inr n))"

definition freezeGeneration :: "nat \<Rightarrow> int \<Rightarrow> generation_input \<Rightarrow> authority_generation" where
  "freezeGeneration oid n g = \<lparr>ag_oid = oid, ag_inspectMessageId = gi_inspectMessageId g,
     ag_rulesGeneration = n,
     ag_authorities = fold (\<lambda>a m. jset (st_openAuthorityId a) a m) (gi_authorities g) [],
     ag_dependencyUris = set_of (concat (map (\<lambda>a. map dep_uri (st_dependencies a)) (gi_authorities g)))\<rparr>"

subsection \<open>Operations\<close>

definition rememberHighWatermark :: "jstring \<Rightarrow> int \<Rightarrow> rules_registry \<Rightarrow> rules_registry" where
  "rememberHighWatermark mid n reg =
     (let m = jset mid n (jdel mid (rg_highWatermarks reg));
          active = map_option ag_inspectMessageId (rg_active reg)
      in reg\<lparr>rg_highWatermarks :=
           (if length m \<le> RULES_OPEN_ROUTE_HISTORY_LIMIT then m
            else case find (\<lambda>k. \<not> (Some k = active \<or> k = mid)) (jkeys m) of
              None \<Rightarrow> m | Some k \<Rightarrow> jdel k m)\<rparr>)"

definition prepare_generation :: "(jstring \<Rightarrow> url_parts option) \<Rightarrow> generation_input \<Rightarrow> nat rules_eff" where
  "prepare_generation parse g reg =
     (case validateGenerationInput parse g
        (case jget (rg_highWatermarks reg) (gi_inspectMessageId g) of None \<Rightarrow> 0 | Some n \<Rightarrow> n) of
        Inl e \<Rightarrow> (Inl e, reg)
      | Inr n \<Rightarrow>
          (let oid = rg_next reg;
               reg1 = reg\<lparr>rg_mutation := rg_mutation reg + 1, rg_next := oid + 1\<rparr>;
               state = \<lparr>ps_candidate = freezeGeneration oid n g,
                 ps_previous = (case rg_active reg1 of
                     None \<Rightarrow> None
                   | Some a \<Rightarrow> if ag_inspectMessageId a = gi_inspectMessageId g then Some a else None),
                 ps_preparedAt = rg_mutation reg1, ps_status = Prepared\<rparr>
           in (Inr oid, rememberHighWatermark (gi_inspectMessageId g) n
                (reg1\<lparr>rg_preparations := jset oid state (rg_preparations reg1)\<rparr>))))"

definition preparation :: "nat \<Rightarrow> preparation_status \<Rightarrow> preparation_state rules_eff" where
  "preparation pid expected reg =
     (case jget (rg_preparations reg) pid of
        None \<Rightarrow> (Inl NotCurrent, reg)
      | Some s \<Rightarrow> if ps_status s \<noteq> expected then (Inl NotCurrent, reg) else (Inr s, reg))"

definition set_status :: "nat \<Rightarrow> preparation_state \<Rightarrow> preparation_status \<Rightarrow> rules_registry \<Rightarrow> rules_registry" where
  "set_status pid s status reg = reg\<lparr>rg_preparations := jset pid (s\<lparr>ps_status := status\<rparr>) (rg_preparations reg)\<rparr>"

definition activate_generation :: "nat \<Rightarrow> unit rules_eff" where
  "activate_generation pid = bindE (preparation pid Prepared) (\<lambda>s reg.
     if ps_preparedAt s \<noteq> rg_mutation reg then (Inl StalePreparation, set_status pid s RolledBack reg)
     else (Inr (), set_status pid s ActiveStatus
        (reg\<lparr>rg_active := Some (ps_candidate s), rg_mutation := rg_mutation reg + 1\<rparr>)))"

text \<open>\<^verbatim>\<open>this.active !== state.candidate\<close> compares identities.\<close>

definition is_active :: "authority_generation \<Rightarrow> rules_registry \<Rightarrow> bool" where
  "is_active g reg \<longleftrightarrow> map_option ag_oid (rg_active reg) = Some (ag_oid g)"

definition commit_generation :: "nat \<Rightarrow> unit rules_eff" where
  "commit_generation pid = bindE (preparation pid ActiveStatus) (\<lambda>s reg.
     if \<not> is_active (ps_candidate s) reg then (Inl StaleActivation, set_status pid s RolledBack reg)
     else (Inr (), set_status pid s Committed reg))"

definition rollback_generation :: "nat \<Rightarrow> unit rules_eff" where
  "rollback_generation pid reg =
     (case jget (rg_preparations reg) pid of
        None \<Rightarrow> (Inl CannotRollBack, reg)
      | Some s \<Rightarrow>
          if ps_status s = RolledBack \<or> ps_status s = Committed then (Inl CannotRollBack, reg)
          else if ps_status s = ActiveStatus
          then (if \<not> is_active (ps_candidate s) reg
                then (Inl StaleActivation, set_status pid s RolledBack reg)
                else (Inr (), set_status pid s RolledBack
                  (reg\<lparr>rg_active := ps_previous s, rg_mutation := rg_mutation reg + 1\<rparr>)))
          else (Inr (), set_status pid s RolledBack reg))"

definition authorize_tuple :: "authority_tuple \<Rightarrow> rules_registry \<Rightarrow> stored_authority option" where
  "authorize_tuple t reg =
     (case rg_active reg of
        None \<Rightarrow> None
      | Some a \<Rightarrow>
          if ag_inspectMessageId a \<noteq> tu_inspectMessageId t \<or> JInt (ag_rulesGeneration a) \<noteq> tu_rulesGeneration t
          then None else jget (ag_authorities a) (tu_openAuthorityId t))"

definition current_generation :: "rules_registry \<Rightarrow> (jstring \<times> int \<times> nat) option" where
  "current_generation reg = map_option
     (\<lambda>a. (ag_inspectMessageId a, ag_rulesGeneration a, length (ag_authorities a))) (rg_active reg)"

definition dependencyUris :: "rules_registry \<Rightarrow> jstring list" where
  "dependencyUris reg = (case rg_active reg of None \<Rightarrow> [] | Some a \<Rightarrow> ag_dependencyUris a)"

definition clear_authorities :: "rules_registry \<Rightarrow> rules_registry" where
  "clear_authorities reg = reg\<lparr>rg_active := None, rg_mutation := rg_mutation reg + 1\<rparr>"

end
