(* ===== verification/Rules_Authority_Theorems.thy ===== *)
theory Rules_Authority_Theorems
  imports Rules_Authority
begin

text \<open>
  The registry of rules authorities under any sequence of its operations: the active generation
  is well formed and never older than its route's watermark, a preparation can only be activated
  while nothing else happened, and rolling back an activation restores what it replaced.
\<close>

subsection \<open>Well-formed generations\<close>

definition generation_wf :: "(jstring \<Rightarrow> url_parts option) \<Rightarrow> authority_generation \<Rightarrow> bool" where
  "generation_wf parse g \<longleftrightarrow> 1 \<le> ag_rulesGeneration g \<and> distinct (jkeys (ag_authorities g)) \<and>
     (\<forall>k a. jget (ag_authorities g) k = Some a \<longrightarrow>
        st_openAuthorityId a = k \<and> st_inspectMessageId a = ag_inspectMessageId g \<and>
        st_rulesGeneration a = JInt (ag_rulesGeneration g) \<and> validRange (st_range a) \<and>
        (\<exists>d\<in>set (st_dependencies a). dep_kind d = GeneratedCss) \<and>
        (\<exists>d\<in>set (st_dependencies a). dep_uri d = st_documentUri a \<and> dep_version d = Some (st_documentVersion a)) \<and>
        dep_uri ` set (st_dependencies a) \<subseteq> set (ag_dependencyUris g))"

lemma collect_dependencies_found:
  "collect_dependencies parse keys found ds = Inr out \<Longrightarrow> out k = Some d \<Longrightarrow>
   found k = Some d \<or> d \<in> set ds \<and> dep_kind d = k"
proof (induction ds arbitrary: keys found)
  case (Cons x ds)
  from Cons.prems(1) have "collect_dependencies parse (set_add (dep_kind x, dep_uri x) keys)
      (found(dep_kind x \<mapsto> x)) ds = Inr out" by (simp split: if_split_asm)
  from Cons.IH [OF this Cons.prems(2)] show ?case by (auto split: if_splits)
qed simp

lemma validateAuthority_None:
  assumes "validateAuthority parse a g = None"
  shows "st_inspectMessageId a = gi_inspectMessageId g" "st_rulesGeneration a = gi_rulesGeneration g"
    "validRange (st_range a)" "\<exists>d\<in>set (st_dependencies a). dep_kind d = GeneratedCss"
    "\<exists>d\<in>set (st_dependencies a). dep_uri d = st_documentUri a \<and> dep_version d = Some (st_documentVersion a)"
proof -
  let ?bad = "st_inspectMessageId a \<noteq> gi_inspectMessageId g \<or> st_rulesGeneration a \<noteq> gi_rulesGeneration g \<or>
         \<not> validOpaque (st_openAuthorityId a) \<or> \<not> validOpaque (st_ruleRef a) \<or>
         \<not> validUri parse (st_documentUri a) \<or> \<not> validNonnegativeInteger (st_documentVersion a) \<or>
         \<not> validNonnegativeInteger (st_workspaceGeneration a) \<or> \<not> validRange (st_range a) \<or>
         length (st_dependencies a) < 1 \<or> length (st_dependencies a) > 3"
  have ok: "\<not> ?bad" using assms by (rule contrapos_pn) (simp add: validateAuthority_def)
  then show "st_inspectMessageId a = gi_inspectMessageId g" "st_rulesGeneration a = gi_rulesGeneration g"
    "validRange (st_range a)" by simp_all
  obtain found where found: "collect_dependencies parse [] (\<lambda>_. None) (st_dependencies a) = Inr found"
    using assms ok by (cases "collect_dependencies parse [] (\<lambda>_. None) (st_dependencies a)")
      (simp_all only: validateAuthority_def if_False sum.case option.distinct)
  note rest = assms [unfolded validateAuthority_def, simplified ok if_False found sum.case]
  obtain css where css: "found GeneratedCss = Some css"
    using rest by (cases "found GeneratedCss") simp_all
  from rest css have target: "dep_uri (case found OriginalSource of Some d \<Rightarrow> d | None \<Rightarrow> css) = st_documentUri a \<and>
      dep_version (case found OriginalSource of Some d \<Rightarrow> d | None \<Rightarrow> css) = Some (st_documentVersion a)"
    by (simp add: Let_def split: if_split_asm)
  have in_deps: "d \<in> set (st_dependencies a) \<and> dep_kind d = k" if "found k = Some d" for k d
    using collect_dependencies_found [OF found that] by simp
  show "\<exists>d\<in>set (st_dependencies a). dep_kind d = GeneratedCss" using in_deps [OF css] by blast
  show "\<exists>d\<in>set (st_dependencies a). dep_uri d = st_documentUri a \<and> dep_version d = Some (st_documentVersion a)"
    using target in_deps [OF css] in_deps [of OriginalSource] by (auto split: option.splits)
qed

lemma validate_authorities_None:
  "validate_authorities parse g ids refs as = None \<Longrightarrow>
   (\<forall>a\<in>set as. validateAuthority parse a g = None) \<and> distinct (map st_openAuthorityId as) \<and>
   set (map st_openAuthorityId as) \<inter> set ids = {}"
proof (induction "as" arbitrary: ids refs)
  case (Cons a "as")
  from Cons.prems have "validateAuthority parse a g = None" "st_openAuthorityId a \<notin> set ids"
    "validate_authorities parse g (set_add (st_openAuthorityId a) ids) (set_add (st_ruleRef a) refs) as = None"
    by (simp_all split: option.splits if_split_asm)
  with Cons.IH [OF this(3)] show ?case by auto
qed simp

lemma fold_jset_distinct:
  "distinct (jkeys m @ map f xs) \<Longrightarrow> fold (\<lambda>a m. jset (f a) a m) xs m = m @ map (\<lambda>a. (f a, a)) xs"
proof (induction xs arbitrary: m)
  case (Cons x xs)
  have "jset k v m = m @ [(k, v)]" if "k \<notin> set (jkeys m)" for k and v :: 'b and m :: "('a \<times> 'b) list"
    using that by (induction m) auto
  then have "jset (f x) x m = m @ [(f x, x)]" using Cons.prems by simp
  with Cons show ?case by simp
qed simp

lemma validateGenerationInput_Inr:
  assumes "validateGenerationInput parse g hi = Inr n"
  shows "gi_rulesGeneration g = JInt n" "1 \<le> n" "hi < n" "n \<le> lim_generation RESOLUTION_LIMITS"
    "validate_authorities parse g [] [] (gi_authorities g) = None"
  using assms by (simp_all add: validateGenerationInput_def split: if_split_asm jsnum.splits option.splits)

lemma frozen_authorities:
  assumes "validateGenerationInput parse g hi = Inr n"
  shows "ag_authorities (freezeGeneration oid n g) = map (\<lambda>a. (st_openAuthorityId a, a)) (gi_authorities g)"
  using fold_jset_distinct [of "[]" st_openAuthorityId "gi_authorities g"]
    validate_authorities_None [OF validateGenerationInput_Inr(5) [OF assms]]
  by (simp add: freezeGeneration_def)

lemma generation_wf_freeze:
  assumes v: "validateGenerationInput parse g hi = Inr n"
  shows "generation_wf parse (freezeGeneration oid n g)"
proof -
  note auth = validate_authorities_None [OF validateGenerationInput_Inr(5) [OF v]]
  have "st_openAuthorityId a = k \<and> a \<in> set (gi_authorities g)"
    if "jget (ag_authorities (freezeGeneration oid n g)) k = Some a" for k a
    using map_of_SomeD [OF that] by (auto simp: frozen_authorities [OF v])
  moreover have "dep_uri ` set (st_dependencies a) \<subseteq> set (ag_dependencyUris (freezeGeneration oid n g))"
    if "a \<in> set (gi_authorities g)" for a using that by (auto simp: freezeGeneration_def)
  moreover have "distinct (jkeys (ag_authorities (freezeGeneration oid n g)))"
    using auth by (simp add: frozen_authorities [OF v] comp_def)
  moreover have "ag_inspectMessageId (freezeGeneration oid n g) = gi_inspectMessageId g"
    "ag_rulesGeneration (freezeGeneration oid n g) = n" by (simp_all add: freezeGeneration_def)
  ultimately show ?thesis using auth validateAuthority_None [of parse _ g] validateGenerationInput_Inr(1,2) [OF v]
    unfolding generation_wf_def by metis
qed

subsection \<open>Watermarks\<close>

lemma three_keys:
  assumes "distinct ks" and "2 < length ks"
  shows "find (\<lambda>k. \<not> (Some k = x \<or> k = y)) ks \<noteq> None"
proof
  assume "find (\<lambda>k. \<not> (Some k = x \<or> k = y)) ks = None"
  then have "\<forall>k\<in>set ks. k \<in> {the x, y}" by (auto simp: find_None_iff)
  then have "card (set ks) \<le> card {the x, y}" by (intro card_mono) auto
  also have "\<dots> \<le> 2" by (simp add: card_insert_if)
  finally show False using assms by (simp add: distinct_card)
qed

lemma remember_effect:
  assumes "distinct (jkeys (rg_highWatermarks reg))"
    and "length (rg_highWatermarks reg) \<le> RULES_OPEN_ROUTE_HISTORY_LIMIT"
    and reg'_def: "reg' = rememberHighWatermark mid n reg"
  shows "distinct (jkeys (rg_highWatermarks reg'))"
    and "length (rg_highWatermarks reg') \<le> RULES_OPEN_ROUTE_HISTORY_LIMIT"
    and "jget (rg_highWatermarks reg') mid = Some n"
    and "rg_active reg = Some a \<Longrightarrow> ag_inspectMessageId a \<noteq> mid \<Longrightarrow>
      jget (rg_highWatermarks reg') (ag_inspectMessageId a) = jget (rg_highWatermarks reg) (ag_inspectMessageId a)"
    and "rg_active reg' = rg_active reg" "rg_mutation reg' = rg_mutation reg"
      "rg_preparations reg' = rg_preparations reg" "rg_next reg' = rg_next reg"
proof -
  define m where "m = jset mid n (jdel mid (rg_highWatermarks reg))"
  define active where "active = map_option ag_inspectMessageId (rg_active reg)"
  define m' where "m' = (if length m \<le> RULES_OPEN_ROUTE_HISTORY_LIMIT then m
            else case find (\<lambda>k. \<not> (Some k = active \<or> k = mid)) (jkeys m) of None \<Rightarrow> m | Some k \<Rightarrow> jdel k m)"
  have reg': "reg' = reg\<lparr>rg_highWatermarks := m'\<rparr>"
    by (simp only: reg'_def rememberHighWatermark_def Let_def m'_def m_def active_def)
  have dm: "distinct (jkeys m)" using assms(1) by (simp add: m_def)
  have "length (jkeys m) \<le> Suc (length (jkeys (rg_highWatermarks reg)))"
    unfolding m_def by (subst jm.size_touch [OF assms(1)]) simp
  then have len: "length m \<le> Suc RULES_OPEN_ROUTE_HISTORY_LIMIT" using assms(2) by simp
  have gm: "jget m k = (if k = mid then Some n else jget (rg_highWatermarks reg) k)" for k
    by (simp add: m_def)
  have kept: "jget m' k = jget m k" if "Some k = active \<or> k = mid" for k
    using that by (auto simp: m'_def find_Some_iff split: option.split)
  have dm': "distinct (jkeys m')" using dm by (simp add: m'_def split: option.split)
  have len': "length m' \<le> RULES_OPEN_ROUTE_HISTORY_LIMIT"
  proof (cases "length m \<le> RULES_OPEN_ROUTE_HISTORY_LIMIT")
    case False
    then have "2 < length (jkeys m)" by (simp add: RULES_OPEN_ROUTE_HISTORY_LIMIT_def limit_defs)
    from three_keys [OF dm this] obtain k where k: "find (\<lambda>k. \<not> (Some k = active \<or> k = mid)) (jkeys m) = Some k"
      by blast
    then have "k \<in> set (jkeys m)" by (auto simp: find_Some_iff)
    then have "jget m k \<noteq> None" by (metis jget_eq_None_iff)
    from jm.size_del [OF dm this] have "Suc (length (jdel k m)) = length m" by (simp only: length_map)
    then show ?thesis using False k len by (simp add: m'_def)
  qed (simp add: m'_def)
  show "distinct (jkeys (rg_highWatermarks reg'))" "length (rg_highWatermarks reg') \<le> RULES_OPEN_ROUTE_HISTORY_LIMIT"
    "jget (rg_highWatermarks reg') mid = Some n" using dm' len' kept [of mid] by (simp_all add: reg' gm)
  show "rg_active reg = Some a \<Longrightarrow> ag_inspectMessageId a \<noteq> mid \<Longrightarrow>
      jget (rg_highWatermarks reg') (ag_inspectMessageId a) = jget (rg_highWatermarks reg) (ag_inspectMessageId a)"
    using kept [of "ag_inspectMessageId a"] by (simp add: reg' gm active_def)
qed (simp_all add: reg'_def rememberHighWatermark_def Let_def)

subsection \<open>The invariant\<close>

text \<open>A generation is known when it is the candidate of its own preparation.\<close>

definition known :: "(jstring \<Rightarrow> url_parts option) \<Rightarrow> rules_registry \<Rightarrow> authority_generation \<Rightarrow> bool" where
  "known parse reg g \<longleftrightarrow> ag_oid g < rg_next reg \<and> generation_wf parse g \<and>
     map_option ps_candidate (jget (rg_preparations reg) (ag_oid g)) = Some g"

definition preparation_ok :: "(jstring \<Rightarrow> url_parts option) \<Rightarrow> rules_registry \<Rightarrow> nat \<Rightarrow> preparation_state \<Rightarrow> bool" where
  "preparation_ok parse reg pid s \<longleftrightarrow>
     ag_oid (ps_candidate s) = pid \<and> known parse reg (ps_candidate s) \<and> ps_preparedAt s \<le> rg_mutation reg \<and>
     (\<forall>p. ps_previous s = Some p \<longrightarrow> known parse reg p \<and>
        ag_inspectMessageId p = ag_inspectMessageId (ps_candidate s) \<and>
        ag_rulesGeneration p < ag_rulesGeneration (ps_candidate s)) \<and>
     (ps_status s = Prepared \<longrightarrow> ps_preparedAt s = rg_mutation reg \<longrightarrow>
        jget (rg_highWatermarks reg) (ag_inspectMessageId (ps_candidate s)) =
          Some (ag_rulesGeneration (ps_candidate s)) \<and>
        ps_previous s = (case rg_active reg of None \<Rightarrow> None
          | Some a \<Rightarrow> if ag_inspectMessageId a = ag_inspectMessageId (ps_candidate s) then Some a else None))"

definition rules_inv :: "(jstring \<Rightarrow> url_parts option) \<Rightarrow> rules_registry \<Rightarrow> bool" where
  "rules_inv parse reg \<longleftrightarrow>
     distinct (jkeys (rg_highWatermarks reg)) \<and>
     length (rg_highWatermarks reg) \<le> RULES_OPEN_ROUTE_HISTORY_LIMIT \<and>
     (\<forall>g. rg_active reg = Some g \<longrightarrow> known parse reg g \<and>
        (\<exists>n. jget (rg_highWatermarks reg) (ag_inspectMessageId g) = Some n \<and> ag_rulesGeneration g \<le> n)) \<and>
     (\<forall>pid s. jget (rg_preparations reg) pid = Some s \<longrightarrow> preparation_ok parse reg pid s)"

lemma rules_inv_new: "rules_inv parse new_RulesOpenAuthorityRegistry"
  by (simp add: rules_inv_def new_RulesOpenAuthorityRegistry_def)

text \<open>Known generations stay known while preparations are only added or change their status.\<close>

definition keeps_candidates :: "rules_registry \<Rightarrow> rules_registry \<Rightarrow> bool" where
  "keeps_candidates reg reg' \<longleftrightarrow> rg_next reg \<le> rg_next reg' \<and> rg_mutation reg \<le> rg_mutation reg' \<and>
     (\<forall>pid s. jget (rg_preparations reg) pid = Some s \<longrightarrow>
        map_option ps_candidate (jget (rg_preparations reg') pid) = Some (ps_candidate s))"

lemma known_kept: "keeps_candidates reg reg' \<Longrightarrow> known parse reg g \<Longrightarrow> known parse reg' g"
  by (auto simp: keeps_candidates_def known_def)

lemma known_unique: "known parse reg g \<Longrightarrow> known parse reg h \<Longrightarrow> ag_oid g = ag_oid h \<Longrightarrow> g = h"
  by (auto simp: known_def)

lemma preparation_ok_mutated:
  assumes "preparation_ok parse reg pid s" and "keeps_candidates reg reg'"
    and "rg_mutation reg < rg_mutation reg' \<or>
      rg_mutation reg' = rg_mutation reg \<and> rg_highWatermarks reg' = rg_highWatermarks reg \<and> rg_active reg' = rg_active reg"
  shows "preparation_ok parse reg' pid s"
proof -
  have "ps_preparedAt s \<le> rg_mutation reg" using assms(1) by (simp add: preparation_ok_def)
  then show ?thesis using assms known_kept [OF assms(2)] unfolding preparation_ok_def
    by (elim disjE conjE) auto
qed

text \<open>A step that changes the status of one preparation and possibly the active generation.\<close>

lemma rules_inv_status:
  assumes inv: "rules_inv parse reg" and at: "jget (rg_preparations reg) pid = Some s"
    and act: "act = rg_active reg \<and> mu = rg_mutation reg \<and> status \<noteq> Prepared \<or> rg_mutation reg < mu"
    and known: "\<And>g. act = Some g \<Longrightarrow> known parse reg g \<and>
        (\<exists>n. jget (rg_highWatermarks reg) (ag_inspectMessageId g) = Some n \<and> ag_rulesGeneration g \<le> n)"
  shows "rules_inv parse (set_status pid s status (reg\<lparr>rg_active := act, rg_mutation := mu\<rparr>))"
proof -
  let ?reg = "set_status pid s status (reg\<lparr>rg_active := act, rg_mutation := mu\<rparr>)"
  have k: "keeps_candidates reg ?reg" using at act by (auto simp: keeps_candidates_def set_status_def)
  have cases: "rg_mutation reg < rg_mutation ?reg \<or> rg_mutation ?reg = rg_mutation reg \<and>
      rg_highWatermarks ?reg = rg_highWatermarks reg \<and> rg_active ?reg = rg_active reg"
    using act by (auto simp: set_status_def)
  have "preparation_ok parse ?reg q t" if "jget (rg_preparations ?reg) q = Some t" for q t
  proof (cases "q = pid")
    case True
    have old: "preparation_ok parse reg pid s" using inv at by (simp add: rules_inv_def)
    have t: "t = s\<lparr>ps_status := status\<rparr>" using that True by (simp add: set_status_def)
    have "status = Prepared \<longrightarrow> ps_preparedAt s \<noteq> rg_mutation ?reg"
      using act old by (auto simp: preparation_ok_def set_status_def)
    with preparation_ok_mutated [OF old k cases] show ?thesis
      unfolding preparation_ok_def t True by simp
  next
    case False
    then have "preparation_ok parse reg q t" using that inv by (simp add: rules_inv_def set_status_def)
    from preparation_ok_mutated [OF this k cases] show ?thesis .
  qed
  moreover have "known parse ?reg g \<and>
      (\<exists>n. jget (rg_highWatermarks ?reg) (ag_inspectMessageId g) = Some n \<and> ag_rulesGeneration g \<le> n)"
    if "rg_active ?reg = Some g" for g
    using that known [of g] known_kept [OF k] by (simp add: set_status_def)
  ultimately show ?thesis using inv by (simp add: rules_inv_def set_status_def)
qed

lemma is_active_known:
  assumes "rules_inv parse reg" and "jget (rg_preparations reg) pid = Some s" and "is_active (ps_candidate s) reg"
  shows "rg_active reg = Some (ps_candidate s)"
proof -
  obtain g where g: "rg_active reg = Some g" "ag_oid g = ag_oid (ps_candidate s)"
    using assms(3) by (auto simp: is_active_def)
  have "known parse reg g" "known parse reg (ps_candidate s)"
    using assms(1,2) g(1) by (auto simp: rules_inv_def preparation_ok_def)
  then show ?thesis using g known_unique by blast
qed

lemma rules_inv_prepare:
  assumes inv: "rules_inv parse reg" and p: "prepare_generation parse g reg = (r, reg')"
  shows "rules_inv parse reg'"
proof (cases "validateGenerationInput parse g
    (case jget (rg_highWatermarks reg) (gi_inspectMessageId g) of None \<Rightarrow> 0 | Some n \<Rightarrow> n)")
  case (Inl e)
  then show ?thesis using p inv by (simp add: prepare_generation_def)
next
  case (Inr n)
  let ?hi = "case jget (rg_highWatermarks reg) (gi_inspectMessageId g) of None \<Rightarrow> 0 | Some n \<Rightarrow> n"
  define oid where "oid = rg_next reg"
  define cand where "cand = freezeGeneration oid n g"
  define s where "s = \<lparr>ps_candidate = cand,
     ps_previous = (case rg_active reg of None \<Rightarrow> None
       | Some a \<Rightarrow> if ag_inspectMessageId a = gi_inspectMessageId g then Some a else None),
     ps_preparedAt = Suc (rg_mutation reg), ps_status = Prepared\<rparr>"
  define reg1 where "reg1 = reg\<lparr>rg_mutation := Suc (rg_mutation reg), rg_next := Suc oid,
     rg_preparations := jset oid s (rg_preparations reg)\<rparr>"
  have reg': "reg' = rememberHighWatermark (gi_inspectMessageId g) n reg1"
    using p Inr by (simp add: prepare_generation_def Let_def reg1_def s_def cand_def oid_def)
  have d: "distinct (jkeys (rg_highWatermarks reg1))"
      "length (rg_highWatermarks reg1) \<le> RULES_OPEN_ROUTE_HISTORY_LIMIT"
    using inv by (simp_all add: rules_inv_def reg1_def)
  note e = remember_effect [OF d reg']
  have cand: "ag_oid cand = oid" "ag_inspectMessageId cand = gi_inspectMessageId g" "ag_rulesGeneration cand = n"
    by (simp_all add: cand_def freezeGeneration_def)
  have fresh: "jget (rg_preparations reg) oid = None"
  proof (cases "jget (rg_preparations reg) oid")
    case (Some t)
    then have "known parse reg (ps_candidate t)" "ag_oid (ps_candidate t) = oid"
      using inv by (auto simp: rules_inv_def preparation_ok_def)
    then show ?thesis by (simp add: known_def oid_def)
  qed
  then have k: "keeps_candidates reg reg'"
    unfolding keeps_candidates_def e(6,7,8) by (auto simp: reg1_def oid_def)
  have later: "rg_mutation reg < rg_mutation reg'" using e(6) by (simp add: reg1_def)
  have prep: "rg_preparations reg' = jset oid s (rg_preparations reg)" using e(7) by (simp add: reg1_def)
  have act: "rg_active reg' = rg_active reg" using e(5) by (simp add: reg1_def)
  have high: "known parse reg' a \<and>
      (\<exists>m. jget (rg_highWatermarks reg') (ag_inspectMessageId a) = Some m \<and> ag_rulesGeneration a \<le> m) \<and>
      (ag_inspectMessageId a = gi_inspectMessageId g \<longrightarrow> ag_rulesGeneration a < n)"
    if "rg_active reg = Some a" for a
  proof -
    obtain m where a: "known parse reg a" "jget (rg_highWatermarks reg) (ag_inspectMessageId a) = Some m"
        "ag_rulesGeneration a \<le> m" using inv \<open>rg_active reg = Some a\<close> by (auto simp: rules_inv_def)
    have "rg_active reg1 = Some a" using that by (simp add: reg1_def)
    from e(4) [OF this] e(3) validateGenerationInput_Inr(3) [OF Inr] known_kept [OF k a(1)] a(2,3)
    show ?thesis by (cases "ag_inspectMessageId a = gi_inspectMessageId g") (auto simp: reg1_def)
  qed
  have "known parse reg' cand"
    using generation_wf_freeze [OF Inr, of oid] e(8) by (simp add: known_def prep cand(1) s_def cand_def [symmetric] reg1_def)
  then have own: "preparation_ok parse reg' oid s"
    using high e(3) e(6) act by (auto simp: preparation_ok_def s_def cand reg1_def split: option.splits)
  have "preparation_ok parse reg' pid t" if "jget (rg_preparations reg') pid = Some t" for pid t
  proof (cases "pid = oid")
    case True
    then show ?thesis using that own by (simp add: prep)
  next
    case False
    then have "preparation_ok parse reg pid t" using that inv by (simp add: prep rules_inv_def)
    then show ?thesis using preparation_ok_mutated [OF _ k] later by blast
  qed
  then show ?thesis using e(1,2) high act by (auto simp: rules_inv_def)
qed

subsection \<open>Runs\<close>

datatype rules_event = PrepareGeneration generation_input | ActivateGeneration nat
  | CommitGeneration nat | RollbackGeneration nat | ClearAuthorities

fun rules_step :: "(jstring \<Rightarrow> url_parts option) \<Rightarrow> rules_registry \<Rightarrow> rules_event \<Rightarrow> rules_registry" where
  "rules_step parse reg (PrepareGeneration g) = snd (prepare_generation parse g reg)"
| "rules_step parse reg (ActivateGeneration pid) = snd (activate_generation pid reg)"
| "rules_step parse reg (CommitGeneration pid) = snd (commit_generation pid reg)"
| "rules_step parse reg (RollbackGeneration pid) = snd (rollback_generation pid reg)"
| "rules_step parse reg ClearAuthorities = clear_authorities reg"

lemma set_status_same: "set_status pid s status reg =
    set_status pid s status (reg\<lparr>rg_active := rg_active reg, rg_mutation := rg_mutation reg\<rparr>)"
  by (simp add: set_status_def)

lemma rules_inv_settle:
  "rules_inv parse reg \<Longrightarrow> jget (rg_preparations reg) pid = Some s \<Longrightarrow> status \<noteq> Prepared \<Longrightarrow>
   rules_inv parse (set_status pid s status reg)"
  by (subst set_status_same, rule rules_inv_status) (auto simp: rules_inv_def)

lemma rules_inv_activate:
  assumes inv: "rules_inv parse reg"
  shows "rules_inv parse (snd (activate_generation pid reg))"
proof (cases "jget (rg_preparations reg) pid")
  case (Some s)
  show ?thesis
  proof (cases "ps_status s = Prepared")
    case True
    have s: "preparation_ok parse reg pid s" using inv Some by (simp add: rules_inv_def)
    have "rules_inv parse (set_status pid s RolledBack reg)" by (rule rules_inv_settle [OF inv Some]) simp
    moreover have "rules_inv parse (set_status pid s ActiveStatus
        (reg\<lparr>rg_active := Some (ps_candidate s), rg_mutation := Suc (rg_mutation reg)\<rparr>))"
      if "ps_preparedAt s = rg_mutation reg"
      by (rule rules_inv_status [OF inv Some]) (use s that True in \<open>auto simp: preparation_ok_def\<close>)
    ultimately show ?thesis using Some True by (simp add: activate_generation_def preparation_def bindE_def)
  qed (use inv Some in \<open>simp add: activate_generation_def preparation_def bindE_def\<close>)
qed (use inv in \<open>simp add: activate_generation_def preparation_def bindE_def\<close>)

lemma rules_inv_commit:
  assumes inv: "rules_inv parse reg"
  shows "rules_inv parse (snd (commit_generation pid reg))"
  using inv rules_inv_settle [OF inv]
  by (auto simp: commit_generation_def preparation_def bindE_def split: option.split)

lemma rules_inv_rollback:
  assumes inv: "rules_inv parse reg"
  shows "rules_inv parse (snd (rollback_generation pid reg))"
proof (cases "jget (rg_preparations reg) pid")
  case (Some s)
  have s: "preparation_ok parse reg pid s" using inv Some by (simp add: rules_inv_def)
  have "rules_inv parse (set_status pid s RolledBack (reg\<lparr>rg_active := ps_previous s, rg_mutation := Suc (rg_mutation reg)\<rparr>))"
    if act: "is_active (ps_candidate s) reg"
  proof (rule rules_inv_status [OF inv Some])
    fix g assume g: "ps_previous s = Some g"
    from inv is_active_known [OF inv Some act] obtain n where
      "jget (rg_highWatermarks reg) (ag_inspectMessageId (ps_candidate s)) = Some n"
      "ag_rulesGeneration (ps_candidate s) \<le> n" by (auto simp: rules_inv_def)
    then show "known parse reg g \<and>
        (\<exists>n. jget (rg_highWatermarks reg) (ag_inspectMessageId g) = Some n \<and> ag_rulesGeneration g \<le> n)"
      using s g by (auto simp: preparation_ok_def)
  qed simp
  then show ?thesis using inv Some rules_inv_settle [OF inv Some, of RolledBack]
    by (simp add: rollback_generation_def)
qed (use inv in \<open>simp add: rollback_generation_def\<close>)

lemma rules_inv_clear: "rules_inv parse reg \<Longrightarrow> rules_inv parse (clear_authorities reg)"
proof -
  assume inv: "rules_inv parse reg"
  have k: "keeps_candidates reg (clear_authorities reg)"
    by (auto simp: keeps_candidates_def clear_authorities_def)
  have "preparation_ok parse (clear_authorities reg) pid s" if "jget (rg_preparations reg) pid = Some s" for pid s
    by (rule preparation_ok_mutated [OF _ k]) (use inv that in \<open>auto simp: rules_inv_def clear_authorities_def\<close>)
  then show "rules_inv parse (clear_authorities reg)" using inv by (simp add: rules_inv_def clear_authorities_def)
qed

lemma rules_inv_step: "rules_inv parse reg \<Longrightarrow> rules_inv parse (rules_step parse reg e)"
  by (cases e) (simp_all add: rules_inv_activate rules_inv_commit rules_inv_rollback rules_inv_clear,
      metis rules_inv_prepare prod.collapse)

interpretation rules_run: machine "rules_step parse" new_RulesOpenAuthorityRegistry "rules_inv parse" for parse
  by unfold_locales (simp_all add: rules_inv_new rules_inv_step)

text \<open>Mutations are counted, and a preparation remembers when it was made.\<close>

definition ages :: "rules_registry \<Rightarrow> rules_registry \<Rightarrow> bool" where
  "ages reg reg' \<longleftrightarrow> rg_mutation reg \<le> rg_mutation reg' \<and>
     (\<forall>pid s. jget (rg_preparations reg) pid = Some s \<longrightarrow>
        map_option ps_preparedAt (jget (rg_preparations reg') pid) = Some (ps_preparedAt s))"

interpretation aging: effect_relation ages
proof
  fix s t u :: rules_registry
  show "ages s s" by (simp add: ages_def)
  assume "ages s t" "ages t u"
  then show "ages s u" unfolding ages_def map_option_eq_Some by (metis order_trans)
qed

lemma ages_set_status:
  "jget (rg_preparations reg) pid = Some s \<Longrightarrow> rg_mutation reg \<le> mu \<Longrightarrow>
   ages reg (set_status pid s status (reg\<lparr>rg_active := act, rg_mutation := mu\<rparr>))"
  by (auto simp: ages_def set_status_def)

lemma ages_settle: "jget (rg_preparations reg) pid = Some s \<Longrightarrow> ages reg (set_status pid s status reg)"
  by (auto simp: ages_def set_status_def)

lemma prepare_fresh:
  assumes inv: "rules_inv parse reg" shows "jget (rg_preparations reg) (rg_next reg) = None"
proof (cases "jget (rg_preparations reg) (rg_next reg)")
  case (Some t)
  then have "known parse reg (ps_candidate t)" "ag_oid (ps_candidate t) = rg_next reg"
    using inv by (auto simp: rules_inv_def preparation_ok_def)
  then show ?thesis by (simp add: known_def)
qed

lemma remember_fields [simp]:
  "rg_active (rememberHighWatermark mid n reg) = rg_active reg"
  "rg_mutation (rememberHighWatermark mid n reg) = rg_mutation reg"
  "rg_preparations (rememberHighWatermark mid n reg) = rg_preparations reg"
  "rg_next (rememberHighWatermark mid n reg) = rg_next reg"
  by (simp_all add: rememberHighWatermark_def Let_def)

lemma ages_step: "rules_inv parse reg \<Longrightarrow> ages reg (rules_step parse reg e)"
proof (cases e)
  case (PrepareGeneration g)
  assume "rules_inv parse reg"
  from prepare_fresh [OF this] show ?thesis
    by (auto simp: PrepareGeneration prepare_generation_def Let_def ages_def split: sum.split)
next
  case (ActivateGeneration pid)
  show ?thesis using ages_settle [of reg pid] ages_set_status [of reg pid]
    by (auto simp: ActivateGeneration activate_generation_def preparation_def bindE_def aging.R_refl split: option.split)
next
  case (CommitGeneration pid)
  show ?thesis using ages_settle [of reg pid]
    by (auto simp: CommitGeneration commit_generation_def preparation_def bindE_def aging.R_refl split: option.split)
next
  case (RollbackGeneration pid)
  show ?thesis using ages_settle [of reg pid] ages_set_status [of reg pid]
    by (auto simp: RollbackGeneration rollback_generation_def aging.R_refl split: option.split)
qed (simp add: ages_def clear_authorities_def)

lemma ages_run: "rules_inv parse reg \<Longrightarrow> ages reg (foldl (rules_step parse) reg es)"
proof (induction es arbitrary: reg)
  case (Cons e es)
  then show ?case using ages_step [OF Cons.prems, of e] rules_inv_step [OF Cons.prems, of e]
    by (auto intro: aging.R_trans)
qed (simp add: aging.R_refl)

lemma prepare_generation_Inr:
  assumes "prepare_generation parse g reg = (Inr pid, reg1)"
  obtains n hi where "validateGenerationInput parse g hi = Inr n" "pid = rg_next reg"
    "rg_active reg1 = rg_active reg" "rg_mutation reg1 = Suc (rg_mutation reg)"
    "jget (rg_preparations reg1) pid = Some \<lparr>ps_candidate = freezeGeneration pid n g,
       ps_previous = (case rg_active reg of None \<Rightarrow> None
         | Some a \<Rightarrow> if ag_inspectMessageId a = gi_inspectMessageId g then Some a else None),
       ps_preparedAt = Suc (rg_mutation reg), ps_status = Prepared\<rparr>"
  using assms by (auto simp: prepare_generation_def Let_def split: sum.splits)

lemma activate_prepared:
  "jget (rg_preparations reg) pid = Some s \<Longrightarrow> ps_status s = Prepared \<Longrightarrow> ps_preparedAt s = rg_mutation reg \<Longrightarrow>
   activate_generation pid reg = (Inr (), set_status pid s ActiveStatus
     (reg\<lparr>rg_active := Some (ps_candidate s), rg_mutation := rg_mutation reg + 1\<rparr>))"
  by (simp add: activate_generation_def preparation_def bindE_def)

subsection \<open>A concrete generation\<close>

definition example_parse :: "jstring \<Rightarrow> url_parts option" where
  "example_parse s = Some \<lparr>u_href = s, u_protocol = js ''file:'', u_username = [], u_password = [],
     u_hash = [], u_pathname = [], u_search = []\<rparr>"

definition example_authority :: stored_authority where
  "example_authority = \<lparr>st_openAuthorityId = js ''o'', st_inspectMessageId = js ''i'', st_rulesGeneration = JInt 1,
     st_ruleRef = js ''r'', st_documentUri = js ''f'', st_documentVersion = JInt 1,
     st_range = \<lparr>sr_start = \<lparr>sp_line = JInt 0, sp_character = JInt 0\<rparr>, sr_end = \<lparr>sp_line = JInt 1, sp_character = JInt 0\<rparr>\<rparr>,
     st_workspaceGeneration = JInt 0,
     st_dependencies = [\<lparr>dep_kind = GeneratedCss, dep_uri = js ''f'', dep_version = Some (JInt 1),
       dep_contentHash = replicate 64 48\<rparr>]\<rparr>"

definition example_input :: generation_input where
  "example_input = \<lparr>gi_inspectMessageId = js ''i'', gi_rulesGeneration = JInt 1, gi_authorities = [example_authority]\<rparr>"

definition next_input :: generation_input where
  "next_input = \<lparr>gi_inspectMessageId = js ''i'', gi_rulesGeneration = JInt 2, gi_authorities = []\<rparr>"

lemma example_hash: "list_all hex_digit (replicate 64 48)"
  by (simp add: list_all_iff hex_digit_def is_digit_def)

lemma example_valid: "validateGenerationInput example_parse example_input 0 = Inr 1"
  using example_hash
  by (simp add: validateGenerationInput_def example_input_def example_authority_def validateAuthority_def
      validOpaque_def validUri_def example_parse_def validRange_def safe_int_def limit_defs validDependency_def)

lemma next_valid: "validateGenerationInput parse next_input 1 = Inr 2"
  by (simp add: validateGenerationInput_def next_input_def validOpaque_def safe_int_def limit_defs)

lemma example_prepare:
  "\<exists>reg1. prepare_generation example_parse example_input new_RulesOpenAuthorityRegistry = (Inr 0, reg1) \<and>
     rg_highWatermarks reg1 = [(js ''i'', 1)]"
  using example_valid
  by (simp add: prepare_generation_def new_RulesOpenAuthorityRegistry_def Let_def rememberHighWatermark_def
      RULES_OPEN_ROUTE_HISTORY_LIMIT_def limit_defs example_input_def)

lemma next_prepare:
  "rg_highWatermarks reg = [(js ''i'', 1)] \<Longrightarrow> \<exists>reg1. prepare_generation parse next_input reg = (Inr (rg_next reg), reg1)"
  using next_valid by (simp add: prepare_generation_def Let_def next_input_def)

subsection \<open>Properties\<close>

text \<open>C15:
  Along every run of the registry it remembers at most 256 routes, and whatever it authorizes is
  what was asked for: an authority of that route, that generation and that id, with an ordered
  range, that names the generated stylesheet and a document it depends on, which is watched.
\<close>
theorem rules_authorize_sound:
  assumes "reg = foldl (rules_step parse) new_RulesOpenAuthorityRegistry es"
    and "authorize_tuple t reg = Some a"
  shows "length (rg_highWatermarks reg) \<le> 256 \<and>
    st_openAuthorityId a = tu_openAuthorityId t \<and> st_inspectMessageId a = tu_inspectMessageId t \<and>
    st_rulesGeneration a = tu_rulesGeneration t \<and> validRange (st_range a) \<and>
    (\<exists>d\<in>set (st_dependencies a). dep_kind d = GeneratedCss) \<and>
    (\<exists>d\<in>set (st_dependencies a). dep_uri d = st_documentUri a \<and> dep_version d = Some (st_documentVersion a)) \<and>
    dep_uri ` set (st_dependencies a) \<subseteq> set (dependencyUris reg)"
proof -
  have inv: "rules_inv parse reg" unfolding assms(1) by (rule rules_run.inv_run)
  obtain g where g: "rg_active reg = Some g" "ag_inspectMessageId g = tu_inspectMessageId t"
      "JInt (ag_rulesGeneration g) = tu_rulesGeneration t" "jget (ag_authorities g) (tu_openAuthorityId t) = Some a"
    using assms(2) by (auto simp: authorize_tuple_def split: option.splits if_split_asm)
  have "generation_wf parse g" using inv g(1) by (simp add: rules_inv_def known_def)
  then have "st_openAuthorityId a = tu_openAuthorityId t \<and> st_inspectMessageId a = ag_inspectMessageId g \<and>
        st_rulesGeneration a = JInt (ag_rulesGeneration g) \<and> validRange (st_range a) \<and>
        (\<exists>d\<in>set (st_dependencies a). dep_kind d = GeneratedCss) \<and>
        (\<exists>d\<in>set (st_dependencies a). dep_uri d = st_documentUri a \<and> dep_version d = Some (st_documentVersion a)) \<and>
        dep_uri ` set (st_dependencies a) \<subseteq> set (ag_dependencyUris g)"
    using g(4) unfolding generation_wf_def by blast
  then show ?thesis using g(1-3) inv
    by (simp add: rules_inv_def dependencyUris_def RULES_OPEN_ROUTE_HISTORY_LIMIT_def limit_defs)
qed

theorem rules_authorize_sound_witness:
  "\<exists>reg. authorize_tuple \<lparr>tu_inspectMessageId = js ''i'', tu_rulesGeneration = JInt 1, tu_openAuthorityId = js ''o''\<rparr> reg =
       Some example_authority \<and> js ''f'' \<in> set (dependencyUris reg)"
proof -
  obtain reg1 where r1: "prepare_generation example_parse example_input new_RulesOpenAuthorityRegistry = (Inr 0, reg1)"
    using example_prepare by blast
  let ?es = "[PrepareGeneration example_input, ActivateGeneration 0]"
  let ?t = "\<lparr>tu_inspectMessageId = js ''i'', tu_rulesGeneration = JInt 1, tu_openAuthorityId = js ''o''\<rparr>"
  define reg where "reg = foldl (rules_step example_parse) new_RulesOpenAuthorityRegistry ?es"
  from r1 obtain s where s: "jget (rg_preparations reg1) 0 = Some s" "ps_status s = Prepared"
      "ps_preparedAt s = rg_mutation reg1" "ps_candidate s = freezeGeneration 0 1 example_input"
    using example_valid by (auto simp: prepare_generation_def Let_def new_RulesOpenAuthorityRegistry_def
        example_input_def)
  have "rg_active reg = Some (freezeGeneration 0 1 example_input)"
    using r1 activate_prepared [OF s(1-3)] s(4) by (simp add: reg_def set_status_def)
  then have a: "authorize_tuple ?t reg = Some example_authority"
    by (simp add: authorize_tuple_def freezeGeneration_def example_input_def example_authority_def)
  from rules_authorize_sound [OF reg_def a] a show ?thesis
    by (intro exI [of _ reg]) (simp add: example_authority_def)
qed

text \<open>The two phases of a publication. Preparing changes nothing that can be authorized. Activating
  right after it makes exactly the authorities of the input valid, and nothing else. Rolling the activation
  back restores the route's previous generation (a different route's generation stays
  withdrawn); after a commit it can no longer be rolled back.
\<close>
theorem rules_two_phases:
  assumes "reg = foldl (rules_step parse) new_RulesOpenAuthorityRegistry es"
    and "prepare_generation parse g reg = (Inr pid, reg1)"
  shows "authorize_tuple t reg1 = authorize_tuple t reg \<and>
    (\<exists>reg2. activate_generation pid reg1 = (Inr (), reg2) \<and>
       authorize_tuple t reg2 =
         (if tu_inspectMessageId t = gi_inspectMessageId g \<and> tu_rulesGeneration t = gi_rulesGeneration g
          then find (\<lambda>a. st_openAuthorityId a = tu_openAuthorityId t) (gi_authorities g) else None) \<and>
       (\<exists>reg3. rollback_generation pid reg2 = (Inr (), reg3) \<and>
          rg_active reg3 = (case rg_active reg of None \<Rightarrow> None
            | Some a \<Rightarrow> if ag_inspectMessageId a = gi_inspectMessageId g then Some a else None)) \<and>
       (\<exists>reg3. commit_generation pid reg2 = (Inr (), reg3) \<and> rg_active reg3 = rg_active reg2 \<and>
          rollback_generation pid reg3 = (Inl CannotRollBack, reg3)))"
proof -
  obtain n hi where v: "validateGenerationInput parse g hi = Inr n" and pid: "pid = rg_next reg"
    and r1: "rg_active reg1 = rg_active reg" "rg_mutation reg1 = Suc (rg_mutation reg)"
    and prep: "jget (rg_preparations reg1) pid = Some \<lparr>ps_candidate = freezeGeneration pid n g,
       ps_previous = (case rg_active reg of None \<Rightarrow> None
         | Some a \<Rightarrow> if ag_inspectMessageId a = gi_inspectMessageId g then Some a else None),
       ps_preparedAt = Suc (rg_mutation reg), ps_status = Prepared\<rparr>" (is "_ = Some ?s")
    by (rule prepare_generation_Inr [OF assms(2)])
  let ?reg2 = "set_status pid ?s ActiveStatus
     (reg1\<lparr>rg_active := Some (freezeGeneration pid n g), rg_mutation := rg_mutation reg1 + 1\<rparr>)"
  have act: "activate_generation pid reg1 = (Inr (), ?reg2)"
    using activate_prepared [OF prep] r1(2) by simp
  have cand: "ag_inspectMessageId (freezeGeneration pid n g) = gi_inspectMessageId g"
    "ag_rulesGeneration (freezeGeneration pid n g) = n" "ag_oid (freezeGeneration pid n g) = pid"
    by (simp_all add: freezeGeneration_def)
  have look: "map_of (map (\<lambda>a. (st_openAuthorityId a, a)) as) k = find (\<lambda>a. st_openAuthorityId a = k) as" for as k
    by (induction as) auto
  have auth2: "authorize_tuple t ?reg2 =
         (if tu_inspectMessageId t = gi_inspectMessageId g \<and> tu_rulesGeneration t = gi_rulesGeneration g
          then find (\<lambda>a. st_openAuthorityId a = tu_openAuthorityId t) (gi_authorities g) else None)"
    using validateGenerationInput_Inr(1) [OF v]
    by (auto simp: authorize_tuple_def set_status_def cand frozen_authorities [OF v] look)
  have active2: "is_active (freezeGeneration pid n g) ?reg2" by (simp add: is_active_def set_status_def)
  have p2: "jget (rg_preparations ?reg2) pid = Some (?s\<lparr>ps_status := ActiveStatus\<rparr>)" by (simp add: set_status_def)
  have "rollback_generation pid ?reg2 = (Inr (), set_status pid (?s\<lparr>ps_status := ActiveStatus\<rparr>) RolledBack
      (?reg2\<lparr>rg_active := ps_previous ?s, rg_mutation := rg_mutation ?reg2 + 1\<rparr>))"
    using p2 active2 by (simp add: rollback_generation_def)
  moreover have "commit_generation pid ?reg2 =
      (Inr (), set_status pid (?s\<lparr>ps_status := ActiveStatus\<rparr>) Committed ?reg2)"
    using p2 active2 by (simp add: commit_generation_def preparation_def bindE_def)
  moreover have "rollback_generation pid (set_status pid (?s\<lparr>ps_status := ActiveStatus\<rparr>) Committed ?reg2) =
      (Inl CannotRollBack, set_status pid (?s\<lparr>ps_status := ActiveStatus\<rparr>) Committed ?reg2)"
    by (simp add: rollback_generation_def set_status_def)
  ultimately show ?thesis using act auth2 r1(1)
    by (simp add: authorize_tuple_def) (simp add: set_status_def)
qed

theorem rules_two_phases_witness:
  "\<exists>reg1 reg2. prepare_generation example_parse example_input new_RulesOpenAuthorityRegistry = (Inr 0, reg1) \<and>
     activate_generation 0 reg1 = (Inr (), reg2) \<and>
     authorize_tuple \<lparr>tu_inspectMessageId = js ''i'', tu_rulesGeneration = JInt 1, tu_openAuthorityId = js ''o''\<rparr> reg2 =
       Some example_authority"
proof -
  let ?t = "\<lparr>tu_inspectMessageId = js ''i'', tu_rulesGeneration = JInt 1, tu_openAuthorityId = js ''o''\<rparr>"
  obtain reg1 where r1: "prepare_generation example_parse example_input new_RulesOpenAuthorityRegistry = (Inr 0, reg1)"
    using example_prepare by blast
  have start: "new_RulesOpenAuthorityRegistry = foldl (rules_step example_parse) new_RulesOpenAuthorityRegistry []"
    by simp
  from rules_two_phases [OF start r1, of ?t] obtain reg2 where
    "activate_generation 0 reg1 = (Inr (), reg2)"
    "authorize_tuple ?t reg2 = find (\<lambda>a. st_openAuthorityId a = js ''o'') (gi_authorities example_input)"
    by (auto simp: example_input_def)
  then show ?thesis using r1 by (intro exI [of _ reg1] exI [of _ reg2])
      (simp add: example_input_def example_authority_def)
qed

text \<open>C14:
  A superseded preparation never takes effect: once another generation has been prepared after
  it, activating it fails and changes nothing that can be authorized, whatever happened in
  between.
\<close>
theorem superseded_never_active:
  assumes "reg = foldl (rules_step parse) new_RulesOpenAuthorityRegistry es"
    and "prepare_generation parse g reg = (Inr pid, reg1)"
    and "prepare_generation parse g' (foldl (rules_step parse) reg1 es1) = (Inr pid', reg2)"
    and "reg3 = foldl (rules_step parse) reg2 es2"
  shows "\<exists>e reg4. activate_generation pid reg3 = (Inl e, reg4) \<and> authorize_tuple t reg4 = authorize_tuple t reg3"
proof -
  have inv: "rules_inv parse reg" unfolding assms(1) by (rule rules_run.inv_run)
  have inv1: "rules_inv parse reg1" by (rule rules_inv_prepare [OF inv assms(2)])
  let ?m = "foldl (rules_step parse) reg1 es1"
  have invm: "rules_inv parse ?m" by (rule rules_run.inv_run_from [OF inv1])
  have inv2: "rules_inv parse reg2" by (rule rules_inv_prepare [OF invm assms(3)])
  obtain s where s: "jget (rg_preparations reg1) pid = Some s" "ps_preparedAt s = rg_mutation reg1"
    by (rule prepare_generation_Inr [OF assms(2)]) auto
  have "rg_mutation ?m < rg_mutation reg2"
    by (rule prepare_generation_Inr [OF assms(3)]) simp
  moreover have "ages ?m reg2" using ages_step [OF invm, of "PrepareGeneration g'"] assms(3) by simp
  moreover have "ages reg1 ?m" by (rule ages_run [OF inv1])
  moreover have "ages reg2 reg3" unfolding assms(4) by (rule ages_run [OF inv2])
  ultimately have old: "ages reg1 reg3" "rg_mutation reg1 < rg_mutation reg3"
    by (meson aging.R_trans) (use \<open>ages reg1 ?m\<close> \<open>ages reg2 reg3\<close> \<open>rg_mutation ?m < rg_mutation reg2\<close> in
      \<open>simp add: ages_def\<close>)
  then obtain s' where s': "jget (rg_preparations reg3) pid = Some s'" "ps_preparedAt s' = rg_mutation reg1"
    using s unfolding ages_def map_option_eq_Some by metis
  then show ?thesis using old(2)
    by (simp add: activate_generation_def preparation_def bindE_def authorize_tuple_def set_status_def)
qed

theorem superseded_never_active_witness:
  "\<exists>reg1 reg2 e reg4. prepare_generation example_parse example_input new_RulesOpenAuthorityRegistry = (Inr 0, reg1) \<and>
     prepare_generation example_parse next_input reg1 = (Inr (rg_next reg1), reg2) \<and>
     activate_generation 0 reg2 = (Inl e, reg4)"
proof -
  obtain reg1 where r1: "prepare_generation example_parse example_input new_RulesOpenAuthorityRegistry = (Inr 0, reg1)"
      "rg_highWatermarks reg1 = [(js ''i'', 1)]" using example_prepare by blast
  obtain reg2 where r2: "prepare_generation example_parse next_input reg1 = (Inr (rg_next reg1), reg2)"
    using next_prepare [OF r1(2)] by blast
  have start: "new_RulesOpenAuthorityRegistry = foldl (rules_step example_parse) new_RulesOpenAuthorityRegistry []"
    "prepare_generation example_parse next_input (foldl (rules_step example_parse) reg1 []) = (Inr (rg_next reg1), reg2)"
    "reg2 = foldl (rules_step example_parse) reg2 []" using r2 by simp_all
  from superseded_never_active [OF start(1) r1(1) start(2,3)] r1(1) r2 show ?thesis by blast
qed

end
