(* ===== verification/Text_Offsets.thy ===== *)
theory Text_Offsets
  imports Prelude Complex_Main
begin

text \<open>
  \<^verbatim>\<open>extensions/vscode/src/sourcePlugins/sourceDocument.ts\<close>: the index of the line starts of a text,
  offsets to positions by binary search and back. A number that reaches \<^verbatim>\<open>clampInteger\<close> is a
  rational (every finite double is one) or not finite.
\<close>

subsection \<open>The index\<close>

fun line_starts_from :: "nat \<Rightarrow> jstring \<Rightarrow> nat list" where
  "line_starts_from i [] = []"
| "line_starts_from i (c # cs) =
     (if c = 0x0a then (i + 1) # line_starts_from (i + 1) cs else line_starts_from (i + 1) cs)"

definition lineStarts :: "jstring \<Rightarrow> nat list" where
  "lineStarts text = 0 # line_starts_from 0 text"

datatype js_real = Finite rat | NotFinite

fun clampInteger :: "js_real \<Rightarrow> nat \<Rightarrow> nat \<Rightarrow> nat" where
  "clampInteger NotFinite minimum maximum = minimum"
| "clampInteger (Finite r) minimum maximum = nat (min (max \<lfloor>r\<rfloor> (int minimum)) (int maximum))"

function search_line :: "nat list \<Rightarrow> nat \<Rightarrow> nat \<Rightarrow> nat \<Rightarrow> nat" where
  "search_line starts offset low high =
     (if low < high
      then (let middle = (low + high) div 2
        in if starts ! middle \<le> offset then search_line starts offset (middle + 1) high
           else search_line starts offset low middle)
      else low)"
  by pat_completeness auto
termination
  by (relation "measure (\<lambda>(starts, offset, low, high). high - low)") auto

declare search_line.simps [simp del]

definition lineContentEnd :: "jstring \<Rightarrow> nat \<Rightarrow> nat" where
  "lineContentEnd text line =
     (if line + 1 < length (lineStarts text)
      then let lineFeed = lineStarts text ! (line + 1) - 1
        in if 0 < lineFeed \<and> text ! (lineFeed - 1) = 0x0d then lineFeed - 1 else lineFeed
      else length text)"

definition positionAt :: "jstring \<Rightarrow> js_real \<Rightarrow> nat \<times> nat" where
  "positionAt text offset =
     (let boundedOffset = clampInteger offset 0 (length text);
          low = search_line (lineStarts text) boundedOffset 0 (length (lineStarts text));
          line = low - 1
      in (line, min boundedOffset (lineContentEnd text line) - lineStarts text ! line))"

definition offsetAt :: "jstring \<Rightarrow> js_real \<times> js_real \<Rightarrow> nat" where
  "offsetAt text position =
     (let line = clampInteger (fst position) 0 (length (lineStarts text))
      in if length (lineStarts text) \<le> line then length text
         else let lineStart = lineStarts text ! line;
                  character = clampInteger (snd position) 0 (lineContentEnd text line - lineStart)
           in lineStart + character)"

subsection \<open>What the index lists\<close>

lemma set_line_starts_from:
  "set (line_starts_from i s) = {i + j + 1 | j. j < length s \<and> s ! j = 0x0a}"
proof (induction s arbitrary: i)
  case (Cons c cs)
  have "{i + j + 1 | j. j < length (c # cs) \<and> (c # cs) ! j = 0x0a} =
      (if c = 0x0a then {i + 1} else {}) \<union> {i + 1 + j + 1 | j. j < length cs \<and> cs ! j = 0x0a}"
  proof (intro set_eqI iffI)
    fix x assume "x \<in> {i + j + 1 | j. j < length (c # cs) \<and> (c # cs) ! j = 0x0a}"
    then obtain j where j: "x = i + j + 1" "j < length (c # cs)" "(c # cs) ! j = 0x0a" by blast
    then show "x \<in> (if c = 0x0a then {i + 1} else {}) \<union> {i + 1 + j + 1 | j. j < length cs \<and> cs ! j = 0x0a}"
      by (cases j) auto
  next
    fix x assume "x \<in> (if c = 0x0a then {i + 1} else {}) \<union> {i + 1 + j + 1 | j. j < length cs \<and> cs ! j = 0x0a}"
    then consider "c = 0x0a" "x = i + 1" | j where "x = i + 1 + j + 1" "j < length cs" "cs ! j = 0x0a"
      by (auto split: if_splits)
    then show "x \<in> {i + j + 1 | j. j < length (c # cs) \<and> (c # cs) ! j = 0x0a}"
      by cases (force, rule CollectI, rule_tac x = "Suc j" in exI, simp)
  qed
  with Cons.IH [of "i + 1"] show ?case by simp
qed simp

lemma line_starts_from_greater: "x \<in> set (line_starts_from i s) \<Longrightarrow> i < x"
  by (auto simp: set_line_starts_from)

lemma sorted_line_starts_from: "sorted_wrt (<) (line_starts_from i s)"
  by (induction s arbitrary: i) (auto dest: line_starts_from_greater)

lemma lineStarts_sorted: "sorted_wrt (<) (lineStarts text)"
  by (auto simp: lineStarts_def sorted_line_starts_from dest: line_starts_from_greater)

lemma set_lineStarts: "set (lineStarts text) = insert 0 {i + 1 | i. i < length text \<and> text ! i = 0x0a}"
  by (auto simp: lineStarts_def set_line_starts_from)

lemma lineStarts_0 [simp]: "lineStarts text ! 0 = 0" "0 < length (lineStarts text)"
  by (simp_all add: lineStarts_def)

lemma lineStarts_less: "i < j \<Longrightarrow> j < length (lineStarts text) \<Longrightarrow> lineStarts text ! i < lineStarts text ! j"
  using lineStarts_sorted sorted_wrt_nth_less by blast

lemma lineStarts_feed:
  assumes "Suc k < length (lineStarts text)"
  shows "0 < lineStarts text ! Suc k" "lineStarts text ! Suc k - 1 < length text"
    "text ! (lineStarts text ! Suc k - 1) = 0x0a"
proof -
  have pos: "0 < lineStarts text ! Suc k" using lineStarts_less [of 0 "Suc k"] assms by simp
  have "lineStarts text ! Suc k \<in> set (lineStarts text)" using assms by simp
  then obtain i where "lineStarts text ! Suc k = i + 1" "i < length text" "text ! i = 0x0a"
    using pos by (auto simp: set_lineStarts)
  then show "0 < lineStarts text ! Suc k" "lineStarts text ! Suc k - 1 < length text"
    "text ! (lineStarts text ! Suc k - 1) = 0x0a" by simp_all
qed

subsection \<open>The binary search\<close>

text \<open>The number of line starts at or before the offset.\<close>

definition starts_up_to :: "nat list \<Rightarrow> nat \<Rightarrow> nat" where
  "starts_up_to starts offset = length (takeWhile (\<lambda>s. s \<le> offset) starts)"

lemma starts_up_to_between:
  assumes "sorted_wrt (<) starts" and "k \<le> length starts"
    and "\<And>i. i < k \<Longrightarrow> starts ! i \<le> offset" and "k < length starts \<Longrightarrow> offset < starts ! k"
  shows "starts_up_to starts offset = k"
proof -
  have "takeWhile (\<lambda>s. s \<le> offset) starts = take k starts"
    by (rule takeWhile_eq_take_P_nth) (use assms in auto)
  then show ?thesis using assms(2) by (simp add: starts_up_to_def)
qed

lemma search_line_correct:
  assumes "sorted_wrt (<) starts" and "low \<le> high" and "high \<le> length starts"
    and "\<forall>i<low. starts ! i \<le> offset"
    and "\<forall>i<length starts. high \<le> i \<longrightarrow> offset < starts ! i"
  shows "search_line starts offset low high = starts_up_to starts offset"
  using assms
proof (induction starts offset low high rule: search_line.induct)
  case (1 starts offset low high)
  define middle where "middle = (low + high) div 2"
  have le: "starts ! i \<le> starts ! j" if "i \<le> j" "j < length starts" for i j
    using sorted_wrt_nth_less [OF "1.prems"(1)] that by (cases "i = j") (auto intro: less_imp_le)
  show ?case
  proof (cases "low < high")
    case True
    then have m: "low \<le> middle" "middle < high" by (simp_all add: middle_def)
    have step: "search_line starts offset low high =
        (if starts ! middle \<le> offset then search_line starts offset (middle + 1) high
         else search_line starts offset low middle)"
      using True by (subst search_line.simps) (simp add: middle_def Let_def)
    show ?thesis
    proof (cases "starts ! middle \<le> offset")
      case yes: True
      have "\<forall>i<middle + 1. starts ! i \<le> offset"
        using le [of _ middle] m yes "1.prems"(3) by (auto simp: less_Suc_eq_le intro: order_trans)
      then have "search_line starts offset (middle + 1) high = starts_up_to starts offset"
        using "1.IH"(1) [OF True middle_def yes "1.prems"(1) _ "1.prems"(3) _ "1.prems"(5)] m by simp
      then show ?thesis using step yes by simp
    next
      case no: False
      have "\<forall>i<length starts. middle \<le> i \<longrightarrow> offset < starts ! i"
        using le [of middle] no by (auto simp: not_le intro: less_le_trans)
      then have "search_line starts offset low middle = starts_up_to starts offset"
        using "1.IH"(2) [OF True middle_def no "1.prems"(1) m(1) _ "1.prems"(4)] m "1.prems"(3) by simp
      then show ?thesis using step no by simp
    qed
  next
    case False
    then have "low = high" using "1.prems"(2) by simp
    then have "starts_up_to starts offset = low"
      using "1.prems" by (intro starts_up_to_between) auto
    then show ?thesis using False by (subst search_line.simps) simp
  qed
qed

subsection \<open>Lines\<close>

text \<open>Line \<open>k\<close> of the text holds the offsets from its start up to the next line's start.\<close>

definition on_line :: "jstring \<Rightarrow> nat \<Rightarrow> nat \<Rightarrow> bool" where
  "on_line t k offset \<longleftrightarrow> k < length (lineStarts t) \<and> lineStarts t ! k \<le> offset \<and>
     (Suc k < length (lineStarts t) \<longrightarrow> offset < lineStarts t ! Suc k)"

lemma starts_up_to_on_line:
  assumes "on_line t k offset" shows "starts_up_to (lineStarts t) offset = Suc k"
proof (rule starts_up_to_between [OF lineStarts_sorted])
  show "Suc k \<le> length (lineStarts t)" using assms by (simp add: on_line_def)
  show "lineStarts t ! i \<le> offset" if "i < Suc k" for i
  proof (cases "i = k")
    case False
    then have "lineStarts t ! i < lineStarts t ! k" using that assms by (intro lineStarts_less) (simp_all add: on_line_def)
    then show ?thesis using assms by (simp add: on_line_def)
  qed (use assms in \<open>simp add: on_line_def\<close>)
qed (use assms in \<open>simp add: on_line_def\<close>)

lemma ex_on_line: "\<exists>k. on_line t k offset"
proof -
  let ?k = "starts_up_to (lineStarts t) offset"
  have head: "lineStarts t ! i \<le> offset" if "i < ?k" for i
    using that nth_mem [of i "takeWhile (\<lambda>s. s \<le> offset) (lineStarts t)"]
    by (auto simp: starts_up_to_def takeWhile_nth dest: set_takeWhileD)
  have "?k \<le> length (lineStarts t)" by (simp add: starts_up_to_def length_takeWhile_le)
  moreover have "0 < ?k" by (simp add: starts_up_to_def lineStarts_def)
  moreover have "offset < lineStarts t ! ?k" if "?k < length (lineStarts t)"
    using nth_length_takeWhile [of "\<lambda>s. s \<le> offset" "lineStarts t"] that by (simp add: starts_up_to_def)
  ultimately show ?thesis using head [of "?k - 1"] by (intro exI [of _ "?k - 1"]) (auto simp: on_line_def)
qed

lemma search_lineStarts:
  assumes "on_line t k offset"
  shows "search_line (lineStarts t) offset 0 (length (lineStarts t)) = Suc k"
  using search_line_correct [OF lineStarts_sorted, of 0 "length (lineStarts t)" t offset]
    starts_up_to_on_line [OF assms] by simp

lemma content_end_next:
  "Suc k < length (lineStarts t) \<Longrightarrow> f = lineStarts t ! Suc k - 1 \<Longrightarrow>
   lineContentEnd t k = (if 0 < f \<and> t ! (f - 1) = 0x0d then f - 1 else f)"
  by (simp add: lineContentEnd_def Let_def)

lemma lineContentEnd_cases:
  assumes "k < length (lineStarts t)"
  shows "lineStarts t ! k \<le> lineContentEnd t k" "lineContentEnd t k \<le> length t"
    "Suc k < length (lineStarts t) \<Longrightarrow> lineContentEnd t k < lineStarts t ! Suc k"
proof -
  have "lineStarts t ! k \<le> length t"
    using nth_mem [OF assms] by (auto simp: set_lineStarts)
  moreover have "lineStarts t ! k \<le> lineContentEnd t k \<and> lineContentEnd t k \<le> length t \<and>
      lineContentEnd t k < lineStarts t ! Suc k" if next_line: "Suc k < length (lineStarts t)"
  proof -
    define f where "f = lineStarts t ! Suc k - 1"
    have f: "0 < lineStarts t ! Suc k" "f < length t" "t ! f = 0x0a" "lineStarts t ! k \<le> f"
      using lineStarts_feed [OF next_line] lineStarts_less [OF lessI next_line] by (auto simp: f_def)
    have "lineStarts t ! k \<noteq> f" if cr: "0 < f" "t ! (f - 1) = 0x0d"
    proof
      assume eq: "lineStarts t ! k = f"
      then have "f \<in> set (lineStarts t)" using assms by (metis nth_mem)
      then have "t ! (f - 1) = 0x0a" using cr(1) by (auto simp: set_lineStarts)
      with cr(2) show False by simp
    qed
    moreover have "f < lineStarts t ! Suc k" using f(1) by (simp add: f_def)
    ultimately show ?thesis using f(2,4) content_end_next [OF next_line f_def] by auto
  qed
  ultimately show "lineStarts t ! k \<le> lineContentEnd t k" "lineContentEnd t k \<le> length t"
    "Suc k < length (lineStarts t) \<Longrightarrow> lineContentEnd t k < lineStarts t ! Suc k"
    by (cases "Suc k < length (lineStarts t)"; simp add: lineContentEnd_def)+
qed

lemma clamp_int [simp]:
  "lo \<le> n \<Longrightarrow> n \<le> hi \<Longrightarrow> clampInteger (Finite (of_nat n)) lo hi = n"
  by simp

lemma positionAt_on_line:
  assumes "on_line t k offset" and "offset \<le> length t"
  shows "positionAt t (Finite (of_nat offset)) = (k, min offset (lineContentEnd t k) - lineStarts t ! k)"
  using assms search_lineStarts [OF assms(1)] by (simp add: positionAt_def del: clampInteger.simps)

lemma offsetAt_position:
  assumes "k < length (lineStarts t)" and "c \<le> lineContentEnd t k - lineStarts t ! k"
  shows "offsetAt t (Finite (of_nat k), Finite (of_nat c)) = lineStarts t ! k + c"
  using assms by (simp add: offsetAt_def del: clampInteger.simps)

text \<open>Inside a line break of two characters: after the carriage return, before the line feed.\<close>

definition inside_crlf :: "jstring \<Rightarrow> nat \<Rightarrow> bool" where
  "inside_crlf t offset \<longleftrightarrow> 0 < offset \<and> offset < length t \<and> t ! (offset - 1) = 0x0d \<and> t ! offset = 0x0a"

lemma content_end_offset:
  assumes k: "on_line t k offset" and le: "offset \<le> length t"
  shows "min offset (lineContentEnd t k) = (if inside_crlf t offset then offset - 1 else offset)"
proof (cases "Suc k < length (lineStarts t)")
  case True
  define f where "f = lineStarts t ! Suc k - 1"
  have f: "0 < lineStarts t ! Suc k" "f < length t" "t ! f = 0x0a" "offset \<le> f"
    using lineStarts_feed [OF True] k True by (auto simp: f_def on_line_def)
  have last: "offset = f" if "offset < length t" "t ! offset = 0x0a"
  proof -
    have "Suc offset \<in> set (lineStarts t)" using that by (auto simp: set_lineStarts)
    then obtain j where j: "j < length (lineStarts t)" "lineStarts t ! j = Suc offset"
      by (metis in_set_conv_nth)
    have "k < j"
    proof (rule ccontr)
      assume "\<not> k < j"
      then have "lineStarts t ! j \<le> lineStarts t ! k"
        using lineStarts_less [of j k t] k by (cases "j = k") (auto simp: on_line_def intro: less_imp_le)
      then show False using k j by (simp add: on_line_def)
    qed
    then have "lineStarts t ! Suc k \<le> Suc offset"
      using lineStarts_less [of "Suc k" j t] j by (cases "Suc k = j") (auto intro: less_imp_le)
    then show ?thesis using f by (simp add: f_def)
  qed
  show ?thesis
  proof (cases "0 < f \<and> t ! (f - 1) = 0x0d")
    case cr: True
    have "lineContentEnd t k = f - 1" using cr content_end_next [OF True f_def] by simp
    show ?thesis
    proof (cases "offset = f")
      case True
      then show ?thesis using f cr \<open>lineContentEnd t k = f - 1\<close> by (simp add: inside_crlf_def)
    next
      case False
      then have "\<not> inside_crlf t offset" using last unfolding inside_crlf_def by blast
      then show ?thesis using f(4) False \<open>lineContentEnd t k = f - 1\<close> by simp
    qed
  next
    case False
    then have "lineContentEnd t k = f" using content_end_next [OF True f_def] by auto
    moreover have "\<not> inside_crlf t offset" using last False unfolding inside_crlf_def by blast
    ultimately show ?thesis using f(4) by simp
  qed
next
  case False
  have "t ! offset \<noteq> 0x0a" if "offset < length t"
  proof
    assume "t ! offset = 0x0a"
    then have "Suc offset \<in> set (lineStarts t)" using that by (auto simp: set_lineStarts)
    then obtain j where j: "j < length (lineStarts t)" "lineStarts t ! j = Suc offset"
      by (metis in_set_conv_nth)
    then have "j \<le> k" using False k by (simp add: on_line_def)
    then have "lineStarts t ! j \<le> lineStarts t ! k"
      using lineStarts_less [of j k t] k by (cases "j = k") (auto simp: on_line_def intro: less_imp_le)
    then show False using k j by (simp add: on_line_def)
  qed
  with False le show ?thesis by (auto simp: lineContentEnd_def inside_crlf_def)
qed

text \<open>Offsets and positions are inverse: an offset inside the text becomes a position that leads
  back to it, or to the line's end when it lies between the two characters of a line break; a
  position with a line of the text and a character of that line's content becomes an offset that
  leads back to it.
\<close>
theorem offsets_round_trip:
  "(offset \<le> length t \<longrightarrow> positionAt t (Finite (of_nat offset)) = (line, ch) \<longrightarrow>
      offsetAt t (Finite (of_nat line), Finite (of_nat ch)) =
        (if inside_crlf t offset then offset - 1 else offset)) \<and>
   (line < length (lineStarts t) \<longrightarrow> lineStarts t ! line + ch \<le> lineContentEnd t line \<longrightarrow>
      positionAt t (Finite (of_nat (offsetAt t (Finite (of_nat line), Finite (of_nat ch))))) = (line, ch))"
proof (intro conjI impI)
  assume le: "offset \<le> length t" and pos: "positionAt t (Finite (of_nat offset)) = (line, ch)"
  obtain k where k: "on_line t k offset" using ex_on_line by blast
  have "(line, ch) = (k, min offset (lineContentEnd t k) - lineStarts t ! k)"
    unfolding positionAt_on_line [OF k le, symmetric] by (rule pos [symmetric])
  then have p: "line = k" "ch = min offset (lineContentEnd t k) - lineStarts t ! k" by simp_all
  have kl: "k < length (lineStarts t)" "lineStarts t ! k \<le> offset" using k by (simp_all add: on_line_def)
  have "offsetAt t (Finite (of_nat line), Finite (of_nat ch)) = lineStarts t ! k + ch"
    unfolding p(1) by (rule offsetAt_position [OF kl(1)]) (simp add: p(2))
  also have "\<dots> = min offset (lineContentEnd t k)"
    using kl(2) lineContentEnd_cases(1) [OF kl(1)] by (simp add: p(2))
  finally show "offsetAt t (Finite (of_nat line), Finite (of_nat ch)) = (if inside_crlf t offset then offset - 1 else offset)"
    by (simp only: content_end_offset [OF k le])
next
  assume l: "line < length (lineStarts t)" and c: "lineStarts t ! line + ch \<le> lineContentEnd t line"
  note e = lineContentEnd_cases [OF l]
  have o: "offsetAt t (Finite (of_nat line), Finite (of_nat ch)) = lineStarts t ! line + ch"
    by (rule offsetAt_position [OF l]) (use c in simp)
  have k: "on_line t line (lineStarts t ! line + ch)" using l c e(3) by (auto simp: on_line_def)
  have "lineStarts t ! line + ch \<le> length t" using c e(2) by simp
  from positionAt_on_line [OF k this] c
  show "positionAt t (Finite (of_nat (offsetAt t (Finite (of_nat line), Finite (of_nat ch))))) = (line, ch)"
    by (simp only: o) simp
qed

definition example_text :: jstring where
  "example_text = [97, 13, 10, 98]"

theorem offsets_round_trip_witness:
  "offsetAt example_text (Finite (of_nat 0), Finite (of_nat 1)) = 1 \<and>
   positionAt example_text (Finite (of_nat (offsetAt example_text (Finite (of_nat 1), Finite (of_nat 1))))) = (1, 1)"
proof -
  have s: "lineStarts example_text = [0, 3]" by (simp add: lineStarts_def example_text_def)
  have k: "on_line example_text 0 2" by (simp add: on_line_def s)
  have e: "lineContentEnd example_text 0 = 1" "lineContentEnd example_text 1 = 4"
    by (simp_all add: lineContentEnd_def s, simp_all add: example_text_def)
  have "positionAt example_text (Finite (of_nat 2)) = (0, 1)"
    using positionAt_on_line [OF k] e(1) by (simp add: s example_text_def)
  then show ?thesis
    using offsets_round_trip [of 2 example_text 0 1] offsets_round_trip [of 2 example_text 1 1] e s
    by (simp add: inside_crlf_def example_text_def)
qed

end
