(* ===== verification/Text_Regex.thy ===== *)
theory Text_Regex
  imports Text_Patterns
begin

text \<open>
  Regular expressions with the \<^verbatim>\<open>u\<close> flag, piece by piece as they are written in the code: a
  pattern maps the code points of a text to the rests it may leave behind, so that alternatives
  are backtracked into.
\<close>

subsection \<open>Code points\<close>

text \<open>\<^verbatim>\<open>[...text]\<close>: the characters of a text, a surrogate pair being one of them.\<close>

fun characters :: "jstring \<Rightarrow> jstring list" where
  "characters [] = []"
| "characters (c # rest) =
     (case rest of
        [] \<Rightarrow> [[c]]
      | d # rest' \<Rightarrow> if high_surrogate c \<and> low_surrogate d then [c, d] # characters rest'
          else [c] # characters rest)"

fun codePointAt0 :: "jstring \<Rightarrow> nat" where
  "codePointAt0 [] = 0"
| "codePointAt0 [c] = unat c"
| "codePointAt0 (c # d # _) =
     (if high_surrogate c \<and> low_surrogate d
      then 0x10000 + (unat c - 0xd800) * 0x400 + (unat d - 0xdc00) else unat c)"

definition code_points :: "jstring \<Rightarrow> nat list" where
  "code_points s = map codePointAt0 (characters s)"

lemma concat_characters [simp]: "concat (characters s) = s"
proof (induction s rule: characters.induct)
  case (2 c rest)
  then show ?case by (cases rest) simp_all
qed simp

lemma characters_not_Nil: "x \<in> set (characters s) \<Longrightarrow> x \<noteq> []"
proof (induction s rule: characters.induct)
  case (2 c rest)
  then show ?case by (cases rest) (auto split: if_splits simp del: characters.simps(2), auto split: if_splits)
qed simp

subsection \<open>Patterns\<close>

type_synonym rx = "nat list \<Rightarrow> nat list list"

definition rx_class :: "(nat \<Rightarrow> bool) \<Rightarrow> rx" where
  "rx_class P s = (case s of [] \<Rightarrow> [] | c # cs \<Rightarrow> if P c then [cs] else [])"

fun rx_star :: "(nat \<Rightarrow> bool) \<Rightarrow> rx" where
  "rx_star P [] = [[]]"
| "rx_star P (c # cs) = (if P c then rx_star P cs else []) @ [c # cs]"

fun rx_seq :: "rx list \<Rightarrow> rx" where
  "rx_seq [] s = [s]"
| "rx_seq (r # rs) s = concat (map (rx_seq rs) (r s))"

definition rx_plus :: "(nat \<Rightarrow> bool) \<Rightarrow> rx" where
  "rx_plus P = rx_seq [rx_class P, rx_star P]"

definition rx_opt :: "rx \<Rightarrow> rx" where
  "rx_opt r s = r s @ [s]"

definition rx_end :: rx where
  "rx_end s = (if s = [] then [[]] else [])"

text \<open>Literal text under a canonical form of the characters (the identity without the \<^verbatim>\<open>i\<close> flag).\<close>

definition rx_text :: "(nat \<Rightarrow> nat) \<Rightarrow> string \<Rightarrow> rx" where
  "rx_text canon t = rx_seq (map (\<lambda>c. rx_class (\<lambda>x. canon x = of_char c)) t)"

text \<open>\<^verbatim>\<open>RegExp.test\<close> of a pattern that starts with \<^verbatim>\<open>^\<close>, and of one that does not.\<close>

definition rx_test :: "rx \<Rightarrow> jstring \<Rightarrow> bool" where
  "rx_test r s \<longleftrightarrow> r (code_points s) \<noteq> []"

fun rx_found :: "rx \<Rightarrow> nat list \<Rightarrow> bool" where
  "rx_found r [] \<longleftrightarrow> r [] \<noteq> []"
| "rx_found r (c # cs) \<longleftrightarrow> r (c # cs) \<noteq> [] \<or> rx_found r cs"

definition rx_search :: "rx \<Rightarrow> jstring \<Rightarrow> bool" where
  "rx_search r s = rx_found r (code_points s)"

subsection \<open>Classes\<close>

text \<open>Simple case folding of the \<^verbatim>\<open>iu\<close> flags where it meets an ASCII letter.\<close>

definition fold_point :: "nat \<Rightarrow> nat" where
  "fold_point c = (if c = 0x212a then 0x6b else if c = 0x17f then 0x73
     else if 65 \<le> c \<and> c \<le> 90 then c + 32 else c)"

definition digit_point :: "nat \<Rightarrow> bool" where
  "digit_point c \<longleftrightarrow> 48 \<le> c \<and> c \<le> 57"

definition lower_point :: "nat \<Rightarrow> bool" where
  "lower_point c \<longleftrightarrow> 97 \<le> c \<and> c \<le> 122"

text \<open>White space and line terminators: \<^verbatim>\<open>\s\<close>, and what \<^verbatim>\<open>String.prototype.trim\<close> removes.\<close>

definition space_point :: "nat \<Rightarrow> bool" where
  "space_point c \<longleftrightarrow> 0x09 \<le> c \<and> c \<le> 0x0d \<or> c = 0x20 \<or> c = 0xa0 \<or> c = 0x1680 \<or>
     0x2000 \<le> c \<and> c \<le> 0x200a \<or> c = 0x2028 \<or> c = 0x2029 \<or> c = 0x202f \<or> c = 0x205f \<or>
     c = 0x3000 \<or> c = 0xfeff"

text \<open>\<^verbatim>\<open>.\<close>\<close>

definition dot_point :: "nat \<Rightarrow> bool" where
  "dot_point c \<longleftrightarrow> c \<noteq> 0x0a \<and> c \<noteq> 0x0d \<and> c \<noteq> 0x2028 \<and> c \<noteq> 0x2029"

definition trim :: "jstring \<Rightarrow> jstring" where
  "trim s = rev (dropWhile (space_point \<circ> unat) (rev (dropWhile (space_point \<circ> unat) s)))"

lemma set_trim: "set (trim s) \<subseteq> set s"
proof -
  have "set (dropWhile P (rev (dropWhile P s))) \<subseteq> set s" for P
    using set_dropWhileD [of _ P s] set_dropWhileD [of _ P "rev (dropWhile P s)"] by auto
  then show ?thesis by (simp add: trim_def)
qed

lemma length_trim: "length (trim s) \<le> length s"
  unfolding trim_def by (metis length_dropWhile_le length_rev order_trans)

subsection \<open>What patterns leave behind\<close>

lemma set_rx_star: "x \<in> set (rx_star P s) \<longleftrightarrow> (\<exists>p. s = p @ x \<and> list_all P p)"
proof (induction s)
  case (Cons c cs)
  show ?case
  proof
    assume "x \<in> set (rx_star P (c # cs))"
    then consider "x = c # cs" | "P c" "x \<in> set (rx_star P cs)" by (auto split: if_splits)
    then show "\<exists>p. c # cs = p @ x \<and> list_all P p"
    proof cases
      case 2
      then obtain p where "cs = p @ x" "list_all P p" using Cons.IH by blast
      with 2 show ?thesis by (intro exI [of _ "c # p"]) simp
    qed simp
  next
    assume "\<exists>p. c # cs = p @ x \<and> list_all P p"
    then obtain p where p: "c # cs = p @ x" "list_all P p" by blast
    then show "x \<in> set (rx_star P (c # cs))"
      using Cons.IH by (cases p) auto
  qed
qed auto

lemma set_rx_class: "x \<in> set (rx_class P s) \<longleftrightarrow> (\<exists>c. s = c # x \<and> P c)"
  by (auto simp: rx_class_def split: list.splits)

lemma set_rx_opt: "x \<in> set (rx_opt r s) \<longleftrightarrow> x = s \<or> x \<in> set (r s)"
  by (auto simp: rx_opt_def)

lemma set_rx_end: "x \<in> set (rx_end s) \<longleftrightarrow> s = [] \<and> x = []"
  by (auto simp: rx_end_def)

lemma set_rx_seq_Cons: "x \<in> set (rx_seq (r # rs) s) \<longleftrightarrow> (\<exists>y\<in>set (r s). x \<in> set (rx_seq rs y))"
  by auto

lemma not_Nil_set: "xs \<noteq> [] \<longleftrightarrow> (\<exists>x. x \<in> set xs)"
  by (cases xs) auto

lemma rx_found_iff: "rx_found r s \<longleftrightarrow> (\<exists>p q x. s = p @ q \<and> x \<in> set (r q))"
proof (induction s)
  case Nil
  show ?case by (simp add: not_Nil_set)
next
  case (Cons c cs)
  have "(\<exists>p q x. c # cs = p @ q \<and> x \<in> set (r q)) \<longleftrightarrow>
      (\<exists>x. x \<in> set (r (c # cs))) \<or> (\<exists>p q x. cs = p @ q \<and> x \<in> set (r q))"
    unfolding Cons_eq_append_conv by auto
  then show ?case using Cons.IH by (simp add: not_Nil_set)
qed

end
