(* ===== verification/Save_Observer.thy ===== *)
theory Save_Observer
  imports Text_Regex Protocol_Messages Complex_Main "HOL-Library.Multiset"
begin

text \<open>
  \<^verbatim>\<open>extensions/vscode/src/refresh\<close>: which refresh a saved file asks for
  (\<^verbatim>\<open>refreshClassifierRegistry.ts\<close>), and when it is published (\<^verbatim>\<open>saveObserver.ts\<close>): saves settle
  for a while, a save of a preprocessor source waits for the stylesheet generated from it, and
  nothing waits beyond a deadline. The clock is read at every event and is an input; a timer is
  the time it is due. The URL parser and the classifiers of other extensions are parameters.
\<close>

subsection \<open>Classifiers\<close>

text \<open>What reading the \<^verbatim>\<open>id\<close> of a classifier gives, and what asking it answers.\<close>

datatype id_read = IdThrows | IdNotString | IdText jstring

datatype classification = ClassifyThrows | Classified "refresh_mode option"

record classifier_input =
  ci_uri :: jstring
  ci_languageId :: jstring

record refresh_classifier =
  rc_id :: id_read
  rc_classify :: "classifier_input \<Rightarrow> classification"

text \<open>\<^verbatim>\<open>RegisteredClassifier\<close>; entries are compared by identity, \<open>rg_entry\<close>.\<close>

record registered_classifier =
  rg_entry :: nat
  rg_classifier :: refresh_classifier

record classifier_registry =
  cg_classifiers :: "(jstring, registered_classifier) jmap"
  cg_entries :: nat

datatype register_error = IdUnreadable | IdInvalid | IdTaken jstring | TooManyClassifiers

definition MAX_EXTERNAL_CLASSIFIERS :: nat where "MAX_EXTERNAL_CLASSIFIERS = 64"
definition MAX_CLASSIFIER_ID_LENGTH :: nat where "MAX_CLASSIFIER_ID_LENGTH = 128"

definition STYLE_SUFFIXES :: "jstring list" where
  "STYLE_SUFFIXES = map js [''.css'', ''.scss'', ''.sass'', ''.less'']"

definition RELOAD_SUFFIXES :: "jstring list" where
  "RELOAD_SUFFIXES = map js [''.js'', ''.mjs'', ''.cjs'', ''.jsx'', ''.ts'', ''.tsx'', ''.vue'', ''.php'', ''.html'']"


fun captureClassifierId :: "id_read \<Rightarrow> register_error + jstring" where
  "captureClassifierId IdThrows = Inl IdUnreadable"
| "captureClassifierId IdNotString = Inl IdInvalid"
| "captureClassifierId (IdText s) =
     (if trim s = [] \<or> length s > MAX_CLASSIFIER_ID_LENGTH then Inl IdInvalid else Inr s)"

text \<open>\<^verbatim>\<open>register\<close>; the result names the entry that \<^verbatim>\<open>dispose\<close> may remove.\<close>

definition register_classifier ::
  "refresh_classifier \<Rightarrow> classifier_registry \<Rightarrow> (register_error + jstring \<times> nat) \<times> classifier_registry" where
  "register_classifier c g =
     (case captureClassifierId (rc_id c) of
        Inl e \<Rightarrow> (Inl e, g)
      | Inr name \<Rightarrow>
          if jget (cg_classifiers g) name \<noteq> None then (Inl (IdTaken name), g)
          else if length (cg_classifiers g) \<ge> MAX_EXTERNAL_CLASSIFIERS then (Inl TooManyClassifiers, g)
          else (Inr (name, cg_entries g),
            g\<lparr>cg_classifiers := jset name \<lparr>rg_entry = cg_entries g, rg_classifier = c\<rparr> (cg_classifiers g),
              cg_entries := Suc (cg_entries g)\<rparr>))"

definition dispose_classifier :: "jstring \<Rightarrow> nat \<Rightarrow> classifier_registry \<Rightarrow> classifier_registry" where
  "dispose_classifier name entry g =
     (case jget (cg_classifiers g) name of
        None \<Rightarrow> g
      | Some r \<Rightarrow> if rg_entry r = entry
          then g\<lparr>cg_classifiers := jdel name (cg_classifiers g)\<rparr> else g)"

type_synonym path_parser = "jstring \<Rightarrow> jstring option"

text \<open>The path name of a URL is percent-encoded text, so lower case only touches ASCII letters.\<close>

definition ends_with :: "jstring \<Rightarrow> jstring \<Rightarrow> bool" where
  "ends_with s suffix \<longleftrightarrow> length suffix \<le> length s \<and> drop (length s - length suffix) s = suffix"

definition classifyBuiltIn :: "path_parser \<Rightarrow> jstring \<Rightarrow> refresh_mode option" where
  "classifyBuiltIn url uri =
     (case url uri of None \<Rightarrow> None
      | Some p \<Rightarrow>
          let pathname = map ascii_lower p in
          if list_ex (ends_with pathname) STYLE_SUFFIXES then Some StylesMode
          else if list_ex (ends_with pathname) RELOAD_SUFFIXES then Some ReloadMode
          else None)"

fun strongerMode :: "refresh_mode option \<Rightarrow> refresh_mode option \<Rightarrow> refresh_mode option" where
  "strongerMode current candidate =
     (if current = Some ReloadMode \<or> candidate = Some ReloadMode then Some ReloadMode
      else if current = Some StylesMode \<or> candidate = Some StylesMode then Some StylesMode
      else None)"

text \<open>\<^verbatim>\<open>left < right\<close> on strings compares code units.\<close>

fun text_less :: "jstring \<Rightarrow> jstring \<Rightarrow> bool" where
  "text_less [] [] = False"
| "text_less [] (y # ys) = True"
| "text_less (x # xs) [] = False"
| "text_less (x # xs) (y # ys) = (x < y \<or> x = y \<and> text_less xs ys)"

fun insert_entry :: "jstring \<times> registered_classifier \<Rightarrow> (jstring \<times> registered_classifier) list \<Rightarrow>
    (jstring \<times> registered_classifier) list" where
  "insert_entry e [] = [e]"
| "insert_entry e (x # xs) = (if text_less (fst x) (fst e) then x # insert_entry e xs else e # x # xs)"

definition sorted_entries :: "classifier_registry \<Rightarrow> (jstring \<times> registered_classifier) list" where
  "sorted_entries g = foldr insert_entry (cg_classifiers g) []"

fun ask_classifiers :: "classifier_input \<Rightarrow> (jstring \<times> registered_classifier) list \<Rightarrow>
    refresh_mode option \<Rightarrow> refresh_mode option \<times> jstring list" where
  "ask_classifiers input [] result = (result, [])"
| "ask_classifiers input ((name, r) # entries) result =
     (case rc_classify (rg_classifier r) input of
        Classified m \<Rightarrow> ask_classifiers input entries (strongerMode result m)
      | ClassifyThrows \<Rightarrow>
          (case ask_classifiers input entries result of (m, failed) \<Rightarrow> (m, name # failed)))"

text \<open>\<^verbatim>\<open>classify\<close>, with the ids whose failure it reports.\<close>

definition classify :: "path_parser \<Rightarrow> classifier_registry \<Rightarrow> classifier_input \<Rightarrow>
    refresh_mode option \<times> jstring list" where
  "classify url g input = ask_classifiers input (sorted_entries g) (classifyBuiltIn url (ci_uri input))"

subsection \<open>The observer\<close>














subsection \<open>Runs\<close>

datatype observer_event = DocChanged jstring nat | DocSaved classifier_input | DocClosed jstring
  | GeneratedCss | TimerFires | DisposeObserver




subsection \<open>Classifying\<close>

lemma mset_insert_entry: "mset (insert_entry e xs) = add_mset e (mset xs)"
  by (induction xs) simp_all

lemma mset_sorted_entries: "mset (sorted_entries g) = mset (cg_classifiers g)"
proof -
  have "mset (foldr insert_entry xs []) = mset xs" for xs
    by (induction xs) (simp_all add: mset_insert_entry)
  then show ?thesis by (simp add: sorted_entries_def)
qed

definition classifier_throws :: "classifier_input \<Rightarrow> jstring \<times> registered_classifier \<Rightarrow> bool" where
  "classifier_throws input e \<longleftrightarrow> rc_classify (rg_classifier (snd e)) input = ClassifyThrows"

definition modes_asked :: "classifier_input \<Rightarrow> (jstring \<times> registered_classifier) list \<Rightarrow> refresh_mode set" where
  "modes_asked input es = {m. \<exists>e\<in>set es. rc_classify (rg_classifier (snd e)) input = Classified (Some m)}"

definition strongest :: "refresh_mode set \<Rightarrow> refresh_mode option" where
  "strongest ms = (if ReloadMode \<in> ms then Some ReloadMode else if StylesMode \<in> ms then Some StylesMode else None)"

lemma strongest_insert: "strongerMode (strongest ms) m = strongest (ms \<union> set_option m)"
proof (cases m)
  case (Some x)
  then show ?thesis by (cases x) (auto simp: strongest_def)
qed (auto simp: strongest_def)

lemma ask_classifiers_eq: "ask_classifiers input es (strongest ms) =
    (strongest (ms \<union> modes_asked input es), map fst (filter (classifier_throws input) es))"
proof (induction es arbitrary: ms)
  case Nil
  then show ?case by (simp add: modes_asked_def)
next
  case (Cons e es)
  obtain name r where e: "e = (name, r)" by (cases e)
  show ?case
  proof (cases "rc_classify (rg_classifier r) input")
    case ClassifyThrows
    then have "modes_asked input (e # es) = modes_asked input es" by (auto simp: modes_asked_def e)
    then show ?thesis using ClassifyThrows by (simp add: e Cons.IH classifier_throws_def)
  next
    case (Classified m)
    then have "ms \<union> modes_asked input (e # es) = (ms \<union> set_option m) \<union> modes_asked input es"
      by (auto simp: modes_asked_def e)
    then show ?thesis using Classified
      by (simp add: e Cons.IH classifier_throws_def strongest_insert del: strongerMode.simps)
  qed
qed

text \<open>C32:
  Classifying a saved file takes the strongest refresh that the built-in rules or any registered
  classifier asks for, whatever the order of registration; a classifier that throws is left out
  and reported exactly once.
\<close>
theorem classify_strongest:
  "fst (classify url g input) =
     strongest (set_option (classifyBuiltIn url (ci_uri input)) \<union> modes_asked input (cg_classifiers g)) \<and>
   mset (snd (classify url g input)) =
     image_mset fst (filter_mset (classifier_throws input) (mset (cg_classifiers g)))"
proof -
  have b: "strongest (set_option m) = m" for m
  proof (cases m)
    case (Some x)
    then show ?thesis by (cases x) (simp_all add: strongest_def)
  qed (simp add: strongest_def)
  have "set (sorted_entries g) = set (cg_classifiers g)"
    using mset_sorted_entries [of g] by (rule mset_eq_setD)
  then have "modes_asked input (sorted_entries g) = modes_asked input (cg_classifiers g)"
    by (simp add: modes_asked_def)
  then show ?thesis
    using ask_classifiers_eq [of input "sorted_entries g" "set_option (classifyBuiltIn url (ci_uri input))"]
    by (simp add: classify_def b mset_sorted_entries)
qed

subsection \<open>Pending refreshes\<close>








fun observer_time :: "real \<times> observer_event \<Rightarrow> real" where
  "observer_time (now, e) = now"












end
