(* ===== verification/Panel_Views.thy ===== *)
theory Panel_Views
  imports Data_Snapshot Protocol_Schemas
begin

text \<open>
  The two parts of the DevTools panel that show sources: the row that steps through the matches of
  an inspected element (\<^verbatim>\<open>browser-extension-core/src/sourceNavigationController.ts\<close>) and the origins
  of its rules (\<^verbatim>\<open>rulesSourcesController.ts\<close>). Each follows what the IDE publishes for the current
  inspect message and drops what is late. Listeners are numbered in the order they subscribe;
  what they are told, and the commands sent, are recorded with the latest first. A listener and
  the sending of a command return.
\<close>

subsection \<open>Source navigation\<close>

record navigation_model =
  nm_inspectMessageId :: "jstring option"
  nm_resolutionGeneration :: "int option"
  nm_visible :: bool
  nm_reserveRowSpace :: bool
  nm_disabled :: bool
  nm_selectedMatchCount :: int
  nm_activeMatchIndex :: "int option"
  nm_counter :: jstring

record navigate_command =
  nc_inspectMessageId :: jstring
  nc_resolutionGeneration :: int
  nc_direction :: direction

record navigation_view =
  nv_inspectMessageId :: "jstring option"
  nv_resolutionGeneration :: "int option"
  nv_current :: navigation_model
  nv_listeners :: "nat list"
  nv_subscriptions :: nat
  nv_notified :: "nat list"
  nv_dispatched :: "navigate_command list"





text \<open>\<^verbatim>\<open>update\<close>\<close>

definition update_model :: "navigation_model \<Rightarrow> navigation_view \<Rightarrow> navigation_view" where
  "update_model model v = v\<lparr>nv_current := model, nv_notified := rev (nv_listeners v) @ nv_notified v\<rparr>"











subsection \<open>Origins of rules\<close>

datatype origin_state = OriginsPending | OriginsReady | OriginsStale | OriginsIncompatible

record rule_origin =
  ro_label :: jstring
  ro_languageId :: source_language
  ro_startLine :: int
  ro_startColumn :: int
  ro_confidence :: rules_confidence

record stored_origin = rule_origin +
  ro_openAuthorityId :: jstring

record inspect_authority =
  ia_inspectMessageId :: jstring
  ia_expectedRuleRefs :: "jstring list"
  ia_rulesGeneration :: int
  ia_origins :: "(jstring, stored_origin) jmap"

record open_command =
  oc_inspectMessageId :: jstring
  oc_rulesGeneration :: int
  oc_openAuthorityId :: jstring
  oc_declaration :: "open_declaration option"

record origins_view =
  ov_authority :: "inspect_authority option"
  ov_listeners :: "nat list"
  ov_subscriptions :: nat
  ov_compatible :: bool
  ov_state :: origin_state
  ov_disposed :: bool
  ov_notified :: "nat list"
  ov_dispatched :: "open_command list"

definition new_origins :: origins_view where
  "new_origins = \<lparr>ov_authority = None, ov_listeners = [], ov_subscriptions = 0, ov_compatible = True,
     ov_state = OriginsPending, ov_disposed = False, ov_notified = [], ov_dispatched = []\<rparr>"

definition publish_origins :: "origins_view \<Rightarrow> origins_view" where
  "publish_origins v = v\<lparr>ov_notified := rev (ov_listeners v) @ ov_notified v\<rparr>"

definition copyExpectedRefs :: "jstring list \<Rightarrow> jstring list option" where
  "copyExpectedRefs refs =
     (if length refs > lim_sources RULES_SOURCES_LIMITS then None
      else if list_all opaqueId refs then Some (set_of refs) else None)"

definition begin_origins :: "jstring \<Rightarrow> jstring list \<Rightarrow> origins_view \<Rightarrow> origins_view" where
  "begin_origins inspectId expectedRuleRefs v =
     (if ov_disposed v \<or> \<not> ov_compatible v \<or> \<not> opaqueId inspectId then v
      else (case copyExpectedRefs expectedRuleRefs of
          None \<Rightarrow> v
        | Some refs \<Rightarrow> publish_origins (v\<lparr>ov_authority := Some \<lparr>ia_inspectMessageId = inspectId,
              ia_expectedRuleRefs = refs, ia_rulesGeneration = 0, ia_origins = []\<rparr>,
            ov_state := OriginsPending\<rparr>)))"

definition coversExpectedRules :: "rules_sources_message \<Rightarrow> jstring list \<Rightarrow> bool" where
  "coversExpectedRules m expectedRuleRefs \<longleftrightarrow>
     int (length (rsm_sources m)) + rsm_unresolvedRuleCount m = int (length expectedRuleRefs) \<and>
     list_all (\<lambda>s. rs_ruleRef s \<in> set expectedRuleRefs) (rsm_sources m)"

definition stored_of :: "rules_source \<Rightarrow> stored_origin" where
  "stored_of s = \<lparr>ro_label = rs_label s, ro_languageId = rs_languageId s, ro_startLine = rs_startLine s,
     ro_startColumn = rs_startColumn s, ro_confidence = rs_confidence s,
     ro_openAuthorityId = rs_openAuthorityId s\<rparr>"

fun origins_of :: "rules_source list \<Rightarrow> (jstring, stored_origin) jmap \<Rightarrow> (jstring, stored_origin) jmap" where
  "origins_of [] origins = origins"
| "origins_of (s # ss) origins = origins_of ss (jset (rs_ruleRef s) (stored_of s) origins)"

text \<open>\<^verbatim>\<open>accept\<close>: whether it was published. \<open>decode\<close> is the schema on the copied data.\<close>

definition accept_origins :: "(json \<Rightarrow> rules_sources_message option) \<Rightarrow> js_value \<Rightarrow> origins_view \<Rightarrow> bool \<times> origins_view" where
  "accept_origins decode message v =
     (if ov_disposed v \<or> \<not> ov_compatible v then (False, v)
      else (case (ov_authority v, parseRulesSourcesProtocolData message decode) of
          (Some a, Some m) \<Rightarrow>
            if inspectMessageId m \<noteq> ia_inspectMessageId a \<or>
               (if ia_rulesGeneration a = 0 then rsm_rulesGeneration m \<noteq> 1
                else rsm_rulesGeneration m \<le> ia_rulesGeneration a) \<or>
               \<not> coversExpectedRules m (ia_expectedRuleRefs a)
            then (False, v)
            else (True, publish_origins (v\<lparr>ov_authority := Some (a\<lparr>ia_rulesGeneration := rsm_rulesGeneration m,
                ia_origins := origins_of (rsm_sources m) []\<rparr>), ov_state := OriginsReady\<rparr>))
        | _ \<Rightarrow> (False, v)))"

definition originFor :: "jstring \<Rightarrow> origins_view \<Rightarrow> rule_origin option" where
  "originFor ruleRef v =
     (if ov_disposed v \<or> ov_state v \<noteq> OriginsReady then None
      else (case ov_authority v of None \<Rightarrow> None
        | Some a \<Rightarrow> map_option rule_origin.truncate (jget (ia_origins a) ruleRef)))"

text \<open>\<^verbatim>\<open>open\<close>: \<open>parse\<close> is the schema of a declaration.\<close>

definition open_origin :: "(js_value \<Rightarrow> open_declaration option) \<Rightarrow> jstring \<Rightarrow> js_value \<Rightarrow> origins_view \<Rightarrow> origins_view" where
  "open_origin parse ruleRef declaration v =
     (if ov_disposed v \<or> ov_state v \<noteq> OriginsReady then v
      else (case ov_authority v of None \<Rightarrow> v
        | Some a \<Rightarrow>
            (case jget (ia_origins a) ruleRef of None \<Rightarrow> v
             | Some source \<Rightarrow> v\<lparr>ov_dispatched := \<lparr>oc_inspectMessageId = ia_inspectMessageId a,
                  oc_rulesGeneration = ia_rulesGeneration a,
                  oc_openAuthorityId = ro_openAuthorityId source,
                  oc_declaration = (if declaration = VUndefined then None else parse declaration)\<rparr>
                 # ov_dispatched v\<rparr>)))"

definition invalidate_origins :: "origins_view \<Rightarrow> origins_view" where
  "invalidate_origins v =
     (if ov_disposed v then v
      else
        let nextState = (if ov_compatible v then OriginsStale else OriginsIncompatible);
            changed = (ov_authority v \<noteq> None \<or> ov_state v \<noteq> nextState);
            v1 = v\<lparr>ov_authority := None, ov_state := nextState\<rparr>
        in if changed then publish_origins v1 else v1)"

definition invalidatePublication :: "jstring \<Rightarrow> int \<Rightarrow> origins_view \<Rightarrow> origins_view" where
  "invalidatePublication inspectId generation v =
     (case ov_authority v of None \<Rightarrow> v
      | Some a \<Rightarrow>
          if ov_disposed v \<or> ov_state v \<noteq> OriginsReady \<or> \<not> opaqueId inspectId \<or> \<not> safe_int generation \<or>
             generation \<le> 0 \<or> generation > lim_generation RESOLUTION_LIMITS \<or>
             ia_inspectMessageId a \<noteq> inspectId \<or> ia_rulesGeneration a \<noteq> generation
          then v else invalidate_origins v)"

definition setCompatible :: "bool \<Rightarrow> origins_view \<Rightarrow> origins_view" where
  "setCompatible compatible v =
     (if ov_disposed v \<or> ov_compatible v = compatible then v
      else publish_origins (v\<lparr>ov_compatible := compatible, ov_authority := None,
        ov_state := (if compatible then OriginsPending else OriginsIncompatible)\<rparr>))"

definition subscribe_origins :: "origins_view \<Rightarrow> nat option \<times> origins_view" where
  "subscribe_origins v =
     (if ov_disposed v then (None, v)
      else (Some (ov_subscriptions v), v\<lparr>ov_listeners := ov_listeners v @ [ov_subscriptions v],
        ov_subscriptions := Suc (ov_subscriptions v)\<rparr>))"

definition unsubscribe_origins :: "nat \<Rightarrow> origins_view \<Rightarrow> origins_view" where
  "unsubscribe_origins n v = v\<lparr>ov_listeners := set_remove n (ov_listeners v)\<rparr>"

definition dispose_origins :: "origins_view \<Rightarrow> origins_view" where
  "dispose_origins v =
     (if ov_disposed v then v
      else v\<lparr>ov_disposed := True, ov_authority := None, ov_listeners := [], ov_state := OriginsStale\<rparr>)"

datatype origins_action = BeginOrigins jstring "jstring list" | AcceptOrigins js_value
  | OpenOrigin jstring js_value | InvalidatePublication jstring int | InvalidateOrigins
  | SetCompatible bool | SubscribeOrigins | UnsubscribeOrigins nat | DisposeOrigins

fun origins_step :: "(json \<Rightarrow> rules_sources_message option) \<Rightarrow> (js_value \<Rightarrow> open_declaration option) \<Rightarrow>
    origins_view \<Rightarrow> origins_action \<Rightarrow> origins_view" where
  "origins_step decode parse v (BeginOrigins m refs) = begin_origins m refs v"
| "origins_step decode parse v (AcceptOrigins m) = snd (accept_origins decode m v)"
| "origins_step decode parse v (OpenOrigin r d) = open_origin parse r d v"
| "origins_step decode parse v (InvalidatePublication m g) = invalidatePublication m g v"
| "origins_step decode parse v InvalidateOrigins = invalidate_origins v"
| "origins_step decode parse v (SetCompatible b) = setCompatible b v"
| "origins_step decode parse v SubscribeOrigins = snd (subscribe_origins v)"
| "origins_step decode parse v (UnsubscribeOrigins n) = unsubscribe_origins n v"
| "origins_step decode parse v DisposeOrigins = dispose_origins v"

subsection \<open>The navigation row follows the IDE\<close>











lemma update_dispatched [simp]: "nv_dispatched (update_model m v) = nv_dispatched v"
  by (simp add: update_model_def)


subsection \<open>Only published origins are opened\<close>

lemma jget_origins_of: "jget (origins_of ss os) r =
    (case map_of (rev (map (\<lambda>s. (rs_ruleRef s, stored_of s)) ss)) r of None \<Rightarrow> jget os r | Some x \<Rightarrow> Some x)"
  by (induction ss arbitrary: os) (auto simp: map_add_def split: option.split)

definition accepted_message :: "(json \<Rightarrow> rules_sources_message option) \<Rightarrow> origins_action list \<Rightarrow> rules_sources_message \<Rightarrow> bool" where
  "accepted_message decode actions m \<longleftrightarrow>
     (\<exists>j. AcceptOrigins j \<in> set actions \<and> parseRulesSourcesProtocolData j decode = Some m)"

text \<open>What the authority holds was accepted, and so was the authority of each command.\<close>

definition authority_ok :: "(json \<Rightarrow> rules_sources_message option) \<Rightarrow> origins_action list \<Rightarrow> inspect_authority \<Rightarrow> bool" where
  "authority_ok decode actions a \<longleftrightarrow>
     (\<exists>m. accepted_message decode actions m \<and> inspectMessageId m = ia_inspectMessageId a \<and>
        rsm_rulesGeneration m = ia_rulesGeneration a \<and> ia_origins a = origins_of (rsm_sources m) [] \<and>
        coversExpectedRules m (ia_expectedRuleRefs a))"

definition command_ok :: "(json \<Rightarrow> rules_sources_message option) \<Rightarrow> origins_action list \<Rightarrow> open_command \<Rightarrow> bool" where
  "command_ok decode actions c \<longleftrightarrow>
     (\<exists>m s. accepted_message decode actions m \<and> s \<in> set (rsm_sources m) \<and>
        oc_inspectMessageId c = inspectMessageId m \<and> oc_rulesGeneration c = rsm_rulesGeneration m \<and>
        oc_openAuthorityId c = rs_openAuthorityId s)"

definition origins_ok :: "(json \<Rightarrow> rules_sources_message option) \<Rightarrow> origins_action list \<Rightarrow> origins_view \<Rightarrow> bool" where
  "origins_ok decode actions v \<longleftrightarrow>
     (\<forall>a. ov_authority v = Some a \<longrightarrow> ov_state v = OriginsReady \<longrightarrow> authority_ok decode actions a) \<and>
     (\<forall>c\<in>set (ov_dispatched v). command_ok decode actions c)"

lemma accepted_more: "accepted_message decode actions m \<Longrightarrow> accepted_message decode (actions @ xs) m"
  by (auto simp: accepted_message_def)

lemma authority_ok_more: "authority_ok decode actions a \<Longrightarrow> authority_ok decode (actions @ xs) a"
  unfolding authority_ok_def using accepted_more by blast

lemma command_ok_more: "command_ok decode actions c \<Longrightarrow> command_ok decode (actions @ xs) c"
  unfolding command_ok_def using accepted_more by blast

lemma origins_ok_more: "origins_ok decode actions v \<Longrightarrow> origins_ok decode (actions @ xs) v"
  unfolding origins_ok_def using authority_ok_more command_ok_more by blast

lemma origins_ok_keep:
  assumes "origins_ok decode actions v" and "ov_dispatched v' = ov_dispatched v"
    and "ov_authority v' = None \<or> ov_state v' \<noteq> OriginsReady \<or>
      ov_authority v' = ov_authority v \<and> ov_state v' = ov_state v"
  shows "origins_ok decode actions v'"
  using assms unfolding origins_ok_def by auto

lemma origins_ok_accept:
  assumes ok: "origins_ok decode actions v"
  shows "origins_ok decode (actions @ [AcceptOrigins j]) (snd (accept_origins decode j v))"
proof (cases "fst (accept_origins decode j v)")
  case False
  then have "snd (accept_origins decode j v) = v"
    by (auto simp: accept_origins_def split: option.splits if_splits)
  then show ?thesis using origins_ok_more [OF ok] by simp
next
  case True
  then obtain a m where a: "ov_authority v = Some a" "parseRulesSourcesProtocolData j decode = Some m"
      "inspectMessageId m = ia_inspectMessageId a" "coversExpectedRules m (ia_expectedRuleRefs a)"
      and v: "snd (accept_origins decode j v) = publish_origins (v\<lparr>ov_authority := Some
        (a\<lparr>ia_rulesGeneration := rsm_rulesGeneration m, ia_origins := origins_of (rsm_sources m) []\<rparr>),
        ov_state := OriginsReady\<rparr>)"
    by (auto simp: accept_origins_def split: option.splits if_splits)
  have "accepted_message decode (actions @ [AcceptOrigins j]) m" using a by (auto simp: accepted_message_def)
  then show ?thesis using a origins_ok_more [OF ok, of "[AcceptOrigins j]"]
    by (auto simp: v publish_origins_def origins_ok_def authority_ok_def)
qed

lemma open_origin_cases:
  assumes "open_origin parse r d v \<noteq> v"
  obtains a x c where "ov_authority v = Some a" "ov_state v = OriginsReady" "\<not> ov_disposed v"
    "jget (ia_origins a) r = Some x" "open_origin parse r d v = v\<lparr>ov_dispatched := c # ov_dispatched v\<rparr>"
    "c = \<lparr>oc_inspectMessageId = ia_inspectMessageId a, oc_rulesGeneration = ia_rulesGeneration a,
      oc_openAuthorityId = ro_openAuthorityId x,
      oc_declaration = (if d = VUndefined then None else parse d)\<rparr>"
  using assms by (auto simp: open_origin_def split: option.splits if_splits)

lemma origin_of_source:
  assumes "jget (origins_of ss []) r = Some x"
  obtains s where "s \<in> set ss" "rs_ruleRef s = r" "x = stored_of s"
proof -
  have "map_of (rev (map (\<lambda>s. (rs_ruleRef s, stored_of s)) ss)) r = Some x"
    using assms by (simp add: jget_origins_of split: option.splits)
  then have "(r, x) \<in> set (map (\<lambda>s. (rs_ruleRef s, stored_of s)) ss)" using map_of_SomeD by fastforce
  then show ?thesis using that by auto
qed

lemma origins_ok_open:
  assumes ok: "origins_ok decode actions v" shows "origins_ok decode actions (open_origin parse r d v)"
proof (cases "open_origin parse r d v = v")
  case False
  then obtain a x c where a: "ov_authority v = Some a" "ov_state v = OriginsReady"
      "jget (ia_origins a) r = Some x" "open_origin parse r d v = v\<lparr>ov_dispatched := c # ov_dispatched v\<rparr>"
      "c = \<lparr>oc_inspectMessageId = ia_inspectMessageId a, oc_rulesGeneration = ia_rulesGeneration a,
        oc_openAuthorityId = ro_openAuthorityId x,
        oc_declaration = (if d = VUndefined then None else parse d)\<rparr>"
    by (rule open_origin_cases)
  then obtain m where m: "accepted_message decode actions m" "inspectMessageId m = ia_inspectMessageId a"
      "rsm_rulesGeneration m = ia_rulesGeneration a" "ia_origins a = origins_of (rsm_sources m) []"
    using ok unfolding origins_ok_def authority_ok_def by metis
  obtain s where "s \<in> set (rsm_sources m)" "x = stored_of s"
    using a(3) unfolding m(4) by (rule origin_of_source)
  then have "command_ok decode actions c"
    unfolding command_ok_def a(5) using m by (intro exI [of _ m] exI [of _ s]) (simp add: stored_of_def)
  then show ?thesis using ok unfolding a(4) origins_ok_def by simp
qed (simp add: ok)

lemma origins_ok_step:
  assumes ok: "origins_ok decode actions v"
  shows "origins_ok decode (actions @ [x]) (origins_step decode parse v x)"
proof -
  note more = origins_ok_more [OF ok, of "[x]"]
  show ?thesis
  proof (cases x)
    case (AcceptOrigins j)
    then show ?thesis using origins_ok_accept [OF ok] by simp
  next
    case (OpenOrigin r d)
    then show ?thesis using origins_ok_open [OF more] by simp
  qed (use origins_ok_keep [OF more, of "origins_step decode parse v x"] in
    \<open>force simp: begin_origins_def publish_origins_def invalidatePublication_def invalidate_origins_def
      setCompatible_def subscribe_origins_def unsubscribe_origins_def dispose_origins_def Let_def
      split: option.splits\<close>)+
qed

lemma run_origins_ok: "origins_ok decode actions (foldl (origins_step decode parse) new_origins actions)"
proof (induction actions rule: rev_induct)
  case Nil
  show ?case by (simp add: origins_ok_def new_origins_def)
next
  case (snoc x xs)
  then show ?case using origins_ok_step [OF snoc] by simp
qed

























end
