(* ===== verification/Refresh_Protocol.thy ===== *)
theory Refresh_Protocol
  imports Data_Snapshot Protocol_Schemas "HOL-Library.Monad_Syntax"
begin

text \<open>
  \<^verbatim>\<open>browser-extension-core/src/refreshRuntimeProtocol.ts\<close>: the messages by which the background
  page, the content scripts and the panel agree on a page refresh, and the refresh state of a tab.
  Every value that arrives is read through the descriptors of its own properties; a guard returns
  the value it narrows. The \<^verbatim>\<open>URL\<close> parser is the parameter \<open>url\<close>. The two messages that carry a
  scroll snapshot are not modelled.
\<close>

subsection \<open>Data\<close>

record pending_tab_refresh =
  pe_generation :: int
  pe_mode :: refresh_mode

record tab_refresh_state =
  tr_tabId :: int
  tr_windowId :: int
  tr_autoRefreshEnabled :: bool
  tr_ideHighlightEnabled :: bool
  tr_participant :: bool
  tr_lastAcceptedGeneration :: int
  tr_lastAcceptedMode :: "refresh_mode option"
  tr_pending :: "pending_tab_refresh option"

record refresh_execution_command =
  ec_refreshGeneration :: int
  ec_mode :: refresh_mode

record content_refresh_binding =
  cb_tabId :: int
  cb_pageUrl :: jstring
  cb_contentRuntimeId :: jstring

record content_bootstrap_request =
  bq_pageUrl :: jstring
  bq_contentRuntimeId :: jstring

record content_bootstrap_result = content_refresh_binding +
  br_accepted :: bool

record content_refresh_command = content_refresh_binding +
  cr_refreshCommandId :: jstring
  cr_refreshGeneration :: int
  cr_mode :: refresh_mode

record reload_tab_result = content_refresh_binding +
  rl_refreshCommandId :: jstring
  rl_refreshGeneration :: int
  rl_accepted :: bool

record stylesheet_refresh_result =
  sr_attempted :: int
  sr_updated :: int
  sr_failed :: int

record content_refresh_result = content_refresh_binding +
  rs_refreshCommandId :: jstring
  rs_refreshGeneration :: int
  rs_mode :: refresh_mode
  rs_accepted :: bool
  rs_stylesheet :: "stylesheet_refresh_result option"

record panel_tab_settings =
  pc_autoRefreshEnabled :: bool
  pc_ideHighlightEnabled :: bool

record panel_tab_state =
  pt_autoRefreshEnabled :: bool
  pt_ideHighlightEnabled :: bool
  pt_participant :: bool
  pt_lastAcceptedGeneration :: int
  pt_pending :: "pending_tab_refresh option"

datatype peer_version = PeerVersion int | PeerUnknown
datatype protocol_compatibility = Compatible | Incompatible peer_version

definition TAB_STATE_REQUIRED_KEYS :: "jstring list" where
  "TAB_STATE_REQUIRED_KEYS = map js [''tabId'', ''windowId'', ''autoRefreshEnabled'',
     ''ideHighlightEnabled'', ''participant'', ''lastAcceptedGeneration'']"

definition TAB_STATE_OPTIONAL_KEYS :: "jstring list" where
  "TAB_STATE_OPTIONAL_KEYS = map js [''lastAcceptedMode'', ''pending'']"

definition PANEL_STATE_REQUIRED_KEYS :: "jstring list" where
  "PANEL_STATE_REQUIRED_KEYS = map js [''type'', ''autoRefreshEnabled'', ''ideHighlightEnabled'',
     ''participant'', ''lastAcceptedGeneration'']"

definition REFRESH_PROTOCOL_VERSION_MAX :: int where "REFRESH_PROTOCOL_VERSION_MAX = 0x7fffffff"
definition CONTENT_RUNTIME_ID_MAX_LENGTH :: nat where "CONTENT_RUNTIME_ID_MAX_LENGTH = 128"
definition REFRESH_COMMAND_ID_MAX_LENGTH :: nat where "REFRESH_COMMAND_ID_MAX_LENGTH = 128"
definition MAX_STYLESHEET_REFRESH_LINKS :: int where "MAX_STYLESHEET_REFRESH_LINKS = 256"

subsection \<open>Own properties\<close>

fun ownDataKeys :: "js_value \<Rightarrow> jstring list option" where
  "ownDataKeys (VObject p ds) =
     (if list_all (\<lambda>d. fst d \<noteq> SymKey \<and> snd (snd d) \<noteq> None) ds
      then Some (map (\<lambda>d. case fst d of StrKey k \<Rightarrow> k | SymKey \<Rightarrow> []) ds) else None)"
| "ownDataKeys _ = None"

type_synonym data_record = "(jstring \<times> js_value) list"

fun own_value :: "js_value \<Rightarrow> jstring \<Rightarrow> js_value option" where
  "own_value (VObject p ds) key = (case map_of ds (StrKey key) of Some (_, Some v) \<Rightarrow> Some v | _ \<Rightarrow> None)"
| "own_value _ key = None"

fun snapshotDataRecord :: "js_value \<Rightarrow> jstring list \<Rightarrow> data_record option" where
  "snapshotDataRecord value [] = Some []"
| "snapshotDataRecord value (key # keys) =
     (case own_value value key of None \<Rightarrow> None
      | Some v \<Rightarrow> map_option (Cons (key, v)) (snapshotDataRecord value keys))"

definition snapshotExactOptionalRecord ::
  "js_value \<Rightarrow> jstring list \<Rightarrow> jstring list \<Rightarrow> data_record option" where
  "snapshotExactOptionalRecord value requiredKeys optionalKeys =
     (case ownDataKeys value of None \<Rightarrow> None
      | Some keys \<Rightarrow>
          if length keys < length requiredKeys \<or>
             length keys > length requiredKeys + length optionalKeys \<or>
             list_ex (\<lambda>key. key \<notin> set keys) requiredKeys \<or>
             list_ex (\<lambda>key. key \<notin> set requiredKeys \<and> key \<notin> set optionalKeys) keys
          then None else snapshotDataRecord value keys)"

definition snapshotExactRecord :: "js_value \<Rightarrow> jstring list \<Rightarrow> data_record option" where
  "snapshotExactRecord value expectedKeys =
     (case ownDataKeys value of None \<Rightarrow> None
      | Some keys \<Rightarrow>
          if length keys = length expectedKeys \<and> list_all (\<lambda>key. key \<in> set keys) expectedKeys
          then snapshotDataRecord value expectedKeys else None)"

text \<open>\<^verbatim>\<open>record.name\<close> of a snapshot, which has no prototype.\<close>

definition property :: "data_record \<Rightarrow> string \<Rightarrow> js_value" where
  "property r name = (case map_of r (js name) of None \<Rightarrow> VUndefined | Some v \<Rightarrow> v)"

subsection \<open>Guards\<close>

definition guard :: "bool \<Rightarrow> unit option" where
  "guard b = (if b then Some () else None)"

fun is_boolean :: "js_value \<Rightarrow> bool option" where
  "is_boolean (VBool b) = Some b"
| "is_boolean _ = None"

text \<open>\<^verbatim>\<open>Number.isSafeInteger(value)\<close> between two bounds.\<close>

fun safe_between :: "int \<Rightarrow> int \<Rightarrow> js_value \<Rightarrow> int option" where
  "safe_between low high (VNum (JInt n)) = (if safe_int n \<and> low \<le> n \<and> n \<le> high then Some n else None)"
| "safe_between low high _ = None"

fun is_browser_id :: "js_value \<Rightarrow> int option" where
  "is_browser_id (VNum (JInt n)) = (if safe_int n \<and> 0 \<le> n then Some n else None)"
| "is_browser_id _ = None"

definition is_generation :: "js_value \<Rightarrow> int option" where
  "is_generation = safe_between 0 (lim_generation RESOLUTION_LIMITS)"

definition is_bounded_count :: "js_value \<Rightarrow> int option" where
  "is_bounded_count = safe_between 0 MAX_STYLESHEET_REFRESH_LINKS"

fun is_protocol_version :: "js_value \<Rightarrow> int option" where
  "is_protocol_version (VNum (JInt n)) = (if 0 \<le> n \<and> n \<le> REFRESH_PROTOCOL_VERSION_MAX then Some n else None)"
| "is_protocol_version _ = None"

definition is_refresh_mode :: "js_value \<Rightarrow> refresh_mode option" where
  "is_refresh_mode v = (if v = VStr (js ''styles'') then Some StylesMode
     else if v = VStr (js ''reload'') then Some ReloadMode else None)"

text \<open>\<^verbatim>\<open>/^[A-Za-z0-9_-]+$/u\<close>\<close>

definition identifier_unit :: "code_unit \<Rightarrow> bool" where
  "identifier_unit c \<longleftrightarrow> is_digit c \<or> 0x41 \<le> c \<and> c \<le> 0x5a \<or> 0x61 \<le> c \<and> c \<le> 0x7a \<or> c = 0x5f \<or> c = 0x2d"

definition identifier_text :: "nat \<Rightarrow> jstring \<Rightarrow> bool" where
  "identifier_text maximum s \<longleftrightarrow> 0 < length s \<and> length s \<le> maximum \<and> list_all identifier_unit s"

fun is_content_runtime_id :: "js_value \<Rightarrow> jstring option" where
  "is_content_runtime_id (VStr s) = (if identifier_text CONTENT_RUNTIME_ID_MAX_LENGTH s then Some s else None)"
| "is_content_runtime_id _ = None"

fun is_refresh_command_id :: "js_value \<Rightarrow> jstring option" where
  "is_refresh_command_id (VStr s) = (if identifier_text REFRESH_COMMAND_ID_MAX_LENGTH s then Some s else None)"
| "is_refresh_command_id _ = None"

type_synonym page_url_parser = "jstring \<Rightarrow> url_parts option"

fun normalizedPageUrl :: "page_url_parser \<Rightarrow> js_value \<Rightarrow> jstring option" where
  "normalizedPageUrl url (VStr s) =
     (if length s = 0 \<or> length s > 8192 then None
      else (case url s of None \<Rightarrow> None
        | Some u \<Rightarrow>
            if u_protocol u \<noteq> js ''http:'' \<and> u_protocol u \<noteq> js ''https:'' then None
            else if u_username u \<noteq> [] \<or> u_password u \<noteq> [] then None
            else Some (u_href u)))"
| "normalizedPageUrl url _ = None"

subsection \<open>Parts\<close>

definition parsePendingTabRefresh :: "js_value \<Rightarrow> pending_tab_refresh option" where
  "parsePendingTabRefresh value = do {
     record \<leftarrow> snapshotExactRecord value (map js [''generation'', ''mode'']);
     generation \<leftarrow> is_generation (property record ''generation'');
     mode \<leftarrow> is_refresh_mode (property record ''mode'');
     Some \<lparr>pe_generation = generation, pe_mode = mode\<rparr> }"

definition parseContentBinding ::
  "page_url_parser \<Rightarrow> data_record \<Rightarrow> content_refresh_binding option" where
  "parseContentBinding url record = do {
     tabId \<leftarrow> is_browser_id (property record ''tabId'');
     guard (property record ''frameId'' = VNum (JInt 0));
     runtime \<leftarrow> is_content_runtime_id (property record ''contentRuntimeId'');
     pageUrl \<leftarrow> normalizedPageUrl url (property record ''pageUrl'');
     guard (pageUrl \<noteq> [] \<and> VStr pageUrl = property record ''pageUrl'');
     Some \<lparr>cb_tabId = tabId, cb_pageUrl = pageUrl, cb_contentRuntimeId = runtime\<rparr> }"

definition parseStylesheetResult :: "js_value \<Rightarrow> stylesheet_refresh_result option" where
  "parseStylesheetResult value = do {
     record \<leftarrow> snapshotExactRecord value (map js [''attempted'', ''updated'', ''failed'']);
     attempted \<leftarrow> is_bounded_count (property record ''attempted'');
     updated \<leftarrow> is_bounded_count (property record ''updated'');
     failed \<leftarrow> is_bounded_count (property record ''failed'');
     guard (updated + failed = attempted);
     Some \<lparr>sr_attempted = attempted, sr_updated = updated, sr_failed = failed\<rparr> }"

text \<open>A property that may be absent or undefined: \<open>None\<close> when it is there and its parser refuses it.\<close>

definition optional_part :: "js_value \<Rightarrow> (js_value \<Rightarrow> 'a option) \<Rightarrow> 'a option option" where
  "optional_part v parse = (if v = VUndefined then Some None
     else (case parse v of None \<Rightarrow> None | Some x \<Rightarrow> Some (Some x)))"

subsection \<open>The state of a tab\<close>

definition createDefaultTabRefreshState :: "int \<Rightarrow> int \<Rightarrow> int \<Rightarrow> tab_refresh_state option" where
  "createDefaultTabRefreshState tabId windowId lastAcceptedGeneration = do {
     tabId' \<leftarrow> is_browser_id (VNum (JInt tabId));
     windowId' \<leftarrow> is_browser_id (VNum (JInt windowId));
     generation \<leftarrow> is_generation (VNum (JInt lastAcceptedGeneration));
     Some \<lparr>tr_tabId = tabId, tr_windowId = windowId, tr_autoRefreshEnabled = True,
       tr_ideHighlightEnabled = True, tr_participant = False,
       tr_lastAcceptedGeneration = lastAcceptedGeneration, tr_lastAcceptedMode = None,
       tr_pending = None\<rparr> }"

definition pending_agrees :: "bool \<Rightarrow> bool \<Rightarrow> int \<Rightarrow> refresh_mode option \<Rightarrow> pending_tab_refresh option \<Rightarrow> bool" where
  "pending_agrees auto participant generation mode pending =
     (case pending of None \<Rightarrow> True
      | Some p \<Rightarrow> auto \<and> participant \<and> pe_generation p = generation \<and>
          (case mode of None \<Rightarrow> True | Some m \<Rightarrow> pe_mode p = m))"

definition parseTabRefreshState :: "js_value \<Rightarrow> tab_refresh_state option" where
  "parseTabRefreshState value = do {
     record \<leftarrow> snapshotExactOptionalRecord value TAB_STATE_REQUIRED_KEYS TAB_STATE_OPTIONAL_KEYS;
     tabId \<leftarrow> is_browser_id (property record ''tabId'');
     windowId \<leftarrow> is_browser_id (property record ''windowId'');
     auto \<leftarrow> is_boolean (property record ''autoRefreshEnabled'');
     highlight \<leftarrow> is_boolean (property record ''ideHighlightEnabled'');
     participant \<leftarrow> is_boolean (property record ''participant'');
     generation \<leftarrow> is_generation (property record ''lastAcceptedGeneration'');
     mode \<leftarrow> optional_part (property record ''lastAcceptedMode'') is_refresh_mode;
     guard (\<not> (participant \<and> \<not> auto));
     pending \<leftarrow> optional_part (property record ''pending'') parsePendingTabRefresh;
     guard (pending_agrees auto participant generation mode pending);
     Some \<lparr>tr_tabId = tabId, tr_windowId = windowId, tr_autoRefreshEnabled = auto,
       tr_ideHighlightEnabled = highlight, tr_participant = participant,
       tr_lastAcceptedGeneration = generation, tr_lastAcceptedMode = mode, tr_pending = pending\<rparr> }"

subsection \<open>Commands and results\<close>

definition parseRefreshExecutionCommand :: "js_value \<Rightarrow> refresh_execution_command option" where
  "parseRefreshExecutionCommand value = do {
     record \<leftarrow> snapshotExactRecord value (map js [''type'', ''refreshGeneration'', ''mode'']);
     guard (property record ''type'' = VStr (js ''pin-op.refresh.execute''));
     generation \<leftarrow> is_generation (property record ''refreshGeneration'');
     mode \<leftarrow> is_refresh_mode (property record ''mode'');
     Some \<lparr>ec_refreshGeneration = generation, ec_mode = mode\<rparr> }"

definition parseContentRefreshReadyRequest ::
  "page_url_parser \<Rightarrow> js_value \<Rightarrow> content_refresh_binding option" where
  "parseContentRefreshReadyRequest url value = do {
     record \<leftarrow> snapshotExactRecord value
       (map js [''type'', ''tabId'', ''frameId'', ''pageUrl'', ''contentRuntimeId'']);
     binding \<leftarrow> parseContentBinding url record;
     guard (property record ''type'' = VStr (js ''pin-op.refresh.content.ready''));
     Some binding }"

definition parseContentRefreshBootstrapRequest ::
  "page_url_parser \<Rightarrow> js_value \<Rightarrow> content_bootstrap_request option" where
  "parseContentRefreshBootstrapRequest url value = do {
     record \<leftarrow> snapshotExactRecord value (map js [''type'', ''pageUrl'', ''contentRuntimeId'']);
     pageUrl \<leftarrow> normalizedPageUrl url (property record ''pageUrl'');
     guard (property record ''type'' = VStr (js ''pin-op.refresh.content.bootstrap''));
     guard (VStr pageUrl = property record ''pageUrl'');
     runtime \<leftarrow> is_content_runtime_id (property record ''contentRuntimeId'');
     Some \<lparr>bq_pageUrl = pageUrl, bq_contentRuntimeId = runtime\<rparr> }"

definition parseContentRefreshBootstrapResult ::
  "page_url_parser \<Rightarrow> js_value \<Rightarrow> content_bootstrap_result option" where
  "parseContentRefreshBootstrapResult url value = do {
     record \<leftarrow> snapshotExactRecord value
       (map js [''type'', ''accepted'', ''tabId'', ''frameId'', ''pageUrl'', ''contentRuntimeId'']);
     binding \<leftarrow> parseContentBinding url record;
     guard (property record ''type'' = VStr (js ''pin-op.refresh.content.bootstrap.result''));
     accepted \<leftarrow> is_boolean (property record ''accepted'');
     Some (content_refresh_binding.extend binding (content_bootstrap_result.fields accepted)) }"

definition parseContentRefreshCommand ::
  "page_url_parser \<Rightarrow> js_value \<Rightarrow> content_refresh_command option" where
  "parseContentRefreshCommand url value = do {
     record \<leftarrow> snapshotExactRecord value (map js [''type'', ''tabId'', ''frameId'', ''pageUrl'',
       ''contentRuntimeId'', ''refreshCommandId'', ''refreshGeneration'', ''mode'']);
     binding \<leftarrow> parseContentBinding url record;
     guard (property record ''type'' = VStr (js ''pin-op.refresh.content.execute''));
     command \<leftarrow> is_refresh_command_id (property record ''refreshCommandId'');
     generation \<leftarrow> is_generation (property record ''refreshGeneration'');
     mode \<leftarrow> is_refresh_mode (property record ''mode'');
     Some (content_refresh_binding.extend binding
       (content_refresh_command.fields command generation mode)) }"

definition parseReloadTabResult :: "page_url_parser \<Rightarrow> js_value \<Rightarrow> reload_tab_result option" where
  "parseReloadTabResult url value = do {
     record \<leftarrow> snapshotExactRecord value (map js [''type'', ''tabId'', ''frameId'', ''pageUrl'',
       ''contentRuntimeId'', ''refreshCommandId'', ''refreshGeneration'', ''accepted'']);
     binding \<leftarrow> parseContentBinding url record;
     guard (property record ''type'' = VStr (js ''pin-op.refresh.reload.result''));
     command \<leftarrow> is_refresh_command_id (property record ''refreshCommandId'');
     generation \<leftarrow> is_generation (property record ''refreshGeneration'');
     accepted \<leftarrow> is_boolean (property record ''accepted'');
     Some (content_refresh_binding.extend binding
       (reload_tab_result.fields command generation accepted)) }"

definition parseContentRefreshResult ::
  "page_url_parser \<Rightarrow> js_value \<Rightarrow> content_refresh_result option" where
  "parseContentRefreshResult url value = do {
     record \<leftarrow> snapshotExactOptionalRecord value (map js [''type'', ''tabId'', ''frameId'',
       ''pageUrl'', ''contentRuntimeId'', ''refreshCommandId'', ''refreshGeneration'', ''mode'',
       ''accepted'']) (map js [''stylesheet'']);
     binding \<leftarrow> parseContentBinding url record;
     guard (property record ''type'' = VStr (js ''pin-op.refresh.content.result''));
     command \<leftarrow> is_refresh_command_id (property record ''refreshCommandId'');
     generation \<leftarrow> is_generation (property record ''refreshGeneration'');
     mode \<leftarrow> is_refresh_mode (property record ''mode'');
     accepted \<leftarrow> is_boolean (property record ''accepted'');
     stylesheet \<leftarrow> optional_part (property record ''stylesheet'') parseStylesheetResult;
     guard (stylesheet = None \<or> mode = StylesMode \<and> accepted);
     Some (content_refresh_binding.extend binding
       (content_refresh_result.fields command generation mode accepted stylesheet)) }"

subsection \<open>The panel\<close>

definition parsePanelTabSettingsCommand :: "js_value \<Rightarrow> panel_tab_settings option" where
  "parsePanelTabSettingsCommand value = do {
     record \<leftarrow> snapshotExactRecord value
       (map js [''type'', ''autoRefreshEnabled'', ''ideHighlightEnabled'']);
     guard (property record ''type'' = VStr (js ''pin-op.tab.settings''));
     auto \<leftarrow> is_boolean (property record ''autoRefreshEnabled'');
     highlight \<leftarrow> is_boolean (property record ''ideHighlightEnabled'');
     Some \<lparr>pc_autoRefreshEnabled = auto, pc_ideHighlightEnabled = highlight\<rparr> }"

definition parsePanelTabStateMessage :: "js_value \<Rightarrow> panel_tab_state option" where
  "parsePanelTabStateMessage value = do {
     record \<leftarrow> snapshotExactOptionalRecord value PANEL_STATE_REQUIRED_KEYS (map js [''pending'']);
     guard (property record ''type'' = VStr (js ''pin-op.tab.state''));
     auto \<leftarrow> is_boolean (property record ''autoRefreshEnabled'');
     highlight \<leftarrow> is_boolean (property record ''ideHighlightEnabled'');
     participant \<leftarrow> is_boolean (property record ''participant'');
     generation \<leftarrow> is_generation (property record ''lastAcceptedGeneration'');
     guard (\<not> (participant \<and> \<not> auto));
     pending \<leftarrow> optional_part (property record ''pending'') parsePendingTabRefresh;
     guard (pending_agrees auto participant generation None pending);
     Some \<lparr>pt_autoRefreshEnabled = auto, pt_ideHighlightEnabled = highlight,
       pt_participant = participant, pt_lastAcceptedGeneration = generation, pt_pending = pending\<rparr> }"

definition parseProtocolCompatibilityMessage :: "js_value \<Rightarrow> protocol_compatibility option" where
  "parseProtocolCompatibilityMessage value =
     (case do {
        record \<leftarrow> snapshotExactRecord value (map js [''type'', ''compatible'', ''browserProtocolVersion'']);
        guard (property record ''type'' = VStr (js ''pin-op.protocol.compatibility''));
        guard (property record ''compatible'' = VBool True);
        guard (property record ''browserProtocolVersion'' = VNum (JInt PROTOCOL_VERSION)) } of
      Some _ \<Rightarrow> Some Compatible
    | None \<Rightarrow> do {
        record \<leftarrow> snapshotExactRecord value
          (map js [''type'', ''compatible'', ''browserProtocolVersion'', ''peerProtocolVersion'']);
        guard (property record ''type'' = VStr (js ''pin-op.protocol.compatibility''));
        guard (property record ''compatible'' = VBool False);
        guard (property record ''browserProtocolVersion'' = VNum (JInt PROTOCOL_VERSION));
        (if property record ''peerProtocolVersion'' = VStr (js ''unknown'') then Some (Incompatible PeerUnknown)
         else do {
           version \<leftarrow> is_protocol_version (property record ''peerProtocolVersion'');
           Some (Incompatible (PeerVersion version)) }) })"

subsection \<open>Values that are sent\<close>

text \<open>Object literals: their own properties are enumerable data in the order they are written.\<close>

definition data_object :: "(string \<times> js_value) list \<Rightarrow> js_value" where
  "data_object ms = VObject True (map (\<lambda>(k, v). (StrKey (js k), True, Some v)) ms)"

fun mode_value :: "refresh_mode \<Rightarrow> js_value" where
  "mode_value StylesMode = VStr (js ''styles'')"
| "mode_value ReloadMode = VStr (js ''reload'')"

definition pending_value :: "pending_tab_refresh \<Rightarrow> js_value" where
  "pending_value p = data_object [(''generation'', VNum (JInt (pe_generation p))), (''mode'', mode_value (pe_mode p))]"

definition tab_state_value :: "tab_refresh_state \<Rightarrow> js_value" where
  "tab_state_value s = data_object
     ([(''tabId'', VNum (JInt (tr_tabId s))), (''windowId'', VNum (JInt (tr_windowId s))),
       (''autoRefreshEnabled'', VBool (tr_autoRefreshEnabled s)),
       (''ideHighlightEnabled'', VBool (tr_ideHighlightEnabled s)),
       (''participant'', VBool (tr_participant s)),
       (''lastAcceptedGeneration'', VNum (JInt (tr_lastAcceptedGeneration s)))] @
      (case tr_lastAcceptedMode s of None \<Rightarrow> [] | Some m \<Rightarrow> [(''lastAcceptedMode'', mode_value m)]) @
      (case tr_pending s of None \<Rightarrow> [] | Some p \<Rightarrow> [(''pending'', pending_value p)]))"

definition panel_state_value :: "panel_tab_state \<Rightarrow> js_value" where
  "panel_state_value s = data_object
     ([(''type'', VStr (js ''pin-op.tab.state'')),
       (''autoRefreshEnabled'', VBool (pt_autoRefreshEnabled s)),
       (''ideHighlightEnabled'', VBool (pt_ideHighlightEnabled s)),
       (''participant'', VBool (pt_participant s)),
       (''lastAcceptedGeneration'', VNum (JInt (pt_lastAcceptedGeneration s)))] @
      (case pt_pending s of None \<Rightarrow> [] | Some p \<Rightarrow> [(''pending'', pending_value p)]))"

definition createPanelTabStateMessage :: "tab_refresh_state \<Rightarrow> panel_tab_state option" where
  "createPanelTabStateMessage state = do {
     parsed \<leftarrow> parseTabRefreshState (tab_state_value state);
     Some \<lparr>pt_autoRefreshEnabled = tr_autoRefreshEnabled parsed,
       pt_ideHighlightEnabled = tr_ideHighlightEnabled parsed,
       pt_participant = tr_participant parsed,
       pt_lastAcceptedGeneration = tr_lastAcceptedGeneration parsed, pt_pending = tr_pending parsed\<rparr> }"

subsection \<open>States that are accepted\<close>

definition browser_id_ok :: "int \<Rightarrow> bool" where
  "browser_id_ok n \<longleftrightarrow> safe_int n \<and> 0 \<le> n"

definition pending_refresh_ok :: "pending_tab_refresh \<Rightarrow> bool" where
  "pending_refresh_ok p \<longleftrightarrow> generation_ok (pe_generation p)"

definition tab_state_ok :: "tab_refresh_state \<Rightarrow> bool" where
  "tab_state_ok s \<longleftrightarrow> browser_id_ok (tr_tabId s) \<and> browser_id_ok (tr_windowId s) \<and>
     generation_ok (tr_lastAcceptedGeneration s) \<and>
     (tr_participant s \<longrightarrow> tr_autoRefreshEnabled s) \<and>
     pending_agrees (tr_autoRefreshEnabled s) (tr_participant s) (tr_lastAcceptedGeneration s)
       (tr_lastAcceptedMode s) (tr_pending s) \<and>
     pred_option pending_refresh_ok (tr_pending s)"

lemma guard_eq_Some [simp]: "guard b = Some x \<longleftrightarrow> b"
  by (simp add: guard_def)

lemma guard_True [simp]: "guard True = Some ()" and guard_False [simp]: "guard False = None"
  by (simp_all add: guard_def)

lemma is_browser_id_eq [simp]: "is_browser_id v = Some n \<longleftrightarrow> v = VNum (JInt n) \<and> browser_id_ok n"
  by (cases v rule: is_browser_id.cases) (auto simp: browser_id_ok_def)

lemma is_boolean_eq [simp]: "is_boolean v = Some b \<longleftrightarrow> v = VBool b"
  by (cases v) auto

lemma safe_between_eq: "safe_between l h v = Some n \<longleftrightarrow> v = VNum (JInt n) \<and> safe_int n \<and> l \<le> n \<and> n \<le> h"
  by (cases v rule: is_browser_id.cases) auto

lemma is_generation_eq [simp]: "is_generation v = Some n \<longleftrightarrow> v = VNum (JInt n) \<and> generation_ok n"
  by (auto simp: is_generation_def safe_between_eq generation_ok_def safe_int_def RESOLUTION_LIMITS_def)

lemma is_generation_value: "is_generation (VNum (JInt n)) = (if generation_ok n then Some n else None)"
  using is_generation_eq [of "VNum (JInt n)"] by (cases "is_generation (VNum (JInt n))") auto

lemma is_browser_id_value: "is_browser_id (VNum (JInt n)) = (if browser_id_ok n then Some n else None)"
  by (simp add: browser_id_ok_def)

lemma is_refresh_mode_eq [simp]: "is_refresh_mode v = Some m \<longleftrightarrow> v = mode_value m"
  by (cases m) (auto simp: is_refresh_mode_def)

lemma is_refresh_mode_value [simp]: "is_refresh_mode (mode_value m) = Some m"
  by simp

lemma mode_value_defined [simp]: "mode_value m \<noteq> VUndefined"
  by (cases m) simp_all

lemma pending_value_defined [simp]: "pending_value p \<noteq> VUndefined"
  by (simp add: pending_value_def data_object_def)

lemma own_keys_object: "ownDataKeys (data_object ms) = Some (map (js \<circ> fst) ms)"
  by (auto simp: data_object_def list_all_iff)

lemma own_value_object: "own_value (data_object ms) (js k) = map_of ms k"
  by (induction ms) (auto simp: data_object_def)

lemma snapshot_object:
  "set ks \<subseteq> fst ` set ms \<Longrightarrow>
   snapshotDataRecord (data_object ms) (map js ks) = Some (map (\<lambda>k. (js k, the (map_of ms k))) ks)"
proof (induction ks)
  case (Cons k ks)
  then obtain v where "map_of ms k = Some v"
    by (cases "map_of ms k") (auto simp: map_of_eq_None_iff)
  then show ?case using Cons by (simp add: own_value_object)
qed simp

lemma snapshot_object_exact:
  "length ms = length ks \<Longrightarrow> set ks \<subseteq> fst ` set ms \<Longrightarrow>
   snapshotExactRecord (data_object ms) (map js ks) = Some (map (\<lambda>k. (js k, the (map_of ms k))) ks)"
  by (auto simp: snapshotExactRecord_def own_keys_object snapshot_object list_all_iff image_iff)

lemma snapshot_object_optional:
  assumes "set req \<subseteq> fst ` set ms" and "fst ` set ms \<subseteq> set req \<union> set opt"
    and "length req \<le> length ms" and "length ms \<le> length req + length opt"
  shows "snapshotExactOptionalRecord (data_object ms) (map js req) (map js opt) =
    Some (map (\<lambda>(k, v). (js k, the (map_of ms k))) ms)"
proof -
  have "snapshotDataRecord (data_object ms) (map js (map fst ms)) =
      Some (map (\<lambda>k. (js k, the (map_of ms k))) (map fst ms))"
    by (rule snapshot_object) simp
  moreover have "(\<lambda>(k, v). (js k, the (map_of ms k))) = (\<lambda>k. (js k, the (map_of ms k))) \<circ> fst" by auto
  ultimately show ?thesis
    using assms unfolding snapshotExactOptionalRecord_def own_keys_object
    by (auto simp: list_ex_iff image_iff subset_iff)
qed

lemma property_eq [simp]: "property ((js k', v) # r) k = (if k' = k then v else property r k)"
  and property_Nil [simp]: "property [] k = VUndefined"
  by (auto simp: property_def)

lemma parse_pending_value: "parsePendingTabRefresh (pending_value p) = (if pending_refresh_ok p then Some p else None)"
  unfolding parsePendingTabRefresh_def pending_value_def
  by (subst snapshot_object_exact) (simp_all add: is_generation_value pending_refresh_ok_def)


lemma parse_pending_ok: "parsePendingTabRefresh v = Some p \<Longrightarrow> pending_refresh_ok p"
  by (auto simp: parsePendingTabRefresh_def bind_eq_Some_conv pending_refresh_ok_def)

lemma optional_part_eq: "optional_part v parse = Some x \<longleftrightarrow>
    (v = VUndefined \<and> x = None) \<or> (v \<noteq> VUndefined \<and> (\<exists>y. parse v = Some y \<and> x = Some y))"
  by (auto simp: optional_part_def split: option.splits)

lemma parse_tab_state_ok:
  assumes "parseTabRefreshState v = Some s" shows "tab_state_ok s"
proof -
  from assms obtain r pending where
    "browser_id_ok (tr_tabId s)" "browser_id_ok (tr_windowId s)" "generation_ok (tr_lastAcceptedGeneration s)"
    "tr_participant s \<longrightarrow> tr_autoRefreshEnabled s"
    "pending_agrees (tr_autoRefreshEnabled s) (tr_participant s) (tr_lastAcceptedGeneration s)
       (tr_lastAcceptedMode s) (tr_pending s)"
    and p: "optional_part (property r ''pending'') parsePendingTabRefresh = Some pending"
      "tr_pending s = pending"
    by (auto simp: parseTabRefreshState_def bind_eq_Some_conv)
  moreover have "pred_option pending_refresh_ok (tr_pending s)"
    using p by (auto simp: optional_part_eq dest: parse_pending_ok)
  ultimately show ?thesis by (simp add: tab_state_ok_def)
qed

lemma parse_tab_state_value:
  "parseTabRefreshState (tab_state_value s) = (if tab_state_ok s then Some s else None)"
  unfolding parseTabRefreshState_def tab_state_value_def TAB_STATE_REQUIRED_KEYS_def TAB_STATE_OPTIONAL_KEYS_def
  by (cases "tr_lastAcceptedMode s"; cases "tr_pending s"; subst snapshot_object_optional)
    (simp_all add: is_generation_value is_browser_id_value optional_part_def parse_pending_value
      tab_state_ok_def pending_agrees_def guard_def browser_id_ok_def)

lemma panel_state_round:
  assumes "createPanelTabStateMessage s = Some m"
  shows "parsePanelTabStateMessage (panel_state_value m) = Some m \<and>
    pt_autoRefreshEnabled m = tr_autoRefreshEnabled s \<and>
    pt_ideHighlightEnabled m = tr_ideHighlightEnabled s \<and> pt_participant m = tr_participant s \<and>
    pt_lastAcceptedGeneration m = tr_lastAcceptedGeneration s \<and> pt_pending m = tr_pending s"
proof -
  have ok: "tab_state_ok s" and m: "m = \<lparr>pt_autoRefreshEnabled = tr_autoRefreshEnabled s,
       pt_ideHighlightEnabled = tr_ideHighlightEnabled s, pt_participant = tr_participant s,
       pt_lastAcceptedGeneration = tr_lastAcceptedGeneration s, pt_pending = tr_pending s\<rparr>"
    using assms by (auto simp: createPanelTabStateMessage_def parse_tab_state_value split: if_splits)
  have "parsePanelTabStateMessage (panel_state_value m) = Some m"
    unfolding parsePanelTabStateMessage_def panel_state_value_def PANEL_STATE_REQUIRED_KEYS_def m
    using ok
    by (cases "tr_pending s"; subst snapshot_object_optional) (simp_all add: is_generation_value optional_part_def parse_pending_value
      tab_state_ok_def pending_agrees_def guard_def)
  then show ?thesis by (simp add: m)
qed

subsection \<open>Properties\<close>

text \<open>The state of a tab survives the boundary between background page, storage and panel: a state
  is accepted exactly when it is well formed (identifiers and generation in range, a participant
  has automatic refresh on, a pending refresh belongs to a participant and is the last accepted
  one) and is then read back unchanged; and whatever value arrives, what is accepted is well formed.
\<close>
theorem tab_state_round_trip:
  "parseTabRefreshState (tab_state_value s) = (if tab_state_ok s then Some s else None) \<and>
   (parseTabRefreshState v = Some t \<longrightarrow> tab_state_ok t)"
  using parse_tab_state_value parse_tab_state_ok by blast

definition example_tab_state :: tab_refresh_state where
  "example_tab_state = \<lparr>tr_tabId = 7, tr_windowId = 1, tr_autoRefreshEnabled = True,
     tr_ideHighlightEnabled = False, tr_participant = True, tr_lastAcceptedGeneration = 4,
     tr_lastAcceptedMode = Some ReloadMode,
     tr_pending = Some \<lparr>pe_generation = 4, pe_mode = ReloadMode\<rparr>\<rparr>"

lemma example_tab_state_ok: "tab_state_ok example_tab_state"
  by (simp add: tab_state_ok_def example_tab_state_def browser_id_ok_def safe_int_def
      generation_ok_def pending_agrees_def pending_refresh_ok_def RESOLUTION_LIMITS_def)

theorem tab_state_round_trip_witness:
  "parseTabRefreshState (tab_state_value example_tab_state) = Some example_tab_state"
  using tab_state_round_trip [of example_tab_state VNull example_tab_state] example_tab_state_ok by simp

end
