(* ===== verification/Envelope_Text.thy ===== *)
theory Envelope_Text
  imports Json_Text Protocol_Messages
begin

text \<open>
  The text \<^verbatim>\<open>JSON.stringify\<close> makes of objects, arrays, numbers and booleans, and its length in
  UTF-8: what the byte budgets of the envelopes measure.
\<close>

subsection \<open>Texts\<close>

fun join_text :: "jstring \<Rightarrow> jstring list \<Rightarrow> jstring" where
  "join_text sep [] = []"
| "join_text sep [t] = t"
| "join_text sep (t # ts) = t @ sep @ join_text sep ts"

definition json_member :: "string \<times> jstring \<Rightarrow> jstring" where
  "json_member m = json_quote (js (fst m)) @ 0x3a # snd m"

definition json_object_text :: "(string \<times> jstring) list \<Rightarrow> jstring" where
  "json_object_text ms = 0x7b # join_text [0x2c] (map json_member ms) @ [0x7d]"

definition json_array_text :: "jstring list \<Rightarrow> jstring" where
  "json_array_text ts = 0x5b # join_text [0x2c] ts @ [0x5d]"

definition json_int :: "int \<Rightarrow> jstring" where
  "json_int n = (if n < 0 then 0x2d # decimal (nat (- n)) else decimal (nat n))"

definition json_bool :: "bool \<Rightarrow> jstring" where
  "json_bool b = js (if b then ''true'' else ''false'')"

subsection \<open>Bytes\<close>

text \<open>A text that does not start with a low surrogate can be cut off without splitting a pair.\<close>

definition whole_start :: "jstring \<Rightarrow> bool" where
  "whole_start t \<longleftrightarrow> t = [] \<or> \<not> low_surrogate (hd t)"

lemma ascii_not_surrogate: "c \<le> 0x7f \<Longrightarrow> \<not> high_surrogate c \<and> \<not> low_surrogate c"
  using surrogate_large [of c] by blast

lemma scalar_values_append: "whole_start b \<Longrightarrow> scalar_values (a @ b) = scalar_values a @ scalar_values b"
proof (induction a rule: scalar_values.induct)
  case (2 c rest)
  show ?case
  proof (cases rest)
    case Nil
    then show ?thesis using "2.prems" by (cases b) (auto simp: whole_start_def)
  next
    case (Cons d r)
    then show ?thesis using "2.IH" "2.prems" by simp
  qed
qed simp

lemma utf8_append: "whole_start b \<Longrightarrow> utf8ByteLength (a @ b) = utf8ByteLength a + utf8ByteLength b"
  by (simp add: utf8ByteLength_encoder [symmetric] buffer_from_def scalar_values_append)

lemma utf8_ascii [simp]: "c \<le> 0x7f \<Longrightarrow> utf8ByteLength (c # t) = Suc (utf8ByteLength t)"
  by simp

lemma utf8_ascii_append: "list_all (\<lambda>c. c \<le> 0x7f) a \<Longrightarrow> utf8ByteLength (a @ b) = length a + utf8ByteLength b"
  by (induction a) simp_all

lemma whole_start_simps [simp]:
  "whole_start []" "c \<le> 0x7f \<Longrightarrow> whole_start (c # t)" "whole_start (json_quote t)"
  "whole_start (json_object_text ms)" "whole_start (json_array_text ts)"
  using ascii_not_surrogate
  by (simp_all add: whole_start_def json_quote_def json_object_text_def json_array_text_def)

lemma whole_start_append [simp]: "whole_start a \<Longrightarrow> whole_start b \<Longrightarrow> whole_start (a @ b)"
  by (cases a) (simp_all add: whole_start_def)

lemma decimal_digit_ascii: "is_digit c \<Longrightarrow> c \<le> 0x7f"
  unfolding is_digit_def using order_trans [of c 57 "0x7f"] by simp

lemma utf8_decimal: "utf8ByteLength (decimal n) = length (decimal n)"
  using utf8_ascii_append [of "decimal n" "[]"] decimal_digits [of n] decimal_digit_ascii
  by (simp add: list_all_iff)

lemma whole_start_decimal [simp]: "whole_start (decimal n)"
  using decimal_digits [of n] decimal_digit_ascii ascii_not_surrogate by (simp add: whole_start_def)

lemma hex_digit_ascii: "n < 16 \<Longrightarrow> hex_digit n \<le> 0x7f"
proof -
  assume "n < 16"
  moreover have "list_all (\<lambda>k. hex_digit k \<le> 0x7f) [0..<16]"
    by (simp add: upt_rec hex_digit_def)
  ultimately show ?thesis by (simp add: list_all_iff)
qed

lemma utf8_unicode_escape: "utf8ByteLength (unicode_escape c @ t) = 6 + utf8ByteLength t"
proof -
  have "unat c div 4096 < 16" using unit_less [of c] by simp
  then show ?thesis by (simp add: unicode_escape_def hex_digit_ascii del: utf8ByteLength.simps(2))
qed

lemma utf8_plain_unit: "utf8ByteLength (c # t) \<le> 3 + utf8ByteLength t"
  using not_both_surrogates by (cases t) auto

lemma short_escape_ascii: "short_escape c = Some e \<Longrightarrow> e \<le> 0x7f"
  by (auto simp: short_escape_def split: if_splits)

lemma utf8_json_quote_body: "utf8ByteLength (json_quote_body t @ [0x22]) \<le> 6 * length t + 1"
proof (induction t rule: json_quote_body.induct)
  case (2 c rest)
  show ?case
  proof (cases "short_escape c")
    case (Some e)
    with "2.IH"(5) short_escape_ascii [OF Some] show ?thesis
      by (simp del: utf8ByteLength.simps(2))
  next
    case none: None
    show ?thesis
    proof (cases "c < 0x20 \<or> low_surrogate c")
      case True
      with none "2.IH"(1) show ?thesis by (simp add: utf8_unicode_escape del: utf8ByteLength.simps(2))
    next
      case plain: False
      show ?thesis
      proof (cases "high_surrogate c")
        case True
        show ?thesis
        proof (cases rest)
          case Nil
          with none plain True show ?thesis
            by (simp add: utf8_unicode_escape del: utf8ByteLength.simps(2))
        next
          case (Cons d r)
          show ?thesis
          proof (cases "low_surrogate d")
            case True
            have "utf8ByteLength (c # d # json_quote_body r @ [0x22]) \<le> 6 + utf8ByteLength (json_quote_body r @ [0x22])"
              using utf8_plain_unit [of c "d # json_quote_body r @ [0x22]"] utf8_plain_unit [of d "json_quote_body r @ [0x22]"]
              by linarith
            then show ?thesis using True none plain \<open>high_surrogate c\<close> Cons "2.IH"(2) [OF none plain \<open>high_surrogate c\<close> Cons True]
              by (simp del: utf8ByteLength.simps(2))
          next
            case False
            then show ?thesis using none plain \<open>high_surrogate c\<close> Cons "2.IH"(3) [OF none plain \<open>high_surrogate c\<close> Cons False]
              by (simp add: utf8_unicode_escape del: utf8ByteLength.simps(2))
          qed
        qed
      next
        case False
        then show ?thesis using none plain "2.IH"(4) [OF none plain False]
            utf8_plain_unit [of c "json_quote_body rest @ [0x22]"]
          by (simp del: utf8ByteLength.simps(2))
      qed
    qed
  qed
qed simp

text \<open>A quoted text is at most six bytes a code unit, and that is what a control character takes.\<close>

lemma utf8_json_quote: "utf8ByteLength (json_quote t) \<le> 6 * length t + 2"
  using utf8_json_quote_body [of t] by (simp add: json_quote_def del: utf8ByteLength.simps(2))

lemma utf8_quote_zeros: "utf8ByteLength (json_quote (replicate n 0)) = 6 * n + 2"
proof -
  have "utf8ByteLength (json_quote_body (replicate n 0) @ [0x22]) = 6 * n + 1"
    by (induction n) (simp_all add: utf8_unicode_escape short_escape_def del: utf8ByteLength.simps(2))
  then show ?thesis by (simp add: json_quote_def del: utf8ByteLength.simps(2))
qed

text \<open>Objects, arrays and numbers.\<close>

lemma utf8_join:
  "list_all whole_start ts \<Longrightarrow>
   utf8ByteLength (join_text [0x2c] ts) = sum_list (map utf8ByteLength ts) + (length ts - 1) \<and>
   whole_start (join_text [0x2c] ts)"
  by (induction ts rule: induct_list012) (simp_all add: utf8_append)

lemma utf8_object:
  assumes "list_all (\<lambda>m. whole_start (snd m)) ms"
  shows "utf8ByteLength (json_object_text ms) = 2 + (length ms - 1) +
    sum_list (map (\<lambda>m. utf8ByteLength (json_quote (js (fst m))) + 1 + utf8ByteLength (snd m)) ms)"
proof -
  have m: "whole_start (json_member m) \<and> utf8ByteLength (json_member m) =
      utf8ByteLength (json_quote (js (fst m))) + 1 + utf8ByteLength (snd m)" if "whole_start (snd m)" for m
    using that by (simp add: json_member_def utf8_append)
  then have "list_all whole_start (map json_member ms)" using assms by (simp add: list_all_iff)
  then have "utf8ByteLength (json_object_text ms) = 2 + (length ms - 1) + sum_list (map utf8ByteLength (map json_member ms))"
    using utf8_join [of "map json_member ms"] by (simp add: json_object_text_def utf8_append)
  also have "map utf8ByteLength (map json_member ms) =
      map (\<lambda>m. utf8ByteLength (json_quote (js (fst m))) + 1 + utf8ByteLength (snd m)) ms"
    using assms m by (simp add: list_all_iff)
  finally show ?thesis .
qed

lemma whole_start_json_int [simp]: "whole_start (json_int n)"
  by (simp add: json_int_def)

lemma utf8_json_int: "\<bar>n\<bar> < 10 ^ 10 \<Longrightarrow> utf8ByteLength (json_int n) \<le> 11"
proof -
  assume "\<bar>n\<bar> < 10 ^ 10"
  then have "length (decimal (nat n)) \<le> 10" "length (decimal (nat (- n))) \<le> 10"
    by (intro length_decimal; simp)+
  then show ?thesis by (simp add: json_int_def utf8_decimal)
qed

lemma key_bytes: "utf8ByteLength (json_quote (js k)) \<le> 6 * length k + 2"
  using utf8_json_quote [of "js k"] by simp

end
