(* ===== verification/Port_Json.thy ===== *)
theory Port_Json
  imports Refresh_Protocol Envelope_Text
begin

text \<open>
  What the parsers of messages between the parts of the browser extension share: the text
  \<^verbatim>\<open>JSON.stringify\<close> makes of plain data, which determines the data, and the reading of records and
  arrays. Values come through a port, so a plain object has the prototype \<^verbatim>\<open>Object.prototype\<close> and an
  array \<^verbatim>\<open>Array.prototype\<close>. A parser that throws returns \<open>None\<close>.
\<close>

subsection \<open>The text of plain data\<close>

text \<open>The messages hold integers only; a fraction has no text here.\<close>

fun json_text :: "json \<Rightarrow> jstring" where
  "json_text JNull = js ''null''"
| "json_text (JBool b) = json_bool b"
| "json_text (JNum (JInt n)) = json_int n"
| "json_text (JNum JNonInt) = []"
| "json_text (JStr s) = json_quote s"
| "json_text (JArr xs) = json_array_text (map json_text xs)"
| "json_text (JObj ms) =
     0x7b # join_text [0x2c] (map (\<lambda>m. json_quote (fst m) @ 0x3a # json_text (snd m)) ms) @ [0x7d]"

fun printable :: "json \<Rightarrow> bool" where
  "printable (JNum JNonInt) = False"
| "printable (JArr xs) = list_all printable xs"
| "printable (JObj ms) = list_all (\<lambda>m. printable (snd m)) ms"
| "printable _ = True"

lemma whole_start_js: "list_all (\<lambda>c. c \<le> 0x7f) t \<Longrightarrow> whole_start t"
  by (cases t) simp_all

lemma whole_start_json_bool [simp]: "whole_start (json_bool b)"
  by (cases b) (simp_all add: json_bool_def js_def unit_of_char_def)

lemma whole_start_json_text [simp]: "whole_start (json_text j)"
  by (cases j rule: json_text.cases) (simp_all add: js_def unit_of_char_def)

lemma whole_start_members [simp]:
  "list_all whole_start (map (\<lambda>m. json_quote (fst m) @ 0x3a # json_text (snd m)) ms)"
  by (simp add: list_all_iff)

lemma utf8_items: "utf8ByteLength (json_text (JArr xs)) =
    2 + (length xs - 1) + sum_list (map (\<lambda>x. utf8ByteLength (json_text x)) xs)"
proof -
  have "list_all whole_start (map json_text xs)" by (simp add: list_all_iff)
  then show ?thesis using utf8_join [of "map json_text xs"]
    by (simp add: json_array_text_def utf8_append comp_def)
qed

lemma utf8_members: "utf8ByteLength (json_text (JObj ms)) = 2 + (length ms - 1) +
    sum_list (map (\<lambda>m. utf8ByteLength (json_quote (fst m)) + 1 + utf8ByteLength (json_text (snd m))) ms)"
  using utf8_join [OF whole_start_members [of ms]]
  by (simp add: utf8_append comp_def)

lemma utf8_item: "x \<in> set xs \<Longrightarrow> utf8ByteLength (json_text x) \<le> utf8ByteLength (json_text (JArr xs))"
  using member_le_sum_list [of "utf8ByteLength (json_text x)" "map (\<lambda>x. utf8ByteLength (json_text x)) xs"]
  unfolding utf8_items by (auto simp del: json_text.simps)

lemma utf8_member:
  assumes "m \<in> set ms" shows "utf8ByteLength (json_text (snd m)) \<le> utf8ByteLength (json_text (JObj ms))"
proof -
  let ?f = "\<lambda>m. utf8ByteLength (json_quote (fst m)) + 1 + utf8ByteLength (json_text (snd m))"
  have "?f m \<le> sum_list (map ?f ms)" using assms by (intro member_le_sum_list) auto
  then show ?thesis unfolding utf8_members by linarith
qed

subsection \<open>The text determines the data\<close>

definition stop :: "jstring \<Rightarrow> bool" where
  "stop t \<longleftrightarrow> (case t of [] \<Rightarrow> True | c # _ \<Rightarrow> \<not> is_digit c)"

lemma decimal_prefix:
  assumes "decimal m @ x = decimal n @ y" and "stop x" and "stop y" shows "m = n \<and> x = y"
proof -
  have t: "takeWhile is_digit (decimal k @ z) = decimal k \<and> dropWhile is_digit (decimal k @ z) = z"
    if "stop z" for k z
    using that decimal_digits [of k] by (cases z) (simp_all add: stop_def)
  show ?thesis using t [OF assms(2), of m] t [OF assms(3), of n] assms(1) decimal_inject by metis
qed

lemma decimal_head: "\<exists>c t. decimal n = c # t \<and> is_digit c"
  using decimal_digits [of n] by (cases "decimal n") auto

lemma json_int_prefix:
  assumes "json_int m @ x = json_int n @ y" and "stop x" and "stop y" shows "m = n \<and> x = y"
proof -
  have minus: "0x2d # t \<noteq> decimal k @ z" for t k z
    using decimal_head [of k] by (auto simp: is_digit_def)
  show ?thesis
  proof (cases "m < 0")
    case True
    then have "n < 0" using assms(1) minus by (auto simp: json_int_def split: if_splits)
    then show ?thesis using True assms decimal_prefix [of "nat (- m)" x "nat (- n)" y]
      by (simp add: json_int_def, arith)
  next
    case False
    then have "\<not> n < 0" using assms(1) minus [of "decimal (nat (- n)) @ y" "nat m" x]
      by (auto simp: json_int_def split: if_splits)
    then show ?thesis using False assms decimal_prefix [of "nat m" x "nat n" y]
      by (simp add: json_int_def, arith)
  qed
qed

lemma json_quote_prefix:
  assumes "json_quote s @ x = json_quote t @ y" shows "s = t \<and> x = y"
proof -
  have "json_quote_body s @ 0x22 # x = json_quote_body t @ 0x22 # y"
    using assms by (simp add: json_quote_def)
  then have "Some (s, x) = Some (t, y)" unfolding unquote_quote_body [symmetric] by (rule arg_cong)
  then show ?thesis by simp
qed

datatype text_sort = SortNull | SortBool | SortNum | SortStr | SortArr | SortObj

fun json_sort :: "json \<Rightarrow> text_sort" where
  "json_sort JNull = SortNull"
| "json_sort (JBool b) = SortBool"
| "json_sort (JNum x) = SortNum"
| "json_sort (JStr s) = SortStr"
| "json_sort (JArr xs) = SortArr"
| "json_sort (JObj ms) = SortObj"

definition sort_of_unit :: "code_unit \<Rightarrow> text_sort" where
  "sort_of_unit c = (if c = 0x22 then SortStr else if c = 0x5b then SortArr else if c = 0x7b then SortObj
     else if c = 0x6e then SortNull else if c = 0x74 \<or> c = 0x66 then SortBool else SortNum)"

lemma digit_sort: "is_digit c \<Longrightarrow> sort_of_unit c = SortNum \<and> c \<noteq> 0x5d \<and> c \<noteq> 0x7d"
  by (auto simp: is_digit_def sort_of_unit_def)

lemma json_int_head: "\<exists>c t. json_int n = c # t \<and> sort_of_unit c = SortNum \<and> c \<noteq> 0x5d"
  using decimal_head [of "nat n"] digit_sort
  by (fastforce simp: json_int_def sort_of_unit_def)

lemma json_text_head:
  "printable j \<Longrightarrow> \<exists>c t. json_text j = c # t \<and> sort_of_unit c = json_sort j \<and> c \<noteq> 0x5d"
  using json_int_head
  by (cases j rule: json_text.cases)
    (auto simp: js_def unit_of_char_def json_bool_def json_quote_def json_array_text_def sort_of_unit_def)

lemma json_text_not_Nil: "printable j \<Longrightarrow> json_text j \<noteq> []"
  using json_text_head by fastforce

lemma same_sort: "printable a \<Longrightarrow> printable b \<Longrightarrow> json_text a @ x = json_text b @ y \<Longrightarrow> json_sort a = json_sort b"
  using json_text_head [of a] json_text_head [of b] by fastforce

text \<open>Lists of texts between commas, ended by a bracket.\<close>

definition joined :: "('a \<Rightarrow> jstring) \<Rightarrow> code_unit \<Rightarrow> 'a list \<Rightarrow> jstring \<Rightarrow> jstring" where
  "joined f e xs z = join_text [0x2c] (map f xs) @ e # z"

lemma joined_Cons: "joined f e (a # as) z = f a @ (if as = [] then e # z else 0x2c # joined f e as z)"
  by (cases as) (simp_all add: joined_def)

definition delimited :: "('a \<Rightarrow> jstring) \<Rightarrow> code_unit \<Rightarrow> 'a \<Rightarrow> 'a \<Rightarrow> bool" where
  "delimited f e a b \<longleftrightarrow> (\<forall>x y. stop x \<longrightarrow> stop y \<longrightarrow> f a @ x = f b @ y \<longrightarrow> a = b \<and> x = y)"

definition starts_item :: "('a \<Rightarrow> jstring) \<Rightarrow> code_unit \<Rightarrow> 'a \<Rightarrow> bool" where
  "starts_item f e a \<longleftrightarrow> (\<exists>c t. f a = c # t \<and> c \<noteq> e)"

lemma starts_item_not_end: "starts_item f e a \<Longrightarrow> f a @ x \<noteq> e # y"
  by (auto simp: starts_item_def)

lemma join_prefix:
  assumes e: "\<not> is_digit e" "e \<noteq> 0x2c"
  shows "\<forall>a\<in>set as. \<forall>b\<in>set bs. delimited f e a b \<Longrightarrow> list_all (starts_item f e) as \<Longrightarrow>
    list_all (starts_item f e) bs \<Longrightarrow> joined f e as x = joined f e bs y \<Longrightarrow> as = bs \<and> x = y"
proof (induction as arbitrary: bs)
  case Nil
  show ?case
  proof (cases bs)
    case Nil
    then show ?thesis using Nil.prems(4) by (simp add: joined_def)
  next
    case (Cons b bs')
    then show ?thesis using Nil.prems(3,4) starts_item_not_end [of f e b]
      by (simp add: joined_Cons) (metis append_Nil joined_def join_text.simps(1) list.map(1))
  qed
next
  case (Cons a as)
  show ?case
  proof (cases bs)
    case Nil
    have "joined f e (a # as) x = e # y" using Cons.prems(4) Nil by (simp add: joined_def)
    then show ?thesis using Cons.prems(2) starts_item_not_end [of f e a] unfolding joined_Cons by simp
  next
    case (Cons b bs')
    define u where "u = (if as = [] then e # x else 0x2c # joined f e as x)"
    define v where "v = (if bs' = [] then e # y else 0x2c # joined f e bs' y)"
    have st: "stop u" "stop v" using e by (simp_all add: u_def v_def stop_def is_digit_def)
    have eq: "f a @ u = f b @ v" using Cons.prems(4) unfolding Cons joined_Cons u_def v_def .
    have "delimited f e a b" using Cons.prems(1) Cons by simp
    then have ab: "a = b" "u = v" using st eq unfolding delimited_def by blast+
    show ?thesis
    proof (cases "as = [] \<or> bs' = []")
      case True
      then show ?thesis using ab e(2) Cons by (auto simp: u_def v_def split: if_splits)
    next
      case False
      then have "joined f e as x = joined f e bs' y" using ab(2) by (simp add: u_def v_def)
      then have "as = bs' \<and> x = y"
        using Cons.prems(1-3) Cons by (intro Cons.IH) auto
      then show ?thesis using ab Cons by simp
    qed
  qed
qed

lemma json_text_prefix:
  "printable a \<Longrightarrow> printable b \<Longrightarrow> stop x \<Longrightarrow> stop y \<Longrightarrow> json_text a @ x = json_text b @ y \<Longrightarrow> a = b \<and> x = y"
proof (induction a arbitrary: b x y)
  case (JArr as)
  obtain bs where b: "b = JArr bs" using same_sort [OF JArr.prems(1,2,5)] by (cases b) simp_all
  have pr: "\<forall>a\<in>set as. printable a" "\<forall>b\<in>set bs. printable b"
    using JArr.prems(1,2) by (simp_all add: b list_all_iff)
  have "as = bs \<and> x = y"
  proof (rule join_prefix [of "0x5d" as bs json_text])
    show "\<forall>a\<in>set as. \<forall>b\<in>set bs. delimited json_text 0x5d a b"
      unfolding delimited_def using JArr.IH pr by blast
    show "list_all (starts_item json_text 0x5d) as" "list_all (starts_item json_text 0x5d) bs"
      unfolding starts_item_def list_all_iff using pr json_text_head by blast+
    show "joined json_text 0x5d as x = joined json_text 0x5d bs y"
      using JArr.prems(5) by (simp add: b json_array_text_def joined_def)
  qed (simp_all add: is_digit_def)
  then show ?case by (simp add: b)
next
  case (JObj as)
  obtain bs where b: "b = JObj bs" using same_sort [OF JObj.prems(1,2,5)] by (cases b) simp_all
  let ?f = "\<lambda>m. json_quote (fst m) @ 0x3a # json_text (snd m)"
  have pr: "\<forall>a\<in>set as. printable (snd a)" "\<forall>b\<in>set bs. printable (snd b)"
    using JObj.prems(1,2) by (simp_all add: b list_all_iff)
  have "as = bs \<and> x = y"
  proof (rule join_prefix [of "0x7d" as bs ?f])
    show "\<forall>m\<in>set as. \<forall>n\<in>set bs. delimited ?f 0x7d m n"
      unfolding delimited_def
    proof (intro ballI allI impI)
      fix m n x y assume m: "m \<in> set as" "n \<in> set bs" "stop x" "stop y" "?f m @ x = ?f n @ y"
      then have q: "fst m = fst n \<and> 0x3a # json_text (snd m) @ x = 0x3a # json_text (snd n) @ y"
        by (intro json_quote_prefix) simp
      then have t: "json_text (snd m) @ x = json_text (snd n) @ y" by simp
      have "snd m = snd n \<and> x = y"
      proof (rule JObj.IH [OF m(1) _ _ _ m(3,4) t])
        show "snd m \<in> Basic_BNFs.snds m" by (cases m) simp
      qed (use m pr in blast)+
      with q show "m = n \<and> x = y" by (simp add: prod_eq_iff)
    qed
    show "list_all (starts_item ?f 0x7d) as" "list_all (starts_item ?f 0x7d) bs"
      by (simp_all add: starts_item_def list_all_iff json_quote_def)
    show "joined ?f 0x7d as x = joined ?f 0x7d bs y"
      using JObj.prems(5) by (simp add: b joined_def)
  qed (simp_all add: is_digit_def)
  then show ?case by (simp add: b)
next
  case (JNum n)
  obtain i where n: "n = JInt i" using JNum.prems(1) by (cases n) simp_all
  obtain m where m: "b = JNum m" using same_sort [OF JNum.prems(1,2,5)] by (cases b) simp_all
  obtain k where k: "m = JInt k" using JNum.prems(2) by (cases m) (simp_all add: m)
  have "i = k \<and> x = y" using JNum.prems(3-5) by (intro json_int_prefix) (simp_all add: n m k)
  then show ?case by (simp add: n m k)
next
  case (JStr s)
  obtain t where t: "b = JStr t" using same_sort [OF JStr.prems(1,2,5)] by (cases b) simp_all
  have "s = t \<and> x = y" using JStr.prems(5) by (intro json_quote_prefix) (simp add: t)
  then show ?case by (simp add: t)
next
  case (JBool v)
  obtain w where w: "b = JBool w" using same_sort [OF JBool.prems(1,2,5)] by (cases b) simp_all
  have eq: "json_bool v @ x = json_bool w @ y" using JBool.prems(5) by (simp add: w)
  then have "v = w" by (cases v; cases w) (simp_all add: json_bool_def js_def)
  then show ?case using eq w by simp
next
  case JNull
  have b: "b = JNull" using same_sort [OF JNull.prems(1,2,5)] by (cases b) simp_all
  have "x = y" using JNull.prems(5) unfolding b by (simp only: json_text.simps same_append_eq)
  then show ?case by (simp add: b)
qed

lemma json_text_inject: "printable a \<Longrightarrow> printable b \<Longrightarrow> json_text a = json_text b \<longleftrightarrow> a = b"
  using json_text_prefix [of a b "[]" "[]"] by (auto simp: stop_def)

subsection \<open>Objects with optional members\<close>

text \<open>An object literal in which \<open>None\<close> stands for \<^verbatim>\<open>...(absent ? {} : { key: value })\<close>.\<close>

type_synonym members = "(string \<times> json option) list"

fun present :: "members \<Rightarrow> json_object" where
  "present [] = []"
| "present ((k, v) # ms) = (case v of None \<Rightarrow> present ms | Some j \<Rightarrow> (js k, j) # present ms)"

definition object_of :: "members \<Rightarrow> json" where
  "object_of ms = JObj (present ms)"

text \<open>What the readers make of such an object.\<close>

definition data_fields :: "members \<Rightarrow> data_record" where
  "data_fields ms = map (\<lambda>m. (fst m, plain (snd m))) (present ms)"

definition has_own :: "data_record \<Rightarrow> string \<Rightarrow> bool" where
  "has_own r k = (map_of r (js k) \<noteq> None)"

lemma property_fields [simp]:
  "property (data_fields []) k = VUndefined"
  "property (data_fields ((k', v) # ms)) k =
     (if k' = k then (case v of None \<Rightarrow> property (data_fields ms) k | Some j \<Rightarrow> plain j) else property (data_fields ms) k)"
  by (auto simp: data_fields_def property_def split: option.split)

lemma has_fields [simp]:
  "has_own (data_fields []) k = False"
  "has_own (data_fields ((k', v) # ms)) k = (k' = k \<and> v \<noteq> None \<or> has_own (data_fields ms) k)"
  by (auto simp: data_fields_def has_own_def split: option.split)

lemma length_fields [simp]:
  "length (data_fields []) = 0"
  "length (data_fields ((k, v) # ms)) = (if v = None then 0 else 1) + length (data_fields ms)"
  by (auto simp: data_fields_def split: option.split)

lemma has_own_keys: "has_own r k \<longleftrightarrow> js k \<in> set (map fst r)"
  by (simp add: has_own_def map_of_eq_None_iff)

lemma keys_fields: "map fst (data_fields ms) = map fst (present ms)"
  by (simp add: data_fields_def)

lemma keys_present: "set (map fst (present ms)) \<subseteq> set (map (js \<circ> fst) ms)"
  by (induction ms rule: present.induct) (auto split: option.splits)

lemma plain_object: "plain (object_of ms) = VObject True (map (\<lambda>f. (StrKey (fst f), True, Some (snd f))) (data_fields ms))"
  by (simp add: object_of_def data_fields_def)

lemma map_of_object:
  "map_of (map (\<lambda>f. (StrKey (fst f), True, Some (snd f))) r) (StrKey k) = map_option (\<lambda>v. (True, Some v)) (map_of r k)"
  by (induction r) auto

lemma printable_object: "printable (object_of ms) = list_all (\<lambda>m. pred_option printable (snd m)) ms"
  by (induction ms rule: present.induct) (auto simp: object_of_def split: option.split)

lemma utf8_object_member:
  assumes "(k, Some j) \<in> set ms"
  shows "utf8ByteLength (json_text j) \<le> utf8ByteLength (json_text (object_of ms))"
proof -
  have "(js k, j) \<in> set (present ms)"
    using assms by (induction ms rule: present.induct) (auto split: option.splits)
  then show ?thesis using utf8_member unfolding object_of_def by fastforce
qed

subsection \<open>Parts\<close>

text \<open>A text of at most \<open>maximum\<close> units, not empty if so required.\<close>

fun bounded_text :: "nat \<Rightarrow> bool \<Rightarrow> js_value \<Rightarrow> jstring option" where
  "bounded_text maximum nonEmpty (VStr s) =
     (if length s \<le> maximum \<and> \<not> (nonEmpty \<and> length s = 0) then Some s else None)"
| "bounded_text maximum nonEmpty _ = None"

lemma bounded_text_eq [simp]: "bounded_text m b v = Some s \<longleftrightarrow>
    v = VStr s \<and> length s \<le> m \<and> (b \<longrightarrow> s \<noteq> [])"
  by (cases v) auto

text \<open>A safe integer that is not negative.\<close>

fun nonneg_integer :: "js_value \<Rightarrow> int option" where
  "nonneg_integer (VNum (JInt n)) = (if safe_int n \<and> 0 \<le> n then Some n else None)"
| "nonneg_integer _ = None"

definition nonneg_ok :: "int \<Rightarrow> bool" where
  "nonneg_ok n \<longleftrightarrow> safe_int n \<and> 0 \<le> n"

lemma nonneg_integer_eq [simp]: "nonneg_integer v = Some n \<longleftrightarrow> v = VNum (JInt n) \<and> nonneg_ok n"
  by (cases v rule: nonneg_integer.cases) (auto simp: nonneg_ok_def)

lemma nonneg_integer_value: "nonneg_integer (VNum (JInt n)) = (if nonneg_ok n then Some n else None)"
  by (simp add: nonneg_ok_def)

text \<open>A member that is parsed only where the record has it.\<close>

definition own_part :: "data_record \<Rightarrow> string \<Rightarrow> (js_value \<Rightarrow> 'a option) \<Rightarrow> 'a option option" where
  "own_part r k parse = (if has_own r k then map_option Some (parse (property r k)) else Some None)"

text \<open>The items of an array, each parsed.\<close>

definition parse_items :: "(js_value \<Rightarrow> 'a option) \<Rightarrow> js_value list \<Rightarrow> 'a list option" where
  "parse_items parse vs = those (map parse vs)"

lemma parse_items_Nil [simp]: "parse_items p [] = Some []"
  by (simp add: parse_items_def)

lemma parse_items_Cons [simp]: "parse_items p (v # vs) =
    (case p v of None \<Rightarrow> None | Some x \<Rightarrow> map_option (Cons x) (parse_items p vs))"
  by (simp add: parse_items_def split: option.split)

lemma parse_items_all:
  assumes "parse_items p vs = Some xs" and "\<And>v x. p v = Some x \<Longrightarrow> P x"
  shows "list_all P xs \<and> length xs = length vs"
  using assms(1)
  by (induction vs arbitrary: xs) (auto split: option.splits dest: assms(2))

lemma parse_items_plain:
  assumes "\<And>x. x \<in> set xs \<Longrightarrow> p (plain (f x)) = (if P x then Some x else None)"
  shows "parse_items p (map plain (map f xs)) = (if list_all P xs then Some xs else None)"
  using assms by (induction xs) auto

end
