(* ===== verification/Dom_Locator.thy ===== *)
theory Dom_Locator
  imports Port_Json
begin

text \<open>
  The parser of stable locators (\<^verbatim>\<open>browser-extension-core/src/domStableLocator.ts\<close>): the way from a
  document through shadow roots and frames to a node, as tag names, sibling indexes and evidence.
  The rest of that file walks the DOM and is not modelled.
\<close>

subsection \<open>Locators\<close>

datatype node_kind = KindDocumentType | KindElement | KindText | KindComment | KindShadowRoot
  | KindFrameDocument

fun kind_text :: "node_kind \<Rightarrow> string" where
  "kind_text KindDocumentType = ''document-type''"
| "kind_text KindElement = ''element''"
| "kind_text KindText = ''text''"
| "kind_text KindComment = ''comment''"
| "kind_text KindShadowRoot = ''shadow-root''"
| "kind_text KindFrameDocument = ''frame-document''"

text \<open>\<^verbatim>\<open>typeof value === "string" && kinds.has(value)\<close>\<close>

definition kind_in :: "node_kind list \<Rightarrow> js_value \<Rightarrow> node_kind option" where
  "kind_in kinds v = List.find (\<lambda>k. v = VStr (js (kind_text k))) kinds"

record locator_attribute =
  la_name :: jstring
  la_value :: jstring

record dom_path_segment =
  ps_tagName :: jstring
  ps_siblingIndex :: int
  ps_id :: "jstring option"
  ps_classes :: "jstring list option"
  ps_attributes :: "locator_attribute list option"

record boundary_locator =
  bl_kind :: node_kind
  bl_hostPath :: "dom_path_segment list"

record stable_locator =
  sl_targetKind :: node_kind
  sl_boundaries :: "boundary_locator list"
  sl_path :: "dom_path_segment list"

definition LOCATOR_MAX_DEPTH :: nat where "LOCATOR_MAX_DEPTH = 64"
definition LOCATOR_MAX_BOUNDARIES :: nat where "LOCATOR_MAX_BOUNDARIES = 16"
definition LOCATOR_MAX_CLASSES :: nat where "LOCATOR_MAX_CLASSES = 8"
definition LOCATOR_MAX_ATTRIBUTES :: nat where "LOCATOR_MAX_ATTRIBUTES = 8"
definition LOCATOR_MAX_TOKEN_LENGTH :: nat where "LOCATOR_MAX_TOKEN_LENGTH = 128"

definition LOCATOR_KEYS :: "string list" where
  "LOCATOR_KEYS = [''version'', ''targetKind'', ''boundaries'', ''path'']"
definition BOUNDARY_KEYS :: "string list" where "BOUNDARY_KEYS = [''kind'', ''hostPath'']"
definition PATH_SEGMENT_KEYS :: "string list" where
  "PATH_SEGMENT_KEYS = [''tagName'', ''siblingIndex'', ''id'', ''classes'', ''attributes'']"
definition ATTRIBUTE_KEYS :: "string list" where "ATTRIBUTE_KEYS = [''name'', ''value'']"

definition TARGET_KINDS :: "node_kind list" where
  "TARGET_KINDS = [KindElement, KindShadowRoot, KindFrameDocument]"
definition BOUNDARY_KINDS :: "node_kind list" where
  "BOUNDARY_KINDS = [KindShadowRoot, KindFrameDocument]"

definition locatorDepth :: "stable_locator \<Rightarrow> nat" where
  "locatorDepth l = length (sl_path l) + sum_list (map (\<lambda>b. length (bl_hostPath b) + 1) (sl_boundaries l))"

subsection \<open>Reading\<close>

text \<open>An own data property: \<open>None\<close> for an accessor, \<open>Some None\<close> where there is none.\<close>

definition readOwnDataProperty :: "js_property list \<Rightarrow> jstring \<Rightarrow> js_value option option" where
  "readOwnDataProperty ds key =
     (case map_of ds (StrKey key) of None \<Rightarrow> Some None
      | Some (_, None) \<Rightarrow> None | Some (_, Some v) \<Rightarrow> Some (Some v))"

fun read_allowed :: "js_property list \<Rightarrow> string list \<Rightarrow> data_record option" where
  "read_allowed ds [] = Some []"
| "read_allowed ds (key # keys) =
     (case readOwnDataProperty ds (js key) of
        None \<Rightarrow> None
      | Some None \<Rightarrow> read_allowed ds keys
      | Some (Some v) \<Rightarrow> map_option (Cons (js key, v)) (read_allowed ds keys))"

definition assert_required :: "data_record \<Rightarrow> string list \<Rightarrow> unit option" where
  "assert_required r requiredKeys = guard (list_all (has_own r) requiredKeys)"

fun locator_record :: "js_value \<Rightarrow> string list \<Rightarrow> data_record option" where
  "locator_record (VObject True ds) allowedKeys = read_allowed ds allowedKeys"
| "locator_record _ allowedKeys = None"

fun locator_array :: "nat \<Rightarrow> js_value \<Rightarrow> js_value list option" where
  "locator_array maximumLength (VArray len ds) =
     (if len > maximumLength then None
      else those (map (\<lambda>i. case readOwnDataProperty ds (decimal i) of Some (Some v) \<Rightarrow> Some v | _ \<Rightarrow> None)
        [0..<len]))"
| "locator_array maximumLength _ = None"

definition locator_text :: "bool \<Rightarrow> js_value \<Rightarrow> jstring option" where
  "locator_text = bounded_text LOCATOR_MAX_TOKEN_LENGTH"

text \<open>\<^verbatim>\<open>/^[a-z][a-z0-9._:-]*$/\<close>\<close>

definition name_unit :: "code_unit \<Rightarrow> bool" where
  "name_unit c \<longleftrightarrow> is_lower c \<or> is_digit c \<or> c = 0x2e \<or> c = 0x5f \<or> c = 0x3a \<or> c = 0x2d"

definition canonical_tag :: "jstring \<Rightarrow> bool" where
  "canonical_tag t = (case t of [] \<Rightarrow> False | c # cs \<Rightarrow> is_lower c \<and> list_all name_unit cs)"

definition assertCanonicalTagName :: "js_value \<Rightarrow> jstring option" where
  "assertCanonicalTagName v = do { t \<leftarrow> locator_text True v; guard (canonical_tag t); Some t }"

text \<open>\<^verbatim>\<open>name === "role" || /^(?:aria|data)-[a-z0-9_.:-]+$/.test(name)\<close>\<close>

definition isApprovedAttributeName :: "jstring \<Rightarrow> bool" where
  "isApprovedAttributeName name \<longleftrightarrow> name = js ''role'' \<or>
     (take 5 name = js ''aria-'' \<or> take 5 name = js ''data-'') \<and>
     drop 5 name \<noteq> [] \<and> list_all name_unit (drop 5 name)"

definition assertApprovedAttributeName :: "js_value \<Rightarrow> jstring option" where
  "assertApprovedAttributeName v =
     do { name \<leftarrow> locator_text True v; guard (isApprovedAttributeName name); Some name }"

text \<open>\<^verbatim>\<open>/[\t\n\f\r ]/\<close>\<close>

definition hasWhitespace :: "jstring \<Rightarrow> bool" where
  "hasWhitespace t = list_ex (\<lambda>c. c \<in> {0x09, 0x0a, 0x0c, 0x0d, 0x20}) t"

definition assertClassToken :: "js_value \<Rightarrow> jstring option" where
  "assertClassToken v = do { t \<leftarrow> locator_text True v; guard (\<not> hasWhitespace t); Some t }"

text \<open>Texts are compared by their code units.\<close>

definition strictly_sorted :: "jstring list \<Rightarrow> bool" where
  "strictly_sorted ts = sorted_wrt ord_class.lexordp ts"

fun assertStrictlySorted :: "jstring list \<Rightarrow> bool" where
  "assertStrictlySorted (a # b # ts) = (ord_class.lexordp a b \<and> assertStrictlySorted (b # ts))"
| "assertStrictlySorted _ = True"

definition parseAttribute :: "js_value \<Rightarrow> locator_attribute option" where
  "parseAttribute v = do {
     r \<leftarrow> locator_record v ATTRIBUTE_KEYS;
     assert_required r ATTRIBUTE_KEYS;
     name \<leftarrow> assertApprovedAttributeName (property r ''name'');
     attributeValue \<leftarrow> locator_text False (property r ''value'');
     Some \<lparr>la_name = name, la_value = attributeValue\<rparr> }"

definition parseAttributes :: "js_value \<Rightarrow> locator_attribute list option" where
  "parseAttributes v = do {
     items \<leftarrow> locator_array LOCATOR_MAX_ATTRIBUTES v;
     attributes \<leftarrow> parse_items parseAttribute items;
     guard (assertStrictlySorted (map la_name attributes));
     Some attributes }"

definition parseClasses :: "js_value \<Rightarrow> jstring list option" where
  "parseClasses v = do {
     items \<leftarrow> locator_array LOCATOR_MAX_CLASSES v;
     classes \<leftarrow> parse_items assertClassToken items;
     guard (assertStrictlySorted classes);
     Some classes }"

definition parsePathSegment :: "js_value \<Rightarrow> dom_path_segment option" where
  "parsePathSegment v = do {
     r \<leftarrow> locator_record v PATH_SEGMENT_KEYS;
     assert_required r [''tagName'', ''siblingIndex''];
     tagName \<leftarrow> assertCanonicalTagName (property r ''tagName'');
     siblingIndex \<leftarrow> nonneg_integer (property r ''siblingIndex'');
     id \<leftarrow> own_part r ''id'' (locator_text True);
     classes \<leftarrow> own_part r ''classes'' parseClasses;
     attributes \<leftarrow> own_part r ''attributes'' parseAttributes;
     Some \<lparr>ps_tagName = tagName, ps_siblingIndex = siblingIndex, ps_id = id, ps_classes = classes,
       ps_attributes = attributes\<rparr> }"

definition parsePath :: "js_value \<Rightarrow> dom_path_segment list option" where
  "parsePath v = do { items \<leftarrow> locator_array LOCATOR_MAX_DEPTH v; parse_items parsePathSegment items }"

definition parseBoundary :: "js_value \<Rightarrow> boundary_locator option" where
  "parseBoundary v = do {
     r \<leftarrow> locator_record v BOUNDARY_KEYS;
     assert_required r BOUNDARY_KEYS;
     kind \<leftarrow> kind_in BOUNDARY_KINDS (property r ''kind'');
     hostPath \<leftarrow> parsePath (property r ''hostPath'');
     Some \<lparr>bl_kind = kind, bl_hostPath = hostPath\<rparr> }"

text \<open>The callback of \<^verbatim>\<open>parseBoundedArray\<close>, which adds up \<^verbatim>\<open>totalSegments\<close>.\<close>

fun parse_boundaries :: "js_value list \<Rightarrow> nat \<Rightarrow> (boundary_locator list \<times> nat) option" where
  "parse_boundaries [] totalSegments = Some ([], totalSegments)"
| "parse_boundaries (v # vs) totalSegments =
     (case parseBoundary v of
        None \<Rightarrow> None
      | Some b \<Rightarrow>
          if totalSegments + length (bl_hostPath b) > LOCATOR_MAX_DEPTH then None
          else map_option (\<lambda>(bs, total). (b # bs, total))
            (parse_boundaries vs (totalSegments + length (bl_hostPath b))))"

definition parseDomStableLocator :: "js_value \<Rightarrow> stable_locator option" where
  "parseDomStableLocator v = do {
     r \<leftarrow> locator_record v LOCATOR_KEYS;
     assert_required r LOCATOR_KEYS;
     guard (property r ''version'' = VNum (JInt 1));
     targetKind \<leftarrow> kind_in TARGET_KINDS (property r ''targetKind'');
     items \<leftarrow> locator_array LOCATOR_MAX_BOUNDARIES (property r ''boundaries'');
     (boundaries, totalSegments) \<leftarrow> parse_boundaries items 0;
     path \<leftarrow> parsePath (property r ''path'');
     guard (\<not> totalSegments + length path > LOCATOR_MAX_DEPTH);
     Some \<lparr>sl_targetKind = targetKind, sl_boundaries = boundaries, sl_path = path\<rparr> }"

subsection \<open>The data of a locator\<close>

definition text_json :: "string \<Rightarrow> json" where "text_json t = JStr (js t)"

definition locator_attribute_json :: "locator_attribute \<Rightarrow> json" where
  "locator_attribute_json a = object_of [(''name'', Some (JStr (la_name a))), (''value'', Some (JStr (la_value a)))]"

definition path_segment_json :: "dom_path_segment \<Rightarrow> json" where
  "path_segment_json s = object_of
     [(''tagName'', Some (JStr (ps_tagName s))), (''siblingIndex'', Some (JNum (JInt (ps_siblingIndex s)))),
      (''id'', map_option JStr (ps_id s)),
      (''classes'', map_option (\<lambda>cs. JArr (map JStr cs)) (ps_classes s)),
      (''attributes'', map_option (\<lambda>as. JArr (map locator_attribute_json as)) (ps_attributes s))]"

definition path_json :: "dom_path_segment list \<Rightarrow> json" where
  "path_json p = JArr (map path_segment_json p)"

definition boundary_json :: "boundary_locator \<Rightarrow> json" where
  "boundary_json b = object_of [(''kind'', Some (text_json (kind_text (bl_kind b)))), (''hostPath'', Some (path_json (bl_hostPath b)))]"

definition locator_json :: "stable_locator \<Rightarrow> json" where
  "locator_json l = object_of
     [(''version'', Some (JNum (JInt 1))), (''targetKind'', Some (text_json (kind_text (sl_targetKind l)))),
      (''boundaries'', Some (JArr (map boundary_json (sl_boundaries l)))), (''path'', Some (path_json (sl_path l)))]"

subsection \<open>Locators that are accepted\<close>

definition token_ok :: "jstring \<Rightarrow> bool" where
  "token_ok t \<longleftrightarrow> t \<noteq> [] \<and> length t \<le> LOCATOR_MAX_TOKEN_LENGTH"

definition class_ok :: "jstring \<Rightarrow> bool" where
  "class_ok t \<longleftrightarrow> token_ok t \<and> \<not> hasWhitespace t"

definition attribute_ok :: "locator_attribute \<Rightarrow> bool" where
  "attribute_ok a \<longleftrightarrow> token_ok (la_name a) \<and> isApprovedAttributeName (la_name a) \<and>
     length (la_value a) \<le> LOCATOR_MAX_TOKEN_LENGTH"

definition segment_ok :: "dom_path_segment \<Rightarrow> bool" where
  "segment_ok s \<longleftrightarrow> token_ok (ps_tagName s) \<and> canonical_tag (ps_tagName s) \<and>
     nonneg_ok (ps_siblingIndex s) \<and> pred_option token_ok (ps_id s) \<and>
     pred_option (\<lambda>cs. length cs \<le> LOCATOR_MAX_CLASSES \<and> list_all class_ok cs \<and> strictly_sorted cs) (ps_classes s) \<and>
     pred_option (\<lambda>as. length as \<le> LOCATOR_MAX_ATTRIBUTES \<and> list_all attribute_ok as \<and>
       strictly_sorted (map la_name as)) (ps_attributes s)"

definition path_ok :: "dom_path_segment list \<Rightarrow> bool" where
  "path_ok p \<longleftrightarrow> length p \<le> LOCATOR_MAX_DEPTH \<and> list_all segment_ok p"

definition boundary_ok :: "boundary_locator \<Rightarrow> bool" where
  "boundary_ok b \<longleftrightarrow> bl_kind b \<in> set BOUNDARY_KINDS \<and> path_ok (bl_hostPath b)"

definition locator_ok :: "stable_locator \<Rightarrow> bool" where
  "locator_ok l \<longleftrightarrow> sl_targetKind l \<in> set TARGET_KINDS \<and>
     length (sl_boundaries l) \<le> LOCATOR_MAX_BOUNDARIES \<and> list_all boundary_ok (sl_boundaries l) \<and>
     path_ok (sl_path l) \<and>
     sum_list (map (\<lambda>b. length (bl_hostPath b)) (sl_boundaries l)) + length (sl_path l) \<le> LOCATOR_MAX_DEPTH"

lemma strictly_sorted_eq: "assertStrictlySorted ts = strictly_sorted ts"
proof (induction ts rule: assertStrictlySorted.induct)
  case (1 a b ts)
  have "ord_class.lexordp a x" if "ord_class.lexordp a b" "ord_class.lexordp b x" for x
    using that by (rule lexordp_trans)
  then show ?case using "1.IH" by (auto simp: strictly_sorted_def)
qed (simp_all add: strictly_sorted_def)

lemma kind_text_inject [simp]: "kind_text a = kind_text b \<longleftrightarrow> a = b"
  by (cases a; cases b) simp_all

lemma kind_in_eq [simp]: "kind_in ks v = Some k \<longleftrightarrow> k \<in> set ks \<and> v = VStr (js (kind_text k))"
  by (induction ks) (auto simp: kind_in_def)

lemma kind_in_value: "kind_in ks (VStr (js (kind_text k))) = (if k \<in> set ks then Some k else None)"
  using kind_in_eq [of ks "VStr (js (kind_text k))"] by (cases "kind_in ks (VStr (js (kind_text k)))") auto

lemma read_own_plain: "readOwnDataProperty (map (\<lambda>f. (StrKey (fst f), True, Some (snd f))) r) k = Some (map_of r k)"
  by (simp add: readOwnDataProperty_def map_of_object split: option.split)

definition narrowed :: "string list \<Rightarrow> data_record \<Rightarrow> data_record" where
  "narrowed keys r = concat (map (\<lambda>k. case map_of r (js k) of None \<Rightarrow> [] | Some v \<Rightarrow> [(js k, v)]) keys)"

lemma map_of_narrowed: "map_of (narrowed keys r) (js k) = (if k \<in> set keys then map_of r (js k) else None)"
  by (induction keys) (auto simp: narrowed_def split: option.split)

lemma narrowed_property: "k \<in> set keys \<Longrightarrow> property (narrowed keys r) k = property r k"
  and narrowed_has: "k \<in> set keys \<Longrightarrow> has_own (narrowed keys r) k = has_own r k"
  by (simp_all add: property_def has_own_def map_of_narrowed)

lemma read_allowed_plain:
  "read_allowed (map (\<lambda>f. (StrKey (fst f), True, Some (snd f))) r) keys = Some (narrowed keys r)"
  by (induction keys) (auto simp: read_own_plain narrowed_def split: option.split)

lemma locator_record_plain: "locator_record (plain (object_of ms)) keys = Some (narrowed keys (data_fields ms))"
  by (simp add: plain_object read_allowed_plain)

lemma those_map_Some: "those (map (\<lambda>x. Some (f x)) xs) = Some (map f xs)"
  by (induction xs) simp_all

lemma plain_nth: "map (\<lambda>i. plain (xs ! i)) [0..<length xs] = map plain xs"
  by (rule nth_equalityI) simp_all

lemma locator_array_plain:
  "locator_array m (plain (JArr xs)) = (if length xs \<le> m then Some (map plain xs) else None)"
proof -
  have "map (\<lambda>i. case readOwnDataProperty (zip (map (\<lambda>i. StrKey (decimal i)) [0..<length xs])
        (map (\<lambda>x. (True, Some (plain x))) xs)) (decimal i) of Some (Some v) \<Rightarrow> Some v | _ \<Rightarrow> None) [0..<length xs] =
      map (\<lambda>i. Some (plain (xs ! i))) [0..<length xs]"
    using plain_item [of _ xs] by (simp add: readOwnDataProperty_def)
  then show ?thesis using those_map_Some [of "\<lambda>i. plain (xs ! i)" "[0..<length xs]"]
    by (simp add: plain_nth del: map_eq_conv cong: map_cong)
qed

subsection \<open>Round trip\<close>

lemmas locator_reading = locator_record_plain assert_required_def own_part_def narrowed_property narrowed_has
  object_of_def [symmetric] guard_def

lemma parse_strings:
  assumes "\<And>t. p (VStr t) = (if P t then Some t else None)"
  shows "parse_items p (map plain (map JStr ts)) = (if list_all P ts then Some ts else None)"
  using assms by (intro parse_items_plain) simp

lemma class_token_value: "assertClassToken (VStr t) = (if class_ok t then Some t else None)"
  by (auto simp: assertClassToken_def locator_text_def class_ok_def token_ok_def)

lemma parse_classes_value: "parseClasses (plain (JArr (map JStr ts))) =
    (if length ts \<le> LOCATOR_MAX_CLASSES \<and> list_all class_ok ts \<and> strictly_sorted ts then Some ts else None)"
  using parse_strings [of assertClassToken class_ok, OF class_token_value, of ts]
  by (simp add: parseClasses_def locator_array_plain guard_def strictly_sorted_eq del: plain.simps)

lemma parse_attribute_value: "parseAttribute (plain (locator_attribute_json a)) = (if attribute_ok a then Some a else None)"
  by (auto simp: parseAttribute_def locator_attribute_json_def locator_reading ATTRIBUTE_KEYS_def
      assertApprovedAttributeName_def locator_text_def attribute_ok_def token_ok_def)

lemma parse_attributes_value: "parseAttributes (plain (JArr (map locator_attribute_json as))) =
    (if length as \<le> LOCATOR_MAX_ATTRIBUTES \<and> list_all attribute_ok as \<and> strictly_sorted (map la_name as)
     then Some as else None)"
  using parse_items_plain [of as parseAttribute locator_attribute_json attribute_ok, OF parse_attribute_value]
  by (simp add: parseAttributes_def locator_array_plain guard_def strictly_sorted_eq del: plain.simps)

lemma parse_segment_value: "parsePathSegment (plain (path_segment_json s)) = (if segment_ok s then Some s else None)"
  by (cases "ps_id s"; cases "ps_classes s"; cases "ps_attributes s")
    (simp_all add: parsePathSegment_def path_segment_json_def locator_reading PATH_SEGMENT_KEYS_def
      assertCanonicalTagName_def locator_text_def segment_ok_def token_ok_def nonneg_integer_value
      parse_classes_value parse_attributes_value del: plain.simps(5,6) nonneg_integer.simps)

lemma parse_path_value: "parsePath (plain (path_json p)) = (if path_ok p then Some p else None)"
  using parse_items_plain [of p parsePathSegment path_segment_json segment_ok, OF parse_segment_value]
  by (simp add: parsePath_def path_json_def locator_array_plain path_ok_def del: plain.simps)

lemma parse_boundary_value: "parseBoundary (plain (boundary_json b)) = (if boundary_ok b then Some b else None)"
  by (simp add: parseBoundary_def boundary_json_def locator_reading BOUNDARY_KEYS_def text_json_def
      kind_in_value parse_path_value boundary_ok_def del: plain.simps(5,6))

lemma parse_boundaries_value:
  "parse_boundaries (map plain (map boundary_json bs)) n =
   (if list_all boundary_ok bs \<and> (bs \<noteq> [] \<longrightarrow> n + sum_list (map (\<lambda>b. length (bl_hostPath b)) bs) \<le> LOCATOR_MAX_DEPTH)
    then Some (bs, n + sum_list (map (\<lambda>b. length (bl_hostPath b)) bs)) else None)"
proof (induction bs arbitrary: n)
  case (Cons b bs)
  show ?case unfolding list.map parse_boundaries.simps parse_boundary_value Cons.IH
    by (cases bs) auto
qed simp

lemma parse_locator_value: "parseDomStableLocator (plain (locator_json l)) = (if locator_ok l then Some l else None)"
  by (simp add: parseDomStableLocator_def locator_json_def locator_reading LOCATOR_KEYS_def text_json_def
      kind_in_value parse_path_value locator_array_plain parse_boundaries_value locator_ok_def
      del: plain.simps(5,6) map_map)

subsection \<open>Whatever arrives\<close>

lemma those_length: "those xs = Some ys \<Longrightarrow> length ys = length xs"
  by (induction xs arbitrary: ys) (auto split: option.splits)

lemma locator_array_length: "locator_array m v = Some xs \<Longrightarrow> length xs \<le> m"
  by (cases v) (auto split: if_splits dest: those_length)

lemma parse_array_ok:
  assumes "locator_array m v = Some vs" and "parse_items p vs = Some xs"
    and "\<And>v x. p v = Some x \<Longrightarrow> P x"
  shows "length xs \<le> m \<and> list_all P xs"
  using locator_array_length [OF assms(1)] parse_items_all [OF assms(2,3)] by simp

lemma own_part_ok: "own_part r k p = Some x \<Longrightarrow> (\<And>v y. p v = Some y \<Longrightarrow> P y) \<Longrightarrow> pred_option P x"
  by (auto simp: own_part_def split: if_splits)

lemma parse_classes_ok:
  assumes "parseClasses v = Some ts"
  shows "length ts \<le> LOCATOR_MAX_CLASSES \<and> list_all class_ok ts \<and> strictly_sorted ts"
proof -
  obtain items where i: "locator_array LOCATOR_MAX_CLASSES v = Some items"
      "parse_items assertClassToken items = Some ts" and "strictly_sorted ts"
    using assms by (auto simp: parseClasses_def bind_eq_Some_conv strictly_sorted_eq)
  moreover have "assertClassToken u = Some t \<Longrightarrow> class_ok t" for u t
    by (auto simp: assertClassToken_def bind_eq_Some_conv locator_text_def class_ok_def token_ok_def)
  ultimately show ?thesis using parse_array_ok [OF i] by blast
qed

lemma parse_attributes_ok:
  assumes "parseAttributes v = Some as"
  shows "length as \<le> LOCATOR_MAX_ATTRIBUTES \<and> list_all attribute_ok as \<and> strictly_sorted (map la_name as)"
proof -
  obtain items where i: "locator_array LOCATOR_MAX_ATTRIBUTES v = Some items"
      "parse_items parseAttribute items = Some as" and "strictly_sorted (map la_name as)"
    using assms by (auto simp: parseAttributes_def bind_eq_Some_conv strictly_sorted_eq)
  moreover have "parseAttribute u = Some a \<Longrightarrow> attribute_ok a" for u a
    by (auto simp: parseAttribute_def bind_eq_Some_conv assertApprovedAttributeName_def locator_text_def
        attribute_ok_def token_ok_def)
  ultimately show ?thesis using parse_array_ok [OF i] by blast
qed

lemma parse_segment_ok:
  assumes "parsePathSegment v = Some s" shows "segment_ok s"
proof -
  obtain r where "token_ok (ps_tagName s)" "canonical_tag (ps_tagName s)" "nonneg_ok (ps_siblingIndex s)"
    and p: "own_part r ''id'' (locator_text True) = Some (ps_id s)"
      "own_part r ''classes'' parseClasses = Some (ps_classes s)"
      "own_part r ''attributes'' parseAttributes = Some (ps_attributes s)"
    using assms by (auto simp: parsePathSegment_def bind_eq_Some_conv assertCanonicalTagName_def
        locator_text_def token_ok_def)
  moreover have "pred_option token_ok (ps_id s)"
    using p(1) by (rule own_part_ok) (auto simp: locator_text_def token_ok_def)
  ultimately show ?thesis
    using own_part_ok [OF p(2) parse_classes_ok] own_part_ok [OF p(3) parse_attributes_ok]
    by (simp add: segment_ok_def)
qed

lemma parse_path_ok: "parsePath v = Some p \<Longrightarrow> path_ok p"
  unfolding path_ok_def
  by (auto simp: parsePath_def bind_eq_Some_conv dest: parse_array_ok [OF _ _ parse_segment_ok])

lemma parse_boundary_ok: "parseBoundary v = Some b \<Longrightarrow> boundary_ok b"
  by (auto simp: parseBoundary_def bind_eq_Some_conv boundary_ok_def dest: parse_path_ok)

lemma parse_boundaries_ok:
  "parse_boundaries vs n = Some (bs, m) \<Longrightarrow> list_all boundary_ok bs \<and> length bs = length vs \<and>
    m = n + sum_list (map (\<lambda>b. length (bl_hostPath b)) bs)"
proof (induction vs arbitrary: n bs)
  case (Cons v vs)
  then obtain b bs' where b: "parseBoundary v = Some b" "bs = b # bs'"
      "parse_boundaries vs (n + length (bl_hostPath b)) = Some (bs', m)"
    by (auto split: option.splits if_splits)
  show ?case using Cons.IH [OF b(3)] parse_boundary_ok [OF b(1)] by (simp add: b(2))
qed simp

lemma parse_locator_ok:
  assumes "parseDomStableLocator v = Some l" shows "locator_ok l"
proof -
  obtain items r total where r: "locator_array LOCATOR_MAX_BOUNDARIES (property r ''boundaries'') = Some items"
      "parse_boundaries items 0 = Some (sl_boundaries l, total)" "parsePath (property r ''path'') = Some (sl_path l)"
      "total + length (sl_path l) \<le> LOCATOR_MAX_DEPTH" "sl_targetKind l \<in> set TARGET_KINDS"
    using assms by (auto simp: parseDomStableLocator_def bind_eq_Some_conv)
  then show ?thesis
    using parse_boundaries_ok [OF r(2)] locator_array_length [OF r(1)] parse_path_ok [OF r(3)]
    by (simp add: locator_ok_def)
qed

text \<open>A locator names at most 64 elements, over at most 16 boundaries.\<close>

lemma locator_depth_bound:
  assumes "locator_ok l" shows "locatorDepth l \<le> 80"
proof -
  have "sum_list (map (\<lambda>b. Suc (length (bl_hostPath b))) bs) =
      sum_list (map (\<lambda>b. length (bl_hostPath b)) bs) + length bs" for bs
    by (induction bs) simp_all
  from this [of "sl_boundaries l"] show ?thesis
    using assms by (simp add: locator_ok_def locatorDepth_def LOCATOR_MAX_DEPTH_def LOCATOR_MAX_BOUNDARIES_def)
qed

end
