(* ===== verification/Dom_Protocol.thy ===== *)
theory Dom_Protocol
  imports Dom_Locator
begin

text \<open>
  The messages about the DOM tree between the page and the panel
  (\<^verbatim>\<open>browser-extension-core/src/domProtocol.ts\<close>): nodes of the tree as the panel shows them,
  requests, responses and events, with their parsers and the byte budget of every message.
\<close>

subsection \<open>Messages\<close>

definition DOM_MAX_IDENTIFIER_LENGTH :: nat where "DOM_MAX_IDENTIFIER_LENGTH = 128"
definition DOM_MAX_LABEL_LENGTH :: nat where "DOM_MAX_LABEL_LENGTH = 512"
definition DOM_MAX_SUMMARY_LENGTH :: nat where "DOM_MAX_SUMMARY_LENGTH = 512"
definition DOM_MAX_CHILDREN_PAGE_LENGTH :: nat where "DOM_MAX_CHILDREN_PAGE_LENGTH = 100"
definition DOM_MAX_ANCESTOR_PATH_LENGTH :: nat where "DOM_MAX_ANCESTOR_PATH_LENGTH = 64"
definition DOM_MAX_ATTRIBUTES :: nat where "DOM_MAX_ATTRIBUTES = 64"
definition DOM_MAX_ATTRIBUTE_NAME_LENGTH :: nat where "DOM_MAX_ATTRIBUTE_NAME_LENGTH = 256"
definition DOM_MAX_ATTRIBUTE_VALUE_LENGTH :: nat where "DOM_MAX_ATTRIBUTE_VALUE_LENGTH = 16384"
definition DOM_MAX_INVALIDATION_BRANCHES :: nat where "DOM_MAX_INVALIDATION_BRANCHES = 128"
definition DOM_MAX_NODE_VALUE_LENGTH :: nat where "DOM_MAX_NODE_VALUE_LENGTH = 16384"
definition DOM_MAX_DOCTYPE_ID_LENGTH :: nat where "DOM_MAX_DOCTYPE_ID_LENGTH = 4096"
definition DOM_MAX_ROOT_AUXILIARY_ROWS :: nat where "DOM_MAX_ROOT_AUXILIARY_ROWS = 32"
definition DOM_MAX_SERIALIZED_BYTES :: nat where "DOM_MAX_SERIALIZED_BYTES = 64 * 1024"
definition DOM_RESERVED_NODE_REF_PREFIX :: jstring where
  "DOM_RESERVED_NODE_REF_PREFIX = js ''pin-op:load-more:''"

definition DOM_REQUEST_MAX_PROPERTIES :: nat where "DOM_REQUEST_MAX_PROPERTIES = 6"
definition DOM_RESPONSE_MAX_PROPERTIES :: nat where "DOM_RESPONSE_MAX_PROPERTIES = 7"
definition DOM_EVENT_MAX_PROPERTIES :: nat where "DOM_EVENT_MAX_PROPERTIES = 5"
definition DOM_NODE_VIEW_MAX_PROPERTIES :: nat where "DOM_NODE_VIEW_MAX_PROPERTIES = 13"

datatype dom_error_code = DomInvalidRequest | DomStaleDocument | DomUnknownNode | DomStaleBranch
  | DomInvalidCursor | DomSessionDisposed | DomNodeUnavailable | DomInternalError

datatype relationship = RelDom | RelShadowRoot | RelFrameDocument

record inspector_attribute =
  ia_name :: jstring
  ia_value :: jstring

record dom_node_view =
  dn_nodeRef :: jstring
  dn_kind :: node_kind
  dn_nodeType :: int
  dn_nodeName :: jstring
  dn_nodeValue :: "jstring option"
  dn_publicId :: "jstring option"
  dn_systemId :: "jstring option"
  dn_attributes :: "inspector_attribute list"
  dn_childCount :: int
  dn_relationship :: relationship
  dn_selectable :: bool
  dn_label :: jstring
  dn_expandable :: bool
  dn_inaccessible :: "bool option"
  dn_branchRevision :: int
  dn_locator :: "stable_locator option"

record invalidation_branch =
  ib_nodeRef :: jstring
  ib_branchRevision :: int

text \<open>Requests, by their type: request, document epoch, node, branch revision, cursor.\<close>

datatype dom_request = DomGetRoot jstring "int option"
  | DomGetChildren jstring int jstring int "jstring option"
  | DomResolveLocator jstring stable_locator
  | DomSelect int jstring
  | DomHover int jstring
  | DomClearHover int

datatype dom_response = DomRoot jstring int dom_node_view "dom_node_view list" "dom_node_view list"
  | DomChildren jstring int jstring int "dom_node_view list" "jstring option"
  | DomLocator jstring int dom_node_view "dom_node_view list"
  | DomError "jstring option" "int option" dom_error_code

datatype dom_event = DomHoverChanged int "jstring option" "jstring option"
  | DomSelectionChanged int int jstring "dom_node_view list"
  | DomSelectionCleared int int jstring
  | DomInvalidated int "invalidation_branch list"

fun dom_error_text :: "dom_error_code \<Rightarrow> string" where
  "dom_error_text DomInvalidRequest = ''invalid-request''"
| "dom_error_text DomStaleDocument = ''stale-document''"
| "dom_error_text DomUnknownNode = ''unknown-node''"
| "dom_error_text DomStaleBranch = ''stale-branch''"
| "dom_error_text DomInvalidCursor = ''invalid-cursor''"
| "dom_error_text DomSessionDisposed = ''session-disposed''"
| "dom_error_text DomNodeUnavailable = ''node-unavailable''"
| "dom_error_text DomInternalError = ''internal-error''"

definition DOM_ERROR_CODES :: "dom_error_code list" where
  "DOM_ERROR_CODES = [DomInvalidRequest, DomStaleDocument, DomUnknownNode, DomStaleBranch,
     DomInvalidCursor, DomSessionDisposed, DomNodeUnavailable, DomInternalError]"

definition DOM_NODE_KINDS :: "node_kind list" where
  "DOM_NODE_KINDS = [KindDocumentType, KindElement, KindText, KindComment, KindShadowRoot, KindFrameDocument]"

definition DOM_RECOVERABLE_NODE_KINDS :: "node_kind list" where
  "DOM_RECOVERABLE_NODE_KINDS = [KindElement, KindShadowRoot, KindFrameDocument]"

fun nodeTypeForKind :: "node_kind \<Rightarrow> int" where
  "nodeTypeForKind KindElement = 1"
| "nodeTypeForKind KindText = 3"
| "nodeTypeForKind KindComment = 8"
| "nodeTypeForKind KindFrameDocument = 9"
| "nodeTypeForKind KindDocumentType = 10"
| "nodeTypeForKind KindShadowRoot = 11"

definition relationshipForKind :: "node_kind \<Rightarrow> relationship" where
  "relationshipForKind kind =
     (if kind = KindShadowRoot then RelShadowRoot
      else if kind = KindFrameDocument then RelFrameDocument else RelDom)"

fun relationship_text :: "relationship \<Rightarrow> string" where
  "relationship_text RelDom = ''dom''"
| "relationship_text RelShadowRoot = ''shadow-root''"
| "relationship_text RelFrameDocument = ''frame-document''"

subsection \<open>The data of a message\<close>

definition jint :: "int \<Rightarrow> json" where "jint n = JNum (JInt n)"

definition inspector_attribute_json :: "inspector_attribute \<Rightarrow> json" where
  "inspector_attribute_json a = object_of [(''name'', Some (JStr (ia_name a))), (''value'', Some (JStr (ia_value a)))]"

definition node_json :: "dom_node_view \<Rightarrow> json" where
  "node_json n = object_of
     [(''nodeRef'', Some (JStr (dn_nodeRef n))),
      (''kind'', Some (text_json (kind_text (dn_kind n)))),
      (''nodeType'', Some (jint (dn_nodeType n))),
      (''nodeName'', Some (JStr (dn_nodeName n))),
      (''nodeValue'', map_option JStr (dn_nodeValue n)),
      (''publicId'', map_option JStr (dn_publicId n)),
      (''systemId'', map_option JStr (dn_systemId n)),
      (''attributes'', Some (JArr (map inspector_attribute_json (dn_attributes n)))),
      (''childCount'', Some (jint (dn_childCount n))),
      (''relationship'', Some (text_json (relationship_text (dn_relationship n)))),
      (''selectable'', Some (JBool (dn_selectable n))),
      (''label'', Some (JStr (dn_label n))),
      (''expandable'', Some (JBool (dn_expandable n))),
      (''inaccessible'', map_option JBool (dn_inaccessible n)),
      (''branchRevision'', Some (jint (dn_branchRevision n))),
      (''locator'', map_option locator_json (dn_locator n))]"

definition nodes_json :: "dom_node_view list \<Rightarrow> json" where
  "nodes_json ns = JArr (map node_json ns)"

definition branch_json :: "invalidation_branch \<Rightarrow> json" where
  "branch_json b = object_of
     [(''nodeRef'', Some (JStr (ib_nodeRef b))), (''branchRevision'', Some (jint (ib_branchRevision b)))]"

fun dom_request_json :: "dom_request \<Rightarrow> json" where
  "dom_request_json (DomGetRoot rid epoch) = object_of
     [(''type'', Some (text_json ''dom.getRoot'')), (''requestId'', Some (JStr rid)),
      (''documentEpoch'', map_option jint epoch)]"
| "dom_request_json (DomGetChildren rid epoch node branch cursor) = object_of
     [(''type'', Some (text_json ''dom.getChildren'')), (''requestId'', Some (JStr rid)),
      (''documentEpoch'', Some (jint epoch)), (''nodeRef'', Some (JStr node)),
      (''branchRevision'', Some (jint branch)), (''cursor'', map_option JStr cursor)]"
| "dom_request_json (DomResolveLocator rid l) = object_of
     [(''type'', Some (text_json ''dom.resolveLocator'')), (''requestId'', Some (JStr rid)),
      (''locator'', Some (locator_json l))]"
| "dom_request_json (DomSelect epoch node) = object_of
     [(''type'', Some (text_json ''dom.select'')), (''documentEpoch'', Some (jint epoch)),
      (''nodeRef'', Some (JStr node))]"
| "dom_request_json (DomHover epoch node) = object_of
     [(''type'', Some (text_json ''dom.hover'')), (''documentEpoch'', Some (jint epoch)),
      (''nodeRef'', Some (JStr node))]"
| "dom_request_json (DomClearHover epoch) = object_of
     [(''type'', Some (text_json ''dom.clearHover'')), (''documentEpoch'', Some (jint epoch))]"

fun dom_response_json :: "dom_response \<Rightarrow> json" where
  "dom_response_json (DomRoot rid epoch node prologue epilogue) = object_of
     [(''type'', Some (text_json ''dom.root'')), (''requestId'', Some (JStr rid)),
      (''documentEpoch'', Some (jint epoch)), (''node'', Some (node_json node)),
      (''prologue'', Some (nodes_json prologue)), (''epilogue'', Some (nodes_json epilogue))]"
| "dom_response_json (DomChildren rid epoch node branch nodes cursor) = object_of
     [(''type'', Some (text_json ''dom.children'')), (''requestId'', Some (JStr rid)),
      (''documentEpoch'', Some (jint epoch)), (''nodeRef'', Some (JStr node)),
      (''branchRevision'', Some (jint branch)), (''nodes'', Some (nodes_json nodes)),
      (''nextCursor'', map_option JStr cursor)]"
| "dom_response_json (DomLocator rid epoch node path) = object_of
     [(''type'', Some (text_json ''dom.locator'')), (''requestId'', Some (JStr rid)),
      (''documentEpoch'', Some (jint epoch)), (''node'', Some (node_json node)),
      (''ancestorPath'', Some (nodes_json path))]"
| "dom_response_json (DomError rid epoch code) = object_of
     [(''type'', Some (text_json ''dom.error'')), (''requestId'', map_option JStr rid),
      (''documentEpoch'', map_option jint epoch), (''code'', Some (text_json (dom_error_text code)))]"

fun dom_event_json :: "dom_event \<Rightarrow> json" where
  "dom_event_json (DomHoverChanged epoch node summary) = object_of
     [(''type'', Some (text_json ''dom.hoverChanged'')), (''documentEpoch'', Some (jint epoch)),
      (''nodeRef'', map_option JStr node), (''summary'', map_option JStr summary)]"
| "dom_event_json (DomSelectionChanged epoch selection node path) = object_of
     [(''type'', Some (text_json ''dom.selectionChanged'')), (''documentEpoch'', Some (jint epoch)),
      (''selectionRevision'', Some (jint selection)), (''nodeRef'', Some (JStr node)),
      (''ancestorPath'', Some (nodes_json path))]"
| "dom_event_json (DomSelectionCleared epoch selection node) = object_of
     [(''type'', Some (text_json ''dom.selectionCleared'')), (''documentEpoch'', Some (jint epoch)),
      (''selectionRevision'', Some (jint selection)), (''nodeRef'', Some (JStr node))]"
| "dom_event_json (DomInvalidated epoch branches) = object_of
     [(''type'', Some (text_json ''dom.invalidated'')), (''documentEpoch'', Some (jint epoch)),
      (''branches'', Some (JArr (map branch_json branches)))]"

subsection \<open>The byte budget\<close>

definition domProtocolEnvelopeWithinBudget :: "nat \<Rightarrow> json \<Rightarrow> bool" where
  "domProtocolEnvelopeWithinBudget maximumBytes value \<longleftrightarrow> utf8ByteLength (json_text value) \<le> maximumBytes"

text \<open>\<^verbatim>\<open>freeze\<close>: a part or message that is too large is refused.\<close>

definition assertSerializedMessageBudget :: "json \<Rightarrow> unit option" where
  "assertSerializedMessageBudget value = guard (domProtocolEnvelopeWithinBudget DOM_MAX_SERIALIZED_BYTES value)"

definition truncateDomProtocolUtf16 :: "jstring \<Rightarrow> nat \<Rightarrow> jstring" where
  "truncateDomProtocolUtf16 value maximumLength =
     (if length value \<le> maximumLength then value
      else let result = take maximumLength value in
        if result \<noteq> [] \<and> high_surrogate (last result) then butlast result else result)"

subsection \<open>Reading\<close>

definition own_data :: "js_property list \<Rightarrow> (js_key \<times> js_value) list option" where
  "own_data ds = those (map (\<lambda>(key, _, v). map_option (Pair key) v) ds)"

text \<open>\<^verbatim>\<open>length\<close> is the last own property of an array.\<close>

fun snapshotOwnDataProperties :: "js_value \<Rightarrow> bool \<Rightarrow> nat \<Rightarrow> (js_key \<times> js_value) list option" where
  "snapshotOwnDataProperties (VObject p ds) array maximum =
     (if array \<or> length ds > maximum then None else own_data ds)"
| "snapshotOwnDataProperties (VArray len ds) array maximum =
     (let ds' = ds @ [(StrKey (js ''length''), False, Some (VNum (JInt (int len))))] in
      if \<not> array \<or> length ds' > maximum then None else own_data ds')"
| "snapshotOwnDataProperties _ array maximum = None"

fun dom_fields :: "string list \<Rightarrow> (js_key \<times> js_value) list \<Rightarrow> data_record option" where
  "dom_fields allowed [] = Some []"
| "dom_fields allowed ((key, v) # rest) =
     (case key of
        SymKey \<Rightarrow> None
      | StrKey k \<Rightarrow> if k \<in> set (map js allowed) then map_option (Cons (k, v)) (dom_fields allowed rest) else None)"

definition snapshotRecord :: "js_value \<Rightarrow> string list \<Rightarrow> nat \<Rightarrow> data_record option" where
  "snapshotRecord value allowedKeys maximum = do {
     properties \<leftarrow> snapshotOwnDataProperties value False maximum;
     dom_fields allowedKeys properties }"

definition assertKeys :: "data_record \<Rightarrow> string list \<Rightarrow> string list \<Rightarrow> unit option" where
  "assertKeys r allowedKeys requiredKeys =
     guard (list_all (\<lambda>k. k \<in> set (map js allowedKeys)) (map fst r) \<and> list_all (has_own r) requiredKeys)"

definition isCanonicalArrayIndex :: "jstring \<Rightarrow> nat \<Rightarrow> bool" where
  "isCanonicalArrayIndex key len \<longleftrightarrow> key \<in> set (map decimal [0..<len])"

text \<open>The item at each index, once every other key is known to be an index.\<close>

definition dom_array :: "nat \<Rightarrow> js_value \<Rightarrow> js_value list option" where
  "dom_array maximumLength value = do {
     properties \<leftarrow> snapshotOwnDataProperties value True (maximumLength + 1);
     len \<leftarrow> (case map_of properties (StrKey (js ''length'')) of
        Some (VNum (JInt n)) \<Rightarrow> if safe_int n \<and> 0 \<le> n \<and> n \<le> int maximumLength then Some (nat n) else None
      | _ \<Rightarrow> None);
     guard (length properties = len + 1);
     guard (list_all (\<lambda>(key, _). key = StrKey (js ''length'') \<or>
       (case key of SymKey \<Rightarrow> False | StrKey k \<Rightarrow> isCanonicalArrayIndex k len)) properties);
     those (map (\<lambda>i. map_of properties (StrKey (decimal i))) [0..<len]) }"

definition dom_identifier :: "js_value \<Rightarrow> jstring option" where
  "dom_identifier = bounded_text DOM_MAX_IDENTIFIER_LENGTH True"

definition assertDomErrorCode :: "js_value \<Rightarrow> dom_error_code option" where
  "assertDomErrorCode v = List.find (\<lambda>c. v = VStr (js (dom_error_text c))) DOM_ERROR_CODES"

text \<open>An array of parsed items, which is frozen too.\<close>

definition parseBoundedArray :: "nat \<Rightarrow> (js_value \<Rightarrow> 'a option) \<Rightarrow> ('a \<Rightarrow> json) \<Rightarrow> js_value \<Rightarrow> 'a list option" where
  "parseBoundedArray maximumLength parseItem item_json value = do {
     items \<leftarrow> dom_array maximumLength value;
     parsed \<leftarrow> parse_items parseItem items;
     assertSerializedMessageBudget (JArr (map item_json parsed));
     Some parsed }"

subsection \<open>Nodes\<close>

definition parseInspectorAttribute :: "js_value \<Rightarrow> inspector_attribute option" where
  "parseInspectorAttribute value = do {
     r \<leftarrow> snapshotRecord value [''name'', ''value''] 2;
     assertKeys r [''name'', ''value''] [''name'', ''value''];
     name \<leftarrow> bounded_text DOM_MAX_ATTRIBUTE_NAME_LENGTH True (property r ''name'');
     v \<leftarrow> bounded_text DOM_MAX_ATTRIBUTE_VALUE_LENGTH False (property r ''value'');
     let a = \<lparr>ia_name = name, ia_value = v\<rparr>;
     assertSerializedMessageBudget (inspector_attribute_json a);
     Some a }"

definition DOM_NODE_VIEW_KEYS :: "string list" where
  "DOM_NODE_VIEW_KEYS = [''nodeRef'', ''kind'', ''nodeType'', ''nodeName'', ''nodeValue'', ''publicId'',
     ''systemId'', ''attributes'', ''childCount'', ''relationship'', ''selectable'', ''label'',
     ''expandable'', ''inaccessible'', ''branchRevision'', ''locator'']"

definition DOM_NODE_VIEW_REQUIRED :: "string list" where
  "DOM_NODE_VIEW_REQUIRED = [''nodeRef'', ''kind'', ''nodeType'', ''nodeName'', ''attributes'', ''childCount'',
     ''relationship'', ''selectable'', ''label'', ''expandable'', ''branchRevision'']"

definition parseNodeView :: "js_value \<Rightarrow> dom_node_view option" where
  "parseNodeView value = do {
     r \<leftarrow> snapshotRecord value DOM_NODE_VIEW_KEYS DOM_NODE_VIEW_MAX_PROPERTIES;
     assertKeys r DOM_NODE_VIEW_KEYS DOM_NODE_VIEW_REQUIRED;
     kind \<leftarrow> kind_in DOM_NODE_KINDS (property r ''kind'');
     let expectedNodeType = nodeTypeForKind kind;
     let expectedRelationship = relationshipForKind kind;
     guard (property r ''nodeType'' = VNum (JInt expectedNodeType));
     guard (property r ''relationship'' = VStr (js (relationship_text expectedRelationship)));
     selectable \<leftarrow> is_boolean (property r ''selectable'');
     guard (\<not> (kind \<noteq> KindElement \<and> selectable));
     guard (\<not> (has_own r ''inaccessible'' \<and> kind \<noteq> KindElement));
     guard (\<not> (property r ''inaccessible'' = VBool True \<and> selectable));
     guard (\<not> ((kind = KindDocumentType \<or> kind = KindText \<or> kind = KindComment) \<and>
       property r ''expandable'' \<noteq> VBool False));
     expandable \<leftarrow> is_boolean (property r ''expandable'');
     guard (\<not> (kind \<notin> set DOM_RECOVERABLE_NODE_KINDS \<and> has_own r ''locator''));
     locator \<leftarrow> own_part r ''locator'' parseDomStableLocator;
     guard (\<not> (case locator of None \<Rightarrow> False | Some l \<Rightarrow> sl_targetKind l \<noteq> kind));
     guard (\<not> (kind \<noteq> KindDocumentType \<and> (has_own r ''publicId'' \<or> has_own r ''systemId'')));
     guard (\<not> (\<not> (kind = KindText \<or> kind = KindComment) \<and> has_own r ''nodeValue''));
     attributes \<leftarrow> parseBoundedArray DOM_MAX_ATTRIBUTES parseInspectorAttribute inspector_attribute_json
       (property r ''attributes'');
     guard (\<not> (kind \<noteq> KindElement \<and> length attributes > 0));
     nodeRef \<leftarrow> dom_identifier (property r ''nodeRef'');
     guard (\<not> starts_with DOM_RESERVED_NODE_REF_PREFIX nodeRef);
     nodeName \<leftarrow> bounded_text DOM_MAX_ATTRIBUTE_NAME_LENGTH True (property r ''nodeName'');
     nodeValue \<leftarrow> own_part r ''nodeValue'' (bounded_text DOM_MAX_NODE_VALUE_LENGTH False);
     publicId \<leftarrow> own_part r ''publicId'' (bounded_text DOM_MAX_DOCTYPE_ID_LENGTH False);
     systemId \<leftarrow> own_part r ''systemId'' (bounded_text DOM_MAX_DOCTYPE_ID_LENGTH False);
     childCount \<leftarrow> nonneg_integer (property r ''childCount'');
     label \<leftarrow> bounded_text DOM_MAX_LABEL_LENGTH True (property r ''label'');
     inaccessible \<leftarrow> own_part r ''inaccessible'' is_boolean;
     branchRevision \<leftarrow> nonneg_integer (property r ''branchRevision'');
     let view = \<lparr>dn_nodeRef = nodeRef, dn_kind = kind, dn_nodeType = expectedNodeType, dn_nodeName = nodeName,
       dn_nodeValue = nodeValue, dn_publicId = publicId, dn_systemId = systemId,
       dn_attributes = attributes, dn_childCount = childCount, dn_relationship = expectedRelationship,
       dn_selectable = selectable, dn_label = label, dn_expandable = expandable,
       dn_inaccessible = inaccessible, dn_branchRevision = branchRevision, dn_locator = locator\<rparr>;
     assertSerializedMessageBudget (node_json view);
     Some view }"

definition parseNodeViews :: "nat \<Rightarrow> js_value \<Rightarrow> dom_node_view list option" where
  "parseNodeViews maximum = parseBoundedArray maximum parseNodeView node_json"

text \<open>\<^verbatim>\<open>position === "prologue"\<close>\<close>

definition parseRootAuxiliaryViews :: "js_value \<Rightarrow> bool \<Rightarrow> dom_node_view list option" where
  "parseRootAuxiliaryViews value prologue = do {
     views \<leftarrow> parseNodeViews DOM_MAX_ROOT_AUXILIARY_ROWS value;
     guard (list_all (\<lambda>view. dn_kind view = KindComment \<or> prologue \<and> dn_kind view = KindDocumentType) views);
     Some views }"

text \<open>\<^verbatim>\<open>context === "selection"\<close>\<close>

definition parseRecoverableAncestorPath :: "js_value \<Rightarrow> bool \<Rightarrow> dom_node_view list option" where
  "parseRecoverableAncestorPath value selection = do {
     path \<leftarrow> parseNodeViews DOM_MAX_ANCESTOR_PATH_LENGTH value;
     guard (path \<noteq> []);
     guard (dn_locator (last path) \<noteq> None);
     guard (dn_kind (hd path) = KindElement);
     guard (distinct (map dn_nodeRef path));
     guard (list_all (\<lambda>view. dn_kind view \<in> set DOM_RECOVERABLE_NODE_KINDS) path);
     guard (\<not> (selection \<and> (dn_kind (last path) \<noteq> KindElement \<or> \<not> dn_selectable (last path) \<or>
       dn_inaccessible (last path) = Some True)));
     Some path }"

definition sameDomNodeView :: "dom_node_view \<Rightarrow> dom_node_view \<Rightarrow> bool" where
  "sameDomNodeView left right \<longleftrightarrow> json_text (node_json left) = json_text (node_json right)"

definition parseInvalidationBranch :: "js_value \<Rightarrow> invalidation_branch option" where
  "parseInvalidationBranch value = do {
     r \<leftarrow> snapshotRecord value [''nodeRef'', ''branchRevision''] 2;
     assertKeys r [''nodeRef'', ''branchRevision''] [''nodeRef'', ''branchRevision''];
     nodeRef \<leftarrow> dom_identifier (property r ''nodeRef'');
     branchRevision \<leftarrow> nonneg_integer (property r ''branchRevision'');
     let b = \<lparr>ib_nodeRef = nodeRef, ib_branchRevision = branchRevision\<rparr>;
     assertSerializedMessageBudget (branch_json b);
     Some b }"

definition parseInvalidationBranches :: "js_value \<Rightarrow> invalidation_branch list option" where
  "parseInvalidationBranches = parseBoundedArray DOM_MAX_INVALIDATION_BRANCHES parseInvalidationBranch branch_json"

subsection \<open>Parsers of messages\<close>

definition frozen :: "('a \<Rightarrow> json) \<Rightarrow> 'a \<Rightarrow> 'a option" where
  "frozen to_json x = do { assertSerializedMessageBudget (to_json x); Some x }"

definition DOM_REQUEST_KEYS :: "string list" where
  "DOM_REQUEST_KEYS = [''type'', ''requestId'', ''documentEpoch'', ''nodeRef'', ''branchRevision'', ''cursor'', ''locator'']"

definition parseDomRequest :: "js_value \<Rightarrow> dom_request option" where
  "parseDomRequest value = do {
     r \<leftarrow> snapshotRecord value DOM_REQUEST_KEYS DOM_REQUEST_MAX_PROPERTIES;
     let kind = property r ''type'';
     if kind = VStr (js ''dom.getRoot'') then do {
       assertKeys r [''type'', ''requestId'', ''documentEpoch''] [''type'', ''requestId''];
       requestId \<leftarrow> dom_identifier (property r ''requestId'');
       epoch \<leftarrow> own_part r ''documentEpoch'' nonneg_integer;
       frozen dom_request_json (DomGetRoot requestId epoch) }
     else if kind = VStr (js ''dom.getChildren'') then do {
       assertKeys r [''type'', ''requestId'', ''documentEpoch'', ''nodeRef'', ''branchRevision'', ''cursor'']
         [''type'', ''requestId'', ''documentEpoch'', ''nodeRef'', ''branchRevision''];
       requestId \<leftarrow> dom_identifier (property r ''requestId'');
       epoch \<leftarrow> nonneg_integer (property r ''documentEpoch'');
       nodeRef \<leftarrow> dom_identifier (property r ''nodeRef'');
       branch \<leftarrow> nonneg_integer (property r ''branchRevision'');
       cursor \<leftarrow> own_part r ''cursor'' dom_identifier;
       frozen dom_request_json (DomGetChildren requestId epoch nodeRef branch cursor) }
     else if kind = VStr (js ''dom.resolveLocator'') then do {
       assertKeys r [''type'', ''requestId'', ''locator''] [''type'', ''requestId'', ''locator''];
       requestId \<leftarrow> dom_identifier (property r ''requestId'');
       locator \<leftarrow> parseDomStableLocator (property r ''locator'');
       frozen dom_request_json (DomResolveLocator requestId locator) }
     else if kind = VStr (js ''dom.select'') \<or> kind = VStr (js ''dom.hover'') then do {
       assertKeys r [''type'', ''documentEpoch'', ''nodeRef''] [''type'', ''documentEpoch'', ''nodeRef''];
       epoch \<leftarrow> nonneg_integer (property r ''documentEpoch'');
       nodeRef \<leftarrow> dom_identifier (property r ''nodeRef'');
       frozen dom_request_json (if kind = VStr (js ''dom.select'') then DomSelect epoch nodeRef else DomHover epoch nodeRef) }
     else if kind = VStr (js ''dom.clearHover'') then do {
       assertKeys r [''type'', ''documentEpoch''] [''type'', ''documentEpoch''];
       epoch \<leftarrow> nonneg_integer (property r ''documentEpoch'');
       frozen dom_request_json (DomClearHover epoch) }
     else None }"

definition DOM_RESPONSE_KEYS :: "string list" where
  "DOM_RESPONSE_KEYS = [''type'', ''requestId'', ''documentEpoch'', ''nodeRef'', ''branchRevision'', ''node'', ''nodes'',
     ''nextCursor'', ''ancestorPath'', ''code'', ''prologue'', ''epilogue'']"

definition parse_dom_root :: "data_record \<Rightarrow> dom_response option" where
  "parse_dom_root r = do {
     let keys = [''type'', ''requestId'', ''documentEpoch'', ''node'', ''prologue'', ''epilogue''];
     assertKeys r keys keys;
     node \<leftarrow> parseNodeView (property r ''node'');
     guard (dn_kind node = KindElement);
     prologue \<leftarrow> parseRootAuxiliaryViews (property r ''prologue'') True;
     epilogue \<leftarrow> parseRootAuxiliaryViews (property r ''epilogue'') False;
     guard (\<not> length prologue + length epilogue > DOM_MAX_ROOT_AUXILIARY_ROWS);
     guard (distinct (map dn_nodeRef prologue @ dn_nodeRef node # map dn_nodeRef epilogue));
     requestId \<leftarrow> dom_identifier (property r ''requestId'');
     epoch \<leftarrow> nonneg_integer (property r ''documentEpoch'');
     frozen dom_response_json (DomRoot requestId epoch node prologue epilogue) }"

definition parse_dom_children :: "data_record \<Rightarrow> dom_response option" where
  "parse_dom_children r = do {
     assertKeys r [''type'', ''requestId'', ''documentEpoch'', ''nodeRef'', ''branchRevision'', ''nodes'', ''nextCursor'']
       [''type'', ''requestId'', ''documentEpoch'', ''nodeRef'', ''branchRevision'', ''nodes''];
     requestId \<leftarrow> dom_identifier (property r ''requestId'');
     epoch \<leftarrow> nonneg_integer (property r ''documentEpoch'');
     nodeRef \<leftarrow> dom_identifier (property r ''nodeRef'');
     branch \<leftarrow> nonneg_integer (property r ''branchRevision'');
     nodes \<leftarrow> parseNodeViews DOM_MAX_CHILDREN_PAGE_LENGTH (property r ''nodes'');
     cursor \<leftarrow> own_part r ''nextCursor'' dom_identifier;
     frozen dom_response_json (DomChildren requestId epoch nodeRef branch nodes cursor) }"

definition parse_dom_locator :: "data_record \<Rightarrow> dom_response option" where
  "parse_dom_locator r = do {
     let keys = [''type'', ''requestId'', ''documentEpoch'', ''node'', ''ancestorPath''];
     assertKeys r keys keys;
     node \<leftarrow> parseNodeView (property r ''node'');
     path \<leftarrow> parseRecoverableAncestorPath (property r ''ancestorPath'') False;
     guard (sameDomNodeView node (last path));
     requestId \<leftarrow> dom_identifier (property r ''requestId'');
     epoch \<leftarrow> nonneg_integer (property r ''documentEpoch'');
     frozen dom_response_json (DomLocator requestId epoch node path) }"

definition parse_dom_error :: "data_record \<Rightarrow> dom_response option" where
  "parse_dom_error r = do {
     assertKeys r [''type'', ''requestId'', ''documentEpoch'', ''code''] [''type'', ''code''];
     requestId \<leftarrow> own_part r ''requestId'' dom_identifier;
     epoch \<leftarrow> own_part r ''documentEpoch'' nonneg_integer;
     code \<leftarrow> assertDomErrorCode (property r ''code'');
     frozen dom_response_json (DomError requestId epoch code) }"

definition parseDomResponse :: "js_value \<Rightarrow> dom_response option" where
  "parseDomResponse value = do {
     r \<leftarrow> snapshotRecord value DOM_RESPONSE_KEYS DOM_RESPONSE_MAX_PROPERTIES;
     let kind = property r ''type'';
     if kind = VStr (js ''dom.root'') then parse_dom_root r
     else if kind = VStr (js ''dom.children'') then parse_dom_children r
     else if kind = VStr (js ''dom.locator'') then parse_dom_locator r
     else if kind = VStr (js ''dom.error'') then parse_dom_error r
     else None }"

definition DOM_EVENT_KEYS :: "string list" where
  "DOM_EVENT_KEYS = [''type'', ''documentEpoch'', ''selectionRevision'', ''nodeRef'', ''summary'', ''ancestorPath'', ''branches'']"

definition parseDomEvent :: "js_value \<Rightarrow> dom_event option" where
  "parseDomEvent value = do {
     r \<leftarrow> snapshotRecord value DOM_EVENT_KEYS DOM_EVENT_MAX_PROPERTIES;
     let kind = property r ''type'';
     if kind = VStr (js ''dom.hoverChanged'') then do {
       assertKeys r [''type'', ''documentEpoch'', ''nodeRef'', ''summary''] [''type'', ''documentEpoch''];
       epoch \<leftarrow> nonneg_integer (property r ''documentEpoch'');
       nodeRef \<leftarrow> own_part r ''nodeRef'' dom_identifier;
       summary \<leftarrow> own_part r ''summary'' (bounded_text DOM_MAX_SUMMARY_LENGTH True);
       frozen dom_event_json (DomHoverChanged epoch nodeRef summary) }
     else if kind = VStr (js ''dom.selectionChanged'') then do {
       let keys = [''type'', ''documentEpoch'', ''selectionRevision'', ''nodeRef'', ''ancestorPath''];
       assertKeys r keys keys;
       nodeRef \<leftarrow> dom_identifier (property r ''nodeRef'');
       path \<leftarrow> parseRecoverableAncestorPath (property r ''ancestorPath'') True;
       guard (dn_nodeRef (last path) = nodeRef);
       epoch \<leftarrow> nonneg_integer (property r ''documentEpoch'');
       selection \<leftarrow> nonneg_integer (property r ''selectionRevision'');
       frozen dom_event_json (DomSelectionChanged epoch selection nodeRef path) }
     else if kind = VStr (js ''dom.selectionCleared'') then do {
       let keys = [''type'', ''documentEpoch'', ''selectionRevision'', ''nodeRef''];
       assertKeys r keys keys;
       epoch \<leftarrow> nonneg_integer (property r ''documentEpoch'');
       selection \<leftarrow> nonneg_integer (property r ''selectionRevision'');
       nodeRef \<leftarrow> dom_identifier (property r ''nodeRef'');
       frozen dom_event_json (DomSelectionCleared epoch selection nodeRef) }
     else if kind = VStr (js ''dom.invalidated'') then do {
       let keys = [''type'', ''documentEpoch'', ''branches''];
       assertKeys r keys keys;
       epoch \<leftarrow> nonneg_integer (property r ''documentEpoch'');
       branches \<leftarrow> parseInvalidationBranches (property r ''branches'');
       frozen dom_event_json (DomInvalidated epoch branches) }
     else None }"

subsection \<open>Which response answers which request\<close>

fun dom_request_id :: "dom_request \<Rightarrow> jstring option" where
  "dom_request_id (DomGetRoot rid _) = Some rid"
| "dom_request_id (DomGetChildren rid _ _ _ _) = Some rid"
| "dom_request_id (DomResolveLocator rid _) = Some rid"
| "dom_request_id _ = None"

fun dom_request_epoch :: "dom_request \<Rightarrow> int option" where
  "dom_request_epoch (DomGetRoot _ epoch) = epoch"
| "dom_request_epoch (DomGetChildren _ epoch _ _ _) = Some epoch"
| "dom_request_epoch (DomResolveLocator _ _) = None"
| "dom_request_epoch (DomSelect epoch _) = Some epoch"
| "dom_request_epoch (DomHover epoch _) = Some epoch"
| "dom_request_epoch (DomClearHover epoch) = Some epoch"

fun dom_response_id :: "dom_response \<Rightarrow> jstring option" where
  "dom_response_id (DomRoot rid _ _ _ _) = Some rid"
| "dom_response_id (DomChildren rid _ _ _ _ _) = Some rid"
| "dom_response_id (DomLocator rid _ _ _) = Some rid"
| "dom_response_id (DomError rid _ _) = rid"

fun isDomResponseForRequest :: "dom_request \<Rightarrow> dom_response \<Rightarrow> bool" where
  "isDomResponseForRequest request (DomError rid epoch code) =
     (dom_request_id request \<noteq> None \<and> rid = dom_request_id request \<and>
      (dom_request_epoch request = None \<or> epoch = None \<or> epoch = dom_request_epoch request))"
| "isDomResponseForRequest (DomGetRoot rid epoch) (DomRoot rid' epoch' _ _ _) =
     (rid' = rid \<and> (epoch = None \<or> epoch = Some epoch'))"
| "isDomResponseForRequest (DomGetChildren rid epoch node branch _) (DomChildren rid' epoch' node' branch' _ _) =
     (rid' = rid \<and> epoch' = epoch \<and> node' = node \<and> branch' = branch)"
| "isDomResponseForRequest (DomResolveLocator rid _) (DomLocator rid' _ _ _) = (rid' = rid)"
| "isDomResponseForRequest _ _ = False"

subsection \<open>Fitting a path into a message\<close>

text \<open>The copy of a node for sending: a locator is parsed again, and a broken one throws.\<close>

definition snapshotDomNodeViewForEgress :: "dom_node_view \<Rightarrow> dom_node_view option" where
  "snapshotDomNodeViewForEgress node =
     (case dn_locator node of None \<Rightarrow> Some node
      | Some l \<Rightarrow> map_option (\<lambda>l'. node\<lparr>dn_locator := Some l'\<rparr>) (parseDomStableLocator (plain (locator_json l))))"

text \<open>\<open>None\<close> where the code returns the same node.\<close>

definition reduceDomNodeViewPresentationSnapshot :: "dom_node_view \<Rightarrow> dom_node_view option" where
  "reduceDomNodeViewPresentationSnapshot node =
     (if length (dn_attributes node) > 0 then Some (node\<lparr>dn_attributes := []\<rparr>)
      else if dn_nodeValue node \<noteq> None then Some (node\<lparr>dn_nodeValue := None\<rparr>)
      else if dn_systemId node \<noteq> None then Some (node\<lparr>dn_systemId := None\<rparr>)
      else if dn_publicId node \<noteq> None then Some (node\<lparr>dn_publicId := None\<rparr>)
      else None)"

definition removeDomNodeViewLocator :: "dom_node_view \<Rightarrow> dom_node_view option" where
  "removeDomNodeViewLocator node =
     (if dn_locator node \<noteq> None then Some (node\<lparr>dn_locator := None\<rparr>) else None)"

text \<open>The loops from the last node to the first that change the first node they can.\<close>

fun change_last :: "('a \<Rightarrow> 'a option) \<Rightarrow> 'a list \<Rightarrow> 'a list option" where
  "change_last f [] = None"
| "change_last f (x # xs) =
     (case change_last f xs of
        Some xs' \<Rightarrow> Some (x # xs')
      | None \<Rightarrow> map_option (\<lambda>x'. x' # xs) (f x))"

definition next_reduction :: "bool \<Rightarrow> dom_node_view list \<Rightarrow> dom_node_view list option" where
  "next_reduction requireTargetLocator bounded =
     (case change_last reduceDomNodeViewPresentationSnapshot bounded of
        Some bounded' \<Rightarrow> Some bounded'
      | None \<Rightarrow>
          if requireTargetLocator
          then map_option (\<lambda>front. front @ [last bounded]) (change_last removeDomNodeViewLocator (butlast bounded))
          else change_last removeDomNodeViewLocator bounded)"

definition node_weight :: "dom_node_view \<Rightarrow> nat" where
  "node_weight n = (if dn_attributes n = [] then 0 else 1) + (if dn_nodeValue n = None then 0 else 1) +
     (if dn_systemId n = None then 0 else 1) + (if dn_publicId n = None then 0 else 1) +
     (if dn_locator n = None then 0 else 1)"

definition path_weight :: "dom_node_view list \<Rightarrow> nat" where
  "path_weight ns = sum_list (map node_weight ns)"

lemma change_last_weight:
  assumes "\<And>x x'. f x = Some x' \<Longrightarrow> node_weight x' < node_weight x"
  shows "change_last f xs = Some xs' \<Longrightarrow> path_weight xs' < path_weight xs"
  by (induction xs arbitrary: xs') (auto simp: path_weight_def assms split: option.splits)

lemma reduce_weight: "reduceDomNodeViewPresentationSnapshot x = Some x' \<Longrightarrow> node_weight x' < node_weight x"
  by (auto simp: reduceDomNodeViewPresentationSnapshot_def node_weight_def split: if_splits)

lemma remove_weight: "removeDomNodeViewLocator x = Some x' \<Longrightarrow> node_weight x' < node_weight x"
  by (auto simp: removeDomNodeViewLocator_def node_weight_def split: if_splits)

lemma next_reduction_weight:
  assumes "next_reduction t xs = Some xs'" shows "path_weight xs' < path_weight xs"
proof (cases "change_last reduceDomNodeViewPresentationSnapshot xs")
  case (Some ys)
  then show ?thesis using assms change_last_weight [OF reduce_weight Some] by (simp add: next_reduction_def)
next
  case none: None
  show ?thesis
  proof (cases t)
    case True
    then obtain front where f: "change_last removeDomNodeViewLocator (butlast xs) = Some front"
        "xs' = front @ [last xs]"
      using assms none by (auto simp: next_reduction_def)
    then have "xs \<noteq> []" by auto
    then have "path_weight xs = path_weight (butlast xs) + node_weight (last xs)"
      by (cases xs rule: rev_cases) (simp_all add: path_weight_def)
    then show ?thesis using change_last_weight [OF remove_weight f(1)] f(2) by (simp add: path_weight_def)
  next
    case False
    then show ?thesis using assms none change_last_weight [OF remove_weight]
      by (simp add: next_reduction_def)
  qed
qed

function reduce_path :: "bool \<Rightarrow> (dom_node_view list \<Rightarrow> json) \<Rightarrow> dom_node_view list \<Rightarrow> dom_node_view list option" where
  "reduce_path requireTargetLocator envelope bounded =
     (if domProtocolEnvelopeWithinBudget DOM_MAX_SERIALIZED_BYTES (envelope bounded) then Some bounded
      else (case next_reduction requireTargetLocator bounded of
          None \<Rightarrow> None
        | Some bounded' \<Rightarrow> reduce_path requireTargetLocator envelope bounded'))"
  by pat_completeness auto
termination
  by (relation "measure (\<lambda>(_, _, bounded). path_weight bounded)") (auto dest: next_reduction_weight)

declare reduce_path.simps [simp del]

definition boundDomNodeViewPathForEnvelope ::
  "dom_node_view list \<Rightarrow> (dom_node_view list \<Rightarrow> json) \<Rightarrow> bool \<Rightarrow> dom_node_view list option" where
  "boundDomNodeViewPathForEnvelope views envelope requireTargetLocator = do {
     bounded \<leftarrow> those (map snapshotDomNodeViewForEgress views);
     guard (bounded \<noteq> []);
     guard (\<not> length bounded > DOM_MAX_ANCESTOR_PATH_LENGTH);
     guard (\<not> (requireTargetLocator \<and> dn_locator (last bounded) = None));
     reduce_path requireTargetLocator envelope bounded }"

end
