(* ===== verification/Dom_Theorems.thy ===== *)
theory Dom_Theorems
  imports Dom_Protocol
begin

text \<open>
  What the parsers of DOM messages accept: exactly the well-formed messages, which they read back
  unchanged; and how a path of nodes is made to fit into a message.
\<close>

subsection \<open>Reading what was sent\<close>

lemma own_data_plain: "own_data (map (\<lambda>f. (StrKey (fst f), True, Some (snd f))) r) = Some (map (\<lambda>f. (StrKey (fst f), snd f)) r)"
  by (simp add: own_data_def comp_def those_map_Some)

lemma dom_fields_plain: "dom_fields allowed (map (\<lambda>f. (StrKey (fst f), snd f)) r) =
    (if list_all (\<lambda>k. k \<in> set (map js allowed)) (map fst r) then Some r else None)"
  by (induction r) auto

definition known_keys :: "string list \<Rightarrow> data_record \<Rightarrow> bool" where
  "known_keys allowed r = list_all (\<lambda>k. k \<in> set (map js allowed)) (map fst r)"

lemma known_fields [simp]:
  "known_keys allowed (data_fields [])"
  "known_keys allowed (data_fields ((k, v) # ms)) = ((v \<noteq> None \<longrightarrow> k \<in> set allowed) \<and> known_keys allowed (data_fields ms))"
  by (auto simp: known_keys_def data_fields_def split: option.split)

lemma snapshot_record_plain: "snapshotRecord (plain (object_of ms)) allowed maximum =
    (if length (data_fields ms) \<le> maximum \<and> known_keys allowed (data_fields ms) then Some (data_fields ms) else None)"
  by (simp add: snapshotRecord_def plain_object own_data_plain dom_fields_plain known_keys_def)

lemma assert_keys_eq: "assertKeys r allowed required = guard (known_keys allowed r \<and> list_all (has_own r) required)"
  by (simp add: assertKeys_def known_keys_def)

lemma dom_array_plain: "int m < 2 ^ 53 \<Longrightarrow> dom_array m (plain (JArr xs)) = (if length xs \<le> m then Some (map plain xs) else None)"
proof -
  assume m: "int m < 2 ^ 53"
  define ds where "ds = zip (map (\<lambda>i. StrKey (decimal i)) [0..<length xs]) (map plain xs)"
  define ps where "ps = ds @ [(StrKey (js ''length''), VNum (JInt (int (length xs))))]"
  have zip: "zip (map (\<lambda>i. StrKey (decimal i)) [0..<length xs]) (map (\<lambda>x. (True, Some (plain x))) xs) =
      map (\<lambda>(k, v). (k, True, Some v)) ds"
    unfolding ds_def by (simp add: zip_map2 zip_map1 comp_def split_def)
  have own: "own_data (map (\<lambda>(k, v). (k, True, Some v)) ds @ [(StrKey (js ''length''), False, Some v)]) =
      Some (ds @ [(StrKey (js ''length''), v)])" for v
  proof -
    have "own_data (map (\<lambda>(k, v). (k, True, Some v)) es @ [(StrKey (js ''length''), False, Some v)]) =
        Some (es @ [(StrKey (js ''length''), v)])" for es :: "(js_key \<times> js_value) list"
      by (induction es) (auto simp: own_data_def)
    then show ?thesis .
  qed
  have props: "snapshotOwnDataProperties (plain (JArr xs)) True (m + 1) = (if length xs \<le> m then Some ps else None)"
    by (simp add: zip own ps_def Let_def) (simp add: ds_def)
  have notlen: "js ''length'' \<noteq> decimal i" for i
  proof
    assume "js ''length'' = decimal i"
    then have "unit_of_char CHR ''l'' \<in> set (decimal i)" by (simp flip: \<open>js ''length'' = decimal i\<close> add: js_def)
    then show False using decimal_digits [of i] by (auto simp: unit_of_char_def is_digit_def)
  qed
  have none: "map_of ds (StrKey (js ''length'')) = None"
    unfolding ds_def by (auto simp: map_of_eq_None_iff in_set_zip notlen notlen [symmetric])
  have len: "map_of ps (StrKey (js ''length'')) = Some (VNum (JInt (int (length xs))))"
    using none by (simp add: ps_def map_add_def)
  have item: "map_of ps (StrKey (decimal i)) = Some (plain (xs ! i))" if "i < length xs" for i
  proof -
    have "map_of ds (StrKey (decimal i)) = Some (plain (xs ! i))"
      using that map_of_zip_nth [of "map (\<lambda>i. StrKey (decimal i)) [0..<length xs]" "map plain xs" i]
      by (simp add: ds_def distinct_map inj_on_def)
    then show ?thesis using notlen [of i] by (simp add: ps_def map_add_def)
  qed
  have keys: "list_all (\<lambda>(key, _). key = StrKey (js ''length'') \<or>
      (case key of SymKey \<Rightarrow> False | StrKey k \<Rightarrow> isCanonicalArrayIndex k (length xs))) ps"
    by (auto simp: ps_def ds_def list_all_iff in_set_zip isCanonicalArrayIndex_def)
  have items: "those (map (\<lambda>i. map_of ps (StrKey (decimal i))) [0..<length xs]) = Some (map plain xs)"
  proof -
    have "map (\<lambda>i. map_of ps (StrKey (decimal i))) [0..<length xs] = map (\<lambda>i. Some (plain (xs ! i))) [0..<length xs]"
      using item by simp
    then show ?thesis using those_map_Some [of "\<lambda>i. plain (xs ! i)" "[0..<length xs]"] by (simp only: plain_nth)
  qed
  have "length ps = length xs + 1" by (simp add: ps_def ds_def)
  then show ?thesis unfolding dom_array_def props using len keys items m
    by (cases "length xs \<le> m") (simp_all add: guard_def safe_int_def)
qed

subsection \<open>Messages that are accepted\<close>

abbreviation budget :: "json \<Rightarrow> bool" where
  "budget \<equiv> domProtocolEnvelopeWithinBudget DOM_MAX_SERIALIZED_BYTES"

definition id_ok :: "jstring \<Rightarrow> bool" where
  "id_ok t \<longleftrightarrow> t \<noteq> [] \<and> length t \<le> DOM_MAX_IDENTIFIER_LENGTH"

definition inspector_attribute_ok :: "inspector_attribute \<Rightarrow> bool" where
  "inspector_attribute_ok a \<longleftrightarrow> ia_name a \<noteq> [] \<and> length (ia_name a) \<le> DOM_MAX_ATTRIBUTE_NAME_LENGTH \<and>
     length (ia_value a) \<le> DOM_MAX_ATTRIBUTE_VALUE_LENGTH"

text \<open>What a node may be, kind by kind.\<close>

definition node_shape :: "dom_node_view \<Rightarrow> bool" where
  "node_shape n \<longleftrightarrow> (let kind = dn_kind n in
     dn_nodeType n = nodeTypeForKind kind \<and> dn_relationship n = relationshipForKind kind \<and>
     (kind \<noteq> KindElement \<longrightarrow> \<not> dn_selectable n \<and> dn_inaccessible n = None \<and> dn_attributes n = []) \<and>
     (dn_inaccessible n = Some True \<longrightarrow> \<not> dn_selectable n) \<and>
     (kind \<in> {KindDocumentType, KindText, KindComment} \<longrightarrow> \<not> dn_expandable n \<and> dn_locator n = None) \<and>
     (kind \<noteq> KindDocumentType \<longrightarrow> dn_publicId n = None \<and> dn_systemId n = None) \<and>
     (kind \<notin> {KindText, KindComment} \<longrightarrow> dn_nodeValue n = None))"

definition node_ok :: "dom_node_view \<Rightarrow> bool" where
  "node_ok n \<longleftrightarrow> node_shape n \<and> id_ok (dn_nodeRef n) \<and>
     \<not> starts_with DOM_RESERVED_NODE_REF_PREFIX (dn_nodeRef n) \<and>
     dn_nodeName n \<noteq> [] \<and> length (dn_nodeName n) \<le> DOM_MAX_ATTRIBUTE_NAME_LENGTH \<and>
     pred_option (\<lambda>t. length t \<le> DOM_MAX_NODE_VALUE_LENGTH) (dn_nodeValue n) \<and>
     pred_option (\<lambda>t. length t \<le> DOM_MAX_DOCTYPE_ID_LENGTH) (dn_publicId n) \<and>
     pred_option (\<lambda>t. length t \<le> DOM_MAX_DOCTYPE_ID_LENGTH) (dn_systemId n) \<and>
     length (dn_attributes n) \<le> DOM_MAX_ATTRIBUTES \<and> list_all inspector_attribute_ok (dn_attributes n) \<and>
     nonneg_ok (dn_childCount n) \<and> dn_label n \<noteq> [] \<and> length (dn_label n) \<le> DOM_MAX_LABEL_LENGTH \<and>
     nonneg_ok (dn_branchRevision n) \<and>
     pred_option (\<lambda>l. locator_ok l \<and> sl_targetKind l = dn_kind n) (dn_locator n) \<and>
     budget (node_json n)"

definition recoverable_path_ok :: "bool \<Rightarrow> dom_node_view list \<Rightarrow> bool" where
  "recoverable_path_ok selection path \<longleftrightarrow> path \<noteq> [] \<and> length path \<le> DOM_MAX_ANCESTOR_PATH_LENGTH \<and>
     list_all node_ok path \<and> dn_locator (last path) \<noteq> None \<and> dn_kind (hd path) = KindElement \<and>
     distinct (map dn_nodeRef path) \<and> list_all (\<lambda>n. dn_kind n \<in> set DOM_RECOVERABLE_NODE_KINDS) path \<and>
     (selection \<longrightarrow> dn_kind (last path) = KindElement \<and> dn_selectable (last path))"

fun dom_request_ok :: "dom_request \<Rightarrow> bool" where
  "dom_request_ok (DomGetRoot rid epoch) = (id_ok rid \<and> pred_option nonneg_ok epoch)"
| "dom_request_ok (DomGetChildren rid epoch node branch cursor) =
     (id_ok rid \<and> nonneg_ok epoch \<and> id_ok node \<and> nonneg_ok branch \<and> pred_option id_ok cursor)"
| "dom_request_ok (DomResolveLocator rid l) = (id_ok rid \<and> locator_ok l)"
| "dom_request_ok (DomSelect epoch node) = (nonneg_ok epoch \<and> id_ok node)"
| "dom_request_ok (DomHover epoch node) = (nonneg_ok epoch \<and> id_ok node)"
| "dom_request_ok (DomClearHover epoch) = nonneg_ok epoch"

fun dom_response_ok :: "dom_response \<Rightarrow> bool" where
  "dom_response_ok (DomRoot rid epoch node prologue epilogue) =
     (id_ok rid \<and> nonneg_ok epoch \<and> node_ok node \<and> dn_kind node = KindElement \<and>
      list_all (\<lambda>n. node_ok n \<and> dn_kind n \<in> {KindDocumentType, KindComment}) prologue \<and>
      list_all (\<lambda>n. node_ok n \<and> dn_kind n = KindComment) epilogue \<and>
      length prologue + length epilogue \<le> DOM_MAX_ROOT_AUXILIARY_ROWS \<and>
      distinct (map dn_nodeRef prologue @ dn_nodeRef node # map dn_nodeRef epilogue))"
| "dom_response_ok (DomChildren rid epoch node branch nodes cursor) =
     (id_ok rid \<and> nonneg_ok epoch \<and> id_ok node \<and> nonneg_ok branch \<and>
      length nodes \<le> DOM_MAX_CHILDREN_PAGE_LENGTH \<and> list_all node_ok nodes \<and> pred_option id_ok cursor)"
| "dom_response_ok (DomLocator rid epoch node path) =
     (id_ok rid \<and> nonneg_ok epoch \<and> recoverable_path_ok False path \<and> node = last path)"
| "dom_response_ok (DomError rid epoch code) = (pred_option id_ok rid \<and> pred_option nonneg_ok epoch)"

fun dom_event_ok :: "dom_event \<Rightarrow> bool" where
  "dom_event_ok (DomHoverChanged epoch node summary) = (nonneg_ok epoch \<and> pred_option id_ok node \<and>
     pred_option (\<lambda>t. t \<noteq> [] \<and> length t \<le> DOM_MAX_SUMMARY_LENGTH) summary)"
| "dom_event_ok (DomSelectionChanged epoch selection node path) =
     (nonneg_ok epoch \<and> nonneg_ok selection \<and> id_ok node \<and> recoverable_path_ok True path \<and>
      dn_nodeRef (last path) = node)"
| "dom_event_ok (DomSelectionCleared epoch selection node) = (nonneg_ok epoch \<and> nonneg_ok selection \<and> id_ok node)"
| "dom_event_ok (DomInvalidated epoch branches) = (nonneg_ok epoch \<and>
     length branches \<le> DOM_MAX_INVALIDATION_BRANCHES \<and>
     list_all (\<lambda>b. id_ok (ib_nodeRef b) \<and> nonneg_ok (ib_branchRevision b)) branches)"

subsection \<open>Parts\<close>

lemma budget_item: "budget (JArr xs) \<Longrightarrow> x \<in> set xs \<Longrightarrow> budget x"
  using utf8_item unfolding domProtocolEnvelopeWithinBudget_def by fastforce

lemma budget_member: "budget (object_of ms) \<Longrightarrow> (k, Some j) \<in> set ms \<Longrightarrow> budget j"
  using utf8_object_member unfolding domProtocolEnvelopeWithinBudget_def by fastforce

lemma dom_identifier_eq [simp]: "dom_identifier v = Some t \<longleftrightarrow> v = VStr t \<and> id_ok t"
  by (auto simp: dom_identifier_def id_ok_def)

lemma dom_identifier_value: "dom_identifier (VStr t) = (if id_ok t then Some t else None)"
  by (auto simp: dom_identifier_def id_ok_def)

lemmas dom_reading = snapshot_record_plain assert_keys_eq own_part_def guard_def assertSerializedMessageBudget_def
  frozen_def dom_identifier_value nonneg_integer_value

lemma node_kind_known: "k \<in> set DOM_NODE_KINDS"
  by (cases k) (simp_all add: DOM_NODE_KINDS_def)

lemma recoverable_kind: "k \<in> set DOM_RECOVERABLE_NODE_KINDS \<longleftrightarrow> k \<notin> {KindDocumentType, KindText, KindComment}"
  by (cases k) (simp_all add: DOM_RECOVERABLE_NODE_KINDS_def)

lemma dom_array_length:
  assumes "dom_array m v = Some vs" shows "length vs \<le> m"
proof -
  obtain ps where ps: "snapshotOwnDataProperties v True (m + 1) = Some ps"
    using assms by (auto simp: dom_array_def bind_eq_Some_conv)
  note array = assms [unfolded dom_array_def ps Option.bind.bind_lunit]
  then obtain x where "map_of ps (StrKey (js ''length'')) = Some x" by (auto split: option.splits)
  moreover from this array obtain n where n: "x = VNum (JInt n)" by (auto split: js_value.splits jsnum.splits)
  ultimately have "n \<le> int m \<and> those (map (\<lambda>i. map_of ps (StrKey (decimal i))) [0..<nat n]) = Some vs"
    using array by (auto simp: bind_eq_Some_conv split: if_splits)
  then show ?thesis using those_length by fastforce
qed

lemma bounded_array_plain:
  assumes "int m < 2 ^ 53" and "\<And>x. x \<in> set xs \<Longrightarrow> p (plain (f x)) = Some x"
    and "length xs \<le> m" and "budget (JArr (map f xs))"
  shows "parseBoundedArray m p f (plain (JArr (map f xs))) = Some xs"
proof -
  have "parse_items p (map plain (map f xs)) = Some xs"
    using assms(2) by (induction xs) auto
  then show ?thesis using assms(1,3,4)
    by (simp add: parseBoundedArray_def dom_array_plain assertSerializedMessageBudget_def del: plain.simps map_map)
qed

lemma bounded_array_ok:
  assumes "parseBoundedArray m p f v = Some xs" and "\<And>v x. p v = Some x \<Longrightarrow> P x"
  shows "length xs \<le> m \<and> list_all P xs \<and> budget (JArr (map f xs))"
proof -
  obtain vs where vs: "dom_array m v = Some vs" "parse_items p vs = Some xs" "budget (JArr (map f xs))"
    using assms(1) by (auto simp: parseBoundedArray_def bind_eq_Some_conv assertSerializedMessageBudget_def)
  show ?thesis using dom_array_length [OF vs(1)] parse_items_all [OF vs(2) assms(2)] vs(3) by simp
qed

lemma parse_inspector_attribute_sent:
  assumes "inspector_attribute_ok a" and "budget (inspector_attribute_json a)"
  shows "parseInspectorAttribute (plain (inspector_attribute_json a)) = Some a"
  using assms unfolding parseInspectorAttribute_def
  by (simp add: inspector_attribute_json_def dom_reading inspector_attribute_ok_def)

lemma parse_inspector_attribute_ok: "parseInspectorAttribute v = Some a \<Longrightarrow> inspector_attribute_ok a"
  by (auto simp: parseInspectorAttribute_def bind_eq_Some_conv inspector_attribute_ok_def Let_def)

lemma node_keys_count: "node_shape n \<Longrightarrow> (if dn_nodeValue n = None then 0 else 1) + (if dn_publicId n = None then 0 else 1) +
    (if dn_systemId n = None then 0 else 1) + (if dn_inaccessible n = None then 0 else 1) +
    (if dn_locator n = None then 0 else 1) \<le> (2 :: nat)"
  by (cases "dn_kind n") (simp_all add: node_shape_def)

lemma own_part_sent:
  assumes "has_own r k = (x \<noteq> None)" and "\<And>y. x = Some y \<Longrightarrow> p (property r k) = Some y"
  shows "own_part r k p = Some x"
  using assms by (cases x) (simp_all add: own_part_def)

lemma parse_node_sent:
  assumes ok: "node_ok n" shows "parseNodeView (plain (node_json n)) = Some n"
proof -
  define ms where "ms = [(''nodeRef'', Some (JStr (dn_nodeRef n))),
      (''kind'', Some (text_json (kind_text (dn_kind n)))),
      (''nodeType'', Some (jint (dn_nodeType n))),
      (''nodeName'', Some (JStr (dn_nodeName n))),
      (''nodeValue'', map_option JStr (dn_nodeValue n)),
      (''publicId'', map_option JStr (dn_publicId n)),
      (''systemId'', map_option JStr (dn_systemId n)),
      (''attributes'', Some (JArr (map inspector_attribute_json (dn_attributes n)))),
      (''childCount'', Some (jint (dn_childCount n))),
      (''relationship'', Some (text_json (relationship_text (dn_relationship n)))),
      (''selectable'', Some (JBool (dn_selectable n))),
      (''label'', Some (JStr (dn_label n))),
      (''expandable'', Some (JBool (dn_expandable n))),
      (''inaccessible'', map_option JBool (dn_inaccessible n)),
      (''branchRevision'', Some (jint (dn_branchRevision n))),
      (''locator'', map_option locator_json (dn_locator n))]"
  define r where "r = data_fields ms"
  have js: "node_json n = object_of ms" by (simp add: node_json_def ms_def)
  have b: "budget (node_json n)" and shape: "node_shape n" using ok by (simp_all add: node_ok_def)
  have arr: "budget (JArr (map inspector_attribute_json (dn_attributes n)))"
    by (rule budget_member [OF b [unfolded js], of "''attributes''"]) (simp add: ms_def)
  have attrs: "parseBoundedArray DOM_MAX_ATTRIBUTES parseInspectorAttribute inspector_attribute_json
      (property r ''attributes'') = Some (dn_attributes n)"
  proof -
    have "property r ''attributes'' = plain (JArr (map inspector_attribute_json (dn_attributes n)))"
      by (simp add: r_def ms_def del: plain.simps)
    moreover have "parseBoundedArray DOM_MAX_ATTRIBUTES parseInspectorAttribute inspector_attribute_json
        (plain (JArr (map inspector_attribute_json (dn_attributes n)))) = Some (dn_attributes n)"
    proof (rule bounded_array_plain [OF _ _ _ arr])
      fix a assume "a \<in> set (dn_attributes n)"
      then show "parseInspectorAttribute (plain (inspector_attribute_json a)) = Some a"
        using ok budget_item [OF arr] by (intro parse_inspector_attribute_sent) (auto simp: node_ok_def list_all_iff)
    qed (use ok in \<open>simp_all add: node_ok_def DOM_MAX_ATTRIBUTES_def\<close>)
    ultimately show ?thesis by simp
  qed
  have count: "length r \<le> DOM_NODE_VIEW_MAX_PROPERTIES"
    using node_keys_count [OF shape] by (simp add: r_def ms_def DOM_NODE_VIEW_MAX_PROPERTIES_def split: if_splits)
  have snap: "snapshotRecord (plain (node_json n)) DOM_NODE_VIEW_KEYS DOM_NODE_VIEW_MAX_PROPERTIES = Some r"
    unfolding js snapshot_record_plain using count
    by (simp add: r_def [symmetric]) (simp add: r_def ms_def DOM_NODE_VIEW_KEYS_def)
  have keys: "assertKeys r DOM_NODE_VIEW_KEYS DOM_NODE_VIEW_REQUIRED = Some ()"
    by (simp add: assert_keys_eq r_def ms_def DOM_NODE_VIEW_KEYS_def DOM_NODE_VIEW_REQUIRED_def)
  have props: "property r ''nodeRef'' = VStr (dn_nodeRef n)" "property r ''kind'' = VStr (js (kind_text (dn_kind n)))"
    "property r ''nodeType'' = VNum (JInt (dn_nodeType n))" "property r ''nodeName'' = VStr (dn_nodeName n)"
    "property r ''childCount'' = VNum (JInt (dn_childCount n))"
    "property r ''relationship'' = VStr (js (relationship_text (dn_relationship n)))"
    "property r ''selectable'' = VBool (dn_selectable n)" "property r ''label'' = VStr (dn_label n)"
    "property r ''expandable'' = VBool (dn_expandable n)"
    "property r ''branchRevision'' = VNum (JInt (dn_branchRevision n))"
    by (simp_all add: r_def ms_def text_json_def jint_def)
  have opts: "property r ''inaccessible'' = (case dn_inaccessible n of None \<Rightarrow> VUndefined | Some b \<Rightarrow> VBool b)"
    "property r ''locator'' = (case dn_locator n of None \<Rightarrow> VUndefined | Some l \<Rightarrow> plain (locator_json l))"
    "property r ''nodeValue'' = (case dn_nodeValue n of None \<Rightarrow> VUndefined | Some t \<Rightarrow> VStr t)"
    "property r ''publicId'' = (case dn_publicId n of None \<Rightarrow> VUndefined | Some t \<Rightarrow> VStr t)"
    "property r ''systemId'' = (case dn_systemId n of None \<Rightarrow> VUndefined | Some t \<Rightarrow> VStr t)"
    by (simp_all add: r_def ms_def option.case_eq_if option.map_sel split: option.splits)
  have has: "has_own r ''inaccessible'' = (dn_inaccessible n \<noteq> None)" "has_own r ''locator'' = (dn_locator n \<noteq> None)"
    "has_own r ''nodeValue'' = (dn_nodeValue n \<noteq> None)" "has_own r ''publicId'' = (dn_publicId n \<noteq> None)"
    "has_own r ''systemId'' = (dn_systemId n \<noteq> None)"
    by (simp_all add: r_def ms_def)
  have parts: "own_part r ''locator'' parseDomStableLocator = Some (dn_locator n)"
    "own_part r ''nodeValue'' (bounded_text DOM_MAX_NODE_VALUE_LENGTH False) = Some (dn_nodeValue n)"
    "own_part r ''publicId'' (bounded_text DOM_MAX_DOCTYPE_ID_LENGTH False) = Some (dn_publicId n)"
    "own_part r ''systemId'' (bounded_text DOM_MAX_DOCTYPE_ID_LENGTH False) = Some (dn_systemId n)"
    "own_part r ''inaccessible'' is_boolean = Some (dn_inaccessible n)"
    using ok by (auto intro!: own_part_sent simp: has opts node_ok_def parse_locator_value)
  have kinds: "dn_kind n \<noteq> KindElement \<longrightarrow> \<not> dn_selectable n \<and> dn_inaccessible n = None \<and> dn_attributes n = []"
    "property r ''inaccessible'' = VBool True \<longrightarrow> \<not> dn_selectable n"
    "dn_kind n = KindDocumentType \<or> dn_kind n = KindText \<or> dn_kind n = KindComment \<longrightarrow> \<not> dn_expandable n"
    "dn_kind n \<notin> set DOM_RECOVERABLE_NODE_KINDS \<longrightarrow> dn_locator n = None"
    "dn_kind n \<noteq> KindDocumentType \<longrightarrow> dn_publicId n = None \<and> dn_systemId n = None"
    "\<not> (dn_kind n = KindText \<or> dn_kind n = KindComment) \<longrightarrow> dn_nodeValue n = None"
    "dn_nodeType n = nodeTypeForKind (dn_kind n)" "dn_relationship n = relationshipForKind (dn_kind n)"
    using shape unfolding node_shape_def Let_def opts
    by (auto simp: recoverable_kind split: option.splits)
  have target: "\<not> (case dn_locator n of None \<Rightarrow> False | Some l \<Rightarrow> sl_targetKind l \<noteq> dn_kind n)"
    using ok by (auto simp: node_ok_def split: option.split)
  have texts: "dom_identifier (VStr (dn_nodeRef n)) = Some (dn_nodeRef n)"
    "\<not> starts_with DOM_RESERVED_NODE_REF_PREFIX (dn_nodeRef n)"
    "bounded_text DOM_MAX_ATTRIBUTE_NAME_LENGTH True (VStr (dn_nodeName n)) = Some (dn_nodeName n)"
    "bounded_text DOM_MAX_LABEL_LENGTH True (VStr (dn_label n)) = Some (dn_label n)"
    "nonneg_integer (VNum (JInt (dn_childCount n))) = Some (dn_childCount n)"
    "nonneg_integer (VNum (JInt (dn_branchRevision n))) = Some (dn_branchRevision n)"
    using ok by (simp_all add: node_ok_def nonneg_ok_def)
  have guards: "guard (\<not> (dn_kind n \<noteq> KindElement \<and> dn_selectable n)) = Some ()"
    "guard (\<not> (has_own r ''inaccessible'' \<and> dn_kind n \<noteq> KindElement)) = Some ()"
    "guard (\<not> (property r ''inaccessible'' = VBool True \<and> dn_selectable n)) = Some ()"
    "guard (\<not> ((dn_kind n = KindDocumentType \<or> dn_kind n = KindText \<or> dn_kind n = KindComment) \<and>
      VBool (dn_expandable n) \<noteq> VBool False)) = Some ()"
    "guard (\<not> (dn_kind n \<notin> set DOM_RECOVERABLE_NODE_KINDS \<and> has_own r ''locator'')) = Some ()"
    "guard (\<not> (dn_kind n \<noteq> KindDocumentType \<and> (has_own r ''publicId'' \<or> has_own r ''systemId''))) = Some ()"
    "guard (\<not> (\<not> (dn_kind n = KindText \<or> dn_kind n = KindComment) \<and> has_own r ''nodeValue'')) = Some ()"
    "guard (\<not> (dn_kind n \<noteq> KindElement \<and> length (dn_attributes n) > 0)) = Some ()"
    "guard (\<not> (case dn_locator n of None \<Rightarrow> False | Some l \<Rightarrow> sl_targetKind l \<noteq> dn_kind n)) = Some ()"
    using kinds target by (auto simp: has)
  have final: "assertSerializedMessageBudget (node_json n) = Some ()"
    using b by (simp add: assertSerializedMessageBudget_def)
  have kind: "kind_in DOM_NODE_KINDS (VStr (js (kind_text (dn_kind n)))) = Some (dn_kind n)"
    using node_kind_known by simp
  have g: "guard True = Some ()" by simp
  have all: "\<lparr>dn_nodeRef = dn_nodeRef n, dn_kind = dn_kind n, dn_nodeType = nodeTypeForKind (dn_kind n), dn_nodeName = dn_nodeName n,
       dn_nodeValue = dn_nodeValue n, dn_publicId = dn_publicId n, dn_systemId = dn_systemId n,
       dn_attributes = dn_attributes n, dn_childCount = dn_childCount n, dn_relationship = relationshipForKind (dn_kind n),
       dn_selectable = dn_selectable n, dn_label = dn_label n, dn_expandable = dn_expandable n,
       dn_inaccessible = dn_inaccessible n, dn_branchRevision = dn_branchRevision n, dn_locator = dn_locator n\<rparr> = n"
    using kinds(7,8) by (simp flip: kinds(7,8))
  show ?thesis
    unfolding parseNodeView_def Let_def snap keys kind Option.bind.bind_lunit
      is_boolean.simps props attrs parts texts(1,3-6) guards all final kinds(7,8)
    using texts(2) by (simp only: simp_thms g Option.bind.bind_lunit)
qed

lemma own_part_eq: "own_part r k p = Some x \<longleftrightarrow>
    has_own r k = (x \<noteq> None) \<and> (\<forall>y. x = Some y \<longrightarrow> p (property r k) = Some y)"
  by (cases x) (auto simp: own_part_def)

lemma parse_node_parts:
  assumes "parseNodeView v = Some n"
  obtains r kind selectable expandable locator attributes nodeRef nodeName nodeValue publicId systemId
    childCount label inaccessible branchRevision where
    "n = \<lparr>dn_nodeRef = nodeRef, dn_kind = kind, dn_nodeType = nodeTypeForKind kind, dn_nodeName = nodeName,
       dn_nodeValue = nodeValue, dn_publicId = publicId, dn_systemId = systemId,
       dn_attributes = attributes, dn_childCount = childCount, dn_relationship = relationshipForKind kind,
       dn_selectable = selectable, dn_label = label, dn_expandable = expandable,
       dn_inaccessible = inaccessible, dn_branchRevision = branchRevision, dn_locator = locator\<rparr>"
    "\<not> (kind \<noteq> KindElement \<and> selectable)"
    "\<not> (has_own r ''inaccessible'' \<and> kind \<noteq> KindElement)"
    "\<not> (property r ''inaccessible'' = VBool True \<and> selectable)"
    "\<not> ((kind = KindDocumentType \<or> kind = KindText \<or> kind = KindComment) \<and> property r ''expandable'' \<noteq> VBool False)"
    "property r ''expandable'' = VBool expandable"
    "\<not> (kind \<notin> set DOM_RECOVERABLE_NODE_KINDS \<and> has_own r ''locator'')"
    "own_part r ''locator'' parseDomStableLocator = Some locator"
    "\<not> (case locator of None \<Rightarrow> False | Some l \<Rightarrow> sl_targetKind l \<noteq> kind)"
    "\<not> (kind \<noteq> KindDocumentType \<and> (has_own r ''publicId'' \<or> has_own r ''systemId''))"
    "\<not> (\<not> (kind = KindText \<or> kind = KindComment) \<and> has_own r ''nodeValue'')"
    "parseBoundedArray DOM_MAX_ATTRIBUTES parseInspectorAttribute inspector_attribute_json
      (property r ''attributes'') = Some attributes"
    "\<not> (kind \<noteq> KindElement \<and> length attributes > 0)"
    "id_ok nodeRef" "\<not> starts_with DOM_RESERVED_NODE_REF_PREFIX nodeRef"
    "length nodeName \<le> DOM_MAX_ATTRIBUTE_NAME_LENGTH" "True \<longrightarrow> nodeName \<noteq> []"
    "own_part r ''nodeValue'' (bounded_text DOM_MAX_NODE_VALUE_LENGTH False) = Some nodeValue"
    "own_part r ''publicId'' (bounded_text DOM_MAX_DOCTYPE_ID_LENGTH False) = Some publicId"
    "own_part r ''systemId'' (bounded_text DOM_MAX_DOCTYPE_ID_LENGTH False) = Some systemId"
    "nonneg_ok childCount" "length label \<le> DOM_MAX_LABEL_LENGTH" "True \<longrightarrow> label \<noteq> []"
    "own_part r ''inaccessible'' is_boolean = Some inaccessible" "nonneg_ok branchRevision"
    "budget (node_json n)"
proof -
  note a = assms [unfolded parseNodeView_def Let_def bind_eq_Some_conv guard_eq_Some kind_in_eq is_boolean_eq
      bounded_text_eq dom_identifier_eq nonneg_integer_eq assertSerializedMessageBudget_def option.inject]
  show thesis
    using a apply (elim exE conjE)
    apply hypsubst
    apply (rule that)
                        apply (rule refl | assumption)+
    apply (simp only: guard_eq_Some)
    done
qed

lemma parse_node_ok:
  assumes "parseNodeView v = Some n" shows "node_ok n"
  using assms
proof (rule parse_node_parts)
  fix r kind selectable expandable locator attributes nodeRef nodeName nodeValue publicId systemId
    childCount label inaccessible branchRevision
  assume n: "n = \<lparr>dn_nodeRef = nodeRef, dn_kind = kind, dn_nodeType = nodeTypeForKind kind, dn_nodeName = nodeName,
       dn_nodeValue = nodeValue, dn_publicId = publicId, dn_systemId = systemId,
       dn_attributes = attributes, dn_childCount = childCount, dn_relationship = relationshipForKind kind,
       dn_selectable = selectable, dn_label = label, dn_expandable = expandable,
       dn_inaccessible = inaccessible, dn_branchRevision = branchRevision, dn_locator = locator\<rparr>"
    and g1: "\<not> (kind \<noteq> KindElement \<and> selectable)"
    and g2: "\<not> (has_own r ''inaccessible'' \<and> kind \<noteq> KindElement)"
    and g3: "\<not> (property r ''inaccessible'' = VBool True \<and> selectable)"
    and g4: "\<not> ((kind = KindDocumentType \<or> kind = KindText \<or> kind = KindComment) \<and> property r ''expandable'' \<noteq> VBool False)"
    and e: "property r ''expandable'' = VBool expandable"
    and g5: "\<not> (kind \<notin> set DOM_RECOVERABLE_NODE_KINDS \<and> has_own r ''locator'')"
    and l: "own_part r ''locator'' parseDomStableLocator = Some locator"
    and g6: "\<not> (case locator of None \<Rightarrow> False | Some l \<Rightarrow> sl_targetKind l \<noteq> kind)"
    and g7: "\<not> (kind \<noteq> KindDocumentType \<and> (has_own r ''publicId'' \<or> has_own r ''systemId''))"
    and g8: "\<not> (\<not> (kind = KindText \<or> kind = KindComment) \<and> has_own r ''nodeValue'')"
    and at: "parseBoundedArray DOM_MAX_ATTRIBUTES parseInspectorAttribute inspector_attribute_json
      (property r ''attributes'') = Some attributes"
    and g9: "\<not> (kind \<noteq> KindElement \<and> length attributes > 0)"
    and t: "id_ok nodeRef" "\<not> starts_with DOM_RESERVED_NODE_REF_PREFIX nodeRef"
    "length nodeName \<le> DOM_MAX_ATTRIBUTE_NAME_LENGTH" "True \<longrightarrow> nodeName \<noteq> []"
    and nv: "own_part r ''nodeValue'' (bounded_text DOM_MAX_NODE_VALUE_LENGTH False) = Some nodeValue"
    and pi: "own_part r ''publicId'' (bounded_text DOM_MAX_DOCTYPE_ID_LENGTH False) = Some publicId"
    and si: "own_part r ''systemId'' (bounded_text DOM_MAX_DOCTYPE_ID_LENGTH False) = Some systemId"
    and t2: "nonneg_ok childCount" "length label \<le> DOM_MAX_LABEL_LENGTH" "True \<longrightarrow> label \<noteq> []"
    and ia: "own_part r ''inaccessible'' is_boolean = Some inaccessible"
    and t3: "nonneg_ok branchRevision" "budget (node_json n)"
  note has = nv [unfolded own_part_eq] pi [unfolded own_part_eq] si [unfolded own_part_eq]
    ia [unfolded own_part_eq] l [unfolded own_part_eq]
  have shape: "node_shape n"
    unfolding node_shape_def Let_def n dom_node_view.simps
    using g1 g2 g3 g4 e g5 g7 g8 g9 has by (simp add: recoverable_kind) blast
  have loc: "pred_option (\<lambda>l. locator_ok l \<and> sl_targetKind l = kind) locator"
    using own_part_ok [OF l parse_locator_ok] g6 by (cases locator) simp_all
  have nvb: "pred_option (\<lambda>t. length t \<le> DOM_MAX_NODE_VALUE_LENGTH) nodeValue"
    using nv by (rule own_part_ok) simp
  have pib: "pred_option (\<lambda>t. length t \<le> DOM_MAX_DOCTYPE_ID_LENGTH) publicId"
    using pi by (rule own_part_ok) simp
  have sib: "pred_option (\<lambda>t. length t \<le> DOM_MAX_DOCTYPE_ID_LENGTH) systemId"
    using si by (rule own_part_ok) simp
  show "node_ok n"
    using shape t t2 t3 loc nvb pib sib bounded_array_ok [OF at parse_inspector_attribute_ok]
    unfolding node_ok_def by (simp add: n)
qed

subsection \<open>Lists of nodes\<close>

lemma parse_nodes_sent:
  assumes "list_all node_ok ns" and "length ns \<le> m" and "budget (nodes_json ns)" and "int m < 2 ^ 53"
  shows "parseNodeViews m (plain (nodes_json ns)) = Some ns"
  unfolding parseNodeViews_def nodes_json_def
  using assms parse_node_sent by (intro bounded_array_plain) (auto simp: nodes_json_def list_all_iff)

lemma parse_nodes_ok:
  "parseNodeViews m v = Some ns \<Longrightarrow> length ns \<le> m \<and> list_all node_ok ns \<and> budget (nodes_json ns)"
  unfolding parseNodeViews_def nodes_json_def by (rule bounded_array_ok [OF _ parse_node_ok])

lemma parse_path_sent:
  assumes "recoverable_path_ok selection ns" and "budget (nodes_json ns)"
  shows "parseRecoverableAncestorPath (plain (nodes_json ns)) selection = Some ns"
proof -
  have "parseNodeViews DOM_MAX_ANCESTOR_PATH_LENGTH (plain (nodes_json ns)) = Some ns"
    using assms by (intro parse_nodes_sent) (simp_all add: recoverable_path_ok_def DOM_MAX_ANCESTOR_PATH_LENGTH_def)
  moreover have "dn_selectable (last ns) \<longrightarrow> dn_inaccessible (last ns) \<noteq> Some True"
    using assms(1) by (auto simp: recoverable_path_ok_def list_all_iff node_ok_def node_shape_def Let_def
        dest: bspec [OF _ last_in_set])
  ultimately show ?thesis using assms(1)
    by (auto simp: parseRecoverableAncestorPath_def recoverable_path_ok_def)
qed

lemma parse_recoverable_ok:
  "parseRecoverableAncestorPath v selection = Some ns \<Longrightarrow> recoverable_path_ok selection ns \<and> budget (nodes_json ns)"
  by (auto simp: parseRecoverableAncestorPath_def bind_eq_Some_conv recoverable_path_ok_def dest: parse_nodes_ok)

text \<open>The text of a node determines the node.\<close>

lemma printable_int [simp]: "printable (jint n)" and printable_text [simp]: "printable (text_json t)"
  by (simp_all add: jint_def text_json_def)

lemma printable_attribute [simp]: "printable (locator_attribute_json a)"
  by (simp add: locator_attribute_json_def printable_object)

lemma printable_segment [simp]: "printable (path_segment_json s)"
  by (simp add: path_segment_json_def printable_object option.pred_map list_all_iff comp_def option.pred_True)

lemma printable_path [simp]: "printable (path_json p)"
  by (simp add: path_json_def list_all_iff)

lemma printable_locator [simp]: "printable (locator_json l)"
  by (simp add: locator_json_def boundary_json_def printable_object list_all_iff)

lemma printable_node [simp]: "printable (node_json n)"
  by (simp add: node_json_def inspector_attribute_json_def printable_object option.pred_map list_all_iff comp_def option.pred_True)

lemma node_json_inject:
  assumes "node_ok m" and "node_ok n" and "node_json m = node_json n" shows "m = n"
  using parse_node_sent [OF assms(1)] unfolding assms(3) parse_node_sent [OF assms(2)] by simp

lemma same_node:
  assumes "node_ok m" and "node_ok n" shows "sameDomNodeView m n = (m = n)"
  using node_json_inject [OF assms] json_text_inject [OF printable_node printable_node, of m n]
  by (auto simp: sameDomNodeView_def)

subsection \<open>Messages that are sent and read back\<close>

lemma parse_request_sent:
  assumes "dom_request_ok q" and "budget (dom_request_json q)"
  shows "parseDomRequest (plain (dom_request_json q)) = Some q"
proof (cases q)
  case (DomGetRoot rid epoch)
  then show ?thesis using assms
    by (cases epoch) (simp_all add: parseDomRequest_def dom_reading DOM_REQUEST_KEYS_def DOM_REQUEST_MAX_PROPERTIES_def
        text_json_def jint_def del: nonneg_integer.simps plain.simps(5,6))
next
  case (DomGetChildren rid epoch node branch cursor)
  then show ?thesis using assms
    by (cases cursor) (simp_all add: parseDomRequest_def dom_reading DOM_REQUEST_KEYS_def DOM_REQUEST_MAX_PROPERTIES_def
        text_json_def jint_def del: nonneg_integer.simps plain.simps(5,6))
qed (use assms in \<open>simp_all add: parseDomRequest_def dom_reading DOM_REQUEST_KEYS_def DOM_REQUEST_MAX_PROPERTIES_def
    text_json_def jint_def parse_locator_value del: nonneg_integer.simps plain.simps(5,6)\<close>)

lemma parse_request_ok: "parseDomRequest v = Some q \<Longrightarrow> dom_request_ok q \<and> budget (dom_request_json q)"
  by (auto simp: parseDomRequest_def bind_eq_Some_conv frozen_def assertSerializedMessageBudget_def Let_def
      own_part_eq pred_option_def split: if_splits dest: parse_locator_ok)

lemma nodes_member:
  "budget (object_of ms) \<Longrightarrow> (k, Some (nodes_json ns)) \<in> set ms \<Longrightarrow> budget (nodes_json ns)"
  by (rule budget_member)

lemmas response_reading = parseDomResponse_def DOM_RESPONSE_KEYS_def DOM_RESPONSE_MAX_PROPERTIES_def
  text_json_def jint_def Let_def

lemma parse_auxiliary_sent:
  assumes "list_all (\<lambda>n. node_ok n \<and> (dn_kind n = KindComment \<or> prologue \<and> dn_kind n = KindDocumentType)) ns"
    and "length ns \<le> DOM_MAX_ROOT_AUXILIARY_ROWS" and "budget (nodes_json ns)"
  shows "parseRootAuxiliaryViews (plain (nodes_json ns)) prologue = Some ns"
proof -
  have "parseNodeViews DOM_MAX_ROOT_AUXILIARY_ROWS (plain (nodes_json ns)) = Some ns"
    using assms by (intro parse_nodes_sent) (auto simp: list_all_iff DOM_MAX_ROOT_AUXILIARY_ROWS_def)
  then show ?thesis using assms(1) by (auto simp: parseRootAuxiliaryViews_def guard_def list_all_iff)
qed

lemma parse_response_sent:
  assumes ok: "dom_response_ok q" and b: "budget (dom_response_json q)"
  shows "parseDomResponse (plain (dom_response_json q)) = Some q"
proof (cases q)
  case (DomRoot rid epoch node prologue epilogue)
  have n: "parseNodeView (plain (node_json node)) = Some node"
    using ok parse_node_sent by (simp add: DomRoot)
  have "budget (nodes_json prologue)" "budget (nodes_json epilogue)"
    by (rule nodes_member [OF b [unfolded DomRoot dom_response_json.simps], of "''prologue''"], simp)
      (rule nodes_member [OF b [unfolded DomRoot dom_response_json.simps], of "''epilogue''"], simp)
  then have "parseRootAuxiliaryViews (plain (nodes_json prologue)) True = Some prologue"
    "parseRootAuxiliaryViews (plain (nodes_json epilogue)) False = Some epilogue"
    using ok by (auto intro!: parse_auxiliary_sent simp: DomRoot list_all_iff)
  then show ?thesis using ok b n
    by (simp add: DomRoot response_reading parse_dom_root_def dom_reading
        del: nonneg_integer.simps plain.simps(5,6))
next
  case (DomChildren rid epoch node branch nodes cursor)
  have "budget (nodes_json nodes)"
    by (rule nodes_member [OF b [unfolded DomChildren dom_response_json.simps], of "''nodes''"]) simp
  then have "parseNodeViews DOM_MAX_CHILDREN_PAGE_LENGTH (plain (nodes_json nodes)) = Some nodes"
    using ok by (intro parse_nodes_sent) (simp_all add: DomChildren DOM_MAX_CHILDREN_PAGE_LENGTH_def)
  then show ?thesis using ok b
    by (cases cursor) (simp_all add: DomChildren response_reading parse_dom_children_def dom_reading
        del: nonneg_integer.simps plain.simps(5,6))
next
  case (DomLocator rid epoch node path)
  have path: "recoverable_path_ok False path" and n: "node = last path" using ok by (simp_all add: DomLocator)
  have "node_ok node" using path n by (auto simp: recoverable_path_ok_def list_all_iff)
  then have node: "parseNodeView (plain (node_json node)) = Some node" by (rule parse_node_sent)
  have "budget (nodes_json path)"
    by (rule nodes_member [OF b [unfolded DomLocator dom_response_json.simps], of "''ancestorPath''"]) simp
  then have "parseRecoverableAncestorPath (plain (nodes_json path)) False = Some path"
    using path by (intro parse_path_sent)
  then show ?thesis using ok b node n
    by (simp add: DomLocator response_reading parse_dom_locator_def dom_reading sameDomNodeView_def
        del: nonneg_integer.simps plain.simps(5,6))
next
  case (DomError rid epoch code)
  have "assertDomErrorCode (VStr (js (dom_error_text code))) = Some code"
    by (cases code) (simp_all add: assertDomErrorCode_def DOM_ERROR_CODES_def)
  then show ?thesis using ok b
    by (cases rid; cases epoch) (simp_all add: DomError response_reading parse_dom_error_def dom_reading
        del: nonneg_integer.simps plain.simps(5,6))
qed

lemma parse_auxiliary_ok: "parseRootAuxiliaryViews v prologue = Some ns \<Longrightarrow>
    list_all (\<lambda>n. node_ok n \<and> (dn_kind n = KindComment \<or> prologue \<and> dn_kind n = KindDocumentType)) ns"
  by (auto simp: parseRootAuxiliaryViews_def bind_eq_Some_conv list_all_iff dest!: parse_nodes_ok)

lemma parse_response_ok:
  assumes "parseDomResponse v = Some q" shows "dom_response_ok q \<and> budget (dom_response_json q)"
proof -
  obtain r where r: "parse_dom_root r = Some q \<or> parse_dom_children r = Some q \<or> parse_dom_locator r = Some q \<or>
      parse_dom_error r = Some q"
    using assms by (auto simp: parseDomResponse_def bind_eq_Some_conv Let_def split: if_splits)
  have root: "parse_dom_root r = Some q \<Longrightarrow> ?thesis"
    by (auto simp: parse_dom_root_def bind_eq_Some_conv frozen_def assertSerializedMessageBudget_def Let_def
        list_all_iff dest!: parse_node_ok parse_auxiliary_ok)
  have children: "parse_dom_children r = Some q \<Longrightarrow> ?thesis"
    by (auto simp: parse_dom_children_def bind_eq_Some_conv frozen_def assertSerializedMessageBudget_def
        own_part_eq pred_option_def dest!: parse_nodes_ok)
  have locator: "parse_dom_locator r = Some q \<Longrightarrow> ?thesis"
  proof -
    assume "parse_dom_locator r = Some q"
    then obtain rid epoch node path where p: "q = DomLocator rid epoch node path" "id_ok rid" "nonneg_ok epoch"
        "parseNodeView (property r ''node'') = Some node"
        "parseRecoverableAncestorPath (property r ''ancestorPath'') False = Some path"
        "sameDomNodeView node (last path)" "budget (dom_response_json q)"
      by (auto simp: parse_dom_locator_def bind_eq_Some_conv frozen_def assertSerializedMessageBudget_def Let_def)
    have path: "recoverable_path_ok False path" using parse_recoverable_ok [OF p(5)] by blast
    then have "node_ok (last path)" by (auto simp: recoverable_path_ok_def list_all_iff)
    then have "node = last path" using same_node [OF parse_node_ok [OF p(4)]] p(6) by blast
    then show ?thesis using p path by simp
  qed
  have error: "parse_dom_error r = Some q \<Longrightarrow> ?thesis"
    by (auto simp: parse_dom_error_def bind_eq_Some_conv frozen_def assertSerializedMessageBudget_def
        own_part_eq pred_option_def)
  show ?thesis using r root children locator error by blast
qed

lemma parse_branch_sent:
  assumes "id_ok (ib_nodeRef b)" and "nonneg_ok (ib_branchRevision b)" and "budget (branch_json b)"
  shows "parseInvalidationBranch (plain (branch_json b)) = Some b"
  using assms by (simp add: parseInvalidationBranch_def branch_json_def dom_reading jint_def Let_def
      del: nonneg_integer.simps)

lemma parse_branch_ok: "parseInvalidationBranch v = Some b \<Longrightarrow> id_ok (ib_nodeRef b) \<and> nonneg_ok (ib_branchRevision b)"
  by (auto simp: parseInvalidationBranch_def bind_eq_Some_conv Let_def)

lemmas event_reading = parseDomEvent_def DOM_EVENT_KEYS_def DOM_EVENT_MAX_PROPERTIES_def
  text_json_def jint_def Let_def

lemma parse_event_sent:
  assumes ok: "dom_event_ok q" and b: "budget (dom_event_json q)"
  shows "parseDomEvent (plain (dom_event_json q)) = Some q"
proof (cases q)
  case (DomHoverChanged epoch node summary)
  then show ?thesis using ok b
    by (cases node; cases summary) (simp_all add: event_reading dom_reading del: nonneg_integer.simps plain.simps(5,6))
next
  case (DomSelectionChanged epoch selection node path)
  have "budget (nodes_json path)"
    by (rule nodes_member [OF b [unfolded DomSelectionChanged dom_event_json.simps], of "''ancestorPath''"]) simp
  then have "parseRecoverableAncestorPath (plain (nodes_json path)) True = Some path"
    using ok by (intro parse_path_sent) (simp_all add: DomSelectionChanged)
  then show ?thesis using ok b
    by (simp add: DomSelectionChanged event_reading dom_reading del: nonneg_integer.simps plain.simps(5,6))
next
  case (DomSelectionCleared epoch selection node)
  then show ?thesis using ok b
    by (simp add: event_reading dom_reading del: nonneg_integer.simps plain.simps(5,6))
next
  case (DomInvalidated epoch branches)
  have bb: "budget (JArr (map branch_json branches))"
    by (rule budget_member [OF b [unfolded DomInvalidated dom_event_json.simps], of "''branches''"]) simp
  have "parseInvalidationBranches (plain (JArr (map branch_json branches))) = Some branches"
    unfolding parseInvalidationBranches_def
  proof (rule bounded_array_plain [OF _ _ _ bb])
    fix b assume "b \<in> set branches"
    then show "parseInvalidationBranch (plain (branch_json b)) = Some b"
      using ok budget_item [OF bb] by (intro parse_branch_sent) (auto simp: DomInvalidated list_all_iff)
  qed (use ok in \<open>simp_all add: DomInvalidated DOM_MAX_INVALIDATION_BRANCHES_def\<close>)
  then show ?thesis using ok b
    by (simp add: DomInvalidated event_reading dom_reading del: nonneg_integer.simps plain.simps(5,6))
qed

lemma parse_event_ok: "parseDomEvent v = Some q \<Longrightarrow> dom_event_ok q \<and> budget (dom_event_json q)"
  by (auto simp: parseDomEvent_def bind_eq_Some_conv frozen_def assertSerializedMessageBudget_def Let_def
      own_part_eq pred_option_def parseInvalidationBranches_def split: if_splits
      dest!: parse_recoverable_ok bounded_array_ok [OF _ parse_branch_ok])

subsection \<open>Paths that fit\<close>

definition stripped :: "dom_node_view \<Rightarrow> dom_node_view" where
  "stripped n = n\<lparr>dn_attributes := [], dn_nodeValue := None, dn_systemId := None, dn_publicId := None\<rparr>"

definition bare :: "dom_node_view \<Rightarrow> dom_node_view" where
  "bare n = (stripped n)\<lparr>dn_locator := None\<rparr>"

text \<open>The least a path can be reduced to.\<close>

definition barest :: "bool \<Rightarrow> dom_node_view list \<Rightarrow> dom_node_view list" where
  "barest requireTargetLocator ns =
     (if requireTargetLocator then map bare (butlast ns) @ [stripped (last ns)] else map bare ns)"

lemma bare_stripped [simp]: "bare (stripped n) = bare n"
  by (simp add: bare_def stripped_def)

lemma reduce_presentation:
  "reduceDomNodeViewPresentationSnapshot n = Some n' \<Longrightarrow> stripped n' = stripped n"
  "reduceDomNodeViewPresentationSnapshot n = None \<longleftrightarrow> stripped n = n"
proof -
  show "reduceDomNodeViewPresentationSnapshot n = Some n' \<Longrightarrow> stripped n' = stripped n"
    by (auto simp: reduceDomNodeViewPresentationSnapshot_def stripped_def split: if_splits)
  show "reduceDomNodeViewPresentationSnapshot n = None \<longleftrightarrow> stripped n = n"
    by (cases n) (auto simp: reduceDomNodeViewPresentationSnapshot_def stripped_def)
qed

lemma remove_locator:
  "removeDomNodeViewLocator n = Some n' \<Longrightarrow> bare n' = bare n \<and> (stripped n = n \<longrightarrow> stripped n' = n')"
  "removeDomNodeViewLocator n = None \<longleftrightarrow> dn_locator n = None"
  by (cases n; auto simp: removeDomNodeViewLocator_def bare_def stripped_def split: if_splits)+

lemma stripped_locator: "stripped m = stripped n \<Longrightarrow> dn_locator m = dn_locator n"
  and stripped_bare: "stripped m = stripped n \<Longrightarrow> bare m = bare n"
  by (cases m; cases n; simp add: stripped_def bare_def)+

lemma map_bare: "map bare ns = map bare (map stripped ns)"
  by simp

lemma last_map_eq: "map f xs = map f ys \<Longrightarrow> ys \<noteq> [] \<Longrightarrow> xs \<noteq> [] \<and> f (last xs) = f (last ys)"
  by (cases xs rule: rev_cases; cases ys rule: rev_cases) auto

lemma change_last_None: "change_last f xs = None \<longleftrightarrow> (\<forall>x\<in>set xs. f x = None)"
  by (induction xs) (auto split: option.splits)

lemma change_last_map:
  assumes "\<And>x x'. f x = Some x' \<Longrightarrow> g x' = g x"
  shows "change_last f xs = Some ys \<Longrightarrow> map g ys = map g xs"
  by (induction xs arbitrary: ys) (auto simp: assms split: option.splits)

lemma change_last_all:
  assumes "\<And>x x'. f x = Some x' \<Longrightarrow> P x \<Longrightarrow> P x'"
  shows "change_last f xs = Some ys \<Longrightarrow> list_all P xs \<Longrightarrow> list_all P ys"
  by (induction xs arbitrary: ys) (auto simp: assms split: option.splits)

text \<open>What the reduction keeps: the nodes, their order, the locator of the target if it is required,
  and every locator as long as there is something else to give up.\<close>

definition kept :: "bool \<Rightarrow> dom_node_view list \<Rightarrow> dom_node_view list \<Rightarrow> bool" where
  "kept requireTargetLocator ns ms \<longleftrightarrow> map bare ms = map bare ns \<and>
     (requireTargetLocator \<longrightarrow> ms \<noteq> [] \<longrightarrow> stripped (last ms) = stripped (last ns)) \<and>
     (map stripped ms = map stripped ns \<or> list_all (\<lambda>n. stripped n = n) ms)"

lemma kept_refl: "kept t ns ns"
  by (simp add: kept_def)

lemma kept_step:
  assumes k: "kept t ns ms" and step: "next_reduction t ms = Some ms'" shows "kept t ns ms'"
proof (cases "change_last reduceDomNodeViewPresentationSnapshot ms")
  case (Some xs)
  then have m: "ms' = xs" "map stripped xs = map stripped ms"
    using step change_last_map [OF reduce_presentation(1) Some] by (simp_all add: next_reduction_def)
  have ne: "\<not> list_all (\<lambda>n. stripped n = n) ms"
    using Some change_last_None [of reduceDomNodeViewPresentationSnapshot ms]
    by (auto simp: reduce_presentation(2) list_all_iff)
  have b: "map bare xs = map bare ms" unfolding map_bare [of xs] map_bare [of ms] m(2) ..
  have same: "map stripped ms = map stripped ns" using k ne by (simp add: kept_def)
  have l: "xs \<noteq> [] \<Longrightarrow> stripped (last xs) = stripped (last ns)"
  proof -
    assume "xs \<noteq> []"
    then have "ns \<noteq> []" using m(2) same by auto
    then show ?thesis using last_map_eq [of stripped xs ns] m(2) same by simp
  qed
  show ?thesis using k b l m(2) same unfolding kept_def m(1) by simp
next
  case none: None
  then have st: "list_all (\<lambda>n. stripped n = n) ms"
    by (simp add: change_last_None reduce_presentation(2) list_all_iff)
  show ?thesis
  proof (cases t)
    case True
    then obtain front where f: "change_last removeDomNodeViewLocator (butlast ms) = Some front" "ms' = front @ [last ms]"
      using step none by (auto simp: next_reduction_def)
    have ms: "ms \<noteq> []" using f(1) by auto
    then have ms2: "ms = butlast ms @ [last ms]" by simp
    have "map bare front = map bare (butlast ms)"
      using change_last_map [OF _ f(1), of bare] remove_locator(1) by blast
    then have "map bare ms' = map bare ms" using ms2 f(2) by (metis list.map map_append)
    moreover have "list_all (\<lambda>n. stripped n = n) front"
      using change_last_all [OF _ f(1), of "\<lambda>n. stripped n = n"] remove_locator(1) st
      by (metis (no_types, lifting) in_set_butlastD list_all_iff)
    moreover have "stripped (last ms) = last ms" using st ms by (simp add: list_all_iff)
    ultimately show ?thesis using k ms True by (simp add: kept_def f(2))
  next
    case False
    then have c: "change_last removeDomNodeViewLocator ms = Some ms'" using step none by (simp add: next_reduction_def)
    have "map bare ms' = map bare ms" using change_last_map [OF _ c, of bare] remove_locator(1) by blast
    moreover have "list_all (\<lambda>n. stripped n = n) ms'"
      using change_last_all [OF _ c, of "\<lambda>n. stripped n = n"] remove_locator(1) st by blast
    ultimately show ?thesis using k False by (simp add: kept_def)
  qed
qed

lemma bare_fixed: "stripped n = n \<Longrightarrow> dn_locator n = None \<Longrightarrow> bare n = n"
  by (cases n) (simp add: bare_def)

lemma no_reduction:
  assumes "next_reduction t ms = None" and "kept t ns ms" and "ns \<noteq> []" shows "ms = barest t ns"
proof -
  have st: "\<forall>n\<in>set ms. stripped n = n"
    using assms(1) by (auto simp: next_reduction_def change_last_None reduce_presentation(2) split: option.splits)
  have b: "map bare ms = map bare ns" and l: "t \<Longrightarrow> ms \<noteq> [] \<Longrightarrow> stripped (last ms) = stripped (last ns)"
    using assms(2) by (simp_all add: kept_def)
  have ne: "ms \<noteq> []" using b assms(3) by auto
  show ?thesis
  proof (cases t)
    case True
    then have "\<forall>n\<in>set (butlast ms). dn_locator n = None"
      using assms(1) by (auto simp: next_reduction_def change_last_None remove_locator(2) split: option.splits)
    then have "map bare (butlast ms) = butlast ms"
      using st bare_fixed by (metis in_set_butlastD map_idI)
    moreover have "map bare (butlast ms) = map bare (butlast ns)" using b by (metis map_butlast)
    moreover have "last ms = stripped (last ns)" using l True ne st by (metis last_in_set)
    ultimately show ?thesis using True ne by (simp add: barest_def) (metis append_butlast_last_id)
  next
    case False
    then have "\<forall>n\<in>set ms. dn_locator n = None"
      using assms(1) by (auto simp: next_reduction_def change_last_None remove_locator(2) split: option.splits)
    then have "map bare ms = ms" using st bare_fixed by (simp add: map_idI)
    then show ?thesis using b False by (simp add: barest_def)
  qed
qed

lemma reduce_path_result:
  "kept t ns ms \<Longrightarrow> ns \<noteq> [] \<Longrightarrow>
   (case reduce_path t envelope ms of
      None \<Rightarrow> \<not> budget (envelope (barest t ns))
    | Some path \<Rightarrow> budget (envelope path) \<and> kept t ns path)"
proof (induction t envelope ms rule: reduce_path.induct)
  case (1 t envelope ms)
  show ?case
  proof (cases "budget (envelope ms)")
    case True
    then show ?thesis using "1.prems" by (simp add: reduce_path.simps)
  next
    case False
    show ?thesis
    proof (cases "next_reduction t ms")
      case None
      have "reduce_path t envelope ms = None" using False None by (simp add: reduce_path.simps [of t envelope ms])
      then show ?thesis using False no_reduction [OF None "1.prems"] by simp
    next
      case (Some ms')
      then show ?thesis using "1.IH" [OF False Some kept_step [OF "1.prems"(1) Some] "1.prems"(2)] False
        by (simp add: reduce_path.simps [of t envelope ms])
    qed
  qed
qed

text \<open>
  What may be given up, and in which order: first what the nodes show, from the last node to the first and of
  each its attributes, value, system and public identifier; then the locators, from the last node
  to the first, except that of the target if it is required. What is not there is skipped.
\<close>

datatype node_part = AttributesPart | ValuePart | SystemIdPart | PublicIdPart | LocatorPart

fun without :: "node_part \<Rightarrow> dom_node_view \<Rightarrow> dom_node_view" where
  "without AttributesPart n = n\<lparr>dn_attributes := []\<rparr>"
| "without ValuePart n = n\<lparr>dn_nodeValue := None\<rparr>"
| "without SystemIdPart n = n\<lparr>dn_systemId := None\<rparr>"
| "without PublicIdPart n = n\<lparr>dn_publicId := None\<rparr>"
| "without LocatorPart n = n\<lparr>dn_locator := None\<rparr>"

fun give_up :: "nat \<times> node_part \<Rightarrow> dom_node_view list \<Rightarrow> dom_node_view list" where
  "give_up (i, p) ns = ns[i := without p (ns ! i)]"

definition reduction_order :: "bool \<Rightarrow> nat \<Rightarrow> (nat \<times> node_part) list" where
  "reduction_order requireTargetLocator n =
     List.product (rev [0..<n]) [AttributesPart, ValuePart, SystemIdPart, PublicIdPart] @
     List.product (rev [0..<if requireTargetLocator then n - 1 else n]) [LocatorPart]"

fun shrinking :: "(nat \<times> node_part) list \<Rightarrow> dom_node_view list \<Rightarrow> dom_node_view list list" where
  "shrinking [] ns = []"
| "shrinking (x # xs) ns =
     (if give_up x ns = ns then shrinking xs ns else give_up x ns # shrinking xs (give_up x ns))"

lemma without_stable:
  "without p (without p n) = without p n"
  "without q n = n \<Longrightarrow> without q (without p n) = without p n"
  by (cases p; simp; fail)+ (cases p; cases q; cases n; simp)

lemma give_up_stable: "give_up y ns = ns \<Longrightarrow> give_up y (give_up x ns) = give_up x ns"
proof (cases x; cases y)
  fix i p j q assume x: "x = (i, p)" and y: "y = (j, q)" and same: "give_up y ns = ns"
  show ?thesis
  proof (cases "j < length ns")
    case True
    then have "without q (ns ! j) = ns ! j" using same unfolding y give_up.simps by (metis nth_list_update_eq)
    then have "without q (give_up x ns ! j) = give_up x ns ! j"
      using True without_stable(2) by (cases "i = j") (simp_all add: x)
    then show ?thesis using True by (simp add: y list_update_same_conv)
  qed (simp add: x y not_less list_update_beyond)
qed

lemma give_up_twice: "give_up x (give_up x ns) = give_up x ns"
  by (cases x; cases "fst x < length ns") (simp_all add: without_stable(1) not_less list_update_beyond)

lemma shrinking_skip: "list_all (\<lambda>x. give_up x ns = ns) xs \<Longrightarrow> shrinking (xs @ ys) ns = shrinking ys ns"
  by (induction xs) auto

lemma find_append: "find P (xs @ ys) = (case find P xs of None \<Rightarrow> find P ys | Some x \<Rightarrow> Some x)"
  by (induction xs) auto

lemma find_in: "find P xs = Some x \<Longrightarrow> x \<in> set xs"
  by (induction xs) (auto split: if_splits)

lemma find_map_eq: "find P (map f xs) = map_option f (find (\<lambda>x. P (f x)) xs)"
  by (induction xs) auto

lemma shrinking_find:
  "shrinking xs ns = (case find (\<lambda>x. give_up x ns \<noteq> ns) xs of None \<Rightarrow> []
     | Some x \<Rightarrow> give_up x ns # shrinking xs (give_up x ns))"
proof (cases "find (\<lambda>x. give_up x ns \<noteq> ns) xs")
  case None
  then have "list_all (\<lambda>x. give_up x ns = ns) xs" unfolding find_None_iff list_all_iff by blast
  then show ?thesis using None shrinking_skip [of ns xs "[]"] by simp
next
  case (Some x)
  then obtain k where k: "k < length xs" "give_up (xs ! k) ns \<noteq> ns" "x = xs ! k" "\<forall>j<k. give_up (xs ! j) ns = ns"
    by (auto simp: find_Some_iff)
  have xs: "xs = take k xs @ x # drop (Suc k) xs" using k(1,3) by (simp add: id_take_nth_drop)
  have skip: "list_all (\<lambda>y. give_up y ns = ns) (take k xs)" using k(1,4) by (auto simp: list_all_length)
  then have "list_all (\<lambda>y. give_up y (give_up x ns) = give_up x ns) (take k xs)"
    using give_up_stable unfolding list_all_iff by blast
  then have "shrinking xs (give_up x ns) = shrinking (drop (Suc k) xs) (give_up x ns)"
    by (subst xs) (simp add: shrinking_skip give_up_twice)
  moreover have "shrinking xs ns = give_up x ns # shrinking (drop (Suc k) xs) (give_up x ns)"
    by (subst xs) (use k(2,3) skip in \<open>simp add: shrinking_skip\<close>)
  ultimately show ?thesis using Some by simp
qed

text \<open>The loops of the code try the parts in this order.\<close>

lemma rev_upt_Suc: "rev [0..<Suc n] = map Suc (rev [0..<n]) @ [0]"
  by (simp add: rev_map upt_conv_Cons del: upt_Suc flip: map_Suc_upt)

lemma product_shift: "List.product (map Suc xs @ [0]) ps = map (apfst Suc) (List.product xs ps) @ map (Pair 0) ps"
  by (induction xs) auto

lemma give_up_Suc: "give_up (apfst Suc x) (n # ns) = n # give_up x ns"
  by (cases x) simp

lemma change_last_find:
  assumes f: "\<And>n. f n = map_option (\<lambda>p. without p n) (find (\<lambda>p. without p n \<noteq> n) ps)"
  shows "change_last f ns = map_option (\<lambda>x. give_up x ns)
    (find (\<lambda>x. give_up x ns \<noteq> ns) (List.product (rev [0..<length ns]) ps))"
proof (induction ns)
  case (Cons n ns)
  let ?L = "List.product (rev [0..<length ns]) ps"
  have "List.product (rev [0..<length (n # ns)]) ps = map (apfst Suc) ?L @ map (Pair 0) ps"
    by (simp only: length_Cons rev_upt_Suc product_shift)
  then have l: "find (\<lambda>x. give_up x (n # ns) \<noteq> n # ns) (List.product (rev [0..<length (n # ns)]) ps) =
      (case find (\<lambda>x. give_up x ns \<noteq> ns) ?L of
         None \<Rightarrow> map_option (Pair 0) (find (\<lambda>p. without p n \<noteq> n) ps)
       | Some x \<Rightarrow> Some (apfst Suc x))"
    by (simp only: find_append find_map_eq give_up_Suc list.inject) (simp split: option.split)
  show ?case
  proof (cases "find (\<lambda>x. give_up x ns \<noteq> ns) ?L")
    case None
    then show ?thesis unfolding l change_last.simps Cons.IH by (simp add: f option.map_comp comp_def)
  next
    case (Some x)
    then show ?thesis unfolding l change_last.simps Cons.IH by (simp add: give_up_Suc del: give_up.simps)
  qed
qed simp

lemma reduce_find: "reduceDomNodeViewPresentationSnapshot n = map_option (\<lambda>p. without p n)
    (find (\<lambda>p. without p n \<noteq> n) [AttributesPart, ValuePart, SystemIdPart, PublicIdPart])"
  by (cases n) (auto simp: reduceDomNodeViewPresentationSnapshot_def)

lemma remove_find: "removeDomNodeViewLocator n = map_option (\<lambda>p. without p n) (find (\<lambda>p. without p n \<noteq> n) [LocatorPart])"
  by (cases n) (auto simp: removeDomNodeViewLocator_def)

lemma give_up_front: "i < length ns - 1 \<Longrightarrow> give_up (i, p) ns = give_up (i, p) (butlast ns) @ [last ns]"
  by (cases ns rule: rev_cases) (simp_all add: nth_append list_update_append)

lemma find_cong_set: "(\<And>x. x \<in> set xs \<Longrightarrow> P x = Q x) \<Longrightarrow> find P xs = find Q xs"
  by (induction xs) auto

lemma next_reduction_find:
  "next_reduction t ns = map_option (\<lambda>x. give_up x ns) (find (\<lambda>x. give_up x ns \<noteq> ns) (reduction_order t (length ns)))"
proof -
  have front: "map_option (\<lambda>front. front @ [last ns]) (change_last removeDomNodeViewLocator (butlast ns)) =
      map_option (\<lambda>x. give_up x ns) (find (\<lambda>x. give_up x ns \<noteq> ns) (List.product (rev [0..<length ns - 1]) [LocatorPart]))"
  proof -
    let ?xs = "List.product (rev [0..<length ns - 1]) [LocatorPart]"
    have same: "give_up x ns = give_up x (butlast ns) @ [last ns]" if x: "x \<in> set ?xs" for x
    proof -
      have "x \<in> set (rev [0..<length ns - 1]) \<times> {LocatorPart}" using x by (simp del: product.simps)
      then obtain i where "x = (i, LocatorPart)" "i < length ns - 1" by auto
      then show ?thesis using give_up_front by blast
    qed
    have "give_up x ns \<noteq> ns \<longleftrightarrow> give_up x (butlast ns) \<noteq> butlast ns" if "x \<in> set ?xs" for x
    proof -
      have "ns \<noteq> []" using that by (cases ns) auto
      then have "ns = butlast ns @ [last ns]" by simp
      then show ?thesis using same [OF that] by (metis append_same_eq)
    qed
    then have f: "find (\<lambda>x. give_up x ns \<noteq> ns) ?xs = find (\<lambda>x. give_up x (butlast ns) \<noteq> butlast ns) ?xs"
      by (rule find_cong_set)
    have c: "change_last removeDomNodeViewLocator (butlast ns) = map_option (\<lambda>x. give_up x (butlast ns))
        (find (\<lambda>x. give_up x (butlast ns) \<noteq> butlast ns) ?xs)"
      using change_last_find [OF remove_find, of "butlast ns"] by simp
    show ?thesis
    proof (cases "find (\<lambda>x. give_up x (butlast ns) \<noteq> butlast ns) ?xs")
      case (Some x)
      then have "give_up x ns = give_up x (butlast ns) @ [last ns]" using same find_in by metis
      then show ?thesis unfolding f c Some by simp
    qed (simp only: f c option.map)
  qed
  show ?thesis unfolding next_reduction_def reduction_order_def find_append
    unfolding front change_last_find [OF remove_find, of ns] change_last_find [OF reduce_find]
    by (cases "find (\<lambda>x. give_up x ns \<noteq> ns) (List.product (rev [0..<length ns])
      [AttributesPart, ValuePart, SystemIdPart, PublicIdPart])") simp_all
qed

lemma length_give_up [simp]: "length (give_up x ns) = length ns"
  by (cases x) simp

lemma reduce_path_find:
  "reduce_path t envelope ns = find (\<lambda>path. budget (envelope path)) (ns # shrinking (reduction_order t (length ns)) ns)"
proof (induction t envelope ns rule: reduce_path.induct)
  case (1 t envelope ns)
  show ?case
  proof (cases "budget (envelope ns)")
    case False
    show ?thesis
    proof (cases "find (\<lambda>x. give_up x ns \<noteq> ns) (reduction_order t (length ns))")
      case None
      then have n: "next_reduction t ns = None" by (simp add: next_reduction_find)
      show ?thesis by (subst reduce_path.simps, subst shrinking_find) (simp add: False n None)
    next
      case (Some x)
      then have n: "next_reduction t ns = Some (give_up x ns)" by (simp add: next_reduction_find)
      show ?thesis using "1.IH" [OF False n] by (subst reduce_path.simps, subst shrinking_find) (simp add: False n Some)
    qed
  qed (simp add: reduce_path.simps)
qed

text \<open>Each of the paths that are tried gives up exactly one thing more.\<close>

lemma without_weight: "without p n \<noteq> n \<Longrightarrow> Suc (node_weight (without p n)) = node_weight n"
  by (cases p; cases n) (auto simp: node_weight_def)

lemma give_up_weight: "give_up x ns \<noteq> ns \<Longrightarrow> Suc (path_weight (give_up x ns)) = path_weight ns"
proof (cases x)
  case (Pair i p)
  assume a: "give_up x ns \<noteq> ns"
  then have i: "i < length ns" and c: "without p (ns ! i) \<noteq> ns ! i"
    by (auto simp: Pair) (metis list_update_beyond not_less)
  have ns: "ns = take i ns @ ns ! i # drop (Suc i) ns" using i by (simp add: id_take_nth_drop)
  have "give_up x ns = take i ns @ without p (ns ! i) # drop (Suc i) ns"
    using i by (simp add: Pair upd_conv_take_nth_drop)
  moreover have "path_weight ns = path_weight (take i ns) + node_weight (ns ! i) + path_weight (drop (Suc i) ns)"
    by (subst ns) (simp add: path_weight_def)
  ultimately show ?thesis using without_weight [OF c] by (simp add: path_weight_def)
qed

lemma shrinking_weight:
  "i < length (ns # shrinking xs ns) \<Longrightarrow> path_weight ((ns # shrinking xs ns) ! i) + i = path_weight ns"
proof (induction xs ns arbitrary: i rule: shrinking.induct)
  case (2 x xs ns)
  show ?case
  proof (cases "give_up x ns = ns")
    case False
    show ?thesis
    proof (cases i)
      case (Suc j)
      then have "path_weight ((give_up x ns # shrinking xs (give_up x ns)) ! j) + j = path_weight (give_up x ns)"
        using "2.IH"(2) [OF False, of j] "2.prems" False by simp
      then show ?thesis using give_up_weight [OF False] False Suc by simp
    qed simp
  qed (use 2 in simp)
qed simp

lemma snapshot_views: "those (map snapshotDomNodeViewForEgress ns) =
    (if list_all (\<lambda>n. pred_option locator_ok (dn_locator n)) ns then Some ns else None)"
proof -
  have "snapshotDomNodeViewForEgress n = (if pred_option locator_ok (dn_locator n) then Some n else None)" for n
    by (cases "dn_locator n") (simp_all add: snapshotDomNodeViewForEgress_def parse_locator_value)
  then show ?thesis by (induction ns) auto
qed

subsection \<open>Properties\<close>

text \<open>C33:
  The messages about the DOM tree: a request, response or event is accepted from somewhere exactly
  when it is well formed and its text fits into 64 KiB, and then it is also read back unchanged
  when it is sent itself. Well formed means in particular that a node is of one shape for its kind,
  identifiers, labels and lists are bounded, the nodes of a root and of a path are distinct, and a
  locator response names the last node of its path.
\<close>
theorem dom_messages_round_trip:
  "((\<exists>v. parseDomRequest v = Some q) \<longleftrightarrow> dom_request_ok q \<and> budget (dom_request_json q)) \<and>
   ((\<exists>v. parseDomResponse v = Some p) \<longleftrightarrow> dom_response_ok p \<and> budget (dom_response_json p)) \<and>
   ((\<exists>v. parseDomEvent v = Some e) \<longleftrightarrow> dom_event_ok e \<and> budget (dom_event_json e)) \<and>
   (parseDomRequest (plain (dom_request_json q)) = Some q \<longleftrightarrow> dom_request_ok q \<and> budget (dom_request_json q)) \<and>
   (parseDomResponse (plain (dom_response_json p)) = Some p \<longleftrightarrow> dom_response_ok p \<and> budget (dom_response_json p)) \<and>
   (parseDomEvent (plain (dom_event_json e)) = Some e \<longleftrightarrow> dom_event_ok e \<and> budget (dom_event_json e))"
  using parse_request_ok parse_request_sent parse_response_ok parse_response_sent parse_event_ok parse_event_sent
  by metis

text \<open>C34:
  A path of nodes is made to fit into a message, and gives up no more than it has to. Unless the path is
  empty, too long, has a broken locator or lacks the locator it needs, the result is the first path
  whose message is within the budget among the path itself and the ones that follow from it by giving
  up one thing after the other in the fixed order, each exactly one thing more than the one before;
  there is no result exactly if none of them fits. A result keeps every node, and every locator as
  long as there is something else to give up, the target's in any case if it is required.
\<close>
theorem dom_path_fits:
  "let paths = views # shrinking (reduction_order requireTargetLocator (length views)) views in
   boundDomNodeViewPathForEnvelope views envelope requireTargetLocator =
     (if views = [] \<or> length views > DOM_MAX_ANCESTOR_PATH_LENGTH \<or>
         \<not> list_all (\<lambda>n. pred_option locator_ok (dn_locator n)) views \<or>
         requireTargetLocator \<and> dn_locator (last views) = None
      then None else find (\<lambda>path. budget (envelope path)) paths) \<and>
   (\<forall>i<length paths. path_weight (paths ! i) + i = path_weight views) \<and>
   pred_option (kept requireTargetLocator views) (boundDomNodeViewPathForEnvelope views envelope requireTargetLocator)"
proof -
  let ?paths = "views # shrinking (reduction_order requireTargetLocator (length views)) views"
  have e: "boundDomNodeViewPathForEnvelope views envelope requireTargetLocator =
     (if views = [] \<or> length views > DOM_MAX_ANCESTOR_PATH_LENGTH \<or>
         \<not> list_all (\<lambda>n. pred_option locator_ok (dn_locator n)) views \<or>
         requireTargetLocator \<and> dn_locator (last views) = None
      then None else reduce_path requireTargetLocator envelope views)"
    by (auto simp: boundDomNodeViewPathForEnvelope_def snapshot_views guard_def)
  have k: "pred_option (kept requireTargetLocator views) (boundDomNodeViewPathForEnvelope views envelope requireTargetLocator)"
    using reduce_path_result [of requireTargetLocator views views envelope, OF kept_refl] unfolding e
    by (auto split: option.splits)
  have w: "\<forall>i<length ?paths. path_weight (?paths ! i) + i = path_weight views"
    using shrinking_weight [of _ views] by blast
  show ?thesis using e k w unfolding Let_def reduce_path_find by blast
qed

definition example_node :: dom_node_view where
  "example_node = \<lparr>dn_nodeRef = js ''n1'', dn_kind = KindElement, dn_nodeType = 1, dn_nodeName = js ''DIV'',
     dn_nodeValue = None, dn_publicId = None, dn_systemId = None,
     dn_attributes = [\<lparr>ia_name = js ''id'', ia_value = js ''main''\<rparr>], dn_childCount = 2,
     dn_relationship = RelDom, dn_selectable = True, dn_label = js ''div'', dn_expandable = True,
     dn_inaccessible = None, dn_branchRevision = 3, dn_locator = None\<rparr>"

text \<open>An envelope that only fits without the attributes.\<close>

definition example_envelope :: "dom_node_view list \<Rightarrow> json" where
  "example_envelope ns = JStr (if list_all (\<lambda>n. dn_attributes n = []) ns then [] else replicate 70000 0)"

theorem dom_path_fits_witness:
  "boundDomNodeViewPathForEnvelope [example_node] example_envelope False = Some [stripped example_node] \<and>
   path_weight [stripped example_node] + 1 = path_weight [example_node]"
proof -
  have small: "budget (JStr [])" by (simp add: domProtocolEnvelopeWithinBudget_def DOM_MAX_SERIALIZED_BYTES_def json_quote_def)
  have large: "\<not> budget (JStr (replicate 70000 0))"
    by (simp add: domProtocolEnvelopeWithinBudget_def DOM_MAX_SERIALIZED_BYTES_def utf8_quote_zeros)
  have e: "example_envelope [example_node] = JStr (replicate 70000 0)" "example_envelope [stripped example_node] = JStr []"
    by (simp_all add: example_envelope_def example_node_def stripped_def)
  have p: "shrinking (reduction_order False (length [example_node])) [example_node] = [[stripped example_node]]"
    by (simp add: reduction_order_def example_node_def stripped_def)
  note t = dom_path_fits [where views = "[example_node]" and envelope = example_envelope and requireTargetLocator = False,
      unfolded Let_def p]
  have "dn_locator example_node = None" by (simp add: example_node_def)
  then have "boundDomNodeViewPathForEnvelope [example_node] example_envelope False = Some [stripped example_node]"
    using conjunct1 [OF t] e small large by (simp add: DOM_MAX_ANCESTOR_PATH_LENGTH_def)
  moreover have "path_weight [stripped example_node] + 1 = path_weight [example_node]"
    using conjunct1 [OF conjunct2 [OF t], rule_format, of 1] by simp
  ultimately show ?thesis by blast
qed

end
