(* ===== verification/Styles_Protocol.thy ===== *)
theory Styles_Protocol
  imports Port_Json
begin

text \<open>
  The messages about the styles of the selected element
  (\<^verbatim>\<open>browser-extension-core/src/stylesProtocol.ts\<close> with the types of \<^verbatim>\<open>matchedStylesTypes.ts\<close>):
  requests, responses and events, their parsers, and the counters that bound a response as a whole.
\<close>

subsection \<open>Matched styles\<close>

definition STYLES_MAX_RESPONSE_BYTES :: nat where "STYLES_MAX_RESPONSE_BYTES = 512 * 1024"
definition STYLES_MAX_RULES :: nat where "STYLES_MAX_RULES = lim_cssRules INSPECT_LIMITS"
definition STYLES_MAX_DECLARATIONS_PER_RULE :: nat where
  "STYLES_MAX_DECLARATIONS_PER_RULE = lim_declarationsPerRule INSPECT_LIMITS"
definition STYLES_MAX_INHERITED_GROUPS :: nat where "STYLES_MAX_INHERITED_GROUPS = 32"
definition STYLES_MAX_CONTEXTS :: nat where "STYLES_MAX_CONTEXTS = lim_cssRuleDepth INSPECT_LIMITS"
definition STYLES_MAX_MATCHING_SELECTOR_INDICES :: nat where "STYLES_MAX_MATCHING_SELECTOR_INDICES = 256"
definition STYLES_MAX_DIAGNOSTICS :: nat where "STYLES_MAX_DIAGNOSTICS = 64"
definition STYLES_MAX_IDENTIFIER_LENGTH :: nat where "STYLES_MAX_IDENTIFIER_LENGTH = 128"

datatype pseudo_state = PseudoHover | PseudoFocus

fun pseudo_text :: "pseudo_state \<Rightarrow> string" where
  "pseudo_text PseudoHover = ''hover''"
| "pseudo_text PseudoFocus = ''focus''"

text \<open>States, reasons, context kinds and error codes are the texts of the sets of the code.\<close>

definition DECLARATION_STATES :: "string list" where
  "DECLARATION_STATES = [''winning-known-author'', ''overridden-known-author'', ''inactive'', ''unknown'']"

definition DECLARATION_REASONS :: "string list" where
  "DECLARATION_REASONS = [''highest-precedence-known-author-declaration'', ''lower-precedence-author-declaration'',
     ''inactive-group-condition'', ''unsupported-cascade-layer'', ''unsupported-cascade-scope'',
     ''unsupported-container-query'', ''unsupported-starting-style'', ''unsupported-group-context'',
     ''unknown-group-applicability'', ''custom-property-cascade'', ''variable-dependent-value'',
     ''animation-or-transition-cascade'', ''unsupported-shorthand'', ''inherited-author-declaration'',
     ''unsupported-selector-specificity'']"

definition CONTEXT_KINDS :: "string list" where
  "CONTEXT_KINDS = [''media'', ''supports'', ''layer'', ''scope'', ''container'', ''starting-style'', ''unknown'']"

definition STYLES_ERROR_CODES :: "string list" where
  "STYLES_ERROR_CODES = [''invalid-request'', ''stale-document'', ''stale-selection'', ''stale-styles'',
     ''stale-pseudo-state'', ''unknown-node'', ''node-unavailable'', ''cancelled'', ''internal-error'']"

record matched_declaration =
  md_ruleRef :: jstring
  md_property :: jstring
  md_value :: jstring
  md_important :: bool
  md_valueTruncated :: bool
  md_state :: jstring
  md_reason :: jstring

record css_context =
  cx_kind :: jstring
  cx_text :: jstring

record matched_rule_source =
  gs_sourceUrl :: "jstring option"
  gs_start :: "(int \<times> int) option"
  gs_end :: "(int \<times> int) option"
  gs_rulePath :: jstring

record matched_rule =
  mr_ruleRef :: jstring
  mr_selectorText :: jstring
  mr_matchingSelectorIndices :: "int list"
  mr_declarations :: "matched_declaration list"
  mr_declarationsTruncated :: "bool option"
  mr_contexts :: "css_context list"
  mr_contextsTruncated :: "bool option"
  mr_mediaTruncated :: "bool option"
  mr_source :: "matched_rule_source option"

record inherited_rules =
  ih_ancestorIndex :: int
  ih_elementName :: jstring
  ih_rules :: "matched_rule list"

record matched_styles =
  ms_documentEpoch :: int
  ms_selectionRevision :: int
  ms_stylesRevision :: int
  ms_stylesheetRevision :: int
  ms_pseudoStateRevision :: int
  ms_pseudoStates :: "pseudo_state list"
  ms_nodeRef :: jstring
  ms_inline :: "matched_rule option"
  ms_rules :: "matched_rule list"
  ms_inherited :: "inherited_rules list"
  ms_inaccessibleStylesheetCount :: int
  ms_unsupportedRuleCount :: int
  ms_approximateRuleCount :: int
  ms_partial :: bool
  ms_diagnostics :: "jstring list"

subsection \<open>Messages\<close>

text \<open>The document epoch, node and selection revision that every message about a node carries.\<close>

record styles_target =
  st_documentEpoch :: int
  st_nodeRef :: jstring
  st_selectionRevision :: int

text \<open>The styles, stylesheet and pseudo state revisions.\<close>

record styles_revisions =
  sr_stylesRevision :: int
  sr_stylesheetRevision :: int
  sr_pseudoStateRevision :: int

datatype styles_request =
    StylesGetMatched jstring styles_target int "pseudo_state list" bool
  | StylesSetPseudoStates jstring styles_target int int "pseudo_state list"

datatype styles_response =
    StylesMatched jstring styles_target styles_revisions "pseudo_state list" matched_styles
  | StylesPseudoStates jstring styles_target styles_revisions "pseudo_state list" int int int
  | StylesError jstring jstring

datatype styles_event =
    StylesInvalidated int styles_revisions "pseudo_state list"
  | StylesInspectPublicationRenewed styles_target

subsection \<open>The data of a response\<close>

definition num_json :: "int \<Rightarrow> json" where "num_json n = JNum (JInt n)"
definition states_json :: "pseudo_state list \<Rightarrow> json" where
  "states_json ss = JArr (map (\<lambda>s. JStr (js (pseudo_text s))) ss)"

definition declaration_json :: "matched_declaration \<Rightarrow> json" where
  "declaration_json d = object_of
     [(''ruleRef'', Some (JStr (md_ruleRef d))), (''property'', Some (JStr (md_property d))),
      (''value'', Some (JStr (md_value d))), (''important'', Some (JBool (md_important d))),
      (''valueTruncated'', Some (JBool (md_valueTruncated d))), (''state'', Some (JStr (md_state d))),
      (''reason'', Some (JStr (md_reason d)))]"

definition context_json :: "css_context \<Rightarrow> json" where
  "context_json c = object_of [(''kind'', Some (JStr (cx_kind c))), (''text'', Some (JStr (cx_text c)))]"

definition source_json :: "matched_rule_source \<Rightarrow> json" where
  "source_json s = object_of
     [(''sourceUrl'', map_option JStr (gs_sourceUrl s)),
      (''startLine'', map_option (num_json \<circ> fst) (gs_start s)), (''startColumn'', map_option (num_json \<circ> snd) (gs_start s)),
      (''endLine'', map_option (num_json \<circ> fst) (gs_end s)), (''endColumn'', map_option (num_json \<circ> snd) (gs_end s)),
      (''rulePath'', Some (JStr (gs_rulePath s)))]"

definition rule_json :: "matched_rule \<Rightarrow> json" where
  "rule_json r = object_of
     [(''ruleRef'', Some (JStr (mr_ruleRef r))), (''selectorText'', Some (JStr (mr_selectorText r))),
      (''matchingSelectorIndices'', Some (JArr (map num_json (mr_matchingSelectorIndices r)))),
      (''declarations'', Some (JArr (map declaration_json (mr_declarations r)))),
      (''declarationsTruncated'', map_option JBool (mr_declarationsTruncated r)),
      (''contexts'', Some (JArr (map context_json (mr_contexts r)))),
      (''contextsTruncated'', map_option JBool (mr_contextsTruncated r)),
      (''mediaTruncated'', map_option JBool (mr_mediaTruncated r)),
      (''source'', map_option source_json (mr_source r))]"

definition inherited_json :: "inherited_rules \<Rightarrow> json" where
  "inherited_json i = object_of
     [(''ancestorIndex'', Some (num_json (ih_ancestorIndex i))), (''elementName'', Some (JStr (ih_elementName i))),
      (''rules'', Some (JArr (map rule_json (ih_rules i))))]"

definition styles_json :: "matched_styles \<Rightarrow> json" where
  "styles_json s = object_of
     [(''documentEpoch'', Some (num_json (ms_documentEpoch s))),
      (''selectionRevision'', Some (num_json (ms_selectionRevision s))),
      (''stylesRevision'', Some (num_json (ms_stylesRevision s))),
      (''stylesheetRevision'', Some (num_json (ms_stylesheetRevision s))),
      (''pseudoStateRevision'', Some (num_json (ms_pseudoStateRevision s))),
      (''pseudoStates'', Some (states_json (ms_pseudoStates s))),
      (''nodeRef'', Some (JStr (ms_nodeRef s))),
      (''inline'', map_option rule_json (ms_inline s)),
      (''rules'', Some (JArr (map rule_json (ms_rules s)))),
      (''inherited'', Some (JArr (map inherited_json (ms_inherited s)))),
      (''inaccessibleStylesheetCount'', Some (num_json (ms_inaccessibleStylesheetCount s))),
      (''unsupportedRuleCount'', Some (num_json (ms_unsupportedRuleCount s))),
      (''approximateRuleCount'', Some (num_json (ms_approximateRuleCount s))),
      (''partial'', Some (JBool (ms_partial s))),
      (''diagnostics'', Some (JArr (map JStr (ms_diagnostics s))))]"

fun styles_response_json :: "styles_response \<Rightarrow> json" where
  "styles_response_json (StylesMatched rid t v states styles) = object_of
     [(''type'', Some (JStr (js ''styles.matched''))), (''requestId'', Some (JStr rid)),
      (''documentEpoch'', Some (num_json (st_documentEpoch t))), (''nodeRef'', Some (JStr (st_nodeRef t))),
      (''selectionRevision'', Some (num_json (st_selectionRevision t))),
      (''stylesRevision'', Some (num_json (sr_stylesRevision v))),
      (''stylesheetRevision'', Some (num_json (sr_stylesheetRevision v))),
      (''pseudoStateRevision'', Some (num_json (sr_pseudoStateRevision v))),
      (''pseudoStates'', Some (states_json states)), (''styles'', Some (styles_json styles))]"
| "styles_response_json (StylesPseudoStates rid t v states unsupported inaccessible approximate) = object_of
     [(''type'', Some (JStr (js ''styles.pseudoStates''))), (''requestId'', Some (JStr rid)),
      (''documentEpoch'', Some (num_json (st_documentEpoch t))), (''nodeRef'', Some (JStr (st_nodeRef t))),
      (''selectionRevision'', Some (num_json (st_selectionRevision t))),
      (''stylesRevision'', Some (num_json (sr_stylesRevision v))),
      (''stylesheetRevision'', Some (num_json (sr_stylesheetRevision v))),
      (''pseudoStateRevision'', Some (num_json (sr_pseudoStateRevision v))),
      (''states'', Some (states_json states)), (''unsupportedRuleCount'', Some (num_json unsupported)),
      (''inaccessibleStylesheetCount'', Some (num_json inaccessible)),
      (''approximateRuleCount'', Some (num_json approximate))]"
| "styles_response_json (StylesError rid code) = object_of
     [(''type'', Some (JStr (js ''styles.error''))), (''requestId'', Some (JStr rid)), (''code'', Some (JStr code))]"

definition stylesProtocolEnvelopeWithinBudget :: "nat \<Rightarrow> json \<Rightarrow> bool" where
  "stylesProtocolEnvelopeWithinBudget maximumBytes value \<longleftrightarrow> utf8ByteLength (json_text value) \<le> maximumBytes"

subsection \<open>Reading\<close>

definition enumerable_data :: "js_property \<Rightarrow> bool" where
  "enumerable_data d = (case d of (_, enumerable, v) \<Rightarrow> enumerable \<and> v \<noteq> None)"

definition record_fields :: "js_property list \<Rightarrow> data_record" where
  "record_fields ds = map (\<lambda>(key, _, v). (case key of StrKey k \<Rightarrow> k | SymKey \<Rightarrow> [], the v)) ds"

fun exactRecord :: "js_value \<Rightarrow> string list \<Rightarrow> string list \<Rightarrow> data_record option" where
  "exactRecord (VObject True ds) allowed optional =
     (let required = filter (\<lambda>key. key \<notin> set optional) allowed in
      if list_ex (\<lambda>d. fst d \<notin> set (map (\<lambda>k. StrKey (js k)) allowed)) ds \<or>
         list_ex (\<lambda>key. map_of ds (StrKey (js key)) = None) required \<or>
         length ds < length required \<or> length ds > length allowed \<or> \<not> list_all enumerable_data ds
      then None else Some (record_fields ds))"
| "exactRecord _ allowed optional = None"

fun recordType :: "js_value \<Rightarrow> js_value option" where
  "recordType (VObject True ds) =
     (if SymKey \<in> set (map fst ds) then None
      else (case map_of ds (StrKey (js ''type'')) of Some (True, Some v) \<Rightarrow> Some v | _ \<Rightarrow> None))"
| "recordType _ = None"

fun styles_array :: "nat \<Rightarrow> js_value \<Rightarrow> js_value list option" where
  "styles_array maximum (VArray len ds) =
     (if len > maximum \<or> length ds \<noteq> len then None
      else those (map (\<lambda>i. case map_of ds (StrKey (decimal i)) of Some (True, Some v) \<Rightarrow> Some v | _ \<Rightarrow> None) [0..<len]))"
| "styles_array maximum _ = None"

definition boundedArray :: "js_value \<Rightarrow> nat \<Rightarrow> (js_value \<Rightarrow> 'a option) \<Rightarrow> 'a list option" where
  "boundedArray value maximum parse = do { items \<leftarrow> styles_array maximum value; parse_items parse items }"

text \<open>The same with a counter that the parser of an item changes.\<close>

fun counted_items :: "(js_value \<Rightarrow> 's \<Rightarrow> ('a \<times> 's) option) \<Rightarrow> js_value list \<Rightarrow> 's \<Rightarrow> ('a list \<times> 's) option" where
  "counted_items parse [] s = Some ([], s)"
| "counted_items parse (v # vs) s =
     (case parse v s of None \<Rightarrow> None
      | Some (x, s') \<Rightarrow> map_option (\<lambda>(xs, s''). (x # xs, s'')) (counted_items parse vs s'))"

definition countedArray :: "js_value \<Rightarrow> nat \<Rightarrow> (js_value \<Rightarrow> 's \<Rightarrow> ('a \<times> 's) option) \<Rightarrow> 's \<Rightarrow> ('a list \<times> 's) option" where
  "countedArray value maximum parse s = do { items \<leftarrow> styles_array maximum value; counted_items parse items s }"

text \<open>\<^verbatim>\<open>/[\u0000-\u001f\u007f\u202a-\u202e\u2066-\u2069]/u\<close>\<close>

definition steering_unit :: "code_unit \<Rightarrow> bool" where
  "steering_unit c \<longleftrightarrow> c \<le> 0x1f \<or> c = 0x7f \<or> 0x202a \<le> c \<and> c \<le> 0x202e \<or> 0x2066 \<le> c \<and> c \<le> 0x2069"

definition styles_text_ok :: "nat \<Rightarrow> bool \<Rightarrow> jstring \<Rightarrow> bool" where
  "styles_text_ok maximum requireNonempty t \<longleftrightarrow>
     length t \<le> maximum \<and> \<not> (requireNonempty \<and> length t = 0) \<and> \<not> list_ex steering_unit t"

fun styles_text :: "nat \<Rightarrow> bool \<Rightarrow> js_value \<Rightarrow> jstring option" where
  "styles_text maximum requireNonempty (VStr t) = (if styles_text_ok maximum requireNonempty t then Some t else None)"
| "styles_text maximum requireNonempty _ = None"

definition styles_identifier :: "js_value \<Rightarrow> jstring option" where
  "styles_identifier = styles_text STYLES_MAX_IDENTIFIER_LENGTH True"

definition boundedRevision :: "nat \<Rightarrow> js_value \<Rightarrow> int option" where
  "boundedRevision maximum value = do { parsed \<leftarrow> nonneg_integer value; guard (\<not> parsed > int maximum); Some parsed }"

definition one_of :: "string list \<Rightarrow> js_value \<Rightarrow> jstring option" where
  "one_of texts v = (case v of VStr t \<Rightarrow> if t \<in> set (map js texts) then Some t else None | _ \<Rightarrow> None)"

text \<open>\<open>url\<close> is the URL parser.\<close>

definition publicUrl :: "page_url_parser \<Rightarrow> js_value \<Rightarrow> jstring option" where
  "publicUrl url value = do {
     candidate \<leftarrow> styles_text (lim_urlLength INSPECT_LIMITS) True value;
     u \<leftarrow> url candidate;
     guard (\<not> (u_protocol u \<noteq> js ''http:'' \<and> u_protocol u \<noteq> js ''https:'' \<or>
       u_username u \<noteq> [] \<or> u_password u \<noteq> [] \<or> u_hash u \<noteq> []));
     Some (u_href u) }"

text \<open>\<^verbatim>\<open>/^\d+(?:\.\d+)*$/\<close>\<close>

definition digits_path :: "jstring \<Rightarrow> bool" where
  "digits_path t = list_all (\<lambda>seg. seg \<noteq> [] \<and> list_all is_digit seg) (split_on 0x2e t)"

definition rulePath :: "js_value \<Rightarrow> jstring option" where
  "rulePath value = do {
     candidate \<leftarrow> styles_text (lim_selectorLength INSPECT_LIMITS) True value;
     guard (digits_path candidate);
     Some candidate }"

definition optionalPositive :: "data_record \<Rightarrow> string \<Rightarrow> int option option" where
  "optionalPositive r key = own_part r key (\<lambda>v. do { n \<leftarrow> nonneg_integer v; guard (\<not> n < 1); Some n })"

definition parse_pseudo_state :: "js_value \<Rightarrow> pseudo_state option" where
  "parse_pseudo_state v = (if v = VStr (js ''hover'') then Some PseudoHover
     else if v = VStr (js ''focus'') then Some PseudoFocus else None)"

definition pseudoStates :: "js_value \<Rightarrow> pseudo_state list option" where
  "pseudoStates value = do {
     parsed \<leftarrow> boundedArray value 2 parse_pseudo_state;
     guard (\<not> (length parsed = 2 \<and> (parsed ! 0 \<noteq> PseudoHover \<or> parsed ! 1 \<noteq> PseudoFocus)));
     Some parsed }"

definition samePseudoStates :: "pseudo_state list \<Rightarrow> pseudo_state list \<Rightarrow> bool" where
  "samePseudoStates left right \<longleftrightarrow> length left = length right \<and> list_all (\<lambda>(s, t). s = t) (zip left right)"

definition assertRevisionPair :: "int \<Rightarrow> int \<Rightarrow> unit option" where
  "assertRevisionPair stylesRevision stylesheetRevision = guard (\<not> stylesheetRevision > stylesRevision)"

definition assertRevisionTriple :: "styles_revisions \<Rightarrow> unit option" where
  "assertRevisionTriple v = do {
     assertRevisionPair (sr_stylesRevision v) (sr_stylesheetRevision v);
     guard (\<not> sr_pseudoStateRevision v > sr_stylesRevision v) }"

definition read_target :: "data_record \<Rightarrow> styles_target option" where
  "read_target r = do {
     epoch \<leftarrow> nonneg_integer (property r ''documentEpoch'');
     nodeRef \<leftarrow> styles_identifier (property r ''nodeRef'');
     selection \<leftarrow> nonneg_integer (property r ''selectionRevision'');
     Some \<lparr>st_documentEpoch = epoch, st_nodeRef = nodeRef, st_selectionRevision = selection\<rparr> }"

definition read_revisions :: "data_record \<Rightarrow> styles_revisions option" where
  "read_revisions r = do {
     styles \<leftarrow> nonneg_integer (property r ''stylesRevision'');
     stylesheet \<leftarrow> nonneg_integer (property r ''stylesheetRevision'');
     pseudo \<leftarrow> nonneg_integer (property r ''pseudoStateRevision'');
     Some \<lparr>sr_stylesRevision = styles, sr_stylesheetRevision = stylesheet, sr_pseudoStateRevision = pseudo\<rparr> }"

subsection \<open>Parts of the styles\<close>

definition parseDeclaration :: "js_value \<Rightarrow> matched_declaration option" where
  "parseDeclaration value = do {
     r \<leftarrow> exactRecord value [''ruleRef'', ''property'', ''value'', ''important'', ''valueTruncated'', ''state'', ''reason''] [];
     state \<leftarrow> one_of DECLARATION_STATES (property r ''state'');
     reason \<leftarrow> one_of DECLARATION_REASONS (property r ''reason'');
     ruleRef \<leftarrow> styles_identifier (property r ''ruleRef'');
     name \<leftarrow> styles_text (lim_propertyNameLength INSPECT_LIMITS) False (property r ''property'');
     v \<leftarrow> styles_text (lim_valueLength INSPECT_LIMITS) False (property r ''value'');
     important \<leftarrow> is_boolean (property r ''important'');
     valueTruncated \<leftarrow> is_boolean (property r ''valueTruncated'');
     Some \<lparr>md_ruleRef = ruleRef, md_property = name, md_value = v, md_important = important,
       md_valueTruncated = valueTruncated, md_state = state, md_reason = reason\<rparr> }"

definition parseContext :: "js_value \<Rightarrow> css_context option" where
  "parseContext value = do {
     r \<leftarrow> exactRecord value [''kind'', ''text''] [];
     kind \<leftarrow> one_of CONTEXT_KINDS (property r ''kind'');
     t \<leftarrow> styles_text (lim_selectorLength INSPECT_LIMITS) False (property r ''text'');
     Some \<lparr>cx_kind = kind, cx_text = t\<rparr> }"

text \<open>A line and its column, which are there together or not at all.\<close>

fun both :: "'a option \<Rightarrow> 'b option \<Rightarrow> ('a \<times> 'b) option option" where
  "both None None = Some None"
| "both (Some a) (Some b) = Some (Some (a, b))"
| "both _ _ = None"

definition parseSource :: "page_url_parser \<Rightarrow> js_value \<Rightarrow> matched_rule_source option" where
  "parseSource url value = do {
     r \<leftarrow> exactRecord value [''sourceUrl'', ''startLine'', ''startColumn'', ''endLine'', ''endColumn'', ''rulePath'']
       [''sourceUrl'', ''startLine'', ''startColumn'', ''endLine'', ''endColumn''];
     startLine \<leftarrow> optionalPositive r ''startLine'';
     startColumn \<leftarrow> optionalPositive r ''startColumn'';
     endLine \<leftarrow> optionalPositive r ''endLine'';
     endColumn \<leftarrow> optionalPositive r ''endColumn'';
     start \<leftarrow> both startLine startColumn;
     finish \<leftarrow> both endLine endColumn;
     guard (\<not> (finish \<noteq> None \<and> start = None));
     guard (\<not> (case (start, finish) of
         (Some (sl, sc), Some (el, ec)) \<Rightarrow> el < sl \<or> el = sl \<and> ec \<le> sc
       | _ \<Rightarrow> False));
     sourceUrl \<leftarrow> own_part r ''sourceUrl'' (publicUrl url);
     path \<leftarrow> rulePath (property r ''rulePath'');
     Some \<lparr>gs_sourceUrl = sourceUrl, gs_start = start, gs_end = finish, gs_rulePath = path\<rparr> }"

record parse_budget =
  pb_rules :: nat
  pb_declarations :: nat
  pb_contexts :: nat
  pb_matchingSelectorIndices :: nat

definition no_parts :: parse_budget where
  "no_parts = \<lparr>pb_rules = 0, pb_declarations = 0, pb_contexts = 0, pb_matchingSelectorIndices = 0\<rparr>"

text \<open>\<^verbatim>\<open>countNested\<close> for each of its two counters.\<close>

definition count_contexts :: "nat \<Rightarrow> parse_budget \<Rightarrow> parse_budget option" where
  "count_contexts n b = (let total = pb_contexts b + n in
     if total > STYLES_MAX_RULES then None else Some (b\<lparr>pb_contexts := total\<rparr>))"

definition count_indices :: "nat \<Rightarrow> parse_budget \<Rightarrow> parse_budget option" where
  "count_indices n b = (let total = pb_matchingSelectorIndices b + n in
     if total > STYLES_MAX_RULES * 2 then None else Some (b\<lparr>pb_matchingSelectorIndices := total\<rparr>))"

definition RULE_KEYS :: "string list" where
  "RULE_KEYS = [''ruleRef'', ''selectorText'', ''matchingSelectorIndices'', ''declarations'',
     ''declarationsTruncated'', ''contexts'', ''contextsTruncated'', ''mediaTruncated'', ''source'']"

definition parseMatchedRule :: "page_url_parser \<Rightarrow> js_value \<Rightarrow> parse_budget \<Rightarrow> (matched_rule \<times> parse_budget) option" where
  "parseMatchedRule url value b0 = do {
     let b1 = b0\<lparr>pb_rules := pb_rules b0 + 1\<rparr>;
     guard (\<not> pb_rules b1 > STYLES_MAX_RULES);
     r \<leftarrow> exactRecord value RULE_KEYS [''declarationsTruncated'', ''contextsTruncated'', ''mediaTruncated'', ''source''];
     ruleRef \<leftarrow> styles_identifier (property r ''ruleRef'');
     declarations \<leftarrow> boundedArray (property r ''declarations'') STYLES_MAX_DECLARATIONS_PER_RULE parseDeclaration;
     let b2 = b1\<lparr>pb_declarations := pb_declarations b1 + length declarations\<rparr>;
     guard (\<not> pb_declarations b2 > STYLES_MAX_RULES);
     guard (\<not> list_ex (\<lambda>d. md_ruleRef d \<noteq> ruleRef) declarations);
     selectorText \<leftarrow> styles_text (lim_selectorLength INSPECT_LIMITS) False (property r ''selectorText'');
     indices \<leftarrow> boundedArray (property r ''matchingSelectorIndices'') STYLES_MAX_MATCHING_SELECTOR_INDICES nonneg_integer;
     b3 \<leftarrow> count_indices (length indices) b2;
     declarationsTruncated \<leftarrow> own_part r ''declarationsTruncated'' is_boolean;
     contexts \<leftarrow> boundedArray (property r ''contexts'') STYLES_MAX_CONTEXTS parseContext;
     b4 \<leftarrow> count_contexts (length contexts) b3;
     contextsTruncated \<leftarrow> own_part r ''contextsTruncated'' is_boolean;
     mediaTruncated \<leftarrow> own_part r ''mediaTruncated'' is_boolean;
     source \<leftarrow> own_part r ''source'' (parseSource url);
     Some (\<lparr>mr_ruleRef = ruleRef, mr_selectorText = selectorText, mr_matchingSelectorIndices = indices,
       mr_declarations = declarations, mr_declarationsTruncated = declarationsTruncated,
       mr_contexts = contexts, mr_contextsTruncated = contextsTruncated,
       mr_mediaTruncated = mediaTruncated, mr_source = source\<rparr>, b4) }"

definition parseInherited :: "page_url_parser \<Rightarrow> js_value \<Rightarrow> parse_budget \<Rightarrow> (inherited_rules \<times> parse_budget) option" where
  "parseInherited url value b = do {
     r \<leftarrow> exactRecord value [''ancestorIndex'', ''elementName'', ''rules''] [];
     ancestorIndex \<leftarrow> nonneg_integer (property r ''ancestorIndex'');
     guard (\<not> ancestorIndex < 1);
     elementName \<leftarrow> styles_text 256 False (property r ''elementName'');
     (rules, b') \<leftarrow> countedArray (property r ''rules'') STYLES_MAX_RULES (parseMatchedRule url) b;
     Some (\<lparr>ih_ancestorIndex = ancestorIndex, ih_elementName = elementName, ih_rules = rules\<rparr>, b') }"

definition MATCHED_STYLES_KEYS :: "string list" where
  "MATCHED_STYLES_KEYS = [''documentEpoch'', ''selectionRevision'', ''stylesRevision'', ''stylesheetRevision'',
     ''pseudoStateRevision'', ''pseudoStates'', ''nodeRef'', ''inline'', ''rules'', ''inherited'',
     ''inaccessibleStylesheetCount'', ''unsupportedRuleCount'', ''approximateRuleCount'', ''partial'', ''diagnostics'']"

text \<open>\<^verbatim>\<open>has(record, "inline") ? { inline: parseMatchedRule(...) } : {}\<close>\<close>

definition parse_inline :: "page_url_parser \<Rightarrow> data_record \<Rightarrow> parse_budget \<Rightarrow> (matched_rule option \<times> parse_budget) option" where
  "parse_inline url r b =
     (if has_own r ''inline''
      then map_option (\<lambda>(rule, b'). (Some rule, b')) (parseMatchedRule url (property r ''inline'') b)
      else Some (None, b))"

definition parseMatchedStyles :: "page_url_parser \<Rightarrow> js_value \<Rightarrow> matched_styles option" where
  "parseMatchedStyles url value = do {
     r \<leftarrow> exactRecord value MATCHED_STYLES_KEYS [''inline''];
     v \<leftarrow> read_revisions r;
     assertRevisionTriple v;
     t \<leftarrow> read_target r;
     states \<leftarrow> pseudoStates (property r ''pseudoStates'');
     (inline, b1) \<leftarrow> parse_inline url r no_parts;
     (rules, b2) \<leftarrow> countedArray (property r ''rules'') STYLES_MAX_RULES (parseMatchedRule url) b1;
     (inherited, b3) \<leftarrow> countedArray (property r ''inherited'') STYLES_MAX_INHERITED_GROUPS (parseInherited url) b2;
     inaccessible \<leftarrow> boundedRevision (lim_stylesheets INSPECT_LIMITS) (property r ''inaccessibleStylesheetCount'');
     unsupported \<leftarrow> boundedRevision (lim_cssRules INSPECT_LIMITS) (property r ''unsupportedRuleCount'');
     approximate \<leftarrow> boundedRevision (lim_cssRules INSPECT_LIMITS) (property r ''approximateRuleCount'');
     partial \<leftarrow> is_boolean (property r ''partial'');
     diagnostics \<leftarrow> boundedArray (property r ''diagnostics'') STYLES_MAX_DIAGNOSTICS (styles_text 256 False);
     Some \<lparr>ms_documentEpoch = st_documentEpoch t, ms_selectionRevision = st_selectionRevision t,
       ms_stylesRevision = sr_stylesRevision v, ms_stylesheetRevision = sr_stylesheetRevision v,
       ms_pseudoStateRevision = sr_pseudoStateRevision v, ms_pseudoStates = states,
       ms_nodeRef = st_nodeRef t, ms_inline = inline, ms_rules = rules, ms_inherited = inherited,
       ms_inaccessibleStylesheetCount = inaccessible, ms_unsupportedRuleCount = unsupported,
       ms_approximateRuleCount = approximate, ms_partial = partial, ms_diagnostics = diagnostics\<rparr> }"

subsection \<open>Parsers of messages\<close>

definition SET_PSEUDO_STATES_KEYS :: "string list" where
  "SET_PSEUDO_STATES_KEYS = [''type'', ''requestId'', ''documentEpoch'', ''nodeRef'', ''selectionRevision'',
     ''expectedStylesRevision'', ''expectedPseudoStateRevision'', ''states'']"

definition GET_MATCHED_KEYS :: "string list" where
  "GET_MATCHED_KEYS = [''type'', ''requestId'', ''documentEpoch'', ''nodeRef'', ''selectionRevision'',
     ''pseudoStateRevision'', ''pseudoStates'', ''manualRefresh'']"

definition parseStylesRequest :: "js_value \<Rightarrow> styles_request option" where
  "parseStylesRequest value = do {
     kind \<leftarrow> recordType value;
     if kind = VStr (js ''styles.setPseudoStates'') then do {
       r \<leftarrow> exactRecord value SET_PSEUDO_STATES_KEYS [];
       requestId \<leftarrow> styles_identifier (property r ''requestId'');
       t \<leftarrow> read_target r;
       styles \<leftarrow> nonneg_integer (property r ''expectedStylesRevision'');
       pseudo \<leftarrow> nonneg_integer (property r ''expectedPseudoStateRevision'');
       states \<leftarrow> pseudoStates (property r ''states'');
       guard (\<not> pseudo > styles);
       Some (StylesSetPseudoStates requestId t styles pseudo states) }
     else do {
       guard (kind = VStr (js ''styles.getMatched''));
       r \<leftarrow> exactRecord value GET_MATCHED_KEYS [''manualRefresh''];
       guard (\<not> (has_own r ''manualRefresh'' \<and> property r ''manualRefresh'' \<noteq> VBool True));
       requestId \<leftarrow> styles_identifier (property r ''requestId'');
       t \<leftarrow> read_target r;
       pseudo \<leftarrow> nonneg_integer (property r ''pseudoStateRevision'');
       states \<leftarrow> pseudoStates (property r ''pseudoStates'');
       Some (StylesGetMatched requestId t pseudo states (has_own r ''manualRefresh'')) } }"

definition PSEUDO_STATES_KEYS :: "string list" where
  "PSEUDO_STATES_KEYS = [''type'', ''requestId'', ''documentEpoch'', ''nodeRef'', ''selectionRevision'',
     ''stylesRevision'', ''stylesheetRevision'', ''pseudoStateRevision'', ''states'', ''unsupportedRuleCount'',
     ''inaccessibleStylesheetCount'', ''approximateRuleCount'']"

definition MATCHED_KEYS :: "string list" where
  "MATCHED_KEYS = [''type'', ''requestId'', ''documentEpoch'', ''nodeRef'', ''selectionRevision'',
     ''stylesRevision'', ''stylesheetRevision'', ''pseudoStateRevision'', ''pseudoStates'', ''styles'']"

definition parse_styles_error :: "js_value \<Rightarrow> styles_response option" where
  "parse_styles_error value = do {
     r \<leftarrow> exactRecord value [''type'', ''requestId'', ''code''] [];
     code \<leftarrow> one_of STYLES_ERROR_CODES (property r ''code'');
     requestId \<leftarrow> styles_identifier (property r ''requestId'');
     Some (StylesError requestId code) }"

definition parse_pseudo_states_response :: "js_value \<Rightarrow> styles_response option" where
  "parse_pseudo_states_response value = do {
     r \<leftarrow> exactRecord value PSEUDO_STATES_KEYS [];
     requestId \<leftarrow> styles_identifier (property r ''requestId'');
     t \<leftarrow> read_target r;
     v \<leftarrow> read_revisions r;
     states \<leftarrow> pseudoStates (property r ''states'');
     unsupported \<leftarrow> boundedRevision (lim_cssRules INSPECT_LIMITS) (property r ''unsupportedRuleCount'');
     inaccessible \<leftarrow> boundedRevision (lim_stylesheets INSPECT_LIMITS) (property r ''inaccessibleStylesheetCount'');
     approximate \<leftarrow> boundedRevision (lim_cssRules INSPECT_LIMITS) (property r ''approximateRuleCount'');
     let response = StylesPseudoStates requestId t v states unsupported inaccessible approximate;
     assertRevisionTriple v;
     guard (stylesProtocolEnvelopeWithinBudget STYLES_MAX_RESPONSE_BYTES (styles_response_json response));
     Some response }"

definition parse_matched_response :: "page_url_parser \<Rightarrow> js_value \<Rightarrow> styles_response option" where
  "parse_matched_response url value = do {
     r \<leftarrow> exactRecord value MATCHED_KEYS [];
     requestId \<leftarrow> styles_identifier (property r ''requestId'');
     t \<leftarrow> read_target r;
     v \<leftarrow> read_revisions r;
     states \<leftarrow> pseudoStates (property r ''pseudoStates'');
     styles \<leftarrow> parseMatchedStyles url (property r ''styles'');
     let response = StylesMatched requestId t v states styles;
     assertRevisionTriple v;
     guard (\<not> (ms_documentEpoch styles \<noteq> st_documentEpoch t \<or> ms_nodeRef styles \<noteq> st_nodeRef t \<or>
       ms_selectionRevision styles \<noteq> st_selectionRevision t \<or> ms_stylesRevision styles \<noteq> sr_stylesRevision v \<or>
       ms_stylesheetRevision styles \<noteq> sr_stylesheetRevision v \<or>
       ms_pseudoStateRevision styles \<noteq> sr_pseudoStateRevision v \<or>
       \<not> samePseudoStates (ms_pseudoStates styles) states \<or>
       \<not> stylesProtocolEnvelopeWithinBudget STYLES_MAX_RESPONSE_BYTES (styles_response_json response)));
     Some response }"

definition parseStylesResponse :: "page_url_parser \<Rightarrow> js_value \<Rightarrow> styles_response option" where
  "parseStylesResponse url value = do {
     kind \<leftarrow> recordType value;
     if kind = VStr (js ''styles.error'') then parse_styles_error value
     else if kind = VStr (js ''styles.pseudoStates'') then parse_pseudo_states_response value
     else do { guard (kind = VStr (js ''styles.matched'')); parse_matched_response url value } }"

definition parseStylesEvent :: "js_value \<Rightarrow> styles_event option" where
  "parseStylesEvent value = do {
     kind \<leftarrow> recordType value;
     if kind = VStr (js ''styles.invalidated'') then do {
       r \<leftarrow> exactRecord value [''type'', ''documentEpoch'', ''stylesRevision'', ''stylesheetRevision'',
         ''pseudoStateRevision'', ''pseudoStates''] [];
       epoch \<leftarrow> nonneg_integer (property r ''documentEpoch'');
       v \<leftarrow> read_revisions r;
       states \<leftarrow> pseudoStates (property r ''pseudoStates'');
       assertRevisionTriple v;
       Some (StylesInvalidated epoch v states) }
     else do {
       guard (kind = VStr (js ''styles.inspectPublicationRenewed''));
       r \<leftarrow> exactRecord value [''type'', ''documentEpoch'', ''nodeRef'', ''selectionRevision''] [];
       t \<leftarrow> read_target r;
       Some (StylesInspectPublicationRenewed t) } }"

subsection \<open>Which response answers which request\<close>

definition isStylesResponseForRequest :: "page_url_parser \<Rightarrow> js_value \<Rightarrow> js_value \<Rightarrow> bool" where
  "isStylesResponseForRequest url requestValue responseValue =
     (case (parseStylesRequest requestValue, parseStylesResponse url responseValue) of
        (Some request, Some response) \<Rightarrow>
          (case (request, response) of
             (StylesGetMatched rid t pseudo states _, StylesError rid' _) \<Rightarrow> rid' = rid
           | (StylesSetPseudoStates rid t _ _ states, StylesError rid' _) \<Rightarrow> rid' = rid
           | (StylesGetMatched rid t pseudo states _, StylesMatched rid' t' v states' _) \<Rightarrow>
               rid' = rid \<and> t' = t \<and> sr_pseudoStateRevision v = pseudo \<and> samePseudoStates states' states
           | (StylesSetPseudoStates rid t _ _ states, StylesPseudoStates rid' t' v states' _ _ _) \<Rightarrow>
               rid' = rid \<and> t' = t \<and> samePseudoStates states' states
           | _ \<Rightarrow> False)
      | _ \<Rightarrow> False)"

subsection \<open>A response is bounded as a whole\<close>

definition all_rules :: "matched_styles \<Rightarrow> matched_rule list" where
  "all_rules s = (case ms_inline s of None \<Rightarrow> [] | Some r \<Rightarrow> [r]) @ ms_rules s @ concat (map ih_rules (ms_inherited s))"

definition matched_rule_ok :: "matched_rule \<Rightarrow> bool" where
  "matched_rule_ok r \<longleftrightarrow> list_all (\<lambda>d. md_ruleRef d = mr_ruleRef r) (mr_declarations r) \<and>
     length (mr_declarations r) \<le> STYLES_MAX_DECLARATIONS_PER_RULE \<and>
     length (mr_contexts r) \<le> STYLES_MAX_CONTEXTS \<and>
     length (mr_matchingSelectorIndices r) \<le> STYLES_MAX_MATCHING_SELECTOR_INDICES"

definition parts_ok :: "parse_budget \<Rightarrow> bool" where
  "parts_ok b \<longleftrightarrow> pb_rules b \<le> STYLES_MAX_RULES \<and> pb_declarations b \<le> STYLES_MAX_RULES \<and>
     pb_contexts b \<le> STYLES_MAX_RULES \<and> pb_matchingSelectorIndices b \<le> STYLES_MAX_RULES * 2"

text \<open>The counters after some rules.\<close>

definition add_rules :: "matched_rule list \<Rightarrow> parse_budget \<Rightarrow> parse_budget" where
  "add_rules rs b = \<lparr>pb_rules = pb_rules b + length rs,
     pb_declarations = pb_declarations b + sum_list (map (\<lambda>r. length (mr_declarations r)) rs),
     pb_contexts = pb_contexts b + sum_list (map (\<lambda>r. length (mr_contexts r)) rs),
     pb_matchingSelectorIndices = pb_matchingSelectorIndices b +
       sum_list (map (\<lambda>r. length (mr_matchingSelectorIndices r)) rs)\<rparr>"

lemma add_rules_append [simp]: "add_rules rs (add_rules qs b) = add_rules (qs @ rs) b"
  by (simp add: add_rules_def)

lemma add_rules_Nil [simp]: "add_rules [] b = b"
  by (simp add: add_rules_def)

lemma those_length_eq: "those xs = Some ys \<Longrightarrow> length ys = length xs"
  by (induction xs arbitrary: ys) (auto split: option.splits)

lemma styles_array_length: "styles_array m v = Some xs \<Longrightarrow> length xs \<le> m"
  by (cases v) (auto split: if_splits dest: those_length_eq)

lemma bounded_array_bound: "boundedArray v m p = Some xs \<Longrightarrow> length xs \<le> m"
  using parse_items_all [where P = "\<lambda>_. True"]
  by (fastforce simp: boundedArray_def bind_eq_Some_conv dest: styles_array_length)

lemma parse_rule_counts:
  assumes "parseMatchedRule url v b = Some (r, b')"
  shows "b' = add_rules [r] b \<and> parts_ok b' \<and> matched_rule_ok r"
proof -
  from assms obtain f ruleRef selectorText indices declarations dt contexts ct mt source b1 b2 b3 where
      r: "r = \<lparr>mr_ruleRef = ruleRef, mr_selectorText = selectorText, mr_matchingSelectorIndices = indices,
       mr_declarations = declarations, mr_declarationsTruncated = dt,
       mr_contexts = contexts, mr_contextsTruncated = ct, mr_mediaTruncated = mt, mr_source = source\<rparr>"
    and b1: "b1 = b\<lparr>pb_rules := pb_rules b + 1\<rparr>" "\<not> pb_rules b1 > STYLES_MAX_RULES"
    and d: "boundedArray (property f ''declarations'') STYLES_MAX_DECLARATIONS_PER_RULE parseDeclaration = Some declarations"
      "b2 = b1\<lparr>pb_declarations := pb_declarations b1 + length declarations\<rparr>" "\<not> pb_declarations b2 > STYLES_MAX_RULES"
      "\<not> list_ex (\<lambda>d. md_ruleRef d \<noteq> ruleRef) declarations"
    and i: "boundedArray (property f ''matchingSelectorIndices'') STYLES_MAX_MATCHING_SELECTOR_INDICES nonneg_integer = Some indices"
      "count_indices (length indices) b2 = Some b3"
    and c: "boundedArray (property f ''contexts'') STYLES_MAX_CONTEXTS parseContext = Some contexts"
      "count_contexts (length contexts) b3 = Some b'"
    unfolding parseMatchedRule_def Let_def bind_eq_Some_conv guard_eq_Some option.inject prod.inject
    apply (elim exE conjE)
    apply hypsubst
    apply (rule that)
    apply (rule refl | assumption)+
    done
  have b3: "b3 = b2\<lparr>pb_matchingSelectorIndices := pb_matchingSelectorIndices b2 + length indices\<rparr>"
      "pb_matchingSelectorIndices b3 \<le> STYLES_MAX_RULES * 2"
    using i(2) by (auto simp: count_indices_def Let_def split: if_splits)
  have b': "b' = b3\<lparr>pb_contexts := pb_contexts b3 + length contexts\<rparr>" "pb_contexts b' \<le> STYLES_MAX_RULES"
    using c(2) by (auto simp: count_contexts_def Let_def split: if_splits)
  have "b' = add_rules [r] b" by (simp add: add_rules_def b' b3 d(2) b1(1) r)
  moreover have "parts_ok b'" using b1 d(2,3) b3 b' by (simp add: parts_ok_def)
  moreover have "matched_rule_ok r"
    using d(4) bounded_array_bound [OF d(1)] bounded_array_bound [OF i(1)] bounded_array_bound [OF c(1)]
    by (simp add: matched_rule_ok_def r list_all_iff list_ex_iff)
  ultimately show ?thesis by blast
qed

lemma counted_rules:
  "counted_items (parseMatchedRule url) vs b = Some (rs, b') \<Longrightarrow> parts_ok b \<Longrightarrow>
   b' = add_rules rs b \<and> parts_ok b' \<and> list_all matched_rule_ok rs"
proof (induction vs arbitrary: b rs)
  case (Cons v vs)
  from Cons.prems(1) obtain r b1 rs' where 1: "parseMatchedRule url v b = Some (r, b1)"
      "counted_items (parseMatchedRule url) vs b1 = Some (rs', b')" "rs = r # rs'"
    by (auto split: option.splits)
  have r: "b1 = add_rules [r] b" "parts_ok b1" "matched_rule_ok r" using parse_rule_counts [OF 1(1)] by blast+
  have "b' = add_rules rs' b1 \<and> parts_ok b' \<and> list_all matched_rule_ok rs'" using Cons.IH [OF 1(2) r(2)] .
  moreover from this have "b' = add_rules (r # rs') b" by (simp add: r(1))
  ultimately show ?case using r(3) unfolding 1(3) list.pred_inject by blast
qed simp

lemma counted_array_rules:
  "countedArray v m (parseMatchedRule url) b = Some (rs, b') \<Longrightarrow> parts_ok b \<Longrightarrow>
   b' = add_rules rs b \<and> parts_ok b' \<and> list_all matched_rule_ok rs"
  by (auto simp: countedArray_def bind_eq_Some_conv dest: counted_rules)

lemma parse_inherited_counts:
  assumes "parseInherited url v b = Some (i, b')" and "parts_ok b"
  shows "b' = add_rules (ih_rules i) b \<and> parts_ok b' \<and> list_all matched_rule_ok (ih_rules i)"
proof -
  from assms(1) obtain r where "countedArray (property r ''rules'') STYLES_MAX_RULES (parseMatchedRule url) b = Some (ih_rules i, b')"
    unfolding parseInherited_def bind_eq_Some_conv by auto
  then show ?thesis using counted_array_rules assms(2) by blast
qed

lemma counted_inherited:
  "counted_items (parseInherited url) vs b = Some (is, b') \<Longrightarrow> parts_ok b \<Longrightarrow>
   b' = add_rules (concat (map ih_rules is)) b \<and> parts_ok b' \<and> list_all matched_rule_ok (concat (map ih_rules is))"
proof (induction vs arbitrary: b "is")
  case (Cons v vs)
  from Cons.prems(1) obtain i b1 is' where 1: "parseInherited url v b = Some (i, b1)"
      "counted_items (parseInherited url) vs b1 = Some (is', b')" "is = i # is'"
    by (auto split: option.splits)
  have r: "b1 = add_rules (ih_rules i) b" "parts_ok b1" "list_all matched_rule_ok (ih_rules i)"
    using parse_inherited_counts [OF 1(1) Cons.prems(2)] by blast+
  note ih = Cons.IH [OF 1(2) r(2)]
  from ih have b': "b' = add_rules (concat (map ih_rules is)) b" by (simp add: r(1) 1(3))
  have "list_all matched_rule_ok (concat (map ih_rules is))" using ih r(3) by (simp add: 1(3))
  then show ?case using b' ih by blast
qed simp

lemma no_parts_ok: "parts_ok no_parts"
  by (simp add: parts_ok_def no_parts_def)

lemma parse_styles_counts:
  assumes "parseMatchedStyles url v = Some s"
  shows "parts_ok (add_rules (all_rules s) no_parts) \<and> list_all matched_rule_ok (all_rules s) \<and>
    ms_stylesheetRevision s \<le> ms_stylesRevision s \<and> ms_pseudoStateRevision s \<le> ms_stylesRevision s"
proof -
  from assms obtain r rv b1 b2 b3 where
      rv: "assertRevisionTriple rv = Some ()" "ms_stylesRevision s = sr_stylesRevision rv"
        "ms_stylesheetRevision s = sr_stylesheetRevision rv" "ms_pseudoStateRevision s = sr_pseudoStateRevision rv"
    and inl: "parse_inline url r no_parts = Some (ms_inline s, b1)"
    and rules: "countedArray (property r ''rules'') STYLES_MAX_RULES (parseMatchedRule url) b1 = Some (ms_rules s, b2)"
    and inh: "countedArray (property r ''inherited'') STYLES_MAX_INHERITED_GROUPS (parseInherited url) b2 = Some (ms_inherited s, b3)"
    unfolding parseMatchedStyles_def Let_def bind_eq_Some_conv guard_eq_Some
    by (elim exE conjE) (auto simp: bind_eq_Some_conv)
  define first where "first = (case ms_inline s of None \<Rightarrow> [] | Some r \<Rightarrow> [r])"
  have b1: "b1 = add_rules first no_parts \<and> parts_ok b1 \<and> list_all matched_rule_ok first"
    using inl no_parts_ok unfolding first_def
    by (cases "ms_inline s") (auto simp: parse_inline_def split: if_splits dest: parse_rule_counts)
  have b2: "b2 = add_rules (ms_rules s) b1 \<and> parts_ok b2 \<and> list_all matched_rule_ok (ms_rules s)"
    using counted_array_rules [OF rules] b1 by blast
  have b3: "b3 = add_rules (concat (map ih_rules (ms_inherited s))) b2 \<and> parts_ok b3 \<and>
      list_all matched_rule_ok (concat (map ih_rules (ms_inherited s)))"
    using inh b2 by (auto simp: countedArray_def bind_eq_Some_conv dest: counted_inherited)
  have e: "b3 = add_rules (all_rules s) no_parts" using b1 b2 b3 by (simp add: all_rules_def first_def)
  have "parts_ok (add_rules (all_rules s) no_parts)" using b3 unfolding e [symmetric] by blast
  moreover have "list_all matched_rule_ok (all_rules s)" using b1 b2 b3 by (simp add: all_rules_def first_def)
  moreover have "ms_stylesheetRevision s \<le> ms_stylesRevision s \<and> ms_pseudoStateRevision s \<le> ms_stylesRevision s"
    using rv by (auto simp: assertRevisionTriple_def assertRevisionPair_def bind_eq_Some_conv)
  ultimately show ?thesis by blast
qed

text \<open>A bound on the bytes of a text that needs no text.\<close>

fun loose_size :: "json \<Rightarrow> nat option" where
  "loose_size JNull = Some 4"
| "loose_size (JBool b) = Some 5"
| "loose_size (JNum (JInt n)) = (if \<bar>n\<bar> < 10 ^ 10 then Some 11 else None)"
| "loose_size (JNum JNonInt) = None"
| "loose_size (JStr t) = Some (6 * length t + 2)"
| "loose_size (JArr xs) = map_option (\<lambda>ns. 2 + length xs + sum_list ns) (those (map loose_size xs))"
| "loose_size (JObj ms) = map_option (\<lambda>ns. 2 + sum_list (map (\<lambda>m. 6 * length (fst m) + 4) ms) + sum_list ns)
     (those (map (\<lambda>m. loose_size (snd m)) ms))"

lemma loose_size_bound: "loose_size j = Some n \<Longrightarrow> utf8ByteLength (json_text j) \<le> n"
proof (induction j arbitrary: n rule: loose_size.induct)
  case (6 xs)
  from "6.prems" obtain ns where ns: "those (map loose_size xs) = Some ns" "n = 2 + length xs + sum_list ns" by auto
  have "sum_list (map (\<lambda>x. utf8ByteLength (json_text x)) ys) \<le> sum_list ks"
    if "those (map loose_size ys) = Some ks" "set ys \<subseteq> set xs" for ys ks
    using that
  proof (induction ys arbitrary: ks)
    case (Cons y ys)
    then obtain k ks' where k: "loose_size y = Some k" "those (map loose_size ys) = Some ks'" "ks = k # ks'"
      by (auto split: option.splits)
    show ?case using "6.IH" [of y k] k Cons.IH [OF k(2)] Cons.prems(2) by simp
  qed simp
  from this [OF ns(1) order_refl] show ?case unfolding utf8_items ns(2) by simp
next
  case (7 ms)
  from "7.prems" obtain ns where ns: "those (map (\<lambda>m. loose_size (snd m)) ms) = Some ns"
      "n = 2 + sum_list (map (\<lambda>m. 6 * length (fst m) + 4) ms) + sum_list ns" by auto
  have "length qs - 1 + sum_list (map (\<lambda>m. utf8ByteLength (json_quote (fst m)) + 1 + utf8ByteLength (json_text (snd m))) qs)
      \<le> sum_list (map (\<lambda>m. 6 * length (fst m) + 4) qs) + sum_list ks"
    if "those (map (\<lambda>m. loose_size (snd m)) qs) = Some ks" "set qs \<subseteq> set ms" for qs ks
    using that
  proof (induction qs arbitrary: ks)
    case (Cons q qs)
    then obtain k ks' where k: "loose_size (snd q) = Some k" "those (map (\<lambda>m. loose_size (snd m)) qs) = Some ks'" "ks = k # ks'"
      by (auto split: option.splits)
    have "utf8ByteLength (json_text (snd q)) \<le> k" using "7.IH" [of q k] k Cons.prems(2) by simp
    then show ?case using Cons.IH [OF k(2)] Cons.prems(2) k(3) utf8_json_quote [of "fst q"] by (cases qs) simp_all
  qed simp
  from this [OF ns(1) order_refl] show ?case unfolding utf8_members ns(2) by simp
next
  case (5 t)
  then show ?case using utf8_json_quote [of t] by simp
qed (auto simp: utf8_json_int json_bool_def js_def unit_of_char_def split: if_splits)

text \<open>A response with one rule.\<close>


definition list_value :: "js_value list \<Rightarrow> js_value" where
  "list_value vs = VArray (length vs) (zip (map (\<lambda>i. StrKey (decimal i)) [0..<length vs]) (map (\<lambda>v. (True, Some v)) vs))"

definition field_list :: "(string \<times> js_value) list \<Rightarrow> data_record" where
  "field_list ms = map (\<lambda>(k, v). (js k, v)) ms"

definition declaration_members :: "(string \<times> js_value) list" where
  "declaration_members =
     [(''ruleRef'', VStr (js ''r'')), (''property'', VStr (js ''color'')), (''value'', VStr (js ''red'')),
      (''important'', VBool False), (''valueTruncated'', VBool False),
      (''state'', VStr (js ''unknown'')), (''reason'', VStr (js ''unsupported-shorthand''))]"

definition rule_members :: "(string \<times> js_value) list" where
  "rule_members =
     [(''ruleRef'', VStr (js ''r'')), (''selectorText'', VStr (js ''p'')), (''matchingSelectorIndices'', list_value []),
      (''declarations'', list_value [data_object declaration_members]), (''contexts'', list_value [])]"

definition styles_members :: "(string \<times> js_value) list" where
  "styles_members =
     [(''documentEpoch'', VNum (JInt 1)), (''selectionRevision'', VNum (JInt 0)), (''stylesRevision'', VNum (JInt 2)),
      (''stylesheetRevision'', VNum (JInt 2)), (''pseudoStateRevision'', VNum (JInt 0)),
      (''pseudoStates'', list_value []), (''nodeRef'', VStr (js ''n'')),
      (''rules'', list_value [data_object rule_members]), (''inherited'', list_value []),
      (''inaccessibleStylesheetCount'', VNum (JInt 0)), (''unsupportedRuleCount'', VNum (JInt 0)),
      (''approximateRuleCount'', VNum (JInt 0)), (''partial'', VBool False), (''diagnostics'', list_value [])]"

definition response_members :: "(string \<times> js_value) list" where
  "response_members =
     [(''type'', VStr (js ''styles.matched'')), (''requestId'', VStr (js ''q'')),
      (''documentEpoch'', VNum (JInt 1)), (''nodeRef'', VStr (js ''n'')), (''selectionRevision'', VNum (JInt 0)), (''stylesRevision'', VNum (JInt 2)),
      (''stylesheetRevision'', VNum (JInt 2)), (''pseudoStateRevision'', VNum (JInt 0)),
      (''pseudoStates'', list_value []), (''styles'', data_object styles_members)]"

definition the_declaration :: matched_declaration where
  "the_declaration = \<lparr>md_ruleRef = js ''r'', md_property = js ''color'', md_value = js ''red'',
     md_important = False, md_valueTruncated = False, md_state = js ''unknown'', md_reason = js ''unsupported-shorthand''\<rparr>"

definition the_rule :: matched_rule where
  "the_rule = \<lparr>mr_ruleRef = js ''r'', mr_selectorText = js ''p'', mr_matchingSelectorIndices = [],
       mr_declarations = [the_declaration], mr_declarationsTruncated = None,
       mr_contexts = [], mr_contextsTruncated = None, mr_mediaTruncated = None, mr_source = None\<rparr>"

definition the_styles :: matched_styles where
  "the_styles = \<lparr>ms_documentEpoch = 1, ms_selectionRevision = 0, ms_stylesRevision = 2, ms_stylesheetRevision = 2,
   ms_pseudoStateRevision = 0, ms_pseudoStates = [], ms_nodeRef = js ''n'', ms_inline = None, ms_rules = [the_rule], ms_inherited = [],
  ms_inaccessibleStylesheetCount = 0, ms_unsupportedRuleCount = 0, ms_approximateRuleCount = 0, ms_partial = False, ms_diagnostics = []\<rparr>"

lemma styles_ex_d: "parseDeclaration (data_object declaration_members) = Some the_declaration"
  by code_simp

lemma array_one: "boundedArray (list_value []) m p = Some []" "1 \<le> m \<Longrightarrow> boundedArray (list_value [v]) m p = map_option (\<lambda>x. [x]) (p v)"
  "countedArray (list_value []) m q b = Some ([], b)"
   "1 \<le> m \<Longrightarrow> countedArray (list_value [v]) m q b = map_option (\<lambda>(x, b). ([x], b)) (q v b)"
  by (auto simp: boundedArray_def countedArray_def list_value_def split: option.split)

lemma styles_ex_records:
 "exactRecord (data_object rule_members) RULE_KEYS [''declarationsTruncated'', ''contextsTruncated'', ''mediaTruncated'', ''source''] = Some (field_list rule_members)"
 "exactRecord (data_object styles_members) MATCHED_STYLES_KEYS [''inline''] = Some (field_list styles_members)"
 "exactRecord (data_object response_members) MATCHED_KEYS [] = Some (field_list response_members)"
 "recordType (data_object response_members) = Some (VStr (js ''styles.matched''))"
  by code_simp+

lemma styles_ex_t: "styles_text n b (VStr [c]) = (if 1 \<le> n \<and> \<not> steering_unit c then Some [c] else None)" by (simp add: styles_text_ok_def Suc_le_eq)

lemma styles_ex_u: "js ''r'' = [114]" "js ''p'' = [112]" "js ''n'' = [110]" "js ''q'' = [113]"  by (simp_all add: js_def unit_of_char_def)

lemma styles_ex_prop: "property (field_list ((k, v) # ms)) l = (if js k = js l then v else property (field_list ms) l)"
  "has_own (field_list ((k, v) # ms)) l = (js k = js l \<or> has_own (field_list ms) l)"
  "property (field_list []) l = VUndefined" "\<not> has_own (field_list []) l"
  by (auto simp: property_def field_list_def has_own_def)

lemma styles_ex_text: "styles_identifier (VStr (js ''r'')) = Some (js ''r'')" "styles_identifier (VStr (js ''q'')) = Some (js ''q'')"
  "styles_identifier (VStr (js ''n'')) = Some (js ''n'')" "styles_text_ok 2048 False (js ''p'')"
  by (simp_all add: styles_identifier_def styles_text_ok_def styles_ex_u steering_unit_def styles_text_ok_def STYLES_MAX_IDENTIFIER_LENGTH_def INSPECT_LIMITS_def)

lemma styles_ex_safe: "safe_int 0" "safe_int 1" "safe_int 2" by (simp_all add: safe_int_def)

definition the_response :: styles_response where
  "the_response = StylesMatched (js ''q'')
  \<lparr>st_documentEpoch = 1, st_nodeRef = js ''n'', st_selectionRevision = 0\<rparr> \<lparr>sr_stylesRevision = 2, sr_stylesheetRevision = 2, sr_pseudoStateRevision = 0\<rparr> [] the_styles"

lemma styles_ex_len: "case loose_size (styles_response_json the_response) of None \<Rightarrow> False | Some n \<Rightarrow> n \<le> 10000" 
  unfolding the_response_def
  by (simp add: styles_json_def the_styles_def rule_json_def the_rule_def the_declaration_def declaration_json_def
    object_of_def num_json_def states_json_def)

lemmas styles_ex_simps = styles_ex_safe styles_ex_prop styles_ex_text array_one own_part_def nonneg_integer.simps guard_def

lemma styles_ex_r: "parseMatchedRule (\<lambda>_. None) (data_object rule_members) no_parts = Some (the_rule, add_rules [the_rule] no_parts)"
  unfolding parseMatchedRule_def styles_ex_records
  by (simp add: styles_ex_simps rule_members_def styles_ex_d the_rule_def the_declaration_def no_parts_def STYLES_MAX_RULES_def
     STYLES_MAX_DECLARATIONS_PER_RULE_def INSPECT_LIMITS_def count_indices_def count_contexts_def add_rules_def)

lemma styles_ex_s: "parseMatchedStyles (\<lambda>_. None) (data_object styles_members) = Some the_styles"
  unfolding parseMatchedStyles_def styles_ex_records
  by (simp add: styles_ex_simps styles_members_def styles_ex_r the_styles_def pseudoStates_def parse_inline_def read_revisions_def read_target_def
     assertRevisionTriple_def assertRevisionPair_def boundedRevision_def STYLES_MAX_RULES_def INSPECT_LIMITS_def)

lemma styles_ex_budget: "stylesProtocolEnvelopeWithinBudget STYLES_MAX_RESPONSE_BYTES (styles_response_json the_response)"
  using styles_ex_len loose_size_bound [of "styles_response_json the_response"]
  by (cases "loose_size (styles_response_json the_response)") (simp_all add: stylesProtocolEnvelopeWithinBudget_def STYLES_MAX_RESPONSE_BYTES_def)

lemma styles_ex_resp: "parseStylesResponse (\<lambda>_. None) (data_object response_members) = Some the_response"
proof -
  have p: "ms_documentEpoch the_styles = 1" "ms_nodeRef the_styles = js ''n''" "ms_selectionRevision the_styles = 0"
    "ms_stylesRevision the_styles = 2" "ms_stylesheetRevision the_styles = 2" "ms_pseudoStateRevision the_styles = 0" "ms_pseudoStates the_styles = []"
    by (simp_all add: the_styles_def)
  show ?thesis
  unfolding parseStylesResponse_def parse_matched_response_def styles_ex_records
  using styles_ex_budget unfolding the_response_def
  by (simp add: styles_ex_simps response_members_def styles_ex_s pseudoStates_def read_revisions_def read_target_def samePseudoStates_def p
     assertRevisionTriple_def assertRevisionPair_def del: styles_response_json.simps)
qed

text \<open>C35:
  The matched styles of an element are bounded as a whole, whatever arrives: however the rules are
  spread over the element itself, its style attribute and its ancestors, an accepted response has
  at most 4096 rules with at most 4096 declarations, 4096 contexts and 8192 selector indices
  between them, every declaration belongs to its rule, the stylesheet and pseudo state revisions
  are not ahead of the styles revision, and its text is at most 512 KiB.
\<close>
theorem matched_styles_bounded:
  assumes "parseStylesResponse url v = Some (StylesMatched rid t revisions states s)"
  shows "length (all_rules s) \<le> 4096 \<and>
    sum_list (map (\<lambda>r. length (mr_declarations r)) (all_rules s)) \<le> 4096 \<and>
    sum_list (map (\<lambda>r. length (mr_contexts r)) (all_rules s)) \<le> 4096 \<and>
    sum_list (map (\<lambda>r. length (mr_matchingSelectorIndices r)) (all_rules s)) \<le> 8192 \<and>
    list_all matched_rule_ok (all_rules s) \<and>
    ms_stylesheetRevision s \<le> ms_stylesRevision s \<and> ms_pseudoStateRevision s \<le> ms_stylesRevision s \<and>
    utf8ByteLength (json_text (styles_response_json (StylesMatched rid t revisions states s))) \<le> 524288"
proof -
  have "parse_matched_response url v = Some (StylesMatched rid t revisions states s)"
    using assms by (auto simp: parseStylesResponse_def bind_eq_Some_conv parse_styles_error_def
        parse_pseudo_states_response_def Let_def split: if_splits)
  then obtain r where "parseMatchedStyles url (property r ''styles'') = Some s"
      "stylesProtocolEnvelopeWithinBudget STYLES_MAX_RESPONSE_BYTES
        (styles_response_json (StylesMatched rid t revisions states s))"
    by (auto simp: parse_matched_response_def bind_eq_Some_conv Let_def)
  then show ?thesis
    using parse_styles_counts
    by (simp add: parts_ok_def add_rules_def no_parts_def stylesProtocolEnvelopeWithinBudget_def
        STYLES_MAX_RULES_def STYLES_MAX_RESPONSE_BYTES_def INSPECT_LIMITS_def)
qed

theorem matched_styles_bounded_witness:
  "parseStylesResponse (\<lambda>_. None) (data_object response_members) = Some the_response \<and>
   length (all_rules the_styles) = 1 \<and>
   utf8ByteLength (json_text (styles_response_json the_response)) \<le> 524288"
  using matched_styles_bounded [OF styles_ex_resp [unfolded the_response_def]] styles_ex_resp
  by (simp add: all_rules_def the_styles_def the_response_def)

end
