(* ===== verification/Inspect_Ports.thy ===== *)
theory Inspect_Ports
  imports Correlation_Theorems Panel_Views Dom_Protocol Styles_Protocol
begin

text \<open>
  \<^verbatim>\<open>browser-extension-core/src/inspectPortProtocol.ts\<close>: the names of the ports between panel, background
  page and content script, and the commands and states that pass through them. Most parsers read a
  copy of the message; four older ones read its members directly. These are modelled for own data
  members: a message that came through a port is a structured clone, which has neither accessors
  nor inherited members.
\<close>

subsection \<open>Names of ports\<close>

definition INSPECT_CONTENT_LEASE_PORT_PREFIX :: jstring where
  "INSPECT_CONTENT_LEASE_PORT_PREFIX = js ''pin-op.inspect.contentLease.''"
definition CONTENT_SESSION_ID_MAX_LENGTH :: nat where "CONTENT_SESSION_ID_MAX_LENGTH = 128"
definition DEVTOOLS_PANEL_PORT_PREFIX :: jstring where "DEVTOOLS_PANEL_PORT_PREFIX = js ''pin-op.devtools.''"

text \<open>\<^verbatim>\<open>/^[A-Za-z0-9_-]+$/\<close>\<close>

definition session_char :: "code_unit \<Rightarrow> bool" where
  "session_char c \<longleftrightarrow> is_upper c \<or> is_lower c \<or> is_digit c \<or> c = 0x5f \<or> c = 0x2d"

definition isValidContentSessionId :: "json option \<Rightarrow> jstring option" where
  "isValidContentSessionId value = (case value of
     Some (JStr s) \<Rightarrow> if 0 < length s \<and> length s \<le> CONTENT_SESSION_ID_MAX_LENGTH \<and> list_all session_char s
       then Some s else None
   | _ \<Rightarrow> None)"

definition createInspectContentLeasePortName :: "jstring \<Rightarrow> jstring option" where
  "createInspectContentLeasePortName contentSessionId =
     (if isValidContentSessionId (Some (JStr contentSessionId)) = None then None
      else Some (INSPECT_CONTENT_LEASE_PORT_PREFIX @ contentSessionId))"

fun parseInspectContentLeasePortName :: "js_value \<Rightarrow> jstring option" where
  "parseInspectContentLeasePortName (VStr name) =
     (if \<not> starts_with INSPECT_CONTENT_LEASE_PORT_PREFIX name then None
      else
        let contentSessionId = drop (length INSPECT_CONTENT_LEASE_PORT_PREFIX) name in
        if isValidContentSessionId (Some (JStr contentSessionId)) \<noteq> None \<and>
           createInspectContentLeasePortName contentSessionId = Some name
        then Some contentSessionId else None)"
| "parseInspectContentLeasePortName _ = None"

definition createDevtoolsPanelPortName :: "jstring \<Rightarrow> jstring option" where
  "createDevtoolsPanelPortName channel =
     (if isValidDevtoolsChannel (Some (JStr channel)) = None then None
      else Some (DEVTOOLS_PANEL_PORT_PREFIX @ channel))"

fun parseDevtoolsPanelPortName :: "js_value \<Rightarrow> jstring option" where
  "parseDevtoolsPanelPortName (VStr name) =
     (if \<not> starts_with DEVTOOLS_PANEL_PORT_PREFIX name then None
      else
        let channel = drop (length DEVTOOLS_PANEL_PORT_PREFIX) name in
        if isValidDevtoolsChannel (Some (JStr channel)) \<noteq> None \<and>
           createDevtoolsPanelPortName channel = Some name
        then Some channel else None)"
| "parseDevtoolsPanelPortName _ = None"

subsection \<open>Local requests\<close>

definition INSPECTOR_LOCAL_REQUEST_TYPES :: "string list" where
  "INSPECTOR_LOCAL_REQUEST_TYPES = [''dom.getRoot'', ''dom.getChildren'', ''dom.resolveLocator'', ''dom.select'',
     ''dom.hover'', ''dom.clearHover'', ''styles.getMatched'', ''styles.setPseudoStates'']"

datatype local_request = LocalDom dom_request | LocalStyles styles_request

fun readExactDataType :: "js_value \<Rightarrow> jstring option" where
  "readExactDataType (VObject p ds) =
     (case map_of ds (StrKey (js ''type'')) of Some (True, Some (VStr t)) \<Rightarrow> Some t | _ \<Rightarrow> None)"
| "readExactDataType _ = None"

definition parseInspectorLocalRequest :: "js_value \<Rightarrow> local_request option" where
  "parseInspectorLocalRequest value =
     (case readExactDataType value of None \<Rightarrow> None
      | Some t \<Rightarrow>
          if t \<notin> set (map js INSPECTOR_LOCAL_REQUEST_TYPES) then None
          else if t = js ''styles.getMatched'' \<or> t = js ''styles.setPseudoStates''
          then map_option LocalStyles (parseStylesRequest value)
          else map_option LocalDom (parseDomRequest value))"

fun isInspectorLocalRequestType :: "js_value \<Rightarrow> bool" where
  "isInspectorLocalRequestType (VStr t) = (t \<in> set (map js INSPECTOR_LOCAL_REQUEST_TYPES))"
| "isInspectorLocalRequestType _ = False"

subsection \<open>Messages\<close>

record inspect_port_request =
  ir_requestId :: jstring
  ir_enabled :: bool

datatype inspect_port_result = PortOk jstring | PortFailed jstring jstring

record republish_request =
  rp_contentSessionId :: jstring
  rp_documentEpoch :: int
  rp_nodeRef :: jstring
  rp_selectionRevision :: int
  rp_republishToken :: jstring

record source_open_command =
  oq_inspectMessageId :: jstring
  oq_resolutionGeneration :: int
  oq_matchId :: jstring

record viewport_resize =
  vr_width :: "int option"
  vr_height :: "int option"

record rules_invalidated =
  rx_inspectMessageId :: jstring
  rx_rulesGeneration :: int

record inspect_started =
  ix_inspectMessageId :: jstring
  ix_selectionRevision :: int
  ix_expectedRuleRefs :: "jstring list"

record presentation_settings =
  px_inspectMessageId :: jstring
  px_ideHighlightEnabled :: bool

subsection \<open>Parsers that read a copy\<close>

definition isSelectionRevision :: "json option \<Rightarrow> int option" where
  "isSelectionRevision value = (case value of
     Some (JNum (JInt n)) \<Rightarrow> if safe_int n \<and> 0 \<le> n then Some n else None
   | _ \<Rightarrow> None)"

definition has_type :: "json_object \<Rightarrow> string \<Rightarrow> unit option" where
  "has_type r t = guard (jget r (js ''type'') = Some (JStr (js t)))"

definition REPUBLISH_KEYS :: "string list" where
  "REPUBLISH_KEYS = [''type'', ''contentSessionId'', ''documentEpoch'', ''nodeRef'', ''selectionRevision'', ''republishToken'']"

definition parseInspectRepublishRequest :: "js_value \<Rightarrow> republish_request option" where
  "parseInspectRepublishRequest value = do {
     r \<leftarrow> snapshotExactDataRecord value (map js REPUBLISH_KEYS);
     has_type r ''pin-op.inspect.republish'';
     session \<leftarrow> isValidContentSessionId (jget r (js ''contentSessionId''));
     epoch \<leftarrow> isSelectionRevision (jget r (js ''documentEpoch''));
     nodeRef \<leftarrow> isOpaqueId (jget r (js ''nodeRef''));
     selection \<leftarrow> isSelectionRevision (jget r (js ''selectionRevision''));
     token \<leftarrow> isOpaqueId (jget r (js ''republishToken''));
     Some \<lparr>rp_contentSessionId = session, rp_documentEpoch = epoch, rp_nodeRef = nodeRef,
       rp_selectionRevision = selection, rp_republishToken = token\<rparr> }"

definition session_request :: "string \<Rightarrow> js_value \<Rightarrow> jstring option" where
  "session_request t value = do {
     r \<leftarrow> snapshotExactDataRecord value [js ''type'', js ''contentSessionId''];
     has_type r t;
     isValidContentSessionId (jget r (js ''contentSessionId'')) }"

definition parseInspectClearPseudoStatesRequest :: "js_value \<Rightarrow> jstring option" where
  "parseInspectClearPseudoStatesRequest = session_request ''pin-op.inspect.clearPseudoStates''"

definition parseInspectDisposeSessionRequest :: "js_value \<Rightarrow> jstring option" where
  "parseInspectDisposeSessionRequest = session_request ''pin-op.inspect.disposeSession''"

fun direction_text :: "direction \<Rightarrow> string" where
  "direction_text Previous = ''previous''"
| "direction_text Next = ''next''"

definition is_direction :: "json option \<Rightarrow> direction option" where
  "is_direction value = (if value = Some (JStr (js ''previous'')) then Some Previous
     else if value = Some (JStr (js ''next'')) then Some Next else None)"

definition parsePanelSourceNavigateCommand :: "js_value \<Rightarrow> navigate_command option" where
  "parsePanelSourceNavigateCommand value = do {
     r \<leftarrow> snapshotExactDataRecord value (map js [''type'', ''inspectMessageId'', ''resolutionGeneration'', ''direction'']);
     has_type r ''pin-op.source.navigate'';
     inspectId \<leftarrow> isOpaqueId (jget r (js ''inspectMessageId''));
     generation \<leftarrow> isResolutionGeneration (jget r (js ''resolutionGeneration''));
     d \<leftarrow> is_direction (jget r (js ''direction''));
     Some \<lparr>nc_inspectMessageId = inspectId, nc_resolutionGeneration = generation, nc_direction = d\<rparr> }"

definition parsePanelSourceOpenCommand :: "js_value \<Rightarrow> source_open_command option" where
  "parsePanelSourceOpenCommand value = do {
     r \<leftarrow> snapshotExactDataRecord value (map js [''type'', ''inspectMessageId'', ''resolutionGeneration'', ''matchId'']);
     has_type r ''pin-op.source.open'';
     inspectId \<leftarrow> isOpaqueId (jget r (js ''inspectMessageId''));
     generation \<leftarrow> isResolutionGeneration (jget r (js ''resolutionGeneration''));
     matchId \<leftarrow> isOpaqueId (jget r (js ''matchId''));
     Some \<lparr>oq_inspectMessageId = inspectId, oq_resolutionGeneration = generation, oq_matchId = matchId\<rparr> }"

definition RULES_OPEN_COMMAND_KEYS :: "string list" where
  "RULES_OPEN_COMMAND_KEYS = [''type'', ''inspectMessageId'', ''rulesGeneration'', ''openAuthorityId'']"

text \<open>\<^verbatim>\<open>a ?? b\<close>\<close>

fun first_snapshot :: "'a option \<Rightarrow> 'a option \<Rightarrow> 'a option" where
  "first_snapshot None b = b"
| "first_snapshot (Some a) b = Some a"

text \<open>
  \<open>strict_object\<close> is what zod does for the strict object of \<^verbatim>\<open>RulesOpenDeclarationSchema\<close> with its text and
  its number; the refinements of both are those of the schema.
\<close>

definition parseRulesOpenDeclaration :: "(js_value \<Rightarrow> open_declaration option) \<Rightarrow> js_value \<Rightarrow> open_declaration option" where
  "parseRulesOpenDeclaration strict_object value = do {
     d \<leftarrow> strict_object value;
     guard (open_declaration_ok d);
     Some d }"

definition parsePanelRulesOpenCommand :: "(js_value \<Rightarrow> open_declaration option) \<Rightarrow> js_value \<Rightarrow> open_command option" where
  "parsePanelRulesOpenCommand strict_object value = do {
     r \<leftarrow> first_snapshot (snapshotExactDataRecord value (map js RULES_OPEN_COMMAND_KEYS))
       (snapshotExactDataRecord value (map js (RULES_OPEN_COMMAND_KEYS @ [''declaration''])));
     has_type r ''pin-op.rules.open'';
     inspectId \<leftarrow> isOpaqueId (jget r (js ''inspectMessageId''));
     generation \<leftarrow> isResolutionGeneration (jget r (js ''rulesGeneration''));
     authority \<leftarrow> isOpaqueId (jget r (js ''openAuthorityId''));
     declaration \<leftarrow> (case jget r (js ''declaration'') of None \<Rightarrow> Some None
       | Some d \<Rightarrow> map_option Some (parseRulesOpenDeclaration strict_object (plain d)));
     Some \<lparr>oc_inspectMessageId = inspectId, oc_rulesGeneration = generation,
       oc_openAuthorityId = authority, oc_declaration = declaration\<rparr> }"

definition VIEWPORT_DIMENSION_MIN :: int where "VIEWPORT_DIMENSION_MIN = 100"
definition VIEWPORT_DIMENSION_MAX :: int where "VIEWPORT_DIMENSION_MAX = 16384"

definition isViewportDimension :: "json option \<Rightarrow> int option" where
  "isViewportDimension value = (case value of
     Some (JNum (JInt n)) \<Rightarrow>
       if safe_int n \<and> VIEWPORT_DIMENSION_MIN \<le> n \<and> n \<le> VIEWPORT_DIMENSION_MAX then Some n else None
   | _ \<Rightarrow> None)"

definition viewport_part :: "json_object \<Rightarrow> string \<Rightarrow> int option option" where
  "viewport_part r key = (case jget r (js key) of None \<Rightarrow> Some None
     | v \<Rightarrow> map_option Some (isViewportDimension v))"

definition parsePanelViewportResizeCommand :: "js_value \<Rightarrow> viewport_resize option" where
  "parsePanelViewportResizeCommand value = do {
     r \<leftarrow> first_snapshot (snapshotExactDataRecord value (map js [''type'', ''width'', ''height'']))
       (first_snapshot (snapshotExactDataRecord value (map js [''type'', ''width'']))
         (snapshotExactDataRecord value (map js [''type'', ''height''])));
     has_type r ''pin-op.viewport.resize'';
     width \<leftarrow> viewport_part r ''width'';
     height \<leftarrow> viewport_part r ''height'';
     Some \<lparr>vr_width = width, vr_height = height\<rparr> }"

definition parsePanelRulesSourcesInvalidatedState :: "js_value \<Rightarrow> rules_invalidated option" where
  "parsePanelRulesSourcesInvalidatedState value = do {
     r \<leftarrow> snapshotExactDataRecord value (map js [''type'', ''inspectMessageId'', ''rulesGeneration'']);
     has_type r ''pin-op.rules.invalidated'';
     inspectId \<leftarrow> isOpaqueId (jget r (js ''inspectMessageId''));
     generation \<leftarrow> isResolutionGeneration (jget r (js ''rulesGeneration''));
     guard (generation \<noteq> 0);
     Some \<lparr>rx_inspectMessageId = inspectId, rx_rulesGeneration = generation\<rparr> }"

definition parsePanelPresentationSettingsCommand :: "js_value \<Rightarrow> presentation_settings option" where
  "parsePanelPresentationSettingsCommand value = do {
     r \<leftarrow> snapshotExactDataRecord value (map js [''type'', ''inspectMessageId'', ''ideHighlightEnabled'']);
     has_type r ''pin-op.presentation.settings'';
     inspectId \<leftarrow> isOpaqueId (jget r (js ''inspectMessageId''));
     enabled \<leftarrow> (case jget r (js ''ideHighlightEnabled'') of Some (JBool b) \<Rightarrow> Some b | _ \<Rightarrow> None);
     Some \<lparr>px_inspectMessageId = inspectId, px_ideHighlightEnabled = enabled\<rparr> }"

subsection \<open>The data of the commands\<close>

definition typed :: "string \<Rightarrow> members \<Rightarrow> json" where
  "typed t ms = object_of ((''type'', Some (text_json t)) # ms)"

definition republish_json :: "republish_request \<Rightarrow> json" where
  "republish_json q = typed ''pin-op.inspect.republish''
     [(''contentSessionId'', Some (JStr (rp_contentSessionId q))), (''documentEpoch'', Some (jint (rp_documentEpoch q))),
      (''nodeRef'', Some (JStr (rp_nodeRef q))), (''selectionRevision'', Some (jint (rp_selectionRevision q))),
      (''republishToken'', Some (JStr (rp_republishToken q)))]"

definition session_json :: "string \<Rightarrow> jstring \<Rightarrow> json" where
  "session_json t session = typed t [(''contentSessionId'', Some (JStr session))]"

definition navigate_json :: "navigate_command \<Rightarrow> json" where
  "navigate_json c = typed ''pin-op.source.navigate''
     [(''inspectMessageId'', Some (JStr (nc_inspectMessageId c))),
      (''resolutionGeneration'', Some (jint (nc_resolutionGeneration c))),
      (''direction'', Some (text_json (direction_text (nc_direction c))))]"

definition source_open_json :: "source_open_command \<Rightarrow> json" where
  "source_open_json c = typed ''pin-op.source.open''
     [(''inspectMessageId'', Some (JStr (oq_inspectMessageId c))),
      (''resolutionGeneration'', Some (jint (oq_resolutionGeneration c))), (''matchId'', Some (JStr (oq_matchId c)))]"

definition open_declaration_json :: "open_declaration \<Rightarrow> json" where
  "open_declaration_json d = object_of
     [(''property'', Some (JStr (od_property d))), (''occurrence'', Some (jint (od_occurrence d)))]"

definition rules_open_json :: "open_command \<Rightarrow> json" where
  "rules_open_json c = typed ''pin-op.rules.open''
     [(''inspectMessageId'', Some (JStr (oc_inspectMessageId c))),
      (''rulesGeneration'', Some (jint (oc_rulesGeneration c))),
      (''openAuthorityId'', Some (JStr (oc_openAuthorityId c))),
      (''declaration'', map_option open_declaration_json (oc_declaration c))]"

definition viewport_json :: "viewport_resize \<Rightarrow> json" where
  "viewport_json c = typed ''pin-op.viewport.resize''
     [(''width'', map_option jint (vr_width c)), (''height'', map_option jint (vr_height c))]"

definition rules_invalidated_json :: "rules_invalidated \<Rightarrow> json" where
  "rules_invalidated_json c = typed ''pin-op.rules.invalidated''
     [(''inspectMessageId'', Some (JStr (rx_inspectMessageId c))), (''rulesGeneration'', Some (jint (rx_rulesGeneration c)))]"

definition presentation_json :: "presentation_settings \<Rightarrow> json" where
  "presentation_json c = typed ''pin-op.presentation.settings''
     [(''inspectMessageId'', Some (JStr (px_inspectMessageId c))),
      (''ideHighlightEnabled'', Some (JBool (px_ideHighlightEnabled c)))]"

definition started_json :: "inspect_started \<Rightarrow> json" where
  "started_json s = typed ''pin-op.inspect.started''
     [(''inspectMessageId'', Some (JStr (ix_inspectMessageId s))),
      (''selectionRevision'', Some (jint (ix_selectionRevision s))),
      (''expectedRuleRefs'', Some (JArr (map JStr (ix_expectedRuleRefs s))))]"

definition port_request_json :: "inspect_port_request \<Rightarrow> json" where
  "port_request_json q = typed ''pin-op.inspect.setEnabled''
     [(''requestId'', Some (JStr (ir_requestId q))), (''enabled'', Some (JBool (ir_enabled q)))]"

fun port_result_json :: "inspect_port_result \<Rightarrow> json" where
  "port_result_json (PortOk requestId) = typed ''pin-op.inspect.result''
     [(''requestId'', Some (JStr requestId)), (''ok'', Some (JBool True))]"
| "port_result_json (PortFailed requestId e) = typed ''pin-op.inspect.result''
     [(''requestId'', Some (JStr requestId)), (''ok'', Some (JBool False)), (''error'', Some (JStr e))]"

subsection \<open>The state of a started inspection\<close>

text \<open>\<open>seen\<close> are the references before; the key \<^verbatim>\<open>length\<close> is no property of the array here.\<close>

fun rule_refs :: "js_property list \<Rightarrow> nat list \<Rightarrow> jstring list \<Rightarrow> jstring list option" where
  "rule_refs ds [] seen = Some []"
| "rule_refs ds (i # is) seen =
     (case map_of ds (StrKey (decimal i)) of
        Some (True, Some (VStr ref)) \<Rightarrow>
          if ref = [] \<or> length ref > lim_opaqueIdLength RESOLUTION_LIMITS \<or> ref \<in> set seen then None
          else map_option (Cons ref) (rule_refs ds is (ref # seen))
      | _ \<Rightarrow> None)"

fun snapshotExpectedRuleRefs :: "js_value \<Rightarrow> jstring list option" where
  "snapshotExpectedRuleRefs (VArray len ds) =
     (if len > lim_sources RULES_SOURCES_LIMITS \<or> length ds \<noteq> len \<or> SymKey \<in> fst ` set ds then None
      else rule_refs ds [0..<len] [])"
| "snapshotExpectedRuleRefs _ = None"

definition STARTED_KEYS :: "string list" where
  "STARTED_KEYS = [''type'', ''inspectMessageId'', ''selectionRevision'', ''expectedRuleRefs'']"

fun started_fields :: "js_value \<Rightarrow> data_record option" where
  "started_fields (VObject True ds) =
     (if length ds \<noteq> length STARTED_KEYS \<or> SymKey \<in> fst ` set ds then None
      else those (map (\<lambda>key. case map_of ds (StrKey (js key)) of
        Some (True, Some v) \<Rightarrow> Some (js key, v) | _ \<Rightarrow> None) STARTED_KEYS))"
| "started_fields _ = None"

definition parsePanelInspectStartedState :: "js_value \<Rightarrow> inspect_started option" where
  "parsePanelInspectStartedState value = do {
     r \<leftarrow> started_fields value;
     expectedRuleRefs \<leftarrow> snapshotExpectedRuleRefs (property r ''expectedRuleRefs'');
     guard (property r ''type'' = VStr (js ''pin-op.inspect.started''));
     inspectId \<leftarrow> bounded_text (lim_opaqueIdLength RESOLUTION_LIMITS) True (property r ''inspectMessageId'');
     selection \<leftarrow> nonneg_integer (property r ''selectionRevision'');
     Some \<lparr>ix_inspectMessageId = inspectId, ix_selectionRevision = selection,
       ix_expectedRuleRefs = expectedRuleRefs\<rparr> }"

subsection \<open>Parsers that read members\<close>

text \<open>\<^verbatim>\<open>isRecord\<close> with the members of the object; arrays are objects too.\<close>

fun isRecord :: "js_value \<Rightarrow> js_property list option" where
  "isRecord (VObject p ds) = Some ds"
| "isRecord (VArray len ds) = Some ds"
| "isRecord _ = None"

definition member_of :: "js_property list \<Rightarrow> string \<Rightarrow> js_value" where
  "member_of ds key = (case map_of ds (StrKey (js key)) of Some (_, Some v) \<Rightarrow> v | _ \<Rightarrow> VUndefined)"

definition enumerable_keys :: "js_property list \<Rightarrow> jstring list" where
  "enumerable_keys ds = concat (map (\<lambda>d. case d of (StrKey k, True, _) \<Rightarrow> [k] | _ \<Rightarrow> []) ds)"

definition hasOnlyKeys :: "js_property list \<Rightarrow> string list \<Rightarrow> bool" where
  "hasOnlyKeys ds keys \<longleftrightarrow> length (enumerable_keys ds) = length keys \<and>
     list_all (\<lambda>key. key \<in> set (map js keys)) (enumerable_keys ds)"

fun nonempty_text :: "js_value \<Rightarrow> jstring option" where
  "nonempty_text (VStr s) = (if length s = 0 then None else Some s)"
| "nonempty_text _ = None"

definition parseInspectPortRequest :: "js_value \<Rightarrow> inspect_port_request option" where
  "parseInspectPortRequest value = do {
     ds \<leftarrow> isRecord value;
     guard (hasOnlyKeys ds [''type'', ''requestId'', ''enabled'']);
     guard (member_of ds ''type'' = VStr (js ''pin-op.inspect.setEnabled''));
     requestId \<leftarrow> nonempty_text (member_of ds ''requestId'');
     enabled \<leftarrow> is_boolean (member_of ds ''enabled'');
     Some \<lparr>ir_requestId = requestId, ir_enabled = enabled\<rparr> }"

definition parseInspectPortResult :: "js_value \<Rightarrow> inspect_port_result option" where
  "parseInspectPortResult value = do {
     ds \<leftarrow> isRecord value;
     guard (member_of ds ''type'' = VStr (js ''pin-op.inspect.result''));
     requestId \<leftarrow> nonempty_text (member_of ds ''requestId'');
     ok \<leftarrow> is_boolean (member_of ds ''ok'');
     if ok then do { guard (hasOnlyKeys ds [''type'', ''requestId'', ''ok'']); Some (PortOk requestId) }
     else do {
       guard (hasOnlyKeys ds [''type'', ''requestId'', ''ok'', ''error'']);
       message \<leftarrow> (case member_of ds ''error'' of VStr e \<Rightarrow> Some e | _ \<Rightarrow> None);
       Some (PortFailed requestId message) } }"

definition parseInspectPortInvalidated :: "js_value \<Rightarrow> unit option" where
  "parseInspectPortInvalidated value = do {
     ds \<leftarrow> isRecord value;
     guard (hasOnlyKeys ds [''type'', ''reason'']);
     guard (member_of ds ''type'' = VStr (js ''pin-op.inspect.invalidated''));
     guard (member_of ds ''reason'' = VStr (js ''documentDisconnected'')) }"

text \<open>The result is whether inspect mode is enabled.\<close>

definition parseInspectControllerCommand :: "js_value \<Rightarrow> bool option" where
  "parseInspectControllerCommand value = do {
     ds \<leftarrow> isRecord value;
     if member_of ds ''type'' = VStr (js ''enableInspectMode'') then Some True
     else if member_of ds ''type'' = VStr (js ''disableInspectMode'') then Some False
     else None }"

end
