(* ===== verification/Port_Commands.thy ===== *)
theory Port_Commands
  imports Inspect_Ports
begin

text \<open>
  What passes through the ports arrives as it was sent: names of ports and commands of the panel,
  and with the model of the panel every command that it sends is understood by the background page.
\<close>

subsection \<open>Copies of plain data\<close>

lemma plain_members_same:
  assumes "\<And>j n. fst (snap (plain j) n) = None \<or> fst (snap (plain j) n) = Some j"
  shows "fst (snapshot_members snap (map (\<lambda>m. (StrKey (fst m), True, Some (plain (snd m)))) ms) n) \<in> {None, Some ms}"
proof (induction ms arbitrary: n)
  case (Cons m ms)
  obtain x n1 where x: "snap (plain (snd m)) n = (x, n1)" by force
  obtain y n2 where y: "snapshot_members snap (map (\<lambda>m. (StrKey (fst m), True, Some (plain (snd m)))) ms) n1 = (y, n2)" by force
  have "y = None \<or> y = Some ms" using Cons.IH [of n1] by (simp add: y)
  then show ?case using assms [of "snd m" n] by (auto simp: x y split: option.splits)
qed simp

lemma plain_items_same:
  assumes "\<And>j n. fst (snap (plain j) n) = None \<or> fst (snap (plain j) n) = Some j" and "set is \<subseteq> {..<length xs}"
  shows "fst (snapshot_items snap
      (zip (map (\<lambda>i. StrKey (decimal i)) [0..<length xs]) (map (\<lambda>x. (True, Some (plain x))) xs)) is n)
    \<in> {None, Some (map (\<lambda>i. xs ! i) is)}"
  using assms(2)
proof (induction "is" arbitrary: n)
  case (Cons i "is")
  let ?ds = "zip (map (\<lambda>i. StrKey (decimal i)) [0..<length xs]) (map (\<lambda>x. (True, Some (plain x))) xs)"
  obtain x n1 where x: "snap (plain (xs ! i)) n = (x, n1)" by force
  obtain y n2 where y: "snapshot_items snap ?ds is n1 = (y, n2)" by force
  have "y = None \<or> y = Some (map (\<lambda>i. xs ! i) is)" using Cons.IH [of n1] Cons.prems by (simp add: y)
  then show ?case using assms(1) [of "xs ! i" n] Cons.prems
    by (auto simp: plain_item x y split: option.splits)
qed simp

lemma plain_same: "fst (snapshotJsonData lim room (plain j) n) = None \<or> fst (snapshotJsonData lim room (plain j) n) = Some j"
proof (induction room arbitrary: j n)
  case 0
  then show ?case by (cases j) simp_all
next
  case (Suc room)
  show ?case
  proof (cases j)
    case (JArr xs)
    have "fst (snapshot_items (snapshotJsonData lim room)
        (zip (map (\<lambda>i. StrKey (decimal i)) [0..<length xs]) (map (\<lambda>x. (True, Some (plain x))) xs)) [0..<length xs] (n + 1))
      \<in> {None, Some (map (\<lambda>i. xs ! i) [0..<length xs])}"
      using Suc.IH by (intro plain_items_same) auto
    then show ?thesis by (auto simp: JArr map_nth split: prod.split option.split simp del: upt_Suc)
  next
    case (JObj ms)
    have "fst (snapshot_members (snapshotJsonData lim room)
        (map (\<lambda>m. (StrKey (fst m), True, Some (plain (snd m)))) ms) (n + 1)) \<in> {None, Some ms}"
      using Suc.IH by (intro plain_members_same)
    then show ?thesis by (auto simp: JObj split: prod.split option.split)
  qed simp_all
qed

lemma snapshot_plain:
  "snapshot_data lim (plain j) = (if fits lim (MAX_SNAPSHOT_DEPTH + 1) j \<and> containers j \<le> sl_maxNodes lim then Some j else None)"
proof (cases "snapshot_data lim (plain j)")
  case None
  then show ?thesis using snapshot_round_trip [of lim j] by auto
next
  case (Some k)
  then have "k = j" using plain_same [of lim "MAX_SNAPSHOT_DEPTH + 1" j 0] by (auto simp: snapshot_data_def)
  then show ?thesis using Some snapshot_within [OF Some] by simp
qed

definition copied :: "json \<Rightarrow> bool" where
  "copied j = fits defaultSnapshotLimits (Suc 11) j"

lemma copied_simps [simp]:
  "copied (JStr s) = (length s \<le> 262144)" "copied (JNum x)" "copied (JBool b)"
  "copied (text_json t) = (length t \<le> 262144)" "copied (jint n)"
  by (simp_all add: copied_def text_json_def jint_def MAX_SNAPSHOT_STRING_LENGTH_def)

lemma copied_object [simp]:
  "copied (object_of ms) = (length (present ms) \<le> 64 \<and> list_all (fits defaultSnapshotLimits 11) (map snd (present ms)))"
  unfolding copied_def object_of_def fits.simps by (simp add: MAX_SNAPSHOT_OBJECT_KEYS_def)

lemma fits_text: "fits lim room (JStr s) = (length s \<le> 262144)"
  by (cases room) (simp_all add: MAX_SNAPSHOT_STRING_LENGTH_def)

lemma containers_parts [simp]: "containers (text_json t) = 0" "containers (jint n) = 0"
  "containers (object_of ms) = Suc (sum_list (map (\<lambda>m. containers (snd m)) (present ms)))"
  by (simp_all add: text_json_def jint_def object_of_def)

lemma exact_plain:
  "snapshotExactDataRecord (plain (object_of ms)) keys =
    (if length (present ms) \<le> 64 \<and> list_all copied (map snd (present ms)) \<and> containers (object_of ms) \<le> 512 \<and>
        length (present ms) = length keys \<and> list_all (\<lambda>key. key \<in> set (jkeys (present ms))) keys
     then Some (present ms) else None)"
proof -
  have f: "fits defaultSnapshotLimits (MAX_SNAPSHOT_DEPTH + 1) (object_of ms) =
      (length (present ms) \<le> 64 \<and> list_all copied (map snd (present ms)))"
    by (simp add: object_of_def copied_def MAX_SNAPSHOT_DEPTH_def MAX_SNAPSHOT_OBJECT_KEYS_def numeral_eq_Suc list_all_iff)
  have m: "sl_maxNodes defaultSnapshotLimits = 512" by (simp add: defaultSnapshotLimits_def)
  show ?thesis unfolding snapshotExactDataRecord_def snapshot_plain f m
    by (cases "length (present ms) \<le> 64 \<and> list_all copied (map snd (present ms)) \<and> containers (object_of ms) \<le> 512")
      (auto simp: object_of_def simp del: containers_parts)
qed

subsection \<open>Commands\<close>

definition opaque_text :: "jstring \<Rightarrow> bool" where
  "opaque_text s \<longleftrightarrow> 0 < length s \<and> length s \<le> 128"

definition generation_number :: "int \<Rightarrow> bool" where
  "generation_number n \<longleftrightarrow> safe_int n \<and> 0 \<le> n \<and> n \<le> lim_generation RESOLUTION_LIMITS"

definition session_text :: "jstring \<Rightarrow> bool" where
  "session_text s \<longleftrightarrow> 0 < length s \<and> length s \<le> 128 \<and> list_all session_char s"

definition channel_text :: "jstring \<Rightarrow> bool" where
  "channel_text s \<longleftrightarrow> 0 < length s \<and> length s \<le> 128 \<and> list_all channel_char s"

lemma narrow_parts:
  "isOpaqueId (Some (JStr s)) = (if opaque_text s then Some s else None)"
  "isResolutionGeneration (Some (JNum (JInt n))) = (if generation_number n then Some n else None)"
  "isSelectionRevision (Some (JNum (JInt n))) = (if nonneg_ok n then Some n else None)"
  "isValidContentSessionId (Some (JStr s)) = (if session_text s then Some s else None)"
  "isValidDevtoolsChannel (Some (JStr s)) = (if channel_text s then Some s else None)"
  by (simp_all add: isOpaqueId_def opaque_text_def isResolutionGeneration_def generation_number_def
      isSelectionRevision_def nonneg_ok_def isValidContentSessionId_def session_text_def
      CONTENT_SESSION_ID_MAX_LENGTH_def isValidDevtoolsChannel_def channel_text_def DEVTOOLS_CHANNEL_MAX_LENGTH_def)

lemma opaque_short [simp]: "opaque_text s \<Longrightarrow> length s \<le> 262144"
  and session_short [simp]: "session_text s \<Longrightarrow> length s \<le> 262144"
  by (simp_all add: opaque_text_def session_text_def)

lemmas command_simps = typed_def exact_plain has_type_def narrow_parts bind_eq_Some_conv














subsection \<open>Opening rules\<close>

text \<open>zod reads a plain object with a text and a number as the two.\<close>

definition reads_declarations :: "(js_value \<Rightarrow> open_declaration option) \<Rightarrow> bool" where
  "reads_declarations strict_object \<longleftrightarrow> (\<forall>d. strict_object (plain (open_declaration_json d)) = Some d)"

definition rules_open_accepted :: "open_command \<Rightarrow> bool" where
  "rules_open_accepted c \<longleftrightarrow> opaque_text (oc_inspectMessageId c) \<and> generation_number (oc_rulesGeneration c) \<and>
     opaque_text (oc_openAuthorityId c) \<and> pred_option open_declaration_ok (oc_declaration c)"

lemma declaration_short: "open_declaration_ok d \<Longrightarrow> length (od_property d) \<le> 262144"
  by (simp add: open_declaration_ok_def text_between_def RULES_SOURCES_LIMITS_def)

lemma rules_open_round_trip:
  assumes "reads_declarations strict_object"
  shows "parsePanelRulesOpenCommand strict_object (plain (rules_open_json c)) = (if rules_open_accepted c then Some c else None)"
proof -
  have d: "parseRulesOpenDeclaration strict_object (plain (object_of [(''property'', Some (JStr (od_property d))),
      (''occurrence'', Some (jint (od_occurrence d)))])) = (if open_declaration_ok d then Some d else None)" for d
    using assms by (simp add: parseRulesOpenDeclaration_def reads_declarations_def open_declaration_json_def)
  show ?thesis
    unfolding parsePanelRulesOpenCommand_def rules_open_json_def typed_def exact_plain RULES_OPEN_COMMAND_KEYS_def
    by (cases c; cases "oc_declaration c")
      (auto simp: text_json_def jint_def has_type_def narrow_parts rules_open_accepted_def fits_text d [unfolded jint_def]
        open_declaration_json_def MAX_SNAPSHOT_STRING_LENGTH_def dest: declaration_short)
qed

subsection \<open>Messages read member by member\<close>


lemma data_fields_simps: "data_fields [] = []"
  "data_fields ((k, v) # ms) = (case v of None \<Rightarrow> data_fields ms | Some j \<Rightarrow> (js k, plain j) # data_fields ms)"
  by (simp_all add: data_fields_def split: option.split)










subsection \<open>Names of ports\<close>

lemma starts_with_append [simp]: "starts_with p (p @ s)"
  by (auto simp: starts_with_iff)







text \<open>A reader of declarations, and a command with one.\<close>

fun example_reader :: "js_value \<Rightarrow> open_declaration option" where
  "example_reader (VObject True [(StrKey p, True, Some (VStr t)), (StrKey q, True, Some (VNum (JInt n)))]) =
     (if p = js ''property'' \<and> q = js ''occurrence'' then Some \<lparr>od_property = t, od_occurrence = n\<rparr> else None)"
| "example_reader _ = None"

definition example_declaration :: open_declaration where
  "example_declaration = \<lparr>od_property = js ''color'', od_occurrence = 0\<rparr>"

lemma example_reader_reads: "reads_declarations example_reader"
  by (simp add: reads_declarations_def open_declaration_json_def plain_object data_fields_simps jint_def)

lemma example_declaration_ok: "open_declaration_ok example_declaration"
  by code_simp


subsection \<open>The panel and the background page\<close>

text \<open>The declaration of a command is one that the schema returned.\<close>

lemma dispatched_declarations:
  "list_all (\<lambda>c. oc_declaration c = None \<or> (\<exists>x. parse x = oc_declaration c))
     (ov_dispatched (foldl (origins_step decode parse) new_origins actions))"
proof (induction actions rule: rev_induct)
  case Nil
  show ?case by (simp add: new_origins_def)
next
  case (snoc x xs)
  then show ?case
  proof (cases x)
    case (OpenOrigin r d)
    define v where "v = foldl (origins_step decode parse) new_origins xs"
    show ?thesis using snoc unfolding OpenOrigin v_def [symmetric] foldl_append
      by (cases "open_origin parse r d v = v") (auto elim!: open_origin_cases simp: v_def [symmetric])
  qed (use snoc in \<open>auto simp: begin_origins_def accept_origins_def publish_origins_def invalidatePublication_def
      invalidate_origins_def setCompatible_def subscribe_origins_def unsubscribe_origins_def
      dispose_origins_def Let_def split: option.splits\<close>)
qed

definition source_message_ok :: "rules_sources_message \<Rightarrow> bool" where
  "source_message_ok m \<longleftrightarrow> opaqueId (inspectMessageId m) \<and> generation_ok (rsm_rulesGeneration m) \<and>
     list_all rules_source_ok (rsm_sources m)"

lemma parsed_declaration: "parseRulesOpenDeclaration strict_object x = Some d \<Longrightarrow> open_declaration_ok d"
  by (auto simp: parseRulesOpenDeclaration_def bind_eq_Some_conv)

lemma command_accepted:
  assumes c: "command_ok decode actions c"
    and d: "oc_declaration c = None \<or> (\<exists>x. parseRulesOpenDeclaration strict_object x = oc_declaration c)"
    and decode: "\<And>j m. decode j = Some m \<Longrightarrow> source_message_ok m"
  shows "rules_open_accepted c"
proof -
  obtain m s j where m: "parseRulesSourcesProtocolData j decode = Some m" "s \<in> set (rsm_sources m)"
      "oc_inspectMessageId c = inspectMessageId m" "oc_rulesGeneration c = rsm_rulesGeneration m"
      "oc_openAuthorityId c = rs_openAuthorityId s"
    using c unfolding command_ok_def accepted_message_def by blast
  from m(1) obtain k where "decode k = Some m"
    by (auto simp: parseRulesSourcesProtocolData_def parseProtocolDataWithLimits_def split: option.splits)
  from decode [OF this] have ok: "opaqueId (inspectMessageId m)" "generation_ok (rsm_rulesGeneration m)" "rules_source_ok s"
    using m(2) by (simp_all add: source_message_ok_def list_all_iff)
  have "pred_option open_declaration_ok (oc_declaration c)"
    using d parsed_declaration by (cases "oc_declaration c") auto
  then show ?thesis using ok m(3-5)
    by (simp add: rules_open_accepted_def opaque_text_def generation_number_def opaqueId_def text_between_def
        generation_ok_def rules_source_ok_def RESOLUTION_LIMITS_def RULES_SOURCES_LIMITS_def safe_int_def Suc_le_eq)
qed

text \<open>C37:
  The panel and the background page agree: whatever happens to the panel, each command to open a
  rule that it sends is understood by the background page as the command it was, provided that
  the schema only lets valid messages through and that zod reads a plain object with a text and a
  number as the two.
\<close>
theorem rule_open_commands_arrive:
  assumes "\<And>j m. decode j = Some m \<Longrightarrow> source_message_ok m"
    and "reads_declarations strict_object"
  shows "list_all (\<lambda>c. parsePanelRulesOpenCommand strict_object (plain (rules_open_json c)) = Some c)
    (ov_dispatched (foldl (origins_step decode (parseRulesOpenDeclaration strict_object)) new_origins actions))"
proof -
  let ?p = "parseRulesOpenDeclaration strict_object"
  let ?cs = "ov_dispatched (foldl (origins_step decode ?p) new_origins actions)"
  have ok: "list_all (command_ok decode actions) ?cs"
    using run_origins_ok [of decode actions ?p] by (simp add: origins_ok_def list_all_iff)
  show ?thesis unfolding list_all_iff
  proof
    fix c assume c: "c \<in> set ?cs"
    then have "command_ok decode actions c" "oc_declaration c = None \<or> (\<exists>x. ?p x = oc_declaration c)"
      using ok dispatched_declarations [of ?p decode actions] unfolding list_all_iff by blast+
    from command_accepted [OF this assms(1)]
    show "parsePanelRulesOpenCommand strict_object (plain (rules_open_json c)) = Some c"
      by (simp add: rules_open_round_trip [OF assms(2)])
  qed
qed

text \<open>A rule that is opened at a declaration.\<close>

definition example_actions :: "origins_action list" where
  "example_actions = [BeginOrigins (js ''i'') [js ''rule:0''], AcceptOrigins VNull,
     OpenOrigin (js ''rule:0'') (plain (open_declaration_json example_declaration))]"

theorem rule_open_commands_arrive_witness:
  "\<exists>c. c \<in> set (ov_dispatched (foldl (origins_step (\<lambda>_. Some example_rules) (parseRulesOpenDeclaration example_reader))
       new_origins example_actions)) \<and>
     oc_declaration c = Some example_declaration \<and>
     parsePanelRulesOpenCommand example_reader (plain (rules_open_json c)) = Some c"
proof -
  let ?d = "\<lambda>_. Some example_rules" and ?p = "parseRulesOpenDeclaration example_reader"
  let ?c = "\<lparr>oc_inspectMessageId = js ''i'', oc_rulesGeneration = 1, oc_openAuthorityId = js ''o'',
    oc_declaration = Some example_declaration\<rparr>"
  have p: "?p (plain (open_declaration_json example_declaration)) = Some example_declaration"
    using example_reader_reads example_declaration_ok by (simp add: parseRulesOpenDeclaration_def reads_declarations_def)
  have n: "plain (open_declaration_json example_declaration) \<noteq> VUndefined"
    by (simp add: plain_object open_declaration_json_def)
  have "ov_dispatched (foldl (origins_step ?d ?p) new_origins example_actions) = [?c]"
    by (simp add: example_actions_def begin_origins_def copyExpectedRefs_def new_origins_def accept_origins_def
        parseRulesSourcesProtocolData_def parseProtocolDataWithLimits_def snapshot_data_def example_rules_def
        coversExpectedRules_def publish_origins_def open_origin_def stored_of_def p n
        opaqueId_def text_between_def RULES_SOURCES_LIMITS_def RESOLUTION_LIMITS_def set_of_def set_add_def)
  moreover have "source_message_ok example_rules" by code_simp
  ultimately show ?thesis
    using rule_open_commands_arrive [of ?d example_reader example_actions] example_reader_reads
    by (intro exI [of _ ?c]) auto
qed

end
