(* ===== verification/Pseudo_Selectors.thy ===== *)
theory Pseudo_Selectors
  imports Styles_Protocol Text_Regex
begin

text \<open>
  \<^verbatim>\<open>browser-extension-core/src/pseudoStateSelector.ts\<close>: the rewriting of selectors by which a
  pseudo state is shown without being in it. \<open>:hover\<close> and \<open>:focus\<close> become marker attributes and
  every branch is tied to the selected element. The parser and printer of selectors and its test for
  pseudo elements (\<^verbatim>\<open>postcss-selector-parser\<close>) are parameters; the test looks at the name of the
  pseudo only.
\<close>

subsection \<open>Selectors\<close>

datatype sel_node =
    Tag jstring | ClassName jstring | IdName jstring | Attribute jstring | Universal jstring
  | Combinator jstring | CommentNode jstring | Nesting jstring | OtherNode jstring
  | Pseudo jstring "sel_node list list"

type_synonym selector = "sel_node list"

record marker_names =
  mn_selection :: jstring
  mn_hover :: jstring
  mn_focus :: jstring

datatype unsupported_reason =
    InvalidMarkerName | SelectorByteLimit | SelectorBranchLimit | SelectorDepthLimit | MalformedSelector
  | NoTargetPseudo | UnsupportedTargetPosition | MultipleTargetCompounds | TargetUnderNegation
  | TargetInsideHas | UnsupportedFunctionalTarget | SpecificityChange | UnsafeSelector

datatype transform_result = TransformSupported jstring nat nat nat | TransformUnsupported unsupported_reason

definition SELECTOR_BYTES :: nat where "SELECTOR_BYTES = 16 * 1024"
definition SELECTOR_BRANCHES :: nat where "SELECTOR_BRANCHES = 128"
definition FUNCTIONAL_DEPTH :: nat where "FUNCTIONAL_DEPTH = 16"

text \<open>\<^verbatim>\<open>/^data-pin-op-preview-[a-z0-9-]{16,64}$/u\<close>\<close>

definition marker_name :: "jstring \<Rightarrow> bool" where
  "marker_name t \<longleftrightarrow> starts_with (js ''data-pin-op-preview-'') t \<and>
     (let rest = drop 20 t in 16 \<le> length rest \<and> length rest \<le> 64 \<and>
      list_all (\<lambda>c. is_lower c \<or> is_digit c \<or> c = 0x2d) rest)"

definition readMarkerNames :: "marker_names \<Rightarrow> marker_names option" where
  "readMarkerNames m =
     (if list_all marker_name [mn_selection m, mn_hover m, mn_focus m] \<and>
         length (set_of [mn_selection m, mn_hover m, mn_focus m]) = 3 then Some m else None)"

definition readRequestedStates :: "pseudo_state list \<Rightarrow> pseudo_state list option" where
  "readRequestedStates states = (if length states > 2 then None else Some (set_of states))"

subsection \<open>Names of pseudo classes\<close>

text \<open>\<^verbatim>\<open>toLowerCase\<close>: no character outside ASCII becomes a letter of the names compared with.\<close>

definition lower :: "jstring \<Rightarrow> jstring" where
  "lower = map ascii_lower"

fun take_hex :: "nat \<Rightarrow> jstring \<Rightarrow> jstring \<times> jstring" where
  "take_hex (Suc n) (c # cs) =
     (if hex_digit_value c = None then ([], c # cs) else apfst (Cons c) (take_hex n cs))"
| "take_hex _ cs = ([], cs)"

definition hex_number :: "jstring \<Rightarrow> nat" where
  "hex_number = foldl (\<lambda>n c. n * 16 + the (hex_digit_value c)) 0"

definition escaped_point :: "nat \<Rightarrow> jstring" where
  "escaped_point n = (if n = 0 \<or> n > 0x10ffff \<or> 0xd800 \<le> n \<and> n \<le> 0xdfff then [0xfffd] else utf16_of n)"

definition isCssWhitespace :: "code_unit \<Rightarrow> bool" where
  "isCssWhitespace c \<longleftrightarrow> c \<in> {0x20, 0x09, 0x0a, 0x0d, 0x0c}"

fun skip_whitespace :: "jstring \<Rightarrow> jstring" where
  "skip_whitespace [] = []"
| "skip_whitespace (c # cs) =
     (if \<not> isCssWhitespace c then c # cs
      else if c = 0x0d then (case cs of [] \<Rightarrow> [] | d # ds \<Rightarrow> if d = 0x0a then ds else cs)
      else cs)"

lemma take_hex_length: "length (snd (take_hex n cs)) \<le> length cs"
  by (induction n cs rule: take_hex.induct) auto

lemma skip_whitespace_length: "length (skip_whitespace cs) \<le> length cs"
  by (cases cs rule: skip_whitespace.cases) (auto split: list.split)

function decodeCssIdentifier :: "jstring \<Rightarrow> jstring option" where
  "decodeCssIdentifier [] = Some []"
| "decodeCssIdentifier (c # cs) =
     (if c \<noteq> 0x5c then map_option (Cons c) (decodeCssIdentifier cs)
      else (case cs of
          [] \<Rightarrow> None
        | e # rest \<Rightarrow>
            if e = 0x0a \<or> e = 0x0d \<or> e = 0x0c then None
            else if hex_digit_value e = None then map_option (Cons e) (decodeCssIdentifier rest)
            else map_option (append (escaped_point (hex_number (e # fst (take_hex 5 rest)))))
              (decodeCssIdentifier (skip_whitespace (snd (take_hex 5 rest))))))"
  by pat_completeness auto
termination
proof (relation "measure length")
  fix c e :: code_unit and cs rest :: jstring
  assume "cs = e # rest"
  then show "(skip_whitespace (snd (take_hex 5 rest)), c # cs) \<in> measure length"
    using skip_whitespace_length [of "snd (take_hex 5 rest)"] take_hex_length [of 5 rest] by simp
qed simp_all

definition targetState :: "jstring \<Rightarrow> pseudo_state option" where
  "targetState v =
     (if \<not> starts_with [0x3a] v \<or> starts_with [0x3a, 0x3a] v then None
      else (case decodeCssIdentifier (drop 1 v) of
          None \<Rightarrow> None
        | Some d \<Rightarrow> if lower d = js ''hover'' then Some PseudoHover
            else if lower d = js ''focus'' then Some PseudoFocus else None))"

text \<open>\<open>walkPseudos\<close> over a node and what is below it.\<close>

fun holds_pseudo :: "(jstring \<Rightarrow> bool) \<Rightarrow> sel_node \<Rightarrow> bool" where
  "holds_pseudo P (Pseudo v sels) = (P v \<or> list_ex (\<lambda>s. list_ex (holds_pseudo P) s) sels)"
| "holds_pseudo P _ = False"

definition is_target :: "pseudo_state list \<Rightarrow> jstring \<Rightarrow> bool" where
  "is_target requested v = (case targetState v of None \<Rightarrow> False | Some s \<Rightarrow> s \<in> set requested)"

definition containsTargetPseudo :: "pseudo_state list \<Rightarrow> selector list \<Rightarrow> bool" where
  "containsTargetPseudo requested = list_ex (list_ex (holds_pseudo (is_target requested)))"

subsection \<open>Measures\<close>

text \<open>The head of the list is the top of the stack.\<close>

definition push_children :: "selector \<Rightarrow> nat \<Rightarrow> (selector \<times> nat) list \<Rightarrow> (selector \<times> nat) list" where
  "push_children s depth =
     (\<lambda>stack. foldl (\<lambda>st n. case n of Pseudo v sels \<Rightarrow> map (\<lambda>c. (c, depth + 1)) sels @ st | _ \<Rightarrow> st) stack s)"

function measure_loop :: "(selector \<times> nat) list \<Rightarrow> nat \<Rightarrow> nat \<Rightarrow> nat \<times> nat" where
  "measure_loop [] branches maximumDepth = (branches, maximumDepth)"
| "measure_loop ((s, depth) # stack) branches maximumDepth =
     (let b = branches + 1; d = max maximumDepth depth in
      if b > SELECTOR_BRANCHES \<or> d > FUNCTIONAL_DEPTH then (b, d)
      else measure_loop (push_children s depth stack) b d)"
  by pat_completeness auto
termination
  by (relation "measure (\<lambda>(stack, b, d). SELECTOR_BRANCHES - b)") (auto simp: SELECTOR_BRANCHES_def)

definition measureSelectors :: "selector list \<Rightarrow> nat \<times> nat" where
  "measureSelectors sels = measure_loop (rev (map (\<lambda>s. (s, 0)) sels)) 0 0"

definition isStandardCombinator :: "jstring \<Rightarrow> bool" where
  "isStandardCombinator v \<longleftrightarrow> trim v \<in> {[], js ''>'', js ''+'', js ''~'', js ''||''}"

text \<open>\<open>pe\<close> is \<^verbatim>\<open>isPseudoElement\<close>.\<close>

fun mountable :: "(jstring \<Rightarrow> bool) \<Rightarrow> bool \<Rightarrow> bool \<Rightarrow> bool \<Rightarrow> selector \<Rightarrow> bool" where
  "mountable pe expectingCompound sawCompound sawPseudoElement [] \<longleftrightarrow> sawCompound \<and> \<not> expectingCompound"
| "mountable pe expectingCompound sawCompound sawPseudoElement (n # ns) =
     (case n of
        CommentNode v \<Rightarrow> mountable pe expectingCompound sawCompound sawPseudoElement ns
      | Combinator v \<Rightarrow> \<not> sawPseudoElement \<and> \<not> expectingCompound \<and> isStandardCombinator v \<and>
          mountable pe True sawCompound sawPseudoElement ns
      | Pseudo v sels \<Rightarrow> \<not> sawPseudoElement \<and> mountable pe False True (pe v) ns
      | _ \<Rightarrow> \<not> sawPseudoElement \<and> mountable pe False True sawPseudoElement ns)"

definition isMountableSelectorStructure :: "(jstring \<Rightarrow> bool) \<Rightarrow> selector \<Rightarrow> bool" where
  "isMountableSelectorStructure pe = mountable pe True False False"

subsection \<open>Specificity\<close>

type_synonym specificity = "nat \<times> nat \<times> nat"

fun add_specificity :: "specificity \<Rightarrow> specificity \<Rightarrow> specificity" where
  "add_specificity (a, b, c) (a', b', c') = (a + a', b + b', c + c')"

fun compareSpecificity :: "specificity \<Rightarrow> specificity \<Rightarrow> int" where
  "compareSpecificity (a, b, c) (a', b', c') =
     (if a \<noteq> a' then int a - int a' else if b \<noteq> b' then int b - int b' else int c - int c')"

fun total_specificity :: "specificity option list \<Rightarrow> specificity option" where
  "total_specificity [] = Some (0, 0, 0)"
| "total_specificity (None # xs) = None"
| "total_specificity (Some x # xs) = map_option (add_specificity x) (total_specificity xs)"

fun maximum_from :: "specificity option \<Rightarrow> specificity option list \<Rightarrow> specificity option" where
  "maximum_from m [] = m"
| "maximum_from m (None # xs) = None"
| "maximum_from m (Some x # xs) =
     maximum_from (case m of None \<Rightarrow> Some x | Some y \<Rightarrow> if compareSpecificity x y > 0 then Some x else Some y) xs"

fun node_specificity :: "(jstring \<Rightarrow> bool) \<Rightarrow> sel_node \<Rightarrow> specificity option" where
  "node_specificity pe (IdName v) = Some (1, 0, 0)"
| "node_specificity pe (ClassName v) = Some (0, 1, 0)"
| "node_specificity pe (Attribute v) = Some (0, 1, 0)"
| "node_specificity pe (Tag v) = Some (0, 0, 1)"
| "node_specificity pe (Universal v) = Some (0, 0, 0)"
| "node_specificity pe (Combinator v) = Some (0, 0, 0)"
| "node_specificity pe (CommentNode v) = Some (0, 0, 0)"
| "node_specificity pe (Nesting v) = None"
| "node_specificity pe (OtherNode v) = None"
| "node_specificity pe (Pseudo v sels) =
     (if pe v then Some (0, 0, 1)
      else if sels = [] then Some (0, 1, 0)
      else if lower v = js '':where'' then Some (0, 0, 0)
      else if lower v \<noteq> js '':is'' \<and> lower v \<noteq> js '':not'' \<and> lower v \<noteq> js '':has'' then None
      else maximum_from None (map (\<lambda>s. total_specificity (map (node_specificity pe) s)) sels))"

definition specificityForNodes :: "(jstring \<Rightarrow> bool) \<Rightarrow> selector \<Rightarrow> specificity option" where
  "specificityForNodes pe s = total_specificity (map (node_specificity pe) s)"

definition maximumSpecificity :: "(jstring \<Rightarrow> bool) \<Rightarrow> selector list \<Rightarrow> specificity option" where
  "maximumSpecificity pe sels = maximum_from None (map (specificityForNodes pe) sels)"

subsection \<open>The transformation\<close>

record branch_state =
  bs_compound :: nat
  bs_pseudoElement :: "nat option"
  bs_targets :: "nat list"
  bs_omitted :: nat
  bs_unsupported :: nat

datatype branch_result = BranchUnsupported unsupported_reason | BranchSupported selector nat nat

record transform_env =
  te_pe :: "jstring \<Rightarrow> bool"
  te_markers :: marker_names
  te_requested :: "pseudo_state list"

fun marker_of :: "marker_names \<Rightarrow> pseudo_state \<Rightarrow> jstring" where
  "marker_of m PseudoHover = mn_hover m"
| "marker_of m PseudoFocus = mn_focus m"

definition preferReason :: "unsupported_reason option \<Rightarrow> unsupported_reason \<Rightarrow> unsupported_reason" where
  "preferReason current candidate =
     (case current of None \<Rightarrow> candidate | Some r \<Rightarrow> if r = NoTargetPseudo then candidate else r)"

definition selection_guard :: "jstring \<Rightarrow> sel_node" where
  "selection_guard marker = Pseudo (js '':where'') [[Attribute marker]]"

fun is_pseudo_element :: "(jstring \<Rightarrow> bool) \<Rightarrow> sel_node \<Rightarrow> bool" where
  "is_pseudo_element pe (Pseudo v sels) = pe v"
| "is_pseudo_element pe _ = False"

fun appendGuard :: "(jstring \<Rightarrow> bool) \<Rightarrow> jstring \<Rightarrow> selector \<Rightarrow> selector" where
  "appendGuard pe marker [] = [selection_guard marker]"
| "appendGuard pe marker (n # ns) =
     (if is_pseudo_element pe n then selection_guard marker # n # ns else n # appendGuard pe marker ns)"

definition keep :: "sel_node \<Rightarrow> unsupported_reason + selector \<times> branch_state \<Rightarrow> unsupported_reason + selector \<times> branch_state" where
  "keep n r = (case r of Inl e \<Rightarrow> Inl e | Inr (ns, st) \<Rightarrow> Inr (n # ns, st))"

definition add_target :: "branch_state \<Rightarrow> branch_state" where
  "add_target st = st\<lparr>bs_targets := set_add (bs_compound st) (bs_targets st)\<rparr>"

text \<open>What follows the loop over the nodes of a branch.\<close>

definition finish_branch :: "transform_env \<Rightarrow> bool \<Rightarrow> unsupported_reason + selector \<times> branch_state \<Rightarrow> branch_result" where
  "finish_branch env appendSelectionGuard r =
     (case r of
        Inl e \<Rightarrow> BranchUnsupported e
      | Inr (ns, st) \<Rightarrow>
          if bs_targets st = [] then BranchUnsupported NoTargetPseudo
          else if length (bs_targets st) > 1 then BranchUnsupported MultipleTargetCompounds
          else if bs_compound st \<notin> set (bs_targets st) then BranchUnsupported UnsupportedTargetPosition
          else
            let s = (if appendSelectionGuard then appendGuard (te_pe env) (mn_selection (te_markers env)) ns else ns) in
            if \<not> isMountableSelectorStructure (te_pe env) s then BranchUnsupported UnsafeSelector
            else BranchSupported s (bs_omitted st) (bs_unsupported st))"

text \<open>What follows the loop over the branches of \<^verbatim>\<open>:is\<close> and \<^verbatim>\<open>:where\<close>.\<close>

type_synonym collected = "selector list \<times> nat \<times> nat \<times> unsupported_reason option"

definition finish_function ::
  "transform_env \<Rightarrow> jstring \<Rightarrow> selector list \<Rightarrow> collected \<Rightarrow> unsupported_reason + selector list \<times> nat \<times> nat" where
  "finish_function env v sels c =
     (case c of (emitted, omitted, unsupported, failure) \<Rightarrow>
        if emitted = [] then Inl (case failure of None \<Rightarrow> NoTargetPseudo | Some r \<Rightarrow> r)
        else if v = js '':is'' \<and>
          (case (maximumSpecificity (te_pe env) sels, maximumSpecificity (te_pe env) emitted) of
             (Some a, Some b) \<Rightarrow> compareSpecificity a b \<noteq> 0 | _ \<Rightarrow> True)
        then Inl SpecificityChange
        else Inr (emitted, omitted, unsupported))"

definition collect_step :: "branch_result \<Rightarrow> collected \<Rightarrow> collected" where
  "collect_step r c =
     (case c of (emitted, omitted, unsupported, failure) \<Rightarrow>
        (case r of
           BranchSupported s om un \<Rightarrow> (emitted @ [s], omitted + om, unsupported + un, failure)
         | BranchUnsupported e \<Rightarrow> (emitted, omitted + 1,
             if e \<noteq> NoTargetPseudo then unsupported + 1 else unsupported, Some (preferReason failure e))))"

definition start_state :: branch_state where
  "start_state = \<lparr>bs_compound = 0, bs_pseudoElement = None, bs_targets = [], bs_omitted = 0, bs_unsupported = 0\<rparr>"

fun is_nesting :: "sel_node \<Rightarrow> bool" where
  "is_nesting (Nesting v) = True"
| "is_nesting _ = False"

function transformBranch :: "transform_env \<Rightarrow> bool \<Rightarrow> selector \<Rightarrow> branch_result"
  and transform_nodes :: "transform_env \<Rightarrow> selector \<Rightarrow> branch_state \<Rightarrow> unsupported_reason + selector \<times> branch_state"
  and collect_branches :: "transform_env \<Rightarrow> bool \<Rightarrow> selector list \<Rightarrow> collected \<Rightarrow> collected" where
  "transformBranch env appendSelectionGuard s =
     (if list_ex is_nesting s \<or> \<not> isMountableSelectorStructure (te_pe env) s then BranchUnsupported UnsafeSelector
      else finish_branch env appendSelectionGuard (transform_nodes env s start_state))"
| "transform_nodes env [] st = Inr ([], st)"
| "transform_nodes env (n # ns) st =
     (case n of
        Combinator v \<Rightarrow> keep n (transform_nodes env ns (st\<lparr>bs_compound := bs_compound st + 1, bs_pseudoElement := None\<rparr>))
      | Pseudo v sels \<Rightarrow>
          if te_pe env v then
            (if containsTargetPseudo (te_requested env) sels then Inl UnsupportedFunctionalTarget
             else keep n (transform_nodes env ns (st\<lparr>bs_pseudoElement := Some (bs_compound st)\<rparr>)))
          else (case targetState v of
            Some state \<Rightarrow>
              if state \<notin> set (te_requested env) then
                (if sels \<noteq> [] then Inl UnsupportedFunctionalTarget else keep n (transform_nodes env ns st))
              else if bs_pseudoElement st = Some (bs_compound st) then Inl UnsupportedTargetPosition
              else if sels \<noteq> [] then Inl UnsupportedFunctionalTarget
              else keep (Attribute (marker_of (te_markers env) state)) (transform_nodes env ns (add_target st))
          | None \<Rightarrow>
              if \<not> containsTargetPseudo (te_requested env) sels then keep n (transform_nodes env ns st)
              else if bs_pseudoElement st = Some (bs_compound st) then Inl UnsupportedTargetPosition
              else if lower v = js '':not'' then Inl TargetUnderNegation
              else if lower v = js '':has'' then Inl TargetInsideHas
              else if lower v \<noteq> js '':is'' \<and> lower v \<noteq> js '':where'' then Inl UnsupportedFunctionalTarget
              else (case finish_function env (lower v) sels (collect_branches env False sels ([], 0, 0, None)) of
                  Inl e \<Rightarrow> Inl e
                | Inr (emitted, omitted, unsupported) \<Rightarrow>
                    keep (Pseudo v emitted) (transform_nodes env ns (add_target (st\<lparr>bs_omitted := bs_omitted st + omitted,
                      bs_unsupported := bs_unsupported st + unsupported\<rparr>)))))
      | _ \<Rightarrow> keep n (transform_nodes env ns st))"
| "collect_branches env appendSelectionGuard [] c = c"
| "collect_branches env appendSelectionGuard (s # ss) c =
     collect_branches env appendSelectionGuard ss (collect_step (transformBranch env appendSelectionGuard s) c)"
  by pat_completeness auto
termination
  by (relation "measure (\<lambda>x. case x of
        Inl (env, g, s) \<Rightarrow> 2 * size_list size s + 1
      | Inr (Inl (env, s, st)) \<Rightarrow> 2 * size_list size s
      | Inr (Inr (env, g, ss, c)) \<Rightarrow> 2 * size_list (size_list size) ss + 1)") auto

definition transformPseudoStateSelector ::
  "(jstring \<Rightarrow> bool) \<Rightarrow> (jstring \<Rightarrow> selector list option) \<Rightarrow> (selector list \<Rightarrow> jstring) \<Rightarrow>
   jstring \<Rightarrow> marker_names \<Rightarrow> pseudo_state list \<Rightarrow> transform_result" where
  "transformPseudoStateSelector pe parse print selectorText markerNames requestedStates =
     (case readMarkerNames markerNames of
        None \<Rightarrow> TransformUnsupported InvalidMarkerName
      | Some markers \<Rightarrow>
          (case readRequestedStates requestedStates of
             None \<Rightarrow> TransformUnsupported MalformedSelector
           | Some requested \<Rightarrow>
               if (if length selectorText > SELECTOR_BYTES then length selectorText
                   else utf8ByteLength selectorText) > SELECTOR_BYTES
               then TransformUnsupported SelectorByteLimit
               else (case parse selectorText of
                   None \<Rightarrow> TransformUnsupported MalformedSelector
                 | Some root \<Rightarrow>
                     (case measureSelectors root of (branches, depth) \<Rightarrow>
                        if branches > SELECTOR_BRANCHES then TransformUnsupported SelectorBranchLimit
                        else if depth > FUNCTIONAL_DEPTH then TransformUnsupported SelectorDepthLimit
                        else
                          (case collect_branches \<lparr>te_pe = pe, te_markers = markers, te_requested = requested\<rparr> True
                              root ([], 0, 0, None) of
                             (emitted, omitted, unsupported, failure) \<Rightarrow>
                               if emitted = []
                               then TransformUnsupported (case failure of None \<Rightarrow> NoTargetPseudo | Some r \<Rightarrow> r)
                               else
                                 let output = print emitted in
                                 if utf8ByteLength output > SELECTOR_BYTES then TransformUnsupported SelectorByteLimit
                                 else TransformSupported output (length emitted) omitted unsupported)))))"

definition PROBE_MARKER_NAMES :: marker_names where
  "PROBE_MARKER_NAMES = \<lparr>mn_selection = js ''data-pin-op-preview-probe-selection-display'',
     mn_hover = js ''data-pin-op-preview-probe-hover-display'',
     mn_focus = js ''data-pin-op-preview-probe-focus-display''\<rparr>"

definition selectorPreviewsPseudoState ::
  "(jstring \<Rightarrow> bool) \<Rightarrow> (jstring \<Rightarrow> selector list option) \<Rightarrow> (selector list \<Rightarrow> jstring) \<Rightarrow>
   jstring \<Rightarrow> pseudo_state list \<Rightarrow> bool" where
  "selectorPreviewsPseudoState pe parse print selectorText requestedStates =
     (if requestedStates = [] then False
      else (case transformPseudoStateSelector pe parse print selectorText PROBE_MARKER_NAMES requestedStates of
          TransformSupported _ _ _ _ \<Rightarrow> True | TransformUnsupported _ \<Rightarrow> False))"

definition selectorContainsRequestedPseudoState ::
  "(jstring \<Rightarrow> selector list option) \<Rightarrow> jstring \<Rightarrow> pseudo_state list \<Rightarrow> bool option" where
  "selectorContainsRequestedPseudoState parse selectorText requestedStates =
     (case readRequestedStates requestedStates of
        None \<Rightarrow> None
      | Some requested \<Rightarrow>
          if length selectorText > SELECTOR_BYTES \<or> utf8ByteLength selectorText > SELECTOR_BYTES then None
          else (case parse selectorText of
              None \<Rightarrow> None
            | Some root \<Rightarrow>
                (case measureSelectors root of (branches, depth) \<Rightarrow>
                   if branches > SELECTOR_BRANCHES \<or> depth > FUNCTIONAL_DEPTH then None
                   else Some (containsTargetPseudo requested root))))"

end
