(* ===== verification/Pseudo_Selector_Theorems.thy ===== *)
theory Pseudo_Selector_Theorems
  imports Pseudo_Selectors
begin

text \<open>
  What the rewritten selectors select: a semantics of selectors over any page, under which a
  rewritten branch only matches selected elements that the branch it came from matches when the
  marked elements count as being in the state; and its specificity is the same.
\<close>

subsection \<open>What a selector matches\<close>

text \<open>
  A page tells what the other nodes match, given which elements are in a state, and how the
  combinators relate elements.
\<close>

record 'e page =
  pg_attribute :: "jstring \<Rightarrow> 'e \<Rightarrow> bool"
  pg_other :: "(pseudo_state \<Rightarrow> 'e \<Rightarrow> bool) \<Rightarrow> sel_node \<Rightarrow> 'e \<Rightarrow> bool"
  pg_combinator :: "jstring \<Rightarrow> 'e \<Rightarrow> 'e \<Rightarrow> bool"

text \<open>The elements that the compound so far matches, through the nodes of a selector.\<close>

fun run_nodes :: "(sel_node \<Rightarrow> 'e \<Rightarrow> bool) \<Rightarrow> (jstring \<Rightarrow> 'e \<Rightarrow> 'e \<Rightarrow> bool) \<Rightarrow> selector \<Rightarrow> ('e \<Rightarrow> bool) \<Rightarrow> 'e \<Rightarrow> bool" where
  "run_nodes f comb [] P = P"
| "run_nodes f comb (n # ns) P =
     (case n of
        Combinator v \<Rightarrow> run_nodes f comb ns (\<lambda>e. \<exists>p. P p \<and> comb v p e)
      | CommentNode v \<Rightarrow> run_nodes f comb ns P
      | _ \<Rightarrow> run_nodes f comb ns (\<lambda>e. P e \<and> f n e))"

lemma run_nodes_eq: "(\<And>n. n \<in> set ns \<Longrightarrow> f n = g n) \<Longrightarrow> run_nodes f comb ns P = run_nodes g comb ns P"
proof (induction ns arbitrary: P)
  case (Cons n ns)
  have "f n = g n" and "run_nodes f comb ns Q = run_nodes g comb ns Q" for Q
    using Cons.prems Cons.IH by simp_all
  then show ?case by (cases n) simp_all
qed simp

lemma run_nodes_cong [fundef_cong]:
  "ns = ms \<Longrightarrow> (\<And>n. n \<in> set ms \<Longrightarrow> f n = g n) \<Longrightarrow> comb = comb' \<Longrightarrow> P = Q \<Longrightarrow>
   run_nodes f comb ns P = run_nodes g comb' ms Q"
  using run_nodes_eq [of ms f g comb P] by simp

function node_matches :: "'e page \<Rightarrow> (jstring \<Rightarrow> bool) \<Rightarrow> (pseudo_state \<Rightarrow> 'e \<Rightarrow> bool) \<Rightarrow> sel_node \<Rightarrow> 'e \<Rightarrow> bool" where
  "node_matches pg pe held n =
     (case n of
        Attribute a \<Rightarrow> pg_attribute pg a
      | Pseudo v sels \<Rightarrow>
          if pe v then pg_other pg held n
          else if targetState v \<noteq> None \<and> sels = [] then held (the (targetState v))
          else if sels \<noteq> [] \<and> targetState v = None \<and> (lower v = js '':is'' \<or> lower v = js '':where'')
          then (\<lambda>e. \<exists>s\<in>set sels. run_nodes (node_matches pg pe held) (pg_combinator pg) s (\<lambda>_. True) e)
          else pg_other pg held n
      | _ \<Rightarrow> pg_other pg held n)"
  by pat_completeness auto
termination
  by (relation "measure (\<lambda>(pg, pe, held, n). size n)") (auto simp: less_Suc_eq_le size_list_estimation')
declare node_matches.simps [simp del]

definition selector_matches :: "'e page \<Rightarrow> (jstring \<Rightarrow> bool) \<Rightarrow> (pseudo_state \<Rightarrow> 'e \<Rightarrow> bool) \<Rightarrow> selector \<Rightarrow> 'e \<Rightarrow> bool" where
  "selector_matches pg pe held s = run_nodes (node_matches pg pe held) (pg_combinator pg) s (\<lambda>_. True)"

lemma run_nodes_mono:
  assumes "run_nodes f comb ns P e" and "\<And>n e. n \<in> set ns \<Longrightarrow> f n e \<Longrightarrow> g n e" and "\<And>e. P e \<Longrightarrow> Q e"
  shows "run_nodes g comb ns Q e"
  using assms
proof (induction ns arbitrary: P Q e)
  case (Cons n ns)
  have g: "f n e \<Longrightarrow> g n e" for e using Cons.prems(2) by simp
  have step: "run_nodes f comb ns R e \<Longrightarrow> (\<And>e. R e \<Longrightarrow> S e) \<Longrightarrow> run_nodes g comb ns S e" for R S
    using Cons.IH [of R e S] Cons.prems(2) by simp
  have "run_nodes f comb ns (\<lambda>e. P e \<and> f n e) e \<Longrightarrow> run_nodes g comb ns (\<lambda>e. Q e \<and> g n e) e"
    by (erule step) (simp add: g Cons.prems(3))
  moreover have "run_nodes f comb ns (\<lambda>e. \<exists>p. P p \<and> comb v p e) e \<Longrightarrow> run_nodes g comb ns (\<lambda>e. \<exists>p. Q p \<and> comb v p e) e" for v
    by (erule step) (blast intro: Cons.prems(3))
  moreover have "run_nodes f comb ns P e \<Longrightarrow> run_nodes g comb ns Q e"
    by (erule step) (rule Cons.prems(3))
  ultimately show ?case using Cons.prems(1) by (cases n) simp_all
qed simp

subsection \<open>Nodes without a target\<close>

text \<open>The names of pseudo elements, and that a node depends on no state that it does not name.\<close>

definition pseudo_element_names :: "(jstring \<Rightarrow> bool) \<Rightarrow> bool" where
  "pseudo_element_names pe \<longleftrightarrow> \<not> pe (js '':where'') \<and> (\<forall>v. pe v \<longrightarrow> targetState v = None)"

definition names_states :: "'e page \<Rightarrow> bool" where
  "names_states pg \<longleftrightarrow> (\<forall>held held' requested n. (\<forall>s. s \<notin> set requested \<longrightarrow> held s = held' s) \<longrightarrow>
     \<not> holds_pseudo (is_target requested) n \<longrightarrow> pg_other pg held n = pg_other pg held' n)"

text \<open>The elements with the marker count as being in a requested state.\<close>

definition marked :: "'e page \<Rightarrow> marker_names \<Rightarrow> pseudo_state list \<Rightarrow> (pseudo_state \<Rightarrow> 'e \<Rightarrow> bool) \<Rightarrow> pseudo_state \<Rightarrow> 'e \<Rightarrow> bool" where
  "marked pg markers requested held s =
     (if s \<in> set requested then pg_attribute pg (marker_of markers s) else held s)"

lemma targetless_matches:
  assumes "\<not> holds_pseudo (is_target requested) n" and "names_states pg"
    and "\<And>s. s \<notin> set requested \<Longrightarrow> held s = held' s"
  shows "node_matches pg pe held n = node_matches pg pe held' n"
  using assms(1)
proof (induction n rule: measure_induct_rule [of size])
  case (less n)
  have other: "pg_other pg held n = pg_other pg held' n"
    using assms(2,3) less.prems unfolding names_states_def by blast
  show ?case
  proof (cases n)
    case (Pseudo v sels)
    have inner: "node_matches pg pe held m = node_matches pg pe held' m" if "s \<in> set sels" "m \<in> set s" for s m
    proof (rule less.IH)
      show "size m < size n" using that by (auto simp: Pseudo less_Suc_eq_le size_list_estimation')
      show "\<not> holds_pseudo (is_target requested) m" using less.prems that by (auto simp: Pseudo list_ex_iff)
    qed
    have runs: "run_nodes (node_matches pg pe held) c s P = run_nodes (node_matches pg pe held') c s P" if "s \<in> set sels" for s c P
      using inner that by (intro run_nodes_eq)
    have target: "held (the (targetState v)) = held' (the (targetState v))" if "targetState v \<noteq> None"
      using that less.prems assms(3) by (auto simp: Pseudo is_target_def split: option.splits)
    show ?thesis using other runs target unfolding Pseudo by (subst (1 2) node_matches.simps) auto
  qed (use other in \<open>simp_all add: node_matches.simps\<close>)
qed

subsection \<open>The guard\<close>

lemma where_name: "targetState (js '':where'') = None" "lower (js '':where'') = js '':where''"
  by (simp_all add: targetState_def js_def unit_of_char_def lower_def ascii_lower_def is_upper_def)

lemma guard_matches:
  assumes "pseudo_element_names pe"
  shows "node_matches pg pe held (selection_guard m) = pg_attribute pg m"
proof -
  have a: "node_matches pg pe held (Attribute m) = pg_attribute pg m" by (simp add: node_matches.simps)
  show ?thesis using assms unfolding selection_guard_def
    by (subst node_matches.simps) (simp add: pseudo_element_names_def where_name a)
qed

lemma comments_run: "mountable pe x y True ns \<Longrightarrow> run_nodes f comb ns P e = P e"
proof (induction ns arbitrary: P x y)
  case (Cons n ns)
  show ?case using Cons.prems Cons.IH [of _ _ P] by (cases n) simp_all
qed simp

text \<open>The guard only adds its own condition on the element that the selector is about.\<close>

lemma guarded_run:
  "mountable pe x y z (appendGuard pe m ns) \<Longrightarrow>
   run_nodes f comb (appendGuard pe m ns) P e \<longleftrightarrow> run_nodes f comb ns P e \<and> f (selection_guard m) e"
proof (induction ns arbitrary: P x y z)
  case Nil
  then show ?case by (simp add: selection_guard_def)
next
  case (Cons n ns)
  show ?case
  proof (cases "is_pseudo_element pe n")
    case True
    then obtain v sels where n: "n = Pseudo v sels" "pe v" by (cases n) auto
    have "mountable pe False True True ns" using Cons.prems(1) n by (simp add: selection_guard_def)
    from comments_run [OF this, of f comb] show ?thesis using n by (auto simp: selection_guard_def)
  next
    case False
    then show ?thesis using Cons by (cases n) (simp_all, blast+)
  qed
qed

subsection \<open>Specificity\<close>

lemma total_zero [simp]: "total_specificity (Some (0, 0, 0) # xs) = total_specificity xs"
  by (cases "total_specificity xs") auto

lemma add_zero [simp]: "map_option (add_specificity (0, 0, 0)) x = x"
  by (cases x) auto

lemma compare_equal: "compareSpecificity a b = 0 \<longleftrightarrow> a = b"
  by (cases a; cases b) auto

lemma guarded_specificity:
  "\<not> pe (js '':where'') \<Longrightarrow> specificityForNodes pe (appendGuard pe m ns) = specificityForNodes pe ns"
proof (induction ns)
  case Nil
  then show ?case by (simp add: specificityForNodes_def selection_guard_def where_name)
next
  case (Cons n ns)
  have g: "node_specificity pe (selection_guard m) = Some (0, 0, 0)"
    using Cons.prems by (simp add: selection_guard_def where_name)
  show ?case using Cons by (cases "node_specificity pe n") (auto simp: specificityForNodes_def g simp del: node_specificity.simps)
qed

subsection \<open>Faithful rewriting\<close>

definition held_by :: "transform_env \<Rightarrow> 'e page \<Rightarrow> (pseudo_state \<Rightarrow> 'e \<Rightarrow> bool) \<Rightarrow> pseudo_state \<Rightarrow> 'e \<Rightarrow> bool" where
  "held_by env pg held = marked pg (te_markers env) (te_requested env) held"

text \<open>The branches that can be previewed, and what is left of a selector when the others are dropped from
  its \<open>:is\<close> and \<open>:where\<close>.\<close>

definition supported :: "transform_env \<Rightarrow> bool \<Rightarrow> selector \<Rightarrow> bool" where
  "supported env g s = (case transformBranch env g s of BranchSupported s' om un \<Rightarrow> True | BranchUnsupported r \<Rightarrow> False)"

function supported_node :: "transform_env \<Rightarrow> sel_node \<Rightarrow> sel_node" where
  "supported_node env n =
     (case n of
        Pseudo v sels \<Rightarrow>
          if \<not> te_pe env v \<and> targetState v = None \<and> containsTargetPseudo (te_requested env) sels
          then Pseudo v (map (map (supported_node env)) (filter (supported env False) sels))
          else n
      | _ \<Rightarrow> n)"
  by pat_completeness auto
termination
  by (relation "measure (\<lambda>(env, n). size n)") (auto simp: less_Suc_eq_le size_list_estimation')
declare supported_node.simps [simp del]

definition supported_part :: "transform_env \<Rightarrow> selector \<Rightarrow> selector" where
  "supported_part env = map (supported_node env)"

lemma supported_id: "\<not> holds_pseudo (is_target (te_requested env)) n \<Longrightarrow> supported_node env n = n"
  by (cases n) (simp_all add: supported_node.simps containsTargetPseudo_def)

text \<open>A branch is rewritten faithfully: same specificity, and it matches where what is left of the branch
  matches with the states held by the marked elements, on selected elements only if it is guarded.\<close>

definition faithful :: "transform_env \<Rightarrow> 'e page \<Rightarrow> (pseudo_state \<Rightarrow> 'e \<Rightarrow> bool) \<Rightarrow> bool \<Rightarrow> selector \<Rightarrow> selector \<Rightarrow> bool" where
  "faithful env pg held g s s' \<longleftrightarrow> specificityForNodes (te_pe env) s' = specificityForNodes (te_pe env) s \<and>
     (\<forall>P e. run_nodes (node_matches pg (te_pe env) held) (pg_combinator pg) s' P e \<longleftrightarrow>
        run_nodes (node_matches pg (te_pe env) (held_by env pg held)) (pg_combinator pg) (supported_part env s) P e \<and>
        (g \<longrightarrow> pg_attribute pg (mn_selection (te_markers env)) e))"

fun separates :: "sel_node \<Rightarrow> bool" where
  "separates (Combinator v) = True"
| "separates (CommentNode v) = True"
| "separates n = False"

lemma separates_supported: "separates (supported_node env n) = separates n"
  "separates n \<Longrightarrow> supported_node env n = n"
  by (cases n; simp add: supported_node.simps)+

definition node_faithful :: "transform_env \<Rightarrow> 'e page \<Rightarrow> (pseudo_state \<Rightarrow> 'e \<Rightarrow> bool) \<Rightarrow> sel_node \<Rightarrow> sel_node \<Rightarrow> bool" where
  "node_faithful env pg held n n' \<longleftrightarrow> node_specificity (te_pe env) n' = node_specificity (te_pe env) n \<and>
     (separates n \<longrightarrow> n' = n) \<and> separates n' = separates n \<and>
     (\<not> separates n \<longrightarrow> node_matches pg (te_pe env) held n' = node_matches pg (te_pe env) (held_by env pg held) (supported_node env n))"

lemma run_plain: "\<not> separates n \<Longrightarrow> run_nodes f comb (n # ns) P = run_nodes f comb ns (\<lambda>e. P e \<and> f n e)"
  by (cases n) simp_all

lemma faithful_Nil: "faithful env pg held False [] []"
  by (simp add: faithful_def supported_part_def)

lemma faithful_Cons:
  assumes n: "node_faithful env pg held n n'" and ns: "faithful env pg held False ns ns'"
  shows "faithful env pg held False (n # ns) (n' # ns')"
proof -
  let ?f = "node_matches pg (te_pe env) held" and ?g = "node_matches pg (te_pe env) (held_by env pg held)"
  let ?c = "pg_combinator pg" and ?n = "supported_node env n" and ?ns = "supported_part env ns"
  have spec: "specificityForNodes (te_pe env) (n' # ns') = specificityForNodes (te_pe env) (n # ns)"
    using n ns by (cases "node_specificity (te_pe env) n") (simp_all add: node_faithful_def faithful_def specificityForNodes_def)
  have runs: "run_nodes ?f ?c ns' P e = run_nodes ?g ?c ?ns P e" for P e using ns by (simp add: faithful_def)
  have "run_nodes ?f ?c (n' # ns') P e = run_nodes ?g ?c (?n # ?ns) P e" for P e
  proof (cases "separates n")
    case True
    then have "n' = n" "?n = n" using n by (simp_all add: node_faithful_def separates_supported)
    then show ?thesis using True runs by (cases n) simp_all
  next
    case False
    then have m: "\<not> separates n'" "?f n' = ?g ?n" "\<not> separates ?n"
      using n by (simp_all add: node_faithful_def separates_supported)
    show ?thesis unfolding run_plain [OF m(1)] run_plain [OF m(3)] m(2) by (rule runs)
  qed
  with spec show ?thesis by (simp add: faithful_def supported_part_def)
qed

text \<open>A node that stays names no requested state.\<close>

lemma kept_node:
  assumes "names_states pg" and "\<not> holds_pseudo (is_target (te_requested env)) n"
  shows "node_faithful env pg held n n"
proof -
  have "node_matches pg (te_pe env) held n = node_matches pg (te_pe env) (held_by env pg held) n"
    by (rule targetless_matches [OF assms(2,1)]) (simp add: held_by_def marked_def fun_eq_iff)
  then show ?thesis by (simp add: node_faithful_def supported_id [OF assms(2)])
qed

lemma keep_eq: "keep n r = Inr (s, st) \<longleftrightarrow> (\<exists>ns. r = Inr (ns, st) \<and> s = n # ns)"
  by (auto simp: keep_def split: sum.split)

lemma kept_pseudo:
  assumes "names_states pg" and "pseudo_element_names (te_pe env)" and "\<not> containsTargetPseudo (te_requested env) sels"
    and "te_pe env v \<or> targetState v = None \<or> (\<exists>s. targetState v = Some s \<and> s \<notin> set (te_requested env))"
  shows "node_faithful env pg held (Pseudo v sels) (Pseudo v sels)"
proof (rule kept_node [OF assms(1)])
  have "\<not> is_target (te_requested env) v"
    using assms(2,4) by (auto simp: is_target_def pseudo_element_names_def split: option.split)
  then show "\<not> holds_pseudo (is_target (te_requested env)) (Pseudo v sels)"
    using assms(3) by (simp add: containsTargetPseudo_def)
qed

lemma marker_node:
  assumes "targetState v = Some state" and "state \<in> set (te_requested env)" and "\<not> te_pe env v"
  shows "node_faithful env pg held (Pseudo v []) (Attribute (marker_of (te_markers env) state))"
proof -
  have a: "node_matches pg pe held (Attribute m) = pg_attribute pg m" for pe m by (simp add: node_matches.simps)
  have b: "node_matches pg (te_pe env) h (Pseudo v []) = h state" for h
    using assms(1,3) by (subst node_matches.simps) simp
  have c: "supported_node env (Pseudo v []) = Pseudo v []" by (simp add: supported_node.simps containsTargetPseudo_def)
  show ?thesis using assms by (simp add: node_faithful_def a b c held_by_def marked_def)
qed

lemma function_node:
  assumes v: "\<not> te_pe env v" "targetState v = None" "lower v = js '':is'' \<or> lower v = js '':where''"
    and f: "finish_function env (lower v) sels (emitted, om, un, failure) = Inr (emitted', om', un')"
    and target: "containsTargetPseudo (te_requested env) sels"
    and e: "list_all2 (faithful env pg held False) (filter (supported env False) sels) emitted"
  shows "node_faithful env pg held (Pseudo v sels) (Pseudo v emitted')"
proof -
  have sels: "sels \<noteq> []" using target by (auto simp: containsTargetPseudo_def)
  have e': "emitted' = emitted" "emitted \<noteq> []" using f by (auto simp: finish_function_def split: if_splits)
  let ?part = "map (supported_part env) (filter (supported env False) sels)"
  have part: "supported_node env (Pseudo v sels) = Pseudo v ?part" "?part \<noteq> []"
    using v(1,2) target e e'(2) by (auto simp: supported_node.simps [of env "Pseudo v sels"] supported_part_def fun_eq_iff)
  have is_where: "js '':is'' \<noteq> js '':where''" by simp
  have max: "maximumSpecificity (te_pe env) sels = maximumSpecificity (te_pe env) emitted" if "lower v = js '':is''"
    using f that by (auto simp: finish_function_def compare_equal split: if_splits option.splits)
  have spec: "node_specificity (te_pe env) (Pseudo v emitted) = node_specificity (te_pe env) (Pseudo v sels)"
    using v e'(2) sels max by (auto simp: maximumSpecificity_def specificityForNodes_def [abs_def] comp_def)
  have m: "node_matches pg (te_pe env) h (Pseudo v xs) =
      (\<lambda>e. \<exists>s\<in>set xs. run_nodes (node_matches pg (te_pe env) h) (pg_combinator pg) s (\<lambda>_. True) e)" if "xs \<noteq> []" for h xs
    using v that by (subst node_matches.simps) auto
  have "(\<exists>s\<in>set emitted. run_nodes (node_matches pg (te_pe env) held) (pg_combinator pg) s (\<lambda>_. True) x) \<longleftrightarrow>
      (\<exists>s\<in>set ?part. run_nodes (node_matches pg (te_pe env) (held_by env pg held)) (pg_combinator pg) s (\<lambda>_. True) x)" for x
    using e by (induction rule: list_all2_induct) (auto simp: faithful_def)
  then have "node_matches pg (te_pe env) held (Pseudo v emitted) =
      node_matches pg (te_pe env) (held_by env pg held) (Pseudo v ?part)"
    unfolding m [OF e'(2)] m [OF part(2)] by simp
  with spec show ?thesis by (simp add: node_faithful_def e'(1) part(1))
qed

subsection \<open>The whole transformation\<close>

lemma finish_branch_faithful:
  fixes pg :: "'e page"
  assumes pe: "pseudo_element_names (te_pe env)" and r: "finish_branch env g (Inr (ns, st)) = BranchSupported s' om un"
    and ns: "faithful env pg held False s ns"
  shows "faithful env pg held g s s'"
proof -
  let ?m = "mn_selection (te_markers env)"
  from r have s': "s' = (if g then appendGuard (te_pe env) ?m ns else ns)" and mt: "isMountableSelectorStructure (te_pe env) s'"
    by (auto simp: finish_branch_def Let_def split: if_splits)
  have np: "\<not> te_pe env (js '':where'')" using pe by (simp add: pseudo_element_names_def)
  show ?thesis
  proof (cases g)
    case True
    then have "mountable (te_pe env) True False False (appendGuard (te_pe env) ?m ns)"
      using mt s' by (simp add: isMountableSelectorStructure_def)
    note run = guarded_run [OF this]
    show ?thesis
      using True ns guarded_specificity [where pe = "te_pe env" and m = ?m and ns = ns, OF np]
      unfolding s' faithful_def by (simp add: run guard_matches [OF pe])
  qed (use ns s' in simp)
qed

lemma transform_faithful:
  fixes pg :: "'e page"
  assumes names: "names_states pg"
  shows
  "pseudo_element_names (te_pe env) \<Longrightarrow> transformBranch env g s = BranchSupported s' om un \<Longrightarrow>
     faithful env pg held g s s'"
  "pseudo_element_names (te_pe env) \<Longrightarrow> transform_nodes env s st = Inr (t', st') \<Longrightarrow> faithful env pg held False s t'"
  "pseudo_element_names (te_pe env) \<Longrightarrow>
     \<exists>xs. fst (collect_branches env g ss c) = fst c @ xs \<and> list_all2 (faithful env pg held g) (filter (supported env g) ss) xs"
proof (induction env g s and env s st and env g ss c arbitrary: s' om un and t' st' and
    rule: transformBranch_transform_nodes_collect_branches.induct)
  case (1 env g s)
  from "1.prems"(2) obtain ns st where ns: "transform_nodes env s start_state = Inr (ns, st)"
      and f: "finish_branch env g (Inr (ns, st)) = BranchSupported s' om un" and c: "\<not> (list_ex is_nesting s \<or> \<not> isMountableSelectorStructure (te_pe env) s)"
    by (cases "transform_nodes env s start_state") (auto simp: finish_branch_def split: if_splits)
  from "1.IH" [OF c "1.prems"(1) ns] finish_branch_faithful [OF "1.prems"(1) f] show ?case by blast
next
  case (2 env st)
  then show ?case by (simp add: faithful_Nil)
next
  case (3 env n ns st)
  have plain: "node_faithful env pg held n n" if "\<And>v sels. n \<noteq> Pseudo v sels"
    using that kept_node [OF names, of env n held] by (cases n) auto
  show ?case
  proof (cases n)
    case (Pseudo v sels)
    note pe = "3.prems"(1) and run = "3.prems"(2) [unfolded Pseudo]
    show ?thesis
    proof (cases "te_pe env v")
      case True
      then have c: "\<not> containsTargetPseudo (te_requested env) sels" using run by (auto split: if_splits)
      with True run obtain ns' where "transform_nodes env ns (st\<lparr>bs_pseudoElement := Some (bs_compound st)\<rparr>) = Inr (ns', st')"
          "t' = Pseudo v sels # ns'"
        by (auto simp: keep_eq)
      with "3.IH"(10) [OF Pseudo True c pe] True show ?thesis
        by (auto simp: Pseudo intro!: faithful_Cons kept_pseudo [OF names pe c])
    next
      case np: False
      show ?thesis
      proof (cases "targetState v")
        case (Some state)
        have sels: "sels = []" using np Some run by (auto split: if_splits)
        show ?thesis
        proof (cases "state \<in> set (te_requested env)")
          case False
          with np Some run sels obtain ns' where ns': "transform_nodes env ns st = Inr (ns', st')" "t' = Pseudo v sels # ns'"
            by (auto simp: keep_eq)
          have "\<not> sels \<noteq> []" using sels by simp
          from "3.IH"(14) [OF Pseudo np Some False this pe ns'(1)] ns'(2) Some False show ?thesis
            by (auto simp: Pseudo sels containsTargetPseudo_def intro!: faithful_Cons kept_pseudo [OF names pe])
        next
          case True
          with np Some run sels obtain ns' where ns': "transform_nodes env ns (add_target st) = Inr (ns', st')"
              "t' = Attribute (marker_of (te_markers env) state) # ns'" and b: "bs_pseudoElement st \<noteq> Some (bs_compound st)"
            by (auto simp: keep_eq split: if_splits)
          have "\<not> sels \<noteq> []" "\<not> state \<notin> set (te_requested env)" using sels True by simp_all
          from "3.IH"(15) [OF Pseudo np Some this(2) b this(1) pe ns'(1)] ns'(2) show ?thesis
            using marker_node [OF Some True np] by (auto simp: Pseudo sels intro!: faithful_Cons)
        qed
      next
        case None
        show ?thesis
        proof (cases "containsTargetPseudo (te_requested env) sels")
          case False
          with np None run obtain ns' where ns': "transform_nodes env ns st = Inr (ns', st')" "t' = Pseudo v sels # ns'"
            by (auto simp: keep_eq)
          from "3.IH"(11) [OF Pseudo np None False pe ns'(1)] ns'(2) None show ?thesis
            by (auto simp: Pseudo intro!: faithful_Cons kept_pseudo [OF names pe False])
        next
          case True
          let ?col = "collect_branches env False sels ([], 0, 0, None)"
          from np None True run have b: "bs_pseudoElement st \<noteq> Some (bs_compound st)" "lower v \<noteq> js '':not''"
              "lower v \<noteq> js '':has''" "\<not> (lower v \<noteq> js '':is'' \<and> lower v \<noteq> js '':where'')"
            by (auto split: if_splits)
          with np None True run obtain emitted' om un ns' where f: "finish_function env (lower v) sels ?col = Inr (emitted', om, un)"
              and ns': "transform_nodes env ns (add_target (st\<lparr>bs_omitted := bs_omitted st + om,
                bs_unsupported := bs_unsupported st + un\<rparr>)) = Inr (ns', st')" "t' = Pseudo v emitted' # ns'"
            by (auto simp: keep_eq split: sum.splits)
          have nn: "\<not> \<not> containsTargetPseudo (te_requested env) sels" using True by simp
          note q = "3.IH"(13) [OF Pseudo np None nn b f refl refl pe ns'(1)]
          note r = "3.IH"(12) [OF Pseudo np None nn b pe]
          obtain emitted o' u' failure where col: "?col = (emitted, o', u', failure)" by (cases ?col)
          have "node_faithful env pg held (Pseudo v sels) (Pseudo v emitted')"
          proof (rule function_node [OF np None])
            show "lower v = js '':is'' \<or> lower v = js '':where''" using b by blast
            show "finish_function env (lower v) sels (emitted, o', u', failure) = Inr (emitted', om, un)" using f col by simp
            show "list_all2 (faithful env pg held False) (filter (supported env False) sels) emitted"
              using r by (simp add: col)
          qed (rule True)
          with q ns'(2) show ?thesis by (auto simp: Pseudo intro!: faithful_Cons)
        qed
      qed
    qed
  qed (use "3.prems" "3.IH" plain in \<open>auto simp: keep_eq intro!: faithful_Cons\<close>)
next
  case (4 env g c)
  then show ?case by simp
next
  case (5 env g s ss c)
  let ?c = "collect_step (transformBranch env g s) c"
  obtain xs where xs: "fst (collect_branches env g ss ?c) = fst ?c @ xs" "list_all2 (faithful env pg held g) (filter (supported env g) ss) xs"
    using "5.IH"(2) "5.prems" by blast
  show ?case
  proof (cases "transformBranch env g s")
    case (BranchUnsupported r)
    then have "fst ?c = fst c" "\<not> supported env g s"
      by (auto simp: collect_step_def supported_def split: prod.splits)
    then show ?thesis using xs by (intro exI [of _ xs]) simp
  next
    case (BranchSupported s' om un)
    then have "fst ?c = fst c @ [s']" "supported env g s"
      by (auto simp: collect_step_def supported_def split: prod.splits)
    then show ?thesis using xs "5.IH"(1) [OF "5.prems" BranchSupported] by (intro exI [of _ "s' # xs"]) simp
  qed
qed

text \<open>C38:
  A previewed pseudo state is faithful. If a selector is rewritten, its branches that can be previewed,
  of which there is at least one, are rewritten one by one, in order, and the others are omitted. A
  rewritten branch has the specificity of its origin, and it matches exactly the elements that have the
  selection marker and that the origin, less the alternatives of its \<open>:is\<close> and \<open>:where\<close> that cannot be
  previewed, matches when the elements with the marker of a requested state count as being in it. The
  text is within the budget. The library's test for pseudo elements refuses \<open>:where\<close>, \<open>:hover\<close> and
  \<open>:focus\<close>, and whether a node matches depends on no state that it does not name.
\<close>
theorem pseudo_preview_faithful:
  fixes pg :: "'e page"
  assumes "transformPseudoStateSelector pe parse print selectorText markers states =
      TransformSupported output branches omitted unsupported"
    and "pseudo_element_names pe" and "names_states pg"
  shows "\<exists>root emitted env. parse selectorText = Some root \<and> output = print emitted \<and> utf8ByteLength output \<le> 16384 \<and>
    te_pe env = pe \<and> te_markers env = markers \<and> set (te_requested env) = set states \<and>
    branches = length emitted \<and> branches > 0 \<and>
    list_all2 (\<lambda>s s'. specificityForNodes pe s' = specificityForNodes pe s \<and>
       (\<forall>e. selector_matches pg pe held s' e \<longleftrightarrow>
          pg_attribute pg (mn_selection markers) e \<and>
          selector_matches pg pe (marked pg markers states held) (supported_part env s) e))
      (filter (supported env True) root) emitted"
proof -
  from assms(1) obtain requested root emitted om un failure where
      m: "readMarkerNames markers = Some markers" and q: "readRequestedStates states = Some requested"
      and root: "parse selectorText = Some root"
      and c: "collect_branches \<lparr>te_pe = pe, te_markers = markers, te_requested = requested\<rparr> True root ([], 0, 0, None) =
        (emitted, om, un, failure)" and out: "output = print emitted" "branches = length emitted" "emitted \<noteq> []"
        "\<not> utf8ByteLength output > SELECTOR_BYTES"
    by (auto simp: transformPseudoStateSelector_def readMarkerNames_def Let_def split: option.splits if_splits prod.splits)
  let ?env = "\<lparr>te_pe = pe, te_markers = markers, te_requested = requested\<rparr>"
  have h: "held_by ?env pg held = marked pg markers states held"
    using q by (auto simp: held_by_def marked_def readRequestedStates_def fun_eq_iff split: if_splits)
  have "set requested = set states" using q by (auto simp: readRequestedStates_def split: if_splits)
  moreover have "list_all2 (faithful ?env pg held True) (filter (supported ?env True) root) emitted"
    using transform_faithful(3) [OF assms(3), of ?env True root "([], 0, 0, None)" held] assms(2) c by simp
  then have "list_all2 (\<lambda>s s'. specificityForNodes pe s' = specificityForNodes pe s \<and>
       (\<forall>e. selector_matches pg pe held s' e \<longleftrightarrow> pg_attribute pg (mn_selection markers) e \<and>
          selector_matches pg pe (marked pg markers states held) (supported_part ?env s) e))
      (filter (supported ?env True) root) emitted"
    by (rule list_all2_mono) (auto simp: faithful_def selector_matches_def h)
  ultimately show ?thesis using root out
    by (intro exI [of _ root] exI [of _ emitted] exI [of _ ?env]) (simp add: SELECTOR_BYTES_def)
qed

text \<open>A page of two elements, the selected one with the marker, and the selector \<open>a:hover\<close>.\<close>

definition example_markers :: marker_names where
  "example_markers = PROBE_MARKER_NAMES"

definition example_page :: "bool page" where
  "example_page = \<lparr>pg_attribute = (\<lambda>a e. e), pg_other = (\<lambda>h n e. n = Tag (js ''a'')), pg_combinator = (\<lambda>v e e'. True)\<rparr>"

theorem pseudo_preview_faithful_witness:
  "\<exists>s'. transformPseudoStateSelector (\<lambda>v. False)
      (\<lambda>t. Some [[Tag (js ''a''), Pseudo (js '':hover'') []]]) (\<lambda>s. []) (js ''a:hover'') example_markers [PseudoHover] =
      TransformSupported [] 1 0 0 \<and>
    specificityForNodes (\<lambda>v. False) s' = Some (0, 1, 1) \<and>
    (\<forall>e. selector_matches example_page (\<lambda>v. False) (\<lambda>s e. False) s' e = e)"
proof -
  let ?b = "[Tag (js ''a''), Pseudo (js '':hover'') []]"
  let ?t = "transformPseudoStateSelector (\<lambda>v. False) (\<lambda>t. Some [?b]) (\<lambda>s. []) (js ''a:hover'') example_markers [PseudoHover]"
  have t: "?t = TransformSupported [] 1 0 0" by code_simp
  have target: "targetState (js '':hover'') = Some PseudoHover" by code_simp
  have "pseudo_element_names (\<lambda>v. False)" by (simp add: pseudo_element_names_def)
  moreover have "names_states example_page" by (simp add: names_states_def example_page_def)
  ultimately obtain emitted env where r: "1 = length emitted"
    "list_all2 (\<lambda>s s'. specificityForNodes (\<lambda>v. False) s' = specificityForNodes (\<lambda>v. False) s \<and>
       (\<forall>e. selector_matches example_page (\<lambda>v. False) (\<lambda>s e. False) s' e \<longleftrightarrow>
          pg_attribute example_page (mn_selection example_markers) e \<and>
          selector_matches example_page (\<lambda>v. False) (marked example_page example_markers [PseudoHover] (\<lambda>s e. False))
            (supported_part env s) e))
      (filter (supported env True) [?b]) emitted"
    using pseudo_preview_faithful [OF t, of example_page "\<lambda>s e. False"] by auto
  have part: "supported_part env ?b = ?b"
    by (simp add: supported_part_def supported_node.simps containsTargetPseudo_def)
  have b: "selector_matches example_page (\<lambda>v. False) (marked example_page example_markers [PseudoHover] (\<lambda>s e. False)) ?b e = e" for e
    by (simp add: selector_matches_def node_matches.simps target marked_def example_page_def)
  from r obtain s' where s': "specificityForNodes (\<lambda>v. False) s' = specificityForNodes (\<lambda>v. False) ?b"
    "\<forall>e. selector_matches example_page (\<lambda>v. False) (\<lambda>s e. False) s' e \<longleftrightarrow>
          pg_attribute example_page (mn_selection example_markers) e \<and>
          selector_matches example_page (\<lambda>v. False) (marked example_page example_markers [PseudoHover] (\<lambda>s e. False))
            (supported_part env ?b) e"
    by (cases emitted) (auto split: if_splits)
  show ?thesis
    by (intro exI [of _ s']) (use t s' in \<open>simp add: part b specificityForNodes_def\<close>, simp add: example_page_def)
qed

end
