(* ===== verification/Cascade.thy ===== *)
theory Cascade
  imports Styles_Protocol Text_Regex
begin

text \<open>
  \<^verbatim>\<open>browser-extension-core/src/cascadeClassifier.ts\<close>: which of the declarations of an element wins in the
  cascade, as far as that is known; and \<^verbatim>\<open>virtualTreeRows.ts\<close>: the rows of a long list that are shown.
\<close>

subsection \<open>Declarations\<close>

text \<open>\<open>ca_ref\<close> is the identity of the object.\<close>

record cascade_candidate =
  ca_ref :: nat
  ca_property :: jstring
  ca_value :: jstring
  ca_important :: bool
  ca_specificity :: "(nat \<times> nat \<times> nat) option"
  ca_sourceOrder :: int
  ca_contexts :: "css_context list"
  ca_active :: "bool option"
  ca_inherited :: bool

record cascade_classification =
  cl_state :: string
  cl_reason :: string

definition SHORTHAND_PROPERTIES :: "string list" where
  "SHORTHAND_PROPERTIES = [''all'', ''animation'', ''background'', ''border'', ''border-block'', ''border-color'',
     ''border-image'', ''border-inline'', ''border-radius'', ''border-style'', ''border-width'', ''columns'',
     ''flex'', ''flex-flow'', ''font'', ''gap'', ''grid'', ''grid-area'', ''grid-column'', ''grid-row'',
     ''grid-template'', ''inset'', ''inset-block'', ''inset-inline'', ''list-style'', ''margin'', ''margin-block'',
     ''margin-inline'', ''mask'', ''offset'', ''outline'', ''overflow'', ''padding'', ''padding-block'',
     ''padding-inline'', ''place-content'', ''place-items'', ''place-self'', ''text-decoration'', ''text-emphasis'',
     ''transition'']"

text \<open>\<^verbatim>\<open>toLowerCase\<close> where it yields an ASCII letter: the Kelvin sign becomes k.\<close>

definition lower_unit :: "code_unit \<Rightarrow> code_unit" where
  "lower_unit c = (if c = 0x212a then 0x6b else ascii_lower c)"

definition isShorthand :: "jstring \<Rightarrow> bool" where
  "isShorthand p \<longleftrightarrow> map lower_unit p \<in> set (map js SHORTHAND_PROPERTIES)"

definition isAnimationOrTransition :: "jstring \<Rightarrow> bool" where
  "isAnimationOrTransition p \<longleftrightarrow>
     (let normalized = map lower_unit p in
      normalized = js ''animation'' \<or> starts_with (js ''animation-'') normalized \<or>
      normalized = js ''transition'' \<or> starts_with (js ''transition-'') normalized)"

definition UNSUPPORTED_CONTEXTS :: "(string \<times> string) list" where
  "UNSUPPORTED_CONTEXTS = [(''layer'', ''unsupported-cascade-layer''), (''scope'', ''unsupported-cascade-scope''),
     (''container'', ''unsupported-container-query''), (''starting-style'', ''unsupported-starting-style''),
     (''unknown'', ''unsupported-group-context'')]"

definition context_reason :: "css_context \<Rightarrow> string option" where
  "context_reason x = map_of (map (\<lambda>(k, r). (js k, r)) UNSUPPORTED_CONTEXTS) (cx_kind x)"

fun first_reason :: "css_context list \<Rightarrow> string option" where
  "first_reason [] = None"
| "first_reason (x # xs) = (case context_reason x of None \<Rightarrow> first_reason xs | Some r \<Rightarrow> Some r)"

definition hasUnsupportedContext :: "css_context list \<Rightarrow> bool" where
  "hasUnsupportedContext xs \<longleftrightarrow> list_ex (\<lambda>x. cx_kind x \<in> set (map (js \<circ> fst) UNSUPPORTED_CONTEXTS)) xs"

text \<open>\<^verbatim>\<open>/\bvar\s*\(/i\<close>: whether the unit before is part of a word is carried along.\<close>

definition word_unit :: "code_unit \<Rightarrow> bool" where
  "word_unit c \<longleftrightarrow> is_alpha c \<or> is_digit c \<or> c = 0x5f"

definition var_call :: "jstring \<Rightarrow> bool" where
  "var_call s \<longleftrightarrow> map ascii_lower (take 3 s) = js ''var'' \<and>
     (case dropWhile (space_point \<circ> unat) (drop 3 s) of c # cs \<Rightarrow> c = 0x28 | [] \<Rightarrow> False)"

fun uses_var :: "bool \<Rightarrow> jstring \<Rightarrow> bool" where
  "uses_var inWord [] = False"
| "uses_var inWord (c # cs) = (\<not> inWord \<and> var_call (c # cs) \<or> uses_var (word_unit c) cs)"

definition unknown :: "string \<Rightarrow> cascade_classification" where
  "unknown reason = \<lparr>cl_state = ''unknown'', cl_reason = reason\<rparr>"

definition unsafeReason :: "cascade_candidate \<Rightarrow> cascade_classification option" where
  "unsafeReason c =
     (if ca_active c = Some False then Some \<lparr>cl_state = ''inactive'', cl_reason = ''inactive-group-condition''\<rparr>
      else (case first_reason (ca_contexts c) of
          Some r \<Rightarrow> Some (unknown r)
        | None \<Rightarrow>
            if ca_active c = None then Some (unknown ''unknown-group-applicability'')
            else if ca_inherited c then Some (unknown ''inherited-author-declaration'')
            else if starts_with (js ''--'') (ca_property c) then Some (unknown ''custom-property-cascade'')
            else if uses_var False (ca_value c) then Some (unknown ''variable-dependent-value'')
            else if isAnimationOrTransition (ca_property c) then Some (unknown ''animation-or-transition-cascade'')
            else if isShorthand (ca_property c) then Some (unknown ''unsupported-shorthand'')
            else if ca_specificity c = None then Some (unknown ''unsupported-selector-specificity'')
            else None))"

fun compare_specificities :: "nat \<times> nat \<times> nat \<Rightarrow> nat \<times> nat \<times> nat \<Rightarrow> int \<Rightarrow> int" where
  "compare_specificities (a, b, c) (a', b', c') d =
     (if a \<noteq> a' then int a - int a' else if b \<noteq> b' then int b - int b'
      else if c \<noteq> c' then int c - int c' else d)"

definition comparePrecedence :: "cascade_candidate \<Rightarrow> cascade_candidate \<Rightarrow> int" where
  "comparePrecedence l r =
     (if ca_important l \<noteq> ca_important r then if ca_important l then 1 else - 1
      else compare_specificities (the (ca_specificity l)) (the (ca_specificity r))
        (ca_sourceOrder l - ca_sourceOrder r))"

definition hazardous :: "cascade_candidate \<Rightarrow> bool" where
  "hazardous d \<longleftrightarrow> ca_active d \<noteq> Some False \<and> \<not> hasUnsupportedContext (ca_contexts d) \<and>
     (isAnimationOrTransition (ca_property d) \<or> isShorthand (ca_property d))"

definition stronger :: "cascade_candidate \<Rightarrow> cascade_candidate \<Rightarrow> cascade_candidate" where
  "stronger winner contender = (if comparePrecedence contender winner > 0 then contender else winner)"

definition WINNING :: cascade_classification where
  "WINNING = \<lparr>cl_state = ''winning-known-author'', cl_reason = ''highest-precedence-known-author-declaration''\<rparr>"

definition OVERRIDDEN :: cascade_classification where
  "OVERRIDDEN = \<lparr>cl_state = ''overridden-known-author'', cl_reason = ''lower-precedence-author-declaration''\<rparr>"

definition classifyCascade :: "cascade_candidate \<Rightarrow> cascade_candidate list \<Rightarrow> cascade_classification" where
  "classifyCascade candidate declarations =
     (case unsafeReason candidate of
        Some r \<Rightarrow> r
      | None \<Rightarrow>
          (case find hazardous declarations of
             Some d \<Rightarrow> unknown (if isAnimationOrTransition (ca_property d)
               then ''animation-or-transition-cascade'' else ''unsupported-shorthand'')
           | None \<Rightarrow>
               let contenders = filter (\<lambda>d. ca_property d = ca_property candidate \<and> unsafeReason d = None) declarations;
                   winner = foldl stronger candidate contenders
               in if ca_ref winner = ca_ref candidate then WINNING else OVERRIDDEN))"

subsection \<open>The winner\<close>

lemma classification_in_protocol:
  "cl_state (classifyCascade c ds) \<in> set DECLARATION_STATES \<and> cl_reason (classifyCascade c ds) \<in> set DECLARATION_REASONS"
proof -
  have r: "first_reason xs = Some r \<Longrightarrow> r \<in> set DECLARATION_REASONS" for xs r
    by (induction xs) (auto simp: context_reason_def UNSUPPORTED_CONTEXTS_def DECLARATION_REASONS_def split: option.splits if_splits)
  have u: "unsafeReason c = Some x \<Longrightarrow> cl_state x \<in> set DECLARATION_STATES \<and> cl_reason x \<in> set DECLARATION_REASONS" for x
    by (auto simp: unsafeReason_def unknown_def DECLARATION_STATES_def split: option.splits if_splits dest: r)
      (simp_all add: DECLARATION_REASONS_def)
  show ?thesis
    by (auto simp: classifyCascade_def Let_def unknown_def WINNING_def OVERRIDDEN_def DECLARATION_STATES_def
        DECLARATION_REASONS_def u split: option.split dest: u)
qed

text \<open>The reference: one declaration comes later in the cascade than another.\<close>

definition precedes :: "cascade_candidate \<Rightarrow> cascade_candidate \<Rightarrow> bool" where
  "precedes l r \<longleftrightarrow>
     (ca_important l \<and> \<not> ca_important r) \<or>
     (ca_important l = ca_important r \<and>
       (case (the (ca_specificity l), the (ca_specificity r)) of
          ((a, b, c), (a', b', c')) \<Rightarrow>
            a > a' \<or> a = a' \<and> (b > b' \<or> b = b' \<and> (c > c' \<or> c = c' \<and> ca_sourceOrder l > ca_sourceOrder r))))"

lemma compare_precedes: "comparePrecedence l r > 0 \<longleftrightarrow> precedes l r"
  by (cases "the (ca_specificity l)"; cases "the (ca_specificity r)")
    (auto simp: comparePrecedence_def precedes_def)

lemma precedes_irrefl: "\<not> precedes c c"
  by (auto simp: precedes_def split: prod.split)

lemma precedes_trans_neg: "\<not> precedes a b \<Longrightarrow> \<not> precedes b c \<Longrightarrow> \<not> precedes a c"
  by (cases "the (ca_specificity a)"; cases "the (ca_specificity b)"; cases "the (ca_specificity c)")
    (auto simp: precedes_def)

lemma precedes_asym: "precedes a b \<Longrightarrow> \<not> precedes b a"
  by (cases "the (ca_specificity a)"; cases "the (ca_specificity b)") (auto simp: precedes_def)

lemma strongest:
  "(\<forall>d\<in>set ds. \<not> precedes d (foldl stronger c ds)) \<and> \<not> precedes c (foldl stronger c ds) \<and>
   (foldl stronger c ds = c \<or> foldl stronger c ds \<in> set ds \<and> precedes (foldl stronger c ds) c)"
proof (induction ds rule: rev_induct)
  case Nil
  show ?case by (simp add: precedes_irrefl)
next
  case (snoc d ds)
  define w where "w = foldl stronger c ds"
  have e: "foldl stronger c (ds @ [d]) = stronger w d" by (simp add: w_def)
  note ih = snoc [folded w_def]
  show ?case
  proof (cases "precedes d w")
    case True
    then have d: "stronger w d = d" by (simp add: stronger_def compare_precedes)
    have "\<not> precedes x d" if "\<not> precedes x w" for x
      using that precedes_trans_neg [of x w d] precedes_asym [OF True] by blast
    moreover have "precedes d c" using ih True precedes_trans_neg [of d c w] by blast
    ultimately show ?thesis unfolding e d using ih precedes_irrefl by auto
  next
    case False
    then have "stronger w d = w" by (simp add: stronger_def compare_precedes)
    then show ?thesis unfolding e using ih False by auto
  qed
qed

definition known_rivals :: "cascade_candidate \<Rightarrow> cascade_candidate list \<Rightarrow> cascade_candidate set" where
  "known_rivals c ds = {d \<in> set ds. ca_property d = ca_property c \<and> unsafeReason d = None}"

definition same_objects :: "cascade_candidate list \<Rightarrow> bool" where
  "same_objects ds \<longleftrightarrow> (\<forall>d\<in>set ds. \<forall>d'\<in>set ds. ca_ref d = ca_ref d' \<longrightarrow> d = d')"

lemma classify_winning:
  assumes refs: "same_objects ds" and c: "c \<in> set ds"
  shows "classifyCascade c ds = WINNING \<longleftrightarrow>
    unsafeReason c = None \<and> \<not> list_ex hazardous ds \<and> (\<forall>d\<in>known_rivals c ds. \<not> precedes d c)"
proof -
  let ?ds = "filter (\<lambda>d. ca_property d = ca_property c \<and> unsafeReason d = None) ds"
  have u: "unsafeReason c \<noteq> Some WINNING"
  proof -
    have "first_reason xs \<noteq> Some ''highest-precedence-known-author-declaration''" for xs
      by (induction xs) (auto simp: context_reason_def UNSUPPORTED_CONTEXTS_def split: option.split)
    then show ?thesis by (auto simp: unsafeReason_def unknown_def WINNING_def split: option.split)
  qed
  have h: "find hazardous ds = None \<longleftrightarrow> \<not> list_ex hazardous ds" by (auto simp: find_None_iff list_ex_iff)
  note w = strongest [where c = c and ds = ?ds]
  have "ca_ref (foldl stronger c ?ds) = ca_ref c \<longleftrightarrow> (\<forall>d\<in>set ?ds. \<not> precedes d c)"
  proof
    assume r: "ca_ref (foldl stronger c ?ds) = ca_ref c"
    have "foldl stronger c ?ds = c" using w r refs c precedes_irrefl unfolding same_objects_def by auto
    then show "\<forall>d\<in>set ?ds. \<not> precedes d c" using w by simp
  next
    assume "\<forall>d\<in>set ?ds. \<not> precedes d c"
    then show "ca_ref (foldl stronger c ?ds) = ca_ref c" using w by auto
  qed
  moreover have "OVERRIDDEN \<noteq> WINNING" "\<And>x. unknown x \<noteq> WINNING"
    by (simp_all add: OVERRIDDEN_def WINNING_def unknown_def)
  ultimately show ?thesis using u h
    by (auto simp: classifyCascade_def Let_def known_rivals_def split: option.split)
qed

lemma exists_strongest:
  assumes "c \<in> S" and "finite S"
  shows "\<exists>w\<in>S. \<forall>d\<in>S. \<not> precedes d w"
proof -
  obtain xs where xs: "set xs = S" using finite_list [OF assms(2)] by blast
  show ?thesis using strongest [of xs c] assms(1) xs by (intro bexI [of _ "foldl stronger c xs"]) auto
qed

text \<open>C39:
  A declaration is shown as the winning one exactly if it is known, nothing hazardous is around and no
  known declaration of the same property comes later in the cascade (by importance, specificity and
  order); and if the declarations differ in their order then exactly one of the known declarations
  of a property wins. Every state and reason is one that the protocol accepts.
\<close>
theorem cascade_winner:
  assumes "same_objects ds" and "c \<in> set ds"
  shows "((classifyCascade c ds = WINNING) =
      (unsafeReason c = None \<and> \<not> list_ex hazardous ds \<and> (\<forall>d\<in>known_rivals c ds. \<not> precedes d c))) \<and>
    (unsafeReason c = None \<and> \<not> list_ex hazardous ds \<and> inj_on ca_sourceOrder (set ds) \<longrightarrow>
      (\<exists>!w. w \<in> set ds \<and> ca_property w = ca_property c \<and> classifyCascade w ds = WINNING)) \<and>
    cl_state (classifyCascade c ds) \<in> set DECLARATION_STATES \<and> cl_reason (classifyCascade c ds) \<in> set DECLARATION_REASONS"
proof -
  have "\<exists>!w. w \<in> set ds \<and> ca_property w = ca_property c \<and> classifyCascade w ds = WINNING"
    if k: "unsafeReason c = None" "\<not> list_ex hazardous ds" "inj_on ca_sourceOrder (set ds)"
  proof -
    have win: "classifyCascade w ds = WINNING \<longleftrightarrow> unsafeReason w = None \<and> (\<forall>d\<in>known_rivals w ds. \<not> precedes d w)"
      if "w \<in> set ds" for w using classify_winning [OF assms(1) that] k(2) by simp
    have "c \<in> known_rivals c ds" using assms(2) k(1) by (simp add: known_rivals_def)
    then obtain w where w: "w \<in> known_rivals c ds" "\<forall>d\<in>known_rivals c ds. \<not> precedes d w"
      using exists_strongest [of c "known_rivals c ds"] by (auto simp: known_rivals_def)
    show ?thesis
    proof (intro ex1I [of _ w] conjI)
      show "w \<in> set ds" "ca_property w = ca_property c" using w(1) by (simp_all add: known_rivals_def)
      then show "classifyCascade w ds = WINNING" using w win [of w] by (simp add: known_rivals_def)
      fix v assume v: "v \<in> set ds \<and> ca_property v = ca_property c \<and> classifyCascade v ds = WINNING"
      then have "\<not> precedes v w" "\<not> precedes w v" using w win [of v] by (simp_all add: known_rivals_def)
      then have "ca_sourceOrder v = ca_sourceOrder w"
        by (cases "the (ca_specificity v)"; cases "the (ca_specificity w)") (auto simp: precedes_def)
      then show "v = w" using k(3) v w(1) by (auto simp: inj_on_def known_rivals_def)
    qed
  qed
  then show ?thesis using classify_winning [OF assms] classification_in_protocol by blast
qed

text \<open>Two declarations of the same property; the later one wins.\<close>

definition example_candidate :: "nat \<Rightarrow> cascade_candidate" where
  "example_candidate n = \<lparr>ca_ref = n, ca_property = js ''color'', ca_value = js ''red'', ca_important = False,
     ca_specificity = Some (0, 1, 0), ca_sourceOrder = int n, ca_contexts = [], ca_active = Some True, ca_inherited = False\<rparr>"

theorem cascade_winner_witness:
  "classifyCascade (example_candidate 1) [example_candidate 0, example_candidate 1] = WINNING \<and>
   classifyCascade (example_candidate 0) [example_candidate 0, example_candidate 1] \<noteq> WINNING"
proof -
  let ?ds = "[example_candidate 0, example_candidate 1]"
  have s: "same_objects ?ds" by (simp add: same_objects_def example_candidate_def)
  have k: "unsafeReason (example_candidate 0) = None" "unsafeReason (example_candidate 1) = None" "\<not> list_ex hazardous ?ds"
    by code_simp+
  have p: "precedes (example_candidate 1) (example_candidate 0)" "\<not> precedes (example_candidate 0) (example_candidate 1)"
    by (simp_all add: precedes_def example_candidate_def)
  have r: "known_rivals (example_candidate n) ?ds = set ?ds" for n using k by (auto simp: known_rivals_def example_candidate_def)
  have m: "example_candidate n \<in> set ?ds" if "n = 0 \<or> n = 1" for n using that by auto
  show ?thesis
    using conjunct1 [OF cascade_winner [OF s m [of 1]]] conjunct1 [OF cascade_winner [OF s m [of 0]]] k p
    by (simp add: r precedes_irrefl del: One_nat_def)
qed

subsection \<open>Rows of a long list\<close>

record virtual_viewport =
  vv_start :: int
  vv_size :: int
  vv_overscan :: int

definition assertViewport :: "virtual_viewport \<Rightarrow> bool" where
  "assertViewport v \<longleftrightarrow> safe_int (vv_start v) \<and> safe_int (vv_size v) \<and> safe_int (vv_overscan v) \<and>
     \<not> (vv_start v < 0 \<or> vv_size v < 0 \<or> vv_overscan v < 0)"

definition virtualTreeRows :: "'a list \<Rightarrow> virtual_viewport \<Rightarrow> (nat \<times> 'a) list option" where
  "virtualTreeRows rows v =
     (if \<not> assertViewport v then None
      else if vv_start v \<ge> int (length rows) \<or> vv_size v = 0 then Some []
      else
        let first = nat (max 0 (vv_start v - vv_overscan v));
            final = nat (min (int (length rows)) (vv_start v + vv_size v + vv_overscan v))
        in Some (map (\<lambda>offset. (first + offset, take (final - first) (drop first rows) ! offset))
             [0..<length (take (final - first) (drop first rows))]))"

lemma virtual_rows:
  assumes "virtualTreeRows rows v = Some rs"
  shows "set rs = {(i, rows ! i) | i. i < length rows \<and> vv_start v < int (length rows) \<and> vv_size v \<noteq> 0 \<and>
      vv_start v - vv_overscan v \<le> int i \<and> int i < vv_start v + vv_size v + vv_overscan v} \<and>
    sorted_wrt (<) (map fst rs)"
proof (cases "vv_start v \<ge> int (length rows) \<or> vv_size v = 0")
  case True
  then show ?thesis using assms by (auto simp: virtualTreeRows_def split: if_splits)
next
  case False
  define first where "first = nat (max 0 (vv_start v - vv_overscan v))"
  define final where "final = nat (min (int (length rows)) (vv_start v + vv_size v + vv_overscan v))"
  have rs: "rs = map (\<lambda>k. (first + k, rows ! (first + k))) [0..<final - first]"
    using assms False by (auto simp: virtualTreeRows_def Let_def first_def final_def split: if_splits)
  have "set rs = (\<lambda>i. (i, rows ! i)) ` {first..<final}"
  proof -
    have "(\<lambda>k. first + k) ` {0..<final - first} = {first..<final}" if "first \<le> final"
      using that by (simp add: image_add_atLeastLessThan)
    then have "(\<lambda>k. first + k) ` {0..<final - first} = {first..<final}" by (cases "first \<le> final") auto
    then show ?thesis unfolding rs by (metis (no_types, lifting) image_cong image_image list.set_map set_upt)
  qed
  moreover have "sorted_wrt (<) (map fst rs)" unfolding rs by (simp add: comp_def sorted_wrt_map)
  moreover have "i \<in> {first..<final} \<longleftrightarrow> i < length rows \<and> vv_start v - vv_overscan v \<le> int i \<and>
      int i < vv_start v + vv_size v + vv_overscan v" for i
    unfolding first_def final_def by auto
  ultimately show ?thesis using False by (auto simp: image_iff)
qed

end
