(* ===== verification/Rule_References.thy ===== *)
theory Rule_References
  imports Inspect_Ports
begin

text \<open>
  \<^verbatim>\<open>browser-extension-core/src/ruleReferenceRegistry.ts\<close>: references that stand for the rules of the page's
  stylesheets outside of the page. The identity of a rule is a number; the random texts that an
  operation would draw are an argument, \<open>None\<close> where there is no source of them.
\<close>

subsection \<open>State\<close>














subsection \<open>Operations\<close>











subsection \<open>Runs\<close>



subsection \<open>The two maps are inverse to each other\<close>



























end
