(* ===== verification/Json_Grammar.thy ===== *)
theory Json_Grammar
  imports Json_Text Text_Patterns
begin

text \<open>
  Which texts \<^verbatim>\<open>JSON.parse\<close> accepts, and whether the value is an object or an array: the tokens of
  the text, then a pushdown automaton over them, so no recursion depth has to be bounded.
\<close>

subsection \<open>Tokens\<close>

datatype json_token = LBracket | RBracket | LBrace | RBrace | Comma | Colon | StringToken | ScalarToken

definition json_space :: "code_unit \<Rightarrow> bool" where
  "json_space c \<longleftrightarrow> c = 0x20 \<or> c = 0x09 \<or> c = 0x0a \<or> c = 0x0d"

definition json_mark :: "code_unit \<Rightarrow> json_token option" where
  "json_mark c =
     (if c = 0x5b then Some LBracket else if c = 0x5d then Some RBracket
      else if c = 0x7b then Some LBrace else if c = 0x7d then Some RBrace
      else if c = 0x2c then Some Comma else if c = 0x3a then Some Colon else None)"

definition scalar_char :: "code_unit \<Rightarrow> bool" where
  "scalar_char c \<longleftrightarrow> is_digit c \<or> is_alpha c \<or> c = 0x2b \<or> c = 0x2d \<or> c = 0x2e"

text \<open>\<^verbatim>\<open>-?(0|[1-9]\d*)(\.\d+)?([eE][+-]?\d+)?\<close>, part by part.\<close>

definition integer_part :: "jstring \<Rightarrow> bool" where
  "integer_part s \<longleftrightarrow> s \<noteq> [] \<and> list_all is_digit s \<and> (hd s = 0x30 \<longrightarrow> length s = 1)"

definition exponent_part :: "jstring \<Rightarrow> bool" where
  "exponent_part s \<longleftrightarrow>
     (case s of [] \<Rightarrow> True
      | e # r \<Rightarrow> (e = 0x65 \<or> e = 0x45) \<and>
          (let ds = (case r of c # r' \<Rightarrow> if c = 0x2b \<or> c = 0x2d then r' else r | [] \<Rightarrow> r)
           in ds \<noteq> [] \<and> list_all is_digit ds))"

definition fraction_part :: "jstring \<Rightarrow> bool" where
  "fraction_part s \<longleftrightarrow>
     (case s of [] \<Rightarrow> True
      | c # r \<Rightarrow> if c = 0x2e then takeWhile is_digit r \<noteq> [] \<and> exponent_part (dropWhile is_digit r)
                else exponent_part s)"

definition json_number :: "jstring \<Rightarrow> bool" where
  "json_number s \<longleftrightarrow>
     (let r = (case s of c # r \<Rightarrow> if c = 0x2d then r else s | [] \<Rightarrow> s)
      in integer_part (takeWhile is_digit r) \<and> fraction_part (dropWhile is_digit r))"

definition json_scalar :: "jstring \<Rightarrow> bool" where
  "json_scalar s \<longleftrightarrow> s = js ''true'' \<or> s = js ''false'' \<or> s = js ''null'' \<or> json_number s"

lemma json_unquote_shorter: "json_unquote s = Some (t, r) \<Longrightarrow> length r < length s"
proof (induction s arbitrary: t r rule: length_induct)
  case (1 s)
  have IH: "length r' < length s'" if "json_unquote s' = Some (t', r')" "length s' < length s" for s' t' r'
    using "1.IH" that by blast
  show ?case
  proof (cases s)
    case (Cons c cs)
    with "1.prems" show ?thesis
      by (auto simp: json_unquote.simps(2) Let_def split: if_splits list.splits option.splits dest!: IH)
  qed (use "1.prems" in simp)
qed

function json_tokens :: "jstring \<Rightarrow> json_token list option" where
  "json_tokens [] = Some []"
| "json_tokens (c # cs) =
     (if json_space c then json_tokens cs
      else (case json_mark c of
          Some t \<Rightarrow> map_option (Cons t) (json_tokens cs)
        | None \<Rightarrow>
            if c = 0x22 then
              (case json_unquote cs of
                 None \<Rightarrow> None
               | Some (_, rest) \<Rightarrow> map_option (Cons StringToken) (json_tokens rest))
            else if scalar_char c \<and> json_scalar (c # takeWhile scalar_char cs) then
              map_option (Cons ScalarToken) (json_tokens (dropWhile scalar_char cs))
            else None))"
  by pat_completeness auto
termination
  by (relation "measure length")
    (auto dest: json_unquote_shorter intro: le_imp_less_Suc length_dropWhile_le)

subsection \<open>The automaton\<close>

datatype json_expect = AnyValue | ValueOrEnd | MemberKey | KeyOrEnd | KeyColon | AfterValue

text \<open>The open containers, innermost first; \<open>True\<close> is an object.\<close>

fun value_step :: "bool list \<Rightarrow> json_token \<Rightarrow> (json_expect \<times> bool list) option" where
  "value_step st StringToken = Some (AfterValue, st)"
| "value_step st ScalarToken = Some (AfterValue, st)"
| "value_step st LBracket = Some (ValueOrEnd, False # st)"
| "value_step st LBrace = Some (KeyOrEnd, True # st)"
| "value_step _ _ = None"

fun json_step :: "json_expect \<Rightarrow> bool list \<Rightarrow> json_token \<Rightarrow> (json_expect \<times> bool list) option" where
  "json_step AnyValue st t = value_step st t"
| "json_step ValueOrEnd (False # st) RBracket = Some (AfterValue, st)"
| "json_step ValueOrEnd st t = value_step st t"
| "json_step MemberKey st StringToken = Some (KeyColon, st)"
| "json_step KeyOrEnd (True # st) RBrace = Some (AfterValue, st)"
| "json_step KeyOrEnd st StringToken = Some (KeyColon, st)"
| "json_step KeyColon st Colon = Some (AnyValue, st)"
| "json_step AfterValue (False # st) Comma = Some (AnyValue, False # st)"
| "json_step AfterValue (True # st) Comma = Some (MemberKey, True # st)"
| "json_step AfterValue (False # st) RBracket = Some (AfterValue, st)"
| "json_step AfterValue (True # st) RBrace = Some (AfterValue, st)"
| "json_step _ _ _ = None"

fun json_accepts :: "json_expect \<Rightarrow> bool list \<Rightarrow> json_token list \<Rightarrow> bool" where
  "json_accepts e st [] \<longleftrightarrow> e = AfterValue \<and> st = []"
| "json_accepts e st (t # ts) \<longleftrightarrow>
     (case json_step e st t of None \<Rightarrow> False | Some (e', st') \<Rightarrow> json_accepts e' st' ts)"

text \<open>\<^verbatim>\<open>JSON.parse\<close> succeeds with an object or an array.\<close>

definition json_structured :: "jstring \<Rightarrow> bool" where
  "json_structured s =
     (case json_tokens s of
        Some (t # ts) \<Rightarrow> (t = LBracket \<or> t = LBrace) \<and> json_accepts AnyValue [] (t # ts)
      | _ \<Rightarrow> False)"

end
