(* ===== verification/Source_Labels.thy ===== *)
theory Source_Labels
  imports Text_Regex Json_Grammar Public_Url Protocol_Schemas
begin

text \<open>
  \<^verbatim>\<open>extensions/vscode/src/sourcePresentationMetadata.ts\<close>: the labels, language ids, kinds and
  relations under which the IDE shows a source to the browser. A label must not tell a path, a
  URL or a position; what looks like one, also base64 encoded, is replaced by a neutral text.
  The \<^verbatim>\<open>URL\<close> parser and the Unicode property classes of the patterns are parameters.
\<close>

record label_env =
  le_url :: "jstring \<Rightarrow> jstring option \<Rightarrow> url_parts option"
  le_visible :: "nat \<Rightarrow> bool"
  le_upper :: "nat \<Rightarrow> bool"
  le_initial_i :: "nat \<Rightarrow> bool"
  le_visible_i :: "nat \<Rightarrow> bool"

text \<open>
  \<open>le_visible\<close> is \<^verbatim>\<open>[\p{L}\p{M}\p{N}]\<close> and \<open>le_upper\<close> is \<^verbatim>\<open>\p{Lu}\<close>; \<open>le_initial_i\<close> and \<open>le_visible_i\<close> are
  \<^verbatim>\<open>[\p{L}\p{N}]\<close> and \<^verbatim>\<open>[\p{L}\p{M}\p{N}]\<close> under the flags \<^verbatim>\<open>iu\<close>.
\<close>

subsection \<open>Kinds and relations\<close>

definition SOURCE_KINDS :: "(jstring \<times> excerpt_kind) list" where
  "SOURCE_KINDS = [(js ''component'', KComponent), (js ''fixture'', KFixture), (js ''rule'', KRule),
     (js ''source'', KSource), (js ''style-rule'', KStyleRule), (js ''template'', KTemplate)]"

definition SOURCE_RELATIONS :: "(jstring \<times> excerpt_relation) list" where
  "SOURCE_RELATIONS = [(js ''applies'', RApplies), (js ''contains'', RContains),
     (js ''declared-in'', RDeclaredIn), (js ''matches'', RMatches), (js ''parent'', RParent),
     (js ''renders'', RRenders), (js ''selected'', RSelected), (js ''styles'', RStyles),
     (js ''templates'', RTemplates)]"

text \<open>An unknown value that is not a string is \<open>None\<close>.\<close>

definition normalizeSourceKind :: "jstring option \<Rightarrow> excerpt_kind" where
  "normalizeSourceKind v = (case v of None \<Rightarrow> KSource
     | Some t \<Rightarrow> (case map_of SOURCE_KINDS t of Some k \<Rightarrow> k | None \<Rightarrow> KSource))"

definition normalizeSourceRelation :: "jstring option \<Rightarrow> excerpt_relation" where
  "normalizeSourceRelation v = (case v of None \<Rightarrow> RMatches
     | Some t \<Rightarrow> (case map_of SOURCE_RELATIONS t of Some r \<Rightarrow> r | None \<Rightarrow> RMatches))"

subsection \<open>Characters\<close>

definition DISPLAY_PUNCTUATION :: "jstring list" where
  "DISPLAY_PUNCTUATION = characters (js '' !\"#$&'' @ [0x27] @ js ''()*+,-.:<=>@[]^_|~'')"

definition LANGUAGE_ID_PUNCTUATION :: "jstring list" where
  "LANGUAGE_ID_PUNCTUATION = characters (js ''+-._'')"

definition MAX_DISPLAY_INPUT_LENGTH :: nat where
  "MAX_DISPLAY_INPUT_LENGTH = lim_labelLength RESOLUTION_LIMITS * 4"

definition isAsciiLetterOrDigit :: "jstring \<Rightarrow> bool" where
  "isAsciiLetterOrDigit character =
     (case character of [] \<Rightarrow> False | code # _ \<Rightarrow> is_digit code \<or> is_alpha code)"

definition isDisplayCharacter :: "label_env \<Rightarrow> jstring \<Rightarrow> bool" where
  "isDisplayCharacter env character \<longleftrightarrow> isAsciiLetterOrDigit character \<or>
     character \<in> set DISPLAY_PUNCTUATION \<or>
     rx_test (rx_seq [rx_class (le_visible env), rx_end]) character"

definition isLanguageIdCharacter :: "jstring \<Rightarrow> bool" where
  "isLanguageIdCharacter character \<longleftrightarrow>
     isAsciiLetterOrDigit character \<or> character \<in> set LANGUAGE_ID_PUNCTUATION"

definition blank_control :: "jstring \<Rightarrow> jstring" where
  "blank_control character =
     (let code = codePointAt0 character in if code \<le> 0x1f \<or> code = 0x7f then [0x20] else character)"

definition cleanText :: "jstring \<Rightarrow> jstring" where
  "cleanText t = trim (concat (map blank_control (characters t)))"

definition boundUtf16 :: "jstring \<Rightarrow> nat \<Rightarrow> jstring" where
  "boundUtf16 t limit =
     (let bounded = take limit t
      in if bounded \<noteq> [] \<and> high_surrogate (last bounded) then butlast bounded else bounded)"

subsection \<open>Patterns\<close>

text \<open>\<^verbatim>\<open>/:\d+(?::\d+)?$/u\<close>, \<^verbatim>\<open>/\.[a-z0-9]+\(\d+(?:,\d+)?\)$/iu\<close>, \<^verbatim>\<open>/\.[a-z0-9]+#L\d+(?:C\d+)?$/iu\<close>,
  \<^verbatim>\<open>/^(?:#\s*)?sourceMappingURL\s*=/iu\<close>\<close>

abbreviation rx_char :: "nat \<Rightarrow> rx" where "rx_char c \<equiv> rx_class (\<lambda>x. x = c)"

definition SOURCE_LOCATOR_SUFFIX :: rx where
  "SOURCE_LOCATOR_SUFFIX = rx_seq [rx_char 0x3a, rx_plus digit_point,
     rx_opt (rx_seq [rx_char 0x3a, rx_plus digit_point]), rx_end]"

definition extension_point :: "nat \<Rightarrow> bool" where
  "extension_point c \<longleftrightarrow> lower_point (fold_point c) \<or> digit_point c"

definition PARENTHESIZED_SOURCE_LOCATOR_SUFFIX :: rx where
  "PARENTHESIZED_SOURCE_LOCATOR_SUFFIX = rx_seq [rx_char 0x2e, rx_plus extension_point,
     rx_char 0x28, rx_plus digit_point, rx_opt (rx_seq [rx_char 0x2c, rx_plus digit_point]),
     rx_char 0x29, rx_end]"

definition FRAGMENT_SOURCE_LOCATOR_SUFFIX :: rx where
  "FRAGMENT_SOURCE_LOCATOR_SUFFIX = rx_seq [rx_char 0x2e, rx_plus extension_point,
     rx_text fold_point ''#l'', rx_plus digit_point,
     rx_opt (rx_seq [rx_text fold_point ''c'', rx_plus digit_point]), rx_end]"

definition SOURCE_MAPPING_URL_DIRECTIVE :: rx where
  "SOURCE_MAPPING_URL_DIRECTIVE = rx_seq [rx_opt (rx_seq [rx_char 0x23, rx_star space_point]),
     rx_text fold_point ''sourcemappingurl'', rx_star space_point, rx_char 0x3d]"

text \<open>\<^verbatim>\<open>/^[\p{L}\p{N}][\p{L}\p{M}\p{N} ._@()+,'&-]*\.map(?:\s*(?:[?#].*)?)?$/iu\<close> and
  \<^verbatim>\<open>/^\p{Lu}[\p{L}\p{M}\p{N}_$]*\.map$/u\<close>\<close>

definition map_label_point :: "label_env \<Rightarrow> nat \<Rightarrow> bool" where
  "map_label_point env c \<longleftrightarrow> le_visible_i env c \<or>
     c \<in> {0x20, 0x2e, 0x5f, 0x40, 0x28, 0x29, 0x2b, 0x2c, 0x27, 0x26, 0x2d}"

definition RELATIVE_SOURCE_MAP_LABEL :: "label_env \<Rightarrow> rx" where
  "RELATIVE_SOURCE_MAP_LABEL env = rx_seq [rx_class (le_initial_i env), rx_star (map_label_point env),
     rx_text fold_point ''.map'',
     rx_opt (rx_seq [rx_star space_point,
       rx_opt (rx_seq [rx_class (\<lambda>x. x = 0x3f \<or> x = 0x23), rx_star dot_point])]), rx_end]"

definition COMPONENT_MAP_LABEL :: "label_env \<Rightarrow> rx" where
  "COMPONENT_MAP_LABEL env = rx_seq [rx_class (le_upper env),
     rx_star (\<lambda>c. le_visible env c \<or> c = 0x5f \<or> c = 0x24), rx_text id ''.map'', rx_end]"

subsection \<open>Base64\<close>

definition base64_value :: "code_unit \<Rightarrow> nat option" where
  "base64_value c =
     (if is_upper c then Some (unat c - 65) else if is_lower c then Some (unat c - 71)
      else if is_digit c then Some (unat c + 4)
      else if c = 0x2b then Some 62 else if c = 0x2f then Some 63 else None)"

text \<open>\<^verbatim>\<open>Buffer.from(text, "base64")\<close> of base64 characters: an incomplete last byte is dropped.\<close>

fun base64_bytes :: "nat list \<Rightarrow> nat list" where
  "base64_bytes (a # b # c # d # rest) =
     (a * 4 + b div 16) # (b mod 16 * 16 + c div 4) # (c mod 4 * 64 + d) # base64_bytes rest"
| "base64_bytes [a, b, c] = [a * 4 + b div 16, b mod 16 * 16 + c div 4]"
| "base64_bytes [a, b] = [a * 4 + b div 16]"
| "base64_bytes _ = []"

text \<open>One code point of UTF-8: \<open>None\<close> where the bytes are not the encoding of a scalar value.\<close>

fun utf8_continue :: "nat \<Rightarrow> nat \<Rightarrow> nat list \<Rightarrow> (nat \<times> nat list) option" where
  "utf8_continue 0 acc bs = Some (acc, bs)"
| "utf8_continue (Suc k) acc [] = None"
| "utf8_continue (Suc k) acc (b # bs) =
     (if b div 64 = 2 then utf8_continue k (acc * 64 + b mod 64) bs else None)"

definition utf8_next :: "nat \<Rightarrow> nat list \<Rightarrow> (nat \<times> nat list) option" where
  "utf8_next b bs =
     (let accept = (\<lambda>k lo. case utf8_continue k (b mod (2 ^ (6 - k))) bs of
            None \<Rightarrow> None
          | Some (n, rest) \<Rightarrow> if lo \<le> n \<and> n \<le> 0x10ffff \<and> \<not> (0xd800 \<le> n \<and> n \<le> 0xdfff)
              then Some (n, rest) else None)
      in if b < 0x80 then Some (b, bs)
         else if b div 32 = 6 then accept 1 0x80
         else if b div 16 = 14 then accept 2 0x800
         else if b div 8 = 30 then accept 3 0x10000
         else None)"

lemma utf8_continue_shorter: "utf8_continue k acc bs = Some (n, r) \<Longrightarrow> length r \<le> length bs"
  by (induction k acc bs rule: utf8_continue.induct) (auto split: if_splits)

lemma utf8_next_shorter: "utf8_next b bs = Some (n, r) \<Longrightarrow> length r \<le> length bs"
  by (auto simp: utf8_next_def Let_def split: if_splits option.splits dest: utf8_continue_shorter)

function utf8_decode :: "nat list \<Rightarrow> jstring option" where
  "utf8_decode [] = Some []"
| "utf8_decode (b # bs) =
     (case utf8_next b bs of
        None \<Rightarrow> None
      | Some (n, rest) \<Rightarrow> map_option (append (utf16_of n)) (utf8_decode rest))"
  by pat_completeness auto
termination
  by (relation "measure length") (auto dest: utf8_next_shorter)

text \<open>
  The code compares \<^verbatim>\<open>Buffer.from(decoded)\<close> with the bytes: a text that is decoded here encodes
  to the bytes it came from.
\<close>

lemma scalar_values_utf16_of:
  assumes "n \<le> 0x10ffff" and "\<not> (0xd800 \<le> n \<and> n \<le> 0xdfff)"
  shows "scalar_values (utf16_of n @ t) = n # scalar_values t"
proof (cases "n < 0x10000")
  case True
  then have u: "unat (of_nat n :: code_unit) = n" by (simp add: unat_of_nat)
  then have "\<not> high_surrogate (of_nat n)" "\<not> low_surrogate (of_nat n)"
    using assms(2) by (auto dest!: surrogate_bounds)
  then show ?thesis using True u by (simp add: utf16_of_def)
next
  case False
  define h where "h = (n - 0x10000) div 0x400"
  define l where "l = (n - 0x10000) mod 0x400"
  have b: "h < 0x400" "l < 0x400" "n = 0x10000 + h * 0x400 + l"
    using assms(1) False by (simp_all add: h_def l_def)
  have u: "unat (of_nat (0xd800 + h) :: code_unit) = 0xd800 + h" "unat (of_nat (0xdc00 + l) :: code_unit) = 0xdc00 + l"
    using b by (simp_all only: unat_of_nat) simp_all
  have "high_surrogate (of_nat (0xd800 + h))" "low_surrogate (of_nat (0xdc00 + l))"
    unfolding high_surrogate_def low_surrogate_def word_le_nat_alt u using b by simp_all
  then show ?thesis using False b u
    by (simp add: utf16_of_def h_def [symmetric] l_def [symmetric] del: of_nat_add)
qed

lemma utf8_continue_bytes:
  "utf8_continue k acc bs = Some (n, r) \<Longrightarrow>
   \<exists>xs. bs = map (\<lambda>x. 0x80 + x) xs @ r \<and> length xs = k \<and> (\<forall>x\<in>set xs. x < 64) \<and>
     n = foldl (\<lambda>a x. a * 64 + x) acc xs"
proof (induction k acc bs rule: utf8_continue.induct)
  case (3 k acc b bs)
  then have b: "b div 64 = 2" and "utf8_continue k (acc * 64 + b mod 64) bs = Some (n, r)"
    by (auto split: if_splits)
  then obtain xs where xs: "bs = map (\<lambda>x. 0x80 + x) xs @ r" "length xs = k" "\<forall>x\<in>set xs. x < 64"
    "n = foldl (\<lambda>a x. a * 64 + x) (acc * 64 + b mod 64) xs"
    using "3.IH" by blast
  moreover have "b = 0x80 + b mod 64" using div_mult_mod_eq [of b 64] b by linarith
  ultimately show ?case by (intro exI [of _ "b mod 64 # xs"]) simp
qed auto

lemma div_64_split: "(y::nat) < 64 \<Longrightarrow> (a * 64 + y) div 64 = a" "y < 64 \<Longrightarrow> (a * 64 + y) mod 64 = y"
  by (simp_all only: div_mult_self3 mod_mult_self3 div_less mod_less)

lemma utf8_next_bytes:
  assumes "utf8_next b bs = Some (n, r)"
  shows "b # bs = utf8_bytes n @ r \<and> n \<le> 0x10ffff \<and> \<not> (0xd800 \<le> n \<and> n \<le> 0xdfff)"
proof -
  consider (ascii) "b < 0x80" "n = b" "r = bs"
    | (two) "b div 32 = 6" "utf8_continue 1 (b mod 32) bs = Some (n, r)" "0x80 \<le> n"
    | (three) "b div 16 = 14" "utf8_continue 2 (b mod 16) bs = Some (n, r)" "0x800 \<le> n" "\<not> (0xd800 \<le> n \<and> n \<le> 0xdfff)"
    | (four) "b div 8 = 30" "utf8_continue 3 (b mod 8) bs = Some (n, r)" "0x10000 \<le> n" "n \<le> 0x10ffff"
    using assms by (auto simp: utf8_next_def Let_def split: if_splits option.splits)
  then show ?thesis
  proof cases
    case ascii
    then show ?thesis by (simp add: utf8_bytes_def)
  next
    case two
    obtain x where x: "bs = (0x80 + x) # r" "x < 64" "n = b mod 32 * 64 + x"
      using utf8_continue_bytes [OF two(2)] by (auto simp: length_Suc_conv)
    have "n < 0x800" using x mod_less_divisor [of 32 b] by simp
    moreover have "b = 0xc0 + b mod 32" using div_mult_mod_eq [of b 32] two(1) by linarith
    ultimately show ?thesis using two(3) x by (simp add: utf8_bytes_def)
  next
    case three
    obtain x y where x: "bs = (0x80 + x) # (0x80 + y) # r" "x < 64" "y < 64" "n = (b mod 16 * 64 + x) * 64 + y"
      using utf8_continue_bytes [OF three(2)] by (auto simp: length_Suc_conv numeral_2_eq_2)
    have "n < 0x10000" using x mod_less_divisor [of 16 b] by simp
    moreover have "b = 0xe0 + b mod 16" using div_mult_mod_eq [of b 16] three(1) by linarith
    moreover have "n div 64 = b mod 16 * 64 + x" "n mod 64 = y" "n div 64 div 64 = b mod 16" "n div 64 mod 64 = x"
      using x(2,3) by (simp_all only: x(4) div_64_split)
    ultimately show ?thesis using three(3,4) x(1-3)
      by (simp add: utf8_bytes_def div_64_twice)
  next
    case four
    obtain x y z where x: "bs = (0x80 + x) # (0x80 + y) # (0x80 + z) # r" "x < 64" "y < 64" "z < 64"
      "n = ((b mod 8 * 64 + x) * 64 + y) * 64 + z"
      using utf8_continue_bytes [OF four(2)] by (auto simp: length_Suc_conv numeral_3_eq_3)
    have "b = 0xf0 + b mod 8" using div_mult_mod_eq [of b 8] four(1) by linarith
    moreover have "n mod 64 = z" "n div 64 mod 64 = y" "n div 64 div 64 mod 64 = x" "n div 64 div 64 div 64 = b mod 8"
      using x(2-4) by (simp_all only: x(5) div_64_split)
    ultimately show ?thesis using four(3,4) x(1-4)
      by (simp add: utf8_bytes_def div_64_twice)
  qed
qed

lemma utf8_decode_bytes: "utf8_decode bs = Some t \<Longrightarrow> buffer_from t = bs"
proof (induction bs arbitrary: t rule: utf8_decode.induct)
  case (2 b bs)
  then obtain n r t' where n: "utf8_next b bs = Some (n, r)" "utf8_decode r = Some t'" "t = utf16_of n @ t'"
    by (auto split: option.splits)
  have "buffer_from t' = r" using "2.IH" n(1,2) by blast
  then show ?case using utf8_next_bytes [OF n(1)]
    by (simp add: n(3) buffer_from_def scalar_values_utf16_of)
qed simp

definition BASE64_CANDIDATE :: rx where
  "BASE64_CANDIDATE = rx_seq [rx_plus (\<lambda>c. 65 \<le> c \<and> c \<le> 90 \<or> lower_point c \<or> digit_point c \<or>
       c \<in> {0x2b, 0x2f, 0x5f, 0x2d}),
     rx_opt (rx_char 0x3d), rx_opt (rx_char 0x3d), rx_end]"

definition MIN_BASE64_CANDIDATE_LENGTH :: nat where
  "MIN_BASE64_CANDIDATE_LENGTH = 8"

definition decodeBase64Candidate :: "jstring \<Rightarrow> jstring option" where
  "decodeBase64Candidate t =
     (if length t < MIN_BASE64_CANDIDATE_LENGTH \<or> length t > MAX_DISPLAY_INPUT_LENGTH then None
      else let candidate = filter (\<lambda>c. \<not> (9 \<le> c \<and> c \<le> 13 \<or> c = 0x20)) t
        in if length candidate < MIN_BASE64_CANDIDATE_LENGTH \<or> \<not> rx_test BASE64_CANDIDATE candidate
           then None
           else let normalized = map (\<lambda>c. if c = 0x2d then 0x2b else if c = 0x5f then 0x2f else c) candidate;
                    bytes = base64_bytes (List.map_filter base64_value normalized)
             in if bytes = [] \<or> length bytes > MAX_DISPLAY_INPUT_LENGTH then None
                else utf8_decode bytes)"

subsection \<open>Labels\<close>

record label_context =
  lc_kind :: excerpt_kind
  lc_relation :: excerpt_relation
  lc_trustedStyleSelector :: bool

definition DEFAULT_DISPLAY_LABEL_CONTEXT :: label_context where
  "DEFAULT_DISPLAY_LABEL_CONTEXT =
     \<lparr>lc_kind = KSource, lc_relation = RMatches, lc_trustedStyleSelector = False\<rparr>"

definition isAbsoluteUri :: "label_env \<Rightarrow> jstring \<Rightarrow> bool" where
  "isAbsoluteUri env t = (case le_url env t None of None \<Rightarrow> False | Some u \<Rightarrow> length (u_protocol u) > 0)"

definition allowsRelativeMapLabel :: "label_env \<Rightarrow> jstring \<Rightarrow> label_context \<Rightarrow> bool" where
  "allowsRelativeMapLabel env t context \<longleftrightarrow>
     lc_kind context = KComponent \<and> rx_test (COMPONENT_MAP_LABEL env) t \<or>
     lc_trustedStyleSelector context \<and> lc_kind context = KStyleRule \<and> lc_relation context = RStyles"

definition isSensitiveDisplayMetadata :: "label_env \<Rightarrow> jstring \<Rightarrow> bool \<Rightarrow> bool" where
  "isSensitiveDisplayMetadata env t allowRelativeMapLabel \<longleftrightarrow>
     0x2f \<in> set t \<or> 0x5c \<in> set t \<or> 0x25 \<in> set t \<or>
     rx_search SOURCE_LOCATOR_SUFFIX t \<or> rx_search PARENTHESIZED_SOURCE_LOCATOR_SUFFIX t \<or>
     rx_search FRAGMENT_SOURCE_LOCATOR_SUFFIX t \<or> rx_test SOURCE_MAPPING_URL_DIRECTIVE t \<or>
     \<not> allowRelativeMapLabel \<and> rx_test (RELATIVE_SOURCE_MAP_LABEL env) t \<or>
     json_structured t \<or> isAbsoluteUri env t"

definition hasEncodedSensitiveMetadata :: "label_env \<Rightarrow> jstring \<Rightarrow> bool" where
  "hasEncodedSensitiveMetadata env t =
     (case decodeBase64Candidate t of None \<Rightarrow> False
      | Some decoded \<Rightarrow> isSensitiveDisplayMetadata env (cleanText decoded) False)"

definition isNeutralDisplayLabel :: "label_env \<Rightarrow> jstring \<Rightarrow> jstring \<Rightarrow> label_context \<Rightarrow> bool" where
  "isNeutralDisplayLabel env t encodedCandidate context \<longleftrightarrow>
     \<not> (length t = 0 \<or> isSensitiveDisplayMetadata env t (allowsRelativeMapLabel env t context) \<or>
        hasEncodedSensitiveMetadata env encodedCandidate) \<and>
     list_all (isDisplayCharacter env) (characters t)"

definition normalizeSourceDisplayLabel ::
  "label_env \<Rightarrow> jstring option \<Rightarrow> jstring \<Rightarrow> label_context \<Rightarrow> jstring" where
  "normalizeSourceDisplayLabel env v fallback context =
     (case v of None \<Rightarrow> fallback
      | Some t \<Rightarrow>
          if length t > MAX_DISPLAY_INPUT_LENGTH then fallback
          else let cleaned = cleanText t
            in if \<not> isNeutralDisplayLabel env cleaned t context then fallback
               else let bounded = boundUtf16 cleaned (lim_labelLength RESOLUTION_LIMITS)
                 in if bounded = [] then fallback else bounded)"

text \<open>The last non-empty part between separators.\<close>

definition last_part :: "jstring list \<Rightarrow> jstring option" where
  "last_part parts = (case filter (\<lambda>p. p \<noteq> []) parts of [] \<Rightarrow> None | ps \<Rightarrow> Some (last ps))"

definition basename :: "jstring \<Rightarrow> jstring" where
  "basename t = (case last_part (concat (map (split_on 0x5c) (split_on 0x2f t))) of
     None \<Rightarrow> js ''untitled'' | Some p \<Rightarrow> p)"

definition sourceDocumentLabel :: "label_env \<Rightarrow> jstring option \<Rightarrow> jstring" where
  "sourceDocumentLabel env documentUri =
     (case documentUri of None \<Rightarrow> js ''untitled''
      | Some t \<Rightarrow>
          (case le_url env t None of None \<Rightarrow> js ''untitled''
           | Some parsed \<Rightarrow>
               (case last_part (split_on 0x2f (u_pathname parsed)) of None \<Rightarrow> js ''untitled''
                | Some encodedSegment \<Rightarrow>
                    (case decodeURIComponent encodedSegment of None \<Rightarrow> js ''untitled''
                     | Some decodedSegment \<Rightarrow>
                         normalizeSourceDisplayLabel env (Some (basename decodedSegment))
                           (js ''untitled'') DEFAULT_DISPLAY_LABEL_CONTEXT))))"

definition normalizeLanguageId :: "jstring option \<Rightarrow> jstring" where
  "normalizeLanguageId v =
     (case v of None \<Rightarrow> js ''unknown''
      | Some t \<Rightarrow>
          let cleaned = cleanText t
          in if length cleaned = 0 \<or> list_ex (\<lambda>c. \<not> isLanguageIdCharacter c) (characters cleaned)
             then js ''unknown''
             else let bounded = boundUtf16 cleaned (lim_languageIdLength RESOLUTION_LIMITS)
               in if bounded = [] then js ''unknown'' else bounded)"

record document_metadata =
  dm_label :: jstring
  dm_languageId :: source_language

definition rulesSourceDocumentMetadata :: "label_env \<Rightarrow> jstring \<Rightarrow> source_language \<Rightarrow> document_metadata" where
  "rulesSourceDocumentMetadata env documentUri languageId =
     \<lparr>dm_label = sourceDocumentLabel env (Some documentUri), dm_languageId = languageId\<rparr>"

subsection \<open>What a label may contain\<close>

text \<open>Not empty, not too long, without a path separator, a percent sign or a control character.\<close>

definition public_label :: "jstring \<Rightarrow> bool" where
  "public_label t \<longleftrightarrow> text_between 1 (lim_labelLength RESOLUTION_LIMITS) t \<and>
     0x2f \<notin> set t \<and> 0x5c \<notin> set t \<and> 0x25 \<notin> set t \<and> (\<forall>c\<in>set t. 0x1f < c \<and> c \<noteq> 0x7f)"

lemma public_untitled: "public_label (js ''untitled'')"
  by (simp add: public_label_def text_between_def RESOLUTION_LIMITS_def js_def unit_of_char_def)

lemma characters_single:
  "x \<in> set (characters t) \<Longrightarrow> c \<in> set x \<Longrightarrow> x = [c] \<or> high_surrogate c \<or> low_surrogate c"
proof (induction t rule: characters.induct)
  case (2 d rest)
  then show ?case by (cases rest) (auto split: if_splits)
qed simp

lemma blank_control_units:
  assumes "x \<in> set (characters t)" and "c \<in> set (blank_control x)"
  shows "0x1f < c \<and> c \<noteq> 0x7f"
proof (cases "c \<in> set x")
  case True
  then consider "x = [c]" | "high_surrogate c \<or> low_surrogate c"
    using characters_single [OF assms(1)] by blast
  then show ?thesis
  proof cases
    case 1
    have "unat c = 127 \<longleftrightarrow> c = 0x7f" by (simp add: word_unat_eq_iff)
    then show ?thesis using assms(2) 1
      by (auto simp: blank_control_def Let_def word_less_nat_alt split: if_splits)
  next
    case 2
    then show ?thesis using surrogate_large [of c] surrogate_bounds [of c]
      by (auto simp: word_less_nat_alt)
  qed
next
  case False
  then show ?thesis using assms(2) by (auto simp: blank_control_def Let_def split: if_splits)
qed

lemma cleanText_units: "c \<in> set (cleanText t) \<Longrightarrow> 0x1f < c \<and> c \<noteq> 0x7f"
  using set_trim blank_control_units unfolding cleanText_def by fastforce

text \<open>A bounded label is cut between two characters.\<close>

lemma boundUtf16_Cons_pair:
  "high_surrogate c \<Longrightarrow> low_surrogate d \<Longrightarrow> boundUtf16 (c # d # r) (Suc (Suc n)) = c # d # boundUtf16 r n"
  by (cases "take n r = []") (auto simp: boundUtf16_def Let_def dest: not_both_surrogates)

lemma characters_boundUtf16: "\<exists>k. characters (boundUtf16 t n) = take k (characters t)"
proof (induction t arbitrary: n rule: characters.induct)
  case (2 c rest)
  show ?case
  proof (cases "\<exists>d r. rest = d # r \<and> high_surrogate c \<and> low_surrogate d")
    case True
    then obtain d r where r: "rest = d # r" "high_surrogate c" "low_surrogate d" by blast
    show ?thesis
    proof (cases "n < 2")
      case True
      then consider "n = 0" | "n = 1" by linarith
      then have "boundUtf16 (c # rest) n = []" using r by cases (simp_all add: boundUtf16_def)
      then show ?thesis by (intro exI [of _ 0]) simp
    next
      case False
      then obtain m where n: "n = Suc (Suc m)" using nat_le_iff_add by (metis add_2_eq_Suc not_less)
      obtain k where "characters (boundUtf16 r m) = take k (characters r)" using "2.IH"(1) r by blast
      then show ?thesis using r n by (intro exI [of _ "Suc k"]) (simp add: boundUtf16_Cons_pair)
    qed
  next
    case False
    then have cs: "characters (c # rest) = [c] # characters rest" by (auto split: list.splits)
    show ?thesis
    proof (cases "n = 0 \<or> boundUtf16 (c # rest) n = []")
      case True
      then show ?thesis by (intro exI [of _ 0]) (auto simp: boundUtf16_def)
    next
      case no: False
      then obtain m where n: "n = Suc m" by (cases n) auto
      have b: "boundUtf16 (c # rest) n = c # boundUtf16 rest m"
        using no by (cases "take m rest = []") (auto simp: n boundUtf16_def Let_def split: if_splits)
      have "\<exists>k. characters (boundUtf16 rest m) = take k (characters rest)"
      proof (cases rest)
        case (Cons d r)
        then show ?thesis using "2.IH"(2) [OF Cons] False by simp
      qed (simp add: boundUtf16_def)
      then obtain k where k: "characters (boundUtf16 rest m) = take k (characters rest)" ..
      have "characters (c # boundUtf16 rest m) = [c] # characters (boundUtf16 rest m)"
      proof (cases "boundUtf16 rest m")
        case (Cons e u)
        then have "e = hd rest" "rest \<noteq> []"
          by (cases rest; cases m; auto simp: boundUtf16_def Let_def split: if_splits)+
        then show ?thesis using Cons False by (cases rest) auto
      qed simp
      then show ?thesis unfolding b cs k by (intro exI [of _ "Suc k"]) simp
    qed
  qed
qed (simp add: boundUtf16_def)

lemma boundUtf16_take: "\<exists>k. boundUtf16 t n = take k t \<and> k \<le> n"
proof (cases "take n t = [] \<or> \<not> high_surrogate (last (take n t))")
  case True
  then show ?thesis by (intro exI [of _ n]) (auto simp: boundUtf16_def)
next
  case False
  then have "boundUtf16 t n = take (length (take n t) - 1) t"
    by (auto simp: boundUtf16_def butlast_conv_take min_def)
  moreover have "length (take n t) - 1 \<le> n" by (rule order_trans [OF diff_le_self]) simp
  ultimately show ?thesis by blast
qed

lemma set_boundUtf16: "set (boundUtf16 t n) \<subseteq> set t"
  using boundUtf16_take [of t n] by (auto dest: in_set_takeD)

lemma length_boundUtf16: "length (boundUtf16 t n) \<le> n"
  using boundUtf16_take [of t n] by auto

lemma normalizeSourceDisplayLabel_cases:
  obtains (fallback) "normalizeSourceDisplayLabel env v fb ctx = fb"
  | (shown) t where "v = Some t" "isNeutralDisplayLabel env (cleanText t) t ctx"
    "normalizeSourceDisplayLabel env v fb ctx = boundUtf16 (cleanText t) (lim_labelLength RESOLUTION_LIMITS)"
    "boundUtf16 (cleanText t) (lim_labelLength RESOLUTION_LIMITS) \<noteq> []"
proof (cases v)
  case (Some t)
  note d = normalizeSourceDisplayLabel_def [of env v fb ctx, unfolded Some option.case Let_def]
  consider "normalizeSourceDisplayLabel env v fb ctx = fb"
    | "isNeutralDisplayLabel env (cleanText t) t ctx"
      "normalizeSourceDisplayLabel env v fb ctx = boundUtf16 (cleanText t) (lim_labelLength RESOLUTION_LIMITS)"
      "boundUtf16 (cleanText t) (lim_labelLength RESOLUTION_LIMITS) \<noteq> []"
    using d unfolding Some by (metis (full_types))
  then show thesis using fallback shown [OF Some] by cases
qed (simp add: fallback normalizeSourceDisplayLabel_def)

lemma neutral_units:
  assumes "isNeutralDisplayLabel env t e ctx"
  shows "0x2f \<notin> set t" "0x5c \<notin> set t" "0x25 \<notin> set t" "list_all (isDisplayCharacter env) (characters t)"
  using assms by (simp_all add: isNeutralDisplayLabel_def isSensitiveDisplayMetadata_def)

lemma normalized_label_public:
  assumes "public_label fb" shows "public_label (normalizeSourceDisplayLabel env v fb ctx)"
proof (cases rule: normalizeSourceDisplayLabel_cases [of env v fb ctx])
  case (shown t)
  note n = neutral_units [OF shown(2)] and c = cleanText_units [of _ t]
    and s = set_boundUtf16 [of "cleanText t" "lim_labelLength RESOLUTION_LIMITS"]
  have "1 \<le> length (boundUtf16 (cleanText t) (lim_labelLength RESOLUTION_LIMITS))"
    using shown(4) by (cases "boundUtf16 (cleanText t) (lim_labelLength RESOLUTION_LIMITS)") auto
  then show ?thesis unfolding shown(3) public_label_def text_between_def
    using n(1-3) c s length_boundUtf16 by blast
qed (use assms in simp)

lemma normalized_label_displayed:
  "normalizeSourceDisplayLabel env v fb ctx = fb \<or>
   list_all (isDisplayCharacter env) (characters (normalizeSourceDisplayLabel env v fb ctx))"
proof (cases rule: normalizeSourceDisplayLabel_cases [of env v fb ctx])
  case (shown t)
  obtain k where "characters (boundUtf16 (cleanText t) (lim_labelLength RESOLUTION_LIMITS)) =
      take k (characters (cleanText t))"
    using characters_boundUtf16 by blast
  then show ?thesis using neutral_units(4) [OF shown(2)] shown(3)
    by (auto simp: list_all_iff dest: in_set_takeD)
qed simp

lemma sourceDocumentLabel_public: "public_label (sourceDocumentLabel env uri)"
  by (auto simp: sourceDocumentLabel_def public_untitled normalized_label_public split: option.splits)

lemma languageId_bounds:
  "text_between 1 (lim_languageIdLength RESOLUTION_LIMITS) (normalizeLanguageId v)"
proof (cases v)
  case (Some t)
  let ?b = "boundUtf16 (cleanText t) (lim_languageIdLength RESOLUTION_LIMITS)"
  have "text_between 1 (lim_languageIdLength RESOLUTION_LIMITS) ?b" if "?b \<noteq> []"
    using that length_boundUtf16 [of "cleanText t" "lim_languageIdLength RESOLUTION_LIMITS"]
    by (cases ?b) (simp_all add: text_between_def)
  then show ?thesis using Some
    by (auto simp: normalizeLanguageId_def Let_def text_between_def RESOLUTION_LIMITS_def)
qed (simp add: normalizeLanguageId_def text_between_def RESOLUTION_LIMITS_def)

end
