(* ===== verification/Source_Excerpts.thy ===== *)
theory Source_Excerpts
  imports Source_Labels Text_Offsets Envelope_Text Rules_Authority
begin

text \<open>
  \<^verbatim>\<open>extensions/vscode/src/presenter/sourceExcerptRegistry.ts\<close>: the excerpts of the active document
  that the IDE shows in the browser panel, and which of them the panel may ask the IDE to open.
  The comparison of plugin ids by locale, the supply of match ids and the measure of the envelope
  are parameters. A call into VS Code that may throw gives an option, \<open>None\<close> when it throws.
\<close>

subsection \<open>Documents\<close>

record text_document =
  td_uri :: "jstring option"
  td_languageId :: jstring
  td_version :: int
  td_getText :: "jstring option"

record plugin_document =
  pd_uri :: jstring
  pd_languageId :: jstring
  pd_version :: int
  pd_positionAt :: "int \<Rightarrow> source_position option"
  pd_offsetAt :: "source_position \<Rightarrow> jsnum option"

fun js_real_of :: "jsnum \<Rightarrow> js_real" where
  "js_real_of (JInt n) = Finite (of_int n)"
| "js_real_of JNonInt = NotFinite"

text \<open>\<^verbatim>\<open>adaptSourceDocument\<close>; a fraction never reaches the adapted functions here.\<close>

definition adapted :: "jstring \<Rightarrow> jstring \<Rightarrow> int \<Rightarrow> jstring \<Rightarrow> plugin_document" where
  "adapted uri languageId version t =
     \<lparr>pd_uri = uri, pd_languageId = languageId, pd_version = version,
      pd_positionAt = (\<lambda>offset. let p = positionAt t (Finite (of_int offset))
         in Some \<lparr>sp_line = JInt (int (fst p)), sp_character = JInt (int (snd p))\<rparr>),
      pd_offsetAt = (\<lambda>p. Some (JInt (int (offsetAt t (js_real_of (sp_line p), js_real_of (sp_character p))))))\<rparr>"

definition adaptSourceDocument :: "text_document \<Rightarrow> plugin_document option" where
  "adaptSourceDocument d =
     (case td_getText d of None \<Rightarrow> None
      | Some t \<Rightarrow> (case td_uri d of None \<Rightarrow> None
          | Some uri \<Rightarrow> Some (adapted uri (td_languageId d) (td_version d) t)))"

subsection \<open>Matches\<close>

datatype label_provenance = BuiltinStyleSelector | PluginLabel

record resolved_match =
  rm_targetRole :: target_role
  rm_range :: source_range
  rm_label :: "jstring option"
  rm_kind :: "jstring option"
  rm_relation :: "jstring option"
  rm_confidence :: excerpt_confidence
  rm_pluginId :: jstring
  rm_labelProvenance :: "label_provenance option"

record source_resolution =
  sr_selectionMessageId :: jstring
  sr_documentUri :: jstring
  sr_documentVersion :: int
  sr_matches :: "resolved_match list"

record valid_match =
  vm_match :: resolved_match
  vm_startOffset :: nat
  vm_endOffset :: nat

fun js_nonneg :: "jsnum \<Rightarrow> bool" where
  "js_nonneg (JInt n) = (0 \<le> n)"
| "js_nonneg JNonInt = False"

definition validPosition :: "source_position \<Rightarrow> bool" where
  "validPosition p \<longleftrightarrow> js_nonneg (sp_line p) \<and> js_nonneg (sp_character p)"

text \<open>Strict equality of numbers; a number that is no integer is never met on the right.\<close>

fun js_same :: "jsnum \<Rightarrow> jsnum \<Rightarrow> bool" where
  "js_same (JInt m) (JInt n) = (m = n)"
| "js_same _ _ = False"

definition samePosition :: "source_position \<Rightarrow> source_position \<Rightarrow> bool" where
  "samePosition l r \<longleftrightarrow> js_same (sp_line l) (sp_line r) \<and> js_same (sp_character l) (sp_character r)"

definition validOffsets :: "source_range \<Rightarrow> plugin_document \<Rightarrow> (nat \<times> nat) option" where
  "validOffsets r d =
     (if \<not> validPosition (sr_start r) \<or> \<not> validPosition (sr_end r) then None
      else (case (pd_offsetAt d (sr_start r), pd_offsetAt d (sr_end r)) of
          (Some (JInt startOffset), Some (JInt endOffset)) \<Rightarrow>
            if startOffset < 0 \<or> startOffset \<ge> endOffset then None
            else (case pd_positionAt d startOffset of None \<Rightarrow> None
              | Some p \<Rightarrow>
                  if \<not> samePosition p (sr_start r) then None
                  else (case pd_positionAt d endOffset of None \<Rightarrow> None
                    | Some q \<Rightarrow>
                        if \<not> samePosition q (sr_end r) then None
                        else Some (nat startOffset, nat endOffset)))
        | _ \<Rightarrow> None))"

definition validMatches :: "resolved_match list \<Rightarrow> plugin_document \<Rightarrow> valid_match list" where
  "validMatches matches d = List.map_filter (\<lambda>m. case validOffsets (rm_range m) d of
     None \<Rightarrow> None
   | Some (s, e) \<Rightarrow> Some \<lparr>vm_match = m, vm_startOffset = s, vm_endOffset = e\<rparr>) matches"

subsection \<open>Order\<close>

fun CONFIDENCE_PRIORITY :: "excerpt_confidence \<Rightarrow> int" where
  "CONFIDENCE_PRIORITY Exact = 0"
| "CONFIDENCE_PRIORITY Sourcemap = 1"
| "CONFIDENCE_PRIORITY Instrumented = 2"
| "CONFIDENCE_PRIORITY Heuristic = 3"
| "CONFIDENCE_PRIORITY Unknown = 4"

definition rolePriority :: "resolved_match \<Rightarrow> int" where
  "rolePriority m = (if rm_targetRole m = Selected then 0 else 1)"

text \<open>\<^verbatim>\<open>a || b\<close> on numbers.\<close>

definition or_else :: "int \<Rightarrow> int \<Rightarrow> int" where
  "or_else a b = (if a \<noteq> 0 then a else b)"

fun js_int :: "jsnum \<Rightarrow> int" where
  "js_int (JInt n) = n"
| "js_int JNonInt = 0"

definition comparePositions :: "source_position \<Rightarrow> source_position \<Rightarrow> int" where
  "comparePositions l r = or_else (js_int (sp_line l) - js_int (sp_line r))
     (js_int (sp_character l) - js_int (sp_character r))"

definition compareRanges :: "source_range \<Rightarrow> source_range \<Rightarrow> int" where
  "compareRanges l r = or_else (comparePositions (sr_start l) (sr_start r))
     (comparePositions (sr_end l) (sr_end r))"

definition compareValidMatches :: "(jstring \<Rightarrow> jstring \<Rightarrow> int) \<Rightarrow> valid_match \<Rightarrow> valid_match \<Rightarrow> int" where
  "compareValidMatches localeCompare l r =
     or_else (rolePriority (vm_match l) - rolePriority (vm_match r))
       (or_else (compareRanges (rm_range (vm_match l)) (rm_range (vm_match r)))
         (or_else (CONFIDENCE_PRIORITY (rm_confidence (vm_match l)) -
                   CONFIDENCE_PRIORITY (rm_confidence (vm_match r)))
           (localeCompare (rm_pluginId (vm_match l)) (rm_pluginId (vm_match r)))))"

text \<open>\<^verbatim>\<open>Array.prototype.sort\<close>, which is stable.\<close>

fun insert_sorted :: "('a \<Rightarrow> 'a \<Rightarrow> int) \<Rightarrow> 'a \<Rightarrow> 'a list \<Rightarrow> 'a list" where
  "insert_sorted cmp x [] = [x]"
| "insert_sorted cmp x (y # ys) = (if cmp x y \<le> 0 then x # y # ys else y # insert_sorted cmp x ys)"

definition sort_stable :: "('a \<Rightarrow> 'a \<Rightarrow> int) \<Rightarrow> 'a list \<Rightarrow> 'a list" where
  "sort_stable cmp xs = foldr (insert_sorted cmp) xs []"

text \<open>The JSON text of the four numbers identifies them; the numbers stand for it.\<close>

definition rangeKey :: "source_range \<Rightarrow> int \<times> int \<times> int \<times> int" where
  "rangeKey r = (js_int (sp_line (sr_start r)), js_int (sp_character (sr_start r)),
     js_int (sp_line (sr_end r)), js_int (sp_character (sr_end r)))"

fun unique_by :: "('a \<Rightarrow> 'k) \<Rightarrow> ('k, 'a) jmap \<Rightarrow> 'a list \<Rightarrow> ('k, 'a) jmap" where
  "unique_by key m [] = m"
| "unique_by key m (x # xs) =
     unique_by key (if jget m (key x) = None then jset (key x) x m else m) xs"

definition deduplicateAndOrder ::
  "(jstring \<Rightarrow> jstring \<Rightarrow> int) \<Rightarrow> valid_match list \<Rightarrow> valid_match list" where
  "deduplicateAndOrder localeCompare matches =
     map snd (unique_by (\<lambda>e. rangeKey (rm_range (vm_match e))) []
       (sort_stable (compareValidMatches localeCompare) matches))"

subsection \<open>Bounded text\<close>

text \<open>At most \<open>k\<close> more line endings; the text is cut before the next one.\<close>

fun bound_lines :: "nat \<Rightarrow> jstring \<Rightarrow> jstring \<times> bool" where
  "bound_lines k [] = ([], False)"
| "bound_lines k (c # cs) =
     (if c = 0x0d then
        (case k of 0 \<Rightarrow> ([], True)
         | Suc k' \<Rightarrow>
             (case cs of
                d # cs' \<Rightarrow>
                  if d = 0x0a then (case bound_lines k' cs' of (t, b) \<Rightarrow> (c # d # t, b))
                  else (case bound_lines k' cs of (t, b) \<Rightarrow> (c # t, b))
              | [] \<Rightarrow> ([c], False)))
      else if c = 0x0a then
        (case k of 0 \<Rightarrow> ([], True)
         | Suc k' \<Rightarrow> (case bound_lines k' cs of (t, b) \<Rightarrow> (c # t, b)))
      else (case bound_lines k cs of (t, b) \<Rightarrow> (c # t, b)))"

definition boundLogicalLines :: "jstring \<Rightarrow> nat \<Rightarrow> jstring \<times> bool" where
  "boundLogicalLines t maximumLines = bound_lines (maximumLines - 1) t"

definition safe_scalar :: "jstring \<Rightarrow> jstring" where
  "safe_scalar x = (case x of [c] \<Rightarrow> if high_surrogate c \<or> low_surrogate c then [0xfffd] else x | _ \<Rightarrow> x)"

fun bound_scalars :: "nat \<Rightarrow> nat \<Rightarrow> jstring list \<Rightarrow> jstring \<times> bool" where
  "bound_scalars maximumBytes bytes [] = ([], False)"
| "bound_scalars maximumBytes bytes (x # xs) =
     (let scalarBytes = length (buffer_from (safe_scalar x))
      in if bytes + scalarBytes > maximumBytes then ([], True)
         else (case bound_scalars maximumBytes (bytes + scalarBytes) xs of
             (t, b) \<Rightarrow> (safe_scalar x @ t, b)))"

definition boundUtf8 :: "jstring \<Rightarrow> nat \<Rightarrow> jstring \<times> bool" where
  "boundUtf8 t maximumBytes = bound_scalars maximumBytes 0 (characters t)"

definition boundedExcerpt :: "jstring \<Rightarrow> jstring \<times> bool" where
  "boundedExcerpt t =
     (let (lt, lb) = boundLogicalLines t (lim_textLines SOURCE_PRESENTATION_LIMITS);
          (bt, bb) = boundUtf8 lt (lim_textBytes SOURCE_PRESENTATION_LIMITS)
      in (bt, lb \<or> bb))"

subsection \<open>The registry\<close>

record excerpt_authority =
  sa_matchId :: jstring
  sa_inspectMessageId :: jstring
  sa_resolutionGeneration :: int
  sa_documentUri :: jstring
  sa_documentVersion :: int
  sa_range :: source_range

record source_matches_input =
  smi_inspectMessageId :: jstring
  smi_resolutionGeneration :: int
  smi_document :: source_document
  smi_matches :: "source_excerpt list"
  smi_omittedMatchCount :: nat

record excerpt_navigation_match =
  nm_matchId :: jstring
  nm_targetRole :: target_role
  nm_range :: source_range

record excerpt_publication =
  xp_message :: source_matches_input
  xp_navigationMatches :: "excerpt_navigation_match list"
  xp_excerptReadFailed :: bool

record publication_input =
  pin_inspectMessageId :: jstring
  pin_resolutionGeneration :: int
  pin_document :: text_document
  pin_sourceDocument :: "plugin_document option"
  pin_resolution :: source_resolution

record current_source =
  cs_inspectMessageId :: jstring
  cs_resolutionGeneration :: int
  cs_document :: source_document

record publication_candidate =
  pc_excerpt :: source_excerpt
  pc_authority :: excerpt_authority
  pc_navigationMatch :: excerpt_navigation_match

text \<open>\<open>xr_nextId\<close> counts the calls of the supply \<open>xe_createMatchId\<close>: a call that throws or gives no
  string is \<open>None\<close>. The measure may throw as well.\<close>

record excerpt_env =
  xe_label :: label_env
  xe_localeCompare :: "jstring \<Rightarrow> jstring \<Rightarrow> int"
  xe_createMatchId :: "nat \<Rightarrow> jstring option"
  xe_measure :: "source_matches_input \<Rightarrow> js_real option"

record excerpt_registry =
  xr_authorities :: "(jstring, excerpt_authority) jmap"
  xr_current :: "current_source option"
  xr_nextId :: nat

definition new_SourceExcerptRegistry :: excerpt_registry where
  "new_SourceExcerptRegistry = \<lparr>xr_authorities = [], xr_current = None, xr_nextId = 0\<rparr>"

definition MATCH_ID_GENERATION_ATTEMPTS :: nat where
  "MATCH_ID_GENERATION_ATTEMPTS = 16"

definition unknownDocument :: source_document where
  "unknownDocument = \<lparr>doc_label = js ''untitled'', doc_languageId = js ''unknown''\<rparr>"

definition publicDocument :: "label_env \<Rightarrow> jstring \<Rightarrow> jstring \<Rightarrow> source_document" where
  "publicDocument env uri languageId =
     \<lparr>doc_label = sourceDocumentLabel env (Some uri), doc_languageId = normalizeLanguageId (Some languageId)\<rparr>"

definition sourceState :: "label_env \<Rightarrow> publication_input \<Rightarrow> current_source option" where
  "sourceState env input =
     map_option (\<lambda>d. \<lparr>cs_inspectMessageId = pin_inspectMessageId input,
         cs_resolutionGeneration = pin_resolutionGeneration input, cs_document = d\<rparr>)
       (case pin_sourceDocument input of
          Some d \<Rightarrow> Some (publicDocument env (pd_uri d) (pd_languageId d))
        | None \<Rightarrow> map_option (\<lambda>uri. publicDocument env uri (td_languageId (pin_document input)))
            (td_uri (pin_document input)))"

definition matchesActiveDocumentIdentity :: "publication_input \<Rightarrow> bool option" where
  "matchesActiveDocumentIdentity input =
     (if sr_selectionMessageId (pin_resolution input) \<noteq> pin_inspectMessageId input then Some False
      else map_option (\<lambda>uri. sr_documentUri (pin_resolution input) = uri \<and>
          sr_documentVersion (pin_resolution input) = td_version (pin_document input))
        (td_uri (pin_document input)))"

definition matchesSourceDocument :: "source_resolution \<Rightarrow> plugin_document \<Rightarrow> bool" where
  "matchesSourceDocument r d \<longleftrightarrow> sr_documentUri r = pd_uri d \<and> sr_documentVersion r = pd_version d"

definition validOpaqueId :: "jstring option \<Rightarrow> jstring option" where
  "validOpaqueId v = (case v of None \<Rightarrow> None
     | Some t \<Rightarrow> if 0 < length t \<and> length t \<le> lim_opaqueIdLength RESOLUTION_LIMITS then Some t else None)"

fun allocate_attempts :: "nat \<Rightarrow> (nat \<Rightarrow> jstring option) \<Rightarrow> nat \<Rightarrow> jstring list \<Rightarrow> jstring option \<times> nat" where
  "allocate_attempts 0 create n used = (None, n)"
| "allocate_attempts (Suc k) create n used =
     (case validOpaqueId (create n) of
        None \<Rightarrow> allocate_attempts k create (Suc n) used
      | Some candidate \<Rightarrow>
          if candidate \<in> set used then allocate_attempts k create (Suc n) used
          else (Some candidate, Suc n))"

definition allocateMatchId :: "excerpt_env \<Rightarrow> nat \<Rightarrow> jstring list \<Rightarrow> jstring option \<times> nat" where
  "allocateMatchId env n used = allocate_attempts MATCH_ID_GENERATION_ATTEMPTS (xe_createMatchId env) n used"

definition js_slice :: "jstring \<Rightarrow> nat \<Rightarrow> nat \<Rightarrow> jstring" where
  "js_slice t s e = take (e - s) (drop s t)"

definition createCandidate ::
  "label_env \<Rightarrow> current_source \<Rightarrow> publication_input \<Rightarrow> valid_match \<Rightarrow> jstring \<Rightarrow> jstring \<Rightarrow> publication_candidate" where
  "createCandidate env current input entry documentText matchId =
     (let m = vm_match entry;
          bounded = boundedExcerpt (js_slice documentText (vm_startOffset entry) (vm_endOffset entry));
          kind = normalizeSourceKind (rm_kind m);
          relation = normalizeSourceRelation (rm_relation m)
      in \<lparr>pc_excerpt = \<lparr>ex_matchId = matchId, ex_targetRole = rm_targetRole m,
            ex_label = normalizeSourceDisplayLabel env (rm_label m) (doc_label (cs_document current))
              \<lparr>lc_kind = kind, lc_relation = relation,
               lc_trustedStyleSelector = (rm_labelProvenance m = Some BuiltinStyleSelector)\<rparr>,
            ex_kind = kind, ex_relation = relation, ex_confidence = rm_confidence m,
            ex_startLine = js_int (sp_line (sr_start (rm_range m))) + 1,
            ex_endLine = js_int (sp_line (sr_end (rm_range m))) + 1,
            ex_text = fst bounded, ex_truncated = snd bounded\<rparr>,
          pc_authority = \<lparr>sa_matchId = matchId, sa_inspectMessageId = pin_inspectMessageId input,
            sa_resolutionGeneration = pin_resolutionGeneration input,
            sa_documentUri = sr_documentUri (pin_resolution input),
            sa_documentVersion = sr_documentVersion (pin_resolution input), sa_range = rm_range m\<rparr>,
          pc_navigationMatch = \<lparr>nm_matchId = matchId, nm_targetRole = rm_targetRole m, nm_range = rm_range m\<rparr>\<rparr>)"

fun create_candidates ::
  "excerpt_env \<Rightarrow> current_source \<Rightarrow> publication_input \<Rightarrow> jstring \<Rightarrow> nat \<Rightarrow> jstring list \<Rightarrow> valid_match list \<Rightarrow>
   publication_candidate list option \<times> nat" where
  "create_candidates env current input t n used [] = (Some [], n)"
| "create_candidates env current input t n used (e # es) =
     (case allocateMatchId env n used of
        (None, n') \<Rightarrow> (None, n')
      | (Some matchId, n') \<Rightarrow>
          (case create_candidates env current input t n' (matchId # used) es of
             (None, n'') \<Rightarrow> (None, n'')
           | (Some cs, n'') \<Rightarrow>
               (Some (createCandidate (xe_label env) current input e t matchId # cs), n'')))"

definition source_message :: "current_source \<Rightarrow> source_excerpt list \<Rightarrow> nat \<Rightarrow> source_matches_input" where
  "source_message current matches omitted =
     \<lparr>smi_inspectMessageId = cs_inspectMessageId current,
      smi_resolutionGeneration = cs_resolutionGeneration current,
      smi_document = cs_document current, smi_matches = matches, smi_omittedMatchCount = omitted\<rparr>"

definition emptyPublication :: "current_source \<Rightarrow> bool \<Rightarrow> nat \<Rightarrow> excerpt_publication" where
  "emptyPublication current excerptReadFailed omitted =
     \<lparr>xp_message = source_message current [] omitted, xp_navigationMatches = [],
      xp_excerptReadFailed = excerptReadFailed\<rparr>"

definition fitsEnvelope :: "excerpt_env \<Rightarrow> current_source \<Rightarrow> publication_candidate list \<Rightarrow> nat \<Rightarrow> bool" where
  "fitsEnvelope env current candidates omitted =
     (case xe_measure env (source_message current (map pc_excerpt candidates) omitted) of
        Some (Finite bytes) \<Rightarrow> bytes \<le> of_nat SOURCE_PRESENTATION_ENVELOPE_MAX_BYTES
      | _ \<Rightarrow> False)"

function drop_until_fits ::
  "excerpt_env \<Rightarrow> current_source \<Rightarrow> publication_candidate list \<Rightarrow> nat \<Rightarrow> publication_candidate list \<times> nat" where
  "drop_until_fits env current included omitted =
     (if included \<noteq> [] \<and> \<not> fitsEnvelope env current included omitted
      then drop_until_fits env current (butlast included) (omitted + 1)
      else (included, omitted))"
  by pat_completeness auto
termination
  by (relation "measure (\<lambda>(env, current, included, omitted). length included)") auto

declare drop_until_fits.simps [simp del]

definition publish_included ::
  "excerpt_env \<Rightarrow> current_source \<Rightarrow> publication_candidate list \<Rightarrow> nat \<Rightarrow>
   excerpt_publication \<times> (jstring, excerpt_authority) jmap" where
  "publish_included env current candidates uniqueCount =
     (let (fitted, fittedOmitted) = drop_until_fits env current candidates (uniqueCount - length candidates);
          fits = fitsEnvelope env current fitted fittedOmitted;
          included = (if fits then fitted else []);
          omitted = (if fits then fittedOmitted else uniqueCount)
      in (\<lparr>xp_message = source_message current (map pc_excerpt included) omitted,
           xp_navigationMatches = map pc_navigationMatch included, xp_excerptReadFailed = False\<rparr>,
          foldl (\<lambda>m c. jset (sa_matchId (pc_authority c)) (pc_authority c) m) [] included))"

definition publish_valid ::
  "excerpt_env \<Rightarrow> current_source \<Rightarrow> publication_input \<Rightarrow> nat \<Rightarrow> valid_match list \<Rightarrow> jstring option \<Rightarrow>
   excerpt_publication \<times> (jstring, excerpt_authority) jmap \<times> nat" where
  "publish_valid env current input n valid documentText =
     (case documentText of None \<Rightarrow> (emptyPublication current True 0, [], n)
      | Some t \<Rightarrow>
          let unique = deduplicateAndOrder (xe_localeCompare env) valid
          in (case create_candidates env current input t n []
                (take (lim_matches SOURCE_PRESENTATION_LIMITS) unique) of
                (None, n') \<Rightarrow> (emptyPublication current False (length unique), [], n')
              | (Some candidates, n') \<Rightarrow>
                  (case publish_included env current candidates (length unique) of
                     (p, as) \<Rightarrow> (p, as, n'))))"

text \<open>\<^verbatim>\<open>publish\<close> after its document is known: the publication, the authorities and the ids used.\<close>

definition publish_current ::
  "excerpt_env \<Rightarrow> current_source \<Rightarrow> publication_input \<Rightarrow> nat \<Rightarrow>
   excerpt_publication \<times> (jstring, excerpt_authority) jmap \<times> nat" where
  "publish_current env current input n =
     (if matchesActiveDocumentIdentity input \<noteq> Some True then (emptyPublication current False 0, [], n)
      else (case (case pin_sourceDocument input of Some d \<Rightarrow> Some d
                  | None \<Rightarrow> adaptSourceDocument (pin_document input)) of
          None \<Rightarrow> (emptyPublication current True 0, [], n)
        | Some d \<Rightarrow>
            if \<not> matchesSourceDocument (pin_resolution input) d
            then (emptyPublication current False 0, [], n)
            else let valid = validMatches (sr_matches (pin_resolution input)) d
              in if valid = [] then (emptyPublication current False 0, [], n)
                 else publish_valid env current input n valid (td_getText (pin_document input))))"

definition publish :: "excerpt_env \<Rightarrow> publication_input \<Rightarrow> excerpt_registry \<Rightarrow> excerpt_publication \<times> excerpt_registry" where
  "publish env input reg =
     (case sourceState (xe_label env) input of
        None \<Rightarrow>
          let current = \<lparr>cs_inspectMessageId = pin_inspectMessageId input,
                cs_resolutionGeneration = pin_resolutionGeneration input, cs_document = unknownDocument\<rparr>
          in (emptyPublication current False 0, reg\<lparr>xr_authorities := [], xr_current := Some current\<rparr>)
      | Some current \<Rightarrow>
          (case publish_current env current input (xr_nextId reg) of
             (p, as, n) \<Rightarrow> (p, reg\<lparr>xr_authorities := as, xr_current := Some current, xr_nextId := n\<rparr>)))"

record excerpt_invalidation =
  xi_inspectMessageId :: jstring
  xi_resolutionGeneration :: int
  xi_document :: "text_document option"

definition invalidate ::
  "excerpt_env \<Rightarrow> excerpt_invalidation option \<Rightarrow> excerpt_registry \<Rightarrow> source_matches_input option \<times> excerpt_registry" where
  "invalidate env invalidation reg =
     (let current = (case invalidation of None \<Rightarrow> xr_current reg
        | Some i \<Rightarrow> Some \<lparr>cs_inspectMessageId = xi_inspectMessageId i,
            cs_resolutionGeneration = xi_resolutionGeneration i,
            cs_document = (case xi_document i of None \<Rightarrow> unknownDocument
              | Some d \<Rightarrow> (case td_uri d of None \<Rightarrow> unknownDocument
                  | Some uri \<Rightarrow> publicDocument (xe_label env) uri (td_languageId d)))\<rparr>)
      in (map_option (\<lambda>c. source_message c [] 0) current,
          reg\<lparr>xr_authorities := [], xr_current := current\<rparr>))"

text \<open>\<open>None\<close> when reading the address of the active document throws.\<close>

definition resolveOpen ::
  "excerpt_registry \<Rightarrow> source_open_message \<Rightarrow> text_document \<Rightarrow> excerpt_authority option option" where
  "resolveOpen reg m activeDocument =
     (case xr_current reg of None \<Rightarrow> Some None
      | Some current \<Rightarrow>
          if inspectMessageId m \<noteq> cs_inspectMessageId current \<or>
             so_resolutionGeneration m \<noteq> cs_resolutionGeneration current
          then Some None
          else (case jget (xr_authorities reg) (so_matchId m) of None \<Rightarrow> Some None
            | Some a \<Rightarrow>
                if sa_inspectMessageId a \<noteq> inspectMessageId m \<or>
                   sa_resolutionGeneration a \<noteq> so_resolutionGeneration m
                then Some None
                else (case td_uri activeDocument of None \<Rightarrow> None
                  | Some uri \<Rightarrow>
                      if sa_documentUri a \<noteq> uri \<or> sa_documentVersion a \<noteq> td_version activeDocument
                      then Some None else Some (Some a))))"

subsection \<open>The envelope\<close>

fun target_role_text :: "target_role \<Rightarrow> string" where
  "target_role_text Selected = ''selected''"
| "target_role_text Parent = ''parent''"

fun confidence_text :: "excerpt_confidence \<Rightarrow> string" where
  "confidence_text Exact = ''exact''"
| "confidence_text Sourcemap = ''sourcemap''"
| "confidence_text Instrumented = ''instrumented''"
| "confidence_text Heuristic = ''heuristic''"
| "confidence_text Unknown = ''unknown''"

text \<open>The name under which a value stands in one of the tables of names.\<close>

definition name_in :: "(jstring \<times> 'a) list \<Rightarrow> 'a \<Rightarrow> jstring" where
  "name_in table v = (case filter (\<lambda>p. snd p = v) table of [] \<Rightarrow> [] | p # _ \<Rightarrow> fst p)"

definition excerpt_text :: "source_excerpt \<Rightarrow> jstring" where
  "excerpt_text e = json_object_text
     [(''matchId'', json_quote (ex_matchId e)),
      (''targetRole'', json_quote (js (target_role_text (ex_targetRole e)))),
      (''label'', json_quote (ex_label e)),
      (''kind'', json_quote (name_in SOURCE_KINDS (ex_kind e))),
      (''relation'', json_quote (name_in SOURCE_RELATIONS (ex_relation e))),
      (''confidence'', json_quote (js (confidence_text (ex_confidence e)))),
      (''startLine'', json_int (ex_startLine e)),
      (''endLine'', json_int (ex_endLine e)),
      (''text'', json_quote (ex_text e)),
      (''truncated'', json_bool (ex_truncated e))]"

definition document_text :: "source_document \<Rightarrow> jstring" where
  "document_text d = json_object_text
     [(''label'', json_quote (doc_label d)), (''languageId'', json_quote (doc_languageId d))]"

definition source_matches_text :: "jstring \<Rightarrow> jstring \<Rightarrow> jstring \<Rightarrow> source_matches_input \<Rightarrow> jstring" where
  "source_matches_text mid sid src m = json_object_text
     [(''protocolVersion'', json_int PROTOCOL_VERSION),
      (''type'', json_quote (js ''source.matches'')),
      (''messageId'', json_quote mid),
      (''sessionId'', json_quote sid),
      (''source'', json_object_text [(''role'', json_quote (js ''ide'')), (''id'', json_quote src)]),
      (''inspectMessageId'', json_quote (smi_inspectMessageId m)),
      (''resolutionGeneration'', json_int (smi_resolutionGeneration m)),
      (''document'', document_text (smi_document m)),
      (''matches'', json_array_text (map excerpt_text (smi_matches m))),
      (''omittedMatchCount'', json_int (int (smi_omittedMatchCount m))),
      (''metadata'', json_object_text [])]"

definition MAX_ESCAPED_OPAQUE_ID :: jstring where
  "MAX_ESCAPED_OPAQUE_ID = replicate (lim_opaqueIdLength RESOLUTION_LIMITS) 0"

definition conservativeEnvelopeBytes :: "source_matches_input \<Rightarrow> nat" where
  "conservativeEnvelopeBytes m = length (buffer_from
     (source_matches_text MAX_ESCAPED_OPAQUE_ID MAX_ESCAPED_OPAQUE_ID MAX_ESCAPED_OPAQUE_ID m))"

text \<open>What the bridge client of the IDE makes of it.\<close>

definition createSourceMatchesMessage ::
  "jstring \<Rightarrow> jstring \<Rightarrow> jstring \<Rightarrow> source_matches_input \<Rightarrow> source_matches_message" where
  "createSourceMatchesMessage mid sid src m =
     \<lparr>messageId = mid, sessionId = sid, inspectMessageId = smi_inspectMessageId m,
      sm_sourceId = src, sm_resolutionGeneration = smi_resolutionGeneration m,
      sm_document = smi_document m, sm_matches = smi_matches m,
      sm_omittedMatchCount = int (smi_omittedMatchCount m)\<rparr>"

end
