(* ===== verification/Source_Excerpts_Bounds.thy ===== *)
theory Source_Excerpts_Bounds
  imports Source_Excerpts
begin

text \<open>
  The bounds of \<^verbatim>\<open>sourceExcerptRegistry.ts\<close>: an excerpt is cut to the lines and bytes the protocol
  allows, the envelope that is measured is at least as long as any that is sent, and a range that
  passed the checks of an adapted document lies on lines of its text.
\<close>

subsection \<open>Lines\<close>

text \<open>The line endings of a text; the flag tells whether a carriage return stands before it.\<close>

fun line_endings :: "bool \<Rightarrow> jstring \<Rightarrow> nat" where
  "line_endings cr [] = 0"
| "line_endings cr (c # cs) =
     (if c = 0x0d then Suc (line_endings True cs)
      else if c = 0x0a then (if cr then 0 else 1) + line_endings False cs
      else line_endings False cs)"

lemma line_endings_cr: "line_endings True t \<le> line_endings False t" "line_endings False t \<le> Suc (line_endings True t)"
  by (cases t; simp)+

lemma logical_lines_endings: "logical_lines t = Suc (line_endings False t)"
proof (induction t rule: logical_lines.induct)
  case (2 c cs)
  then show ?case by (cases cs) auto
qed simp

lemma bound_lines_endings: "line_endings False (fst (bound_lines k t)) \<le> k"
proof (induction k t rule: bound_lines.induct)
  case (2 k c cs)
  show ?case
  proof (cases "c = 0x0d")
    case cr: True
    show ?thesis
    proof (cases k)
      case (Suc k')
      show ?thesis
      proof (cases cs)
        case (Cons d cs')
        show ?thesis
        proof (cases "d = 0x0a")
          case True
          then show ?thesis using "2.IH"(1) [OF cr Suc Cons True] cr Suc Cons
            by (cases "bound_lines k' cs'") simp
        next
          case False
          then have "line_endings False (fst (bound_lines k' cs)) \<le> k'"
            using "2.IH"(2) [OF cr Suc Cons False] by simp
          then show ?thesis using False cr Suc Cons line_endings_cr(1) [of "fst (bound_lines k' cs)"]
            by (cases "bound_lines k' cs") simp
        qed
      qed (use cr Suc in simp)
    qed (use cr in simp)
  next
    case nocr: False
    show ?thesis
    proof (cases "c = 0x0a")
      case lf: True
      then show ?thesis using "2.IH"(3) [OF nocr lf]
        by (cases k; cases "bound_lines (k - 1) cs") simp_all
    next
      case False
      then show ?thesis using "2.IH"(4) [OF nocr False] nocr
        by (cases "bound_lines k cs") simp
    qed
  qed
qed simp

lemma safe_scalar_cases:
  assumes "x \<in> set (characters t)"
  obtains (same) c where "x = [c]" "safe_scalar x = [c]" "\<not> high_surrogate c" "\<not> low_surrogate c"
  | (lone) c where "x = [c]" "safe_scalar x = [0xfffd]" "high_surrogate c \<or> low_surrogate c"
  | (pair) c d where "x = [c, d]" "safe_scalar x = [c, d]" "high_surrogate c" "low_surrogate d"
  using assms
proof (induction t arbitrary: thesis rule: characters.induct)
  case (2 c rest)
  show ?case
  proof (cases rest)
    case Nil
    then have "x = [c]" using "2.prems" by simp
    then show ?thesis using "2.prems"(1-3) by (cases "high_surrogate c \<or> low_surrogate c") (auto simp: safe_scalar_def)
  next
    case (Cons d r)
    show ?thesis
    proof (cases "high_surrogate c \<and> low_surrogate d")
      case True
      then consider "x = [c, d]" | "x \<in> set (characters r)" using "2.prems"(4) Cons by auto
      then show ?thesis
      proof cases
        case 1
        then show ?thesis using "2.prems"(3) True by (auto simp: safe_scalar_def)
      next
        case 2
        show ?thesis by (rule "2.IH"(1) [OF Cons True]) (use "2.prems" 2 in auto)
      qed
    next
      case False
      then consider "x = [c]" | "x \<in> set (characters rest)" using "2.prems"(4) Cons by auto
      then show ?thesis
      proof cases
        case 1
        then show ?thesis using "2.prems"(1-3) by (cases "high_surrogate c \<or> low_surrogate c") (auto simp: safe_scalar_def)
      next
        case 2
        show ?thesis by (rule "2.IH"(2) [OF Cons False]) (use "2.prems" 2 in auto)
      qed
    qed
  qed
qed simp

lemma surrogate_no_ending: "high_surrogate c \<or> low_surrogate c \<Longrightarrow> c \<noteq> 0x0d \<and> c \<noteq> 0x0a"
  by (auto simp: high_surrogate_def low_surrogate_def)

lemma bound_scalars_endings:
  "set xs \<subseteq> set (characters t) \<Longrightarrow>
   line_endings cr (fst (bound_scalars m bytes xs)) \<le> line_endings cr (concat xs)"
proof (induction xs arbitrary: cr bytes)
  case (Cons x xs)
  have IH: "line_endings cr' (fst (bound_scalars m bytes' xs)) \<le> line_endings cr' (concat xs)" for cr' bytes'
    using Cons by simp
  have x: "x \<in> set (characters t)" using Cons.prems by simp
  show ?case
  proof (cases "bytes + length (buffer_from (safe_scalar x)) > m")
    case False
    obtain u b where u: "bound_scalars m (bytes + length (buffer_from (safe_scalar x))) xs = (u, b)" by fastforce
    have le: "line_endings cr' u \<le> line_endings cr' (concat xs)" for cr'
      using IH [of cr' "bytes + length (buffer_from (safe_scalar x))"] u by simp
    have r: "fst (bound_scalars m bytes (x # xs)) = safe_scalar x @ u" using False u by simp
    from x show ?thesis
      by (cases rule: safe_scalar_cases) (use r le surrogate_no_ending in auto)
  qed simp
qed simp

subsection \<open>Bytes\<close>

lemma utf8_safe_scalar:
  "x \<in> set (characters t) \<Longrightarrow> whole_start (safe_scalar x)"
  by (erule safe_scalar_cases) (auto simp: whole_start_def low_surrogate_def dest: not_both_surrogates)

lemma bound_scalars_bytes:
  "set xs \<subseteq> set (characters t) \<Longrightarrow> bytes \<le> m \<Longrightarrow>
   bytes + utf8ByteLength (fst (bound_scalars m bytes xs)) \<le> m \<and> whole_start (fst (bound_scalars m bytes xs))"
proof (induction xs arbitrary: bytes)
  case (Cons x xs)
  show ?case
  proof (cases "bytes + length (buffer_from (safe_scalar x)) > m")
    case False
    obtain u b where u: "bound_scalars m (bytes + length (buffer_from (safe_scalar x))) xs = (u, b)" by fastforce
    then have "bytes + length (buffer_from (safe_scalar x)) + utf8ByteLength u \<le> m \<and> whole_start u"
      using Cons.IH [of "bytes + length (buffer_from (safe_scalar x))"] Cons.prems False by simp
    moreover have "whole_start (safe_scalar x)" using Cons.prems by (intro utf8_safe_scalar) auto
    ultimately show ?thesis using False u by (simp add: utf8ByteLength_encoder utf8_append)
  qed (use Cons.prems in simp)
qed simp

lemma boundedExcerpt_bounds:
  "utf8ByteLength (fst (boundedExcerpt t)) \<le> lim_textBytes SOURCE_PRESENTATION_LIMITS"
  "logical_lines (fst (boundedExcerpt t)) \<le> lim_textLines SOURCE_PRESENTATION_LIMITS"
proof -
  obtain lt lb where l: "boundLogicalLines t (lim_textLines SOURCE_PRESENTATION_LIMITS) = (lt, lb)" by fastforce
  obtain bt bb where b: "boundUtf8 lt (lim_textBytes SOURCE_PRESENTATION_LIMITS) = (bt, bb)" by fastforce
  have e: "fst (boundedExcerpt t) = bt" using l b by (simp add: boundedExcerpt_def)
  show "utf8ByteLength (fst (boundedExcerpt t)) \<le> lim_textBytes SOURCE_PRESENTATION_LIMITS"
    using bound_scalars_bytes [of "characters lt" lt 0 "lim_textBytes SOURCE_PRESENTATION_LIMITS"] b e
    by (simp add: boundUtf8_def)
  have "line_endings False bt \<le> line_endings False lt"
    using bound_scalars_endings [of "characters lt" lt False "lim_textBytes SOURCE_PRESENTATION_LIMITS" 0] b
    by (simp add: boundUtf8_def)
  also have "\<dots> \<le> 79"
    using bound_lines_endings [of 79 t] l by (simp add: boundLogicalLines_def SOURCE_PRESENTATION_LIMITS_def)
  finally show "logical_lines (fst (boundedExcerpt t)) \<le> lim_textLines SOURCE_PRESENTATION_LIMITS"
    by (simp add: e logical_lines_endings SOURCE_PRESENTATION_LIMITS_def)
qed

subsection \<open>The envelope\<close>

lemma whole_start_document_text [simp]: "whole_start (document_text d)"
  by (simp add: document_text_def)

lemma source_matches_text_bytes:
  "utf8ByteLength (source_matches_text mid sid src m) =
     utf8ByteLength (json_quote mid) + utf8ByteLength (json_quote sid) + utf8ByteLength (json_quote src) +
     (utf8ByteLength (source_matches_text [] [] [] m) - 6)"
proof -
  have "utf8ByteLength (json_quote []) = 2" using utf8_quote_zeros [of 0] by simp
  then show ?thesis unfolding source_matches_text_def
    by (subst (1 2) utf8_object) (simp_all add: utf8_object)
qed

lemma conservative_envelope:
  assumes "opaqueId mid" "opaqueId sid" "opaqueId src"
  shows "utf8ByteLength (source_matches_text mid sid src m) \<le> conservativeEnvelopeBytes m"
proof -
  let ?n = "lim_opaqueIdLength RESOLUTION_LIMITS"
  have q: "utf8ByteLength (json_quote i) \<le> 6 * ?n + 2" if "opaqueId i" for i
    using utf8_json_quote [of i] that by (simp add: opaqueId_def text_between_def)
  have "conservativeEnvelopeBytes m = 3 * (6 * ?n + 2) + (utf8ByteLength (source_matches_text [] [] [] m) - 6)"
    unfolding conservativeEnvelopeBytes_def utf8ByteLength_encoder
    by (subst source_matches_text_bytes) (simp add: MAX_ESCAPED_OPAQUE_ID_def utf8_quote_zeros)
  moreover have "utf8ByteLength (json_quote mid) + utf8ByteLength (json_quote sid) + utf8ByteLength (json_quote src) \<le>
      3 * (6 * ?n + 2)"
    using q [OF assms(1)] q [OF assms(2)] q [OF assms(3)] by simp
  then have "utf8ByteLength (source_matches_text mid sid src m) \<le>
      3 * (6 * ?n + 2) + (utf8ByteLength (source_matches_text [] [] [] m) - 6)"
    by (subst source_matches_text_bytes) (rule add_right_mono)
  ultimately show ?thesis by simp
qed

text \<open>A message without matches always fits.\<close>

lemma empty_envelope_fits:
  assumes "opaqueId (smi_inspectMessageId m)" and "generation_ok (smi_resolutionGeneration m)"
    and "source_document_ok (smi_document m)" and "smi_matches m = []"
    and "smi_omittedMatchCount m \<le> lim_count RESOLUTION_LIMITS"
  shows "conservativeEnvelopeBytes m \<le> SOURCE_PRESENTATION_ENVELOPE_MAX_BYTES"
proof -
  have d: "utf8ByteLength (document_text (smi_document m)) \<le> 2000"
    using assms(3) utf8_json_quote [of "doc_label (smi_document m)"] utf8_json_quote [of "doc_languageId (smi_document m)"]
      key_bytes [of "''label''"] key_bytes [of "''languageId''"]
    by (simp add: document_text_def utf8_object source_document_ok_def text_between_def RESOLUTION_LIMITS_def)
  have g: "utf8ByteLength (json_int (smi_resolutionGeneration m)) \<le> 11"
    "utf8ByteLength (json_int (int (smi_omittedMatchCount m))) \<le> 11"
    "utf8ByteLength (json_int PROTOCOL_VERSION) \<le> 11"
    using assms(2,5) by (intro utf8_json_int; simp add: generation_ok_def RESOLUTION_LIMITS_def PROTOCOL_VERSION_def)+
  have i: "utf8ByteLength (json_quote (smi_inspectMessageId m)) \<le> 800"
    using utf8_json_quote [of "smi_inspectMessageId m"] assms(1)
    by (simp add: opaqueId_def text_between_def RESOLUTION_LIMITS_def)
  have s: "utf8ByteLength (json_object_text [(''role'', json_quote (js ''ide'')), (''id'', json_quote [])]) \<le> 100"
    using key_bytes [of "''role''"] key_bytes [of "''ide''"] key_bytes [of "''id''"] utf8_json_quote [of "[]"]
    by (simp add: utf8_object)
  have o: "utf8ByteLength (json_object_text []) = 2" "utf8ByteLength (json_array_text []) = 2"
    by (simp_all add: json_object_text_def json_array_text_def)
  have "utf8ByteLength (source_matches_text [] [] [] m) \<le> 10000"
    using d g i s o key_bytes [of "''protocolVersion''"] key_bytes [of "''type''"] key_bytes [of "''source.matches''"]
      key_bytes [of "''messageId''"] key_bytes [of "''sessionId''"] key_bytes [of "''source''"]
      key_bytes [of "''inspectMessageId''"] key_bytes [of "''resolutionGeneration''"]
      key_bytes [of "''document''"] key_bytes [of "''matches''"] key_bytes [of "''omittedMatchCount''"]
      key_bytes [of "''metadata''"] utf8_json_quote [of "[]"]
    unfolding source_matches_text_def by (subst utf8_object) (simp_all add: assms(4))
  moreover have "conservativeEnvelopeBytes m = 2310 + (utf8ByteLength (source_matches_text [] [] [] m) - 6)"
    unfolding conservativeEnvelopeBytes_def utf8ByteLength_encoder
    by (subst source_matches_text_bytes)
      (simp add: MAX_ESCAPED_OPAQUE_ID_def utf8_quote_zeros RESOLUTION_LIMITS_def)
  ultimately show ?thesis by (simp add: SOURCE_PRESENTATION_ENVELOPE_MAX_BYTES_def)
qed

end
