(* ===== verification/Source_Excerpts_Theorems.thy ===== *)
theory Source_Excerpts_Theorems
  imports Source_Excerpts_Bounds
begin

text \<open>
  What a publication of \<^verbatim>\<open>sourceExcerptRegistry.ts\<close> promises: its message passes the protocol's
  schema whatever ids the bridge client adds, and exactly the matches it shows may be opened, in the
  document they were found in, until the next publication or invalidation.
\<close>

subsection \<open>Ranges of an adapted document\<close>

lemma on_line_mono:
  assumes "on_line t k a" and "on_line t l b" and "a \<le> b" shows "k \<le> l"
proof (rule ccontr)
  assume "\<not> k \<le> l"
  then have "Suc l \<le> k" by simp
  then have "lineStarts t ! Suc l \<le> lineStarts t ! k"
    using lineStarts_less [of "Suc l" k t] assms(1) by (cases "Suc l = k") (auto simp: on_line_def)
  then show False using assms \<open>Suc l \<le> k\<close> by (auto simp: on_line_def)
qed

lemma length_line_starts_from: "length (line_starts_from i t) \<le> length t"
  by (induction t arbitrary: i) (auto intro: le_SucI)

lemma length_lineStarts: "length (lineStarts t) \<le> Suc (length t)"
  using length_line_starts_from [of 0 t] by (simp add: lineStarts_def)

lemma clampInteger_bounds: "minimum \<le> maximum \<Longrightarrow> minimum \<le> clampInteger r minimum maximum \<and> clampInteger r minimum maximum \<le> maximum"
  by (cases r) auto

lemma offsetAt_le: "offsetAt t p \<le> length t"
proof (cases "length (lineStarts t) \<le> clampInteger (fst p) 0 (length (lineStarts t))")
  case False
  define k where "k = clampInteger (fst p) 0 (length (lineStarts t))"
  have k: "k < length (lineStarts t)" using False by (simp add: k_def)
  note e = lineContentEnd_cases [OF k]
  have "clampInteger (snd p) 0 (lineContentEnd t k - lineStarts t ! k) \<le> lineContentEnd t k - lineStarts t ! k"
    using clampInteger_bounds by blast
  moreover have "offsetAt t p = lineStarts t ! k + clampInteger (snd p) 0 (lineContentEnd t k - lineStarts t ! k)"
    using k by (simp add: offsetAt_def Let_def k_def [symmetric])
  ultimately show ?thesis using e(1,2) by linarith
qed (simp add: offsetAt_def)

lemma positionAt_lines:
  assumes "a \<le> b" and "b \<le> length t"
  shows "fst (positionAt t (Finite (of_nat a))) \<le> fst (positionAt t (Finite (of_nat b)))"
    "fst (positionAt t (Finite (of_nat b))) \<le> length t"
proof -
  obtain k l where k: "on_line t k a" "on_line t l b" using ex_on_line by metis
  have p: "fst (positionAt t (Finite (of_nat a))) = k" "fst (positionAt t (Finite (of_nat b))) = l"
    using positionAt_on_line [OF k(1)] positionAt_on_line [OF k(2)] assms by simp_all
  show "fst (positionAt t (Finite (of_nat a))) \<le> fst (positionAt t (Finite (of_nat b)))"
    using on_line_mono [OF k assms(1)] p by simp
  show "fst (positionAt t (Finite (of_nat b))) \<le> length t"
    using k(2) length_lineStarts [of t] p by (simp add: on_line_def)
qed

lemma js_same_JInt: "js_same a b \<longleftrightarrow> (\<exists>n. a = JInt n \<and> b = JInt n)"
  by (cases "(a, b)" rule: js_same.cases) auto

definition adapted_document :: "plugin_document \<Rightarrow> bool" where
  "adapted_document d \<longleftrightarrow> (\<exists>uri l v t. d = adapted uri l v t \<and> length t < lim_count RESOLUTION_LIMITS)"

lemma validOffsets_adapted:
  assumes "validOffsets r (adapted uri l v t) = Some (s, e)"
  shows "s < e" "e \<le> length t"
    "sp_line (sr_start r) = JInt (int (fst (positionAt t (Finite (of_nat s)))))"
    "sp_line (sr_end r) = JInt (int (fst (positionAt t (Finite (of_nat e)))))"
proof -
  define a where "a = offsetAt t (js_real_of (sp_line (sr_start r)), js_real_of (sp_character (sr_start r)))"
  define b where "b = offsetAt t (js_real_of (sp_line (sr_end r)), js_real_of (sp_character (sr_end r)))"
  have "s = a \<and> e = b \<and> a < b \<and>
      samePosition \<lparr>sp_line = JInt (int (fst (positionAt t (Finite (of_int (int a)))))),
        sp_character = JInt (int (snd (positionAt t (Finite (of_int (int a))))))\<rparr> (sr_start r) \<and>
      samePosition \<lparr>sp_line = JInt (int (fst (positionAt t (Finite (of_int (int b)))))),
        sp_character = JInt (int (snd (positionAt t (Finite (of_int (int b))))))\<rparr> (sr_end r)"
    using assms by (simp add: validOffsets_def adapted_def Let_def a_def [symmetric] b_def [symmetric]
      split: if_splits)
  moreover have "b \<le> length t" unfolding b_def by (rule offsetAt_le)
  ultimately show "s < e" "e \<le> length t"
    "sp_line (sr_start r) = JInt (int (fst (positionAt t (Finite (of_nat s)))))"
    "sp_line (sr_end r) = JInt (int (fst (positionAt t (Finite (of_nat e)))))"
    by (simp_all add: samePosition_def js_same_JInt)
qed

text \<open>The lines of a range that passed the checks.\<close>

definition lines_ok :: "source_range \<Rightarrow> bool" where
  "lines_ok r \<longleftrightarrow> 0 \<le> js_int (sp_line (sr_start r)) \<and>
     js_int (sp_line (sr_start r)) \<le> js_int (sp_line (sr_end r)) \<and>
     js_int (sp_line (sr_end r)) < lim_count RESOLUTION_LIMITS"

lemma validOffsets_lines:
  assumes "adapted_document d" and "validOffsets r d = Some (s, e)"
  shows "lines_ok r"
proof -
  obtain uri l v t where d: "d = adapted uri l v t" "length t < lim_count RESOLUTION_LIMITS"
    using assms(1) by (auto simp: adapted_document_def)
  note f = validOffsets_adapted [OF assms(2) [unfolded d(1)]]
  then show ?thesis using positionAt_lines [of s e t] d(2) unfolding lines_ok_def by simp
qed

lemma validMatches_member:
  "e \<in> set (validMatches ms d) \<longleftrightarrow>
   vm_match e \<in> set ms \<and> validOffsets (rm_range (vm_match e)) d = Some (vm_startOffset e, vm_endOffset e)"
  by (cases e) (force simp: validMatches_def List.map_filter_def split: option.splits prod.splits)

lemma length_validMatches: "length (validMatches ms d) \<le> length ms"
  unfolding validMatches_def List.map_filter_def by simp

subsection \<open>Order and selection\<close>

lemma set_insert_sorted [simp]: "set (insert_sorted cmp x xs) = insert x (set xs)"
  by (induction xs) auto

lemma length_insert_sorted [simp]: "length (insert_sorted cmp x xs) = Suc (length xs)"
  by (induction xs) auto

lemma set_sort_stable [simp]: "set (sort_stable cmp xs) = set xs"
  by (induction xs) (simp_all add: sort_stable_def)

lemma length_sort_stable [simp]: "length (sort_stable cmp xs) = length xs"
  by (induction xs) (simp_all add: sort_stable_def)

lemma jset_new: "jget m k = None \<Longrightarrow> jset k v m = m @ [(k, v)]"
  by (induction m) auto

lemma unique_by_bounds:
  "set (map snd (unique_by key m xs)) \<subseteq> set (map snd m) \<union> set xs \<and>
   length (unique_by key m xs) \<le> length m + length xs"
proof (induction xs arbitrary: m)
  case (Cons x xs)
  let ?m = "if jget m (key x) = None then jset (key x) x m else m"
  have m: "set (map snd ?m) \<subseteq> insert x (set (map snd m))" "length ?m \<le> Suc (length m)"
    by (auto simp: jset_new)
  have "set (map snd (unique_by key m (x # xs))) \<subseteq> set (map snd m) \<union> set (x # xs)"
    using Cons.IH [of ?m] m(1) unfolding unique_by.simps list.set by blast
  moreover have "length (unique_by key m (x # xs)) \<le> length m + length (x # xs)"
    using Cons.IH [of ?m] m(2) by (simp only: unique_by.simps list.size add_Suc_right) linarith
  ultimately show ?case ..
qed simp

lemma unique_by_keys:
  "(\<forall>(k, x)\<in>set m. key x = k) \<Longrightarrow> distinct (map fst m) \<Longrightarrow> distinct (map (key \<circ> snd) (unique_by key m xs))"
proof (induction xs arbitrary: m)
  case Nil
  then have "map (key \<circ> snd) m = map fst m" by auto
  then show ?case using Nil(2) by (simp only: unique_by.simps)
next
  case (Cons x xs)
  let ?m = "if jget m (key x) = None then jset (key x) x m else m"
  have "(\<forall>(k, y)\<in>set ?m. key y = k) \<and> distinct (map fst ?m)"
    using Cons.prems by (auto simp: jset_new map_of_eq_None_iff)
  then show ?case using Cons.IH [of ?m] by simp
qed

lemma deduplicateAndOrder_bounds:
  "set (deduplicateAndOrder lc es) \<subseteq> set es" "length (deduplicateAndOrder lc es) \<le> length es"
  using unique_by_bounds [of "\<lambda>e. rangeKey (rm_range (vm_match e))" "[]" "sort_stable (compareValidMatches lc) es"]
  by (simp_all add: deduplicateAndOrder_def)

lemma deduplicateAndOrder_ranges:
  "distinct (map (\<lambda>e. rangeKey (rm_range (vm_match e))) (deduplicateAndOrder lc es))"
  using unique_by_keys [of "[]" "\<lambda>e. rangeKey (rm_range (vm_match e))" "sort_stable (compareValidMatches lc) es"]
  by (simp add: deduplicateAndOrder_def comp_def)

subsection \<open>Candidates\<close>

lemma allocate_attempts_some:
  "allocate_attempts k create n used = (Some i, n') \<Longrightarrow> opaqueId i \<and> i \<notin> set used"
proof (induction k create n used rule: allocate_attempts.induct)
  case (2 k create n used)
  show ?case
  proof (cases "validOpaqueId (create n)")
    case (Some c)
    then have "opaqueId c"
      by (auto simp: validOpaqueId_def opaqueId_def text_between_def Suc_le_eq split: option.splits if_splits)
    then show ?thesis using "2.IH"(2) [OF Some] "2.prems" Some by (cases "c \<in> set used") auto
  qed (use "2.IH"(1) "2.prems" in simp)
qed simp

lemma create_candidates_some:
  "create_candidates env current input t n used es = (Some cs, n') \<Longrightarrow>
   length cs = length es \<and>
   (\<forall>c\<in>set cs. \<exists>e\<in>set es. \<exists>i. opaqueId i \<and> c = createCandidate (xe_label env) current input e t i) \<and>
   distinct (map (sa_matchId \<circ> pc_authority) cs) \<and>
   set (map (sa_matchId \<circ> pc_authority) cs) \<inter> set used = {}"
proof (induction es arbitrary: n used cs n')
  case (Cons e es)
  obtain i m where a: "allocateMatchId env n used = (Some i, m)"
    using Cons.prems by (cases "allocateMatchId env n used"; cases "fst (allocateMatchId env n used)") auto
  then obtain cs' where cs: "create_candidates env current input t m (i # used) es = (Some cs', n')"
    "cs = createCandidate (xe_label env) current input e t i # cs'"
    using Cons.prems by (auto split: prod.splits option.splits)
  have i: "opaqueId i \<and> i \<notin> set used"
    using allocate_attempts_some a by (simp add: allocateMatchId_def)
  have "sa_matchId (pc_authority (createCandidate (xe_label env) current input e t i)) = i"
    by (simp add: createCandidate_def Let_def)
  then show ?case using Cons.IH [OF cs(1)] i unfolding cs(2) by auto
qed simp

lemma drop_until_fits_result:
  assumes "drop_until_fits env current included omitted = (cs, m)"
  shows "(\<exists>k. cs = take k included) \<and> m + length cs = omitted + length included \<and>
    (cs = [] \<or> fitsEnvelope env current cs m)"
  using assms
proof (induction env current included omitted rule: drop_until_fits.induct)
  case (1 env current included omitted)
  show ?case
  proof (cases "included \<noteq> [] \<and> \<not> fitsEnvelope env current included omitted")
    case True
    then have "drop_until_fits env current (butlast included) (omitted + 1) = (cs, m)"
      using "1.prems" by (simp add: drop_until_fits.simps [of env current included omitted])
    then have IH: "(\<exists>k. cs = take k (butlast included)) \<and> m + length cs = omitted + 1 + length (butlast included) \<and>
        (cs = [] \<or> fitsEnvelope env current cs m)"
      using "1.IH" True by blast
    then obtain k where "cs = take k (take (length included - 1) included)" by (auto simp: butlast_conv_take)
    then have "cs = take (min k (length included - 1)) included" by simp
    moreover have "0 < length included" using True by simp
    ultimately show ?thesis using IH by auto
  next
    case False
    then have "drop_until_fits env current included omitted = (included, omitted)"
      by (subst drop_until_fits.simps) (rule if_not_P)
    then have "cs = take (length included) included \<and> m = omitted" using "1.prems" by simp
    then show ?thesis using False by (auto intro: exI [of _ "length included"])
  qed
qed

subsection \<open>What is published\<close>

definition authorities_of :: "publication_candidate list \<Rightarrow> (jstring, excerpt_authority) jmap" where
  "authorities_of cs = map (\<lambda>c. (sa_matchId (pc_authority c), pc_authority c)) cs"

lemma foldl_jset_distinct:
  "distinct (map fst m @ map k cs) \<Longrightarrow> foldl (\<lambda>m c. jset (k c) (v c) m) m cs = m @ map (\<lambda>c. (k c, v c)) cs"
proof (induction cs arbitrary: m)
  case (Cons c cs)
  then have "jset (k c) (v c) m = m @ [(k c, v c)]"
    by (intro jset_new) (simp add: map_of_eq_None_iff)
  then show ?case using Cons by simp
qed simp

text \<open>
  A publication over \<open>current\<close>: candidates made from matches whose range is on lines of the
  document, each with an id of its own, and a count of what was left out.
\<close>

definition published ::
  "excerpt_env \<Rightarrow> publication_input \<Rightarrow> current_source \<Rightarrow> publication_candidate list \<Rightarrow> nat \<Rightarrow> bool" where
  "published env input current cs omitted \<longleftrightarrow>
     length cs \<le> lim_matches SOURCE_PRESENTATION_LIMITS \<and>
     omitted + length cs \<le> length (sr_matches (pin_resolution input)) \<and>
     (cs = [] \<or> fitsEnvelope env current cs omitted) \<and>
     distinct (map (sa_matchId \<circ> pc_authority) cs) \<and>
     (\<forall>c\<in>set cs. \<exists>e t i d. opaqueId i \<and> c = createCandidate (xe_label env) current input e t i \<and>
        td_getText (pin_document input) = Some t \<and>
        (pin_sourceDocument input = Some d \<or> pin_sourceDocument input = None \<and> adaptSourceDocument (pin_document input) = Some d) \<and>
        e \<in> set (validMatches (sr_matches (pin_resolution input)) d))"

lemma published_empty: "n \<le> length (sr_matches (pin_resolution input)) \<Longrightarrow> published env input current [] n"
  by (simp add: published_def)

lemma publish_included_published:
  assumes cs: "\<forall>c\<in>set cands. \<exists>e\<in>set valid. \<exists>i. opaqueId i \<and> c = createCandidate (xe_label env) current input e t i"
    and d: "distinct (map (sa_matchId \<circ> pc_authority) cands)"
    and n: "length cands \<le> lim_matches SOURCE_PRESENTATION_LIMITS" "length cands \<le> u"
      "u \<le> length (sr_matches (pin_resolution input))"
    and t: "td_getText (pin_document input) = Some t"
    and doc: "pin_sourceDocument input = Some d \<or> pin_sourceDocument input = None \<and> adaptSourceDocument (pin_document input) = Some d"
    and v: "valid = validMatches (sr_matches (pin_resolution input)) d"
    and r: "publish_included env current cands u = (p, as)"
  shows "\<exists>cs omitted. p = \<lparr>xp_message = source_message current (map pc_excerpt cs) omitted,
      xp_navigationMatches = map pc_navigationMatch cs, xp_excerptReadFailed = False\<rparr> \<and>
    as = authorities_of cs \<and> published env input current cs omitted"
proof -
  obtain fitted m where f: "drop_until_fits env current cands (u - length cands) = (fitted, m)" by fastforce
  obtain k where k: "fitted = take k cands" "m + length fitted = u"
    "fitted = [] \<or> fitsEnvelope env current fitted m"
    using drop_until_fits_result [OF f] le_add_diff_inverse2 [OF n(2)] by metis
  define cs where "cs = (if fitsEnvelope env current fitted m then fitted else [])"
  define omitted where "omitted = (if fitsEnvelope env current fitted m then m else u)"
  have sub: "\<exists>j. cs = take j cands" using k(1) by (auto simp: cs_def intro: exI [of _ 0])
  then have dist: "distinct (map (sa_matchId \<circ> pc_authority) cs)"
    using d by (auto simp: take_map [symmetric])
  have "p = \<lparr>xp_message = source_message current (map pc_excerpt cs) omitted,
      xp_navigationMatches = map pc_navigationMatch cs, xp_excerptReadFailed = False\<rparr>"
    "as = foldl (\<lambda>m c. jset (sa_matchId (pc_authority c)) (pc_authority c) m) [] cs"
    using r f by (auto simp: publish_included_def cs_def omitted_def Let_def)
  moreover have "published env input current cs omitted"
    unfolding published_def
  proof (intro conjI dist)
    show "length cs \<le> lim_matches SOURCE_PRESENTATION_LIMITS" using sub n(1) by auto
    show "omitted + length cs \<le> length (sr_matches (pin_resolution input))"
      using k(2) n(3) by (simp add: cs_def omitted_def)
    show "cs = [] \<or> fitsEnvelope env current cs omitted" by (simp add: cs_def omitted_def)
    have "\<forall>c\<in>set cs. \<exists>e\<in>set valid. \<exists>i. opaqueId i \<and> c = createCandidate (xe_label env) current input e t i"
      using sub cs by (auto dest: in_set_takeD)
    then show "\<forall>c\<in>set cs. \<exists>e t i d. opaqueId i \<and> c = createCandidate (xe_label env) current input e t i \<and>
        td_getText (pin_document input) = Some t \<and>
        (pin_sourceDocument input = Some d \<or> pin_sourceDocument input = None \<and> adaptSourceDocument (pin_document input) = Some d) \<and>
        e \<in> set (validMatches (sr_matches (pin_resolution input)) d)"
      using t doc v by blast
  qed
  ultimately show ?thesis using dist
    by (intro exI [of _ cs] exI [of _ omitted]) (simp add: foldl_jset_distinct authorities_of_def comp_def)
qed

definition current_for :: "publication_input \<Rightarrow> current_source \<Rightarrow> bool" where
  "current_for input current \<longleftrightarrow> cs_inspectMessageId current = pin_inspectMessageId input \<and>
     cs_resolutionGeneration current = pin_resolutionGeneration input \<and>
     public_label (doc_label (cs_document current)) \<and> source_document_ok (cs_document current)"

lemma public_label_length: "public_label t \<Longrightarrow> text_between 1 (lim_labelLength RESOLUTION_LIMITS) t"
  by (simp add: public_label_def)

lemma unknownDocument_ok: "public_label (doc_label unknownDocument)" "source_document_ok unknownDocument"
  using public_untitled
  by (simp_all add: unknownDocument_def source_document_ok_def text_between_def RESOLUTION_LIMITS_def)

lemma publicDocument_ok:
  "public_label (doc_label (publicDocument env uri l))" "source_document_ok (publicDocument env uri l)"
  using sourceDocumentLabel_public public_label_length languageId_bounds
  by (simp_all add: publicDocument_def source_document_ok_def)

lemma sourceState_current: "sourceState env input = Some current \<Longrightarrow> current_for input current"
  using publicDocument_ok by (auto simp: sourceState_def current_for_def split: option.splits)

lemma publish_valid_published:
  assumes r: "publish_valid env current input n valid documentText = (p, as, n')"
    and t: "documentText = td_getText (pin_document input)"
    and doc: "pin_sourceDocument input = Some d \<or> pin_sourceDocument input = None \<and> adaptSourceDocument (pin_document input) = Some d"
    and v: "valid = validMatches (sr_matches (pin_resolution input)) d"
  shows "\<exists>cs omitted f. p = \<lparr>xp_message = source_message current (map pc_excerpt cs) omitted,
      xp_navigationMatches = map pc_navigationMatch cs, xp_excerptReadFailed = f\<rparr> \<and>
    as = authorities_of cs \<and> published env input current cs omitted"
proof (cases documentText)
  case None
  then show ?thesis using r
    by (intro exI [of _ "[]"] exI [of _ 0] exI [of _ True])
      (simp add: publish_valid_def emptyPublication_def authorities_of_def published_empty)
next
  case (Some u)
  define unique where "unique = deduplicateAndOrder (xe_localeCompare env) valid"
  have u: "set unique \<subseteq> set valid" "length unique \<le> length (sr_matches (pin_resolution input))"
    using deduplicateAndOrder_bounds [of "xe_localeCompare env" valid] length_validMatches order_trans
    unfolding unique_def v by blast+
  obtain r' m where c: "create_candidates env current input u n [] (take (lim_matches SOURCE_PRESENTATION_LIMITS) unique) = (r', m)"
    by fastforce
  show ?thesis
  proof (cases r')
    case None
    then show ?thesis using r Some c u(2)
      by (intro exI [of _ "[]"] exI [of _ "length unique"] exI [of _ False])
        (simp add: publish_valid_def emptyPublication_def authorities_of_def published_empty unique_def Let_def)
  next
    case cands: (Some cands)
    obtain p' as' where i: "publish_included env current cands (length unique) = (p', as')" by fastforce
    note cc = create_candidates_some [OF c [unfolded cands]]
    have "\<exists>cs omitted. p' = \<lparr>xp_message = source_message current (map pc_excerpt cs) omitted,
        xp_navigationMatches = map pc_navigationMatch cs, xp_excerptReadFailed = False\<rparr> \<and>
      as' = authorities_of cs \<and> published env input current cs omitted"
    proof (rule publish_included_published [OF _ _ _ _ u(2) _ doc v i])
      show "\<forall>c\<in>set cands. \<exists>e\<in>set valid. \<exists>i. opaqueId i \<and> c = createCandidate (xe_label env) current input e u i"
        using cc u(1) by (meson in_set_takeD subsetD)
      show "td_getText (pin_document input) = Some u" using Some t by simp
    qed (use cc in auto)
    moreover have "p = p' \<and> as = as'"
      using r Some c i cands by (simp add: publish_valid_def unique_def Let_def)
    ultimately show ?thesis by blast
  qed
qed

lemma publish_current_published:
  assumes "publish_current env current input n = (p, as, n')"
  shows "\<exists>cs omitted f. p = \<lparr>xp_message = source_message current (map pc_excerpt cs) omitted,
      xp_navigationMatches = map pc_navigationMatch cs, xp_excerptReadFailed = f\<rparr> \<and>
    as = authorities_of cs \<and> published env input current cs omitted"
proof -
  define doc where "doc = (case pin_sourceDocument input of Some d \<Rightarrow> Some d
    | None \<Rightarrow> adaptSourceDocument (pin_document input))"
  have empty: ?thesis if "(p, as, n') = (emptyPublication current f 0, [], n)" for f
    using that by (intro exI [of _ "[]"] exI [of _ 0] exI [of _ f])
      (simp add: emptyPublication_def authorities_of_def published_empty)
  note r = assms [unfolded publish_current_def doc_def [symmetric], symmetric]
  show ?thesis
  proof (cases "matchesActiveDocumentIdentity input \<noteq> Some True")
    case True
    then show ?thesis using r by (intro empty) simp
  next
    case id: False
    show ?thesis
    proof (cases doc)
      case None
      then show ?thesis using r id by (intro empty) simp
    next
      case (Some d)
      define valid where "valid = validMatches (sr_matches (pin_resolution input)) d"
      show ?thesis
      proof (cases "\<not> matchesSourceDocument (pin_resolution input) d \<or> valid = []")
        case True
        then show ?thesis using r id Some by (intro empty) (auto simp: valid_def)
      next
        case False
        then have "publish_valid env current input n valid (td_getText (pin_document input)) = (p, as, n')"
          using r id Some by (simp add: valid_def Let_def)
        moreover have "pin_sourceDocument input = Some d \<or> pin_sourceDocument input = None \<and> adaptSourceDocument (pin_document input) = Some d"
          using Some by (auto simp: doc_def split: option.splits)
        ultimately show ?thesis by (intro publish_valid_published [OF _ refl _ valid_def])
      qed
    qed
  qed
qed

lemma publish_published:
  "\<exists>current cs omitted f n. publish env input reg =
     (\<lparr>xp_message = source_message current (map pc_excerpt cs) omitted,
       xp_navigationMatches = map pc_navigationMatch cs, xp_excerptReadFailed = f\<rparr>,
      \<lparr>xr_authorities = authorities_of cs, xr_current = Some current, xr_nextId = n\<rparr>) \<and>
     published env input current cs omitted \<and> current_for input current"
proof (cases "sourceState (xe_label env) input")
  case None
  let ?c = "\<lparr>cs_inspectMessageId = pin_inspectMessageId input,
    cs_resolutionGeneration = pin_resolutionGeneration input, cs_document = unknownDocument\<rparr>"
  have "current_for input ?c" using unknownDocument_ok by (simp add: current_for_def)
  then show ?thesis using None
    by (intro exI [of _ ?c] exI [of _ "[]"] exI [of _ 0] exI [of _ False] exI [of _ "xr_nextId reg"])
      (simp add: publish_def emptyPublication_def authorities_of_def published_empty Let_def)
next
  case (Some current)
  obtain p as n where r: "publish_current env current input (xr_nextId reg) = (p, as, n)"
    by (cases "publish_current env current input (xr_nextId reg)") auto
  obtain cs omitted f where "p = \<lparr>xp_message = source_message current (map pc_excerpt cs) omitted,
      xp_navigationMatches = map pc_navigationMatch cs, xp_excerptReadFailed = f\<rparr>"
    "as = authorities_of cs" "published env input current cs omitted"
    using publish_current_published [OF r] by blast
  then show ?thesis using Some r sourceState_current [OF Some]
    by (intro exI [of _ current] exI [of _ cs] exI [of _ omitted] exI [of _ f] exI [of _ n])
      (simp add: publish_def)
qed

subsection \<open>The message that is published\<close>

text \<open>
  A document that a publication reads is a text shorter than any JavaScript string may get, and
  the ids and counts it is given are ones the protocol allows.
\<close>

definition publication_input_ok :: "publication_input \<Rightarrow> bool" where
  "publication_input_ok input \<longleftrightarrow> opaqueId (pin_inspectMessageId input) \<and>
     generation_ok (pin_resolutionGeneration input) \<and>
     length (sr_matches (pin_resolution input)) \<le> lim_count RESOLUTION_LIMITS \<and>
     opt_ok adapted_document (pin_sourceDocument input) \<and>
     opt_ok (\<lambda>t. length t < lim_count RESOLUTION_LIMITS) (td_getText (pin_document input))"

definition default_measure :: "excerpt_env \<Rightarrow> bool" where
  "default_measure env \<longleftrightarrow> (\<forall>m. xe_measure env m = Some (Finite (of_nat (conservativeEnvelopeBytes m))))"

text \<open>\<^verbatim>\<open>JSON.stringify\<close> of a message with matches, whatever its ids.\<close>

definition stringifies_matches :: "schema_env \<Rightarrow> bool" where
  "stringifies_matches senv \<longleftrightarrow> (\<forall>mid sid src m.
     se_stringify senv (SourceMatches (createSourceMatchesMessage mid sid src m)) =
       Some (source_matches_text mid sid src m))"

lemma adaptSourceDocument_adapted:
  "adaptSourceDocument d = Some pd \<Longrightarrow> opt_ok (\<lambda>t. length t < lim_count RESOLUTION_LIMITS) (td_getText d) \<Longrightarrow>
   adapted_document pd"
  by (auto simp: adaptSourceDocument_def adapted_document_def opt_ok_def split: option.splits)

lemma createCandidate_ok:
  assumes "opaqueId i" and "lines_ok (rm_range (vm_match e))" and "current_for input current"
  shows "source_excerpt_ok (pc_excerpt (createCandidate env current input e t i))"
  using assms boundedExcerpt_bounds normalized_label_public [THEN public_label_length]
  unfolding source_excerpt_ok_def createCandidate_def Let_def lines_ok_def current_for_def
  by (simp add: not_less)

lemma published_candidate_ok:
  assumes "publication_input_ok input" and "published env input current cs omitted"
    and "current_for input current" and "c \<in> set cs"
  shows "source_excerpt_ok (pc_excerpt c)"
proof -
  obtain e t i d where c: "opaqueId i" "c = createCandidate (xe_label env) current input e t i"
    "pin_sourceDocument input = Some d \<or> pin_sourceDocument input = None \<and> adaptSourceDocument (pin_document input) = Some d"
    "e \<in> set (validMatches (sr_matches (pin_resolution input)) d)"
    using assms(2,4) unfolding published_def by blast
  have "adapted_document d"
    using c(3) assms(1) adaptSourceDocument_adapted by (auto simp: publication_input_ok_def opt_ok_def)
  then have "lines_ok (rm_range (vm_match e))"
    using c(4) validOffsets_lines by (auto simp: validMatches_member)
  then show ?thesis using createCandidate_ok c(1,2) assms(3) by blast
qed

lemma published_envelope:
  assumes ok: "publication_input_ok input" and m: "default_measure env"
    and p: "published env input current cs omitted" and c: "current_for input current"
  shows "conservativeEnvelopeBytes (source_message current (map pc_excerpt cs) omitted) \<le> SOURCE_PRESENTATION_ENVELOPE_MAX_BYTES"
proof (cases "cs = []")
  case True
  have "int omitted \<le> lim_count RESOLUTION_LIMITS"
    using p ok by (simp add: published_def publication_input_ok_def)
  then show ?thesis using True ok c
    by (intro empty_envelope_fits) (simp_all add: source_message_def current_for_def publication_input_ok_def)
next
  case False
  then show ?thesis using p m
    by (simp add: published_def fitsEnvelope_def default_measure_def)
qed

text \<open>C16:
  Every publication is a message the protocol accepts: for an input within the protocol's bounds,
  whatever the matches and labels of the plugins, and whatever ids the bridge client adds, the
  message has at most 32 excerpts, each with a label that is not empty and not too long, a range of
  lines in order and a text of at most 80 lines and 8 kilobytes, and its envelope fits the budget
  that the bridge enforces.
\<close>
theorem published_matches_ok:
  assumes "publication_input_ok input" and "default_measure env" and "stringifies_matches senv"
    and "opaqueId mid" and "opaqueId sid" and "opaqueId src"
  shows "source_matches_ok senv SOURCE_PRESENTATION_ENVELOPE_MAX_BYTES
    (createSourceMatchesMessage mid sid src (xp_message (fst (publish env input reg))))"
proof -
  obtain current cs omitted f n where r: "publish env input reg =
      (\<lparr>xp_message = source_message current (map pc_excerpt cs) omitted,
        xp_navigationMatches = map pc_navigationMatch cs, xp_excerptReadFailed = f\<rparr>,
       \<lparr>xr_authorities = authorities_of cs, xr_current = Some current, xr_nextId = n\<rparr>)"
    and p: "published env input current cs omitted" and c: "current_for input current"
    using publish_published by blast
  define m where "m = source_message current (map pc_excerpt cs) omitted"
  have "list_all source_excerpt_ok (smi_matches m)"
    using published_candidate_ok [OF assms(1) p c] by (simp add: list_all_iff m_def source_message_def)
  moreover have "utf8ByteLength (source_matches_text mid sid src m) \<le> SOURCE_PRESENTATION_ENVELOPE_MAX_BYTES"
    using conservative_envelope [OF assms(4-6), of m] published_envelope [OF assms(1,2) p c] unfolding m_def by linarith
  moreover have "int (smi_omittedMatchCount m) \<le> lim_count RESOLUTION_LIMITS"
    using p assms(1) by (simp add: published_def publication_input_ok_def m_def source_message_def)
  moreover have "length (smi_matches m) \<le> lim_matches SOURCE_PRESENTATION_LIMITS"
    using p by (simp add: published_def m_def source_message_def)
  moreover have "opaqueId (smi_inspectMessageId m)" "generation_ok (smi_resolutionGeneration m)" "source_document_ok (smi_document m)"
    using c assms(1) by (simp_all add: current_for_def publication_input_ok_def m_def source_message_def)
  ultimately have "source_matches_ok senv SOURCE_PRESENTATION_ENVELOPE_MAX_BYTES (createSourceMatchesMessage mid sid src m)"
    using assms(3-6)
    by (simp add: source_matches_ok_def serialized_budget_ok_def stringifies_matches_def count_ok_def)
      (simp add: createSourceMatchesMessage_def)
  then show ?thesis by (simp add: r m_def)
qed

subsection \<open>What may be opened\<close>

lemma jget_authorities_of:
  assumes "distinct (map (sa_matchId \<circ> pc_authority) cs)"
  shows "jget (authorities_of cs) i = Some a \<longleftrightarrow> (\<exists>c\<in>set cs. sa_matchId (pc_authority c) = i \<and> pc_authority c = a)"
proof -
  have "distinct (map fst (authorities_of cs))" using assms by (simp add: authorities_of_def comp_def)
  from map_of_eq_Some_iff [OF this] show ?thesis by (auto simp: authorities_of_def)
qed

lemma createCandidate_parts:
  assumes "c = createCandidate env current input e t i"
  shows "pc_authority c = \<lparr>sa_matchId = nm_matchId (pc_navigationMatch c), sa_inspectMessageId = pin_inspectMessageId input,
      sa_resolutionGeneration = pin_resolutionGeneration input,
      sa_documentUri = sr_documentUri (pin_resolution input),
      sa_documentVersion = sr_documentVersion (pin_resolution input), sa_range = nm_range (pc_navigationMatch c)\<rparr>"
    "ex_matchId (pc_excerpt c) = nm_matchId (pc_navigationMatch c)"
  using assms by (simp_all add: createCandidate_def Let_def)

lemma published_parts:
  assumes "published env input current cs omitted" and "c \<in> set cs"
  shows "pc_authority c = \<lparr>sa_matchId = nm_matchId (pc_navigationMatch c), sa_inspectMessageId = pin_inspectMessageId input,
      sa_resolutionGeneration = pin_resolutionGeneration input,
      sa_documentUri = sr_documentUri (pin_resolution input),
      sa_documentVersion = sr_documentVersion (pin_resolution input), sa_range = nm_range (pc_navigationMatch c)\<rparr>"
    "ex_matchId (pc_excerpt c) = nm_matchId (pc_navigationMatch c)"
proof -
  obtain e t i where "c = createCandidate (xe_label env) current input e t i"
    using assms unfolding published_def by blast
  note parts = createCandidate_parts [OF this]
  show "pc_authority c = \<lparr>sa_matchId = nm_matchId (pc_navigationMatch c), sa_inspectMessageId = pin_inspectMessageId input,
      sa_resolutionGeneration = pin_resolutionGeneration input,
      sa_documentUri = sr_documentUri (pin_resolution input),
      sa_documentVersion = sr_documentVersion (pin_resolution input), sa_range = nm_range (pc_navigationMatch c)\<rparr>"
    by (rule parts(1))
  show "ex_matchId (pc_excerpt c) = nm_matchId (pc_navigationMatch c)" by (rule parts(2))
qed

text \<open>C17:
  After a publication the panel may open exactly the matches it shows: a request resolves just when
  it names the published inspection and generation and the id of a shown match while the document
  the match was found in is active in the same version, and it resolves to the range of that match.
  After an invalidation nothing resolves.
\<close>
theorem shown_matches_open:
  assumes "publish env input reg = (p, reg')"
  shows "(resolveOpen reg' m d = Some (Some a) \<longleftrightarrow>
      td_uri d = Some (sr_documentUri (pin_resolution input)) \<and>
      td_version d = sr_documentVersion (pin_resolution input) \<and>
      inspectMessageId m = pin_inspectMessageId input \<and>
      so_resolutionGeneration m = pin_resolutionGeneration input \<and>
      (\<exists>nm\<in>set (xp_navigationMatches p). nm_matchId nm = so_matchId m \<and>
        a = \<lparr>sa_matchId = so_matchId m, sa_inspectMessageId = inspectMessageId m,
             sa_resolutionGeneration = so_resolutionGeneration m,
             sa_documentUri = sr_documentUri (pin_resolution input),
             sa_documentVersion = sr_documentVersion (pin_resolution input), sa_range = nm_range nm\<rparr>)) \<and>
    map ex_matchId (smi_matches (xp_message p)) = map nm_matchId (xp_navigationMatches p) \<and>
    distinct (map nm_matchId (xp_navigationMatches p)) \<and>
    resolveOpen (snd (invalidate env i reg')) m d = Some None"
proof -
  obtain current cs omitted f n where r: "publish env input reg =
      (\<lparr>xp_message = source_message current (map pc_excerpt cs) omitted,
        xp_navigationMatches = map pc_navigationMatch cs, xp_excerptReadFailed = f\<rparr>,
       \<lparr>xr_authorities = authorities_of cs, xr_current = Some current, xr_nextId = n\<rparr>)"
    and p: "published env input current cs omitted" and c: "current_for input current"
    using publish_published by blast
  have reg': "reg' = \<lparr>xr_authorities = authorities_of cs, xr_current = Some current, xr_nextId = n\<rparr>"
    and pp: "xp_navigationMatches p = map pc_navigationMatch cs" "smi_matches (xp_message p) = map pc_excerpt cs"
    using assms r by (auto simp: source_message_def)
  have d: "distinct (map (sa_matchId \<circ> pc_authority) cs)" using p by (simp add: published_def)
  note parts = published_parts [OF p]
  note j = jget_authorities_of [OF d]
  have ids: "map (sa_matchId \<circ> pc_authority) cs = map nm_matchId (xp_navigationMatches p)"
    "map ex_matchId (smi_matches (xp_message p)) = map nm_matchId (xp_navigationMatches p)"
    by (simp_all add: pp parts)
  have cur: "cs_inspectMessageId current = pin_inspectMessageId input" "cs_resolutionGeneration current = pin_resolutionGeneration input"
    using c by (simp_all add: current_for_def)
  have auth: "sa_inspectMessageId x = pin_inspectMessageId input \<and> sa_resolutionGeneration x = pin_resolutionGeneration input \<and>
      sa_documentUri x = sr_documentUri (pin_resolution input) \<and> sa_documentVersion x = sr_documentVersion (pin_resolution input)"
    if "jget (authorities_of cs) k = Some x" for k x
    using that parts(1) unfolding j by auto
  have nav: "jget (authorities_of cs) k = Some x \<longleftrightarrow> (\<exists>nm\<in>set (xp_navigationMatches p). nm_matchId nm = k \<and>
      x = \<lparr>sa_matchId = k, sa_inspectMessageId = pin_inspectMessageId input,
        sa_resolutionGeneration = pin_resolutionGeneration input,
        sa_documentUri = sr_documentUri (pin_resolution input),
        sa_documentVersion = sr_documentVersion (pin_resolution input), sa_range = nm_range nm\<rparr>)" for k x
    unfolding j pp using parts(1) by force
  have opens: "resolveOpen reg' m d = Some (Some a) \<longleftrightarrow>
      inspectMessageId m = pin_inspectMessageId input \<and> so_resolutionGeneration m = pin_resolutionGeneration input \<and>
      jget (authorities_of cs) (so_matchId m) = Some a \<and>
      td_uri d = Some (sr_documentUri (pin_resolution input)) \<and> td_version d = sr_documentVersion (pin_resolution input)"
    using auth [of "so_matchId m"] by (auto simp: resolveOpen_def reg' cur split: option.splits)
  define R where "R j g \<longleftrightarrow> (\<exists>nm\<in>set (xp_navigationMatches p). nm_matchId nm = so_matchId m \<and>
      a = \<lparr>sa_matchId = so_matchId m, sa_inspectMessageId = j, sa_resolutionGeneration = g,
        sa_documentUri = sr_documentUri (pin_resolution input),
        sa_documentVersion = sr_documentVersion (pin_resolution input), sa_range = nm_range nm\<rparr>)" for j g
  have "jget (authorities_of cs) (so_matchId m) = Some a \<longleftrightarrow> R (pin_inspectMessageId input) (pin_resolutionGeneration input)"
    unfolding R_def by (rule nav)
  with opens have opens: "resolveOpen reg' m d = Some (Some a) \<longleftrightarrow>
      td_uri d = Some (sr_documentUri (pin_resolution input)) \<and>
      td_version d = sr_documentVersion (pin_resolution input) \<and>
      inspectMessageId m = pin_inspectMessageId input \<and>
      so_resolutionGeneration m = pin_resolutionGeneration input \<and>
      R (inspectMessageId m) (so_resolutionGeneration m)"
    by metis
  have "resolveOpen (snd (invalidate env i reg')) m d = Some None"
    by (simp add: resolveOpen_def invalidate_def Let_def split: option.splits)
  moreover have "distinct (map nm_matchId (xp_navigationMatches p))" using d unfolding ids(1) .
  ultimately show ?thesis using opens ids(2) unfolding R_def by (intro conjI)
qed

subsection \<open>A concrete publication\<close>

text \<open>A line of text with one match over its second to fourth character.\<close>

definition example_range :: source_range where
  "example_range = \<lparr>sr_start = \<lparr>sp_line = JInt 0, sp_character = JInt 1\<rparr>,
     sr_end = \<lparr>sp_line = JInt 0, sp_character = JInt 4\<rparr>\<rparr>"

definition example_match :: resolved_match where
  "example_match = \<lparr>rm_targetRole = Selected, rm_range = example_range, rm_label = None, rm_kind = None,
     rm_relation = None, rm_confidence = Exact, rm_pluginId = js ''css'', rm_labelProvenance = None\<rparr>"

definition example_document :: text_document where
  "example_document = \<lparr>td_uri = Some (js ''file:///a.css''), td_languageId = js ''css'', td_version = 3,
     td_getText = Some (js ''.a { }'')\<rparr>"

definition one_line_document :: plugin_document where
  "one_line_document = \<lparr>pd_uri = js ''file:///a.css'', pd_languageId = js ''css'', pd_version = 3,
     pd_positionAt = (\<lambda>offset. Some \<lparr>sp_line = JInt 0, sp_character = JInt offset\<rparr>),
     pd_offsetAt = (\<lambda>p. Some (sp_character p))\<rparr>"

definition example_input :: "plugin_document option \<Rightarrow> publication_input" where
  "example_input d = \<lparr>pin_inspectMessageId = js ''i1'', pin_resolutionGeneration = 2,
     pin_document = example_document, pin_sourceDocument = d,
     pin_resolution = \<lparr>sr_selectionMessageId = js ''i1'', sr_documentUri = js ''file:///a.css'',
       sr_documentVersion = 3, sr_matches = [example_match]\<rparr>\<rparr>"

definition example_label_env :: label_env where
  "example_label_env = \<lparr>le_url = (\<lambda>u base. None), le_visible = (\<lambda>c. False), le_upper = (\<lambda>c. False),
     le_initial_i = (\<lambda>c. False), le_visible_i = (\<lambda>c. False)\<rparr>"

definition example_excerpt_env :: "(source_matches_input \<Rightarrow> js_real option) \<Rightarrow> excerpt_env" where
  "example_excerpt_env f = \<lparr>xe_label = example_label_env, xe_localeCompare = (\<lambda>a b. 0),
     xe_createMatchId = (\<lambda>n. Some (js ''m1'')), xe_measure = f\<rparr>"

definition example_schema_env :: schema_env where
  "example_schema_env = \<lparr>se_uuid = (\<lambda>t. True), se_datetime = (\<lambda>t. True), se_url = (\<lambda>t b. None),
     se_stringify = (\<lambda>m. case m of
         SourceMatches x \<Rightarrow> Some (source_matches_text (messageId x) (sessionId x) (sm_sourceId x)
           \<lparr>smi_inspectMessageId = inspectMessageId x, smi_resolutionGeneration = sm_resolutionGeneration x,
            smi_document = sm_document x, smi_matches = sm_matches x,
            smi_omittedMatchCount = nat (sm_omittedMatchCount x)\<rparr>)
       | _ \<Rightarrow> None)\<rparr>"

theorem published_matches_ok_witness:
  "source_matches_ok example_schema_env SOURCE_PRESENTATION_ENVELOPE_MAX_BYTES
     (createSourceMatchesMessage (js ''m'') (js ''s'') (js ''c'')
       (xp_message (fst (publish
         (example_excerpt_env (\<lambda>m. Some (Finite (of_nat (conservativeEnvelopeBytes m)))))
         (example_input None) new_SourceExcerptRegistry))))"
proof (rule published_matches_ok)
  show "publication_input_ok (example_input None)"
    by (simp add: publication_input_ok_def example_input_def example_document_def opaqueId_def text_between_def
        generation_ok_def opt_ok_def RESOLUTION_LIMITS_def)
  show "stringifies_matches example_schema_env"
    by (simp add: stringifies_matches_def example_schema_env_def createSourceMatchesMessage_def
        source_matches_text_def)
qed (simp_all add: default_measure_def example_excerpt_env_def opaqueId_def text_between_def RESOLUTION_LIMITS_def)

theorem shown_matches_open_witness:
  "resolveOpen (snd (publish (example_excerpt_env (\<lambda>m. Some (Finite 0))) (example_input (Some one_line_document))
       new_SourceExcerptRegistry))
     \<lparr>messageId = js ''o'', sessionId = js ''s'', inspectMessageId = js ''i1'', so_resolutionGeneration = 2,
      so_matchId = js ''m1''\<rparr> example_document =
   Some (Some \<lparr>sa_matchId = js ''m1'', sa_inspectMessageId = js ''i1'', sa_resolutionGeneration = 2,
     sa_documentUri = js ''file:///a.css'', sa_documentVersion = 3, sa_range = example_range\<rparr>)"
proof -
  let ?env = "example_excerpt_env (\<lambda>m. Some (Finite 0))"
  let ?input = "example_input (Some one_line_document)"
  obtain p reg' where r: "publish ?env ?input new_SourceExcerptRegistry = (p, reg')" by fastforce
  have valid: "validMatches [example_match] one_line_document =
      [\<lparr>vm_match = example_match, vm_startOffset = 1, vm_endOffset = 4\<rparr>]"
    by (simp add: validMatches_def List.map_filter_def validOffsets_def validPosition_def samePosition_def
        example_match_def example_range_def one_line_document_def)
  have id: "allocateMatchId ?env n [] = (Some (js ''m1''), Suc n)" for n
    by (simp add: allocateMatchId_def MATCH_ID_GENERATION_ATTEMPTS_def numeral_eq_Suc validOpaqueId_def
        example_excerpt_env_def RESOLUTION_LIMITS_def)
  have "xp_navigationMatches p = [\<lparr>nm_matchId = js ''m1'', nm_targetRole = Selected, nm_range = example_range\<rparr>]"
    using r valid id
    by (auto simp: publish_def sourceState_def example_input_def
        publish_current_def matchesActiveDocumentIdentity_def matchesSourceDocument_def example_document_def
        one_line_document_def publish_valid_def Let_def deduplicateAndOrder_def sort_stable_def
        SOURCE_PRESENTATION_LIMITS_def publish_included_def drop_until_fits.simps fitsEnvelope_def
        createCandidate_def example_match_def example_excerpt_env_def)
  then show ?thesis
    using shown_matches_open [OF r, of "\<lparr>messageId = js ''o'', sessionId = js ''s'', inspectMessageId = js ''i1'',
        so_resolutionGeneration = 2, so_matchId = js ''m1''\<rparr>" example_document] r
    by (simp add: example_input_def example_document_def)
qed

end
