(* ===== verification/Rules_Publication.thy ===== *)
theory Rules_Publication
  imports Source_Labels Envelope_Text Rules_Authority
begin

text \<open>
  \<^verbatim>\<open>extensions/vscode/src/rules/rulesSourcesPublication.ts\<close>: from the rules the browser asked
  about and the sources the IDE resolved for them, the message that names the sources and the
  authorities that let the browser open them. The measure of the envelope and the supply of
  authority ids are parameters; \<open>pub_nextId\<close> counts the ids taken. A range of a resolved source
  comes from offsets of a text, so its positions are integers.
\<close>

subsection \<open>Resolved sources\<close>

record resolved_source =
  rr_ruleRef :: jstring
  rr_uri :: jstring
  rr_languageId :: source_language
  rr_version :: int
  rr_start :: "int \<times> int"
  rr_end :: "int \<times> int"
  rr_confidence :: rules_confidence
  rr_dependencies :: "rule_dependency list"

datatype source_resolution_result = ResolvedSource resolved_source | UnresolvedSource jstring

fun result_ruleRef :: "source_resolution_result \<Rightarrow> jstring" where
  "result_ruleRef (ResolvedSource r) = rr_ruleRef r"
| "result_ruleRef (UnresolvedSource ref) = ref"

record resolution_batch =
  rb_selectionMessageId :: jstring
  rb_results :: "source_resolution_result list"

record publication_request =
  rq_inspectMessageId :: jstring
  rq_rulesGeneration :: jsnum
  rq_ruleEvidence :: evidence_batch
  rq_resolution :: resolution_batch
  rq_workspaceGeneration :: jsnum

record rules_payload =
  rp_inspectMessageId :: jstring
  rp_rulesGeneration :: int
  rp_sources :: "rules_source list"
  rp_unresolvedRuleCount :: int

record publication_env =
  pe_label :: label_env
  pe_envelopeMaxBytes :: jsnum
  pe_measure :: "rules_payload \<Rightarrow> jsnum"
  pe_createAuthorityId :: "nat \<Rightarrow> jstring"

datatype publication_error = InspectIdMismatch | RequestGenerationInvalid | WorkspaceGenerationInvalid
  | BudgetInvalid | EnvelopeTooLarge | MeasurementInvalid | AuthorityIdInvalid | SourceRejected
  | PublicationIncomplete | RegistryRefused rules_error

subsection \<open>Steps\<close>

text \<open>The check of the constructor.\<close>

definition valid_budget :: "jsnum \<Rightarrow> int option" where
  "valid_budget b = (case b of JNonInt \<Rightarrow> None
     | JInt n \<Rightarrow> if \<not> safe_int n \<or> n < 1 \<or> n > int RULES_SOURCES_ENVELOPE_MAX_BYTES then None else Some n)"

text \<open>The request's generation when it is one.\<close>

definition validateRequest :: "publication_request \<Rightarrow> publication_error + int" where
  "validateRequest rq =
     (if rq_inspectMessageId rq \<noteq> rb_selectionMessageId (rq_resolution rq) \<or>
         length (rq_inspectMessageId rq) < 1 \<or> length (rq_inspectMessageId rq) > 128
      then Inl InspectIdMismatch
      else (case rq_rulesGeneration rq of JNonInt \<Rightarrow> Inl RequestGenerationInvalid
        | JInt n \<Rightarrow>
            if \<not> safe_int n \<or> n < 1 then Inl RequestGenerationInvalid
            else (case rq_workspaceGeneration rq of JNonInt \<Rightarrow> Inl WorkspaceGenerationInvalid
              | JInt w \<Rightarrow> if \<not> safe_int w \<or> w < 0 then Inl WorkspaceGenerationInvalid else Inr n)))"

definition orderedUniqueRuleRefs :: "evidence_batch \<Rightarrow> jstring list" where
  "orderedUniqueRuleRefs e = set_of (map ev_ruleRef (eb_rules e))"

fun collect_resolved ::
  "jstring list \<Rightarrow> jstring list \<Rightarrow> (jstring, resolved_source) jmap \<Rightarrow> source_resolution_result list \<Rightarrow>
   (jstring, resolved_source) jmap" where
  "collect_resolved expected seen resolved [] = resolved"
| "collect_resolved expected seen resolved (r # rs) =
     (let ref = result_ruleRef r
      in if ref \<notin> set expected then collect_resolved expected seen resolved rs
         else if ref \<in> set seen then collect_resolved expected seen (jdel ref resolved) rs
         else collect_resolved expected (ref # seen)
           (case r of ResolvedSource s \<Rightarrow> jset ref s resolved | UnresolvedSource _ \<Rightarrow> resolved) rs)"

definition uniqueResolvedByRuleRef :: "resolution_batch \<Rightarrow> jstring list \<Rightarrow> (jstring, resolved_source) jmap" where
  "uniqueResolvedByRuleRef b expected = collect_resolved expected [] [] (rb_results b)"

definition RULE_OPEN_AUTHORITY_PLACEHOLDER :: jstring where
  "RULE_OPEN_AUTHORITY_PLACEHOLDER = js ''00000000-0000-4000-8000-000000000000''"

text \<open>\<^verbatim>\<open>projectRulesSource\<close> of \<^verbatim>\<open>rulesSourceResolver.ts\<close> with an authority id.\<close>

definition projectRulesSource :: "label_env \<Rightarrow> resolved_source \<Rightarrow> jstring \<Rightarrow> rules_source" where
  "projectRulesSource env s openAuthorityId =
     \<lparr>rs_ruleRef = rr_ruleRef s, rs_openAuthorityId = openAuthorityId,
      rs_label = dm_label (rulesSourceDocumentMetadata env (rr_uri s) (rr_languageId s)),
      rs_languageId = dm_languageId (rulesSourceDocumentMetadata env (rr_uri s) (rr_languageId s)),
      rs_startLine = fst (rr_start s) + 1, rs_startColumn = snd (rr_start s) + 1,
      rs_confidence = rr_confidence s\<rparr>"

definition measure_payload :: "publication_env \<Rightarrow> rules_payload \<Rightarrow> publication_error + int" where
  "measure_payload env p = (case pe_measure env p of JNonInt \<Rightarrow> Inl MeasurementInvalid
     | JInt bytes \<Rightarrow> if \<not> safe_int bytes \<or> bytes < 0 then Inl MeasurementInvalid else Inr bytes)"

definition assertEnvelope :: "publication_env \<Rightarrow> int \<Rightarrow> rules_payload \<Rightarrow> publication_error option" where
  "assertEnvelope env maxBytes p = (case measure_payload env p of Inl e \<Rightarrow> Some e
     | Inr bytes \<Rightarrow> if bytes > maxBytes then Some EnvelopeTooLarge else None)"

definition payload_of :: "publication_request \<Rightarrow> int \<Rightarrow> nat \<Rightarrow> rules_source list \<Rightarrow> rules_payload" where
  "payload_of rq n expectedCount sources =
     \<lparr>rp_inspectMessageId = rq_inspectMessageId rq, rp_rulesGeneration = n, rp_sources = sources,
      rp_unresolvedRuleCount = int expectedCount - int (length sources)\<rparr>"

text \<open>The sources that fit, in the order of the rules; after the first that does not, none is taken.\<close>

fun pack_sources ::
  "publication_env \<Rightarrow> int \<Rightarrow> (rules_source list \<Rightarrow> rules_payload) \<Rightarrow> (jstring, resolved_source) jmap \<Rightarrow>
   resolved_source list \<Rightarrow> jstring list \<Rightarrow> publication_error + resolved_source list" where
  "pack_sources env maxBytes payload resolved packed [] = Inr packed"
| "pack_sources env maxBytes payload resolved packed (ref # refs) =
     (case jget resolved ref of None \<Rightarrow> pack_sources env maxBytes payload resolved packed refs
      | Some s \<Rightarrow>
          let candidateSources = map (\<lambda>p. projectRulesSource (pe_label env) p RULE_OPEN_AUTHORITY_PLACEHOLDER)
            (packed @ [s])
          in if length candidateSources > lim_sources RULES_SOURCES_LIMITS then Inr packed
             else (case measure_payload env (payload candidateSources) of
                 Inl e \<Rightarrow> Inl e
               | Inr bytes \<Rightarrow>
                   if bytes > maxBytes then Inr packed
                   else pack_sources env maxBytes payload resolved (packed @ [s]) refs))"

definition uuid_hex :: "nat \<Rightarrow> jstring \<Rightarrow> bool" where
  "uuid_hex n t \<longleftrightarrow> length t = n \<and> list_all (\<lambda>c. is_digit c \<or> 97 \<le> ascii_lower c \<and> ascii_lower c \<le> 102) t"

text \<open>\<^verbatim>\<open>/^[0-9a-f]{8}-[0-9a-f]{4}-[1-5][0-9a-f]{3}-[89ab][0-9a-f]{3}-[0-9a-f]{12}$/i\<close>\<close>

definition uuid_pattern :: "jstring \<Rightarrow> bool" where
  "uuid_pattern t = (case split_on 0x2d t of
       [a, b, c, d, e] \<Rightarrow> uuid_hex 8 a \<and> uuid_hex 4 b \<and> uuid_hex 4 c \<and> 0x31 \<le> hd c \<and> hd c \<le> 0x35 \<and>
         uuid_hex 4 d \<and> ascii_lower (hd d) \<in> {0x38, 0x39, 0x61, 0x62} \<and> uuid_hex 12 e
     | _ \<Rightarrow> False)"

definition source_range_of :: "resolved_source \<Rightarrow> source_range" where
  "source_range_of s =
     \<lparr>sr_start = \<lparr>sp_line = JInt (fst (rr_start s)), sp_character = JInt (snd (rr_start s))\<rparr>,
      sr_end = \<lparr>sp_line = JInt (fst (rr_end s)), sp_character = JInt (snd (rr_end s))\<rparr>\<rparr>"

definition authority_for :: "publication_request \<Rightarrow> resolved_source \<Rightarrow> jstring \<Rightarrow> stored_authority" where
  "authority_for rq s openAuthorityId =
     \<lparr>st_openAuthorityId = openAuthorityId, st_inspectMessageId = rq_inspectMessageId rq,
      st_rulesGeneration = rq_rulesGeneration rq, st_ruleRef = rr_ruleRef s,
      st_documentUri = rr_uri s, st_documentVersion = JInt (rr_version s),
      st_range = source_range_of s, st_workspaceGeneration = rq_workspaceGeneration rq,
      st_dependencies = rr_dependencies s\<rparr>"

text \<open>An id and an authority for each packed source; the schema may refuse a source.\<close>

fun issue_authorities ::
  "publication_env \<Rightarrow> publication_request \<Rightarrow> nat \<Rightarrow> resolved_source list \<Rightarrow>
   (publication_error + (rules_source \<times> stored_authority) list) \<times> nat" where
  "issue_authorities env rq k [] = (Inr [], k)"
| "issue_authorities env rq k (s # ss) =
     (let openAuthorityId = pe_createAuthorityId env k;
          source = projectRulesSource (pe_label env) s openAuthorityId
      in if length openAuthorityId \<noteq> length RULE_OPEN_AUTHORITY_PLACEHOLDER \<or> \<not> uuid_pattern openAuthorityId
         then (Inl AuthorityIdInvalid, Suc k)
         else if \<not> rules_source_ok source then (Inl SourceRejected, Suc k)
         else (case issue_authorities env rq (Suc k) ss of
             (Inl e, k') \<Rightarrow> (Inl e, k')
           | (Inr rest, k') \<Rightarrow> (Inr ((source, authority_for rq s openAuthorityId) # rest), k')))"

subsection \<open>The publication\<close>

record publication_state =
  pub_registry :: rules_registry
  pub_nextId :: nat

text \<open>The payload and the preparation of the registry that \<^verbatim>\<open>activate\<close>, \<^verbatim>\<open>commit\<close>, \<^verbatim>\<open>rollback\<close> act on.\<close>

record prepared_rules_publication =
  prp_payload :: rules_payload
  prp_preparation :: nat

definition finish_publication ::
  "publication_env \<Rightarrow> (jstring \<Rightarrow> url_parts option) \<Rightarrow> publication_request \<Rightarrow> int \<Rightarrow> int \<Rightarrow> nat \<Rightarrow>
   (rules_source \<times> stored_authority) list \<Rightarrow> rules_registry \<Rightarrow>
   (publication_error + prepared_rules_publication) \<times> rules_registry" where
  "finish_publication env parse rq maxBytes n expectedCount entries reg =
     (let payload = payload_of rq n expectedCount (map fst entries)
      in if int (length (rp_sources payload)) + rp_unresolvedRuleCount payload \<noteq> int expectedCount
         then (Inl PublicationIncomplete, reg)
         else (case assertEnvelope env maxBytes payload of
             Some e \<Rightarrow> (Inl e, reg)
           | None \<Rightarrow>
               (case prepare_generation parse \<lparr>gi_inspectMessageId = rq_inspectMessageId rq,
                   gi_rulesGeneration = rq_rulesGeneration rq, gi_authorities = map snd entries\<rparr> reg of
                  (Inl e, reg') \<Rightarrow> (Inl (RegistryRefused e), reg')
                | (Inr pid, reg') \<Rightarrow> (Inr \<lparr>prp_payload = payload, prp_preparation = pid\<rparr>, reg'))))"

definition prepare_publication ::
  "publication_env \<Rightarrow> (jstring \<Rightarrow> url_parts option) \<Rightarrow> publication_request \<Rightarrow> publication_state \<Rightarrow>
   (publication_error + prepared_rules_publication) \<times> publication_state" where
  "prepare_publication env parse rq s =
     (case valid_budget (pe_envelopeMaxBytes env) of None \<Rightarrow> (Inl BudgetInvalid, s)
      | Some maxBytes \<Rightarrow>
     (case validateRequest rq of Inl e \<Rightarrow> (Inl e, s)
      | Inr n \<Rightarrow>
          let expected = orderedUniqueRuleRefs (rq_ruleEvidence rq);
              resolved = uniqueResolvedByRuleRef (rq_resolution rq) expected;
              payload = payload_of rq n (length expected)
          in (case assertEnvelope env maxBytes (payload []) of Some e \<Rightarrow> (Inl e, s)
            | None \<Rightarrow>
              (case pack_sources env maxBytes payload resolved [] expected of Inl e \<Rightarrow> (Inl e, s)
               | Inr packed \<Rightarrow>
                   (case issue_authorities env rq (pub_nextId s) packed of
                      (Inl e, k) \<Rightarrow> (Inl e, s\<lparr>pub_nextId := k\<rparr>)
                    | (Inr entries, k) \<Rightarrow>
                        (case finish_publication env parse rq maxBytes n (length expected) entries (pub_registry s) of
                           (r, reg) \<Rightarrow> (r, \<lparr>pub_registry = reg, pub_nextId = k\<rparr>)))))))"

text \<open>\<^verbatim>\<open>activate\<close>, \<^verbatim>\<open>commit\<close> and \<^verbatim>\<open>rollback\<close> of a prepared publication.\<close>

definition preparedPublication ::
  "(nat \<Rightarrow> unit rules_eff) \<Rightarrow> prepared_rules_publication \<Rightarrow> publication_state \<Rightarrow> (rules_error + unit) \<times> publication_state" where
  "preparedPublication act p s = (case act (prp_preparation p) (pub_registry s) of
     (r, reg) \<Rightarrow> (r, s\<lparr>pub_registry := reg\<rparr>))"

subsection \<open>The envelope\<close>

fun language_text :: "source_language \<Rightarrow> string" where
  "language_text Css = ''css''"
| "language_text Scss = ''scss''"

fun rules_confidence_text :: "rules_confidence \<Rightarrow> string" where
  "rules_confidence_text ExactSource = ''exact''"
| "rules_confidence_text SourcemapSource = ''sourcemap''"

definition rules_source_text :: "rules_source \<Rightarrow> jstring" where
  "rules_source_text s = json_object_text
     [(''ruleRef'', json_quote (rs_ruleRef s)),
      (''document'', json_object_text [(''label'', json_quote (rs_label s)),
         (''languageId'', json_quote (js (language_text (rs_languageId s))))]),
      (''startLine'', json_int (rs_startLine s)),
      (''startColumn'', json_int (rs_startColumn s)),
      (''confidence'', json_quote (js (rules_confidence_text (rs_confidence s)))),
      (''openAuthorityId'', json_quote (rs_openAuthorityId s))]"

definition rules_sources_text :: "jstring \<Rightarrow> jstring \<Rightarrow> jstring \<Rightarrow> rules_payload \<Rightarrow> jstring" where
  "rules_sources_text mid sid src p = json_object_text
     [(''protocolVersion'', json_int PROTOCOL_VERSION),
      (''type'', json_quote (js ''rules.sources'')),
      (''messageId'', json_quote mid),
      (''sessionId'', json_quote sid),
      (''source'', json_object_text [(''role'', json_quote (js ''ide'')), (''id'', json_quote src)]),
      (''inspectMessageId'', json_quote (rp_inspectMessageId p)),
      (''rulesGeneration'', json_int (rp_rulesGeneration p)),
      (''sources'', json_array_text (map rules_source_text (rp_sources p))),
      (''unresolvedRuleCount'', json_int (rp_unresolvedRuleCount p)),
      (''metadata'', json_object_text [])]"

definition measureConservativeEnvelope :: "rules_payload \<Rightarrow> jsnum" where
  "measureConservativeEnvelope p = (let id = replicate (lim_opaqueIdLength RESOLUTION_LIMITS) 0
     in JInt (int (utf8ByteLength (rules_sources_text id id id p))))"

definition createRulesSourcesMessage ::
  "jstring \<Rightarrow> jstring \<Rightarrow> jstring \<Rightarrow> rules_payload \<Rightarrow> rules_sources_message" where
  "createRulesSourcesMessage mid sid src p =
     \<lparr>messageId = mid, sessionId = sid, inspectMessageId = rp_inspectMessageId p, rsm_sourceId = src,
      rsm_rulesGeneration = rp_rulesGeneration p, rsm_sources = rp_sources p,
      rsm_unresolvedRuleCount = rp_unresolvedRuleCount p\<rparr>"

end
