(* ===== verification/Rules_Publication_Theorems.thy ===== *)
theory Rules_Publication_Theorems
  imports Rules_Publication Rules_Authority_Theorems
begin

text \<open>
  What a publication of \<^verbatim>\<open>rulesSourcesPublication.ts\<close> promises: it accounts for every requested
  rule, the protocol accepts its message, and activating it lets the browser open exactly the
  sources it names. Also a name of a stylesheet that makes the whole publication fail.
\<close>

subsection \<open>Unambiguous resolutions\<close>

text \<open>The source of a rule for which there is exactly one result.\<close>

definition sole_source :: "source_resolution_result list \<Rightarrow> jstring \<Rightarrow> resolved_source option" where
  "sole_source rs ref = (case filter (\<lambda>r. result_ruleRef r = ref) rs of
     [ResolvedSource s] \<Rightarrow> Some s | _ \<Rightarrow> None)"

lemma collect_resolved_sole:
  "(\<forall>k. jget resolved k \<noteq> None \<longrightarrow> k \<in> set seen) \<Longrightarrow>
   jget (collect_resolved expected seen resolved rs) ref =
     (if ref \<notin> set expected then jget resolved ref
      else if ref \<in> set seen
        then (if \<exists>r\<in>set rs. result_ruleRef r = ref then None else jget resolved ref)
      else sole_source rs ref)"
proof (induction rs arbitrary: seen resolved)
  case Nil
  then show ?case by (auto simp: sole_source_def)
next
  case (Cons r rs)
  let ?k = "result_ruleRef r"
  show ?case
  proof (cases "?k \<in> set expected")
    case False
    then show ?thesis using Cons.IH [OF Cons.prems] by (auto simp: sole_source_def)
  next
    case exp: True
    show ?thesis
    proof (cases "?k \<in> set seen")
      case True
      have "\<forall>k. jget (jdel ?k resolved) k \<noteq> None \<longrightarrow> k \<in> set seen" using Cons.prems by simp
      note IH = Cons.IH [OF this]
      show ?thesis using exp True by (auto simp: IH sole_source_def)
    next
      case False
      let ?m = "case r of ResolvedSource s \<Rightarrow> jset ?k s resolved | UnresolvedSource _ \<Rightarrow> resolved"
      have new: "jget resolved ?k = None" using Cons.prems False by blast
      have m: "jget ?m k = (if k = ?k then (case r of ResolvedSource s \<Rightarrow> Some s | UnresolvedSource _ \<Rightarrow> None)
          else jget resolved k)" for k
        using new by (auto split: source_resolution_result.split)
      have "\<forall>k. jget ?m k \<noteq> None \<longrightarrow> k \<in> set (?k # seen)" using Cons.prems by (simp add: m)
      note IH = Cons.IH [OF this]
      have none: "(\<exists>x\<in>set rs. result_ruleRef x = ?k) \<longleftrightarrow> filter (\<lambda>x. result_ruleRef x = ?k) rs \<noteq> []"
        by (auto simp: filter_empty_conv)
      have "jget (collect_resolved expected seen resolved (r # rs)) ref =
          jget (collect_resolved expected (?k # seen) ?m rs) ref"
        using exp False by (simp add: Let_def)
      also have "\<dots> = (if ref \<notin> set expected then jget resolved ref
          else if ref \<in> set seen then (if \<exists>x\<in>set (r # rs). result_ruleRef x = ref then None else jget resolved ref)
          else sole_source (r # rs) ref)"
      proof (cases "ref = ?k")
        case True
        then show ?thesis using exp False none unfolding IH m
          by (cases "filter (\<lambda>x. result_ruleRef x = ?k) rs") (auto simp: sole_source_def split: source_resolution_result.split)
      next
        case other: False
        then show ?thesis unfolding IH m by (auto simp: sole_source_def)
      qed
      finally show ?thesis .
    qed
  qed
qed

lemma uniqueResolved_sole:
  "jget (uniqueResolvedByRuleRef b expected) ref =
     (if ref \<in> set expected then sole_source (rb_results b) ref else None)"
  by (simp add: uniqueResolvedByRuleRef_def collect_resolved_sole)

lemma sole_source_ref: "sole_source rs ref = Some s \<Longrightarrow> rr_ruleRef s = ref \<and> ResolvedSource s \<in> set rs"
proof -
  assume "sole_source rs ref = Some s"
  then have "filter (\<lambda>r. result_ruleRef r = ref) rs = [ResolvedSource s]"
    by (auto simp: sole_source_def split: list.splits source_resolution_result.splits)
  then have "ResolvedSource s \<in> set (filter (\<lambda>r. result_ruleRef r = ref) rs)" by simp
  then show ?thesis by simp
qed

subsection \<open>What is packed and issued\<close>

lemma pack_sources_result:
  assumes "pack_sources env maxBytes payload resolved packed refs = Inr out"
    and "\<And>ref s. jget resolved ref = Some s \<Longrightarrow> rr_ruleRef s = ref"
    and "length packed \<le> lim_sources RULES_SOURCES_LIMITS"
  shows "\<exists>ys k. out = packed @ ys \<and> map rr_ruleRef ys = take k (filter (\<lambda>r. jget resolved r \<noteq> None) refs) \<and>
     (\<forall>s\<in>set ys. jget resolved (rr_ruleRef s) = Some s) \<and> length out \<le> lim_sources RULES_SOURCES_LIMITS"
  using assms
proof (induction refs arbitrary: packed)
  case (Cons ref refs)
  show ?case
  proof (cases "jget resolved ref")
    case None
    then show ?thesis using Cons by simp
  next
    case (Some s)
    have ref: "rr_ruleRef s = ref" by (rule Cons.prems(2) [OF Some])
    have stop: ?thesis if "out = packed"
      using that Cons.prems(3) by (intro exI [of _ "[]"] exI [of _ 0]) simp
    let ?c = "map (\<lambda>p. projectRulesSource (pe_label env) p RULE_OPEN_AUTHORITY_PLACEHOLDER) (packed @ [s])"
    show ?thesis
    proof (cases "length ?c > lim_sources RULES_SOURCES_LIMITS")
      case True
      then show ?thesis using Cons.prems(1) Some by (intro stop) (simp add: Let_def)
    next
      case fits: False
      show ?thesis
      proof (cases "measure_payload env (payload ?c)")
        case (Inl e)
        then show ?thesis using Cons.prems(1) Some fits by (simp add: Let_def)
      next
        case (Inr bytes)
        show ?thesis
        proof (cases "bytes > maxBytes")
          case True
          then show ?thesis using Cons.prems(1) Some fits Inr by (intro stop) (simp add: Let_def)
        next
          case False
          have "pack_sources env maxBytes payload resolved (packed @ [s]) refs = Inr out"
            using Cons.prems(1) Some fits Inr False by (simp add: Let_def)
          from Cons.IH [OF this Cons.prems(2)] fits obtain ys k where
            "out = (packed @ [s]) @ ys" "map rr_ruleRef ys = take k (filter (\<lambda>r. jget resolved r \<noteq> None) refs)"
            "\<forall>s\<in>set ys. jget resolved (rr_ruleRef s) = Some s" "length out \<le> lim_sources RULES_SOURCES_LIMITS"
            by auto
          then show ?thesis using Some ref
            by (intro exI [of _ "s # ys"] exI [of _ "Suc k"]) simp
        qed
      qed
    qed
  qed
next
  case Nil
  then show ?case by (intro exI [of _ "[]"] exI [of _ 0]) simp
qed

definition issued_for ::
  "publication_env \<Rightarrow> publication_request \<Rightarrow> resolved_source \<Rightarrow> rules_source \<times> stored_authority \<Rightarrow> bool" where
  "issued_for env rq s entry \<longleftrightarrow> (\<exists>i. entry = (projectRulesSource (pe_label env) s i, authority_for rq s i)) \<and>
     rules_source_ok (fst entry)"

lemma issue_authorities_result:
  "issue_authorities env rq k ss = (Inr entries, k') \<Longrightarrow> list_all2 (issued_for env rq) ss entries"
proof (induction ss arbitrary: k entries)
  case (Cons s ss)
  then obtain rest where "issue_authorities env rq (Suc k) ss = (Inr rest, k')"
    "entries = (projectRulesSource (pe_label env) s (pe_createAuthorityId env k),
       authority_for rq s (pe_createAuthorityId env k)) # rest"
    "rules_source_ok (projectRulesSource (pe_label env) s (pe_createAuthorityId env k))"
    by (auto simp: Let_def split: if_splits prod.splits sum.splits)
  then show ?case using Cons.IH by (auto simp: issued_for_def)
qed simp

definition generation_of :: "publication_request \<Rightarrow> (rules_source \<times> stored_authority) list \<Rightarrow> generation_input" where
  "generation_of rq entries = \<lparr>gi_inspectMessageId = rq_inspectMessageId rq,
     gi_rulesGeneration = rq_rulesGeneration rq, gi_authorities = map snd entries\<rparr>"

lemma assertEnvelope_None:
  "assertEnvelope env maxBytes p = None \<Longrightarrow> \<exists>bytes. pe_measure env p = JInt bytes \<and> bytes \<le> maxBytes"
  by (auto simp: assertEnvelope_def measure_payload_def split: sum.splits jsnum.splits if_splits)

lemma finish_publication_Inr:
  assumes "finish_publication env parse rq maxBytes n c entries reg = (Inr prp, reg')"
  shows "prp_payload prp = payload_of rq n c (map fst entries)"
    "\<exists>bytes. pe_measure env (prp_payload prp) = JInt bytes \<and> bytes \<le> maxBytes"
    "prepare_generation parse (generation_of rq entries) reg = (Inr (prp_preparation prp), reg')"
proof -
  let ?p = "payload_of rq n c (map fst entries)"
  have ok: "int (length (rp_sources ?p)) + rp_unresolvedRuleCount ?p = int c"
    by (simp add: payload_of_def)
  have a: "assertEnvelope env maxBytes ?p = None"
    using assms ok by (cases "assertEnvelope env maxBytes ?p") (simp_all add: finish_publication_def Let_def)
  obtain r reg1 where g: "prepare_generation parse (generation_of rq entries) reg = (r, reg1)" by fastforce
  have "(case r of Inl e \<Rightarrow> (Inl (RegistryRefused e), reg1) | Inr pid \<Rightarrow> (Inr \<lparr>prp_payload = ?p, prp_preparation = pid\<rparr>, reg1)) = (Inr prp, reg')"
    using assms ok a g by (simp add: finish_publication_def Let_def generation_of_def)
  then have "r = Inr (prp_preparation prp)" "reg1 = reg'" "prp_payload prp = ?p" by (cases r; auto)+
  then show "prp_payload prp = ?p" "prepare_generation parse (generation_of rq entries) reg = (Inr (prp_preparation prp), reg')"
    "\<exists>bytes. pe_measure env (prp_payload prp) = JInt bytes \<and> bytes \<le> maxBytes"
    using g assertEnvelope_None [OF a] by simp_all
qed

lemma validateRequest_Inr:
  "validateRequest rq = Inr n \<Longrightarrow> rq_rulesGeneration rq = JInt n \<and>
     0 < length (rq_inspectMessageId rq) \<and> length (rq_inspectMessageId rq) \<le> 128"
  by (auto simp: validateRequest_def split: if_splits jsnum.splits)

text \<open>What a request that is prepared leads to.\<close>

definition prepared_for ::
  "publication_env \<Rightarrow> (jstring \<Rightarrow> url_parts option) \<Rightarrow> publication_request \<Rightarrow> rules_registry \<Rightarrow> rules_registry \<Rightarrow>
   prepared_rules_publication \<Rightarrow> resolved_source list \<Rightarrow> (rules_source \<times> stored_authority) list \<Rightarrow> int \<Rightarrow> bool" where
  "prepared_for env parse rq reg reg' prp packed entries n \<longleftrightarrow>
     rq_rulesGeneration rq = JInt n \<and> opaqueId (rq_inspectMessageId rq) \<and>
     (\<exists>maxBytes bytes. valid_budget (pe_envelopeMaxBytes env) = Some maxBytes \<and>
        pe_measure env (prp_payload prp) = JInt bytes \<and> bytes \<le> maxBytes) \<and>
     (\<exists>k. map rr_ruleRef packed = take k (filter (\<lambda>ref. sole_source (rb_results (rq_resolution rq)) ref \<noteq> None)
        (orderedUniqueRuleRefs (rq_ruleEvidence rq)))) \<and>
     (\<forall>s\<in>set packed. rr_ruleRef s \<in> set (orderedUniqueRuleRefs (rq_ruleEvidence rq)) \<and>
        sole_source (rb_results (rq_resolution rq)) (rr_ruleRef s) = Some s) \<and>
     length packed \<le> lim_sources RULES_SOURCES_LIMITS \<and>
     list_all2 (issued_for env rq) packed entries \<and>
     prp_payload prp = payload_of rq n (length (orderedUniqueRuleRefs (rq_ruleEvidence rq))) (map fst entries) \<and>
     prepare_generation parse (generation_of rq entries) reg = (Inr (prp_preparation prp), reg')"

lemma prepare_publication_Inr:
  assumes "prepare_publication env parse rq s = (Inr prp, s')"
  shows "\<exists>packed entries n. prepared_for env parse rq (pub_registry s) (pub_registry s') prp packed entries n"
proof -
  define expected where "expected = orderedUniqueRuleRefs (rq_ruleEvidence rq)"
  define resolved where "resolved = uniqueResolvedByRuleRef (rq_resolution rq) expected"
  obtain maxBytes where b: "valid_budget (pe_envelopeMaxBytes env) = Some maxBytes"
    using assms by (cases "valid_budget (pe_envelopeMaxBytes env)") (simp_all add: prepare_publication_def)
  obtain n where n: "validateRequest rq = Inr n"
    using assms b by (cases "validateRequest rq") (simp_all add: prepare_publication_def)
  have e: "assertEnvelope env maxBytes (payload_of rq n (length expected) []) = None"
    using assms b n by (cases "assertEnvelope env maxBytes (payload_of rq n (length expected) [])")
      (simp_all add: prepare_publication_def Let_def expected_def)
  obtain packed where p: "pack_sources env maxBytes (payload_of rq n (length expected)) resolved [] expected = Inr packed"
    using assms b n e by (cases "pack_sources env maxBytes (payload_of rq n (length expected)) resolved [] expected")
      (simp_all add: prepare_publication_def Let_def expected_def resolved_def)
  obtain r k where i: "issue_authorities env rq (pub_nextId s) packed = (r, k)" by fastforce
  obtain entries where r: "r = Inr entries"
    using assms b n e p i by (cases r) (simp_all add: prepare_publication_def Let_def expected_def resolved_def)
  obtain f reg where f: "finish_publication env parse rq maxBytes n (length expected) entries (pub_registry s) = (f, reg)"
    by fastforce
  have fr: "f = Inr prp" "pub_registry s' = reg"
    using assms b n e p i r f by (auto simp: prepare_publication_def Let_def expected_def resolved_def)
  note fin = finish_publication_Inr [OF f [unfolded fr(1)]]
  have res: "jget resolved ref = (if ref \<in> set expected then sole_source (rb_results (rq_resolution rq)) ref else None)" for ref
    unfolding resolved_def by (rule uniqueResolved_sole)
  have "rr_ruleRef x = ref" if "jget resolved ref = Some x" for ref x
    using that sole_source_ref by (auto simp: res split: if_splits)
  then obtain ys j where ys: "packed = ys" "map rr_ruleRef ys = take j (filter (\<lambda>r. jget resolved r \<noteq> None) expected)"
    "\<forall>x\<in>set ys. jget resolved (rr_ruleRef x) = Some x" "length packed \<le> lim_sources RULES_SOURCES_LIMITS"
    using pack_sources_result [OF p] by auto
  have "filter (\<lambda>r. jget resolved r \<noteq> None) expected = filter (\<lambda>ref. sole_source (rb_results (rq_resolution rq)) ref \<noteq> None) expected"
    by (rule filter_cong) (simp_all add: res)
  then have "\<exists>k. map rr_ruleRef packed = take k (filter (\<lambda>ref. sole_source (rb_results (rq_resolution rq)) ref \<noteq> None) expected)"
    using ys(1,2) by auto
  moreover have "\<forall>x\<in>set packed. rr_ruleRef x \<in> set expected \<and> sole_source (rb_results (rq_resolution rq)) (rr_ruleRef x) = Some x"
    using ys(1,3) by (auto simp: res split: if_splits)
  moreover note validateRequest_Inr [OF n]
  ultimately have "prepared_for env parse rq (pub_registry s) (pub_registry s') prp packed entries n"
    unfolding prepared_for_def expected_def [symmetric] fr(2)
    using b fin ys(4) issue_authorities_result [OF i [unfolded r]]
    by (simp add: opaqueId_def text_between_def RESOLUTION_LIMITS_def Suc_le_eq)
  then show ?thesis by blast
qed

subsection \<open>The message\<close>

lemma rules_sources_text_bytes:
  "utf8ByteLength (rules_sources_text mid sid src p) =
     utf8ByteLength (json_quote mid) + utf8ByteLength (json_quote sid) + utf8ByteLength (json_quote src) +
     (utf8ByteLength (rules_sources_text [] [] [] p) - 6)"
proof -
  have "utf8ByteLength (json_quote []) = 2" using utf8_quote_zeros [of 0] by simp
  then show ?thesis unfolding rules_sources_text_def
    by (subst (1 2) utf8_object) (simp_all add: utf8_object)
qed

lemma conservative_rules_envelope:
  assumes "opaqueId mid" "opaqueId sid" "opaqueId src" and "measureConservativeEnvelope p = JInt bytes"
  shows "int (utf8ByteLength (rules_sources_text mid sid src p)) \<le> bytes"
proof -
  let ?n = "lim_opaqueIdLength RESOLUTION_LIMITS"
  have q: "utf8ByteLength (json_quote i) \<le> 6 * ?n + 2" if "opaqueId i" for i
    using utf8_json_quote [of i] that by (simp add: opaqueId_def text_between_def)
  have "bytes = int (3 * (6 * ?n + 2) + (utf8ByteLength (rules_sources_text [] [] [] p) - 6))"
    using assms(4) unfolding measureConservativeEnvelope_def Let_def
    by (subst (asm) rules_sources_text_bytes) (simp add: utf8_quote_zeros)
  moreover have "utf8ByteLength (json_quote mid) + utf8ByteLength (json_quote sid) + utf8ByteLength (json_quote src) \<le>
      3 * (6 * ?n + 2)"
    using q [OF assms(1)] q [OF assms(2)] q [OF assms(3)] by simp
  then have "utf8ByteLength (rules_sources_text mid sid src p) \<le>
      3 * (6 * ?n + 2) + (utf8ByteLength (rules_sources_text [] [] [] p) - 6)"
    by (subst rules_sources_text_bytes) (rule add_right_mono)
  ultimately show ?thesis by simp
qed

lemma issued_parts:
  assumes "list_all2 (issued_for env rq) packed entries"
  shows "map rs_ruleRef (map fst entries) = map rr_ruleRef packed"
    "map rs_openAuthorityId (map fst entries) = map st_openAuthorityId (map snd entries)"
    "list_all rules_source_ok (map fst entries)" "length entries = length packed"
  using assms
  by (induction rule: list_all2_induct)
    (auto simp: issued_for_def projectRulesSource_def authority_for_def)

lemma prepared_distinct:
  assumes "prepared_for env parse rq reg reg' prp packed entries n"
  shows "distinct (map rr_ruleRef packed)" "distinct (map st_openAuthorityId (map snd entries))"
    "length packed \<le> length (orderedUniqueRuleRefs (rq_ruleEvidence rq))"
    "n \<le> lim_generation RESOLUTION_LIMITS" "1 \<le> n"
proof -
  obtain k where k: "map rr_ruleRef packed = take k (filter (\<lambda>ref. sole_source (rb_results (rq_resolution rq)) ref \<noteq> None)
      (orderedUniqueRuleRefs (rq_ruleEvidence rq)))"
    using assms by (auto simp: prepared_for_def)
  show "distinct (map rr_ruleRef packed)"
    unfolding k by (simp add: orderedUniqueRuleRefs_def distinct_take distinct_filter)
  have "length (map rr_ruleRef packed) \<le> length (filter (\<lambda>ref. sole_source (rb_results (rq_resolution rq)) ref \<noteq> None)
      (orderedUniqueRuleRefs (rq_ruleEvidence rq)))"
    unfolding k by simp
  then show "length packed \<le> length (orderedUniqueRuleRefs (rq_ruleEvidence rq))"
    using length_filter_le order_trans unfolding length_map by blast
  have "prepare_generation parse (generation_of rq entries) reg = (Inr (prp_preparation prp), reg')"
    using assms by (simp add: prepared_for_def)
  then obtain m hi where v: "validateGenerationInput parse (generation_of rq entries) hi = Inr m"
    by (rule prepare_generation_Inr)
  have "JInt n = JInt m" using validateGenerationInput_Inr(1) [OF v] assms
    by (simp add: generation_of_def prepared_for_def)
  then show "n \<le> lim_generation RESOLUTION_LIMITS" "1 \<le> n"
    using validateGenerationInput_Inr(2,4) [OF v] by simp_all
  show "distinct (map st_openAuthorityId (map snd entries))"
    using validate_authorities_None [OF validateGenerationInput_Inr(5) [OF v]]
    by (simp add: generation_of_def comp_def)
qed

text \<open>\<^verbatim>\<open>JSON.stringify\<close> of a message with rule sources, whatever its ids.\<close>

definition stringifies_rules_sources :: "schema_env \<Rightarrow> bool" where
  "stringifies_rules_sources senv \<longleftrightarrow> (\<forall>mid sid src p.
     se_stringify senv (RulesSources (createRulesSourcesMessage mid sid src p)) =
       Some (rules_sources_text mid sid src p))"

text \<open>C18:
  Whatever the browser asks and the IDE resolves, a publication that is prepared is a message the
  protocol accepts, with any ids the bridge client adds: at most 256 sources that pass their schema,
  without a repeated rule or authority, within the byte budget of the envelope; its sources are,
  in the order of the request, the first of the rules that were resolved unambiguously, and the
  rest is counted as unresolved.
\<close>
theorem rules_publication_accepted:
  assumes "prepare_publication env parse rq s = (Inr prp, s')"
    and "pe_measure env = measureConservativeEnvelope" and "stringifies_rules_sources senv"
    and "length (eb_rules (rq_ruleEvidence rq)) \<le> lim_rules RULE_EVIDENCE_LIMITS"
    and "opaqueId mid" and "opaqueId sid" and "opaqueId src"
  shows "rules_sources_ok senv RULES_SOURCES_ENVELOPE_MAX_BYTES
      (createRulesSourcesMessage mid sid src (prp_payload prp)) \<and>
    (\<exists>k. map rs_ruleRef (rp_sources (prp_payload prp)) =
      take k (filter (\<lambda>ref. sole_source (rb_results (rq_resolution rq)) ref \<noteq> None)
        (orderedUniqueRuleRefs (rq_ruleEvidence rq)))) \<and>
    int (length (rp_sources (prp_payload prp))) + rp_unresolvedRuleCount (prp_payload prp) =
      int (card (ev_ruleRef ` set (eb_rules (rq_ruleEvidence rq))))"
proof -
  obtain packed entries n where p: "prepared_for env parse rq (pub_registry s) (pub_registry s') prp packed entries n"
    using prepare_publication_Inr [OF assms(1)] by blast
  then have issued: "list_all2 (issued_for env rq) packed entries"
    and pay: "prp_payload prp = payload_of rq n (length (orderedUniqueRuleRefs (rq_ruleEvidence rq))) (map fst entries)"
    and insp: "opaqueId (rq_inspectMessageId rq)" and few: "length packed \<le> lim_sources RULES_SOURCES_LIMITS"
    by (simp_all add: prepared_for_def)
  note parts = issued_parts [OF issued] and d = prepared_distinct [OF p]
  have card: "length (orderedUniqueRuleRefs (rq_ruleEvidence rq)) = card (ev_ruleRef ` set (eb_rules (rq_ruleEvidence rq)))"
    by (simp add: orderedUniqueRuleRefs_def length_set_of)
  also have "\<dots> \<le> lim_rules RULE_EVIDENCE_LIMITS"
    using card_image_le [of "set (eb_rules (rq_ruleEvidence rq))" ev_ruleRef]
      card_length [of "eb_rules (rq_ruleEvidence rq)"] assms(4) by simp
  finally have refs: "length (orderedUniqueRuleRefs (rq_ruleEvidence rq)) \<le> 256"
    by (simp add: RULE_EVIDENCE_LIMITS_def)
  obtain maxBytes bytes where bytes: "valid_budget (pe_envelopeMaxBytes env) = Some maxBytes"
    "measureConservativeEnvelope (prp_payload prp) = JInt bytes" "bytes \<le> maxBytes"
    using p assms(2) by (auto simp: prepared_for_def)
  have "maxBytes \<le> int RULES_SOURCES_ENVELOPE_MAX_BYTES"
    using bytes(1) by (auto simp: valid_budget_def split: jsnum.splits if_splits)
  then have budget: "utf8ByteLength (rules_sources_text mid sid src (prp_payload prp)) \<le> RULES_SOURCES_ENVELOPE_MAX_BYTES"
    using conservative_rules_envelope [OF assms(5-7) bytes(2)] bytes(3) by linarith
  have "unique_sources [] [] (map fst entries)"
    unfolding unique_sources_iff unique_refs_iff parts(1,2) using d(1,2) by simp
  moreover have "generation_ok n" using d(4,5) by (simp add: generation_ok_def)
  ultimately have "rules_sources_ok senv RULES_SOURCES_ENVELOPE_MAX_BYTES
      (createRulesSourcesMessage mid sid src (prp_payload prp))"
    using assms(3,5-7) insp few parts(3,4) d(3) refs budget
    by (simp add: rules_sources_ok_def serialized_budget_ok_def stringifies_rules_sources_def pay)
      (simp add: createRulesSourcesMessage_def payload_of_def RULES_SOURCES_LIMITS_def)
  moreover have "map rs_ruleRef (rp_sources (prp_payload prp)) = map rr_ruleRef packed"
    using parts(1) by (simp add: pay payload_of_def)
  moreover have "int (length (rp_sources (prp_payload prp))) + rp_unresolvedRuleCount (prp_payload prp) =
      int (card (ev_ruleRef ` set (eb_rules (rq_ruleEvidence rq))))"
    by (simp add: pay payload_of_def card)
  ultimately show ?thesis using p unfolding prepared_for_def by simp
qed

subsection \<open>What may be opened\<close>

lemma activation_authorizes:
  assumes "prepare_generation parse g reg = (Inr pid, reg1)"
  shows "authorize_tuple t reg1 = authorize_tuple t reg"
    "\<exists>reg2. activate_generation pid reg1 = (Inr (), reg2) \<and> (\<forall>t. authorize_tuple t reg2 =
      (if tu_inspectMessageId t = gi_inspectMessageId g \<and> tu_rulesGeneration t = gi_rulesGeneration g
       then jget (map (\<lambda>a. (st_openAuthorityId a, a)) (gi_authorities g)) (tu_openAuthorityId t) else None))"
proof -
  obtain n hi where v: "validateGenerationInput parse g hi = Inr n" and pid: "pid = rg_next reg"
    and r1: "rg_active reg1 = rg_active reg" "rg_mutation reg1 = Suc (rg_mutation reg)"
    and prep: "jget (rg_preparations reg1) pid = Some \<lparr>ps_candidate = freezeGeneration pid n g,
       ps_previous = (case rg_active reg of None \<Rightarrow> None
         | Some a \<Rightarrow> if ag_inspectMessageId a = gi_inspectMessageId g then Some a else None),
       ps_preparedAt = Suc (rg_mutation reg), ps_status = Prepared\<rparr>"
    by (rule prepare_generation_Inr [OF assms])
  show "authorize_tuple t reg1 = authorize_tuple t reg" using r1(1) by (simp add: authorize_tuple_def)
  have cand: "ag_inspectMessageId (freezeGeneration pid n g) = gi_inspectMessageId g"
    "ag_rulesGeneration (freezeGeneration pid n g) = n" by (simp_all add: freezeGeneration_def)
  show "\<exists>reg2. activate_generation pid reg1 = (Inr (), reg2) \<and> (\<forall>t. authorize_tuple t reg2 =
      (if tu_inspectMessageId t = gi_inspectMessageId g \<and> tu_rulesGeneration t = gi_rulesGeneration g
       then jget (map (\<lambda>a. (st_openAuthorityId a, a)) (gi_authorities g)) (tu_openAuthorityId t) else None))"
    using activate_prepared [OF prep] r1(2) validateGenerationInput_Inr(1) [OF v]
    by (auto simp: authorize_tuple_def set_status_def cand frozen_authorities [OF v])
qed

lemma project_inject:
  "projectRulesSource env r i = projectRulesSource env r' i' \<Longrightarrow> rr_ruleRef r = rr_ruleRef r' \<and> i = i'"
  by (simp add: projectRulesSource_def)

lemma issued_authority:
  assumes l: "list_all2 (issued_for env rq) packed entries"
    and sole: "\<And>r. r \<in> set packed \<Longrightarrow> sole (rr_ruleRef r) = Some r"
    and d: "distinct (map st_openAuthorityId (map snd entries))"
  shows "jget (map (\<lambda>a. (st_openAuthorityId a, a)) (map snd entries)) i = Some a \<longleftrightarrow>
    (\<exists>r. sole (rr_ruleRef r) = Some r \<and> projectRulesSource (pe_label env) r i \<in> set (map fst entries) \<and>
       a = authority_for rq r i)"
proof -
  have entry: "\<exists>r\<in>set packed. \<exists>j. e = (projectRulesSource (pe_label env) r j, authority_for rq r j)" if "e \<in> set entries" for e
    using l that by (induction rule: list_all2_induct) (auto simp: issued_for_def)
  have dist: "distinct (map fst (map (\<lambda>a. (st_openAuthorityId a, a)) (map snd entries)))"
    using d by (simp add: comp_def)
  have oid: "st_openAuthorityId (authority_for rq r j) = j" for r j by (simp add: authority_for_def)
  have "jget (map (\<lambda>a. (st_openAuthorityId a, a)) (map snd entries)) i = Some a \<longleftrightarrow>
      (\<exists>e\<in>set entries. st_openAuthorityId (snd e) = i \<and> snd e = a)"
    unfolding map_of_eq_Some_iff [OF dist] by auto
  also have "\<dots> \<longleftrightarrow> (\<exists>r. sole (rr_ruleRef r) = Some r \<and>
      projectRulesSource (pe_label env) r i \<in> set (map fst entries) \<and> a = authority_for rq r i)"
  proof
    assume "\<exists>e\<in>set entries. st_openAuthorityId (snd e) = i \<and> snd e = a"
    then obtain e where e: "e \<in> set entries" "st_openAuthorityId (snd e) = i" "snd e = a" by blast
    obtain r j where r: "r \<in> set packed" "e = (projectRulesSource (pe_label env) r j, authority_for rq r j)"
      using entry [OF e(1)] by blast
    then have "j = i" using e(2) oid by simp
    then show "\<exists>r. sole (rr_ruleRef r) = Some r \<and>
        projectRulesSource (pe_label env) r i \<in> set (map fst entries) \<and> a = authority_for rq r i"
    proof (intro exI [of _ r] conjI)
      show "sole (rr_ruleRef r) = Some r" by (rule sole [OF r(1)])
      show "projectRulesSource (pe_label env) r i \<in> set (map fst entries)"
        using imageI [OF e(1), of fst] r(2) \<open>j = i\<close> by simp
      show "a = authority_for rq r i" using e(3) r(2) \<open>j = i\<close> by simp
    qed
  next
    assume "\<exists>r. sole (rr_ruleRef r) = Some r \<and>
        projectRulesSource (pe_label env) r i \<in> set (map fst entries) \<and> a = authority_for rq r i"
    then obtain r where r: "sole (rr_ruleRef r) = Some r" "a = authority_for rq r i"
      and m: "projectRulesSource (pe_label env) r i \<in> set (map fst entries)" by blast
    from m have "projectRulesSource (pe_label env) r i \<in> fst ` set entries" by simp
    then obtain e where e: "projectRulesSource (pe_label env) r i = fst e" "e \<in> set entries" by (rule imageE)
    obtain r' j where r': "r' \<in> set packed" "e = (projectRulesSource (pe_label env) r' j, authority_for rq r' j)"
      using entry [OF e(2)] by blast
    have "projectRulesSource (pe_label env) r i = projectRulesSource (pe_label env) r' j"
      unfolding e(1) r'(2) by (rule fst_conv)
    from project_inject [OF this] have same: "rr_ruleRef r = rr_ruleRef r'" "i = j" by simp_all
    have "Some r' = Some r" using sole [OF r'(1)] r(1) unfolding same(1) by (rule trans [OF sym])
    then have "snd e = a" unfolding r'(2) r(2) same(2) by simp
    moreover have "st_openAuthorityId a = i" unfolding r(2) by (rule oid)
    ultimately show "\<exists>e\<in>set entries. st_openAuthorityId (snd e) = i \<and> snd e = a" using e(2) by blast
  qed
  finally show ?thesis .
qed

text \<open>C19:
  Preparing a publication changes nothing that may be opened. Activating it right away succeeds and
  makes exactly the sources it names openable: a tuple is authorized just when it names the
  publication's inspection and generation and the authority id under which the source of an
  unambiguously resolved rule is published, and it opens that source.
\<close>
theorem published_sources_open:
  assumes "prepare_publication env parse rq s = (Inr prp, s')"
  shows "authorize_tuple t (pub_registry s') = authorize_tuple t (pub_registry s) \<and>
    (\<exists>s2. preparedPublication activate_generation prp s' = (Inr (), s2) \<and>
      (authorize_tuple t (pub_registry s2) = Some a \<longleftrightarrow>
        tu_inspectMessageId t = rp_inspectMessageId (prp_payload prp) \<and>
        tu_rulesGeneration t = JInt (rp_rulesGeneration (prp_payload prp)) \<and>
        (\<exists>r. sole_source (rb_results (rq_resolution rq)) (rr_ruleRef r) = Some r \<and>
           projectRulesSource (pe_label env) r (tu_openAuthorityId t) \<in> set (rp_sources (prp_payload prp)) \<and>
           a = authority_for rq r (tu_openAuthorityId t))))"
proof -
  obtain packed entries n where p: "prepared_for env parse rq (pub_registry s) (pub_registry s') prp packed entries n"
    using prepare_publication_Inr [OF assms] by blast
  then have issued: "list_all2 (issued_for env rq) packed entries"
    and pay: "prp_payload prp = payload_of rq n (length (orderedUniqueRuleRefs (rq_ruleEvidence rq))) (map fst entries)"
    and g: "prepare_generation parse (generation_of rq entries) (pub_registry s) = (Inr (prp_preparation prp), pub_registry s')"
    and n: "rq_rulesGeneration rq = JInt n"
    and sole: "\<And>r. r \<in> set packed \<Longrightarrow> sole_source (rb_results (rq_resolution rq)) (rr_ruleRef r) = Some r"
    by (simp_all add: prepared_for_def)
  obtain reg2 where act: "activate_generation (prp_preparation prp) (pub_registry s') = (Inr (), reg2)"
    and auth: "\<And>t. authorize_tuple t reg2 =
      (if tu_inspectMessageId t = gi_inspectMessageId (generation_of rq entries) \<and>
          tu_rulesGeneration t = gi_rulesGeneration (generation_of rq entries)
       then jget (map (\<lambda>a. (st_openAuthorityId a, a)) (gi_authorities (generation_of rq entries))) (tu_openAuthorityId t) else None)"
    using activation_authorizes(2) [OF g] by blast
  have gen: "gi_inspectMessageId (generation_of rq entries) = rp_inspectMessageId (prp_payload prp)"
    "gi_rulesGeneration (generation_of rq entries) = JInt (rp_rulesGeneration (prp_payload prp))"
    "gi_authorities (generation_of rq entries) = map snd entries" "map fst entries = rp_sources (prp_payload prp)"
    by (simp_all add: generation_of_def pay payload_of_def n)
  note j = issued_authority [OF issued, of "sole_source (rb_results (rq_resolution rq))" "tu_openAuthorityId t" a,
    OF sole prepared_distinct(2) [OF p]]
  have "authorize_tuple t reg2 = Some a \<longleftrightarrow>
        tu_inspectMessageId t = rp_inspectMessageId (prp_payload prp) \<and>
        tu_rulesGeneration t = JInt (rp_rulesGeneration (prp_payload prp)) \<and>
        (\<exists>r. sole_source (rb_results (rq_resolution rq)) (rr_ruleRef r) = Some r \<and>
           projectRulesSource (pe_label env) r (tu_openAuthorityId t) \<in> set (rp_sources (prp_payload prp)) \<and>
           a = authority_for rq r (tu_openAuthorityId t))"
  proof (cases "tu_inspectMessageId t = rp_inspectMessageId (prp_payload prp) \<and>
      tu_rulesGeneration t = JInt (rp_rulesGeneration (prp_payload prp))")
    case True
    then show ?thesis by (simp only: auth gen if_True j simp_thms)
  next
    case False
    then show ?thesis unfolding auth gen by auto
  qed
  moreover have "preparedPublication activate_generation prp s' = (Inr (), s'\<lparr>pub_registry := reg2\<rparr>)"
    by (simp add: preparedPublication_def act)
  ultimately show ?thesis using activation_authorizes(1) [OF g] by simp
qed

subsection \<open>A concrete publication\<close>

definition example_rule_source :: resolved_source where
  "example_rule_source = \<lparr>rr_ruleRef = js ''r1'', rr_uri = js ''f'', rr_languageId = Css, rr_version = 1,
     rr_start = (0, 0), rr_end = (1, 0), rr_confidence = ExactSource,
     rr_dependencies = [\<lparr>dep_kind = GeneratedCss, dep_uri = js ''f'', dep_version = Some (JInt 1),
       dep_contentHash = replicate 64 48\<rparr>]\<rparr>"

definition example_request :: publication_request where
  "example_request = \<lparr>rq_inspectMessageId = js ''i'', rq_rulesGeneration = JInt 1,
     rq_ruleEvidence = \<lparr>eb_rules = [\<lparr>ev_ruleRef = js ''r1'', ev_selector = js ''a'', ev_declarations = [],
       ev_declarationsTruncated = False, ev_generatedSource = None\<rparr>], eb_omittedRuleCount = 0\<rparr>,
     rq_resolution = \<lparr>rb_selectionMessageId = js ''i'', rb_results = [ResolvedSource example_rule_source]\<rparr>,
     rq_workspaceGeneration = JInt 0\<rparr>"

text \<open>An environment whose URL parser finds the given path in every text.\<close>

definition path_env :: "string \<Rightarrow> label_env" where
  "path_env path = \<lparr>le_url = (\<lambda>u b. if u = js ''f'' then Some \<lparr>u_href = u, u_protocol = js ''file:'', u_username = [],
       u_password = [], u_hash = [], u_pathname = js path, u_search = []\<rparr> else None),
     le_visible = (\<lambda>c. False), le_upper = (\<lambda>c. False), le_initial_i = (\<lambda>c. False), le_visible_i = (\<lambda>c. False)\<rparr>"

definition example_publication_env :: "string \<Rightarrow> (rules_payload \<Rightarrow> jsnum) \<Rightarrow> publication_env" where
  "example_publication_env path f = \<lparr>pe_label = path_env path,
     pe_envelopeMaxBytes = JInt 100000, pe_measure = f,
     pe_createAuthorityId = (\<lambda>k. js ''00000000-0000-4000-8000-000000000001'')\<rparr>"

definition example_publication_state :: publication_state where
  "example_publication_state = \<lparr>pub_registry = new_RulesOpenAuthorityRegistry, pub_nextId = 0\<rparr>"

lemma example_refs: "orderedUniqueRuleRefs (rq_ruleEvidence example_request) = [js ''r1'']"
  by (simp add: example_request_def orderedUniqueRuleRefs_def set_of_def set_add_def)

lemma example_resolved:
  "uniqueResolvedByRuleRef (rq_resolution example_request) [js ''r1''] = [(js ''r1'', example_rule_source)]"
  by (simp add: example_request_def uniqueResolvedByRuleRef_def example_rule_source_def Let_def)

lemma example_uuid: "uuid_pattern (js ''00000000-0000-4000-8000-000000000001'')"
  by (simp add: uuid_pattern_def js_def unit_of_char_def uuid_hex_def is_digit_def ascii_lower_def is_upper_def)

lemma label_untitled: "sourceDocumentLabel (path_env ''/'') (Some (js ''f'')) = js ''untitled''"
  by (simp add: sourceDocumentLabel_def path_env_def js_def unit_of_char_def last_part_def)

definition example_source :: "string \<Rightarrow> jstring \<Rightarrow> rules_source" where
  "example_source path i = projectRulesSource (path_env path) example_rule_source i"

definition example_uuid_text :: jstring where
  "example_uuid_text = js ''00000000-0000-4000-8000-000000000001''"

text \<open>With the name \<^verbatim>\<open>untitled\<close> the source passes its schema, with either id.\<close>

lemma example_source_ok:
  "length (js t) \<le> 128 \<Longrightarrow> t \<noteq> [] \<Longrightarrow> rules_source_ok (example_source ''/'' (js t))"
  by (simp add: example_source_def rules_source_ok_def projectRulesSource_def example_rule_source_def
      rulesSourceDocumentMetadata_def label_untitled rules_source_label_ok_def text_between_def limit_defs
      line_ok_def column_ok_def Suc_le_eq)
    (simp add: js_def unit_of_char_def forbidden_label_def scheme_prefix_def ascii_lower_def is_lower_def
      is_upper_def scheme_char_def is_digit_def)

lemma example_prepares:
  assumes "\<And>n i. n \<le> 1 \<Longrightarrow> length i = 36 \<Longrightarrow> \<exists>b. f (payload_of example_request 1 1 (replicate n (example_source ''/'' i))) = JInt b \<and> 0 \<le> b \<and> b \<le> 100000"
  shows "\<exists>prp s'. prepare_publication (example_publication_env ''/'' f) example_parse example_request example_publication_state =
      (Inr prp, s') \<and> prp_payload prp = payload_of example_request 1 1 [example_source ''/'' example_uuid_text]"
proof -
  let ?env = "example_publication_env ''/'' f"
  have m: "measure_payload ?env (payload_of example_request 1 1 (replicate n (example_source ''/'' i))) =
      Inr (case f (payload_of example_request 1 1 (replicate n (example_source ''/'' i))) of JInt b \<Rightarrow> b) \<and>
      \<not> (case f (payload_of example_request 1 1 (replicate n (example_source ''/'' i))) of JInt b \<Rightarrow> b) > 100000"
    if "n \<le> 1" "length i = 36" for n i
    using assms [OF that] by (auto simp: measure_payload_def example_publication_env_def safe_int_def)
  have plen: "length RULE_OPEN_AUTHORITY_PLACEHOLDER = 36" "length example_uuid_text = 36"
    by (simp_all add: RULE_OPEN_AUTHORITY_PLACEHOLDER_def example_uuid_text_def)
  have empty: "assertEnvelope ?env 100000 (payload_of example_request 1 1 []) = None"
    using m [of 0 example_uuid_text] plen by (simp add: assertEnvelope_def)
  have one: "assertEnvelope ?env 100000 (payload_of example_request 1 1 [example_source ''/'' example_uuid_text]) = None"
    using m [of 1 example_uuid_text] plen by (simp add: assertEnvelope_def)
  have budget: "valid_budget (pe_envelopeMaxBytes ?env) = Some 100000"
    by (simp add: valid_budget_def example_publication_env_def safe_int_def RULES_SOURCES_ENVELOPE_MAX_BYTES_def)
  have valid: "validateRequest example_request = Inr 1"
    by (simp add: validateRequest_def example_request_def safe_int_def)
  have pack: "pack_sources ?env 100000 (payload_of example_request 1 1) [(js ''r1'', example_rule_source)] [] [js ''r1''] =
      Inr [example_rule_source]"
    using m [of 1 RULE_OPEN_AUTHORITY_PLACEHOLDER] plen
    by (simp add: Let_def RULES_SOURCES_LIMITS_def example_source_def example_publication_env_def)
  have id: "pe_createAuthorityId ?env k = example_uuid_text" for k
    by (simp add: example_publication_env_def example_uuid_text_def)
  have ok: "rules_source_ok (projectRulesSource (pe_label ?env) example_rule_source example_uuid_text)"
    using example_source_ok [of "''00000000-0000-4000-8000-000000000001''"]
    by (simp add: example_source_def example_publication_env_def example_uuid_text_def)
  define auth where "auth = authority_for example_request example_rule_source example_uuid_text"
  have issue: "issue_authorities ?env example_request 0 [example_rule_source] =
      (Inr [(example_source ''/'' example_uuid_text, auth)], 1)"
    using ok plen example_uuid
    by (simp add: Let_def id auth_def example_source_def example_publication_env_def example_uuid_text_def)
  have gen: "validateGenerationInput example_parse \<lparr>gi_inspectMessageId = js ''i'', gi_rulesGeneration = JInt 1, gi_authorities = [auth]\<rparr> 0 = Inr 1"
    using example_hash plen
    by (simp add: validateGenerationInput_def auth_def authority_for_def example_request_def example_rule_source_def
        source_range_of_def validateAuthority_def validOpaque_def validUri_def example_parse_def validRange_def
        safe_int_def limit_defs validDependency_def)
  obtain reg where reg: "prepare_generation example_parse \<lparr>gi_inspectMessageId = js ''i'', gi_rulesGeneration = JInt 1,
      gi_authorities = [auth]\<rparr> new_RulesOpenAuthorityRegistry = (Inr 0, reg)"
    using gen by (simp add: prepare_generation_def new_RulesOpenAuthorityRegistry_def Let_def)
  have "finish_publication ?env example_parse example_request 100000 1 1 [(example_source ''/'' example_uuid_text, auth)]
      new_RulesOpenAuthorityRegistry =
      (Inr \<lparr>prp_payload = payload_of example_request 1 1 [example_source ''/'' example_uuid_text], prp_preparation = 0\<rparr>, reg)"
    using one reg by (simp add: finish_publication_def Let_def example_request_def payload_of_def)
  then show ?thesis
    using budget valid empty pack issue
    by (simp add: prepare_publication_def Let_def example_refs example_resolved example_publication_state_def)
qed

lemma example_source_bytes:
  assumes "length i = 36" shows "utf8ByteLength (rules_source_text (example_source ''/'' i)) \<le> 2000"
proof -
  have f: "rs_ruleRef (example_source ''/'' i) = js ''r1''" "rs_label (example_source ''/'' i) = js ''untitled''"
    "rs_languageId (example_source ''/'' i) = Css" "rs_openAuthorityId (example_source ''/'' i) = i"
    "rs_startLine (example_source ''/'' i) = 1" "rs_startColumn (example_source ''/'' i) = 1"
    "rs_confidence (example_source ''/'' i) = ExactSource"
    by (simp_all add: example_source_def projectRulesSource_def example_rule_source_def
        rulesSourceDocumentMetadata_def label_untitled)
  have "utf8ByteLength (json_int 1) \<le> 11" by (rule utf8_json_int) simp
  moreover have "utf8ByteLength (json_quote i) \<le> 218" using utf8_json_quote [of i] assms by simp
  ultimately show ?thesis unfolding rules_source_text_def f
    using key_bytes [of "''ruleRef''"] key_bytes [of "''r1''"] key_bytes [of "''document''"] key_bytes [of "''label''"]
      key_bytes [of "''untitled''"] key_bytes [of "''languageId''"] key_bytes [of "''css''"] key_bytes [of "''startLine''"]
      key_bytes [of "''startColumn''"] key_bytes [of "''confidence''"] key_bytes [of "''exact''"]
      key_bytes [of "''openAuthorityId''"]
    by (subst utf8_object; simp add: utf8_object)
qed

lemma whole_start_rules_source [simp]: "whole_start (rules_source_text s)"
  by (simp add: rules_source_text_def)

lemma example_payload_bytes:
  assumes "n \<le> 1" and "length i = 36"
  shows "\<exists>b. measureConservativeEnvelope (payload_of example_request 1 1 (replicate n (example_source ''/'' i))) = JInt b \<and>
    0 \<le> b \<and> b \<le> 100000"
proof -
  let ?p = "payload_of example_request 1 1 (replicate n (example_source ''/'' i))"
  have n: "n = 0 \<or> n = 1" using assms(1) by linarith
  have "utf8ByteLength (json_array_text (map rules_source_text (rp_sources ?p))) \<le> 2002"
    using n example_source_bytes [OF assms(2)] by (auto simp: payload_of_def json_array_text_def utf8_append)
  moreover have "utf8ByteLength (json_object_text [(''role'', json_quote (js ''ide'')), (''id'', json_quote [])]) \<le> 100"
    using key_bytes [of "''role''"] key_bytes [of "''ide''"] key_bytes [of "''id''"] utf8_json_quote [of "[]"]
    by (simp add: utf8_object)
  moreover have "utf8ByteLength (json_int (rp_unresolvedRuleCount ?p)) \<le> 11"
    "utf8ByteLength (json_int (rp_rulesGeneration ?p)) \<le> 11" "utf8ByteLength (json_int PROTOCOL_VERSION) \<le> 11"
    using n by (intro utf8_json_int; auto simp: payload_of_def PROTOCOL_VERSION_def)+
  moreover have "utf8ByteLength (json_quote (rp_inspectMessageId ?p)) \<le> 8"
    using key_bytes [of "''i''"] by (simp add: payload_of_def example_request_def)
  moreover have "utf8ByteLength (json_object_text []) = 2" by (simp add: json_object_text_def)
  ultimately have "utf8ByteLength (rules_sources_text [] [] [] ?p) \<le> 10000"
    using key_bytes [of "''protocolVersion''"] key_bytes [of "''type''"] key_bytes [of "''rules.sources''"]
      key_bytes [of "''messageId''"] key_bytes [of "''sessionId''"] key_bytes [of "''source''"]
      key_bytes [of "''inspectMessageId''"] key_bytes [of "''rulesGeneration''"] key_bytes [of "''sources''"]
      key_bytes [of "''unresolvedRuleCount''"] key_bytes [of "''metadata''"] utf8_json_quote [of "[]"]
    unfolding rules_sources_text_def by (subst utf8_object) simp_all
  then show ?thesis unfolding measureConservativeEnvelope_def Let_def
    by (subst rules_sources_text_bytes) (simp add: utf8_quote_zeros RESOLUTION_LIMITS_def)
qed

definition rules_schema_env :: schema_env where
  "rules_schema_env = \<lparr>se_uuid = (\<lambda>t. True), se_datetime = (\<lambda>t. True), se_url = (\<lambda>t b. None),
     se_stringify = (\<lambda>m. case m of
         RulesSources x \<Rightarrow> Some (rules_sources_text (messageId x) (sessionId x) (rsm_sourceId x)
           \<lparr>rp_inspectMessageId = inspectMessageId x, rp_rulesGeneration = rsm_rulesGeneration x,
            rp_sources = rsm_sources x, rp_unresolvedRuleCount = rsm_unresolvedRuleCount x\<rparr>)
       | _ \<Rightarrow> None)\<rparr>"

theorem rules_publication_accepted_witness:
  "\<exists>prp s'. prepare_publication (example_publication_env ''/'' measureConservativeEnvelope) example_parse
       example_request example_publication_state = (Inr prp, s') \<and>
     rp_sources (prp_payload prp) = [example_source ''/'' example_uuid_text] \<and>
     rules_sources_ok rules_schema_env RULES_SOURCES_ENVELOPE_MAX_BYTES
       (createRulesSourcesMessage (js ''m'') (js ''s'') (js ''c'') (prp_payload prp))"
proof -
  obtain prp s' where r: "prepare_publication (example_publication_env ''/'' measureConservativeEnvelope) example_parse
      example_request example_publication_state = (Inr prp, s')"
    and p: "prp_payload prp = payload_of example_request 1 1 [example_source ''/'' example_uuid_text]"
    using example_prepares [where f = measureConservativeEnvelope] example_payload_bytes by blast
  have "rules_sources_ok rules_schema_env RULES_SOURCES_ENVELOPE_MAX_BYTES
      (createRulesSourcesMessage (js ''m'') (js ''s'') (js ''c'') (prp_payload prp))"
  proof (rule rules_publication_accepted [OF r, THEN conjunct1])
    show "stringifies_rules_sources rules_schema_env"
      by (simp add: stringifies_rules_sources_def rules_schema_env_def createRulesSourcesMessage_def rules_sources_text_def)
  qed (simp_all add: example_publication_env_def example_request_def RULE_EVIDENCE_LIMITS_def opaqueId_def
      text_between_def RESOLUTION_LIMITS_def)
  then show ?thesis using r p by (auto simp: payload_of_def)
qed

theorem published_sources_open_witness:
  "\<exists>prp s' s2. prepare_publication (example_publication_env ''/'' (\<lambda>p. JInt 1)) example_parse
       example_request example_publication_state = (Inr prp, s') \<and>
     preparedPublication activate_generation prp s' = (Inr (), s2) \<and>
     authorize_tuple \<lparr>tu_inspectMessageId = js ''i'', tu_rulesGeneration = JInt 1,
         tu_openAuthorityId = example_uuid_text\<rparr> (pub_registry s2) =
       Some (authority_for example_request example_rule_source example_uuid_text)"
proof -
  obtain prp s' where r: "prepare_publication (example_publication_env ''/'' (\<lambda>p. JInt 1)) example_parse
      example_request example_publication_state = (Inr prp, s')"
    and p: "prp_payload prp = payload_of example_request 1 1 [example_source ''/'' example_uuid_text]"
    using example_prepares [of "\<lambda>p. JInt 1"] by auto
  have "sole_source (rb_results (rq_resolution example_request)) (rr_ruleRef example_rule_source) = Some example_rule_source"
    by (simp add: sole_source_def example_request_def example_rule_source_def)
  moreover have "projectRulesSource (pe_label (example_publication_env ''/'' (\<lambda>p. JInt 1))) example_rule_source example_uuid_text
      \<in> set (rp_sources (prp_payload prp))"
    by (simp add: p payload_of_def example_source_def example_publication_env_def)
  moreover have "js ''i'' = rp_inspectMessageId (prp_payload prp)" "rp_rulesGeneration (prp_payload prp) = 1"
    by (simp_all add: p payload_of_def example_request_def)
  ultimately show ?thesis
    using published_sources_open [OF r, of "\<lparr>tu_inspectMessageId = js ''i'', tu_rulesGeneration = JInt 1,
        tu_openAuthorityId = example_uuid_text\<rparr>" "authority_for example_request example_rule_source example_uuid_text"] r
    by auto
qed

subsection \<open>A name that stops a publication\<close>

text \<open>
  The label of a stylesheet may hold a colon that is not the end of a URL scheme, but the schema
  of a rule source refuses every colon. One stylesheet with such a name makes the whole publication
  fail, not only its own rules.
\<close>

lemma label_colon: "sourceDocumentLabel (path_env ''/1:b.css'') (Some (js ''f'')) = js ''1:b.css''"
proof -
  have c: "cleanText (js ''1:b.css'') = js ''1:b.css''"
    by (simp add: cleanText_def js_def unit_of_char_def high_surrogate_def blank_control_def trim_def space_point_def)
  have chars: "characters (js ''1:b.css'') = map (\<lambda>c. [c]) (js ''1:b.css'')"
    by (simp add: js_def unit_of_char_def high_surrogate_def)
  have points: "code_points (js ''1:b.css'') = [49, 58, 98, 46, 99, 115, 115]"
    by (simp add: code_points_def chars) (simp add: js_def unit_of_char_def)
  have rx: "\<not> rx_search SOURCE_LOCATOR_SUFFIX (js ''1:b.css'')"
    "\<not> rx_search PARENTHESIZED_SOURCE_LOCATOR_SUFFIX (js ''1:b.css'')"
    "\<not> rx_search FRAGMENT_SOURCE_LOCATOR_SUFFIX (js ''1:b.css'')"
    "\<not> rx_test SOURCE_MAPPING_URL_DIRECTIVE (js ''1:b.css'')"
    "\<not> rx_test (RELATIVE_SOURCE_MAP_LABEL (path_env ''/1:b.css'')) (js ''1:b.css'')"
    by (simp_all add: rx_search_def rx_test_def points SOURCE_LOCATOR_SUFFIX_def PARENTHESIZED_SOURCE_LOCATOR_SUFFIX_def
        FRAGMENT_SOURCE_LOCATOR_SUFFIX_def SOURCE_MAPPING_URL_DIRECTIVE_def RELATIVE_SOURCE_MAP_LABEL_def rx_class_def
        rx_plus_def rx_opt_def rx_end_def rx_text_def extension_point_def lower_point_def digit_point_def fold_point_def
        space_point_def path_env_def)
  have json: "\<not> json_structured (js ''1:b.css'')"
    by (simp add: json_structured_def js_def unit_of_char_def json_space_def json_mark_def scalar_char_def is_digit_def
        is_lower_def is_upper_def json_scalar_def json_number_def integer_part_def fraction_part_def Let_def
        split: option.split)
  have b64: "decodeBase64Candidate (js ''1:b.css'') = None"
    by (simp add: decodeBase64Candidate_def MIN_BASE64_CANDIDATE_LENGTH_def)
  have disp: "list_all (isDisplayCharacter (path_env ''/1:b.css'')) (map (\<lambda>c. [c]) (js ''1:b.css''))"
    by (simp add: isDisplayCharacter_def isAsciiLetterOrDigit_def js_def unit_of_char_def is_digit_def is_lower_def
        is_upper_def DISPLAY_PUNCTUATION_def high_surrogate_def)
  have n: "isNeutralDisplayLabel (path_env ''/1:b.css'') (js ''1:b.css'') (js ''1:b.css'') DEFAULT_DISPLAY_LABEL_CONTEXT"
    using rx json disp
    by (simp add: isNeutralDisplayLabel_def isSensitiveDisplayMetadata_def hasEncodedSensitiveMetadata_def b64 chars
        isAbsoluteUri_def) (simp add: path_env_def js_def unit_of_char_def)
  have dec: "decodeURIComponent (js ''1:b.css'') = Some (js ''1:b.css'')"
    by (simp add: js_def unit_of_char_def)
  have base: "basename (js ''1:b.css'') = js ''1:b.css''"
    by (simp add: basename_def last_part_def js_def unit_of_char_def)
  have bound: "boundUtf16 (js ''1:b.css'') 128 = js ''1:b.css''"
    by (simp add: boundUtf16_def js_def unit_of_char_def high_surrogate_def)
  have "normalizeSourceDisplayLabel (path_env ''/1:b.css'') (Some (js ''1:b.css'')) (js ''untitled'')
      DEFAULT_DISPLAY_LABEL_CONTEXT = js ''1:b.css''"
    using n by (simp add: normalizeSourceDisplayLabel_def c bound MAX_DISPLAY_INPUT_LENGTH_def RESOLUTION_LIMITS_def Let_def)
  moreover have "le_url (path_env ''/1:b.css'') (js ''f'') None = Some \<lparr>u_href = js ''f'', u_protocol = js ''file:'',
      u_username = [], u_password = [], u_hash = [], u_pathname = js ''/1:b.css'', u_search = []\<rparr>"
    by (simp add: path_env_def)
  moreover have "last_part (split_on 0x2f (js ''/1:b.css'')) = Some (js ''1:b.css'')"
    by (simp add: last_part_def js_def unit_of_char_def)
  ultimately show ?thesis by (simp add: sourceDocumentLabel_def dec base)
qed

lemma colon_name_blocks_publication:
  "fst (prepare_publication (example_publication_env ''/1:b.css'' (\<lambda>p. JInt 1)) example_parse
     example_request example_publication_state) = Inl SourceRejected"
proof -
  let ?env = "example_publication_env ''/1:b.css'' (\<lambda>p. JInt 1)"
  have budget: "valid_budget (pe_envelopeMaxBytes ?env) = Some 100000"
    by (simp add: valid_budget_def example_publication_env_def safe_int_def RULES_SOURCES_ENVELOPE_MAX_BYTES_def)
  have valid: "validateRequest example_request = Inr 1"
    by (simp add: validateRequest_def example_request_def safe_int_def)
  have m: "measure_payload ?env p = Inr 1" for p
    by (simp add: measure_payload_def example_publication_env_def safe_int_def)
  have pack: "pack_sources ?env 100000 (payload_of example_request 1 1) [(js ''r1'', example_rule_source)] [] [js ''r1''] =
      Inr [example_rule_source]"
    by (simp add: Let_def RULES_SOURCES_LIMITS_def m)
  have "\<not> rules_source_ok (projectRulesSource (path_env ''/1:b.css'') example_rule_source i)" for i
    by (simp add: rules_source_ok_def projectRulesSource_def example_rule_source_def rulesSourceDocumentMetadata_def
        label_colon rules_source_label_ok_def) (simp add: js_def unit_of_char_def forbidden_label_def)
  then have issue: "issue_authorities ?env example_request 0 [example_rule_source] = (Inl SourceRejected, Suc 0)"
    using example_uuid
    by (simp add: Let_def example_publication_env_def RULE_OPEN_AUTHORITY_PLACEHOLDER_def)
  have empty: "assertEnvelope ?env 100000 p = None" for p
    by (simp add: assertEnvelope_def m)
  show ?thesis
    by (simp only: prepare_publication_def budget option.case valid sum.case Let_def example_refs example_resolved
        empty list.size One_nat_def [symmetric] add_0 pack example_publication_state_def publication_state.simps issue prod.case)
      (simp add: empty pack issue)
qed

end
