(* ===== verification/Refresh_Store.thy ===== *)
theory Refresh_Store
  imports Refresh_Protocol Effects
begin

text \<open>
  \<^verbatim>\<open>browser-extension-core/src/tabRefreshStateStore.ts\<close>: the refresh states of the tabs in the
  session storage of the browser. The storage is the browser's: a call may fail, and then it has
  had no effect (\<open>fails n\<close> says whether the \<open>n\<close>-th call fails); a value that was set is read back as
  it was. Whatever the two keys hold to begin with, valid or not, is part of the state. The store
  runs one operation at a time (\<^verbatim>\<open>enqueue\<close>), so each operation is one function of the state.
  \<open>view\<close> is what the storage means; saving refines a map update on it.
\<close>

subsection \<open>The storage\<close>

datatype store_error = StorageFailed | InvalidTabState

record tab_store =
  st_states :: "js_value option"
  st_legacy :: "js_value option"
  st_legacyRecoveryClean :: bool
  st_calls :: nat

datatype storage_key = StatesKey | LegacyKey

fun storage_key_name :: "storage_key \<Rightarrow> string" where
  "storage_key_name StatesKey = ''pin-op.tabRefreshStates''"
| "storage_key_name LegacyKey = ''pin-op.tabRefreshStateRecovery''"

fun stored_under :: "storage_key \<Rightarrow> tab_store \<Rightarrow> js_value option" where
  "stored_under StatesKey st = st_states st"
| "stored_under LegacyKey st = st_legacy st"

fun with_stored :: "storage_key \<Rightarrow> js_value option \<Rightarrow> tab_store \<Rightarrow> tab_store" where
  "with_stored StatesKey v st = st\<lparr>st_states := v\<rparr>"
| "with_stored LegacyKey v st = st\<lparr>st_legacy := v\<rparr>"

type_synonym 'a store_eff = "(tab_store, store_error, 'a) eff"

definition storage_call :: "(nat \<Rightarrow> bool) \<Rightarrow> (tab_store \<Rightarrow> 'a \<times> tab_store) \<Rightarrow> 'a store_eff" where
  "storage_call fails act st =
     (let st1 = st\<lparr>st_calls := Suc (st_calls st)\<rparr> in
      if fails (st_calls st) then (Inl StorageFailed, st1)
      else (case act st1 of (x, st2) \<Rightarrow> (Inr x, st2)))"

definition storage_get :: "(nat \<Rightarrow> bool) \<Rightarrow> storage_key \<Rightarrow> js_value store_eff" where
  "storage_get fails key = storage_call fails (\<lambda>st.
     (case stored_under key st of None \<Rightarrow> data_object []
      | Some v \<Rightarrow> data_object [(storage_key_name key, v)], st))"

definition storage_set :: "(nat \<Rightarrow> bool) \<Rightarrow> storage_key \<Rightarrow> js_value \<Rightarrow> unit store_eff" where
  "storage_set fails key v = storage_call fails (\<lambda>st. ((), with_stored key (Some v) st))"

definition storage_remove :: "(nat \<Rightarrow> bool) \<Rightarrow> storage_key \<Rightarrow> unit store_eff" where
  "storage_remove fails key = storage_call fails (\<lambda>st. ((), with_stored key None st))"

text \<open>\<^verbatim>\<open>try { ... } catch { }\<close>\<close>

definition attempt_quietly :: "unit store_eff \<Rightarrow> unit store_eff" where
  "attempt_quietly m st = (Inr (), snd (m st))"

subsection \<open>Stored states\<close>

definition MAX_PERSISTED_TAB_REFRESH_STATES :: nat where "MAX_PERSISTED_TAB_REFRESH_STATES = 4096"

definition STORED_STATE_REQUIRED_KEYS :: "jstring list" where
  "STORED_STATE_REQUIRED_KEYS = map js [''tabId'', ''windowId'', ''autoRefreshEnabled'',
     ''ideHighlightEnabled'', ''participant'', ''lastAcceptedGeneration'']"

definition STORED_STATE_OPTIONAL_KEYS :: "jstring list" where
  "STORED_STATE_OPTIONAL_KEYS = map js [''lastAcceptedMode'', ''pending'']"

text \<open>\<^verbatim>\<open>ownDataValue\<close>: \<open>None\<close> is \<^verbatim>\<open>absentValue\<close>.\<close>

definition ownDataValue :: "js_value \<Rightarrow> string \<Rightarrow> js_value option" where
  "ownDataValue value key = own_value value (js key)"

definition durableState :: "tab_refresh_state \<Rightarrow> tab_refresh_state" where
  "durableState state = \<lparr>tr_tabId = tr_tabId state, tr_windowId = tr_windowId state,
     tr_autoRefreshEnabled = tr_autoRefreshEnabled state,
     tr_ideHighlightEnabled = tr_ideHighlightEnabled state, tr_participant = False,
     tr_lastAcceptedGeneration = tr_lastAcceptedGeneration state,
     tr_lastAcceptedMode = tr_lastAcceptedMode state, tr_pending = None\<rparr>"

definition snapshotState :: "tab_refresh_state \<Rightarrow> js_value" where
  "snapshotState state = data_object
     ([(''tabId'', VNum (JInt (tr_tabId state))), (''windowId'', VNum (JInt (tr_windowId state))),
       (''autoRefreshEnabled'', VBool (tr_autoRefreshEnabled state)),
       (''ideHighlightEnabled'', VBool (tr_ideHighlightEnabled state)),
       (''participant'', VBool False),
       (''lastAcceptedGeneration'', VNum (JInt (tr_lastAcceptedGeneration state)))] @
      (case tr_lastAcceptedMode state of None \<Rightarrow> [] | Some m \<Rightarrow> [(''lastAcceptedMode'', mode_value m)]))"

text \<open>An entry of the stored array, and whether the array must be written again.\<close>

definition parseStoredState :: "js_value \<Rightarrow> (tab_refresh_state \<times> bool) option" where
  "parseStoredState value = do {
     keys \<leftarrow> ownDataKeys value;
     guard (length STORED_STATE_REQUIRED_KEYS \<le> length keys \<and>
       length keys \<le> length STORED_STATE_REQUIRED_KEYS + length STORED_STATE_OPTIONAL_KEYS \<and>
       list_all (\<lambda>key. key \<in> set keys) STORED_STATE_REQUIRED_KEYS \<and>
       list_all (\<lambda>key. key \<in> set STORED_STATE_REQUIRED_KEYS \<or> key \<in> set STORED_STATE_OPTIONAL_KEYS) keys);
     record \<leftarrow> snapshotDataRecord value keys;
     normalized \<leftarrow> parseTabRefreshState (data_object
       ([(''tabId'', property record ''tabId''), (''windowId'', property record ''windowId''),
         (''autoRefreshEnabled'', property record ''autoRefreshEnabled''),
         (''ideHighlightEnabled'', property record ''ideHighlightEnabled''),
         (''participant'', VBool False),
         (''lastAcceptedGeneration'', property record ''lastAcceptedGeneration'')] @
        (if property record ''lastAcceptedMode'' \<noteq> VUndefined
         then [(''lastAcceptedMode'', property record ''lastAcceptedMode'')] else [])));
     Some (durableState normalized,
       property record ''participant'' \<noteq> VBool False \<or> js ''pending'' \<in> set keys \<or>
       js ''lastAcceptedMode'' \<in> set keys \<and> property record ''lastAcceptedMode'' = VUndefined) }"

text \<open>The elements of an array; what the browser's storage returns has no accessors.\<close>

definition array_item :: "js_property list \<Rightarrow> nat \<Rightarrow> js_value" where
  "array_item ds i = (case map_of ds (StrKey (decimal i)) of Some (_, Some v) \<Rightarrow> v | _ \<Rightarrow> VUndefined)"

definition array_items :: "nat \<Rightarrow> js_property list \<Rightarrow> js_value list" where
  "array_items len ds = map (array_item ds) [0..<len]"

definition js_array :: "js_value list \<Rightarrow> js_value" where
  "js_array xs = VArray (length xs)
     (zip (map (\<lambda>i. StrKey (decimal i)) [0..<length xs]) (map (\<lambda>x. (True, Some x)) xs))"

fun collect_stored :: "js_value list \<Rightarrow> int list \<Rightarrow> (tab_refresh_state list \<times> bool) option" where
  "collect_stored [] tabIds = Some ([], False)"
| "collect_stored (candidate # candidates) tabIds =
     (case parseStoredState candidate of None \<Rightarrow> None
      | Some (state, rewrite) \<Rightarrow>
          if tr_tabId state \<in> set tabIds then None
          else (case collect_stored candidates (set_add (tr_tabId state) tabIds) of
              None \<Rightarrow> None
            | Some (states, rewrite') \<Rightarrow> Some (state # states, rewrite \<or> rewrite')))"

text \<open>\<^verbatim>\<open>states.sort(compareStates)\<close>\<close>

definition sort_states :: "tab_refresh_state list \<Rightarrow> tab_refresh_state list" where
  "sort_states states = sort_key tr_tabId states"

fun parseStoredStates :: "js_value \<Rightarrow> (tab_refresh_state list \<times> bool) option" where
  "parseStoredStates (VArray len ds) =
     (let items = array_items len ds;
          candidates = (if len > MAX_PERSISTED_TAB_REFRESH_STATES
            then drop (len - MAX_PERSISTED_TAB_REFRESH_STATES) items else items)
      in case collect_stored candidates [] of None \<Rightarrow> None
        | Some (states, rewrite) \<Rightarrow>
            Some (sort_states states, rewrite \<or> length candidates \<noteq> len \<or>
              map tr_tabId (sort_states states) \<noteq> map tr_tabId states))"
| "parseStoredStates _ = None"

text \<open>\<^verbatim>\<open>compactStates\<close>: the first other state goes until the rest fits.\<close>

fun remove_other :: "int \<Rightarrow> tab_refresh_state list \<Rightarrow> tab_refresh_state list" where
  "remove_other retained [] = []"
| "remove_other retained (s # ss) = (if tr_tabId s \<noteq> retained then ss else s # remove_other retained ss)"

lemma length_remove_other:
  "\<exists>s\<in>set ss. tr_tabId s \<noteq> retained \<Longrightarrow> length (remove_other retained ss) < length ss"
  by (induction ss) auto

function compactStates :: "tab_refresh_state list \<Rightarrow> int \<Rightarrow> tab_refresh_state list" where
  "compactStates states retained =
     (if length states > MAX_PERSISTED_TAB_REFRESH_STATES \<and> (\<exists>s\<in>set states. tr_tabId s \<noteq> retained)
      then compactStates (remove_other retained states) retained else states)"
  by pat_completeness auto
termination
  by (relation "measure (\<lambda>(states, retained). length states)") (simp_all add: length_remove_other)

declare compactStates.simps [simp del]

subsection \<open>Operations\<close>

definition writeStates :: "(nat \<Rightarrow> bool) \<Rightarrow> tab_refresh_state list \<Rightarrow> unit store_eff" where
  "writeStates fails states =
     (if states = [] then storage_remove fails StatesKey
      else storage_set fails StatesKey (js_array (map snapshotState states)))"

definition cleanupLegacyRecoveryBestEffort :: "(nat \<Rightarrow> bool) \<Rightarrow> unit store_eff" where
  "cleanupLegacyRecoveryBestEffort fails st =
     (if st_legacyRecoveryClean st then ret () st
      else attempt_quietly (bindE (storage_get fails LegacyKey) (\<lambda>stored.
        bindE (if ownDataValue stored (storage_key_name LegacyKey) \<noteq> None
          then storage_remove fails LegacyKey else ret ()) (\<lambda>_.
          (\<lambda>st. (Inr (), st\<lparr>st_legacyRecoveryClean := True\<rparr>))))) st)"

definition loadAllUnlocked :: "(nat \<Rightarrow> bool) \<Rightarrow> tab_refresh_state list store_eff" where
  "loadAllUnlocked fails =
     bindE (storage_get fails StatesKey) (\<lambda>stored.
       case ownDataValue stored (storage_key_name StatesKey) of
         None \<Rightarrow> bindE (cleanupLegacyRecoveryBestEffort fails) (\<lambda>_. ret [])
       | Some value \<Rightarrow>
           (case parseStoredStates value of
              None \<Rightarrow>
                bindE (attempt_quietly (storage_remove fails StatesKey)) (\<lambda>_.
                  bindE (cleanupLegacyRecoveryBestEffort fails) (\<lambda>_. ret []))
            | Some (states, needsRewrite) \<Rightarrow>
                bindE (if needsRewrite then attempt_quietly (writeStates fails states) else ret ()) (\<lambda>_.
                  bindE (cleanupLegacyRecoveryBestEffort fails) (\<lambda>_. ret states))))"

definition loadAll :: "(nat \<Rightarrow> bool) \<Rightarrow> tab_refresh_state list store_eff" where
  "loadAll fails = loadAllUnlocked fails"

definition load_state :: "(nat \<Rightarrow> bool) \<Rightarrow> int \<Rightarrow> int \<Rightarrow> tab_refresh_state store_eff" where
  "load_state fails tabId windowId =
     (case createDefaultTabRefreshState tabId windowId 0 of
        None \<Rightarrow> throw InvalidTabState
      | Some defaults \<Rightarrow> bindE (loadAllUnlocked fails) (\<lambda>states.
          ret (case find (\<lambda>s. tr_tabId s = tabId \<and> tr_windowId s = windowId) states of
             None \<Rightarrow> defaults | Some s \<Rightarrow> s)))"

text \<open>The part that \<^verbatim>\<open>save\<close> and \<^verbatim>\<open>updateTab\<close> share.\<close>

definition next_states :: "tab_refresh_state \<Rightarrow> tab_refresh_state list \<Rightarrow> tab_refresh_state list" where
  "next_states durable states = compactStates
     (sort_states (filter (\<lambda>s. tr_tabId s \<noteq> tr_tabId durable) states @ [durable])) (tr_tabId durable)"

definition save_state :: "(nat \<Rightarrow> bool) \<Rightarrow> tab_refresh_state \<Rightarrow> unit store_eff" where
  "save_state fails state =
     (case parseTabRefreshState (tab_state_value state) of
        None \<Rightarrow> throw InvalidTabState
      | Some parsed \<Rightarrow> bindE (loadAllUnlocked fails) (\<lambda>states.
          writeStates fails (next_states (durableState parsed) states)))"

text \<open>
  \<^verbatim>\<open>updateTab\<close>: the updater may look at more than the state and remember what it saw, so it returns
  that too; \<open>None\<close> in the first component when it did not run.
\<close>

definition updateTab ::
  "(nat \<Rightarrow> bool) \<Rightarrow> int \<Rightarrow> (tab_refresh_state option \<Rightarrow> tab_refresh_state option \<times> 'c) \<Rightarrow> tab_store \<Rightarrow>
   'c option \<times> (store_error + tab_refresh_state option) \<times> tab_store" where
  "updateTab fails tabId update st =
     (case createDefaultTabRefreshState tabId 0 0 of None \<Rightarrow> (None, Inl InvalidTabState, st)
      | Some _ \<Rightarrow>
     (case loadAllUnlocked fails st of
        (Inl e, st1) \<Rightarrow> (None, Inl e, st1)
      | (Inr states, st1) \<Rightarrow>
          let current = find (\<lambda>s. tr_tabId s = tabId) states;
              (candidate, seen) = update current
          in (Some seen,
              case candidate of None \<Rightarrow> ret current st1
              | Some c \<Rightarrow>
                  (case parseTabRefreshState (tab_state_value c) of
                     None \<Rightarrow> throw InvalidTabState st1
                   | Some parsed \<Rightarrow>
                       if tr_tabId parsed \<noteq> tabId then throw InvalidTabState st1
                       else bindE (writeStates fails (next_states (durableState parsed) states))
                         (\<lambda>_. ret (Some (durableState parsed))) st1))))"

definition removeTab :: "(nat \<Rightarrow> bool) \<Rightarrow> int \<Rightarrow> unit store_eff" where
  "removeTab fails tabId =
     (case createDefaultTabRefreshState tabId 0 0 of None \<Rightarrow> throw InvalidTabState
      | Some _ \<Rightarrow> bindE (loadAllUnlocked fails) (\<lambda>states.
          if \<not> (\<exists>s\<in>set states. tr_tabId s = tabId) then ret ()
          else writeStates fails (filter (\<lambda>s. tr_tabId s \<noteq> tabId) states)))"

definition clear_store :: "(nat \<Rightarrow> bool) \<Rightarrow> unit store_eff" where
  "clear_store fails =
     bindE (storage_remove fails StatesKey) (\<lambda>_.
       attempt_quietly (bindE (storage_remove fails LegacyKey) (\<lambda>_.
         (\<lambda>st. (Inr (), st\<lparr>st_legacyRecoveryClean := True\<rparr>)))))"

end
