(* ===== verification/Refresh_Store_Theorems.thy ===== *)
theory Refresh_Store_Theorems
  imports Refresh_Store
begin

text \<open>
  What the store of refresh states promises: whatever the storage holds, loading returns valid
  states without owners, sorted and bounded; the storage is a map from tabs to states, and each
  operation either succeeds and updates that map or fails and leaves it as it was.
\<close>

subsection \<open>Writing and reading back\<close>

definition durable_ok :: "tab_refresh_state \<Rightarrow> bool" where
  "durable_ok s \<longleftrightarrow> tab_state_ok s \<and> \<not> tr_participant s \<and> tr_pending s = None"

definition states_ok :: "tab_refresh_state list \<Rightarrow> bool" where
  "states_ok xs \<longleftrightarrow> sorted_wrt (<) (map tr_tabId xs) \<and> list_all durable_ok xs \<and>
     length xs \<le> MAX_PERSISTED_TAB_REFRESH_STATES"

lemma durable_durableState: "tab_state_ok s \<Longrightarrow> durable_ok (durableState s)"
  by (simp add: durable_ok_def durableState_def tab_state_ok_def pending_agrees_def)

lemma durableState_id: "durable_ok s \<Longrightarrow> durableState s = s"
  by (simp add: durable_ok_def durableState_def)

lemma durableState_tab [simp]: "tr_tabId (durableState s) = tr_tabId s"
  by (simp add: durableState_def)

lemma snapshotState_value: "durable_ok s \<Longrightarrow> snapshotState s = tab_state_value s"
  by (simp add: snapshotState_def tab_state_value_def durable_ok_def)

lemma parse_stored_snapshot:
  assumes "durable_ok s" shows "parseStoredState (snapshotState s) = Some (s, False)"
proof -
  have ok: "parseTabRefreshState (snapshotState s) = Some s"
    using assms by (simp add: snapshotState_value parse_tab_state_value durable_ok_def)
  show ?thesis
  proof (cases "tr_lastAcceptedMode s")
    case None
    then show ?thesis
      using ok assms unfolding parseStoredState_def snapshotState_def
      by (simp add: own_keys_object own_value_object durableState_id STORED_STATE_REQUIRED_KEYS_def
          STORED_STATE_OPTIONAL_KEYS_def)
  next
    case (Some m)
    then show ?thesis
      using ok assms unfolding parseStoredState_def snapshotState_def
      by (simp add: own_keys_object own_value_object durableState_id STORED_STATE_REQUIRED_KEYS_def
          STORED_STATE_OPTIONAL_KEYS_def)
  qed
qed

lemma parse_stored_ok: "parseStoredState v = Some (s, b) \<Longrightarrow> durable_ok s"
  by (auto simp: parseStoredState_def bind_eq_Some_conv durable_durableState
      dest!: parse_tab_state_ok)

lemma array_items_js: "array_items (length xs)
    (zip (map (\<lambda>i. StrKey (decimal i)) [0..<length xs]) (map (\<lambda>x. (True, Some x)) xs)) = xs"
proof (rule nth_equalityI)
  fix i assume "i < length (array_items (length xs)
    (zip (map (\<lambda>i. StrKey (decimal i)) [0..<length xs]) (map (\<lambda>x. (True, Some x)) xs)))"
  then have i: "i < length xs" by (simp add: array_items_def)
  show "array_items (length xs)
      (zip (map (\<lambda>i. StrKey (decimal i)) [0..<length xs]) (map (\<lambda>x. (True, Some x)) xs)) ! i = xs ! i"
    using i map_of_zip_nth [of "map (\<lambda>i. StrKey (decimal i)) [0..<length xs]" "map (\<lambda>x. (True, Some x)) xs" i]
    by (simp add: array_items_def array_item_def distinct_map inj_on_def)
qed (simp add: array_items_def)

lemma collect_stored_snapshots:
  "list_all durable_ok xs \<Longrightarrow> distinct (map tr_tabId xs) \<Longrightarrow> set ids \<inter> tr_tabId ` set xs = {} \<Longrightarrow>
   collect_stored (map snapshotState xs) ids = Some (xs, False)"
proof (induction xs arbitrary: ids)
  case (Cons s xs)
  then have "collect_stored (map snapshotState xs) (set_add (tr_tabId s) ids) = Some (xs, False)"
    by (intro Cons.IH) auto
  then show ?case using Cons.prems by (simp add: parse_stored_snapshot)
qed simp

lemma collect_stored_ok:
  "collect_stored vs ids = Some (xs, b) \<Longrightarrow> list_all durable_ok xs \<and> distinct (map tr_tabId xs) \<and>
     set ids \<inter> tr_tabId ` set xs = {} \<and> length xs = length vs"
proof (induction vs arbitrary: ids xs b)
  case (Cons v vs)
  from Cons.prems obtain s b1 ys b2 where p: "parseStoredState v = Some (s, b1)" "tr_tabId s \<notin> set ids"
      "collect_stored vs (set_add (tr_tabId s) ids) = Some (ys, b2)" and xs: "xs = s # ys"
    by (auto split: option.splits prod.splits if_splits)
  show ?case using Cons.IH [OF p(3)] p(1,2) parse_stored_ok [OF p(1)] unfolding xs by auto
qed simp

lemma sorted_strict: "sorted_wrt (<) (xs :: int list) \<longleftrightarrow> sorted xs \<and> distinct xs"
  using strict_sorted_iff .

lemma states_distinct: "states_ok xs \<Longrightarrow> distinct (map tr_tabId xs)"
  by (simp add: states_ok_def sorted_strict)

lemma sort_states_props [simp]: "set (sort_states xs) = set xs" "length (sort_states xs) = length xs"
  by (simp_all add: sort_states_def)

lemma sort_states_strict:
  "distinct (map tr_tabId xs) \<Longrightarrow> sorted_wrt (<) (map tr_tabId (sort_states xs))"
  by (simp add: sorted_strict sort_states_def distinct_map inj_on_def)

lemma sort_states_id: "states_ok xs \<Longrightarrow> sort_states xs = xs"
  by (simp add: states_ok_def sorted_strict sort_states_def sort_key_id_if_sorted)

lemma parse_written:
  assumes "states_ok xs" shows "parseStoredStates (js_array (map snapshotState xs)) = Some (xs, False)"
proof -
  have "collect_stored (map snapshotState xs) [] = Some (xs, False)"
    using assms states_distinct [OF assms] by (intro collect_stored_snapshots) (simp_all add: states_ok_def)
  moreover have "length xs \<le> MAX_PERSISTED_TAB_REFRESH_STATES" using assms by (simp add: states_ok_def)
  moreover have "array_items (length xs) (zip (map (\<lambda>i. StrKey (decimal i)) [0..<length xs])
      (map ((\<lambda>x. (True, Some x)) \<circ> snapshotState) xs)) = map snapshotState xs"
    using array_items_js [of "map snapshotState xs"] by simp
  ultimately show ?thesis by (simp add: js_array_def sort_states_id [OF assms])
qed

lemma parsed_states_ok:
  assumes "parseStoredStates v = Some (xs, b)" shows "states_ok xs"
proof (cases v)
  case (VArray len ds)
  define candidates where "candidates = (if len > MAX_PERSISTED_TAB_REFRESH_STATES
    then drop (len - MAX_PERSISTED_TAB_REFRESH_STATES) (array_items len ds) else array_items len ds)"
  obtain ys b1 where c: "collect_stored candidates [] = Some (ys, b1)" and xs: "xs = sort_states ys"
    using assms by (auto simp: VArray candidates_def [symmetric] Let_def split: option.splits)
  have len: "length candidates \<le> MAX_PERSISTED_TAB_REFRESH_STATES"
    by (simp add: candidates_def array_items_def)
  show ?thesis using collect_stored_ok [OF c] len unfolding xs
    by (simp add: states_ok_def sort_states_strict list_all_iff)
qed (use assms in simp_all)

subsection \<open>What the storage means\<close>

definition view :: "tab_store \<Rightarrow> tab_refresh_state list" where
  "view st = (case st_states st of None \<Rightarrow> []
     | Some v \<Rightarrow> (case parseStoredStates v of None \<Rightarrow> [] | Some (xs, _) \<Rightarrow> xs))"

lemma states_ok_Nil [simp]: "states_ok []"
  by (simp add: states_ok_def)

lemma view_ok: "states_ok (view st)"
  by (auto simp: view_def dest: parsed_states_ok split: option.splits)

lemma view_fields [simp]: "view (st\<lparr>st_calls := n\<rparr>) = view st"
    "view (st\<lparr>st_legacy := v\<rparr>) = view st" "view (st\<lparr>st_legacyRecoveryClean := b\<rparr>) = view st"
  by (simp_all add: view_def)

abbreviation keeps_view :: "'a store_eff \<Rightarrow> bool" where
  "keeps_view \<equiv> obeys (\<lambda>st st'. view st' = view st)"

interpretation kv: effect_relation "\<lambda>st st'. view st' = view st"
  by unfold_locales simp_all

lemma keeps_view_get: "keeps_view (storage_get fails key)"
  by (simp add: obeys_def storage_get_def storage_call_def Let_def)

lemma keeps_view_legacy: "keeps_view (storage_remove fails LegacyKey)"
  by (simp add: obeys_def storage_remove_def storage_call_def Let_def)

lemma keeps_view_clean: "keeps_view (\<lambda>st. (Inr (), st\<lparr>st_legacyRecoveryClean := True\<rparr>))"
  by (simp add: obeys_def)

lemma keeps_view_attempt: "keeps_view m \<Longrightarrow> keeps_view (attempt_quietly m)"
  by (simp add: obeys_def attempt_quietly_def)

lemma keeps_view_cleanup: "keeps_view (cleanupLegacyRecoveryBestEffort fails)"
proof -
  have "keeps_view (attempt_quietly (bindE (storage_get fails LegacyKey) (\<lambda>stored.
        bindE (if ownDataValue stored (storage_key_name LegacyKey) \<noteq> None
          then storage_remove fails LegacyKey else ret ()) (\<lambda>_.
          (\<lambda>st. (Inr (), st\<lparr>st_legacyRecoveryClean := True\<rparr>))))))"
    by (intro keeps_view_attempt kv.obeys_bind keeps_view_get keeps_view_clean)
      (simp add: keeps_view_legacy)
  then show ?thesis by (simp add: obeys_def cleanupLegacyRecoveryBestEffort_def)
qed

lemma cleanup_returns: "fst (cleanupLegacyRecoveryBestEffort fails st) = Inr ()"
  by (simp add: cleanupLegacyRecoveryBestEffort_def attempt_quietly_def)

lemma writeStates_cases:
  assumes "states_ok xs"
  shows "writeStates fails xs st = (Inr (), snd (writeStates fails xs st)) \<and> view (snd (writeStates fails xs st)) = xs \<or>
    writeStates fails xs st = (Inl StorageFailed, snd (writeStates fails xs st)) \<and>
    view (snd (writeStates fails xs st)) = view st"
proof (cases "fails (st_calls st)")
  case True
  then show ?thesis
    by (simp add: writeStates_def storage_set_def storage_remove_def storage_call_def Let_def)
next
  case False
  then show ?thesis using parse_written [OF assms]
    by (simp add: writeStates_def storage_set_def storage_remove_def storage_call_def Let_def view_def)
qed

lemma loadAllUnlocked_cases:
  "view (snd (loadAllUnlocked fails st)) = view st \<and>
   fst (loadAllUnlocked fails st) \<in> {Inr (view st), Inl StorageFailed}"
proof -
  define st1 where "st1 = st\<lparr>st_calls := Suc (st_calls st)\<rparr>"
  have v1: "view st1 = view st" and s1: "st_states st1 = st_states st" by (simp_all add: st1_def)
  have clean: "view (snd (cleanupLegacyRecoveryBestEffort fails s)) = view s" for s
    using keeps_view_cleanup [of fails] by (simp add: obeys_def)
  have finish: "view (snd (bindE (cleanupLegacyRecoveryBestEffort fails) (\<lambda>_. ret xs) s)) = view s \<and>
      fst (bindE (cleanupLegacyRecoveryBestEffort fails) (\<lambda>_. ret xs) s) = Inr xs"
    for xs :: "tab_refresh_state list" and s
    using clean [of s] cleanup_returns [of fails s]
    by (cases "cleanupLegacyRecoveryBestEffort fails s") (simp add: bindE_def)
  show ?thesis
  proof (cases "fails (st_calls st)")
    case True
    then show ?thesis
      by (simp add: loadAllUnlocked_def bindE_def storage_get_def storage_call_def Let_def)
  next
    case False
    then have g: "storage_get fails StatesKey st = (Inr (case st_states st of None \<Rightarrow> data_object []
        | Some v \<Rightarrow> data_object [(storage_key_name StatesKey, v)]), st1)"
      by (simp add: storage_get_def storage_call_def Let_def st1_def)
    show ?thesis
    proof (cases "st_states st")
      case None
      then have "view st = []" by (simp add: view_def)
      with None show ?thesis using finish [of "[]" st1] v1
        by (simp add: loadAllUnlocked_def bindE_apply [of "storage_get fails StatesKey"] g
            ownDataValue_def own_value_object)
    next
      case (Some v)
      then have own: "ownDataValue (data_object [(storage_key_name StatesKey, v)]) (storage_key_name StatesKey) = Some v"
        by (simp add: ownDataValue_def own_value_object)
      show ?thesis
      proof (cases "parseStoredStates v")
        case None
        define st2 where "st2 = snd (storage_remove fails StatesKey st1)"
        have "view st2 = view st"
          using Some None by (simp add: st2_def storage_remove_def storage_call_def Let_def view_def st1_def)
        moreover have "view st = []" using Some None by (simp add: view_def)
        ultimately show ?thesis using finish [of "[]" st2] Some None own
          by (simp add: loadAllUnlocked_def bindE_apply [of "storage_get fails StatesKey"] g attempt_quietly_def st2_def bindE_Inr)
      next
        case (Some p)
        then obtain xs b where p: "parseStoredStates v = Some (xs, b)" by (cases p) simp
        define st2 where "st2 = (if b then snd (writeStates fails xs st1) else st1)"
        have vx: "view st = xs" using p \<open>st_states st = Some v\<close> by (simp add: view_def)
        have "view st2 = xs" using writeStates_cases [OF parsed_states_ok [OF p], of fails st1] v1 vx
          by (auto simp: st2_def)
        then show ?thesis using finish [of xs st2] \<open>st_states st = Some v\<close> own p vx
          by (cases b) (simp_all add: loadAllUnlocked_def bindE_apply [of "storage_get fails StatesKey"] g attempt_quietly_def st2_def bindE_Inr)
      qed
    qed
  qed
qed

lemma loadAllUnlocked_split:
  obtains st1 where "loadAllUnlocked fails st = (Inr (view st), st1)" "view st1 = view st"
  | st1 where "loadAllUnlocked fails st = (Inl StorageFailed, st1)" "view st1 = view st"
  using loadAllUnlocked_cases [of fails st] by (cases "loadAllUnlocked fails st") auto

subsection \<open>The storage as a map\<close>

definition tabs_of :: "tab_refresh_state list \<Rightarrow> int \<rightharpoonup> tab_refresh_state" where
  "tabs_of xs tabId = find (\<lambda>s. tr_tabId s = tabId) xs"

text \<open>What saving a state means: it replaces the one of its tab, and when there are too many, the
  other tab with the smallest number is forgotten.\<close>

definition map_save :: "tab_refresh_state \<Rightarrow> (int \<rightharpoonup> tab_refresh_state) \<Rightarrow> int \<rightharpoonup> tab_refresh_state" where
  "map_save d m = (let m' = m(tr_tabId d \<mapsto> d) in
     if card (dom m') \<le> MAX_PERSISTED_TAB_REFRESH_STATES then m'
     else m'(Min (dom m' - {tr_tabId d}) := None))"

lemma tabs_of_iff:
  "distinct (map tr_tabId xs) \<Longrightarrow> tabs_of xs t = Some s \<longleftrightarrow> s \<in> set xs \<and> tr_tabId s = t"
  by (induction xs) (auto simp: tabs_of_def)

lemma tabs_of_cong:
  assumes "distinct (map tr_tabId xs)" and "distinct (map tr_tabId ys)" and "set xs = set ys"
  shows "tabs_of xs = tabs_of ys"
proof
  fix t show "tabs_of xs t = tabs_of ys t"
    using assms tabs_of_iff [OF assms(1), of t] tabs_of_iff [OF assms(2), of t]
    by (metis not_None_eq)
qed

lemma dom_tabs_of: "dom (tabs_of xs) = tr_tabId ` set xs"
  by (induction xs) (auto simp: tabs_of_def dom_def split: if_splits)

lemma card_tabs_of: "distinct (map tr_tabId xs) \<Longrightarrow> card (dom (tabs_of xs)) = length xs"
  by (metis dom_tabs_of distinct_card length_map list.set_map)

lemma tabs_of_filter:
  "tabs_of (filter (\<lambda>s. tr_tabId s \<noteq> k) xs) = (tabs_of xs)(k := None)"
  by (rule ext) (auto simp: tabs_of_def find_None_iff, induction xs, auto)

lemma tabs_of_put: "tabs_of (filter (\<lambda>s. tr_tabId s \<noteq> tr_tabId d) xs @ [d]) = (tabs_of xs)(tr_tabId d \<mapsto> d)"
proof
  fix t
  have "find P (as @ [x]) = (case find P as of None \<Rightarrow> if P x then Some x else None | Some y \<Rightarrow> Some y)" for P as and x :: tab_refresh_state
    by (induction as) auto
  then show "tabs_of (filter (\<lambda>s. tr_tabId s \<noteq> tr_tabId d) xs @ [d]) t = ((tabs_of xs)(tr_tabId d \<mapsto> d)) t"
    using fun_cong [OF tabs_of_filter [of "tr_tabId d" xs], of t] by (auto simp: tabs_of_def split: option.splits)
qed

lemma remove_other_filter:
  assumes "sorted_wrt (<) (map tr_tabId xs)" and "\<exists>s\<in>set xs. tr_tabId s \<noteq> k"
  shows "remove_other k xs = filter (\<lambda>s. tr_tabId s \<noteq> Min (tr_tabId ` set xs - {k})) xs"
  using assms
proof (induction xs)
  case (Cons s xs)
  have s: "sorted_wrt (<) (map tr_tabId xs)" and less: "\<And>x. x \<in> set xs \<Longrightarrow> tr_tabId s < tr_tabId x"
    using Cons.prems by auto
  show ?case
  proof (cases "tr_tabId s = k")
    case False
    have "Min (tr_tabId ` set (s # xs) - {k}) = tr_tabId s"
      using False less less_imp_le by (intro Min_eqI) auto
    moreover have "filter (\<lambda>x. tr_tabId x \<noteq> tr_tabId s) xs = xs"
      using less by (simp add: filter_id_conv) fastforce
    ultimately show ?thesis using False by simp
  next
    case True
    have ex: "\<exists>s\<in>set xs. tr_tabId s \<noteq> k" using Cons.prems(2) True by auto
    have eq: "tr_tabId ` set (s # xs) - {k} = tr_tabId ` set xs - {k}" using True by auto
    have "Min (tr_tabId ` set xs - {k}) \<in> tr_tabId ` set xs - {k}"
      using ex by (intro Min_in) auto
    then have "tr_tabId s \<noteq> Min (tr_tabId ` set xs - {k})" using True by auto
    then show ?thesis using Cons.IH [OF s ex] True unfolding eq by simp
  qed
qed simp

lemma compactStates_once:
  assumes "length xs \<le> Suc MAX_PERSISTED_TAB_REFRESH_STATES" and "\<exists>s\<in>set xs. tr_tabId s \<noteq> k"
  shows "compactStates xs k = (if length xs > MAX_PERSISTED_TAB_REFRESH_STATES then remove_other k xs else xs)"
proof (cases "length xs > MAX_PERSISTED_TAB_REFRESH_STATES")
  case True
  then have "length (remove_other k xs) \<le> MAX_PERSISTED_TAB_REFRESH_STATES"
    using length_remove_other [OF assms(2)] assms(1) by linarith
  then show ?thesis using True assms(2)
    by (simp add: compactStates.simps [of xs] compactStates.simps [of "remove_other k xs"])
qed (simp add: compactStates.simps [of xs])

lemma next_states_refines:
  assumes "states_ok xs" and "durable_ok d"
  shows "states_ok (next_states d xs) \<and> tabs_of (next_states d xs) = map_save d (tabs_of xs)"
proof -
  define ys where "ys = filter (\<lambda>s. tr_tabId s \<noteq> tr_tabId d) xs @ [d]"
  define zs where "zs = sort_states ys"
  have dx: "distinct (map tr_tabId xs)" using assms(1) by (rule states_distinct)
  have dy: "distinct (map tr_tabId ys)" using dx by (auto simp: ys_def distinct_map inj_on_def)
  have sz: "sorted_wrt (<) (map tr_tabId zs)" unfolding zs_def using dy by (rule sort_states_strict)
  then have dz: "distinct (map tr_tabId zs)" by (simp add: sorted_strict)
  have tz: "tabs_of zs = (tabs_of xs)(tr_tabId d \<mapsto> d)"
    using tabs_of_cong [OF dz dy] tabs_of_put [of d xs] by (simp add: zs_def ys_def)
  have lz: "length zs \<le> Suc MAX_PERSISTED_TAB_REFRESH_STATES"
    using assms(1) le_trans [OF length_filter_le [of "\<lambda>s. tr_tabId s \<noteq> tr_tabId d" xs]]
    by (simp add: zs_def ys_def states_ok_def)
  have az: "list_all durable_ok zs"
    using assms by (auto simp: zs_def ys_def list_all_iff states_ok_def)
  have n: "next_states d xs = compactStates zs (tr_tabId d)" by (simp add: next_states_def zs_def ys_def)
  have card: "card (dom (tabs_of zs)) = length zs" using dz by (rule card_tabs_of)
  show ?thesis
  proof (cases "length zs > MAX_PERSISTED_TAB_REFRESH_STATES")
    case False
    then have "next_states d xs = zs" by (simp add: n compactStates.simps)
    with False show ?thesis using sz az card by (simp add: states_ok_def map_save_def Let_def tz [symmetric])
  next
    case True
    have "1 < length zs" using True by (simp add: MAX_PERSISTED_TAB_REFRESH_STATES_def)
    then have "1 < card (tr_tabId ` set zs)" using card by (simp add: dom_tabs_of)
    then have ex: "\<exists>s\<in>set zs. tr_tabId s \<noteq> tr_tabId d"
      using card_mono [of "{tr_tabId d}" "tr_tabId ` set zs"] by (metis (mono_tags) One_nat_def card.empty
        card.insert empty_iff finite.emptyI finite.insertI image_subsetI insertCI leD)
    define k where "k = Min (tr_tabId ` set zs - {tr_tabId d})"
    have f: "next_states d xs = filter (\<lambda>s. tr_tabId s \<noteq> k) zs"
      using compactStates_once [OF lz ex] remove_other_filter [OF sz ex] True by (simp add: n k_def)
    have "length (remove_other (tr_tabId d) zs) \<le> MAX_PERSISTED_TAB_REFRESH_STATES"
      using length_remove_other [OF ex] lz by linarith
    then have "length (next_states d xs) \<le> MAX_PERSISTED_TAB_REFRESH_STATES"
      using compactStates_once [OF lz ex] True by (simp add: n)
    moreover have "sorted_wrt (<) (map tr_tabId (next_states d xs))"
      using sz by (simp add: f sorted_wrt_map sorted_wrt_filter)
    moreover have "list_all durable_ok (next_states d xs)" using az by (simp add: f list_all_iff)
    moreover have "tabs_of (next_states d xs) = map_save d (tabs_of xs)"
      using True card by (simp add: f tabs_of_filter map_save_def Let_def tz [symmetric] k_def dom_tabs_of)
    ultimately show ?thesis by (simp add: states_ok_def)
  qed
qed

subsection \<open>Properties\<close>

lemma parse_own_state: "parseTabRefreshState (tab_state_value s) = Some p \<Longrightarrow> p = s \<and> tab_state_ok s"
  by (simp add: parse_tab_state_value split: if_splits)

lemma save_from:
  assumes "loadAllUnlocked fails st = (Inr (view st), st1)" and "view st1 = view st" and "durable_ok d"
  shows "writeStates fails (next_states d (view st)) st1 = (r, st') \<Longrightarrow>
    r = Inr () \<and> tabs_of (view st') = map_save d (tabs_of (view st)) \<or>
    r = Inl StorageFailed \<and> view st' = view st"
  using writeStates_cases [of "next_states d (view st)" fails st1]
    next_states_refines [OF view_ok assms(3)] assms(2) by auto

lemma save_state_cases:
  assumes "save_state fails s st = (r, st')"
  shows "r = Inr () \<and> tabs_of (view st') = map_save (durableState s) (tabs_of (view st)) \<or>
    (\<exists>e. r = Inl e) \<and> view st' = view st"
proof (cases "parseTabRefreshState (tab_state_value s)")
  case None
  then show ?thesis using assms by (auto simp: save_state_def)
next
  case (Some p)
  then have p: "p = s" and d: "durable_ok (durableState s)"
    using parse_own_state durable_durableState by blast+
  show ?thesis
  proof (cases rule: loadAllUnlocked_split [of fails st])
    case (1 st1)
    have "writeStates fails (next_states (durableState s) (view st)) st1 = (r, st')"
      using assms Some 1 by (simp add: save_state_def p bindE_apply)
    from save_from [OF 1 d this] show ?thesis by blast
  next
    case (2 st1)
    then show ?thesis using assms Some by (auto simp: save_state_def bindE_apply)
  qed
qed

lemma removeTab_cases:
  assumes "removeTab fails t st = (r, st')"
  shows "r = Inr () \<and> tabs_of (view st') = (tabs_of (view st))(t := None) \<or>
    (\<exists>e. r = Inl e) \<and> view st' = view st"
proof (cases "createDefaultTabRefreshState t 0 0")
  case None
  then show ?thesis using assms by (auto simp: removeTab_def)
next
  case (Some d)
  show ?thesis
  proof (cases rule: loadAllUnlocked_split [of fails st])
    case (1 st1)
    show ?thesis
    proof (cases "\<exists>s\<in>set (view st). tr_tabId s = t")
      case False
      then have "tabs_of (view st) t = None" by (auto simp: tabs_of_def find_None_iff)
      then have "(tabs_of (view st))(t := None) = tabs_of (view st)" by (simp add: fun_upd_idem)
      then show ?thesis using assms Some 1 False by (auto simp: removeTab_def bindE_apply)
    next
      case True
      have ok: "states_ok (filter (\<lambda>s. tr_tabId s \<noteq> t) (view st))"
        using view_ok [of st] le_trans [OF length_filter_le [of "\<lambda>s. tr_tabId s \<noteq> t" "view st"]]
        by (simp add: states_ok_def sorted_wrt_map sorted_wrt_filter list_all_iff)
      have "writeStates fails (filter (\<lambda>s. tr_tabId s \<noteq> t) (view st)) st1 = (r, st')"
        using assms Some 1 True by (auto simp: removeTab_def bindE_apply split: if_splits)
      then show ?thesis using writeStates_cases [OF ok, of fails st1] 1(2) by (auto simp: tabs_of_filter)
    qed
  next
    case (2 st1)
    then show ?thesis using assms Some by (auto simp: removeTab_def bindE_apply)
  qed
qed

text \<open>
  \<open>updateTab\<close>: the updater sees the stored state of the tab; its answer is saved, or nothing
  happens when it has none.
\<close>

lemma updateTab_cases:
  assumes "updateTab fails t update st = (seen, r, st')"
  shows "(seen = None \<or> seen = Some (snd (update (tabs_of (view st) t)))) \<and>
    ((\<exists>e. r = Inl e) \<and> view st' = view st \<or>
     seen \<noteq> None \<and> fst (update (tabs_of (view st) t)) = None \<and> r = Inr (tabs_of (view st) t) \<and> view st' = view st \<or>
     seen \<noteq> None \<and> (\<exists>c. fst (update (tabs_of (view st) t)) = Some c \<and> tr_tabId c = t \<and> tab_state_ok c \<and>
       r = Inr (Some (durableState c)) \<and> tabs_of (view st') = map_save (durableState c) (tabs_of (view st))))"
proof (cases "createDefaultTabRefreshState t 0 0")
  case None
  then show ?thesis using assms by (auto simp: updateTab_def)
next
  case (Some d)
  show ?thesis
  proof (cases rule: loadAllUnlocked_split [of fails st])
    case (1 st1)
    obtain candidate saw where u: "update (tabs_of (view st) t) = (candidate, saw)"
      by (cases "update (tabs_of (view st) t)")
    show ?thesis
    proof (cases candidate)
      case None
      then show ?thesis using assms Some 1 u by (auto simp: updateTab_def tabs_of_def)
    next
      case (Some c)
      note c = this
      show ?thesis
      proof (cases "parseTabRefreshState (tab_state_value c)")
        case None
        then show ?thesis using assms \<open>createDefaultTabRefreshState t 0 0 = Some d\<close> 1 u c
          by (auto simp: updateTab_def tabs_of_def)
      next
        case (Some p)
        then have p: "p = c" and ok: "tab_state_ok c" using parse_own_state by blast+
        show ?thesis
        proof (cases "tr_tabId c = t")
          case False
          then show ?thesis using assms \<open>createDefaultTabRefreshState t 0 0 = Some d\<close> 1 u c Some
            by (auto simp: updateTab_def tabs_of_def p)
        next
          case True
          obtain w st2 where w: "writeStates fails (next_states (durableState c) (view st)) st1 = (w, st2)"
            by (cases "writeStates fails (next_states (durableState c) (view st)) st1")
          show ?thesis
            using assms \<open>createDefaultTabRefreshState t 0 0 = Some d\<close> 1 u c Some True
              save_from [OF 1 durable_durableState [OF ok] w] ok w
            by (auto simp: updateTab_def tabs_of_def [symmetric] p bindE_apply)
        qed
      qed
    qed
  next
    case (2 st1)
    then show ?thesis using assms Some by (auto simp: updateTab_def bindE_apply)
  qed
qed

text \<open>Whatever the storage holds and whichever of its calls fail, loading the states of all tabs either
  fails or returns well-formed states, at most 4096 of them, strictly sorted by tab, and none of
  them claims to be a participant or to have a refresh pending: ownership never outlives the
  background page through the storage. Loading does not change what the storage means.
\<close>
theorem loaded_states_valid:
  assumes "loadAll fails st = (Inr states, st')"
  shows "states_ok states \<and> view st' = states \<and> view st = states"
  using assms loadAllUnlocked_split [of fails st] view_ok [of st] unfolding loadAll_def
  by (metis Pair_inject sum.distinct(1) sum.inject(2))

text \<open>C26:
  The store is a map from tabs to states: saving a state that succeeds replaces the state of its
  tab (and, if there would be more than 4096, forgets the other tab with the smallest number),
  removing a tab removes it, and an operation that fails leaves the map as it was.
\<close>
theorem store_refines_map:
  assumes "save_state fails s st = (r, st1)" and "removeTab fails t st = (q, st2)"
  shows "(r = Inr () \<longrightarrow> tabs_of (view st1) = map_save (durableState s) (tabs_of (view st))) \<and>
    (r \<noteq> Inr () \<longrightarrow> tabs_of (view st1) = tabs_of (view st)) \<and>
    (q = Inr () \<longrightarrow> tabs_of (view st2) = (tabs_of (view st))(t := None)) \<and>
    (q \<noteq> Inr () \<longrightarrow> tabs_of (view st2) = tabs_of (view st))"
  using save_state_cases [OF assms(1)] removeTab_cases [OF assms(2)] by auto

definition example_store :: tab_store where
  "example_store = \<lparr>st_states = None, st_legacy = Some VNull, st_legacyRecoveryClean = False, st_calls = 0\<rparr>"

lemma example_store_view: "view example_store = []"
  by (simp add: view_def example_store_def)

lemma example_load: "loadAll (\<lambda>n. False) example_store =
    (Inr [], \<lparr>st_states = None, st_legacy = None, st_legacyRecoveryClean = True, st_calls = 3\<rparr>)"
  by (simp add: loadAll_def loadAllUnlocked_def bindE_apply storage_get_def storage_remove_def
      storage_call_def Let_def ownDataValue_def own_value_object example_store_def
      cleanupLegacyRecoveryBestEffort_def attempt_quietly_def)

theorem loaded_states_valid_witness:
  "states_ok [] \<and> view example_store = []"
  using loaded_states_valid [OF example_load] by simp

theorem store_refines_map_witness:
  "\<exists>st1. save_state (\<lambda>n. False) example_tab_state example_store = (Inr (), st1) \<and>
    tabs_of (view st1) = [7 \<mapsto> durableState example_tab_state]"
proof -
  obtain r st1 where s: "save_state (\<lambda>n. False) example_tab_state example_store = (r, st1)"
    by (cases "save_state (\<lambda>n. False) example_tab_state example_store")
  obtain q st2 where q: "removeTab (\<lambda>n. False) 7 example_store = (q, st2)"
    by (cases "removeTab (\<lambda>n. False) 7 example_store")
  have r: "r = Inr ()"
    using s example_load
    by (auto simp: save_state_def parse_tab_state_value example_tab_state_ok loadAll_def bindE_apply
        writeStates_def storage_set_def storage_remove_def storage_call_def Let_def split: if_splits)
  have "tabs_of (view st1) = map_save (durableState example_tab_state) (tabs_of [])"
    using store_refines_map [OF s q] r by (simp add: example_store_view)
  moreover have "tabs_of [] = Map.empty" by (rule ext) (simp add: tabs_of_def)
  ultimately show ?thesis using s r
    by (simp add: map_save_def Let_def MAX_PERSISTED_TAB_REFRESH_STATES_def example_tab_state_def)
qed

end
