(* ===== verification/Refresh_Coordinator.thy ===== *)
theory Refresh_Coordinator
  imports Refresh_Store
begin

text \<open>
  \<^verbatim>\<open>browser-extension-core/src/tabRefreshCoordinator.ts\<close>: which tabs take part in automatic refresh,
  which refresh of a window is the newest, and when a tab is told to refresh. The methods are
  asynchronous. A method is cut at every \<^verbatim>\<open>await\<close> into segments; a call that waits is a task: what
  it waits for and where it goes on (\<open>cont\<close>, with the local variables it still needs). Any task
  whose promise is settled may go on next, so every interleaving of calls is a run. A call of the
  store is two steps, the store's operation and the continuation, since the store runs its
  operations in a queue of its own. The coordinator's queue (\<^verbatim>\<open>tail\<close>) is explicit. Answers of the
  callbacks are inputs of the steps; a callback does not call the coordinator before it returns.
  \<^verbatim>\<open>onError\<close> only reports and is not modelled.
\<close>

subsection \<open>Data\<close>

datatype watermark_mode = KnownMode refresh_mode | UnknownMode

record window_watermark =
  wm_generation :: int
  wm_mode :: watermark_mode

datatype operation_phase = PhasePending | PhaseDispatching

record tab_refresh_operation =
  to_windowId :: int
  to_revision :: nat
  to_pending :: pending_tab_refresh
  to_onTabCompleted :: bool
  to_phase :: operation_phase
  to_completed :: bool

record refresh_admission_commit =
  ac_tabId :: int
  ac_before :: tab_refresh_state
  ac_after :: tab_refresh_state

record admission_stage =
  as_tabId :: int
  as_revision :: nat
  as_updated :: "tab_refresh_state option"

text \<open>A refresh on its way through the queue: the window, its watermark, whether completions are reported.\<close>

record admission =
  ad_windowId :: int
  ad_incoming :: window_watermark
  ad_onTabCompleted :: bool

text \<open>What a store call does; an updater is the closure it passes, with what the closure captured.\<close>

datatype updater = OpenUpdater int int nat | SettingsUpdater int int bool bool nat
  | AcceptUpdater int nat admission | EpochUpdater int | RollbackUpdater refresh_admission_commit

datatype store_request = LoadAllStates | LoadState int int | UpdateTab int updater | RemoveTabState int

datatype store_reply = StatesReply "store_error + tab_refresh_state list"
  | StateReply "store_error + tab_refresh_state"
  | UpdateReply "refresh_admission_commit option" "store_error + tab_refresh_state option"
  | RemoveReply "store_error + unit"

datatype answer = Throws | Says bool | ActiveTab "int option"

datatype waiting = OnInit nat | OnRemoval nat | OnStore store_request | OnReply store_reply | OnAnswer

text \<open>Where a task goes on, named by the method.\<close>

datatype cont =
    AtInitialization nat | AtInitialize
  | AtPanelOpened int int nat | AtPanelOpenedUpdate int int nat
  | AtPanelClosed int int nat | AtPanelClosedStored int int nat
  | AtStoredState int "int option" | AtStoredStateLoaded int "int option"
  | AtState int int | AtStateLoaded int int
  | AtSettings int int bool bool nat | AtSettingsUpdated int int bool nat
  | AtAccept admission | AtAcceptLoaded admission
  | AtAdmitted admission "tab_refresh_state list"
  | AtActiveTab admission "tab_refresh_state list" "window_watermark option"
  | AtStage admission "window_watermark option" "int option" int nat "tab_refresh_state list"
      "refresh_admission_commit list" "admission_stage list"
  | AtRollback admission "window_watermark option" refresh_admission_commit
      "refresh_admission_commit list" bool
  | AtEpoch int | AtEpochLoaded int | AtEpochUpdated int "tab_refresh_state list"
  | AtActivate int int
  | AtPrepared int nat bool | AtDispatched int nat bool
  | AtRemoveTab int nat
  | AtDetach int "nat option" | AtDetachLoaded int "nat option"
  | AtRemoveWindow int nat "(int \<times> nat) list" | AtRemoveWindowLoaded int nat "(int \<times> nat) list"
  | AtClearRemoval int nat | AtRemovalDone

datatype queued = QueuedAccept admission | QueuedEpoch int | QueuedActivate int int

datatype call_result = CallRejected | CallDone | CallBool bool | CallState "tab_refresh_state option"

datatype coordinator_event =
    SetParticipant int int bool
  | Admitted int window_watermark
  | DispatchRefresh int nat pending_tab_refresh
  | TabCompleted int nat bool
  | Settled nat call_result

record tab_coordinator =
  tc_watermarks :: "(int, window_watermark) jmap"
  tc_lifecycleRevisions :: "(int, nat) jmap"
  tc_panelWindows :: "(int, int) jmap"
  tc_participantWindows :: "(int, int) jmap"
  tc_pendingRefreshes :: "(int, nat) jmap"
  tc_operations :: "tab_refresh_operation list"
  tc_windowRemovals :: "(int, nat) jmap"
  tc_removalSettled :: "bool list"
  tc_terminalTabs :: "int list"
  tc_nextLifecycleRevision :: nat
  tc_initialization :: "nat option"
  tc_attempts :: "bool option list"
  tc_store :: tab_store
  tc_tasks :: "(nat \<times> waiting \<times> cont) list"
  tc_queue :: "(nat \<times> queued) list"
  tc_running :: bool
  tc_calls :: nat
  tc_log :: "coordinator_event list"

text \<open>
  \<open>tc_operations\<close> holds the operation objects, which are compared by identity, at their index;
  \<open>tc_removalSettled\<close> and \<open>tc_attempts\<close> the promises of window removals and initializations;
  \<open>tc_log\<close> what the callbacks were told, the latest first. A new coordinator on a given store:
\<close>

definition new_coordinator :: "tab_store \<Rightarrow> tab_coordinator" where
  "new_coordinator st = \<lparr>tc_watermarks = [], tc_lifecycleRevisions = [], tc_panelWindows = [],
     tc_participantWindows = [], tc_pendingRefreshes = [], tc_operations = [], tc_windowRemovals = [],
     tc_removalSettled = [], tc_terminalTabs = [], tc_nextLifecycleRevision = 1,
     tc_initialization = None, tc_attempts = [], tc_store = st, tc_tasks = [], tc_queue = [],
     tc_running = False, tc_calls = 0, tc_log = []\<rparr>"

subsection \<open>Watermarks\<close>

fun watermarkModePrecedence :: "watermark_mode \<Rightarrow> nat" where
  "watermarkModePrecedence (KnownMode StylesMode) = 0"
| "watermarkModePrecedence (KnownMode ReloadMode) = 1"
| "watermarkModePrecedence UnknownMode = 2"

definition isNewerRefresh :: "window_watermark \<Rightarrow> window_watermark option \<Rightarrow> bool" where
  "isNewerRefresh incoming current \<longleftrightarrow>
     (case current of None \<Rightarrow> True
      | Some c \<Rightarrow> wm_generation incoming > wm_generation c \<or>
          wm_generation incoming = wm_generation c \<and>
          watermarkModePrecedence (wm_mode incoming) > watermarkModePrecedence (wm_mode c))"

definition stateWatermark :: "tab_refresh_state \<Rightarrow> window_watermark" where
  "stateWatermark state = \<lparr>wm_generation = tr_lastAcceptedGeneration state,
     wm_mode = (case tr_lastAcceptedMode state of Some m \<Rightarrow> KnownMode m
       | None \<Rightarrow> if tr_lastAcceptedGeneration state > 0 then UnknownMode else KnownMode StylesMode)\<rparr>"

fun currentWatermark :: "window_watermark option \<Rightarrow> tab_refresh_state list \<Rightarrow> window_watermark option" where
  "currentWatermark current [] = current"
| "currentWatermark current (state # states) =
     currentWatermark (if isNewerRefresh (stateWatermark state) current
       then Some (stateWatermark state) else current) states"

text \<open>Generation and mode of \<^verbatim>\<open>durableWatermarkSnapshot\<close>.\<close>

definition durableWatermarkSnapshot ::
  "tab_refresh_state option \<Rightarrow> window_watermark option \<Rightarrow> int \<times> refresh_mode option" where
  "durableWatermarkSnapshot state remembered =
     (let from_memory = (case remembered of None \<Rightarrow> (0, None)
        | Some r \<Rightarrow> (wm_generation r,
            case wm_mode r of UnknownMode \<Rightarrow> None
            | KnownMode m \<Rightarrow> if wm_generation r > 0 \<or> m = ReloadMode then Some m else None))
      in case state of None \<Rightarrow> from_memory
        | Some s \<Rightarrow>
            if (case remembered of None \<Rightarrow> True | Some r \<Rightarrow> \<not> isNewerRefresh r (Some (stateWatermark s)))
            then (tr_lastAcceptedGeneration s, tr_lastAcceptedMode s) else from_memory)"

definition durableSnapshot :: "tab_refresh_state \<Rightarrow> tab_refresh_state" where
  "durableSnapshot state = \<lparr>tr_tabId = tr_tabId state, tr_windowId = tr_windowId state,
     tr_autoRefreshEnabled = tr_autoRefreshEnabled state,
     tr_ideHighlightEnabled = tr_ideHighlightEnabled state, tr_participant = False,
     tr_lastAcceptedGeneration = tr_lastAcceptedGeneration state,
     tr_lastAcceptedMode = tr_lastAcceptedMode state, tr_pending = None\<rparr>"

definition sameDurableState :: "tab_refresh_state option \<Rightarrow> tab_refresh_state \<Rightarrow> bool" where
  "sameDurableState value expected \<longleftrightarrow>
     (case value of None \<Rightarrow> False
      | Some v \<Rightarrow> tr_tabId v = tr_tabId expected \<and> tr_windowId v = tr_windowId expected \<and>
          tr_autoRefreshEnabled v = tr_autoRefreshEnabled expected \<and>
          tr_ideHighlightEnabled v = tr_ideHighlightEnabled expected \<and>
          tr_lastAcceptedGeneration v = tr_lastAcceptedGeneration expected \<and>
          tr_lastAcceptedMode v = tr_lastAcceptedMode expected)"

definition default_state :: "int \<Rightarrow> int \<Rightarrow> tab_refresh_state option" where
  "default_state tabId windowId = createDefaultTabRefreshState tabId windowId 0"

subsection \<open>Lifecycles\<close>

definition advanceLifecycle :: "int \<Rightarrow> tab_coordinator \<Rightarrow> nat \<times> tab_coordinator" where
  "advanceLifecycle tabId c =
     (let revision = tc_nextLifecycleRevision c in
      (revision, c\<lparr>tc_nextLifecycleRevision := Suc revision,
         tc_lifecycleRevisions := jset tabId revision (tc_lifecycleRevisions c)\<rparr>))"

definition markTerminalTab :: "int \<Rightarrow> tab_coordinator \<Rightarrow> tab_coordinator" where
  "markTerminalTab tabId c = c\<lparr>tc_terminalTabs := set_add tabId (tc_terminalTabs c)\<rparr>"

definition lifecycleRevision :: "tab_coordinator \<Rightarrow> int \<Rightarrow> nat" where
  "lifecycleRevision c tabId = (case jget (tc_lifecycleRevisions c) tabId of None \<Rightarrow> 0 | Some r \<Rightarrow> r)"

definition isCurrentLifecycle :: "tab_coordinator \<Rightarrow> int \<Rightarrow> nat \<Rightarrow> bool" where
  "isCurrentLifecycle c tabId revision \<longleftrightarrow> lifecycleRevision c tabId = revision"

definition isCurrentPanelLifecycle :: "tab_coordinator \<Rightarrow> int \<Rightarrow> int \<Rightarrow> nat \<Rightarrow> bool" where
  "isCurrentPanelLifecycle c tabId windowId revision \<longleftrightarrow>
     isCurrentLifecycle c tabId revision \<and> jget (tc_panelWindows c) tabId = Some windowId \<and>
     tabId \<notin> set (tc_terminalTabs c) \<and> jget (tc_windowRemovals c) windowId = None"

definition retireLifecycle :: "int \<Rightarrow> nat \<Rightarrow> tab_coordinator \<Rightarrow> tab_coordinator" where
  "retireLifecycle tabId revision c =
     (if isCurrentLifecycle c tabId revision
      then c\<lparr>tc_lifecycleRevisions := jdel tabId (tc_lifecycleRevisions c)\<rparr> else c)"

definition currentPanelWindow :: "tab_coordinator \<Rightarrow> int \<Rightarrow> int option" where
  "currentPanelWindow c tabId =
     (case jget (tc_panelWindows c) tabId of Some w \<Rightarrow> Some w
      | None \<Rightarrow> jget (tc_participantWindows c) tabId)"

definition clearPanelWindow :: "int \<Rightarrow> int option \<Rightarrow> tab_coordinator \<Rightarrow> tab_coordinator" where
  "clearPanelWindow tabId expectedWindowId c =
     (case jget (tc_panelWindows c) tabId of None \<Rightarrow> c
      | Some windowId \<Rightarrow>
          if expectedWindowId \<noteq> None \<and> Some windowId \<noteq> expectedWindowId then c
          else c\<lparr>tc_panelWindows := jdel tabId (tc_panelWindows c)\<rparr>)"

subsection \<open>Participants and operations\<close>

definition log_event :: "coordinator_event \<Rightarrow> tab_coordinator \<Rightarrow> tab_coordinator" where
  "log_event e c = c\<lparr>tc_log := e # tc_log c\<rparr>"

definition setParticipant :: "int \<Rightarrow> int \<Rightarrow> bool \<Rightarrow> tab_coordinator \<Rightarrow> tab_coordinator" where
  "setParticipant windowId tabId participant c = log_event (SetParticipant windowId tabId participant) c"

text \<open>\<^verbatim>\<open>revokeIndexedParticipant\<close>: also tells whether it revoked one.\<close>

definition revokeIndexedParticipant :: "int \<Rightarrow> int option \<Rightarrow> tab_coordinator \<Rightarrow> bool \<times> tab_coordinator" where
  "revokeIndexedParticipant tabId expectedWindowId c =
     (case jget (tc_participantWindows c) tabId of None \<Rightarrow> (False, c)
      | Some windowId \<Rightarrow>
          if expectedWindowId \<noteq> None \<and> Some windowId \<noteq> expectedWindowId then (False, c)
          else (True, setParticipant windowId tabId False
                 (c\<lparr>tc_participantWindows := jdel tabId (tc_participantWindows c)\<rparr>)))"

definition grantParticipant :: "int \<Rightarrow> int \<Rightarrow> tab_coordinator \<Rightarrow> tab_coordinator" where
  "grantParticipant windowId tabId c =
     (let previous = jget (tc_participantWindows c) tabId in
      if previous = Some windowId then c
      else
        let c1 = (case previous of None \<Rightarrow> c
              | Some p \<Rightarrow> setParticipant p tabId False
                  (c\<lparr>tc_participantWindows := jdel tabId (tc_participantWindows c)\<rparr>))
        in setParticipant windowId tabId True
             (c1\<lparr>tc_participantWindows := jset tabId windowId (tc_participantWindows c1)\<rparr>))"

definition completeTabRefresh :: "int \<Rightarrow> nat \<Rightarrow> bool \<Rightarrow> tab_coordinator \<Rightarrow> tab_coordinator" where
  "completeTabRefresh tabId operation accepted c =
     (let op = tc_operations c ! operation in
      if to_completed op then c
      else
        let c1 = c\<lparr>tc_operations := (tc_operations c)[operation := op\<lparr>to_completed := True\<rparr>]\<rparr>;
            c2 = (if jget (tc_pendingRefreshes c1) tabId = Some operation
              then c1\<lparr>tc_pendingRefreshes := jdel tabId (tc_pendingRefreshes c1)\<rparr> else c1)
        in if to_onTabCompleted op then log_event (TabCompleted tabId operation accepted) c2 else c2)"

definition cancelTabRefresh :: "int \<Rightarrow> tab_coordinator \<Rightarrow> tab_coordinator" where
  "cancelTabRefresh tabId c =
     (case jget (tc_pendingRefreshes c) tabId of None \<Rightarrow> c
      | Some operation \<Rightarrow> completeTabRefresh tabId operation False c)"

definition isCurrentRefreshOperation :: "tab_coordinator \<Rightarrow> int \<Rightarrow> nat \<Rightarrow> bool" where
  "isCurrentRefreshOperation c tabId operation \<longleftrightarrow>
     (let op = tc_operations c ! operation in
      \<not> to_completed op \<and> jget (tc_pendingRefreshes c) tabId = Some operation \<and>
      isCurrentPanelLifecycle c tabId (to_windowId op) (to_revision op) \<and>
      jget (tc_participantWindows c) tabId = Some (to_windowId op))"

definition clearRuntimePendingForWindow :: "int \<Rightarrow> tab_coordinator \<Rightarrow> tab_coordinator" where
  "clearRuntimePendingForWindow windowId c =
     fold (\<lambda>(tabId, operation) c.
         if to_windowId (tc_operations c ! operation) = windowId
         then completeTabRefresh tabId operation False c else c)
       (tc_pendingRefreshes c) c"

definition effectiveState :: "tab_coordinator \<Rightarrow> tab_refresh_state \<Rightarrow> int \<Rightarrow> int \<Rightarrow> tab_refresh_state option" where
  "effectiveState c durable tabId windowId =
     (let storedForWindow = (if tr_windowId durable = windowId then Some durable else None) in
      case (case storedForWindow of Some s \<Rightarrow> Some s | None \<Rightarrow> default_state tabId windowId) of
        None \<Rightarrow> None
      | Some base \<Rightarrow>
          let participant = tr_autoRefreshEnabled base \<and> jget (tc_panelWindows c) tabId = Some windowId \<and>
                jget (tc_participantWindows c) tabId = Some windowId;
              pending = (if participant then
                  (case jget (tc_pendingRefreshes c) tabId of None \<Rightarrow> None
                   | Some operation \<Rightarrow>
                       if to_phase (tc_operations c ! operation) = PhasePending
                       then Some (to_pending (tc_operations c ! operation)) else None)
                else None);
              watermark = durableWatermarkSnapshot storedForWindow (jget (tc_watermarks c) windowId)
          in Some \<lparr>tr_tabId = tabId, tr_windowId = windowId,
               tr_autoRefreshEnabled = tr_autoRefreshEnabled base,
               tr_ideHighlightEnabled = tr_ideHighlightEnabled base, tr_participant = participant,
               tr_lastAcceptedGeneration = fst watermark, tr_lastAcceptedMode = snd watermark,
               tr_pending = pending\<rparr>)"

end
