(* ===== verification/Refresh_Calls.thy ===== *)
theory Refresh_Calls
  imports Refresh_Coordinator
begin

text \<open>
  The methods of \<^verbatim>\<open>TabRefreshCoordinator\<close>, segment by segment. A definition named after a method is
  its part up to the first \<^verbatim>\<open>await\<close>; the parts behind an \<^verbatim>\<open>await\<close> have the method's name with what
  was awaited. \<open>coordinator_step\<close> makes a call, lets a task go on or starts the next operation of
  the queue.
\<close>

subsection \<open>Tasks\<close>

definition spawn :: "nat \<Rightarrow> waiting \<Rightarrow> cont \<Rightarrow> tab_coordinator \<Rightarrow> tab_coordinator" where
  "spawn n w k c = c\<lparr>tc_tasks := tc_tasks c @ [(n, w, k)]\<rparr>"

definition settle_call :: "nat \<Rightarrow> call_result \<Rightarrow> tab_coordinator \<Rightarrow> tab_coordinator" where
  "settle_call n result c = log_event (Settled n result) c"

fun state_result :: "tab_refresh_state option \<Rightarrow> call_result" where
  "state_result None = CallRejected"
| "state_result (Some s) = CallState (Some s)"

text \<open>\<^verbatim>\<open>enqueue\<close>, and the end of an operation of the queue.\<close>

definition enqueue :: "nat \<Rightarrow> queued \<Rightarrow> tab_coordinator \<Rightarrow> tab_coordinator" where
  "enqueue n q c = c\<lparr>tc_queue := tc_queue c @ [(n, q)]\<rparr>"

definition finish_queued :: "nat \<Rightarrow> call_result \<Rightarrow> tab_coordinator \<Rightarrow> tab_coordinator" where
  "finish_queued n result c = settle_call n result (c\<lparr>tc_running := False\<rparr>)"

subsection \<open>Initialization\<close>

definition ensureInitialized :: "nat \<Rightarrow> tab_coordinator \<Rightarrow> nat \<times> tab_coordinator" where
  "ensureInitialized n c =
     (case tc_initialization c of Some k \<Rightarrow> (k, c)
      | None \<Rightarrow>
          let k = length (tc_attempts c) in
          (k, spawn n (OnStore LoadAllStates) (AtInitialization k)
             (c\<lparr>tc_initialization := Some k, tc_attempts := tc_attempts c @ [None]\<rparr>)))"

fun remember_watermarks :: "tab_refresh_state list \<Rightarrow> (int, window_watermark) jmap \<Rightarrow> (int, window_watermark) jmap" where
  "remember_watermarks [] watermarks = watermarks"
| "remember_watermarks (state # states) watermarks =
     remember_watermarks states
       (if isNewerRefresh (stateWatermark state) (jget watermarks (tr_windowId state))
        then jset (tr_windowId state) (stateWatermark state) watermarks else watermarks)"

definition initialization_loaded :: "nat \<Rightarrow> store_error + tab_refresh_state list \<Rightarrow> tab_coordinator \<Rightarrow> tab_coordinator" where
  "initialization_loaded k reply c =
     (case reply of
        Inl _ \<Rightarrow> c\<lparr>tc_initialization := (if tc_initialization c = Some k then None else tc_initialization c),
          tc_attempts := (tc_attempts c)[k := Some False]\<rparr>
      | Inr states \<Rightarrow> c\<lparr>tc_watermarks := remember_watermarks states (tc_watermarks c),
          tc_attempts := (tc_attempts c)[k := Some True]\<rparr>)"

text \<open>\<^verbatim>\<open>await this.ensureInitialized()\<close>\<close>

definition await_initialized :: "nat \<Rightarrow> cont \<Rightarrow> tab_coordinator \<Rightarrow> tab_coordinator" where
  "await_initialized n k c = (case ensureInitialized n c of (attempt, c1) \<Rightarrow> spawn n (OnInit attempt) k c1)"

subsection \<open>Panels\<close>

definition panelOpened :: "nat \<Rightarrow> int \<Rightarrow> int \<Rightarrow> tab_coordinator \<Rightarrow> tab_coordinator" where
  "panelOpened n tabId windowId c =
     (if default_state tabId windowId = None then settle_call n CallRejected c
      else if tabId \<in> set (tc_terminalTabs c) then settle_call n CallRejected c
      else if jget (tc_windowRemovals c) windowId \<noteq> None then settle_call n CallRejected c
      else
        let previous = currentPanelWindow c tabId;
            c1 = (if previous \<noteq> None then cancelTabRefresh tabId c else c);
            c2 = (if previous \<noteq> None \<and> previous \<noteq> Some windowId
              then snd (revokeIndexedParticipant tabId previous (clearPanelWindow tabId previous c1))
              else c1);
            c3 = c2\<lparr>tc_panelWindows := jset tabId windowId (tc_panelWindows c2)\<rparr>;
            (revision, c4) = advanceLifecycle tabId c3
        in await_initialized n (AtPanelOpened tabId windowId revision) c4)"

definition panelOpened_failed :: "nat \<Rightarrow> int \<Rightarrow> int \<Rightarrow> nat \<Rightarrow> tab_coordinator \<Rightarrow> tab_coordinator" where
  "panelOpened_failed n tabId windowId revision c =
     settle_call n CallRejected
       (if isCurrentLifecycle c tabId revision
        then retireLifecycle tabId revision
          (snd (revokeIndexedParticipant tabId (Some windowId)
            (cancelTabRefresh tabId (clearPanelWindow tabId (Some windowId) c))))
        else c)"

definition panelOpened_initialized :: "nat \<Rightarrow> int \<Rightarrow> int \<Rightarrow> nat \<Rightarrow> bool \<Rightarrow> tab_coordinator \<Rightarrow> tab_coordinator" where
  "panelOpened_initialized n tabId windowId revision ok c =
     (if ok then spawn n (OnStore (UpdateTab tabId (OpenUpdater tabId windowId revision)))
        (AtPanelOpenedUpdate tabId windowId revision) c
      else panelOpened_failed n tabId windowId revision c)"

definition panelOpened_updated ::
  "nat \<Rightarrow> int \<Rightarrow> int \<Rightarrow> nat \<Rightarrow> store_error + tab_refresh_state option \<Rightarrow> tab_coordinator \<Rightarrow> tab_coordinator" where
  "panelOpened_updated n tabId windowId revision reply c =
     (case reply of Inl _ \<Rightarrow> panelOpened_failed n tabId windowId revision c
      | Inr updated \<Rightarrow>
          (case (case updated of Some s \<Rightarrow> Some s | None \<Rightarrow> default_state tabId windowId) of
             None \<Rightarrow> panelOpened_failed n tabId windowId revision c
           | Some durable \<Rightarrow>
               let current = isCurrentPanelLifecycle c tabId windowId revision;
                   c1 = (if \<not> current then c
                     else if tr_autoRefreshEnabled durable then grantParticipant windowId tabId c
                     else snd (revokeIndexedParticipant tabId (Some windowId) c))
               in case effectiveState c1 durable tabId (if current then windowId else tr_windowId durable) of
                    None \<Rightarrow> panelOpened_failed n tabId windowId revision c1
                  | Some s \<Rightarrow> settle_call n (CallState (Some s)) c1))"

definition storedEffectiveState :: "nat \<Rightarrow> int \<Rightarrow> int option \<Rightarrow> tab_coordinator \<Rightarrow> tab_coordinator" where
  "storedEffectiveState n tabId fallbackWindowId c = await_initialized n (AtStoredState tabId fallbackWindowId) c"

definition storedEffectiveState_loaded ::
  "nat \<Rightarrow> int \<Rightarrow> int option \<Rightarrow> store_error + tab_refresh_state list \<Rightarrow> tab_coordinator \<Rightarrow> tab_coordinator" where
  "storedEffectiveState_loaded n tabId fallbackWindowId reply c =
     settle_call n
       (case reply of Inl _ \<Rightarrow> CallRejected
        | Inr states \<Rightarrow>
            (case find (\<lambda>s. tr_tabId s = tabId) states of
               Some durable \<Rightarrow> state_result (effectiveState c durable tabId (tr_windowId durable))
             | None \<Rightarrow> (case fallbackWindowId of None \<Rightarrow> CallState None
                 | Some w \<Rightarrow> state_result (default_state tabId w)))) c"

definition panelClosed :: "nat \<Rightarrow> int \<Rightarrow> int option \<Rightarrow> tab_coordinator \<Rightarrow> tab_coordinator" where
  "panelClosed n tabId windowId c =
     (if tabId \<in> set (tc_terminalTabs c) then settle_call n (CallState None) c
      else
        let currentWindowId = currentPanelWindow c tabId in
        if windowId \<noteq> None \<and> currentWindowId \<noteq> None \<and> currentWindowId \<noteq> windowId
        then storedEffectiveState n tabId None c
        else (case currentWindowId of
            None \<Rightarrow> storedEffectiveState n tabId windowId c
          | Some current \<Rightarrow>
              let (revision, c1) = advanceLifecycle tabId c;
                  c2 = cancelTabRefresh tabId (clearPanelWindow tabId (Some current) c1);
                  (revoked, c3) = revokeIndexedParticipant tabId (Some current) c2;
                  c4 = (if revoked then c3 else setParticipant current tabId False c3)
              in case jget (tc_windowRemovals c4) current of
                   Some removal \<Rightarrow> spawn n (OnRemoval removal) (AtPanelClosed tabId current revision) c4
                 | None \<Rightarrow> await_initialized n (AtPanelClosed tabId current revision) c4))"

definition panelClosed_waited :: "nat \<Rightarrow> int \<Rightarrow> int \<Rightarrow> nat \<Rightarrow> bool \<Rightarrow> tab_coordinator \<Rightarrow> tab_coordinator" where
  "panelClosed_waited n tabId windowId revision ok c =
     (if ok then spawn n (OnStore LoadAllStates) (AtPanelClosedStored tabId windowId revision) c
      else settle_call n CallRejected (retireLifecycle tabId revision c))"

definition panelClosed_stored ::
  "nat \<Rightarrow> int \<Rightarrow> int \<Rightarrow> nat \<Rightarrow> store_error + tab_refresh_state list \<Rightarrow> tab_coordinator \<Rightarrow> tab_coordinator" where
  "panelClosed_stored n tabId windowId revision reply c =
     (let c1 = retireLifecycle tabId revision c in
      settle_call n
        (case reply of Inl _ \<Rightarrow> CallRejected
         | Inr states \<Rightarrow>
             (case find (\<lambda>s. tr_tabId s = tabId) states of
                None \<Rightarrow> state_result (default_state tabId windowId)
              | Some durable \<Rightarrow> state_result (effectiveState c1 durable tabId (tr_windowId durable)))) c1)"

definition state_loaded :: "nat \<Rightarrow> int \<Rightarrow> int \<Rightarrow> store_error + tab_refresh_state \<Rightarrow> tab_coordinator \<Rightarrow> tab_coordinator" where
  "state_loaded n tabId windowId reply c =
     settle_call n
       (case reply of Inl _ \<Rightarrow> CallRejected
        | Inr durable \<Rightarrow> state_result (effectiveState c durable tabId windowId)) c"

subsection \<open>Settings\<close>

definition updateSettings :: "nat \<Rightarrow> int \<Rightarrow> int \<Rightarrow> bool \<Rightarrow> bool \<Rightarrow> tab_coordinator \<Rightarrow> tab_coordinator" where
  "updateSettings n tabId windowId auto highlight c =
     (if default_state tabId windowId = None then settle_call n CallRejected c
      else
        let revision = lifecycleRevision c tabId;
            c1 = (if auto then c
              else snd (revokeIndexedParticipant tabId (Some windowId) (cancelTabRefresh tabId c)))
        in await_initialized n (AtSettings tabId windowId auto highlight revision) c1)"

definition updateSettings_updated ::
  "nat \<Rightarrow> int \<Rightarrow> int \<Rightarrow> bool \<Rightarrow> nat \<Rightarrow> store_error + tab_refresh_state option \<Rightarrow> tab_coordinator \<Rightarrow> tab_coordinator" where
  "updateSettings_updated n tabId windowId auto revision reply c =
     (let current = isCurrentPanelLifecycle c tabId windowId revision;
          c1 = (if \<not> auto \<and> current then snd (revokeIndexedParticipant tabId (Some windowId) c) else c)
      in case reply of Inl _ \<Rightarrow> settle_call n CallRejected c1
        | Inr updated \<Rightarrow>
            (case (case updated of Some s \<Rightarrow> Some s | None \<Rightarrow> default_state tabId windowId) of
               None \<Rightarrow> settle_call n CallRejected c1
             | Some durable \<Rightarrow>
                 let c2 = (if isCurrentPanelLifecycle c1 tabId windowId revision \<and> auto
                       then grantParticipant windowId tabId c1 else c1)
                 in settle_call n (state_result (effectiveState c2 durable tabId (tr_windowId durable))) c2))"

subsection \<open>Dispatching\<close>

definition dispatch_result :: "bool \<Rightarrow> call_result" where
  "dispatch_result accept = (if accept then CallBool True else CallDone)"

definition dispatch :: "nat \<Rightarrow> int \<Rightarrow> nat \<Rightarrow> bool \<Rightarrow> tab_coordinator \<Rightarrow> tab_coordinator" where
  "dispatch n tabId operation accept c =
     (if \<not> isCurrentRefreshOperation c tabId operation
      then finish_queued n (dispatch_result accept) (completeTabRefresh tabId operation False c)
      else spawn n OnAnswer (AtPrepared tabId operation accept)
        (c\<lparr>tc_operations := (tc_operations c)[operation :=
             (tc_operations c ! operation)\<lparr>to_phase := PhaseDispatching\<rparr>]\<rparr>))"

definition dispatch_prepared :: "nat \<Rightarrow> int \<Rightarrow> nat \<Rightarrow> bool \<Rightarrow> tab_coordinator \<Rightarrow> tab_coordinator" where
  "dispatch_prepared n tabId operation accept c =
     (if \<not> isCurrentRefreshOperation c tabId operation
      then finish_queued n (dispatch_result accept) (completeTabRefresh tabId operation False c)
      else spawn n OnAnswer (AtDispatched tabId operation accept)
        (log_event (DispatchRefresh tabId operation (to_pending (tc_operations c ! operation))) c))"

definition dispatch_sent :: "nat \<Rightarrow> int \<Rightarrow> nat \<Rightarrow> bool \<Rightarrow> answer \<Rightarrow> tab_coordinator \<Rightarrow> tab_coordinator" where
  "dispatch_sent n tabId operation accept reply c =
     finish_queued n (dispatch_result accept)
       (completeTabRefresh tabId operation
          (reply \<noteq> Throws \<and> isCurrentRefreshOperation c tabId operation) c)"

subsection \<open>Accepting a refresh\<close>

definition acceptPageRefresh :: "nat \<Rightarrow> int \<Rightarrow> page_refresh_message \<Rightarrow> bool \<Rightarrow> tab_coordinator \<Rightarrow> tab_coordinator" where
  "acceptPageRefresh n windowId m onTabCompleted c =
     (if \<not> page_refresh_ok m \<or> \<not> browser_id_ok windowId then settle_call n (CallBool False) c
      else await_initialized n (AtAccept \<lparr>ad_windowId = windowId,
        ad_incoming = \<lparr>wm_generation = pr_refreshGeneration m, wm_mode = KnownMode (pr_mode m)\<rparr>,
        ad_onTabCompleted = onTabCompleted\<rparr>) c)"

definition accept_loaded ::
  "nat \<Rightarrow> admission \<Rightarrow> store_error + tab_refresh_state list \<Rightarrow> tab_coordinator \<Rightarrow> tab_coordinator" where
  "accept_loaded n ad reply c =
     (case reply of Inl _ \<Rightarrow> finish_queued n CallRejected c
      | Inr states \<Rightarrow>
          let windowStates = filter (\<lambda>s. tr_windowId s = ad_windowId ad) states;
              current = currentWatermark (jget (tc_watermarks c) (ad_windowId ad)) windowStates
          in if \<not> isNewerRefresh (ad_incoming ad) current then finish_queued n (CallBool False) c
             else spawn n OnAnswer (AtAdmitted ad windowStates) c)"

definition accept_admitted ::
  "nat \<Rightarrow> admission \<Rightarrow> tab_refresh_state list \<Rightarrow> answer \<Rightarrow> tab_coordinator \<Rightarrow> tab_coordinator" where
  "accept_admitted n ad windowStates reply c =
     (if reply = Throws then finish_queued n CallRejected c
      else if reply = Says False then finish_queued n (CallBool False) c
      else spawn n OnAnswer (AtActiveTab ad windowStates (jget (tc_watermarks c) (ad_windowId ad)))
        (log_event (Admitted (ad_windowId ad) (ad_incoming ad))
          (c\<lparr>tc_watermarks := jset (ad_windowId ad) (ad_incoming ad) (tc_watermarks c)\<rparr>)))"

text \<open>The second loop: each tab that still takes part gets an operation, each other one loses its own.\<close>

definition stage_operation ::
  "admission \<Rightarrow> int option \<Rightarrow> admission_stage \<Rightarrow> (int \<times> nat) option \<times> tab_coordinator \<Rightarrow>
   (int \<times> nat) option \<times> tab_coordinator" where
  "stage_operation ad activeTabId stage s =
     (let tabId = as_tabId stage; windowId = ad_windowId ad;
          takes_part = (\<lambda>c. isCurrentPanelLifecycle c tabId windowId (as_revision stage) \<and>
            jget (tc_participantWindows c) tabId = Some windowId);
          c1 = cancelTabRefresh tabId (snd s)
      in if as_updated stage = None \<or> \<not> takes_part (snd s) \<or>
            \<not> tr_autoRefreshEnabled (the (as_updated stage)) \<or> \<not> takes_part c1
         then (fst s, c1)
         else
           let operation = length (tc_operations c1);
               pending = \<lparr>pe_generation = wm_generation (ad_incoming ad),
                 pe_mode = (case wm_mode (ad_incoming ad) of KnownMode m \<Rightarrow> m | UnknownMode \<Rightarrow> StylesMode)\<rparr>
           in (if activeTabId = Some tabId then Some (tabId, operation) else fst s,
               c1\<lparr>tc_operations := tc_operations c1 @ [\<lparr>to_windowId = windowId,
                    to_revision = as_revision stage, to_pending = pending,
                    to_onTabCompleted = ad_onTabCompleted ad, to_phase = PhasePending,
                    to_completed = False\<rparr>],
                  tc_pendingRefreshes := jset tabId operation (tc_pendingRefreshes c1)\<rparr>))"

definition finish_admission ::
  "nat \<Rightarrow> admission \<Rightarrow> int option \<Rightarrow> admission_stage list \<Rightarrow> tab_coordinator \<Rightarrow> tab_coordinator" where
  "finish_admission n ad activeTabId stages c =
     (case fold (stage_operation ad activeTabId) stages (None, c) of
        (None, c1) \<Rightarrow> finish_queued n (CallBool True) c1
      | (Some (tabId, operation), c1) \<Rightarrow> dispatch n tabId operation True c1)"

text \<open>The first loop: the stored state of every tab of the window gets the watermark.\<close>

definition next_stage ::
  "nat \<Rightarrow> admission \<Rightarrow> window_watermark option \<Rightarrow> int option \<Rightarrow> tab_refresh_state list \<Rightarrow>
   refresh_admission_commit list \<Rightarrow> admission_stage list \<Rightarrow> tab_coordinator \<Rightarrow> tab_coordinator" where
  "next_stage n ad previous activeTabId snapshots commits stages c =
     (case snapshots of [] \<Rightarrow> finish_admission n ad activeTabId stages c
      | snapshot # rest \<Rightarrow>
          let tabId = tr_tabId snapshot; revision = lifecycleRevision c tabId in
          spawn n (OnStore (UpdateTab tabId (AcceptUpdater tabId revision ad)))
            (AtStage ad previous activeTabId tabId revision rest commits stages) c)"

definition accept_active ::
  "nat \<Rightarrow> admission \<Rightarrow> tab_refresh_state list \<Rightarrow> window_watermark option \<Rightarrow> answer \<Rightarrow> tab_coordinator \<Rightarrow> tab_coordinator" where
  "accept_active n ad windowStates previous reply c =
     next_stage n ad previous (case reply of ActiveTab t \<Rightarrow> t | _ \<Rightarrow> None) windowStates [] [] c"

text \<open>\<^verbatim>\<open>rollbackRefreshAdmission\<close> and the watermark after it. Only the running operation of the queue
  sets a watermark of the window, so comparing values is comparing the objects.\<close>

definition next_rollback ::
  "nat \<Rightarrow> admission \<Rightarrow> window_watermark option \<Rightarrow> refresh_admission_commit list \<Rightarrow> bool \<Rightarrow> tab_coordinator \<Rightarrow> tab_coordinator" where
  "next_rollback n ad previous commits rolledBack c =
     (case commits of
        commit # rest \<Rightarrow>
          spawn n (OnStore (UpdateTab (ac_tabId commit) (RollbackUpdater commit)))
            (AtRollback ad previous commit rest rolledBack) c
      | [] \<Rightarrow> finish_queued n CallRejected
          (if rolledBack \<and> jget (tc_watermarks c) (ad_windowId ad) = Some (ad_incoming ad)
           then (case previous of
               Some p \<Rightarrow> c\<lparr>tc_watermarks := jset (ad_windowId ad) p (tc_watermarks c)\<rparr>
             | None \<Rightarrow> c\<lparr>tc_watermarks := jdel (ad_windowId ad) (tc_watermarks c)\<rparr>)
           else c))"

definition accept_staged ::
  "nat \<Rightarrow> admission \<Rightarrow> window_watermark option \<Rightarrow> int option \<Rightarrow> int \<Rightarrow> nat \<Rightarrow> tab_refresh_state list \<Rightarrow>
   refresh_admission_commit list \<Rightarrow> admission_stage list \<Rightarrow> refresh_admission_commit option \<Rightarrow>
   store_error + tab_refresh_state option \<Rightarrow> tab_coordinator \<Rightarrow> tab_coordinator" where
  "accept_staged n ad previous activeTabId tabId revision rest commits stages commit reply c =
     (let commits' = commits @ (case commit of None \<Rightarrow> [] | Some x \<Rightarrow> [x]) in
      case reply of
        Inl _ \<Rightarrow> next_rollback n ad previous (rev commits') True c
      | Inr updated \<Rightarrow> next_stage n ad previous activeTabId rest commits'
          (stages @ [\<lparr>as_tabId = tabId, as_revision = revision, as_updated = updated\<rparr>]) c)"

definition accept_rolled ::
  "nat \<Rightarrow> admission \<Rightarrow> window_watermark option \<Rightarrow> refresh_admission_commit list \<Rightarrow> bool \<Rightarrow>
   refresh_admission_commit option \<Rightarrow> store_error + tab_refresh_state option \<Rightarrow> tab_coordinator \<Rightarrow> tab_coordinator" where
  "accept_rolled n ad previous rest rolledBack restored reply c =
     next_rollback n ad previous rest (rolledBack \<and> (\<exists>x. reply = Inr x) \<and> restored \<noteq> None) c"

subsection \<open>Windows and tabs\<close>

definition beginWindowEpoch :: "nat \<Rightarrow> int \<Rightarrow> tab_coordinator \<Rightarrow> tab_coordinator" where
  "beginWindowEpoch n windowId c =
     (if \<not> browser_id_ok windowId then settle_call n CallDone c
      else await_initialized n (AtEpoch windowId) (clearRuntimePendingForWindow windowId c))"

definition epoch_started :: "nat \<Rightarrow> int \<Rightarrow> tab_coordinator \<Rightarrow> tab_coordinator" where
  "epoch_started n windowId c = spawn n (OnStore LoadAllStates) (AtEpochLoaded windowId)
     (c\<lparr>tc_watermarks := jset windowId \<lparr>wm_generation = 0, wm_mode = KnownMode StylesMode\<rparr> (tc_watermarks c)\<rparr>)"

definition next_epoch_state :: "nat \<Rightarrow> int \<Rightarrow> tab_refresh_state list \<Rightarrow> tab_coordinator \<Rightarrow> tab_coordinator" where
  "next_epoch_state n windowId states c =
     (case states of [] \<Rightarrow> finish_queued n CallDone c
      | state # rest \<Rightarrow> spawn n (OnStore (UpdateTab (tr_tabId state) (EpochUpdater windowId)))
          (AtEpochUpdated windowId rest) c)"

definition epoch_loaded ::
  "nat \<Rightarrow> int \<Rightarrow> store_error + tab_refresh_state list \<Rightarrow> tab_coordinator \<Rightarrow> tab_coordinator" where
  "epoch_loaded n windowId reply c =
     (case reply of Inl _ \<Rightarrow> finish_queued n CallRejected c
      | Inr states \<Rightarrow> next_epoch_state n windowId (filter (\<lambda>s. tr_windowId s = windowId) states) c)"

definition epoch_updated ::
  "nat \<Rightarrow> int \<Rightarrow> tab_refresh_state list \<Rightarrow> store_error + tab_refresh_state option \<Rightarrow> tab_coordinator \<Rightarrow> tab_coordinator" where
  "epoch_updated n windowId rest reply c =
     (case reply of Inl _ \<Rightarrow> finish_queued n CallRejected c
      | Inr _ \<Rightarrow> next_epoch_state n windowId rest c)"

definition clearWindowPending :: "nat \<Rightarrow> int \<Rightarrow> tab_coordinator \<Rightarrow> tab_coordinator" where
  "clearWindowPending n windowId c = settle_call n CallDone
     (if browser_id_ok windowId then clearRuntimePendingForWindow windowId c else c)"

definition activate_started :: "nat \<Rightarrow> int \<Rightarrow> int \<Rightarrow> tab_coordinator \<Rightarrow> tab_coordinator" where
  "activate_started n tabId windowId c =
     (if jget (tc_panelWindows c) tabId \<noteq> Some windowId \<or>
         jget (tc_participantWindows c) tabId \<noteq> Some windowId
      then finish_queued n CallDone (cancelTabRefresh tabId c)
      else (case jget (tc_pendingRefreshes c) tabId of
          None \<Rightarrow> finish_queued n CallDone c
        | Some operation \<Rightarrow>
            if to_phase (tc_operations c ! operation) \<noteq> PhasePending then finish_queued n CallDone c
            else dispatch n tabId operation False c))"

definition removeTabLifecycle :: "nat \<Rightarrow> int \<Rightarrow> tab_coordinator \<Rightarrow> tab_coordinator" where
  "removeTabLifecycle n tabId c =
     (if default_state tabId 0 = None then settle_call n CallRejected c
      else
        let (revision, c1) = advanceLifecycle tabId (markTerminalTab tabId c);
            c2 = cancelTabRefresh tabId (clearPanelWindow tabId None c1);
            c3 = snd (revokeIndexedParticipant tabId None c2)
        in spawn n (OnStore (RemoveTabState tabId)) (AtRemoveTab tabId revision) c3)"

definition detachTab :: "nat \<Rightarrow> int \<Rightarrow> int \<Rightarrow> tab_coordinator \<Rightarrow> tab_coordinator" where
  "detachTab n tabId windowId c =
     (if \<not> browser_id_ok tabId \<or> \<not> browser_id_ok windowId then settle_call n CallDone c
      else if currentPanelWindow c tabId = Some windowId then
        let (revision, c1) = advanceLifecycle tabId c;
            c2 = cancelTabRefresh tabId (clearPanelWindow tabId (Some windowId) c1);
            (revoked, c3) = revokeIndexedParticipant tabId (Some windowId) c2;
            c4 = (if revoked then c3 else setParticipant windowId tabId False c3)
        in await_initialized n (AtDetach tabId (Some revision)) c4
      else await_initialized n (AtDetach tabId None) c)"

definition retire_optional :: "int \<Rightarrow> nat option \<Rightarrow> tab_coordinator \<Rightarrow> tab_coordinator" where
  "retire_optional tabId revision c = (case revision of None \<Rightarrow> c | Some r \<Rightarrow> retireLifecycle tabId r c)"

definition detach_initialized :: "nat \<Rightarrow> int \<Rightarrow> nat option \<Rightarrow> bool \<Rightarrow> tab_coordinator \<Rightarrow> tab_coordinator" where
  "detach_initialized n tabId revision ok c =
     (if ok then spawn n (OnStore LoadAllStates) (AtDetachLoaded tabId revision) c
      else settle_call n CallDone (retire_optional tabId revision c))"

definition fence_panel :: "int \<Rightarrow> int \<Rightarrow> tab_coordinator \<Rightarrow> tab_coordinator" where
  "fence_panel windowId tabId c =
     (let hadPanel = (jget (tc_panelWindows c) tabId = Some windowId);
          r = revokeIndexedParticipant tabId (Some windowId)
                (cancelTabRefresh tabId (clearPanelWindow tabId (Some windowId) c))
      in if hadPanel \<and> \<not> fst r then setParticipant windowId tabId False (snd r) else snd r)"

definition fence_tab ::
  "int \<Rightarrow> int \<Rightarrow> (int \<times> nat) list \<times> tab_coordinator \<Rightarrow> (int \<times> nat) list \<times> tab_coordinator" where
  "fence_tab windowId tabId s =
     (case jget (fst s) tabId of
        None \<Rightarrow>
          let r = advanceLifecycle tabId (snd s)
          in (jset tabId (fst r) (fst s), fence_panel windowId tabId (snd r))
      | Some revision \<Rightarrow>
          if \<not> isCurrentLifecycle (snd s) tabId revision then s
          else (fst s, fence_panel windowId tabId (snd s)))"

definition fenceWindowLifecycle ::
  "int \<Rightarrow> (int \<times> nat) list \<Rightarrow> tab_coordinator \<Rightarrow> (int \<times> nat) list \<times> tab_coordinator" where
  "fenceWindowLifecycle windowId revisions c =
     fold (fence_tab windowId)
       (set_of (map fst (filter (\<lambda>p. snd p = windowId) (tc_panelWindows c)) @
                map fst (filter (\<lambda>p. snd p = windowId) (tc_participantWindows c))))
       (revisions, c)"

definition removeWindow :: "nat \<Rightarrow> int \<Rightarrow> tab_coordinator \<Rightarrow> tab_coordinator" where
  "removeWindow n windowId c =
     (case jget (tc_windowRemovals c) windowId of
        Some removal \<Rightarrow> spawn n (OnRemoval removal) AtRemovalDone c
      | None \<Rightarrow>
          let (revisions, c1) = fenceWindowLifecycle windowId [] c;
              removal = length (tc_removalSettled c1);
              c2 = await_initialized n (AtRemoveWindow windowId removal revisions) c1;
              c3 = c2\<lparr>tc_windowRemovals := jset windowId removal (tc_windowRemovals c2),
                 tc_removalSettled := tc_removalSettled c2 @ [False]\<rparr>
          in spawn n (OnRemoval removal) AtRemovalDone
               (spawn n (OnRemoval removal) (AtClearRemoval windowId removal) c3))"

definition removal_finished :: "int \<Rightarrow> nat \<Rightarrow> (int \<times> nat) list \<Rightarrow> tab_coordinator \<Rightarrow> tab_coordinator" where
  "removal_finished windowId removal revisions c =
     (let c1 = fold (\<lambda>(tabId, revision) c. retireLifecycle tabId revision c) revisions
            (c\<lparr>tc_watermarks := jdel windowId (tc_watermarks c)\<rparr>)
      in c1\<lparr>tc_removalSettled := (tc_removalSettled c1)[removal := True]\<rparr>)"

definition removal_initialized ::
  "nat \<Rightarrow> int \<Rightarrow> nat \<Rightarrow> (int \<times> nat) list \<Rightarrow> bool \<Rightarrow> tab_coordinator \<Rightarrow> tab_coordinator" where
  "removal_initialized n windowId removal revisions ok c =
     (if ok then
        (case fenceWindowLifecycle windowId revisions c of
           (revisions', c1) \<Rightarrow> spawn n (OnStore LoadAllStates) (AtRemoveWindowLoaded windowId removal revisions') c1)
      else removal_finished windowId removal revisions c)"

definition clearWindowRemoval :: "int \<Rightarrow> nat \<Rightarrow> tab_coordinator \<Rightarrow> tab_coordinator" where
  "clearWindowRemoval windowId removal c =
     (if jget (tc_windowRemovals c) windowId = Some removal
      then c\<lparr>tc_windowRemovals := jdel windowId (tc_windowRemovals c)\<rparr> else c)"

subsection \<open>Store calls\<close>

fun run_updater :: "tab_coordinator \<Rightarrow> updater \<Rightarrow> tab_refresh_state option \<Rightarrow>
    tab_refresh_state option \<times> refresh_admission_commit option" where
  "run_updater c (OpenUpdater tabId windowId revision) existing =
     (if \<not> isCurrentPanelLifecycle c tabId windowId revision then (existing, None)
      else
        let moved = (case existing of None \<Rightarrow> False | Some s \<Rightarrow> tr_windowId s \<noteq> windowId);
            watermark = durableWatermarkSnapshot (if moved then None else existing)
              (jget (tc_watermarks c) windowId)
        in (Some \<lparr>tr_tabId = tabId, tr_windowId = windowId,
              tr_autoRefreshEnabled = (case existing of None \<Rightarrow> True | Some s \<Rightarrow> tr_autoRefreshEnabled s),
              tr_ideHighlightEnabled = (case existing of None \<Rightarrow> True | Some s \<Rightarrow> tr_ideHighlightEnabled s),
              tr_participant = False, tr_lastAcceptedGeneration = fst watermark,
              tr_lastAcceptedMode = snd watermark, tr_pending = None\<rparr>, None))"
| "run_updater c (SettingsUpdater tabId windowId auto highlight revision) stored =
     (if \<not> isCurrentLifecycle c tabId revision then (stored, None)
      else
        let storedForWindow = (case stored of None \<Rightarrow> None
              | Some s \<Rightarrow> if tr_windowId s = windowId then Some s else None);
            watermark = durableWatermarkSnapshot storedForWindow (jget (tc_watermarks c) windowId)
        in (Some \<lparr>tr_tabId = tabId, tr_windowId = windowId, tr_autoRefreshEnabled = auto,
              tr_ideHighlightEnabled = highlight, tr_participant = False,
              tr_lastAcceptedGeneration = fst watermark, tr_lastAcceptedMode = snd watermark,
              tr_pending = None\<rparr>, None))"
| "run_updater c (AcceptUpdater tabId revision ad) state =
     (case state of None \<Rightarrow> (None, None)
      | Some s \<Rightarrow>
          if tr_windowId s \<noteq> ad_windowId ad \<or> \<not> isCurrentLifecycle c tabId revision then (Some s, None)
          else
            let after = durableSnapshot (s\<lparr>tr_participant := False,
                  tr_lastAcceptedGeneration := wm_generation (ad_incoming ad),
                  tr_lastAcceptedMode := (case wm_mode (ad_incoming ad) of
                    KnownMode m \<Rightarrow> Some m | UnknownMode \<Rightarrow> None)\<rparr>)
            in (Some after, Some \<lparr>ac_tabId = tabId, ac_before = s, ac_after = after\<rparr>))"
| "run_updater c (EpochUpdater windowId) current =
     (case current of None \<Rightarrow> (None, None)
      | Some s \<Rightarrow>
          if tr_windowId s = windowId
          then (Some (durableSnapshot (s\<lparr>tr_participant := False, tr_lastAcceptedGeneration := 0,
                  tr_lastAcceptedMode := None\<rparr>)), None)
          else (Some s, None))"
| "run_updater c (RollbackUpdater commit) current =
     (if sameDurableState current (ac_before commit) then (None, Some commit)
      else if \<not> sameDurableState current (ac_after commit) then (None, None)
      else (Some (ac_before commit), Some commit))"

fun run_store :: "(nat \<Rightarrow> bool) \<Rightarrow> store_request \<Rightarrow> tab_coordinator \<Rightarrow> store_reply \<times> tab_coordinator" where
  "run_store fails LoadAllStates c =
     (case loadAll fails (tc_store c) of (r, st) \<Rightarrow> (StatesReply r, c\<lparr>tc_store := st\<rparr>))"
| "run_store fails (LoadState tabId windowId) c =
     (case load_state fails tabId windowId (tc_store c) of (r, st) \<Rightarrow> (StateReply r, c\<lparr>tc_store := st\<rparr>))"
| "run_store fails (UpdateTab tabId u) c =
     (case updateTab fails tabId (run_updater c u) (tc_store c) of
        (seen, r, st) \<Rightarrow> (UpdateReply (Option.bind seen (\<lambda>x. x)) r, c\<lparr>tc_store := st\<rparr>))"
| "run_store fails (RemoveTabState tabId) c =
     (case removeTab fails tabId (tc_store c) of (r, st) \<Rightarrow> (RemoveReply r, c\<lparr>tc_store := st\<rparr>))"

subsection \<open>Steps\<close>

text \<open>
  What the promise of a task was settled with decides how it goes on; an input that does not
  belong to the task changes nothing.
\<close>

fun continue_on_init :: "nat \<Rightarrow> cont \<Rightarrow> bool \<Rightarrow> tab_coordinator \<Rightarrow> tab_coordinator" where
  "continue_on_init n AtInitialize ok c = settle_call n (if ok then CallDone else CallRejected) c"
| "continue_on_init n (AtPanelOpened t w r) ok c = panelOpened_initialized n t w r ok c"
| "continue_on_init n (AtPanelClosed t w r) ok c = panelClosed_waited n t w r ok c"
| "continue_on_init n (AtStoredState t w) ok c =
     (if ok then spawn n (OnStore LoadAllStates) (AtStoredStateLoaded t w) c else settle_call n CallRejected c)"
| "continue_on_init n (AtState t w) ok c =
     (if ok then spawn n (OnStore (LoadState t w)) (AtStateLoaded t w) c else settle_call n CallRejected c)"
| "continue_on_init n (AtSettings t w auto highlight r) ok c =
     (if ok then spawn n (OnStore (UpdateTab t (SettingsUpdater t w auto highlight r)))
        (AtSettingsUpdated t w auto r) c else settle_call n CallRejected c)"
| "continue_on_init n (AtAccept ad) ok c =
     (if ok then enqueue n (QueuedAccept ad) c else settle_call n CallRejected c)"
| "continue_on_init n (AtEpoch w) ok c =
     (if ok then enqueue n (QueuedEpoch w) c else settle_call n CallRejected c)"
| "continue_on_init n (AtActivate t w) ok c =
     (if ok then enqueue n (QueuedActivate t w) c else settle_call n CallRejected c)"
| "continue_on_init n (AtDetach t r) ok c = detach_initialized n t r ok c"
| "continue_on_init n (AtRemoveWindow w removal rs) ok c = removal_initialized n w removal rs ok c"
| "continue_on_init n _ ok c = c"

fun continue_on_removal :: "nat \<Rightarrow> cont \<Rightarrow> tab_coordinator \<Rightarrow> tab_coordinator" where
  "continue_on_removal n (AtPanelClosed t w r) c = panelClosed_waited n t w r True c"
| "continue_on_removal n (AtClearRemoval w removal) c = clearWindowRemoval w removal c"
| "continue_on_removal n AtRemovalDone c = settle_call n CallDone c"
| "continue_on_removal n _ c = c"

fun continue_on_states ::
  "nat \<Rightarrow> cont \<Rightarrow> store_error + tab_refresh_state list \<Rightarrow> tab_coordinator \<Rightarrow> tab_coordinator" where
  "continue_on_states n (AtInitialization k) r c = initialization_loaded k r c"
| "continue_on_states n (AtPanelClosedStored t w rv) r c = panelClosed_stored n t w rv r c"
| "continue_on_states n (AtStoredStateLoaded t w) r c = storedEffectiveState_loaded n t w r c"
| "continue_on_states n (AtAcceptLoaded ad) r c = accept_loaded n ad r c"
| "continue_on_states n (AtEpochLoaded w) r c = epoch_loaded n w r c"
| "continue_on_states n (AtDetachLoaded t rv) r c = settle_call n CallDone (retire_optional t rv c)"
| "continue_on_states n (AtRemoveWindowLoaded w removal rs) r c = removal_finished w removal rs c"
| "continue_on_states n _ r c = c"

fun continue_on_update :: "nat \<Rightarrow> cont \<Rightarrow> refresh_admission_commit option \<Rightarrow>
    store_error + tab_refresh_state option \<Rightarrow> tab_coordinator \<Rightarrow> tab_coordinator" where
  "continue_on_update n (AtPanelOpenedUpdate t w rv) x r c = panelOpened_updated n t w rv r c"
| "continue_on_update n (AtSettingsUpdated t w auto rv) x r c = updateSettings_updated n t w auto rv r c"
| "continue_on_update n (AtStage ad p a t rv rest cs ss) x r c = accept_staged n ad p a t rv rest cs ss x r c"
| "continue_on_update n (AtRollback ad p commit rest ok) x r c = accept_rolled n ad p rest ok x r c"
| "continue_on_update n (AtEpochUpdated w rest) x r c = epoch_updated n w rest r c"
| "continue_on_update n _ x r c = c"

fun continue_on_state :: "nat \<Rightarrow> cont \<Rightarrow> store_error + tab_refresh_state \<Rightarrow> tab_coordinator \<Rightarrow> tab_coordinator" where
  "continue_on_state n (AtStateLoaded t w) r c = state_loaded n t w r c"
| "continue_on_state n _ r c = c"

fun continue_on_removed :: "nat \<Rightarrow> cont \<Rightarrow> tab_coordinator \<Rightarrow> tab_coordinator" where
  "continue_on_removed n (AtRemoveTab t rv) c = settle_call n CallDone (retireLifecycle t rv c)"
| "continue_on_removed n _ c = c"

fun continue_on_reply :: "nat \<Rightarrow> cont \<Rightarrow> store_reply \<Rightarrow> tab_coordinator \<Rightarrow> tab_coordinator" where
  "continue_on_reply n k (StatesReply r) c = continue_on_states n k r c"
| "continue_on_reply n k (StateReply r) c = continue_on_state n k r c"
| "continue_on_reply n k (UpdateReply x r) c = continue_on_update n k x r c"
| "continue_on_reply n k (RemoveReply r) c = continue_on_removed n k c"

fun continue_on_answer :: "nat \<Rightarrow> cont \<Rightarrow> answer \<Rightarrow> tab_coordinator \<Rightarrow> tab_coordinator" where
  "continue_on_answer n (AtAdmitted ad ws) a c = accept_admitted n ad ws a c"
| "continue_on_answer n (AtActiveTab ad ws p) a c = accept_active n ad ws p a c"
| "continue_on_answer n (AtPrepared t oper accept) a c = dispatch_prepared n t oper accept c"
| "continue_on_answer n (AtDispatched t oper accept) a c = dispatch_sent n t oper accept a c"
| "continue_on_answer n _ a c = c"

text \<open>Whether the promise a task waits for is settled (a callback's is whenever it answers).\<close>

fun ready :: "tab_coordinator \<Rightarrow> waiting \<Rightarrow> bool" where
  "ready c (OnInit k) = (tc_attempts c ! k \<noteq> None)"
| "ready c (OnRemoval r) = tc_removalSettled c ! r"
| "ready c _ = True"

fun resume :: "(nat \<Rightarrow> bool) \<Rightarrow> answer \<Rightarrow> nat \<Rightarrow> waiting \<Rightarrow> cont \<Rightarrow> tab_coordinator \<Rightarrow> tab_coordinator" where
  "resume fails a n (OnInit attempt) k c = continue_on_init n k (the (tc_attempts c ! attempt)) c"
| "resume fails a n (OnRemoval r) k c = continue_on_removal n k c"
| "resume fails a n (OnStore request) k c =
     (case run_store fails request c of (reply, c1) \<Rightarrow> spawn n (OnReply reply) k c1)"
| "resume fails a n (OnReply reply) k c = continue_on_reply n k reply c"
| "resume fails a n OnAnswer k c = continue_on_answer n k a c"

fun start_queued :: "nat \<Rightarrow> queued \<Rightarrow> tab_coordinator \<Rightarrow> tab_coordinator" where
  "start_queued n (QueuedAccept ad) c = spawn n (OnStore LoadAllStates) (AtAcceptLoaded ad) c"
| "start_queued n (QueuedEpoch w) c = epoch_started n w c"
| "start_queued n (QueuedActivate t w) c = activate_started n t w c"

datatype coordinator_call = Initialize | PanelOpened int int | PanelClosed int "int option" | StateOf int int
  | UpdateSettings int int bool bool | AcceptPageRefresh int page_refresh_message bool
  | BeginWindowEpoch int | ClearWindowPending int | ActivateTab int int | RemoveTab int
  | DetachTab int int | RemoveWindow int

fun call_method :: "nat \<Rightarrow> coordinator_call \<Rightarrow> tab_coordinator \<Rightarrow> tab_coordinator" where
  "call_method n Initialize c = await_initialized n AtInitialize c"
| "call_method n (PanelOpened t w) c = panelOpened n t w c"
| "call_method n (PanelClosed t w) c = panelClosed n t w c"
| "call_method n (StateOf t w) c = await_initialized n (AtState t w) c"
| "call_method n (UpdateSettings t w auto highlight) c = updateSettings n t w auto highlight c"
| "call_method n (AcceptPageRefresh w m cb) c = acceptPageRefresh n w m cb c"
| "call_method n (BeginWindowEpoch w) c = beginWindowEpoch n w c"
| "call_method n (ClearWindowPending w) c = clearWindowPending n w c"
| "call_method n (ActivateTab t w) c = await_initialized n (AtActivate t w) c"
| "call_method n (RemoveTab t) c = removeTabLifecycle n t c"
| "call_method n (DetachTab t w) c = detachTab n t w c"
| "call_method n (RemoveWindow w) c = removeWindow n w c"

datatype coordinator_action = CallMethod coordinator_call | Resume nat answer | StartQueued

fun coordinator_step :: "(nat \<Rightarrow> bool) \<Rightarrow> tab_coordinator \<Rightarrow> coordinator_action \<Rightarrow> tab_coordinator" where
  "coordinator_step fails c (CallMethod m) = call_method (tc_calls c) m (c\<lparr>tc_calls := Suc (tc_calls c)\<rparr>)"
| "coordinator_step fails c (Resume i a) =
     (if i < length (tc_tasks c) then
        (case tc_tasks c ! i of (n, w, k) \<Rightarrow>
           if ready c w then resume fails a n w k (c\<lparr>tc_tasks := take i (tc_tasks c) @ drop (Suc i) (tc_tasks c)\<rparr>)
           else c)
      else c)"
| "coordinator_step fails c StartQueued =
     (case tc_queue c of [] \<Rightarrow> c
      | (n, q) # rest \<Rightarrow>
          if tc_running c then c else start_queued n q (c\<lparr>tc_queue := rest, tc_running := True\<rparr>))"

definition run_coordinator :: "(nat \<Rightarrow> bool) \<Rightarrow> tab_coordinator \<Rightarrow> coordinator_action list \<Rightarrow> tab_coordinator" where
  "run_coordinator fails = foldl (coordinator_step fails)"

end
