(* ===== verification/Refresh_Accounts.thy ===== *)
theory Refresh_Accounts
  imports Refresh_Calls Refresh_Store_Theorems
begin

text \<open>
  Bookkeeping of the tab refresh coordinator: what a waiting task may wait for, in how many places a
  call is (a task, the queue, the settled calls), whether one operation of the queue runs at a
  time, and how much work is left at most; and what each segment of a method adds to these.
\<close>

subsection \<open>Steps that only touch tabs\<close>

fun is_settled :: "coordinator_event \<Rightarrow> bool" where
  "is_settled (Settled _ _) = True"
| "is_settled _ = False"

text \<open>The part of the state that methods change only by spawning, settling and queueing.\<close>

definition frame where
  "frame c = (tc_tasks c, tc_queue c, tc_running c, tc_attempts c, tc_initialization c,
     tc_removalSettled c, tc_calls c, filter is_settled (tc_log c), tc_store c, tc_watermarks c,
     tc_windowRemovals c)"

lemma frame_log: "\<not> is_settled e \<Longrightarrow> frame (log_event e c) = frame c"
  by (simp add: frame_def log_event_def)

lemma frame_set: "frame (setParticipant w t b c) = frame c"
  by (simp add: setParticipant_def frame_log)

lemma frame_revoke: "frame (snd (revokeIndexedParticipant t w c)) = frame c"
  by (simp add: revokeIndexedParticipant_def frame_set frame_def split: option.split)
    (simp add: setParticipant_def log_event_def)

lemma frame_grant: "frame (grantParticipant w t c) = frame c"
  by (simp add: grantParticipant_def frame_def Let_def setParticipant_def log_event_def split: option.split)

lemma frame_complete: "frame (completeTabRefresh t oper b c) = frame c"
  by (simp add: completeTabRefresh_def frame_def Let_def log_event_def)

lemma frame_cancel: "frame (cancelTabRefresh t c) = frame c"
  by (simp add: cancelTabRefresh_def frame_complete split: option.split)

lemma frame_clearPanel: "frame (clearPanelWindow t w c) = frame c"
  by (simp add: clearPanelWindow_def frame_def split: option.split)

lemma frame_advance: "frame (snd (advanceLifecycle t c)) = frame c"
  by (simp add: advanceLifecycle_def frame_def Let_def)

lemma frame_retire: "frame (retireLifecycle t r c) = frame c"
  by (simp add: retireLifecycle_def frame_def)

lemma frame_retire_optional: "frame (retire_optional t r c) = frame c"
  by (simp add: retire_optional_def frame_retire split: option.split)

lemma frame_mark: "frame (markTerminalTab t c) = frame c"
  by (simp add: markTerminalTab_def frame_def)

lemma frame_fold: "(\<And>x c. x \<in> set xs \<Longrightarrow> frame (f x c) = frame c) \<Longrightarrow> frame (fold f xs c) = frame c"
  by (induction xs arbitrary: c) simp_all

lemma frame_fold_snd: "(\<And>x s. x \<in> set xs \<Longrightarrow> frame (snd (f x s)) = frame (snd s)) \<Longrightarrow>
    frame (snd (fold f xs s)) = frame (snd s)"
  by (induction xs arbitrary: s) simp_all

lemma frame_clearRuntime: "frame (clearRuntimePendingForWindow w c) = frame c"
  unfolding clearRuntimePendingForWindow_def by (rule frame_fold) (auto simp: frame_complete)

lemma frame_stage: "frame (snd (stage_operation ad a stage s)) = frame (snd s)"
  using frame_cancel [of "as_tabId stage" "snd s"]
  by (simp add: stage_operation_def Let_def frame_def)

lemma frame_fence_panel: "frame (fence_panel w t c) = frame c"
  by (simp add: fence_panel_def Let_def frame_set frame_revoke frame_cancel frame_clearPanel)

lemma frame_fence_tab: "frame (snd (fence_tab w t s)) = frame (snd s)"
  by (simp add: fence_tab_def Let_def frame_fence_panel frame_advance split: option.split)

lemma frame_fence: "frame (snd (fenceWindowLifecycle w rs c)) = frame c"
  unfolding fenceWindowLifecycle_def by (subst frame_fold_snd) (simp_all add: frame_fence_tab)

named_theorems frames \<open>fields of the frame behind steps that only touch tabs\<close>

lemmas [frames] = frame_set [unfolded frame_def prod.inject] frame_revoke [unfolded frame_def prod.inject]
  frame_grant [unfolded frame_def prod.inject] frame_complete [unfolded frame_def prod.inject]
  frame_cancel [unfolded frame_def prod.inject] frame_clearPanel [unfolded frame_def prod.inject]
  frame_advance [unfolded frame_def prod.inject] frame_retire [unfolded frame_def prod.inject]
  frame_retire_optional [unfolded frame_def prod.inject] frame_mark [unfolded frame_def prod.inject]
  frame_clearRuntime [unfolded frame_def prod.inject] frame_stage [unfolded frame_def prod.inject]
  frame_fence [unfolded frame_def prod.inject]

subsection \<open>What a task may wait for\<close>

fun awaits_init :: "cont \<Rightarrow> bool" where
  "awaits_init AtInitialize = True"
| "awaits_init (AtPanelOpened t w r) = True"
| "awaits_init (AtPanelClosed t w r) = True"
| "awaits_init (AtStoredState t w) = True"
| "awaits_init (AtState t w) = True"
| "awaits_init (AtSettings t w a h r) = True"
| "awaits_init (AtAccept ad) = True"
| "awaits_init (AtEpoch w) = True"
| "awaits_init (AtActivate t w) = True"
| "awaits_init (AtDetach t r) = True"
| "awaits_init (AtRemoveWindow w m rs) = True"
| "awaits_init _ = False"

fun awaits_removal :: "cont \<Rightarrow> bool" where
  "awaits_removal (AtPanelClosed t w r) = True"
| "awaits_removal (AtClearRemoval w m) = True"
| "awaits_removal AtRemovalDone = True"
| "awaits_removal _ = False"

fun awaits_states :: "cont \<Rightarrow> bool" where
  "awaits_states (AtInitialization k) = True"
| "awaits_states (AtPanelClosedStored t w r) = True"
| "awaits_states (AtStoredStateLoaded t w) = True"
| "awaits_states (AtAcceptLoaded ad) = True"
| "awaits_states (AtEpochLoaded w) = True"
| "awaits_states (AtDetachLoaded t r) = True"
| "awaits_states (AtRemoveWindowLoaded w m rs) = True"
| "awaits_states _ = False"

fun awaits_update :: "cont \<Rightarrow> bool" where
  "awaits_update (AtPanelOpenedUpdate t w r) = True"
| "awaits_update (AtSettingsUpdated t w a r) = True"
| "awaits_update (AtStage ad p a t r rest cs ss) = True"
| "awaits_update (AtRollback ad p commit rest ok) = True"
| "awaits_update (AtEpochUpdated w rest) = True"
| "awaits_update _ = False"

fun awaits_answer :: "cont \<Rightarrow> bool" where
  "awaits_answer (AtAdmitted ad ws) = True"
| "awaits_answer (AtActiveTab ad ws p) = True"
| "awaits_answer (AtPrepared t oper a) = True"
| "awaits_answer (AtDispatched t oper a) = True"
| "awaits_answer _ = False"

fun matches :: "waiting \<Rightarrow> cont \<Rightarrow> bool" where
  "matches (OnInit _) k = awaits_init k"
| "matches (OnRemoval _) k = awaits_removal k"
| "matches (OnStore LoadAllStates) k = awaits_states k"
| "matches (OnStore (LoadState _ _)) k = (\<exists>t w. k = AtStateLoaded t w)"
| "matches (OnStore (UpdateTab _ _)) k = awaits_update k"
| "matches (OnStore (RemoveTabState _)) k = (\<exists>t r. k = AtRemoveTab t r)"
| "matches (OnReply (StatesReply (Inr xs))) k = (awaits_states k \<and> length xs \<le> MAX_PERSISTED_TAB_REFRESH_STATES)"
| "matches (OnReply (StatesReply (Inl e))) k = awaits_states k"
| "matches (OnReply (StateReply _)) k = (\<exists>t w. k = AtStateLoaded t w)"
| "matches (OnReply (UpdateReply _ _)) k = awaits_update k"
| "matches (OnReply (RemoveReply _)) k = (\<exists>t r. k = AtRemoveTab t r)"
| "matches OnAnswer k = awaits_answer k"

text \<open>Tasks no caller waits for, and tasks of the running operation of the queue.\<close>

fun internal :: "cont \<Rightarrow> bool" where
  "internal (AtInitialization k) = True"
| "internal (AtClearRemoval w m) = True"
| "internal (AtRemoveWindow w m rs) = True"
| "internal (AtRemoveWindowLoaded w m rs) = True"
| "internal _ = False"

fun in_queue :: "cont \<Rightarrow> bool" where
  "in_queue (AtAcceptLoaded ad) = True"
| "in_queue (AtAdmitted ad ws) = True"
| "in_queue (AtActiveTab ad ws p) = True"
| "in_queue (AtStage ad p a t r rest cs ss) = True"
| "in_queue (AtRollback ad p commit rest ok) = True"
| "in_queue (AtEpochLoaded w) = True"
| "in_queue (AtEpochUpdated w rest) = True"
| "in_queue (AtPrepared t oper a) = True"
| "in_queue (AtDispatched t oper a) = True"
| "in_queue _ = False"

subsection \<open>Counting\<close>

definition accounts :: "nat \<Rightarrow> tab_coordinator \<Rightarrow> nat" where
  "accounts m c = length (filter (\<lambda>(n, w, k). n = m \<and> \<not> internal k) (tc_tasks c)) +
     length (filter (\<lambda>(n, q). n = m) (tc_queue c)) +
     length (filter (\<lambda>e. \<exists>r. e = Settled m r) (tc_log c))"

definition queue_tasks :: "tab_coordinator \<Rightarrow> nat" where
  "queue_tasks c = length (filter (\<lambda>(n, w, k). in_queue k) (tc_tasks c))"

text \<open>One too many or too few: the queue is in order when this is 1.\<close>

definition busy :: "tab_coordinator \<Rightarrow> nat" where
  "busy c = queue_tasks c + (if tc_running c then 0 else 1)"

definition tasks_match :: "tab_coordinator \<Rightarrow> bool" where
  "tasks_match c \<longleftrightarrow> list_all (\<lambda>(n, w, k). matches w k) (tc_tasks c)"

text \<open>The work left of a task, and of all of it: no operation reads more states than the store keeps.\<close>

fun cont_work :: "cont \<Rightarrow> nat" where
  "cont_work (AtPanelOpened t w r) = 3"
| "cont_work (AtPanelClosed t w r) = 3"
| "cont_work (AtStoredState t w) = 3"
| "cont_work (AtState t w) = 3"
| "cont_work (AtSettings t w a h r) = 3"
| "cont_work (AtDetach t r) = 3"
| "cont_work (AtRemoveWindow w m rs) = 3"
| "cont_work (AtAccept ad) = 4 * MAX_PERSISTED_TAB_REFRESH_STATES + 8"
| "cont_work (AtEpoch w) = 2 * MAX_PERSISTED_TAB_REFRESH_STATES + 4"
| "cont_work (AtActivate t w) = 4"
| "cont_work (AtAcceptLoaded ad) = 4 * MAX_PERSISTED_TAB_REFRESH_STATES + 5"
| "cont_work (AtAdmitted ad ws) = 4 * length ws + 4"
| "cont_work (AtActiveTab ad ws p) = 4 * length ws + 3"
| "cont_work (AtStage ad p a t r rest cs ss) = 2 * length cs + 4 * length rest + 3"
| "cont_work (AtRollback ad p commit rest ok) = 2 * length rest + 1"
| "cont_work (AtEpochLoaded w) = 2 * MAX_PERSISTED_TAB_REFRESH_STATES + 1"
| "cont_work (AtEpochUpdated w rest) = 2 * length rest + 1"
| "cont_work (AtPrepared t oper a) = 2"
| "cont_work _ = 1"

fun task_work :: "nat \<times> waiting \<times> cont \<Rightarrow> nat" where
  "task_work (n, OnStore r, k) = Suc (cont_work k)"
| "task_work (n, w, k) = cont_work k"

fun queued_work :: "nat \<times> queued \<Rightarrow> nat" where
  "queued_work (n, QueuedAccept ad) = 4 * MAX_PERSISTED_TAB_REFRESH_STATES + 7"
| "queued_work (n, QueuedEpoch w) = 2 * MAX_PERSISTED_TAB_REFRESH_STATES + 3"
| "queued_work (n, QueuedActivate t w) = 3"

definition work :: "tab_coordinator \<Rightarrow> nat" where
  "work c = sum_list (map task_work (tc_tasks c)) + sum_list (map queued_work (tc_queue c))"

lemma settled_filter: "filter (\<lambda>e. \<exists>r. e = Settled m r) xs = filter (\<lambda>e. \<exists>r. e = Settled m r) (filter is_settled xs)"
  by (induction xs) (auto elim: is_settled.elims)

lemma frame_counts:
  assumes "frame c' = frame c"
  shows "accounts m c' = accounts m c" "queue_tasks c' = queue_tasks c" "tasks_match c' = tasks_match c"
    "work c' = work c"
  using assms settled_filter [of m "tc_log c"] settled_filter [of m "tc_log c'"]
  by (simp_all add: frame_def accounts_def queue_tasks_def tasks_match_def work_def)

lemmas frame_steps = frame_set frame_revoke frame_grant frame_complete frame_cancel frame_clearPanel
  frame_advance frame_retire frame_retire_optional frame_mark frame_clearRuntime frame_stage frame_fence

named_theorems counts \<open>how much each step adds to the counts\<close>

lemmas [counts] = frame_steps [THEN frame_counts(1)] frame_steps [THEN frame_counts(2)]
  frame_steps [THEN frame_counts(3)] frame_steps [THEN frame_counts(4)]

lemma spawn_counts [counts]:
  "accounts m (spawn n w k c) = accounts m c + (if n = m \<and> \<not> internal k then 1 else 0)"
  "queue_tasks (spawn n w k c) = queue_tasks c + (if in_queue k then 1 else 0)"
  "tasks_match (spawn n w k c) \<longleftrightarrow> tasks_match c \<and> matches w k"
  "work (spawn n w k c) = work c + task_work (n, w, k)"
  by (auto simp: spawn_def accounts_def queue_tasks_def tasks_match_def work_def)

lemma settle_counts [counts]:
  "accounts m (settle_call n r c) = accounts m c + (if n = m then 1 else 0)"
  "queue_tasks (settle_call n r c) = queue_tasks c"
  "tasks_match (settle_call n r c) = tasks_match c"
  "work (settle_call n r c) = work c"
  by (simp_all add: settle_call_def log_event_def accounts_def queue_tasks_def tasks_match_def work_def)

lemma finish_counts [counts]:
  "accounts m (finish_queued n r c) = accounts m c + (if n = m then 1 else 0)"
  "queue_tasks (finish_queued n r c) = queue_tasks c"
  "tasks_match (finish_queued n r c) = tasks_match c"
  "work (finish_queued n r c) = work c"
  by (simp_all add: finish_queued_def settle_call_def log_event_def accounts_def queue_tasks_def tasks_match_def work_def)

lemma enqueue_counts [counts]:
  "accounts m (enqueue n q c) = accounts m c + (if n = m then 1 else 0)"
  "queue_tasks (enqueue n q c) = queue_tasks c"
  "tasks_match (enqueue n q c) = tasks_match c"
  "work (enqueue n q c) = work c + queued_work (n, q)"
  by (simp_all add: enqueue_def accounts_def queue_tasks_def tasks_match_def work_def)

lemma update_counts [counts]:
  "accounts m (c\<lparr>tc_panelWindows := x1\<rparr>) = accounts m c"
  "queue_tasks (c\<lparr>tc_panelWindows := x1\<rparr>) = queue_tasks c"
  "tasks_match (c\<lparr>tc_panelWindows := x1\<rparr>) = tasks_match c"
  "work (c\<lparr>tc_panelWindows := x1\<rparr>) = work c"
  "accounts m (c\<lparr>tc_watermarks := x2\<rparr>) = accounts m c"
  "queue_tasks (c\<lparr>tc_watermarks := x2\<rparr>) = queue_tasks c"
  "tasks_match (c\<lparr>tc_watermarks := x2\<rparr>) = tasks_match c"
  "work (c\<lparr>tc_watermarks := x2\<rparr>) = work c"
  "accounts m (c\<lparr>tc_operations := x3\<rparr>) = accounts m c"
  "queue_tasks (c\<lparr>tc_operations := x3\<rparr>) = queue_tasks c"
  "tasks_match (c\<lparr>tc_operations := x3\<rparr>) = tasks_match c"
  "work (c\<lparr>tc_operations := x3\<rparr>) = work c"
  "accounts m (c\<lparr>tc_store := x4\<rparr>) = accounts m c"
  "queue_tasks (c\<lparr>tc_store := x4\<rparr>) = queue_tasks c"
  "tasks_match (c\<lparr>tc_store := x4\<rparr>) = tasks_match c"
  "work (c\<lparr>tc_store := x4\<rparr>) = work c"
  "accounts m (c\<lparr>tc_attempts := x5\<rparr>) = accounts m c"
  "queue_tasks (c\<lparr>tc_attempts := x5\<rparr>) = queue_tasks c"
  "tasks_match (c\<lparr>tc_attempts := x5\<rparr>) = tasks_match c"
  "work (c\<lparr>tc_attempts := x5\<rparr>) = work c"
  "accounts m (c\<lparr>tc_initialization := x6\<rparr>) = accounts m c"
  "queue_tasks (c\<lparr>tc_initialization := x6\<rparr>) = queue_tasks c"
  "tasks_match (c\<lparr>tc_initialization := x6\<rparr>) = tasks_match c"
  "work (c\<lparr>tc_initialization := x6\<rparr>) = work c"
  "accounts m (c\<lparr>tc_windowRemovals := x7\<rparr>) = accounts m c"
  "queue_tasks (c\<lparr>tc_windowRemovals := x7\<rparr>) = queue_tasks c"
  "tasks_match (c\<lparr>tc_windowRemovals := x7\<rparr>) = tasks_match c"
  "work (c\<lparr>tc_windowRemovals := x7\<rparr>) = work c"
  "accounts m (c\<lparr>tc_removalSettled := x8\<rparr>) = accounts m c"
  "queue_tasks (c\<lparr>tc_removalSettled := x8\<rparr>) = queue_tasks c"
  "tasks_match (c\<lparr>tc_removalSettled := x8\<rparr>) = tasks_match c"
  "work (c\<lparr>tc_removalSettled := x8\<rparr>) = work c"
  "accounts m (c\<lparr>tc_running := x9\<rparr>) = accounts m c"
  "queue_tasks (c\<lparr>tc_running := x9\<rparr>) = queue_tasks c"
  "tasks_match (c\<lparr>tc_running := x9\<rparr>) = tasks_match c"
  "work (c\<lparr>tc_running := x9\<rparr>) = work c"
  "accounts m (c\<lparr>tc_calls := x10\<rparr>) = accounts m c"
  "queue_tasks (c\<lparr>tc_calls := x10\<rparr>) = queue_tasks c"
  "tasks_match (c\<lparr>tc_calls := x10\<rparr>) = tasks_match c"
  "work (c\<lparr>tc_calls := x10\<rparr>) = work c"
  "accounts m (c\<lparr>tc_pendingRefreshes := x11\<rparr>) = accounts m c"
  by (simp_all add: accounts_def queue_tasks_def tasks_match_def work_def)

lemma log_counts [counts]:
  "\<not> is_settled e \<Longrightarrow> accounts m (log_event e c) = accounts m c"
  "queue_tasks (log_event e c) = queue_tasks c"
  "tasks_match (log_event e c) = tasks_match c"
  "work (log_event e c) = work c"
  by (auto simp: log_event_def accounts_def queue_tasks_def tasks_match_def work_def)

lemma init_counts [counts]:
  "accounts m (snd (ensureInitialized n c)) = accounts m c"
  "queue_tasks (snd (ensureInitialized n c)) = queue_tasks c"
  "tasks_match (snd (ensureInitialized n c)) = tasks_match c"
  "work (snd (ensureInitialized n c)) = work c + (if tc_initialization c = None then 2 else 0)"
  by (simp_all add: ensureInitialized_def Let_def counts split: option.split)

lemma await_counts [counts]:
  "accounts m (await_initialized n k c) = accounts m c + (if n = m \<and> \<not> internal k then 1 else 0)"
  "queue_tasks (await_initialized n k c) = queue_tasks c + (if in_queue k then 1 else 0)"
  "tasks_match (await_initialized n k c) \<longleftrightarrow> tasks_match c \<and> awaits_init k"
  "work (await_initialized n k c) \<le> work c + cont_work k + 2"
proof -
  obtain a c1 where e: "ensureInitialized n c = (a, c1)" by (cases "ensureInitialized n c")
  note i = init_counts [where n = n and c = c, unfolded e snd_conv]
  show "accounts m (await_initialized n k c) = accounts m c + (if n = m \<and> \<not> internal k then 1 else 0)"
    "queue_tasks (await_initialized n k c) = queue_tasks c + (if in_queue k then 1 else 0)"
    "tasks_match (await_initialized n k c) \<longleftrightarrow> tasks_match c \<and> awaits_init k"
    "work (await_initialized n k c) \<le> work c + cont_work k + 2"
    using i by (auto simp: await_initialized_def e counts)
qed

subsection \<open>Methods\<close>

text \<open>
  \<open>handles n own queue extra c c'\<close>: the step from \<open>c\<close> to \<open>c'\<close> put the call \<open>n\<close> into one place (if it
  has a caller), ended the running operation of the queue or went on with it (if it was one), left
  everything else where it was, and added at most \<open>extra\<close> work.
\<close>

text \<open>
  Promises: what a task waits for exists; an initialization or a window removal that is not settled
  has a task that will settle it (apart from the excused ones in \<open>A\<close> and \<open>R\<close>).
\<close>

fun wait_bounded :: "tab_coordinator \<Rightarrow> waiting \<Rightarrow> bool" where
  "wait_bounded c (OnInit k) \<longleftrightarrow> k < length (tc_attempts c)"
| "wait_bounded c (OnRemoval r) \<longleftrightarrow> r < length (tc_removalSettled c)"
| "wait_bounded c _ \<longleftrightarrow> True"

fun removing :: "nat \<Rightarrow> cont \<Rightarrow> bool" where
  "removing r (AtRemoveWindow i m rs) = (m = r)"
| "removing r (AtRemoveWindowLoaded i m rs) = (m = r)"
| "removing r _ = False"

definition promises_ok :: "nat set \<Rightarrow> nat set \<Rightarrow> tab_coordinator \<Rightarrow> bool" where
  "promises_ok A R c \<longleftrightarrow>
     (\<forall>t\<in>set (tc_tasks c). wait_bounded c (fst (snd t))) \<and>
     (\<forall>a<length (tc_attempts c). tc_attempts c ! a = None \<longrightarrow>
        a \<in> A \<or> (\<exists>t\<in>set (tc_tasks c). snd (snd t) = AtInitialization a)) \<and>
     (\<forall>r<length (tc_removalSettled c). \<not> tc_removalSettled c ! r \<longrightarrow>
        r \<in> R \<or> (\<exists>t\<in>set (tc_tasks c). removing r (snd (snd t)))) \<and>
     (\<forall>i r. jget (tc_windowRemovals c) i = Some r \<longrightarrow> r < length (tc_removalSettled c)) \<and>
     (\<forall>a. tc_initialization c = Some a \<longrightarrow> a < length (tc_attempts c))"

lemma wait_bounded_cong:
  "tc_attempts c' = tc_attempts c \<Longrightarrow> tc_removalSettled c' = tc_removalSettled c \<Longrightarrow>
   wait_bounded c' w = wait_bounded c w"
  by (cases w) simp_all

lemma promises_cong:
  assumes "tc_tasks c' = tc_tasks c" and "tc_attempts c' = tc_attempts c"
    and "tc_removalSettled c' = tc_removalSettled c" and "tc_windowRemovals c' = tc_windowRemovals c"
    and "tc_initialization c' = tc_initialization c"
  shows "promises_ok A R c' = promises_ok A R c"
  unfolding promises_ok_def wait_bounded_cong [OF assms(2,3)] assms ..

lemma promises_frame: "frame c' = frame c \<Longrightarrow> promises_ok A R c' = promises_ok A R c"
  by (rule promises_cong) (simp_all add: frame_def)

lemma wait_bounded_spawn [simp]: "wait_bounded (spawn n w k c) w' = wait_bounded c w'"
  by (rule wait_bounded_cong) (simp_all add: spawn_def)

lemma promises_spawn:
  assumes "promises_ok A R c" and "wait_bounded c w" shows "promises_ok A R (spawn n w k c)"
proof -
  have f: "tc_tasks (spawn n w k c) = tc_tasks c @ [(n, w, k)]" "tc_attempts (spawn n w k c) = tc_attempts c"
    "tc_removalSettled (spawn n w k c) = tc_removalSettled c"
    "tc_windowRemovals (spawn n w k c) = tc_windowRemovals c"
    "tc_initialization (spawn n w k c) = tc_initialization c"
    by (simp_all add: spawn_def)
  show ?thesis using assms unfolding promises_ok_def f set_append bex_Un ball_Un wait_bounded_spawn
    by simp blast
qed

lemma promises_simps [simp]:
  "promises_ok A R (settle_call n r c) = promises_ok A R c"
  "promises_ok A R (finish_queued n r c) = promises_ok A R c"
  "promises_ok A R (enqueue n q c) = promises_ok A R c"
  "promises_ok A R (log_event e c) = promises_ok A R c"
  "promises_ok A R (c\<lparr>tc_watermarks := wm\<rparr>) = promises_ok A R c"
  "promises_ok A R (c\<lparr>tc_operations := oper\<rparr>) = promises_ok A R c"
  "promises_ok A R (c\<lparr>tc_store := st\<rparr>) = promises_ok A R c"
  "promises_ok A R (c\<lparr>tc_running := b\<rparr>) = promises_ok A R c"
  "promises_ok A R (c\<lparr>tc_queue := qs\<rparr>) = promises_ok A R c"
  "promises_ok A R (c\<lparr>tc_calls := m\<rparr>) = promises_ok A R c"
  by (rule promises_cong; simp add: settle_call_def finish_queued_def enqueue_def log_event_def)+

lemma promises_init:
  assumes "promises_ok A R c" and "ensureInitialized n c = (a, c1)"
  shows "promises_ok A R c1 \<and> a < length (tc_attempts c1)"
proof (cases "tc_initialization c")
  case (Some b)
  then show ?thesis using assms by (simp add: ensureInitialized_def promises_ok_def)
next
  case None
  define c2 where "c2 = c\<lparr>tc_initialization := Some (length (tc_attempts c)), tc_attempts := tc_attempts c @ [None]\<rparr>"
  have e: "a = length (tc_attempts c)" "c1 = spawn n (OnStore LoadAllStates) (AtInitialization a) c2"
    using assms(2) None by (auto simp: ensureInitialized_def Let_def c2_def)
  have b: "wait_bounded c w \<Longrightarrow> wait_bounded c1 w" for w
    by (cases w) (simp_all add: e spawn_def c2_def)
  have t: "tc_tasks c1 = tc_tasks c @ [(n, OnStore LoadAllStates, AtInitialization a)]"
    "tc_attempts c1 = tc_attempts c @ [None]" "tc_removalSettled c1 = tc_removalSettled c"
    "tc_windowRemovals c1 = tc_windowRemovals c" "tc_initialization c1 = Some a"
    by (simp_all add: e spawn_def c2_def)
  have "(\<forall>t\<in>set (tc_tasks c1). wait_bounded c1 (fst (snd t)))"
    using assms(1) b by (auto simp: t promises_ok_def)
  then show ?thesis using assms(1) unfolding promises_ok_def t
    by (auto simp: nth_append less_Suc_eq e(1))
qed

lemma promises_await: "promises_ok A R c \<Longrightarrow> promises_ok A R (await_initialized n k c)"
  using promises_init [of A R c n] promises_spawn
  by (cases "ensureInitialized n c") (simp add: await_initialized_def)

definition handles :: "nat \<Rightarrow> bool \<Rightarrow> bool \<Rightarrow> nat \<Rightarrow> tab_coordinator \<Rightarrow> tab_coordinator \<Rightarrow> bool" where
  "handles n own queue extra c c' \<longleftrightarrow>
     ((queue \<longrightarrow> tc_running c) \<longrightarrow> busy c' = busy c + (if queue then 1 else 0)) \<and>
     (\<forall>m. accounts m c' = accounts m c + (if n = m \<and> own then 1 else 0)) \<and>
     (tasks_match c \<longrightarrow> tasks_match c') \<and> work c' \<le> work c + extra \<and>
     (\<forall>A R. promises_ok A R c \<longrightarrow> promises_ok A R c') \<and> tc_calls c' = tc_calls c"

lemma handlesI:
  assumes "\<And>m. accounts m c' = accounts m c + (if n = m \<and> own then 1 else 0)"
    and "tasks_match c \<Longrightarrow> tasks_match c'" and "work c' \<le> work c + extra"
    and "queue \<longrightarrow> tc_running c \<Longrightarrow> busy c' = busy c + (if queue then 1 else 0)"
    and "\<And>A R. promises_ok A R c \<Longrightarrow> promises_ok A R c'" and "tc_calls c' = tc_calls c"
  shows "handles n own queue extra c c'"
  using assms by (simp add: handles_def)

lemma handles_more: "handles n own q x c c' \<Longrightarrow> x \<le> y \<Longrightarrow> handles n own q y c c'"
  by (auto simp: handles_def)

lemma frame_running: "frame c' = frame c \<Longrightarrow> tc_running c' = tc_running c \<and> tc_calls c' = tc_calls c"
  by (simp add: frame_def)

lemma running_fields [simp]:
  "tc_running (spawn n w k c) = tc_running c" "tc_running (settle_call n r c) = tc_running c"
  "tc_running (finish_queued n r c) = False" "tc_running (enqueue n q c) = tc_running c"
  "tc_running (await_initialized n k c) = tc_running c" "tc_running (log_event e c) = tc_running c"
  by (simp_all add: spawn_def settle_call_def finish_queued_def log_event_def enqueue_def
      await_initialized_def ensureInitialized_def Let_def split: option.split)

lemma calls_fields [simp]:
  "tc_calls (spawn n w k c) = tc_calls c" "tc_calls (settle_call n r c) = tc_calls c"
  "tc_calls (finish_queued n r c) = tc_calls c" "tc_calls (enqueue n q c) = tc_calls c"
  "tc_calls (await_initialized n k c) = tc_calls c" "tc_calls (log_event e c) = tc_calls c"
  by (simp_all add: spawn_def settle_call_def finish_queued_def log_event_def enqueue_def
      await_initialized_def ensureInitialized_def Let_def split: option.split)

lemma handles_settle:
  assumes "frame c1 = frame c" shows "handles n True False x c (settle_call n r c1)"
  by (rule handlesI) (simp_all add: counts busy_def frame_counts [OF assms] frame_running [OF assms]
      promises_frame [OF assms])

lemma handles_finish:
  assumes "frame c1 = frame c" shows "handles n True True x c (finish_queued n r c1)"
  by (rule handlesI) (simp_all add: counts busy_def frame_counts [OF assms] frame_running [OF assms]
      promises_frame [OF assms])

lemma handles_spawn:
  assumes "frame c1 = frame c" and "matches w k" and "task_work (n, w, k) \<le> x" and "own = (\<not> internal k)"
    and "q = in_queue k" and "\<And>A R. promises_ok A R c1 \<Longrightarrow> wait_bounded c1 w"
  shows "handles n own q x c (spawn n w k c1)"
  using assms(2-6) promises_frame [OF assms(1)]
  by (intro handlesI) (simp_all add: counts busy_def frame_counts [OF assms(1)] frame_running [OF assms(1)]
      promises_spawn)

lemma removal_bounded: "promises_ok A R c \<Longrightarrow> jget (tc_windowRemovals c) i = Some r \<Longrightarrow> r < length (tc_removalSettled c)"
  by (simp add: promises_ok_def)

lemma awaits_init_not_queued: "awaits_init k \<Longrightarrow> \<not> in_queue k"
  by (cases k) simp_all

lemma handles_await:
  assumes "frame c1 = frame c" and "awaits_init k" and "cont_work k + 2 \<le> x" and "own = (\<not> internal k)"
  shows "handles n own False x c (await_initialized n k c1)"
  using assms(2-4) await_counts(4) [of n k c1] awaits_init_not_queued [OF assms(2)]
  by (intro handlesI) (simp_all add: counts busy_def frame_counts [OF assms(1)] frame_running [OF assms(1)]
      promises_frame [OF assms(1)] promises_await)

lemma handles_spawn_removal:
  assumes "frame c1 = frame c" and "awaits_removal k" and "cont_work k \<le> x" and "own = (\<not> internal k)"
    and "\<not> in_queue k" and "jget (tc_windowRemovals c1) i = Some r"
  shows "handles n own False x c (spawn n (OnRemoval r) k c1)"
  using assms by (intro handles_spawn) (simp_all add: removal_bounded)

lemma handles_enqueue: "queued_work (n, q) \<le> x \<Longrightarrow> handles n True False x c (enqueue n q c)"
  by (rule handlesI) (simp_all add: counts busy_def)

lemma frame_tabs [simp]:
  "frame (c\<lparr>tc_panelWindows := p\<rparr>) = frame c" "frame (c\<lparr>tc_operations := oper\<rparr>) = frame c"
  "frame (c\<lparr>tc_pendingRefreshes := q\<rparr>) = frame c"
  by (simp_all add: frame_def)

lemmas frame_simps [simp] = frame_steps frame_mark

lemma handles_panelOpened: "handles n True False 5 c (panelOpened n t w c)"
  unfolding panelOpened_def Let_def split_beta
  by (simp add: handles_settle handles_await)

lemma handles_panelOpened_failed: "handles n True False x c (panelOpened_failed n t w r c)"
  unfolding panelOpened_failed_def by (simp add: handles_settle)

lemma handles_panelOpened_initialized: "handles n True False 2 c (panelOpened_initialized n t w r ok c)"
  unfolding panelOpened_initialized_def by (simp add: handles_panelOpened_failed handles_spawn)

lemma handles_panelOpened_updated: "handles n True False 0 c (panelOpened_updated n t w r reply c)"
proof -
  have f: "handles n True False 0 c (panelOpened_failed n t w r c1)" if "frame c1 = frame c" for c1
    using that unfolding panelOpened_failed_def by (simp add: handles_settle)
  show ?thesis
    unfolding panelOpened_updated_def Let_def
    by (simp add: f handles_settle split: sum.split option.split)
qed

lemma handles_stored: "handles n True False 5 c (storedEffectiveState n t w c)"
  unfolding storedEffectiveState_def by (simp add: handles_await)

lemma handles_panelClosed: "handles n True False 5 c (panelClosed n t w c)"
  unfolding panelClosed_def Let_def split_beta
  by (simp add: handles_settle handles_stored handles_await handles_spawn_removal split: option.split)

lemma handles_panelClosed_waited: "handles n True False 2 c (panelClosed_waited n t w r ok c)"
  unfolding panelClosed_waited_def by (simp add: handles_settle handles_spawn)

lemma handles_panelClosed_stored: "handles n True False 0 c (panelClosed_stored n t w r reply c)"
  unfolding panelClosed_stored_def Let_def by (simp add: handles_settle)

lemma handles_updateSettings: "handles n True False 5 c (updateSettings n t w a h c)"
  unfolding updateSettings_def Let_def by (simp add: handles_settle handles_await)

lemma handles_updateSettings_updated: "handles n True False 0 c (updateSettings_updated n t w a r reply c)"
  unfolding updateSettings_updated_def Let_def by (simp add: handles_settle split: sum.split option.split)

lemma handles_dispatch: "frame c1 = frame c \<Longrightarrow> handles n True True 2 c (dispatch n t oper a c1)"
  unfolding dispatch_def by (simp add: handles_finish handles_spawn)

lemma handles_dispatch_prepared: "handles n True True 1 c (dispatch_prepared n t oper a c)"
  unfolding dispatch_prepared_def by (simp add: handles_finish handles_spawn frame_log)

lemma handles_dispatch_sent: "handles n True True 0 c (dispatch_sent n t oper a reply c)"
  unfolding dispatch_sent_def by (simp add: handles_finish)

lemma handles_finish_admission: "handles n True True 2 c (finish_admission n ad a stages c)"
proof -
  have f: "frame (snd (fold (stage_operation ad a) stages (None, c))) = frame c"
    by (subst frame_fold_snd) (simp_all add: frame_stage)
  show ?thesis
    using f by (cases "fold (stage_operation ad a) stages (None, c)")
      (auto simp: finish_admission_def handles_finish handles_dispatch split: option.split)
qed

lemma handles_next_stage:
  "handles n True True (if snapshots = [] then 2 else 2 * length cs + 4 * length snapshots) c
     (next_stage n ad p a snapshots cs ss c)"
proof (cases snapshots)
  case Nil
  then show ?thesis using handles_finish_admission by (simp add: next_stage_def)
next
  case (Cons x rest)
  then show ?thesis by (simp add: next_stage_def Let_def handles_spawn)
qed

lemma handles_next_rollback: "handles n True True (2 * length cs) c (next_rollback n ad p cs ok c)"
proof (cases cs)
  case Nil
  show ?thesis unfolding next_rollback_def Nil
    by (rule handlesI) (auto simp: counts busy_def split: option.split)
next
  case (Cons x rest)
  then show ?thesis by (simp add: next_rollback_def handles_spawn)
qed

lemma handles_accept_staged:
  "handles n True True (2 * length cs + 4 * length rest + 2) c (accept_staged n ad p a t r rest cs ss x reply c)"
proof -
  define cs' where "cs' = cs @ (case x of None \<Rightarrow> [] | Some y \<Rightarrow> [y])"
  have l: "length cs' \<le> length cs + 1" by (simp add: cs'_def split: option.split)
  show ?thesis
  proof (cases reply)
    case (Inl e)
    then show ?thesis using handles_next_rollback [of n "rev cs'" c ad p True] l
      unfolding accept_staged_def Let_def by (simp add: cs'_def [symmetric]) (erule handles_more, simp)
  next
    case (Inr u)
    then show ?thesis
      using handles_next_stage [of n rest cs' c ad p a "ss @ [\<lparr>as_tabId = t, as_revision = r, as_updated = u\<rparr>]"] l
      unfolding accept_staged_def Let_def
      by (simp add: cs'_def [symmetric]) (erule handles_more, cases rest, simp_all)
  qed
qed

lemma handles_accept_rolled: "handles n True True (2 * length rest) c (accept_rolled n ad p rest ok x reply c)"
  unfolding accept_rolled_def by (rule handles_next_rollback)

lemma handles_accept_active: "handles n True True (4 * length ws + 2) c (accept_active n ad ws p reply c)"
  unfolding accept_active_def
  using handles_next_stage [of n ws "[]" c ad p "case reply of ActiveTab t \<Rightarrow> t | _ \<Rightarrow> None" "[]"]
  by (rule handles_more) (simp split: if_split)

lemma handles_accept_admitted: "handles n True True (4 * length ws + 3) c (accept_admitted n ad ws reply c)"
proof (cases "reply = Throws \<or> reply = Says False")
  case True
  then show ?thesis unfolding accept_admitted_def by (auto simp: handles_finish)
next
  case False
  then show ?thesis unfolding accept_admitted_def by (intro handlesI) (auto simp: counts busy_def intro: promises_spawn)
qed

lemma handles_accept_loaded:
  assumes "\<And>xs. reply = Inr xs \<Longrightarrow> length xs \<le> MAX_PERSISTED_TAB_REFRESH_STATES"
  shows "handles n True True (4 * MAX_PERSISTED_TAB_REFRESH_STATES + 4) c (accept_loaded n ad reply c)"
proof (cases reply)
  case (Inr xs)
  have "length (filter (\<lambda>s. tr_windowId s = ad_windowId ad) xs) \<le> MAX_PERSISTED_TAB_REFRESH_STATES"
    using assms [OF Inr] length_filter_le le_trans by blast
  then show ?thesis unfolding accept_loaded_def Let_def by (simp add: Inr handles_finish handles_spawn)
qed (simp add: accept_loaded_def handles_finish)

lemma handles_acceptPageRefresh:
  "handles n True False (4 * MAX_PERSISTED_TAB_REFRESH_STATES + 10) c (acceptPageRefresh n w m cb c)"
  unfolding acceptPageRefresh_def by (simp add: handles_settle handles_await)

lemma handles_next_epoch: "handles n True True (2 * length xs) c (next_epoch_state n w xs c)"
  by (cases xs) (simp_all add: next_epoch_state_def handles_finish handles_spawn)

lemma handles_epoch_loaded:
  assumes "\<And>xs. reply = Inr xs \<Longrightarrow> length xs \<le> MAX_PERSISTED_TAB_REFRESH_STATES"
  shows "handles n True True (2 * MAX_PERSISTED_TAB_REFRESH_STATES) c (epoch_loaded n w reply c)"
proof (cases reply)
  case (Inr xs)
  have "length (filter (\<lambda>s. tr_windowId s = w) xs) \<le> MAX_PERSISTED_TAB_REFRESH_STATES"
    using assms [OF Inr] length_filter_le le_trans by blast
  then show ?thesis
    using handles_next_epoch [of n "filter (\<lambda>s. tr_windowId s = w) xs" c w]
    by (simp add: epoch_loaded_def Inr) (erule handles_more, simp)
qed (simp add: epoch_loaded_def handles_finish)

lemma handles_epoch_updated: "handles n True True (2 * length rest) c (epoch_updated n w rest reply c)"
  unfolding epoch_updated_def by (simp add: handles_finish handles_next_epoch split: sum.split)

lemma handles_beginWindowEpoch:
  "handles n True False (2 * MAX_PERSISTED_TAB_REFRESH_STATES + 6) c (beginWindowEpoch n w c)"
  unfolding beginWindowEpoch_def by (simp add: handles_settle handles_await)

lemma handles_epoch_started:
  "handles n True True (2 * MAX_PERSISTED_TAB_REFRESH_STATES + 2) c (epoch_started n w c)"
  unfolding epoch_started_def by (rule handlesI) (simp_all add: counts busy_def promises_spawn)

lemma handles_clearWindowPending: "handles n True False 0 c (clearWindowPending n w c)"
  unfolding clearWindowPending_def by (simp add: handles_settle)

lemma handles_activate_started: "handles n True True 2 c (activate_started n t w c)"
  unfolding activate_started_def by (simp add: handles_finish handles_dispatch split: option.split)

lemma handles_removeTab: "handles n True False 2 c (removeTabLifecycle n t c)"
  unfolding removeTabLifecycle_def Let_def split_beta by (simp add: handles_settle handles_spawn)

lemma handles_detachTab: "handles n True False 5 c (detachTab n t w c)"
  unfolding detachTab_def Let_def split_beta by (simp add: handles_settle handles_await)

lemma handles_detach_initialized: "handles n True False 2 c (detach_initialized n t r ok c)"
  unfolding detach_initialized_def by (simp add: handles_settle handles_spawn)

lemma frame_fold_retire: "frame (fold (\<lambda>(t, r) c. retireLifecycle t r c) rs c) = frame c"
  by (rule frame_fold) auto

lemma removal_finished_counts [counts]:
  "accounts m (removal_finished w r rs c) = accounts m c"
  "queue_tasks (removal_finished w r rs c) = queue_tasks c"
  "tasks_match (removal_finished w r rs c) = tasks_match c"
  "work (removal_finished w r rs c) = work c"
  using frame_counts [OF frame_fold_retire [of rs "c\<lparr>tc_watermarks := jdel w (tc_watermarks c)\<rparr>"]]
  by (simp_all add: removal_finished_def Let_def counts)

lemma nth_update_inside: "j < length xs \<Longrightarrow> xs[i := x] ! j = (if i = j then x else xs ! j)"
  by simp

lemma promises_removal_finished:
  assumes "promises_ok A (insert r R) c" shows "promises_ok A R (removal_finished w r rs c)"
proof -
  define c1 where "c1 = fold (\<lambda>(t, r) c. retireLifecycle t r c) rs (c\<lparr>tc_watermarks := jdel w (tc_watermarks c)\<rparr>)"
  have ok: "promises_ok A (insert r R) c1"
    using assms promises_frame [OF frame_fold_retire [of rs "c\<lparr>tc_watermarks := jdel w (tc_watermarks c)\<rparr>"]]
    by (simp add: c1_def)
  define c2 where "c2 = c1\<lparr>tc_removalSettled := (tc_removalSettled c1)[r := True]\<rparr>"
  have b: "wait_bounded c2 x = wait_bounded c1 x" for x by (cases x) (simp_all add: c2_def)
  have "promises_ok A R c2"
    using ok unfolding promises_ok_def b by (auto simp: c2_def nth_update_inside)
  then show ?thesis by (simp add: removal_finished_def c1_def [symmetric] c2_def)
qed

lemma promises_initialization_loaded:
  assumes "promises_ok (insert k A) R c" shows "promises_ok A R (initialization_loaded k reply c)"
proof -
  have "promises_ok A R c'"
    if "tc_attempts c' = (tc_attempts c)[k := Some b]" "tc_tasks c' = tc_tasks c"
      "tc_removalSettled c' = tc_removalSettled c" "tc_windowRemovals c' = tc_windowRemovals c"
      "tc_initialization c' \<in> {None, tc_initialization c}" for c' b
  proof -
    have w: "wait_bounded c' x = wait_bounded c x" for x using that by (cases x) simp_all
    show ?thesis using assms that(5) unfolding promises_ok_def that(1-4) w
      by (auto simp: nth_update_inside)
  qed
  then show ?thesis unfolding initialization_loaded_def by (auto split: sum.split)
qed

lemma promises_weaken: "promises_ok A R c \<Longrightarrow> A \<subseteq> A' \<Longrightarrow> R \<subseteq> R' \<Longrightarrow> promises_ok A' R' c"
  unfolding promises_ok_def by blast

lemma handles_removal_finished: "handles n False False x c (removal_finished w r rs c)"
  using frame_running [OF frame_fold_retire [of rs "c\<lparr>tc_watermarks := jdel w (tc_watermarks c)\<rparr>"]]
  by (intro handlesI promises_removal_finished)
    (simp_all add: counts busy_def promises_weaken subset_insertI, simp_all add: removal_finished_def Let_def)

lemma handles_removal_initialized: "handles n False False 2 c (removal_initialized n w r rs ok c)"
  unfolding removal_initialized_def split_beta by (simp add: handles_removal_finished handles_spawn)

lemma handles_clearWindowRemoval: "handles n False False 0 c (clearWindowRemoval w r c)"
proof (rule handlesI)
  fix A R assume p: "promises_ok A R c"
  have w: "wait_bounded (c\<lparr>tc_windowRemovals := jdel w (tc_windowRemovals c)\<rparr>) x = wait_bounded c x" for x
    by (cases x) simp_all
  show "promises_ok A R (clearWindowRemoval w r c)"
    using p unfolding clearWindowRemoval_def by (auto simp: promises_ok_def w)
qed (simp_all add: clearWindowRemoval_def counts busy_def)

lemma handles_initialization: "handles n False False 0 c (initialization_loaded k reply c)"
proof (rule handlesI)
  fix A R assume "promises_ok A R c"
  then show "promises_ok A R (initialization_loaded k reply c)"
    by (intro promises_initialization_loaded) (rule promises_weaken, auto)
qed (simp_all add: initialization_loaded_def counts busy_def split: sum.split)

lemma promises_new_removal:
  assumes "promises_ok A R c" and "\<exists>t\<in>set (tc_tasks c). removing (length (tc_removalSettled c)) (snd (snd t))"
  shows "promises_ok A R (c\<lparr>tc_windowRemovals := jset w (length (tc_removalSettled c)) (tc_windowRemovals c),
    tc_removalSettled := tc_removalSettled c @ [False]\<rparr>)"
proof -
  define c3 where "c3 = c\<lparr>tc_windowRemovals := jset w (length (tc_removalSettled c)) (tc_windowRemovals c),
    tc_removalSettled := tc_removalSettled c @ [False]\<rparr>"
  have b: "wait_bounded c x \<Longrightarrow> wait_bounded c3 x" for x by (cases x) (simp_all add: c3_def)
  have "promises_ok A R c3" unfolding promises_ok_def
  proof (intro conjI)
    show "\<forall>t\<in>set (tc_tasks c3). wait_bounded c3 (fst (snd t))"
      using assms(1) b by (simp add: promises_ok_def c3_def)
  qed (use assms in \<open>auto simp: promises_ok_def c3_def nth_append less_Suc_eq\<close>)
  then show ?thesis by (simp add: c3_def)
qed

lemma await_fields:
  "tc_removalSettled (await_initialized n k c) = tc_removalSettled c"
  "\<exists>a. (n, OnInit a, k) \<in> set (tc_tasks (await_initialized n k c))"
  by (auto simp: await_initialized_def ensureInitialized_def Let_def spawn_def split: option.split)

lemma handles_removeWindow: "handles n True False 7 c (removeWindow n w c)"
proof (cases "jget (tc_windowRemovals c) w")
  case (Some r)
  then show ?thesis by (simp add: removeWindow_def handles_spawn_removal [where i = w])
next
  case None
  obtain rs c1 where f: "fenceWindowLifecycle w [] c = (rs, c1)" by (cases "fenceWindowLifecycle w [] c")
  have e: "frame c1 = frame c" using frame_fence [of w "[]" c] by (simp add: f)
  have wk: "work (await_initialized n (AtRemoveWindow w (length (tc_removalSettled c1)) rs) c1) \<le> work c1 + 5"
    using await_counts(4) [of n "AtRemoveWindow w (length (tc_removalSettled c1)) rs" c1] by simp
  define r where "r = length (tc_removalSettled c1)"
  define c2 where "c2 = await_initialized n (AtRemoveWindow w r rs) c1"
  have r2: "r = length (tc_removalSettled c2)" by (simp add: r_def c2_def await_fields)
  obtain a where "(n, OnInit a, AtRemoveWindow w r rs) \<in> set (tc_tasks c2)"
    using await_fields(2) unfolding c2_def by blast
  then have t: "\<exists>t\<in>set (tc_tasks c2). removing (length (tc_removalSettled c2)) (snd (snd t))"
    unfolding r2 [symmetric] by (rule bexI [rotated]) simp
  have p: "promises_ok A R (spawn n (OnRemoval r) AtRemovalDone
      (spawn n (OnRemoval r) (AtClearRemoval w r)
        (c2\<lparr>tc_windowRemovals := jset w r (tc_windowRemovals c2),
           tc_removalSettled := tc_removalSettled c2 @ [False]\<rparr>)))" if "promises_ok A R c" for A R
  proof -
    have "promises_ok A R c2"
      unfolding c2_def using that promises_frame [OF e] by (simp add: promises_await)
    from promises_new_removal [OF this t, of w] show ?thesis
      by (intro promises_spawn) (simp_all add: r2 spawn_def)
  qed
  show ?thesis unfolding removeWindow_def None f Let_def
    using wk p unfolding r_def c2_def by (intro handlesI) (simp_all add: counts busy_def frame_counts [OF e] frame_running [OF e])
qed

subsection \<open>Steps\<close>

lemma handles_on_init:
  assumes "awaits_init k" shows "handles n (\<not> internal k) False (cont_work k - 1) c (continue_on_init n k ok c)"
  using assms
  by (cases k) (simp_all add: handles_settle handles_spawn handles_enqueue handles_panelOpened_initialized
      handles_panelClosed_waited handles_detach_initialized handles_removal_initialized)

lemma handles_on_removal:
  assumes "awaits_removal k"
  shows "handles n (\<not> internal k) False (cont_work k - 1) c (continue_on_removal n k c)"
  using assms
  by (cases k) (simp_all add: handles_settle handles_panelClosed_waited handles_clearWindowRemoval)

lemma handles_on_answer:
  assumes "awaits_answer k"
  shows "handles n (\<not> internal k) (in_queue k) (cont_work k - 1) c (continue_on_answer n k a c)"
  using assms handles_accept_admitted [THEN handles_more] handles_accept_active [THEN handles_more]
    handles_dispatch_prepared [THEN handles_more]
  by (cases k) (simp_all add: handles_dispatch_sent)

lemma handles_on_reply:
  assumes "matches (OnReply reply) k"
  shows "handles n (\<not> internal k) (in_queue k) (cont_work k - 1) c (continue_on_reply n k reply c)"
proof (cases reply)
  case (StatesReply r)
  then have a: "awaits_states k" and l: "\<And>xs. r = Inr xs \<Longrightarrow> length xs \<le> MAX_PERSISTED_TAB_REFRESH_STATES"
    using assms by (cases r; simp)+
  show ?thesis using a handles_accept_loaded [OF l, THEN handles_more] handles_epoch_loaded [OF l, THEN handles_more]
    by (cases k) (simp_all add: StatesReply handles_initialization handles_panelClosed_stored
        storedEffectiveState_loaded_def handles_settle handles_removal_finished)
next
  case (StateReply r)
  then show ?thesis using assms by (auto simp: state_loaded_def handles_settle)
next
  case (UpdateReply x r)
  then have "awaits_update k" using assms by simp
  then show ?thesis using UpdateReply handles_accept_staged [THEN handles_more]
    by (cases k) (simp_all add: handles_panelOpened_updated handles_updateSettings_updated
        handles_accept_staged handles_accept_rolled handles_epoch_updated)
next
  case (RemoveReply r)
  then show ?thesis using assms by (auto simp: handles_settle)
qed

lemma loadAll_length: "fst (loadAll fails st) = Inr xs \<Longrightarrow> length xs \<le> MAX_PERSISTED_TAB_REFRESH_STATES"
  using loadAllUnlocked_cases [of fails st] view_ok [of st] by (auto simp: loadAll_def states_ok_def)

lemma run_store_matches:
  assumes "matches (OnStore request) k" and "run_store fails request c = (reply, c1)"
  shows "matches (OnReply reply) k \<and> c1 = c\<lparr>tc_store := tc_store c1\<rparr>"
proof (cases request)
  case LoadAllStates
  obtain r st where l: "loadAll fails (tc_store c) = (r, st)" by (cases "loadAll fails (tc_store c)")
  then show ?thesis using assms LoadAllStates loadAll_length [of fails "tc_store c"]
    by (cases r) auto
next
  case (UpdateTab t u)
  obtain seen r st where "updateTab fails t (run_updater c u) (tc_store c) = (seen, r, st)"
    by (cases "updateTab fails t (run_updater c u) (tc_store c)")
  then show ?thesis using assms UpdateTab by auto
next
  case (LoadState t w)
  then show ?thesis using assms by (cases "load_state fails t w (tc_store c)") auto
next
  case (RemoveTabState t)
  then show ?thesis using assms by (cases "removeTab fails t (tc_store c)") auto
qed

lemma handles_resume:
  assumes "matches w k"
  shows "handles n (\<not> internal k) (in_queue k) (task_work (n, w, k) - 1) c (resume fails a n w k c)"
proof (cases w)
  case (OnInit b)
  then have "awaits_init k" using assms by simp
  then show ?thesis using handles_on_init [of k n c] awaits_init_not_queued [of k] by (simp add: OnInit)
next
  case (OnRemoval r)
  then have "awaits_removal k" using assms by simp
  then show ?thesis using handles_on_removal [of k n c] by (cases k) (simp_all add: OnRemoval)
next
  case (OnStore request)
  obtain reply c1 where r: "run_store fails request c = (reply, c1)" by (cases "run_store fails request c")
  have m: "matches (OnReply reply) k" and c1: "c1 = c\<lparr>tc_store := tc_store c1\<rparr>"
    using run_store_matches [OF _ r, of k] assms OnStore by simp_all
  have "handles n (\<not> internal k) (in_queue k) (cont_work k) c
      (spawn n (OnReply reply) k (c\<lparr>tc_store := tc_store c1\<rparr>))"
    using m by (intro handlesI) (simp_all add: counts busy_def promises_spawn)
  then show ?thesis using c1 by (simp add: OnStore r)
next
  case (OnReply reply)
  then show ?thesis using handles_on_reply [of reply k n c] assms by simp
next
  case OnAnswer
  then have "awaits_answer k" using assms by simp
  then show ?thesis using handles_on_answer [of k n c a] by (simp add: OnAnswer)
qed

lemma handles_start:
  "tc_running c \<Longrightarrow> handles n True True (queued_work (n, q) - 1) c (start_queued n q c)"
  using handles_epoch_started [THEN handles_more] handles_activate_started [THEN handles_more]
  by (cases q) (simp_all add: handles_spawn)

lemma handles_call:
  "handles n True False (4 * MAX_PERSISTED_TAB_REFRESH_STATES + 10) c (call_method n m c)"
  using handles_acceptPageRefresh handles_panelOpened [THEN handles_more] handles_panelClosed [THEN handles_more]
    handles_updateSettings [THEN handles_more] handles_beginWindowEpoch [THEN handles_more]
    handles_clearWindowPending [THEN handles_more] handles_removeTab [THEN handles_more]
    handles_detachTab [THEN handles_more] handles_removeWindow [THEN handles_more]
  by (cases m) (simp_all add: handles_await)

end
