(* ===== verification/Refresh_Liveness.thy ===== *)
theory Refresh_Liveness
  imports Refresh_Accounts
begin

text \<open>
  Every call of the tab refresh coordinator settles: each call is in exactly one place in every
  reachable state, some task can always go on, and every step leaves less work.
\<close>

subsection \<open>The invariant\<close>

definition accounts_inv :: "tab_coordinator \<Rightarrow> bool" where
  "accounts_inv c \<longleftrightarrow> (\<forall>m. accounts m c = (if m < tc_calls c then 1 else 0)) \<and> tasks_match c \<and>
     busy c = 1 \<and> promises_ok {} {} c"


lemma promises_respawn:
  assumes "promises_ok (A \<union> {a. k = AtInitialization a}) (R \<union> {r. removing r k}) c" and "wait_bounded c w"
  shows "promises_ok A R (spawn n w k c)"
proof -
  have f: "tc_tasks (spawn n w k c) = tc_tasks c @ [(n, w, k)]" "tc_attempts (spawn n w k c) = tc_attempts c"
    "tc_removalSettled (spawn n w k c) = tc_removalSettled c"
    "tc_windowRemovals (spawn n w k c) = tc_windowRemovals c"
    "tc_initialization (spawn n w k c) = tc_initialization c"
    by (simp_all add: spawn_def)
  show ?thesis using assms unfolding promises_ok_def f set_append bex_Un ball_Un wait_bounded_spawn
    by simp blast
qed

lemma promises_removal_initialized:
  assumes "promises_ok A (insert r R) c" shows "promises_ok A R (removal_initialized n w r rs ok c)"
proof (cases ok)
  case True
  obtain rs' c1 where f: "fenceWindowLifecycle w rs c = (rs', c1)" by (cases "fenceWindowLifecycle w rs c")
  have "promises_ok A (insert r R) c1"
    using assms promises_frame [OF frame_fence [of w rs c]] by (simp add: f)
  then have "promises_ok (A \<union> {a. AtRemoveWindowLoaded w r rs' = AtInitialization a})
      (R \<union> {x. removing x (AtRemoveWindowLoaded w r rs')}) c1" by simp
  from promises_respawn [OF this] show ?thesis using True by (simp add: removal_initialized_def f)
qed (simp add: removal_initialized_def promises_removal_finished [OF assms])

lemma promises_resume:
  assumes m: "matches w k" and p: "promises_ok {a. k = AtInitialization a} {r. removing r k} c"
  shows "promises_ok {} {} (resume fails x n w k c)"
proof (cases w)
  case (OnStore request)
  obtain reply c1 where r: "run_store fails request c = (reply, c1)" by (cases "run_store fails request c")
  obtain st where c1: "c1 = c\<lparr>tc_store := st\<rparr>" using run_store_matches [OF _ r, of k] m OnStore by blast
  have "promises_ok ({} \<union> {a. k = AtInitialization a}) ({} \<union> {r. removing r k}) c1"
    using p by (simp add: c1)
  from promises_respawn [OF this] show ?thesis by (simp add: OnStore r)
next
  case (OnReply reply)
  show ?thesis
  proof (cases "\<exists>a. k = AtInitialization a")
    case True
    then obtain a where k: "k = AtInitialization a" by blast
    obtain r where "reply = StatesReply r" using m by (cases reply) (simp_all add: OnReply k)
    then show ?thesis using p promises_initialization_loaded [of a "{}" "{}" c r] by (simp add: OnReply k)
  next
    case False
    show ?thesis
    proof (cases "\<exists>r. removing r k")
      case True
      then obtain i r rs where k: "k = AtRemoveWindow i r rs \<or> k = AtRemoveWindowLoaded i r rs"
        by (cases k) auto
      obtain q where q: "reply = StatesReply q" "k = AtRemoveWindowLoaded i r rs"
        using m k by (cases reply) (auto simp: OnReply elim: matches.elims)
      show ?thesis using p promises_removal_finished [of "{}" r "{}" c i rs] by (simp add: OnReply q)
    next
      case none: False
      then show ?thesis using False p handles_resume [OF m, of n c fails x] by (simp add: handles_def)
    qed
  qed
next
  case (OnInit b)
  show ?thesis
  proof (cases "\<exists>r. removing r k")
    case True
    then obtain i r rs where k: "k = AtRemoveWindow i r rs"
      using m by (cases k) (auto simp: OnInit)
    then show ?thesis using p promises_removal_initialized [of "{}" r "{}"] by (simp add: OnInit)
  next
    case False
    then have "{a. k = AtInitialization a} = {}" "{r. removing r k} = {}" using m by (auto simp: OnInit)
    then show ?thesis using p handles_resume [OF m, of n c fails x] by (simp add: handles_def)
  qed
next
  case (OnRemoval b)
  then have "{a. k = AtInitialization a} = {}" "{r. removing r k} = {}" using m by (cases k; simp)+
  then show ?thesis using p handles_resume [OF m, of n c fails x] by (simp add: handles_def)
next
  case OnAnswer
  then have "{a. k = AtInitialization a} = {}" "{r. removing r k} = {}" using m by (cases k; simp)+
  then show ?thesis using p handles_resume [OF m, of n c fails x] by (simp add: handles_def)
qed

lemma task_removed:
  assumes "i < length (tc_tasks c)" and "tc_tasks c ! i = (n, w, k)"
    and "c0 = c\<lparr>tc_tasks := take i (tc_tasks c) @ drop (Suc i) (tc_tasks c)\<rparr>"
  shows "accounts m c = accounts m c0 + (if n = m \<and> \<not> internal k then 1 else 0)"
    and "busy c = busy c0 + (if in_queue k then 1 else 0)"
    and "work c = work c0 + task_work (n, w, k)"
    and "tasks_match c \<longleftrightarrow> tasks_match c0 \<and> matches w k"
    and "promises_ok {} {} c \<Longrightarrow> promises_ok {a. k = AtInitialization a} {r. removing r k} c0"
    and "tc_calls c0 = tc_calls c" and "tc_running c0 = tc_running c"
proof -
  define xs ys where "xs = take i (tc_tasks c)" and "ys = drop (Suc i) (tc_tasks c)"
  have t: "tc_tasks c = xs @ (n, w, k) # ys"
    using id_take_nth_drop [OF assms(1)] assms(2) by (simp add: xs_def ys_def)
  have t0: "tc_tasks c0 = xs @ ys" by (simp add: assms(3) xs_def ys_def)
  have r0: "tc_queue c0 = tc_queue c" "tc_log c0 = tc_log c" "tc_running c0 = tc_running c"
    "tc_attempts c0 = tc_attempts c" "tc_removalSettled c0 = tc_removalSettled c"
    "tc_windowRemovals c0 = tc_windowRemovals c" "tc_initialization c0 = tc_initialization c"
    "tc_calls c0 = tc_calls c"
    by (simp_all add: assms(3))
  show "accounts m c = accounts m c0 + (if n = m \<and> \<not> internal k then 1 else 0)"
    "busy c = busy c0 + (if in_queue k then 1 else 0)" "work c = work c0 + task_work (n, w, k)"
    "tasks_match c \<longleftrightarrow> tasks_match c0 \<and> matches w k" "tc_calls c0 = tc_calls c" "tc_running c0 = tc_running c"
    by (auto simp: accounts_def busy_def queue_tasks_def work_def tasks_match_def t t0 r0)
  have b: "wait_bounded c0 x = wait_bounded c x" for x by (rule wait_bounded_cong) (simp_all add: r0)
  show "promises_ok {} {} c \<Longrightarrow> promises_ok {a. k = AtInitialization a} {r. removing r k} c0"
    unfolding promises_ok_def t t0 r0 b set_append list.set ball_Un bex_Un by simp blast
qed

lemma busy_running: "busy c = 1 \<Longrightarrow> 0 < queue_tasks c \<Longrightarrow> tc_running c"
  by (simp add: busy_def split: if_splits)

lemma cont_work_pos: "0 < cont_work k"
  by (cases k) simp_all

lemma task_work_pos: "0 < task_work t"
  using cont_work_pos by (cases t rule: task_work.cases) simp_all

lemma resume_inv:
  assumes "accounts_inv c" and "i < length (tc_tasks c)" and "tc_tasks c ! i = (n, w, k)"
    and "c0 = c\<lparr>tc_tasks := take i (tc_tasks c) @ drop (Suc i) (tc_tasks c)\<rparr>"
  shows "accounts_inv (resume fails a n w k c0) \<and> work (resume fails a n w k c0) < work c"
proof -
  note t = task_removed [OF assms(2-4)]
  have m: "matches w k" and p: "promises_ok {} {} c" and b: "busy c = 1"
    using assms(1) t(4) by (simp_all add: accounts_inv_def)
  have "(n, w, k) \<in> set (tc_tasks c)" using assms(2,3) nth_mem by metis
  then have q: "in_queue k \<Longrightarrow> 0 < queue_tasks c"
    by (auto simp: queue_tasks_def filter_empty_conv)
  then have "in_queue k \<longrightarrow> tc_running c0" using busy_running [OF b] t(7) by blast
  then show ?thesis
    using handles_resume [OF m, of n c0 fails a] promises_resume [OF m t(5) [OF p], of fails a n] assms(1) t
      task_work_pos [of "(n, w, k)"]
    by (auto simp: handles_def accounts_inv_def)
qed

lemma start_inv:
  assumes "accounts_inv c" and "tc_queue c = (n, q) # rest" and "\<not> tc_running c"
    and "c0 = c\<lparr>tc_queue := rest, tc_running := True\<rparr>"
  shows "accounts_inv (start_queued n q c0) \<and> work (start_queued n q c0) < work c"
proof -
  have a: "accounts m c = accounts m c0 + (if n = m then 1 else 0)" for m
    using assms(2) by (simp add: accounts_def assms(4))
  have b: "busy c0 = 0" using assms(1,3) by (simp add: accounts_inv_def busy_def queue_tasks_def assms(4))
  have w: "work c = work c0 + queued_work (n, q)" using assms(2) by (simp add: work_def assms(4))
  have t: "tasks_match c0" using assms(1) by (simp add: accounts_inv_def tasks_match_def assms(4))
  have p: "promises_ok {} {} c0" using assms(1) by (simp add: accounts_inv_def assms(4))
  have c: "tc_calls c0 = tc_calls c" by (simp add: assms(4))
  have r: "tc_running c0" by (simp add: assms(4))
  have "0 < queued_work (n, q)" by (cases q) simp_all
  then show ?thesis
    using handles_start [of c0 n q, OF r] assms(1) a b w t p c r by (auto simp: handles_def accounts_inv_def)
qed

lemma call_inv:
  assumes "accounts_inv c"
  shows "accounts_inv (call_method (tc_calls c) m (c\<lparr>tc_calls := Suc (tc_calls c)\<rparr>))"
proof -
  define c0 where "c0 = c\<lparr>tc_calls := Suc (tc_calls c)\<rparr>"
  have "accounts x c0 = accounts x c" "busy c0 = busy c" "tasks_match c0 = tasks_match c" for x
    by (simp_all add: c0_def accounts_def busy_def queue_tasks_def tasks_match_def)
  moreover have "promises_ok {} {} c0" using assms by (simp add: c0_def accounts_inv_def)
  moreover have "tc_calls c0 = Suc (tc_calls c)" by (simp add: c0_def)
  ultimately show ?thesis using handles_call [of "tc_calls c" c0 m] assms
    unfolding c0_def [symmetric] by (auto simp: handles_def accounts_inv_def)
qed

lemma accounts_inv_step: "accounts_inv c \<Longrightarrow> accounts_inv (coordinator_step fails c x)"
proof (cases x)
  case (CallMethod m)
  assume "accounts_inv c"
  then show ?thesis using call_inv by (simp add: CallMethod)
next
  case (Resume i a)
  assume inv: "accounts_inv c"
  obtain n w k where t: "tc_tasks c ! i = (n, w, k)" by (cases "tc_tasks c ! i")
  show ?thesis using inv resume_inv [OF inv _ t refl] by (simp add: Resume t)
next
  case StartQueued
  assume inv: "accounts_inv c"
  then show ?thesis using start_inv [OF inv _ _ refl]
    by (auto simp: StartQueued split: list.split)
qed

lemma accounts_inv_new: "accounts_inv (new_coordinator st)"
  by (simp add: accounts_inv_def new_coordinator_def accounts_def tasks_match_def busy_def
      queue_tasks_def promises_ok_def)

interpretation coordinator_accounts: machine "coordinator_step fails" "new_coordinator st" accounts_inv
  for fails st
  by unfold_locales (simp_all add: accounts_inv_new accounts_inv_step)

subsection \<open>Every call settles\<close>

text \<open>The steps that are possible without a new call, and runs of them.\<close>

fun may_step :: "tab_coordinator \<Rightarrow> coordinator_action \<Rightarrow> bool" where
  "may_step c (CallMethod m) \<longleftrightarrow> False"
| "may_step c (Resume i a) \<longleftrightarrow> i < length (tc_tasks c) \<and> ready c (fst (snd (tc_tasks c ! i)))"
| "may_step c StartQueued \<longleftrightarrow> tc_queue c \<noteq> [] \<and> \<not> tc_running c"

fun enabled_run :: "(nat \<Rightarrow> bool) \<Rightarrow> tab_coordinator \<Rightarrow> coordinator_action list \<Rightarrow> bool" where
  "enabled_run fails c [] \<longleftrightarrow> True"
| "enabled_run fails c (x # xs) \<longleftrightarrow> may_step c x \<and> enabled_run fails (coordinator_step fails c x) xs"

definition settled_count :: "nat \<Rightarrow> tab_coordinator \<Rightarrow> nat" where
  "settled_count n c = length (filter (\<lambda>e. \<exists>r. e = Settled n r) (tc_log c))"

lemma may_step_work:
  assumes "accounts_inv c" and "may_step c x"
  shows "work (coordinator_step fails c x) < work c"
proof (cases x)
  case (CallMethod m)
  then show ?thesis using assms(2) by simp
next
  case (Resume i a)
  obtain n w k where t: "tc_tasks c ! i = (n, w, k)" by (cases "tc_tasks c ! i")
  then show ?thesis using resume_inv [OF assms(1) _ t refl] assms(2) by (simp add: Resume)
next
  case StartQueued
  then obtain n q rest where "tc_queue c = (n, q) # rest" "\<not> tc_running c"
    using assms(2) by (cases "tc_queue c") auto
  then show ?thesis using start_inv [OF assms(1) _ _ refl] by (simp add: StartQueued)
qed

lemma step_calls:
  assumes "accounts_inv c" and "may_step c x" shows "tc_calls (coordinator_step fails c x) = tc_calls c"
proof (cases x)
  case (CallMethod m)
  then show ?thesis using assms(2) by simp
next
  case (Resume i a)
  define c0 where "c0 = c\<lparr>tc_tasks := take i (tc_tasks c) @ drop (Suc i) (tc_tasks c)\<rparr>"
  obtain n w k where t: "tc_tasks c ! i = (n, w, k)" by (cases "tc_tasks c ! i")
  have "matches w k"
    using assms task_removed(4) [OF _ t refl] by (simp add: Resume accounts_inv_def)
  then have "tc_calls (resume fails a n w k c0) = tc_calls c0"
    using handles_resume [of w k n c0 fails a] by (simp add: handles_def)
  then show ?thesis using assms(2) by (simp add: Resume t c0_def)
next
  case StartQueued
  then obtain n q rest where q: "tc_queue c = (n, q) # rest" "\<not> tc_running c"
    using assms(2) by (cases "tc_queue c") auto
  define c0 where "c0 = c\<lparr>tc_queue := rest, tc_running := True\<rparr>"
  have "tc_calls (start_queued n q c0) = tc_calls c0"
    using handles_start [of c0 n q] by (simp add: handles_def c0_def)
  then show ?thesis using q by (simp add: StartQueued c0_def)
qed

lemma only_promises:
  assumes "matches w k" and "\<forall>a. w \<noteq> OnInit a" and "\<forall>r. w \<noteq> OnRemoval r"
  shows "ready c w"
  using assms by (cases w) auto

lemma promises_bounded: "promises_ok A R c \<Longrightarrow> t \<in> set (tc_tasks c) \<Longrightarrow> wait_bounded c (fst (snd t))"
  by (simp add: promises_ok_def)

lemma ready_exists:
  assumes "accounts_inv c" and "tc_tasks c \<noteq> []"
  shows "\<exists>t\<in>set (tc_tasks c). ready c (fst (snd t))"
proof (rule ccontr)
  assume "\<not> ?thesis"
  then have none: "\<not> ready c (fst (snd t))" if "t \<in> set (tc_tasks c)" for t using that by blast
  have m: "matches (fst (snd t)) (snd (snd t))" if "t \<in> set (tc_tasks c)" for t
    using assms(1) that by (auto simp: accounts_inv_def tasks_match_def list_all_iff)
  have p: "promises_ok {} {} c" using assms(1) by (simp add: accounts_inv_def)
  have no_init: "fst (snd t) \<noteq> OnInit a" if t: "t \<in> set (tc_tasks c)" for t a
  proof
    assume w: "fst (snd t) = OnInit a"
    then have "wait_bounded c (OnInit a)" using p t by (metis promises_bounded)
    then have "a < length (tc_attempts c)" "tc_attempts c ! a = None" using none [OF t] w by simp_all
    then obtain u where u: "u \<in> set (tc_tasks c)" "snd (snd u) = AtInitialization a"
      using p unfolding promises_ok_def by blast
    then show False using m [OF u(1)] none [OF u(1)] by (cases "fst (snd u)") auto
  qed
  have no_removal: "fst (snd t) \<noteq> OnRemoval r" if t: "t \<in> set (tc_tasks c)" for t r
  proof
    assume w: "fst (snd t) = OnRemoval r"
    then have "wait_bounded c (OnRemoval r)" using p t by (metis promises_bounded)
    then have "r < length (tc_removalSettled c)" "\<not> tc_removalSettled c ! r" using none [OF t] w by simp_all
    then obtain u where u: "u \<in> set (tc_tasks c)" "removing r (snd (snd u))"
      using p unfolding promises_ok_def by blast
    have "\<not> awaits_removal (snd (snd u))" using u(2) by (cases "snd (snd u)") auto
    then show False using m [OF u(1)] none [OF u(1)] no_init [OF u(1)] by (cases "fst (snd u)") auto
  qed
  obtain t where t: "t \<in> set (tc_tasks c)" using assms(2) by (cases "tc_tasks c") auto
  show False using only_promises [OF m [OF t], of c] no_init [OF t] no_removal [OF t] none [OF t] by blast
qed

lemma stuck_is_settled:
  assumes "accounts_inv c" and "\<And>x. \<not> may_step c x"
  shows "tc_tasks c = [] \<and> tc_queue c = [] \<and> (\<forall>n<tc_calls c. settled_count n c = 1)"
proof -
  have t: "tc_tasks c = []"
  proof (rule ccontr)
    assume "tc_tasks c \<noteq> []"
    then obtain t where "t \<in> set (tc_tasks c)" "ready c (fst (snd t))" using ready_exists assms(1) by blast
    then obtain i where "i < length (tc_tasks c)" "ready c (fst (snd (tc_tasks c ! i)))"
      by (auto simp: in_set_conv_nth)
    then show False using assms(2) [of "Resume i Throws"] by simp
  qed
  have "\<not> tc_running c" using assms(1) t by (auto simp: accounts_inv_def busy_def queue_tasks_def split: if_splits)
  then have q: "tc_queue c = []" using assms(2) [of StartQueued] by simp
  have "settled_count n c = 1" if "n < tc_calls c" for n
    using assms(1) that t q by (auto simp: accounts_inv_def accounts_def settled_count_def dest: spec [of _ n])
  then show ?thesis using t q by blast
qed

lemma enabled_run_inv:
  "accounts_inv c \<Longrightarrow> enabled_run fails c xs \<Longrightarrow>
   accounts_inv (run_coordinator fails c xs) \<and> tc_calls (run_coordinator fails c xs) = tc_calls c \<and>
   length xs + work (run_coordinator fails c xs) \<le> work c"
proof (induction xs arbitrary: c)
  case (Cons x xs)
  have s: "may_step c x" "enabled_run fails (coordinator_step fails c x) xs" using Cons.prems by simp_all
  have "accounts_inv (coordinator_step fails c x)" using Cons.prems(1) by (rule accounts_inv_step)
  then show ?case
    using Cons.IH [of "coordinator_step fails c x"] s may_step_work [OF Cons.prems(1) s(1), of fails]
      step_calls [OF Cons.prems(1) s(1), of fails]
    by (simp add: run_coordinator_def)
qed (simp add: run_coordinator_def)

lemma run_accounts: "accounts_inv (run_coordinator fails (new_coordinator st) xs)"
  unfolding run_coordinator_def by (rule coordinator_accounts.inv_run)

text \<open>C24:
  The coordinator never runs forever: whatever calls were made, in whatever order their segments
  ran and whatever the storage and the callbacks answered, from then on only a bounded number of
  steps is possible until the next call, and the bound \<open>work\<close> gets smaller with each of them.
\<close>
theorem coordinator_terminates:
  assumes "enabled_run fails (run_coordinator fails (new_coordinator st) calls) steps"
  shows "length steps \<le> work (run_coordinator fails (new_coordinator st) calls)"
  using enabled_run_inv [OF run_accounts assms] by linarith

text \<open>C23:
  No call hangs: however a run goes on without new calls, when no step is possible any more (and
  by the termination property that is after finitely many) nothing waits, the queue is empty and
  every call that was ever made has settled, exactly once.
\<close>
theorem every_call_settles:
  assumes "enabled_run fails (run_coordinator fails (new_coordinator st) calls) steps"
    and "c = run_coordinator fails (run_coordinator fails (new_coordinator st) calls) steps"
    and "\<forall>x. \<not> may_step c x"
  shows "tc_tasks c = [] \<and> tc_queue c = [] \<and>
    (\<forall>n<tc_calls (run_coordinator fails (new_coordinator st) calls). settled_count n c = 1)"
  using stuck_is_settled [of c] enabled_run_inv [OF run_accounts assms(1)] assms(2,3) by simp

text \<open>A first call on a storage with left-overs: it is initialized in three steps.\<close>

definition example_start :: tab_coordinator where
  "example_start = run_coordinator (\<lambda>n. False) (new_coordinator example_store) [CallMethod Initialize]"

definition example_steps :: "coordinator_action list" where
  "example_steps = [Resume 0 Throws, Resume 1 Throws, Resume 0 Throws]"

lemma example_start_eq: "example_start = (new_coordinator example_store)\<lparr>tc_initialization := Some 0,
    tc_attempts := [None], tc_calls := 1, tc_tasks := [(0, OnStore LoadAllStates, AtInitialization 0), (0, OnInit 0, AtInitialize)]\<rparr>"
  by (simp add: example_start_def run_coordinator_def await_initialized_def ensureInitialized_def
      Let_def spawn_def new_coordinator_def)

lemma example_steps_run:
  "enabled_run (\<lambda>n. False) example_start example_steps \<and>
   tc_tasks (run_coordinator (\<lambda>n. False) example_start example_steps) = [] \<and>
   tc_queue (run_coordinator (\<lambda>n. False) example_start example_steps) = [] \<and>
   tc_log (run_coordinator (\<lambda>n. False) example_start example_steps) = [Settled 0 CallDone]"
  by (simp add: example_start_eq example_steps_def run_coordinator_def new_coordinator_def example_load
      spawn_def initialization_loaded_def settle_call_def log_event_def)

theorem coordinator_terminates_witness: "3 \<le> work example_start"
  using coordinator_terminates [of "\<lambda>n. False" example_store "[CallMethod Initialize]" example_steps,
      folded example_start_def, OF example_steps_run [THEN conjunct1]]
  by (simp add: example_steps_def)

theorem every_call_settles_witness:
  "settled_count 0 (run_coordinator (\<lambda>n. False) example_start example_steps) = 1"
proof -
  have stuck: "\<forall>x. \<not> may_step (run_coordinator (\<lambda>n. False) example_start example_steps) x"
  proof
    fix x show "\<not> may_step (run_coordinator (\<lambda>n. False) example_start example_steps) x"
      using example_steps_run by (cases x) simp_all
  qed
  have "tc_calls example_start = 1" by (simp add: example_start_eq)
  then show ?thesis
    using every_call_settles [OF example_steps_run [THEN conjunct1, unfolded example_start_def] refl
        stuck [unfolded example_start_def]]
    by (simp add: example_start_def)
qed

end
