(* ===== verification/Refresh_Core.thy ===== *)
theory Refresh_Core
  imports Refresh_Accounts
begin

text \<open>
  Who may refresh: along every run of the tab refresh coordinator a participant has an open panel
  in the same window, a tab that was removed has neither, and an operation that is still pending
  belongs to the current panel of its tab. \<open>core_ok\<close> states this of a state, \<open>later\<close> what can
  become of lifecycles and operations between two steps.
\<close>

declare map_of_eq_Some_iff [simp del]

subsection \<open>The invariant\<close>

abbreviation panel :: "tab_coordinator \<Rightarrow> int \<Rightarrow> int option" where
  "panel c t \<equiv> jget (tc_panelWindows c) t"

abbreviation participant :: "tab_coordinator \<Rightarrow> int \<Rightarrow> int option" where
  "participant c t \<equiv> jget (tc_participantWindows c) t"

abbreviation pending :: "tab_coordinator \<Rightarrow> int \<Rightarrow> nat option" where
  "pending c t \<equiv> jget (tc_pendingRefreshes c) t"

abbreviation oper :: "tab_coordinator \<Rightarrow> nat \<Rightarrow> tab_refresh_operation" where
  "oper c i \<equiv> tc_operations c ! i"

text \<open>A tab between two steps, and in the middle of one, when its lifecycle has just advanced.\<close>

definition tab_weak :: "tab_coordinator \<Rightarrow> int \<Rightarrow> bool" where
  "tab_weak c t \<longleftrightarrow>
     (participant c t \<noteq> None \<longrightarrow> participant c t = panel c t) \<and>
     (\<forall>i. pending c t = Some i \<longrightarrow> i < length (tc_operations c) \<and> \<not> to_completed (oper c i) \<and>
        panel c t = Some (to_windowId (oper c i))) \<and>
     (panel c t \<noteq> None \<longrightarrow> 0 < lifecycleRevision c t)"

definition tab_ok :: "tab_coordinator \<Rightarrow> int \<Rightarrow> bool" where
  "tab_ok c t \<longleftrightarrow> tab_weak c t \<and> (t \<in> set (tc_terminalTabs c) \<longrightarrow> panel c t = None) \<and>
     (\<forall>i. pending c t = Some i \<longrightarrow> lifecycleRevision c t = to_revision (oper c i))"

definition indexes_ok :: "tab_coordinator \<Rightarrow> bool" where
  "indexes_ok c \<longleftrightarrow> (\<forall>t. lifecycleRevision c t < tc_nextLifecycleRevision c) \<and>
     (\<forall>t u i. pending c t = Some i \<longrightarrow> pending c u = Some i \<longrightarrow> t = u) \<and>
     (\<forall>i<length (tc_operations c). \<not> to_completed (oper c i) \<longrightarrow> (\<exists>t. pending c t = Some i)) \<and>
     distinct (jkeys (tc_pendingRefreshes c)) \<and> distinct (jkeys (tc_panelWindows c)) \<and>
     distinct (jkeys (tc_participantWindows c))"

definition core_but :: "int \<Rightarrow> tab_coordinator \<Rightarrow> bool" where
  "core_but t c \<longleftrightarrow> indexes_ok c \<and> tab_weak c t \<and> (\<forall>u. u \<noteq> t \<longrightarrow> tab_ok c u)"

definition core_ok :: "tab_coordinator \<Rightarrow> bool" where
  "core_ok c \<longleftrightarrow> indexes_ok c \<and> (\<forall>t. tab_ok c t)"

lemma core_ok_but: "core_ok c \<Longrightarrow> core_but t c"
  by (simp add: core_ok_def core_but_def tab_ok_def)

subsection \<open>What may change\<close>

definition later :: "tab_coordinator \<Rightarrow> tab_coordinator \<Rightarrow> bool" where
  "later c c' \<longleftrightarrow> tc_nextLifecycleRevision c \<le> tc_nextLifecycleRevision c' \<and>
     (\<forall>t. 0 < lifecycleRevision c' t \<longrightarrow> lifecycleRevision c' t < tc_nextLifecycleRevision c \<longrightarrow>
        lifecycleRevision c' t = lifecycleRevision c t \<and> (panel c' t = panel c t \<or> panel c' t = None)) \<and>
     length (tc_operations c) \<le> length (tc_operations c') \<and>
     (\<forall>i<length (tc_operations c).
        to_windowId (oper c' i) = to_windowId (oper c i) \<and>
        to_revision (oper c' i) = to_revision (oper c i) \<and>
        to_pending (oper c' i) = to_pending (oper c i) \<and>
        to_onTabCompleted (oper c' i) = to_onTabCompleted (oper c i) \<and>
        (to_completed (oper c i) \<longrightarrow> to_completed (oper c' i)) \<and>
        (to_phase (oper c i) = PhaseDispatching \<longrightarrow> to_phase (oper c' i) = PhaseDispatching) \<and>
        (\<forall>t. pending c' t = Some i \<longrightarrow> pending c t = Some i)) \<and>
     set (tc_terminalTabs c) \<subseteq> set (tc_terminalTabs c')"

lemma later_refl [simp]: "later c c"
  by (simp add: later_def)

lemma later_trans:
  assumes a: "later c c1" and b: "later c1 c2" shows "later c c2"
proof -
  have "lifecycleRevision c2 t = lifecycleRevision c t \<and> (panel c2 t = panel c t \<or> panel c2 t = None)"
    if r: "0 < lifecycleRevision c2 t" "lifecycleRevision c2 t < tc_nextLifecycleRevision c" for t
  proof -
    have "tc_nextLifecycleRevision c \<le> tc_nextLifecycleRevision c1" using a by (simp add: later_def)
    then have e: "lifecycleRevision c2 t = lifecycleRevision c1 t" "panel c2 t = panel c1 t \<or> panel c2 t = None"
      using b r unfolding later_def by (meson less_le_trans)+
    then have "lifecycleRevision c1 t = lifecycleRevision c t \<and> (panel c1 t = panel c t \<or> panel c1 t = None)"
      using a r unfolding later_def by metis
    then show ?thesis using e by auto
  qed
  then show ?thesis using a b unfolding later_def by (auto intro: le_trans dest: less_le_trans)
qed

text \<open>States that agree on the tabs.\<close>

definition tabs where
  "tabs c = (tc_panelWindows c, tc_participantWindows c, tc_pendingRefreshes c, tc_operations c,
     tc_lifecycleRevisions c, tc_nextLifecycleRevision c, tc_terminalTabs c)"

lemma tabs_revision: "tabs c' = tabs c \<Longrightarrow> lifecycleRevision c' t = lifecycleRevision c t"
  by (simp add: tabs_def lifecycleRevision_def)

lemma tabs_core:
  assumes "tabs c' = tabs c" shows "core_ok c' = core_ok c" and "core_but t c' = core_but t c"
  using assms tabs_revision [OF assms]
  by (simp_all add: core_ok_def core_but_def indexes_ok_def tab_ok_def tab_weak_def tabs_def)

lemma tabs_later: assumes "tabs c' = tabs c" shows "later c c'"
  using assms tabs_revision [OF assms] by (simp add: later_def tabs_def)

lemma tabs_simps [simp]:
  "tabs (spawn n w k c) = tabs c" "tabs (settle_call n r c) = tabs c" "tabs (log_event e c) = tabs c"
  "tabs (finish_queued n r c) = tabs c" "tabs (enqueue n q c) = tabs c" "tabs (setParticipant v t b' c) = tabs c"
  "tabs (c\<lparr>tc_watermarks := wm\<rparr>) = tabs c" "tabs (c\<lparr>tc_store := st\<rparr>) = tabs c"
  "tabs (c\<lparr>tc_tasks := ts\<rparr>) = tabs c" "tabs (c\<lparr>tc_running := b\<rparr>) = tabs c"
  "tabs (c\<lparr>tc_attempts := xs\<rparr>) = tabs c" "tabs (c\<lparr>tc_windowRemovals := ws\<rparr>) = tabs c"
  "tabs (c\<lparr>tc_removalSettled := rs\<rparr>) = tabs c" "tabs (c\<lparr>tc_initialization := x\<rparr>) = tabs c"
  "tabs (c\<lparr>tc_queue := qs\<rparr>) = tabs c" "tabs (c\<lparr>tc_calls := m\<rparr>) = tabs c"
  "tabs (await_initialized n k c) = tabs c"
  by (simp_all add: tabs_def spawn_def settle_call_def log_event_def finish_queued_def enqueue_def
      setParticipant_def await_initialized_def ensureInitialized_def Let_def split: option.split)

subsection \<open>Steps on one tab\<close>

lemma panel_clear: "panel (clearPanelWindow t x c) u =
    (if u = t \<and> (x = None \<or> x = panel c t) then None else panel c u)"
  by (auto simp: clearPanelWindow_def split: option.split)

lemma clear_fields [simp]:
  "tc_participantWindows (clearPanelWindow t x c) = tc_participantWindows c"
  "tc_pendingRefreshes (clearPanelWindow t x c) = tc_pendingRefreshes c"
  "tc_operations (clearPanelWindow t x c) = tc_operations c"
  "tc_lifecycleRevisions (clearPanelWindow t x c) = tc_lifecycleRevisions c"
  "tc_nextLifecycleRevision (clearPanelWindow t x c) = tc_nextLifecycleRevision c"
  "tc_terminalTabs (clearPanelWindow t x c) = tc_terminalTabs c"
  by (simp_all add: clearPanelWindow_def split: option.split)

lemma participant_revoke: "participant (snd (revokeIndexedParticipant t x c)) u =
    (if u = t \<and> (x = None \<or> x = participant c t) then None else participant c u)"
  by (auto simp: revokeIndexedParticipant_def setParticipant_def log_event_def split: option.split)

lemma revoke_fields [simp]:
  "tc_panelWindows (snd (revokeIndexedParticipant t x c)) = tc_panelWindows c"
  "tc_pendingRefreshes (snd (revokeIndexedParticipant t x c)) = tc_pendingRefreshes c"
  "tc_operations (snd (revokeIndexedParticipant t x c)) = tc_operations c"
  "tc_lifecycleRevisions (snd (revokeIndexedParticipant t x c)) = tc_lifecycleRevisions c"
  "tc_nextLifecycleRevision (snd (revokeIndexedParticipant t x c)) = tc_nextLifecycleRevision c"
  "tc_terminalTabs (snd (revokeIndexedParticipant t x c)) = tc_terminalTabs c"
  by (simp_all add: revokeIndexedParticipant_def setParticipant_def log_event_def split: option.split)

lemma participant_grant: "participant (grantParticipant w t c) u = (if u = t then Some w else participant c u)"
  by (auto simp: grantParticipant_def setParticipant_def log_event_def Let_def split: option.split)

lemma grant_fields [simp]:
  "tc_panelWindows (grantParticipant w t c) = tc_panelWindows c"
  "tc_pendingRefreshes (grantParticipant w t c) = tc_pendingRefreshes c"
  "tc_operations (grantParticipant w t c) = tc_operations c"
  "tc_lifecycleRevisions (grantParticipant w t c) = tc_lifecycleRevisions c"
  "tc_nextLifecycleRevision (grantParticipant w t c) = tc_nextLifecycleRevision c"
  "tc_terminalTabs (grantParticipant w t c) = tc_terminalTabs c"
  by (simp_all add: grantParticipant_def setParticipant_def log_event_def Let_def split: option.split)

lemma complete_fields [simp]:
  "tc_panelWindows (completeTabRefresh t i b c) = tc_panelWindows c"
  "tc_participantWindows (completeTabRefresh t i b c) = tc_participantWindows c"
  "tc_lifecycleRevisions (completeTabRefresh t i b c) = tc_lifecycleRevisions c"
  "tc_nextLifecycleRevision (completeTabRefresh t i b c) = tc_nextLifecycleRevision c"
  "tc_terminalTabs (completeTabRefresh t i b c) = tc_terminalTabs c"
  by (simp_all add: completeTabRefresh_def log_event_def Let_def)

lemma pending_complete: "pending (completeTabRefresh t i b c) u =
    (if u = t \<and> pending c t = Some i \<and> \<not> to_completed (oper c i) then None else pending c u)"
  by (auto simp: completeTabRefresh_def log_event_def Let_def)

lemma keys_complete: "distinct (jkeys (tc_pendingRefreshes c)) \<Longrightarrow>
    distinct (jkeys (tc_pendingRefreshes (completeTabRefresh t i b c)))"
  by (simp add: completeTabRefresh_def log_event_def Let_def)

lemma keys_simps [simp]:
  "distinct (jkeys (tc_panelWindows c)) \<Longrightarrow> distinct (jkeys (tc_panelWindows (clearPanelWindow t x c)))"
  "distinct (jkeys (tc_participantWindows c)) \<Longrightarrow>
    distinct (jkeys (tc_participantWindows (snd (revokeIndexedParticipant t x c))))"
  "distinct (jkeys (tc_participantWindows c)) \<Longrightarrow>
    distinct (jkeys (tc_participantWindows (grantParticipant w t c)))"
  by (simp_all add: clearPanelWindow_def revokeIndexedParticipant_def grantParticipant_def setParticipant_def
      log_event_def Let_def split: option.split)

lemma operations_complete: "tc_operations (completeTabRefresh t i b c) =
    (if to_completed (oper c i) then tc_operations c
     else (tc_operations c)[i := (oper c i)\<lparr>to_completed := True\<rparr>])"
  by (simp add: completeTabRefresh_def log_event_def Let_def)

lemma oper_complete: "j < length (tc_operations c) \<Longrightarrow> oper (completeTabRefresh t i b c) j =
    (if j = i then (oper c i)\<lparr>to_completed := True\<rparr> else oper c j)"
  by (auto simp: operations_complete)

lemma length_complete [simp]: "length (tc_operations (completeTabRefresh t i b c)) = length (tc_operations c)"
  by (simp add: operations_complete)

lemma revision_cong: "tc_lifecycleRevisions c' = tc_lifecycleRevisions c \<Longrightarrow>
    lifecycleRevision c' t = lifecycleRevision c t"
  by (simp add: lifecycleRevision_def)

lemma revision_simps [simp]:
  "lifecycleRevision (clearPanelWindow t x c) u = lifecycleRevision c u"
  "lifecycleRevision (snd (revokeIndexedParticipant t x c)) u = lifecycleRevision c u"
  "lifecycleRevision (grantParticipant w t c) u = lifecycleRevision c u"
  "lifecycleRevision (completeTabRefresh t i b c) u = lifecycleRevision c u"
  "lifecycleRevision (snd (advanceLifecycle t c)) u =
     (if u = t then tc_nextLifecycleRevision c else lifecycleRevision c u)"
  by (simp_all add: lifecycleRevision_def advanceLifecycle_def Let_def)

lemma revision_retire: "lifecycleRevision (retireLifecycle t r c) u =
    (if u = t \<and> lifecycleRevision c t = r then 0 else lifecycleRevision c u)"
  by (simp add: retireLifecycle_def isCurrentLifecycle_def lifecycleRevision_def)

lemma advance_fields [simp]:
  "tc_panelWindows (snd (advanceLifecycle t c)) = tc_panelWindows c"
  "tc_participantWindows (snd (advanceLifecycle t c)) = tc_participantWindows c"
  "tc_pendingRefreshes (snd (advanceLifecycle t c)) = tc_pendingRefreshes c"
  "tc_operations (snd (advanceLifecycle t c)) = tc_operations c"
  "tc_nextLifecycleRevision (snd (advanceLifecycle t c)) = Suc (tc_nextLifecycleRevision c)"
  "tc_terminalTabs (snd (advanceLifecycle t c)) = tc_terminalTabs c"
  "fst (advanceLifecycle t c) = tc_nextLifecycleRevision c"
  by (simp_all add: advanceLifecycle_def Let_def)

lemma retire_fields [simp]:
  "tc_panelWindows (retireLifecycle t r c) = tc_panelWindows c"
  "tc_participantWindows (retireLifecycle t r c) = tc_participantWindows c"
  "tc_pendingRefreshes (retireLifecycle t r c) = tc_pendingRefreshes c"
  "tc_operations (retireLifecycle t r c) = tc_operations c"
  "tc_nextLifecycleRevision (retireLifecycle t r c) = tc_nextLifecycleRevision c"
  "tc_terminalTabs (retireLifecycle t r c) = tc_terminalTabs c"
  by (simp_all add: retireLifecycle_def)

subsection \<open>Steps keep the invariant\<close>

lemma advance_core:
  assumes "core_ok c" shows "core_but t (snd (advanceLifecycle t c)) \<and> later c (snd (advanceLifecycle t c))"
proof -
  have "0 < tc_nextLifecycleRevision c"
    using assms unfolding core_ok_def indexes_ok_def by (metis gr_zeroI not_less_zero)
  then show ?thesis using assms
    by (auto simp: core_ok_def core_but_def indexes_ok_def tab_ok_def tab_weak_def later_def less_Suc_eq)
qed

lemma complete_pending:
  assumes ix: "indexes_ok c" and p: "pending c t = Some i" and n: "\<not> to_completed (oper c i)"
    and q: "pending (completeTabRefresh t i b c) v = Some j"
  shows "j \<noteq> i \<and> pending c v = Some j \<and> v \<noteq> t"
proof (cases "v = t")
  case True
  then show ?thesis using q p n by (simp add: pending_complete)
next
  case False
  then have v: "pending c v = Some j" using q by (simp add: pending_complete)
  then have "j \<noteq> i" using ix p False unfolding indexes_ok_def by blast
  then show ?thesis using v False by simp
qed

lemma complete_indexes:
  assumes ix: "indexes_ok c" and p: "pending c t = Some i" and n: "\<not> to_completed (oper c i)"
  shows "indexes_ok (completeTabRefresh t i b c)"
  unfolding indexes_ok_def
proof (intro conjI allI impI)
  fix j assume j: "j < length (tc_operations (completeTabRefresh t i b c))"
    "\<not> to_completed (oper (completeTabRefresh t i b c) j)"
  then have "j \<noteq> i" "\<not> to_completed (oper c j)" by (auto simp: oper_complete split: if_splits)
  then obtain v where "pending c v = Some j" using ix j(1) unfolding indexes_ok_def by auto
  then show "\<exists>u. pending (completeTabRefresh t i b c) u = Some j"
    using \<open>j \<noteq> i\<close> p by (intro exI [of _ v]) (auto simp: pending_complete)
next
  fix u v j assume "pending (completeTabRefresh t i b c) u = Some j" "pending (completeTabRefresh t i b c) v = Some j"
  then show "u = v" using complete_pending [OF ix p n] ix unfolding indexes_ok_def by blast
qed (use ix in \<open>auto simp: indexes_ok_def keys_complete\<close>)

lemma complete_other:
  assumes ix: "indexes_ok c" and p: "pending c t = Some i" and n: "\<not> to_completed (oper c i)"
    and v: "v \<noteq> t" "tab_ok c v"
  shows "tab_ok (completeTabRefresh t i b c) v"
  using v complete_pending [OF ix p n, of b v] unfolding tab_ok_def tab_weak_def
  by (auto simp: oper_complete dest: spec [of _ v])

lemma complete_later:
  assumes ix: "indexes_ok c" and p: "pending c t = Some i" and n: "\<not> to_completed (oper c i)"
  shows "later c (completeTabRefresh t i b c)"
  using complete_pending [OF ix p n] by (auto simp: later_def oper_complete)

lemma complete_done: "to_completed (oper c i) \<Longrightarrow> completeTabRefresh t i b c = c"
  by (simp add: completeTabRefresh_def)

lemma tab_ok_without:
  assumes "tab_ok c t" and "panel c' t = panel c t" and "participant c' t = participant c t"
    and "lifecycleRevision c' t = lifecycleRevision c t" and "tc_terminalTabs c' = tc_terminalTabs c"
    and "pending c' t = None"
  shows "tab_ok c' t"
  using assms by (simp add: tab_ok_def tab_weak_def)

lemma complete_core:
  assumes c: "core_ok c" and i: "to_completed (oper c i) \<or> pending c t = Some i"
  shows "core_ok (completeTabRefresh t i b c) \<and> later c (completeTabRefresh t i b c)"
proof (cases "to_completed (oper c i)")
  case True
  then show ?thesis using c by (simp add: complete_done)
next
  case False
  then have p: "pending c t = Some i" using i by simp
  have ix: "indexes_ok c" using c by (simp add: core_ok_def)
  have "tab_ok c t" using c by (simp add: core_ok_def)
  then have "tab_ok (completeTabRefresh t i b c) t"
    by (rule tab_ok_without) (simp_all add: pending_complete p False)
  then have "tab_ok (completeTabRefresh t i b c) v" for v
    using complete_other [OF ix p False, of v b] c by (cases "v = t") (auto simp: core_ok_def)
  then show ?thesis using complete_indexes [OF ix p False] complete_later [OF ix p False] by (simp add: core_ok_def)
qed

lemma cancel_core:
  assumes "core_ok c" shows "core_ok (cancelTabRefresh t c) \<and> later c (cancelTabRefresh t c)"
  using assms complete_core [OF assms] by (auto simp: cancelTabRefresh_def split: option.split)

definition unfinished :: "tab_coordinator \<Rightarrow> int \<Rightarrow> bool" where
  "unfinished c t \<longleftrightarrow> (\<forall>i. pending c t = Some i \<longrightarrow> \<not> to_completed (oper c i))"

lemma cancel_indexes: "indexes_ok c \<Longrightarrow> unfinished c t \<Longrightarrow>
    indexes_ok (cancelTabRefresh t c) \<and> later c (cancelTabRefresh t c) \<and>
    (\<forall>v. v \<noteq> t \<longrightarrow> tab_ok c v \<longrightarrow> tab_ok (cancelTabRefresh t c) v) \<and>
    pending (cancelTabRefresh t c) t = None"
  using complete_indexes [of c t] complete_later [of c t] complete_other [of c t]
  by (auto simp: cancelTabRefresh_def unfinished_def pending_complete split: option.split)

lemma cancel_fields [simp]:
  "tc_panelWindows (cancelTabRefresh t c) = tc_panelWindows c"
  "tc_participantWindows (cancelTabRefresh t c) = tc_participantWindows c"
  "tc_lifecycleRevisions (cancelTabRefresh t c) = tc_lifecycleRevisions c"
  "tc_nextLifecycleRevision (cancelTabRefresh t c) = tc_nextLifecycleRevision c"
  "tc_terminalTabs (cancelTabRefresh t c) = tc_terminalTabs c"
  "lifecycleRevision (cancelTabRefresh t c) u = lifecycleRevision c u"
  by (simp_all add: cancelTabRefresh_def split: option.split)

lemma pending_cancel: "core_ok c \<Longrightarrow> pending (cancelTabRefresh t c) t = None"
  using cancel_indexes [of c t] by (auto simp: core_ok_def tab_ok_def tab_weak_def unfinished_def)

text \<open>A tab leaves its window: panel, operation and participation go together.\<close>

abbreviation leave :: "int \<Rightarrow> int option \<Rightarrow> tab_coordinator \<Rightarrow> tab_coordinator" where
  "leave t x c \<equiv> snd (revokeIndexedParticipant t x (cancelTabRefresh t (clearPanelWindow t x c)))"

lemma leave_core:
  assumes "core_but t c" and "x = None \<or> (t \<in> set (tc_terminalTabs c) \<longrightarrow> panel c t = None)"
  shows "core_ok (leave t x c) \<and> later c (leave t x c)"
proof -
  define c1 where "c1 = clearPanelWindow t x c"
  define c2 where "c2 = cancelTabRefresh t c1"
  have ix: "indexes_ok c1" using assms by (simp add: c1_def core_but_def indexes_ok_def)
  have un: "unfinished c1 t" using assms by (auto simp: c1_def core_but_def tab_weak_def unfinished_def)
  have others: "tab_ok c1 v" if "v \<noteq> t" for v
    using assms that by (auto simp: c1_def core_but_def tab_ok_def tab_weak_def panel_clear)
  have l1: "later c c1" by (auto simp: c1_def later_def panel_clear)
  note k = cancel_indexes [OF ix un, folded c2_def]
  have p2: "panel c2 u = panel c1 u" "participant c2 u = participant c u"
    "lifecycleRevision c2 u = lifecycleRevision c u" "tc_terminalTabs c2 = tc_terminalTabs c" for u
    by (simp_all add: c2_def c1_def)
  have "tab_ok (leave t x c) v" for v
  proof (cases "v = t")
    case True
    have "tab_weak c t" using assms(1) by (simp add: core_but_def)
    moreover have "pending c2 t = None" using k by blast
    ultimately show ?thesis using True assms(2)
      unfolding c1_def [symmetric] c2_def [symmetric]
      by (cases "x = None \<or> x = panel c t"; cases "participant c t")
        (simp_all add: tab_ok_def tab_weak_def participant_revoke p2 c1_def panel_clear, auto)
  next
    case False
    then have "tab_ok c2 v" using k others by blast
    then show ?thesis using False unfolding c1_def [symmetric] c2_def [symmetric]
      by (simp add: tab_ok_def tab_weak_def participant_revoke)
  qed
  moreover have "indexes_ok (leave t x c)"
    using k unfolding c1_def [symmetric] c2_def [symmetric] by (simp add: indexes_ok_def)
  moreover have "later c2 (leave t x c)"
    unfolding c1_def [symmetric] c2_def [symmetric] by (simp add: later_def)
  ultimately show ?thesis using later_trans [OF l1] later_trans k unfolding core_ok_def by blast
qed

lemma leave_fields:
  "panel (leave t x c) u = (if u = t \<and> (x = None \<or> x = panel c t) then None else panel c u)"
  "lifecycleRevision (leave t x c) u = lifecycleRevision c u"
  "tc_nextLifecycleRevision (leave t x c) = tc_nextLifecycleRevision c"
  "tc_terminalTabs (leave t x c) = tc_terminalTabs c"
  by (simp_all add: panel_clear)

lemma revoke_core:
  assumes "core_ok c"
  shows "core_ok (snd (revokeIndexedParticipant t x c)) \<and> later c (snd (revokeIndexedParticipant t x c))"
  using assms by (auto simp: core_ok_def indexes_ok_def tab_ok_def tab_weak_def later_def participant_revoke)

lemma grant_core:
  assumes "core_ok c" and "panel c t = Some w"
  shows "core_ok (grantParticipant w t c) \<and> later c (grantParticipant w t c)"
  using assms by (auto simp: core_ok_def indexes_ok_def tab_ok_def tab_weak_def later_def participant_grant)

lemma retire_core:
  assumes c: "core_ok c" and p: "lifecycleRevision c t = r \<longrightarrow> panel c t = None" and r: "0 < r"
  shows "core_ok (retireLifecycle t r c) \<and> later c (retireLifecycle t r c)"
proof (cases "lifecycleRevision c t = r")
  case False
  then show ?thesis using c by (simp add: retireLifecycle_def isCurrentLifecycle_def)
next
  case True
  have n: "0 < tc_nextLifecycleRevision c"
    using c unfolding core_ok_def indexes_ok_def by (metis gr_zeroI not_less_zero)
  have t: "tab_ok c t" using c by (simp add: core_ok_def)
  have none: "panel c t = None" using p True by simp
  then have "pending c t = None" using t by (cases "pending c t") (simp_all add: tab_ok_def tab_weak_def)
  then have "tab_ok (retireLifecycle t r c) t" using t none by (simp add: tab_ok_def tab_weak_def)
  then have "tab_ok (retireLifecycle t r c) u" for u
    using c by (cases "u = t") (simp_all add: core_ok_def tab_ok_def tab_weak_def revision_retire)
  moreover have "indexes_ok (retireLifecycle t r c)"
    using c n by (simp add: core_ok_def indexes_ok_def revision_retire)
  moreover have "later c (retireLifecycle t r c)"
    using r by (simp add: later_def revision_retire)
  ultimately show ?thesis by (simp add: core_ok_def)
qed

lemma core_ok_terminal: "core_ok c \<Longrightarrow> t \<in> set (tc_terminalTabs c) \<Longrightarrow> panel c t = None"
  by (simp add: core_ok_def tab_ok_def)

lemma mark_core:
  assumes "core_ok c"
  shows "core_ok (leave t None (snd (advanceLifecycle t (markTerminalTab t c)))) \<and>
    later c (leave t None (snd (advanceLifecycle t (markTerminalTab t c))))"
proof -
  define c1 where "c1 = snd (advanceLifecycle t c)"
  define c2 where "c2 = c1\<lparr>tc_terminalTabs := set_add t (tc_terminalTabs c1)\<rparr>"
  have e: "snd (advanceLifecycle t (markTerminalTab t c)) = c2"
    by (simp add: c2_def c1_def advanceLifecycle_def markTerminalTab_def Let_def)
  have ok: "core_but t c1" "later c c1" using advance_core [OF assms, of t] by (simp_all add: c1_def)
  have "lifecycleRevision c2 u = lifecycleRevision c1 u" for u by (simp add: c2_def lifecycleRevision_def)
  then have "core_but t c2" "later c1 c2"
    using ok(1) by (simp_all add: c2_def core_but_def indexes_ok_def tab_ok_def tab_weak_def later_def subset_insertI)
  then show ?thesis using leave_core [of t c2 None] later_trans [OF ok(2)] later_trans unfolding e by blast
qed

lemma phase_core:
  assumes "core_ok c"
  shows "core_ok (c\<lparr>tc_operations := (tc_operations c)[i := (oper c i)\<lparr>to_phase := PhaseDispatching\<rparr>]\<rparr>) \<and>
    later c (c\<lparr>tc_operations := (tc_operations c)[i := (oper c i)\<lparr>to_phase := PhaseDispatching\<rparr>]\<rparr>)"
proof -
  define c1 where "c1 = c\<lparr>tc_operations := (tc_operations c)[i := (oper c i)\<lparr>to_phase := PhaseDispatching\<rparr>]\<rparr>"
  have o: "j < length (tc_operations c) \<Longrightarrow> oper c1 j =
      (if j = i then (oper c i)\<lparr>to_phase := PhaseDispatching\<rparr> else oper c j)" for j
    by (simp add: c1_def nth_list_update)
  have f: "tc_panelWindows c1 = tc_panelWindows c" "tc_participantWindows c1 = tc_participantWindows c"
    "tc_pendingRefreshes c1 = tc_pendingRefreshes c" "length (tc_operations c1) = length (tc_operations c)"
    "tc_terminalTabs c1 = tc_terminalTabs c" "tc_nextLifecycleRevision c1 = tc_nextLifecycleRevision c"
    "lifecycleRevision c1 u = lifecycleRevision c u" for u
    by (simp_all add: c1_def lifecycleRevision_def)
  have "tab_ok c1 u" for u
    using assms unfolding core_ok_def tab_ok_def tab_weak_def f by (auto simp: o dest!: spec [of _ u])
  moreover have "indexes_ok c1"
    using assms unfolding core_ok_def indexes_ok_def f by (auto simp: o)
  moreover have "later c c1" unfolding later_def f by (auto simp: o)
  ultimately show ?thesis unfolding core_ok_def c1_def by blast
qed

end
