(* ===== verification/Refresh_Book.thy ===== *)
theory Refresh_Book
  imports Refresh_Core
begin

text \<open>
  The book of the coordinator: the refreshes it dispatched and the completions it reported, out of
  \<open>tc_log\<close>. \<open>logged\<close> says how a step may add to it: a refresh is only sent for an operation that
  was started, each operation once; a completion is only reported when the operation completes,
  and an accepted one only after the refresh was sent.
\<close>

declare map_of_eq_Some_iff [simp del]

subsection \<open>The book\<close>

fun is_sent :: "nat \<Rightarrow> coordinator_event \<Rightarrow> bool" where
  "is_sent i (DispatchRefresh t j p) = (j = i)"
| "is_sent i _ = False"

fun is_done :: "nat \<Rightarrow> coordinator_event \<Rightarrow> bool" where
  "is_done i (TabCompleted t j b) = (j = i)"
| "is_done i _ = False"

fun is_prepared :: "nat \<Rightarrow> nat \<times> waiting \<times> cont \<Rightarrow> bool" where
  "is_prepared i (n, w, AtPrepared t j a) = (j = i)"
| "is_prepared i _ = False"

fun in_book :: "coordinator_event \<Rightarrow> bool" where
  "in_book (DispatchRefresh t i p) = True"
| "in_book (TabCompleted t i b) = True"
| "in_book _ = False"

definition book :: "tab_coordinator \<Rightarrow> coordinator_event list" where
  "book c = filter in_book (tc_log c)"

definition sent :: "nat \<Rightarrow> tab_coordinator \<Rightarrow> nat" where
  "sent i c = length (filter (is_sent i) (book c))"

definition completions :: "nat \<Rightarrow> tab_coordinator \<Rightarrow> nat" where
  "completions i c = length (filter (is_done i) (book c))"

text \<open>Refreshes sent and about to be sent, against the operations started and completed.\<close>

definition usage :: "nat \<Rightarrow> tab_coordinator \<Rightarrow> nat" where
  "usage i c = sent i c + length (filter (is_prepared i) (tc_tasks c))"

definition started :: "nat \<Rightarrow> tab_coordinator \<Rightarrow> nat" where
  "started i c = (if i < length (tc_operations c) \<and> to_phase (oper c i) = PhaseDispatching then 1 else 0)"

definition closed :: "nat \<Rightarrow> tab_coordinator \<Rightarrow> nat" where
  "closed i c = (if i < length (tc_operations c) \<and> to_completed (oper c i) then 1 else 0)"

definition dispatched :: "tab_coordinator \<Rightarrow> int \<Rightarrow> nat \<Rightarrow> bool" where
  "dispatched c t i \<longleftrightarrow> (\<exists>p. DispatchRefresh t i p \<in> set (book c))"

definition logged :: "tab_coordinator \<Rightarrow> tab_coordinator \<Rightarrow> bool" where
  "logged c c' \<longleftrightarrow> (\<forall>i. usage i c' + started i c \<le> usage i c + started i c' \<and>
       completions i c' + closed i c \<le> completions i c + closed i c') \<and>
     set (book c) \<subseteq> set (book c') \<and>
     (\<forall>t i. TabCompleted t i True \<in> set (book c') \<longrightarrow>
        TabCompleted t i True \<in> set (book c) \<or> dispatched c' t i)"

lemma logged_refl [simp]: "logged c c"
  by (simp add: logged_def)

lemma dispatched_mono: "dispatched c t i \<Longrightarrow> logged c c' \<Longrightarrow> dispatched c' t i"
  by (auto simp: dispatched_def logged_def)

lemma logged_trans:
  assumes a: "logged c c1" and b: "logged c1 c2" shows "logged c c2"
  unfolding logged_def
proof (intro conjI allI impI)
  fix i
  have "usage i c1 + started i c \<le> usage i c + started i c1" "usage i c2 + started i c1 \<le> usage i c1 + started i c2"
    "completions i c1 + closed i c \<le> completions i c + closed i c1"
    "completions i c2 + closed i c1 \<le> completions i c1 + closed i c2"
    using a b by (simp_all add: logged_def)
  then show "usage i c2 + started i c \<le> usage i c + started i c2"
    "completions i c2 + closed i c \<le> completions i c + closed i c2" by linarith+
next
  show "set (book c) \<subseteq> set (book c2)" using a b unfolding logged_def by blast
next
  fix t i assume "TabCompleted t i True \<in> set (book c2)"
  then show "TabCompleted t i True \<in> set (book c) \<or> dispatched c2 t i"
    using a b dispatched_mono [OF _ b] unfolding logged_def by blast
qed

lemma logged_same: "book c2 = book c1 \<Longrightarrow> tc_tasks c2 = tc_tasks c1 \<Longrightarrow>
    tc_operations c2 = tc_operations c1 \<Longrightarrow> logged c1 c2"
  by (simp add: logged_def usage_def started_def closed_def sent_def completions_def)

lemma logged_spawn: "(\<And>i. \<not> is_prepared i (n, w, k)) \<Longrightarrow> logged c (spawn n w k c)"
  by (simp add: logged_def usage_def started_def closed_def sent_def completions_def spawn_def book_def)

subsection \<open>Steps that leave the book as it is\<close>

lemma book_log: "book (log_event e c) = (if in_book e then e # book c else book c)"
  by (simp add: book_def log_event_def)

lemma book_simps [simp]:
  "book (spawn n w k c) = book c" "book (settle_call n r c) = book c" "book (finish_queued n r c) = book c"
  "book (enqueue n q c) = book c" "book (setParticipant v t b c) = book c"
  "book (c\<lparr>tc_watermarks := x1\<rparr>) = book c" "book (c\<lparr>tc_store := x2\<rparr>) = book c"
  "book (c\<lparr>tc_tasks := x3\<rparr>) = book c" "book (c\<lparr>tc_running := x4\<rparr>) = book c"
  "book (c\<lparr>tc_panelWindows := x5\<rparr>) = book c" "book (c\<lparr>tc_participantWindows := x6\<rparr>) = book c"
  "book (c\<lparr>tc_operations := x7\<rparr>) = book c" "book (c\<lparr>tc_pendingRefreshes := x8\<rparr>) = book c"
  "book (c\<lparr>tc_initialization := x9\<rparr>) = book c" "book (c\<lparr>tc_attempts := x10\<rparr>) = book c"
  "book (c\<lparr>tc_windowRemovals := x11\<rparr>) = book c" "book (c\<lparr>tc_removalSettled := x12\<rparr>) = book c"
  "book (c\<lparr>tc_lifecycleRevisions := x13\<rparr>) = book c" "book (c\<lparr>tc_nextLifecycleRevision := x14\<rparr>) = book c"
  "book (c\<lparr>tc_terminalTabs := x15\<rparr>) = book c" "book (c\<lparr>tc_queue := x16\<rparr>) = book c"
  "book (c\<lparr>tc_calls := x17\<rparr>) = book c"
  by (simp_all add: book_def spawn_def settle_call_def finish_queued_def enqueue_def setParticipant_def log_event_def)

lemma book_steps [simp]:
  "book (clearPanelWindow t x c) = book c"
  "book (snd (revokeIndexedParticipant t x c)) = book c"
  "book (grantParticipant w t c) = book c"
  "book (snd (advanceLifecycle t c)) = book c"
  "book (retireLifecycle t r c) = book c"
  "book (markTerminalTab t c) = book c"
  by (simp_all add: clearPanelWindow_def revokeIndexedParticipant_def grantParticipant_def advanceLifecycle_def
      retireLifecycle_def markTerminalTab_def Let_def split: option.split)

subsection \<open>Completing an operation\<close>

lemma book_complete: "book (completeTabRefresh t i b c) =
    (if \<not> to_completed (oper c i) \<and> to_onTabCompleted (oper c i) then TabCompleted t i b # book c else book c)"
  by (simp add: completeTabRefresh_def Let_def book_log)

lemma phase_complete: "j < length (tc_operations c) \<Longrightarrow>
    to_phase (oper (completeTabRefresh t i b c) j) = to_phase (oper c j)"
  by (simp add: oper_complete)

lemma logged_complete:
  assumes i: "i < length (tc_operations c)" and b: "b \<Longrightarrow> dispatched c t i"
  shows "logged c (completeTabRefresh t i b c)"
proof (cases "to_completed (oper c i)")
  case True
  then show ?thesis by (simp add: complete_done)
next
  case False
  let ?c = "completeTabRefresh t i b c"
  have "usage j ?c = usage j c" "started j ?c = started j c" for j
    using phase_complete [of j c t i b] by (auto simp: usage_def started_def sent_def book_complete frames)
  moreover have "completions j ?c + closed j c \<le> completions j c + closed j ?c" for j
    using i False by (simp add: completions_def closed_def book_complete oper_complete)
  moreover have "dispatched c u j \<Longrightarrow> dispatched ?c u j" for u j
    by (auto simp: dispatched_def book_complete)
  ultimately show ?thesis using b by (auto simp: logged_def book_complete)
qed

definition in_range :: "tab_coordinator \<Rightarrow> bool" where
  "in_range c \<longleftrightarrow> (\<forall>t i. pending c t = Some i \<longrightarrow> i < length (tc_operations c))"

lemma core_in_range: "core_ok c \<Longrightarrow> in_range c"
  by (simp add: core_ok_def tab_ok_def tab_weak_def in_range_def)

lemma logged_cancel: "in_range c \<Longrightarrow> logged c (cancelTabRefresh t c)"
  by (simp add: cancelTabRefresh_def in_range_def logged_complete split: option.split)

lemma logged_leave: assumes "in_range c" shows "logged c (leave t x c)"
proof -
  have "logged c (clearPanelWindow t x c)" by (rule logged_same) (simp_all add: frames)
  moreover have "logged (clearPanelWindow t x c) (cancelTabRefresh t (clearPanelWindow t x c))"
    using assms by (intro logged_cancel) (simp add: in_range_def)
  moreover have "logged c' (snd (revokeIndexedParticipant t x c'))" for c'
    by (rule logged_same) (simp_all add: frames)
  ultimately show ?thesis using logged_trans by metis
qed

lemma logged_advance_leave: assumes "in_range c" shows "logged c (leave t x (snd (advanceLifecycle t c)))"
proof -
  have "logged c (snd (advanceLifecycle t c))" by (rule logged_same) (simp_all add: frames)
  then show ?thesis by (rule logged_trans [OF _ logged_leave]) (use assms in \<open>simp add: in_range_def\<close>)
qed

subsection \<open>Starting and sending a refresh\<close>

lemma logged_start:
  assumes i: "i < length (tc_operations c)" and p: "to_phase (oper c i) = PhasePending"
  shows "logged c (spawn n OnAnswer (AtPrepared t i a)
    (c\<lparr>tc_operations := (tc_operations c)[i := (oper c i)\<lparr>to_phase := PhaseDispatching\<rparr>]\<rparr>))"
  using assms
  by (simp add: logged_def usage_def started_def closed_def sent_def completions_def dispatched_def spawn_def
      nth_list_update)

lemma logged_append: "tc_operations c' = tc_operations c @ [x] \<Longrightarrow> to_phase x = PhasePending \<Longrightarrow>
    \<not> to_completed x \<Longrightarrow> book c' = book c \<Longrightarrow> tc_tasks c' = tc_tasks c \<Longrightarrow> logged c c'"
  by (auto simp: logged_def usage_def started_def closed_def sent_def completions_def dispatched_def nth_append)

lemma logged_take:
  assumes "tc_tasks c = xs @ (n, w, k) # ys"
  shows "logged c (c\<lparr>tc_tasks := xs @ ys\<rparr>)"
  using assms by (simp add: logged_def usage_def started_def closed_def sent_def completions_def)

lemma logged_send:
  assumes "tc_tasks c = xs @ (n, w, AtPrepared t i a) # ys"
  shows "logged c (spawn m OnAnswer (AtDispatched t i a) (log_event (DispatchRefresh t i p) (c\<lparr>tc_tasks := xs @ ys\<rparr>)))"
proof -
  let ?c = "spawn m OnAnswer (AtDispatched t i a) (log_event (DispatchRefresh t i p) (c\<lparr>tc_tasks := xs @ ys\<rparr>))"
  have b: "book ?c = DispatchRefresh t i p # book c" by (simp add: book_log)
  have o: "tc_operations ?c = tc_operations c" "tc_tasks ?c = xs @ ys @ [(m, OnAnswer, AtDispatched t i a)]"
    by (simp_all add: spawn_def log_event_def)
  show ?thesis using assms
    unfolding logged_def usage_def started_def closed_def sent_def completions_def dispatched_def b o by auto
qed

subsection \<open>The invariant of the book\<close>

definition book_ok :: "tab_coordinator \<Rightarrow> bool" where
  "book_ok c \<longleftrightarrow> (\<forall>i. usage i c \<le> started i c \<and> completions i c \<le> closed i c) \<and>
     (\<forall>t i. TabCompleted t i True \<in> set (book c) \<longrightarrow> dispatched c t i)"

lemma book_ok_logged: assumes a: "book_ok c" and l: "logged c c'" shows "book_ok c'"
  unfolding book_ok_def
proof (intro conjI allI impI)
  fix i
  have "usage i c \<le> started i c" "completions i c \<le> closed i c"
    "usage i c' + started i c \<le> usage i c + started i c'"
    "completions i c' + closed i c \<le> completions i c + closed i c'"
    using a l by (simp_all add: book_ok_def logged_def)
  then show "usage i c' \<le> started i c'" "completions i c' \<le> closed i c'" by linarith+
next
  fix t i assume "TabCompleted t i True \<in> set (book c')"
  then show "dispatched c' t i" using a l dispatched_mono [OF _ l] unfolding book_ok_def logged_def by blast
qed

end
