(* ===== verification/Refresh_Safety.thy ===== *)
theory Refresh_Safety
  imports Refresh_Book
begin

text \<open>
  Every segment of the coordinator (\<open>Refresh_Calls\<close>) keeps the invariant of
  \<open>Refresh_Core\<close> on the tabs, panels, participants and operations, together with what
  the waiting tasks rely on: the revision a closing task fenced, the window an opening task
  entered, the operation a dispatch task carries.
\<close>

declare map_of_eq_Some_iff [simp del]

subsection \<open>What a waiting task may rely on\<close>

definition is_closing :: "tab_coordinator \<Rightarrow> int \<Rightarrow> nat \<Rightarrow> bool" where
  "is_closing c t r \<longleftrightarrow> 0 < r \<and> r < tc_nextLifecycleRevision c \<and>
     (lifecycleRevision c t = r \<longrightarrow> panel c t = None)"

definition is_opening :: "tab_coordinator \<Rightarrow> int \<Rightarrow> int \<Rightarrow> nat \<Rightarrow> bool" where
  "is_opening c t w r \<longleftrightarrow> 0 < r \<and> r < tc_nextLifecycleRevision c \<and>
     (lifecycleRevision c t = r \<longrightarrow> panel c t \<in> {None, Some w})"

definition own_oper :: "tab_coordinator \<Rightarrow> int \<Rightarrow> nat \<Rightarrow> bool" where
  "own_oper c t i \<longleftrightarrow> i < length (tc_operations c) \<and> (\<forall>u. pending c u = Some i \<longrightarrow> u = t)"

fun cont_ok :: "tab_coordinator \<Rightarrow> cont \<Rightarrow> bool" where
  "cont_ok c (AtPanelOpened t w r) = is_opening c t w r"
| "cont_ok c (AtPanelOpenedUpdate t w r) = is_opening c t w r"
| "cont_ok c (AtPanelClosed t w r) = is_closing c t r"
| "cont_ok c (AtPanelClosedStored t w r) = is_closing c t r"
| "cont_ok c (AtRemoveTab t r) = is_closing c t r"
| "cont_ok c (AtDetach t x) = (\<forall>r. x = Some r \<longrightarrow> is_closing c t r)"
| "cont_ok c (AtDetachLoaded t x) = (\<forall>r. x = Some r \<longrightarrow> is_closing c t r)"
| "cont_ok c (AtRemoveWindow w m rs) = (\<forall>(t, r)\<in>set rs. is_closing c t r)"
| "cont_ok c (AtRemoveWindowLoaded w m rs) = (\<forall>(t, r)\<in>set rs. is_closing c t r)"
| "cont_ok c (AtPrepared t i a) = own_oper c t i"
| "cont_ok c (AtDispatched t i a) = (own_oper c t i \<and> dispatched c t i)"
| "cont_ok c _ = True"

lemma closing_later: "is_closing c t r \<Longrightarrow> later c c' \<Longrightarrow> is_closing c' t r"
  unfolding is_closing_def later_def by (metis less_le_trans)

lemma opening_later: "is_opening c t w r \<Longrightarrow> later c c' \<Longrightarrow> is_opening c' t w r"
  unfolding is_opening_def later_def by (metis insert_iff less_le_trans)

lemma own_oper_later: "own_oper c t i \<Longrightarrow> later c c' \<Longrightarrow> own_oper c' t i"
  unfolding own_oper_def later_def by (meson less_le_trans)

definition evolves :: "tab_coordinator \<Rightarrow> tab_coordinator \<Rightarrow> bool" where
  "evolves c c' \<longleftrightarrow> later c c' \<and> logged c c'"

lemma evolves_trans: "evolves c c1 \<Longrightarrow> evolves c1 c2 \<Longrightarrow> evolves c c2"
  unfolding evolves_def using later_trans logged_trans by blast

lemma cont_ok_evolves: "cont_ok c k \<Longrightarrow> evolves c c' \<Longrightarrow> cont_ok c' k"
  by (cases k) (auto simp: evolves_def closing_later opening_later own_oper_later dispatched_mono)

definition safe_step :: "tab_coordinator \<Rightarrow> tab_coordinator \<Rightarrow> bool" where
  "safe_step c c' \<longleftrightarrow> core_ok c' \<and> evolves c c' \<and>
     (\<forall>t\<in>set (tc_tasks c'). t \<in> set (tc_tasks c) \<or> cont_ok c' (snd (snd t)))"

lemma safe_refl: "core_ok c \<Longrightarrow> safe_step c c"
  by (simp add: safe_step_def evolves_def)

lemma safe_later: "safe_step c c1 \<Longrightarrow> later c c1"
  by (simp add: safe_step_def evolves_def)

lemma safe_core: "safe_step c c1 \<Longrightarrow> core_ok c1"
  by (simp add: safe_step_def)

lemma safe_more:
  assumes s: "safe_step c c1" and c: "core_ok c2" "later c1 c2" "logged c1 c2" "tc_tasks c2 = tc_tasks c1"
  shows "safe_step c c2"
proof -
  have e: "evolves c1 c2" using c by (simp add: evolves_def)
  show ?thesis using s c evolves_trans [OF _ e] cont_ok_evolves [OF _ e] unfolding safe_step_def by metis
qed

lemma safe_tabs:
  assumes "safe_step c c1" and "tabs c2 = tabs c1" and "book c2 = book c1" and "tc_tasks c2 = tc_tasks c1"
  shows "safe_step c c2"
proof (rule safe_more [OF assms(1) _ tabs_later [OF assms(2)] _ assms(4)])
  show "core_ok c2" using safe_core [OF assms(1)] tabs_core [OF assms(2)] by simp
  show "logged c1 c2" using assms by (intro logged_same) (simp_all add: tabs_def)
qed

lemma safe_trans:
  assumes a: "safe_step c c1" and b: "safe_step c1 c2" shows "safe_step c c2"
proof -
  have e: "evolves c1 c2" using b by (simp add: safe_step_def)
  show ?thesis using a b evolves_trans [OF _ e] cont_ok_evolves [OF _ e] unfolding safe_step_def by blast
qed

text \<open>Spawning a task, also with other changes that leave the tabs alone.\<close>

lemma safe_adds:
  assumes s: "safe_step c c1" and l: "evolves c1 c2" and c: "core_ok c2"
    and t: "set (tc_tasks c2) \<subseteq> insert (n, w, k) (set (tc_tasks c1))" and k: "cont_ok c2 k"
  shows "safe_step c c2"
proof -
  have "cont_ok c2 (snd (snd x))" if "x \<in> set (tc_tasks c2)" "x \<notin> set (tc_tasks c)" for x
    using that t k s cont_ok_evolves [OF _ l] unfolding safe_step_def by force
  then show ?thesis using s c evolves_trans [OF _ l] unfolding safe_step_def by blast
qed

lemma safe_spawn:
  assumes s: "safe_step c c1" and k: "cont_ok c1 k" and p: "\<And>i. \<not> is_prepared i (n, w, k)"
  shows "safe_step c (spawn n w k c1)"
proof -
  have l: "evolves c1 (spawn n w k c1)"
    using logged_spawn [OF p] tabs_later [of "spawn n w k c1" c1] by (simp add: evolves_def)
  show ?thesis
    using s tabs_core(1) [of "spawn n w k c1" c1] cont_ok_evolves [OF k l]
    by (intro safe_adds [OF s l]) (auto simp: safe_core spawn_def)
qed

lemma safe_settle: "safe_step c c1 \<Longrightarrow> safe_step c (settle_call n r c1)"
  by (erule safe_tabs) (simp, simp, simp add: settle_call_def log_event_def)

lemma safe_finish: "safe_step c c1 \<Longrightarrow> safe_step c (finish_queued n r c1)"
  by (erule safe_tabs) (simp, simp, simp add: finish_queued_def settle_call_def log_event_def)

lemma safe_enqueue: "safe_step c c1 \<Longrightarrow> safe_step c (enqueue n q c1)"
  by (erule safe_tabs) (simp, simp, simp add: enqueue_def)

lemma safe_log: "safe_step c c1 \<Longrightarrow> \<not> in_book e \<Longrightarrow> safe_step c (log_event e c1)"
  by (erule safe_tabs) (simp, simp add: book_log, simp add: log_event_def)

lemma safe_participant: "safe_step c c1 \<Longrightarrow> safe_step c (setParticipant w t b c1)"
  by (simp add: setParticipant_def safe_log)

lemma safe_watermarks: "safe_step c c1 \<Longrightarrow> safe_step c (c1\<lparr>tc_watermarks := wm\<rparr>)"
  by (erule safe_tabs) simp_all

lemma safe_await:
  assumes s: "safe_step c c1" and k: "cont_ok c1 k" and p: "\<And>i w. \<not> is_prepared i (n, w, k)"
  shows "safe_step c (await_initialized n k c1)"
proof -
  show ?thesis
  proof (cases "tc_initialization c1")
    case (Some a)
    then show ?thesis using safe_spawn [OF s k] p by (simp add: await_initialized_def ensureInitialized_def)
  next
    case None
    define c2 where "c2 = c1\<lparr>tc_initialization := Some (length (tc_attempts c1)), tc_attempts := tc_attempts c1 @ [None]\<rparr>"
    define c3 where "c3 = spawn n (OnStore LoadAllStates) (AtInitialization (length (tc_attempts c1))) c2"
    have s2: "safe_step c c2" using s by (rule safe_tabs) (simp_all add: c2_def)
    then have s3: "safe_step c c3" unfolding c3_def by (rule safe_spawn) simp_all
    have "evolves c1 c2" unfolding evolves_def
      by (intro conjI tabs_later logged_same) (simp_all add: c2_def)
    moreover have "evolves c2 c3" unfolding evolves_def c3_def
      by (intro conjI tabs_later logged_spawn) simp_all
    ultimately have "cont_ok c3 k" using k cont_ok_evolves by blast
    from safe_spawn [OF s3 this] p show ?thesis
      by (simp add: await_initialized_def ensureInitialized_def None Let_def c3_def c2_def)
  qed
qed

lemma safe_moves:
  assumes "safe_step c c1" and "core_ok c1 \<Longrightarrow> core_ok c2 \<and> later c1 c2" and "tc_tasks c2 = tc_tasks c1"
    and "in_range c1 \<Longrightarrow> logged c1 c2"
  shows "safe_step c c2"
  using assms safe_more [OF assms(1)] safe_core [OF assms(1)] core_in_range by blast

lemma safe_cancel: "safe_step c c1 \<Longrightarrow> safe_step c (cancelTabRefresh t c1)"
  by (erule safe_moves [OF _ cancel_core]) (simp_all add: frames logged_cancel)

lemma safe_revoke: "safe_step c c1 \<Longrightarrow> safe_step c (snd (revokeIndexedParticipant t x c1))"
  by (erule safe_moves [OF _ revoke_core]) (simp_all add: frames logged_same)

lemma safe_grant: "safe_step c c1 \<Longrightarrow> panel c1 t = Some w \<Longrightarrow> safe_step c (grantParticipant w t c1)"
  by (erule safe_moves [OF _ grant_core]) (simp_all add: frames logged_same)

lemma safe_retire: "safe_step c c1 \<Longrightarrow> is_closing c1 t r \<Longrightarrow> safe_step c (retireLifecycle t r c1)"
  by (erule safe_moves [OF _ retire_core]) (simp_all add: frames is_closing_def logged_same)

lemma safe_complete:
  assumes "safe_step c c1" and own: "own_oper c1 t i" and "b \<Longrightarrow> dispatched c1 t i"
  shows "safe_step c (completeTabRefresh t i b c1)"
proof -
  have ok: "core_ok c1" using assms(1) by (rule safe_core)
  have "to_completed (oper c1 i) \<or> pending c1 t = Some i"
    using ok own unfolding core_ok_def indexes_ok_def own_oper_def by metis
  moreover have "logged c1 (completeTabRefresh t i b c1)"
    using own assms(3) by (intro logged_complete) (simp_all add: own_oper_def)
  ultimately show ?thesis using complete_core [OF ok] by (intro safe_moves [OF assms(1)]) (simp_all add: frames)
qed

lemma safe_leave:
  assumes "safe_step c c1" shows "safe_step c (leave t x c1)"
proof -
  have ok: "core_ok c1" using assms by (rule safe_core)
  have "core_ok (leave t x c1) \<and> later c1 (leave t x c1)"
    by (rule leave_core [OF core_ok_but [OF ok]]) (simp add: core_ok_terminal [OF ok])
  then show ?thesis by (intro safe_moves [OF assms] logged_leave) (simp_all add: frames)
qed

lemma safe_advance_leave:
  assumes "safe_step c c1" shows "safe_step c (leave t x (snd (advanceLifecycle t c1)))"
proof -
  have ok: "core_ok c1" using assms by (rule safe_core)
  define c2 where "c2 = snd (advanceLifecycle t c1)"
  have a: "core_but t c2" "later c1 c2" using advance_core [OF ok] by (simp_all add: c2_def)
  have "core_ok (leave t x c2) \<and> later c2 (leave t x c2)"
    by (rule leave_core [OF a(1)]) (simp add: core_ok_terminal [OF ok] c2_def)
  then have "core_ok (leave t x c2) \<and> later c1 (leave t x c2)" using later_trans [OF a(2)] by blast
  then show ?thesis unfolding c2_def
    by (intro safe_moves [OF assms] logged_advance_leave) (simp_all add: frames)
qed

lemma next_positive: "core_ok c \<Longrightarrow> 0 < tc_nextLifecycleRevision c"
  unfolding core_ok_def indexes_ok_def by (metis gr_zeroI not_less_zero)

lemma advance_closing:
  assumes "core_ok c" and "x = None \<or> x = panel c t"
  shows "is_closing (leave t x (snd (advanceLifecycle t c))) t (tc_nextLifecycleRevision c)"
  using next_positive [OF assms(1)] assms(2) by (simp add: is_closing_def leave_fields panel_clear)

subsection \<open>Panels and settings\<close>

lemma closing_tabs: "tabs c' = tabs c \<Longrightarrow> is_closing c' t r = is_closing c t r"
  using tabs_revision [of c' c t] by (simp add: is_closing_def tabs_def)

lemma opening_tabs: "tabs c' = tabs c \<Longrightarrow> is_opening c' t w r = is_opening c t w r"
  using tabs_revision [of c' c t] by (simp add: is_opening_def tabs_def)

lemma current_panel: "core_ok c \<Longrightarrow> currentPanelWindow c t = panel c t"
  by (auto simp: currentPanelWindow_def core_ok_def tab_ok_def tab_weak_def split: option.split)

lemma panel_idle: "core_ok c \<Longrightarrow> panel c t = None \<Longrightarrow> pending c t = None \<and> participant c t = None"
  by (cases "pending c t"; cases "participant c t") (auto simp: core_ok_def tab_ok_def tab_weak_def)

lemma participant_panel: "core_ok c \<Longrightarrow> participant c t = Some w \<Longrightarrow> panel c t = Some w"
  by (auto simp: core_ok_def tab_ok_def tab_weak_def)

lemma cancel_idle: "pending c t = None \<Longrightarrow> cancelTabRefresh t c = c"
  by (simp add: cancelTabRefresh_def)

lemma open_core:
  assumes c: "core_ok c" and t: "t \<notin> set (tc_terminalTabs c)" and p: "pending c t = None"
    and q: "participant c t \<in> {None, Some w}"
  defines "c' \<equiv> snd (advanceLifecycle t (c\<lparr>tc_panelWindows := jset t w (tc_panelWindows c)\<rparr>))"
  shows "core_ok c' \<and> later c c'"
proof -
  define c1 where "c1 = c\<lparr>tc_panelWindows := jset t w (tc_panelWindows c)\<rparr>"
  have f: "panel c1 u = (if u = t then Some w else panel c u)" "participant c1 u = participant c u"
    "pending c1 u = pending c u" "tc_operations c1 = tc_operations c" "tc_terminalTabs c1 = tc_terminalTabs c"
    "lifecycleRevision c1 u = lifecycleRevision c u" "tc_nextLifecycleRevision c1 = tc_nextLifecycleRevision c"
    "tc_pendingRefreshes c1 = tc_pendingRefreshes c" for u
    by (simp_all add: c1_def lifecycleRevision_def)
  have e: "c' = snd (advanceLifecycle t c1)" by (simp add: c'_def c1_def)
  have "tab_ok c' u" for u
  proof (cases "u = t")
    case True
    then show ?thesis using t p q next_positive [OF c] by (auto simp: e tab_ok_def tab_weak_def f)
  next
    case False
    then show ?thesis using c by (simp add: e core_ok_def tab_ok_def tab_weak_def f)
  qed
  moreover have "indexes_ok c'"
    using c unfolding core_ok_def indexes_ok_def e by (auto simp: f less_Suc_eq) (simp_all add: c1_def)
  moreover have "later c c'" by (simp add: later_def e f)
  ultimately show ?thesis by (simp add: core_ok_def)
qed

lemma panelOpened_safe:
  assumes c: "core_ok c" shows "safe_step c (panelOpened n t w c)"
proof (cases "default_state t w = None \<or> t \<in> set (tc_terminalTabs c) \<or> jget (tc_windowRemovals c) w \<noteq> None")
  case True
  then have "panelOpened n t w c = settle_call n CallRejected c" by (auto simp: panelOpened_def)
  then show ?thesis using safe_settle [OF safe_refl [OF c]] by simp
next
  case False
  define p where "p = panel c t"
  define c1 where "c1 = (if p \<noteq> None then cancelTabRefresh t c else c)"
  define c2 where "c2 = (if p \<noteq> None \<and> p \<noteq> Some w then leave t p c1 else c1)"
  define c3 where "c3 = c2\<lparr>tc_panelWindows := jset t w (tc_panelWindows c2)\<rparr>"
  define c4 where "c4 = snd (advanceLifecycle t c3)"
  have s1: "safe_step c c1" using safe_refl [OF c] by (simp add: c1_def safe_cancel)
  have idle: "pending c1 t = None" using pending_cancel [OF c] panel_idle [OF c] by (auto simp: c1_def p_def)
  have pan: "panel c1 t = p" "tc_terminalTabs c1 = tc_terminalTabs c" by (simp_all add: c1_def p_def)
  have s2: "safe_step c c2" using safe_leave [OF s1] s1 by (simp add: c2_def)
  have ok2: "core_ok c2" using s2 by (rule safe_core)
  have pend2: "pending c2 t = None" using idle by (simp add: c2_def cancel_idle)
  have t2: "t \<notin> set (tc_terminalTabs c2)" using False pan by (simp add: c2_def)
  have "panel c2 t \<in> {None, Some w}" using pan by (auto simp: c2_def panel_clear)
  then have part2: "participant c2 t \<in> {None, Some w}"
    using ok2 by (cases "participant c2 t") (auto simp: core_ok_def tab_ok_def tab_weak_def)
  have l: "core_ok c4 \<and> later c2 c4" unfolding c4_def c3_def by (rule open_core [OF ok2 t2 pend2 part2])
  have s4: "safe_step c c4" using l by (intro safe_moves [OF s2] logged_same) (simp_all add: c4_def c3_def frames)
  have k: "cont_ok c4 (AtPanelOpened t w (fst (advanceLifecycle t c3)))"
    using next_positive [OF ok2] by (simp add: c4_def c3_def is_opening_def)
  have leave2: "snd (revokeIndexedParticipant t p (clearPanelWindow t p c1)) = leave t p c1"
    using idle by (simp add: cancel_idle)
  have "panelOpened n t w c = await_initialized n (AtPanelOpened t w (fst (advanceLifecycle t c3))) c4"
    using False current_panel [OF c] leave2
    by (auto simp: panelOpened_def Let_def split_beta c4_def c3_def c2_def c1_def p_def)
  then show ?thesis using safe_await [OF s4 k] by simp
qed

lemma panelOpened_failed_safe:
  assumes c: "core_ok c" and k: "is_opening c t w r" shows "safe_step c (panelOpened_failed n t w r c)"
proof -
  have s: "safe_step c (leave t (Some w) c)" by (rule safe_leave [OF safe_refl [OF c]])
  have "is_closing (leave t (Some w) c) t r"
    using k by (auto simp: is_opening_def is_closing_def panel_clear)
  then show ?thesis using safe_settle [OF safe_retire [OF s]] safe_settle [OF safe_refl [OF c]]
    by (simp add: panelOpened_failed_def)
qed

lemma panelOpened_updated_safe:
  assumes c: "core_ok c" and k: "is_opening c t w r" shows "safe_step c (panelOpened_updated n t w r reply c)"
proof (cases reply)
  case (Inl e)
  then show ?thesis using panelOpened_failed_safe [OF c k] by (simp add: panelOpened_updated_def)
next
  case (Inr u)
  define d where "d = (case u of Some s \<Rightarrow> Some s | None \<Rightarrow> default_state t w)"
  define g where "g a = (if \<not> isCurrentPanelLifecycle c t w r then c else if a then grantParticipant w t c
    else snd (revokeIndexedParticipant t (Some w) c))" for a
  have s: "safe_step c (g a)" for a
    using safe_refl [OF c] by (simp add: g_def safe_grant safe_revoke isCurrentPanelLifecycle_def)
  have "later c (g a)" for a using s by (rule safe_later)
  then have "safe_step (g a) (panelOpened_failed n t w r (g a))" for a
    using k opening_later by (intro panelOpened_failed_safe safe_core [OF s]) blast+
  then have f: "safe_step c (panelOpened_failed n t w r (g a))" for a using s safe_trans by blast
  show ?thesis
  proof (cases d)
    case None
    then show ?thesis using panelOpened_failed_safe [OF c k] Inr
      by (simp add: panelOpened_updated_def d_def [symmetric])
  next
    case (Some x)
    then have "panelOpened_updated n t w r reply c =
        (case effectiveState (g (tr_autoRefreshEnabled x)) x t
            (if isCurrentPanelLifecycle c t w r then w else tr_windowId x) of
           None \<Rightarrow> panelOpened_failed n t w r (g (tr_autoRefreshEnabled x))
         | Some z \<Rightarrow> settle_call n (CallState (Some z)) (g (tr_autoRefreshEnabled x)))"
      unfolding panelOpened_updated_def Inr sum.case d_def [symmetric] Some option.case Let_def g_def by simp
    then show ?thesis using f safe_settle [OF s] by (simp split: option.split)
  qed
qed

text \<open>Closing and detaching a panel take the same steps.\<close>

definition close_tab :: "int \<Rightarrow> int \<Rightarrow> tab_coordinator \<Rightarrow> tab_coordinator" where
  "close_tab t w c = (let r = revokeIndexedParticipant t (Some w)
       (cancelTabRefresh t (clearPanelWindow t (Some w) (snd (advanceLifecycle t c))))
     in if fst r then snd r else setParticipant w t False (snd r))"

lemma close_tab_safe:
  assumes c: "core_ok c" and p: "panel c t = Some w"
  shows "safe_step c (close_tab t w c) \<and> is_closing (close_tab t w c) t (tc_nextLifecycleRevision c)"
proof -
  define c1 where "c1 = leave t (Some w) (snd (advanceLifecycle t c))"
  have s: "safe_step c c1" unfolding c1_def by (rule safe_advance_leave [OF safe_refl [OF c]])
  have k: "is_closing c1 t (tc_nextLifecycleRevision c)"
    unfolding c1_def using p by (intro advance_closing [OF c]) simp
  have "close_tab t w c = c1 \<or> close_tab t w c = setParticipant w t False c1"
    by (simp add: close_tab_def c1_def Let_def)
  then show ?thesis using s k safe_participant [OF s] closing_tabs [OF tabs_simps(6)] by metis
qed

lemma panelClosed_safe:
  assumes c: "core_ok c" shows "safe_step c (panelClosed n t x c)"
proof -
  note s = safe_refl [OF c]
  have st: "safe_step c (storedEffectiveState n t y c)" for y
    unfolding storedEffectiveState_def by (rule safe_await [OF s]) simp_all
  show ?thesis
  proof (cases "panel c t")
    case None
    then show ?thesis using st safe_settle [OF s] by (simp add: panelClosed_def current_panel [OF c])
  next
    case (Some w)
    note k = close_tab_safe [OF c Some]
    have e: "panelClosed n t x c = (if t \<in> set (tc_terminalTabs c) then settle_call n (CallState None) c
        else if x \<noteq> None \<and> Some w \<noteq> x then storedEffectiveState n t None c
        else (case jget (tc_windowRemovals (close_tab t w c)) w of
           Some m \<Rightarrow> spawn n (OnRemoval m) (AtPanelClosed t w (tc_nextLifecycleRevision c)) (close_tab t w c)
         | None \<Rightarrow> await_initialized n (AtPanelClosed t w (tc_nextLifecycleRevision c)) (close_tab t w c)))"
      unfolding panelClosed_def current_panel [OF c] Some close_tab_def Let_def split_beta advance_fields option.case
      by simp
    show ?thesis unfolding e using k st safe_settle [OF s]
      by (simp add: safe_spawn safe_await split: option.split)
  qed
qed

lemma panelClosed_rest_safe:
  assumes c: "core_ok c" and k: "is_closing c t r"
  shows "safe_step c (panelClosed_waited n t w r ok c)" "safe_step c (panelClosed_stored n t w r reply c)"
  using safe_refl [OF c] k
  by (simp_all add: panelClosed_waited_def panelClosed_stored_def Let_def safe_settle safe_retire safe_spawn)

lemma updateSettings_safe:
  assumes "core_ok c" shows "safe_step c (updateSettings n t w auto highlight c)"
  using safe_refl [OF assms]
  by (simp add: updateSettings_def Let_def safe_settle safe_await safe_revoke safe_cancel)

lemma updateSettings_updated_safe:
  assumes c: "core_ok c" shows "safe_step c (updateSettings_updated n t w auto r reply c)"
proof -
  define c1 where "c1 = (if \<not> auto \<and> isCurrentPanelLifecycle c t w r
    then snd (revokeIndexedParticipant t (Some w) c) else c)"
  have s1: "safe_step c c1" using safe_refl [OF c] by (simp add: c1_def safe_revoke)
  have "safe_step c (if isCurrentPanelLifecycle c1 t w r \<and> auto then grantParticipant w t c1 else c1)"
    using s1 by (simp add: isCurrentPanelLifecycle_def safe_grant)
  from safe_settle [OF this] show ?thesis using safe_settle [OF s1]
    unfolding updateSettings_updated_def Let_def c1_def [symmetric] by (auto split: sum.split option.split)
qed

subsection \<open>Dispatching\<close>

lemma own_pending: "core_ok c \<Longrightarrow> pending c t = Some i \<Longrightarrow> own_oper c t i"
  unfolding own_oper_def core_ok_def tab_ok_def tab_weak_def indexes_ok_def by blast

lemma dispatch_safe:
  assumes s: "safe_step c c1" and k: "own_oper c1 t i" and ph: "to_phase (oper c1 i) = PhasePending"
  shows "safe_step c (dispatch n t i accept c1)"
proof (cases "isCurrentRefreshOperation c1 t i")
  case True
  define c2 where "c2 = c1\<lparr>tc_operations := (tc_operations c1)[i := (oper c1 i)\<lparr>to_phase := PhaseDispatching\<rparr>]\<rparr>"
  define c3 where "c3 = spawn n OnAnswer (AtPrepared t i accept) c2"
  have c: "core_ok c2 \<and> later c1 c2" unfolding c2_def by (rule phase_core [OF safe_core [OF s]])
  have t: "tabs c3 = tabs c2" by (simp add: c3_def)
  have l: "later c1 c3" using later_trans [OF conjunct2 [OF c] tabs_later [OF t]] .
  have "evolves c1 c3" using l k ph unfolding evolves_def c3_def c2_def own_oper_def by (simp add: logged_start)
  then have "safe_step c c3"
    using c own_oper_later [OF k l] tabs_core(1) [OF t]
    by (intro safe_adds [OF s, of c3 n OnAnswer "AtPrepared t i accept"]) (auto simp: c3_def c2_def spawn_def)
  then show ?thesis using True by (simp add: dispatch_def c2_def c3_def)
next
  case False
  then show ?thesis using safe_finish [OF safe_complete [OF s k]] by (simp add: dispatch_def)
qed

text \<open>The callbacks: the task goes on in the state without itself.\<close>

lemma dispatch_prepared_safe:
  assumes c: "core_ok c" and t: "tc_tasks c = xs @ (n, w, AtPrepared t i a) # ys" and k: "own_oper c t i"
  shows "safe_step c (dispatch_prepared n t i a (c\<lparr>tc_tasks := xs @ ys\<rparr>))"
proof -
  let ?c = "c\<lparr>tc_tasks := xs @ ys\<rparr>"
  have l: "evolves c ?c" using logged_take [OF t] tabs_later [of ?c c] by (simp add: evolves_def)
  have s: "safe_step c ?c" using l c tabs_core(1) [of ?c c] t by (auto simp: safe_step_def)
  have own: "own_oper ?c t i" using k own_oper_later l by (simp add: evolves_def)
  show ?thesis
  proof (cases "isCurrentRefreshOperation ?c t i")
    case False
    then show ?thesis using safe_finish [OF safe_complete [OF s own]] by (simp add: dispatch_prepared_def)
  next
    case True
    define c2 where "c2 = spawn n OnAnswer (AtDispatched t i a)
      (log_event (DispatchRefresh t i (to_pending (oper ?c i))) ?c)"
    have e: "evolves c c2" using logged_send [OF t] tabs_later [of c2 c] by (simp add: evolves_def c2_def)
    have ok: "core_ok c2" using c tabs_core(1) [of c2 c] by (simp add: c2_def)
    have d: "dispatched c2 t i" by (auto simp: dispatched_def c2_def book_log)
    have o: "own_oper c2 t i" using k own_oper_later e by (simp add: evolves_def)
    have k2: "cont_ok c2 (AtDispatched t i a)" using d o by simp
    have ts: "set (tc_tasks c2) \<subseteq> insert (n, OnAnswer, AtDispatched t i a) (set (tc_tasks c))"
      by (auto simp: c2_def spawn_def log_event_def t)
    show ?thesis using True safe_adds [OF safe_refl [OF c] e ok ts k2] by (simp add: dispatch_prepared_def c2_def)
  qed
qed

lemma dispatch_sent_safe:
  assumes c: "core_ok c" and k: "own_oper c t i" "dispatched c t i"
  shows "safe_step c (dispatch_sent n t i accept reply c)"
  using safe_finish [OF safe_complete [OF safe_refl [OF c] k(1)]] k(2) by (simp add: dispatch_sent_def)

lemma activate_started_safe:
  assumes c: "core_ok c" shows "safe_step c (activate_started n t w c)"
  using safe_finish [OF safe_refl [OF c]] safe_finish [OF safe_cancel [OF safe_refl [OF c]]]
    dispatch_safe [OF safe_refl [OF c] own_pending [OF c]]
  by (simp add: activate_started_def split: option.split)

subsection \<open>Accepting a refresh\<close>

lemma append_core:
  assumes c: "core_ok c" and p: "pending c t = None" and w: "panel c t = Some (to_windowId x)"
    and r: "lifecycleRevision c t = to_revision x" and x: "\<not> to_completed x"
  defines "c' \<equiv> c\<lparr>tc_operations := tc_operations c @ [x],
    tc_pendingRefreshes := jset t (length (tc_operations c)) (tc_pendingRefreshes c)\<rparr>"
  shows "core_ok c' \<and> later c c'"
proof -
  have f: "panel c' u = panel c u" "participant c' u = participant c u" "tc_terminalTabs c' = tc_terminalTabs c"
    "pending c' u = (if u = t then Some (length (tc_operations c)) else pending c u)"
    "lifecycleRevision c' u = lifecycleRevision c u" "tc_nextLifecycleRevision c' = tc_nextLifecycleRevision c"
    "length (tc_operations c') = Suc (length (tc_operations c))" for u
    by (simp_all add: c'_def lifecycleRevision_def)
  have o: "oper c' i = (if i = length (tc_operations c) then x else oper c i)"
    if "i < Suc (length (tc_operations c))" for i
    using that by (auto simp: c'_def nth_append)
  have old: "i < length (tc_operations c)" if "pending c u = Some i" for u i
    using c that by (auto simp: core_ok_def tab_ok_def tab_weak_def)
  have "tab_ok c' u" for u
  proof (cases "u = t")
    case True
    then show ?thesis using c w r x by (auto simp: core_ok_def tab_ok_def tab_weak_def f o)
  next
    case False
    then have "oper c' i = oper c i" if "pending c u = Some i" for i using old [OF that] by (simp add: o)
    then show ?thesis using c False old unfolding core_ok_def tab_ok_def tab_weak_def by (auto simp: f less_Suc_eq)
  qed
  moreover have "indexes_ok c'" unfolding indexes_ok_def
  proof (intro conjI allI impI)
    fix i assume "i < length (tc_operations c')" "\<not> to_completed (oper c' i)"
    then show "\<exists>u. pending c' u = Some i"
      using c p by (cases "i = length (tc_operations c)")
        (auto simp: f o less_Suc_eq core_ok_def indexes_ok_def split: if_splits intro: exI [of _ t], metis option.distinct(1))
  next
    fix u v i assume "pending c' u = Some i" "pending c' v = Some i"
    then show "u = v" using c old [of u i] old [of v i]
      by (auto simp: f core_ok_def indexes_ok_def split: if_splits)
  qed (use c in \<open>auto simp: f core_ok_def indexes_ok_def\<close>, simp_all add: c'_def)
  moreover have "later c c'" by (auto simp: later_def f o)
  ultimately show ?thesis by (simp add: core_ok_def)
qed

definition fresh_oper :: "tab_coordinator \<Rightarrow> int \<Rightarrow> nat \<Rightarrow> bool" where
  "fresh_oper c t i \<longleftrightarrow> own_oper c t i \<and> to_phase (oper c i) = PhasePending"

definition stage_ok :: "tab_coordinator \<Rightarrow> (int \<times> nat) option \<times> tab_coordinator \<Rightarrow> bool" where
  "stage_ok c s \<longleftrightarrow> safe_step c (snd s) \<and> (\<forall>t i. fst s = Some (t, i) \<longrightarrow> fresh_oper (snd s) t i)"

lemma cancel_phase: "i < length (tc_operations c) \<Longrightarrow>
    to_phase (oper (cancelTabRefresh t c) i) = to_phase (oper c i)"
  by (simp add: cancelTabRefresh_def phase_complete split: option.split)

lemma stage_operation_safe:
  assumes s: "stage_ok c s" shows "stage_ok c (stage_operation ad a st s)"
proof -
  define t where "t = as_tabId st"
  define c1 where "c1 = cancelTabRefresh t (snd s)"
  have s1: "safe_step c c1" using s by (simp add: c1_def stage_ok_def safe_cancel)
  have ok: "core_ok (snd s)" using s safe_core by (auto simp: stage_ok_def)
  have l: "later (snd s) c1" using cancel_core [OF ok] by (simp add: c1_def)
  have keep: "fresh_oper c1 u i" if "fst s = Some (u, i)" for u i
  proof -
    have "fresh_oper (snd s) u i" using s that by (simp add: stage_ok_def)
    then have o: "own_oper (snd s) u i" "to_phase (oper (snd s) i) = PhasePending" by (simp_all add: fresh_oper_def)
    have "to_phase (oper c1 i) = to_phase (oper (snd s) i)"
      unfolding c1_def using o(1) by (intro cancel_phase) (simp add: own_oper_def)
    then show ?thesis using own_oper_later [OF o(1) l] o(2) by (simp add: fresh_oper_def)
  qed
  have idle: "pending c1 t = None" using pending_cancel [OF ok] by (simp add: c1_def)
  define go where "go \<longleftrightarrow> \<not> (as_updated st = None \<or>
    \<not> (isCurrentPanelLifecycle (snd s) t (ad_windowId ad) (as_revision st) \<and>
       participant (snd s) t = Some (ad_windowId ad)) \<or>
    \<not> tr_autoRefreshEnabled (the (as_updated st)) \<or>
    \<not> (isCurrentPanelLifecycle c1 t (ad_windowId ad) (as_revision st) \<and> participant c1 t = Some (ad_windowId ad)))"
  define x where "x = \<lparr>to_windowId = ad_windowId ad, to_revision = as_revision st,
    to_pending = \<lparr>pe_generation = wm_generation (ad_incoming ad),
      pe_mode = (case wm_mode (ad_incoming ad) of KnownMode m \<Rightarrow> m | UnknownMode \<Rightarrow> StylesMode)\<rparr>,
    to_onTabCompleted = ad_onTabCompleted ad, to_phase = PhasePending, to_completed = False\<rparr>"
  define c2 where "c2 = c1\<lparr>tc_operations := tc_operations c1 @ [x],
    tc_pendingRefreshes := jset t (length (tc_operations c1)) (tc_pendingRefreshes c1)\<rparr>"
  have e: "stage_operation ad a st s = (if go
      then (if a = Some t then Some (t, length (tc_operations c1)) else fst s, c2) else (fst s, c1))"
    unfolding stage_operation_def Let_def go_def c2_def x_def c1_def t_def by (simp only: if_not_P not_not if_cancel split: if_split) auto
  show ?thesis
  proof (cases go)
    case False
    then show ?thesis using s1 keep by (simp add: e stage_ok_def)
  next
    case True
    have k: "core_ok c2 \<and> later c1 c2" unfolding c2_def
      using True by (intro append_core [OF safe_core [OF s1] idle])
        (simp_all add: x_def go_def isCurrentPanelLifecycle_def isCurrentLifecycle_def)
    have "logged c1 c2" by (rule logged_append [of _ _ x]) (simp_all add: c2_def x_def)
    then have s2: "safe_step c c2"
      by (rule safe_more [OF s1 conjunct1 [OF k] conjunct2 [OF k]]) (simp add: c2_def)
    have "own_oper c2 t (length (tc_operations c1))"
      by (rule own_pending [OF safe_core [OF s2]]) (simp add: c2_def)
    then have "fresh_oper c2 t (length (tc_operations c1))" by (simp add: fresh_oper_def c2_def x_def)
    moreover have "fresh_oper c2 u i" if "fresh_oper c1 u i" for u i
    proof -
      have o: "own_oper c1 u i" "to_phase (oper c1 i) = PhasePending" using that by (simp_all add: fresh_oper_def)
      then have "oper c2 i = oper c1 i" by (simp add: own_oper_def c2_def nth_append)
      then show ?thesis using own_oper_later [OF o(1) conjunct2 [OF k]] o(2) by (simp add: fresh_oper_def)
    qed
    ultimately show ?thesis using True keep s2 by (auto simp: e stage_ok_def)
  qed
qed

lemma stages_safe: "stage_ok c s \<Longrightarrow> stage_ok c (fold (stage_operation ad a) sts s)"
  by (induction sts arbitrary: s) (simp_all add: stage_operation_safe)

lemma next_stage_safe:
  assumes s: "safe_step c c1" shows "safe_step c (next_stage n ad p a snapshots commits stages c1)"
proof -
  have st: "stage_ok c (fold (stage_operation ad a) stages (None, c1))"
    using s by (intro stages_safe) (simp add: stage_ok_def)
  have "safe_step c (finish_admission n ad a stages c1)"
  proof (cases "fold (stage_operation ad a) stages (None, c1)")
    case (Pair x c2)
    then show ?thesis using st safe_finish dispatch_safe
      by (auto simp: finish_admission_def stage_ok_def fresh_oper_def split: option.split)
  qed
  then show ?thesis using s by (simp add: next_stage_def Let_def safe_spawn split: list.split)
qed

lemma next_rollback_safe: "safe_step c c1 \<Longrightarrow> safe_step c (next_rollback n ad p commits ok c1)"
  by (simp add: next_rollback_def safe_spawn safe_finish safe_watermarks split: list.split option.split)

lemma accept_safe:
  assumes c: "core_ok c"
  shows "safe_step c (acceptPageRefresh n w m cb c)" "safe_step c (accept_loaded n ad reply c)"
    "safe_step c (accept_admitted n ad ws ans c)" "safe_step c (accept_active n ad ws p ans c)"
    "safe_step c (accept_staged n ad p a t r rest cs ss x reply2 c)" "safe_step c (accept_rolled n ad p cs ok x reply2 c)"
  using safe_refl [OF c]
  by (simp_all add: acceptPageRefresh_def accept_loaded_def accept_admitted_def accept_active_def accept_staged_def
      accept_rolled_def Let_def safe_settle safe_await safe_finish safe_spawn safe_log safe_watermarks
      next_stage_safe next_rollback_safe split: sum.split)

subsection \<open>Windows and tabs\<close>

lemma clear_runtime_safe:
  assumes c: "core_ok c" shows "safe_step c (clearRuntimePendingForWindow w c)"
proof -
  have "safe_step c (fold (\<lambda>(t, i) c. if to_windowId (tc_operations c ! i) = w
        then completeTabRefresh t i False c else c) ps c1)"
    if "safe_step c c1" and "\<forall>(t, i)\<in>set ps. own_oper c1 t i" for ps c1
    using that
  proof (induction ps arbitrary: c1)
    case (Cons p ps)
    obtain t i where p: "p = (t, i)" by (cases p)
    define c2 where "c2 = (if to_windowId (tc_operations c1 ! i) = w then completeTabRefresh t i False c1 else c1)"
    have own: "own_oper c1 t i" using Cons.prems by (simp add: p)
    have s2: "safe_step c c2" using safe_complete [OF Cons.prems(1) own] Cons.prems(1) by (simp add: c2_def)
    have ok: "core_ok c1" using Cons.prems(1) by (rule safe_core)
    have "to_completed (oper c1 i) \<or> pending c1 t = Some i"
      using ok own unfolding core_ok_def indexes_ok_def own_oper_def by metis
    then have "later c1 c2" using complete_core [OF ok] by (simp add: c2_def)
    then have "\<forall>(t, i)\<in>set ps. own_oper c2 t i" using Cons.prems(2) own_oper_later by auto
    with Cons.IH [OF s2] show ?case by (simp add: p c2_def)
  qed simp
  moreover have "\<forall>(t, i)\<in>set (tc_pendingRefreshes c). own_oper c t i"
    using c own_pending [OF c] by (auto simp: core_ok_def indexes_ok_def)
  ultimately show ?thesis using safe_refl [OF c] by (simp add: clearRuntimePendingForWindow_def)
qed

lemma window_safe:
  assumes c: "core_ok c"
  shows "safe_step c (beginWindowEpoch n w c)" "safe_step c (clearWindowPending n w c)"
    "safe_step c (epoch_started n w c)" "safe_step c (epoch_loaded n w reply c)"
    "safe_step c (epoch_updated n w rest reply2 c)"
  using safe_refl [OF c] clear_runtime_safe [OF c]
  by (simp_all add: beginWindowEpoch_def clearWindowPending_def epoch_started_def epoch_loaded_def
      epoch_updated_def next_epoch_state_def safe_settle safe_await safe_spawn safe_finish safe_watermarks
      split: sum.split list.split)

lemma removeTabLifecycle_safe:
  assumes c: "core_ok c" shows "safe_step c (removeTabLifecycle n t c)"
proof -
  define c1 where "c1 = leave t None (snd (advanceLifecycle t (markTerminalTab t c)))"
  have "core_ok c1 \<and> later c c1" unfolding c1_def by (rule mark_core [OF c])
  then have s: "safe_step c c1"
  proof (intro safe_moves [OF safe_refl [OF c]])
    assume "in_range c"
    then have "logged (markTerminalTab t c) c1" unfolding c1_def
      by (intro logged_advance_leave) (simp add: in_range_def markTerminalTab_def)
    moreover have "logged c (markTerminalTab t c)" by (rule logged_same) (simp_all add: markTerminalTab_def)
    ultimately show "logged c c1" by (rule logged_trans [rotated])
  qed (simp_all add: c1_def frames markTerminalTab_def)
  have n: "tc_nextLifecycleRevision (markTerminalTab t c) = tc_nextLifecycleRevision c"
    by (simp add: markTerminalTab_def)
  have "is_closing c1 t (tc_nextLifecycleRevision c)"
    using next_positive [OF c] by (simp add: c1_def is_closing_def panel_clear n)
  then show ?thesis using safe_spawn [OF s] safe_settle [OF safe_refl [OF c]]
    unfolding removeTabLifecycle_def Let_def split_beta advance_fields n c1_def [symmetric] by simp
qed

lemma detachTab_safe:
  assumes c: "core_ok c" shows "safe_step c (detachTab n t w c)"
proof (cases "panel c t = Some w")
  case True
  note k = close_tab_safe [OF c True]
  have "detachTab n t w c = (if \<not> browser_id_ok t \<or> \<not> browser_id_ok w then settle_call n CallDone c
      else await_initialized n (AtDetach t (Some (tc_nextLifecycleRevision c))) (close_tab t w c))"
    unfolding detachTab_def current_panel [OF c] True close_tab_def Let_def split_beta advance_fields by simp
  then show ?thesis using k safe_await safe_settle [OF safe_refl [OF c]] by simp
next
  case False
  then show ?thesis using safe_refl [OF c] by (simp add: detachTab_def current_panel [OF c] safe_settle safe_await)
qed

lemma detach_initialized_safe:
  assumes "core_ok c" and "\<forall>r. x = Some r \<longrightarrow> is_closing c t r"
  shows "safe_step c (detach_initialized n t x ok c)" "safe_step c (retire_optional t x c)"
  using safe_refl [OF assms(1)] assms(2)
  by (simp_all add: detach_initialized_def retire_optional_def safe_settle safe_spawn safe_retire split: option.split)

text \<open>A window being removed: every tab of it is fenced.\<close>

definition fence_ok :: "tab_coordinator \<Rightarrow> int \<Rightarrow> int list \<Rightarrow> (int \<times> nat) list \<times> tab_coordinator \<Rightarrow> bool" where
  "fence_ok c w ts s \<longleftrightarrow> safe_step c (snd s) \<and> (\<forall>(t, r)\<in>set (fst s). is_closing (snd s) t r) \<and>
     (\<forall>t\<in>set ts. jget (fst s) t = None \<longrightarrow> panel (snd s) t = Some w)"

lemma fence_panel_eq: "fence_panel w t c = leave t (Some w) c \<or>
    fence_panel w t c = setParticipant w t False (leave t (Some w) c)"
  by (simp add: fence_panel_def Let_def)

lemma fence_panel_tabs: "tabs (fence_panel w t c) = tabs (leave t (Some w) c)"
  using fence_panel_eq [of w t c] tabs_simps(6) by metis

lemma fence_panel_panel: "panel (fence_panel w t c) u = (if u = t \<and> panel c t = Some w then None else panel c u)"
  using fence_panel_tabs [of w t c] by (auto simp: tabs_def panel_clear)

lemma fence_panel_safe: "safe_step c (leave t (Some w) c1) \<Longrightarrow> safe_step c (fence_panel w t c1)"
  using fence_panel_eq [of w t c1] safe_participant by metis

lemma set_jset: "p \<in> set (jset k v m) \<Longrightarrow> p = (k, v) \<or> p \<in> set m"
  by (induction m) (auto split: if_splits)

lemma fence_tab_safe:
  assumes f: "fence_ok c w (t # ts) s" shows "fence_ok c w ts (fence_tab w t s)"
proof -
  have s: "safe_step c (snd s)" using f by (simp add: fence_ok_def)
  have ok: "core_ok (snd s)" using s by (rule safe_core)
  show ?thesis
  proof (cases "jget (fst s) t")
    case None
    define c1 where "c1 = snd (advanceLifecycle t (snd s))"
    define r where "r = tc_nextLifecycleRevision (snd s)"
    have pan: "panel c1 u = panel (snd s) u" "panel (snd s) t = Some w" for u
      using f None by (simp_all add: fence_ok_def c1_def)
    have s1: "safe_step c (fence_panel w t c1)"
      unfolding c1_def by (rule fence_panel_safe [OF safe_advance_leave [OF s]])
    have "is_closing (leave t (Some w) c1) t r"
      unfolding c1_def r_def using pan(2) by (intro advance_closing [OF ok]) simp
    then have new: "is_closing (fence_panel w t c1) t r" using closing_tabs [OF fence_panel_tabs] by blast
    have l: "later (snd s) (leave t (Some w) c1)"
      using safe_later [OF safe_advance_leave [OF safe_refl [OF ok]]] by (simp add: c1_def)
    have "is_closing (fence_panel w t c1) u q" if "(u, q) \<in> set (fst s)" for u q
      using f that closing_later [OF _ l] closing_tabs [OF fence_panel_tabs] by (auto simp: fence_ok_def)
    then have "\<forall>(u, q)\<in>set (jset t r (fst s)). is_closing (fence_panel w t c1) u q"
      using new set_jset by fastforce
    moreover have "\<forall>u\<in>set ts. jget (jset t r (fst s)) u = None \<longrightarrow> panel (fence_panel w t c1) u = Some w"
      using f by (auto simp: fence_panel_panel pan fence_ok_def)
    moreover have "fence_tab w t s = (jset t r (fst s), fence_panel w t c1)"
      by (simp add: fence_tab_def None Let_def c1_def r_def)
    ultimately show ?thesis using s1 by (simp add: fence_ok_def)
  next
    case (Some q)
    have s1: "safe_step c (fence_panel w t (snd s))" by (rule fence_panel_safe [OF safe_leave [OF s]])
    have l: "later (snd s) (leave t (Some w) (snd s))"
      using safe_later [OF safe_leave [OF safe_refl [OF ok]]] by simp
    have "is_closing (fence_panel w t (snd s)) u q" if "(u, q) \<in> set (fst s)" for u q
      using f that closing_later [OF _ l] closing_tabs [OF fence_panel_tabs] by (auto simp: fence_ok_def)
    moreover have "panel (fence_panel w t (snd s)) u = Some w"
      if "u \<in> set ts" "jget (fst s) u = None" for u
      using f that Some by (auto simp: fence_panel_panel fence_ok_def)
    ultimately show ?thesis using f s1 Some by (auto simp: fence_tab_def fence_ok_def)
  qed
qed

lemma fence_tabs_safe: "fence_ok c w ts s \<Longrightarrow> fence_ok c w [] (fold (fence_tab w) ts s)"
  by (induction ts arbitrary: s) (simp_all add: fence_tab_safe)

lemma fenceWindow_safe:
  assumes c: "core_ok c" and k: "\<forall>(t, r)\<in>set rs. is_closing c t r"
  shows "safe_step c (snd (fenceWindowLifecycle w rs c))"
    and "\<forall>(t, r)\<in>set (fst (fenceWindowLifecycle w rs c)). is_closing (snd (fenceWindowLifecycle w rs c)) t r"
proof -
  define ts where "ts = set_of (map fst (filter (\<lambda>p. snd p = w) (tc_panelWindows c)) @
                map fst (filter (\<lambda>p. snd p = w) (tc_participantWindows c)))"
  have "panel c t = Some w" if "t \<in> set ts" for t
  proof -
    have "(t, w) \<in> set (tc_panelWindows c) \<or> (t, w) \<in> set (tc_participantWindows c)"
      using that by (auto simp: ts_def)
    then have "panel c t = Some w \<or> participant c t = Some w"
      using c by (auto simp: core_ok_def indexes_ok_def)
    then show ?thesis using participant_panel [OF c] by blast
  qed
  then have "fence_ok c w ts (rs, c)" using k safe_refl [OF c] by (simp add: fence_ok_def)
  from fence_tabs_safe [OF this] show "safe_step c (snd (fenceWindowLifecycle w rs c))"
    "\<forall>(t, r)\<in>set (fst (fenceWindowLifecycle w rs c)). is_closing (snd (fenceWindowLifecycle w rs c)) t r"
    by (simp_all add: fenceWindowLifecycle_def ts_def fence_ok_def)
qed

lemma removal_fields: "safe_step c c1 \<Longrightarrow>
    safe_step c (c1\<lparr>tc_windowRemovals := m, tc_removalSettled := b\<rparr>) \<and>
    safe_step c (c1\<lparr>tc_removalSettled := b\<rparr>) \<and> safe_step c (c1\<lparr>tc_windowRemovals := m\<rparr>)"
  using safe_tabs [of c c1] by simp

lemma removeWindow_safe:
  assumes c: "core_ok c" shows "safe_step c (removeWindow n w c)"
proof (cases "jget (tc_windowRemovals c) w")
  case (Some m)
  then show ?thesis using safe_spawn [OF safe_refl [OF c]] by (simp add: removeWindow_def)
next
  case None
  define c1 where "c1 = snd (fenceWindowLifecycle w [] c)"
  define k where "k = AtRemoveWindow w (length (tc_removalSettled c1)) (fst (fenceWindowLifecycle w [] c))"
  define c2 where "c2 = await_initialized n k c1"
  have s: "safe_step c c2" unfolding c2_def
    using fenceWindow_safe [OF c, of "[]" w] by (intro safe_await) (simp_all add: k_def c1_def)
  have e: "removeWindow n w c = spawn n (OnRemoval (length (tc_removalSettled c1))) AtRemovalDone
      (spawn n (OnRemoval (length (tc_removalSettled c1))) (AtClearRemoval w (length (tc_removalSettled c1)))
        (c2\<lparr>tc_windowRemovals := jset w (length (tc_removalSettled c1)) (tc_windowRemovals c2),
          tc_removalSettled := tc_removalSettled c2 @ [False]\<rparr>))"
    by (simp add: removeWindow_def None Let_def split_beta c1_def c2_def k_def)
  show ?thesis unfolding e using removal_fields [OF s] by (simp add: safe_spawn)
qed

lemma removal_finished_safe:
  assumes c: "core_ok c" and k: "\<forall>(t, r)\<in>set rs. is_closing c t r"
  shows "safe_step c (removal_finished w m rs c)"
proof -
  have "safe_step c (fold (\<lambda>(t, r) c. retireLifecycle t r c) rs c1)"
    if "safe_step c c1" and "\<forall>(t, r)\<in>set rs. is_closing c1 t r" for c1
    using that
  proof (induction rs arbitrary: c1)
    case (Cons p rs)
    obtain t r where p: "p = (t, r)" by (cases p)
    have t: "is_closing c1 t r" using Cons.prems by (simp add: p)
    have "core_ok c1" using Cons.prems(1) by (rule safe_core)
    from safe_later [OF safe_retire [OF safe_refl [OF this] t]]
    have "\<forall>(u, q)\<in>set rs. is_closing (retireLifecycle t r c1) u q"
      using Cons.prems(2) closing_later by auto
    with Cons.IH [OF safe_retire [OF Cons.prems(1) t]] show ?case by (simp add: p)
  qed simp
  moreover have "\<forall>(t, r)\<in>set rs. is_closing (c\<lparr>tc_watermarks := jdel w (tc_watermarks c)\<rparr>) t r"
    using k closing_tabs [OF tabs_simps(7)] by blast
  ultimately have "safe_step c (fold (\<lambda>(t, r) c. retireLifecycle t r c) rs
      (c\<lparr>tc_watermarks := jdel w (tc_watermarks c)\<rparr>))"
    using safe_watermarks [OF safe_refl [OF c]] by blast
  then show ?thesis using removal_fields by (simp add: removal_finished_def Let_def)
qed

lemma removal_initialized_safe:
  assumes c: "core_ok c" and k: "\<forall>(t, r)\<in>set rs. is_closing c t r"
  shows "safe_step c (removal_initialized n w m rs ok c)"
proof -
  obtain rs' c1 where e: "fenceWindowLifecycle w rs c = (rs', c1)" by (cases "fenceWindowLifecycle w rs c")
  show ?thesis using fenceWindow_safe [OF c k, of w] removal_finished_safe [OF c k]
    by (simp add: removal_initialized_def e safe_spawn)
qed

lemma clearWindowRemoval_safe: "core_ok c \<Longrightarrow> safe_step c (clearWindowRemoval w m c)"
  using removal_fields [OF safe_refl] by (simp add: clearWindowRemoval_def safe_refl)

end
