(* ===== verification/Refresh_Runs.thy ===== *)
theory Refresh_Runs
  imports Refresh_Safety Refresh_Liveness
begin

text \<open>
  The segments of \<open>Refresh_Safety\<close> put together: every step of the coordinator keeps the invariant
  on tabs and operations and the book of what was sent. The properties of runs follow.
\<close>

declare map_of_eq_Some_iff [simp del]

subsection \<open>Steps\<close>

definition safe_inv :: "tab_coordinator \<Rightarrow> bool" where
  "safe_inv c \<longleftrightarrow> core_ok c \<and> book_ok c \<and> (\<forall>t\<in>set (tc_tasks c). cont_ok c (snd (snd t)))"

lemma safe_inv_step: "safe_inv c \<Longrightarrow> safe_step c c' \<Longrightarrow> safe_inv c'"
  unfolding safe_inv_def safe_step_def evolves_def
  using cont_ok_evolves [unfolded evolves_def] book_ok_logged by blast

lemma call_method_safe: "core_ok c \<Longrightarrow> safe_step c (call_method n m c)"
  by (cases m) (simp_all add: safe_await safe_refl panelOpened_safe panelClosed_safe updateSettings_safe
      accept_safe window_safe removeTabLifecycle_safe detachTab_safe removeWindow_safe)

lemma start_queued_safe: "core_ok c \<Longrightarrow> safe_step c (start_queued n q c)"
  by (cases q) (simp_all add: safe_spawn safe_refl window_safe activate_started_safe)

lemma initialization_safe: "core_ok c \<Longrightarrow> safe_step c (initialization_loaded k r c)"
  using safe_tabs [OF safe_refl] by (simp add: initialization_loaded_def tabs_def book_def split: sum.split)

lemma continue_on_init_safe:
  "core_ok c \<Longrightarrow> cont_ok c k \<Longrightarrow> safe_step c (continue_on_init n k ok c)"
  by (cases k) (simp_all add: safe_settle safe_spawn safe_refl safe_enqueue panelOpened_initialized_def
      panelOpened_failed_safe panelClosed_rest_safe detach_initialized_safe removal_initialized_safe)

lemma continue_on_removal_safe:
  "core_ok c \<Longrightarrow> cont_ok c k \<Longrightarrow> safe_step c (continue_on_removal n k c)"
  by (cases k) (simp_all add: safe_refl safe_settle panelClosed_rest_safe clearWindowRemoval_safe)

lemma continue_on_states_safe:
  "core_ok c \<Longrightarrow> cont_ok c k \<Longrightarrow> safe_step c (continue_on_states n k r c)"
  by (cases k) (simp_all add: safe_refl safe_settle panelClosed_rest_safe accept_safe window_safe
      initialization_safe storedEffectiveState_loaded_def detach_initialized_safe removal_finished_safe)

lemma continue_on_update_safe:
  "core_ok c \<Longrightarrow> cont_ok c k \<Longrightarrow> safe_step c (continue_on_update n k x r c)"
  by (cases k) (simp_all add: safe_refl panelOpened_updated_safe updateSettings_updated_safe accept_safe window_safe)

lemma continue_on_reply_safe:
  assumes "core_ok c" and "cont_ok c k" shows "safe_step c (continue_on_reply n k reply c)"
proof (cases reply)
  case (StateReply r)
  then show ?thesis using assms by (cases k) (simp_all add: safe_refl safe_settle state_loaded_def)
next
  case (RemoveReply r)
  then show ?thesis using assms by (cases k) (simp_all add: safe_refl safe_settle safe_retire)
qed (use assms in \<open>simp_all add: continue_on_states_safe continue_on_update_safe\<close>)

lemma continue_on_answer_safe:
  "core_ok c \<Longrightarrow> cont_ok c k \<Longrightarrow> \<not> (\<exists>t i a. k = AtPrepared t i a) \<Longrightarrow>
    safe_step c (continue_on_answer n k a c)"
  by (cases k) (simp_all add: safe_refl accept_safe dispatch_sent_safe)

lemma store_safe: "core_ok c \<Longrightarrow> safe_step c (c\<lparr>tc_store := st\<rparr>)"
  using safe_tabs [OF safe_refl] by simp

lemma resume_safe:
  assumes c: "core_ok c" and k: "cont_ok c k" and m: "matches w k"
    and t: "tc_tasks c = xs @ (n, w, k) # ys"
  shows "safe_step c (resume fails a n w k (c\<lparr>tc_tasks := xs @ ys\<rparr>))"
proof -
  let ?c = "c\<lparr>tc_tasks := xs @ ys\<rparr>"
  have l: "evolves c ?c" using logged_take [OF t] tabs_later [of ?c c] by (simp add: evolves_def)
  have s: "safe_step c ?c" using l c tabs_core(1) [of ?c c] t by (auto simp: safe_step_def)
  have ok: "core_ok ?c" using s by (rule safe_core)
  have k1: "cont_ok ?c k" by (rule cont_ok_evolves [OF k l])
  show ?thesis
  proof (cases w)
    case (OnInit j)
    then show ?thesis using safe_trans [OF s continue_on_init_safe [OF ok k1]] by simp
  next
    case (OnRemoval j)
    then show ?thesis using safe_trans [OF s continue_on_removal_safe [OF ok k1]] by simp
  next
    case (OnReply reply)
    then show ?thesis using safe_trans [OF s continue_on_reply_safe [OF ok k1]] by simp
  next
    case OnAnswer
    show ?thesis
    proof (cases "\<exists>t i b. k = AtPrepared t i b")
      case True
      then show ?thesis using OnAnswer dispatch_prepared_safe [OF c] t k by auto
    next
      case False
      then show ?thesis using OnAnswer safe_trans [OF s continue_on_answer_safe [OF ok k1]] by simp
    qed
  next
    case (OnStore request)
    obtain reply c1 where r: "run_store fails request ?c = (reply, c1)"
      by (cases "run_store fails request ?c")
    have e: "matches (OnReply reply) k" "c1 = ?c\<lparr>tc_store := tc_store c1\<rparr>"
      using run_store_matches [OF _ r, of k] m OnStore by simp_all
    have s1: "safe_step c c1" using safe_trans [OF s store_safe [OF ok]] e(2) by metis
    have l1: "evolves ?c c1" using store_safe [OF ok, of "tc_store c1"] e(2) by (simp add: safe_step_def)
    have "\<not> is_prepared i (n, OnReply reply, k)" for i
      using m OnStore by (cases k; cases request) simp_all
    then have "safe_step c (spawn n (OnReply reply) k c1)"
      by (intro safe_spawn [OF s1] cont_ok_evolves [OF k1 l1])
    then show ?thesis by (simp add: OnStore r)
  qed
qed

lemma step_safe:
  assumes "safe_inv c" and m: "tasks_match c" shows "safe_step c (coordinator_step fails c x)"
proof -
  have c: "core_ok c" using assms by (simp add: safe_inv_def)
  note s = safe_refl [OF c]
  show ?thesis
  proof (cases x)
    case (CallMethod m)
    have "safe_step c (c\<lparr>tc_calls := Suc (tc_calls c)\<rparr>)" by (rule safe_tabs [OF s]) simp_all
    then show ?thesis using safe_trans call_method_safe safe_core CallMethod by simp
  next
    case StartQueued
    have q: "safe_step c (c\<lparr>tc_queue := rest, tc_running := True\<rparr>)" for rest
      by (rule safe_tabs [OF s]) simp_all
    show ?thesis using StartQueued s safe_trans [OF q start_queued_safe [OF safe_core [OF q]]]
      by (simp split: list.split prod.split)
  next
    case (Resume i a)
    show ?thesis
    proof (cases "i < length (tc_tasks c)")
      case False
      then show ?thesis using Resume s by simp
    next
      case True
      obtain n w k where t: "tc_tasks c ! i = (n, w, k)" by (cases "tc_tasks c ! i")
      have "(n, w, k) \<in> set (tc_tasks c)" using True t nth_mem by metis
      then have "cont_ok c k" "matches w k"
        using assms by (auto simp: safe_inv_def tasks_match_def list_all_iff)
      then show ?thesis using Resume True t s
          resume_safe [OF c, of k w "take i (tc_tasks c)" n "drop (Suc i) (tc_tasks c)"]
        id_take_nth_drop [OF True] by simp
    qed
  qed
qed

lemma new_safe: "safe_inv (new_coordinator st)"
proof -
  have b: "book (new_coordinator st) = []" by (simp add: book_def new_coordinator_def)
  have "book_ok (new_coordinator st)" unfolding book_ok_def usage_def sent_def completions_def b
    by (simp add: new_coordinator_def)
  moreover have "core_ok (new_coordinator st)"
    by (simp add: core_ok_def indexes_ok_def tab_ok_def tab_weak_def new_coordinator_def lifecycleRevision_def)
  ultimately show ?thesis by (simp add: safe_inv_def new_coordinator_def)
qed

interpretation coordinator_tabs: machine "coordinator_step fails" "new_coordinator st"
  "\<lambda>c. safe_inv c \<and> accounts_inv c" for fails st
proof
  show "safe_inv (new_coordinator st) \<and> accounts_inv (new_coordinator st)"
    by (simp add: new_safe accounts_inv_new)
next
  fix c x assume "safe_inv c \<and> accounts_inv c"
  then show "safe_inv (coordinator_step fails c x) \<and> accounts_inv (coordinator_step fails c x)"
    using safe_inv_step [OF _ step_safe] accounts_inv_step by (simp add: accounts_inv_def)
qed

lemma run_safe: "safe_inv (run_coordinator fails (new_coordinator st) xs)"
  unfolding run_coordinator_def using coordinator_tabs.inv_run by blast

lemma run_step_safe: "safe_step (run_coordinator fails (new_coordinator st) xs)
    (coordinator_step fails (run_coordinator fails (new_coordinator st) xs) x)"
  using step_safe [OF run_safe] run_accounts by (simp add: accounts_inv_def)

lemma run_core: "core_ok (run_coordinator fails (new_coordinator st) xs)"
  using run_safe by (simp add: safe_inv_def)

lemma coordinator_run_append: "run_coordinator fails c (xs @ [x]) = coordinator_step fails (run_coordinator fails c xs) x"
  by (simp add: run_coordinator_def)

lemma coordinator_run_append_list: "run_coordinator fails c (xs @ ys) = run_coordinator fails (run_coordinator fails c xs) ys"
  by (simp add: run_coordinator_def)

subsection \<open>What a step sends\<close>

fun is_dispatch :: "coordinator_event \<Rightarrow> bool" where
  "is_dispatch (DispatchRefresh t i p) = True"
| "is_dispatch _ = False"

definition sends :: "tab_coordinator \<Rightarrow> coordinator_event list" where
  "sends c = filter is_dispatch (tc_log c)"

lemma sends_book: "book c' = book c \<Longrightarrow> sends c' = sends c"
proof -
  have "sends c = filter is_dispatch (book c)" for c
    unfolding sends_def book_def filter_filter by (rule filter_cong [OF refl]) (case_tac x, simp_all)
  then show "book c' = book c \<Longrightarrow> sends c' = sends c" by simp
qed

lemma sends_simps [simp]:
  "sends (spawn n w k c) = sends c" "sends (settle_call n r c) = sends c" "sends (finish_queued n r c) = sends c"
  "sends (enqueue n q c) = sends c" "sends (setParticipant v t b c) = sends c"
  "sends (c\<lparr>tc_watermarks := x1\<rparr>) = sends c" "sends (c\<lparr>tc_store := x2\<rparr>) = sends c"
  "sends (c\<lparr>tc_tasks := x3\<rparr>) = sends c" "sends (c\<lparr>tc_running := x4\<rparr>) = sends c"
  "sends (c\<lparr>tc_panelWindows := x5\<rparr>) = sends c" "sends (c\<lparr>tc_participantWindows := x6\<rparr>) = sends c"
  "sends (c\<lparr>tc_operations := x7\<rparr>) = sends c" "sends (c\<lparr>tc_pendingRefreshes := x8\<rparr>) = sends c"
  "sends (c\<lparr>tc_initialization := x9\<rparr>) = sends c" "sends (c\<lparr>tc_attempts := x10\<rparr>) = sends c"
  "sends (c\<lparr>tc_windowRemovals := x11\<rparr>) = sends c" "sends (c\<lparr>tc_removalSettled := x12\<rparr>) = sends c"
  "sends (c\<lparr>tc_queue := x16\<rparr>) = sends c" "sends (c\<lparr>tc_calls := x17\<rparr>) = sends c"
  "sends (clearPanelWindow t x c) = sends c" "sends (snd (revokeIndexedParticipant t x c)) = sends c"
  "sends (grantParticipant v t c) = sends c" "sends (snd (advanceLifecycle t c)) = sends c"
  "sends (retireLifecycle t m c) = sends c" "sends (markTerminalTab t c) = sends c"
  by (rule sends_book; simp)+

lemma sends_log [simp]: "sends (log_event e c) = (if is_dispatch e then e # sends c else sends c)"
  by (simp add: sends_def log_event_def)

lemma sends_complete [simp]: "sends (completeTabRefresh t i b c) = sends c"
  by (simp add: completeTabRefresh_def Let_def)

lemma sends_cancel [simp]: "sends (cancelTabRefresh t c) = sends c"
  by (simp add: cancelTabRefresh_def split: option.split)

lemma sends_await [simp]: "sends (await_initialized n k c) = sends c"
  by (simp add: await_initialized_def ensureInitialized_def Let_def split: option.split)

lemma sends_panels [simp]:
  "sends (panelOpened n t w c) = sends c" "sends (panelOpened_failed n t w r c) = sends c"
  "sends (panelOpened_initialized n t w r ok c) = sends c" "sends (panelOpened_updated n t w r reply c) = sends c"
  "sends (panelClosed n t x c) = sends c" "sends (panelClosed_waited n t w r ok c) = sends c"
  "sends (panelClosed_stored n t w r states c) = sends c" "sends (storedEffectiveState n t x c) = sends c"
  "sends (storedEffectiveState_loaded n t x states c) = sends c" "sends (state_loaded n t w state c) = sends c"
  "sends (updateSettings n t w a h c) = sends c" "sends (updateSettings_updated n t w a r reply c) = sends c"
  by (simp_all add: panelOpened_def panelOpened_initialized_def panelOpened_failed_def panelOpened_updated_def
      panelClosed_def panelClosed_waited_def panelClosed_stored_def storedEffectiveState_def
      storedEffectiveState_loaded_def state_loaded_def updateSettings_def updateSettings_updated_def
      Let_def split_beta split: option.split sum.split)

lemma sends_dispatch [simp]:
  "sends (dispatch n t i a c) = sends c" "sends (dispatch_sent n t i a reply c) = sends c"
  by (simp_all add: dispatch_def dispatch_sent_def)

lemma sends_stages [simp]: "sends (snd (fold (stage_operation ad a) sts s)) = sends (snd s)"
  by (induction sts arbitrary: s) (simp_all add: stage_operation_def Let_def)

lemma sends_next_stage [simp]: "sends (next_stage n ad p a ss cs sts c) = sends c"
proof -
  have "sends (finish_admission n ad a sts c) = sends c"
    using sends_stages [of ad a sts "(None, c)"]
    by (cases "fold (stage_operation ad a) sts (None, c)")
      (auto simp: finish_admission_def split: option.split)
  then show ?thesis by (simp add: next_stage_def Let_def split: list.split)
qed

lemma sends_accept [simp]:
  "sends (acceptPageRefresh n w m cb c) = sends c" "sends (accept_loaded n ad states c) = sends c"
  "sends (accept_admitted n ad ws ans c) = sends c" "sends (accept_active n ad ws p ans c) = sends c"
  "sends (next_rollback n ad p commits ok c) = sends c"
  "sends (accept_staged n ad p a t r rest cs ss x reply c) = sends c"
  "sends (accept_rolled n ad p cs ok x reply c) = sends c"
  by (simp_all add: acceptPageRefresh_def accept_loaded_def accept_admitted_def accept_active_def accept_staged_def
      accept_rolled_def next_rollback_def Let_def split: sum.split list.split option.split)

lemma sends_clear_runtime [simp]: "sends (clearRuntimePendingForWindow w c) = sends c"
proof -
  have "sends (fold (\<lambda>(t, i) c. if to_windowId (tc_operations c ! i) = w
        then completeTabRefresh t i False c else c) ps c1) = sends c1" for ps c1
    by (induction ps arbitrary: c1) auto
  then show ?thesis by (simp add: clearRuntimePendingForWindow_def)
qed

lemma sends_fence [simp]: "sends (snd (fenceWindowLifecycle w rs c)) = sends c"
proof -
  have "sends (snd (fence_tab w t s)) = sends (snd s)" for t s
    by (simp add: fence_tab_def fence_panel_def Let_def split: option.split)
  then have "sends (snd (fold (fence_tab w) ts s)) = sends (snd s)" for ts s
    by (induction ts arbitrary: s) simp_all
  then show ?thesis by (simp add: fenceWindowLifecycle_def)
qed

lemma sends_retire_all [simp]: "sends (fold (\<lambda>(t, r) c. retireLifecycle t r c) rs c) = sends c"
  by (induction rs arbitrary: c) auto

lemma sends_windows [simp]:
  "sends (beginWindowEpoch n w c) = sends c" "sends (clearWindowPending n w c) = sends c"
  "sends (epoch_started n w c) = sends c" "sends (next_epoch_state n w rest c) = sends c"
  "sends (epoch_loaded n w states c) = sends c" "sends (epoch_updated n w rest reply c) = sends c"
  "sends (activate_started n t w c) = sends c" "sends (removeTabLifecycle n t c) = sends c"
  "sends (detachTab n t w c) = sends c" "sends (detach_initialized n t x ok c) = sends c"
  "sends (retire_optional t x c) = sends c" "sends (removeWindow n w c) = sends c"
  "sends (removal_finished w m rs c) = sends c" "sends (removal_initialized n w m rs ok c) = sends c"
  "sends (clearWindowRemoval w m c) = sends c" "sends (initialization_loaded k states c) = sends c"
  by (simp_all add: beginWindowEpoch_def clearWindowPending_def epoch_started_def next_epoch_state_def
      epoch_loaded_def epoch_updated_def activate_started_def removeTabLifecycle_def detachTab_def
      detach_initialized_def retire_optional_def removeWindow_def removal_finished_def removal_initialized_def
      clearWindowRemoval_def initialization_loaded_def Let_def split_beta split: option.split sum.split list.split)

lemma sends_call: "sends (call_method n m c) = sends c"
  by (cases m) simp_all

lemma sends_queued: "sends (start_queued n q c) = sends c"
  by (cases q) simp_all

lemma sends_states: "sends (continue_on_states n k r c) = sends c"
  by (cases k) simp_all

lemma sends_update: "sends (continue_on_update n k x r c) = sends c"
  by (cases k) simp_all

lemma sends_reply: "sends (continue_on_reply n k reply c) = sends c"
proof (cases reply)
  case (StateReply r)
  then show ?thesis by (cases k) simp_all
next
  case (RemoveReply r)
  then show ?thesis by (cases k) simp_all
qed (simp_all add: sends_states sends_update)

lemma sends_init: "sends (continue_on_init n k ok c) = sends c"
  by (cases k) simp_all

lemma sends_removal: "sends (continue_on_removal n k c) = sends c"
  by (cases k) simp_all

lemma current_of_tasks: "isCurrentRefreshOperation (c\<lparr>tc_tasks := ts\<rparr>) t i = isCurrentRefreshOperation c t i"
  by (simp add: isCurrentRefreshOperation_def isCurrentPanelLifecycle_def isCurrentLifecycle_def lifecycleRevision_def)

definition sends_ok :: "tab_coordinator \<Rightarrow> tab_coordinator \<Rightarrow> bool" where
  "sends_ok c c' \<longleftrightarrow> sends c' = sends c \<or>
     (\<exists>t i. isCurrentRefreshOperation c t i \<and> sends c' = DispatchRefresh t i (to_pending (oper c i)) # sends c)"

lemma sends_answer: "sends_ok c (continue_on_answer n k a (c\<lparr>tc_tasks := ts\<rparr>))"
proof (cases "\<exists>t i b. k = AtPrepared t i b")
  case True
  then obtain t i b where k: "k = AtPrepared t i b" by blast
  show ?thesis by (auto simp: k dispatch_prepared_def current_of_tasks sends_ok_def)
next
  case False
  then show ?thesis by (cases k) (simp_all add: sends_ok_def)
qed

lemma sends_resume: "sends_ok c (resume fails a n w k (c\<lparr>tc_tasks := ts\<rparr>))"
proof (cases w)
  case (OnStore request)
  obtain reply c1 where r: "run_store fails request (c\<lparr>tc_tasks := ts\<rparr>) = (reply, c1)"
    by (cases "run_store fails request (c\<lparr>tc_tasks := ts\<rparr>)")
  have "sends c1 = sends c" using r by (cases request) (auto split: prod.splits)
  then show ?thesis by (simp add: OnStore r sends_ok_def)
next
  case OnAnswer
  then show ?thesis using sends_answer by simp
qed (simp_all add: sends_reply sends_init sends_removal sends_ok_def)

lemma sends_step: "sends_ok c (coordinator_step fails c x)"
proof (cases x)
  case (Resume i a)
  then show ?thesis using sends_resume by (auto simp: sends_ok_def split: prod.split)
qed (auto simp: sends_call sends_queued sends_ok_def split: list.split prod.split)

subsection \<open>Properties of runs\<close>

text \<open>C21:
  Along every run of the tab refresh coordinator, whatever the order in which the segments of its
  asynchronous calls run and whatever the storage and the callbacks answer: a tab participates in
  automatic refresh only in the window its panel is open in; a removed tab has no panel; and a
  pending refresh is unfinished and belongs to the tab's current window and lifecycle.
\<close>
theorem refresh_tabs_consistent:
  fixes fails st calls defines "c \<equiv> run_coordinator fails (new_coordinator st) calls"
  shows "jget (tc_participantWindows c) t \<in> {None, jget (tc_panelWindows c) t} \<and>
    set (tc_terminalTabs c) \<inter> dom (jget (tc_panelWindows c)) = {} \<and>
    (case jget (tc_pendingRefreshes c) t of None \<Rightarrow> True
     | Some i \<Rightarrow> \<not> to_completed (tc_operations c ! i) \<and>
        jget (tc_panelWindows c) t = Some (to_windowId (tc_operations c ! i)) \<and>
        lifecycleRevision c t = to_revision (tc_operations c ! i))"
proof -
  have ok: "tab_ok c u" for u using run_core [of fails st calls] by (simp add: c_def core_ok_def)
  have "set (tc_terminalTabs c) \<inter> dom (jget (tc_panelWindows c)) = {}"
    using ok by (auto simp: tab_ok_def)
  then show ?thesis using ok [of t] by (auto simp: tab_ok_def tab_weak_def split: option.split)
qed

text \<open>C20:
  A tab is only told to refresh with authority. In every state a run can reach, a step sends at
  most one refresh command, and only one that carries the operation's generation and mode while
  the operation is unfinished and still the pending one of its tab, the panel of the tab is open in
  the operation's window under the lifecycle that admitted it, the tab participates there, it was
  not removed, and the window is not being removed.
\<close>
theorem refresh_sent_authorised:
  fixes fails st calls x
  defines "c \<equiv> run_coordinator fails (new_coordinator st) calls"
  defines "c' \<equiv> coordinator_step fails c x"
  shows "sends c' = sends c \<or>
    (\<exists>t i w. sends c' = DispatchRefresh t i (to_pending (tc_operations c ! i)) # sends c \<and>
       i < length (tc_operations c) \<and> w = to_windowId (tc_operations c ! i) \<and>
       \<not> to_completed (tc_operations c ! i) \<and> jget (tc_pendingRefreshes c) t = Some i \<and>
       lifecycleRevision c t = to_revision (tc_operations c ! i) \<and>
       jget (tc_panelWindows c) t = Some w \<and> jget (tc_participantWindows c) t = Some w \<and>
       t \<notin> set (tc_terminalTabs c) \<and> jget (tc_windowRemovals c) w = None)"
proof -
  have "in_range c" using core_in_range [OF run_core] by (simp add: c_def)
  then show ?thesis using sends_step [of c fails x]
    unfolding sends_ok_def c'_def isCurrentRefreshOperation_def isCurrentPanelLifecycle_def
      isCurrentLifecycle_def Let_def in_range_def by blast
qed

text \<open>C22:
  Along every run an admitted operation is sent to its tab at most once and reports its completion
  at most once, and a completion that says the refresh was accepted is only reported for an
  operation that was sent to that tab.
\<close>
theorem refresh_sent_once:
  fixes fails st calls
  defines "events \<equiv> tc_log (run_coordinator fails (new_coordinator st) calls)"
  shows "length (filter (is_sent i) events) \<le> 1 \<and> length (filter (is_done i) events) \<le> 1 \<and>
    {(t, i). TabCompleted t i True \<in> set events} \<subseteq> {(t, i). \<exists>p. DispatchRefresh t i p \<in> set events}"
proof -
  define c where "c = run_coordinator fails (new_coordinator st) calls"
  have b: "book_ok c" using run_safe [of fails st calls] by (simp add: safe_inv_def c_def)
  have "filter (is_sent i) (book c) = filter (is_sent i) events"
    unfolding book_def filter_filter events_def c_def by (rule filter_cong [OF refl]) (case_tac x, simp_all)
  moreover have "filter (is_done i) (book c) = filter (is_done i) events"
    unfolding book_def filter_filter events_def c_def by (rule filter_cong [OF refl]) (case_tac x, simp_all)
  moreover have "usage i c \<le> 1" "completions i c \<le> 1"
    using b le_trans unfolding book_ok_def started_def closed_def by (smt (verit) le_numeral_extra(3) zero_le_one)+
  ultimately show ?thesis using b
    by (auto simp: usage_def sent_def completions_def book_ok_def dispatched_def book_def events_def c_def)
qed

text \<open>A removed tab stays silent, and the call that removes it marks it as removed.\<close>

lemma terminal_tab_silent:
  fixes later_calls
  assumes "t \<in> set (tc_terminalTabs (run_coordinator fails (new_coordinator st) calls))"
  defines "c \<equiv> run_coordinator fails (new_coordinator st) calls"
  defines "c' \<equiv> run_coordinator fails c later_calls"
  shows "jget (tc_panelWindows c') t = None \<and> jget (tc_participantWindows c') t = None \<and>
    jget (tc_pendingRefreshes c') t = None \<and>
    {e \<in> set (tc_log c'). \<exists>i p. e = DispatchRefresh t i p} = {e \<in> set (tc_log c). \<exists>i p. e = DispatchRefresh t i p}"
proof -
  let ?to = "\<lambda>c. filter (\<lambda>e. \<exists>i p. e = DispatchRefresh t i p) (sends c)"
  have run: "t \<in> set (tc_terminalTabs (run_coordinator fails c xs)) \<and> ?to (run_coordinator fails c xs) = ?to c" for xs
  proof (induction xs rule: rev_induct)
    case Nil
    then show ?case using assms(1) by (simp add: run_coordinator_def c_def)
  next
    case (snoc x xs)
    define d where "d = run_coordinator fails (new_coordinator st) (calls @ xs)"
    have d: "run_coordinator fails c xs = d" by (simp add: d_def c_def coordinator_run_append_list)
    have "set (tc_terminalTabs d) \<subseteq> set (tc_terminalTabs (coordinator_step fails d x))"
      using safe_later [OF run_step_safe, of fails st "calls @ xs" x] by (simp add: later_def d_def)
    moreover have "panel d t = None" using core_ok_terminal [OF run_core] snoc d by (simp add: d_def)
    then have "\<not> isCurrentRefreshOperation d t i" for i
      by (simp add: isCurrentRefreshOperation_def isCurrentPanelLifecycle_def Let_def)
    then have "?to (coordinator_step fails d x) = ?to d"
      using sends_step [of d fails x] unfolding sends_ok_def by auto
    ultimately show ?case using snoc d by (auto simp: coordinator_run_append)
  qed
  have core: "core_ok c'" using run_core [of fails st "calls @ later_calls"]
    by (simp add: c'_def c_def coordinator_run_append_list)
  have p: "panel c' t = None" using core_ok_terminal [OF core] run by (simp add: c'_def)
  have z: "{e \<in> set (tc_log d). \<exists>i p. e = DispatchRefresh t i p} = set (?to d)" for d
    by (auto simp: sends_def)
  have "?to c' = ?to c" using run [of later_calls] unfolding c'_def by blast
  then show ?thesis using p panel_idle [OF core p] unfolding z by simp
qed

lemma removed_is_terminal:
  assumes "browser_id_ok t"
  shows "t \<in> set (tc_terminalTabs (coordinator_step fails c (CallMethod (RemoveTab t))))"
proof -
  have "default_state t 0 \<noteq> None"
    using assms by (simp add: default_state_def createDefaultTabRefreshState_def is_generation_def
        browser_id_ok_def RESOLUTION_LIMITS_def safe_int_def)
  then show ?thesis
    by (auto simp: removeTabLifecycle_def Let_def split_beta spawn_def frames set_set_add markTerminalTab_def)
qed

text \<open>C25:
  Once a tab was removed it stays silent: from the moment \<open>removeTab\<close> is called with the id of a tab, in
  any state a run can reach, and whatever calls and answers follow, the tab has no panel, takes no
  part in automatic refresh, has no pending refresh, and no refresh command is sent to it, neither
  by this call nor ever after.
\<close>
theorem removed_tab_silent:
  fixes fails st calls later_calls
  assumes "browser_id_ok t"
  defines "c \<equiv> run_coordinator fails (new_coordinator st) calls"
  defines "c' \<equiv> run_coordinator fails (coordinator_step fails c (CallMethod (RemoveTab t))) later_calls"
  shows "jget (tc_panelWindows c') t = None \<and> jget (tc_participantWindows c') t = None \<and>
    jget (tc_pendingRefreshes c') t = None \<and>
    {e \<in> set (tc_log c'). \<exists>i p. e = DispatchRefresh t i p} = {e \<in> set (tc_log c). \<exists>i p. e = DispatchRefresh t i p}"
proof -
  let ?c = "coordinator_step fails c (CallMethod (RemoveTab t))"
  have c: "?c = run_coordinator fails (new_coordinator st) (calls @ [CallMethod (RemoveTab t)])"
    by (simp add: c_def coordinator_run_append)
  have "sends ?c = sends c" by (simp add: sends_call)
  moreover have "{e \<in> set (tc_log d). \<exists>i p. e = DispatchRefresh t i p} =
      {e \<in> set (sends d). \<exists>i p. e = DispatchRefresh t i p}" for d
    by (auto simp: sends_def)
  ultimately show ?thesis
    using terminal_tab_silent [of t fails st "calls @ [CallMethod (RemoveTab t)]" later_calls]
      removed_is_terminal [OF assms(1), of fails c] unfolding c'_def c by simp
qed

text \<open>A tab whose panel was open is removed, and its panel may not open again.\<close>

theorem removed_tab_silent_witness:
  "browser_id_ok 7 \<and>
   jget (tc_panelWindows (run_coordinator (\<lambda>n. False)
     (coordinator_step (\<lambda>n. False) (run_coordinator (\<lambda>n. False) (new_coordinator example_store) [CallMethod (PanelOpened 7 1)])
       (CallMethod (RemoveTab 7))) [CallMethod (PanelOpened 7 1)])) 7 = None"
proof -
  have "browser_id_ok 7" by (simp add: browser_id_ok_def safe_int_def)
  then show ?thesis using removed_tab_silent by blast
qed

end
