(* ===== verification/Spec2Isabelle.thy ===== *)
theory Spec2Isabelle
  imports Prelude Protocol_Text Json_Text Text_Patterns Public_Url Protocol_Messages Protocol_Schemas
    Link_Text Effects Bridge_Clients Bridge_Auth Bridge_Routes Route_Invariant Route_System
    Bridge_Router Router_Properties Bridge_Server Server_Properties Server_System Server_Theorems
    Data_Snapshot Correlation Correlation_System Correlation_Theorems
    Rules_Authority Rules_Authority_Theorems Text_Offsets Save_Observer Panel_Views
    Port_Json Dom_Locator Dom_Protocol Dom_Theorems Styles_Protocol
    Inspect_Ports Port_Commands Pseudo_Selectors Pseudo_Selector_Theorems Cascade Rule_References
    Json_Grammar Text_Regex Source_Labels Envelope_Text Source_Excerpts Source_Excerpts_Bounds
    Source_Excerpts_Theorems Rules_Publication Rules_Publication_Theorems
    Refresh_Protocol Refresh_Store Refresh_Store_Theorems Refresh_Coordinator Refresh_Calls
    Refresh_Accounts Refresh_Liveness Refresh_Core Refresh_Book Refresh_Safety Refresh_Runs
begin

text \<open>
  \<^bold>\<open>Pin-op\<close> lets a developer pick an element in the browser and see its source in the IDE. Three
  programs talk over one loopback WebSocket protocol: the browser extension
  (\<^verbatim>\<open>packages/browser-extension-core\<close>), the IDE extension (\<^verbatim>\<open>extensions/vscode\<close>) and the bridge
  (\<^verbatim>\<open>packages/bridge\<close>), a server inside the IDE that links a browser window by a seven-digit code,
  hands out tokens and routes messages. \<^verbatim>\<open>packages/protocol\<close> holds the messages and their schemas.
  This development models the protocol, the bridge as a whole, and the parts of the browser and
  IDE extensions that decide who may act on what.

  \<^bold>\<open>Conventions.\<close> A JavaScript string is a list of UTF-16 code units (\<open>jstring\<close>, \<open>js ''abc''\<close>), a
  number is \<open>JInt n\<close> or \<open>JNonInt\<close> where the code first tests for an integer, a \<^verbatim>\<open>Map\<close> is an
  association list in insertion order (\<open>jget\<close>, \<open>jset\<close>, \<open>jdel\<close>), a \<^verbatim>\<open>Set\<close> a list without
  repetition. A mutable object that is compared with \<^verbatim>\<open>===\<close> carries its identity in a field
  (\<open>rt_oid\<close>, \<open>cor_oid\<close>, \<open>tp_ref\<close>, connection numbers). Code that throws returns a sum, code that
  updates state and may throw is an \<open>eff\<close> (\<^verbatim>\<open>Effects\<close>). Random bytes, the clock, UUIDs, the URL
  and JSON parsers and the decoding of JSON into strict objects by zod are parameters.

  \<^bold>\<open>Theories.\<close>
  \<^item> \<open>Prelude\<close>: strings, numbers, maps and sets; the locales \<open>ordered_store\<close> (interpreted on
    association lists) and \<open>machine\<close> (a step function with an invariant, interpreted on every
    system below). \<open>Effects\<close>: sequencing, loops, the locale \<open>effect_relation\<close>.
  \<^item> \<open>Protocol_Text\<close> (\<^verbatim>\<open>json.ts\<close>), \<open>Json_Text\<close>, \<open>Text_Patterns\<close>, \<open>Public_Url\<close>
    (\<^verbatim>\<open>publicStylesheetUrl.ts\<close>), \<open>Protocol_Messages\<close> and \<open>Protocol_Schemas\<close> (\<^verbatim>\<open>limits.ts\<close>,
    \<^verbatim>\<open>messages.ts\<close>, \<^verbatim>\<open>references.ts\<close>), \<open>Link_Text\<close> (\<^verbatim>\<open>compatibility.ts\<close>, \<^verbatim>\<open>managedPorts.ts\<close>,
    \<^verbatim>\<open>linkCode.ts\<close>): the data of every message, the refinements of every schema, and the texts
    outside the schemas with their round trips.
  \<^item> \<open>Bridge_Clients\<close> (\<^verbatim>\<open>clientRegistry.ts\<close>, \<^verbatim>\<open>peerStateRegistry.ts\<close>): guarded connections, which
    never throw (locale \<open>bridge_connection\<close>), the registry of clients and the IDE presence.
    \<open>Bridge_Auth\<close> (\<^verbatim>\<open>auth.ts\<close>, \<^verbatim>\<open>linkAuthenticator.ts\<close>): tokens and PIN attempts, with the bound on
    guesses, the lifetime and number of tokens.
  \<^item> \<open>Bridge_Routes\<close> (\<^verbatim>\<open>replyRouteRegistry.ts\<close>): every operation of the reply route registry;
    \<open>Route_Invariant\<close>: its two indexes (locale \<open>key_index\<close>) are consistent and nothing throws;
    \<open>Route_System\<close>: every interleaving of operations, deferred registrations and preparations,
    with what routes may become.
  \<^item> \<open>Bridge_Router\<close> (\<^verbatim>\<open>router.ts\<close>) and \<open>Router_Properties\<close>: what each message of a client does,
    whom it reaches, and that routes and deliveries change together.
  \<^item> \<open>Bridge_Server\<close> (\<^verbatim>\<open>server.ts\<close>, \<^verbatim>\<open>heartbeat.ts\<close>): the handlers of sockets, timers and messages;
    \<open>Server_Properties\<close>: the invariant and what a handler may deliver; \<open>Server_System\<close>: runs of
    events; \<open>Server_Theorems\<close>: the guarantees of the server, with a concrete bridge as witness.
  \<^item> \<open>Data_Snapshot\<close> (\<^verbatim>\<open>protocolDataSnapshot.ts\<close>): the copy of values that cross a trust boundary,
    its bounds and its round trip.
  \<^item> \<open>Correlation\<close> (\<^verbatim>\<open>inspectCorrelationStore.ts\<close>, \<^verbatim>\<open>trustedIdePeerContext.ts\<close>): which answers of an
    IDE belong to which panel; \<open>Correlation_System\<close>: runs of the store with its callers;
    \<open>Correlation_Theorems\<close>: consistency, authorities as nonces, what a panel may open.
  \<^item> \<open>Rules_Authority\<close>, \<open>Rules_Authority_Theorems\<close> (\<^verbatim>\<open>rulesOpenAuthorityRegistry.ts\<close> of the
    IDE): the two-phase publication of what a rule may open.
  \<^item> \<open>Rules_Publication\<close>, \<open>Rules_Publication_Theorems\<close> (\<^verbatim>\<open>rulesSourcesPublication.ts\<close>): the message that
    names the rule sources and the authorities prepared with it; also a file name that makes it fail.
  \<^item> \<open>Text_Regex\<close> (patterns as the code writes them), \<open>Json_Grammar\<close> (which texts are JSON),
    \<open>Envelope_Text\<close> (the JSON text of a message and its bytes); \<open>Source_Labels\<close>
    (\<^verbatim>\<open>sourcePresentationMetadata.ts\<close>): what a source may be called in front of the browser.
  \<^item> \<open>Source_Excerpts\<close> (\<^verbatim>\<open>sourceExcerptRegistry.ts\<close>), \<open>Source_Excerpts_Bounds\<close> and
    \<open>Source_Excerpts_Theorems\<close>: the excerpts the IDE publishes, their bounds, and which may be opened.
  \<^item> \<open>Refresh_Protocol\<close> (\<^verbatim>\<open>refreshRuntimeProtocol.ts\<close>): the messages about automatic refresh inside the
    browser extension and their parsers. \<open>Refresh_Store\<close>, \<open>Refresh_Store_Theorems\<close>
    (\<^verbatim>\<open>tabRefreshStateStore.ts\<close>): the stored states of the tabs, as a map that saving and removing
    update, whatever the storage holds and whenever its calls fail.
  \<^item> \<open>Refresh_Coordinator\<close>, \<open>Refresh_Calls\<close> (\<^verbatim>\<open>tabRefreshCoordinator.ts\<close>): the asynchronous calls of
    the coordinator, cut at every \<^verbatim>\<open>await\<close> into segments that any interleaving may run.
    \<open>Refresh_Accounts\<close>, \<open>Refresh_Liveness\<close>: every call settles exactly once, after a bounded number
    of steps. \<open>Refresh_Core\<close>, \<open>Refresh_Book\<close>, \<open>Refresh_Safety\<close>, \<open>Refresh_Runs\<close>: who participates, and
    that a refresh is sent once, with authority, and never to a removed tab.
  \<^item> \<open>Save_Observer\<close> (\<^verbatim>\<open>refreshClassifierRegistry.ts\<close>, \<^verbatim>\<open>saveObserver.ts\<close>): which refresh a saved file
    asks for and when it is published. \<open>Panel_Views\<close> (\<^verbatim>\<open>sourceNavigationController.ts\<close>,
    \<^verbatim>\<open>rulesSourcesController.ts\<close>): the parts of the panel that step through matches and open rules.
  \<^item> \<open>Port_Json\<close>, \<open>Dom_Locator\<close> (\<^verbatim>\<open>domStableLocator.ts\<close>, the parser), \<open>Dom_Protocol\<close>
    (\<^verbatim>\<open>domProtocol.ts\<close>) and \<open>Dom_Theorems\<close>: the messages between the panel and the page about the DOM, that
    what is sent is parsed back and that a path is made to fit by a search that gives up one thing
    after another in a fixed order (the envelope of the path is a parameter that yields JSON). \<open>Styles_Protocol\<close>
    (\<^verbatim>\<open>stylesProtocol.ts\<close>, \<^verbatim>\<open>matchedStylesTypes.ts\<close>): the messages about matched styles, bounded as a whole.
  \<^item> \<open>Inspect_Ports\<close>, \<open>Port_Commands\<close> (\<^verbatim>\<open>inspectPortProtocol.ts\<close>): the commands and states between
    panel, background and page, their round trips, and that a command to open a rule arrives as the
    panel meant it. The strict objects of \<^verbatim>\<open>zod\<close> are a parameter, their refinement is modelled.
  \<^item> \<open>Pseudo_Selectors\<close>, \<open>Pseudo_Selector_Theorems\<close> (\<^verbatim>\<open>pseudoStateSelector.ts\<close>): rewriting selectors
    so that a forced \<^verbatim>\<open>:hover\<close> or \<^verbatim>\<open>:focus\<close> shows on the selected element only, against a semantics
    of selectors on any page. The parser and printer of selectors are parameters.
  \<^item> \<open>Cascade\<close> (\<^verbatim>\<open>cascadeClassifier.ts\<close>, \<^verbatim>\<open>virtualTreeRows.ts\<close>): which declaration wins, and the rows
    of a viewport. \<open>Rule_References\<close> (\<^verbatim>\<open>ruleReferenceRegistry.ts\<close>): references to native rules,
    which rule each stands for along every run of the registry, and that a reset ends them all.
  \<^item> \<open>Text_Offsets\<close> (\<^verbatim>\<open>sourceDocument.ts\<close>): offsets and positions of a text.

  \<^bold>\<open>Loops and bounds.\<close> Every definition is total: loops are recursions over lists, \<open>evict\<close> has a
  termination proof, and nothing needs fuel except that \<open>snapshotJsonData\<close> recurses on the number
  of levels left, which is the code's own depth limit. Protocol numbers are integers with the
  bounds of the schemas; counters that only grow (revisions, object identities) are natural
  numbers, standing for \<^verbatim>\<open>bigint\<close> or for JavaScript numbers far from \<^verbatim>\<open>2^53\<close>.

  \<^bold>\<open>Environment hypotheses.\<close> The server theorems assume of the parameters only what
  \<open>env_ok\<close> and \<open>event_ok\<close> name: a generated UUID is an opaque identifier that no client has yet, a
  formatted date passes the schema's date check, the clock is a date of the calendar, a random
  hexadecimal text is long enough. The witnesses instantiate them.

  \<^bold>\<open>Not modelled.\<close> Code against the DOM, CSSOM, browser extension and VS Code APIs, the source
  plugins on top of the TypeScript and PostCSS parsers, the vendored DevTools front end, and
  WebSocket, timer and promise plumbing: their behaviour is that of libraries this development
  does not have. \<^verbatim>\<open>start\<close> and \<^verbatim>\<open>stop\<close> of the bridge server are modelled up to listening on the port
  and waiting for promises.
\<close>

end
